(* ===== verification/Prelude.thy ===== *)
theory Prelude
  imports Main "HOL-Library.Word"
begin

text \<open>
  Shared vocabulary of the development.  \<open>ap_uint<W>\<close> is a \<open>W word\<close>, a one-bit flag is a
  \<open>bool\<close>, an \<open>hls::stream\<close> is the list of the values in flight, oldest first: \<open>empty()\<close>
  is \<open>xs = []\<close>, \<open>read()\<close> takes the head and \<open>write(v)\<close> appends.  The C++ streams used here
  are unbounded unless the code asks \<open>full()\<close>; where it does, the answer is an argument of
  the model.  A table indexed by a session ID is a total function on \<open>16 word\<close>; the C++
  array has \<open>TCP_MAX_SESSIONS\<close> entries and an index beyond them is undefined behaviour.
\<close>

unbundle bit_operations_syntax

section \<open>Lemma collections\<close>

named_theorems stream_simps \<open>facts on streams as lists\<close>
named_theorems bit_field \<open>bits of extracted and stored bit fields\<close>
named_theorems table_simps \<open>functional updates of session tables\<close>

section \<open>Streams\<close>

type_synonym 'a stream = "'a list"

text \<open>The values a stream received between two states of a component: what was appended.\<close>

definition written :: "'a stream \<Rightarrow> 'a stream \<Rightarrow> 'a list" where
  "written before after = drop (length before) after"

lemma written_same [simp, stream_simps]: "written xs xs = []"
  by (simp add: written_def)

lemma written_append [simp, stream_simps]: "written xs (xs @ ys) = ys"
  by (simp add: written_def)

section \<open>Bit fields: \<open>w(hi, lo)\<close> of \<open>ap_uint\<close>\<close>

text \<open>
  \<open>get_range lo w\<close> is the field of \<open>w\<close> that starts at bit \<open>lo\<close> and has the width of the
  result type; \<open>put_range lo v w\<close> is \<open>w\<close> after the assignment of \<open>v\<close> to that field.
\<close>

definition get_range :: "nat \<Rightarrow> 'a::len word \<Rightarrow> 'b::len word" where
  "get_range lo w = ucast (drop_bit lo w)"

definition put_range :: "nat \<Rightarrow> 'b::len word \<Rightarrow> 'a::len word \<Rightarrow> 'a word" where
  "put_range lo v w =
     (w AND NOT (push_bit lo (mask LENGTH('b)))) OR push_bit lo (ucast v)"

lemma bit_get_range [bit_field]:
  "bit (get_range lo w :: 'b::len word) n \<longleftrightarrow> n < LENGTH('b) \<and> bit w (lo + n)"
  by (simp add: get_range_def bit_simps)

lemma bit_put_range [bit_field]:
  fixes v :: "'b::len word" and w :: "'a::len word"
  shows "bit (put_range lo v w) n \<longleftrightarrow>
     (if lo \<le> n \<and> n < lo + LENGTH('b) then n < LENGTH('a) \<and> bit v (n - lo) else bit w n)"
  by (auto simp: put_range_def bit_simps dest: bit_imp_le_length)

lemma get_put_range_same [simp]:
  fixes v :: "'b::len word" and w :: "'a::len word"
  assumes "lo + LENGTH('b) \<le> LENGTH('a)"
  shows "get_range lo (put_range lo v w) = v"
  by (rule bit_word_eqI) (use assms in \<open>auto simp: bit_field\<close>)

lemma get_put_range_disjoint:
  fixes v :: "'b::len word" and w :: "'a::len word"
  assumes "lo + LENGTH('b) \<le> lo' \<or> lo' + LENGTH('c) \<le> lo"
  shows "(get_range lo' (put_range lo v w) :: 'c::len word) = get_range lo' w"
  by (rule bit_word_eqI) (use assms in \<open>auto simp: bit_field\<close>)

lemma get_put_range_inside:
  fixes v :: "'b::len word" and w :: "'a::len word"
  assumes "lo \<le> lo'" and "lo' + LENGTH('c) \<le> lo + LENGTH('b)" and "lo + LENGTH('b) \<le> LENGTH('a)"
  shows "(get_range lo' (put_range lo v w) :: 'c::len word) = get_range (lo' - lo) v"
  by (rule bit_word_eqI) (use assms in \<open>auto simp: bit_field\<close>)

lemma uint_put_range_zero:
  fixes v :: "'b::len word"
  assumes "k + LENGTH('b) \<le> LENGTH('a)"
  shows "uint (put_range k v 0 :: 'a::len word) = uint v * 2 ^ k"
proof -
  have "uint (put_range k v 0 :: 'a word) = push_bit k (uint v)"
    by (rule bit_eqI) (use assms in \<open>auto simp: bit_uint_iff bit_push_bit_iff bit_field dest: bit_imp_le_length\<close>)
  then show ?thesis by (simp add: push_bit_eq_mult)
qed

lemma uint_drop_bit: "uint (drop_bit k w) = uint w div 2 ^ k"
  by (simp add: unsigned_drop_bit_eq take_bit_int_eq_self) (simp add: drop_bit_eq_div)

lemma uint_get_range:
  "uint (get_range lo w :: 'b::len word) = uint w div 2 ^ lo mod 2 ^ LENGTH('b)"
  by (simp add: get_range_def unsigned_ucast_eq uint_drop_bit [symmetric]) (simp add: take_bit_eq_mod)

lemma mod_complement:
  fixes x m :: int
  assumes "0 < m"
  shows "(- x - 1) mod m = m - 1 - x mod m"
proof (rule int_mod_pos_eq)
  show "- x - 1 = m * (- (x div m) - 1) + (m - 1 - x mod m)"
    using mult_div_mod_eq [of m x] by (simp add: algebra_simps)
qed (use pos_mod_bound [OF assms, of x] pos_mod_sign [OF assms, of x] in simp_all)

section \<open>Ring buffers\<close>

text \<open>The positions of a ring buffer that hold the bytes from pointer \<open>a\<close> up to pointer \<open>p\<close>.\<close>

definition ring_used :: "'a::len word \<Rightarrow> 'a word \<Rightarrow> 'a word set" where
  "ring_used a p = (\<lambda>j. a + word_of_nat j) ` {..< unat (p - a)}"

lemma unat_uminus: "x \<noteq> 0 \<Longrightarrow> unat (- x) = 2 ^ LENGTH('a) - unat (x :: 'a::len word)"
proof -
  assume "x \<noteq> 0"
  then have "uint x \<noteq> 0" by (simp add: uint_0_iff)
  have "uint (- x) = (- uint x) mod 2 ^ LENGTH('a)" by (rule uint_word_ariths(4))
  also have "\<dots> = 2 ^ LENGTH('a) - uint x"
    using \<open>uint x \<noteq> 0\<close> unsigned_less [where 'a = int, of x] by (simp add: zmod_zminus1_eq_if)
  finally have "nat (uint (- x)) = nat (2 ^ LENGTH('a) - uint x)" by simp
  also have "\<dots> = nat (2 ^ LENGTH('a)) - nat (uint x)" by (rule nat_diff_distrib') simp_all
  finally show ?thesis by (simp only: unat_eq_nat_uint) (simp add: nat_power_eq)
qed

text \<open>Bytes written at \<open>p\<close> hit no used position as long as one position stays free.\<close>

lemma ring_free:
  fixes a p :: "'a::len word"
  assumes "n \<le> unat (a - p - 1)" and "i < n"
  shows "p + word_of_nat i \<notin> ring_used a p"
proof
  define d where "d = a - p"
  assume "p + word_of_nat i \<in> ring_used a p"
  then obtain j where j: "j < unat (- d)" and eq: "word_of_nat i = d + word_of_nat j"
    by (auto simp: ring_used_def d_def algebra_simps)
  have "d \<noteq> 0" using j by auto
  then have du: "unat (- d) = 2 ^ LENGTH('a) - unat d" "unat (d - 1) = unat d - 1"
    by (rule unat_uminus) (rule unat_minus_one [OF \<open>d \<noteq> 0\<close>])
  have "unat d < 2 ^ LENGTH('a)" by (rule unsigned_less)
  moreover have i: "i < unat d" using assms du by (simp add: d_def)
  ultimately have i': "i < 2 ^ LENGTH('a)" by linarith
  have "j + unat d < 2 ^ LENGTH('a)" using j du by simp
  then have "unat (d + word_of_nat j) = unat d + j" by (simp add: unat_word_ariths unat_of_nat)
  moreover have "unat (word_of_nat i :: 'a word) = i" using i' by (simp add: unat_of_nat)
  ultimately show False using eq i by simp
qed

section \<open>Tables\<close>

lemma table_update_other [table_simps]: "i \<noteq> j \<Longrightarrow> (t(i := v)) j = t j"
  by simp

lemma table_update_same [table_simps]: "(t(i := v)) i = v"
  by simp

section \<open>Guarded branches\<close>

text \<open>One goal per branch of a cycle, each under the guards that lead to it.\<close>

lemma if_rule: "(c \<Longrightarrow> P x) \<Longrightarrow> (\<not> c \<Longrightarrow> P y) \<Longrightarrow> P (if c then x else y)"
  by simp

section \<open>Iteration of a cycle\<close>

text \<open>Every HLS process is one function called once per clock cycle.\<close>

lemma funpow_Suc_apply: "(f ^^ Suc n) x = (f ^^ n) (f x)"
  by (simp add: funpow_swap1)

lemma funpow_invariant:
  assumes "P x" and "\<And>y. P y \<Longrightarrow> P (f y)"
  shows "P ((f ^^ n) x)"
  using assms by (induction n) simp_all

text \<open>
  A component runs in an environment: between two cycles other processes append to its input
  streams and take from its output streams.  \<open>reaches ini env cycle s\<close> holds of the states that
  such a run passes through.
\<close>

inductive reaches :: "('s \<Rightarrow> bool) \<Rightarrow> ('s \<Rightarrow> 's \<Rightarrow> bool) \<Rightarrow> ('s \<Rightarrow> 's) \<Rightarrow> 's \<Rightarrow> bool"
  for ini env cycle where
  reaches_ini: "ini s \<Longrightarrow> reaches ini env cycle s"
| reaches_env: "reaches ini env cycle s \<Longrightarrow> env s t \<Longrightarrow> reaches ini env cycle t"
| reaches_cycle: "reaches ini env cycle s \<Longrightarrow> reaches ini env cycle (cycle s)"

text \<open>The contract under which a predicate holds of every state a component passes through.\<close>

locale hls_process =
  fixes ini :: "'s \<Rightarrow> bool" and env :: "'s \<Rightarrow> 's \<Rightarrow> bool" and cycle :: "'s \<Rightarrow> 's"
    and inv :: "'s \<Rightarrow> bool"
  assumes inv_ini: "ini s \<Longrightarrow> inv s"
    and inv_env: "inv s \<Longrightarrow> env s t \<Longrightarrow> inv t"
    and inv_cycle: "inv s \<Longrightarrow> inv (cycle s)"
begin

lemma reaches_inv: "reaches ini env cycle s \<Longrightarrow> inv s"
  by (induction rule: reaches.induct) (auto intro: inv_ini inv_env inv_cycle)

lemma inv_iterate: "inv s \<Longrightarrow> inv ((cycle ^^ n) s)"
  by (rule funpow_invariant) (auto intro: inv_cycle)

end

text \<open>
  A component that runs inside another: in one cycle of the whole it makes one step of its own, and
  what the rest of the whole does to it before and after that step is something its environment may
  do.  Every run of the whole is then a run of the component.
\<close>

locale projection =
  fixes whole_ini :: "'s \<Rightarrow> bool" and whole_env :: "'s \<Rightarrow> 's \<Rightarrow> bool" and whole :: "'s \<Rightarrow> 's"
    and proj :: "'s \<Rightarrow> 't" and ini :: "'t \<Rightarrow> bool" and env :: "'t \<Rightarrow> 't \<Rightarrow> bool" and step :: "'t \<Rightarrow> 't"
  assumes proj_ini: "whole_ini s \<Longrightarrow> ini (proj s)"
    and proj_env: "whole_env s t \<Longrightarrow> env (proj s) (proj t)"
    and proj_cycle: "\<exists>a. env (proj s) a \<and> env (step a) (proj (whole s))"
begin

lemma reaches_proj: "reaches whole_ini whole_env whole s \<Longrightarrow> reaches ini env step (proj s)"
proof (induction rule: reaches.induct)
  case (reaches_cycle s)
  obtain a where "env (proj s) a" "env (step a) (proj (whole s))" using proj_cycle by blast
  then show ?case using reaches_cycle.IH by (blast intro: reaches.intros)
qed (blast intro: reaches.intros proj_ini proj_env)+

end

text \<open>
  A quantity that no step lets go down, and the number of steps after which a component whose
  every cycle lowers a measure has reached the states where the measure is 0.
\<close>

lemma measure_reaches_zero:
  fixes m :: "'s \<Rightarrow> nat"
  assumes "\<And>s. 0 < m s \<Longrightarrow> m (f s) < m s" and "\<And>s. m s = 0 \<Longrightarrow> m (f s) = 0"
  shows "m s \<le> n \<Longrightarrow> m ((f ^^ n) s) = 0"
proof (induction n arbitrary: s)
  case (Suc n)
  have "m (f s) \<le> n"
    using assms(1) [of s] assms(2) [of s] Suc.prems by (cases "m s = 0") auto
  then show ?case by (simp only: funpow_Suc_apply Suc.IH)
qed simp

end
