(* ===== verification/Toe_Types.thy ===== *)
theory Toe_Types
  imports Prelude
begin

text \<open>
  The data of \<open>src/hls/toe\<close>: the constants of \<open>toe_config.hpp\<close>, the interface words of
  \<open>utils/axi_intf.hpp\<close> and the request, response and table structs of \<open>toe_conn.hpp\<close> and
  \<open>tcp_header.hpp\<close>.  A struct is a record; a field carries a short prefix of its struct,
  because Isabelle's record fields share one name space.  A constructor of the source is a
  definition named after the struct and the kind of request it builds.  A member that a
  constructor leaves unset is 0 here; no operation of the model reads such a member.
\<close>

section \<open>\<open>toe_config.hpp\<close>\<close>

type_synonym TcpSessionID = "16 word"
type_synonym TcpPortNumber = "16 word"
type_synonym TcpSessionBufferScale = "2 word"
type_synonym TcpSessionBuffer = "18 word"
type_synonym IpAddr = "32 word"
type_synonym NetAXISDest = "4 word"
type_synonym NetAXISData = "512 word"
type_synonym NetAXISKeep = "64 word"

abbreviation TCP_MAX_SESSIONS :: nat where "TCP_MAX_SESSIONS \<equiv> 128"

abbreviation WINDOW_BITS :: nat where "WINDOW_BITS \<equiv> 18"

definition TCP_MSS :: int where [simp]: "TCP_MSS = 1460"

definition TCP_MSS_TEN_TIMES :: TcpSessionBuffer where [simp]: "TCP_MSS_TEN_TIMES = 14600"

definition TCP_MAX_RETX_ATTEMPTS :: "3 word" where [simp]: "TCP_MAX_RETX_ATTEMPTS = 4"

definition BUFFER_SIZE :: int where [simp]: "BUFFER_SIZE = 2 ^ WINDOW_BITS"

definition CONGESTION_WINDOW_MAX :: int where
  [simp]: "CONGESTION_WINDOW_MAX = BUFFER_SIZE - 2048"

definition TCP_DDR_BASE_ADDR :: "40 word" where [simp]: "TCP_DDR_BASE_ADDR = 0x4800000000"

definition INVALID_TDEST :: NetAXISDest where [simp]: "INVALID_TDEST = 0xF"

text \<open>
  The timer constants depend on \<open>__SYNTHESIS__\<close>: the simulation build uses small counts, the
  synthesised one the number of visits in which the round-robin cursor of a timer passes the
  given time, \<open>us / CLOCK_PERIOD / TCP_MAX_SESSIONS + 1\<close> with \<open>CLOCK_PERIOD = 0.003103\<close>.
\<close>

datatype build = Simulation | Synthesis

definition synth_ticks :: "nat \<Rightarrow> 32 word" where
  "synth_ticks us = word_of_nat (us * 1000000 div (3103 * TCP_MAX_SESSIONS) + 1)"

fun TIME_64us :: "build \<Rightarrow> 32 word" where
  "TIME_64us Simulation = 1"
| "TIME_64us Synthesis = synth_ticks 64"

fun TIME_1s :: "build \<Rightarrow> 32 word" where
  "TIME_1s Simulation = 1"
| "TIME_1s Synthesis = synth_ticks 1000000"

fun TIME_5s :: "build \<Rightarrow> 32 word" where
  "TIME_5s Simulation = 5"
| "TIME_5s Synthesis = synth_ticks 5000000"

fun TIME_10s :: "build \<Rightarrow> 32 word" where
  "TIME_10s Simulation = 10"
| "TIME_10s Synthesis = synth_ticks 10000000"

fun TIME_15s :: "build \<Rightarrow> 32 word" where
  "TIME_15s Simulation = 15"
| "TIME_15s Synthesis = synth_ticks 15000000"

fun TIME_30s :: "build \<Rightarrow> 32 word" where
  "TIME_30s Simulation = 30"
| "TIME_30s Synthesis = synth_ticks 30000000"

fun TIME_60s :: "build \<Rightarrow> 32 word" where
  "TIME_60s Simulation = 60"
| "TIME_60s Synthesis = synth_ticks 60000000"

fun TIME_50ms :: "build \<Rightarrow> 32 word" where
  "TIME_50ms Simulation = 50"
| "TIME_50ms Synthesis = synth_ticks 50000"

section \<open>Interface words: \<open>utils/axi_intf.hpp\<close>\<close>

record NetAXISWord =
  nw_data :: NetAXISData
  nw_dest :: NetAXISDest
  nw_keep :: NetAXISKeep
  nw_last :: bool

definition NetAXISWord_default :: NetAXISWord where
  "NetAXISWord_default = \<lparr>nw_data = 0, nw_dest = 0, nw_keep = 0, nw_last = False\<rparr>"

section \<open>Session state and four tuples\<close>

datatype SessionState =
    CLOSED | SYN_SENT | SYN_RECEIVED | ESTABLISHED | FIN_WAIT_1 | FIN_WAIT_2
  | CLOSING | TIME_WAIT | LAST_ACK

fun state_to_string :: "SessionState \<Rightarrow> string" where
  "state_to_string CLOSED = ''CLOSED''"
| "state_to_string SYN_SENT = ''SYN_SENT''"
| "state_to_string SYN_RECEIVED = ''SYN_RECEIVED''"
| "state_to_string ESTABLISHED = ''ESTABLISHED''"
| "state_to_string FIN_WAIT_1 = ''FIN_WAIT_1''"
| "state_to_string FIN_WAIT_2 = ''FIN_WAIT_2''"
| "state_to_string CLOSING = ''CLOSING''"
| "state_to_string TIME_WAIT = ''TIME_WAIT''"
| "state_to_string LAST_ACK = ''LAST_ACK''"

lemma state_to_string_inj: "inj state_to_string"
proof (rule injI)
  fix x y show "state_to_string x = state_to_string y \<Longrightarrow> x = y"
    by (cases x; cases y) simp_all
qed

text \<open>A four tuple is a datatype, so that it can carry the order that the struct defines.\<close>

datatype FourTuple =
  FourTuple (src_ip_addr: IpAddr) (dst_ip_addr: IpAddr)
            (src_tcp_port: TcpPortNumber) (dst_tcp_port: TcpPortNumber)

definition FourTuple_default :: FourTuple where
  "FourTuple_default = FourTuple 0 0 0 0"

definition FourTuple_less :: "FourTuple \<Rightarrow> FourTuple \<Rightarrow> bool" where
  "FourTuple_less t other =
     (if src_ip_addr t < src_ip_addr other then True
      else if src_ip_addr t = src_ip_addr other then
        (if src_tcp_port t < src_tcp_port other then True
         else if src_tcp_port t = src_tcp_port other then
           (if dst_ip_addr t < dst_ip_addr other then True
            else if dst_ip_addr t = dst_ip_addr other then
              (if dst_tcp_port t < dst_tcp_port other then True else False)
            else False)
         else False)
      else False)"

instantiation FourTuple :: linorder
begin

definition less_FourTuple :: "FourTuple \<Rightarrow> FourTuple \<Rightarrow> bool" where
  "less_FourTuple = FourTuple_less"

definition less_eq_FourTuple :: "FourTuple \<Rightarrow> FourTuple \<Rightarrow> bool" where
  "less_eq_FourTuple s t \<longleftrightarrow> FourTuple_less s t \<or> s = t"

instance
proof
  fix x y z :: FourTuple
  show "(x < y) = (x \<le> y \<and> \<not> y \<le> x)"
    by (cases x; cases y)
      (auto simp: less_FourTuple_def less_eq_FourTuple_def FourTuple_less_def split: if_splits)
  show "x \<le> x" by (simp add: less_eq_FourTuple_def)
  show "x \<le> y \<Longrightarrow> y \<le> z \<Longrightarrow> x \<le> z"
    by (cases x; cases y; cases z)
      (auto simp: less_eq_FourTuple_def FourTuple_less_def split: if_splits)
  show "x \<le> y \<Longrightarrow> y \<le> x \<Longrightarrow> x = y"
    by (cases x; cases y)
      (auto simp: less_eq_FourTuple_def FourTuple_less_def split: if_splits)
  show "x \<le> y \<or> y \<le> x"
    by (cases x; cases y)
      (auto simp: less_eq_FourTuple_def FourTuple_less_def split: if_splits)
qed

end


section \<open>Requests and responses: state table and SAR tables\<close>

record StateTableReq =
  sr_session_id :: TcpSessionID
  sr_state :: SessionState
  sr_write :: bool

definition StateTableReq_default :: StateTableReq where
  "StateTableReq_default = \<lparr>sr_session_id = 0, sr_state = CLOSED, sr_write = False\<rparr>"

definition StateTableReq_read :: "TcpSessionID \<Rightarrow> StateTableReq" where
  "StateTableReq_read sid = \<lparr>sr_session_id = sid, sr_state = CLOSED, sr_write = False\<rparr>"

definition StateTableReq_write :: "TcpSessionID \<Rightarrow> SessionState \<Rightarrow> StateTableReq" where
  "StateTableReq_write sid st = \<lparr>sr_session_id = sid, sr_state = st, sr_write = True\<rparr>"

record RxSarTableEntry =
  rxe_recvd :: "32 word"
  rxe_app_read :: TcpSessionBuffer
  rxe_win_shift :: TcpSessionBufferScale

record RxSarLookupRsp =
  rxl_recvd :: "32 word"
  rxl_win_shift :: TcpSessionBufferScale
  rxl_win_size :: "16 word"

record RxEngToRxSarReq =
  rxr_recvd :: "32 word"
  rxr_session_id :: TcpSessionID
  rxr_win_shift :: TcpSessionBufferScale
  rxr_write :: bool
  rxr_init :: bool

definition RxEngToRxSarReq_read :: "TcpSessionID \<Rightarrow> RxEngToRxSarReq" where
  "RxEngToRxSarReq_read sid =
     \<lparr>rxr_recvd = 0, rxr_session_id = sid, rxr_win_shift = 0, rxr_write = False, rxr_init = False\<rparr>"

definition RxEngToRxSarReq_write :: "TcpSessionID \<Rightarrow> 32 word \<Rightarrow> RxEngToRxSarReq" where
  "RxEngToRxSarReq_write sid recvd =
     \<lparr>rxr_recvd = recvd, rxr_session_id = sid, rxr_win_shift = 0, rxr_write = True, rxr_init = False\<rparr>"

definition RxEngToRxSarReq_init ::
  "TcpSessionID \<Rightarrow> 32 word \<Rightarrow> TcpSessionBufferScale \<Rightarrow> RxEngToRxSarReq" where
  "RxEngToRxSarReq_init sid recvd wsopt =
     \<lparr>rxr_recvd = recvd, rxr_session_id = sid, rxr_win_shift = wsopt, rxr_write = True, rxr_init = True\<rparr>"

record RxSarAppReqRsp =
  rxa_session_id :: TcpSessionID
  rxa_app_read :: TcpSessionBuffer
  rxa_write :: bool

definition RxSarAppReqRsp_read :: "TcpSessionID \<Rightarrow> RxSarAppReqRsp" where
  "RxSarAppReqRsp_read sid = \<lparr>rxa_session_id = sid, rxa_app_read = 0, rxa_write = False\<rparr>"

definition RxSarAppReqRsp_write :: "TcpSessionID \<Rightarrow> TcpSessionBuffer \<Rightarrow> RxSarAppReqRsp" where
  "RxSarAppReqRsp_write sid appd = \<lparr>rxa_session_id = sid, rxa_app_read = appd, rxa_write = True\<rparr>"

record TxSarTableEntry =
  txe_ackd :: "32 word"
  txe_not_ackd :: "32 word"
  txe_recv_window :: "16 word"
  txe_app_written :: TcpSessionBuffer
  txe_cong_window :: TcpSessionBuffer
  txe_slowstart_threshold :: TcpSessionBuffer
  txe_win_shift :: TcpSessionBufferScale
  txe_retrans_count :: "2 word"
  txe_fast_retrans :: bool
  txe_fin_is_ready :: bool
  txe_fin_is_sent :: bool

record RxEngToTxSarReq =
  rts_session_id :: TcpSessionID
  rts_ackd :: "32 word"
  rts_recv_window :: "16 word"
  rts_retrans_count :: "2 word"
  rts_fast_retrans :: bool
  rts_win_shift :: TcpSessionBufferScale
  rts_win_shift_write :: bool
  rts_cong_window :: TcpSessionBuffer
  rts_write :: bool

definition RxEngToTxSarReq_read :: "TcpSessionID \<Rightarrow> RxEngToTxSarReq" where
  "RxEngToTxSarReq_read sid =
     \<lparr>rts_session_id = sid, rts_ackd = 0, rts_recv_window = 0, rts_retrans_count = 0,
      rts_fast_retrans = False, rts_win_shift = 0, rts_win_shift_write = False,
      rts_cong_window = 0, rts_write = False\<rparr>"

text \<open>The update constructors: without and with the peer's window scale.\<close>

definition RxEngToTxSarReq_update ::
  "TcpSessionID \<Rightarrow> 32 word \<Rightarrow> 16 word \<Rightarrow> TcpSessionBuffer \<Rightarrow> 2 word \<Rightarrow> bool
   \<Rightarrow> TcpSessionBufferScale \<Rightarrow> RxEngToTxSarReq" where
  "RxEngToTxSarReq_update sid ackd recv_win cong_win count fast_retrans win_shift =
     \<lparr>rts_session_id = sid, rts_ackd = ackd, rts_recv_window = recv_win,
      rts_retrans_count = count, rts_fast_retrans = fast_retrans, rts_win_shift = win_shift,
      rts_win_shift_write = False, rts_cong_window = cong_win, rts_write = True\<rparr>"

definition RxEngToTxSarReq_update_shift ::
  "TcpSessionID \<Rightarrow> 32 word \<Rightarrow> 16 word \<Rightarrow> TcpSessionBuffer \<Rightarrow> 2 word \<Rightarrow> bool \<Rightarrow> bool
   \<Rightarrow> 4 word \<Rightarrow> RxEngToTxSarReq" where
  "RxEngToTxSarReq_update_shift sid ackd recv_win cong_win count fastRetransmitted
       win_shift_write win_shift =
     \<lparr>rts_session_id = sid, rts_ackd = ackd, rts_recv_window = recv_win,
      rts_retrans_count = count, rts_fast_retrans = fastRetransmitted,
      rts_win_shift = ucast win_shift, rts_win_shift_write = win_shift_write,
      rts_cong_window = cong_win, rts_write = True\<rparr>"

record TxSarToRxEngRsp =
  trr_perv_ack :: "32 word"
  trr_next_byte :: "32 word"
  trr_cong_window :: TcpSessionBuffer
  trr_slowstart_threshold :: TcpSessionBuffer
  trr_retrans_count :: "2 word"
  trr_fast_retrans :: bool
  trr_win_shift :: TcpSessionBufferScale

record TxEngToTxSarReq =
  ttr_session_id :: TcpSessionID
  ttr_not_ackd :: "32 word"
  ttr_write :: bool
  ttr_init :: bool
  ttr_fin_is_ready :: bool
  ttr_fin_is_sent :: bool
  ttr_retrans_req :: bool

definition TxEngToTxSarReq_read :: "TcpSessionID \<Rightarrow> TxEngToTxSarReq" where
  "TxEngToTxSarReq_read sid =
     \<lparr>ttr_session_id = sid, ttr_not_ackd = 0, ttr_write = False, ttr_init = False,
      ttr_fin_is_ready = False, ttr_fin_is_sent = False, ttr_retrans_req = False\<rparr>"

definition TxEngToTxSarReq_write ::
  "TcpSessionID \<Rightarrow> 32 word \<Rightarrow> bool \<Rightarrow> bool \<Rightarrow> bool \<Rightarrow> TxEngToTxSarReq" where
  "TxEngToTxSarReq_write sid not_ackd init fin_is_ready fin_is_sent =
     \<lparr>ttr_session_id = sid, ttr_not_ackd = not_ackd, ttr_write = True, ttr_init = init,
      ttr_fin_is_ready = fin_is_ready, ttr_fin_is_sent = fin_is_sent, ttr_retrans_req = False\<rparr>"

text \<open>
  \<open>TxEngToTxSarRetransReq\<close> reuses the request: the threshold travels in \<open>not_ackd\<close>.
\<close>

definition TxEngToTxSarRetransReq :: "TcpSessionID \<Rightarrow> TcpSessionBuffer \<Rightarrow> TxEngToTxSarReq" where
  "TxEngToTxSarRetransReq sid ssthresh =
     \<lparr>ttr_session_id = sid, ttr_not_ackd = ucast ssthresh, ttr_write = True, ttr_init = False,
      ttr_fin_is_ready = False, ttr_fin_is_sent = False, ttr_retrans_req = True\<rparr>"

definition get_threshold :: "TxEngToTxSarReq \<Rightarrow> TcpSessionBuffer" where
  "get_threshold req = get_range 0 (ttr_not_ackd req)"

lemma get_threshold_TxEngToTxSarRetransReq [simp]:
  "get_threshold (TxEngToTxSarRetransReq sid ssthresh) = ssthresh"
  by (rule bit_word_eqI)
    (simp add: get_threshold_def TxEngToTxSarRetransReq_def bit_field bit_simps)

record TxSarToTxEngRsp =
  tte_ackd :: "32 word"
  tte_not_ackd :: "32 word"
  tte_min_window :: TcpSessionBuffer
  tte_app_written :: TcpSessionBuffer
  tte_fin_is_ready :: bool
  tte_fin_is_sent :: bool
  tte_curr_length :: TcpSessionBuffer
  tte_used_length :: TcpSessionBuffer
  tte_used_length_rst :: TcpSessionBuffer
  tte_usable_window :: TcpSessionBuffer
  tte_ackd_eq_not_ackd :: bool
  tte_not_ackd_short :: "32 word"
  tte_usablewindow_b_mss :: bool
  tte_not_ackd_plus_mss :: "32 word"
  tte_win_shift :: "4 word"

definition TxSarToTxEngRsp_default :: TxSarToTxEngRsp where
  "TxSarToTxEngRsp_default =
     \<lparr>tte_ackd = 0, tte_not_ackd = 0, tte_min_window = 0, tte_app_written = 0,
      tte_fin_is_ready = False, tte_fin_is_sent = False, tte_curr_length = 0,
      tte_used_length = 0, tte_used_length_rst = 0, tte_usable_window = 0,
      tte_ackd_eq_not_ackd = False, tte_not_ackd_short = 0, tte_usablewindow_b_mss = False,
      tte_not_ackd_plus_mss = 0, tte_win_shift = 0\<rparr>"

record TxAppToTxSarReq =
  tas_session_id :: TcpSessionID
  tas_app_written :: TcpSessionBuffer

record TxSarToTxAppReq =
  sta_session_id :: TcpSessionID
  sta_ackd :: TcpSessionBuffer
  sta_init :: bool

definition TxSarToTxAppReq_ackd :: "TcpSessionID \<Rightarrow> TcpSessionBuffer \<Rightarrow> TxSarToTxAppReq" where
  "TxSarToTxAppReq_ackd sid ackd = \<lparr>sta_session_id = sid, sta_ackd = ackd, sta_init = False\<rparr>"

definition TxSarToTxAppReq_init :: "TcpSessionID \<Rightarrow> TcpSessionBuffer \<Rightarrow> bool \<Rightarrow> TxSarToTxAppReq" where
  "TxSarToTxAppReq_init sid ackd init = \<lparr>sta_session_id = sid, sta_ackd = ackd, sta_init = init\<rparr>"

section \<open>Port table\<close>

record PortTableEntry =
  pe_is_open :: bool
  pe_role_id :: NetAXISDest

record ListenPortReq =
  lq_data :: TcpPortNumber
  lq_dest :: NetAXISDest

record ListenPortRspNoTDEST =
  lr_port_number :: "16 word"
  lr_open_successfully :: bool
  lr_wrong_port_number :: bool
  lr_already_open :: bool

record ListenPortRsp =
  lr_data :: ListenPortRspNoTDEST
  lr_dest :: NetAXISDest

record PtableToRxEngRsp =
  pr_is_open :: bool
  pr_role_id :: NetAXISDest

section \<open>Events, timers and notifications\<close>

datatype EventType = TX | RT | ACK | SYN | SYN_ACK | FIN | RST | ACK_NODELAY | RT_CONT

fun event_type_to_string :: "EventType \<Rightarrow> string" where
  "event_type_to_string TX = ''TX''"
| "event_type_to_string RT = ''RT''"
| "event_type_to_string ACK = ''ACK''"
| "event_type_to_string SYN = ''SYN''"
| "event_type_to_string SYN_ACK = ''SYN_ACK''"
| "event_type_to_string FIN = ''FIN''"
| "event_type_to_string RST = ''RST''"
| "event_type_to_string ACK_NODELAY = ''ACK_NODELAY''"
| "event_type_to_string RT_CONT = ''RT_CONT''"

lemma event_type_to_string_inj: "inj event_type_to_string"
proof (rule injI)
  fix x y show "event_type_to_string x = event_type_to_string y \<Longrightarrow> x = y"
    by (cases x; cases y) simp_all
qed

record Event =
  ev_type :: EventType
  ev_session_id :: TcpSessionID
  ev_buf_addr :: TcpSessionBuffer
  ev_length :: "16 word"
  ev_retrans_cnt :: "3 word"

definition Event_basic :: "EventType \<Rightarrow> TcpSessionID \<Rightarrow> Event" where
  "Event_basic type sid =
     \<lparr>ev_type = type, ev_session_id = sid, ev_buf_addr = 0, ev_length = 0, ev_retrans_cnt = 0\<rparr>"

definition Event_retrans :: "EventType \<Rightarrow> TcpSessionID \<Rightarrow> 3 word \<Rightarrow> Event" where
  "Event_retrans type sid cnt =
     \<lparr>ev_type = type, ev_session_id = sid, ev_buf_addr = 0, ev_length = 0, ev_retrans_cnt = cnt\<rparr>"

definition Event_data :: "EventType \<Rightarrow> TcpSessionID \<Rightarrow> TcpSessionBuffer \<Rightarrow> 16 word \<Rightarrow> Event" where
  "Event_data type sid addr len =
     \<lparr>ev_type = type, ev_session_id = sid, ev_buf_addr = addr, ev_length = len, ev_retrans_cnt = 0\<rparr>"

text \<open>\<open>struct EventWithTuple : public Event\<close> is a record extension.\<close>

record EventWithTuple = Event +
  ev_four_tuple :: FourTuple

definition EventWithTuple_of :: "Event \<Rightarrow> FourTuple \<Rightarrow> EventWithTuple" where
  "EventWithTuple_of ev tuple = Event.extend ev \<lparr>ev_four_tuple = tuple\<rparr>"

definition EventWithTuple_of_event :: "Event \<Rightarrow> EventWithTuple" where
  "EventWithTuple_of_event ev = EventWithTuple_of ev FourTuple_default"

lemma EventWithTuple_of_fields [simp]:
  "ev_type (EventWithTuple_of ev t) = ev_type ev"
  "ev_session_id (EventWithTuple_of ev t) = ev_session_id ev"
  "ev_buf_addr (EventWithTuple_of ev t) = ev_buf_addr ev"
  "ev_length (EventWithTuple_of ev t) = ev_length ev"
  "ev_retrans_cnt (EventWithTuple_of ev t) = ev_retrans_cnt ev"
  "ev_four_tuple (EventWithTuple_of ev t) = t"
  by (simp_all add: EventWithTuple_of_def Event.extend_def)

text \<open>\<open>RstEvent\<close> carries the sequence number of the offending segment in \<open>buf_addr\<close> and
  \<open>length\<close> and says with \<open>retrans_cnt\<close> whether a session ID is known.\<close>

definition RstEvent_seq :: "TcpSessionID \<Rightarrow> 32 word \<Rightarrow> bool \<Rightarrow> Event" where
  "RstEvent_seq sid seq has_session_id =
     \<lparr>ev_type = RST, ev_session_id = sid, ev_buf_addr = ucast (get_range 16 seq :: 16 word),
      ev_length = get_range 0 seq, ev_retrans_cnt = of_bool has_session_id\<rparr>"

definition get_ack_number :: "('a) Event_scheme \<Rightarrow> 32 word" where
  "get_ack_number ev =
     put_range 0 (ev_length ev) (put_range 16 (ucast (ev_buf_addr ev) :: 16 word) 0)"

definition has_session_id :: "('a) Event_scheme \<Rightarrow> bool" where
  "has_session_id ev \<longleftrightarrow> ev_retrans_cnt ev \<noteq> 0"

record RxEngToRetransTimerReq =
  rr_session_id :: TcpSessionID
  rr_stop :: bool

record TxEngToRetransTimerReq =
  tr_session_id :: TcpSessionID
  tr_type :: EventType

record OpenConnRspNoTDEST =
  oc_session_id :: TcpSessionID
  oc_success :: bool

record AppNotificationNoTDEST =
  an_session_id :: TcpSessionID
  an_length :: "16 word"
  an_ip_addr :: IpAddr
  an_dst_tcp_port :: TcpPortNumber
  an_closed :: bool

definition AppNotification_closed :: "TcpSessionID \<Rightarrow> bool \<Rightarrow> AppNotificationNoTDEST" where
  "AppNotification_closed sid closed =
     \<lparr>an_session_id = sid, an_length = 0, an_ip_addr = 0, an_dst_tcp_port = 0, an_closed = closed\<rparr>"

definition AppNotification_data ::
  "TcpSessionID \<Rightarrow> 16 word \<Rightarrow> IpAddr \<Rightarrow> TcpPortNumber \<Rightarrow> bool \<Rightarrow> AppNotificationNoTDEST" where
  "AppNotification_data sid len addr port closed =
     \<lparr>an_session_id = sid, an_length = len, an_ip_addr = addr, an_dst_tcp_port = port,
      an_closed = closed\<rparr>"

section \<open>Session lookup and the CAM\<close>

datatype SlookupSource = RX | TX_APP

datatype SlookupOp = INSERT | DELETE

record RxEngToSlookupReq =
  rsl_four_tuple :: FourTuple
  rsl_allow_creation :: bool
  rsl_role_id :: NetAXISDest

record TxAppToSlookupReq =
  tsl_four_tuple :: FourTuple
  tsl_role_id :: NetAXISDest

record ReverseTableToTxEngRsp =
  rt_four_tuple :: FourTuple
  rt_role_id :: NetAXISDest

record SessionLookupRsp =
  sl_session_id :: TcpSessionID
  sl_hit :: bool
  sl_role_id :: NetAXISDest

record RtlSLookupToCamLupReq =
  cl_key :: FourTuple
  cl_source :: SlookupSource

record RtlSlookupToCamUpdReq =
  cu_op :: SlookupOp
  cu_key :: FourTuple
  cu_value :: TcpSessionID
  cu_source :: SlookupSource

record RtlCamToSlookupLupRsp =
  clr_key :: FourTuple
  clr_session_id :: TcpSessionID
  clr_hit :: bool
  clr_source :: SlookupSource

record RtlCamToSlookupUpdRsp =
  cur_op :: SlookupOp
  cur_key :: FourTuple
  cur_session_id :: TcpSessionID
  cur_success :: bool
  cur_source :: SlookupSource

section \<open>Memory commands\<close>

record MemBufferRWCmd =
  mb_addr :: "32 word"
  mb_length :: "16 word"
  mb_next_addr :: "19 word"

definition MemBufferRWCmd_default :: MemBufferRWCmd where
  "MemBufferRWCmd_default = \<lparr>mb_addr = 0, mb_length = 0, mb_next_addr = 0\<rparr>"

text \<open>\<open>next_addr(WINDOW_BITS)\<close> is set when the access reaches the end of the session buffer.\<close>

definition MemBufferRWCmd_new :: "32 word \<Rightarrow> 16 word \<Rightarrow> MemBufferRWCmd" where
  "MemBufferRWCmd_new addr len =
     \<lparr>mb_addr = addr, mb_length = len,
      mb_next_addr = ucast (get_range 0 addr :: 18 word) + ucast len\<rparr>"

record MemBufferRWCmdDoubleAccess =
  md_double_access :: bool
  md_byte_offset :: "6 word"

definition MemBufferRWCmdDoubleAccess_default :: MemBufferRWCmdDoubleAccess where
  "MemBufferRWCmdDoubleAccess_default = \<lparr>md_double_access = False, md_byte_offset = 0\<rparr>"

record DataMoverCmd =
  dm_bbt :: "23 word"
  dm_type :: bool
  dm_dsa :: "6 word"
  dm_eof :: bool
  dm_drr :: bool
  dm_saddr :: "40 word"
  dm_tag :: "4 word"
  dm_rsvd :: "4 word"

definition DataMoverCmd_default :: DataMoverCmd where
  "DataMoverCmd_default =
     \<lparr>dm_bbt = 0, dm_type = False, dm_dsa = 0, dm_eof = False, dm_drr = False, dm_saddr = 0,
      dm_tag = 0, dm_rsvd = 0\<rparr>"

definition DataMoverCmd_new :: "32 word \<Rightarrow> 23 word \<Rightarrow> DataMoverCmd" where
  "DataMoverCmd_new addr len =
     \<lparr>dm_bbt = len, dm_type = True, dm_dsa = 0, dm_eof = True, dm_drr = True,
      dm_saddr = ucast addr + TCP_DDR_BASE_ADDR, dm_tag = 0, dm_rsvd = 0\<rparr>"

record DataMoverStatus =
  ds_tag :: "4 word"
  ds_interr :: bool
  ds_decerr :: bool
  ds_slverr :: bool
  ds_okay :: bool

end
