(* ===== verification/Axi_Utils.thy ===== *)
theory Axi_Utils
  imports Toe_Types
begin

text \<open>
  \<open>utils/axi_utils.cpp\<close>, \<open>utils/axi_utils.hpp\<close> and \<open>toe/toe_utils.hpp\<close>: the byte order of a value,
  the keep mask of a length, and the functions that put the bytes of two consecutive 64 byte
  words together.  Every function is related to the bytes of the words: byte \<open>i\<close> is
  \<open>data(8 * i + 7, 8 * i)\<close>, valid when \<open>keep[i]\<close> is set.
\<close>

section \<open>Byte order\<close>

text \<open>\<open>SwapByte\<close> of \<open>utils/axi_utils.hpp\<close>: the bytes of a value in reverse order.\<close>

fun swap_bytes :: "nat \<Rightarrow> 'a::len word \<Rightarrow> 'a word \<Rightarrow> 'a word" where
  "swap_bytes 0 w temp = temp"
| "swap_bytes (Suc i) w temp =
     put_range (i * 8) (get_range (LENGTH('a) - i * 8 - 8) w :: 8 word) (swap_bytes i w temp)"

definition SwapByte :: "'a::len word \<Rightarrow> 'a word" where
  "SwapByte w = swap_bytes (LENGTH('a) div 8) w 0"

lemma bit_swap_bytes:
  fixes w temp :: "'a::len word"
  assumes "i * 8 \<le> LENGTH('a)"
  shows "bit (swap_bytes i w temp) n \<longleftrightarrow>
    (if n < i * 8 then bit w (LENGTH('a) - (n div 8) * 8 - 8 + n mod 8) else bit temp n)"
  using assms
proof (induction i)
  case (Suc i)
  show ?case
  proof (cases "i * 8 \<le> n \<and> n < i * 8 + 8")
    case True
    then have "n div 8 = i" by auto
    moreover from this have "n mod 8 = n - i * 8" by (simp add: minus_div_mult_eq_mod [symmetric])
    ultimately
    show ?thesis using True Suc.prems by (auto simp: bit_field)
  next
    case False
    then show ?thesis using Suc by (auto simp: bit_field)
  qed
qed simp

lemma bit_SwapByte:
  fixes w :: "'a::len word"
  assumes "8 dvd LENGTH('a)"
  shows "bit (SwapByte w) n \<longleftrightarrow>
    n < LENGTH('a) \<and> bit w (LENGTH('a) - (n div 8) * 8 - 8 + n mod 8)"
  using assms by (simp add: SwapByte_def bit_swap_bytes)

lemma SwapByte_involution:
  fixes w :: "'a::len word"
  assumes "8 dvd LENGTH('a)"
  shows "SwapByte (SwapByte w) = w"
proof (rule bit_word_eqI)
  fix n
  assume n: "n < LENGTH('a)"
  obtain k where k: "LENGTH('a) = 8 * k" using assms by (elim dvdE)
  let ?m = "LENGTH('a) - (n div 8) * 8 - 8 + n mod 8"
  have "n div 8 < k" using n k by (simp add: less_mult_imp_div_less mult.commute)
  then obtain d where d: "k = Suc (n div 8 + d)" by (auto dest: less_imp_Suc_add)
  have m: "?m = 8 * d + n mod 8" using k d by simp
  then have "?m div 8 = d" "?m mod 8 = n mod 8" by simp_all
  moreover have "?m < LENGTH('a)" using m k d mod_less_divisor [of 8 n] by simp
  ultimately show "bit (SwapByte (SwapByte w)) n \<longleftrightarrow> bit w n"
    using k n d by (simp add: bit_SwapByte [OF assms])
qed

section \<open>Keep masks\<close>

definition keep_table :: "NetAXISKeep list" where
  "keep_table = [
     -1, 0x1, 0x3, 0x7,
     0xf, 0x1f, 0x3f, 0x7f,
     0xff, 0x1ff, 0x3ff, 0x7ff,
     0xfff, 0x1fff, 0x3fff, 0x7fff,
     0xffff, 0x1ffff, 0x3ffff, 0x7ffff,
     0xfffff, 0x1fffff, 0x3fffff, 0x7fffff,
     0xffffff, 0x1ffffff, 0x3ffffff, 0x7ffffff,
     0xfffffff, 0x1fffffff, 0x3fffffff, 0x7fffffff,
     0xffffffff, 0x1ffffffff, 0x3ffffffff, 0x7ffffffff,
     0xfffffffff, 0x1fffffffff, 0x3fffffffff, 0x7fffffffff,
     0xffffffffff, 0x1ffffffffff, 0x3ffffffffff, 0x7ffffffffff,
     0xfffffffffff, 0x1fffffffffff, 0x3fffffffffff, 0x7fffffffffff,
     0xffffffffffff, 0x1ffffffffffff, 0x3ffffffffffff, 0x7ffffffffffff,
     0xfffffffffffff, 0x1fffffffffffff, 0x3fffffffffffff, 0x7fffffffffffff,
     0xffffffffffffff, 0x1ffffffffffffff, 0x3ffffffffffffff, 0x7ffffffffffffff,
     0xfffffffffffffff, 0x1fffffffffffffff, 0x3fffffffffffffff, 0x7fffffffffffffff]"

definition DataLengthToAxisKeep :: "6 word \<Rightarrow> NetAXISKeep" where
  "DataLengthToAxisKeep len = keep_table ! unat len"

lemma keep_table_nth:
  assumes "i < 64"
  shows "keep_table ! i = (if i = 0 then - 1 else mask i)"
proof -
  have "list_all (\<lambda>i. keep_table ! i = (if i = 0 then - 1 else mask i)) [0..<64]"
    by code_simp
  then show ?thesis using assms by (simp add: list_all_iff)
qed

section \<open>Two words into one\<close>

text \<open>
  The source spells out one case per byte offset; case \<open>k\<close> concatenates \<open>cur(8k-1, 0)\<close> above
  \<open>prev(511, 8k)\<close> (\<open>ConcatTwoWords\<close>) or \<open>cur(511-8k, 0)\<close> above \<open>prev(8k-1, 0)\<close>
  (\<open>MergeTwoWordsHead\<close>), and the keep bits likewise.  Shifting a 512 bit value to the left drops
  the bits beyond its width, as the ranges do.  Destination and last flag stay as they were.
\<close>

definition ConcatTwoWords :: "NetAXISWord \<Rightarrow> NetAXISWord \<Rightarrow> 6 word \<Rightarrow> NetAXISWord \<Rightarrow> NetAXISWord" where
  "ConcatTwoWords cur_word prev_word byte_offset send_word =
     (let k = unat byte_offset in
      if k = 0 then send_word\<lparr>nw_data := nw_data cur_word, nw_keep := nw_keep cur_word\<rparr>
      else send_word
        \<lparr>nw_data := push_bit (512 - 8 * k) (nw_data cur_word) OR drop_bit (8 * k) (nw_data prev_word),
         nw_keep := push_bit (64 - k) (nw_keep cur_word) OR drop_bit k (nw_keep prev_word)\<rparr>)"

definition MergeTwoWordsHead :: "NetAXISWord \<Rightarrow> NetAXISWord \<Rightarrow> 6 word \<Rightarrow> NetAXISWord \<Rightarrow> NetAXISWord" where
  "MergeTwoWordsHead cur_word prev_word byte_offset send_word =
     (let k = unat byte_offset in
      if k = 0 then send_word\<lparr>nw_data := nw_data cur_word, nw_keep := nw_keep cur_word\<rparr>
      else send_word
        \<lparr>nw_data := push_bit (8 * k) (nw_data cur_word) OR take_bit (8 * k) (nw_data prev_word),
         nw_keep := push_bit k (nw_keep cur_word) OR take_bit k (nw_keep prev_word)\<rparr>)"

text \<open>\<open>shift_byte << 3\<close> on an \<open>ap_uint<6>\<close> keeps six bits: the shift of the data is the number of
  bits modulo 64, while the keep bits are shifted by the whole offset.\<close>

definition RightShiftWord :: "NetAXISWord \<Rightarrow> 6 word \<Rightarrow> NetAXISWord \<Rightarrow> NetAXISWord" where
  "RightShiftWord cur_word shift_byte send_word =
     send_word\<lparr>nw_data := drop_bit (unat (push_bit 3 shift_byte)) (nw_data cur_word),
               nw_keep := drop_bit (unat shift_byte) (nw_keep cur_word)\<rparr>"

section \<open>Bytes\<close>

definition word_byte :: "NetAXISWord \<Rightarrow> nat \<Rightarrow> 8 word" where
  "word_byte w i = get_range (8 * i) (nw_data w)"

definition word_bytes :: "NetAXISWord \<Rightarrow> 8 word list" where
  "word_bytes w = map (word_byte w) (filter (bit (nw_keep w)) [0..<64])"

lemma bit_word_byte: "bit (word_byte w i) n \<longleftrightarrow> n < 8 \<and> bit (nw_data w) (8 * i + n)"
  by (simp add: word_byte_def bit_field)

lemma unat_6: "unat (k :: 6 word) < 64"
proof -
  have "unat k < 2 ^ LENGTH(6)" by (rule unsigned_less)
  then show ?thesis by simp
qed

lemma byte_ConcatTwoWords:
  assumes "0 < unat k" "i < 64"
  shows "word_byte (ConcatTwoWords cur prev k send) i =
     (if i < 64 - unat k then word_byte prev (i + unat k) else word_byte cur (i - (64 - unat k)))"
proof (rule bit_word_eqI)
  fix n
  assume n: "n < LENGTH(8)"
  have k: "unat k < 64" by (rule unat_6)
  show "bit (word_byte (ConcatTwoWords cur prev k send) i) n \<longleftrightarrow> bit
     (if i < 64 - unat k then word_byte prev (i + unat k) else word_byte cur (i - (64 - unat k))) n"
  proof (cases "i < 64 - unat k")
    case True
    then have "8 * i + n < 512 - 8 * unat k" using n by simp
    then show ?thesis using True assms n k
      by (auto simp: ConcatTwoWords_def Let_def bit_word_byte bit_simps algebra_simps)
  next
    case False
    then have g: "512 - 8 * unat k \<le> 8 * i + n" "8 * i + n < 512" using n assms(2) by simp_all
    have "\<not> bit (nw_data prev) (8 * unat k + (8 * i + n))"
      using g k bit_imp_le_length [of "nw_data prev" "8 * unat k + (8 * i + n)"] by auto
    then show ?thesis using False assms n k g
      by (auto simp: ConcatTwoWords_def Let_def bit_word_byte bit_simps algebra_simps diff_mult_distrib2)
  qed
qed

lemma keep_ConcatTwoWords:
  assumes "0 < unat k" "i < 64"
  shows "bit (nw_keep (ConcatTwoWords cur prev k send)) i =
     (if i < 64 - unat k then bit (nw_keep prev) (i + unat k) else bit (nw_keep cur) (i - (64 - unat k)))"
  using assms unat_6 [of k]
  by (auto simp: ConcatTwoWords_def Let_def bit_simps algebra_simps dest: bit_imp_le_length)

lemma byte_MergeTwoWordsHead:
  assumes "0 < unat k" "i < 64"
  shows "word_byte (MergeTwoWordsHead cur prev k send) i =
     (if i < unat k then word_byte prev i else word_byte cur (i - unat k))"
  using assms unat_6 [of k]
  by (intro bit_word_eqI)
    (auto simp: MergeTwoWordsHead_def Let_def bit_word_byte bit_simps algebra_simps diff_mult_distrib2)

lemma keep_MergeTwoWordsHead:
  assumes "0 < unat k" "i < 64"
  shows "bit (nw_keep (MergeTwoWordsHead cur prev k send)) i =
     (if i < unat k then bit (nw_keep prev) i else bit (nw_keep cur) (i - unat k))"
  using assms unat_6 [of k]
  by (auto simp: MergeTwoWordsHead_def Let_def bit_simps)

text \<open>The lanes of a word, from the first byte on: the byte where \<open>keep\<close> is set, \<open>None\<close> elsewhere.\<close>

definition lanes :: "NetAXISWord \<Rightarrow> 8 word option list" where
  "lanes w = map (\<lambda>i. if bit (nw_keep w) i then Some (word_byte w i) else None) [0..<64]"

lemma length_lanes [simp]: "length (lanes w) = 64"
  by (simp add: lanes_def)

lemma nth_lanes:
  "i < 64 \<Longrightarrow> lanes w ! i = (if bit (nw_keep w) i then Some (word_byte w i) else None)"
  by (simp add: lanes_def)

lemma lanes_default [simp]: "lanes NetAXISWord_default = replicate 64 None"
  by (rule nth_equalityI) (simp_all add: nth_lanes NetAXISWord_default_def)

lemma lanes_ConcatTwoWords:
  assumes "0 < unat k"
  shows "lanes (ConcatTwoWords cur prev k send) = drop (unat k) (lanes prev) @ take (unat k) (lanes cur)"
proof (rule nth_equalityI)
  show "length (lanes (ConcatTwoWords cur prev k send))
      = length (drop (unat k) (lanes prev) @ take (unat k) (lanes cur))"
    using unat_6 [of k] by simp
  fix i
  assume "i < length (lanes (ConcatTwoWords cur prev k send))"
  then show "lanes (ConcatTwoWords cur prev k send) ! i
      = (drop (unat k) (lanes prev) @ take (unat k) (lanes cur)) ! i"
    using assms unat_6 [of k]
    by (auto simp: nth_lanes nth_append keep_ConcatTwoWords byte_ConcatTwoWords add.commute)
qed

lemma lanes_MergeTwoWordsHead:
  assumes "0 < unat k"
  shows "lanes (MergeTwoWordsHead cur prev k send)
     = take (unat k) (lanes prev) @ take (64 - unat k) (lanes cur)"
proof (rule nth_equalityI)
  show "length (lanes (MergeTwoWordsHead cur prev k send))
      = length (take (unat k) (lanes prev) @ take (64 - unat k) (lanes cur))"
    using unat_6 [of k] by simp
  fix i
  assume "i < length (lanes (MergeTwoWordsHead cur prev k send))"
  then show "lanes (MergeTwoWordsHead cur prev k send) ! i
      = (take (unat k) (lanes prev) @ take (64 - unat k) (lanes cur)) ! i"
    using assms unat_6 [of k]
    by (auto simp: nth_lanes nth_append keep_MergeTwoWordsHead byte_MergeTwoWordsHead)
qed

text \<open>The words that a process sends which keeps the previous word and joins each new one to it,
  with an empty word at the end.\<close>

fun realign :: "6 word \<Rightarrow> NetAXISWord \<Rightarrow> NetAXISWord list \<Rightarrow> NetAXISWord list" where
  "realign k prev [] = [ConcatTwoWords NetAXISWord_default prev k NetAXISWord_default]"
| "realign k prev (w # ws) = ConcatTwoWords w prev k NetAXISWord_default # realign k w ws"

lemma lanes_realign:
  assumes "0 < unat k"
  shows "concat (map lanes (realign k prev ws))
       = drop (unat k) (lanes prev @ concat (map lanes ws)) @ replicate (unat k) None"
proof (induction ws arbitrary: prev)
  case Nil
  then show ?case using assms unat_6 [of k] by (simp add: lanes_ConcatTwoWords min_def)
next
  case (Cons w ws)
  have "take (unat k) (lanes w) @ drop (unat k) (lanes w @ xs) = lanes w @ xs" for xs
    using unat_6 [of k] by simp
  then show ?case
    using assms unat_6 [of k] Cons.IH [of w] by (simp add: lanes_ConcatTwoWords)
qed

text \<open>Joining each word to its predecessor at a byte offset \<open>k\<close> drops the first \<open>k\<close> lanes of the
  packet and moves every other lane, with its valid bit, by \<open>k\<close>: nothing is lost, doubled or
  reordered, for packets of any length and every offset.\<close>

theorem realign_drops_offset:
  assumes "0 < unat k"
  shows "concat (map lanes (realign k prev ws))
       = drop (unat k) (lanes prev @ concat (map lanes ws)) @ replicate (unat k) None"
  using assms by (rule lanes_realign)

theorem realign_drops_offset_witness:
  "concat (map lanes (realign 3 NetAXISWord_default [NetAXISWord_default])) = replicate 128 None"
proof -
  have "replicate 61 (None :: 8 word option) @ replicate 64 None @ replicate 3 None = replicate 128 None"
    by (simp flip: replicate_add)
  then show ?thesis
    using realign_drops_offset [of 3 NetAXISWord_default "[NetAXISWord_default]"] by simp
qed

text \<open>The valid bytes of a sequence of words, read off the lanes.\<close>

definition somes :: "'a option list \<Rightarrow> 'a list" where
  "somes xs = List.map_filter (\<lambda>x. x) xs"

lemma somes_simps [simp]:
  "somes [] = []" "somes (None # xs) = somes xs" "somes (Some x # xs) = x # somes xs"
  by (simp_all add: somes_def map_filter_simps)

lemma somes_append [simp]: "somes (xs @ ys) = somes xs @ somes ys"
  by (induction xs) (auto simp: somes_def map_filter_def)

lemma somes_None [simp]: "somes (replicate n None) = []"
  by (induction n) simp_all

lemma somes_map: "somes (map (\<lambda>i. if P i then Some (f i) else None) xs) = map f (filter P xs)"
  by (induction xs) simp_all

definition packet_bytes :: "NetAXISWord list \<Rightarrow> 8 word list" where
  "packet_bytes ws = concat (map word_bytes ws)"

lemma word_bytes_lanes: "word_bytes w = somes (lanes w)"
  by (simp only: word_bytes_def lanes_def somes_map)

lemma packet_bytes_lanes: "packet_bytes ws = somes (concat (map lanes ws))"
  by (induction ws) (simp_all add: packet_bytes_def word_bytes_lanes)

lemma packet_bytes_simps [simp]:
  "packet_bytes [] = []" "packet_bytes (w # ws) = word_bytes w @ packet_bytes ws"
  "packet_bytes (us @ vs) = packet_bytes us @ packet_bytes vs"
  by (simp_all add: packet_bytes_def)

section \<open>\<open>RemoveIpHeader\<close>\<close>

text \<open>The IP header of \<open>4 * ip_header_length\<close> bytes is replaced by what follows, 12 bytes kept for the
  pseudo header.  Case 9 of the source takes \<open>prev.keep(63, 36)\<close> where the pattern of the other
  cases gives \<open>prev.keep(63, 24)\<close>.\<close>

definition RemoveIpHeader :: "NetAXISWord \<Rightarrow> NetAXISWord \<Rightarrow> 4 word \<Rightarrow> NetAXISWord \<Rightarrow> NetAXISWord" where
  "RemoveIpHeader cur_word prev_word ip_header_length send_word =
     (let send_word = send_word\<lparr>nw_dest := nw_dest prev_word\<rparr>;
          k = 4 * unat ip_header_length - 12 in
      if 5 \<le> unat ip_header_length then
        send_word
          \<lparr>nw_data := push_bit (512 - 8 * k) (nw_data cur_word) OR drop_bit (8 * k) (nw_data prev_word),
           nw_keep := push_bit (64 - k) (nw_keep cur_word)
             OR drop_bit (if ip_header_length = 9 then 36 else k) (nw_keep prev_word)\<rparr>
      else send_word)"

lemma RemoveIpHeader_Concat:
  assumes "5 \<le> unat ihl" "ihl \<noteq> 9"
  shows "RemoveIpHeader cur prev ihl send =
     ConcatTwoWords cur prev (word_of_nat (4 * unat ihl - 12)) (send\<lparr>nw_dest := nw_dest prev\<rparr>)"
proof -
  have "unat ihl < 2 ^ LENGTH(4)" by (rule unsigned_less)
  then have "unat (word_of_nat (4 * unat ihl - 12) :: 6 word) = 4 * unat ihl - 12"
    by (simp add: unat_of_nat)
  then show ?thesis using assms by (simp add: RemoveIpHeader_def ConcatTwoWords_def Let_def)
qed

lemma RemoveIpHeader_cut:
  assumes "5 \<le> unat ihl" and "ihl \<noteq> 9"
  shows "lanes (RemoveIpHeader cur prev ihl send)
     = drop (4 * unat ihl - 12) (lanes prev) @ take (4 * unat ihl - 12) (lanes cur)"
proof -
  have "unat ihl < 2 ^ LENGTH(4)" by (rule unsigned_less)
  then have "unat (word_of_nat (4 * unat ihl - 12) :: 6 word) = 4 * unat ihl - 12"
    by (simp add: unat_of_nat)
  then show ?thesis
    using assms by (simp add: RemoveIpHeader_Concat lanes_ConcatTwoWords)
qed

text \<open>For every IP header length but 9 the header is cut out exactly: the lanes after it move down
  and the next word fills up.\<close>

theorem RemoveIpHeader_lanes:
  assumes "5 \<le> unat ihl" and "ihl \<noteq> 9"
  shows "lanes (RemoveIpHeader cur prev ihl send)
     = drop (4 * unat ihl - 12) (lanes prev) @ take (4 * unat ihl - 12) (lanes cur)"
  using assms by (rule RemoveIpHeader_cut)

definition full_word :: NetAXISWord where
  "full_word = \<lparr>nw_data = 0, nw_dest = 0, nw_keep = - 1, nw_last = False\<rparr>"

theorem RemoveIpHeader_lanes_witness:
  "lanes (RemoveIpHeader NetAXISWord_default full_word 5 full_word)
   = drop 8 (lanes full_word) @ replicate 8 None"
  using RemoveIpHeader_lanes [of 5 NetAXISWord_default full_word full_word] by simp

text \<open>With a header of nine words the valid bits of twelve payload bytes are lost, however full the
  words are.\<close>

theorem RemoveIpHeader_nine_loses_bytes:
  assumes "28 \<le> i" and "i < 40"
  shows "lanes (RemoveIpHeader cur prev 9 send) ! i = None"
  using assms by (auto simp: nth_lanes RemoveIpHeader_def Let_def bit_simps dest: bit_imp_le_length)

theorem RemoveIpHeader_nine_loses_bytes_witness:
  "lanes (RemoveIpHeader full_word full_word 9 full_word) ! 30 = None \<and> lanes full_word ! (30 + 24) = Some 0"
  using RemoveIpHeader_nine_loses_bytes [of 30 full_word full_word full_word]
  by (simp add: nth_lanes full_word_def word_byte_def get_range_def)

section \<open>Streams\<close>

text \<open>\<open>AxiStreamMerger\<close> forwards one value per cycle, the first stream before the second.\<close>

fun AxiStreamMerger :: "'a stream \<Rightarrow> 'a stream \<Rightarrow> 'a stream \<Rightarrow> 'a stream \<times> 'a stream \<times> 'a stream"
where
  "AxiStreamMerger (x # in1) in2 out = (in1, in2, out @ [x])"
| "AxiStreamMerger [] (x # in2) out = ([], in2, out @ [x])"
| "AxiStreamMerger [] [] out = ([], [], out)"

text \<open>\<open>AxiStreamSwitch\<close> sends a value to the stream of its destination and drops it when it has
  neither of the two.\<close>

fun AxiStreamSwitch :: "('a \<Rightarrow> NetAXISDest) \<Rightarrow> NetAXISDest \<Rightarrow> NetAXISDest \<Rightarrow> 'a stream \<times> 'a stream \<times> 'a stream
    \<Rightarrow> 'a stream \<times> 'a stream \<times> 'a stream" where
  "AxiStreamSwitch dest d0 d1 ([], out0, out1) = ([], out0, out1)"
| "AxiStreamSwitch dest d0 d1 (x # xs, out0, out1) =
     (if dest x = d0 then (xs, out0 @ [x], out1)
      else if dest x = d1 then (xs, out0, out1 @ [x])
      else (xs, out0, out1))"

end
