(* ===== verification/Tcp_Header.thy ===== *)
theory Tcp_Header
  imports Axi_Utils
begin

text \<open>
  \<open>toe/tcp_header.hpp\<close>: the fields of a TCP segment as the engines pass them on
  (\<open>TcpHeaderMeta\<close>, \<open>TcpPseudoHeaderMeta\<close>).  Ports and addresses are kept in the order of the
  wire, numbers and lengths are byte-swapped.
\<close>

section \<open>Meta data\<close>

record TcpHeaderMeta =
  th_src_port :: "16 word"
  th_dest_port :: "16 word"
  th_seq_number :: "32 word"
  th_ack_number :: "32 word"
  th_win_size :: "16 word"
  th_data_offset :: "4 word"
  th_cwr :: bool
  th_ecn :: bool
  th_urg :: bool
  th_ack :: bool
  th_psh :: bool
  th_rst :: bool
  th_syn :: bool
  th_fin :: bool
  th_win_scale :: TcpSessionBufferScale
  th_payload_length :: "16 word"

definition TcpHeaderMeta_default :: TcpHeaderMeta where
  "TcpHeaderMeta_default =
     \<lparr>th_src_port = 0, th_dest_port = 0, th_seq_number = 0, th_ack_number = 0, th_win_size = 0,
      th_data_offset = 0, th_cwr = False, th_ecn = False, th_urg = False, th_ack = False,
      th_psh = False, th_rst = False, th_syn = False, th_fin = False, th_win_scale = 0,
      th_payload_length = 0\<rparr>"

text \<open>SYN and FIN take one sequence number each.\<close>

definition get_payload_length :: "TcpHeaderMeta \<Rightarrow> 16 word" where
  "get_payload_length h = th_payload_length h + of_bool (th_fin h) + of_bool (th_syn h)"

record TcpPseudoHeaderMeta =
  tm_src_ip :: IpAddr
  tm_dest_ip :: IpAddr
  tm_header :: TcpHeaderMeta
  tm_tcp_options :: "320 word"

definition TcpPseudoHeaderMeta_default :: TcpPseudoHeaderMeta where
  "TcpPseudoHeaderMeta_default =
     \<lparr>tm_src_ip = 0, tm_dest_ip = 0, tm_header = TcpHeaderMeta_default, tm_tcp_options = 0\<rparr>"

end
