(* ===== verification/Memory_Access.thy ===== *)
theory Memory_Access
  imports Axi_Utils
begin

text \<open>
  \<open>memory_access/memory_access.hpp\<close>: the session buffers in external memory.  A buffer is a ring of
  \<open>2 ^ 18\<close> bytes; an access that crosses its end is split into two commands for the data mover,
  and the data is realigned.  The templates are instantiated for the receive side (in
  \<open>rx_app_intf\<close> and \<open>rx_engine\<close>) and for the transmit side; only the log differs, except in
  \<open>GetSessionMemAddr\<close>, which has the side as its first argument.
\<close>

section \<open>Addresses\<close>

definition GetSessionMemAddr :: "bool \<Rightarrow> TcpSessionID \<Rightarrow> TcpSessionBuffer \<Rightarrow> 32 word" where
  "GetSessionMemAddr is_rx sid app_rw =
     put_range 0 app_rw (put_range 18 (get_range 0 sid :: 13 word)
       (put_range 31 (of_bool (\<not> is_rx) :: 1 word) 0))"

text \<open>Within the configured number of sessions no two buffer positions share an address, neither of
  two sessions, nor of two sides, nor of two offsets: the buffers do not overlap.\<close>

theorem session_addresses_injective:
  assumes "unat sid < TCP_MAX_SESSIONS" and "unat sid' < TCP_MAX_SESSIONS"
  shows "GetSessionMemAddr is_rx sid app_rw = GetSessionMemAddr is_rx' sid' app_rw' \<longleftrightarrow>
     is_rx = is_rx' \<and> sid = sid' \<and> app_rw = app_rw'"
proof
  assume eq: "GetSessionMemAddr is_rx sid app_rw = GetSessionMemAddr is_rx' sid' app_rw'"
  have b: "(get_range 0 (GetSessionMemAddr r i a) :: 18 word) = a"
      "(get_range 18 (GetSessionMemAddr r i a) :: 13 word) = get_range 0 i"
      "(get_range 31 (GetSessionMemAddr r i a) :: 1 word) = of_bool (\<not> r)" for r i a
    by (simp_all add: GetSessionMemAddr_def get_put_range_disjoint)
  have "app_rw = app_rw'" using b(1) eq by metis
  moreover have "(of_bool (\<not> is_rx) :: 1 word) = of_bool (\<not> is_rx')" using b(3) eq by metis
  then have "is_rx = is_rx'" by (simp add: of_bool_def split: if_splits)
  moreover have "(get_range 0 sid :: 13 word) = get_range 0 sid'" using b(2) eq by metis
  then have "unat sid = unat sid'"
    using assms(1,2) by (simp add: word_unat_eq_iff get_range_def unsigned_ucast_eq take_bit_nat_eq_self)
  ultimately show "is_rx = is_rx' \<and> sid = sid' \<and> app_rw = app_rw'" by (simp add: word_unat_eq_iff)
qed simp

theorem session_addresses_injective_witness:
  "GetSessionMemAddr True 5 7 \<noteq> GetSessionMemAddr True 6 7"
  using session_addresses_injective [of 5 6 True 7 True 7] by simp

section \<open>Read commands\<close>

record ReadCmd =
  rc_read_cmd_is_breakdown :: bool
  rc_inner_cmd :: MemBufferRWCmd
  rc_first_cmd_bbt :: "16 word"
  rc_mem_read_cmd :: "MemBufferRWCmd stream"
  rc_mover_read_cmd :: "DataMoverCmd stream"
  rc_mem_buffer_double_access :: "MemBufferRWCmdDoubleAccess stream"

definition split_read :: "MemBufferRWCmd \<Rightarrow> ReadCmd \<Rightarrow> ReadCmd" where
  "split_read cmd s =
     (let s = s\<lparr>rc_inner_cmd := cmd\<rparr> in
      if bit (mb_next_addr cmd) WINDOW_BITS then
        (let first = word_of_int (BUFFER_SIZE - uint (get_range 0 (mb_addr cmd) :: 18 word)) in
         s\<lparr>rc_first_cmd_bbt := first, rc_read_cmd_is_breakdown := True,
           rc_mover_read_cmd := rc_mover_read_cmd s @ [DataMoverCmd_new (mb_addr cmd) (ucast first)],
           rc_mem_buffer_double_access := rc_mem_buffer_double_access s @
             [\<lparr>md_double_access = True, md_byte_offset = get_range 0 first\<rparr>]\<rparr>)
      else
        s\<lparr>rc_mover_read_cmd := rc_mover_read_cmd s @
            [DataMoverCmd_new (mb_addr cmd) (ucast (mb_length cmd))],
          rc_mem_buffer_double_access :=
            rc_mem_buffer_double_access s @ [MemBufferRWCmdDoubleAccess_default]\<rparr>)"

definition second_read :: "ReadCmd \<Rightarrow> ReadCmd" where
  "second_read s =
     (let cmd = (rc_inner_cmd s)\<lparr>mb_addr := put_range 0 (0 :: 18 word) (mb_addr (rc_inner_cmd s))\<rparr> in
      s\<lparr>rc_inner_cmd := cmd, rc_read_cmd_is_breakdown := False,
        rc_mover_read_cmd := rc_mover_read_cmd s @
          [DataMoverCmd_new (mb_addr cmd) (ucast (mb_length cmd) - ucast (rc_first_cmd_bbt s))]\<rparr>)"

definition ReadDataSendCmd :: "ReadCmd \<Rightarrow> ReadCmd" where
  "ReadDataSendCmd s =
     (if \<not> rc_read_cmd_is_breakdown s then
        (case rc_mem_read_cmd s of
           cmd # cmds \<Rightarrow> split_read cmd (s\<lparr>rc_mem_read_cmd := cmds\<rparr>)
         | [] \<Rightarrow> s)
      else second_read s)"

text \<open>The bytes of external memory that a command of the data mover addresses, and those that a
  request for a session buffer asks for: the offset runs modulo the buffer size.\<close>

definition cmd_bytes :: "DataMoverCmd \<Rightarrow> nat list" where
  "cmd_bytes c = map (\<lambda>i. unat (dm_saddr c) + i) [0..<unat (dm_bbt c)]"

definition session_bytes :: "MemBufferRWCmd \<Rightarrow> nat list" where
  "session_bytes c = (let a = unat (mb_addr c) in
     map (\<lambda>i. unat TCP_DDR_BASE_ADDR + (a div 2 ^ 18) * 2 ^ 18 + (a + i) mod 2 ^ 18) [0..<unat (mb_length c)])"

lemma unat_get_range: "unat (get_range lo w :: 'b::len word) = unat w div 2 ^ lo mod 2 ^ LENGTH('b)"
proof -
  have "unat (get_range lo w :: 'b word) = nat (uint (get_range lo w :: 'b word))" by simp
  also have "\<dots> = nat (int (unat w) div 2 ^ lo mod 2 ^ LENGTH('b))"
    by (simp only: uint_get_range) simp
  also have "\<dots> = nat (int (unat w div 2 ^ lo mod 2 ^ LENGTH('b)))"
    by (simp only: of_nat_mod of_nat_div of_nat_power of_nat_numeral)
  finally show ?thesis by simp
qed

lemma unat_saddr: "unat (dm_saddr (DataMoverCmd_new addr len)) = unat TCP_DDR_BASE_ADDR + unat addr"
proof -
  have "unat addr < 2 ^ LENGTH(32)" by (rule unsigned_less)
  then show ?thesis
    by (simp add: DataMoverCmd_new_def unat_word_ariths unsigned_ucast_eq take_bit_nat_eq_self)
qed

lemma unat_16: "unat (w :: 16 word) < 65536"
proof -
  have "unat w < 2 ^ LENGTH(16)" by (rule unsigned_less)
  then show ?thesis by simp
qed

lemma bit_18: "bit (w :: 19 word) 18 \<longleftrightarrow> 2 ^ 18 \<le> unat w"
proof -
  have w: "unat w < 2 ^ LENGTH(19)" by (rule unsigned_less)
  have "bit w 18 \<longleftrightarrow> bit (unat w) 18" by (simp add: bit_unsigned_iff)
  then have "bit w 18 \<longleftrightarrow> odd (unat w div 2 ^ 18)" by (simp only: bit_iff_odd)
  moreover have "unat w div 2 ^ 18 = (if 2 ^ 18 \<le> unat w then 1 else 0)"
    using w by (auto intro: div_nat_eqI)
  ultimately show ?thesis by simp
qed

lemma split_bit:
  "bit (mb_next_addr (MemBufferRWCmd_new a l)) WINDOW_BITS \<longleftrightarrow> 2 ^ 18 \<le> unat a mod 2 ^ 18 + unat l"
proof -
  have "unat (mb_next_addr (MemBufferRWCmd_new a l)) = unat a mod 2 ^ 18 + unat l"
    using unat_16 [of l] mod_less_divisor [of "2 ^ 18" "unat a"]
    by (simp add: MemBufferRWCmd_new_def unat_word_ariths unsigned_ucast_eq unat_get_range
      take_bit_nat_eq_self)
  then show ?thesis by (simp add: bit_18)
qed


definition is_request :: "MemBufferRWCmd \<Rightarrow> bool" where
  "is_request c \<longleftrightarrow> c = MemBufferRWCmd_new (mb_addr c) (mb_length c)"

text \<open>The invariant of the process: the queue holds requests, and a half-served request is one that
  reaches the end of its buffer.\<close>

definition read_cmd_inv :: "ReadCmd \<Rightarrow> bool" where
  "read_cmd_inv s \<longleftrightarrow> list_all is_request (rc_mem_read_cmd s) \<and>
     (rc_read_cmd_is_breakdown s \<longrightarrow>
        2 ^ 18 \<le> unat (mb_addr (rc_inner_cmd s)) mod 2 ^ 18 + unat (mb_length (rc_inner_cmd s)) \<and>
        unat (rc_first_cmd_bbt s) = 2 ^ 18 - unat (mb_addr (rc_inner_cmd s)) mod 2 ^ 18)"

definition second_bytes :: "ReadCmd \<Rightarrow> nat list" where
  "second_bytes s = (if rc_read_cmd_is_breakdown s
     then drop (unat (rc_first_cmd_bbt s)) (session_bytes (rc_inner_cmd s)) else [])"

definition read_total :: "ReadCmd \<Rightarrow> nat list" where
  "read_total s = concat (map cmd_bytes (rc_mover_read_cmd s)) @ second_bytes s
     @ concat (map session_bytes (rc_mem_read_cmd s))"

definition in_buffer :: "DataMoverCmd \<Rightarrow> bool" where
  "in_buffer c \<longleftrightarrow> unat (dm_saddr c) mod 2 ^ 18 + unat (dm_bbt c) \<le> 2 ^ 18"

lemma unat_23: "unat (ucast (w :: 16 word) :: 23 word) = unat w"
  using unat_16 [of w] by (simp add: unsigned_ucast_eq take_bit_nat_eq_self)

lemma dm_bbt_new [simp]: "dm_bbt (DataMoverCmd_new a l) = l"
  by (simp add: DataMoverCmd_new_def)

lemma wrap_below: "i < 2 ^ 18 - a mod 2 ^ 18 \<Longrightarrow> a div 2 ^ 18 * 2 ^ 18 + (a + i) mod 2 ^ 18 = a + i" for a i :: nat
proof -
  assume i: "i < 2 ^ 18 - a mod 2 ^ 18"
  have "(a + i) mod 2 ^ 18 = (a mod 2 ^ 18 + i) mod 2 ^ 18" by (simp add: mod_simps)
  also have "\<dots> = a mod 2 ^ 18 + i" using i by (intro mod_less) linarith
  finally show ?thesis using div_mult_mod_eq [of a "2 ^ 18"] by linarith
qed

lemma wrap_above: "i < 2 ^ 18 \<Longrightarrow> (a + (2 ^ 18 - a mod 2 ^ 18 + i)) mod 2 ^ 18 = i" for a i :: nat
proof -
  assume i: "i < 2 ^ 18"
  define q r where "q = a div 2 ^ 18" and "r = a mod 2 ^ 18"
  have a: "a = q * 2 ^ 18 + r" and r: "r < 2 ^ 18" by (simp_all add: q_def r_def)
  have "a + (2 ^ 18 - r + i) = (q + 1) * 2 ^ 18 + i" using r by (simp add: a add_mult_distrib)
  then have "(a + (2 ^ 18 - r + i)) mod 2 ^ 18 = i mod 2 ^ 18" by (simp only: mod_mult_self3)
  then have "(a + (2 ^ 18 - a mod 2 ^ 18 + i)) mod 2 ^ 18 = i mod 2 ^ 18" by (simp only: r_def)
  then show ?thesis using i by simp
qed

lemma length_session_bytes [simp]: "length (session_bytes c) = unat (mb_length c)"
  by (simp add: session_bytes_def Let_def)

lemma take_session_bytes:
  assumes "k \<le> unat (mb_length c)" and "k \<le> 2 ^ 18 - unat (mb_addr c) mod 2 ^ 18"
  shows "take k (session_bytes c) = map (\<lambda>i. unat TCP_DDR_BASE_ADDR + unat (mb_addr c) + i) [0..<k]"
proof (rule nth_equalityI)
  fix i
  assume "i < length (take k (session_bytes c))"
  then have "i < k" by simp
  then show "take k (session_bytes c) ! i
      = map (\<lambda>i. unat TCP_DDR_BASE_ADDR + unat (mb_addr c) + i) [0..<k] ! i"
    using assms wrap_below [of i "unat (mb_addr c)"] by (simp add: session_bytes_def Let_def del: TCP_DDR_BASE_ADDR_def)
qed (use assms in simp)

lemma drop_session_bytes:
  assumes "k = 2 ^ 18 - unat (mb_addr c) mod 2 ^ 18"
  shows "drop k (session_bytes c)
     = map (\<lambda>i. unat TCP_DDR_BASE_ADDR + unat (mb_addr c) div 2 ^ 18 * 2 ^ 18 + i) [0..<unat (mb_length c) - k]"
proof (rule nth_equalityI)
  fix i
  assume "i < length (drop k (session_bytes c))"
  then have i: "i < unat (mb_length c) - k" by simp
  then have "i < 2 ^ 18" using unat_16 [of "mb_length c"] by simp
  moreover have "[0..<unat (mb_length c)] ! (k + i) = k + i" using i by (simp del: upt_Suc)
  ultimately show "drop k (session_bytes c) ! i
    = map (\<lambda>i. unat TCP_DDR_BASE_ADDR + unat (mb_addr c) div 2 ^ 18 * 2 ^ 18 + i) [0..<unat (mb_length c) - k] ! i"
    using i wrap_above [of i "unat (mb_addr c)", folded assms]
    by (simp add: session_bytes_def Let_def del: TCP_DDR_BASE_ADDR_def)
qed simp

lemma cmd_bytes_new:
  "cmd_bytes (DataMoverCmd_new a l) = map (\<lambda>i. unat TCP_DDR_BASE_ADDR + unat a + i) [0..<unat l]"
  by (simp only: cmd_bytes_def unat_saddr dm_bbt_new)

lemma request_split:
  "is_request c \<Longrightarrow> bit (mb_next_addr c) 18 \<longleftrightarrow> 2 ^ 18 \<le> unat (mb_addr c) mod 2 ^ 18 + unat (mb_length c)"
  using split_bit by (metis is_request_def)

lemma first_bbt:
  assumes "2 ^ 18 \<le> unat a mod 2 ^ 18 + unat (l :: 16 word)"
  shows "unat (word_of_int (BUFFER_SIZE - uint (get_range 0 a :: 18 word)) :: 16 word)
     = 2 ^ 18 - unat (a :: 32 word) mod 2 ^ 18"
proof -
  have m: "unat a mod 2 ^ 18 < 2 ^ 18" by simp
  have "BUFFER_SIZE - uint (get_range 0 a :: 18 word) = int (2 ^ 18 - unat a mod 2 ^ 18)"
    using m by (simp add: uint_get_range of_nat_diff zmod_int)
  moreover have "2 ^ 18 - unat a mod 2 ^ 18 < 2 ^ LENGTH(16)"
    using assms unat_16 [of l] by simp
  ultimately show ?thesis by (simp only: of_int_of_nat_eq unat_of_nat mod_less)
qed

lemma unat_second_addr: "unat (put_range 0 (0 :: 18 word) a) = unat (a :: 32 word) div 2 ^ 18 * 2 ^ 18"
proof -
  have "put_range 0 (0 :: 18 word) a = push_bit 18 (drop_bit 18 a)"
    by (rule bit_word_eqI) (auto simp: bit_field bit_simps)
  moreover have "unat (push_bit 18 (drop_bit 18 a)) = push_bit 18 (drop_bit 18 (unat a))"
    by (rule bit_eqI) (auto simp: bit_simps bit_unsigned_iff dest: bit_imp_le_length)
  ultimately show ?thesis by (simp only: push_bit_eq_mult drop_bit_eq_div)
qed

lemma split_read_total:
  assumes "is_request c" and "\<not> rc_read_cmd_is_breakdown s"
  shows "read_total (split_read c s) = concat (map cmd_bytes (rc_mover_read_cmd s)) @ session_bytes c
     @ concat (map session_bytes (rc_mem_read_cmd s))"
proof (cases "2 ^ 18 \<le> unat (mb_addr c) mod 2 ^ 18 + unat (mb_length c)")
  case True
  let ?k = "2 ^ 18 - unat (mb_addr c) mod 2 ^ 18"
  let ?w = "word_of_int (BUFFER_SIZE - uint (get_range 0 (mb_addr c) :: 18 word)) :: 16 word"
  have "cmd_bytes (DataMoverCmd_new (mb_addr c) (ucast ?w)) = take ?k (session_bytes c)"
  proof (subst take_session_bytes)
    show "?k \<le> unat (mb_length c)" using True by simp
  qed (simp_all only: cmd_bytes_new unat_23 first_bbt [OF True] le_refl)
  then show ?thesis
    using True assms first_bbt [OF True]
    by (simp add: split_read_def request_split Let_def read_total_def second_bytes_def del: BUFFER_SIZE_def)
next
  case False
  then have "cmd_bytes (DataMoverCmd_new (mb_addr c) (ucast (mb_length c))) = session_bytes c"
    using take_session_bytes [of "unat (mb_length c)" c] by (simp add: cmd_bytes_new unat_23 del: TCP_DDR_BASE_ADDR_def)
  then show ?thesis
    using False assms by (simp add: split_read_def request_split Let_def read_total_def second_bytes_def)
qed

lemma second_read_total:
  assumes "read_cmd_inv s" and "rc_read_cmd_is_breakdown s"
  shows "read_total (second_read s) = read_total s"
proof -
  let ?c = "rc_inner_cmd s" and ?w = "rc_first_cmd_bbt s"
  have w: "unat ?w = 2 ^ 18 - unat (mb_addr ?c) mod 2 ^ 18" and le: "unat ?w \<le> unat (mb_length ?c)"
    using assms by (auto simp: read_cmd_inv_def)
  have "unat (ucast (mb_length ?c) - ucast ?w :: 23 word) = unat (mb_length ?c) - unat ?w"
    using le unat_23 by (simp add: unat_sub_if')
  then have "cmd_bytes (DataMoverCmd_new (put_range 0 (0 :: 18 word) (mb_addr ?c)) (ucast (mb_length ?c) - ucast ?w))
     = drop (unat ?w) (session_bytes ?c)"
    by (simp only: cmd_bytes_new unat_second_addr drop_session_bytes [OF w])
  then show ?thesis
    using assms by (simp add: second_read_def Let_def read_total_def second_bytes_def)
qed

lemma split_read_inv:
  assumes "is_request c" and "read_cmd_inv s" and "\<not> rc_read_cmd_is_breakdown s"
  shows "read_cmd_inv (split_read c s)"
  using assms first_bbt [of "mb_addr c" "mb_length c"]
  by (simp add: split_read_def request_split Let_def read_cmd_inv_def del: BUFFER_SIZE_def)

lemma read_cmd_step:
  assumes "read_cmd_inv s"
  shows "read_cmd_inv (ReadDataSendCmd s) \<and> read_total (ReadDataSendCmd s) = read_total s"
proof (cases "rc_read_cmd_is_breakdown s")
  case True
  then show ?thesis
    using assms second_read_total by (simp add: ReadDataSendCmd_def) (simp add: read_cmd_inv_def second_read_def Let_def)
next
  case False
  show ?thesis
  proof (cases "rc_mem_read_cmd s")
    case Nil
    then show ?thesis using assms False by (simp add: ReadDataSendCmd_def)
  next
    case (Cons c cs)
    let ?s = "s\<lparr>rc_mem_read_cmd := cs\<rparr>"
    have p: "is_request c" "read_cmd_inv ?s" "\<not> rc_read_cmd_is_breakdown ?s"
      using assms False Cons by (simp_all add: read_cmd_inv_def)
    have "read_total s = concat (map cmd_bytes (rc_mover_read_cmd s)) @ session_bytes c @ concat (map session_bytes cs)"
      using False Cons by (simp add: read_total_def second_bytes_def)
    then show ?thesis
      using False Cons split_read_total [OF p(1,3)] split_read_inv [OF p] by (simp add: ReadDataSendCmd_def)
  qed
qed

definition read_work :: "ReadCmd \<Rightarrow> nat" where
  "read_work s = 2 * length (rc_mem_read_cmd s) + of_bool (rc_read_cmd_is_breakdown s)"

lemma read_work_less: "0 < read_work s \<Longrightarrow> read_work (ReadDataSendCmd s) < read_work s"
  by (auto simp: read_work_def ReadDataSendCmd_def split_read_def second_read_def Let_def split: list.split)

lemma read_work_zero: "read_work s = 0 \<Longrightarrow> read_work (ReadDataSendCmd s) = 0"
  by (auto simp: read_work_def ReadDataSendCmd_def)

text \<open>C31: The commands to the data mover cover exactly the bytes that the requests ask for, in their
  order, the wrap-around at the end of a session buffer included, after at most two cycles for
  each request.\<close>

theorem read_commands_cover_requests:
  assumes "list_all is_request (rc_mem_read_cmd s)" and "\<not> rc_read_cmd_is_breakdown s"
    and "rc_mover_read_cmd s = []" and "2 * length (rc_mem_read_cmd s) \<le> n"
  shows "concat (map cmd_bytes (rc_mover_read_cmd ((ReadDataSendCmd ^^ n) s)))
     = concat (map session_bytes (rc_mem_read_cmd s))"
proof -
  let ?t = "(ReadDataSendCmd ^^ n) s"
  have "read_cmd_inv s" using assms by (simp add: read_cmd_inv_def)
  then have "read_cmd_inv ?t \<and> read_total ?t = read_total s"
    using funpow_invariant [where P = "\<lambda>t. read_cmd_inv t \<and> read_total t = read_total s" and f = ReadDataSendCmd]
      read_cmd_step by simp
  moreover have "read_work s \<le> n" using assms by (simp add: read_work_def)
  then have "read_work ?t = 0"
    by (intro measure_reaches_zero [where m = read_work] read_work_less read_work_zero)
  ultimately show ?thesis
    using assms by (simp add: read_total_def second_bytes_def read_work_def)
qed

theorem read_commands_cover_requests_witness:
  "concat (map cmd_bytes (rc_mover_read_cmd ((ReadDataSendCmd ^^ 4)
     \<lparr>rc_read_cmd_is_breakdown = False, rc_inner_cmd = MemBufferRWCmd_default, rc_first_cmd_bbt = 0,
      rc_mem_read_cmd = [MemBufferRWCmd_new 0x3FFFE 3, MemBufferRWCmd_new 16 2],
      rc_mover_read_cmd = [], rc_mem_buffer_double_access = []\<rparr>)))
   = map ((+) 0x4800000000) [0x3FFFE, 0x3FFFF, 0, 16, 17]"
  by (subst read_commands_cover_requests)
    (simp_all add: is_request_def MemBufferRWCmd_new_def session_bytes_def upt_rec)
text \<open>A request that ends exactly at the end of its buffer is treated as one that crosses it: a
  second command for zero bytes is issued.\<close>

theorem exact_fit_read_issues_empty_command:
  assumes "rc_mem_read_cmd s = [MemBufferRWCmd_new a l]" and "\<not> rc_read_cmd_is_breakdown s"
    and "unat a mod 2 ^ 18 + unat l = 2 ^ 18"
  shows "map (unat \<circ> dm_bbt) (rc_mover_read_cmd (ReadDataSendCmd (ReadDataSendCmd s)))
     = map (unat \<circ> dm_bbt) (rc_mover_read_cmd s) @ [unat l, 0]"
proof -
  let ?w = "word_of_int (BUFFER_SIZE - uint (get_range 0 a :: 18 word)) :: 16 word"
  have "unat ?w = unat l" using assms(3) first_bbt [of a l] by linarith
  then have w: "?w = l" by (simp only: word_unat_eq_iff)
  have b: "bit (mb_next_addr (MemBufferRWCmd_new a l)) 18" using assms(3) by (simp only: split_bit le_refl)
  have "mb_addr (MemBufferRWCmd_new a l) = a" "mb_length (MemBufferRWCmd_new a l) = l"
    by (simp_all add: MemBufferRWCmd_new_def)
  then show ?thesis
    using assms(1,2) b w unat_23 [of l]
    by (simp add: ReadDataSendCmd_def split_read_def second_read_def Let_def del: BUFFER_SIZE_def)
qed

theorem exact_fit_read_issues_empty_command_witness:
  "map (unat \<circ> dm_bbt) (rc_mover_read_cmd (ReadDataSendCmd (ReadDataSendCmd
     \<lparr>rc_read_cmd_is_breakdown = False, rc_inner_cmd = MemBufferRWCmd_default, rc_first_cmd_bbt = 0,
      rc_mem_read_cmd = [MemBufferRWCmd_new 0x3FFF0 16], rc_mover_read_cmd = [],
      rc_mem_buffer_double_access = []\<rparr>))) = [16, 0]"
  by (subst exact_fit_read_issues_empty_command [where a = "0x3FFF0" and l = 16]) simp_all

section \<open>Read data\<close>

datatype ReadDataFsmState =
    READ_ACCESS | NO_BREAKDOWN | BREAKDOWN_BLOCK_0 | BREAKDOWN_ALIGNED | FIRST_MERGE
  | BREAKDOWN_BLOCK_1 | EXTRA_DATA

record ReadData =
  rd_fsm_state :: ReadDataFsmState
  rd_offset_block0 :: "6 word"
  rd_offset_block1 :: "6 word"
  rd_prev_beat_word :: NetAXISWord
  rd_mover_read_data :: "NetAXISWord stream"
  rd_mem_buffer_double_access :: "MemBufferRWCmdDoubleAccess stream"
  rd_mem_read_data :: "NetAXISWord stream"
  rd_mem_read_data_full :: bool

definition read_access :: "ReadData \<Rightarrow> ReadData" where
  "read_access s =
     (case rd_mem_buffer_double_access s of
        acc # accs \<Rightarrow>
          s\<lparr>rd_mem_buffer_double_access := accs,
            rd_offset_block0 := md_byte_offset acc,
            rd_offset_block1 := 64 - md_byte_offset acc,
            rd_fsm_state := (if md_double_access acc then BREAKDOWN_BLOCK_0 else NO_BREAKDOWN)\<rparr>
      | [] \<Rightarrow> s)"

definition read_aligned :: "NetAXISWord \<Rightarrow> ReadData \<Rightarrow> ReadData" where
  "read_aligned cur s =
     s\<lparr>rd_mem_read_data := rd_mem_read_data s @ [cur],
       rd_fsm_state := (if nw_last cur then READ_ACCESS else rd_fsm_state s)\<rparr>"

text \<open>\<open>to_rx_or_tx_word_need_to_align\<close> is a local that starts as true in every call; the beat is
  forwarded only in the call that clears it.\<close>

definition read_block_0 :: "NetAXISWord \<Rightarrow> ReadData \<Rightarrow> ReadData" where
  "read_block_0 cur s =
     (let send = \<lparr>nw_data = nw_data cur, nw_dest = 0, nw_keep = nw_keep cur, nw_last = False\<rparr>;
          aligned = (nw_last cur \<and> rd_offset_block0 s = 0) in
      s\<lparr>rd_fsm_state := (if nw_last cur
                         then (if rd_offset_block0 s = 0 then BREAKDOWN_ALIGNED else FIRST_MERGE)
                         else rd_fsm_state s),
        rd_mem_read_data := rd_mem_read_data s @ (if aligned then [send] else []),
        rd_prev_beat_word := cur\<rparr>)"

definition read_merge :: "NetAXISWord \<Rightarrow> NetAXISWord \<Rightarrow> ReadDataFsmState \<Rightarrow> ReadData \<Rightarrow> ReadData" where
  "read_merge cur send else_state s =
     (let extra = bit (nw_keep cur) (unat (rd_offset_block1 s)) in
      s\<lparr>rd_fsm_state := (if nw_last cur then (if extra then EXTRA_DATA else READ_ACCESS)
                         else else_state),
        rd_mem_read_data := rd_mem_read_data s @ [send\<lparr>nw_last := (nw_last cur \<and> \<not> extra)\<rparr>],
        rd_prev_beat_word := cur\<rparr>)"

definition ReadDataFromMem :: "ReadData \<Rightarrow> ReadData" where
  "ReadDataFromMem s =
     (case rd_fsm_state s of
        READ_ACCESS \<Rightarrow> read_access s
      | EXTRA_DATA \<Rightarrow>
          (if \<not> rd_mem_read_data_full s then
             s\<lparr>rd_mem_read_data := rd_mem_read_data s @
                 [(ConcatTwoWords NetAXISWord_default (rd_prev_beat_word s) (rd_offset_block1 s)
                     NetAXISWord_default)\<lparr>nw_last := True\<rparr>],
               rd_fsm_state := READ_ACCESS\<rparr>
           else s)
      | st \<Rightarrow>
          (case rd_mover_read_data s of
             cur # rest \<Rightarrow>
               (if rd_mem_read_data_full s then s
                else
                  (let s = s\<lparr>rd_mover_read_data := rest\<rparr> in
                   case st of
                     BREAKDOWN_BLOCK_0 \<Rightarrow> read_block_0 cur s
                   | FIRST_MERGE \<Rightarrow>
                       read_merge cur (MergeTwoWordsHead cur (rd_prev_beat_word s)
                         (rd_offset_block0 s) NetAXISWord_default) BREAKDOWN_BLOCK_1 s
                   | BREAKDOWN_BLOCK_1 \<Rightarrow>
                       read_merge cur (ConcatTwoWords cur (rd_prev_beat_word s)
                         (rd_offset_block1 s) NetAXISWord_default) BREAKDOWN_BLOCK_1 s
                   | _ \<Rightarrow> read_aligned cur s))
           | [] \<Rightarrow> s))"

section \<open>Writes\<close>

datatype WriteDataFsmState =
  WAIT_CMD | FWD_NO_BREAKDOWN | FWD_BREAKDOWN_0 | FWD_BREAKDOWN_1 | FWD_EXTRA

record WriteData =
  wd_fsm_state :: WriteDataFsmState
  wd_first_cmd_bbt :: "23 word"
  wd_byte_offset :: "6 word"
  wd_first_cmd_last_beat_keep :: "64 word"
  wd_first_cmd_trans_beats :: "10 word"
  wd_first_cmd_trans_beats_cnt :: "10 word"
  wd_inner_cmd :: MemBufferRWCmd
  wd_data_mver_cmd :: DataMoverCmd
  wd_prev_beat_word :: NetAXISWord
  wd_mem_write_cmd :: "MemBufferRWCmd stream"
  wd_mem_write_data :: "NetAXISWord stream"
  wd_mover_write_cmd :: "DataMoverCmd stream"
  wd_mover_write_data :: "NetAXISWord stream"
  wd_mem_buffer_double_access_flag :: "bool stream"

definition write_wait_cmd :: "MemBufferRWCmd \<Rightarrow> WriteData \<Rightarrow> WriteData" where
  "write_wait_cmd cmd s =
     (let mver = DataMoverCmd_new (mb_addr cmd) (ucast (mb_length cmd));
          split = bit (mb_next_addr cmd) WINDOW_BITS;
          s = s\<lparr>wd_inner_cmd := cmd\<rparr>;
          s = (if split then
                 (let bbt = word_of_int (BUFFER_SIZE - uint (get_range 0 (mb_addr cmd) :: 18 word));
                      byte_offset = get_range 0 bbt;
                      beats = ucast (get_range 6 bbt :: 12 word) in
                  s\<lparr>wd_data_mver_cmd := mver\<lparr>dm_bbt := bbt\<rparr>,
                    wd_byte_offset := byte_offset,
                    wd_first_cmd_bbt := bbt,
                    wd_first_cmd_last_beat_keep := DataLengthToAxisKeep byte_offset,
                    wd_first_cmd_trans_beats := (if byte_offset \<noteq> 0 then beats + 1 else beats),
                    wd_first_cmd_trans_beats_cnt := 1,
                    wd_fsm_state := FWD_BREAKDOWN_0\<rparr>)
               else s\<lparr>wd_data_mver_cmd := mver, wd_fsm_state := FWD_NO_BREAKDOWN\<rparr>) in
      s\<lparr>wd_mem_buffer_double_access_flag := wd_mem_buffer_double_access_flag s @ [split],
        wd_mover_write_cmd := wd_mover_write_cmd s @ [wd_data_mver_cmd s]\<rparr>)"

definition write_no_breakdown :: "NetAXISWord \<Rightarrow> WriteData \<Rightarrow> WriteData" where
  "write_no_breakdown cur s =
     s\<lparr>wd_fsm_state := (if nw_last cur then WAIT_CMD else wd_fsm_state s),
       wd_mover_write_data := wd_mover_write_data s @ [cur]\<rparr>"

definition second_write_cmd :: "WriteData \<Rightarrow> DataMoverCmd" where
  "second_write_cmd s =
     (let cmd = wd_inner_cmd s; mver = wd_data_mver_cmd s in
      mver\<lparr>dm_saddr := put_range 0 (0 :: 18 word)
              (put_range 18 (get_range 18 (mb_addr cmd) :: 14 word) (dm_saddr mver)),
           dm_bbt := ucast (mb_length cmd) - wd_first_cmd_bbt s\<rparr>)"

definition write_breakdown_0 :: "NetAXISWord \<Rightarrow> WriteData \<Rightarrow> WriteData" where
  "write_breakdown_0 cur s =
     (let cnt = wd_first_cmd_trans_beats_cnt s;
          final = (cnt = wd_first_cmd_trans_beats s);
          send = (if final then \<lparr>nw_data = nw_data cur, nw_dest = 0,
                                 nw_keep = wd_first_cmd_last_beat_keep s, nw_last = True\<rparr>
                  else cur);
          s = (if final then
                 s\<lparr>wd_data_mver_cmd := second_write_cmd s,
                   wd_mover_write_cmd := wd_mover_write_cmd s @ [second_write_cmd s],
                   wd_fsm_state := (if nw_last cur then FWD_EXTRA else FWD_BREAKDOWN_1)\<rparr>
               else s) in
      s\<lparr>wd_first_cmd_trans_beats_cnt := cnt + 1,
        wd_prev_beat_word := cur,
        wd_mover_write_data := wd_mover_write_data s @ [send]\<rparr>)"

definition write_breakdown_1 :: "NetAXISWord \<Rightarrow> WriteData \<Rightarrow> WriteData" where
  "write_breakdown_1 cur s =
     (let send = ConcatTwoWords cur (wd_prev_beat_word s) (wd_byte_offset s) NetAXISWord_default;
          extra = (bit (nw_keep cur) (unat (wd_byte_offset s)) \<and> wd_byte_offset s \<noteq> 0) in
      s\<lparr>wd_fsm_state := (if nw_last cur then (if extra then FWD_EXTRA else WAIT_CMD)
                         else wd_fsm_state s),
        wd_prev_beat_word := cur,
        wd_mover_write_data :=
          wd_mover_write_data s @ [send\<lparr>nw_last := (nw_last cur \<and> \<not> extra)\<rparr>]\<rparr>)"

definition write_extra :: "WriteData \<Rightarrow> WriteData" where
  "write_extra s =
     s\<lparr>wd_mover_write_data := wd_mover_write_data s @
         [(ConcatTwoWords NetAXISWord_default (wd_prev_beat_word s) (wd_byte_offset s)
             NetAXISWord_default)\<lparr>nw_last := True\<rparr>],
       wd_fsm_state := WAIT_CMD\<rparr>"

definition WriteDataToMem :: "WriteData \<Rightarrow> WriteData" where
  "WriteDataToMem s =
     (case wd_fsm_state s of
        WAIT_CMD \<Rightarrow>
          (case wd_mem_write_cmd s of
             cmd # cmds \<Rightarrow> write_wait_cmd cmd (s\<lparr>wd_mem_write_cmd := cmds\<rparr>)
           | [] \<Rightarrow> s)
      | FWD_EXTRA \<Rightarrow> write_extra s
      | st \<Rightarrow>
          (case wd_mem_write_data s of
             cur # rest \<Rightarrow>
               (let s = s\<lparr>wd_mem_write_data := rest\<rparr> in
                case st of
                  FWD_NO_BREAKDOWN \<Rightarrow> write_no_breakdown cur s
                | FWD_BREAKDOWN_0 \<Rightarrow> write_breakdown_0 cur s
                | _ \<Rightarrow> write_breakdown_1 cur s)
           | [] \<Rightarrow> s))"

text \<open>Power-up.\<close>

definition write_data_init :: WriteData where
  "write_data_init =
     \<lparr>wd_fsm_state = WAIT_CMD, wd_first_cmd_bbt = 0, wd_byte_offset = 0, wd_first_cmd_last_beat_keep = 0,
      wd_first_cmd_trans_beats = 0, wd_first_cmd_trans_beats_cnt = 1, wd_inner_cmd = MemBufferRWCmd_default,
      wd_data_mver_cmd = DataMoverCmd_default, wd_prev_beat_word = NetAXISWord_default, wd_mem_write_cmd = [],
      wd_mem_write_data = [], wd_mover_write_cmd = [], wd_mover_write_data = [],
      wd_mem_buffer_double_access_flag = []\<rparr>"

end
