(* ===== verification/Memory_Data.thy ===== *)
theory Memory_Data
  imports Memory_Access
begin

text \<open>
  The data of an access that crosses the end of a session buffer: \<open>WriteDataToMem\<close> cuts a packet
  into the two transfers that its commands announce, \<open>ReadDataFromMem\<close> joins the two transfers
  of a read.  A packet is a sequence of words, all full but the last, which has the last flag.
\<close>

section \<open>Packets\<close>


definition is_packet :: "NetAXISWord list \<Rightarrow> bool" where
  "is_packet ws \<longleftrightarrow> ws \<noteq> [] \<and> list_all (\<lambda>w. nw_keep w = - 1 \<and> \<not> nw_last w) (butlast ws) \<and>
     nw_last (last ws) \<and> nw_keep (last ws) \<in> mask ` {1..64}"

definition is_frame :: "NetAXISWord list \<Rightarrow> bool" where
  "is_frame ws \<longleftrightarrow> ws \<noteq> [] \<and> list_all (\<lambda>w. \<not> nw_last w) (butlast ws) \<and> nw_last (last ws)"

lemma lanes_mask:
  "nw_keep w = mask j \<Longrightarrow> lanes w = map (\<lambda>i. Some (word_byte w i)) [0..<min j 64] @ replicate (64 - j) None"
  by (rule nth_equalityI) (auto simp: nth_lanes nth_append bit_simps min_def)

lemma lanes_full: "nw_keep w = - 1 \<Longrightarrow> lanes w = map (\<lambda>i. Some (word_byte w i)) [0..<64]"
  by (rule nth_equalityI) (auto simp: nth_lanes bit_simps)

lemma word_bytes_mask: "nw_keep w = mask j \<Longrightarrow> word_bytes w = map (word_byte w) [0..<min j 64]"
proof -
  assume "nw_keep w = mask j"
  then have "lanes w = map (\<lambda>i. if True then Some (word_byte w i) else None) [0..<min j 64] @ replicate (64 - j) None"
    by (simp only: lanes_mask if_True)
  then show ?thesis by (simp only: word_bytes_lanes somes_append somes_None somes_map filter_True) simp
qed

lemma word_bytes_full: "nw_keep w = - 1 \<Longrightarrow> word_bytes w = map (word_byte w) [0..<64]"
  by (simp add: word_bytes_def)

section \<open>Writes\<close>

text \<open>What is left of a word after its first \<open>k\<close> bytes went into the word before.\<close>

definition tail_bytes :: "6 word \<Rightarrow> NetAXISWord \<Rightarrow> 8 word list" where
  "tail_bytes k w = (if k = 0 then [] else somes (drop (unat k) (lanes w)))"

lemma word_bytes_last [simp]: "word_bytes (w\<lparr>nw_last := b\<rparr>) = word_bytes w"
  by (simp add: word_bytes_def word_byte_def)

lemma concat_tail_bytes:
  "word_bytes (ConcatTwoWords w prev k send) @ tail_bytes k w = tail_bytes k prev @ word_bytes w"
proof (cases "k = 0")
  case True
  then show ?thesis by (simp add: tail_bytes_def ConcatTwoWords_def word_bytes_def word_byte_def)
next
  case False
  then have "0 < unat k" by (simp add: unat_gt_0)
  moreover have "somes (lanes w) = somes (take (unat k) (lanes w)) @ somes (drop (unat k) (lanes w))"
    by (metis append_take_drop_id somes_append)
  ultimately show ?thesis
    using False by (simp add: tail_bytes_def word_bytes_lanes lanes_ConcatTwoWords)
qed

lemma last_tail_bytes:
  "word_bytes (ConcatTwoWords NetAXISWord_default prev k send) = tail_bytes k prev"
  using concat_tail_bytes [of NetAXISWord_default prev k send]
  by (simp add: tail_bytes_def word_bytes_lanes split: if_split_asm)

lemma no_extra_tail_bytes:
  assumes "nw_keep w = mask j" "j \<le> unat k"
  shows "tail_bytes k w = []"
  using assms unat_6 [of k] by (simp add: tail_bytes_def lanes_mask)

text \<open>Forwarding of whole words.\<close>

lemma beat_differs:
  assumes "1 \<le> i" "i < m" "m \<le> 1024"
  shows "(of_nat i :: 10 word) \<noteq> of_nat m"
proof -
  have "i mod 1024 = i" "m mod 1024 = (if m = 1024 then 0 else m)" using assms by simp_all
  then have "i mod 1024 \<noteq> m mod 1024" using assms by simp
  then show ?thesis by (simp add: word_unat_eq_iff unat_of_nat)
qed

lemma write_forward:
  assumes "wd_fsm_state s = FWD_BREAKDOWN_0" and "wd_mem_write_data s = ws @ rest"
    and "wd_first_cmd_trans_beats_cnt s = of_nat i" and "wd_first_cmd_trans_beats s = of_nat m"
    and "1 \<le> i" "i + length ws \<le> m" "m \<le> 1024"
  shows "(WriteDataToMem ^^ length ws) s = s
     \<lparr>wd_mem_write_data := rest, wd_first_cmd_trans_beats_cnt := of_nat (i + length ws),
      wd_prev_beat_word := last (wd_prev_beat_word s # ws),
      wd_mover_write_data := wd_mover_write_data s @ ws\<rparr>"
  using assms
proof (induction ws arbitrary: s i)
  case Nil
  then show ?case by simp
next
  case (Cons w ws)
  have "(of_nat i :: 10 word) \<noteq> of_nat m" using Cons.prems by (intro beat_differs) simp_all
  then have step: "WriteDataToMem s = s
     \<lparr>wd_mem_write_data := ws @ rest, wd_first_cmd_trans_beats_cnt := of_nat (Suc i),
      wd_prev_beat_word := w, wd_mover_write_data := wd_mover_write_data s @ [w]\<rparr>"
    using Cons.prems by (simp add: WriteDataToMem_def write_breakdown_0_def Let_def add.commute)
  show ?case
    by (simp only: length_Cons funpow_Suc_apply step, subst Cons.IH [where i = "Suc i"])
      (use Cons.prems in simp_all)
qed

text \<open>The shifted words of the second command.\<close>

lemma write_extra_step:
  assumes "wd_fsm_state s = FWD_EXTRA"
  shows "\<exists>out. WriteDataToMem s = s\<lparr>wd_mover_write_data := wd_mover_write_data s @ [out], wd_fsm_state := WAIT_CMD\<rparr> \<and>
     word_bytes out = tail_bytes (wd_byte_offset s) (wd_prev_beat_word s) \<and> nw_last out"
  by (rule exI [of _ "(ConcatTwoWords NetAXISWord_default (wd_prev_beat_word s) (wd_byte_offset s)
         NetAXISWord_default)\<lparr>nw_last := True\<rparr>"])
    (simp add: WriteDataToMem_def assms write_extra_def last_tail_bytes)

definition write_done :: "WriteData \<Rightarrow> NetAXISWord list \<Rightarrow> 8 word list \<Rightarrow> WriteData \<Rightarrow> bool" where
  "write_done s rest bs t \<longleftrightarrow> (\<exists>out. wd_fsm_state t = WAIT_CMD \<and> wd_mem_write_data t = rest \<and>
     wd_mover_write_cmd t = wd_mover_write_cmd s \<and>
     wd_mover_write_data t = wd_mover_write_data s @ out \<and> is_frame out \<and> packet_bytes out = bs)"

lemma write_shift:
  assumes "wd_fsm_state s = FWD_BREAKDOWN_1" and "wd_mem_write_data s = ws @ rest" and "is_packet ws"
  shows "\<exists>n \<le> Suc (length ws). write_done s rest
     (tail_bytes (wd_byte_offset s) (wd_prev_beat_word s) @ packet_bytes ws) ((WriteDataToMem ^^ n) s)"
  using assms
proof (induction ws arbitrary: s)
  case Nil
  then show ?case by (simp add: is_packet_def)
next
  case (Cons w ws)
  let ?k = "wd_byte_offset s"
  let ?c = "ConcatTwoWords w (wd_prev_beat_word s) ?k NetAXISWord_default"
  let ?extra = "bit (nw_keep w) (unat ?k) \<and> ?k \<noteq> 0"
  have step: "WriteDataToMem s = s
     \<lparr>wd_mem_write_data := ws @ rest, wd_prev_beat_word := w,
      wd_fsm_state := (if nw_last w then (if ?extra then FWD_EXTRA else WAIT_CMD) else FWD_BREAKDOWN_1),
      wd_mover_write_data := wd_mover_write_data s @ [?c\<lparr>nw_last := (nw_last w \<and> \<not> ?extra)\<rparr>]\<rparr>"
    using Cons.prems by (simp add: WriteDataToMem_def write_breakdown_1_def Let_def)
  show ?case
  proof (cases "ws = []")
    case True
    then have l: "nw_last w" and "nw_keep w \<in> mask ` {1..64}" using Cons.prems by (auto simp: is_packet_def)
    then obtain j where j: "nw_keep w = mask j" "j \<le> 64" by auto
    show ?thesis
    proof (cases ?extra)
      case True
      then have "wd_fsm_state (WriteDataToMem s) = FWD_EXTRA" using l by (simp add: step)
      from write_extra_step [OF this]
      have "write_done s rest (tail_bytes ?k (wd_prev_beat_word s) @ packet_bytes [w]) (WriteDataToMem (WriteDataToMem s))"
        using True concat_tail_bytes [of w "wd_prev_beat_word s" ?k]
        by (auto simp: write_done_def step \<open>ws = []\<close> is_frame_def)
      then show ?thesis using \<open>ws = []\<close> by (intro exI [of _ 2]) (simp add: numeral_2_eq_2)
    next
      case False
      then have "tail_bytes ?k w = []"
        using j by (cases "?k = 0") (auto simp: bit_simps not_less tail_bytes_def [where k = 0] intro: no_extra_tail_bytes)
      then have "write_done s rest (tail_bytes ?k (wd_prev_beat_word s) @ packet_bytes [w]) (WriteDataToMem s)"
        using False l concat_tail_bytes [of w "wd_prev_beat_word s" ?k NetAXISWord_default]
        by (simp add: write_done_def step \<open>ws = []\<close> is_frame_def)
      then show ?thesis using \<open>ws = []\<close> by (intro exI [of _ 1]) simp
    qed
  next
    case False
    then have w: "\<not> nw_last w" "is_packet ws" using Cons.prems by (auto simp: is_packet_def)
    have "\<exists>n \<le> Suc (length ws). write_done (WriteDataToMem s) rest
       (tail_bytes ?k w @ packet_bytes ws) ((WriteDataToMem ^^ n) (WriteDataToMem s))"
      using Cons.IH [of "WriteDataToMem s"] w by (simp add: step)
    then obtain n where n: "n \<le> Suc (length ws)" "write_done (WriteDataToMem s) rest
       (tail_bytes ?k w @ packet_bytes ws) ((WriteDataToMem ^^ n) (WriteDataToMem s))"
      by blast
    have "write_done s rest (tail_bytes ?k (wd_prev_beat_word s) @ packet_bytes (w # ws)) ((WriteDataToMem ^^ n) (WriteDataToMem s))"
      using n(2) w(1) concat_tail_bytes [of w "wd_prev_beat_word s" ?k NetAXISWord_default]
      by (auto simp: write_done_def step is_frame_def)
    then show ?thesis
      using n(1) by (intro exI [of _ "Suc n"]) (simp only: funpow_Suc_apply length_Cons Suc_le_mono simp_thms)
  qed
qed

text \<open>The last word of the first command.\<close>

definition cut_word :: "WriteData \<Rightarrow> NetAXISWord \<Rightarrow> NetAXISWord" where
  "cut_word s w = \<lparr>nw_data = nw_data w, nw_dest = 0, nw_keep = wd_first_cmd_last_beat_keep s, nw_last = True\<rparr>"

lemma cut_word_bytes:
  assumes "wd_first_cmd_last_beat_keep s = DataLengthToAxisKeep k"
    and "if k = 0 then nw_keep w = - 1 else \<forall>i < unat k. bit (nw_keep w) i"
  shows "word_bytes (cut_word s w) @ tail_bytes k w = word_bytes w"
    and "length (word_bytes (cut_word s w)) = (if k = 0 then 64 else unat k)"
proof -
  have d: "word_byte (cut_word s w) = word_byte w" by (rule ext) (simp add: word_byte_def cut_word_def)
  have keep: "nw_keep (cut_word s w) = (if k = 0 then - 1 else mask (unat k))"
    using assms(1) unat_6 [of k] by (simp add: cut_word_def DataLengthToAxisKeep_def keep_table_nth unat_eq_0)
  have bytes: "word_bytes (cut_word s w) = map (word_byte w) [0..<if k = 0 then 64 else unat k]"
    using keep unat_6 [of k] by (simp add: word_bytes_full word_bytes_mask d min_def)
  have "take (unat k) (lanes w) = map (\<lambda>i. Some (word_byte w i)) [0..<unat k]" if "k \<noteq> 0"
    by (rule nth_equalityI) (use assms(2) that unat_6 [of k] in \<open>auto simp: nth_lanes\<close>)
  then have "somes (take (unat k) (lanes w)) = map (word_byte w) [0..<unat k]" if "k \<noteq> 0"
    using that somes_map [of "\<lambda>_. True" "word_byte w" "[0..<unat k]"] by simp
  moreover have "somes (lanes w) = somes (take (unat k) (lanes w)) @ somes (drop (unat k) (lanes w))"
    by (metis append_take_drop_id somes_append)
  ultimately show "word_bytes (cut_word s w) @ tail_bytes k w = word_bytes w"
    using assms(2) by (cases "k = 0") (simp_all add: bytes tail_bytes_def word_bytes_full word_bytes_lanes [of w, symmetric])
  show "length (word_bytes (cut_word s w)) = (if k = 0 then 64 else unat k)" by (simp add: bytes)
qed

lemma write_cut:
  assumes "wd_fsm_state s = FWD_BREAKDOWN_0" and "wd_mem_write_data s = w # rest"
    and "wd_first_cmd_trans_beats_cnt s = wd_first_cmd_trans_beats s"
  shows "WriteDataToMem s = s
     \<lparr>wd_mem_write_data := rest, wd_data_mver_cmd := second_write_cmd s,
      wd_mover_write_cmd := wd_mover_write_cmd s @ [second_write_cmd s],
      wd_fsm_state := (if nw_last w then FWD_EXTRA else FWD_BREAKDOWN_1),
      wd_first_cmd_trans_beats_cnt := wd_first_cmd_trans_beats s + 1,
      wd_prev_beat_word := w,
      wd_mover_write_data := wd_mover_write_data s @ [cut_word s w]\<rparr>"
  using assms by (simp add: WriteDataToMem_def write_breakdown_0_def cut_word_def second_write_cmd_def Let_def)

text \<open>What the process does with a packet after the first word of the command.\<close>

definition split_done :: "WriteData \<Rightarrow> NetAXISWord list \<Rightarrow> 8 word list \<Rightarrow> nat \<Rightarrow> WriteData \<Rightarrow> bool" where
  "split_done s rest bs first t \<longleftrightarrow> (\<exists>out0 out1. wd_fsm_state t = WAIT_CMD \<and> wd_mem_write_data t = rest \<and>
     wd_mover_write_cmd t = wd_mover_write_cmd s @ [second_write_cmd s] \<and>
     wd_mover_write_data t = wd_mover_write_data s @ out0 @ out1 \<and> is_frame out0 \<and> is_frame out1 \<and>
     packet_bytes out0 = take first bs \<and> packet_bytes out1 = drop first bs)"

lemma cut_phase:
  assumes "wd_fsm_state s = FWD_BREAKDOWN_0" and "wd_mem_write_data s = w # vs @ rest"
    and "wd_first_cmd_trans_beats_cnt s = wd_first_cmd_trans_beats s"
    and "wd_first_cmd_last_beat_keep s = DataLengthToAxisKeep (wd_byte_offset s)"
    and "if wd_byte_offset s = 0 then nw_keep w = - 1 else \<forall>i < unat (wd_byte_offset s). bit (nw_keep w) i"
    and "if vs = [] then nw_last w else \<not> nw_last w \<and> is_packet vs"
  shows "\<exists>n \<le> length vs + 2. split_done s rest (packet_bytes (w # vs))
     (if wd_byte_offset s = 0 then 64 else unat (wd_byte_offset s)) ((WriteDataToMem ^^ n) s)"
proof -
  let ?k = "wd_byte_offset s"
  let ?t = "WriteDataToMem s"
  note cut = cut_word_bytes [OF assms(4,5)]
  have step: "wd_mem_write_data ?t = vs @ rest" "wd_mover_write_cmd ?t = wd_mover_write_cmd s @ [second_write_cmd s]"
    "wd_fsm_state ?t = (if vs = [] then FWD_EXTRA else FWD_BREAKDOWN_1)" "wd_prev_beat_word ?t = w"
    "wd_byte_offset ?t = ?k" "wd_mover_write_data ?t = wd_mover_write_data s @ [cut_word s w]"
    using assms by (simp_all add: write_cut split: if_splits)
  have "\<exists>n \<le> Suc (length vs). write_done ?t rest (tail_bytes ?k w @ packet_bytes vs) ((WriteDataToMem ^^ n) ?t)"
  proof (cases "vs = []")
    case True
    then have "wd_fsm_state ?t = FWD_EXTRA" by (simp add: step)
    from write_extra_step [OF this] show ?thesis
      using True step by (intro exI [of _ 1]) (auto simp: write_done_def is_frame_def)
  next
    case False
    then show ?thesis using write_shift [of ?t vs rest] assms(6) step by simp
  qed
  then obtain n where n: "n \<le> Suc (length vs)"
      "write_done ?t rest (tail_bytes ?k w @ packet_bytes vs) ((WriteDataToMem ^^ n) ?t)"
    by blast
  have "packet_bytes (w # vs) = word_bytes (cut_word s w) @ tail_bytes ?k w @ packet_bytes vs"
    using cut(1) by (simp flip: append_assoc)
  then have "take (if ?k = 0 then 64 else unat ?k) (packet_bytes (w # vs)) = packet_bytes [cut_word s w]"
    "drop (if ?k = 0 then 64 else unat ?k) (packet_bytes (w # vs)) = tail_bytes ?k w @ packet_bytes vs"
    by (simp_all flip: cut(2))
  moreover have "is_frame [cut_word s w]" by (simp add: is_frame_def cut_word_def)
  ultimately have "split_done s rest (packet_bytes (w # vs)) (if ?k = 0 then 64 else unat ?k)
     ((WriteDataToMem ^^ n) ?t)"
    using n(2) step unfolding split_done_def write_done_def by (metis append_assoc)
  then show ?thesis
    using n(1) by (intro exI [of _ "Suc n"]) (simp only: funpow_Suc_apply, simp)
qed

text \<open>Where the first command ends in a packet.\<close>

lemma packet_prefix:
  "list_all (\<lambda>w. nw_keep w = - 1 \<and> \<not> nw_last w) us \<Longrightarrow> length (packet_bytes us) = 64 * length us"
  by (induction us) (simp_all add: word_bytes_full)

lemma packet_Cons:
  "is_packet (w # ws) \<longleftrightarrow> (if ws = [] then nw_last w \<and> nw_keep w \<in> mask ` {1..64}
     else nw_keep w = - 1 \<and> \<not> nw_last w \<and> is_packet ws)"
  by (simp add: is_packet_def)

lemma packet_split:
  assumes "is_packet ws" and "0 < B" "B < length (packet_bytes ws)"
  shows "\<exists>us w vs. ws = us @ w # vs \<and> length us = (B - 1) div 64 \<and>
    list_all (\<lambda>w. nw_keep w = - 1 \<and> \<not> nw_last w) us \<and>
    (if B mod 64 = 0 then nw_keep w = - 1 else \<forall>i < B mod 64. bit (nw_keep w) i) \<and>
    (if vs = [] then nw_last w else \<not> nw_last w \<and> is_packet vs)"
  using assms
proof (induction ws arbitrary: B)
  case (Cons w ws)
  consider "ws = []" | "ws \<noteq> []" "B \<le> 64" | "ws \<noteq> []" "64 < B" by linarith
  then show ?case
  proof cases
    case 1
    then obtain j where j: "nw_last w" "nw_keep w = mask j" "j \<le> 64" using Cons.prems(1) by (auto simp: packet_Cons)
    then have "B < j" using 1 Cons.prems(3) by (simp add: word_bytes_mask)
    then show ?thesis using 1 j Cons.prems(2) by (intro exI [of _ "[]"]) (simp add: bit_simps)
  next
    case 2
    moreover have "i < 64" if "i < B mod 64" for i using that mod_less_divisor [of 64 B] by linarith
    ultimately show ?thesis using Cons.prems by (intro exI [of _ "[]"]) (simp add: packet_Cons bit_simps)
  next
    case 3
    then have w: "nw_keep w = - 1" "\<not> nw_last w" "is_packet ws" using Cons.prems(1) by (simp_all add: packet_Cons)
    then have "B - 64 < length (packet_bytes ws)" using Cons.prems(3) 3 by (simp add: word_bytes_full)
    from Cons.IH [OF w(3) _ this] 3 obtain us v vs where ih: "ws = us @ v # vs" "length us = (B - 64 - 1) div 64"
      "list_all (\<lambda>w. nw_keep w = - 1 \<and> \<not> nw_last w) us"
      "if (B - 64) mod 64 = 0 then nw_keep v = - 1 else \<forall>i < (B - 64) mod 64. bit (nw_keep v) i"
      "if vs = [] then nw_last v else \<not> nw_last v \<and> is_packet vs" by auto
    have "(B - 1) div 64 = Suc ((B - 64 - 1) div 64)" "(B - 64) mod 64 = B mod 64"
      using 3 div_add_self2 [of 64 "B - 64 - 1"] by (simp_all add: le_mod_geq)
    with ih w show ?thesis by (intro exI [of _ "w # us"] exI [of _ v] exI [of _ vs]) simp
  qed
qed simp

text \<open>The first cycle.\<close>

lemma unat_bbt:
  assumes "2 ^ 18 \<le> unat a mod 2 ^ 18 + unat (l :: 16 word)"
  shows "unat (word_of_int (BUFFER_SIZE - uint (get_range 0 a :: 18 word)) :: 23 word)
     = 2 ^ 18 - unat (a :: 32 word) mod 2 ^ 18"
proof -
  have m: "unat a mod 2 ^ 18 < 2 ^ 18" by simp
  have "BUFFER_SIZE - uint (get_range 0 a :: 18 word) = int (2 ^ 18 - unat a mod 2 ^ 18)"
    using m by (simp add: uint_get_range of_nat_diff zmod_int)
  moreover have "2 ^ 18 - unat a mod 2 ^ 18 < 2 ^ LENGTH(23)" by simp
  ultimately show ?thesis by (simp only: of_int_of_nat_eq unat_of_nat mod_less)
qed

lemma bbt_beats:
  fixes c :: "23 word"
  assumes "0 < unat c" "unat c < 65536"
  shows "(if (get_range 0 c :: 6 word) \<noteq> 0 then ucast (get_range 6 c :: 12 word) + 1
          else ucast (get_range 6 c :: 12 word) :: 10 word) = of_nat (Suc ((unat c - 1) div 64))"
proof -
  have off: "(get_range 0 c :: 6 word) = 0 \<longleftrightarrow> unat c mod 64 = 0"
    using unat_get_range [of 0 c, where 'b = 6] by (simp flip: unat_eq_0)
  have b: "(ucast (get_range 6 c :: 12 word) :: 10 word) = of_nat (unat c div 64)"
    using unat_get_range [of 6 c, where 'b = 12] assms(2)
    by (simp add: word_unat_eq_iff unsigned_ucast_eq unat_of_nat take_bit_eq_mod less_mult_imp_div_less)
  have "Suc ((unat c - 1) div 64) = (if unat c mod 64 = 0 then unat c div 64 else Suc (unat c div 64))"
    using assms(1) div_mult_mod_eq [of "unat c" 64] by (cases "unat c mod 64") (auto simp: div_nat_eqI Suc_leI)
  then show ?thesis by (simp add: off b)
qed

lemma beats_total: "0 < B \<Longrightarrow> 64 * ((B - 1) div 64) + (if B mod 64 = 0 then 64 else B mod 64) = B" for B :: nat
proof -
  assume "0 < B"
  moreover have "B = 64 * (B div 64) + B mod 64" by simp
  moreover have "(B - 1) div 64 = (if B mod 64 = 0 then B div 64 - 1 else B div 64)"
    using \<open>0 < B\<close> div_mult_mod_eq [of B 64] by (cases "B mod 64") (auto simp: div_nat_eqI)
  ultimately show ?thesis by (cases "B mod 64 = 0") auto
qed

lemma write_wait_step:
  fixes a :: "32 word" and l :: "16 word" and s :: WriteData
  defines "B \<equiv> 2 ^ 18 - unat a mod 2 ^ 18"
  assumes "wd_fsm_state s = WAIT_CMD" and "wd_mem_write_cmd s = MemBufferRWCmd_new a l # cmds"
    and split: "2 ^ 18 \<le> unat a mod 2 ^ 18 + unat l"
  shows "wd_fsm_state (WriteDataToMem s) = FWD_BREAKDOWN_0"
    "wd_mem_write_data (WriteDataToMem s) = wd_mem_write_data s"
    "wd_mover_write_data (WriteDataToMem s) = wd_mover_write_data s"
    "wd_first_cmd_trans_beats_cnt (WriteDataToMem s) = of_nat 1"
    "wd_first_cmd_trans_beats (WriteDataToMem s) = of_nat (Suc ((B - 1) div 64))"
    "unat (wd_byte_offset (WriteDataToMem s)) = B mod 64"
    "wd_first_cmd_last_beat_keep (WriteDataToMem s) = DataLengthToAxisKeep (wd_byte_offset (WriteDataToMem s))"
    "\<exists>c. wd_mover_write_cmd (WriteDataToMem s) = wd_mover_write_cmd s @ [c] \<and> unat (dm_bbt c) = B"
    "unat (dm_bbt (second_write_cmd (WriteDataToMem s))) = unat l - B"
proof -
  let ?t = "WriteDataToMem s"
  define c :: "23 word" where "c = word_of_int (BUFFER_SIZE - uint (get_range 0 a :: 18 word))"
  have c: "unat c = B" unfolding c_def B_def using split by (rule unat_bbt)
  have m: "unat a mod 2 ^ 18 < 2 ^ 18" by simp
  have B: "0 < B" "B \<le> unat l" using m split unfolding B_def by linarith+
  have B16: "B < 65536" using B(2) unat_16 [of l] by linarith
  have b: "bit (mb_next_addr (MemBufferRWCmd_new a l)) 18" using split by (simp only: split_bit)
  have cmd: "mb_addr (MemBufferRWCmd_new a l) = a" "mb_length (MemBufferRWCmd_new a l) = l"
    by (simp_all add: MemBufferRWCmd_new_def)
  have c': "word_of_int BUFFER_SIZE - ucast (get_range 0 a :: 18 word) = c"
    by (simp add: c_def del: BUFFER_SIZE_def)
  note step = WriteDataToMem_def write_wait_cmd_def Let_def assms(2,3) b cmd c'
  show "wd_fsm_state ?t = FWD_BREAKDOWN_0" "wd_mem_write_data ?t = wd_mem_write_data s"
    "wd_mover_write_data ?t = wd_mover_write_data s" "wd_first_cmd_trans_beats_cnt ?t = of_nat 1"
    "wd_first_cmd_last_beat_keep ?t = DataLengthToAxisKeep (wd_byte_offset ?t)"
    by (simp_all add: step del: BUFFER_SIZE_def)
  show "wd_first_cmd_trans_beats ?t = of_nat (Suc ((B - 1) div 64))"
    using bbt_beats [of c] B(1) B16 c by (simp add: step del: BUFFER_SIZE_def of_nat_Suc)
  show "unat (wd_byte_offset ?t) = B mod 64"
    by (simp add: step unat_get_range c del: BUFFER_SIZE_def)
  show "\<exists>c. wd_mover_write_cmd ?t = wd_mover_write_cmd s @ [c] \<and> unat (dm_bbt c) = B"
    by (simp add: step c del: BUFFER_SIZE_def)
  have "dm_bbt (second_write_cmd ?t) = ucast l - c" by (simp add: second_write_cmd_def step del: BUFFER_SIZE_def)
  then show "unat (dm_bbt (second_write_cmd ?t)) = unat l - B"
    using c B(2) unat_23 [of l] by (simp add: unat_sub_if')
qed

text \<open>C22: A packet that is written across the end of its buffer is cut into two transfers with the
  bytes in order and each framed by its last flag; the two commands announce exactly the number
  of bytes of the transfer that belongs to each.  The process is ready for the next command
  after at most two cycles more than the packet has words.\<close>

theorem split_write_matches_commands:
  assumes "wd_fsm_state s = WAIT_CMD" and "wd_mem_write_cmd s = MemBufferRWCmd_new a l # cmds"
    and "wd_mem_write_data s = ws @ rest" and "is_packet ws" and "length (packet_bytes ws) = unat l"
    and "2 ^ 18 < unat a mod 2 ^ 18 + unat l"
  shows "\<exists>n \<le> length ws + 2. \<exists>out0 out1 c0 c1. let t = (WriteDataToMem ^^ n) s in
     wd_fsm_state t = WAIT_CMD \<and> wd_mem_write_data t = rest \<and>
     wd_mover_write_cmd t = wd_mover_write_cmd s @ [c0, c1] \<and>
     wd_mover_write_data t = wd_mover_write_data s @ out0 @ out1 \<and>
     is_frame out0 \<and> is_frame out1 \<and> packet_bytes (out0 @ out1) = packet_bytes ws \<and>
     unat (dm_bbt c0) = 2 ^ 18 - unat a mod 2 ^ 18 \<and>
     length (packet_bytes out0) = unat (dm_bbt c0) \<and> length (packet_bytes out1) = unat (dm_bbt c1)"
proof -
  define B where "B = 2 ^ 18 - unat a mod 2 ^ 18"
  have m: "unat a mod 2 ^ 18 < 2 ^ 18" by simp
  have B: "0 < B" "B < length (packet_bytes ws)" using m assms(5,6) unfolding B_def by linarith+
  have split: "2 ^ 18 \<le> unat a mod 2 ^ 18 + unat l" using assms(6) by linarith
  note first = write_wait_step [OF assms(1,2) split, folded B_def]
  from packet_split [OF assms(4) B] obtain us w vs where ws: "ws = us @ w # vs" "length us = (B - 1) div 64"
      "list_all (\<lambda>w. nw_keep w = - 1 \<and> \<not> nw_last w) us"
    and w: "if B mod 64 = 0 then nw_keep w = - 1 else \<forall>i < B mod 64. bit (nw_keep w) i"
    and vs: "if vs = [] then nw_last w else \<not> nw_last w \<and> is_packet vs"
    by blast
  let ?s1 = "WriteDataToMem s"
  let ?s2 = "(WriteDataToMem ^^ length us) ?s1"
  let ?m = "Suc ((B - 1) div 64)"
  have "?m \<le> 1024" using B(2) assms(5) unat_16 [of l] by (simp add: less_mult_imp_div_less Suc_le_eq)
  then have s2: "?s2 = ?s1\<lparr>wd_mem_write_data := w # vs @ rest, wd_first_cmd_trans_beats_cnt := of_nat ?m,
      wd_prev_beat_word := last (wd_prev_beat_word ?s1 # us),
      wd_mover_write_data := wd_mover_write_data s @ us\<rparr>"
    using write_forward [OF first(1), of us "w # vs @ rest" 1 ?m] first(2-5) assms(3) ws(1,2)
    by (simp del: of_nat_Suc)
  have second: "second_write_cmd ?s2 = second_write_cmd ?s1" unfolding s2 by (simp add: second_write_cmd_def)
  let ?f = "if wd_byte_offset ?s2 = 0 then 64 else unat (wd_byte_offset ?s2)"
  have off: "wd_byte_offset ?s2 = wd_byte_offset ?s1" unfolding s2 by simp
  have zero: "wd_byte_offset ?s1 = 0 \<longleftrightarrow> B mod 64 = 0" using first(6) by (simp flip: unat_eq_0)
  have "\<exists>n \<le> length vs + 2. split_done ?s2 rest (packet_bytes (w # vs)) ?f ((WriteDataToMem ^^ n) ?s2)"
  proof (rule cut_phase)
    show "wd_fsm_state ?s2 = FWD_BREAKDOWN_0" "wd_mem_write_data ?s2 = w # vs @ rest"
      "wd_first_cmd_trans_beats_cnt ?s2 = wd_first_cmd_trans_beats ?s2"
      "wd_first_cmd_last_beat_keep ?s2 = DataLengthToAxisKeep (wd_byte_offset ?s2)"
      unfolding s2 using first by (simp_all del: of_nat_Suc)
    show "if wd_byte_offset ?s2 = 0 then nw_keep w = - 1 else \<forall>i < unat (wd_byte_offset ?s2). bit (nw_keep w) i"
      using w by (simp only: off zero first(6))
  qed (fact vs)
  then obtain n out0 out1 where n: "n \<le> length vs + 2" and out: "is_frame out0" "is_frame out1"
      "packet_bytes out0 = take ?f (packet_bytes (w # vs))" "packet_bytes out1 = drop ?f (packet_bytes (w # vs))"
    and t: "wd_fsm_state ((WriteDataToMem ^^ n) ?s2) = WAIT_CMD" "wd_mem_write_data ((WriteDataToMem ^^ n) ?s2) = rest"
      "wd_mover_write_cmd ((WriteDataToMem ^^ n) ?s2) = wd_mover_write_cmd ?s2 @ [second_write_cmd ?s2]"
      "wd_mover_write_data ((WriteDataToMem ^^ n) ?s2) = wd_mover_write_data ?s2 @ out0 @ out1"
    unfolding split_done_def by blast
  obtain c0 where c0: "wd_mover_write_cmd ?s1 = wd_mover_write_cmd s @ [c0]" "unat (dm_bbt c0) = B"
    using first(8) by blast
  have f: "?f = (if B mod 64 = 0 then 64 else B mod 64)" by (simp only: off zero first(6))
  have "length (packet_bytes us) = 64 * ((B - 1) div 64)" using packet_prefix [OF ws(3)] ws(2) by simp
  then have len: "length (packet_bytes us) + ?f = B" using beats_total [OF B(1)] by (simp only: f)
  have bytes: "packet_bytes ws = packet_bytes us @ packet_bytes (w # vs)" using ws(1) by simp
  have "is_frame (us @ out0)" using out(1) ws(3) by (auto simp: is_frame_def butlast_append list_all_iff)
  moreover have "packet_bytes ((us @ out0) @ out1) = packet_bytes ws" by (simp add: bytes out del: packet_bytes_simps(2))
  moreover have "length (packet_bytes (us @ out0)) = unat (dm_bbt c0)"
    using len B(2) bytes c0(2) by (simp add: out min_def del: packet_bytes_simps(2))
  moreover have "length (packet_bytes out1) = unat (dm_bbt (second_write_cmd ?s2))"
    using len bytes assms(5) by (simp add: out second first(9) del: packet_bytes_simps(2))
  moreover have "(WriteDataToMem ^^ (n + Suc (length us))) s = (WriteDataToMem ^^ n) ?s2"
    by (simp only: funpow_add o_apply funpow_Suc_apply)
  moreover have "wd_mover_write_cmd ?s2 = wd_mover_write_cmd s @ [c0]" "wd_mover_write_data ?s2 = wd_mover_write_data s @ us"
    unfolding s2 by (simp_all add: c0)
  moreover have "n + Suc (length us) \<le> length ws + 2" using n ws(1) by simp
  ultimately show ?thesis
    using t out(2) c0(2) unfolding Let_def B_def [symmetric]
    by (intro exI [of _ "n + Suc (length us)"] conjI exI [of _ "us @ out0"] exI [of _ out1] exI [of _ c0] exI [of _ "second_write_cmd ?s2"]) simp_all
qed

definition split_word :: NetAXISWord where
  "split_word = \<lparr>nw_data = 0x332211, nw_dest = 0, nw_keep = 7, nw_last = True\<rparr>"

lemma split_word_packet:
  "packet_bytes [split_word] = [0x11, 0x22, 0x33]" "is_packet [split_word]" "nw_last split_word"
  "nw_keep split_word = DataLengthToAxisKeep 3"
proof -
  have m: "(7 :: 64 word) = mask 3" by (simp add: mask_eq_decr_exp)
  have "map (word_byte split_word) [0..<3] = [0x11, 0x22, 0x33]"
    by (simp add: upt_rec split_word_def word_byte_def get_range_def drop_bit_word_numeral
      unsigned_ucast_eq word_unat_eq_iff)
  then show "packet_bytes [split_word] = [0x11, 0x22, 0x33]"
    using word_bytes_mask [of split_word 3] by (simp add: split_word_def m)
  show "is_packet [split_word]" "nw_last split_word" by (auto simp: is_packet_def split_word_def m)
  show "nw_keep split_word = DataLengthToAxisKeep 3"
    by (simp add: DataLengthToAxisKeep_def keep_table_nth split_word_def m)
qed

definition split_write_state :: WriteData where
  "split_write_state =
     \<lparr>wd_fsm_state = WAIT_CMD, wd_first_cmd_bbt = 0, wd_byte_offset = 0, wd_first_cmd_last_beat_keep = 0,
      wd_first_cmd_trans_beats = 0, wd_first_cmd_trans_beats_cnt = 1, wd_inner_cmd = MemBufferRWCmd_default,
      wd_data_mver_cmd = DataMoverCmd_default, wd_prev_beat_word = NetAXISWord_default,
      wd_mem_write_cmd = [MemBufferRWCmd_new 0x3FFFE 3], wd_mem_write_data = [split_word],
      wd_mover_write_cmd = [], wd_mover_write_data = [], wd_mem_buffer_double_access_flag = []\<rparr>"

theorem split_write_matches_commands_witness:
  "\<exists>n \<le> 3. \<exists>out0 out1 c0 c1. let t = (WriteDataToMem ^^ n) split_write_state in
     wd_fsm_state t = WAIT_CMD \<and> wd_mover_write_cmd t = [c0, c1] \<and> wd_mover_write_data t = out0 @ out1 \<and>
     packet_bytes (out0 @ out1) = [0x11, 0x22, 0x33] \<and>
     length (packet_bytes out0) = 2 \<and> length (packet_bytes out1) = unat (dm_bbt c1)"
proof -
  have "wd_fsm_state split_write_state = WAIT_CMD"
    "wd_mem_write_cmd split_write_state = [MemBufferRWCmd_new 0x3FFFE 3]"
    "wd_mem_write_data split_write_state = [split_word] @ []" "wd_mover_write_cmd split_write_state = []"
    "wd_mover_write_data split_write_state = []"
    by (simp_all add: split_write_state_def)
  then obtain n out0 out1 c0 c1 where "n \<le> length [split_word] + 2"
    "wd_fsm_state ((WriteDataToMem ^^ n) split_write_state) = WAIT_CMD"
    "wd_mover_write_cmd ((WriteDataToMem ^^ n) split_write_state) = [c0, c1]"
    "wd_mover_write_data ((WriteDataToMem ^^ n) split_write_state) = out0 @ out1"
    "packet_bytes (out0 @ out1) = [0x11, 0x22, 0x33]" "unat (dm_bbt c0) = 2"
    "length (packet_bytes out0) = unat (dm_bbt c0)" "length (packet_bytes out1) = unat (dm_bbt c1)"
    using split_write_matches_commands [of split_write_state "0x3FFFE" 3 "[]" "[split_word]" "[]"] split_word_packet
    unfolding Let_def by auto
  then show ?thesis unfolding Let_def
    by (intro exI [of _ n] conjI exI [of _ out0] exI [of _ out1] exI [of _ c0] exI [of _ c1]) simp_all
qed
section \<open>Reads\<close>

text \<open>A first transfer of several beats: only its last one is kept.\<close>

lemma read_block_0_step:
  assumes "rd_fsm_state s = BREAKDOWN_BLOCK_0" and "rd_mover_read_data s = w # rest" and "\<not> rd_mem_read_data_full s"
  shows "ReadDataFromMem s = read_block_0 w (s\<lparr>rd_mover_read_data := rest\<rparr>)"
  using assms by (simp add: ReadDataFromMem_def Let_def)

text \<open>Of a first transfer of several beats every beat but the last is taken from the data mover and
  never sent.\<close>

theorem split_read_drops_beats:
  assumes "rd_fsm_state s = BREAKDOWN_BLOCK_0" and "rd_mover_read_data s = us @ w # rest"
    and "list_all (\<lambda>u. \<not> nw_last u) us" and "nw_last w" and "\<not> rd_mem_read_data_full s"
  shows "(ReadDataFromMem ^^ Suc (length us)) s = s
     \<lparr>rd_mover_read_data := rest, rd_prev_beat_word := w,
      rd_fsm_state := (if rd_offset_block0 s = 0 then BREAKDOWN_ALIGNED else FIRST_MERGE),
      rd_mem_read_data := rd_mem_read_data s @
        (if rd_offset_block0 s = 0 then [w\<lparr>nw_dest := 0, nw_last := False\<rparr>] else [])\<rparr>"
  using assms
proof (induction us arbitrary: s)
  case Nil
  then show ?case by (simp add: read_block_0_step read_block_0_def Let_def)
next
  case (Cons u us)
  have step: "ReadDataFromMem s = s\<lparr>rd_mover_read_data := us @ w # rest, rd_prev_beat_word := u\<rparr>"
    using Cons.prems by (simp add: read_block_0_step read_block_0_def Let_def)
  show ?case
    by (simp only: length_Cons funpow_Suc_apply [of "Suc (length us)"] step, subst Cons.IH)
      (use Cons.prems in simp_all)
qed

definition read_done :: "ReadData \<Rightarrow> NetAXISWord list \<Rightarrow> 8 word list \<Rightarrow> ReadData \<Rightarrow> bool" where
  "read_done s rest bs t \<longleftrightarrow> (\<exists>out. rd_fsm_state t = READ_ACCESS \<and> rd_mover_read_data t = rest \<and>
     rd_mem_read_data t = rd_mem_read_data s @ out \<and> is_frame out \<and> packet_bytes out = bs)"

lemma read_extra_step:
  assumes "rd_fsm_state s = EXTRA_DATA" and "\<not> rd_mem_read_data_full s"
  shows "\<exists>out. ReadDataFromMem s = s\<lparr>rd_mem_read_data := rd_mem_read_data s @ [out], rd_fsm_state := READ_ACCESS\<rparr> \<and>
     word_bytes out = tail_bytes (rd_offset_block1 s) (rd_prev_beat_word s) \<and> nw_last out"
  by (rule exI [of _ "(ConcatTwoWords NetAXISWord_default (rd_prev_beat_word s) (rd_offset_block1 s)
         NetAXISWord_default)\<lparr>nw_last := True\<rparr>"])
    (simp add: ReadDataFromMem_def assms last_tail_bytes)

text \<open>The word that a merging state sends for the beat \<open>w\<close>, and the bytes \<open>pre\<close> it adds before those
  of \<open>w\<close>.\<close>

definition merged :: "ReadData \<Rightarrow> NetAXISWord \<Rightarrow> NetAXISWord" where
  "merged s w = (if rd_fsm_state s = FIRST_MERGE
     then MergeTwoWordsHead w (rd_prev_beat_word s) (rd_offset_block0 s) NetAXISWord_default
     else ConcatTwoWords w (rd_prev_beat_word s) (rd_offset_block1 s) NetAXISWord_default)"

definition pre_bytes :: "ReadData \<Rightarrow> 8 word list" where
  "pre_bytes s = (if rd_fsm_state s = FIRST_MERGE
     then somes (take (unat (rd_offset_block0 s)) (lanes (rd_prev_beat_word s)))
     else tail_bytes (rd_offset_block1 s) (rd_prev_beat_word s))"

lemma merged_bytes:
  assumes "rd_offset_block1 s = 64 - rd_offset_block0 s" and "rd_offset_block0 s \<noteq> 0"
  shows "word_bytes (merged s w) @ tail_bytes (rd_offset_block1 s) w = pre_bytes s @ word_bytes w"
proof (cases "rd_fsm_state s = FIRST_MERGE")
  case True
  let ?k = "unat (rd_offset_block0 s)"
  have k: "0 < ?k" "?k < 64" using assms(2) unat_6 by (simp_all add: unat_gt_0)
  then have k1: "unat (rd_offset_block1 s) = 64 - ?k"
    using assms(1) by (simp add: unat_sub_if')
  then have "rd_offset_block1 s \<noteq> 0" using k by (simp flip: unat_eq_0)
  moreover have "somes (lanes w) = somes (take (64 - ?k) (lanes w)) @ somes (drop (64 - ?k) (lanes w))"
    by (metis append_take_drop_id somes_append)
  ultimately show ?thesis
    using True k by (simp add: merged_def pre_bytes_def tail_bytes_def k1 word_bytes_lanes lanes_MergeTwoWordsHead)
qed (simp add: merged_def pre_bytes_def concat_tail_bytes)

lemma read_merge_step:
  assumes "rd_fsm_state s = FIRST_MERGE \<or> rd_fsm_state s = BREAKDOWN_BLOCK_1"
    and "rd_mover_read_data s = w # rest" and "\<not> rd_mem_read_data_full s"
  shows "ReadDataFromMem s = read_merge w (merged s w) BREAKDOWN_BLOCK_1 (s\<lparr>rd_mover_read_data := rest\<rparr>)"
  using assms by (auto simp: ReadDataFromMem_def merged_def Let_def)

lemma read_join:
  assumes "rd_fsm_state s = FIRST_MERGE \<or> rd_fsm_state s = BREAKDOWN_BLOCK_1"
    and "rd_mover_read_data s = ws @ rest" and "is_packet ws" and "\<not> rd_mem_read_data_full s"
    and "rd_offset_block1 s = 64 - rd_offset_block0 s" and "rd_offset_block0 s \<noteq> 0"
  shows "\<exists>n \<le> Suc (length ws). read_done s rest (pre_bytes s @ packet_bytes ws) ((ReadDataFromMem ^^ n) s)"
  using assms
proof (induction ws arbitrary: s)
  case Nil
  then show ?case by (simp add: is_packet_def)
next
  case (Cons w ws)
  let ?k = "rd_offset_block1 s"
  let ?c = "merged s w"
  let ?extra = "bit (nw_keep w) (unat ?k)"
  note bytes = merged_bytes [OF Cons.prems(5,6), of w]
  have step: "ReadDataFromMem s = s
     \<lparr>rd_mover_read_data := ws @ rest, rd_prev_beat_word := w,
      rd_fsm_state := (if nw_last w then (if ?extra then EXTRA_DATA else READ_ACCESS) else BREAKDOWN_BLOCK_1),
      rd_mem_read_data := rd_mem_read_data s @ [?c\<lparr>nw_last := (nw_last w \<and> \<not> ?extra)\<rparr>]\<rparr>"
    using Cons.prems by (simp add: read_merge_step read_merge_def Let_def)
  show ?case
  proof (cases "ws = []")
    case True
    then have l: "nw_last w" and "nw_keep w \<in> mask ` {1..64}" using Cons.prems by (auto simp: is_packet_def)
    then obtain j where j: "nw_keep w = mask j" "j \<le> 64" by auto
    show ?thesis
    proof (cases ?extra)
      case True
      then have "rd_fsm_state (ReadDataFromMem s) = EXTRA_DATA" using l by (simp add: step)
      from read_extra_step [OF this]
      have "read_done s rest (pre_bytes s @ packet_bytes [w]) (ReadDataFromMem (ReadDataFromMem s))"
        using True bytes Cons.prems(4) by (auto simp: read_done_def step \<open>ws = []\<close> is_frame_def)
      then show ?thesis using \<open>ws = []\<close> by (intro exI [of _ 2]) (simp add: numeral_2_eq_2)
    next
      case False
      then have "tail_bytes ?k w = []"
        using j unat_6 [of ?k] by (intro no_extra_tail_bytes [of w j]) (auto simp: bit_simps not_less)
      then have "read_done s rest (pre_bytes s @ packet_bytes [w]) (ReadDataFromMem s)"
        using False l bytes by (simp add: read_done_def step \<open>ws = []\<close> is_frame_def)
      then show ?thesis using \<open>ws = []\<close> by (intro exI [of _ 1]) simp
    qed
  next
    case False
    then have w: "\<not> nw_last w" "is_packet ws" using Cons.prems by (auto simp: packet_Cons)
    then have "pre_bytes (ReadDataFromMem s) = tail_bytes ?k w" by (simp add: pre_bytes_def step)
    then obtain n where n: "n \<le> Suc (length ws)" "read_done (ReadDataFromMem s) rest
       (tail_bytes ?k w @ packet_bytes ws) ((ReadDataFromMem ^^ n) (ReadDataFromMem s))"
      using Cons.IH [of "ReadDataFromMem s"] w Cons.prems by (auto simp: step)
    have "read_done s rest (pre_bytes s @ packet_bytes (w # ws)) ((ReadDataFromMem ^^ n) (ReadDataFromMem s))"
      using n(2) w(1) bytes by (auto simp: read_done_def step is_frame_def)
    then show ?thesis
      using n(1) by (intro exI [of _ "Suc n"]) (simp only: funpow_Suc_apply length_Cons Suc_le_mono simp_thms)
  qed
qed

lemma read_plain:
  assumes "rd_fsm_state s = NO_BREAKDOWN \<or> rd_fsm_state s = BREAKDOWN_ALIGNED"
    and "rd_mover_read_data s = ws @ rest" and "is_packet ws" and "\<not> rd_mem_read_data_full s"
  shows "(ReadDataFromMem ^^ length ws) s
     = s\<lparr>rd_mover_read_data := rest, rd_fsm_state := READ_ACCESS, rd_mem_read_data := rd_mem_read_data s @ ws\<rparr>"
  using assms
proof (induction ws arbitrary: s)
  case (Cons w ws)
  have "ReadDataFromMem s = s\<lparr>rd_mover_read_data := ws @ rest,
     rd_fsm_state := (if nw_last w then READ_ACCESS else rd_fsm_state s), rd_mem_read_data := rd_mem_read_data s @ [w]\<rparr>"
    using Cons.prems by (auto simp: ReadDataFromMem_def read_aligned_def)
  then show ?case
    using Cons.prems Cons.IH [of "ReadDataFromMem s"]
    by (cases "ws = []") (simp_all add: packet_Cons funpow_Suc_apply del: funpow.simps)
qed (simp add: is_packet_def)

lemma first_block_step:
  assumes "rd_fsm_state s = READ_ACCESS" and "rd_mem_buffer_double_access s = \<lparr>md_double_access = True, md_byte_offset = k\<rparr> # accs"
    and "rd_mover_read_data s = w # rest" and "nw_last w" and "\<not> rd_mem_read_data_full s"
  shows "ReadDataFromMem (ReadDataFromMem s) = s
     \<lparr>rd_mem_buffer_double_access := accs, rd_mover_read_data := rest, rd_prev_beat_word := w,
      rd_offset_block0 := k, rd_offset_block1 := 64 - k,
      rd_fsm_state := (if k = 0 then BREAKDOWN_ALIGNED else FIRST_MERGE),
      rd_mem_read_data := rd_mem_read_data s @ (if k = 0 then [w\<lparr>nw_dest := 0, nw_last := False\<rparr>] else [])\<rparr>"
proof -
  have "ReadDataFromMem s = s\<lparr>rd_mem_buffer_double_access := accs, rd_offset_block0 := k,
      rd_offset_block1 := 64 - k, rd_fsm_state := BREAKDOWN_BLOCK_0\<rparr>"
    using assms by (simp add: ReadDataFromMem_def read_access_def)
  then show ?thesis using assms by (simp add: read_block_0_step read_block_0_def Let_def)
qed

text \<open>Two transfers, the first of one beat, are joined into one packet with the bytes of both in
  order and one last flag, for every number of bytes in the first, in at most three cycles more
  than the second has beats.\<close>

theorem split_read_joins_transfers:
  assumes "rd_fsm_state s = READ_ACCESS"
    and "rd_mem_buffer_double_access s = \<lparr>md_double_access = True, md_byte_offset = k\<rparr> # accs"
    and "rd_mover_read_data s = w # ws @ rest" and "nw_last w" and "nw_keep w = DataLengthToAxisKeep k"
    and "is_packet ws" and "\<not> rd_mem_read_data_full s"
  shows "\<exists>n \<le> length ws + 3. \<exists>out. let t = (ReadDataFromMem ^^ n) s in
     rd_fsm_state t = READ_ACCESS \<and> rd_mover_read_data t = rest \<and>
     rd_mem_read_data t = rd_mem_read_data s @ out \<and> is_frame out \<and> packet_bytes out = packet_bytes (w # ws)"
proof -
  let ?t = "ReadDataFromMem (ReadDataFromMem s)"
  note step = first_block_step [OF assms(1-4,7)]
  have "\<exists>n \<le> Suc (length ws). read_done s rest (packet_bytes (w # ws)) ((ReadDataFromMem ^^ n) ?t)"
  proof (cases "k = 0")
    case True
    have b: "word_bytes (w\<lparr>nw_dest := 0, nw_last := False\<rparr>) = word_bytes w"
      by (simp add: word_bytes_def word_byte_def)
    have "(ReadDataFromMem ^^ length ws) ?t = ?t\<lparr>rd_mover_read_data := rest, rd_fsm_state := READ_ACCESS,
        rd_mem_read_data := rd_mem_read_data ?t @ ws\<rparr>"
      using True assms(6,7) by (intro read_plain) (simp_all add: step)
    then have "read_done s rest (packet_bytes (w # ws)) ((ReadDataFromMem ^^ length ws) ?t)"
      using True assms(6) b by (simp add: read_done_def step) (simp add: is_frame_def is_packet_def list_all_iff)
    then show ?thesis by (intro exI [of _ "length ws"]) simp
  next
    case False
    have keep: "nw_keep w = mask (unat k)"
      using assms(5) False unat_6 [of k] by (simp add: DataLengthToAxisKeep_def keep_table_nth unat_eq_0)
    then have "pre_bytes ?t = word_bytes w"
      using False unat_6 [of k] by (simp add: pre_bytes_def step lanes_mask word_bytes_lanes)
    moreover have "\<exists>n \<le> Suc (length ws). read_done ?t rest (pre_bytes ?t @ packet_bytes ws) ((ReadDataFromMem ^^ n) ?t)"
      using False assms(6,7) by (intro read_join) (simp_all add: step)
    moreover have "rd_mem_read_data ?t = rd_mem_read_data s" using False by (simp add: step)
    ultimately show ?thesis by (simp add: read_done_def)
  qed
  then obtain n where n: "n \<le> Suc (length ws)" "read_done s rest (packet_bytes (w # ws)) ((ReadDataFromMem ^^ Suc (Suc n)) s)"
    by (auto simp only: funpow_Suc_apply)
  then show ?thesis unfolding read_done_def Let_def
    by (intro exI [of _ "Suc (Suc n)"]) simp
qed

definition split_read_state :: "NetAXISWord list \<Rightarrow> ReadDataFsmState \<Rightarrow> ReadData" where
  "split_read_state ws st =
     \<lparr>rd_fsm_state = st, rd_offset_block0 = 3, rd_offset_block1 = 61, rd_prev_beat_word = NetAXISWord_default,
      rd_mover_read_data = ws, rd_mem_buffer_double_access = [\<lparr>md_double_access = True, md_byte_offset = 3\<rparr>],
      rd_mem_read_data = [], rd_mem_read_data_full = False\<rparr>"

theorem split_read_joins_transfers_witness:
  "\<exists>n \<le> 4. \<exists>out. rd_mem_read_data ((ReadDataFromMem ^^ n) (split_read_state [split_word, split_word] READ_ACCESS)) = out \<and>
     is_frame out \<and> packet_bytes out = [0x11, 0x22, 0x33, 0x11, 0x22, 0x33]"
  using split_read_joins_transfers [of "split_read_state [split_word, split_word] READ_ACCESS" 3 "[]" split_word "[split_word]" "[]"]
    split_word_packet
  unfolding Let_def by (auto simp: split_read_state_def)

theorem split_read_drops_beats_witness:
  "rd_mem_read_data ((ReadDataFromMem ^^ Suc (Suc 0)) (split_read_state [full_word, split_word] BREAKDOWN_BLOCK_0)) = []"
  using split_read_drops_beats [of "split_read_state [full_word, split_word] BREAKDOWN_BLOCK_0" "[full_word]" split_word "[]"]
  by (simp add: split_read_state_def full_word_def split_word_def del: funpow.simps)
end
