(* ===== verification/Realign.thy ===== *)
theory Realign
  imports Memory_Data
begin

text \<open>
  The contract of the processes that cut a header off a packet: they hold the previous word and
  join each new one to it at a byte offset, send one more word when the last one does not fit, and
  may edit the first word they send.  The header insertion and the header parser of the receive
  engine are interpreted in it.
\<close>

section \<open>Lanes of a packet\<close>

lemma somes_Some [simp]: "somes (map Some xs) = xs" "somes (map (\<lambda>i. Some (f i)) xs) = map f xs"
  by (induction xs) simp_all

lemma full_lanes:
  assumes "nw_keep w = - 1"
  shows "lanes w = map Some (word_bytes w)"
  using lanes_full [OF assms] by (simp add: word_bytes_lanes comp_def)

lemma mask_lanes:
  assumes "nw_keep w = mask j" and "j \<le> 64"
  shows "lanes w = map Some (word_bytes w) @ replicate (64 - j) None" and "length (word_bytes w) = j"
  using lanes_mask [OF assms(1)] assms(2)
  by (simp_all add: word_bytes_lanes min_def comp_def)

text \<open>A packet is its bytes, then fewer than 64 empty lanes.\<close>

lemma is_packet_Cons:
  "is_packet (w # ws) \<longleftrightarrow>
     (if ws = [] then nw_last w \<and> nw_keep w \<in> mask ` {1..64}
      else nw_keep w = - 1 \<and> \<not> nw_last w \<and> is_packet ws)"
  by (simp add: is_packet_def)

lemma packet_lanes:
  "is_packet ws \<Longrightarrow> \<exists>j < 64. concat (map lanes ws) = map Some (packet_bytes ws) @ replicate j None"
proof (induction ws)
  case (Cons w ws)
  show ?case
  proof (cases "ws = []")
    case True
    then obtain k where k: "nw_keep w = mask k" "1 \<le> k" "k \<le> 64"
      using Cons.prems by (auto simp: is_packet_Cons)
    show ?thesis
      by (rule exI [of _ "64 - k"]) (use mask_lanes [OF k(1,3)] k True in simp)
  next
    case False
    then show ?thesis
      using Cons.IH Cons.prems by (auto simp: is_packet_Cons full_lanes)
  qed
qed (simp add: is_packet_def)

lemma packet_drop:
  assumes "is_packet ws"
  shows "somes (drop k (concat (map lanes ws))) = drop k (packet_bytes ws)"
proof -
  obtain j where "concat (map lanes ws) = map Some (packet_bytes ws) @ replicate j None"
    using packet_lanes [OF assms] by auto
  then show ?thesis by (simp add: drop_map)
qed

lemma length_full: "nw_keep w = - 1 \<Longrightarrow> length (word_bytes w) = 64"
  by (metis full_lanes length_lanes length_map)

lemma packet_not_empty: "is_packet ws \<Longrightarrow> packet_bytes ws \<noteq> []"
proof (cases ws)
  case (Cons w vs)
  assume p: "is_packet ws"
  have "0 < length (word_bytes w)"
  proof (cases "vs = []")
    case True
    then obtain k where "nw_keep w = mask k" "1 \<le> k" "k \<le> 64"
      using p Cons by (auto simp: is_packet_Cons)
    then show ?thesis using mask_lanes(2) [of w k] by simp
  next
    case False
    then show ?thesis using p Cons length_full [of w] by (simp add: is_packet_Cons)
  qed
  then show ?thesis using Cons by simp
qed (simp add: is_packet_def)

text \<open>Whether bytes are left over after the last word.\<close>

lemma mask_no_rest:
  assumes "nw_keep w \<in> mask ` {1..64}" and "\<not> bit (nw_keep w) k" and "k < 64"
  shows "somes (drop k (lanes w)) = []"
proof -
  obtain j where j: "nw_keep w = mask j" "j \<le> 64" using assms(1) by auto
  then have "j \<le> k" using assms(2,3) by (simp add: bit_mask_iff)
  then show ?thesis using mask_lanes [OF j] by simp
qed

text \<open>The keep mask can be read off the lanes.\<close>

lemma keep_of_lanes:
  assumes "lanes v = map Some xs @ replicate j None" and "length xs + j = 64"
  shows "nw_keep v = mask (length xs)"
proof (rule bit_word_eqI)
  fix i
  assume i: "i < LENGTH(64)"
  then have "bit (nw_keep v) i \<longleftrightarrow> lanes v ! i \<noteq> None" by (simp add: nth_lanes)
  also have "\<dots> \<longleftrightarrow> i < length xs" using assms i by (auto simp: nth_append)
  finally show "bit (nw_keep v) i = bit (mask (length xs) :: 64 word) i" using i by (simp add: bit_mask_iff)
qed

lemma keep_full: "lanes v = map Some xs \<Longrightarrow> nw_keep v = - 1"
  using keep_of_lanes [of v xs 0] length_lanes [of v] by (auto simp: mask_eq_exp_minus_1)

section \<open>The contract\<close>

datatype shift_phase = Shift_Idle | Shift_Rest | Shift_Extra

locale realigner =
  fixes step :: "'s \<Rightarrow> 's" and phase :: "'s \<Rightarrow> shift_phase" and prev :: "'s \<Rightarrow> NetAXISWord"
    and off :: "'s \<Rightarrow> nat" and inp :: "'s \<Rightarrow> NetAXISWord list" and out :: "'s \<Rightarrow> NetAXISWord list"
    and ok :: "'s \<Rightarrow> bool" and edit :: "'s \<Rightarrow> 8 word option list \<Rightarrow> 8 word option list" and keep :: "'s \<Rightarrow> 'k"
  assumes rest_step: "phase s = Shift_Rest \<Longrightarrow> ok s \<Longrightarrow> inp s = w # xs \<Longrightarrow>
      \<exists>o1. inp (step s) = xs \<and> out (step s) = out s @ [o1] \<and> prev (step s) = w \<and> off (step s) = off s \<and>
        ok (step s) \<and> edit (step s) = (\<lambda>ls. ls) \<and> keep (step s) = keep s \<and>
        lanes o1 = edit s (drop (off s) (lanes (prev s)) @ take (off s) (lanes w)) \<and>
        nw_last o1 = (nw_last w \<and> \<not> bit (nw_keep w) (off s)) \<and>
        phase (step s) = (if nw_last w then if bit (nw_keep w) (off s) then Shift_Extra else Shift_Idle
                          else Shift_Rest)"
    and extra_step: "phase s = Shift_Extra \<Longrightarrow> ok s \<Longrightarrow>
      \<exists>o1. inp (step s) = inp s \<and> out (step s) = out s @ [o1] \<and> keep (step s) = keep s \<and>
        lanes o1 = drop (off s) (lanes (prev s)) @ replicate (off s) None \<and> nw_last o1 \<and>
        phase (step s) = Shift_Idle"
    and ok_off: "ok s \<Longrightarrow> off s < 64"
    and edit_full: "ok s \<Longrightarrow> length bs + j = 64 \<Longrightarrow> 64 - off s \<le> length bs \<Longrightarrow>
      \<exists>cs. length cs = length bs \<and> edit s (map Some bs @ replicate j None) = map Some cs @ replicate j None"
    and edit_append: "length ls = 64 \<Longrightarrow> edit s (ls @ ms) = edit s ls @ ms"
begin

definition cut :: "'s \<Rightarrow> NetAXISWord list \<Rightarrow> NetAXISWord list \<Rightarrow> 's \<Rightarrow> bool" where
  "cut s ws rest t \<longleftrightarrow> (\<exists>os. phase t = Shift_Idle \<and> inp t = rest \<and> keep t = keep s \<and> out t = out s @ os \<and>
     is_packet os \<and> packet_bytes os = somes (edit s (drop (off s) (lanes (prev s) @ concat (map lanes ws)))))"

lemma edit_word:
  assumes "ok s"
  shows "edit s (drop (off s) (lanes (prev s)) @ lanes w @ ys) =
     edit s (drop (off s) (lanes (prev s)) @ take (off s) (lanes w)) @ drop (off s) (lanes w) @ ys"
proof -
  have e: "lanes w @ ys = take (off s) (lanes w) @ drop (off s) (lanes w) @ ys"
    by (simp flip: append_assoc)
  show ?thesis
    by (subst e) (use edit_append [of "drop (off s) (lanes (prev s)) @ take (off s) (lanes w)" s
        "drop (off s) (lanes w) @ ys"] ok_off [OF assms] in simp)
qed

text \<open>The first word sent is full when both words are; when the second is shorter, it ends where the
  second does.\<close>

lemma sent_keep:
  assumes "ok s" and "nw_keep (prev s) = - 1" and "lanes w = map Some bs @ replicate j None" and "length bs + j = 64"
    and "lanes o1 = edit s (drop (off s) (lanes (prev s)) @ take (off s) (lanes w))"
  shows "nw_keep o1 = (if off s \<le> length bs then - 1 else mask (64 - off s + length bs))"
proof -
  have off: "off s < 64" using ok_off assms(1) .
  let ?cs = "drop (off s) (word_bytes (prev s)) @ take (off s) bs"
  have lp: "length (word_bytes (prev s)) = 64" using length_full [OF assms(2)] .
  from lp have len: "length ?cs = 64 - off s + min (off s) (length bs)" using off by simp
  have "drop (off s) (lanes (prev s)) @ take (off s) (lanes w)
      = map Some ?cs @ replicate (off s - length bs) None"
    using assms(4) off
    by (simp add: full_lanes [OF assms(2)] assms(3) drop_map take_map)
  then have "lanes o1 = edit s (map Some ?cs @ replicate (off s - length bs) None)" using assms(5) by simp
  moreover have "length ?cs + (off s - length bs) = 64" "64 - off s \<le> length ?cs" using len off by auto
  ultimately obtain ds where "length ds = length ?cs" "lanes o1 = map Some ds @ replicate (off s - length bs) None"
    using edit_full [OF assms(1)] by metis
  then show ?thesis
    using keep_of_lanes [of o1 ds "off s - length bs"] keep_full [of o1 ds] len lp off by auto
qed

lemma cut_last:
  assumes "phase s = Shift_Rest" and "ok s" and "inp s = w # rest" and "nw_last w"
    and "nw_keep w \<in> mask ` {1..64}" and "nw_keep (prev s) = - 1"
  shows "\<exists>n \<le> 2. cut s [w] rest ((step ^^ n) s)"
proof -
  obtain o1 where o1: "inp (step s) = rest" "out (step s) = out s @ [o1]" "prev (step s) = w"
      "off (step s) = off s" "ok (step s)" "edit (step s) = (\<lambda>ls. ls)" "keep (step s) = keep s"
      "lanes o1 = edit s (drop (off s) (lanes (prev s)) @ take (off s) (lanes w))"
      "nw_last o1 = (\<not> bit (nw_keep w) (off s))"
      "phase (step s) = (if bit (nw_keep w) (off s) then Shift_Extra else Shift_Idle)"
    using rest_step [OF assms(1-3)] assms(4) by auto
  have off: "off s < 64" using ok_off assms(2) .
  obtain j where j: "nw_keep w = mask j" "1 \<le> j" "j \<le> 64" using assms(5) by auto
  note l = mask_lanes [OF j(1,3)]
  have b: "bit (nw_keep w) (off s) \<longleftrightarrow> off s < j" using j(1) off by (simp add: bit_mask_iff)
  have keep1: "nw_keep o1 = (if off s \<le> j then - 1 else mask (64 - off s + j))"
    using sent_keep [OF assms(2,6) l(1) _ o1(8)] l(2) j(3) by simp
  have all: "somes (edit s (drop (off s) (lanes (prev s) @ lanes w)))
      = word_bytes o1 @ somes (drop (off s) (lanes w))"
    using edit_word [OF assms(2), of w "[]"] off o1(8) by (simp add: word_bytes_lanes)
  show ?thesis
  proof (cases "bit (nw_keep w) (off s)")
    case False
    have none: "somes (drop (off s) (lanes w)) = []" using mask_no_rest [OF assms(5) False off] .
    have "nw_keep o1 = mask (64 - off s + j)"
      using keep1 False b j off by (auto simp: mask_eq_exp_minus_1)
    moreover have "64 - off s + j \<in> {1..64}" using False b off j by auto
    ultimately have "nw_keep o1 \<in> mask ` {1..64}" by (metis imageI)
    then have "is_packet [o1]" using o1(9) False by (simp add: is_packet_def)
    then have "cut s [w] rest (step s)" using o1 False all none by (auto simp: cut_def)
    then show ?thesis by (intro exI [of _ 1]) simp
  next
    case True
    obtain o2 where o2: "inp (step (step s)) = rest" "out (step (step s)) = out s @ [o1, o2]"
      "keep (step (step s)) = keep s" "lanes o2 = drop (off s) (lanes w) @ replicate (off s) None" "nw_last o2"
      "phase (step (step s)) = Shift_Idle"
      using extra_step [of "step s"] o1 True by auto
    have "lanes o2 = map Some (drop (off s) (word_bytes w)) @ replicate (64 - j + off s) None"
      using o2(4) l True b by (simp add: drop_map replicate_add)
    then have "nw_keep o2 = mask (j - off s)"
      using keep_of_lanes l(2) True b j(3) by fastforce
    moreover have "j - off s \<in> {1..64}" using True b j(3) by auto
    ultimately have "nw_keep o2 \<in> mask ` {1..64}" by (metis imageI)
    moreover have "nw_keep o1 = - 1" using keep1 True b by simp
    ultimately have "is_packet [o1, o2]" using o1(9) o2(5) True by (simp add: is_packet_def)
    then have "cut s [w] rest (step (step s))"
      using o1 o2 True all by (auto simp: cut_def word_bytes_lanes)
    then show ?thesis by (intro exI [of _ 2]) (simp add: eval_nat_numeral)
  qed
qed

text \<open>The words of a packet that follow the one held are consumed, and the bytes sent are those of
  the whole packet from the offset on, edited.\<close>

lemma cut_packet:
  "phase s = Shift_Rest \<Longrightarrow> ok s \<Longrightarrow> inp s = ws @ rest \<Longrightarrow> is_packet ws \<Longrightarrow>
     nw_keep (prev s) = - 1 \<Longrightarrow> \<exists>n \<le> Suc (length ws). cut s ws rest ((step ^^ n) s)"
proof (induction ws arbitrary: s)
  case Nil
  then show ?case by (simp add: is_packet_def)
next
  case (Cons w ws)
  show ?case
  proof (cases "ws = []")
    case True
    then have "\<exists>n \<le> 2. cut s [w] rest ((step ^^ n) s)"
      using Cons.prems by (intro cut_last) (auto simp: is_packet_Cons)
    then show ?thesis using True by (auto simp: numeral_2_eq_2)
  next
    case False
    then have w: "\<not> nw_last w" "is_packet ws" "nw_keep w = - 1" using Cons.prems(4) by (simp_all add: is_packet_Cons)
    obtain o1 where o1: "inp (step s) = ws @ rest" "out (step s) = out s @ [o1]" "prev (step s) = w"
        "off (step s) = off s" "ok (step s)" "edit (step s) = (\<lambda>ls. ls)" "keep (step s) = keep s"
        "lanes o1 = edit s (drop (off s) (lanes (prev s)) @ take (off s) (lanes w))"
        "\<not> nw_last o1" "phase (step s) = Shift_Rest"
      using rest_step [OF Cons.prems(1,2), of w "ws @ rest"] Cons.prems(3) w(1) by auto
    obtain n os where n: "n \<le> Suc (length ws)" "phase ((step ^^ n) (step s)) = Shift_Idle"
        "inp ((step ^^ n) (step s)) = rest" "keep ((step ^^ n) (step s)) = keep s"
        "out ((step ^^ n) (step s)) = (out s @ [o1]) @ os" "is_packet os"
        "packet_bytes os = somes (drop (off s) (lanes w @ concat (map lanes ws)))"
      using Cons.IH [OF o1(10,5,1) w(2)] o1 w(3) by (auto simp: cut_def)
    have off: "off s < 64" using ok_off Cons.prems(2) .
    have "somes (edit s (drop (off s) (lanes (prev s) @ lanes w @ concat (map lanes ws))))
        = word_bytes o1 @ packet_bytes os"
      using edit_word [OF Cons.prems(2), of w "concat (map lanes ws)"] off n(7)
      by (simp add: o1(8) word_bytes_lanes)
    moreover have "nw_keep o1 = - 1"
      using sent_keep [OF Cons.prems(2,5) _ _ o1(8), of "word_bytes w" 0] full_lanes [OF w(3)]
        length_lanes [of w] off by simp
    then have "is_packet (o1 # os)" using n(6) o1(9) by (simp add: is_packet_Cons) (simp add: is_packet_def)
    ultimately have "cut s (w # ws) rest ((step ^^ Suc n) s)"
      unfolding cut_def by (intro exI [of _ "o1 # os"]) (use n in \<open>simp add: funpow_Suc_apply del: funpow.simps\<close>)
    then show ?thesis using n(1) by (intro exI [of _ "Suc n"]) simp
  qed
qed

end

end
