(* ===== verification/Rx_Packet.thy ===== *)
theory Rx_Packet
  imports Tcp_Header Realign
begin

text \<open>
  The first two processes of \<open>rx_engine/rx_engine.cpp\<close>: \<open>RxEngTcpPseudoHeaderInsert\<close> replaces the IP
  header of a packet by the pseudo header, \<open>RxEngParseTcpHeader\<close> reads the TCP header behind it and
  cuts both off the payload.  The theorems say in terms of the bytes of the packets what comes out.
\<close>

section \<open>\<open>RxEngTcpPseudoHeaderInsert\<close>\<close>

datatype PseudoHeaderFsmState = IP_HEADER | TCP_PAYLOAD | PSEUDO_EXTRA_WORD

record RxPseudo =
  ri_fsm_state :: PseudoHeaderFsmState
  ri_prev_word :: NetAXISWord
  ri_ip_header_length :: "4 word"
  ri_ip_packet_length :: "16 word"
  ri_keep_extra :: "6 word"
  ri_dest_ip_addr :: "32 word"
  ri_src_ip_addr :: "32 word"
  ri_pseudo_header_not_inserted :: bool
  ri_rx_ip_pkt_in :: "NetAXISWord stream"
  ri_tcp_pseudo_packet_for_checksum :: "NetAXISWord stream"
  ri_tcp_pseudo_packet_for_rx_eng :: "NetAXISWord stream"

definition tcp_segment_length :: "RxPseudo \<Rightarrow> 16 word" where
  "tcp_segment_length s = ri_ip_packet_length s - ucast (ri_ip_header_length s) * 4"

text \<open>The twelve bytes of the pseudo header, written over the first lanes of a word.\<close>

definition insert_pseudo_header :: "RxPseudo \<Rightarrow> NetAXISWord \<Rightarrow> NetAXISWord" where
  "insert_pseudo_header s send_word =
     send_word\<lparr>nw_data := put_range 80 (SwapByte (tcp_segment_length s)) (put_range 64 (0x0600 :: 16 word)
         (put_range 32 (ri_dest_ip_addr s) (put_range 0 (ri_src_ip_addr s) (nw_data send_word)))),
       nw_keep := put_range 0 (0xFFF :: 12 word) (nw_keep send_word)\<rparr>"

definition write_pseudo_packet :: "NetAXISWord \<Rightarrow> RxPseudo \<Rightarrow> RxPseudo" where
  "write_pseudo_packet send_word s =
     s\<lparr>ri_tcp_pseudo_packet_for_checksum := ri_tcp_pseudo_packet_for_checksum s @ [send_word],
       ri_tcp_pseudo_packet_for_rx_eng := ri_tcp_pseudo_packet_for_rx_eng s @ [send_word]\<rparr>"

definition read_ip_header :: "NetAXISWord \<Rightarrow> RxPseudo \<Rightarrow> RxPseudo" where
  "read_ip_header cur_word s =
     (let ihl = get_range 0 (nw_data cur_word) :: 4 word in
      s\<lparr>ri_ip_header_length := ihl,
        ri_ip_packet_length := SwapByte (get_range 16 (nw_data cur_word)),
        ri_src_ip_addr := get_range 96 (nw_data cur_word),
        ri_dest_ip_addr := get_range 128 (nw_data cur_word),
        ri_keep_extra := word_of_int (8 + (uint ihl - 5) * 4)\<rparr>)"

definition pseudo_first_word :: "NetAXISWord \<Rightarrow> RxPseudo \<Rightarrow> RxPseudo" where
  "pseudo_first_word cur_word s0 =
     (let s = read_ip_header cur_word s0 in
      (if nw_last cur_word then
         write_pseudo_packet
           ((insert_pseudo_header s (RemoveIpHeader NetAXISWord_default cur_word (ri_ip_header_length s)
               NetAXISWord_default))\<lparr>nw_last := True\<rparr>) s
       else s\<lparr>ri_pseudo_header_not_inserted := True, ri_fsm_state := TCP_PAYLOAD\<rparr>)
      \<lparr>ri_prev_word := cur_word\<rparr>)"

definition pseudo_next_word :: "NetAXISWord \<Rightarrow> RxPseudo \<Rightarrow> RxPseudo" where
  "pseudo_next_word cur_word s =
     (let removed = RemoveIpHeader cur_word (ri_prev_word s) (ri_ip_header_length s) NetAXISWord_default;
          send_word = (if ri_pseudo_header_not_inserted s then insert_pseudo_header s removed else removed);
          extra = nw_last cur_word \<and> bit (nw_keep cur_word) (unat (ri_keep_extra s)) in
      write_pseudo_packet (send_word\<lparr>nw_last := nw_last cur_word \<and> \<not> extra\<rparr>)
        (s\<lparr>ri_pseudo_header_not_inserted := False,
          ri_fsm_state := (if extra then PSEUDO_EXTRA_WORD else if nw_last cur_word then IP_HEADER else TCP_PAYLOAD),
          ri_prev_word := cur_word\<rparr>))"

definition pseudo_extra_word :: "RxPseudo \<Rightarrow> RxPseudo" where
  "pseudo_extra_word s =
     write_pseudo_packet
       ((RemoveIpHeader NetAXISWord_default (ri_prev_word s) (ri_ip_header_length s) NetAXISWord_default)
          \<lparr>nw_last := True\<rparr>)
       (s\<lparr>ri_fsm_state := IP_HEADER\<rparr>)"

definition RxEngTcpPseudoHeaderInsert :: "RxPseudo \<Rightarrow> RxPseudo" where
  "RxEngTcpPseudoHeaderInsert s =
     (case ri_fsm_state s of
        IP_HEADER \<Rightarrow>
          (case ri_rx_ip_pkt_in s of
             w # ws \<Rightarrow> pseudo_first_word w (s\<lparr>ri_rx_ip_pkt_in := ws\<rparr>) | [] \<Rightarrow> s)
      | TCP_PAYLOAD \<Rightarrow>
          (case ri_rx_ip_pkt_in s of
             w # ws \<Rightarrow> pseudo_next_word w (s\<lparr>ri_rx_ip_pkt_in := ws\<rparr>) | [] \<Rightarrow> s)
      | PSEUDO_EXTRA_WORD \<Rightarrow> pseudo_extra_word s)"

definition rx_pseudo_init :: RxPseudo where
  "rx_pseudo_init =
     \<lparr>ri_fsm_state = IP_HEADER, ri_prev_word = NetAXISWord_default, ri_ip_header_length = 0,
      ri_ip_packet_length = 0, ri_keep_extra = 0, ri_dest_ip_addr = 0, ri_src_ip_addr = 0,
      ri_pseudo_header_not_inserted = False, ri_rx_ip_pkt_in = [],
      ri_tcp_pseudo_packet_for_checksum = [], ri_tcp_pseudo_packet_for_rx_eng = []\<rparr>"

section \<open>\<open>RxEngParseTcpHeader\<close>\<close>

datatype ParseTcpHeaderState = FIRST_WORD | REMAINING_WORDS | PARSE_EXTRA_WORD

record RxParse =
  rp_parse_fsm_state :: ParseTcpHeaderState
  rp_prev_word :: NetAXISWord
  rp_tcp_payload_offset_bytes :: "6 word"
  rp_tcp_pseudo_packet :: "NetAXISWord stream"
  rp_tcp_meta_data :: "TcpPseudoHeaderMeta stream"
  rp_tcp_payload :: "NetAXISWord stream"

text \<open>The fields of pseudo header and TCP header, read from the first word.\<close>

definition parse_tcp_meta :: "NetAXISData \<Rightarrow> 16 word \<Rightarrow> TcpPseudoHeaderMeta" where
  "parse_tcp_meta data tcp_payload_length =
     \<lparr>tm_src_ip = get_range 0 data, tm_dest_ip = get_range 32 data,
      tm_header =
        \<lparr>th_src_port = get_range 96 data, th_dest_port = get_range 112 data,
         th_seq_number = SwapByte (get_range 128 data), th_ack_number = SwapByte (get_range 160 data),
         th_win_size = SwapByte (get_range 208 data), th_data_offset = get_range 196 data,
         th_cwr = bit data 207, th_ecn = bit data 206, th_urg = bit data 205, th_ack = bit data 204,
         th_psh = bit data 203, th_rst = bit data 202, th_syn = bit data 201, th_fin = bit data 200,
         th_win_scale = 0, th_payload_length = tcp_payload_length\<rparr>,
      tm_tcp_options = ucast (get_range 256 data :: 256 word)\<rparr>"

definition parse_payload_length :: "NetAXISData \<Rightarrow> 16 word" where
  "parse_payload_length data =
     SwapByte (get_range 80 data) - ucast (get_range 196 data :: 4 word) * 4"

text \<open>A segment that fits one word is sent at once; the header of a longer one is cut off later.  The
  offset has six bits: with 13 words of TCP header it is 0 and the ranges of the source are out of
  bounds, which the theorems exclude.\<close>

definition parse_first_word :: "NetAXISWord \<Rightarrow> RxParse \<Rightarrow> RxParse" where
  "parse_first_word cur_word s =
     (let data = nw_data cur_word;
          tcp_payload_length = parse_payload_length data;
          off = ucast (get_range 196 data :: 4 word) * 4 + 12 :: 6 word in
      s\<lparr>rp_tcp_payload_offset_bytes := off,
        rp_tcp_payload := rp_tcp_payload s @
          (if nw_last cur_word \<and> tcp_payload_length \<noteq> 0 then
             [\<lparr>nw_data = drop_bit (8 * unat off) data, nw_dest = 0,
               nw_keep = drop_bit (unat off) (nw_keep cur_word), nw_last = True\<rparr>]
           else []),
        rp_parse_fsm_state :=
          (if \<not> nw_last cur_word \<and> tcp_payload_length \<noteq> 0 then REMAINING_WORDS else FIRST_WORD),
        rp_prev_word := cur_word,
        rp_tcp_meta_data := rp_tcp_meta_data s @ [parse_tcp_meta data tcp_payload_length]\<rparr>)"

definition parse_next_word :: "NetAXISWord \<Rightarrow> RxParse \<Rightarrow> RxParse" where
  "parse_next_word cur_word s =
     (let k = unat (rp_tcp_payload_offset_bytes s);
          extra = nw_last cur_word \<and> bit (nw_keep cur_word) k in
      s\<lparr>rp_tcp_payload := rp_tcp_payload s @
          [\<lparr>nw_data = push_bit (512 - 8 * k) (nw_data cur_word) OR drop_bit (8 * k) (nw_data (rp_prev_word s)),
            nw_dest = 0,
            nw_keep = push_bit (64 - k) (nw_keep cur_word) OR drop_bit k (nw_keep (rp_prev_word s)),
            nw_last = (nw_last cur_word \<and> \<not> extra)\<rparr>],
        rp_parse_fsm_state :=
          (if extra then PARSE_EXTRA_WORD else if nw_last cur_word then FIRST_WORD else REMAINING_WORDS),
        rp_prev_word := cur_word\<rparr>)"

definition parse_extra_word :: "RxParse \<Rightarrow> RxParse" where
  "parse_extra_word s =
     (let k = unat (rp_tcp_payload_offset_bytes s) in
      s\<lparr>rp_tcp_payload := rp_tcp_payload s @
          [\<lparr>nw_data = drop_bit (8 * k) (nw_data (rp_prev_word s)), nw_dest = 0,
            nw_keep = drop_bit k (nw_keep (rp_prev_word s)), nw_last = True\<rparr>],
        rp_parse_fsm_state := FIRST_WORD\<rparr>)"

definition RxEngParseTcpHeader :: "RxParse \<Rightarrow> RxParse" where
  "RxEngParseTcpHeader s =
     (case rp_parse_fsm_state s of
        FIRST_WORD \<Rightarrow>
          (case rp_tcp_pseudo_packet s of
             w # ws \<Rightarrow> parse_first_word w (s\<lparr>rp_tcp_pseudo_packet := ws\<rparr>) | [] \<Rightarrow> s)
      | REMAINING_WORDS \<Rightarrow>
          (case rp_tcp_pseudo_packet s of
             w # ws \<Rightarrow> parse_next_word w (s\<lparr>rp_tcp_pseudo_packet := ws\<rparr>) | [] \<Rightarrow> s)
      | PARSE_EXTRA_WORD \<Rightarrow> parse_extra_word s)"

definition rx_parse_init :: RxParse where
  "rx_parse_init =
     \<lparr>rp_parse_fsm_state = FIRST_WORD, rp_prev_word = NetAXISWord_default, rp_tcp_payload_offset_bytes = 0,
      rp_tcp_pseudo_packet = [], rp_tcp_meta_data = [], rp_tcp_payload = []\<rparr>"


section \<open>The header is replaced by the pseudo header\<close>

text \<open>The bytes that the process writes in front, in terms of its registers, and what the segment of
  an IP packet is in terms of the bytes of the packet: source and destination address, protocol,
  length, then everything behind the IP header.\<close>

definition pseudo_header_bytes :: "RxPseudo \<Rightarrow> 8 word list" where
  "pseudo_header_bytes s =
     map (\<lambda>i. get_range (8 * i) (ri_src_ip_addr s)) [0..<4] @ map (\<lambda>i. get_range (8 * i) (ri_dest_ip_addr s)) [0..<4] @
     [0, 6, get_range 8 (tcp_segment_length s), get_range 0 (tcp_segment_length s)]"

definition tcp_segment_of :: "8 word list \<Rightarrow> 8 word list" where
  "tcp_segment_of bs =
     (let header = 4 * unat (bs ! 0 AND 0xF); total = 256 * unat (bs ! 2) + unat (bs ! 3) in
      take 8 (drop 12 bs) @ [0, 6, word_of_nat ((total - header) div 256), word_of_nat ((total - header) mod 256)] @
      drop header bs)"

lemma byte_SwapByte_16: "(get_range 8 (SwapByte (w :: 16 word)) :: 8 word) = get_range 0 w"
    "(get_range 0 (SwapByte (w :: 16 word)) :: 8 word) = get_range 8 w"
  by (auto intro!: bit_word_eqI simp: bit_field bit_SwapByte)

lemma byte_insert_pseudo_header:
  assumes "i < 12"
  shows "word_byte (insert_pseudo_header s w) i = pseudo_header_bytes s ! i"
proof -
  have six: "(get_range 0 (0x0600 :: 16 word) :: 8 word) = 0" "(get_range 8 (0x0600 :: 16 word) :: 8 word) = 6"
    by (simp_all add: get_range_def drop_bit_word_numeral)
  consider "i < 4" | j where "i = 4 + j" "j < 4" | "i = 8" | "i = 9" | "i = 10" | "i = 11"
  proof -
    have "i < 4 \<or> i = 4 + (i - 4) \<and> i - 4 < 4 \<or> i = 8 \<or> i = 9 \<or> i = 10 \<or> i = 11" using assms by linarith
    then show thesis using that by blast
  qed
  then show ?thesis
    by cases (simp_all add: word_byte_def insert_pseudo_header_def pseudo_header_bytes_def nth_append
        get_put_range_disjoint get_put_range_inside byte_SwapByte_16 six)
qed

lemma keep_insert_pseudo_header:
  "bit (nw_keep (insert_pseudo_header s w)) i \<longleftrightarrow> i < 12 \<or> bit (nw_keep w) i"
proof -
  have "(0xFFF :: 12 word) = mask 12" by (simp add: mask_eq_decr_exp)
  then have "bit (0xFFF :: 12 word) i \<longleftrightarrow> i < 12" by (simp only: bit_mask_iff) simp
  then show ?thesis by (auto simp: insert_pseudo_header_def bit_field)
qed

lemma lanes_insert_pseudo_header:
  "lanes (insert_pseudo_header s w) = map Some (pseudo_header_bytes s) @ drop 12 (lanes w)"
proof (rule nth_equalityI)
  have l: "length (pseudo_header_bytes s) = 12" by (simp add: pseudo_header_bytes_def)
  then show "length (lanes (insert_pseudo_header s w)) = length (map Some (pseudo_header_bytes s) @ drop 12 (lanes w))"
    by simp
  fix i
  assume "i < length (lanes (insert_pseudo_header s w))"
  moreover have "12 \<le> i \<Longrightarrow> word_byte (insert_pseudo_header s w) i = word_byte w i"
    by (rule bit_word_eqI) (simp add: word_byte_def insert_pseudo_header_def bit_field)
  ultimately show "lanes (insert_pseudo_header s w) ! i = (map Some (pseudo_header_bytes s) @ drop 12 (lanes w)) ! i"
    by (simp add: nth_lanes nth_append l keep_insert_pseudo_header byte_insert_pseudo_header)
qed


lemma pseudo_offset:
  assumes "5 \<le> unat ihl"
  shows "unat (word_of_int (8 + (uint ihl - 5) * 4) :: 6 word) = 4 * unat (ihl :: 4 word) - 12"
proof -
  have "unat ihl < 2 ^ LENGTH(4)" by (rule unsigned_less)
  then have "4 * unat ihl - 12 < 2 ^ LENGTH(6)" by simp
  then have "unat (word_of_nat (4 * unat ihl - 12) :: 6 word) = 4 * unat ihl - 12" by (simp only: unat_of_nat mod_less)
  moreover have "8 + (int u - 5) * 4 = int (4 * u - 12)" if "5 \<le> u" for u
    using that by (simp add: of_nat_diff)
  from this [OF assms] have "8 + (uint ihl - 5) * 4 = int (4 * unat ihl - 12)" by (simp only: uint_nat)
  then have "(word_of_int (8 + (uint ihl - 5) * 4) :: 6 word) = word_of_nat (4 * unat ihl - 12)"
    by (simp only: of_int_of_nat_eq)
  ultimately show ?thesis by (simp only:)
qed

definition pseudo_phase :: "RxPseudo \<Rightarrow> shift_phase" where
  "pseudo_phase s = (case ri_fsm_state s of IP_HEADER \<Rightarrow> Shift_Idle | TCP_PAYLOAD \<Rightarrow> Shift_Rest
     | PSEUDO_EXTRA_WORD \<Rightarrow> Shift_Extra)"

definition pseudo_ok :: "RxPseudo \<Rightarrow> bool" where
  "pseudo_ok s \<longleftrightarrow> 5 \<le> unat (ri_ip_header_length s) \<and> ri_ip_header_length s \<noteq> 9 \<and>
     unat (ri_keep_extra s) = 4 * unat (ri_ip_header_length s) - 12"

definition pseudo_edit :: "RxPseudo \<Rightarrow> 8 word option list \<Rightarrow> 8 word option list" where
  "pseudo_edit s ls = (if ri_pseudo_header_not_inserted s
     then map Some (pseudo_header_bytes s) @ drop 12 ls else ls)"

lemma lanes_with_last [simp]: "lanes (w\<lparr>nw_last := b\<rparr>) = lanes w"
  by (simp add: lanes_def word_byte_def)

lemma pseudo_header_bytes_last [simp]:
  "pseudo_header_bytes (s\<lparr>ri_rx_ip_pkt_in := ws\<rparr>) = pseudo_header_bytes s"
  "insert_pseudo_header (s\<lparr>ri_rx_ip_pkt_in := ws\<rparr>) w = insert_pseudo_header s w"
  by (simp_all add: pseudo_header_bytes_def insert_pseudo_header_def tcp_segment_length_def)

interpretation ins: realigner RxEngTcpPseudoHeaderInsert pseudo_phase ri_prev_word
    "\<lambda>s. unat (ri_keep_extra s)" ri_rx_ip_pkt_in ri_tcp_pseudo_packet_for_rx_eng pseudo_ok pseudo_edit
    "\<lambda>_. ()"
proof unfold_locales
  fix s w xs
  assume "pseudo_phase s = Shift_Rest" and ok: "pseudo_ok s" and i: "ri_rx_ip_pkt_in s = w # xs"
  then have st: "ri_fsm_state s = TCP_PAYLOAD"
    by (simp add: pseudo_phase_def split: PseudoHeaderFsmState.splits)
  have "lanes (RemoveIpHeader w (ri_prev_word s) (ri_ip_header_length s) NetAXISWord_default)
      = drop (unat (ri_keep_extra s)) (lanes (ri_prev_word s)) @ take (unat (ri_keep_extra s)) (lanes w)"
    using ok RemoveIpHeader_cut by (simp add: pseudo_ok_def)
  then show "\<exists>o1. ri_rx_ip_pkt_in (RxEngTcpPseudoHeaderInsert s) = xs \<and>
        ri_tcp_pseudo_packet_for_rx_eng (RxEngTcpPseudoHeaderInsert s) = ri_tcp_pseudo_packet_for_rx_eng s @ [o1] \<and>
        ri_prev_word (RxEngTcpPseudoHeaderInsert s) = w \<and>
        unat (ri_keep_extra (RxEngTcpPseudoHeaderInsert s)) = unat (ri_keep_extra s) \<and>
        pseudo_ok (RxEngTcpPseudoHeaderInsert s) \<and> pseudo_edit (RxEngTcpPseudoHeaderInsert s) = (\<lambda>ls. ls) \<and> () = () \<and>
        lanes o1 = pseudo_edit s (drop (unat (ri_keep_extra s)) (lanes (ri_prev_word s)) @
          take (unat (ri_keep_extra s)) (lanes w)) \<and>
        nw_last o1 = (nw_last w \<and> \<not> bit (nw_keep w) (unat (ri_keep_extra s))) \<and>
        pseudo_phase (RxEngTcpPseudoHeaderInsert s) =
          (if nw_last w then if bit (nw_keep w) (unat (ri_keep_extra s)) then Shift_Extra else Shift_Idle
           else Shift_Rest)"
    using ok i
    by (auto simp: RxEngTcpPseudoHeaderInsert_def st pseudo_next_word_def write_pseudo_packet_def Let_def
        pseudo_ok_def pseudo_edit_def pseudo_phase_def lanes_insert_pseudo_header)
next
  fix s
  assume "pseudo_phase s = Shift_Extra" and ok: "pseudo_ok s"
  then have st: "ri_fsm_state s = PSEUDO_EXTRA_WORD"
    by (simp add: pseudo_phase_def split: PseudoHeaderFsmState.splits)
  have "lanes (RemoveIpHeader NetAXISWord_default (ri_prev_word s) (ri_ip_header_length s) NetAXISWord_default)
      = drop (unat (ri_keep_extra s)) (lanes (ri_prev_word s)) @ take (unat (ri_keep_extra s)) (replicate 64 None)"
    using ok RemoveIpHeader_cut by (simp add: pseudo_ok_def)
  then show "\<exists>o1. ri_rx_ip_pkt_in (RxEngTcpPseudoHeaderInsert s) = ri_rx_ip_pkt_in s \<and>
        ri_tcp_pseudo_packet_for_rx_eng (RxEngTcpPseudoHeaderInsert s) = ri_tcp_pseudo_packet_for_rx_eng s @ [o1] \<and>
        () = () \<and> lanes o1 = drop (unat (ri_keep_extra s)) (lanes (ri_prev_word s)) @
          replicate (unat (ri_keep_extra s)) None \<and> nw_last o1 \<and>
        pseudo_phase (RxEngTcpPseudoHeaderInsert s) = Shift_Idle"
    by (simp add: RxEngTcpPseudoHeaderInsert_def st pseudo_extra_word_def write_pseudo_packet_def pseudo_phase_def
        unat_6 less_imp_le min_def)
next
  fix s show "pseudo_ok s \<Longrightarrow> unat (ri_keep_extra s) < 64" by (rule unat_6)
next
  fix s and bs :: "8 word list" and j
  assume "pseudo_ok s" "length bs + j = 64" "64 - unat (ri_keep_extra s) \<le> length bs"
  moreover have "unat (ri_ip_header_length s) < 2 ^ LENGTH(4)" by (rule unsigned_less)
  ultimately have "12 \<le> length bs" by (simp add: pseudo_ok_def)
  then show "\<exists>cs. length cs = length bs \<and> pseudo_edit s (map Some bs @ replicate j None) = map Some cs @ replicate j None"
    by (intro exI [of _ "if ri_pseudo_header_not_inserted s then pseudo_header_bytes s @ drop 12 bs else bs"])
      (auto simp: pseudo_edit_def pseudo_header_bytes_def drop_map)
next
  fix s and ls ms :: "8 word option list"
  show "length ls = 64 \<Longrightarrow> pseudo_edit s (ls @ ms) = pseudo_edit s ls @ ms" by (simp add: pseudo_edit_def)
qed

section \<open>The bytes of a word\<close>

lemma word_bytes_nth:
  assumes "is_packet (w # ws)" and "i < 64" and "i < length (packet_bytes (w # ws))"
  shows "packet_bytes (w # ws) ! i = word_byte w i"
proof -
  have "nw_keep w = mask 64 \<or> (ws = [] \<and> (\<exists>j \<le> 64. nw_keep w = mask j))"
    using assms(1) by (auto simp: is_packet_Cons mask_eq_exp_minus_1 split: if_splits)
  then obtain j where j: "nw_keep w = mask j" "j \<le> 64" "i < j"
    using assms(2,3) mask_lanes(2) [of w] by fastforce
  have "word_bytes w = map (word_byte w) [0..<j]"
    using lanes_mask [OF j(1)] j(2) by (simp add: word_bytes_lanes min_def)
  then show ?thesis using j(3) by (simp add: nth_append)
qed

lemma unat_of_bytes_16: "unat (w :: 16 word) = 256 * unat (get_range 8 w :: 8 word) + unat (get_range 0 w :: 8 word)"
proof -
  have "unat w < 2 ^ LENGTH(16)" by (rule unsigned_less)
  then have "unat w div 256 mod 256 = unat w div 256" by simp
  then show ?thesis by (simp add: unat_get_range)
qed

lemma bytes_of_16:
  assumes "n < 65536"
  shows "(get_range 8 (word_of_nat n :: 16 word) :: 8 word) = word_of_nat (n div 256)"
    "(get_range 0 (word_of_nat n :: 16 word) :: 8 word) = word_of_nat (n mod 256)"
proof -
  have "unat (word_of_nat n :: 16 word) = n" using assms by (simp add: unat_of_nat)
  then show "(get_range 8 (word_of_nat n :: 16 word) :: 8 word) = word_of_nat (n div 256)"
    "(get_range 0 (word_of_nat n :: 16 word) :: 8 word) = word_of_nat (n mod 256)"
    using assms by (simp_all add: word_unat_eq_iff unat_get_range unat_of_nat)
qed


lemma get_range_get_range:
  assumes "a + LENGTH('c) \<le> LENGTH('b)"
  shows "(get_range a (get_range b w :: 'b::len word) :: 'c::len word) = get_range (a + b) w"
  by (rule bit_word_eqI) (use assms in \<open>auto simp: bit_field algebra_simps\<close>)

lemma take_drop_nth: "m + n \<le> length xs \<Longrightarrow> take n (drop m xs) = map (\<lambda>i. xs ! (m + i)) [0..<n]"
  by (rule nth_equalityI) simp_all

lemma ihl_nibble: "unat (get_range 0 (nw_data w) :: 4 word) = unat (word_byte w 0 AND 0xF)"
proof -
  have "ucast (get_range 0 (nw_data w) :: 4 word) = (word_byte w 0 AND mask 4)"
    by (rule bit_word_eqI) (auto simp: word_byte_def bit_simps bit_field)
  then have "unat (ucast (get_range 0 (nw_data w) :: 4 word) :: 8 word) = unat (word_byte w 0 AND mask 4)" by simp
  moreover have "unat (get_range 0 (nw_data w) :: 4 word) < 2 ^ LENGTH(4)" by (rule unsigned_less)
  ultimately show ?thesis by (simp add: unsigned_ucast_eq mask_eq_decr_exp take_bit_nat_eq_self)
qed

lemma read_ip_header_simps [simp]:
  "ri_ip_header_length (read_ip_header w s) = get_range 0 (nw_data w)"
  "ri_ip_packet_length (read_ip_header w s) = SwapByte (get_range 16 (nw_data w))"
  "ri_src_ip_addr (read_ip_header w s) = get_range 96 (nw_data w)"
  "ri_dest_ip_addr (read_ip_header w s) = get_range 128 (nw_data w)"
  "ri_rx_ip_pkt_in (read_ip_header w s) = ri_rx_ip_pkt_in s"
  "ri_fsm_state (read_ip_header w s) = ri_fsm_state s"
  "ri_tcp_pseudo_packet_for_checksum (read_ip_header w s) = ri_tcp_pseudo_packet_for_checksum s"
  "ri_tcp_pseudo_packet_for_rx_eng (read_ip_header w s) = ri_tcp_pseudo_packet_for_rx_eng s"
  "ri_keep_extra (read_ip_header w s) = word_of_int (8 + (uint (get_range 0 (nw_data w) :: 4 word) - 5) * 4)"
  by (simp_all add: read_ip_header_def Let_def)

lemma header_bytes_of_packet:
  assumes "is_packet (w # ws)" and bs: "bs = packet_bytes (w # ws)" and "20 \<le> length bs"
    and "4 * unat (bs ! 0 AND 0xF) \<le> 256 * unat (bs ! 2) + unat (bs ! 3)"
  shows "pseudo_header_bytes (read_ip_header w s) @ drop (4 * unat (bs ! 0 AND 0xF)) bs = tcp_segment_of bs"
proof -
  have b: "bs ! i = word_byte w i" if "i < 20" for i
    using word_bytes_nth [OF assms(1), of i] that assms(3) bs by simp
  let ?ihl = "get_range 0 (nw_data w) :: 4 word"
  have ihl: "unat ?ihl = unat (bs ! 0 AND 0xF)" using ihl_nibble [of w] b [of 0] by simp
  let ?total = "SwapByte (get_range 16 (nw_data w)) :: 16 word"
  have total: "unat ?total = 256 * unat (bs ! 2) + unat (bs ! 3)"
    by (simp add: unat_of_bytes_16 [of ?total] byte_SwapByte_16 get_range_get_range b word_byte_def)
  have h: "unat (ucast ?ihl * 4 :: 16 word) = 4 * unat ?ihl"
  proof -
    have "unat ?ihl < 2 ^ LENGTH(4)" by (rule unsigned_less)
    then show ?thesis by (simp add: unat_word_ariths unsigned_ucast_eq take_bit_nat_eq_self)
  qed
  have t: "unat ?total < 65536" using unsigned_less [where 'a = nat, of ?total] by simp
  have "unat (?total - ucast ?ihl * 4) = unat ?total - 4 * unat ?ihl"
    using assms(4) total ihl h by (simp add: unat_sub word_le_nat_alt)
  then have len: "?total - ucast ?ihl * 4 = word_of_nat (unat ?total - 4 * unat ?ihl)"
    using t by (simp only: word_unat_eq_iff unat_of_nat) simp
  have small: "unat ?total - 4 * unat ?ihl < 65536" using t by simp
  have "take 8 (drop 12 bs) = map (\<lambda>i. word_byte w (12 + i)) [0..<8]"
    using assms(3) b by (simp add: take_drop_nth)
  then show ?thesis
    unfolding tcp_segment_of_def Let_def pseudo_header_bytes_def tcp_segment_length_def
    using len bytes_of_16 [OF small] total ihl
    by (simp add: word_byte_def get_range_get_range upt_rec)
qed

text \<open>Both outputs receive the same words.\<close>

definition same_output :: "RxPseudo \<Rightarrow> RxPseudo \<Rightarrow> bool" where
  "same_output s t \<longleftrightarrow> (\<exists>os. ri_tcp_pseudo_packet_for_checksum t = ri_tcp_pseudo_packet_for_checksum s @ os \<and>
     ri_tcp_pseudo_packet_for_rx_eng t = ri_tcp_pseudo_packet_for_rx_eng s @ os)"

lemma same_output_step: "same_output s (RxEngTcpPseudoHeaderInsert s)"
  by (auto simp: same_output_def RxEngTcpPseudoHeaderInsert_def pseudo_first_word_def pseudo_next_word_def
      pseudo_extra_word_def write_pseudo_packet_def read_ip_header_def Let_def
      split: PseudoHeaderFsmState.split list.split)

lemma same_output_trans: "same_output s t \<Longrightarrow> same_output t u \<Longrightarrow> same_output s u"
  by (auto simp: same_output_def)

lemma same_output_funpow: "same_output s ((RxEngTcpPseudoHeaderInsert ^^ n) s)"
proof (induction n)
  case 0 show ?case by (simp add: same_output_def)
next
  case (Suc n)
  then show ?case using same_output_step same_output_trans by (metis funpow.simps(2) o_apply)
qed

definition segment_done :: "RxPseudo \<Rightarrow> NetAXISWord list \<Rightarrow> 8 word list \<Rightarrow> RxPseudo \<Rightarrow> bool" where
  "segment_done s rest bs t \<longleftrightarrow> (\<exists>os. ri_fsm_state t = IP_HEADER \<and> ri_rx_ip_pkt_in t = rest \<and>
     ri_tcp_pseudo_packet_for_checksum t = ri_tcp_pseudo_packet_for_checksum s @ os \<and>
     ri_tcp_pseudo_packet_for_rx_eng t = ri_tcp_pseudo_packet_for_rx_eng s @ os \<and>
     is_packet os \<and> packet_bytes os = bs)"

lemma segment_doneI:
  assumes "pseudo_phase ((RxEngTcpPseudoHeaderInsert ^^ n) s) = Shift_Idle"
    and "ri_rx_ip_pkt_in ((RxEngTcpPseudoHeaderInsert ^^ n) s) = rest"
    and "ri_tcp_pseudo_packet_for_rx_eng ((RxEngTcpPseudoHeaderInsert ^^ n) s) = ri_tcp_pseudo_packet_for_rx_eng s @ os"
    and "is_packet os" and "packet_bytes os = bs"
  shows "segment_done s rest bs ((RxEngTcpPseudoHeaderInsert ^^ n) s)"
  using assms same_output_funpow [of s n]
  by (auto simp: segment_done_def same_output_def pseudo_phase_def split: PseudoHeaderFsmState.splits)

lemma single_word_segment:
  assumes "ri_fsm_state s = IP_HEADER" and "ri_rx_ip_pkt_in s = w # rest" and "is_packet [w]"
    and bs: "bs = packet_bytes [w]" and "5 \<le> unat (bs ! 0 AND 0xF)" and "unat (bs ! 0 AND 0xF) \<noteq> 9"
    and "4 * unat (bs ! 0 AND 0xF) \<le> length bs"
    and "4 * unat (bs ! 0 AND 0xF) \<le> 256 * unat (bs ! 2) + unat (bs ! 3)"
  shows "segment_done s rest (tcp_segment_of bs) (RxEngTcpPseudoHeaderInsert s)"
proof -
  let ?r = "read_ip_header w (s\<lparr>ri_rx_ip_pkt_in := rest\<rparr>)"
  let ?o = "(insert_pseudo_header ?r (RemoveIpHeader NetAXISWord_default w (ri_ip_header_length ?r)
      NetAXISWord_default))\<lparr>nw_last := True\<rparr>"
  obtain j where j: "nw_keep w = mask j" "j \<le> 64" using assms(3) by (auto simp: is_packet_def)
  note l = mask_lanes [OF j]
  have last: "nw_last w" using assms(3) by (simp add: is_packet_def)
  have ne: "0 < length bs" using assms(5,7) by linarith
  have ihl: "unat (ri_ip_header_length ?r) = unat (bs ! 0 AND 0xF)"
    using word_bytes_nth [OF assms(3), of 0] ne bs by (simp add: ihl_nibble)
  let ?h = "4 * unat (bs ! 0 AND 0xF)"
  have "ri_ip_header_length ?r \<noteq> 9"
  proof
    assume "ri_ip_header_length ?r = 9"
    then have "unat (ri_ip_header_length ?r) = 9" by simp
    then show False using ihl assms(6) by simp
  qed
  then have "lanes ?o = map Some (pseudo_header_bytes ?r) @
      drop 12 (drop (?h - 12) (lanes w) @ take (?h - 12) (replicate 64 None))"
    using assms(5) ihl by (simp add: lanes_insert_pseudo_header RemoveIpHeader_cut)
  moreover have h: "12 \<le> ?h" "?h \<le> j" "length (word_bytes w) = j" using assms(5,7) l(2) bs by simp_all
  moreover define m where "m = 64 - j + (?h - 12)"
  then have "replicate (64 - j) (None :: 8 word option) @ replicate (?h - 12) None = replicate m None"
    by (simp only: replicate_add)
  moreover have "?h - 12 \<le> 64" using h j(2) by linarith
  ultimately have lo: "lanes ?o = map Some (pseudo_header_bytes ?r @ drop ?h bs) @ replicate m None"
    using l(1) bs j(2) by (simp add: drop_map)
  have len: "length (pseudo_header_bytes ?r) = 12" by (simp add: pseudo_header_bytes_def)
  have "nw_keep ?o = mask (12 + (j - ?h))"
    using keep_of_lanes [OF lo] len h j(2) bs m_def by simp
  moreover have "12 + (j - ?h) \<in> {1..64}" using h j(2) assms(5) by auto
  ultimately have "nw_keep ?o \<in> mask ` {1..64}" by (metis imageI)
  then have "is_packet [?o]" by (simp add: is_packet_def)
  moreover have "packet_bytes [?o] = tcp_segment_of bs"
    using header_bytes_of_packet [OF assms(3) bs _ assms(8)] lo assms(5,7) by (simp add: word_bytes_lanes)
  moreover have "RxEngTcpPseudoHeaderInsert s = (write_pseudo_packet ?o ?r)\<lparr>ri_prev_word := w\<rparr>"
    using assms(1,2) last by (simp add: RxEngTcpPseudoHeaderInsert_def pseudo_first_word_def Let_def)
  ultimately show ?thesis
    using assms(1) by (auto simp: segment_done_def write_pseudo_packet_def)
qed

lemma pseudo_header_inserted_packet:
  assumes "ri_fsm_state s = IP_HEADER" and "ri_rx_ip_pkt_in s = ws @ rest" and "is_packet ws"
    and bs: "bs = packet_bytes ws" and "5 \<le> unat (bs ! 0 AND 0xF)" and "unat (bs ! 0 AND 0xF) \<noteq> 9"
    and "4 * unat (bs ! 0 AND 0xF) \<le> length bs"
    and "4 * unat (bs ! 0 AND 0xF) \<le> 256 * unat (bs ! 2) + unat (bs ! 3)"
  shows "\<exists>n \<le> Suc (length ws). segment_done s rest (tcp_segment_of bs) ((RxEngTcpPseudoHeaderInsert ^^ n) s)"
proof -
  obtain w vs where ws: "ws = w # vs" using assms(3) by (cases ws) (auto simp: is_packet_def)
  show ?thesis
  proof (cases "vs = []")
    case True
    then show ?thesis
      using single_word_segment [of s w rest bs] assms ws by (intro exI [of _ 1]) simp
  next
    case False
    then have w: "nw_keep w = - 1" "\<not> nw_last w" "is_packet vs"
      using assms(3) ws by (simp_all add: is_packet_Cons)
    let ?r = "(read_ip_header w (s\<lparr>ri_rx_ip_pkt_in := vs @ rest\<rparr>))\<lparr>ri_pseudo_header_not_inserted := True,
        ri_fsm_state := TCP_PAYLOAD, ri_prev_word := w\<rparr>"
    have step: "RxEngTcpPseudoHeaderInsert s = ?r"
      using assms(1,2) ws w(2) by (simp add: RxEngTcpPseudoHeaderInsert_def pseudo_first_word_def Let_def)
    let ?h = "4 * unat (bs ! 0 AND 0xF)"
    have "0 < length bs" using assms(5,7) by linarith
    then have ihl: "unat (get_range 0 (nw_data w) :: 4 word) = unat (bs ! 0 AND 0xF)"
      using word_bytes_nth [of w vs 0] assms(3) ws bs by (simp add: ihl_nibble)
    have off: "unat (ri_keep_extra ?r) = ?h - 12"
      using pseudo_offset [of "get_range 0 (nw_data w)"] ihl assms(5) by simp
    have "ri_ip_header_length ?r \<noteq> 9"
    proof
      assume "ri_ip_header_length ?r = 9"
      then have "unat (ri_ip_header_length ?r) = 9" by simp
      then show False using ihl assms(6) by simp
    qed
    then have ok: "pseudo_ok ?r" using ihl assms(5) off by (simp add: pseudo_ok_def)
    obtain n where n: "n \<le> Suc (length vs)" and c: "ins.cut ?r vs rest ((RxEngTcpPseudoHeaderInsert ^^ n) ?r)"
      using ins.cut_packet [of ?r vs rest] ok w by (auto simp: pseudo_phase_def)
    have same: "(RxEngTcpPseudoHeaderInsert ^^ n) ?r = (RxEngTcpPseudoHeaderInsert ^^ Suc n) s"
      by (simp only: funpow_Suc_apply step)
    obtain os where os: "pseudo_phase ((RxEngTcpPseudoHeaderInsert ^^ Suc n) s) = Shift_Idle"
        "ri_rx_ip_pkt_in ((RxEngTcpPseudoHeaderInsert ^^ Suc n) s) = rest"
        "ri_tcp_pseudo_packet_for_rx_eng ((RxEngTcpPseudoHeaderInsert ^^ Suc n) s)
          = ri_tcp_pseudo_packet_for_rx_eng s @ os" "is_packet os"
        "packet_bytes os = somes (pseudo_edit ?r (drop (?h - 12) (lanes w @ concat (map lanes vs))))"
      using c unfolding ins.cut_def same off by auto
    have hb: "pseudo_header_bytes ?r = pseudo_header_bytes (read_ip_header w (s\<lparr>ri_rx_ip_pkt_in := vs @ rest\<rparr>))"
      by (simp add: pseudo_header_bytes_def tcp_segment_length_def)
    have e: "?h - 12 + 12 = ?h" using assms(5) by simp
    have d: "drop 12 (drop (?h - 12) L) = drop ?h L" for L :: "8 word option list"
      by (simp only: drop_drop add.commute [of 12] e)
    have "packet_bytes os = pseudo_header_bytes ?r @ somes (drop ?h (lanes w @ concat (map lanes vs)))"
      unfolding os(5) pseudo_edit_def d by simp
    also have "somes (drop ?h (lanes w @ concat (map lanes vs))) = drop ?h bs"
      using packet_drop [OF assms(3), of ?h] unfolding ws bs by simp
    finally have "packet_bytes os = pseudo_header_bytes ?r @ drop ?h bs" .
    also have "\<dots> = tcp_segment_of bs"
      unfolding hb using header_bytes_of_packet [of w vs bs] assms ws by simp
    finally have "packet_bytes os = tcp_segment_of bs" .
    then have "segment_done s rest (tcp_segment_of bs) ((RxEngTcpPseudoHeaderInsert ^^ Suc n) s)"
      by (rule segment_doneI [OF os(1-4)])
    then show ?thesis using n ws by (intro exI [of _ "Suc n"]) simp
  qed
qed

section \<open>The headers are cut off the payload\<close>

definition parse_phase :: "RxParse \<Rightarrow> shift_phase" where
  "parse_phase s = (case rp_parse_fsm_state s of FIRST_WORD \<Rightarrow> Shift_Idle | REMAINING_WORDS \<Rightarrow> Shift_Rest
     | PARSE_EXTRA_WORD \<Rightarrow> Shift_Extra)"

lemma parse_next_word_concat:
  assumes "rp_tcp_payload_offset_bytes s \<noteq> 0"
  shows "parse_next_word w s =
    (let k = unat (rp_tcp_payload_offset_bytes s); extra = nw_last w \<and> bit (nw_keep w) k in
     s\<lparr>rp_tcp_payload := rp_tcp_payload s @
         [(ConcatTwoWords w (rp_prev_word s) (rp_tcp_payload_offset_bytes s) NetAXISWord_default)
            \<lparr>nw_last := nw_last w \<and> \<not> extra\<rparr>],
       rp_parse_fsm_state := (if extra then PARSE_EXTRA_WORD else if nw_last w then FIRST_WORD else REMAINING_WORDS),
       rp_prev_word := w\<rparr>)"
  using assms by (simp add: parse_next_word_def ConcatTwoWords_def NetAXISWord_default_def Let_def unat_eq_0)

lemma lanes_drop:
  assumes "k < 64"
  shows "lanes \<lparr>nw_data = drop_bit (8 * k) d, nw_dest = e, nw_keep = drop_bit k (nw_keep w), nw_last = b\<rparr>
     = drop k (lanes (w\<lparr>nw_data := d\<rparr>)) @ replicate k None"
proof (rule nth_equalityI)
  show "length (lanes \<lparr>nw_data = drop_bit (8 * k) d, nw_dest = e, nw_keep = drop_bit k (nw_keep w), nw_last = b\<rparr>)
      = length (drop k (lanes (w\<lparr>nw_data := d\<rparr>)) @ replicate k None)"
    using assms by simp
  fix i
  assume i: "i < length (lanes \<lparr>nw_data = drop_bit (8 * k) d, nw_dest = e, nw_keep = drop_bit k (nw_keep w), nw_last = b\<rparr>)"
  have "word_byte \<lparr>nw_data = drop_bit (8 * k) d, nw_dest = e, nw_keep = drop_bit k (nw_keep w), nw_last = b\<rparr> i
      = word_byte (w\<lparr>nw_data := d\<rparr>) (k + i)"
    by (rule bit_word_eqI) (simp add: word_byte_def bit_field bit_simps algebra_simps)
  then show "lanes \<lparr>nw_data = drop_bit (8 * k) d, nw_dest = e, nw_keep = drop_bit k (nw_keep w), nw_last = b\<rparr> ! i
      = (drop k (lanes (w\<lparr>nw_data := d\<rparr>)) @ replicate k None) ! i"
    using i assms by (auto simp: nth_lanes nth_append bit_simps dest: bit_imp_le_length)
qed

interpretation par: realigner RxEngParseTcpHeader parse_phase rp_prev_word
    "\<lambda>s. unat (rp_tcp_payload_offset_bytes s)" rp_tcp_pseudo_packet rp_tcp_payload
    "\<lambda>s. rp_tcp_payload_offset_bytes s \<noteq> 0" "\<lambda>_ ls. ls" rp_tcp_meta_data
proof unfold_locales
  fix s w xs
  assume "parse_phase s = Shift_Rest" and ok: "rp_tcp_payload_offset_bytes s \<noteq> 0"
    and i: "rp_tcp_pseudo_packet s = w # xs"
  then have st: "rp_parse_fsm_state s = REMAINING_WORDS"
    by (simp add: parse_phase_def split: ParseTcpHeaderState.splits)
  have "0 < unat (rp_tcp_payload_offset_bytes s)" using ok by (simp add: unat_eq_0 neq0_conv [symmetric] del: neq0_conv)
  then show "\<exists>o1. rp_tcp_pseudo_packet (RxEngParseTcpHeader s) = xs \<and>
        rp_tcp_payload (RxEngParseTcpHeader s) = rp_tcp_payload s @ [o1] \<and>
        rp_prev_word (RxEngParseTcpHeader s) = w \<and>
        unat (rp_tcp_payload_offset_bytes (RxEngParseTcpHeader s)) = unat (rp_tcp_payload_offset_bytes s) \<and>
        rp_tcp_payload_offset_bytes (RxEngParseTcpHeader s) \<noteq> 0 \<and> (\<lambda>ls. ls) = (\<lambda>ls. ls) \<and>
        rp_tcp_meta_data (RxEngParseTcpHeader s) = rp_tcp_meta_data s \<and>
        lanes o1 = drop (unat (rp_tcp_payload_offset_bytes s)) (lanes (rp_prev_word s)) @
          take (unat (rp_tcp_payload_offset_bytes s)) (lanes w) \<and>
        nw_last o1 = (nw_last w \<and> \<not> bit (nw_keep w) (unat (rp_tcp_payload_offset_bytes s))) \<and>
        parse_phase (RxEngParseTcpHeader s) =
          (if nw_last w then if bit (nw_keep w) (unat (rp_tcp_payload_offset_bytes s)) then Shift_Extra else Shift_Idle
           else Shift_Rest)"
    using ok i
    by (auto simp: RxEngParseTcpHeader_def st parse_next_word_concat lanes_ConcatTwoWords parse_phase_def Let_def)
next
  fix s
  assume "parse_phase s = Shift_Extra" and ok: "rp_tcp_payload_offset_bytes s \<noteq> 0"
  then have st: "rp_parse_fsm_state s = PARSE_EXTRA_WORD"
    by (simp add: parse_phase_def split: ParseTcpHeaderState.splits)
  show "\<exists>o1. rp_tcp_pseudo_packet (RxEngParseTcpHeader s) = rp_tcp_pseudo_packet s \<and>
        rp_tcp_payload (RxEngParseTcpHeader s) = rp_tcp_payload s @ [o1] \<and>
        rp_tcp_meta_data (RxEngParseTcpHeader s) = rp_tcp_meta_data s \<and>
        lanes o1 = drop (unat (rp_tcp_payload_offset_bytes s)) (lanes (rp_prev_word s)) @
          replicate (unat (rp_tcp_payload_offset_bytes s)) None \<and> nw_last o1 \<and>
        parse_phase (RxEngParseTcpHeader s) = Shift_Idle"
    using unat_6 [of "rp_tcp_payload_offset_bytes s"]
    by (simp add: RxEngParseTcpHeader_def st parse_extra_word_def parse_phase_def lanes_drop Let_def)
qed (auto simp: unat_6)

text \<open>The header of a segment, at the byte level: the words of the TCP header (the upper half of byte
  24 behind the pseudo header) and the length of the payload.\<close>

definition tcp_header_bytes :: "8 word list \<Rightarrow> nat" where
  "tcp_header_bytes bs = 4 * (unat (bs ! 24) div 16)"

definition tcp_payload_bytes :: "8 word list \<Rightarrow> nat" where
  "tcp_payload_bytes bs = 256 * unat (bs ! 10) + unat (bs ! 11) - tcp_header_bytes bs"

lemma data_offset_byte: "unat (get_range 196 (nw_data w) :: 4 word) = unat (word_byte w 24) div 16"
proof -
  have "unat (word_byte w 24) < 2 ^ LENGTH(8)" by (rule unsigned_less)
  moreover have "(get_range 196 (nw_data w) :: 4 word) = get_range 4 (word_byte w 24)"
    by (rule bit_word_eqI) (auto simp: word_byte_def bit_field)
  ultimately show ?thesis by (simp add: unat_get_range)
qed

lemma payload_length_byte:
  assumes "tcp_header_bytes bs \<le> 256 * unat (bs ! 10) + unat (bs ! 11)"
    and "bs ! 10 = word_byte w 10" and "bs ! 11 = word_byte w 11" and "bs ! 24 = word_byte w 24"
  shows "unat (parse_payload_length (nw_data w)) = tcp_payload_bytes bs"
proof -
  let ?len = "SwapByte (get_range 80 (nw_data w)) :: 16 word"
  let ?off = "get_range 196 (nw_data w) :: 4 word"
  have len: "unat ?len = 256 * unat (bs ! 10) + unat (bs ! 11)"
    by (simp add: unat_of_bytes_16 [of ?len] byte_SwapByte_16 get_range_get_range assms word_byte_def)
  have "unat (ucast ?off * 4 :: 16 word) = 4 * unat ?off"
  proof -
    have "unat ?off < 2 ^ LENGTH(4)" by (rule unsigned_less)
    then show ?thesis by (simp add: unat_word_ariths unsigned_ucast_eq take_bit_nat_eq_self)
  qed
  then have off: "unat (ucast ?off * 4 :: 16 word) = tcp_header_bytes bs"
    by (simp add: data_offset_byte tcp_header_bytes_def assms(4))
  then have "(ucast ?off * 4 :: 16 word) \<le> ?len" using len assms(1) by (simp add: word_le_nat_alt)
  then show ?thesis
    using len off by (simp add: parse_payload_length_def tcp_payload_bytes_def unat_sub)
qed

lemma payload_offset:
  assumes "bs ! 24 = word_byte w 24" and "tcp_header_bytes bs \<le> 48"
  shows "unat (ucast (get_range 196 (nw_data w) :: 4 word) * 4 + 12 :: 6 word) = tcp_header_bytes bs + 12"
proof -
  let ?off = "get_range 196 (nw_data w) :: 4 word"
  have "4 * unat ?off = tcp_header_bytes bs" by (simp add: data_offset_byte tcp_header_bytes_def assms(1))
  then have "unat ?off \<le> 12" "4 * unat ?off + 12 = tcp_header_bytes bs + 12" using assms(2) by simp_all
  then show ?thesis by (simp add: unat_word_ariths unsigned_ucast_eq take_bit_nat_eq_self)
qed

definition parse_done :: "RxParse \<Rightarrow> NetAXISWord list \<Rightarrow> TcpPseudoHeaderMeta \<Rightarrow> 8 word list \<Rightarrow> RxParse \<Rightarrow> bool" where
  "parse_done s rest meta bs t \<longleftrightarrow> rp_parse_fsm_state t = FIRST_WORD \<and> rp_tcp_pseudo_packet t = rest \<and>
     rp_tcp_meta_data t = rp_tcp_meta_data s @ [meta] \<and>
     (if bs = [] then rp_tcp_payload t = rp_tcp_payload s
      else \<exists>os. rp_tcp_payload t = rp_tcp_payload s @ os \<and> is_packet os \<and> packet_bytes os = bs)"

lemma parsed_single_word:
  assumes "rp_parse_fsm_state s = FIRST_WORD" and "rp_tcp_pseudo_packet s = w # rest" and "is_packet [w]"
    and bs: "bs = packet_bytes [w]" and "tcp_header_bytes bs \<le> 48" and "25 \<le> length bs"
    and "tcp_header_bytes bs \<le> 256 * unat (bs ! 10) + unat (bs ! 11)"
    and len: "length bs = 12 + tcp_header_bytes bs + tcp_payload_bytes bs"
  shows "parse_done s rest (parse_tcp_meta (nw_data w) (word_of_nat (tcp_payload_bytes bs)))
     (drop (12 + tcp_header_bytes bs) bs) (RxEngParseTcpHeader s)"
proof -
  have b: "bs ! i = word_byte w i" if "i < 25" for i
    using word_bytes_nth [OF assms(3), of i] that assms(6) bs by simp
  have p: "unat (parse_payload_length (nw_data w)) = tcp_payload_bytes bs"
    using payload_length_byte assms(7) b by simp
  then have pw: "parse_payload_length (nw_data w) = word_of_nat (tcp_payload_bytes bs)" by (metis of_nat_unat ucast_id)
  let ?k = "ucast (get_range 196 (nw_data w) :: 4 word) * 4 + 12 :: 6 word"
  have k: "unat ?k = tcp_header_bytes bs + 12" using payload_offset [of bs w] b assms(5) by simp
  obtain j where j: "nw_keep w = mask j" "j \<le> 64" and last: "nw_last w" using assms(3) by (auto simp: is_packet_def)
  note l = mask_lanes [OF j]
  let ?o = "\<lparr>nw_data = drop_bit (8 * unat ?k) (nw_data w), nw_dest = 0,
      nw_keep = drop_bit (unat ?k) (nw_keep w), nw_last = True\<rparr>"
  have lo: "lanes ?o = map Some (drop (unat ?k) bs) @ replicate (64 - j) None @ replicate (unat ?k) None"
    using lanes_drop [OF unat_6 [of ?k], of "nw_data w" 0 w True] l bs len k by (simp add: drop_map)
  have "packet_bytes [?o] = drop (12 + tcp_header_bytes bs) bs"
    using lo k by (simp add: word_bytes_lanes add.commute)
  moreover have "is_packet [?o]" if "\<not> length bs \<le> 12 + tcp_header_bytes bs"
  proof -
    have "length (drop (unat ?k) bs) + ((64 - j) + unat ?k) = 64" using l(2) bs len k j(2) by simp
    then have "nw_keep ?o = mask (length (drop (unat ?k) bs))"
      using keep_of_lanes [of ?o "drop (unat ?k) bs" "(64 - j) + unat ?k"] lo by (simp only: replicate_add)
    moreover have "length (drop (unat ?k) bs) \<in> {1..64}" using that len k l(2) bs j(2) by auto
    ultimately have "nw_keep ?o \<in> mask ` {1..64}" by (metis imageI)
    then show ?thesis by (simp add: is_packet_def)
  qed
  moreover have "drop (12 + tcp_header_bytes bs) bs = [] \<longleftrightarrow> parse_payload_length (nw_data w) = 0"
    using len p by (auto simp: unat_eq_0)
  ultimately show ?thesis
    using assms(1,2) last p pw
    by (auto simp: parse_done_def RxEngParseTcpHeader_def parse_first_word_def Let_def)
qed

lemma parsed_packet:
  assumes "rp_parse_fsm_state s = FIRST_WORD" and "rp_tcp_pseudo_packet s = (w # vs) @ rest" and "is_packet (w # vs)"
    and bs: "bs = packet_bytes (w # vs)" and "tcp_header_bytes bs \<le> 48" and "25 \<le> length bs"
    and "tcp_header_bytes bs \<le> 256 * unat (bs ! 10) + unat (bs ! 11)"
    and len: "length bs = 12 + tcp_header_bytes bs + tcp_payload_bytes bs"
  shows "\<exists>n \<le> Suc (length (w # vs)). parse_done s rest (parse_tcp_meta (nw_data w) (word_of_nat (tcp_payload_bytes bs)))
     (drop (12 + tcp_header_bytes bs) bs) ((RxEngParseTcpHeader ^^ n) s)"
proof (cases "vs = []")
  case True
  then show ?thesis using parsed_single_word [of s w rest bs] assms by (intro exI [of _ 1]) simp
next
  case False
  then have w: "nw_keep w = - 1" "\<not> nw_last w" "is_packet vs"
    using assms(3) by (simp_all add: is_packet_Cons)
  have b: "bs ! i = word_byte w i" if "i < 25" for i
    using word_bytes_nth [OF assms(3), of i] that assms(6) bs by simp
  have p: "unat (parse_payload_length (nw_data w)) = tcp_payload_bytes bs"
    using payload_length_byte assms(7) b by simp
  then have pw: "parse_payload_length (nw_data w) = word_of_nat (tcp_payload_bytes bs)" by (metis of_nat_unat ucast_id)
  let ?k = "ucast (get_range 196 (nw_data w) :: 4 word) * 4 + 12 :: 6 word"
  have k: "unat ?k = tcp_header_bytes bs + 12" using payload_offset [of bs w] b assms(5) by simp
  have "length (word_bytes w) = 64" by (metis full_lanes [OF w(1)] length_lanes length_map)
  moreover have "0 < length (packet_bytes vs)" using packet_not_empty [OF w(3)] by simp
  ultimately have "64 < length bs" using bs by simp
  then have pl: "parse_payload_length (nw_data w) \<noteq> 0" using len p assms(5) by (auto simp: unat_eq_0)
  let ?s = "s\<lparr>rp_tcp_pseudo_packet := vs @ rest, rp_tcp_payload_offset_bytes := ?k, rp_parse_fsm_state := REMAINING_WORDS,
     rp_prev_word := w, rp_tcp_meta_data := rp_tcp_meta_data s @ [parse_tcp_meta (nw_data w) (parse_payload_length (nw_data w))]\<rparr>"
  have step: "RxEngParseTcpHeader s = ?s"
    using assms(1,2) w(2) pl by (simp add: RxEngParseTcpHeader_def parse_first_word_def Let_def)
  have "?k \<noteq> 0" using k by (metis add_is_0 unat_0 zero_neq_numeral)
  then obtain n where n: "n \<le> Suc (length vs)" and c: "par.cut ?s vs rest ((RxEngParseTcpHeader ^^ n) ?s)"
    using par.cut_packet [of ?s vs rest] w by (auto simp: parse_phase_def)
  have same: "(RxEngParseTcpHeader ^^ n) ?s = (RxEngParseTcpHeader ^^ Suc n) s"
    by (simp only: funpow_Suc_apply step)
  have "somes (drop (unat ?k) (lanes w @ concat (map lanes vs))) = drop (12 + tcp_header_bytes bs) bs"
    using packet_drop [OF assms(3), of "unat ?k"] k bs by (simp add: add.commute)
  then have "parse_done s rest (parse_tcp_meta (nw_data w) (word_of_nat (tcp_payload_bytes bs)))
      (drop (12 + tcp_header_bytes bs) bs) ((RxEngParseTcpHeader ^^ Suc n) s)"
    using c pl p len unfolding par.cut_def same pw [symmetric]
    by (auto simp: parse_done_def parse_phase_def unat_eq_0 split: ParseTcpHeaderState.splits)
  then show ?thesis using n by (intro exI [of _ "Suc n"]) simp
qed


section \<open>From the IP packet to the payload\<close>

definition ip_header_bytes :: "8 word list \<Rightarrow> nat" where
  "ip_header_bytes bs = 4 * unat (bs ! 0 AND 0xF)"

definition ip_total_bytes :: "8 word list \<Rightarrow> nat" where
  "ip_total_bytes bs = 256 * unat (bs ! 2) + unat (bs ! 3)"

definition ip_tcp_header_bytes :: "8 word list \<Rightarrow> nat" where
  "ip_tcp_header_bytes bs = 4 * (unat (bs ! (ip_header_bytes bs + 12)) div 16)"

text \<open>An unpadded TCP/IP packet whose IP header is at least five words long (and not nine, see
  \<open>RemoveIpHeader\<close>) and whose TCP header has five to twelve words.\<close>

definition tcp_ip_packet :: "8 word list \<Rightarrow> bool" where
  "tcp_ip_packet bs \<longleftrightarrow> 20 \<le> ip_header_bytes bs \<and> ip_header_bytes bs \<noteq> 36 \<and>
     ip_total_bytes bs = length bs \<and> 20 \<le> ip_tcp_header_bytes bs \<and> ip_tcp_header_bytes bs \<le> 48 \<and>
     ip_header_bytes bs + ip_tcp_header_bytes bs \<le> length bs"

definition ip_payload :: "8 word list \<Rightarrow> 8 word list" where
  "ip_payload bs = drop (ip_header_bytes bs + ip_tcp_header_bytes bs) bs"

lemma segment_fields:
  assumes "tcp_ip_packet bs"
  shows "tcp_header_bytes (tcp_segment_of bs) = ip_tcp_header_bytes bs"
    and "256 * unat (tcp_segment_of bs ! 10) + unat (tcp_segment_of bs ! 11) = length bs - ip_header_bytes bs"
    and "length (tcp_segment_of bs) = 12 + (length bs - ip_header_bytes bs)"
    and "drop (12 + k) (tcp_segment_of bs) = drop (ip_header_bytes bs + k) bs"
proof -
  let ?h = "ip_header_bytes bs"
  let ?n = "length bs - ?h"
  have h: "20 \<le> ?h" "?h + 20 \<le> length bs" and total: "256 * unat (bs ! 2) + unat (bs ! 3) = length bs"
    using assms by (auto simp: tcp_ip_packet_def ip_total_bytes_def)
  define front where "front = take 8 (drop 12 bs) @ [0, 6, word_of_nat (?n div 256), word_of_nat (?n mod 256)]"
  have seg: "tcp_segment_of bs = front @ drop ?h bs"
    using total by (simp add: tcp_segment_of_def front_def ip_header_bytes_def Let_def)
  have len: "length front = 12" using h by (simp add: front_def)
  have "unat (bs ! 2) < 2 ^ LENGTH(8)" "unat (bs ! 3) < 2 ^ LENGTH(8)" by (rule unsigned_less)+
  then have n: "?n < 65536" using total by simp
  have f: "front ! 10 = word_of_nat (?n div 256)" "front ! 11 = word_of_nat (?n mod 256)"
    using h by (simp_all add: front_def nth_append)
  have "?n div 256 < 256" using n by (simp add: less_mult_imp_div_less)
  then have "256 * unat (front ! 10) + unat (front ! 11) = 256 * (?n div 256) + ?n mod 256"
    unfolding f by (simp add: unat_of_nat)
  then show "256 * unat (tcp_segment_of bs ! 10) + unat (tcp_segment_of bs ! 11) = ?n"
    using len by (simp add: seg nth_append)
  show "length (tcp_segment_of bs) = 12 + ?n" using len by (simp add: seg)
  show "drop (12 + k) (tcp_segment_of bs) = drop (?h + k) bs" using len by (simp add: seg add.commute)
  show "tcp_header_bytes (tcp_segment_of bs) = ip_tcp_header_bytes bs"
    using len h by (simp add: seg nth_append tcp_header_bytes_def ip_tcp_header_bytes_def)
qed

lemma pseudo_header_inserted:
  assumes "ri_fsm_state s = IP_HEADER" and "ri_rx_ip_pkt_in s = ws @ rest" and "is_packet ws"
    and "tcp_ip_packet (packet_bytes ws)"
  shows "\<exists>n \<le> Suc (length ws).
     segment_done s rest (tcp_segment_of (packet_bytes ws)) ((RxEngTcpPseudoHeaderInsert ^^ n) s)"
proof -
  let ?bs = "packet_bytes ws"
  have "20 \<le> 4 * unat (?bs ! 0 AND 0xF)" "4 * unat (?bs ! 0 AND 0xF) \<noteq> 36"
      "4 * unat (?bs ! 0 AND 0xF) \<le> length ?bs" "length ?bs = 256 * unat (?bs ! 2) + unat (?bs ! 3)"
    using assms(4) by (auto simp: tcp_ip_packet_def ip_header_bytes_def ip_total_bytes_def)
  then show ?thesis
    using pseudo_header_inserted_packet [OF assms(1-3) refl] by simp
qed

lemma segment_parsed:
  assumes "rp_parse_fsm_state p = FIRST_WORD" and "rp_tcp_pseudo_packet p = os @ rest" and "is_packet os"
    and "packet_bytes os = tcp_segment_of bs" and "tcp_ip_packet bs"
  shows "\<exists>m \<le> Suc (length os).
     parse_done p rest
       (parse_tcp_meta (nw_data (hd os)) (word_of_nat (length bs - ip_header_bytes bs - ip_tcp_header_bytes bs)))
       (drop (ip_header_bytes bs + ip_tcp_header_bytes bs) bs) ((RxEngParseTcpHeader ^^ m) p)"
proof -
  obtain o1 os' where os: "os = o1 # os'" using assms(3) by (cases os) (auto simp: is_packet_def)
  note f = segment_fields [OF assms(5)]
  have h: "ip_header_bytes bs + ip_tcp_header_bytes bs \<le> length bs" "20 \<le> ip_tcp_header_bytes bs"
      "ip_tcp_header_bytes bs \<le> 48"
    using assms(5) by (auto simp: tcp_ip_packet_def)
  have pay: "tcp_payload_bytes (tcp_segment_of bs) = length bs - ip_header_bytes bs - ip_tcp_header_bytes bs"
    using f(1,2) by (simp add: tcp_payload_bytes_def)
  have "\<exists>n \<le> Suc (length (o1 # os')). parse_done p rest
      (parse_tcp_meta (nw_data o1) (word_of_nat (tcp_payload_bytes (tcp_segment_of bs))))
      (drop (12 + tcp_header_bytes (tcp_segment_of bs)) (tcp_segment_of bs)) ((RxEngParseTcpHeader ^^ n) p)"
    by (rule parsed_packet) (use assms(1-4) os f(1-3) h pay in simp_all)
  then show ?thesis unfolding f(1,4) pay os list.sel .
qed

text \<open>C9: From the IP packet to the payload: for an unpadded TCP/IP packet of any length, the first
  process puts out, on both of its streams, the segment with the RFC 793 pseudo header (addresses,
  protocol 6, segment length) in the place of the IP header; the parser that receives it emits one
  set of meta data and exactly the bytes behind both headers as the payload, or none when there are
  none, and both are ready for the next packet after at most one cycle more than there are words.\<close>

theorem ip_packet_parsed:
  assumes "ri_fsm_state s = IP_HEADER" and "ri_rx_ip_pkt_in s = ws @ rest" and "is_packet ws"
    and "tcp_ip_packet (packet_bytes ws)"
  shows "\<exists>n \<le> Suc (length ws). \<exists>os.
     ri_fsm_state ((RxEngTcpPseudoHeaderInsert ^^ n) s) = IP_HEADER \<and>
     ri_rx_ip_pkt_in ((RxEngTcpPseudoHeaderInsert ^^ n) s) = rest \<and>
     ri_tcp_pseudo_packet_for_checksum ((RxEngTcpPseudoHeaderInsert ^^ n) s) =
       ri_tcp_pseudo_packet_for_checksum s @ os \<and>
     ri_tcp_pseudo_packet_for_rx_eng ((RxEngTcpPseudoHeaderInsert ^^ n) s) =
       ri_tcp_pseudo_packet_for_rx_eng s @ os \<and>
     is_packet os \<and> packet_bytes os = tcp_segment_of (packet_bytes ws) \<and>
     (\<forall>p. rp_parse_fsm_state p = FIRST_WORD \<longrightarrow> rp_tcp_pseudo_packet p = os \<longrightarrow>
       (\<exists>m \<le> Suc (length os). parse_done p []
          (parse_tcp_meta (nw_data (hd os)) (word_of_nat (length (ip_payload (packet_bytes ws)))))
          (ip_payload (packet_bytes ws)) ((RxEngParseTcpHeader ^^ m) p)))"
proof -
  obtain n os where "n \<le> Suc (length ws)" and
    "ri_fsm_state ((RxEngTcpPseudoHeaderInsert ^^ n) s) = IP_HEADER \<and>
     ri_rx_ip_pkt_in ((RxEngTcpPseudoHeaderInsert ^^ n) s) = rest \<and>
     ri_tcp_pseudo_packet_for_checksum ((RxEngTcpPseudoHeaderInsert ^^ n) s) =
       ri_tcp_pseudo_packet_for_checksum s @ os \<and>
     ri_tcp_pseudo_packet_for_rx_eng ((RxEngTcpPseudoHeaderInsert ^^ n) s) =
       ri_tcp_pseudo_packet_for_rx_eng s @ os \<and>
     is_packet os \<and> packet_bytes os = tcp_segment_of (packet_bytes ws)"
    using pseudo_header_inserted [OF assms] by (auto simp: segment_done_def)
  moreover from this have "rp_parse_fsm_state p = FIRST_WORD \<Longrightarrow> rp_tcp_pseudo_packet p = os \<Longrightarrow>
      \<exists>m \<le> Suc (length os). parse_done p []
          (parse_tcp_meta (nw_data (hd os)) (word_of_nat (length (ip_payload (packet_bytes ws)))))
          (ip_payload (packet_bytes ws)) ((RxEngParseTcpHeader ^^ m) p)" for p
    using segment_parsed [of p os "[]" "packet_bytes ws"] assms(4) by (simp add: ip_payload_def)
  ultimately show ?thesis by blast
qed

text \<open>One byte of payload behind two headers of five words.\<close>

definition small_ip_word :: NetAXISWord where
  "small_ip_word = \<lparr>nw_data = 0x45 + push_bit 24 0x29 + push_bit 256 0x50 + push_bit 320 0x77, nw_dest = 0,
     nw_keep = mask 41, nw_last = True\<rparr>"

theorem ip_packet_parsed_witness:
  "\<exists>n \<le> 2. \<exists>os. packet_bytes os = tcp_segment_of (packet_bytes [small_ip_word]) \<and>
     ri_tcp_pseudo_packet_for_rx_eng ((RxEngTcpPseudoHeaderInsert ^^ n)
       (rx_pseudo_init\<lparr>ri_rx_ip_pkt_in := [small_ip_word]\<rparr>)) = os \<and>
     (\<exists>m \<le> Suc (length os). parse_done (rx_parse_init\<lparr>rp_tcp_pseudo_packet := os\<rparr>) []
        (parse_tcp_meta (nw_data (hd os)) 1) [0x77] ((RxEngParseTcpHeader ^^ m) (rx_parse_init\<lparr>rp_tcp_pseudo_packet := os\<rparr>)))"
proof -
  let ?w = small_ip_word
  have "(mask 41 :: NetAXISKeep) \<in> mask ` {1..64}" by (rule imageI) simp
  then have p: "is_packet [?w]"
    by (simp only: is_packet_Cons small_ip_word_def NetAXISWord.simps simp_thms if_True)
  have len: "length (packet_bytes [?w]) = 41"
    using mask_lanes(2) [of ?w 41] by (simp add: small_ip_word_def)
  have d: "nw_data ?w = 0x7700000000000000500000000000000000000000000000000000000000000000000000000029000045"
    by (simp add: small_ip_word_def)
  have b: "packet_bytes [?w] ! i = get_range (8 * i) (nw_data ?w)" if "i < 41" for i
    using word_bytes_nth [OF p, of i] that len by (simp add: word_byte_def)
  have v: "packet_bytes [?w] ! 0 = 0x45" "packet_bytes [?w] ! 2 = 0" "packet_bytes [?w] ! 3 = 0x29"
      "packet_bytes [?w] ! 32 = 0x50" "packet_bytes [?w] ! 40 = 0x77"
    using b [of 0] b [of 2] b [of 3] b [of 32] b [of 40]
    by (simp_all add: d get_range_def drop_bit_word_numeral)
  have h: "ip_header_bytes (packet_bytes [?w]) = 20" using v by (simp add: ip_header_bytes_def)
  have t: "ip_tcp_header_bytes (packet_bytes [?w]) = 20" using v h by (simp add: ip_tcp_header_bytes_def)
  have ok: "tcp_ip_packet (packet_bytes [?w])"
    unfolding tcp_ip_packet_def h t using v len by (simp add: ip_total_bytes_def)
  have "drop 40 (packet_bytes [?w]) = [packet_bytes [?w] ! 40]"
    using len Cons_nth_drop_Suc [of 40 "packet_bytes [?w]"] by simp
  then have pl: "ip_payload (packet_bytes [?w]) = [0x77]" unfolding ip_payload_def h t using v by simp
  show ?thesis
    using ip_packet_parsed [of "rx_pseudo_init\<lparr>ri_rx_ip_pkt_in := [?w]\<rparr>" "[?w]" "[]"] p ok
    unfolding pl by (auto simp: rx_pseudo_init_def rx_parse_init_def numeral_2_eq_2)
qed

end
