(* ===== verification/Rx_Options.thy ===== *)
theory Rx_Options
  imports Tcp_Header
begin

text \<open>
  \<open>RxEngParseTcpHeaderOptions\<close> of \<open>rx_engine/rx_engine.cpp\<close>: the options of a SYN are walked, one per
  cycle, until the window scale, the end mark or the end of the header.  \<open>scan_options\<close> states what
  the walk is to find; the theorems say that the process finds it, how long it takes, and on which
  headers it never comes back.
\<close>

section \<open>The process\<close>

datatype RxParseOptionsState = READ_META | PARSE_OPTIONS

record RxOptions =
  ro_fsm_state :: RxParseOptionsState
  ro_tcp_meta_reg :: TcpPseudoHeaderMeta
  ro_tcp_options_length :: "9 word"
  ro_cur_tcp_options_index :: "8 word"
  ro_tcp_meta_data_in :: "TcpPseudoHeaderMeta stream"
  ro_tcp_meta_data_out :: "TcpPseudoHeaderMeta stream"

definition WINDOW_SCALE_BITS :: "4 word" where [simp]: "WINDOW_SCALE_BITS = 2"

text \<open>The scale of the option, at most \<open>WINDOW_SCALE_BITS\<close>; the source looks at four of its bits.\<close>

definition announced_scale :: "320 word \<Rightarrow> TcpSessionBufferScale" where
  "announced_scale tcp_options =
     (let shift = get_range 16 tcp_options :: 4 word in
      ucast (if WINDOW_SCALE_BITS < shift then WINDOW_SCALE_BITS else shift))"

definition options_read_meta :: "TcpPseudoHeaderMeta \<Rightarrow> RxOptions \<Rightarrow> RxOptions" where
  "options_read_meta meta s =
     (if th_syn (tm_header meta) \<and> 5 < th_data_offset (tm_header meta) then
        s\<lparr>ro_tcp_meta_reg := meta, ro_cur_tcp_options_index := 0,
          ro_tcp_options_length := (ucast (th_data_offset (tm_header meta)) - 5) * 4,
          ro_fsm_state := PARSE_OPTIONS\<rparr>
      else
        s\<lparr>ro_tcp_meta_reg := meta\<lparr>tm_tcp_options := 0\<rparr>,
          ro_tcp_meta_data_out := ro_tcp_meta_data_out s @ [meta\<lparr>tm_tcp_options := 0\<rparr>]\<rparr>)"

definition next_option :: "RxOptions \<Rightarrow> RxOptions" where
  "next_option s =
     (let meta = ro_tcp_meta_reg s;
          kind = get_range 0 (tm_tcp_options meta) :: 8 word;
          cur_option_length = get_range 8 (tm_tcp_options meta) :: 8 word;
          step = (if kind = 1 then 1 else cur_option_length);
          scaled = (if kind = 3 \<and> cur_option_length = 3
                    then (tm_header meta)\<lparr>th_win_scale := announced_scale (tm_tcp_options meta)\<rparr>
                    else tm_header meta) in
      s\<lparr>ro_tcp_meta_reg := meta\<lparr>tm_header := scaled,
          tm_tcp_options := drop_bit (8 * unat step) (tm_tcp_options meta)\<rparr>,
        ro_cur_tcp_options_index := ro_cur_tcp_options_index s + step\<rparr>)"

definition send_parsed_meta :: "RxOptions \<Rightarrow> RxOptions" where
  "send_parsed_meta s =
     s\<lparr>ro_tcp_meta_reg := (ro_tcp_meta_reg s)\<lparr>tm_tcp_options := 0\<rparr>,
       ro_tcp_meta_data_out := ro_tcp_meta_data_out s @ [(ro_tcp_meta_reg s)\<lparr>tm_tcp_options := 0\<rparr>],
       ro_fsm_state := READ_META\<rparr>"

definition parse_options :: "RxOptions \<Rightarrow> RxOptions" where
  "parse_options s =
     (let kind = get_range 0 (tm_tcp_options (ro_tcp_meta_reg s)) :: 8 word in
      if unat (ro_cur_tcp_options_index s) < unat (ro_tcp_options_length s) then
        (if kind = 0 \<or> kind = 3 then send_parsed_meta (next_option s) else next_option s)
      else send_parsed_meta s)"

definition RxEngParseTcpHeaderOptions :: "RxOptions \<Rightarrow> RxOptions" where
  "RxEngParseTcpHeaderOptions s =
     (case ro_fsm_state s of
        READ_META \<Rightarrow>
          (case ro_tcp_meta_data_in s of
             meta # rest \<Rightarrow> options_read_meta meta (s\<lparr>ro_tcp_meta_data_in := rest\<rparr>) | [] \<Rightarrow> s)
      | PARSE_OPTIONS \<Rightarrow> parse_options s)"

definition rx_options_init :: RxOptions where
  "rx_options_init =
     \<lparr>ro_fsm_state = READ_META, ro_tcp_meta_reg = TcpPseudoHeaderMeta_default, ro_tcp_options_length = 0,
      ro_cur_tcp_options_index = 0, ro_tcp_meta_data_in = [], ro_tcp_meta_data_out = []\<rparr>"

section \<open>What the walk finds\<close>

text \<open>Byte \<open>i\<close> of the options, 0 beyond the bits that the first word of the segment holds.\<close>

abbreviation option_byte :: "320 word \<Rightarrow> nat \<Rightarrow> 8 word" where
  "option_byte opts i \<equiv> get_range (8 * i) opts"

datatype OptionScan = Scale TcpSessionBufferScale | Zero_Length

function scan_options :: "320 word \<Rightarrow> nat \<Rightarrow> nat \<Rightarrow> OptionScan" where
  "scan_options opts n i =
     (if n \<le> i \<or> option_byte opts i = 0 then Scale 0
      else if option_byte opts i = 1 then scan_options opts n (i + 1)
      else if option_byte opts i = 3 then
        Scale (if option_byte opts (i + 1) = 3 then announced_scale (drop_bit (8 * i) opts) else 0)
      else if option_byte opts (i + 1) = 0 then Zero_Length
      else scan_options opts n (i + unat (option_byte opts (i + 1))))"
  by pat_completeness auto
termination
  by (relation "measure (\<lambda>(opts, n, i). n - i)") (auto simp: unat_gt_0 diff_less_mono2)

declare scan_options.simps [simp del]

text \<open>The state of the walk at option byte \<open>i\<close> of the options \<open>opts\<close> of the segment \<open>meta\<close>.\<close>

definition walking :: "TcpPseudoHeaderMeta \<Rightarrow> nat \<Rightarrow> nat \<Rightarrow> RxOptions \<Rightarrow> bool" where
  "walking meta n i s \<longleftrightarrow> ro_fsm_state s = PARSE_OPTIONS \<and> unat (ro_tcp_options_length s) = n \<and>
     ro_tcp_meta_reg s = meta\<lparr>tm_tcp_options := drop_bit (8 * i) (tm_tcp_options meta)\<rparr> \<and>
     (if i < 256 then unat (ro_cur_tcp_options_index s) = i else 40 \<le> i)"

definition options_answer :: "RxOptions \<Rightarrow> TcpPseudoHeaderMeta \<Rightarrow> RxOptions \<Rightarrow> bool" where
  "options_answer s m t \<longleftrightarrow> ro_fsm_state t = READ_META \<and> ro_tcp_meta_data_in t = ro_tcp_meta_data_in s \<and>
     ro_tcp_meta_data_out t = ro_tcp_meta_data_out s @ [m]"

definition scaled_meta :: "TcpPseudoHeaderMeta \<Rightarrow> TcpSessionBufferScale \<Rightarrow> TcpPseudoHeaderMeta" where
  "scaled_meta meta v = meta\<lparr>tm_header := (tm_header meta)\<lparr>th_win_scale := v\<rparr>, tm_tcp_options := 0\<rparr>"

lemma option_byte_drop: "(get_range 0 (drop_bit (8 * i) opts) :: 8 word) = option_byte opts i"
    "(get_range 8 (drop_bit (8 * i) opts) :: 8 word) = option_byte opts (i + 1)"
  by (simp_all add: get_range_def ac_simps)

lemma option_byte_beyond: "40 \<le> i \<Longrightarrow> option_byte opts i = 0"
  by (rule bit_word_eqI) (auto simp: bit_field dest: bit_imp_le_length)

lemma meta_same_options [simp]: "(meta\<lparr>tm_tcp_options := x\<rparr>)\<lparr>tm_tcp_options := y\<rparr> = meta\<lparr>tm_tcp_options := y\<rparr>"
  by simp

lemma scaled_meta_zero: "th_win_scale (tm_header meta) = 0 \<Longrightarrow> meta\<lparr>tm_tcp_options := 0\<rparr> = scaled_meta meta 0"
  by (cases meta; cases "tm_header meta") (simp add: scaled_meta_def)

lemma walk_end:
  assumes "walking meta n i s" and "n \<le> 40" and "th_win_scale (tm_header meta) = 0"
    and "n \<le> i \<or> option_byte (tm_tcp_options meta) i = 0"
  shows "options_answer s (scaled_meta meta 0) (RxEngParseTcpHeaderOptions s)"
proof -
  have k: "i < n \<Longrightarrow> option_byte (tm_tcp_options meta) i = 0" using assms(4) by auto
  have "40 \<le> i \<Longrightarrow> option_byte (tm_tcp_options meta) i = 0" by (rule option_byte_beyond)
  then have "unat (ro_cur_tcp_options_index s) < n \<Longrightarrow> option_byte (tm_tcp_options meta) i = 0"
    using assms(1,2) k by (cases "i < 256") (auto simp: walking_def)
  then show ?thesis
    using assms(1) scaled_meta_zero [OF assms(3)]
    by (auto simp: walking_def options_answer_def RxEngParseTcpHeaderOptions_def parse_options_def
        send_parsed_meta_def next_option_def Let_def option_byte_drop)
qed

lemma walk_scale:
  assumes "walking meta n i s" and "n \<le> 40" and "i < n" and "option_byte (tm_tcp_options meta) i = 3"
    and "th_win_scale (tm_header meta) = 0"
  shows "options_answer s (scaled_meta meta (if option_byte (tm_tcp_options meta) (i + 1) = 3
     then announced_scale (drop_bit (8 * i) (tm_tcp_options meta)) else 0)) (RxEngParseTcpHeaderOptions s)"
proof -
  have i: "unat (ro_cur_tcp_options_index s) < n" using assms(1-3) by (auto simp: walking_def)
  show ?thesis
    using assms(1,4) i scaled_meta_zero [OF assms(5)]
    by (auto simp: walking_def options_answer_def RxEngParseTcpHeaderOptions_def parse_options_def
        send_parsed_meta_def next_option_def Let_def option_byte_drop scaled_meta_def)
qed

lemma walk_step:
  assumes "walking meta n i s" and "n \<le> 40" and "i < n"
    and kind: "option_byte (tm_tcp_options meta) i \<noteq> 0" "option_byte (tm_tcp_options meta) i \<noteq> 3"
  shows "walking meta n (i + unat (if option_byte (tm_tcp_options meta) i = 1 then 1
       else option_byte (tm_tcp_options meta) (i + 1))) (RxEngParseTcpHeaderOptions s) \<and>
     ro_tcp_meta_data_in (RxEngParseTcpHeaderOptions s) = ro_tcp_meta_data_in s \<and>
     ro_tcp_meta_data_out (RxEngParseTcpHeaderOptions s) = ro_tcp_meta_data_out s"
proof -
  define l where "l = (if option_byte (tm_tcp_options meta) i = 1 then 1 else option_byte (tm_tcp_options meta) (i + 1))"
  have i: "unat (ro_cur_tcp_options_index s) = i" using assms(1-3) by (auto simp: walking_def)
  have "unat (ro_cur_tcp_options_index s + l) = (i + unat l) mod 256"
    using i by (simp add: unat_word_ariths)
  then have idx: "if i + unat l < 256 then unat (ro_cur_tcp_options_index s + l) = i + unat l else 40 \<le> i + unat l"
    by simp
  have shift: "drop_bit (8 * unat l) (drop_bit (8 * i) (tm_tcp_options meta))
      = drop_bit (8 * (i + unat l)) (tm_tcp_options meta)"
    by (simp add: algebra_simps)
  have "RxEngParseTcpHeaderOptions s = s\<lparr>ro_tcp_meta_reg :=
        meta\<lparr>tm_tcp_options := drop_bit (8 * unat l) (drop_bit (8 * i) (tm_tcp_options meta))\<rparr>,
      ro_cur_tcp_options_index := ro_cur_tcp_options_index s + l\<rparr>"
    using assms(1,3) i kind
    by (simp add: walking_def RxEngParseTcpHeaderOptions_def parse_options_def next_option_def Let_def
        option_byte_drop l_def del: drop_bit_drop_bit)
  then show ?thesis
    unfolding l_def [symmetric] shift using assms(1) idx by (simp add: walking_def)
qed

text \<open>The walk ends with the answer of \<open>scan_options\<close> after at most one cycle per byte and one more.\<close>

lemma walk_answers:
  "walking meta n i s \<Longrightarrow> n \<le> 40 \<Longrightarrow> th_win_scale (tm_header meta) = 0 \<Longrightarrow>
     scan_options (tm_tcp_options meta) n i = Scale v \<Longrightarrow>
     \<exists>k \<le> Suc (n - i). options_answer s (scaled_meta meta v) ((RxEngParseTcpHeaderOptions ^^ k) s)"
proof (induction "n - i" arbitrary: i s rule: less_induct)
  case less
  let ?opts = "tm_tcp_options meta"
  note scan = less.prems(4) [unfolded scan_options.simps [of ?opts n i]]
  have one: "options_answer s (scaled_meta meta v) (RxEngParseTcpHeaderOptions s) \<Longrightarrow> ?case"
    by (intro exI [of _ 1]) simp
  consider "n \<le> i \<or> option_byte ?opts i = 0" | "i < n" "option_byte ?opts i = 3"
    | "i < n" "option_byte ?opts i \<noteq> 0" "option_byte ?opts i \<noteq> 3" by force
  then show ?case
  proof cases
    case 1
    then have "v = 0" using scan by auto
    then show ?thesis using walk_end [OF less.prems(1-3) 1] one by simp
  next
    case 2
    then have "v = (if option_byte ?opts (i + 1) = 3 then announced_scale (drop_bit (8 * i) ?opts) else 0)"
      using scan by auto
    then show ?thesis using walk_scale [OF less.prems(1,2) 2 less.prems(3)] one by simp
  next
    case 3
    let ?l = "if option_byte ?opts i = 1 then 1 else option_byte ?opts (i + 1)"
    note w = walk_step [OF less.prems(1,2) 3]
    have l: "?l \<noteq> 0" and scan': "scan_options ?opts n (i + unat ?l) = Scale v"
      using scan 3 by (auto split: if_splits)
    then have "n - (i + unat ?l) < n - i" using 3(1) by (simp add: unat_gt_0 diff_less_mono2)
    then obtain k where k: "k \<le> Suc (n - (i + unat ?l))"
        "options_answer (RxEngParseTcpHeaderOptions s) (scaled_meta meta v)
           ((RxEngParseTcpHeaderOptions ^^ k) (RxEngParseTcpHeaderOptions s))"
      using less.hyps [of "i + unat ?l" "RxEngParseTcpHeaderOptions s"] w less.prems(2,3) scan' by blast
    have "options_answer s (scaled_meta meta v) ((RxEngParseTcpHeaderOptions ^^ Suc k) s)"
      using k(2) w by (simp only: funpow_Suc_apply options_answer_def)
    moreover have "Suc k \<le> Suc (n - i)" using k(1) \<open>n - (i + unat ?l) < n - i\<close> by linarith
    ultimately show ?thesis by blast
  qed
qed

text \<open>At an option of length zero the walk stands still.\<close>

lemma walk_stuck:
  assumes "walking meta n i s" and "n \<le> 40" and "i < n"
    and "option_byte (tm_tcp_options meta) i \<notin> {0, 1, 3}" and "option_byte (tm_tcp_options meta) (i + 1) = 0"
  shows "walking meta n i ((RxEngParseTcpHeaderOptions ^^ k) s) \<and>
     ro_tcp_meta_data_out ((RxEngParseTcpHeaderOptions ^^ k) s) = ro_tcp_meta_data_out s"
proof (induction k)
  case (Suc k)
  then show ?case
    using walk_step [OF conjunct1 [OF Suc] assms(2,3)] assms(4,5) by simp
qed (use assms(1) in simp)

lemma walk_reaches_zero_length:
  "walking meta n i s \<Longrightarrow> n \<le> 40 \<Longrightarrow> scan_options (tm_tcp_options meta) n i = Zero_Length \<Longrightarrow>
     ro_fsm_state ((RxEngParseTcpHeaderOptions ^^ k) s) = PARSE_OPTIONS \<and>
     ro_tcp_meta_data_out ((RxEngParseTcpHeaderOptions ^^ k) s) = ro_tcp_meta_data_out s"
proof (induction "n - i" arbitrary: i s k rule: less_induct)
  case less
  let ?opts = "tm_tcp_options meta"
  note scan = less.prems(3) [unfolded scan_options.simps [of ?opts n i]]
  have i: "i < n" "option_byte ?opts i \<noteq> 0" "option_byte ?opts i \<noteq> 3" using scan by (auto split: if_splits)
  note w = walk_step [OF less.prems(1,2) i]
  let ?l = "if option_byte ?opts i = 1 then 1 else option_byte ?opts (i + 1)"
  show ?case
  proof (cases "?l = 0")
    case True
    then show ?thesis
      using walk_stuck [OF less.prems(1,2) i(1), of k] i by (auto simp: walking_def split: if_splits)
  next
    case False
    then have "scan_options ?opts n (i + unat ?l) = Zero_Length" using scan i by (auto split: if_splits)
    moreover have "n - (i + unat ?l) < n - i" using False i(1) by (simp add: unat_gt_0 diff_less_mono2)
    ultimately have "ro_fsm_state ((RxEngParseTcpHeaderOptions ^^ j) (RxEngParseTcpHeaderOptions s)) = PARSE_OPTIONS \<and>
        ro_tcp_meta_data_out ((RxEngParseTcpHeaderOptions ^^ j) (RxEngParseTcpHeaderOptions s)) = ro_tcp_meta_data_out s" for j
      using less.hyps [of "i + unat ?l" "RxEngParseTcpHeaderOptions s" j] w less.prems(2) by auto
    then show ?thesis
      using less.prems(1) by (cases k) (simp_all add: walking_def funpow_Suc_apply del: funpow.simps(2))
  qed
qed

section \<open>The parser answers, or hangs\<close>

lemma walk_begins:
  assumes "ro_fsm_state s = READ_META" and "ro_tcp_meta_data_in s = meta # rest"
    and "th_syn (tm_header meta)" and "5 < th_data_offset (tm_header meta)"
  shows "walking meta (4 * (unat (th_data_offset (tm_header meta)) - 5)) 0 (RxEngParseTcpHeaderOptions s)"
    and "4 * (unat (th_data_offset (tm_header meta)) - 5) \<le> 40"
    and "ro_tcp_meta_data_in (RxEngParseTcpHeaderOptions s) = rest"
    and "ro_tcp_meta_data_out (RxEngParseTcpHeaderOptions s) = ro_tcp_meta_data_out s"
proof -
  let ?off = "th_data_offset (tm_header meta)"
  have b: "unat ?off < 2 ^ LENGTH(4)" by (rule unsigned_less)
  have o: "5 < unat ?off" using assms(4) by (simp add: word_less_nat_alt)
  have u: "unat (ucast ?off :: 9 word) = unat ?off" using b by (simp add: unsigned_ucast_eq take_bit_nat_eq_self)
  then have "unat (ucast ?off - 5 :: 9 word) = unat ?off - 5" using o by (simp add: unat_sub word_le_nat_alt)
  moreover from this have "unat (ucast ?off - 5 :: 9 word) < 16" using b by simp
  moreover have "unat (x * 4) = 4 * unat x" if "unat x < 16" for x :: "9 word"
    using that by (simp add: unat_word_ariths)
  ultimately have "unat ((ucast ?off - 5) * 4 :: 9 word) = 4 * (unat ?off - 5)"
    using b by (simp only:)
  then show "walking meta (4 * (unat ?off - 5)) 0 (RxEngParseTcpHeaderOptions s)"
    using assms by (simp add: walking_def RxEngParseTcpHeaderOptions_def options_read_meta_def)
  show "4 * (unat ?off - 5) \<le> 40" using b by simp
  show "ro_tcp_meta_data_in (RxEngParseTcpHeaderOptions s) = rest"
    "ro_tcp_meta_data_out (RxEngParseTcpHeaderOptions s) = ro_tcp_meta_data_out s"
    using assms by (simp_all add: RxEngParseTcpHeaderOptions_def options_read_meta_def)
qed

text \<open>C37: The walk over the options of a SYN comes to an end, within 42 cycles, and delivers the segment
  once, with the window scale of the first such option in front of the end mark (limited to 2, and 0
  when there is none); except on a header with an option of length 0, where the process never
  delivers anything again.\<close>

theorem options_parser_answers_or_hangs:
  assumes "ro_fsm_state s = READ_META" and "ro_tcp_meta_data_in s = meta # rest"
    and "th_syn (tm_header meta)" and "5 < th_data_offset (tm_header meta)" and "th_win_scale (tm_header meta) = 0"
  shows "case scan_options (tm_tcp_options meta) (4 * (unat (th_data_offset (tm_header meta)) - 5)) 0 of
      Scale v \<Rightarrow> \<exists>k \<le> 42. let t = (RxEngParseTcpHeaderOptions ^^ k) s in
        ro_fsm_state t = READ_META \<and> ro_tcp_meta_data_in t = rest \<and>
        ro_tcp_meta_data_out t = ro_tcp_meta_data_out s @ [scaled_meta meta v]
    | Zero_Length \<Rightarrow> \<forall>k. ro_tcp_meta_data_out ((RxEngParseTcpHeaderOptions ^^ k) s) = ro_tcp_meta_data_out s"
proof (cases "scan_options (tm_tcp_options meta) (4 * (unat (th_data_offset (tm_header meta)) - 5)) 0")
  case (Scale v)
  note w = walk_begins [OF assms(1-4)]
  obtain k where "k \<le> Suc (4 * (unat (th_data_offset (tm_header meta)) - 5))"
      "options_answer (RxEngParseTcpHeaderOptions s) (scaled_meta meta v)
         ((RxEngParseTcpHeaderOptions ^^ k) (RxEngParseTcpHeaderOptions s))"
    using walk_answers [OF w(1,2) assms(5) Scale] by auto
  then have "Suc k \<le> 42 \<and> options_answer (RxEngParseTcpHeaderOptions s) (scaled_meta meta v)
      ((RxEngParseTcpHeaderOptions ^^ Suc k) s)"
    using w(2) by (simp add: funpow_Suc_apply del: funpow.simps(2))
  then have "\<exists>k \<le> 42. options_answer (RxEngParseTcpHeaderOptions s) (scaled_meta meta v)
      ((RxEngParseTcpHeaderOptions ^^ k) s)" by blast
  then show ?thesis using w(3,4) by (simp add: Scale options_answer_def Let_def)
next
  case Zero_Length
  note w = walk_begins [OF assms(1-4)]
  have "ro_tcp_meta_data_out ((RxEngParseTcpHeaderOptions ^^ k) s) = ro_tcp_meta_data_out s" for k
    using walk_reaches_zero_length [OF w(1,2) Zero_Length] w(4)
    by (cases k) (simp_all add: funpow_Suc_apply del: funpow.simps(2))
  then show ?thesis by (simp add: Zero_Length)
qed

text \<open>A SYN with the options MSS 1460 and window scale 7, and one whose first option has length 0.\<close>

definition syn_meta :: "320 word \<Rightarrow> TcpPseudoHeaderMeta" where
  "syn_meta opts = TcpPseudoHeaderMeta_default
     \<lparr>tm_header := TcpHeaderMeta_default\<lparr>th_syn := True, th_data_offset := 7\<rparr>, tm_tcp_options := opts\<rparr>"

theorem options_parser_answers_or_hangs_witness:
  "(\<exists>k \<le> 42. ro_tcp_meta_data_out ((RxEngParseTcpHeaderOptions ^^ k)
       (rx_options_init\<lparr>ro_tcp_meta_data_in := [syn_meta 0x070303b4050402]\<rparr>)) = [scaled_meta (syn_meta 0x070303b4050402) 2]) \<and>
   (\<forall>k. ro_tcp_meta_data_out ((RxEngParseTcpHeaderOptions ^^ k)
       (rx_options_init\<lparr>ro_tcp_meta_data_in := [syn_meta 0x0005]\<rparr>)) = [])"
proof -
  have "scan_options 0x070303b4050402 8 0 = Scale 2"
    by (simp add: scan_options.simps announced_scale_def get_range_def drop_bit_word_numeral)
  moreover have "scan_options 0x0005 8 0 = Zero_Length"
    by (simp add: scan_options.simps get_range_def drop_bit_word_numeral)
  ultimately show ?thesis
    using options_parser_answers_or_hangs [of "rx_options_init\<lparr>ro_tcp_meta_data_in := [syn_meta 0x070303b4050402]\<rparr>"
        "syn_meta 0x070303b4050402" "[]"]
      options_parser_answers_or_hangs [of "rx_options_init\<lparr>ro_tcp_meta_data_in := [syn_meta 0x0005]\<rparr>"
        "syn_meta 0x0005" "[]"]
    by (auto simp: rx_options_init_def syn_meta_def TcpPseudoHeaderMeta_default_def TcpHeaderMeta_default_def Let_def)
qed

end
