(* ===== verification/Write_Status.thy ===== *)
theory Write_Status
  imports Toe_Types
begin

text \<open>
  The contract of a process that holds an item back until the memory write behind it is confirmed:
  \<open>RxEngNotificaionHandler\<close> for notifications, \<open>TxAppRspHandler\<close> for transmit events.  Such a process
  reads for every write a flag that says whether the write was split at the end of the ring buffer,
  and one status of the data mover, or two.
\<close>

section \<open>Outcomes of writes\<close>

datatype MemWrite = Whole DataMoverStatus | Split DataMoverStatus DataMoverStatus

fun write_statuses :: "MemWrite \<Rightarrow> DataMoverStatus list" where
  "write_statuses (Whole a) = [a]"
| "write_statuses (Split a b) = [a, b]"

fun write_split :: "MemWrite \<Rightarrow> bool" where
  "write_split (Whole a) = False"
| "write_split (Split a b) = True"

fun write_ok :: "MemWrite \<Rightarrow> bool" where
  "write_ok (Whole a) = ds_okay a"
| "write_ok (Split a b) = (ds_okay a \<and> ds_okay b)"

text \<open>A split write whose first half fails is the case the handlers do not cover.\<close>

fun first_half_fails :: "MemWrite \<Rightarrow> bool" where
  "first_half_fails (Whole a) = False"
| "first_half_fails (Split a b) = (\<not> ds_okay a)"

definition good_status :: DataMoverStatus where
  "good_status = \<lparr>ds_tag = 0, ds_interr = False, ds_decerr = False, ds_slverr = False, ds_okay = True\<rparr>"

definition bad_status :: DataMoverStatus where
  "bad_status = good_status\<lparr>ds_slverr := True, ds_okay := False\<rparr>"

lemma status_okay [simp]: "ds_okay good_status" "\<not> ds_okay bad_status"
  by (simp_all add: good_status_def bad_status_def)

section \<open>The contract\<close>

text \<open>\<open>waits x\<close>: the item \<open>x\<close> has a write behind it; \<open>emit x\<close> is what the process sends for it.\<close>

locale write_status =
  fixes step :: "'s \<Rightarrow> 's" and ready :: "'s \<Rightarrow> bool"
    and inp :: "'s \<Rightarrow> 'a list" and flags :: "'s \<Rightarrow> bool list" and statuses :: "'s \<Rightarrow> DataMoverStatus list"
    and out :: "'s \<Rightarrow> 'c list" and waits :: "'a \<Rightarrow> bool" and emit :: "'a \<Rightarrow> 'c list"
  assumes pass_step: "ready s \<Longrightarrow> inp s = x # xs \<Longrightarrow> \<not> waits x \<Longrightarrow>
      ready (step s) \<and> inp (step s) = xs \<and> flags (step s) = flags s \<and> statuses (step s) = statuses s \<and>
      out (step s) = out s @ emit x"
    and whole_steps: "ready s \<Longrightarrow> inp s = x # xs \<Longrightarrow> waits x \<Longrightarrow> flags s = False # fs \<Longrightarrow> statuses s = a # sts \<Longrightarrow>
      ready (step (step s)) \<and> inp (step (step s)) = xs \<and> flags (step (step s)) = fs \<and>
      statuses (step (step s)) = sts \<and> out (step (step s)) = out s @ (if ds_okay a then emit x else [])"
    and split_steps: "ready s \<Longrightarrow> inp s = x # xs \<Longrightarrow> waits x \<Longrightarrow> flags s = True # fs \<Longrightarrow>
      statuses s = a # b # sts \<Longrightarrow> ds_okay a \<Longrightarrow>
      ready (step (step (step s))) \<and> inp (step (step (step s))) = xs \<and> flags (step (step (step s))) = fs \<and>
      statuses (step (step (step s))) = sts \<and>
      out (step (step (step s))) = out s @ (if ds_okay b then emit x else [])"
    and failed_steps: "ready s \<Longrightarrow> inp s = x # xs \<Longrightarrow> waits x \<Longrightarrow> flags s = True # fs \<Longrightarrow>
      statuses s = a # sts \<Longrightarrow> \<not> ds_okay a \<Longrightarrow>
      ready (step (step s)) \<and> inp (step (step s)) = xs \<and> flags (step (step s)) = fs \<and>
      statuses (step (step s)) = sts \<and> out (step (step s)) = out s"
begin

text \<open>The flags, the statuses and the cycles of a sequence of items, and what comes out.\<close>

definition all_flags :: "('a \<times> MemWrite) list \<Rightarrow> bool list" where
  "all_flags xs = concat (map (\<lambda>(x, w). if waits x then [write_split w] else []) xs)"

definition all_statuses :: "('a \<times> MemWrite) list \<Rightarrow> DataMoverStatus list" where
  "all_statuses xs = concat (map (\<lambda>(x, w). if waits x then write_statuses w else []) xs)"

definition cycles :: "('a \<times> MemWrite) list \<Rightarrow> nat" where
  "cycles xs = (\<Sum>(x, w) \<leftarrow> xs. if waits x then 1 + length (write_statuses w) else 1)"

definition all_out :: "('a \<times> MemWrite) list \<Rightarrow> 'c list" where
  "all_out xs = concat (map (\<lambda>(x, w). if waits x \<longrightarrow> write_ok w then emit x else []) xs)"

lemma cycles_bound: "cycles xs \<le> 3 * length xs"
proof -
  have "length (write_statuses w) \<le> 2" for w by (cases w) simp_all
  then have "(case y of (x, w) \<Rightarrow> if waits x then 1 + length (write_statuses w) else 1) \<le> 3" for y :: "'a \<times> MemWrite"
    by (cases y) simp
  then have "cycles xs \<le> (\<Sum>y \<leftarrow> xs. 3)" unfolding cycles_def by (rule sum_list_mono)
  then show ?thesis by (simp add: sum_list_triv)
qed

lemma serve_one:
  assumes "ready s" and "inp s = x # xs" and "waits x \<Longrightarrow> \<not> first_half_fails w"
    and "flags s = (if waits x then [write_split w] else []) @ fs"
    and "statuses s = (if waits x then write_statuses w else []) @ sts"
  shows "let t = (step ^^ (if waits x then 1 + length (write_statuses w) else 1)) s in
     ready t \<and> inp t = xs \<and> flags t = fs \<and> statuses t = sts \<and>
     out t = out s @ (if waits x \<longrightarrow> write_ok w then emit x else [])"
proof (cases "waits x")
  case True
  show ?thesis
  proof (cases w)
    case (Whole a)
    then show ?thesis
      using whole_steps [OF assms(1,2) True, of fs a sts] assms(4,5) True by (simp add: eval_nat_numeral)
  next
    case (Split a b)
    then show ?thesis
      using split_steps [OF assms(1,2) True, of fs a b sts] assms(3-5) True by (simp add: eval_nat_numeral)
  qed
next
  case False
  then show ?thesis using pass_step [OF assms(1,2) False] assms(4,5) by simp
qed

lemma serve_all:
  "ready s \<Longrightarrow> \<forall>(x, w) \<in> set xs. waits x \<longrightarrow> \<not> first_half_fails w \<Longrightarrow> inp s = map fst xs \<Longrightarrow>
   flags s = all_flags xs \<Longrightarrow> statuses s = all_statuses xs \<Longrightarrow>
   (let t = (step ^^ cycles xs) s in ready t \<and> inp t = [] \<and> flags t = [] \<and> statuses t = [] \<and>
      out t = out s @ all_out xs)"
proof (induction xs arbitrary: s)
  case (Cons y xs)
  obtain x w where y: "y = (x, w)" by (cases y)
  let ?n = "if waits x then 1 + length (write_statuses w) else 1"
  let ?t = "(step ^^ ?n) s"
  have t: "ready ?t \<and> inp ?t = map fst xs \<and> flags ?t = all_flags xs \<and> statuses ?t = all_statuses xs \<and>
      out ?t = out s @ (if waits x \<longrightarrow> write_ok w then emit x else [])"
    using serve_one [of s x "map fst xs" w "all_flags xs" "all_statuses xs"] Cons.prems y
    by (simp only: Let_def all_flags_def all_statuses_def) (auto simp: Let_def)
  have "cycles (y # xs) = cycles xs + ?n" by (simp add: cycles_def y)
  then have "(step ^^ cycles (y # xs)) s = (step ^^ cycles xs) ?t"
    by (simp only: funpow_add comp_apply)
  then show ?case using Cons.IH [of ?t] t Cons.prems(2) y by (simp add: Let_def all_out_def)
qed (simp add: Let_def all_flags_def all_statuses_def cycles_def all_out_def)

text \<open>When the first half of a split write fails, the status of its second half is left in the stream,
  where the next write finds it.\<close>

lemma misled:
  assumes "ready s" and "inp s = [x, y]" and "waits x" and "waits y" and "flags s = [True, False]"
    and "statuses s = [a, b, c]" and "\<not> ds_okay a" and "ds_okay b"
  shows "let t = (step ^^ 4) s in out t = out s @ emit y \<and> statuses t = [c]"
  using failed_steps [OF assms(1,2,3,5,6,7)] whole_steps [of "step (step s)" y "[]" "[]" b "[c]"] assms(4,8)
  by (simp add: eval_nat_numeral Let_def)

end

end
