(* ===== verification/Rx_Meta.thy ===== *)
theory Rx_Meta
  imports Tcp_Header Memory_Access Write_Status
begin

text \<open>
  The processes of \<open>rx_engine/rx_engine.cpp\<close> around the state machine: \<open>RxEngVerifyChecksumAndPort\<close>
  and \<open>RxEngTcpMetaHandler\<close>, which decide whether a segment has a valid checksum, an open port and a
  session, \<open>RxEngTcpPayloadDropper\<close>, which applies their verdicts and that of the state machine to the
  payload, \<open>RxEngNotificaionHandler\<close>, which holds a notification back until the data is in memory,
  and \<open>RxEngEventMerger\<close>.
\<close>

section \<open>Checksum and port\<close>

datatype RxVerifyFsmState = READ_META_INFO | READ_CHECKSUM

record RxVerify =
  rv_fsm_state :: RxVerifyFsmState
  rv_tcp_meta_reg :: TcpPseudoHeaderMeta
  rv_tcp_checksum_in :: "16 word stream"
  rv_tcp_meta_data_in :: "TcpPseudoHeaderMeta stream"
  rv_tcp_payload_dropped_by_checksum :: "bool stream"
  rv_tcp_meta_data_out :: "TcpPseudoHeaderMeta stream"
  rv_rx_eng_to_ptable_check_req :: "TcpPortNumber stream"

definition verify_segment :: "16 word \<Rightarrow> RxVerify \<Rightarrow> RxVerify" where
  "verify_segment tcp_seg_checksum s =
     (let meta = rv_tcp_meta_reg s; valid = (tcp_seg_checksum = 0) in
      s\<lparr>rv_tcp_meta_data_out := rv_tcp_meta_data_out s @ (if valid then [meta] else []),
        rv_rx_eng_to_ptable_check_req := rv_rx_eng_to_ptable_check_req s @
          (if valid then [SwapByte (th_dest_port (tm_header meta))] else []),
        rv_tcp_payload_dropped_by_checksum := rv_tcp_payload_dropped_by_checksum s @
          (if th_payload_length (tm_header meta) \<noteq> 0 then [\<not> valid] else []),
        rv_fsm_state := READ_META_INFO\<rparr>)"

definition RxEngVerifyChecksumAndPort :: "RxVerify \<Rightarrow> RxVerify" where
  "RxEngVerifyChecksumAndPort s =
     (case rv_fsm_state s of
        READ_META_INFO \<Rightarrow>
          (case rv_tcp_meta_data_in s of
             meta # rest \<Rightarrow> s\<lparr>rv_tcp_meta_data_in := rest, rv_tcp_meta_reg := meta, rv_fsm_state := READ_CHECKSUM\<rparr>
           | [] \<Rightarrow> s)
      | READ_CHECKSUM \<Rightarrow>
          (case rv_tcp_checksum_in s of
             c # rest \<Rightarrow> verify_segment c (s\<lparr>rv_tcp_checksum_in := rest\<rparr>) | [] \<Rightarrow> s))"

definition rx_verify_init :: RxVerify where
  "rx_verify_init =
     \<lparr>rv_fsm_state = READ_META_INFO, rv_tcp_meta_reg = TcpPseudoHeaderMeta_default, rv_tcp_checksum_in = [],
      rv_tcp_meta_data_in = [], rv_tcp_payload_dropped_by_checksum = [], rv_tcp_meta_data_out = [],
      rv_rx_eng_to_ptable_check_req = []\<rparr>"

section \<open>Port and session\<close>

record RxEngFsmMetaData =
  fm_session_id :: TcpSessionID
  fm_src_ip :: IpAddr
  fm_dst_port :: TcpPortNumber
  fm_header :: TcpHeaderMeta
  fm_role_id :: NetAXISDest

datatype RxTcpMetaFsmState = META | LOOKUP

record RxMeta =
  rm_fsm_state :: RxTcpMetaFsmState
  rm_tcp_meta_reg :: TcpPseudoHeaderMeta
  rm_ptable_rsp_reg :: PtableToRxEngRsp
  rm_tcp_meta_data_in :: "TcpPseudoHeaderMeta stream"
  rm_ptable_to_rx_eng_check_rsp :: "PtableToRxEngRsp stream"
  rm_rx_eng_to_slookup_req :: "RxEngToSlookupReq stream"
  rm_slookup_to_rx_eng_rsp :: "SessionLookupRsp stream"
  rm_rx_eng_fsm_meta_data_out :: "RxEngFsmMetaData stream"
  rm_tcp_payload_dropped_by_port_or_session :: "bool stream"
  rm_tcp_payload_tdest :: "NetAXISDest stream"
  rm_rx_eng_meta_to_event_eng_set_event :: "EventWithTuple stream"

text \<open>The payload of a segment, when it has any, gets a verdict and the role it would be sent to.\<close>

definition payload_verdict :: "bool \<Rightarrow> RxMeta \<Rightarrow> RxMeta" where
  "payload_verdict dropped s =
     (if th_payload_length (tm_header (rm_tcp_meta_reg s)) \<noteq> 0 then
        s\<lparr>rm_tcp_payload_dropped_by_port_or_session := rm_tcp_payload_dropped_by_port_or_session s @ [dropped],
          rm_tcp_payload_tdest := rm_tcp_payload_tdest s @ [pr_role_id (rm_ptable_rsp_reg s)]\<rparr>
      else s)"

definition closed_port :: "RxMeta \<Rightarrow> RxMeta" where
  "closed_port s =
     (let meta = rm_tcp_meta_reg s; header = tm_header meta in
      payload_verdict True
        (if \<not> th_rst header then
           s\<lparr>rm_rx_eng_meta_to_event_eng_set_event := rm_rx_eng_meta_to_event_eng_set_event s @
               [EventWithTuple_of (RstEvent_seq 0 (th_seq_number header + ucast (get_payload_length header)) False)
                  (FourTuple (tm_dest_ip meta) (tm_src_ip meta) (th_dest_port header) (th_src_port header))]\<rparr>
         else s))"

text \<open>Only a SYN without RST and FIN may create a session.\<close>

definition open_port :: "RxMeta \<Rightarrow> RxMeta" where
  "open_port s =
     (let meta = rm_tcp_meta_reg s; header = tm_header meta in
      s\<lparr>rm_rx_eng_to_slookup_req := rm_rx_eng_to_slookup_req s @
          [\<lparr>rsl_four_tuple = FourTuple (tm_src_ip meta) (tm_dest_ip meta) (th_src_port header) (th_dest_port header),
            rsl_allow_creation = (th_syn header \<and> \<not> th_rst header \<and> \<not> th_fin header),
            rsl_role_id = pr_role_id (rm_ptable_rsp_reg s)\<rparr>],
        rm_fsm_state := LOOKUP\<rparr>)"

definition session_found :: "SessionLookupRsp \<Rightarrow> RxMeta \<Rightarrow> RxMeta" where
  "session_found rsp s =
     (payload_verdict (\<not> sl_hit rsp)
        (if sl_hit rsp then
           s\<lparr>rm_rx_eng_fsm_meta_data_out := rm_rx_eng_fsm_meta_data_out s @
               [\<lparr>fm_session_id = sl_session_id rsp, fm_src_ip = tm_src_ip (rm_tcp_meta_reg s),
                 fm_dst_port = th_dest_port (tm_header (rm_tcp_meta_reg s)),
                 fm_header = tm_header (rm_tcp_meta_reg s), fm_role_id = pr_role_id (rm_ptable_rsp_reg s)\<rparr>]\<rparr>
         else s))\<lparr>rm_fsm_state := META\<rparr>"

definition RxEngTcpMetaHandler :: "RxMeta \<Rightarrow> RxMeta" where
  "RxEngTcpMetaHandler s =
     (case rm_fsm_state s of
        META \<Rightarrow>
          (case (rm_tcp_meta_data_in s, rm_ptable_to_rx_eng_check_rsp s) of
             (meta # metas, rsp # rsps) \<Rightarrow>
               (let t = s\<lparr>rm_tcp_meta_data_in := metas, rm_tcp_meta_reg := meta,
                          rm_ptable_to_rx_eng_check_rsp := rsps, rm_ptable_rsp_reg := rsp\<rparr> in
                if \<not> pr_is_open rsp then closed_port t else open_port t)
           | _ \<Rightarrow> s)
      | LOOKUP \<Rightarrow>
          (case rm_slookup_to_rx_eng_rsp s of
             rsp # rsps \<Rightarrow> session_found rsp (s\<lparr>rm_slookup_to_rx_eng_rsp := rsps\<rparr>) | [] \<Rightarrow> s))"

definition rx_meta_init :: RxMeta where
  "rx_meta_init =
     \<lparr>rm_fsm_state = META, rm_tcp_meta_reg = TcpPseudoHeaderMeta_default,
      rm_ptable_rsp_reg = \<lparr>pr_is_open = False, pr_role_id = 0\<rparr>, rm_tcp_meta_data_in = [],
      rm_ptable_to_rx_eng_check_rsp = [], rm_rx_eng_to_slookup_req = [], rm_slookup_to_rx_eng_rsp = [],
      rm_rx_eng_fsm_meta_data_out = [], rm_tcp_payload_dropped_by_port_or_session = [],
      rm_tcp_payload_tdest = [], rm_rx_eng_meta_to_event_eng_set_event = []\<rparr>"

section \<open>The payload\<close>

datatype RxDropperFsmState = RD_VERIFY_CHECKSUM | RD_META_HANDLER | RD_FSM_DROP | FWD | DROP

record RxDropper =
  dp_fsm_state :: RxDropperFsmState
  dp_tcp_payload_role_id :: NetAXISDest
  dp_tcp_payload_in :: "NetAXISWord stream"
  dp_dropped_by_checksum :: "bool stream"
  dp_dropped_by_port_or_session :: "bool stream"
  dp_tcp_payload_tdest :: "NetAXISDest stream"
  dp_dropped_by_rx_fsm :: "bool stream"
  dp_tcp_payload_out :: "NetAXISWord stream"

definition dropper_verdict :: "RxDropper \<Rightarrow> RxDropper" where
  "dropper_verdict s =
     (case dp_fsm_state s of
        RD_VERIFY_CHECKSUM \<Rightarrow>
          (case dp_dropped_by_checksum s of
             dropped # rest \<Rightarrow>
               s\<lparr>dp_dropped_by_checksum := rest, dp_fsm_state := (if dropped then DROP else RD_META_HANDLER)\<rparr>
           | [] \<Rightarrow> s)
      | RD_META_HANDLER \<Rightarrow>
          (case (dp_dropped_by_port_or_session s, dp_tcp_payload_tdest s) of
             (dropped # rest, dest # dests) \<Rightarrow>
               s\<lparr>dp_dropped_by_port_or_session := rest, dp_tcp_payload_tdest := dests,
                 dp_tcp_payload_role_id := dest, dp_fsm_state := (if dropped then DROP else RD_FSM_DROP)\<rparr>
           | _ \<Rightarrow> s)
      | _ \<Rightarrow>
          (case dp_dropped_by_rx_fsm s of
             dropped # rest \<Rightarrow>
               s\<lparr>dp_dropped_by_rx_fsm := rest, dp_fsm_state := (if dropped then DROP else FWD)\<rparr>
           | [] \<Rightarrow> s))"

definition dropper_word :: "RxDropper \<Rightarrow> RxDropper" where
  "dropper_word s =
     (case dp_tcp_payload_in s of
        cur_word # rest \<Rightarrow>
          s\<lparr>dp_tcp_payload_in := rest,
            dp_tcp_payload_out := dp_tcp_payload_out s @
              (if dp_fsm_state s = FWD then [cur_word\<lparr>nw_dest := dp_tcp_payload_role_id s\<rparr>] else []),
            dp_fsm_state := (if nw_last cur_word then RD_VERIFY_CHECKSUM else dp_fsm_state s)\<rparr>
      | [] \<Rightarrow> s)"

definition RxEngTcpPayloadDropper :: "RxDropper \<Rightarrow> RxDropper" where
  "RxEngTcpPayloadDropper s =
     (if dp_fsm_state s = FWD \<or> dp_fsm_state s = DROP then dropper_word s else dropper_verdict s)"

definition rx_dropper_init :: RxDropper where
  "rx_dropper_init =
     \<lparr>dp_fsm_state = RD_VERIFY_CHECKSUM, dp_tcp_payload_role_id = 0, dp_tcp_payload_in = [],
      dp_dropped_by_checksum = [], dp_dropped_by_port_or_session = [], dp_tcp_payload_tdest = [],
      dp_dropped_by_rx_fsm = [], dp_tcp_payload_out = []\<rparr>"

section \<open>Notifications\<close>

datatype NotificaionHandlerFsmState = READ_NOTIFY | READ_STATUS_1 | READ_STATUS_2

record RxNotify =
  rn_fsm_state :: NotificaionHandlerFsmState
  rn_app_notificaion_reg1 :: AppNotificationNoTDEST
  rn_app_notificaion_reg2 :: AppNotificationNoTDEST
  rn_mover_to_rx_eng_write_status :: "DataMoverStatus stream"
  rn_mem_buffer_double_access_flag :: "bool stream"
  rn_rx_eng_to_rx_app_notification_cache :: "AppNotificationNoTDEST stream"
  rn_rx_eng_to_rx_app_notification :: "AppNotificationNoTDEST stream"

definition notify_read :: "AppNotificationNoTDEST \<Rightarrow> RxNotify \<Rightarrow> RxNotify" where
  "notify_read n s =
     (if an_length n \<noteq> 0 then s\<lparr>rn_app_notificaion_reg1 := n, rn_fsm_state := READ_STATUS_1\<rparr>
      else s\<lparr>rn_app_notificaion_reg1 := n,
             rn_rx_eng_to_rx_app_notification := rn_rx_eng_to_rx_app_notification s @ [n]\<rparr>)"

definition notify_status_1 :: "bool \<Rightarrow> DataMoverStatus \<Rightarrow> RxNotify \<Rightarrow> RxNotify" where
  "notify_status_1 double_access_flag datamover_sts s =
     (if ds_okay datamover_sts then
        (if double_access_flag then
           s\<lparr>rn_app_notificaion_reg2 := rn_app_notificaion_reg1 s, rn_fsm_state := READ_STATUS_2\<rparr>
         else
           s\<lparr>rn_rx_eng_to_rx_app_notification := rn_rx_eng_to_rx_app_notification s @ [rn_app_notificaion_reg1 s],
             rn_fsm_state := READ_NOTIFY\<rparr>)
      else s\<lparr>rn_fsm_state := READ_NOTIFY\<rparr>)"

definition notify_status_2 :: "DataMoverStatus \<Rightarrow> RxNotify \<Rightarrow> RxNotify" where
  "notify_status_2 datamover_sts s =
     s\<lparr>rn_rx_eng_to_rx_app_notification := rn_rx_eng_to_rx_app_notification s @
         (if ds_okay datamover_sts then [rn_app_notificaion_reg2 s] else []),
       rn_fsm_state := READ_NOTIFY\<rparr>"

definition RxEngNotificaionHandler :: "RxNotify \<Rightarrow> RxNotify" where
  "RxEngNotificaionHandler s =
     (case rn_fsm_state s of
        READ_NOTIFY \<Rightarrow>
          (case rn_rx_eng_to_rx_app_notification_cache s of
             n # ns \<Rightarrow> notify_read n (s\<lparr>rn_rx_eng_to_rx_app_notification_cache := ns\<rparr>) | [] \<Rightarrow> s)
      | READ_STATUS_1 \<Rightarrow>
          (case (rn_mem_buffer_double_access_flag s, rn_mover_to_rx_eng_write_status s) of
             (flag # flags, sts # stss) \<Rightarrow>
               notify_status_1 flag sts
                 (s\<lparr>rn_mem_buffer_double_access_flag := flags, rn_mover_to_rx_eng_write_status := stss\<rparr>)
           | _ \<Rightarrow> s)
      | READ_STATUS_2 \<Rightarrow>
          (case rn_mover_to_rx_eng_write_status s of
             sts # stss \<Rightarrow> notify_status_2 sts (s\<lparr>rn_mover_to_rx_eng_write_status := stss\<rparr>) | [] \<Rightarrow> s))"

definition rx_notify_init :: RxNotify where
  "rx_notify_init =
     \<lparr>rn_fsm_state = READ_NOTIFY, rn_app_notificaion_reg1 = AppNotification_closed 0 False,
      rn_app_notificaion_reg2 = AppNotification_closed 0 False, rn_mover_to_rx_eng_write_status = [],
      rn_mem_buffer_double_access_flag = [], rn_rx_eng_to_rx_app_notification_cache = [],
      rn_rx_eng_to_rx_app_notification = []\<rparr>"

text \<open>\<open>RxEngEventMerger\<close>: events with their own tuple first; the others get the empty tuple.\<close>

fun RxEngEventMerger :: "EventWithTuple stream \<Rightarrow> Event stream \<Rightarrow> EventWithTuple stream
    \<Rightarrow> EventWithTuple stream \<times> Event stream \<times> EventWithTuple stream" where
  "RxEngEventMerger (e # in1) in2 out = (in1, in2, out @ [e])"
| "RxEngEventMerger [] (e # in2) out = ([], in2, out @ [EventWithTuple_of_event e])"
| "RxEngEventMerger [] [] out = ([], [], out)"

section \<open>Every payload gets its own verdict\<close>

text \<open>What becomes of the payload of one segment, and the flags that say so.\<close>

datatype Verdict =
    Bad_Checksum | No_Session (role: NetAXISDest) | Refused (role: NetAXISDest) | Delivered (role: NetAXISDest)

fun checksum_flags :: "Verdict \<Rightarrow> bool list" where
  "checksum_flags Bad_Checksum = [True]"
| "checksum_flags _ = [False]"

fun port_flags :: "Verdict \<Rightarrow> bool list" where
  "port_flags Bad_Checksum = []"
| "port_flags (No_Session d) = [True]"
| "port_flags _ = [False]"

fun dest_flags :: "Verdict \<Rightarrow> NetAXISDest list" where
  "dest_flags Bad_Checksum = []"
| "dest_flags v = [role v]"

fun fsm_flags :: "Verdict \<Rightarrow> bool list" where
  "fsm_flags (Refused d) = [True]"
| "fsm_flags (Delivered d) = [False]"
| "fsm_flags _ = []"

fun forwarded :: "Verdict \<Rightarrow> NetAXISWord list \<Rightarrow> NetAXISWord list" where
  "forwarded (Delivered d) ws = map (\<lambda>w. w\<lparr>nw_dest := d\<rparr>) ws"
| "forwarded _ ws = []"

text \<open>The words of one payload: the last one, and only it, is marked.\<close>

fun frame :: "NetAXISWord list \<Rightarrow> bool" where
  "frame [] = False"
| "frame (w # ws) = (if ws = [] then nw_last w else \<not> nw_last w \<and> frame ws)"

lemma dropper_words:
  "frame ws \<Longrightarrow> dp_fsm_state s = (if fwd then FWD else DROP) \<Longrightarrow> dp_tcp_payload_in s = ws @ rest \<Longrightarrow>
     (RxEngTcpPayloadDropper ^^ length ws) s = s\<lparr>dp_tcp_payload_in := rest, dp_fsm_state := RD_VERIFY_CHECKSUM,
       dp_tcp_payload_out := dp_tcp_payload_out s @
         (if fwd then map (\<lambda>w. w\<lparr>nw_dest := dp_tcp_payload_role_id s\<rparr>) ws else [])\<rparr>"
proof (induction ws arbitrary: s)
  case (Cons w ws)
  let ?t = "s\<lparr>dp_tcp_payload_in := ws @ rest, dp_tcp_payload_out := dp_tcp_payload_out s @
      (if fwd then [w\<lparr>nw_dest := dp_tcp_payload_role_id s\<rparr>] else []),
      dp_fsm_state := (if nw_last w then RD_VERIFY_CHECKSUM else dp_fsm_state s)\<rparr>"
  have step: "RxEngTcpPayloadDropper s = ?t"
    using Cons.prems(2,3) by (simp add: RxEngTcpPayloadDropper_def dropper_word_def)
  show ?case
  proof (cases "ws = []")
    case True
    then show ?thesis using Cons.prems(1) by (simp add: step)
  next
    case False
    then have w: "\<not> nw_last w" "frame ws" using Cons.prems(1) by simp_all
    have "(RxEngTcpPayloadDropper ^^ length ws) ?t = ?t\<lparr>dp_tcp_payload_in := rest, dp_fsm_state := RD_VERIFY_CHECKSUM,
       dp_tcp_payload_out := dp_tcp_payload_out ?t @
         (if fwd then map (\<lambda>w. w\<lparr>nw_dest := dp_tcp_payload_role_id ?t\<rparr>) ws else [])\<rparr>"
      by (rule Cons.IH) (use w Cons.prems(2) in simp_all)
    then show ?thesis by (simp only: length_Cons funpow_Suc_apply step) (use w in simp)
  qed
qed simp

text \<open>The flags of a verdict are read in one to three cycles, without touching the payload.\<close>

definition verdict_read :: "Verdict \<Rightarrow> RxDropper \<Rightarrow> RxDropper \<Rightarrow> bool" where
  "verdict_read v s t \<longleftrightarrow> dp_fsm_state t = (if (\<exists>d. v = Delivered d) then FWD else DROP) \<and>
     (\<forall>d. v = Delivered d \<longrightarrow> dp_tcp_payload_role_id t = d) \<and>
     dp_tcp_payload_in t = dp_tcp_payload_in s \<and> dp_tcp_payload_out t = dp_tcp_payload_out s"

definition flags_ahead :: "Verdict \<Rightarrow> RxDropper \<Rightarrow> RxDropper \<Rightarrow> bool" where
  "flags_ahead v t s \<longleftrightarrow>
     dp_dropped_by_checksum s = checksum_flags v @ dp_dropped_by_checksum t \<and>
     dp_dropped_by_port_or_session s = port_flags v @ dp_dropped_by_port_or_session t \<and>
     dp_tcp_payload_tdest s = dest_flags v @ dp_tcp_payload_tdest t \<and>
     dp_dropped_by_rx_fsm s = fsm_flags v @ dp_dropped_by_rx_fsm t"

lemma dropper_reads_verdict:
  assumes "dp_fsm_state s = RD_VERIFY_CHECKSUM"
    and "dp_dropped_by_checksum s = checksum_flags v @ cs" and "dp_dropped_by_port_or_session s = port_flags v @ ps"
    and "dp_tcp_payload_tdest s = dest_flags v @ ds" and "dp_dropped_by_rx_fsm s = fsm_flags v @ fs"
  shows "\<exists>n \<le> 3. let t = (RxEngTcpPayloadDropper ^^ n) s in verdict_read v s t \<and> flags_ahead v t s \<and>
     dp_dropped_by_checksum t = cs \<and> dp_dropped_by_port_or_session t = ps \<and> dp_tcp_payload_tdest t = ds \<and>
     dp_dropped_by_rx_fsm t = fs"
proof -
  have one: "RxEngTcpPayloadDropper s = s\<lparr>dp_dropped_by_checksum := cs,
      dp_fsm_state := (if v = Bad_Checksum then DROP else RD_META_HANDLER)\<rparr>"
    using assms(1,2) by (cases v) (simp_all add: RxEngTcpPayloadDropper_def dropper_verdict_def)
  have eval: "(RxEngTcpPayloadDropper ^^ 1) s = RxEngTcpPayloadDropper s"
    "(RxEngTcpPayloadDropper ^^ 2) s = RxEngTcpPayloadDropper (RxEngTcpPayloadDropper s)"
    "(RxEngTcpPayloadDropper ^^ 3) s = RxEngTcpPayloadDropper (RxEngTcpPayloadDropper (RxEngTcpPayloadDropper s))"
    by (simp_all add: eval_nat_numeral)
  show ?thesis
  proof (cases v)
    case Bad_Checksum
    then show ?thesis using assms one
      by (intro exI [of _ 1]) (simp add: eval verdict_read_def flags_ahead_def Let_def)
  next
    case (No_Session d)
    then show ?thesis using assms one
      by (intro exI [of _ 2])
        (simp add: eval verdict_read_def flags_ahead_def RxEngTcpPayloadDropper_def dropper_verdict_def Let_def)
  next
    case (Refused d)
    then show ?thesis using assms one
      by (intro exI [of _ 3])
        (simp add: eval verdict_read_def flags_ahead_def RxEngTcpPayloadDropper_def dropper_verdict_def Let_def)
  next
    case (Delivered d)
    then show ?thesis using assms one
      by (intro exI [of _ 3])
        (simp add: eval verdict_read_def flags_ahead_def RxEngTcpPayloadDropper_def dropper_verdict_def Let_def)
  qed
qed

lemma dropper_one_payload:
  assumes "dp_fsm_state s = RD_VERIFY_CHECKSUM" and "frame ws" and "dp_tcp_payload_in s = ws @ rest"
    and "dp_dropped_by_checksum s = checksum_flags v @ cs" and "dp_dropped_by_port_or_session s = port_flags v @ ps"
    and "dp_tcp_payload_tdest s = dest_flags v @ ds" and "dp_dropped_by_rx_fsm s = fsm_flags v @ fs"
  shows "\<exists>n \<le> 3 + length ws. let t = (RxEngTcpPayloadDropper ^^ n) s in dp_fsm_state t = RD_VERIFY_CHECKSUM \<and>
     dp_tcp_payload_in t = rest \<and> dp_tcp_payload_out t = dp_tcp_payload_out s @ forwarded v ws \<and>
     dp_dropped_by_checksum t = cs \<and> dp_dropped_by_port_or_session t = ps \<and> dp_tcp_payload_tdest t = ds \<and>
     dp_dropped_by_rx_fsm t = fs"
proof -
  obtain n t where n: "n \<le> 3" and t: "t = (RxEngTcpPayloadDropper ^^ n) s" "verdict_read v s t"
      "dp_dropped_by_checksum t = cs" "dp_dropped_by_port_or_session t = ps" "dp_tcp_payload_tdest t = ds"
      "dp_dropped_by_rx_fsm t = fs"
    using dropper_reads_verdict [OF assms(1,4-7)] by (auto simp: Let_def)
  have "(RxEngTcpPayloadDropper ^^ length ws) t = t\<lparr>dp_tcp_payload_in := rest, dp_fsm_state := RD_VERIFY_CHECKSUM,
      dp_tcp_payload_out := dp_tcp_payload_out t @
        (if \<exists>d. v = Delivered d then map (\<lambda>w. w\<lparr>nw_dest := dp_tcp_payload_role_id t\<rparr>) ws else [])\<rparr>"
    by (rule dropper_words [OF assms(2)]) (use t(2) assms(3) in \<open>simp_all add: verdict_read_def\<close>)
  moreover have "(if \<exists>d. v = Delivered d then map (\<lambda>w. w\<lparr>nw_dest := dp_tcp_payload_role_id t\<rparr>) ws else [])
      = forwarded v ws"
    using t(2) by (cases v) (auto simp: verdict_read_def)
  moreover have "(RxEngTcpPayloadDropper ^^ (length ws + n)) s = (RxEngTcpPayloadDropper ^^ length ws) t"
    by (simp add: funpow_add t(1))
  ultimately show ?thesis
    using t n by (intro exI [of _ "length ws + n"]) (simp add: verdict_read_def Let_def)
qed

text \<open>C23: Payloads and verdicts stay together: whatever sequence of payloads arrives, with the flags
  that the three checks write for each, exactly the payloads whose verdict is to deliver come out,
  whole, in order and addressed to their application; every flag is used up by its own payload.\<close>

theorem payloads_meet_their_verdicts:
  assumes "dp_fsm_state s = RD_VERIFY_CHECKSUM" and "\<forall>(v, ws) \<in> set xs. frame ws"
    and "dp_tcp_payload_in s = concat (map snd xs)"
    and "dp_dropped_by_checksum s = concat (map (\<lambda>x. checksum_flags (fst x)) xs)"
    and "dp_dropped_by_port_or_session s = concat (map (\<lambda>x. port_flags (fst x)) xs)"
    and "dp_tcp_payload_tdest s = concat (map (\<lambda>x. dest_flags (fst x)) xs)"
    and "dp_dropped_by_rx_fsm s = concat (map (\<lambda>x. fsm_flags (fst x)) xs)"
  shows "\<exists>n \<le> 3 * length xs + length (concat (map snd xs)). let t = (RxEngTcpPayloadDropper ^^ n) s in
     dp_fsm_state t = RD_VERIFY_CHECKSUM \<and> dp_tcp_payload_in t = [] \<and> dp_dropped_by_checksum t = [] \<and>
     dp_dropped_by_port_or_session t = [] \<and> dp_tcp_payload_tdest t = [] \<and> dp_dropped_by_rx_fsm t = [] \<and>
     dp_tcp_payload_out t = dp_tcp_payload_out s @ concat (map (\<lambda>(v, ws). forwarded v ws) xs)"
  using assms
proof (induction xs arbitrary: s)
  case (Cons x xs)
  obtain v ws where x: "x = (v, ws)" by (cases x)
  obtain n t where n: "n \<le> 3 + length ws" and t: "t = (RxEngTcpPayloadDropper ^^ n) s"
      "dp_fsm_state t = RD_VERIFY_CHECKSUM" "dp_tcp_payload_in t = concat (map snd xs)"
      "dp_tcp_payload_out t = dp_tcp_payload_out s @ forwarded v ws"
      "dp_dropped_by_checksum t = concat (map (\<lambda>x. checksum_flags (fst x)) xs)"
      "dp_dropped_by_port_or_session t = concat (map (\<lambda>x. port_flags (fst x)) xs)"
      "dp_tcp_payload_tdest t = concat (map (\<lambda>x. dest_flags (fst x)) xs)"
      "dp_dropped_by_rx_fsm t = concat (map (\<lambda>x. fsm_flags (fst x)) xs)"
    using dropper_one_payload [of s ws "concat (map snd xs)" v "concat (map (\<lambda>x. checksum_flags (fst x)) xs)"
        "concat (map (\<lambda>x. port_flags (fst x)) xs)" "concat (map (\<lambda>x. dest_flags (fst x)) xs)"
        "concat (map (\<lambda>x. fsm_flags (fst x)) xs)"] Cons.prems x by (auto simp: Let_def)
  obtain m u where m: "m \<le> 3 * length xs + length (concat (map snd xs))" and u: "u = (RxEngTcpPayloadDropper ^^ m) t"
      "dp_fsm_state u = RD_VERIFY_CHECKSUM" "dp_tcp_payload_in u = []" "dp_dropped_by_checksum u = []"
      "dp_dropped_by_port_or_session u = []" "dp_tcp_payload_tdest u = []" "dp_dropped_by_rx_fsm u = []"
      "dp_tcp_payload_out u = dp_tcp_payload_out t @ concat (map (\<lambda>(v, ws). forwarded v ws) xs)"
    using Cons.IH [of t] t Cons.prems(2) by (auto simp: Let_def)
  have "(RxEngTcpPayloadDropper ^^ (m + n)) s = u" by (simp add: funpow_add t(1) u(1))
  then show ?case
    using n m u t(4) x by (intro exI [of _ "m + n"]) (simp add: Let_def)
qed (simp add: Let_def)

theorem payloads_meet_their_verdicts_witness:
  "\<exists>n \<le> 8. dp_tcp_payload_out ((RxEngTcpPayloadDropper ^^ n)
     (rx_dropper_init\<lparr>dp_tcp_payload_in := [NetAXISWord_default\<lparr>nw_last := True\<rparr>, NetAXISWord_default\<lparr>nw_last := True\<rparr>],
        dp_dropped_by_checksum := [True, False], dp_dropped_by_port_or_session := [False],
        dp_tcp_payload_tdest := [3], dp_dropped_by_rx_fsm := [False]\<rparr>))
     = [NetAXISWord_default\<lparr>nw_last := True, nw_dest := 3\<rparr>]"
  using payloads_meet_their_verdicts [of "rx_dropper_init\<lparr>dp_tcp_payload_in := [NetAXISWord_default\<lparr>nw_last := True\<rparr>,
      NetAXISWord_default\<lparr>nw_last := True\<rparr>], dp_dropped_by_checksum := [True, False],
      dp_dropped_by_port_or_session := [False], dp_tcp_payload_tdest := [3], dp_dropped_by_rx_fsm := [False]\<rparr>"
      "[(Bad_Checksum, [NetAXISWord_default\<lparr>nw_last := True\<rparr>]), (Delivered 3, [NetAXISWord_default\<lparr>nw_last := True\<rparr>])]"]
  by (auto simp: rx_dropper_init_def NetAXISWord_default_def Let_def)

section \<open>Notifications wait for their data\<close>

interpretation notify: write_status RxEngNotificaionHandler "\<lambda>s. rn_fsm_state s = READ_NOTIFY"
    rn_rx_eng_to_rx_app_notification_cache rn_mem_buffer_double_access_flag rn_mover_to_rx_eng_write_status
    rn_rx_eng_to_rx_app_notification "\<lambda>n. an_length n \<noteq> 0" "\<lambda>n. [n]"
  by unfold_locales
    (simp_all add: RxEngNotificaionHandler_def notify_read_def notify_status_1_def notify_status_2_def)

text \<open>The application hears of received data exactly when all of it is in memory: for a sequence of
  notifications with the outcomes of their writes, those without data and those whose statuses are
  all good come out, in order, and each reads its own flag and statuses, provided no first half of a
  split write fails.\<close>

theorem notifications_follow_their_writes:
  assumes "rn_fsm_state s = READ_NOTIFY" and "\<forall>(n, w) \<in> set xs. an_length n \<noteq> 0 \<longrightarrow> \<not> first_half_fails w"
    and "rn_rx_eng_to_rx_app_notification_cache s = map fst xs"
    and "rn_mem_buffer_double_access_flag s = concat (map (\<lambda>(n, w). if an_length n \<noteq> 0 then [write_split w] else []) xs)"
    and "rn_mover_to_rx_eng_write_status s = concat (map (\<lambda>(n, w). if an_length n \<noteq> 0 then write_statuses w else []) xs)"
  shows "\<exists>k \<le> 3 * length xs. let t = (RxEngNotificaionHandler ^^ k) s in rn_fsm_state t = READ_NOTIFY \<and>
     rn_rx_eng_to_rx_app_notification_cache t = [] \<and> rn_mem_buffer_double_access_flag t = [] \<and>
     rn_mover_to_rx_eng_write_status t = [] \<and>
     rn_rx_eng_to_rx_app_notification t = rn_rx_eng_to_rx_app_notification s @
       concat (map (\<lambda>(n, w). if an_length n \<noteq> 0 \<longrightarrow> write_ok w then [n] else []) xs)"
  using notify.serve_all [OF assms(1,2,3), folded notify.all_flags_def notify.all_statuses_def] assms(4,5)
    notify.cycles_bound [of xs]
  unfolding notify.all_flags_def notify.all_statuses_def notify.all_out_def by blast

theorem notifications_follow_their_writes_witness:
  "\<exists>k \<le> 6. rn_rx_eng_to_rx_app_notification ((RxEngNotificaionHandler ^^ k)
     (rx_notify_init\<lparr>rn_rx_eng_to_rx_app_notification_cache := [AppNotification_data 1 9 0 0 False, AppNotification_data 2 9 0 0 False],
        rn_mem_buffer_double_access_flag := [True, False],
        rn_mover_to_rx_eng_write_status := [good_status, bad_status, good_status]\<rparr>)) = [AppNotification_data 2 9 0 0 False]"
  using notifications_follow_their_writes [of "rx_notify_init\<lparr>rn_rx_eng_to_rx_app_notification_cache :=
        [AppNotification_data 1 9 0 0 False, AppNotification_data 2 9 0 0 False], rn_mem_buffer_double_access_flag := [True, False],
        rn_mover_to_rx_eng_write_status := [good_status, bad_status, good_status]\<rparr>"
      "[(AppNotification_data 1 9 0 0 False, Split good_status bad_status), (AppNotification_data 2 9 0 0 False, Whole good_status)]"]
  by (auto simp: rx_notify_init_def AppNotification_data_def Let_def)

text \<open>When the first half of a split write fails, its second status stays in the stream and is taken
  for that of the next write: a notification is sent although the status of its own data is bad.\<close>

theorem failed_split_write_misleads_next:
  assumes "rn_fsm_state s = READ_NOTIFY" and "rn_rx_eng_to_rx_app_notification_cache s = [n1, n2]"
    and "an_length n1 \<noteq> 0" and "an_length n2 \<noteq> 0" and "rn_mem_buffer_double_access_flag s = [True, False]"
    and "rn_mover_to_rx_eng_write_status s = [a1, a2, b]" and "\<not> ds_okay a1" and "ds_okay a2"
  shows "let t = (RxEngNotificaionHandler ^^ 4) s in
     rn_rx_eng_to_rx_app_notification t = rn_rx_eng_to_rx_app_notification s @ [n2] \<and>
     rn_mover_to_rx_eng_write_status t = [b]"
  using notify.misled [OF assms] .

theorem failed_split_write_misleads_next_witness:
  "rn_rx_eng_to_rx_app_notification ((RxEngNotificaionHandler ^^ 4)
     (rx_notify_init\<lparr>rn_rx_eng_to_rx_app_notification_cache := [AppNotification_data 1 9 0 0 False, AppNotification_data 2 9 0 0 False],
        rn_mem_buffer_double_access_flag := [True, False],
        rn_mover_to_rx_eng_write_status := [bad_status, good_status, bad_status]\<rparr>)) = [AppNotification_data 2 9 0 0 False]"
  using failed_split_write_misleads_next [of "rx_notify_init\<lparr>rn_rx_eng_to_rx_app_notification_cache :=
        [AppNotification_data 1 9 0 0 False, AppNotification_data 2 9 0 0 False], rn_mem_buffer_double_access_flag := [True, False],
        rn_mover_to_rx_eng_write_status := [bad_status, good_status, bad_status]\<rparr>"
      "AppNotification_data 1 9 0 0 False" "AppNotification_data 2 9 0 0 False" bad_status good_status bad_status]
  by (simp add: rx_notify_init_def AppNotification_data_def Let_def)

end
