(* ===== verification/App_Types.thy ===== *)
theory App_Types
  imports Toe_Types
begin

text \<open>
  The structs of \<open>toe_conn.hpp\<close> that cross the interfaces to the network applications.  The
  conversions to and from \<open>hls::axis\<close> copy every field, so one record stands for both sides.
\<close>

section \<open>Connections\<close>

record OpenConnTuple =
  ot_my_ip_addr :: IpAddr
  ot_ip_addr :: IpAddr
  ot_tcp_port :: TcpPortNumber

record AppOpenConnReq =
  oq_data :: OpenConnTuple
  oq_dest :: NetAXISDest

record AppOpenConnRsp =
  or_data :: OpenConnRspNoTDEST
  or_dest :: NetAXISDest

record NewClientNotificationNoTDEST =
  nc_session_id :: TcpSessionID
  nc_buffersize :: "8 word"
  nc_max_segment_size :: "11 word"
  nc_tcp_nodelay :: bool
  nc_tcp_buffer_is_empty :: bool

record NewClientNotification =
  nn_data :: NewClientNotificationNoTDEST
  nn_dest :: NetAXISDest

record AppCloseConnReq =
  ac_data :: TcpSessionID
  ac_dest :: NetAXISDest

section \<open>Data\<close>

record AppTransDataReq =
  tq_data :: TcpSessionBuffer
  tq_id :: TcpSessionID
  tq_dest :: NetAXISDest

datatype TxAppTransDataError = NO_ERROR | ERROR_NOCONNECTION | ERROR_NOSPACE | ERROR_WINDOW

record AppTransDataRspNoTDEST =
  tp_error :: TxAppTransDataError
  tp_remaining_space :: TcpSessionBuffer
  tp_length :: "16 word"

record AppTransDataRsp =
  tr_data :: AppTransDataRspNoTDEST
  tr_dest :: NetAXISDest

record AppReadReqNoTEST =
  aq_session_id :: TcpSessionID
  aq_read_length :: "16 word"

record AppReadReq =
  ar_data :: AppReadReqNoTEST
  ar_dest :: NetAXISDest

record AppReadRsp =
  ap_data :: TcpSessionID
  ap_dest :: NetAXISDest

record AppNotification =
  ap_notify :: AppNotificationNoTDEST
  ap_notify_dest :: NetAXISDest

end
