(* ===== verification/Rx_Fsm.thy ===== *)
theory Rx_Fsm
  imports Rx_Meta App_Types
begin

text \<open>
  \<open>RxEngTcpFsm\<close> of \<open>rx_engine/rx_engine.cpp\<close>: the TCP state machine of the receive side.  It loads a
  segment, asks the state table and the two SAR tables for its session, and when all answers are
  there carries out one transition.  One definition per case of the source; \<open>transition\<close> dispatches
  on the control bits ACK, SYN, FIN and RST as \<open>rx_eng_ctrl_bits\<close> does.
\<close>

section \<open>State\<close>

datatype RxEngTcpFsmState = LOAD | TRANSITION

record RxFsm =
  rf_fsm_state :: RxEngTcpFsmState
  rf_tcp_rx_meta_reg :: RxEngFsmMetaData
  rf_rx_eng_sent_tx_sar_req :: bool
  rf_rx_eng_ctrl_bits :: "4 word"
  rf_session_state_reg :: SessionState
  rf_rx_sar_reg :: RxSarTableEntry
  rf_tx_sar_reg :: TxSarToRxEngRsp
  rf_rx_eng_fsm_meta_data_in :: "RxEngFsmMetaData stream"
  rf_rx_eng_to_rx_sar_req :: "RxEngToRxSarReq stream"
  rf_rx_sar_to_rx_eng_rsp :: "RxSarTableEntry stream"
  rf_rx_eng_to_tx_sar_req :: "RxEngToTxSarReq stream"
  rf_tx_sar_to_rx_eng_rsp :: "TxSarToRxEngRsp stream"
  rf_rx_eng_to_sttable_req :: "StateTableReq stream"
  rf_sttable_to_rx_eng_rsp :: "SessionState stream"
  rf_rx_eng_to_timer_set_ctimer :: "TcpSessionID stream"
  rf_rx_eng_to_timer_clear_rtimer :: "RxEngToRetransTimerReq stream"
  rf_rx_eng_to_timer_clear_ptimer :: "TcpSessionID stream"
  rf_set_event :: "Event stream"
  rf_rx_eng_to_tx_app_notification :: "OpenConnRspNoTDEST stream"
  rf_rx_eng_to_tx_app_new_client_notification :: "NewClientNotificationNoTDEST stream"
  rf_rx_eng_to_rx_app_notification :: "AppNotificationNoTDEST stream"
  rf_rx_eng_to_mem_cmd :: "MemBufferRWCmd stream"
  rf_tcp_payload_dropped_by_rx_fsm :: "bool stream"

abbreviation fsm_sid :: "RxFsm \<Rightarrow> TcpSessionID" where "fsm_sid s \<equiv> fm_session_id (rf_tcp_rx_meta_reg s)"

abbreviation fsm_header :: "RxFsm \<Rightarrow> TcpHeaderMeta" where "fsm_header s \<equiv> fm_header (rf_tcp_rx_meta_reg s)"

section \<open>Loading a segment\<close>

definition ctrl_bits :: "TcpHeaderMeta \<Rightarrow> 4 word" where
  "ctrl_bits h = put_range 3 (of_bool (th_rst h) :: 1 word) (put_range 2 (of_bool (th_fin h) :: 1 word)
     (put_range 1 (of_bool (th_syn h) :: 1 word) (put_range 0 (of_bool (th_ack h) :: 1 word) 0)))"

definition fsm_load :: "RxEngFsmMetaData \<Rightarrow> RxFsm \<Rightarrow> RxFsm" where
  "fsm_load meta s =
     s\<lparr>rf_tcp_rx_meta_reg := meta,
       rf_rx_eng_to_sttable_req := rf_rx_eng_to_sttable_req s @ [StateTableReq_read (fm_session_id meta)],
       rf_rx_eng_to_rx_sar_req := rf_rx_eng_to_rx_sar_req s @ [RxEngToRxSarReq_read (fm_session_id meta)],
       rf_rx_eng_to_tx_sar_req := rf_rx_eng_to_tx_sar_req s @
         (if th_ack (fm_header meta) then [RxEngToTxSarReq_read (fm_session_id meta)] else []),
       rf_rx_eng_sent_tx_sar_req := (th_ack (fm_header meta) \<or> rf_rx_eng_sent_tx_sar_req s),
       rf_rx_eng_ctrl_bits := ctrl_bits (fm_header meta),
       rf_fsm_state := TRANSITION\<rparr>"

definition fsm_responses_ready :: "RxFsm \<Rightarrow> bool" where
  "fsm_responses_ready s \<longleftrightarrow> rf_sttable_to_rx_eng_rsp s \<noteq> [] \<and> rf_rx_sar_to_rx_eng_rsp s \<noteq> [] \<and>
     \<not> (rf_rx_eng_sent_tx_sar_req s \<and> rf_tx_sar_to_rx_eng_rsp s = [])"

definition fsm_read_responses :: "RxFsm \<Rightarrow> RxFsm" where
  "fsm_read_responses s =
     (if rf_rx_eng_sent_tx_sar_req s then
        s\<lparr>rf_tx_sar_reg := hd (rf_tx_sar_to_rx_eng_rsp s), rf_tx_sar_to_rx_eng_rsp := tl (rf_tx_sar_to_rx_eng_rsp s)\<rparr>
      else s)
     \<lparr>rf_session_state_reg := hd (rf_sttable_to_rx_eng_rsp s),
      rf_sttable_to_rx_eng_rsp := tl (rf_sttable_to_rx_eng_rsp s),
      rf_rx_sar_reg := hd (rf_rx_sar_to_rx_eng_rsp s),
      rf_rx_sar_to_rx_eng_rsp := tl (rf_rx_sar_to_rx_eng_rsp s),
      rf_rx_eng_sent_tx_sar_req := False,
      rf_fsm_state := LOAD\<rparr>"

section \<open>The writes of a transition\<close>

definition write_sttable :: "SessionState \<Rightarrow> RxFsm \<Rightarrow> RxFsm" where
  "write_sttable st s = s\<lparr>rf_rx_eng_to_sttable_req := rf_rx_eng_to_sttable_req s @
     [StateTableReq_write (fsm_sid s) st]\<rparr>"

definition write_event :: "Event \<Rightarrow> RxFsm \<Rightarrow> RxFsm" where
  "write_event ev s = s\<lparr>rf_set_event := rf_set_event s @ [ev]\<rparr>"

definition write_clear_rtimer :: "bool \<Rightarrow> RxFsm \<Rightarrow> RxFsm" where
  "write_clear_rtimer stop s = s\<lparr>rf_rx_eng_to_timer_clear_rtimer := rf_rx_eng_to_timer_clear_rtimer s @
     [\<lparr>rr_session_id = fsm_sid s, rr_stop = stop\<rparr>]\<rparr>"

definition write_clear_ptimer :: "RxFsm \<Rightarrow> RxFsm" where
  "write_clear_ptimer s =
     s\<lparr>rf_rx_eng_to_timer_clear_ptimer := rf_rx_eng_to_timer_clear_ptimer s @ [fsm_sid s]\<rparr>"

definition write_set_ctimer :: "RxFsm \<Rightarrow> RxFsm" where
  "write_set_ctimer s = s\<lparr>rf_rx_eng_to_timer_set_ctimer := rf_rx_eng_to_timer_set_ctimer s @ [fsm_sid s]\<rparr>"

definition write_tx_sar :: "RxEngToTxSarReq \<Rightarrow> RxFsm \<Rightarrow> RxFsm" where
  "write_tx_sar req s = s\<lparr>rf_rx_eng_to_tx_sar_req := rf_rx_eng_to_tx_sar_req s @ [req]\<rparr>"

definition write_rx_sar :: "RxEngToRxSarReq \<Rightarrow> RxFsm \<Rightarrow> RxFsm" where
  "write_rx_sar req s = s\<lparr>rf_rx_eng_to_rx_sar_req := rf_rx_eng_to_rx_sar_req s @ [req]\<rparr>"

definition write_notification :: "AppNotificationNoTDEST \<Rightarrow> RxFsm \<Rightarrow> RxFsm" where
  "write_notification n s = s\<lparr>rf_rx_eng_to_rx_app_notification := rf_rx_eng_to_rx_app_notification s @ [n]\<rparr>"

definition write_open_conn :: "bool \<Rightarrow> RxFsm \<Rightarrow> RxFsm" where
  "write_open_conn success s = s\<lparr>rf_rx_eng_to_tx_app_notification := rf_rx_eng_to_tx_app_notification s @
     [\<lparr>oc_session_id = fsm_sid s, oc_success = success\<rparr>]\<rparr>"

definition write_payload_dropped :: "bool \<Rightarrow> RxFsm \<Rightarrow> RxFsm" where
  "write_payload_dropped drop_it s =
     s\<lparr>rf_tcp_payload_dropped_by_rx_fsm := rf_tcp_payload_dropped_by_rx_fsm s @ [drop_it]\<rparr>"

text \<open>The payload goes to the position of its sequence number in the receive buffer of the session.\<close>

definition write_mem_cmd :: "RxFsm \<Rightarrow> RxFsm" where
  "write_mem_cmd s = s\<lparr>rf_rx_eng_to_mem_cmd := rf_rx_eng_to_mem_cmd s @
     [MemBufferRWCmd_new (GetSessionMemAddr True (fsm_sid s) (ucast (th_seq_number (fsm_header s))))
        (th_payload_length (fsm_header s))]\<rparr>"

definition ack_expected :: "RxFsm \<Rightarrow> bool" where
  "ack_expected s \<longleftrightarrow> th_ack_number (fsm_header s) = trr_next_byte (rf_tx_sar_reg s)"

section \<open>ACK\<close>

text \<open>Slow start below the threshold, then one byte per acknowledgment.\<close>

definition grow_cong_window :: "TxSarToRxEngRsp \<Rightarrow> TcpSessionBuffer" where
  "grow_cong_window tx =
     (if uint (trr_cong_window tx) \<le> uint (trr_slowstart_threshold tx) - TCP_MSS then
        trr_cong_window tx + word_of_int TCP_MSS
      else if uint (trr_cong_window tx) \<le> CONGESTION_WINDOW_MAX then trr_cong_window tx + 1
      else trr_cong_window tx)"

definition ack_is_old :: "RxFsm \<Rightarrow> bool" where
  "ack_is_old s \<longleftrightarrow> th_ack_number (fsm_header s) = trr_perv_ack (rf_tx_sar_reg s) \<and>
     trr_perv_ack (rf_tx_sar_reg s) \<noteq> trr_next_byte (rf_tx_sar_reg s)"

definition ack_congestion :: "RxFsm \<Rightarrow> RxFsm" where
  "ack_congestion s =
     (let tx = rf_tx_sar_reg s in
      if ack_is_old s then
        (if th_payload_length (fsm_header s) = 0 then
           s\<lparr>rf_tx_sar_reg := tx\<lparr>trr_retrans_count := trr_retrans_count tx + 1\<rparr>\<rparr>
         else s)
      else (write_clear_ptimer s)
        \<lparr>rf_tx_sar_reg := tx\<lparr>trr_cong_window := grow_cong_window tx, trr_retrans_count := 0,
           trr_fast_retrans := False\<rparr>\<rparr>)"

definition ack_in_range :: "RxFsm \<Rightarrow> bool" where
  "ack_in_range s \<longleftrightarrow>
     (let ack = th_ack_number (fsm_header s); perv_ack = trr_perv_ack (rf_tx_sar_reg s);
          next_byte = trr_next_byte (rf_tx_sar_reg s) in
      (perv_ack \<le> ack \<and> ack \<le> next_byte) \<or>
      ((perv_ack \<le> ack \<or> ack \<le> next_byte) \<and> next_byte < perv_ack))"

definition ack_tx_sar :: "RxFsm \<Rightarrow> RxFsm" where
  "ack_tx_sar s =
     (let tx = rf_tx_sar_reg s in
      write_tx_sar
        (RxEngToTxSarReq_update (fsm_sid s) (th_ack_number (fsm_header s)) (th_win_size (fsm_header s))
           (trr_cong_window tx) (trr_retrans_count tx) (trr_retrans_count tx = 3 \<or> trr_fast_retrans tx)
           (trr_win_shift tx)) s)"

definition free_space :: "RxSarTableEntry \<Rightarrow> TcpSessionBuffer" where
  "free_space rx = rxe_app_read rx - get_range 0 (rxe_recvd rx) - 1"

definition segment_fits :: "RxFsm \<Rightarrow> bool" where
  "segment_fits s \<longleftrightarrow> th_seq_number (fsm_header s) = rxe_recvd (rf_rx_sar_reg s) \<and>
     unat (th_payload_length (fsm_header s)) < unat (free_space (rf_rx_sar_reg s))"

definition ack_payload :: "RxFsm \<Rightarrow> RxFsm" where
  "ack_payload s =
     (let h = fsm_header s; meta = rf_tcp_rx_meta_reg s in
      if th_payload_length h = 0 then s
      else if segment_fits s then
        write_payload_dropped False
          (write_notification (AppNotification_data (fsm_sid s) (th_payload_length h) (fm_src_ip meta)
               (fm_dst_port meta) False)
            (write_mem_cmd
              (write_rx_sar (RxEngToRxSarReq_write (fsm_sid s) (th_seq_number h + ucast (th_payload_length h))) s)))
      else write_payload_dropped True s)"

definition ack_event :: "RxFsm \<Rightarrow> RxFsm" where
  "ack_event s =
     (let tx = rf_tx_sar_reg s in
      if th_payload_length (fsm_header s) \<noteq> 0 then
        write_event (if trr_retrans_count tx = 3 \<and> \<not> trr_fast_retrans tx
                     then Event_basic RT (fsm_sid s) else Event_basic ACK (fsm_sid s)) s
      else s)"

definition ack_state :: "RxFsm \<Rightarrow> RxFsm" where
  "ack_state s =
     (if ack_expected s then
        (case rf_session_state_reg s of
           SYN_RECEIVED \<Rightarrow>
             write_sttable ESTABLISHED
               (s\<lparr>rf_rx_eng_to_tx_app_new_client_notification := rf_rx_eng_to_tx_app_new_client_notification s @
                   [\<lparr>nc_session_id = fsm_sid s, nc_buffersize = 0, nc_max_segment_size = 1460,
                     nc_tcp_nodelay = False, nc_tcp_buffer_is_empty = True\<rparr>]\<rparr>)
         | CLOSING \<Rightarrow> write_sttable TIME_WAIT (write_set_ctimer s)
         | LAST_ACK \<Rightarrow> write_sttable CLOSED s
         | st \<Rightarrow> write_sttable st s)
      else write_sttable (rf_session_state_reg s) s)"

definition ack_accepted :: "SessionState \<Rightarrow> bool" where
  "ack_accepted st \<longleftrightarrow> st = ESTABLISHED \<or> st = SYN_RECEIVED \<or> st = FIN_WAIT_1 \<or> st = CLOSING \<or> st = LAST_ACK"

definition ack_refused :: "RxFsm \<Rightarrow> RxFsm" where
  "ack_refused s =
     (let h = fsm_header s;
          reset = write_event (RstEvent_seq (fsm_sid s) (th_seq_number h + ucast (th_payload_length h)) True) s in
      write_sttable (rf_session_state_reg s)
        (if th_payload_length h \<noteq> 0 then write_payload_dropped True reset else reset))"

definition fsm_ack :: "RxFsm \<Rightarrow> RxFsm" where
  "fsm_ack s =
     (let s = write_clear_rtimer (ack_expected s) s in
      if ack_accepted (rf_session_state_reg s) then
        (let s = ack_congestion s in
         if ack_in_range s then ack_state (ack_event (ack_payload (ack_tx_sar s))) else s)
      else ack_refused s)"

section \<open>SYN\<close>

definition rx_win_scale :: "TcpHeaderMeta \<Rightarrow> 4 word" where
  "rx_win_scale h = (if th_win_scale h = 0 then 0 else 2)"

text \<open>The comparison with \<open>recvd\<close> is between 33 and 32 bits: \<open>seq_number + 1\<close> does not wrap there.\<close>

definition fsm_syn :: "RxFsm \<Rightarrow> RxFsm" where
  "fsm_syn s =
     (let h = fsm_header s; st = rf_session_state_reg s in
      if st = CLOSED \<or> st = SYN_SENT then
        write_event (Event_basic SYN_ACK (fsm_sid s)) (write_sttable SYN_RECEIVED
          (write_tx_sar (RxEngToTxSarReq_update_shift (fsm_sid s) 0 (th_win_size h)
               (trr_cong_window (rf_tx_sar_reg s)) 0 False True (rx_win_scale h))
            (write_rx_sar (RxEngToRxSarReq_init (fsm_sid s) (th_seq_number h + 1) (ucast (rx_win_scale h))) s)))
      else if st = SYN_RECEIVED then
        (if uint (th_seq_number h) + 1 = uint (rxe_recvd (rf_rx_sar_reg s)) then
           write_event (Event_retrans SYN_ACK (fsm_sid s) 1) (write_sttable st s)
         else write_event (RstEvent_seq (fsm_sid s) (th_seq_number h + 1) True) (write_sttable CLOSED s))
      else write_event (Event_basic ACK_NODELAY (fsm_sid s)) (write_sttable st s))"

section \<open>SYN and ACK\<close>

definition fsm_syn_ack :: "RxFsm \<Rightarrow> RxFsm" where
  "fsm_syn_ack s0 =
     (let s = write_clear_rtimer (ack_expected s0) s0; h = fsm_header s; st = rf_session_state_reg s in
      if st = SYN_SENT then
        (if ack_expected s then
           write_event (Event_basic ACK_NODELAY (fsm_sid s)) (write_sttable ESTABLISHED (write_open_conn True
             (write_tx_sar (RxEngToTxSarReq_update_shift (fsm_sid s) (th_ack_number h) (th_win_size h)
                  (trr_cong_window (rf_tx_sar_reg s)) 0 False True (ucast (th_win_scale h)))
               (write_rx_sar (RxEngToRxSarReq_init (fsm_sid s) (th_seq_number h + 1) (ucast (rx_win_scale h))) s))))
         else
           write_event (RstEvent_seq (fsm_sid s) (th_seq_number h + ucast (th_payload_length h) + 1) True)
             (write_sttable CLOSED s))
      else write_event (Event_basic ACK_NODELAY (fsm_sid s)) (write_sttable st s))"

section \<open>FIN and ACK\<close>

definition fin_accepted :: "RxFsm \<Rightarrow> bool" where
  "fin_accepted s \<longleftrightarrow>
     (rf_session_state_reg s = ESTABLISHED \<or> rf_session_state_reg s = FIN_WAIT_1 \<or>
      rf_session_state_reg s = FIN_WAIT_2) \<and>
     rxe_recvd (rf_rx_sar_reg s) = th_seq_number (fsm_header s)"

text \<open>\<open>u\<close> is what the uninitialised local \<open>tx_win_scale\<close> holds.\<close>

definition fin_tables :: "4 word \<Rightarrow> RxFsm \<Rightarrow> RxFsm" where
  "fin_tables u s =
     (let h = fsm_header s; tx = rf_tx_sar_reg s in
      write_clear_ptimer
        (write_rx_sar (RxEngToRxSarReq_write (fsm_sid s) (th_seq_number h + ucast (th_payload_length h) + 1))
          (write_tx_sar (RxEngToTxSarReq_update (fsm_sid s) (th_ack_number h) (th_win_size h) (trr_cong_window tx)
               (trr_retrans_count tx) (trr_fast_retrans tx) (ucast u)) s)))"

definition fin_payload :: "RxFsm \<Rightarrow> RxFsm" where
  "fin_payload s =
     (let h = fsm_header s; meta = rf_tcp_rx_meta_reg s in
      if th_payload_length h \<noteq> 0 then
        write_payload_dropped False
          (write_notification (AppNotification_data (fsm_sid s) (th_payload_length h) (fm_src_ip meta)
               (fm_dst_port meta) True) (write_mem_cmd s))
      else if rf_session_state_reg s = ESTABLISHED then
        write_notification (AppNotification_data (fsm_sid s) 0 (fm_src_ip meta) (fm_dst_port meta) True) s
      else s)"

definition fin_state :: "RxFsm \<Rightarrow> RxFsm" where
  "fin_state s =
     (if rf_session_state_reg s = ESTABLISHED then
        write_event (Event_basic FIN (fsm_sid s)) (write_sttable LAST_ACK s)
      else if ack_expected s then
        write_event (Event_basic ACK (fsm_sid s)) (write_sttable TIME_WAIT (write_set_ctimer s))
      else write_event (Event_basic ACK (fsm_sid s)) (write_sttable CLOSING s))"

definition fin_refused :: "RxFsm \<Rightarrow> RxFsm" where
  "fin_refused s =
     write_event (Event_basic ACK (fsm_sid s)) (write_sttable (rf_session_state_reg s)
       (if th_payload_length (fsm_header s) \<noteq> 0 then write_payload_dropped True s else s))"

definition fsm_fin_ack :: "4 word \<Rightarrow> RxFsm \<Rightarrow> RxFsm" where
  "fsm_fin_ack u s =
     (let s = write_clear_rtimer (ack_expected s) s in
      if fin_accepted s then fin_state (fin_payload (fin_tables u s)) else fin_refused s)"

section \<open>RST and anything else\<close>

definition fsm_other :: "RxFsm \<Rightarrow> RxFsm" where
  "fsm_other s =
     (let meta = rf_tcp_rx_meta_reg s; h = fsm_header s; st = rf_session_state_reg s in
      if th_rst h then
        (if st = SYN_SENT then
           (if ack_expected s then
              write_sttable CLOSED (write_clear_rtimer True (write_open_conn False s))
            else write_sttable st s)
         else if th_seq_number h = rxe_recvd (rf_rx_sar_reg s) then
           write_sttable CLOSED (write_clear_rtimer True
             (write_notification (AppNotification_data (fsm_sid s) 0 (fm_src_ip meta) (fm_dst_port meta) True) s))
         else write_sttable st s)
      else write_sttable st s)"

section \<open>The process\<close>

definition transition :: "4 word \<Rightarrow> RxFsm \<Rightarrow> RxFsm" where
  "transition u s =
     (if rf_rx_eng_ctrl_bits s = 1 then fsm_ack s
      else if rf_rx_eng_ctrl_bits s = 2 then fsm_syn s
      else if rf_rx_eng_ctrl_bits s = 3 then fsm_syn_ack s
      else if rf_rx_eng_ctrl_bits s = 5 then fsm_fin_ack u s
      else fsm_other s)"

definition RxEngTcpFsm :: "4 word \<Rightarrow> RxFsm \<Rightarrow> RxFsm" where
  "RxEngTcpFsm u s =
     (case rf_fsm_state s of
        LOAD \<Rightarrow>
          (case rf_rx_eng_fsm_meta_data_in s of
             meta # rest \<Rightarrow> fsm_load meta (s\<lparr>rf_rx_eng_fsm_meta_data_in := rest\<rparr>) | [] \<Rightarrow> s)
      | TRANSITION \<Rightarrow>
          (if fsm_responses_ready s then transition u (fsm_read_responses s) else s))"

definition rx_fsm_init :: RxFsm where
  "rx_fsm_init =
     \<lparr>rf_fsm_state = LOAD,
      rf_tcp_rx_meta_reg = \<lparr>fm_session_id = 0, fm_src_ip = 0, fm_dst_port = 0, fm_header = TcpHeaderMeta_default, fm_role_id = 0\<rparr>,
      rf_rx_eng_sent_tx_sar_req = False, rf_rx_eng_ctrl_bits = 0, rf_session_state_reg = CLOSED,
      rf_rx_sar_reg = \<lparr>rxe_recvd = 0, rxe_app_read = 0, rxe_win_shift = 0\<rparr>,
      rf_tx_sar_reg = \<lparr>trr_perv_ack = 0, trr_next_byte = 0, trr_cong_window = 0, trr_slowstart_threshold = 0,
        trr_retrans_count = 0, trr_fast_retrans = False, trr_win_shift = 0\<rparr>,
      rf_rx_eng_fsm_meta_data_in = [], rf_rx_eng_to_rx_sar_req = [], rf_rx_sar_to_rx_eng_rsp = [],
      rf_rx_eng_to_tx_sar_req = [], rf_tx_sar_to_rx_eng_rsp = [], rf_rx_eng_to_sttable_req = [],
      rf_sttable_to_rx_eng_rsp = [], rf_rx_eng_to_timer_set_ctimer = [], rf_rx_eng_to_timer_clear_rtimer = [],
      rf_rx_eng_to_timer_clear_ptimer = [], rf_set_event = [], rf_rx_eng_to_tx_app_notification = [],
      rf_rx_eng_to_tx_app_new_client_notification = [], rf_rx_eng_to_rx_app_notification = [],
      rf_rx_eng_to_mem_cmd = [], rf_tcp_payload_dropped_by_rx_fsm = []\<rparr>"

section \<open>The control bits\<close>

lemma ctrl_bits_cases:
  "ctrl_bits h = 1 \<longleftrightarrow> th_ack h \<and> \<not> th_syn h \<and> \<not> th_fin h \<and> \<not> th_rst h"
  "ctrl_bits h = 2 \<longleftrightarrow> \<not> th_ack h \<and> th_syn h \<and> \<not> th_fin h \<and> \<not> th_rst h"
  "ctrl_bits h = 3 \<longleftrightarrow> th_ack h \<and> th_syn h \<and> \<not> th_fin h \<and> \<not> th_rst h"
  "ctrl_bits h = 5 \<longleftrightarrow> th_ack h \<and> \<not> th_syn h \<and> th_fin h \<and> \<not> th_rst h"
  by (cases "th_ack h"; cases "th_syn h"; cases "th_fin h"; cases "th_rst h"; simp add: ctrl_bits_def put_range_def mask_eq_decr_exp)+

text \<open>Between two cycles the environment delivers segments and answers and takes what was written; it
  does not touch the statics.  In every state of such a run the control bits are those of the
  segment at hand, and no answer of the transmit table is awaited between segments.\<close>

definition fsm_env :: "RxFsm \<Rightarrow> RxFsm \<Rightarrow> bool" where
  "fsm_env s t \<longleftrightarrow> rf_fsm_state t = rf_fsm_state s \<and> rf_tcp_rx_meta_reg t = rf_tcp_rx_meta_reg s \<and>
     rf_rx_eng_sent_tx_sar_req t = rf_rx_eng_sent_tx_sar_req s \<and> rf_rx_eng_ctrl_bits t = rf_rx_eng_ctrl_bits s \<and>
     rf_session_state_reg t = rf_session_state_reg s \<and> rf_rx_sar_reg t = rf_rx_sar_reg s \<and>
     rf_tx_sar_reg t = rf_tx_sar_reg s"

definition fsm_inv :: "RxFsm \<Rightarrow> bool" where
  "fsm_inv s \<longleftrightarrow> rf_rx_eng_ctrl_bits s = ctrl_bits (fsm_header s) \<and>
     rf_rx_eng_sent_tx_sar_req s = (rf_fsm_state s = TRANSITION \<and> th_ack (fsm_header s))"

lemmas fsm_writes = write_sttable_def write_event_def write_clear_rtimer_def write_clear_ptimer_def
  write_set_ctimer_def write_tx_sar_def write_rx_sar_def write_notification_def write_open_conn_def
  write_payload_dropped_def write_mem_cmd_def

text \<open>What no part of a transition changes.\<close>

definition fsm_frame :: "RxFsm \<Rightarrow> RxFsm \<Rightarrow> bool" where
  "fsm_frame s t \<longleftrightarrow> rf_fsm_state t = rf_fsm_state s \<and> rf_tcp_rx_meta_reg t = rf_tcp_rx_meta_reg s \<and>
     rf_rx_eng_sent_tx_sar_req t = rf_rx_eng_sent_tx_sar_req s \<and> rf_rx_eng_ctrl_bits t = rf_rx_eng_ctrl_bits s \<and>
     rf_session_state_reg t = rf_session_state_reg s \<and> rf_rx_sar_reg t = rf_rx_sar_reg s"

lemma fsm_frame_refl: "fsm_frame s s" by (simp add: fsm_frame_def)

lemma fsm_frame_writes:
  "fsm_frame s t \<Longrightarrow> fsm_frame s (write_sttable st t)" "fsm_frame s t \<Longrightarrow> fsm_frame s (write_event ev t)"
  "fsm_frame s t \<Longrightarrow> fsm_frame s (write_clear_rtimer b t)" "fsm_frame s t \<Longrightarrow> fsm_frame s (write_clear_ptimer t)"
  "fsm_frame s t \<Longrightarrow> fsm_frame s (write_set_ctimer t)" "fsm_frame s t \<Longrightarrow> fsm_frame s (write_tx_sar tr t)"
  "fsm_frame s t \<Longrightarrow> fsm_frame s (write_rx_sar rr t)" "fsm_frame s t \<Longrightarrow> fsm_frame s (write_notification n t)"
  "fsm_frame s t \<Longrightarrow> fsm_frame s (write_open_conn b t)" "fsm_frame s t \<Longrightarrow> fsm_frame s (write_payload_dropped b t)"
  "fsm_frame s t \<Longrightarrow> fsm_frame s (write_mem_cmd t)" "fsm_frame s t \<Longrightarrow> fsm_frame s (t\<lparr>rf_tx_sar_reg := tx\<rparr>)"
  "fsm_frame s t \<Longrightarrow> fsm_frame s (t\<lparr>rf_rx_eng_to_tx_app_new_client_notification := ns\<rparr>)"
  by (simp_all add: fsm_frame_def fsm_writes)

lemma fsm_frame_trans: "fsm_frame s t \<Longrightarrow> fsm_frame t u \<Longrightarrow> fsm_frame s u"
  by (simp add: fsm_frame_def)

lemma frame_ack_parts:
  "fsm_frame s (ack_congestion s)" "fsm_frame s (ack_tx_sar s)" "fsm_frame s (ack_payload s)"
  "fsm_frame s (ack_event s)" "fsm_frame s (ack_state s)" "fsm_frame s (ack_refused s)"
  by (auto simp: ack_congestion_def ack_tx_sar_def ack_payload_def ack_event_def ack_state_def ack_refused_def Let_def
      intro!: fsm_frame_writes fsm_frame_refl split: SessionState.split)

lemmas frame_ack_chain = frame_ack_parts [THEN [2] fsm_frame_trans]

lemma frame_transition: "fsm_frame s (transition u s)"
proof -
  have "fsm_frame s (fsm_ack s)"
    by (simp add: fsm_ack_def Let_def) (intro conjI impI frame_ack_chain fsm_frame_writes fsm_frame_refl)
  moreover have "fsm_frame s (fsm_syn s)" "fsm_frame s (fsm_syn_ack s)" "fsm_frame s (fsm_other s)"
    by (simp_all add: fsm_syn_def fsm_syn_ack_def fsm_other_def Let_def)
      (intro conjI impI fsm_frame_writes fsm_frame_refl)+
  moreover have "fsm_frame s (fsm_fin_ack u s)"
    by (simp add: fsm_fin_ack_def fin_tables_def fin_payload_def fin_state_def fin_refused_def Let_def)
      (intro conjI impI fsm_frame_writes fsm_frame_refl)
  ultimately show ?thesis by (simp add: transition_def)
qed

lemma fsm_inv_step: "fsm_inv s \<Longrightarrow> fsm_inv (RxEngTcpFsm u s)"
proof (cases "rf_fsm_state s")
  case LOAD
  then show "fsm_inv s \<Longrightarrow> ?thesis"
    by (cases "rf_rx_eng_fsm_meta_data_in s") (auto simp: RxEngTcpFsm_def fsm_load_def fsm_inv_def)
next
  case TRANSITION
  then show "fsm_inv s \<Longrightarrow> ?thesis"
    using frame_transition [of "fsm_read_responses s" u]
    by (auto simp: RxEngTcpFsm_def fsm_inv_def fsm_frame_def fsm_read_responses_def)
qed

interpretation rx_fsm: hls_process "\<lambda>s. s = rx_fsm_init" fsm_env "RxEngTcpFsm u" fsm_inv for u
proof
  fix s
  show "s = rx_fsm_init \<Longrightarrow> fsm_inv s"
    by (simp add: rx_fsm_init_def fsm_inv_def ctrl_bits_def TcpHeaderMeta_default_def put_range_def)
  show "fsm_inv s \<Longrightarrow> fsm_inv (RxEngTcpFsm u s)" by (rule fsm_inv_step)
qed (simp add: fsm_env_def fsm_inv_def)

lemma responses_inv:
  assumes "fsm_inv s" and "rf_fsm_state s = TRANSITION" and "fsm_responses_ready s"
  shows "RxEngTcpFsm u s = transition u (fsm_read_responses s)"
    and "rf_rx_eng_ctrl_bits (fsm_read_responses s) = ctrl_bits (fsm_header (fsm_read_responses s))"
  using assms by (auto simp: RxEngTcpFsm_def fsm_inv_def fsm_read_responses_def)
section \<open>The transitions follow TCP\<close>

text \<open>What a segment means for its session: everything sent is acknowledged, a connection is asked for,
  the answer to our own request, the peer's FIN (with or without the acknowledgment of everything
  sent), a reason to give up, or nothing.\<close>

datatype RxEvent = Acked | Syn | SynAcked | Fin_Acked | Fin_Unacked | Reset | Nothing

definition segment_event :: "RxFsm \<Rightarrow> RxEvent" where
  "segment_event s =
     (let h = fsm_header s; st = rf_session_state_reg s;
          in_order = (th_seq_number h = rxe_recvd (rf_rx_sar_reg s)) in
      if th_rst h then (if (if st = SYN_SENT then ack_expected s else in_order) then Reset else Nothing)
      else if th_syn h \<and> \<not> th_fin h then
        (if th_ack h then
           (if st = SYN_SENT then (if ack_expected s then SynAcked else Reset) else Nothing)
         else if st = CLOSED \<or> st = SYN_SENT then Syn
         else if st = SYN_RECEIVED \<and> uint (th_seq_number h) + 1 \<noteq> uint (rxe_recvd (rf_rx_sar_reg s)) then Reset
         else Nothing)
      else if th_ack h \<and> th_fin h \<and> \<not> th_syn h then
        (if st \<in> {ESTABLISHED, FIN_WAIT_1, FIN_WAIT_2} \<and> in_order then
           (if ack_expected s then Fin_Acked else Fin_Unacked)
         else Nothing)
      else if th_ack h \<and> \<not> th_syn h \<and> ack_accepted st \<and> ack_expected s then Acked
      else Nothing)"

text \<open>The diagram of RFC 793, as far as the receive side moves along it; the state CLOSE-WAIT is passed
  over, as the FIN is answered at once, and FIN-WAIT-2 is left out by the implementation.\<close>

inductive tcp_rx :: "SessionState \<Rightarrow> RxEvent \<Rightarrow> SessionState \<Rightarrow> bool" where
  passive_open: "st = CLOSED \<or> st = SYN_SENT \<Longrightarrow> tcp_rx st Syn SYN_RECEIVED"
| handshake_done: "tcp_rx SYN_RECEIVED Acked ESTABLISHED"
| active_open_done: "tcp_rx SYN_SENT SynAcked ESTABLISHED"
| passive_close: "ev = Fin_Acked \<or> ev = Fin_Unacked \<Longrightarrow> tcp_rx ESTABLISHED ev LAST_ACK"
| active_close_done: "st = FIN_WAIT_1 \<or> st = FIN_WAIT_2 \<Longrightarrow> tcp_rx st Fin_Acked TIME_WAIT"
| simultaneous_close: "st = FIN_WAIT_1 \<or> st = FIN_WAIT_2 \<Longrightarrow> tcp_rx st Fin_Unacked CLOSING"
| closing_done: "tcp_rx CLOSING Acked TIME_WAIT"
| last_ack_done: "tcp_rx LAST_ACK Acked CLOSED"
| data_acked: "st \<notin> {SYN_RECEIVED, CLOSING, LAST_ACK} \<Longrightarrow> tcp_rx st Acked st"
| given_up: "tcp_rx st Reset CLOSED"
| unchanged: "tcp_rx st Nothing st"

code_pred tcp_rx .

inductive_cases tcp_rx_established: "tcp_rx st ev ESTABLISHED"
inductive_cases tcp_rx_time_wait: "tcp_rx st ev TIME_WAIT"

lemma tcp_rx_functional: "tcp_rx st ev st1 \<Longrightarrow> tcp_rx st ev st2 \<Longrightarrow> st1 = st2"
  by (erule tcp_rx.cases; erule tcp_rx.cases) auto

text \<open>A plain acknowledgment of bytes outside the window of sent and unacknowledged ones.\<close>

definition stale_ack :: "RxFsm \<Rightarrow> bool" where
  "stale_ack s \<longleftrightarrow> th_ack (fsm_header s) \<and> \<not> th_syn (fsm_header s) \<and> \<not> th_fin (fsm_header s) \<and>
     \<not> th_rst (fsm_header s) \<and> ack_accepted (rf_session_state_reg s) \<and> \<not> ack_in_range s"

lemma ack_expected_in_range: "ack_expected s \<Longrightarrow> ack_in_range s"
  by (auto simp: ack_expected_def ack_in_range_def Let_def)

text \<open>The writes that go with a change of state.\<close>

definition effects :: "RxFsm \<Rightarrow> SessionState \<Rightarrow> RxFsm \<Rightarrow> bool" where
  "effects s st' t \<longleftrightarrow>
     rf_rx_eng_to_sttable_req t = rf_rx_eng_to_sttable_req s @ [StateTableReq_write (fsm_sid s) st'] \<and>
     rf_rx_eng_to_timer_set_ctimer t = rf_rx_eng_to_timer_set_ctimer s @
       (if st' = TIME_WAIT \<and> rf_session_state_reg s \<noteq> TIME_WAIT then [fsm_sid s] else []) \<and>
     map nc_session_id (rf_rx_eng_to_tx_app_new_client_notification t) =
       map nc_session_id (rf_rx_eng_to_tx_app_new_client_notification s) @
       (if rf_session_state_reg s = SYN_RECEIVED \<and> st' = ESTABLISHED then [fsm_sid s] else []) \<and>
     filter oc_success (rf_rx_eng_to_tx_app_notification t) = filter oc_success (rf_rx_eng_to_tx_app_notification s) @
       (if rf_session_state_reg s = SYN_SENT \<and> st' = ESTABLISHED
        then [\<lparr>oc_session_id = fsm_sid s, oc_success = True\<rparr>] else [])"

text \<open>The parts of an acknowledgment in front of the change of state make none of these writes.\<close>

definition no_effects :: "RxFsm \<Rightarrow> RxFsm \<Rightarrow> bool" where
  "no_effects s t \<longleftrightarrow> fsm_frame s t \<and> ack_expected t = ack_expected s \<and> ack_in_range t = ack_in_range s \<and>
     rf_rx_eng_to_sttable_req t = rf_rx_eng_to_sttable_req s \<and>
     rf_rx_eng_to_timer_set_ctimer t = rf_rx_eng_to_timer_set_ctimer s \<and>
     rf_rx_eng_to_tx_app_new_client_notification t = rf_rx_eng_to_tx_app_new_client_notification s \<and>
     rf_rx_eng_to_tx_app_notification t = rf_rx_eng_to_tx_app_notification s"

lemma no_effects_trans: "no_effects s t \<Longrightarrow> no_effects t u \<Longrightarrow> no_effects s u"
  by (auto simp: no_effects_def intro: fsm_frame_trans)

lemma no_effects_parts:
  "no_effects s (write_clear_rtimer b s)" "no_effects s (ack_congestion s)" "no_effects s (ack_tx_sar s)"
  "no_effects s (ack_payload s)" "no_effects s (ack_event s)"
proof -
  show "no_effects s (write_clear_rtimer b s)"
    by (simp add: no_effects_def fsm_frame_def ack_expected_def ack_in_range_def fsm_writes)
  show "no_effects s (ack_congestion s)"
    using frame_ack_parts(1) [of s]
    by (simp add: no_effects_def) (simp add: ack_congestion_def ack_expected_def ack_in_range_def fsm_writes Let_def)
  show "no_effects s (ack_tx_sar s)"
    using frame_ack_parts(2) [of s]
    by (simp add: no_effects_def) (simp add: ack_tx_sar_def ack_expected_def ack_in_range_def fsm_writes Let_def)
  show "no_effects s (ack_payload s)"
    using frame_ack_parts(3) [of s]
    by (simp add: no_effects_def) (simp add: ack_payload_def ack_expected_def ack_in_range_def fsm_writes Let_def)
  show "no_effects s (ack_event s)"
    using frame_ack_parts(4) [of s]
    by (simp add: no_effects_def) (simp add: ack_event_def ack_expected_def ack_in_range_def fsm_writes Let_def)
qed

lemma effects_after: "no_effects s t \<Longrightarrow> effects t st u \<Longrightarrow> effects s st u"
  by (simp add: no_effects_def effects_def fsm_frame_def)

lemma ack_state_effects:
  assumes "ack_accepted (rf_session_state_reg s)"
  shows "\<exists>st'. tcp_rx (rf_session_state_reg s) (if ack_expected s then Acked else Nothing) st' \<and>
     effects s st' (ack_state s)"
  using assms
  by (cases "rf_session_state_reg s")
    (auto simp: ack_state_def effects_def fsm_writes ack_accepted_def intro: tcp_rx.intros)

lemma fsm_ack_effects:
  assumes "rf_rx_eng_ctrl_bits s = ctrl_bits (fsm_header s)" and "rf_rx_eng_ctrl_bits s = 1"
  shows "if stale_ack s then no_effects s (fsm_ack s)
     else \<exists>st'. tcp_rx (rf_session_state_reg s) (segment_event s) st' \<and> effects s st' (fsm_ack s)"
proof -
  have h: "th_ack (fsm_header s)" "\<not> th_syn (fsm_header s)" "\<not> th_fin (fsm_header s)" "\<not> th_rst (fsm_header s)"
    using assms ctrl_bits_cases(1) by auto
  let ?r = "write_clear_rtimer (ack_expected s) s"
  have r: "no_effects s ?r" by (rule no_effects_parts)
  show ?thesis
  proof (cases "ack_accepted (rf_session_state_reg s)")
    case False
    then have "effects ?r (rf_session_state_reg s) (ack_refused ?r)"
      by (simp add: ack_refused_def effects_def fsm_writes Let_def)
    moreover have "segment_event s = Nothing" using h False by (simp add: segment_event_def Let_def)
    ultimately show ?thesis
      using False r by (auto simp: fsm_ack_def stale_ack_def Let_def no_effects_def fsm_frame_def
          intro: effects_after [OF r] tcp_rx.unchanged)
  next
    case True
    let ?c = "ack_congestion ?r"
    have c: "no_effects s ?c" by (rule no_effects_trans [OF r no_effects_parts(2)])
    show ?thesis
    proof (cases "ack_in_range s")
      case False
      then show ?thesis
        using True c r h by (simp add: fsm_ack_def stale_ack_def Let_def no_effects_def fsm_frame_def)
    next
      case range: True
      let ?e = "ack_event (ack_payload (ack_tx_sar ?c))"
      have e: "no_effects s ?e"
        by (rule no_effects_trans [OF no_effects_trans [OF no_effects_trans [OF c no_effects_parts(3)]
              no_effects_parts(4)] no_effects_parts(5)])
      have "rf_session_state_reg ?e = rf_session_state_reg s" "ack_expected ?e = ack_expected s"
        using e by (simp_all add: no_effects_def fsm_frame_def)
      then obtain st' where "tcp_rx (rf_session_state_reg s) (if ack_expected s then Acked else Nothing) st'"
          "effects s st' (ack_state ?e)"
        using ack_state_effects [of ?e] True effects_after [OF e] by auto
      moreover have "segment_event s = (if ack_expected s then Acked else Nothing)"
        using h True by (simp add: segment_event_def Let_def)
      moreover have "fsm_ack s = ack_state ?e"
        using True range c r by (simp add: fsm_ack_def Let_def no_effects_def fsm_frame_def)
      ultimately show ?thesis using range by (auto simp: stale_ack_def)
    qed
  qed
qed

lemma fsm_syn_effects:
  assumes "rf_rx_eng_ctrl_bits s = ctrl_bits (fsm_header s)" and "rf_rx_eng_ctrl_bits s = 2"
  shows "\<exists>st'. tcp_rx (rf_session_state_reg s) (segment_event s) st' \<and> effects s st' (fsm_syn s)"
proof -
  have h: "\<not> th_ack (fsm_header s)" "th_syn (fsm_header s)" "\<not> th_fin (fsm_header s)" "\<not> th_rst (fsm_header s)"
    using assms ctrl_bits_cases(2) by auto
  show ?thesis
    using h by (cases "rf_session_state_reg s")
      (auto simp: fsm_syn_def effects_def fsm_writes segment_event_def Let_def intro: tcp_rx.intros)
qed

lemma fsm_syn_ack_effects:
  assumes "rf_rx_eng_ctrl_bits s = ctrl_bits (fsm_header s)" and "rf_rx_eng_ctrl_bits s = 3"
  shows "\<exists>st'. tcp_rx (rf_session_state_reg s) (segment_event s) st' \<and> effects s st' (fsm_syn_ack s)"
proof -
  have h: "th_ack (fsm_header s)" "th_syn (fsm_header s)" "\<not> th_fin (fsm_header s)" "\<not> th_rst (fsm_header s)"
    using assms ctrl_bits_cases(3) by auto
  have e: "ack_expected (write_clear_rtimer (ack_expected s) s) = ack_expected s"
    by (simp add: ack_expected_def write_clear_rtimer_def)
  show ?thesis
    using h e by (cases "rf_session_state_reg s"; cases "ack_expected s")
      (auto simp: fsm_syn_ack_def effects_def fsm_writes segment_event_def Let_def intro: tcp_rx.intros)
qed

lemma fin_state_effects:
  assumes "rf_session_state_reg s = ESTABLISHED \<or> rf_session_state_reg s = FIN_WAIT_1 \<or> rf_session_state_reg s = FIN_WAIT_2"
  shows "\<exists>st'. tcp_rx (rf_session_state_reg s) (if ack_expected s then Fin_Acked else Fin_Unacked) st' \<and>
     effects s st' (fin_state s)"
  using assms
  by (cases "ack_expected s") (auto simp: fin_state_def effects_def fsm_writes intro: tcp_rx.intros)

lemma fsm_fin_effects:
  assumes "rf_rx_eng_ctrl_bits s = ctrl_bits (fsm_header s)" and "rf_rx_eng_ctrl_bits s = 5"
  shows "\<exists>st'. tcp_rx (rf_session_state_reg s) (segment_event s) st' \<and> effects s st' (fsm_fin_ack u s)"
proof -
  have h: "th_ack (fsm_header s)" "\<not> th_syn (fsm_header s)" "th_fin (fsm_header s)" "\<not> th_rst (fsm_header s)"
    using assms ctrl_bits_cases(4) by auto
  let ?r = "write_clear_rtimer (ack_expected s) s"
  have r: "no_effects s ?r" by (rule no_effects_parts)
  have a: "fin_accepted ?r = fin_accepted s" by (simp add: fin_accepted_def write_clear_rtimer_def)
  show ?thesis
  proof (cases "fin_accepted s")
    case False
    then have "segment_event s = Nothing" using h by (auto simp: segment_event_def fin_accepted_def Let_def)
    moreover have "effects ?r (rf_session_state_reg s) (fin_refused ?r)"
      by (simp add: fin_refused_def effects_def fsm_writes)
    ultimately show ?thesis
      using False a r by (auto simp: fsm_fin_ack_def Let_def intro: effects_after [OF r] tcp_rx.unchanged)
  next
    case True
    have t: "no_effects ?r (fin_tables u ?r)"
      by (simp add: no_effects_def fsm_frame_def fin_tables_def ack_expected_def ack_in_range_def fsm_writes Let_def)
    have p: "no_effects (fin_tables u ?r) (fin_payload (fin_tables u ?r))"
      by (simp add: no_effects_def fsm_frame_def fin_payload_def ack_expected_def ack_in_range_def fsm_writes Let_def)
    let ?p = "fin_payload (fin_tables u ?r)"
    have n: "no_effects s ?p" by (rule no_effects_trans [OF no_effects_trans [OF r t] p])
    then have "rf_session_state_reg ?p = rf_session_state_reg s" "ack_expected ?p = ack_expected s"
      by (simp_all add: no_effects_def fsm_frame_def)
    moreover have "segment_event s = (if ack_expected s then Fin_Acked else Fin_Unacked)"
      using True h by (auto simp: segment_event_def fin_accepted_def Let_def)
    ultimately have "\<exists>st'. tcp_rx (rf_session_state_reg s) (segment_event s) st' \<and> effects ?p st' (fin_state ?p)"
      using fin_state_effects [of ?p] True by (simp add: fin_accepted_def)
    then show ?thesis
      using True a effects_after [OF n] by (auto simp: fsm_fin_ack_def Let_def)
  qed
qed

lemma fsm_other_effects:
  assumes "rf_rx_eng_ctrl_bits s = ctrl_bits (fsm_header s)" and "rf_rx_eng_ctrl_bits s \<notin> {1, 2, 3, 5}"
  shows "\<exists>st'. tcp_rx (rf_session_state_reg s) (segment_event s) st' \<and> effects s st' (fsm_other s)"
proof (cases "th_rst (fsm_header s)")
  case False
  let ?h = "fsm_header s"
  have "ctrl_bits ?h \<noteq> 1" "ctrl_bits ?h \<noteq> 2" "ctrl_bits ?h \<noteq> 3" "ctrl_bits ?h \<noteq> 5"
    using assms by auto
  then have "segment_event s = Nothing"
    unfolding ctrl_bits_cases
    by (cases "th_ack ?h"; cases "th_syn ?h"; cases "th_fin ?h") (simp_all add: False segment_event_def Let_def)
  moreover have "effects s (rf_session_state_reg s) (fsm_other s)"
    using False by (simp add: fsm_other_def effects_def fsm_writes Let_def)
  ultimately show ?thesis using tcp_rx.unchanged by metis
next
  case rst: True
  define matches where "matches \<longleftrightarrow> (if rf_session_state_reg s = SYN_SENT then ack_expected s
    else th_seq_number (fsm_header s) = rxe_recvd (rf_rx_sar_reg s))"
  show ?thesis
  proof (cases matches)
    case True
    then have "segment_event s = Reset" using rst by (simp add: segment_event_def matches_def Let_def)
    moreover have "effects s CLOSED (fsm_other s)"
      using True rst by (auto simp: fsm_other_def effects_def fsm_writes matches_def Let_def split: if_splits)
    ultimately show ?thesis using tcp_rx.given_up by metis
  next
    case False
    then have "segment_event s = Nothing" using rst by (simp add: segment_event_def matches_def Let_def)
    moreover have "effects s (rf_session_state_reg s) (fsm_other s)"
      using False rst by (auto simp: fsm_other_def effects_def fsm_writes matches_def Let_def split: if_splits)
    ultimately show ?thesis using tcp_rx.unchanged by metis
  qed
qed

lemma transition_effects:
  assumes "rf_rx_eng_ctrl_bits s = ctrl_bits (fsm_header s)"
  shows "if stale_ack s then no_effects s (transition u s)
     else \<exists>st'. tcp_rx (rf_session_state_reg s) (segment_event s) st' \<and> effects s st' (transition u s)"
proof -
  have stale: "stale_ack s \<Longrightarrow> rf_rx_eng_ctrl_bits s = 1"
    using assms ctrl_bits_cases(1) by (simp add: stale_ack_def)
  consider "rf_rx_eng_ctrl_bits s = 1" | "rf_rx_eng_ctrl_bits s = 2" | "rf_rx_eng_ctrl_bits s = 3"
    | "rf_rx_eng_ctrl_bits s = 5" | "rf_rx_eng_ctrl_bits s \<notin> {1, 2, 3, 5}" by blast
  then show ?thesis
  proof cases
    case 1
    then show ?thesis using fsm_ack_effects [OF assms 1] by (simp add: transition_def)
  next
    case 2
    then have "transition u s = fsm_syn s" "\<not> stale_ack s" using stale by (auto simp: transition_def)
    then show ?thesis using fsm_syn_effects [OF assms 2] by simp
  next
    case 3
    then have "transition u s = fsm_syn_ack s" "\<not> stale_ack s" using stale by (auto simp: transition_def)
    then show ?thesis using fsm_syn_ack_effects [OF assms 3] by simp
  next
    case 4
    then have "transition u s = fsm_fin_ack u s" "\<not> stale_ack s" using stale by (auto simp: transition_def)
    then show ?thesis using fsm_fin_effects [OF assms 4] by simp
  next
    case 5
    then have "transition u s = fsm_other s" "\<not> stale_ack s" using stale by (auto simp: transition_def)
    then show ?thesis using fsm_other_effects [OF assms 5] by simp
  qed
qed

section \<open>What happens to the payload\<close>

datatype PayloadOutcome = Kept | Dropped | Unanswered

text \<open>The payload of a plain acknowledgment is kept when it is in order and fits the receive buffer,
  that of a FIN when it is in order; a stale acknowledgment, a SYN and a RST leave it without an
  answer.\<close>

definition payload_outcome :: "RxFsm \<Rightarrow> PayloadOutcome" where
  "payload_outcome s =
     (let h = fsm_header s in
      if th_payload_length h = 0 \<or> th_rst h \<or> th_syn h \<or> \<not> th_ack h then Unanswered
      else if th_fin h then (if fin_accepted s then Kept else Dropped)
      else if \<not> ack_accepted (rf_session_state_reg s) then Dropped
      else if \<not> ack_in_range s then Unanswered
      else if segment_fits s then Kept else Dropped)"

definition kept_command :: "RxFsm \<Rightarrow> MemBufferRWCmd" where
  "kept_command s = MemBufferRWCmd_new (GetSessionMemAddr True (fsm_sid s) (ucast (th_seq_number (fsm_header s))))
     (th_payload_length (fsm_header s))"

definition kept_notification :: "RxFsm \<Rightarrow> AppNotificationNoTDEST" where
  "kept_notification s = AppNotification_data (fsm_sid s) (th_payload_length (fsm_header s))
     (fm_src_ip (rf_tcp_rx_meta_reg s)) (fm_dst_port (rf_tcp_rx_meta_reg s)) (th_fin (fsm_header s))"

definition payload_writes :: "RxFsm \<Rightarrow> PayloadOutcome \<Rightarrow> RxFsm \<Rightarrow> bool" where
  "payload_writes s out t \<longleftrightarrow>
     rf_tcp_payload_dropped_by_rx_fsm t = rf_tcp_payload_dropped_by_rx_fsm s @
       (case out of Kept \<Rightarrow> [False] | Dropped \<Rightarrow> [True] | Unanswered \<Rightarrow> []) \<and>
     rf_rx_eng_to_mem_cmd t = rf_rx_eng_to_mem_cmd s @ (if out = Kept then [kept_command s] else []) \<and>
     filter (\<lambda>n. an_length n \<noteq> 0) (rf_rx_eng_to_rx_app_notification t) =
       filter (\<lambda>n. an_length n \<noteq> 0) (rf_rx_eng_to_rx_app_notification s) @
       (if out = Kept then [kept_notification s] else [])"

definition no_payload :: "RxFsm \<Rightarrow> RxFsm \<Rightarrow> bool" where
  "no_payload s t \<longleftrightarrow> fsm_frame s t \<and> ack_in_range t = ack_in_range s \<and>
     rf_tcp_payload_dropped_by_rx_fsm t = rf_tcp_payload_dropped_by_rx_fsm s \<and>
     rf_rx_eng_to_mem_cmd t = rf_rx_eng_to_mem_cmd s \<and>
     filter (\<lambda>n. an_length n \<noteq> 0) (rf_rx_eng_to_rx_app_notification t) =
       filter (\<lambda>n. an_length n \<noteq> 0) (rf_rx_eng_to_rx_app_notification s)"

lemma no_payload_trans: "no_payload s t \<Longrightarrow> no_payload t u \<Longrightarrow> no_payload s u"
  by (auto simp: no_payload_def intro: fsm_frame_trans)

lemma payload_writes_after: "no_payload s t \<Longrightarrow> payload_writes t out u \<Longrightarrow> payload_writes s out u"
  by (simp add: no_payload_def payload_writes_def fsm_frame_def kept_command_def kept_notification_def)

lemma payload_writes_before: "payload_writes s out t \<Longrightarrow> no_payload t u \<Longrightarrow> payload_writes s out u"
  by (simp add: no_payload_def payload_writes_def)

lemma no_payload_writes: "no_payload s t \<Longrightarrow> payload_writes s Unanswered t"
  by (simp add: no_payload_def payload_writes_def)

lemma no_payload_parts:
  "no_payload s (write_clear_rtimer b s)" "no_payload s (ack_congestion s)" "no_payload s (ack_tx_sar s)"
  "no_payload s (ack_event s)" "no_payload s (ack_state s)" "no_payload s (fin_tables u s)" "no_payload s (fin_state s)"
proof -
  show "no_payload s (write_clear_rtimer b s)"
    by (simp add: no_payload_def fsm_frame_def ack_in_range_def fsm_writes)
  show "no_payload s (ack_congestion s)"
    using frame_ack_parts(1) [of s]
    by (simp add: no_payload_def) (simp add: ack_congestion_def ack_in_range_def fsm_writes Let_def)
  show "no_payload s (ack_tx_sar s)"
    using frame_ack_parts(2) [of s]
    by (simp add: no_payload_def) (simp add: ack_tx_sar_def ack_in_range_def fsm_writes Let_def)
  show "no_payload s (ack_event s)"
    using frame_ack_parts(4) [of s]
    by (simp add: no_payload_def) (simp add: ack_event_def ack_in_range_def fsm_writes Let_def)
  show "no_payload s (ack_state s)"
    using frame_ack_parts(5) [of s]
    by (simp add: no_payload_def)
      (simp add: ack_state_def ack_in_range_def fsm_writes Let_def split: SessionState.split)
  show "no_payload s (fin_tables u s)"
    by (simp add: no_payload_def fsm_frame_def fin_tables_def ack_in_range_def fsm_writes Let_def)
  show "no_payload s (fin_state s)"
    by (simp add: no_payload_def fsm_frame_def fin_state_def ack_in_range_def fsm_writes Let_def)
qed

lemma fsm_ack_payload:
  assumes h: "th_ack (fsm_header s)" "\<not> th_syn (fsm_header s)" "\<not> th_fin (fsm_header s)" "\<not> th_rst (fsm_header s)"
  shows "payload_writes s (payload_outcome s) (fsm_ack s)"
proof -
  let ?r = "write_clear_rtimer (ack_expected s) s"
  have r: "no_payload s ?r" by (rule no_payload_parts)
  show ?thesis
  proof (cases "ack_accepted (rf_session_state_reg s)")
    case False
    then have "payload_writes ?r (payload_outcome s) (ack_refused ?r)"
      using h by (simp add: ack_refused_def payload_writes_def payload_outcome_def fsm_writes Let_def)
    then show ?thesis
      using payload_writes_after [OF r] False r by (simp add: fsm_ack_def Let_def no_payload_def fsm_frame_def)
  next
    case True
    let ?c = "ack_congestion ?r"
    have c: "no_payload s ?c" by (rule no_payload_trans [OF r no_payload_parts(2)])
    show ?thesis
    proof (cases "ack_in_range s")
      case False
      then have "fsm_ack s = ?c" using True c r by (simp add: fsm_ack_def Let_def no_payload_def fsm_frame_def)
      moreover have "payload_outcome s = Unanswered"
        using h True False by (simp add: payload_outcome_def Let_def)
      ultimately show ?thesis using no_payload_writes [OF c] by simp
    next
      case range: True
      let ?x = "ack_tx_sar ?c"
      have x: "no_payload s ?x" by (rule no_payload_trans [OF c no_payload_parts(3)])
      then have f: "fsm_header ?x = fsm_header s" "segment_fits ?x = segment_fits s"
        by (simp_all add: no_payload_def fsm_frame_def segment_fits_def)
      have "payload_outcome s = (if th_payload_length (fsm_header s) = 0 then Unanswered
          else if segment_fits s then Kept else Dropped)"
        using h True range by (simp add: payload_outcome_def Let_def)
      then have "payload_writes ?x (payload_outcome s) (ack_payload ?x)"
        using f h by (simp add: ack_payload_def payload_writes_def kept_command_def kept_notification_def
            fsm_writes Let_def AppNotification_data_def)
      then have "payload_writes s (payload_outcome s) (ack_payload ?x)" by (rule payload_writes_after [OF x])
      then have "payload_writes s (payload_outcome s) (ack_state (ack_event (ack_payload ?x)))"
        by (rule payload_writes_before [OF payload_writes_before]) (rule no_payload_parts)+
      then show ?thesis using True range c r by (simp add: fsm_ack_def Let_def no_payload_def fsm_frame_def)
    qed
  qed
qed

lemma fsm_fin_payload:
  assumes h: "th_ack (fsm_header s)" "\<not> th_syn (fsm_header s)" "th_fin (fsm_header s)" "\<not> th_rst (fsm_header s)"
  shows "payload_writes s (payload_outcome s) (fsm_fin_ack u s)"
proof -
  let ?r = "write_clear_rtimer (ack_expected s) s"
  have r: "no_payload s ?r" by (rule no_payload_parts)
  have a: "fin_accepted ?r = fin_accepted s" by (simp add: fin_accepted_def write_clear_rtimer_def)
  show ?thesis
  proof (cases "fin_accepted s")
    case False
    then have "payload_writes ?r (payload_outcome s) (fin_refused ?r)"
      using h by (simp add: fin_refused_def payload_writes_def payload_outcome_def fsm_writes Let_def)
    then show ?thesis
      using payload_writes_after [OF r] False a by (simp add: fsm_fin_ack_def Let_def)
  next
    case True
    let ?x = "fin_tables u ?r"
    have x: "no_payload s ?x" by (rule no_payload_trans [OF r no_payload_parts(6)])
    then have f: "fsm_header ?x = fsm_header s" by (simp add: no_payload_def fsm_frame_def)
    have "payload_outcome s = (if th_payload_length (fsm_header s) = 0 then Unanswered else Kept)"
      using h True by (simp add: payload_outcome_def Let_def)
    then have "payload_writes ?x (payload_outcome s) (fin_payload ?x)"
      using f h by (simp add: fin_payload_def payload_writes_def kept_command_def kept_notification_def
          fsm_writes Let_def AppNotification_data_def)
    then have "payload_writes s (payload_outcome s) (fin_payload ?x)" by (rule payload_writes_after [OF x])
    then have "payload_writes s (payload_outcome s) (fin_state (fin_payload ?x))"
      by (rule payload_writes_before) (rule no_payload_parts)
    then show ?thesis using True a by (simp add: fsm_fin_ack_def Let_def)
  qed
qed

lemma transition_payload:
  assumes "rf_rx_eng_ctrl_bits s = ctrl_bits (fsm_header s)"
  shows "payload_writes s (payload_outcome s) (transition u s)"
proof -
  let ?h = "fsm_header s"
  have syn: "no_payload s (fsm_syn s)"
    by (simp add: no_payload_def fsm_frame_def fsm_syn_def ack_in_range_def fsm_writes Let_def)
  have syn_ack: "no_payload s (fsm_syn_ack s)"
    by (simp add: no_payload_def fsm_frame_def fsm_syn_ack_def ack_in_range_def fsm_writes Let_def)
  have other: "no_payload s (fsm_other s)"
    by (simp add: no_payload_def fsm_frame_def fsm_other_def ack_in_range_def fsm_writes Let_def AppNotification_data_def)
  note c = ctrl_bits_cases [of ?h]
  consider "rf_rx_eng_ctrl_bits s = 1" | "rf_rx_eng_ctrl_bits s = 5" | "rf_rx_eng_ctrl_bits s \<notin> {1, 5}" by blast
  then show ?thesis
  proof cases
    case 1
    then show ?thesis using fsm_ack_payload [of s] assms c(1) by (simp add: transition_def)
  next
    case 2
    then show ?thesis using fsm_fin_payload [of s u] assms c(4) by (simp add: transition_def)
  next
    case 3
    then have "ctrl_bits ?h \<noteq> 1" "ctrl_bits ?h \<noteq> 5" using assms by auto
    then have "payload_outcome s = Unanswered"
      unfolding c by (cases "th_ack ?h"; cases "th_syn ?h"; cases "th_fin ?h"; cases "th_rst ?h")
        (simp_all add: payload_outcome_def Let_def)
    moreover have "no_payload s (transition u s)"
      using 3 syn syn_ack other by (simp add: transition_def)
    ultimately show ?thesis using no_payload_writes by simp
  qed
qed

section \<open>The receive buffer\<close>

text \<open>Bytes that the application has not read yet are those from \<open>app_read\<close> up to \<open>recvd\<close> on the ring.\<close>

definition unread_positions :: "RxSarTableEntry \<Rightarrow> TcpSessionBuffer set" where
  "unread_positions e = ring_used (rxe_app_read e) (ucast (rxe_recvd e))"

lemma free_positions:
  assumes "n < unat (free_space e)" and "i < n"
  shows "ucast (rxe_recvd e) + word_of_nat i \<notin> unread_positions e"
proof -
  have "(get_range 0 (rxe_recvd e) :: TcpSessionBuffer) = ucast (rxe_recvd e)" by (simp add: get_range_def)
  then show ?thesis
    unfolding unread_positions_def using assms by (intro ring_free [of n]) (simp_all add: free_space_def)
qed

end
