(* ===== verification/Rx_Fsm_Props.thy ===== *)
theory Rx_Fsm_Props
  imports Rx_Fsm
begin

text \<open>What the receive engine's transitions promise, in any run of the process: they follow the TCP state
  diagram, payload only enters free buffer space (a FIN's excepted), the congestion window stays within
  its bounds, and a fast retransmit is never asked for.\<close>

section \<open>The process in its environment\<close>

lemma fsm_follows_tcp:
  assumes "reaches (\<lambda>s. s = rx_fsm_init) fsm_env (RxEngTcpFsm u) s"
    and "rf_fsm_state s = TRANSITION" and "fsm_responses_ready s"
  shows "let r = fsm_read_responses s; t = RxEngTcpFsm u s in
     if stale_ack r then
       rf_rx_eng_to_sttable_req t = rf_rx_eng_to_sttable_req s \<and>
       rf_rx_eng_to_timer_set_ctimer t = rf_rx_eng_to_timer_set_ctimer s
     else \<exists>st'. tcp_rx (rf_session_state_reg r) (segment_event r) st' \<and> effects r st' t"
proof -
  let ?r = "fsm_read_responses s"
  have inv: "fsm_inv s" using rx_fsm.reaches_inv [OF assms(1)] .
  note r = responses_inv(1) [OF inv assms(2,3), where u = u] responses_inv(2) [OF inv assms(2,3)]
  have "rf_rx_eng_to_sttable_req ?r = rf_rx_eng_to_sttable_req s"
    "rf_rx_eng_to_timer_set_ctimer ?r = rf_rx_eng_to_timer_set_ctimer s"
    by (simp_all add: fsm_read_responses_def)
  then show ?thesis
    using transition_effects [OF r(2), of u] r(1) by (auto simp: no_effects_def Let_def)
qed

text \<open>A client's SYN for a listening session.\<close>

definition syn_segment :: "bool \<Rightarrow> bool \<Rightarrow> RxEngFsmMetaData" where
  "syn_segment ack fin = \<lparr>fm_session_id = 5, fm_src_ip = 0, fm_dst_port = 80,
     fm_header = TcpHeaderMeta_default\<lparr>th_syn := \<not> ack, th_ack := ack, th_fin := fin, th_seq_number := 100,
       th_ack_number := 7, th_payload_length := (if ack then 9 else 0)\<rparr>, fm_role_id = 1\<rparr>"

definition fsm_at :: "RxEngFsmMetaData \<Rightarrow> SessionState \<Rightarrow> RxSarTableEntry \<Rightarrow> TxSarToRxEngRsp \<Rightarrow> RxFsm" where
  "fsm_at meta st rx tx =
     (RxEngTcpFsm 0 (rx_fsm_init\<lparr>rf_rx_eng_fsm_meta_data_in := [meta]\<rparr>))
       \<lparr>rf_sttable_to_rx_eng_rsp := [st], rf_rx_sar_to_rx_eng_rsp := [rx], rf_tx_sar_to_rx_eng_rsp := [tx]\<rparr>"

lemma reaches_fsm_at:
  "reaches (\<lambda>s. s = rx_fsm_init) fsm_env (RxEngTcpFsm 0) (fsm_at meta st rx tx)"
proof -
  have "reaches (\<lambda>s. s = rx_fsm_init) fsm_env (RxEngTcpFsm 0) (rx_fsm_init\<lparr>rf_rx_eng_fsm_meta_data_in := [meta]\<rparr>)"
    by (rule reaches_env [OF reaches_ini]) (simp_all add: fsm_env_def)
  then show ?thesis
    unfolding fsm_at_def by (rule reaches_env [OF reaches_cycle]) (simp add: fsm_env_def)
qed

lemma fsm_at_fields:
  "rf_fsm_state (fsm_at meta st rx tx) = TRANSITION" "fsm_responses_ready (fsm_at meta st rx tx)"
  "rf_session_state_reg (fsm_read_responses (fsm_at meta st rx tx)) = st"
  "rf_rx_sar_reg (fsm_read_responses (fsm_at meta st rx tx)) = rx"
  "th_ack (fm_header meta) \<Longrightarrow> rf_tx_sar_reg (fsm_read_responses (fsm_at meta st rx tx)) = tx"
  "rf_tcp_rx_meta_reg (fsm_read_responses (fsm_at meta st rx tx)) = meta"
  by (simp_all add: fsm_at_def RxEngTcpFsm_def fsm_load_def rx_fsm_init_def fsm_responses_ready_def
      fsm_read_responses_def)

definition empty_tx :: TxSarToRxEngRsp where
  "empty_tx = \<lparr>trr_perv_ack = 7, trr_next_byte = 7, trr_cong_window = 0, trr_slowstart_threshold = 0,
     trr_retrans_count = 0, trr_fast_retrans = False, trr_win_shift = 0\<rparr>"

definition rx_entry :: "32 word \<Rightarrow> TcpSessionBuffer \<Rightarrow> RxSarTableEntry" where
  "rx_entry recvd app_read = \<lparr>rxe_recvd = recvd, rxe_app_read = app_read, rxe_win_shift = 0\<rparr>"

text \<open>C5: Data is taken in order and only into free space: for every segment the verdict on the payload,
  the write command and the notification of the application agree, and a payload that comes without
  FIN is kept only when it continues what was received and none of the ring positions it is written
  to holds a byte the application has not read.\<close>

theorem kept_payload_overwrites_nothing:
  assumes "reaches (\<lambda>s. s = rx_fsm_init) fsm_env (RxEngTcpFsm u) s"
    and "rf_fsm_state s = TRANSITION" and "fsm_responses_ready s"
  shows "let r = fsm_read_responses s; t = RxEngTcpFsm u s; h = fsm_header r in
     payload_writes r (payload_outcome r) t \<and>
     (payload_outcome r = Kept \<longrightarrow> th_seq_number h = rxe_recvd (rf_rx_sar_reg r) \<and>
        (th_fin h \<or> (\<forall>i < unat (th_payload_length h).
           ucast (th_seq_number h) + word_of_nat i \<notin> unread_positions (rf_rx_sar_reg r))))"
proof -
  let ?r = "fsm_read_responses s"
  have inv: "fsm_inv s" using rx_fsm.reaches_inv [OF assms(1)] .
  note r = responses_inv(1) [OF inv assms(2,3), where u = u] responses_inv(2) [OF inv assms(2,3)]
  have "payload_writes ?r (payload_outcome ?r) (RxEngTcpFsm u s)"
    using transition_payload [OF r(2), of u] r(1) by simp
  moreover have "payload_outcome ?r = Kept \<Longrightarrow> th_seq_number (fsm_header ?r) = rxe_recvd (rf_rx_sar_reg ?r) \<and>
      (th_fin (fsm_header ?r) \<or> segment_fits ?r)"
    by (auto simp: payload_outcome_def fin_accepted_def segment_fits_def Let_def split: if_splits)
  ultimately show ?thesis
    using free_positions by (auto simp: Let_def segment_fits_def)
qed

theorem kept_payload_overwrites_nothing_witness:
  "rf_tcp_payload_dropped_by_rx_fsm (RxEngTcpFsm 0 (fsm_at (syn_segment True False) ESTABLISHED (rx_entry 100 100) empty_tx)) = [False] \<and>
   rf_tcp_payload_dropped_by_rx_fsm (RxEngTcpFsm 0 (fsm_at (syn_segment True False) ESTABLISHED (rx_entry 100 101) empty_tx)) = [True]"
proof -
  have m: "unat (- 1 :: TcpSessionBuffer) = 2 ^ 18 - 1" by (simp add: unsigned_minus_1_eq_mask mask_eq_exp_minus_1)
  have o: "payload_outcome (fsm_read_responses (fsm_at (syn_segment True False) ESTABLISHED (rx_entry 100 100) empty_tx)) = Kept"
    "payload_outcome (fsm_read_responses (fsm_at (syn_segment True False) ESTABLISHED (rx_entry 100 101) empty_tx)) = Dropped"
    by (simp_all add: payload_outcome_def fsm_at_fields syn_segment_def TcpHeaderMeta_default_def Let_def
        ack_accepted_def ack_in_range_def segment_fits_def empty_tx_def rx_entry_def free_space_def get_range_def m)
  have v: "rf_tcp_payload_dropped_by_rx_fsm (fsm_read_responses (fsm_at m st rx tx)) = []" for m st rx tx
    by (simp add: fsm_at_def fsm_read_responses_def RxEngTcpFsm_def fsm_load_def rx_fsm_init_def)
  show ?thesis
    using kept_payload_overwrites_nothing [OF reaches_fsm_at fsm_at_fields(1,2), of "syn_segment True False" ESTABLISHED "rx_entry 100 100" empty_tx]
      kept_payload_overwrites_nothing [OF reaches_fsm_at fsm_at_fields(1,2), of "syn_segment True False" ESTABLISHED "rx_entry 100 101" empty_tx]
    unfolding o payload_writes_def Let_def by (simp add: v)
qed

text \<open>The payload of a FIN is written whatever the free space: with a full buffer (no free position)
  it is accepted all the same, and its second byte replaces one that the application has not read.\<close>

theorem fin_payload_overwrites_unread:
  assumes "reaches (\<lambda>s. s = rx_fsm_init) fsm_env (RxEngTcpFsm u) s"
    and "rf_fsm_state s = TRANSITION" and "fsm_responses_ready s"
    and "r = fsm_read_responses s" and "h = fsm_header r"
    and "th_ack h" "th_fin h" "\<not> th_syn h" "\<not> th_rst h" and "rf_session_state_reg r = ESTABLISHED"
    and "th_seq_number h = rxe_recvd (rf_rx_sar_reg r)" and "1 < unat (th_payload_length h)"
    and "rxe_app_read (rf_rx_sar_reg r) = ucast (rxe_recvd (rf_rx_sar_reg r)) + 1"
  shows "rf_rx_eng_to_mem_cmd (RxEngTcpFsm u s) = rf_rx_eng_to_mem_cmd s @ [kept_command r] \<and>
     rf_tcp_payload_dropped_by_rx_fsm (RxEngTcpFsm u s) = rf_tcp_payload_dropped_by_rx_fsm s @ [False] \<and>
     free_space (rf_rx_sar_reg r) = 0 \<and>
     ucast (th_seq_number h) + 1 \<in> unread_positions (rf_rx_sar_reg r)"
proof -
  have inv: "fsm_inv s" using rx_fsm.reaches_inv [OF assms(1)] .
  note t = responses_inv(1) [OF inv assms(2,3), where u = u] responses_inv(2) [OF inv assms(2,3)]
  have "payload_outcome r = Kept"
    using assms(4-12) by (auto simp: payload_outcome_def fin_accepted_def Let_def)
  moreover have "rf_rx_eng_to_mem_cmd r = rf_rx_eng_to_mem_cmd s"
    "rf_tcp_payload_dropped_by_rx_fsm r = rf_tcp_payload_dropped_by_rx_fsm s"
    by (simp_all add: assms(4) fsm_read_responses_def)
  moreover have "ucast (th_seq_number h) + 1 \<in> unread_positions (rf_rx_sar_reg r)"
    unfolding unread_positions_def ring_used_def assms(11,13)
    by (rule image_eqI [of _ _ 0]) (simp_all add: unat_gt_0)
  ultimately show ?thesis
    using transition_payload [OF t(2), of u] t(1) assms(4,5,13)
    by (simp add: payload_writes_def free_space_def get_range_def)
qed

theorem fin_payload_overwrites_unread_witness:
  "rf_tcp_payload_dropped_by_rx_fsm (RxEngTcpFsm 0 (fsm_at (syn_segment True True) ESTABLISHED (rx_entry 100 101) empty_tx)) = [False] \<and>
   (101 :: TcpSessionBuffer) \<in> unread_positions (rx_entry 100 101)"
proof -
  have v: "rf_tcp_payload_dropped_by_rx_fsm (fsm_at m st rx tx) = []" for m st rx tx
    by (simp add: fsm_at_def RxEngTcpFsm_def fsm_load_def rx_fsm_init_def)
  show ?thesis
    using fin_payload_overwrites_unread [OF reaches_fsm_at fsm_at_fields(1,2) refl refl,
        of "syn_segment True True" ESTABLISHED "rx_entry 100 101" empty_tx]
    by (simp add: fsm_at_fields v syn_segment_def TcpHeaderMeta_default_def rx_entry_def)
qed

section \<open>Congestion window and fast retransmit\<close>

text \<open>The congestion window never wraps and never shrinks on an acknowledgment: it grows by one
  segment while it stays at or below the slow start threshold, else by one byte, and not beyond its
  maximum.\<close>

theorem cong_window_grows_within_bounds:
  "uint (grow_cong_window tx) = uint (trr_cong_window tx) +
     (if uint (trr_cong_window tx) + TCP_MSS \<le> uint (trr_slowstart_threshold tx) then TCP_MSS
      else if uint (trr_cong_window tx) \<le> CONGESTION_WINDOW_MAX then 1 else 0) \<and>
   uint (grow_cong_window tx) \<le> max (max (uint (trr_cong_window tx)) (uint (trr_slowstart_threshold tx)))
     (CONGESTION_WINDOW_MAX + 1)"
proof -
  have b: "uint (trr_slowstart_threshold tx) < 2 ^ LENGTH(18)" "uint (trr_cong_window tx) < 2 ^ LENGTH(18)"
      "0 \<le> uint (trr_cong_window tx)"
    by (rule unsigned_less, rule unsigned_less, simp)
  have plus: "uint (c + word_of_int k) = uint c + k" if "uint c + k < 262144" "0 \<le> k" for c :: TcpSessionBuffer and k
  proof -
    have "0 \<le> uint c" by simp
    then have "k mod 262144 = k" using that by (intro mod_pos_pos_trivial) linarith+
    then have "uint (word_of_int k :: TcpSessionBuffer) = k" by (simp add: uint_word_of_int)
    moreover have "(uint c + k) mod 262144 = uint c + k"
      using that \<open>0 \<le> uint c\<close> by (intro mod_pos_pos_trivial) linarith+
    ultimately show ?thesis by (simp add: uint_word_ariths(1))
  qed
  show ?thesis
    using b plus [of "trr_cong_window tx" 1460] plus [of "trr_cong_window tx" 1]
    by (auto simp: grow_cong_window_def max_def)
qed

text \<open>An entry in which the count of duplicates stands at three is marked as retransmitted.\<close>

definition marked :: "2 word \<Rightarrow> bool \<Rightarrow> bool" where
  "marked count fast \<longleftrightarrow> (count = 3 \<longrightarrow> fast)"

definition no_rt :: "RxFsm \<Rightarrow> RxFsm \<Rightarrow> bool" where
  "no_rt s t \<longleftrightarrow> filter (\<lambda>e. ev_type e = RT) (rf_set_event t) = filter (\<lambda>e. ev_type e = RT) (rf_set_event s) \<and>
     (\<exists>reqs. rf_rx_eng_to_tx_sar_req t = rf_rx_eng_to_tx_sar_req s @ reqs \<and>
       list_all (\<lambda>req. marked (rts_retrans_count req) (rts_fast_retrans req)) reqs)"

lemma no_rt_same:
  "filter (\<lambda>e. ev_type e = RT) (rf_set_event t) = filter (\<lambda>e. ev_type e = RT) (rf_set_event s) \<Longrightarrow>
   rf_rx_eng_to_tx_sar_req t = rf_rx_eng_to_tx_sar_req s \<Longrightarrow> no_rt s t"
  by (simp add: no_rt_def)

lemma no_rt_trans: "no_rt s t \<Longrightarrow> no_rt t u \<Longrightarrow> no_rt s u"
  by (fastforce simp: no_rt_def)

lemma ack_congestion_count:
  assumes "marked (trr_retrans_count (rf_tx_sar_reg s)) (trr_fast_retrans (rf_tx_sar_reg s))"
    and "th_payload_length (fsm_header s) \<noteq> 0"
  shows "marked (trr_retrans_count (rf_tx_sar_reg (ack_congestion s))) (trr_fast_retrans (rf_tx_sar_reg (ack_congestion s)))"
  using assms by (simp add: ack_congestion_def marked_def write_clear_ptimer_def Let_def)

lemma fsm_ack_no_rt:
  assumes "marked (trr_retrans_count (rf_tx_sar_reg s)) (trr_fast_retrans (rf_tx_sar_reg s))"
  shows "no_rt s (fsm_ack s)"
proof -
  let ?r = "write_clear_rtimer (ack_expected s) s"
  let ?c = "ack_congestion ?r"
  let ?x = "ack_tx_sar ?c"
  let ?p = "ack_payload ?x"
  have r: "no_rt s ?r" "rf_tx_sar_reg ?r = rf_tx_sar_reg s" "fsm_header ?r = fsm_header s"
    by (simp_all add: no_rt_same write_clear_rtimer_def)
  have c: "no_rt s ?c"
    by (rule no_rt_trans [OF r(1)]) (auto simp: ack_congestion_def fsm_writes Let_def intro: no_rt_same)
  have x: "no_rt s ?x"
    by (rule no_rt_trans [OF c])
      (simp add: no_rt_def ack_tx_sar_def write_tx_sar_def RxEngToTxSarReq_update_def marked_def Let_def)
  have p: "no_rt s ?p"
    by (rule no_rt_trans [OF x]) (auto simp: ack_payload_def fsm_writes Let_def intro: no_rt_same)
  have tx: "rf_tx_sar_reg ?p = rf_tx_sar_reg ?c" "fsm_header ?p = fsm_header s"
    using frame_ack_parts [of ?r] frame_ack_parts [of ?c] frame_ack_parts [of ?x] r(3)
    by (simp_all add: fsm_frame_def) (simp add: ack_payload_def ack_tx_sar_def fsm_writes Let_def)
  have e: "no_rt s (ack_event ?p)"
  proof (cases "th_payload_length (fsm_header s) = 0")
    case True
    then show ?thesis using p tx by (simp add: ack_event_def Let_def)
  next
    case False
    then have "marked (trr_retrans_count (rf_tx_sar_reg ?p)) (trr_fast_retrans (rf_tx_sar_reg ?p))"
      using ack_congestion_count [of ?r] assms r tx by simp
    then have "no_rt ?p (ack_event ?p)"
      by (intro no_rt_same) (auto simp: ack_event_def marked_def write_event_def Event_basic_def Let_def)
    then show ?thesis using no_rt_trans [OF p] by simp
  qed
  have "no_rt t (ack_state t)" for t
    by (rule no_rt_same) (simp_all add: ack_state_def fsm_writes split: SessionState.split)
  then have "no_rt s (ack_state (ack_event ?p))" using no_rt_trans [OF e] by simp
  moreover have "no_rt s (ack_refused ?r)"
    by (rule no_rt_trans [OF r(1)], rule no_rt_same)
      (auto simp: ack_refused_def fsm_writes RstEvent_seq_def Let_def)
  ultimately show ?thesis using c by (simp add: fsm_ack_def Let_def)
qed

lemma transition_no_rt:
  assumes "marked (trr_retrans_count (rf_tx_sar_reg s)) (trr_fast_retrans (rf_tx_sar_reg s))"
  shows "no_rt s (transition u s)"
proof -
  have "no_rt s (fsm_syn s)"
    by (auto simp: no_rt_def fsm_syn_def fsm_writes marked_def RxEngToTxSarReq_update_shift_def Event_basic_def
        Event_retrans_def RstEvent_seq_def Let_def)
  moreover have "no_rt s (fsm_syn_ack s)"
    by (auto simp: no_rt_def fsm_syn_ack_def fsm_writes marked_def RxEngToTxSarReq_update_shift_def Event_basic_def
        RstEvent_seq_def Let_def)
  moreover have "no_rt s (fsm_other s)"
    by (rule no_rt_same) (auto simp: fsm_other_def fsm_writes Let_def)
  moreover have "no_rt s (fsm_fin_ack u s)"
  proof -
    let ?r = "write_clear_rtimer (ack_expected s) s"
    have r: "no_rt s ?r" "rf_tx_sar_reg ?r = rf_tx_sar_reg s" by (simp_all add: no_rt_same write_clear_rtimer_def)
    have "no_rt ?r (fin_tables u ?r)"
      using assms r(2) by (simp add: no_rt_def fin_tables_def fsm_writes RxEngToTxSarReq_update_def Let_def)
    then have t: "no_rt s (fin_tables u ?r)" by (rule no_rt_trans [OF r(1)])
    have "no_rt t (fin_payload t)" for t
      by (rule no_rt_same) (auto simp: fin_payload_def fsm_writes Let_def)
    from no_rt_trans [OF t this] have p: "no_rt s (fin_payload (fin_tables u ?r))" .
    have "no_rt t (fin_state t)" for t
      by (rule no_rt_same) (auto simp: fin_state_def fsm_writes Event_basic_def)
    from no_rt_trans [OF p this] have "no_rt s (fin_state (fin_payload (fin_tables u ?r)))" .
    moreover have "no_rt s (fin_refused ?r)"
      by (rule no_rt_trans [OF r(1)], rule no_rt_same) (auto simp: fin_refused_def fsm_writes Event_basic_def)
    ultimately show ?thesis by (simp add: fsm_fin_ack_def Let_def)
  qed
  ultimately show ?thesis using fsm_ack_no_rt [OF assms] by (simp add: transition_def)
qed

text \<open>Fast retransmit never happens: three duplicate acknowledgments are counted on segments without
  payload, the retransmission is only asked for on segments with payload, and the count of three is
  stored together with the mark that suppresses it.  In every run, as long as the table hands out
  marked entries, no transition asks for a retransmission, and all it writes back is marked again.\<close>

theorem fast_retransmit_never_requested:
  assumes "reaches (\<lambda>s. s = rx_fsm_init) fsm_env (RxEngTcpFsm u) s"
    and "rf_fsm_state s = TRANSITION" and "fsm_responses_ready s"
    and "trr_retrans_count (rf_tx_sar_reg (fsm_read_responses s)) = 3 \<longrightarrow>
      trr_fast_retrans (rf_tx_sar_reg (fsm_read_responses s))"
  shows "filter (\<lambda>e. ev_type e = RT) (rf_set_event (RxEngTcpFsm u s)) = filter (\<lambda>e. ev_type e = RT) (rf_set_event s) \<and>
     (\<exists>reqs. rf_rx_eng_to_tx_sar_req (RxEngTcpFsm u s) = rf_rx_eng_to_tx_sar_req s @ reqs \<and>
       list_all (\<lambda>req. rts_retrans_count req = 3 \<longrightarrow> rts_fast_retrans req) reqs)"
proof -
  have inv: "fsm_inv s" using rx_fsm.reaches_inv [OF assms(1)] .
  note t = responses_inv(1) [OF inv assms(2,3), where u = u] responses_inv(2) [OF inv assms(2,3)]
  have "no_rt (fsm_read_responses s) (RxEngTcpFsm u s)"
    unfolding t(1) by (rule transition_no_rt) (use assms(4) in \<open>simp add: marked_def\<close>)
  moreover have "rf_set_event (fsm_read_responses s) = rf_set_event s"
    "rf_rx_eng_to_tx_sar_req (fsm_read_responses s) = rf_rx_eng_to_tx_sar_req s"
    by (simp_all add: fsm_read_responses_def)
  ultimately show ?thesis by (simp add: no_rt_def marked_def)
qed

theorem fast_retransmit_never_requested_witness:
  "filter (\<lambda>e. ev_type e = RT) (rf_set_event (RxEngTcpFsm 0 (fsm_at (syn_segment True False) ESTABLISHED (rx_entry 100 100)
     (empty_tx\<lparr>trr_next_byte := 50, trr_retrans_count := 3, trr_fast_retrans := True\<rparr>)))) = []"
proof -
  have "rf_set_event (fsm_at m st rx tx) = []" for m st rx tx
    by (simp add: fsm_at_def RxEngTcpFsm_def fsm_load_def rx_fsm_init_def)
  then show ?thesis
    using fast_retransmit_never_requested [OF reaches_fsm_at fsm_at_fields(1,2), of "syn_segment True False" ESTABLISHED
        "rx_entry 100 100" "empty_tx\<lparr>trr_next_byte := 50, trr_retrans_count := 3, trr_fast_retrans := True\<rparr>"]
    by (simp add: fsm_at_fields syn_segment_def TcpHeaderMeta_default_def)
qed

end
