(* ===== verification/Checksum.thy ===== *)
theory Checksum
  imports Memory_Data
begin

text \<open>
  The checksum processes of \<open>utils/axi_utils.hpp\<close> and \<open>utils/axi_utils.cpp\<close>, which the receive
  and the transmit engine instantiate: \<open>ComputeSubChecksum\<close> adds the words of a packet in 32 columns,
  \<open>CheckChecksum\<close> adds the columns.  The specification is the Internet checksum of RFC 1071.
\<close>

section \<open>The two processes\<close>

text \<open>The \<open>ap_uint<17>\<close> sums of a word's 32 columns of 16 bits, and the step that folds the carry of
  a sum back in.\<close>

type_synonym SubChecksum = "17 word list"

definition fold_carry :: "17 word \<Rightarrow> 17 word" where
  "fold_carry s = (s + drop_bit 16 s) AND 0xFFFF"

text \<open>Column \<open>i\<close> of a word: the bytes \<open>2 * i\<close> and \<open>2 * i + 1\<close>, swapped, or the first alone, or none.\<close>

definition half_word :: "NetAXISWord \<Rightarrow> nat \<Rightarrow> 16 word option" where
  "half_word w i =
     (if (get_range (i * 2) (nw_keep w) :: 2 word) = 3 then
        Some (put_range 0 (get_range (i * 16 + 8) (nw_data w) :: 8 word)
          (put_range 8 (get_range (i * 16) (nw_data w) :: 8 word) 0))
      else if bit (nw_keep w) (i * 2) then
        Some (put_range 8 (get_range (i * 16) (nw_data w) :: 8 word) 0)
      else None)"

definition add_half :: "17 word \<Rightarrow> 16 word option \<Rightarrow> 17 word" where
  "add_half s h = (case h of None \<Rightarrow> s | Some temp \<Rightarrow> fold_carry (s + ucast temp))"

definition zero_sums :: SubChecksum where
  "zero_sums = replicate 32 0"

record SubChecksumProc =
  cs_tcp_checksums :: SubChecksum
  cs_pkt_in :: "NetAXISWord stream"
  cs_sub_checksum :: "SubChecksum stream"

definition ComputeSubChecksum :: "SubChecksumProc \<Rightarrow> SubChecksumProc" where
  "ComputeSubChecksum s =
     (case cs_pkt_in s of
        cur_word # rest \<Rightarrow>
          (let sums = map2 add_half (cs_tcp_checksums s) (map (half_word cur_word) [0..<32]) in
           s\<lparr>cs_pkt_in := rest,
             cs_sub_checksum := cs_sub_checksum s @ (if nw_last cur_word then [sums] else []),
             cs_tcp_checksums := (if nw_last cur_word then zero_sums else sums)\<rparr>)
      | [] \<Rightarrow> s)"

text \<open>\<open>sum[i] += sum[i + n]\<close> with the carry folded, for all \<open>i < n\<close>.\<close>

definition add_upper :: "nat \<Rightarrow> SubChecksum \<Rightarrow> SubChecksum" where
  "add_upper n sums =
     map2 (\<lambda>a b. fold_carry (a + b)) (take n sums) (take n (drop n sums)) @ drop n sums"

definition final_sum :: "SubChecksum \<Rightarrow> 17 word" where
  "final_sum sums = hd (add_upper 1 (add_upper 2 (add_upper 4 (add_upper 8 (add_upper 16 sums)))))"

fun CheckChecksum :: "SubChecksum stream \<times> 16 word stream \<Rightarrow> SubChecksum stream \<times> 16 word stream" where
  "CheckChecksum ([], final_checksum) = ([], final_checksum)"
| "CheckChecksum (subsums # sub_checksum, final_checksum) =
     (sub_checksum, final_checksum @ [get_range 0 (NOT (final_sum subsums))])"

section \<open>One's complement sums\<close>

text \<open>The Internet checksum of RFC 1071: 16-bit big-endian words, an odd byte padded with zero, added
  with end-around carry.\<close>

fun be_words :: "8 word list \<Rightarrow> nat list" where
  "be_words [] = []"
| "be_words [a] = [256 * unat a]"
| "be_words (a # b # bs) = (256 * unat a + unat b) # be_words bs"

definition oc_add :: "nat \<Rightarrow> nat \<Rightarrow> nat" where
  "oc_add a b = (if a + b < 65536 then a + b else a + b - 65535)"

definition ones_complement_sum :: "8 word list \<Rightarrow> nat" where
  "ones_complement_sum bs = foldl oc_add 0 (be_words bs)"

text \<open>The value of a sum with end-around carry depends on the total only.\<close>

definition oc :: "nat \<Rightarrow> nat" where
  "oc n = (if n = 0 then 0 else (n - 1) mod 65535 + 1)"

lemma oc_bound: "oc n < 65536"
proof -
  have "(n - 1) mod 65535 < 65535" by simp
  then show ?thesis by (simp add: oc_def)
qed

lemma oc_small: "n < 65536 \<Longrightarrow> oc n = n"
  by (simp add: oc_def)

lemma oc_fold: "65536 \<le> n \<Longrightarrow> n \<le> 131070 \<Longrightarrow> oc n = n - 65535"
proof -
  assume n: "65536 \<le> n" "n \<le> 131070"
  then have "(n - 1) mod 65535 = (n - 1 - 65535) mod 65535" by (intro le_mod_geq) linarith
  also have "\<dots> = n - 65536" using n by (subst mod_less) linarith+
  finally show ?thesis using n by (simp add: oc_def)
qed

lemma oc_oc: "oc (oc a + b) = oc (a + b)"
proof (cases "a = 0")
  case False
  then have "(oc a + b - 1) mod 65535 = ((a - 1) mod 65535 + b) mod 65535" by (simp add: oc_def)
  also have "\<dots> = (a + b - 1) mod 65535" using False by (simp add: mod_simps)
  finally show ?thesis using False by (simp add: oc_def)
qed (simp add: oc_def)

lemma oc_oc2: "oc (a + oc b) = oc (a + b)"
  using oc_oc [of b a] by (simp add: add.commute)

lemma oc_add_oc: "oc_add (oc a) (oc b) = oc (a + b)"
proof -
  have "oc_add (oc a) (oc b) = oc (oc a + oc b)"
    using oc_bound [of a] oc_bound [of b] by (simp add: oc_add_def oc_small oc_fold)
  then show ?thesis by (simp add: oc_oc oc_oc2)
qed

lemma be_words_bound: "list_all (\<lambda>n. n < 65536) (be_words bs)"
proof (induction bs rule: be_words.induct)
  case (2 a)
  have "unat a < 2 ^ LENGTH(8)" by (rule unsigned_less)
  then show ?case by simp
next
  case (3 a b bs)
  have "unat a < 2 ^ LENGTH(8)" "unat b < 2 ^ LENGTH(8)" by (rule unsigned_less)+
  then show ?case using 3 by simp
qed simp

lemma foldl_oc_add:
  "list_all (\<lambda>n. n < 65536) ns \<Longrightarrow> foldl oc_add (oc a) ns = oc (a + sum_list ns)"
proof (induction ns arbitrary: a)
  case (Cons n ns)
  then have "oc_add (oc a) n = oc (a + n)" using oc_add_oc [of a n] by (simp add: oc_small)
  then show ?case using Cons by (simp add: add.assoc)
qed simp

lemma ones_complement_sum_oc: "ones_complement_sum bs = oc (sum_list (be_words bs))"
  using foldl_oc_add [OF be_words_bound, of 0 bs] by (simp add: ones_complement_sum_def oc_def)

lemma be_words_append: "even (length xs) \<Longrightarrow> be_words (xs @ ys) = be_words xs @ be_words ys"
  by (induction xs rule: be_words.induct) simp_all

section \<open>The columns add up\<close>

lemma unat_fold_carry:
  assumes "unat s \<le> 131070"
  shows "unat (fold_carry s) = oc (unat s)"
proof -
  have "unat (drop_bit 16 s) = unat s div 65536"
    by (simp add: drop_bit_eq_div unat_div)
  also have "\<dots> = (if unat s < 65536 then 0 else 1)" using assms by (auto intro: div_nat_eqI)
  finally have c: "unat (drop_bit 16 s) = (if unat s < 65536 then 0 else 1)" .
  then have "unat (s + drop_bit 16 s) = unat s + (if unat s < 65536 then 0 else 1)"
    using assms by (simp add: unat_word_ariths)
  moreover have "s + drop_bit 16 s AND 0xFFFF = take_bit 16 (s + drop_bit 16 s)"
    by (simp add: take_bit_eq_mask mask_eq_decr_exp)
  then have "unat (fold_carry s) = take_bit 16 (unat (s + drop_bit 16 s))"
    by (simp add: fold_carry_def unsigned_take_bit_eq)
  ultimately have "unat (fold_carry s) = (unat s + (if unat s < 65536 then 0 else 1)) mod 65536"
    by (simp add: take_bit_eq_mod)
  then show ?thesis
    using assms by (cases "unat s < 65536") (simp_all add: oc_small oc_fold mod_if)
qed

text \<open>The columns \<open>sums\<close> of a process stand for the exact totals \<open>ts\<close>.\<close>

definition stands_for :: "SubChecksum \<Rightarrow> nat list \<Rightarrow> bool" where
  "stands_for sums ts \<longleftrightarrow> map unat sums = map oc ts"

definition half_value :: "NetAXISWord \<Rightarrow> nat \<Rightarrow> nat" where
  "half_value w i = (case half_word w i of None \<Rightarrow> 0 | Some h \<Rightarrow> unat h)"

lemma fold_carry_add:
  assumes "unat a = oc m" and "unat b = oc n"
  shows "unat (fold_carry (a + b)) = oc (m + n)"
proof -
  have "unat (a + b) = oc m + oc n"
    using assms oc_bound [of m] oc_bound [of n] by (simp add: unat_word_ariths)
  then have "unat (fold_carry (a + b)) = oc (oc m + oc n)"
    using oc_bound [of m] oc_bound [of n] by (simp add: unat_fold_carry)
  then show ?thesis by (simp add: oc_oc oc_oc2)
qed

lemma unat_add_half:
  assumes "unat s = oc t"
  shows "unat (add_half s (half_word w i)) = oc (t + half_value w i)"
proof (cases "half_word w i")
  case None
  then show ?thesis using assms by (simp add: add_half_def half_value_def)
next
  case (Some h)
  have "unat h < 2 ^ LENGTH(16)" by (rule unsigned_less)
  then have "unat (ucast h :: 17 word) = oc (unat h)" by (simp add: unsigned_ucast_eq take_bit_nat_eq_self oc_small)
  then show ?thesis using Some assms fold_carry_add by (simp add: add_half_def half_value_def)
qed

lemma stands_for_word:
  assumes "stands_for sums ts" and "length ts = 32"
  shows "stands_for (map2 add_half sums (map (half_word w) [0..<32])) (map2 (+) ts (map (half_value w) [0..<32]))"
proof -
  have len: "length sums = 32" using assms by (metis length_map stands_for_def)
  have "unat (sums ! i) = oc (ts ! i)" if "i < 32" for i
    using assms len that unfolding stands_for_def by (metis nth_map)
  then show ?thesis
    using assms(2) len by (auto simp: stands_for_def list_eq_iff_nth_eq unat_add_half)
qed

definition add_upper_nat :: "nat \<Rightarrow> nat list \<Rightarrow> nat list" where
  "add_upper_nat n ts = map2 (+) (take n ts) (take n (drop n ts)) @ drop n ts"

lemma stands_for_upper:
  assumes "stands_for sums ts"
  shows "stands_for (add_upper n sums) (add_upper_nat n ts)"
proof -
  have len: "length sums = length ts" using assms by (metis length_map stands_for_def)
  have nth: "unat (sums ! i) = oc (ts ! i)" if "i < length ts" for i
    using assms len that unfolding stands_for_def by (metis nth_map)
  have "map unat (map2 (\<lambda>a b. fold_carry (a + b)) (take n sums) (take n (drop n sums)))
      = map oc (map2 (+) (take n ts) (take n (drop n ts)))"
    by (auto simp: list_eq_iff_nth_eq len nth intro!: fold_carry_add)
  moreover have "map unat (drop n sums) = map oc (drop n ts)"
    using assms unfolding stands_for_def by (metis drop_map)
  ultimately show ?thesis by (simp add: stands_for_def add_upper_def add_upper_nat_def)
qed

lemma sum_map2_add: "length xs = length ys \<Longrightarrow> sum_list (map2 (+) xs ys) = sum_list xs + sum_list (ys :: nat list)"
  by (induction xs ys rule: list_induct2) simp_all

lemma length_add_upper_nat: "2 * n \<le> length ts \<Longrightarrow> length (add_upper_nat n ts) = length ts"
  by (simp add: add_upper_nat_def)

lemma sum_upper:
  assumes "2 * n \<le> length ts"
  shows "sum_list (take n (add_upper_nat n ts)) = sum_list (take (2 * n) ts)"
proof -
  have "sum_list (take n (add_upper_nat n ts)) = sum_list (take n ts) + sum_list (take n (drop n ts))"
    using assms by (simp add: add_upper_nat_def sum_map2_add)
  also have "\<dots> = sum_list (take (n + n) ts)" by (simp only: take_add sum_list_append)
  finally show ?thesis by (simp add: mult_2)
qed

lemma unat_final_sum:
  assumes "stands_for sums ts" and "length ts = 32"
  shows "unat (final_sum sums) = oc (sum_list ts)"
proof -
  let ?t16 = "add_upper_nat 16 ts"
  let ?t8 = "add_upper_nat 8 ?t16"
  let ?t4 = "add_upper_nat 4 ?t8"
  let ?t2 = "add_upper_nat 2 ?t4"
  let ?t1 = "add_upper_nat 1 ?t2"
  have len: "length ?t16 = 32" "length ?t8 = 32" "length ?t4 = 32" "length ?t2 = 32" "length ?t1 = 32"
    using assms(2) by (simp_all add: length_add_upper_nat)
  have "sum_list (take 1 ?t1) = sum_list (take 32 ts)"
    using len assms(2) sum_upper [of 16 ts] sum_upper [of 8 ?t16] sum_upper [of 4 ?t8] sum_upper [of 2 ?t4]
      sum_upper [of 1 ?t2] by simp
  moreover have "take 1 ?t1 = [hd ?t1]" using len(5) by (cases ?t1) auto
  ultimately have hd: "hd ?t1 = sum_list ts" using assms(2) by simp
  have s: "stands_for (add_upper 1 (add_upper 2 (add_upper 4 (add_upper 8 (add_upper 16 sums))))) ?t1"
    using assms(1) by (intro stands_for_upper)
  then have "map unat (add_upper 1 (add_upper 2 (add_upper 4 (add_upper 8 (add_upper 16 sums))))) \<noteq> []"
    using len(5) by (auto simp: stands_for_def)
  then have "unat (final_sum sums) = hd (map oc ?t1)"
    using s by (simp add: final_sum_def stands_for_def flip: hd_map)
  also have "\<dots> = oc (hd ?t1)" using len(5) by (cases ?t1) auto
  finally show ?thesis by (simp only: hd)
qed

section \<open>The checksum of a packet\<close>

lemma unat_byte_pair:
  "unat (put_range 0 (b :: 8 word) (put_range 8 (a :: 8 word) (0 :: 16 word))) = 256 * unat a + unat b"
proof -
  have a: "unat a < 2 ^ LENGTH(8)" "unat b < 2 ^ LENGTH(8)" by (rule unsigned_less)+
  have "put_range 0 b (put_range 8 a (0 :: 16 word)) = push_bit 8 (ucast a) OR ucast b"
    by (rule bit_word_eqI) (auto simp: bit_field bit_simps dest: bit_imp_le_length)
  also have "\<dots> = push_bit 8 (ucast a) + ucast b"
    by (rule disjunctive_add [symmetric]) (auto simp: bit_simps dest: bit_imp_le_length)
  finally show ?thesis
    using a by (simp add: unat_word_ariths push_bit_eq_mult unsigned_ucast_eq take_bit_nat_eq_self)
qed

lemma keep_pair: "(get_range n k :: 2 word) = 3 \<longleftrightarrow> bit k n \<and> bit k (Suc n)"
proof -
  have "(get_range n k :: 2 word) = 3 \<longleftrightarrow> (\<forall>i < 2. bit (get_range n k :: 2 word) i \<longleftrightarrow> bit (mask 2 :: 2 word) i)"
    by (auto simp: mask_eq_decr_exp intro: bit_word_eqI)
  then show ?thesis by (auto simp: bit_field bit_simps less_2_cases_iff)
qed

definition kept :: "NetAXISWord \<Rightarrow> nat \<Rightarrow> nat" where
  "kept w i = (if bit (nw_keep w) i then unat (word_byte w i) else 0)"

lemma half_value_bytes:
  assumes "bit (nw_keep w) (2 * i + 1) \<Longrightarrow> bit (nw_keep w) (2 * i)"
  shows "half_value w i = 256 * kept w (2 * i) + kept w (2 * i + 1)"
proof -
  have b: "word_byte w (2 * i) = get_range (i * 16) (nw_data w)"
    "word_byte w (Suc (2 * i)) = get_range (i * 16 + 8) (nw_data w)" "i * 2 = 2 * i"
    by (simp_all add: word_byte_def ac_simps)
  have z: "unat (put_range 8 (a :: 8 word) (0 :: 16 word)) = 256 * unat a" for a
  proof -
    have "put_range 0 (0 :: 8 word) (put_range 8 a (0 :: 16 word)) = put_range 8 a 0"
      by (rule bit_word_eqI) (auto simp: bit_field)
    then show ?thesis using unat_byte_pair [of 0 a] by simp
  qed
  show ?thesis
    using assms by (auto simp: half_value_def half_word_def keep_pair kept_def b unat_byte_pair z)
qed

text \<open>Weights of the bytes: the even ones are the high halves of the 16-bit words.\<close>

lemma be_words_weights:
  "sum_list (be_words bs) = (\<Sum>i < length bs. (if even i then 256 else 1) * unat (bs ! i))"
proof (induction bs rule: be_words.induct)
  case (3 a b bs)
  then show ?case by (simp add: sum.lessThan_Suc_shift del: sum.lessThan_Suc)
qed simp_all

lemma sum_pairs:
  fixes g :: "nat \<Rightarrow> nat" and n :: nat
  shows "(\<Sum>i < 2 * n. g i) = (\<Sum>i < n. g (2 * i) + g (2 * i + 1))"
  by (induction n) simp_all

lemma word_total:
  assumes "nw_keep w = - 1 \<or> nw_keep w = mask j \<and> j \<le> 64"
  shows "sum_list (map (half_value w) [0..<32]) = sum_list (be_words (word_bytes w))"
proof -
  define m where "m = (if nw_keep w = - 1 then 64 else j)"
  have m: "m \<le> 64" "\<And>i. i < 64 \<Longrightarrow> bit (nw_keep w) i \<longleftrightarrow> i < m" "word_bytes w = map (word_byte w) [0..<m]"
    using assms by (auto simp: m_def bit_simps word_bytes_full word_bytes_mask)
  have "sum_list (map (half_value w) [0..<32]) = (\<Sum>i < 32. half_value w i)"
    by (simp add: interv_sum_list_conv_sum_set_nat atLeast0LessThan)
  also have "\<dots> = (\<Sum>i < 32. 256 * kept w (2 * i) + kept w (2 * i + 1))"
    by (intro sum.cong refl half_value_bytes) (use m(2) in auto)
  also have "\<dots> = (\<Sum>i < 64. (if even i then 256 else 1) * kept w i)"
    using sum_pairs [of "\<lambda>i. (if even i then 256 else 1) * kept w i" 32] by simp
  also have "\<dots> = (\<Sum>i < m. (if even i then 256 else 1) * kept w i)"
    using m(1,2) by (intro sum.mono_neutral_right) (auto simp: kept_def)
  also have "\<dots> = (\<Sum>i < m. (if even i then 256 else 1) * unat (word_byte w i))"
    using m(1,2) by (intro sum.cong refl) (simp add: kept_def)
  also have "\<dots> = sum_list (be_words (word_bytes w))"
    by (simp add: be_words_weights m(3))
  finally show ?thesis .
qed

lemma packet_total:
  assumes "is_packet (w # ws)"
  shows "sum_list (be_words (packet_bytes (w # ws))) =
     sum_list (map (half_value w) [0..<32]) + sum_list (be_words (packet_bytes ws))"
proof (cases "ws = []")
  case True
  then obtain j where "nw_keep w = mask j" "j \<le> 64" using assms by (auto simp: packet_Cons)
  then show ?thesis using True word_total [of w j] by simp
next
  case False
  then show ?thesis using assms word_total [of w 0] by (simp add: packet_Cons be_words_append word_bytes_full)
qed

lemma compute_run:
  assumes "is_packet ws" and "cs_pkt_in s = ws @ rest" and "stands_for (cs_tcp_checksums s) ts" and "length ts = 32"
  shows "\<exists>c. (ComputeSubChecksum ^^ length ws) s = s
      \<lparr>cs_pkt_in := rest, cs_sub_checksum := cs_sub_checksum s @ [c], cs_tcp_checksums := zero_sums\<rparr> \<and>
     unat (final_sum c) = oc (sum_list ts + sum_list (be_words (packet_bytes ws)))"
  using assms
proof (induction ws arbitrary: s ts)
  case (Cons w ws)
  let ?sums = "map2 add_half (cs_tcp_checksums s) (map (half_word w) [0..<32])"
  let ?ts = "map2 (+) ts (map (half_value w) [0..<32])"
  have st: "stands_for ?sums ?ts" "length ?ts = 32"
    using stands_for_word [OF Cons.prems(3,4)] Cons.prems(4) by simp_all
  have total: "sum_list ?ts + sum_list (be_words (packet_bytes ws))
      = sum_list ts + sum_list (be_words (packet_bytes (w # ws)))"
    using packet_total [OF Cons.prems(1)] Cons.prems(4) by (simp add: sum_map2_add del: packet_bytes_simps(2))
  have step: "ComputeSubChecksum s = s\<lparr>cs_pkt_in := ws @ rest,
      cs_sub_checksum := cs_sub_checksum s @ (if nw_last w then [?sums] else []),
      cs_tcp_checksums := (if nw_last w then zero_sums else ?sums)\<rparr>"
    using Cons.prems(2) by (simp add: ComputeSubChecksum_def Let_def)
  show ?case
  proof (cases "ws = []")
    case True
    then have "nw_last w" using Cons.prems(1) by (simp add: packet_Cons)
    moreover have "unat (final_sum ?sums) = oc (sum_list ts + sum_list (be_words (packet_bytes (w # ws))))"
      using unat_final_sum [OF st] total True by simp
    ultimately show ?thesis using True step by auto
  next
    case False
    then have w: "\<not> nw_last w" "is_packet ws" using Cons.prems(1) by (simp_all add: packet_Cons)
    have "\<exists>c. (ComputeSubChecksum ^^ length ws) (ComputeSubChecksum s) = (ComputeSubChecksum s)
      \<lparr>cs_pkt_in := rest, cs_sub_checksum := cs_sub_checksum (ComputeSubChecksum s) @ [c], cs_tcp_checksums := zero_sums\<rparr> \<and>
     unat (final_sum c) = oc (sum_list ?ts + sum_list (be_words (packet_bytes ws)))"
      using w st by (intro Cons.IH) (simp_all add: step)
    then show ?thesis
      using w(1) by (simp only: length_Cons funpow_Suc_apply total) (simp add: step)
  qed
qed (simp add: is_packet_def)

lemma packet_checksum:
  assumes "is_packet ws" and "cs_pkt_in s = ws @ rest" and "cs_tcp_checksums s = zero_sums"
  shows "\<exists>c. (ComputeSubChecksum ^^ length ws) s = s\<lparr>cs_pkt_in := rest, cs_sub_checksum := cs_sub_checksum s @ [c]\<rparr> \<and>
     CheckChecksum ([c], out) = ([], out @ [NOT (word_of_nat (ones_complement_sum (packet_bytes ws)))])"
proof -
  have "stands_for (cs_tcp_checksums s) (replicate 32 0)"
    using assms(3) by (simp add: stands_for_def zero_sums_def oc_def)
  from compute_run [OF assms(1,2) this] obtain c where c:
    "(ComputeSubChecksum ^^ length ws) s = s
      \<lparr>cs_pkt_in := rest, cs_sub_checksum := cs_sub_checksum s @ [c], cs_tcp_checksums := zero_sums\<rparr>"
    "unat (final_sum c) = ones_complement_sum (packet_bytes ws)"
    by (auto simp: ones_complement_sum_oc sum_list_replicate)
  have "(get_range 0 (NOT f) :: 16 word) = NOT (word_of_nat (unat (f :: 17 word)))" for f
    by (rule bit_word_eqI) (auto simp: bit_field bit_simps bit_unsigned_iff)
  then have "(get_range 0 (NOT (final_sum c)) :: 16 word) = NOT (word_of_nat (ones_complement_sum (packet_bytes ws)))"
    by (simp flip: c(2))
  moreover have "s\<lparr>cs_pkt_in := rest, cs_sub_checksum := cs_sub_checksum s @ [c], cs_tcp_checksums := zero_sums\<rparr>
      = s\<lparr>cs_pkt_in := rest, cs_sub_checksum := cs_sub_checksum s @ [c]\<rparr>"
    using assms(3) by (cases s) simp
  ultimately show ?thesis using c(1) by auto
qed

text \<open>C10: The checksum the two processes compute for a packet is the Internet checksum of RFC 1071: the
  complement of the one's complement sum of its bytes as 16-bit big-endian words, for packets of
  any number of words, an odd number of bytes included; the sums are cleared for the next packet.\<close>

theorem packet_checksum_is_rfc1071:
  assumes "is_packet ws" and "cs_pkt_in s = ws @ rest" and "cs_tcp_checksums s = zero_sums"
  shows "\<exists>c. (ComputeSubChecksum ^^ length ws) s = s\<lparr>cs_pkt_in := rest, cs_sub_checksum := cs_sub_checksum s @ [c]\<rparr> \<and>
     CheckChecksum ([c], out) = ([], out @ [NOT (word_of_nat (ones_complement_sum (packet_bytes ws)))])"
  using assms by (rule packet_checksum)

theorem packet_checksum_is_rfc1071_witness:
  "\<exists>c. ComputeSubChecksum \<lparr>cs_tcp_checksums = zero_sums, cs_pkt_in = [split_word], cs_sub_checksum = []\<rparr>
     = \<lparr>cs_tcp_checksums = zero_sums, cs_pkt_in = [], cs_sub_checksum = [c]\<rparr> \<and>
     CheckChecksum ([c], []) = ([], [NOT 0x4422])"
  using packet_checksum_is_rfc1071 [of "[split_word]"
      "\<lparr>cs_tcp_checksums = zero_sums, cs_pkt_in = [split_word], cs_sub_checksum = []\<rparr>" "[]" "[]"] split_word_packet
  by (simp add: ones_complement_sum_def oc_add_def)

lemma oc_full: "oc n = 65535 \<longleftrightarrow> 0 < n \<and> 65535 dvd n"
proof -
  have "(if n = 0 then 0 else (n - 1) mod m + 1) = m \<longleftrightarrow> 0 < n \<and> m dvd n" if "0 < m" for m
    using that by (cases n) (auto simp: dvd_eq_mod_eq_0 mod_Suc)
  from this [of 65535] show ?thesis by (simp only: oc_def zero_less_numeral simp_thms)
qed

text \<open>Verification: the result is zero, which the receiver takes as a valid checksum, exactly when the
  16-bit words of the packet add up to a positive multiple of 65535.\<close>

theorem checksum_zero_iff_valid:
  assumes "is_packet ws" and "cs_pkt_in s = ws @ rest" and "cs_tcp_checksums s = zero_sums" and "cs_sub_checksum s = []"
  shows "snd (CheckChecksum (cs_sub_checksum ((ComputeSubChecksum ^^ length ws) s), [])) = [0] \<longleftrightarrow>
     0 < sum_list (be_words (packet_bytes ws)) \<and> 65535 dvd sum_list (be_words (packet_bytes ws))"
proof -
  let ?n = "sum_list (be_words (packet_bytes ws))"
  have "NOT x = 0 \<longleftrightarrow> x = - 1" for x :: "16 word"
    by (metis bit.double_compl bit.compl_zero)
  moreover have "(- 1 :: 16 word) = word_of_nat 65535"
    by (simp add: word_unat_eq_iff unsigned_minus_1_eq_mask mask_eq_exp_minus_1)
  ultimately have "(NOT (word_of_nat (oc ?n)) :: 16 word) = 0 \<longleftrightarrow> (word_of_nat (oc ?n) :: 16 word) = word_of_nat 65535"
    by simp
  also have "\<dots> \<longleftrightarrow> oc ?n = 65535"
    using oc_bound [of ?n] by (simp only: word_of_nat_eq_iff) (simp add: take_bit_nat_eq_self)
  also have "\<dots> \<longleftrightarrow> 0 < ?n \<and> 65535 dvd ?n"
    by (rule oc_full)
  finally show ?thesis
    using packet_checksum [OF assms(1-3), of "[]"] assms(4) by (auto simp: ones_complement_sum_oc)
qed

theorem checksum_zero_iff_valid_witness:
  "snd (CheckChecksum (cs_sub_checksum ((ComputeSubChecksum ^^ 1)
     \<lparr>cs_tcp_checksums = zero_sums, cs_pkt_in = [split_word], cs_sub_checksum = []\<rparr>), [])) \<noteq> [0]"
proof -
  have "sum_list (be_words (packet_bytes [split_word])) = 0x4422" using split_word_packet by simp
  then show ?thesis
    using checksum_zero_iff_valid [of "[split_word]"
        "\<lparr>cs_tcp_checksums = zero_sums, cs_pkt_in = [split_word], cs_sub_checksum = []\<rparr>" "[]"] split_word_packet(2)
    by (simp del: packet_bytes_simps)
qed

end
