(* ===== verification/Rx_Engine.thy ===== *)
theory Rx_Engine
  imports Rx_Packet Rx_Options Rx_Fsm_Props Checksum
begin

text \<open>
  The wrapper \<open>rx_engine\<close> of \<open>rx_engine/rx_engine.cpp\<close>: one record with the records of its processes,
  which hold the streams between them, and one cycle that runs the processes in the order of the
  source.  What a process writes for another is moved to the reader before the reader runs.  The
  theorems carry what the processes guarantee on their own over to their composition.
\<close>

section \<open>State\<close>

record RxEngine =
  re_pseudo :: RxPseudo
  re_sub_checksum :: SubChecksumProc
  re_parse :: RxParse
  re_options :: RxOptions
  re_verify :: RxVerify
  re_meta :: RxMeta
  re_dropper :: RxDropper
  re_fsm :: RxFsm
  re_write :: WriteData
  re_notify :: RxNotify
  re_rx_eng_to_event_eng_set_event :: "EventWithTuple stream"

section \<open>One cycle\<close>

text \<open>Each definition is one call of the wrapper, with the streams that it reads.\<close>

definition run_pseudo :: "RxEngine \<Rightarrow> RxEngine" where
  "run_pseudo s = s\<lparr>re_pseudo := RxEngTcpPseudoHeaderInsert (re_pseudo s)\<rparr>"

definition run_checksum :: "RxEngine \<Rightarrow> RxEngine" where
  "run_checksum s =
     (let sums = ComputeSubChecksum ((re_sub_checksum s)\<lparr>cs_pkt_in := cs_pkt_in (re_sub_checksum s) @
            ri_tcp_pseudo_packet_for_checksum (re_pseudo s)\<rparr>);
          (rest, checksums) = CheckChecksum (cs_sub_checksum sums, rv_tcp_checksum_in (re_verify s)) in
      s\<lparr>re_pseudo := (re_pseudo s)\<lparr>ri_tcp_pseudo_packet_for_checksum := []\<rparr>,
        re_sub_checksum := sums\<lparr>cs_sub_checksum := rest\<rparr>,
        re_verify := (re_verify s)\<lparr>rv_tcp_checksum_in := checksums\<rparr>\<rparr>)"

definition run_parse :: "RxEngine \<Rightarrow> RxEngine" where
  "run_parse s =
     s\<lparr>re_parse := RxEngParseTcpHeader ((re_parse s)\<lparr>rp_tcp_pseudo_packet := rp_tcp_pseudo_packet (re_parse s) @
         ri_tcp_pseudo_packet_for_rx_eng (re_pseudo s)\<rparr>),
       re_pseudo := (re_pseudo s)\<lparr>ri_tcp_pseudo_packet_for_rx_eng := []\<rparr>\<rparr>"

definition run_options :: "RxEngine \<Rightarrow> RxEngine" where
  "run_options s =
     s\<lparr>re_options := RxEngParseTcpHeaderOptions ((re_options s)\<lparr>ro_tcp_meta_data_in := ro_tcp_meta_data_in (re_options s) @
         rp_tcp_meta_data (re_parse s)\<rparr>),
       re_parse := (re_parse s)\<lparr>rp_tcp_meta_data := []\<rparr>\<rparr>"

definition run_verify :: "RxEngine \<Rightarrow> RxEngine" where
  "run_verify s =
     s\<lparr>re_verify := RxEngVerifyChecksumAndPort ((re_verify s)\<lparr>rv_tcp_meta_data_in := rv_tcp_meta_data_in (re_verify s) @
         ro_tcp_meta_data_out (re_options s)\<rparr>),
       re_options := (re_options s)\<lparr>ro_tcp_meta_data_out := []\<rparr>\<rparr>"

definition run_meta :: "RxEngine \<Rightarrow> RxEngine" where
  "run_meta s =
     s\<lparr>re_meta := RxEngTcpMetaHandler ((re_meta s)\<lparr>rm_tcp_meta_data_in := rm_tcp_meta_data_in (re_meta s) @
         rv_tcp_meta_data_out (re_verify s)\<rparr>),
       re_verify := (re_verify s)\<lparr>rv_tcp_meta_data_out := []\<rparr>\<rparr>"

text \<open>The dropper stands before the state machine in the source, so it sees the verdicts of the state
  machine one cycle later.\<close>

definition run_dropper :: "RxEngine \<Rightarrow> RxEngine" where
  "run_dropper s =
     (let d = re_dropper s; m = re_meta s in
      s\<lparr>re_dropper := RxEngTcpPayloadDropper (d
          \<lparr>dp_tcp_payload_in := dp_tcp_payload_in d @ rp_tcp_payload (re_parse s),
           dp_dropped_by_checksum := dp_dropped_by_checksum d @ rv_tcp_payload_dropped_by_checksum (re_verify s),
           dp_dropped_by_port_or_session :=
             dp_dropped_by_port_or_session d @ rm_tcp_payload_dropped_by_port_or_session m,
           dp_tcp_payload_tdest := dp_tcp_payload_tdest d @ rm_tcp_payload_tdest m,
           dp_dropped_by_rx_fsm := dp_dropped_by_rx_fsm d @ rf_tcp_payload_dropped_by_rx_fsm (re_fsm s)\<rparr>),
        re_parse := (re_parse s)\<lparr>rp_tcp_payload := []\<rparr>,
        re_verify := (re_verify s)\<lparr>rv_tcp_payload_dropped_by_checksum := []\<rparr>,
        re_meta := m\<lparr>rm_tcp_payload_dropped_by_port_or_session := [], rm_tcp_payload_tdest := []\<rparr>,
        re_fsm := (re_fsm s)\<lparr>rf_tcp_payload_dropped_by_rx_fsm := []\<rparr>\<rparr>)"

definition run_fsm :: "4 word \<Rightarrow> RxEngine \<Rightarrow> RxEngine" where
  "run_fsm u s =
     s\<lparr>re_fsm := RxEngTcpFsm u ((re_fsm s)\<lparr>rf_rx_eng_fsm_meta_data_in := rf_rx_eng_fsm_meta_data_in (re_fsm s) @
         rm_rx_eng_fsm_meta_data_out (re_meta s)\<rparr>),
       re_meta := (re_meta s)\<lparr>rm_rx_eng_fsm_meta_data_out := []\<rparr>\<rparr>"

definition run_write :: "RxEngine \<Rightarrow> RxEngine" where
  "run_write s =
     s\<lparr>re_write := WriteDataToMem ((re_write s)
         \<lparr>wd_mem_write_cmd := wd_mem_write_cmd (re_write s) @ rf_rx_eng_to_mem_cmd (re_fsm s),
          wd_mem_write_data := wd_mem_write_data (re_write s) @ dp_tcp_payload_out (re_dropper s)\<rparr>),
       re_fsm := (re_fsm s)\<lparr>rf_rx_eng_to_mem_cmd := []\<rparr>,
       re_dropper := (re_dropper s)\<lparr>dp_tcp_payload_out := []\<rparr>\<rparr>"

definition run_notify :: "RxEngine \<Rightarrow> RxEngine" where
  "run_notify s =
     s\<lparr>re_notify := RxEngNotificaionHandler ((re_notify s)
         \<lparr>rn_mem_buffer_double_access_flag :=
            rn_mem_buffer_double_access_flag (re_notify s) @ wd_mem_buffer_double_access_flag (re_write s),
          rn_rx_eng_to_rx_app_notification_cache :=
            rn_rx_eng_to_rx_app_notification_cache (re_notify s) @ rf_rx_eng_to_rx_app_notification (re_fsm s)\<rparr>),
       re_write := (re_write s)\<lparr>wd_mem_buffer_double_access_flag := []\<rparr>,
       re_fsm := (re_fsm s)\<lparr>rf_rx_eng_to_rx_app_notification := []\<rparr>\<rparr>"

definition run_events :: "RxEngine \<Rightarrow> RxEngine" where
  "run_events s =
     (case RxEngEventMerger (rm_rx_eng_meta_to_event_eng_set_event (re_meta s)) (rf_set_event (re_fsm s))
             (re_rx_eng_to_event_eng_set_event s) of
        (meta_events, fsm_events, out) \<Rightarrow>
          s\<lparr>re_meta := (re_meta s)\<lparr>rm_rx_eng_meta_to_event_eng_set_event := meta_events\<rparr>,
            re_fsm := (re_fsm s)\<lparr>rf_set_event := fsm_events\<rparr>,
            re_rx_eng_to_event_eng_set_event := out\<rparr>)"

definition rx_engine :: "4 word \<Rightarrow> RxEngine \<Rightarrow> RxEngine" where
  "rx_engine u s =
     run_events (run_notify (run_write (run_fsm u (run_dropper (run_meta (run_verify (run_options
       (run_parse (run_checksum (run_pseudo s))))))))))"

text \<open>Power-up.\<close>

definition rx_engine_init :: RxEngine where
  "rx_engine_init =
     \<lparr>re_pseudo = rx_pseudo_init,
      re_sub_checksum = \<lparr>cs_tcp_checksums = zero_sums, cs_pkt_in = [], cs_sub_checksum = []\<rparr>,
      re_parse = rx_parse_init, re_options = rx_options_init, re_verify = rx_verify_init, re_meta = rx_meta_init,
      re_dropper = rx_dropper_init, re_fsm = rx_fsm_init, re_write = write_data_init, re_notify = rx_notify_init,
      re_rx_eng_to_event_eng_set_event = []\<rparr>"

lemmas rx_engine_calls = run_pseudo_def run_checksum_def run_parse_def run_options_def run_verify_def run_meta_def
  run_dropper_def run_fsm_def run_write_def run_notify_def run_events_def

section \<open>The composition runs its processes\<close>

text \<open>The state machine in one cycle of the wrapper: its inputs are extended, it makes one step, and
  other processes take from its outputs.\<close>

lemma fsm_of_calls [simp]:
  "re_fsm (run_pseudo s) = re_fsm s" "re_fsm (run_checksum s) = re_fsm s" "re_fsm (run_parse s) = re_fsm s"
  "re_fsm (run_options s) = re_fsm s" "re_fsm (run_verify s) = re_fsm s" "re_fsm (run_meta s) = re_fsm s"
  "re_fsm (run_dropper s) = (re_fsm s)\<lparr>rf_tcp_payload_dropped_by_rx_fsm := []\<rparr>"
  "re_fsm (run_fsm u s) = RxEngTcpFsm u ((re_fsm s)\<lparr>rf_rx_eng_fsm_meta_data_in :=
     rf_rx_eng_fsm_meta_data_in (re_fsm s) @ rm_rx_eng_fsm_meta_data_out (re_meta s)\<rparr>)"
  "re_fsm (run_write s) = (re_fsm s)\<lparr>rf_rx_eng_to_mem_cmd := []\<rparr>"
  "re_fsm (run_notify s) = (re_fsm s)\<lparr>rf_rx_eng_to_rx_app_notification := []\<rparr>"
  by (simp_all add: rx_engine_calls Let_def split_beta)

lemma fsm_of_events: "\<exists>evs. re_fsm (run_events s) = (re_fsm s)\<lparr>rf_set_event := evs\<rparr>"
  by (auto simp: run_events_def split: prod.split)

lemma fsm_of_engine:
  "\<exists>metas evs. re_fsm (rx_engine u s) =
     (RxEngTcpFsm u ((re_fsm s)\<lparr>rf_tcp_payload_dropped_by_rx_fsm := [],
        rf_rx_eng_fsm_meta_data_in := rf_rx_eng_fsm_meta_data_in (re_fsm s) @ metas\<rparr>))
     \<lparr>rf_rx_eng_to_mem_cmd := [], rf_rx_eng_to_rx_app_notification := [], rf_set_event := evs\<rparr>"
proof -
  let ?f = "run_fsm u (run_dropper (run_meta (run_verify (run_options (run_parse (run_checksum (run_pseudo s)))))))"
  obtain evs where "re_fsm (rx_engine u s) = (re_fsm (run_notify (run_write ?f)))\<lparr>rf_set_event := evs\<rparr>"
    using fsm_of_events unfolding rx_engine_def by blast
  then show ?thesis by (intro exI) simp
qed

text \<open>Between two cycles the environment extends and consumes the streams at the boundary; of the state
  machine it cannot touch the statics.\<close>

definition rx_engine_env :: "RxEngine \<Rightarrow> RxEngine \<Rightarrow> bool" where
  "rx_engine_env s t \<longleftrightarrow> fsm_env (re_fsm s) (re_fsm t)"

lemma re_fsm_init [simp]: "re_fsm rx_engine_init = rx_fsm_init"
  by (simp add: rx_engine_init_def)

interpretation engine_fsm: projection "\<lambda>s. s = rx_engine_init" rx_engine_env "rx_engine u"
    re_fsm "\<lambda>s. s = rx_fsm_init" fsm_env "RxEngTcpFsm u" for u
proof
  fix s
  obtain metas evs where "re_fsm (rx_engine u s) =
     (RxEngTcpFsm u ((re_fsm s)\<lparr>rf_tcp_payload_dropped_by_rx_fsm := [],
        rf_rx_eng_fsm_meta_data_in := rf_rx_eng_fsm_meta_data_in (re_fsm s) @ metas\<rparr>))
     \<lparr>rf_rx_eng_to_mem_cmd := [], rf_rx_eng_to_rx_app_notification := [], rf_set_event := evs\<rparr>"
    using fsm_of_engine by blast
  then show "\<exists>a. fsm_env (re_fsm s) a \<and> fsm_env (RxEngTcpFsm u a) (re_fsm (rx_engine u s))"
    by (intro exI [of _ "(re_fsm s)\<lparr>rf_tcp_payload_dropped_by_rx_fsm := [],
        rf_rx_eng_fsm_meta_data_in := rf_rx_eng_fsm_meta_data_in (re_fsm s) @ metas\<rparr>"]) (simp add: fsm_env_def)
qed (simp_all add: rx_engine_env_def)

section \<open>The engine follows TCP\<close>

lemma responses_extended:
  "fsm_read_responses (f\<lparr>rf_tcp_payload_dropped_by_rx_fsm := ds, rf_rx_eng_fsm_meta_data_in := metas\<rparr>) =
     (fsm_read_responses f)\<lparr>rf_tcp_payload_dropped_by_rx_fsm := ds, rf_rx_eng_fsm_meta_data_in := metas\<rparr>"
  by (simp add: fsm_read_responses_def)

lemma stale_ack_extended:
  "stale_ack (f\<lparr>rf_tcp_payload_dropped_by_rx_fsm := ds, rf_rx_eng_fsm_meta_data_in := metas\<rparr>) = stale_ack f"
  by (simp add: stale_ack_def ack_in_range_def)

lemma segment_event_extended:
  "segment_event (f\<lparr>rf_tcp_payload_dropped_by_rx_fsm := ds, rf_rx_eng_fsm_meta_data_in := metas\<rparr>) = segment_event f"
  by (simp add: segment_event_def ack_expected_def Let_def cong: if_cong)

lemma effects_extended:
  "effects (f\<lparr>rf_tcp_payload_dropped_by_rx_fsm := ds, rf_rx_eng_fsm_meta_data_in := metas\<rparr>) st t = effects f st t"
  "effects f st (t\<lparr>rf_rx_eng_to_mem_cmd := cmds, rf_rx_eng_to_rx_app_notification := ns, rf_set_event := evs\<rparr>) =
     effects f st t"
  by (simp_all add: effects_def cong: if_cong)

text \<open>C2: Every transition of the receive engine, in any run of its ten processes, follows the TCP state
  diagram: it asks the state table for exactly the state that the diagram gives for the session's
  state and the segment, which also releases the session; entering TIME-WAIT arms the close timer,
  completing a handshake tells the application, and none of this happens otherwise.  The exception
  is a stale acknowledgment, for which the engine asks for nothing at all.\<close>

theorem rx_engine_follows_tcp:
  assumes "reaches (\<lambda>s. s = rx_engine_init) rx_engine_env (rx_engine u) s"
    and "rf_fsm_state (re_fsm s) = TRANSITION" and "fsm_responses_ready (re_fsm s)"
  shows "let r = fsm_read_responses (re_fsm s); t = re_fsm (rx_engine u s) in
     if stale_ack r then
       rf_rx_eng_to_sttable_req t = rf_rx_eng_to_sttable_req (re_fsm s) \<and>
       rf_rx_eng_to_timer_set_ctimer t = rf_rx_eng_to_timer_set_ctimer (re_fsm s)
     else \<exists>st'. tcp_rx (rf_session_state_reg r) (segment_event r) st' \<and> effects r st' t"
proof -
  obtain metas evs where e: "re_fsm (rx_engine u s) =
     (RxEngTcpFsm u ((re_fsm s)\<lparr>rf_tcp_payload_dropped_by_rx_fsm := [],
        rf_rx_eng_fsm_meta_data_in := rf_rx_eng_fsm_meta_data_in (re_fsm s) @ metas\<rparr>))
     \<lparr>rf_rx_eng_to_mem_cmd := [], rf_rx_eng_to_rx_app_notification := [], rf_set_event := evs\<rparr>"
    using fsm_of_engine by blast
  let ?f = "(re_fsm s)\<lparr>rf_tcp_payload_dropped_by_rx_fsm := [],
        rf_rx_eng_fsm_meta_data_in := rf_rx_eng_fsm_meta_data_in (re_fsm s) @ metas\<rparr>"
  have "reaches (\<lambda>s. s = rx_fsm_init) fsm_env (RxEngTcpFsm u) ?f"
    by (rule reaches_env [OF engine_fsm.reaches_proj [OF assms(1)]]) (simp add: fsm_env_def)
  note f = fsm_follows_tcp [OF this]
  have "rf_fsm_state ?f = TRANSITION" "fsm_responses_ready ?f"
    using assms(2,3) by (simp_all add: fsm_responses_ready_def)
  from f [OF this] show ?thesis
    unfolding responses_extended stale_ack_extended segment_event_extended effects_extended e Let_def
    by (cases "stale_ack (fsm_read_responses (re_fsm s))") simp_all
qed

text \<open>A run of the engine in which the state machine has loaded a segment and has its answers.\<close>

definition engine_at :: "RxEngFsmMetaData \<Rightarrow> SessionState \<Rightarrow> RxSarTableEntry \<Rightarrow> TxSarToRxEngRsp \<Rightarrow> RxEngine" where
  "engine_at meta st rx tx =
     (rx_engine 0 (rx_engine_init\<lparr>re_fsm := rx_fsm_init\<lparr>rf_rx_eng_fsm_meta_data_in := [meta]\<rparr>\<rparr>))
       \<lparr>re_fsm := fsm_at meta st rx tx\<rparr>"

lemma reaches_engine_at:
  "reaches (\<lambda>s. s = rx_engine_init) rx_engine_env (rx_engine 0) (engine_at meta st rx tx)"
proof -
  let ?i = "rx_engine_init\<lparr>re_fsm := rx_fsm_init\<lparr>rf_rx_eng_fsm_meta_data_in := [meta]\<rparr>\<rparr>"
  have i: "reaches (\<lambda>s. s = rx_engine_init) rx_engine_env (rx_engine 0) ?i"
    by (rule reaches_env [of _ _ _ rx_engine_init]) (simp_all add: reaches_ini rx_engine_env_def fsm_env_def)
  obtain metas evs where "re_fsm (rx_engine 0 ?i) =
     (RxEngTcpFsm 0 ((re_fsm ?i)\<lparr>rf_tcp_payload_dropped_by_rx_fsm := [],
        rf_rx_eng_fsm_meta_data_in := rf_rx_eng_fsm_meta_data_in (re_fsm ?i) @ metas\<rparr>))
     \<lparr>rf_rx_eng_to_mem_cmd := [], rf_rx_eng_to_rx_app_notification := [], rf_set_event := evs\<rparr>"
    using fsm_of_engine by blast
  then have "fsm_env (re_fsm (rx_engine 0 ?i)) (fsm_at meta st rx tx)"
    by (simp add: fsm_env_def fsm_at_def RxEngTcpFsm_def fsm_load_def rx_fsm_init_def)
  then show ?thesis
    unfolding engine_at_def by (intro reaches_env [OF reaches_cycle [OF i]]) (simp add: rx_engine_env_def)
qed

lemma re_fsm_engine_at [simp]: "re_fsm (engine_at meta st rx tx) = fsm_at meta st rx tx"
  by (simp add: engine_at_def)

theorem rx_engine_follows_tcp_witness:
  "rf_rx_eng_to_sttable_req (re_fsm (rx_engine 0 (engine_at (syn_segment False False) CLOSED (rx_entry 0 0) empty_tx))) =
     [StateTableReq_read 5, StateTableReq_write 5 SYN_RECEIVED]"
proof -
  let ?s = "engine_at (syn_segment False False) CLOSED (rx_entry 0 0) empty_tx"
  let ?r = "fsm_read_responses (fsm_at (syn_segment False False) CLOSED (rx_entry 0 0) empty_tx)"
  have e: "segment_event ?r = Syn" "\<not> stale_ack ?r"
    by (simp_all add: segment_event_def stale_ack_def fsm_at_fields syn_segment_def TcpHeaderMeta_default_def Let_def)
  obtain st' where st: "tcp_rx CLOSED Syn st'" "effects ?r st' (re_fsm (rx_engine 0 ?s))"
    using rx_engine_follows_tcp [OF reaches_engine_at, of "syn_segment False False" CLOSED "rx_entry 0 0" empty_tx]
      e fsm_at_fields by (auto simp: Let_def)
  from st(1) have "st' = SYN_RECEIVED" by (cases rule: tcp_rx.cases) simp_all
  moreover have "rf_rx_eng_to_sttable_req ?r = [StateTableReq_read 5]" "fsm_sid ?r = 5"
    by (simp_all add: fsm_at_def fsm_read_responses_def RxEngTcpFsm_def fsm_load_def rx_fsm_init_def syn_segment_def)
  ultimately show ?thesis using st(2) by (simp add: effects_def)
qed

section \<open>A payload without a verdict\<close>

text \<open>A segment with payload whose acknowledgment is stale, or that is a SYN, gets no verdict from the
  state machine, but its payload waits for one: the dropper takes the verdict on the payload of the
  next segment for it, so that when that one is accepted the stale payload is forwarded in its
  place, and the accepted one is left behind.\<close>

theorem unanswered_payload_takes_next_verdict:
  assumes "reaches (\<lambda>s. s = rx_fsm_init) fsm_env (RxEngTcpFsm u) f"
    and "rf_fsm_state f = TRANSITION" and "fsm_responses_ready f" and "r = fsm_read_responses f"
    and "stale_ack r \<or> th_syn (fsm_header r)" and "th_payload_length (fsm_header r) \<noteq> 0"
    and "rf_tcp_payload_dropped_by_rx_fsm f = []"
    and "dp_fsm_state d = RD_VERIFY_CHECKSUM" and "frame stale" and "dp_tcp_payload_in d = stale @ accepted"
    and "dp_dropped_by_checksum d = [False, False]" and "dp_dropped_by_port_or_session d = [False, False]"
    and "dp_tcp_payload_tdest d = [role1, role2]"
    and "dp_dropped_by_rx_fsm d = rf_tcp_payload_dropped_by_rx_fsm (RxEngTcpFsm u f) @ [False]"
  shows "\<exists>n. let t = (RxEngTcpPayloadDropper ^^ n) d in
     dp_tcp_payload_out t = dp_tcp_payload_out d @ map (\<lambda>w. w\<lparr>nw_dest := role1\<rparr>) stale \<and>
     dp_tcp_payload_in t = accepted \<and> dp_dropped_by_rx_fsm t = []"
proof -
  have inv: "fsm_inv f" using rx_fsm.reaches_inv [OF assms(1)] .
  note t = responses_inv(1) [OF inv assms(2,3), where u = u] responses_inv(2) [OF inv assms(2,3)]
  have "payload_outcome r = Unanswered"
    using assms(5) by (auto simp: payload_outcome_def stale_ack_def Let_def)
  moreover have "rf_tcp_payload_dropped_by_rx_fsm r = []"
    using assms(4,7) by (simp add: fsm_read_responses_def)
  ultimately have "rf_tcp_payload_dropped_by_rx_fsm (RxEngTcpFsm u f) = []"
    using transition_payload [OF t(2), of u] t(1) assms(4) by (simp add: payload_writes_def)
  then show ?thesis
    using dropper_one_payload [of d stale accepted "Delivered role1" "[False]" "[False]" "[role2]" "[]"] assms(8-)
    by (auto simp: Let_def)
qed

theorem unanswered_payload_takes_next_verdict_witness:
  "\<exists>n. dp_tcp_payload_out ((RxEngTcpPayloadDropper ^^ n)
     (rx_dropper_init\<lparr>dp_tcp_payload_in := [NetAXISWord_default\<lparr>nw_last := True\<rparr>, NetAXISWord_default\<lparr>nw_data := 7, nw_last := True\<rparr>],
        dp_dropped_by_checksum := [False, False], dp_dropped_by_port_or_session := [False, False],
        dp_tcp_payload_tdest := [3, 4], dp_dropped_by_rx_fsm :=
          rf_tcp_payload_dropped_by_rx_fsm (RxEngTcpFsm 0 (fsm_at (syn_segment True False) ESTABLISHED (rx_entry 100 100) (empty_tx\<lparr>trr_perv_ack := 8, trr_next_byte := 9\<rparr>))) @ [False]\<rparr>))
     = [NetAXISWord_default\<lparr>nw_last := True, nw_dest := 3\<rparr>]"
proof -
  let ?f = "fsm_at (syn_segment True False) ESTABLISHED (rx_entry 100 100) (empty_tx\<lparr>trr_perv_ack := 8, trr_next_byte := 9\<rparr>)"
  have "stale_ack (fsm_read_responses ?f)" "th_payload_length (fsm_header (fsm_read_responses ?f)) \<noteq> 0"
    by (simp_all add: stale_ack_def fsm_at_fields syn_segment_def TcpHeaderMeta_default_def ack_in_range_def
        ack_accepted_def empty_tx_def Let_def)
  moreover have "rf_tcp_payload_dropped_by_rx_fsm ?f = []"
    by (simp add: fsm_at_def RxEngTcpFsm_def fsm_load_def rx_fsm_init_def)
  ultimately show ?thesis
    using unanswered_payload_takes_next_verdict [OF reaches_fsm_at fsm_at_fields(1,2) refl,
        of "syn_segment True False" ESTABLISHED "rx_entry 100 100" "empty_tx\<lparr>trr_perv_ack := 8, trr_next_byte := 9\<rparr>" "rx_dropper_init
        \<lparr>dp_tcp_payload_in := [NetAXISWord_default\<lparr>nw_last := True\<rparr>, NetAXISWord_default\<lparr>nw_data := 7, nw_last := True\<rparr>],
        dp_dropped_by_checksum := [False, False], dp_dropped_by_port_or_session := [False, False],
        dp_tcp_payload_tdest := [3, 4], dp_dropped_by_rx_fsm := rf_tcp_payload_dropped_by_rx_fsm (RxEngTcpFsm 0 ?f) @ [False]\<rparr>"
        "[NetAXISWord_default\<lparr>nw_last := True\<rparr>]"]
    by (auto simp: rx_dropper_init_def Let_def)
qed

end
