(* ===== verification/Lock_Step.thy ===== *)
theory Lock_Step
  imports Prelude
begin

text \<open>
  The contract of a process that serves one request at a time: it takes an input only when no
  question of its own is open, sends the question that belongs to the input, and then waits for
  the answer, from which it forms the output.  \<open>keep\<close> is the part of the input that it stores for
  the reply.  The handlers of the application interfaces are interpreted in this contract.
\<close>

locale lock_step =
  fixes step :: "'s \<Rightarrow> 's" and locked :: "'s \<Rightarrow> bool" and pend :: "'s \<Rightarrow> 'p"
    and inp :: "'s \<Rightarrow> 'a list" and req :: "'s \<Rightarrow> 'q list" and ans :: "'s \<Rightarrow> 'b list" and out :: "'s \<Rightarrow> 'c list"
    and ask :: "'a \<Rightarrow> 'q" and keep :: "'a \<Rightarrow> 'p" and reply :: "'p \<Rightarrow> 'b \<Rightarrow> 'c"
  assumes take_step: "\<not> locked s \<Longrightarrow> inp s = x # xs \<Longrightarrow> locked (step s) \<and> pend (step s) = keep x \<and>
      inp (step s) = xs \<and> req (step s) = req s @ [ask x] \<and> ans (step s) = ans s \<and> out (step s) = out s"
    and idle_step: "\<not> locked s \<Longrightarrow> inp s = [] \<Longrightarrow> \<not> locked (step s) \<and>
      inp (step s) = [] \<and> req (step s) = req s \<and> ans (step s) = ans s \<and> out (step s) = out s"
    and give_step: "locked s \<Longrightarrow> ans s = b # bs \<Longrightarrow> \<not> locked (step s) \<and>
      inp (step s) = inp s \<and> req (step s) = req s \<and> ans (step s) = bs \<and> out (step s) = out s @ [reply (pend s) b]"
    and wait_step: "locked s \<Longrightarrow> ans s = [] \<Longrightarrow> locked (step s) \<and> pend (step s) = pend s \<and>
      inp (step s) = inp s \<and> req (step s) = req s \<and> ans (step s) = [] \<and> out (step s) = out s"
begin

text \<open>Two cycles serve one input whose answer is there.\<close>

lemma serve_one:
  assumes "\<not> locked s" and "inp s = x # xs" and "ans s = b # bs"
  shows "\<not> locked (step (step s)) \<and> inp (step (step s)) = xs \<and> req (step (step s)) = req s @ [ask x] \<and>
     ans (step (step s)) = bs \<and> out (step (step s)) = out s @ [reply (keep x) b]"
  using take_step [OF assms(1,2)] give_step [of "step s" b bs] assms(3) by auto

lemma serve_all:
  "\<not> locked s \<Longrightarrow> inp s = xs \<Longrightarrow> ans s = bs @ rest \<Longrightarrow> length bs = length xs \<Longrightarrow>
     (let t = (step ^^ (2 * length xs)) s in \<not> locked t \<and> inp t = [] \<and> req t = req s @ map ask xs \<and>
        ans t = rest \<and> out t = out s @ map2 reply (map keep xs) bs)"
proof (induction xs arbitrary: s bs)
  case (Cons x xs)
  obtain b bs' where bs: "bs = b # bs'" using Cons.prems(4) by (cases bs) auto
  let ?t = "step (step s)"
  have t: "\<not> locked ?t \<and> inp ?t = xs \<and> req ?t = req s @ [ask x] \<and> ans ?t = bs' @ rest \<and>
      out ?t = out s @ [reply (keep x) b]"
    using serve_one [OF Cons.prems(1,2), of b "bs' @ rest"] Cons.prems(3) bs by simp
  have "(step ^^ (2 * length (x # xs))) s = (step ^^ (2 * length xs)) ?t"
    by (simp only: length_Cons mult_Suc_right add_2_eq_Suc funpow_Suc_apply)
  then show ?case
    using Cons.IH [of ?t bs'] t Cons.prems(4) bs by (simp add: Let_def)
qed (simp add: Let_def)

text \<open>
  At any moment of any run, with inputs and answers that arrive at any time, the outputs are the
  replies to the inputs taken so far, each with its own answer, and at most one question is open.
\<close>

definition matched :: "'s \<Rightarrow> bool" where
  "matched s \<longleftrightarrow> (\<exists>taken used. length used \<le> length taken \<and> req s = map ask taken \<and>
     out s = map2 reply (map keep (take (length used) taken)) used \<and>
     (if locked s then taken \<noteq> [] \<and> length used = length taken - 1 \<and> pend s = keep (last taken)
      else length used = length taken))"

lemma matched_same:
  assumes "matched s" and "locked t = locked s" and "pend t = pend s \<or> \<not> locked s"
    and "req t = req s" and "out t = out s"
  shows "matched t"
proof -
  obtain taken used where m: "length used \<le> length taken" "req s = map ask taken"
      "out s = map2 reply (map keep (take (length used) taken)) used"
      "if locked s then taken \<noteq> [] \<and> length used = length taken - 1 \<and> pend s = keep (last taken)
       else length used = length taken"
    using assms(1) unfolding matched_def by blast
  show ?thesis unfolding matched_def
    by (rule exI [of _ taken], rule exI [of _ used]) (use assms(2-) m in auto)
qed

lemma matched_step: "matched s \<Longrightarrow> matched (step s)"
proof -
  assume m0: "matched s"
  then obtain taken used where m: "length used \<le> length taken" "req s = map ask taken"
      "out s = map2 reply (map keep (take (length used) taken)) used"
      "if locked s then taken \<noteq> [] \<and> length used = length taken - 1 \<and> pend s = keep (last taken)
       else length used = length taken"
    unfolding matched_def by blast
  show "matched (step s)"
  proof (cases "locked s")
    case True
    note l = m(4) [unfolded if_P [OF True]]
    show ?thesis
    proof (cases "ans s")
      case Nil
      then show ?thesis using wait_step [OF True Nil] True by (intro matched_same [OF m0]) auto
    next
      case (Cons b bs)
      obtain front x where t: "taken = front @ [x]" using l by (cases taken rule: rev_cases) auto
      then have len: "length front = length used" and p: "pend s = keep x" using l by simp_all
      have "map2 reply (map keep taken) (used @ [b]) = map2 reply (map keep front) used @ [reply (keep x) b]"
        using t len by simp
      moreover have "out s = map2 reply (map keep front) used" using m(3) t len by simp
      ultimately show ?thesis
        using give_step [OF True Cons] m(2) t len p unfolding matched_def
        by (intro exI [of _ taken] exI [of _ "used @ [b]"]) simp
    qed
  next
    case False
    note l = m(4) [unfolded if_not_P [OF False]]
    show ?thesis
    proof (cases "inp s")
      case Nil
      then show ?thesis using idle_step [OF False Nil] False by (intro matched_same [OF m0]) auto
    next
      case (Cons x xs)
      then show ?thesis
        using take_step [OF False Cons] m l unfolding matched_def
        by (intro exI [of _ "taken @ [x]"] exI [of _ used]) simp
    qed
  qed
qed

text \<open>The environment appends inputs and answers and may do what it likes to the rest.\<close>

definition lock_env :: "'s \<Rightarrow> 's \<Rightarrow> bool" where
  "lock_env s t \<longleftrightarrow> locked t = locked s \<and> pend t = pend s \<and> req t = req s \<and> out t = out s \<and>
     (\<exists>xs. inp t = inp s @ xs) \<and> (\<exists>bs. ans t = ans s @ bs)"

lemma matched_env: "matched s \<Longrightarrow> lock_env s t \<Longrightarrow> matched t"
  by (rule matched_same) (simp_all add: lock_env_def)

definition lock_ini :: "'s \<Rightarrow> bool" where
  "lock_ini s \<longleftrightarrow> \<not> locked s \<and> req s = [] \<and> out s = []"

lemma matched_ini: "lock_ini s \<Longrightarrow> matched s"
  by (auto simp: matched_def lock_ini_def)

lemma reaches_matched: "reaches lock_ini lock_env step s \<Longrightarrow> matched s"
  by (induction rule: reaches.induct) (auto intro: matched_ini matched_env matched_step)

end

end
