(* ===== verification/Tx_App_Intf.thy ===== *)
theory Tx_App_Intf
  imports App_Types Lock_Step Write_Status Axi_Utils Memory_Access
begin

text \<open>
  \<open>tx_app_intf/tx_app_intf.cpp\<close>: the interface through which the applications open and close
  connections and hand over data to send.  One record per process, with the streams that the process
  reads and writes; \<open>tx_app_intf\<close> composes them in the order of the wrapper.  The build has
  \<open>MULTI_IP_ADDR\<close> set and \<open>TCP_NODELAY\<close> clear.
\<close>

section \<open>Connections: \<open>TxAppConnectionHandler\<close>\<close>

datatype TxAppConnFsmState = CONN_IDLE | CLOSE_CONN | WAIT_FOR_TDEST_ACTIVE_OPEN | WAIT_FOR_TDEST_PASSIVE_OPEN

record TxAppConn =
  tc_app_open_req_reg :: AppOpenConnReq
  tc_tx_app_wait_for_free_port_lock :: bool
  tc_fsm_state :: TxAppConnFsmState
  tc_passive_open_session_reg :: NewClientNotificationNoTDEST
  tc_open_session_reg :: OpenConnRspNoTDEST
  tc_app_close_session_reg :: AppCloseConnReq
  tc_net_app_to_tx_app_open_conn_req :: "AppOpenConnReq stream"
  tc_tx_app_to_net_app_open_conn_rsp :: "AppOpenConnRsp stream"
  tc_net_app_to_tx_app_close_conn_req :: "AppCloseConnReq stream"
  tc_rx_eng_to_tx_app_new_client_notification :: "NewClientNotificationNoTDEST stream"
  tc_net_app_new_client_notification :: "NewClientNotification stream"
  tc_rx_eng_to_tx_app_notification :: "OpenConnRspNoTDEST stream"
  tc_rtimer_to_tx_app_notification :: "OpenConnRspNoTDEST stream"
  tc_tx_app_to_slookup_req :: "TxAppToSlookupReq stream"
  tc_slookup_to_tx_app_rsp :: "SessionLookupRsp stream"
  tc_tx_app_to_slookup_check_tdest_req :: "TcpSessionID stream"
  tc_slookup_to_tx_app_check_tdest_rsp :: "NetAXISDest stream"
  tc_tx_app_to_ptable_req :: "NetAXISDest stream"
  tc_ptable_to_tx_app_rsp :: "TcpPortNumber stream"
  tc_tx_app_to_sttable_req :: "StateTableReq stream"
  tc_sttable_to_tx_app_rsp :: "SessionState stream"
  tc_to_event_engine :: "Event stream"

text \<open>A request to open a connection first gets a free port, then a session.\<close>

definition open_tuple :: "AppOpenConnReq \<Rightarrow> TcpPortNumber \<Rightarrow> TxAppToSlookupReq" where
  "open_tuple req free_port =
     \<lparr>tsl_four_tuple = FourTuple (ot_my_ip_addr (oq_data req)) (ot_ip_addr (oq_data req))
        (SwapByte free_port) (ot_tcp_port (oq_data req)),
      tsl_role_id = oq_dest req\<rparr>"

definition conn_free_port :: "TxAppConn \<Rightarrow> TxAppConn" where
  "conn_free_port s =
     (if tc_net_app_to_tx_app_open_conn_req s \<noteq> [] \<and> \<not> tc_tx_app_wait_for_free_port_lock s then
        s\<lparr>tc_app_open_req_reg := hd (tc_net_app_to_tx_app_open_conn_req s),
          tc_net_app_to_tx_app_open_conn_req := tl (tc_net_app_to_tx_app_open_conn_req s),
          tc_tx_app_to_ptable_req :=
            tc_tx_app_to_ptable_req s @ [oq_dest (hd (tc_net_app_to_tx_app_open_conn_req s))],
          tc_tx_app_wait_for_free_port_lock := True\<rparr>
      else if tc_ptable_to_tx_app_rsp s \<noteq> [] \<and> tc_tx_app_wait_for_free_port_lock s then
        s\<lparr>tc_ptable_to_tx_app_rsp := tl (tc_ptable_to_tx_app_rsp s),
          tc_tx_app_to_slookup_req := tc_tx_app_to_slookup_req s @
            [open_tuple (tc_app_open_req_reg s) (hd (tc_ptable_to_tx_app_rsp s))],
          tc_tx_app_wait_for_free_port_lock := False\<rparr>
      else s)"

text \<open>A new session is sent a SYN; the write to the state table needs no lock.\<close>

definition conn_session :: "SessionLookupRsp \<Rightarrow> TxAppConn \<Rightarrow> TxAppConn" where
  "conn_session slookup_rsp s =
     (if sl_hit slookup_rsp then
        s\<lparr>tc_to_event_engine := tc_to_event_engine s @ [Event_basic SYN (sl_session_id slookup_rsp)],
          tc_tx_app_to_sttable_req := tc_tx_app_to_sttable_req s @
            [StateTableReq_write (sl_session_id slookup_rsp) SYN_SENT]\<rparr>
      else
        s\<lparr>tc_tx_app_to_net_app_open_conn_rsp := tc_tx_app_to_net_app_open_conn_rsp s @
            [\<lparr>or_data = \<lparr>oc_session_id = sl_session_id slookup_rsp, oc_success = False\<rparr>,
              or_dest = sl_role_id slookup_rsp\<rparr>]\<rparr>)"

definition conn_active :: "OpenConnRspNoTDEST \<Rightarrow> TxAppConn \<Rightarrow> TxAppConn" where
  "conn_active rsp s =
     s\<lparr>tc_open_session_reg := rsp,
       tc_tx_app_to_slookup_check_tdest_req := tc_tx_app_to_slookup_check_tdest_req s @ [oc_session_id rsp],
       tc_fsm_state := WAIT_FOR_TDEST_ACTIVE_OPEN\<rparr>"

definition conn_passive :: "NewClientNotificationNoTDEST \<Rightarrow> TxAppConn \<Rightarrow> TxAppConn" where
  "conn_passive client s =
     s\<lparr>tc_passive_open_session_reg := client,
       tc_tx_app_to_slookup_check_tdest_req := tc_tx_app_to_slookup_check_tdest_req s @ [nc_session_id client],
       tc_fsm_state := WAIT_FOR_TDEST_PASSIVE_OPEN\<rparr>"

definition conn_close :: "AppCloseConnReq \<Rightarrow> TxAppConn \<Rightarrow> TxAppConn" where
  "conn_close req s =
     s\<lparr>tc_app_close_session_reg := req,
       tc_tx_app_to_sttable_req := tc_tx_app_to_sttable_req s @ [StateTableReq_read (ac_data req)],
       tc_fsm_state := CLOSE_CONN\<rparr>"

definition conn_idle :: "TxAppConn \<Rightarrow> TxAppConn" where
  "conn_idle s =
     (case tc_slookup_to_tx_app_rsp s of
        rsp # rsps \<Rightarrow> conn_session rsp (s\<lparr>tc_slookup_to_tx_app_rsp := rsps\<rparr>)
      | [] \<Rightarrow>
     (case tc_rx_eng_to_tx_app_notification s of
        n # ns \<Rightarrow> conn_active n (s\<lparr>tc_rx_eng_to_tx_app_notification := ns\<rparr>)
      | [] \<Rightarrow>
     (case tc_rtimer_to_tx_app_notification s of
        n # ns \<Rightarrow> conn_active n (s\<lparr>tc_rtimer_to_tx_app_notification := ns\<rparr>)
      | [] \<Rightarrow>
     (case tc_rx_eng_to_tx_app_new_client_notification s of
        n # ns \<Rightarrow> conn_passive n (s\<lparr>tc_rx_eng_to_tx_app_new_client_notification := ns\<rparr>)
      | [] \<Rightarrow>
     (case tc_net_app_to_tx_app_close_conn_req s of
        q # qs \<Rightarrow> conn_close q (s\<lparr>tc_net_app_to_tx_app_close_conn_req := qs\<rparr>)
      | [] \<Rightarrow> s)))))"

definition conn_active_tdest :: "NetAXISDest \<Rightarrow> TxAppConn \<Rightarrow> TxAppConn" where
  "conn_active_tdest dest s =
     s\<lparr>tc_tx_app_to_net_app_open_conn_rsp := tc_tx_app_to_net_app_open_conn_rsp s @
         [\<lparr>or_data = tc_open_session_reg s, or_dest = dest\<rparr>],
       tc_fsm_state := CONN_IDLE\<rparr>"

definition conn_passive_tdest :: "NetAXISDest \<Rightarrow> TxAppConn \<Rightarrow> TxAppConn" where
  "conn_passive_tdest dest s =
     s\<lparr>tc_net_app_new_client_notification := tc_net_app_new_client_notification s @
         [\<lparr>nn_data = tc_passive_open_session_reg s, nn_dest = dest\<rparr>],
       tc_fsm_state := CONN_IDLE\<rparr>"

text \<open>Closing is refused by writing the state back, which releases the lock.\<close>

definition conn_close_state :: "SessionState \<Rightarrow> TxAppConn \<Rightarrow> TxAppConn" where
  "conn_close_state st s =
     (let sid = ac_data (tc_app_close_session_reg s); closes = (st = ESTABLISHED \<or> st = FIN_WAIT_1) in
      s\<lparr>tc_to_event_engine := tc_to_event_engine s @ (if closes then [Event_basic FIN sid] else []),
        tc_tx_app_to_sttable_req := tc_tx_app_to_sttable_req s @
          [StateTableReq_write sid (if closes then FIN_WAIT_1 else st)],
        tc_fsm_state := CONN_IDLE\<rparr>)"

definition conn_fsm :: "TxAppConn \<Rightarrow> TxAppConn" where
  "conn_fsm s =
     (case tc_fsm_state s of
        CONN_IDLE \<Rightarrow> conn_idle s
      | WAIT_FOR_TDEST_ACTIVE_OPEN \<Rightarrow>
          (case tc_slookup_to_tx_app_check_tdest_rsp s of
             d # ds \<Rightarrow> conn_active_tdest d (s\<lparr>tc_slookup_to_tx_app_check_tdest_rsp := ds\<rparr>) | [] \<Rightarrow> s)
      | WAIT_FOR_TDEST_PASSIVE_OPEN \<Rightarrow>
          (case tc_slookup_to_tx_app_check_tdest_rsp s of
             d # ds \<Rightarrow> conn_passive_tdest d (s\<lparr>tc_slookup_to_tx_app_check_tdest_rsp := ds\<rparr>) | [] \<Rightarrow> s)
      | CLOSE_CONN \<Rightarrow>
          (case tc_sttable_to_tx_app_rsp s of
             st # sts \<Rightarrow> conn_close_state st (s\<lparr>tc_sttable_to_tx_app_rsp := sts\<rparr>) | [] \<Rightarrow> s))"

definition TxAppConnectionHandler :: "TxAppConn \<Rightarrow> TxAppConn" where
  "TxAppConnectionHandler s = conn_fsm (conn_free_port s)"

definition tx_app_conn_init :: TxAppConn where
  "tx_app_conn_init =
     \<lparr>tc_app_open_req_reg = \<lparr>oq_data = \<lparr>ot_my_ip_addr = 0, ot_ip_addr = 0, ot_tcp_port = 0\<rparr>, oq_dest = 0\<rparr>,
      tc_tx_app_wait_for_free_port_lock = False, tc_fsm_state = CONN_IDLE,
      tc_passive_open_session_reg = \<lparr>nc_session_id = 0, nc_buffersize = 0, nc_max_segment_size = 0,
        nc_tcp_nodelay = False, nc_tcp_buffer_is_empty = False\<rparr>,
      tc_open_session_reg = \<lparr>oc_session_id = 0, oc_success = False\<rparr>,
      tc_app_close_session_reg = \<lparr>ac_data = 0, ac_dest = 0\<rparr>,
      tc_net_app_to_tx_app_open_conn_req = [], tc_tx_app_to_net_app_open_conn_rsp = [],
      tc_net_app_to_tx_app_close_conn_req = [], tc_rx_eng_to_tx_app_new_client_notification = [],
      tc_net_app_new_client_notification = [], tc_rx_eng_to_tx_app_notification = [],
      tc_rtimer_to_tx_app_notification = [], tc_tx_app_to_slookup_req = [], tc_slookup_to_tx_app_rsp = [],
      tc_tx_app_to_slookup_check_tdest_req = [], tc_slookup_to_tx_app_check_tdest_rsp = [],
      tc_tx_app_to_ptable_req = [], tc_ptable_to_tx_app_rsp = [], tc_tx_app_to_sttable_req = [],
      tc_sttable_to_tx_app_rsp = [], tc_to_event_engine = []\<rparr>"

section \<open>Data: \<open>TxAppDataHandler\<close>\<close>

datatype TxAppDataFsmState = READ_REQUEST | TX_READ_META | READ_DATA

record TxAppToTxAppTableReq =
  tb_session_id :: TcpSessionID
  tb_app_written_ideal :: TcpSessionBuffer
  tb_write :: bool

definition TxAppToTxAppTableReq_read :: "TcpSessionID \<Rightarrow> TxAppToTxAppTableReq" where
  "TxAppToTxAppTableReq_read sid = \<lparr>tb_session_id = sid, tb_app_written_ideal = 0, tb_write = False\<rparr>"

definition TxAppToTxAppTableReq_write :: "TcpSessionID \<Rightarrow> TcpSessionBuffer \<Rightarrow> TxAppToTxAppTableReq" where
  "TxAppToTxAppTableReq_write sid app_written = \<lparr>tb_session_id = sid, tb_app_written_ideal = app_written, tb_write = True\<rparr>"

record TxAppTableToTxAppRsp =
  tbr_session_id :: TcpSessionID
  tbr_ackd :: TcpSessionBuffer
  tbr_app_written_ideal :: TcpSessionBuffer

record TxAppData =
  td_fsm_state :: TxAppDataFsmState
  td_trans_data_lock :: bool
  td_trans_data_req :: AppTransDataReq
  td_tx_app_table_rsp :: TxAppTableToTxAppRsp
  td_max_write_length :: TcpSessionBuffer
  td_net_app_to_tx_app_trans_data_req :: "AppTransDataReq stream"
  td_tx_app_to_net_app_trans_data_rsp :: "AppTransDataRsp stream"
  td_net_app_trans_data :: "NetAXISWord stream"
  td_tx_app_to_tx_app_table_req :: "TxAppToTxAppTableReq stream"
  td_tx_app_table_to_tx_app_rsp :: "TxAppTableToTxAppRsp stream"
  td_tx_app_to_sttable_lup_req :: "TcpSessionID stream"
  td_sttable_to_tx_app_lup_rsp :: "SessionState stream"
  td_set_event :: "Event stream"
  td_tx_app_to_mem_write_cmd :: "MemBufferRWCmd stream"
  td_tx_app_to_mem_write_data :: "NetAXISWord stream"

definition data_read_request :: "AppTransDataReq \<Rightarrow> TxAppData \<Rightarrow> TxAppData" where
  "data_read_request req s =
     s\<lparr>td_trans_data_req := req,
       td_tx_app_to_sttable_lup_req := td_tx_app_to_sttable_lup_req s @ [tq_id req],
       td_tx_app_to_tx_app_table_req := td_tx_app_to_tx_app_table_req s @ [TxAppToTxAppTableReq_read (tq_id req)],
       td_trans_data_lock := True,
       td_fsm_state := TX_READ_META\<rparr>"

text \<open>The response to the application, with the length in 16 bits and the free space of the buffer.\<close>

definition trans_data_rsp :: "TxAppTransDataError \<Rightarrow> TxAppData \<Rightarrow> AppTransDataRsp" where
  "trans_data_rsp err s =
     \<lparr>tr_data = \<lparr>tp_error = err, tp_remaining_space = td_max_write_length s,
        tp_length = ucast (tq_data (td_trans_data_req s))\<rparr>,
      tr_dest = tq_dest (td_trans_data_req s)\<rparr>"

definition data_refused :: "TxAppTransDataError \<Rightarrow> TxAppData \<Rightarrow> TxAppData" where
  "data_refused err s =
     s\<lparr>td_tx_app_to_net_app_trans_data_rsp := td_tx_app_to_net_app_trans_data_rsp s @ [trans_data_rsp err s],
       td_fsm_state := READ_REQUEST, td_trans_data_lock := False\<rparr>"

definition data_accepted :: "TxAppData \<Rightarrow> TxAppData" where
  "data_accepted s =
     (let req = td_trans_data_req s; app_written = tbr_app_written_ideal (td_tx_app_table_rsp s) in
      s\<lparr>td_tx_app_to_mem_write_cmd := td_tx_app_to_mem_write_cmd s @
          [MemBufferRWCmd_new (GetSessionMemAddr False (tq_id req) app_written) (ucast (tq_data req))],
        td_set_event := td_set_event s @ [Event_data TX (tq_id req) app_written (ucast (tq_data req))],
        td_tx_app_to_tx_app_table_req := td_tx_app_to_tx_app_table_req s @
          [TxAppToTxAppTableReq_write (tq_id req) (app_written + tq_data req)],
        td_tx_app_to_net_app_trans_data_rsp := td_tx_app_to_net_app_trans_data_rsp s @ [trans_data_rsp NO_ERROR s],
        td_fsm_state := READ_DATA\<rparr>)"

definition data_read_meta :: "SessionState \<Rightarrow> TxAppTableToTxAppRsp \<Rightarrow> TxAppData \<Rightarrow> TxAppData" where
  "data_read_meta cur_session_state rsp s =
     (let s = s\<lparr>td_tx_app_table_rsp := rsp,
               td_max_write_length := tbr_ackd rsp - tbr_app_written_ideal rsp - 1\<rparr> in
      if cur_session_state \<noteq> ESTABLISHED then data_refused ERROR_NOCONNECTION s
      else if tq_data (td_trans_data_req s) > td_max_write_length s then data_refused ERROR_NOSPACE s
      else data_accepted s)"

definition data_word :: "NetAXISWord \<Rightarrow> TxAppData \<Rightarrow> TxAppData" where
  "data_word cur_word s =
     s\<lparr>td_tx_app_to_mem_write_data := td_tx_app_to_mem_write_data s @ [cur_word],
       td_fsm_state := (if nw_last cur_word then READ_REQUEST else READ_DATA),
       td_trans_data_lock := (if nw_last cur_word then False else td_trans_data_lock s)\<rparr>"

definition TxAppDataHandler :: "TxAppData \<Rightarrow> TxAppData" where
  "TxAppDataHandler s =
     (case td_fsm_state s of
        READ_REQUEST \<Rightarrow>
          (if td_net_app_to_tx_app_trans_data_req s \<noteq> [] \<and> \<not> td_trans_data_lock s then
             data_read_request (hd (td_net_app_to_tx_app_trans_data_req s))
               (s\<lparr>td_net_app_to_tx_app_trans_data_req := tl (td_net_app_to_tx_app_trans_data_req s)\<rparr>)
           else s)
      | TX_READ_META \<Rightarrow>
          (if td_sttable_to_tx_app_lup_rsp s \<noteq> [] \<and> td_tx_app_table_to_tx_app_rsp s \<noteq> [] \<and> td_trans_data_lock s then
             data_read_meta (hd (td_sttable_to_tx_app_lup_rsp s)) (hd (td_tx_app_table_to_tx_app_rsp s))
               (s\<lparr>td_sttable_to_tx_app_lup_rsp := tl (td_sttable_to_tx_app_lup_rsp s),
                 td_tx_app_table_to_tx_app_rsp := tl (td_tx_app_table_to_tx_app_rsp s)\<rparr>)
           else s)
      | READ_DATA \<Rightarrow>
          (if td_net_app_trans_data s \<noteq> [] \<and> td_trans_data_lock s then
             data_word (hd (td_net_app_trans_data s)) (s\<lparr>td_net_app_trans_data := tl (td_net_app_trans_data s)\<rparr>)
           else s))"

definition tx_app_data_init :: TxAppData where
  "tx_app_data_init =
     \<lparr>td_fsm_state = READ_REQUEST, td_trans_data_lock = False,
      td_trans_data_req = \<lparr>tq_data = 0, tq_id = 0, tq_dest = 0\<rparr>,
      td_tx_app_table_rsp = \<lparr>tbr_session_id = 0, tbr_ackd = 0, tbr_app_written_ideal = 0\<rparr>,
      td_max_write_length = 0, td_net_app_to_tx_app_trans_data_req = [],
      td_tx_app_to_net_app_trans_data_rsp = [], td_net_app_trans_data = [], td_tx_app_to_tx_app_table_req = [],
      td_tx_app_table_to_tx_app_rsp = [], td_tx_app_to_sttable_lup_req = [], td_sttable_to_tx_app_lup_rsp = [],
      td_set_event = [], td_tx_app_to_mem_write_cmd = [], td_tx_app_to_mem_write_data = []\<rparr>"

section \<open>Events: \<open>TxAppEventMerger\<close> and \<open>TxAppRspHandler\<close>\<close>

fun TxAppEventMerger :: "Event stream \<Rightarrow> Event stream \<Rightarrow> Event stream
    \<Rightarrow> Event stream \<times> Event stream \<times> Event stream" where
  "TxAppEventMerger (e # conn) data out = (conn, data, out @ [e])"
| "TxAppEventMerger [] (e # data) out = ([], data, out @ [e])"
| "TxAppEventMerger [] [] out = ([], [], out)"

datatype StatusHandlerFsmState = READ_EV | TX_READ_STATUS_1 | TX_READ_STATUS_2

record TxAppRsp =
  ts_fsm_status :: StatusHandlerFsmState
  ts_cur_event :: Event
  ts_mem_buffer_double_access_flag :: "bool stream"
  ts_mover_to_tx_app_write_status :: "DataMoverStatus stream"
  ts_tx_app_to_event_eng_cache :: "Event stream"
  ts_tx_app_to_event_eng_set_event :: "Event stream"
  ts_tx_app_to_tx_sar_upd_req :: "TxAppToTxSarReq stream"

text \<open>The data of the event is in memory: the transmit tables may use it up to its end.\<close>

definition written_to :: "Event \<Rightarrow> TxAppToTxSarReq" where
  "written_to ev = \<lparr>tas_session_id = ev_session_id ev, tas_app_written = ev_buf_addr ev + ucast (ev_length ev)\<rparr>"

definition rsp_confirm :: "TxAppRsp \<Rightarrow> TxAppRsp" where
  "rsp_confirm s =
     s\<lparr>ts_tx_app_to_tx_sar_upd_req := ts_tx_app_to_tx_sar_upd_req s @ [written_to (ts_cur_event s)],
       ts_tx_app_to_event_eng_set_event := ts_tx_app_to_event_eng_set_event s @ [ts_cur_event s]\<rparr>"

definition rsp_read_event :: "Event \<Rightarrow> TxAppRsp \<Rightarrow> TxAppRsp" where
  "rsp_read_event ev s =
     (if ev_type ev = TX then s\<lparr>ts_cur_event := ev, ts_fsm_status := TX_READ_STATUS_1\<rparr>
      else s\<lparr>ts_cur_event := ev,
             ts_tx_app_to_event_eng_set_event := ts_tx_app_to_event_eng_set_event s @ [ev]\<rparr>)"

definition rsp_status_1 :: "bool \<Rightarrow> DataMoverStatus \<Rightarrow> TxAppRsp \<Rightarrow> TxAppRsp" where
  "rsp_status_1 double_access_flag datamover_sts s =
     (if ds_okay datamover_sts then
        (if double_access_flag then s\<lparr>ts_fsm_status := TX_READ_STATUS_2\<rparr>
         else (rsp_confirm s)\<lparr>ts_fsm_status := READ_EV\<rparr>)
      else s\<lparr>ts_fsm_status := READ_EV\<rparr>)"

definition rsp_status_2 :: "DataMoverStatus \<Rightarrow> TxAppRsp \<Rightarrow> TxAppRsp" where
  "rsp_status_2 datamover_sts s =
     (if ds_okay datamover_sts then rsp_confirm s else s)\<lparr>ts_fsm_status := READ_EV\<rparr>"

definition TxAppRspHandler :: "TxAppRsp \<Rightarrow> TxAppRsp" where
  "TxAppRspHandler s =
     (case ts_fsm_status s of
        READ_EV \<Rightarrow>
          (case ts_tx_app_to_event_eng_cache s of
             ev # evs \<Rightarrow> rsp_read_event ev (s\<lparr>ts_tx_app_to_event_eng_cache := evs\<rparr>) | [] \<Rightarrow> s)
      | TX_READ_STATUS_1 \<Rightarrow>
          (case (ts_mem_buffer_double_access_flag s, ts_mover_to_tx_app_write_status s) of
             (flag # flags, sts # stss) \<Rightarrow>
               rsp_status_1 flag sts
                 (s\<lparr>ts_mem_buffer_double_access_flag := flags, ts_mover_to_tx_app_write_status := stss\<rparr>)
           | _ \<Rightarrow> s)
      | TX_READ_STATUS_2 \<Rightarrow>
          (case ts_mover_to_tx_app_write_status s of
             sts # stss \<Rightarrow> rsp_status_2 sts (s\<lparr>ts_mover_to_tx_app_write_status := stss\<rparr>) | [] \<Rightarrow> s))"

definition tx_app_rsp_init :: TxAppRsp where
  "tx_app_rsp_init =
     \<lparr>ts_fsm_status = READ_EV, ts_cur_event = Event_basic TX 0, ts_mem_buffer_double_access_flag = [],
      ts_mover_to_tx_app_write_status = [], ts_tx_app_to_event_eng_cache = [],
      ts_tx_app_to_event_eng_set_event = [], ts_tx_app_to_tx_sar_upd_req = []\<rparr>"

section \<open>The table of write pointers: \<open>TxAppTableInterface\<close>\<close>

record TxAppTableEntry =
  tte_app_ackd :: TcpSessionBuffer
  tte_app_written_ideal :: TcpSessionBuffer

record TxAppTable =
  tt_tx_app_table :: "TcpSessionID \<Rightarrow> TxAppTableEntry"
  tt_tx_sar_to_tx_app_upd_req :: "TxSarToTxAppReq stream"
  tt_tx_app_to_tx_app_table_req :: "TxAppToTxAppTableReq stream"
  tt_tx_app_table_to_tx_app_rsp :: "TxAppTableToTxAppRsp stream"

definition table_sar_update :: "TxSarToTxAppReq \<Rightarrow> TxAppTable \<Rightarrow> TxAppTable" where
  "table_sar_update req s =
     (let sid = sta_session_id req; entry = tt_tx_app_table s sid in
      s\<lparr>tt_tx_app_table := (tt_tx_app_table s)(sid :=
          (if sta_init req then entry\<lparr>tte_app_ackd := sta_ackd req - 1, tte_app_written_ideal := sta_ackd req\<rparr>
           else entry\<lparr>tte_app_ackd := sta_ackd req\<rparr>))\<rparr>)"

definition table_access :: "TxAppToTxAppTableReq \<Rightarrow> TxAppTable \<Rightarrow> TxAppTable" where
  "table_access req s =
     (let sid = tb_session_id req; entry = tt_tx_app_table s sid in
      if tb_write req then
        s\<lparr>tt_tx_app_table := (tt_tx_app_table s)(sid := entry\<lparr>tte_app_written_ideal := tb_app_written_ideal req\<rparr>)\<rparr>
      else
        s\<lparr>tt_tx_app_table_to_tx_app_rsp := tt_tx_app_table_to_tx_app_rsp s @
            [\<lparr>tbr_session_id = sid, tbr_ackd = tte_app_ackd entry, tbr_app_written_ideal = tte_app_written_ideal entry\<rparr>]\<rparr>)"

definition TxAppTableInterface :: "TxAppTable \<Rightarrow> TxAppTable" where
  "TxAppTableInterface s =
     (case tt_tx_sar_to_tx_app_upd_req s of
        req # reqs \<Rightarrow> table_sar_update req (s\<lparr>tt_tx_sar_to_tx_app_upd_req := reqs\<rparr>)
      | [] \<Rightarrow>
     (case tt_tx_app_to_tx_app_table_req s of
        req # reqs \<Rightarrow> table_access req (s\<lparr>tt_tx_app_to_tx_app_table_req := reqs\<rparr>)
      | [] \<Rightarrow> s))"

definition tx_app_table_init :: TxAppTable where
  "tx_app_table_init =
     \<lparr>tt_tx_app_table = (\<lambda>_. \<lparr>tte_app_ackd = 0, tte_app_written_ideal = 0\<rparr>), tt_tx_sar_to_tx_app_upd_req = [],
      tt_tx_app_to_tx_app_table_req = [], tt_tx_app_table_to_tx_app_rsp = []\<rparr>"

section \<open>The wrapper\<close>

record TxApp =
  ta_conn :: TxAppConn
  ta_data :: TxAppData
  ta_write :: WriteData
  ta_rsp :: TxAppRsp
  ta_table :: TxAppTable

definition app_run_conn :: "TxApp \<Rightarrow> TxApp" where
  "app_run_conn s = s\<lparr>ta_conn := TxAppConnectionHandler (ta_conn s)\<rparr>"

definition app_run_data :: "TxApp \<Rightarrow> TxApp" where
  "app_run_data s =
     s\<lparr>ta_data := TxAppDataHandler ((ta_data s)\<lparr>td_tx_app_table_to_tx_app_rsp :=
         td_tx_app_table_to_tx_app_rsp (ta_data s) @ tt_tx_app_table_to_tx_app_rsp (ta_table s)\<rparr>),
       ta_table := (ta_table s)\<lparr>tt_tx_app_table_to_tx_app_rsp := []\<rparr>\<rparr>"

definition app_run_write :: "TxApp \<Rightarrow> TxApp" where
  "app_run_write s =
     s\<lparr>ta_write := WriteDataToMem ((ta_write s)
         \<lparr>wd_mem_write_cmd := wd_mem_write_cmd (ta_write s) @ td_tx_app_to_mem_write_cmd (ta_data s),
          wd_mem_write_data := wd_mem_write_data (ta_write s) @ td_tx_app_to_mem_write_data (ta_data s)\<rparr>),
       ta_data := (ta_data s)\<lparr>td_tx_app_to_mem_write_cmd := [], td_tx_app_to_mem_write_data := []\<rparr>\<rparr>"

definition app_run_events :: "TxApp \<Rightarrow> TxApp" where
  "app_run_events s =
     (case TxAppEventMerger (tc_to_event_engine (ta_conn s)) (td_set_event (ta_data s))
             (ts_tx_app_to_event_eng_cache (ta_rsp s)) of
        (conn_events, data_events, cache) \<Rightarrow>
          s\<lparr>ta_conn := (ta_conn s)\<lparr>tc_to_event_engine := conn_events\<rparr>,
            ta_data := (ta_data s)\<lparr>td_set_event := data_events\<rparr>,
            ta_rsp := (ta_rsp s)\<lparr>ts_tx_app_to_event_eng_cache := cache\<rparr>\<rparr>)"

definition app_run_rsp :: "TxApp \<Rightarrow> TxApp" where
  "app_run_rsp s =
     s\<lparr>ta_rsp := TxAppRspHandler ((ta_rsp s)\<lparr>ts_mem_buffer_double_access_flag :=
         ts_mem_buffer_double_access_flag (ta_rsp s) @ wd_mem_buffer_double_access_flag (ta_write s)\<rparr>),
       ta_write := (ta_write s)\<lparr>wd_mem_buffer_double_access_flag := []\<rparr>\<rparr>"

definition app_run_table :: "TxApp \<Rightarrow> TxApp" where
  "app_run_table s =
     s\<lparr>ta_table := TxAppTableInterface ((ta_table s)\<lparr>tt_tx_app_to_tx_app_table_req :=
         tt_tx_app_to_tx_app_table_req (ta_table s) @ td_tx_app_to_tx_app_table_req (ta_data s)\<rparr>),
       ta_data := (ta_data s)\<lparr>td_tx_app_to_tx_app_table_req := []\<rparr>\<rparr>"

definition tx_app_intf :: "TxApp \<Rightarrow> TxApp" where
  "tx_app_intf s =
     app_run_table (app_run_rsp (app_run_events (app_run_write (app_run_data (app_run_conn s)))))"

definition tx_app_init :: TxApp where
  "tx_app_init =
     \<lparr>ta_conn = tx_app_conn_init, ta_data = tx_app_data_init, ta_write = write_data_init,
      ta_rsp = tx_app_rsp_init, ta_table = tx_app_table_init\<rparr>"

end
