(* ===== verification/Tx_App_Props.thy ===== *)
theory Tx_App_Props
  imports Tx_App_Intf
begin

text \<open>
  What the transmit interface promises: connections get their own ports and are closed under the lock
  of the state table, data is only taken into free buffer space and written one request behind the other, and it is
  handed to the event engine when it is in memory.
\<close>

section \<open>Connections\<close>

text \<open>The two halves of the handler share no state.\<close>

lemma conn_fsm_frame [simp]:
  "tc_app_open_req_reg (conn_fsm s) = tc_app_open_req_reg s"
  "tc_tx_app_wait_for_free_port_lock (conn_fsm s) = tc_tx_app_wait_for_free_port_lock s"
  "tc_net_app_to_tx_app_open_conn_req (conn_fsm s) = tc_net_app_to_tx_app_open_conn_req s"
  "tc_tx_app_to_ptable_req (conn_fsm s) = tc_tx_app_to_ptable_req s"
  "tc_ptable_to_tx_app_rsp (conn_fsm s) = tc_ptable_to_tx_app_rsp s"
  "tc_tx_app_to_slookup_req (conn_fsm s) = tc_tx_app_to_slookup_req s"
  by (simp_all add: conn_fsm_def conn_idle_def conn_session_def conn_active_def conn_passive_def conn_close_def
      conn_active_tdest_def conn_passive_tdest_def conn_close_state_def Let_def
      split: TxAppConnFsmState.split list.split)

lemma conn_free_port_frame [simp]:
  "tc_fsm_state (conn_free_port s) = tc_fsm_state s"
  "tc_app_close_session_reg (conn_free_port s) = tc_app_close_session_reg s"
  "tc_net_app_to_tx_app_close_conn_req (conn_free_port s) = tc_net_app_to_tx_app_close_conn_req s"
  "tc_slookup_to_tx_app_rsp (conn_free_port s) = tc_slookup_to_tx_app_rsp s"
  "tc_rx_eng_to_tx_app_notification (conn_free_port s) = tc_rx_eng_to_tx_app_notification s"
  "tc_rtimer_to_tx_app_notification (conn_free_port s) = tc_rtimer_to_tx_app_notification s"
  "tc_rx_eng_to_tx_app_new_client_notification (conn_free_port s) = tc_rx_eng_to_tx_app_new_client_notification s"
  "tc_sttable_to_tx_app_rsp (conn_free_port s) = tc_sttable_to_tx_app_rsp s"
  "tc_tx_app_to_sttable_req (conn_free_port s) = tc_tx_app_to_sttable_req s"
  "tc_to_event_engine (conn_free_port s) = tc_to_event_engine s"
  by (simp_all add: conn_free_port_def)

interpretation open_conn: lock_step TxAppConnectionHandler tc_tx_app_wait_for_free_port_lock tc_app_open_req_reg
    tc_net_app_to_tx_app_open_conn_req tc_tx_app_to_ptable_req tc_ptable_to_tx_app_rsp tc_tx_app_to_slookup_req
    oq_dest "\<lambda>q. q" open_tuple
  by unfold_locales (auto simp: TxAppConnectionHandler_def conn_free_port_def)

text \<open>Every request to open a connection gets a port of its own: whatever the order in which requests
  and port numbers arrive, the sessions asked for are those of the requests taken, in order, each
  with the port that answers its own question, and at most one question is open.\<close>

theorem open_requests_get_own_port:
  assumes "reaches (\<lambda>s. \<not> tc_tx_app_wait_for_free_port_lock s \<and> tc_tx_app_to_ptable_req s = [] \<and> tc_tx_app_to_slookup_req s = [])
      (\<lambda>s t. tc_tx_app_wait_for_free_port_lock t = tc_tx_app_wait_for_free_port_lock s \<and>
         tc_app_open_req_reg t = tc_app_open_req_reg s \<and> tc_tx_app_to_ptable_req t = tc_tx_app_to_ptable_req s \<and>
         tc_tx_app_to_slookup_req t = tc_tx_app_to_slookup_req s \<and>
         (\<exists>qs. tc_net_app_to_tx_app_open_conn_req t = tc_net_app_to_tx_app_open_conn_req s @ qs) \<and>
         (\<exists>ps. tc_ptable_to_tx_app_rsp t = tc_ptable_to_tx_app_rsp s @ ps))
      TxAppConnectionHandler s"
  shows "\<exists>taken ports. tc_tx_app_to_ptable_req s = map oq_dest taken \<and>
     tc_tx_app_to_slookup_req s = map2 open_tuple (take (length ports) taken) ports \<and>
     length taken = length ports + of_bool (tc_tx_app_wait_for_free_port_lock s)"
proof -
  have "reaches open_conn.lock_ini open_conn.lock_env TxAppConnectionHandler s"
    using assms unfolding open_conn.lock_ini_def open_conn.lock_env_def .
  from open_conn.reaches_matched [OF this] obtain taken used where
    "tc_tx_app_to_ptable_req s = map oq_dest taken"
    "tc_tx_app_to_slookup_req s = map2 open_tuple (take (length used) taken) used"
    "if tc_tx_app_wait_for_free_port_lock s
     then taken \<noteq> [] \<and> length used = length taken - 1 \<and> tc_app_open_req_reg s = last taken
     else length used = length taken"
    unfolding open_conn.matched_def by auto
  then show ?thesis
    by (intro exI [of _ taken] exI [of _ used]) (auto split: if_splits simp: Suc_le_eq)
qed

theorem open_requests_get_own_port_witness:
  "\<exists>taken ports. let s = TxAppConnectionHandler (tx_app_conn_init\<lparr>tc_net_app_to_tx_app_open_conn_req :=
       [\<lparr>oq_data = \<lparr>ot_my_ip_addr = 1, ot_ip_addr = 2, ot_tcp_port = 80\<rparr>, oq_dest = 3\<rparr>]\<rparr>) in
     tc_tx_app_to_ptable_req s = map oq_dest taken \<and>
     tc_tx_app_to_slookup_req s = map2 open_tuple (take (length ports) taken) ports \<and>
     length taken = length ports + 1"
proof -
  let ?s = "tx_app_conn_init\<lparr>tc_net_app_to_tx_app_open_conn_req :=
       [\<lparr>oq_data = \<lparr>ot_my_ip_addr = 1, ot_ip_addr = 2, ot_tcp_port = 80\<rparr>, oq_dest = 3\<rparr>]\<rparr>"
  have "tc_tx_app_wait_for_free_port_lock (TxAppConnectionHandler ?s)"
    by (simp add: TxAppConnectionHandler_def conn_free_port_def tx_app_conn_init_def)
  then show ?thesis
    using open_requests_get_own_port [OF reaches_cycle [OF reaches_ini], of ?s]
    by (simp add: tx_app_conn_init_def Let_def)
qed

text \<open>A request to close a connection reads the state of the session, which takes its lock, and
  always writes it back, which releases the lock: an open session goes to FIN-WAIT-1 and a FIN is
  sent, any other keeps its state and nothing is sent.\<close>

theorem close_request_releases_session:
  assumes "tc_fsm_state s = CONN_IDLE" and "tc_net_app_to_tx_app_close_conn_req s = q # qs"
    and "tc_slookup_to_tx_app_rsp s = []" and "tc_rx_eng_to_tx_app_notification s = []"
    and "tc_rtimer_to_tx_app_notification s = []" and "tc_rx_eng_to_tx_app_new_client_notification s = []"
    and "tc_sttable_to_tx_app_rsp s = [st]"
  shows "let t = TxAppConnectionHandler (TxAppConnectionHandler s) in
     tc_fsm_state t = CONN_IDLE \<and> tc_net_app_to_tx_app_close_conn_req t = qs \<and> tc_sttable_to_tx_app_rsp t = [] \<and>
     tc_tx_app_to_sttable_req t = tc_tx_app_to_sttable_req s @
       [StateTableReq_read (ac_data q),
        StateTableReq_write (ac_data q) (if st = ESTABLISHED \<or> st = FIN_WAIT_1 then FIN_WAIT_1 else st)] \<and>
     tc_to_event_engine t = tc_to_event_engine s @
       (if st = ESTABLISHED \<or> st = FIN_WAIT_1 then [Event_basic FIN (ac_data q)] else [])"
proof -
  let ?s1 = "TxAppConnectionHandler s"
  have s1: "tc_fsm_state ?s1 = CLOSE_CONN" "tc_app_close_session_reg ?s1 = q"
    "tc_net_app_to_tx_app_close_conn_req ?s1 = qs" "tc_sttable_to_tx_app_rsp ?s1 = [st]"
    "tc_tx_app_to_sttable_req ?s1 = tc_tx_app_to_sttable_req s @ [StateTableReq_read (ac_data q)]"
    "tc_to_event_engine ?s1 = tc_to_event_engine s"
    using assms by (simp_all add: TxAppConnectionHandler_def conn_fsm_def conn_idle_def conn_close_def)
  then show ?thesis
    unfolding Let_def TxAppConnectionHandler_def [of ?s1]
    by (simp add: conn_fsm_def conn_close_state_def Let_def)
qed

theorem close_request_releases_session_witness:
  "tc_tx_app_to_sttable_req (TxAppConnectionHandler (TxAppConnectionHandler
     (tx_app_conn_init\<lparr>tc_net_app_to_tx_app_close_conn_req := [\<lparr>ac_data = 5, ac_dest = 0\<rparr>],
        tc_sttable_to_tx_app_rsp := [ESTABLISHED]\<rparr>))) = [StateTableReq_read 5, StateTableReq_write 5 FIN_WAIT_1]"
  using close_request_releases_session [of "tx_app_conn_init\<lparr>tc_net_app_to_tx_app_close_conn_req :=
        [\<lparr>ac_data = 5, ac_dest = 0\<rparr>], tc_sttable_to_tx_app_rsp := [ESTABLISHED]\<rparr>" "\<lparr>ac_data = 5, ac_dest = 0\<rparr>" "[]" ESTABLISHED]
  by (simp add: tx_app_conn_init_def Let_def)

section \<open>Data\<close>

definition accepts :: "SessionState \<Rightarrow> TxAppTableToTxAppRsp \<Rightarrow> AppTransDataReq \<Rightarrow> bool" where
  "accepts st rsp req \<longleftrightarrow> st = ESTABLISHED \<and> tq_data req \<le> tbr_ackd rsp - tbr_app_written_ideal rsp - 1"

text \<open>C24: A request to send is answered exactly once, and data is only taken into free buffer space: it
  is accepted when the session is established and the positions it is written to hold no
  unacknowledged byte, with a memory command for exactly these positions, an event for the engine
  and the pointer moved behind the data; otherwise the application gets the error, and nothing else
  is written.  Lengths are below 64 KiB here.\<close>

theorem send_request_answered:
  assumes "td_fsm_state s = TX_READ_META" and "td_trans_data_lock s"
    and "td_sttable_to_tx_app_lup_rsp s = st # sts" and "td_tx_app_table_to_tx_app_rsp s = rsp # rsps"
    and "req = td_trans_data_req s" and "unat (tq_data req) < 2 ^ 16"
  shows "let t = TxAppDataHandler s; start = tbr_app_written_ideal rsp in
     (\<exists>answer. td_tx_app_to_net_app_trans_data_rsp t = td_tx_app_to_net_app_trans_data_rsp s @ [answer] \<and>
        tr_dest answer = tq_dest req \<and> unat (tp_length (tr_data answer)) = unat (tq_data req) \<and>
        tp_error (tr_data answer) = (if st \<noteq> ESTABLISHED then ERROR_NOCONNECTION
          else if accepts st rsp req then NO_ERROR else ERROR_NOSPACE)) \<and>
     (if accepts st rsp req then
        (\<exists>cmd. td_tx_app_to_mem_write_cmd t = td_tx_app_to_mem_write_cmd s @ [cmd] \<and>
           get_range 0 (mb_addr cmd) = start \<and> unat (mb_length cmd) = unat (tq_data req)) \<and>
        (\<forall>i < unat (tq_data req). start + word_of_nat i \<notin> ring_used (tbr_ackd rsp) start) \<and>
        td_set_event t = td_set_event s @ [Event_data TX (tq_id req) start (ucast (tq_data req))] \<and>
        td_tx_app_to_tx_app_table_req t = td_tx_app_to_tx_app_table_req s @
          [TxAppToTxAppTableReq_write (tq_id req) (start + tq_data req)] \<and>
        td_fsm_state t = READ_DATA
      else
        td_tx_app_to_mem_write_cmd t = td_tx_app_to_mem_write_cmd s \<and> td_set_event t = td_set_event s \<and>
        td_tx_app_to_tx_app_table_req t = td_tx_app_to_tx_app_table_req s \<and>
        td_fsm_state t = READ_REQUEST \<and> \<not> td_trans_data_lock t)"
proof -
  have len: "unat (ucast (tq_data req) :: 16 word) = unat (tq_data req)"
    using assms(6) by (simp add: unsigned_ucast_eq take_bit_nat_eq_self)
  have addr: "(get_range 0 (GetSessionMemAddr False sid start) :: 18 word) = start" for sid start
    by (simp add: GetSessionMemAddr_def)
  have ring: "start + word_of_nat i \<notin> ring_used ackd start"
    if "tq_data req \<le> ackd - start - 1" "i < unat (tq_data req)" for ackd start i
    using ring_free [of "unat (tq_data req)" ackd start i] that by (simp add: word_le_nat_alt)
  show ?thesis
    using assms(1-5) len addr ring
    by (auto simp: TxAppDataHandler_def data_read_meta_def data_refused_def data_accepted_def trans_data_rsp_def
        accepts_def MemBufferRWCmd_new_def Let_def)
qed

text \<open>A handler that holds a request and the answers to its questions.\<close>

definition table_answer :: TxAppTableToTxAppRsp where
  "table_answer = \<lparr>tbr_session_id = 5, tbr_ackd = 90, tbr_app_written_ideal = 100\<rparr>"

definition sending :: "TcpSessionBuffer \<Rightarrow> TxAppData" where
  "sending n = tx_app_data_init\<lparr>td_fsm_state := TX_READ_META, td_trans_data_lock := True,
     td_trans_data_req := \<lparr>tq_data = n, tq_id = 5, tq_dest = 2\<rparr>, td_sttable_to_tx_app_lup_rsp := [ESTABLISHED],
     td_tx_app_table_to_tx_app_rsp := [table_answer]\<rparr>"

lemma sending_fields:
  "td_fsm_state (sending n) = TX_READ_META" "td_trans_data_lock (sending n)"
  "td_sttable_to_tx_app_lup_rsp (sending n) = ESTABLISHED # []"
  "td_tx_app_table_to_tx_app_rsp (sending n) = table_answer # []"
  "td_tx_app_to_mem_write_cmd (sending n) = []" "tq_data (td_trans_data_req (sending n)) = n"
  by (simp_all add: sending_def tx_app_data_init_def table_answer_def)

lemma sending_accepted:
  assumes "n \<le> 65536"
  shows "accepts ESTABLISHED table_answer (td_trans_data_req (sending n))"
proof -
  have "unat (- 11 :: TcpSessionBuffer) = 262133" using unat_uminus [of "11 :: TcpSessionBuffer"] by simp
  moreover have "unat n \<le> 65536" using assms by (simp add: word_le_nat_alt)
  ultimately show ?thesis by (simp add: accepts_def sending_fields word_le_nat_alt table_answer_def)
qed

theorem send_request_answered_witness:
  "\<exists>cmd. td_tx_app_to_mem_write_cmd (TxAppDataHandler (sending 7)) = [cmd] \<and>
     (get_range 0 (mb_addr cmd) :: TcpSessionBuffer) = tbr_app_written_ideal table_answer \<and> unat (mb_length cmd) = 7"
proof -
  have "unat (tq_data (td_trans_data_req (sending 7))) < 2 ^ 16" by (simp add: sending_fields)
  note t = send_request_answered [OF sending_fields(1-4) refl this]
  have "accepts ESTABLISHED table_answer (td_trans_data_req (sending 7))"
    by (rule sending_accepted) (simp add: word_le_nat_alt)
  note t = t [unfolded Let_def if_P [OF this]]
  from t [THEN conjunct2, THEN conjunct1] show ?thesis by (simp add: sending_fields)
qed

text \<open>A request of 64 KiB or more, which the request type and the check of the free space allow, is
  accepted, but the memory command, the event and the response carry its length modulo 64 KiB, while
  the write pointer moves by the whole length.\<close>

theorem long_send_request_truncated:
  assumes "td_fsm_state s = TX_READ_META" and "td_trans_data_lock s"
    and "td_sttable_to_tx_app_lup_rsp s = ESTABLISHED # sts" and "td_tx_app_table_to_tx_app_rsp s = rsp # rsps"
    and "req = td_trans_data_req s" and "2 ^ 16 \<le> unat (tq_data req)" and "accepts ESTABLISHED rsp req"
  shows "let t = TxAppDataHandler s in
     (\<exists>cmd. td_tx_app_to_mem_write_cmd t = td_tx_app_to_mem_write_cmd s @ [cmd] \<and>
        unat (mb_length cmd) = unat (tq_data req) mod 2 ^ 16 \<and> unat (mb_length cmd) < unat (tq_data req)) \<and>
     td_tx_app_to_tx_app_table_req t = td_tx_app_to_tx_app_table_req s @
       [TxAppToTxAppTableReq_write (tq_id req) (tbr_app_written_ideal rsp + tq_data req)]"
proof -
  have "unat (ucast (tq_data req) :: 16 word) = unat (tq_data req) mod 2 ^ 16"
    by (simp add: unsigned_ucast_eq take_bit_eq_mod)
  moreover have "unat (tq_data req) mod 2 ^ 16 < unat (tq_data req)"
    by (rule less_le_trans [OF mod_less_divisor assms(6)]) simp
  ultimately show ?thesis
    using assms(1-5,7)
    by (auto simp: TxAppDataHandler_def data_read_meta_def data_accepted_def accepts_def MemBufferRWCmd_new_def Let_def)
qed

theorem long_send_request_truncated_witness:
  "\<exists>cmd. td_tx_app_to_mem_write_cmd (TxAppDataHandler (sending 65536)) = [cmd] \<and> unat (mb_length cmd) = 0"
proof -
  have "2 ^ 16 \<le> unat (tq_data (td_trans_data_req (sending 65536)))" by (simp add: sending_fields)
  note t = long_send_request_truncated [OF sending_fields(1-4) refl this sending_accepted [OF order_refl], unfolded Let_def]
  from t [THEN conjunct1] show ?thesis by (auto simp: sending_fields)
qed

section \<open>Events follow their writes\<close>

interpretation tx_event: write_status TxAppRspHandler "\<lambda>s. ts_fsm_status s = READ_EV" ts_tx_app_to_event_eng_cache
    ts_mem_buffer_double_access_flag ts_mover_to_tx_app_write_status ts_tx_app_to_event_eng_set_event
    "\<lambda>ev. ev_type ev = TX" "\<lambda>ev. [ev]"
  by unfold_locales
    (simp_all add: TxAppRspHandler_def rsp_read_event_def rsp_status_1_def rsp_status_2_def rsp_confirm_def)

interpretation tx_pointer: write_status TxAppRspHandler "\<lambda>s. ts_fsm_status s = READ_EV" ts_tx_app_to_event_eng_cache
    ts_mem_buffer_double_access_flag ts_mover_to_tx_app_write_status ts_tx_app_to_tx_sar_upd_req
    "\<lambda>ev. ev_type ev = TX" "\<lambda>ev. if ev_type ev = TX then [written_to ev] else []"
  by unfold_locales
    (simp_all add: TxAppRspHandler_def rsp_read_event_def rsp_status_1_def rsp_status_2_def rsp_confirm_def)

text \<open>C25: The event engine hears of data, and the transmit table moves its pointer, exactly when all of the
  data is in memory: for a sequence of events with the outcomes of their writes, those that carry no
  data and those whose statuses are all good come out in order, the latter with the pointer at the
  end of their data, provided no first half of a split write fails.\<close>

theorem tx_events_follow_their_writes:
  assumes "ts_fsm_status s = READ_EV" and "\<forall>(ev, w) \<in> set xs. ev_type ev = TX \<longrightarrow> \<not> first_half_fails w"
    and "ts_tx_app_to_event_eng_cache s = map fst xs"
    and "ts_mem_buffer_double_access_flag s = concat (map (\<lambda>(ev, w). if ev_type ev = TX then [write_split w] else []) xs)"
    and "ts_mover_to_tx_app_write_status s = concat (map (\<lambda>(ev, w). if ev_type ev = TX then write_statuses w else []) xs)"
  shows "\<exists>k \<le> 3 * length xs. let t = (TxAppRspHandler ^^ k) s in ts_fsm_status t = READ_EV \<and>
     ts_tx_app_to_event_eng_cache t = [] \<and> ts_mem_buffer_double_access_flag t = [] \<and>
     ts_mover_to_tx_app_write_status t = [] \<and>
     ts_tx_app_to_event_eng_set_event t = ts_tx_app_to_event_eng_set_event s @
       concat (map (\<lambda>(ev, w). if ev_type ev = TX \<longrightarrow> write_ok w then [ev] else []) xs) \<and>
     ts_tx_app_to_tx_sar_upd_req t = ts_tx_app_to_tx_sar_upd_req s @
       concat (map (\<lambda>(ev, w). if ev_type ev = TX \<and> write_ok w then [written_to ev] else []) xs)"
proof -
  have runs: "ts_mem_buffer_double_access_flag s = tx_event.all_flags xs"
    "ts_mover_to_tx_app_write_status s = tx_event.all_statuses xs"
    using assms(4,5) by (simp_all add: tx_event.all_flags_def tx_event.all_statuses_def)
  have "tx_pointer.all_out xs = concat (map (\<lambda>(ev, w). if ev_type ev = TX \<and> write_ok w then [written_to ev] else []) xs)"
    unfolding tx_pointer.all_out_def by (rule arg_cong [of _ _ concat], rule map_cong [OF refl]) (auto split: prod.split)
  then show ?thesis
    using tx_event.serve_all [OF assms(1-3) runs] tx_pointer.serve_all [OF assms(1-3) runs]
      tx_event.cycles_bound [of xs] unfolding tx_event.all_out_def Let_def by (intro exI [of _ "tx_event.cycles xs"]) simp
qed

theorem tx_events_follow_their_writes_witness:
  "\<exists>k \<le> 6. ts_tx_app_to_tx_sar_upd_req ((TxAppRspHandler ^^ k)
     (tx_app_rsp_init\<lparr>ts_tx_app_to_event_eng_cache := [Event_data TX 5 100 7, Event_basic SYN 6],
        ts_mem_buffer_double_access_flag := [True], ts_mover_to_tx_app_write_status := [good_status, good_status]\<rparr>)) =
     [\<lparr>tas_session_id = 5, tas_app_written = 107\<rparr>]"
proof -
  let ?xs = "[(Event_data TX 5 100 7, Split good_status good_status), (Event_basic SYN 6, Whole good_status)]"
  let ?s = "tx_app_rsp_init\<lparr>ts_tx_app_to_event_eng_cache := [Event_data TX 5 100 7, Event_basic SYN 6],
      ts_mem_buffer_double_access_flag := [True], ts_mover_to_tx_app_write_status := [good_status, good_status]\<rparr>"
  have "\<exists>k \<le> 3 * length ?xs. let t = (TxAppRspHandler ^^ k) ?s in ts_fsm_status t = READ_EV \<and>
     ts_tx_app_to_event_eng_cache t = [] \<and> ts_mem_buffer_double_access_flag t = [] \<and>
     ts_mover_to_tx_app_write_status t = [] \<and>
     ts_tx_app_to_event_eng_set_event t = ts_tx_app_to_event_eng_set_event ?s @
       concat (map (\<lambda>(ev, w). if ev_type ev = TX \<longrightarrow> write_ok w then [ev] else []) ?xs) \<and>
     ts_tx_app_to_tx_sar_upd_req t = ts_tx_app_to_tx_sar_upd_req ?s @
       concat (map (\<lambda>(ev, w). if ev_type ev = TX \<and> write_ok w then [written_to ev] else []) ?xs)"
    by (rule tx_events_follow_their_writes)
      (simp_all add: tx_app_rsp_init_def Event_data_def Event_basic_def)
  then obtain k where "k \<le> 6" and
    "ts_tx_app_to_tx_sar_upd_req ((TxAppRspHandler ^^ k) ?s) = ts_tx_app_to_tx_sar_upd_req ?s @
       concat (map (\<lambda>(ev, w). if ev_type ev = TX \<and> write_ok w then [written_to ev] else []) ?xs)"
    unfolding Let_def by force
  then show ?thesis
    by (intro exI [of _ k]) (simp add: tx_app_rsp_init_def Event_data_def Event_basic_def written_to_def)
qed

section \<open>The stream of data has no gaps\<close>

text \<open>The handler and the table, with the requests and answers in flight between them.  The pointer of a
  session is that of the table after the writes in flight.\<close>

definition table_reqs :: "TxAppData \<Rightarrow> TxAppTable \<Rightarrow> TxAppToTxAppTableReq list" where
  "table_reqs d t = tt_tx_app_to_tx_app_table_req t @ td_tx_app_to_tx_app_table_req d"

definition table_rsps :: "TxAppData \<Rightarrow> TxAppTable \<Rightarrow> TxAppTableToTxAppRsp list" where
  "table_rsps d t = td_tx_app_table_to_tx_app_rsp d @ tt_tx_app_table_to_tx_app_rsp t"

definition pointer_after :: "TxAppToTxAppTableReq list \<Rightarrow> (TcpSessionID \<Rightarrow> TcpSessionBuffer) \<Rightarrow> TcpSessionID \<Rightarrow> TcpSessionBuffer" where
  "pointer_after reqs p = fold (\<lambda>q p. if tb_write q then p(tb_session_id q := tb_app_written_ideal q) else p) reqs p"

definition write_pointer :: "TxAppData \<Rightarrow> TxAppTable \<Rightarrow> TcpSessionID \<Rightarrow> TcpSessionBuffer" where
  "write_pointer d t = pointer_after (table_reqs d t) (\<lambda>sid. tte_app_written_ideal (tt_tx_app_table t sid))"

text \<open>While a request is open there is one question for its session behind the writes, or one answer
  with the pointer of the session and no other request; otherwise only writes are in flight.\<close>

definition in_step :: "TxAppData \<Rightarrow> TxAppTable \<Rightarrow> bool" where
  "in_step d t \<longleftrightarrow> (let sid = tq_id (td_trans_data_req d) in
     if td_fsm_state d = TX_READ_META then
       (\<exists>ws. table_reqs d t = ws @ [TxAppToTxAppTableReq_read sid] \<and> list_all tb_write ws \<and> table_rsps d t = []) \<or>
       (table_reqs d t = [] \<and> (\<exists>r. table_rsps d t = [r] \<and>
          tbr_app_written_ideal r = tte_app_written_ideal (tt_tx_app_table t sid)))
     else list_all tb_write (table_reqs d t) \<and> table_rsps d t = [])"

definition accepted_now :: "TxAppData \<Rightarrow> bool" where
  "accepted_now d \<longleftrightarrow> td_fsm_state d = TX_READ_META \<and> td_fsm_state (TxAppDataHandler d) = READ_DATA"

lemma handler_in_step:
  assumes "in_step d t" and "d' = d\<lparr>td_tx_app_table_to_tx_app_rsp := table_rsps d t\<rparr>"
    and "t' = t\<lparr>tt_tx_app_table_to_tx_app_rsp := []\<rparr>"
  shows "in_step (TxAppDataHandler d') t' \<and>
     (let sid = tq_id (td_trans_data_req d); n = tq_data (td_trans_data_req d) in
      write_pointer (TxAppDataHandler d') t' =
        (if accepted_now d' then (write_pointer d t)(sid := write_pointer d t sid + n) else write_pointer d t) \<and>
      td_tx_app_to_mem_write_cmd (TxAppDataHandler d') = td_tx_app_to_mem_write_cmd d @
        (if accepted_now d' then [MemBufferRWCmd_new (GetSessionMemAddr False sid (write_pointer d t sid)) (ucast n)] else []))"
proof (cases "td_fsm_state d")
  case READ_REQUEST
  then show ?thesis using assms
    by (auto simp: in_step_def accepted_now_def TxAppDataHandler_def data_read_request_def table_reqs_def table_rsps_def
        write_pointer_def pointer_after_def TxAppToTxAppTableReq_read_def Let_def)
next
  case READ_DATA
  then show ?thesis using assms
    by (auto simp: in_step_def accepted_now_def TxAppDataHandler_def data_word_def table_reqs_def table_rsps_def
        write_pointer_def pointer_after_def Let_def)
next
  case TX_READ_META
  then show ?thesis using assms
    by (auto simp: in_step_def accepted_now_def TxAppDataHandler_def data_read_meta_def data_refused_def data_accepted_def
        table_reqs_def table_rsps_def write_pointer_def pointer_after_def TxAppToTxAppTableReq_write_def
        TxAppToTxAppTableReq_read_def Let_def)
qed

text \<open>A session is busy while the handler decides on a request of it or a write of its pointer is in flight.
  The table may have to set a session up anew in \<open>us\<close> as long as that cannot meet a busy one; the open request
  only counts from the answer of the table on, which comes when no update waits.\<close>

definition session_busy :: "TxAppData \<Rightarrow> TxAppTable \<Rightarrow> TcpSessionID \<Rightarrow> bool" where
  "session_busy d t sid \<longleftrightarrow> td_fsm_state d = TX_READ_META \<and> tq_id (td_trans_data_req d) = sid \<or>
     (\<exists>q \<in> set (table_reqs d t). tb_write q \<and> tb_session_id q = sid)"

definition set_up_safe :: "TxAppData \<Rightarrow> TxAppTable \<Rightarrow> TxSarToTxAppReq list \<Rightarrow> bool" where
  "set_up_safe d t us \<longleftrightarrow> (\<forall>u \<in> set us. sta_init u \<longrightarrow>
     (\<forall>q \<in> set (table_reqs d t). tb_write q \<longrightarrow> tb_session_id q \<noteq> sta_session_id u) \<and>
     (td_fsm_state d = TX_READ_META \<and> table_reqs d t = [] \<longrightarrow> tq_id (td_trans_data_req d) \<noteq> sta_session_id u))"

definition pointer_set_up :: "TxSarToTxAppReq list \<Rightarrow> (TcpSessionID \<Rightarrow> TcpSessionBuffer) \<Rightarrow> TcpSessionID \<Rightarrow> TcpSessionBuffer" where
  "pointer_set_up us p = (case us of u # _ \<Rightarrow> if sta_init u then p(sta_session_id u := sta_ackd u) else p | [] \<Rightarrow> p)"

lemma no_set_up [simp]: "set_up_safe d t []" "pointer_set_up [] p = p"
  by (simp_all add: set_up_safe_def pointer_set_up_def)

lemma handler_safe:
  assumes "in_step d t" and "set_up_safe d t us" and "d' = d\<lparr>td_tx_app_table_to_tx_app_rsp := table_rsps d t\<rparr>"
    and "t' = t\<lparr>tt_tx_app_table_to_tx_app_rsp := []\<rparr>"
  shows "set_up_safe (TxAppDataHandler d') t' us"
proof (cases "td_fsm_state d")
  case TX_READ_META
  then show ?thesis using assms
    by (fastforce simp: in_step_def set_up_safe_def TxAppDataHandler_def data_read_meta_def data_refused_def data_accepted_def
        table_reqs_def table_rsps_def TxAppToTxAppTableReq_write_def TxAppToTxAppTableReq_read_def Let_def)
qed (use assms in \<open>auto simp: set_up_safe_def TxAppDataHandler_def data_read_request_def data_word_def table_reqs_def
    TxAppToTxAppTableReq_read_def\<close>)

lemma accepted_not_set_up:
  assumes "in_step d t" and "set_up_safe d t (u # us)" and "sta_init u"
    and "accepted_now (d\<lparr>td_tx_app_table_to_tx_app_rsp := table_rsps d t\<rparr>)"
  shows "sta_session_id u \<noteq> tq_id (td_trans_data_req d)"
  using assms
  by (auto simp: in_step_def set_up_safe_def accepted_now_def TxAppDataHandler_def Let_def split: if_splits)

lemma pointer_after_other:
  "(\<forall>q \<in> set qs. tb_write q \<longrightarrow> tb_session_id q \<noteq> k) \<Longrightarrow> pointer_after qs (p(k := v)) = (pointer_after qs p)(k := v)"
proof (induction qs arbitrary: p)
  case (Cons q qs)
  have "\<forall>q \<in> set qs. tb_write q \<longrightarrow> tb_session_id q \<noteq> k" using Cons.prems by simp
  note IH = Cons.IH [OF this]
  show ?case
  proof (cases "tb_write q")
    case True
    then have "(p(k := v))(tb_session_id q := x) = (p(tb_session_id q := x))(k := v)" for x
      using Cons.prems by (intro fun_upd_twist) auto
    then show ?thesis
      using True IH [of "p(tb_session_id q := tb_app_written_ideal q)"]
      by (simp only: pointer_after_def fold_simps if_True)
  next
    case False
    then show ?thesis using IH [of p] by (simp only: pointer_after_def fold_simps if_False)
  qed
qed (simp add: pointer_after_def)

lemma ideal_update:
  "(\<lambda>s. tte_app_written_ideal (if s = k then (tab k)\<lparr>tte_app_ackd := a\<rparr> else tab s)) = (\<lambda>s. tte_app_written_ideal (tab s))"
  "(\<lambda>s. tte_app_written_ideal (if s = k then (tab k)\<lparr>tte_app_written_ideal := v\<rparr> else tab s)) =
     (\<lambda>s. tte_app_written_ideal (tab s))(k := v)"
  "(\<lambda>s. tte_app_written_ideal (if s = k then (tab k)\<lparr>tte_app_ackd := a, tte_app_written_ideal := v\<rparr> else tab s)) =
     (\<lambda>s. tte_app_written_ideal (tab s))(k := v)"
  by auto

lemma table_read_fields [simp]:
  "tb_session_id (TxAppToTxAppTableReq_read sid) = sid" "\<not> tb_write (TxAppToTxAppTableReq_read sid)"
  by (simp_all add: TxAppToTxAppTableReq_read_def)

lemma table_in_step:
  assumes "in_step d t" and "set_up_safe d t (tt_tx_sar_to_tx_app_upd_req t)"
    and "d' = d\<lparr>td_tx_app_to_tx_app_table_req := []\<rparr>"
    and "t' = t\<lparr>tt_tx_app_to_tx_app_table_req := table_reqs d t\<rparr>"
  shows "in_step d' (TxAppTableInterface t') \<and>
     write_pointer d' (TxAppTableInterface t') = pointer_set_up (tt_tx_sar_to_tx_app_upd_req t) (write_pointer d t) \<and>
     set_up_safe d' (TxAppTableInterface t') (tt_tx_sar_to_tx_app_upd_req (TxAppTableInterface t'))"
proof (cases "tt_tx_sar_to_tx_app_upd_req t")
  case (Cons u us)
  let ?t = "TxAppTableInterface t'"
  have r: "table_reqs d' ?t = table_reqs d t" "table_rsps d' ?t = table_rsps d t" "tt_tx_sar_to_tx_app_upd_req ?t = us"
      "tt_tx_app_table ?t = (tt_tx_app_table t)(sta_session_id u := (if sta_init u
        then (tt_tx_app_table t (sta_session_id u))\<lparr>tte_app_ackd := sta_ackd u - 1, tte_app_written_ideal := sta_ackd u\<rparr>
        else (tt_tx_app_table t (sta_session_id u))\<lparr>tte_app_ackd := sta_ackd u\<rparr>))"
    using Cons assms(3,4)
    by (simp_all add: TxAppTableInterface_def table_sar_update_def table_reqs_def table_rsps_def Let_def)
  have "in_step d' ?t"
    using assms(1-3) Cons unfolding in_step_def r by (auto simp: set_up_safe_def Let_def split: if_splits)
  moreover have "write_pointer d' ?t = pointer_set_up (u # us) (write_pointer d t)"
    using assms(2) Cons unfolding write_pointer_def r
    by (auto simp: set_up_safe_def pointer_set_up_def ideal_update fun_upd_def [of "tt_tx_app_table t"] pointer_after_other)
  ultimately show ?thesis using assms(2,3) Cons r by (auto simp: set_up_safe_def)
next
  case no_update: Nil
  show ?thesis
  proof (cases "table_reqs d t")
    case Nil
    then show ?thesis using assms no_update
      by (auto simp: in_step_def TxAppTableInterface_def table_reqs_def table_rsps_def write_pointer_def Let_def)
  next
    case (Cons q qs)
    have step: "TxAppTableInterface t' = table_access q (t'\<lparr>tt_tx_app_to_tx_app_table_req := qs\<rparr>)"
      using Cons assms(4) no_update by (simp add: TxAppTableInterface_def)
    show ?thesis
    proof (cases "tb_write q")
      case True
      then have "td_fsm_state d = TX_READ_META \<longrightarrow>
          (\<exists>ws. qs = ws @ [TxAppToTxAppTableReq_read (tq_id (td_trans_data_req d))] \<and> list_all tb_write ws)"
          "td_fsm_state d \<noteq> TX_READ_META \<longrightarrow> list_all tb_write qs" "table_rsps d t = []"
        using assms(1) Cons by (auto simp: in_step_def Let_def Cons_eq_append_conv split: if_splits)
      then show ?thesis using True Cons assms(2-4) step no_update
        by (simp add: in_step_def table_access_def table_reqs_def table_rsps_def write_pointer_def pointer_after_def
            Let_def ideal_update)
    next
      case False
      then have "td_fsm_state d = TX_READ_META" "qs = []" "q = TxAppToTxAppTableReq_read (tq_id (td_trans_data_req d))"
          "table_rsps d t = []"
        using assms(1) Cons by (auto simp: in_step_def Let_def Cons_eq_append_conv split: if_splits)
      then show ?thesis using Cons assms(2-4) step no_update
        by (simp add: in_step_def table_access_def table_reqs_def table_rsps_def write_pointer_def pointer_after_def Let_def)
    qed
  qed
qed

text \<open>The other calls of the wrapper keep both records in step.\<close>

lemma in_step_outputs [simp]:
  "in_step (d\<lparr>td_tx_app_to_mem_write_cmd := cs, td_tx_app_to_mem_write_data := ws\<rparr>) t = in_step d t"
  "in_step (d\<lparr>td_set_event := es\<rparr>) t = in_step d t"
  "write_pointer (d\<lparr>td_tx_app_to_mem_write_cmd := cs, td_tx_app_to_mem_write_data := ws\<rparr>) t = write_pointer d t"
  "write_pointer (d\<lparr>td_set_event := es\<rparr>) t = write_pointer d t"
  "table_reqs (d\<lparr>td_tx_app_to_mem_write_cmd := cs, td_tx_app_to_mem_write_data := ws\<rparr>) t = table_reqs d t"
  "table_reqs (d\<lparr>td_set_event := es\<rparr>) t = table_reqs d t"
  by (simp_all add: in_step_def write_pointer_def table_reqs_def table_rsps_def Let_def)

lemma events_call: "\<exists>es. ta_data (app_run_events s) = (ta_data s)\<lparr>td_set_event := es\<rparr> \<and> ta_table (app_run_events s) = ta_table s"
  by (auto simp: app_run_events_def split: prod.split)

lemma calls_before_table:
  "\<exists>es. ta_data (app_run_rsp (app_run_events (app_run_write s))) =
       (ta_data s)\<lparr>td_tx_app_to_mem_write_cmd := [], td_tx_app_to_mem_write_data := [], td_set_event := es\<rparr> \<and>
     ta_table (app_run_rsp (app_run_events (app_run_write s))) = ta_table s"
  using events_call [of "app_run_write s"] by (auto simp: app_run_rsp_def app_run_write_def)

lemma intf_data_table:
  defines "d \<equiv> \<lambda>s. TxAppDataHandler ((ta_data s)\<lparr>td_tx_app_table_to_tx_app_rsp := table_rsps (ta_data s) (ta_table s)\<rparr>)"
  shows "ta_data (app_run_data (app_run_conn s)) = d s"
    and "\<exists>es. ta_data (tx_app_intf s) = (d s)\<lparr>td_tx_app_to_mem_write_cmd := [], td_tx_app_to_mem_write_data := [],
         td_set_event := es, td_tx_app_to_tx_app_table_req := []\<rparr>"
    and "ta_table (tx_app_intf s) = TxAppTableInterface ((ta_table s)\<lparr>tt_tx_app_table_to_tx_app_rsp := [],
         tt_tx_app_to_tx_app_table_req := table_reqs (d s) (ta_table s)\<rparr>)"
proof -
  show d: "ta_data (app_run_data (app_run_conn s)) = d s"
    by (simp add: app_run_data_def app_run_conn_def d_def table_rsps_def)
  have t: "ta_table (app_run_data (app_run_conn s)) = (ta_table s)\<lparr>tt_tx_app_table_to_tx_app_rsp := []\<rparr>"
    by (simp add: app_run_data_def app_run_conn_def)
  obtain es where "ta_data (app_run_rsp (app_run_events (app_run_write (app_run_data (app_run_conn s))))) =
       (d s)\<lparr>td_tx_app_to_mem_write_cmd := [], td_tx_app_to_mem_write_data := [], td_set_event := es\<rparr>"
     "ta_table (app_run_rsp (app_run_events (app_run_write (app_run_data (app_run_conn s))))) =
       (ta_table s)\<lparr>tt_tx_app_table_to_tx_app_rsp := []\<rparr>"
    using calls_before_table [of "app_run_data (app_run_conn s)"] d t by auto
  then show "\<exists>es. ta_data (tx_app_intf s) = (d s)\<lparr>td_tx_app_to_mem_write_cmd := [], td_tx_app_to_mem_write_data := [],
         td_set_event := es, td_tx_app_to_tx_app_table_req := []\<rparr>"
    and "ta_table (tx_app_intf s) = TxAppTableInterface ((ta_table s)\<lparr>tt_tx_app_table_to_tx_app_rsp := [],
         tt_tx_app_to_tx_app_table_req := table_reqs (d s) (ta_table s)\<rparr>)"
    by (auto simp: tx_app_intf_def app_run_table_def table_reqs_def)
qed

text \<open>In one cycle of the wrapper.\<close>

definition app_inv :: "TxApp \<Rightarrow> bool" where
  "app_inv s \<longleftrightarrow> in_step (ta_data s) (ta_table s) \<and> td_tx_app_to_mem_write_cmd (ta_data s) = [] \<and>
     set_up_safe (ta_data s) (ta_table s) (tt_tx_sar_to_tx_app_upd_req (ta_table s))"

abbreviation app_pointer :: "TxApp \<Rightarrow> TcpSessionID \<Rightarrow> TcpSessionBuffer" where
  "app_pointer s \<equiv> write_pointer (ta_data s) (ta_table s)"

lemma app_cycle:
  assumes "app_inv s"
  defines "sid \<equiv> tq_id (td_trans_data_req (ta_data s))" and "n \<equiv> tq_data (td_trans_data_req (ta_data s))"
    and "accepted \<equiv> td_fsm_state (ta_data s) = TX_READ_META \<and> td_fsm_state (ta_data (tx_app_intf s)) = READ_DATA"
  shows "app_inv (tx_app_intf s) \<and>
     td_tx_app_to_mem_write_cmd (ta_data (app_run_data (app_run_conn s))) =
       (if accepted then [MemBufferRWCmd_new (GetSessionMemAddr False sid (app_pointer s sid)) (ucast n)] else []) \<and>
     app_pointer (tx_app_intf s) = pointer_set_up (tt_tx_sar_to_tx_app_upd_req (ta_table s))
       (if accepted then (app_pointer s)(sid := app_pointer s sid + n) else app_pointer s)"
proof -
  let ?d = "(ta_data s)\<lparr>td_tx_app_table_to_tx_app_rsp := table_rsps (ta_data s) (ta_table s)\<rparr>"
  let ?t = "(ta_table s)\<lparr>tt_tx_app_table_to_tx_app_rsp := []\<rparr>"
  note c = intf_data_table [of s]
  obtain es where d: "ta_data (tx_app_intf s) = (TxAppDataHandler ?d)\<lparr>td_tx_app_to_mem_write_cmd := [],
       td_tx_app_to_mem_write_data := [], td_set_event := es, td_tx_app_to_tx_app_table_req := []\<rparr>"
    using c(2) by blast
  have acc: "accepted = accepted_now ?d" by (simp add: accepted_def accepted_now_def d)
  have inv: "in_step (ta_data s) (ta_table s)" "set_up_safe (ta_data s) (ta_table s) (tt_tx_sar_to_tx_app_upd_req ?t)"
      "td_tx_app_to_mem_write_cmd (ta_data s) = []"
    using assms(1) by (simp_all add: app_inv_def)
  note h = handler_in_step [OF inv(1) refl refl, folded sid_def n_def acc, unfolded Let_def]
  have e: "in_step ((TxAppDataHandler ?d)\<lparr>td_tx_app_to_mem_write_cmd := [], td_tx_app_to_mem_write_data := [],
       td_set_event := es\<rparr>) ?t" using h by simp
  have r: "table_reqs ((TxAppDataHandler ?d)\<lparr>td_tx_app_to_mem_write_cmd := [], td_tx_app_to_mem_write_data := [],
       td_set_event := es\<rparr>) ?t = table_reqs (TxAppDataHandler ?d) (ta_table s)" by (simp add: table_reqs_def)
  have "set_up_safe ((TxAppDataHandler ?d)\<lparr>td_tx_app_to_mem_write_cmd := [], td_tx_app_to_mem_write_data := [],
       td_set_event := es\<rparr>) ?t (tt_tx_sar_to_tx_app_upd_req ?t)"
    using handler_safe [OF inv(1,2) refl refl] by (simp add: set_up_safe_def table_reqs_def)
  note t = table_in_step [OF e this refl refl, unfolded r]
  show ?thesis using h t c(1,3) inv(3) by (simp add: app_inv_def d)
qed

lemma accepted_session_kept:
  assumes "app_inv s" and "tt_tx_sar_to_tx_app_upd_req (ta_table s) = u # us" and "sta_init u"
    and "td_fsm_state (ta_data s) = TX_READ_META" and "td_fsm_state (ta_data (tx_app_intf s)) = READ_DATA"
  shows "sta_session_id u \<noteq> tq_id (td_trans_data_req (ta_data s))"
proof (rule accepted_not_set_up)
  show "in_step (ta_data s) (ta_table s)" "set_up_safe (ta_data s) (ta_table s) (u # us)" "sta_init u"
    using assms(1-3) by (simp_all add: app_inv_def)
  show "accepted_now ((ta_data s)\<lparr>td_tx_app_table_to_tx_app_rsp := table_rsps (ta_data s) (ta_table s)\<rparr>)"
    using intf_data_table(2) [of s] assms(4,5) by (auto simp: accepted_now_def)
qed

text \<open>Between the cycles the environment extends and consumes the outer streams.  The transmit table reports
  acknowledgments, and sets a session up anew as long as it is not busy.\<close>

definition tx_app_env :: "TxApp \<Rightarrow> TxApp \<Rightarrow> bool" where
  "tx_app_env s t \<longleftrightarrow>
     (\<exists>reqs rsps words lups states. ta_data t = (ta_data s)\<lparr>td_net_app_to_tx_app_trans_data_req := reqs,
        td_tx_app_to_net_app_trans_data_rsp := rsps, td_net_app_trans_data := words,
        td_tx_app_to_sttable_lup_req := lups, td_sttable_to_tx_app_lup_rsp := states\<rparr>) \<and>
     (\<exists>us. (\<forall>u \<in> set us. sta_init u \<longrightarrow> \<not> session_busy (ta_data s) (ta_table s) (sta_session_id u)) \<and>
        ta_table t = (ta_table s)\<lparr>tt_tx_sar_to_tx_app_upd_req := tt_tx_sar_to_tx_app_upd_req (ta_table s) @ us\<rparr>)"

text \<open>The table may have any contents at the start of the run.\<close>

definition tx_app_set_up :: "TxApp \<Rightarrow> bool" where
  "tx_app_set_up s \<longleftrightarrow> ta_data s = tx_app_data_init \<and>
     (\<exists>tab. ta_table s = tx_app_table_init\<lparr>tt_tx_app_table := tab\<rparr>)"

lemma app_inv_env:
  assumes "app_inv s" and "tx_app_env s t"
  shows "app_inv t"
proof -
  obtain us where us: "\<forall>u \<in> set us. sta_init u \<longrightarrow> \<not> session_busy (ta_data s) (ta_table s) (sta_session_id u)"
      "tt_tx_sar_to_tx_app_upd_req (ta_table t) = tt_tx_sar_to_tx_app_upd_req (ta_table s) @ us"
    and same: "table_reqs (ta_data t) (ta_table t) = table_reqs (ta_data s) (ta_table s)"
      "table_rsps (ta_data t) (ta_table t) = table_rsps (ta_data s) (ta_table s)"
      "tt_tx_app_table (ta_table t) = tt_tx_app_table (ta_table s)" "td_fsm_state (ta_data t) = td_fsm_state (ta_data s)"
      "td_trans_data_req (ta_data t) = td_trans_data_req (ta_data s)"
      "td_tx_app_to_mem_write_cmd (ta_data t) = td_tx_app_to_mem_write_cmd (ta_data s)"
    using assms(2) by (auto simp: tx_app_env_def table_reqs_def table_rsps_def)
  have "set_up_safe (ta_data s) (ta_table s) us" using us(1) by (auto simp: set_up_safe_def session_busy_def)
  then show ?thesis
    using assms(1) unfolding app_inv_def in_step_def set_up_safe_def same us(2) by auto
qed

interpretation tx_app: hls_process tx_app_set_up tx_app_env tx_app_intf app_inv
proof
  fix s t
  show "tx_app_set_up s \<Longrightarrow> app_inv s"
    by (auto simp: tx_app_set_up_def app_inv_def in_step_def table_reqs_def table_rsps_def set_up_safe_def
        tx_app_data_init_def tx_app_table_init_def)
  show "app_inv s \<Longrightarrow> tx_app_env s t \<Longrightarrow> app_inv t"
    by (rule app_inv_env)
  show "app_inv s \<Longrightarrow> app_inv (tx_app_intf s)" by (simp add: app_cycle)
qed

text \<open>C6: What the applications send is laid out in the buffer one request behind the other: in every run of
  the interface, however requests, acknowledgments and set-ups of sessions interleave, there is one write pointer
  per session.  A request that is accepted gets one memory command, which starts at the pointer of its
  session, and moves that pointer by its length; an update that sets a session up puts its pointer to the
  new start; nothing else moves a pointer, and nothing else gets a command.  A session is only set up
  while no request of it is being decided and no write of its pointer is in flight.  The command has 16 bits for the
  length: for a request below 64 KiB it covers exactly the bytes that the pointer moves over, a longer one
  gets a command for its length modulo 64 KiB, behind which there is a gap.\<close>

theorem tx_writes_are_contiguous:
  assumes "reaches tx_app_set_up tx_app_env tx_app_intf s"
    and "accepted \<longleftrightarrow> td_fsm_state (ta_data s) = TX_READ_META \<and> td_fsm_state (ta_data (tx_app_intf s)) = READ_DATA"
    and "req = td_trans_data_req (ta_data s)" and "sid = tq_id req"
  shows "td_tx_app_to_mem_write_cmd (ta_data (app_run_data (app_run_conn s))) =
       (if accepted then [MemBufferRWCmd_new (GetSessionMemAddr False sid (app_pointer s sid)) (ucast (tq_data req))] else []) \<and>
     unat (ucast (tq_data req) :: 16 word) = unat (tq_data req) mod 2 ^ 16 \<and>
     (let p = (if accepted then (app_pointer s)(sid := app_pointer s sid + tq_data req) else app_pointer s) in
      app_pointer (tx_app_intf s) =
        (case tt_tx_sar_to_tx_app_upd_req (ta_table s) of
           u # _ \<Rightarrow> if sta_init u then p(sta_session_id u := sta_ackd u) else p
         | [] \<Rightarrow> p)) \<and>
     (case tt_tx_sar_to_tx_app_upd_req (ta_table s) of
        u # _ \<Rightarrow> \<not> (accepted \<and> sta_init u \<and> sta_session_id u = sid)
      | [] \<Rightarrow> True)"
proof -
  have inv: "app_inv s" by (rule tx_app.reaches_inv [OF assms(1)])
  have "sta_session_id u \<noteq> sid" if "tt_tx_sar_to_tx_app_upd_req (ta_table s) = u # us" "accepted" "sta_init u" for u us
    using accepted_session_kept [OF inv that(1,3)] that(2) assms(2-4) by simp
  then show ?thesis
    using app_cycle [OF inv] assms(2-4)
    by (auto simp: pointer_set_up_def Let_def unsigned_ucast_eq take_bit_eq_mod split: list.split)
qed

text \<open>Two cycles: the request of seven bytes is read, then accepted.\<close>

definition one_request :: TxApp where
  "one_request = tx_app_init
     \<lparr>ta_data := tx_app_data_init\<lparr>td_net_app_to_tx_app_trans_data_req := [\<lparr>tq_data = 7, tq_id = 5, tq_dest = 2\<rparr>]\<rparr>,
      ta_table := tx_app_table_init\<lparr>tt_tx_app_table := (\<lambda>_. \<lparr>tte_app_ackd = 90, tte_app_written_ideal = 100\<rparr>)\<rparr>\<rparr>"

definition request_read :: TxApp where
  "request_read = (tx_app_intf one_request)\<lparr>ta_data :=
     (ta_data (tx_app_intf one_request))\<lparr>td_sttable_to_tx_app_lup_rsp := [ESTABLISHED]\<rparr>\<rparr>"

lemma reaches_request_read: "reaches tx_app_set_up tx_app_env tx_app_intf request_read"
proof -
  have env: "tx_app_env s (s\<lparr>ta_data := (ta_data s)\<lparr>td_net_app_to_tx_app_trans_data_req := reqs,
      td_sttable_to_tx_app_lup_rsp := states\<rparr>\<rparr>)" for s reqs states
    unfolding tx_app_env_def
    by (intro conjI exI [of _ reqs] exI [of _ states] exI [of _ "td_tx_app_to_net_app_trans_data_rsp (ta_data s)"]
        exI [of _ "td_net_app_trans_data (ta_data s)"] exI [of _ "td_tx_app_to_sttable_lup_req (ta_data s)"]
        exI [of _ "[]"]) simp_all
  let ?i = "one_request\<lparr>ta_data := tx_app_data_init\<rparr>"
  have "tx_app_set_up ?i" by (auto simp: tx_app_set_up_def one_request_def)
  have e: "one_request = ?i\<lparr>ta_data := (ta_data ?i)\<lparr>td_net_app_to_tx_app_trans_data_req :=
      [\<lparr>tq_data = 7, tq_id = 5, tq_dest = 2\<rparr>], td_sttable_to_tx_app_lup_rsp := []\<rparr>\<rparr>"
    by (simp add: one_request_def tx_app_data_init_def)
  have "tx_app_env ?i one_request"
    using env [where s = ?i and reqs = "[\<lparr>tq_data = 7, tq_id = 5, tq_dest = 2\<rparr>]" and states = "[]"]
    unfolding e [symmetric] .
  with \<open>tx_app_set_up ?i\<close> have "reaches tx_app_set_up tx_app_env tx_app_intf (tx_app_intf one_request)"
    by (blast intro: reaches.intros)
  then show ?thesis
    unfolding request_read_def
    by (rule reaches_env) (use env [where s = "tx_app_intf one_request" and states = "[ESTABLISHED]"
        and reqs = "td_net_app_to_tx_app_trans_data_req (ta_data (tx_app_intf one_request))"] in simp)
qed

lemma request_read_state:
  "td_fsm_state (ta_data request_read) = TX_READ_META" "td_fsm_state (ta_data (tx_app_intf request_read)) = READ_DATA"
  "tq_id (td_trans_data_req (ta_data request_read)) = 5" "tq_data (td_trans_data_req (ta_data request_read)) = 7"
  "app_pointer request_read 5 = 100" "tt_tx_sar_to_tx_app_upd_req (ta_table request_read) = []"
proof -
  note c1 = intf_data_table [of one_request]
  obtain es where d: "ta_data (tx_app_intf one_request) = tx_app_data_init\<lparr>td_fsm_state := TX_READ_META,
      td_trans_data_lock := True, td_trans_data_req := \<lparr>tq_data = 7, tq_id = 5, tq_dest = 2\<rparr>,
      td_tx_app_to_sttable_lup_req := [5], td_set_event := es\<rparr>"
    using c1(2) by (auto simp: one_request_def TxAppDataHandler_def data_read_request_def tx_app_data_init_def
        table_rsps_def tx_app_table_init_def)
  have t: "ta_table (tx_app_intf one_request) = tx_app_table_init\<lparr>tt_tx_app_table := (\<lambda>_. \<lparr>tte_app_ackd = 90, tte_app_written_ideal = 100\<rparr>),
      tt_tx_app_table_to_tx_app_rsp := [table_answer]\<rparr>"
    using c1(3) by (simp add: one_request_def TxAppDataHandler_def data_read_request_def tx_app_data_init_def
        table_rsps_def table_reqs_def tx_app_table_init_def TxAppTableInterface_def table_access_def
        TxAppToTxAppTableReq_read_def table_answer_def)
  have "unat (- 11 :: TcpSessionBuffer) = 262133" using unat_uminus [of "11 :: TcpSessionBuffer"] by simp
  then have a: "\<not> (7 :: TcpSessionBuffer) > - 11" by (simp add: word_less_nat_alt)
  have r: "ta_data request_read = (ta_data (tx_app_intf one_request))\<lparr>td_sttable_to_tx_app_lup_rsp := [ESTABLISHED]\<rparr>"
    "ta_table request_read = ta_table (tx_app_intf one_request)"
    by (simp_all add: request_read_def)
  show "td_fsm_state (ta_data request_read) = TX_READ_META"
    "tq_id (td_trans_data_req (ta_data request_read)) = 5" "tq_data (td_trans_data_req (ta_data request_read)) = 7"
    "app_pointer request_read 5 = 100" "tt_tx_sar_to_tx_app_upd_req (ta_table request_read) = []"
    by (simp_all add: r d t write_pointer_def table_reqs_def pointer_after_def tx_app_data_init_def tx_app_table_init_def)
  obtain es' where "ta_data (tx_app_intf request_read) = (TxAppDataHandler ((ta_data request_read)
      \<lparr>td_tx_app_table_to_tx_app_rsp := table_rsps (ta_data request_read) (ta_table request_read)\<rparr>))
      \<lparr>td_tx_app_to_mem_write_cmd := [], td_tx_app_to_mem_write_data := [], td_set_event := es',
       td_tx_app_to_tx_app_table_req := []\<rparr>"
    using intf_data_table(2) [of request_read] by blast
  then show "td_fsm_state (ta_data (tx_app_intf request_read)) = READ_DATA"
    using a by (simp add: r d t table_rsps_def TxAppDataHandler_def data_read_meta_def data_accepted_def Let_def
        table_answer_def tx_app_data_init_def tx_app_table_init_def)
qed

theorem tx_writes_are_contiguous_witness:
  "app_pointer (tx_app_intf request_read) 5 = 107 \<and> app_pointer (tx_app_intf request_read) 6 = app_pointer request_read 6"
  using tx_writes_are_contiguous [OF reaches_request_read refl refl refl] by (simp add: request_read_state Let_def)

end
