(* ===== verification/Tx_Header.thy ===== *)
theory Tx_Header
  imports Rx_Packet Rx_Options Checksum
begin

text \<open>
  The processes of \<open>tx_engine/tx_engine.cpp\<close> that build headers: \<open>TxEngFourTupleHandler\<close> fetches the
  addresses of a segment, \<open>TxEngPseudoFullHeaderConstruct\<close> builds its pseudo header and TCP header,
  \<open>TxEngConstructIpv4Header\<close> its IP header.  The theorems read the headers back: with the receive
  engine's parser, and with the checksum of RFC 1071.
\<close>

section \<open>Meta data: \<open>tx_engine.hpp\<close>\<close>

record TxEngFsmMetaData =
  xm_seq_number :: "32 word"
  xm_ack_number :: "32 word"
  xm_win_size :: "16 word"
  xm_win_scale :: "4 word"
  xm_length :: "16 word"
  xm_ack :: bool
  xm_rst :: bool
  xm_syn :: bool
  xm_fin :: bool
  xm_role_id :: NetAXISDest

definition TxEngFsmMetaData_default :: TxEngFsmMetaData where
  "TxEngFsmMetaData_default =
     \<lparr>xm_seq_number = 0, xm_ack_number = 0, xm_win_size = 0, xm_win_scale = 0, xm_length = 0,
      xm_ack = False, xm_rst = False, xm_syn = False, xm_fin = False, xm_role_id = 0\<rparr>"

definition TxEngFsmMetaData_numbers ::
  "32 word \<Rightarrow> 32 word \<Rightarrow> bool \<Rightarrow> bool \<Rightarrow> bool \<Rightarrow> bool \<Rightarrow> TxEngFsmMetaData" where
  "TxEngFsmMetaData_numbers seq_number ack_number ack rst syn fin =
     \<lparr>xm_seq_number = seq_number, xm_ack_number = ack_number, xm_win_size = 0, xm_win_scale = 0,
      xm_length = 0, xm_ack = ack, xm_rst = rst, xm_syn = syn, xm_fin = fin, xm_role_id = 0\<rparr>"

datatype IpAddrPair = IpAddrPair (ipp_src_ip_addr: IpAddr) (ipp_dst_ip_addr: IpAddr)

definition INIT_SEQ_NUMBER :: "32 word" where
  "INIT_SEQ_NUMBER = 0x7C579CB3"

text \<open>The initial sequence number and the new value of the static of \<open>RandomVal\<close>.\<close>

fun RandomVal :: "build \<Rightarrow> 32 word \<Rightarrow> 32 word \<times> 32 word" where
  "RandomVal Simulation ramdom_val = (INIT_SEQ_NUMBER, ramdom_val)"
| "RandomVal Synthesis ramdom_val = (let v = (ramdom_val * 8) XOR ramdom_val in (v, v))"

section \<open>\<open>TxEngFourTupleHandler\<close>\<close>

datatype TxEngTupleFsm = LOAD_TUPLE_SRC | READ_TUPLE_FROM_TX_ENG | READ_TUPLE_FROM_SLUP_CTRL

record TxTuple =
  xt_fsm_state :: TxEngTupleFsm
  xt_tuple_is_from_slookup :: bool
  xt_slookup_rev_table_to_tx_eng_rsp :: "ReverseTableToTxEngRsp stream"
  xt_tx_four_tuple_source :: "bool stream"
  xt_tx_eng_fsm_four_tuple :: "FourTuple stream"
  xt_tx_four_tuple_for_tcp_header :: "FourTuple stream"
  xt_tx_ip_pair_for_ip_header :: "IpAddrPair stream"

definition send_tuple :: "FourTuple \<Rightarrow> TxTuple \<Rightarrow> TxTuple" where
  "send_tuple t s =
     s\<lparr>xt_tx_ip_pair_for_ip_header := xt_tx_ip_pair_for_ip_header s @ [IpAddrPair (src_ip_addr t) (dst_ip_addr t)],
       xt_tx_four_tuple_for_tcp_header := xt_tx_four_tuple_for_tcp_header s @ [t],
       xt_fsm_state := LOAD_TUPLE_SRC\<rparr>"

definition TxEngFourTupleHandler :: "TxTuple \<Rightarrow> TxTuple" where
  "TxEngFourTupleHandler s =
     (case xt_fsm_state s of
        LOAD_TUPLE_SRC \<Rightarrow>
          (case xt_tx_four_tuple_source s of
             b # bs \<Rightarrow> s\<lparr>xt_tx_four_tuple_source := bs, xt_tuple_is_from_slookup := b,
                 xt_fsm_state := (if b then READ_TUPLE_FROM_SLUP_CTRL else READ_TUPLE_FROM_TX_ENG)\<rparr>
           | [] \<Rightarrow> s)
      | READ_TUPLE_FROM_SLUP_CTRL \<Rightarrow>
          (case xt_slookup_rev_table_to_tx_eng_rsp s of
             r # rs \<Rightarrow> send_tuple (rt_four_tuple r) (s\<lparr>xt_slookup_rev_table_to_tx_eng_rsp := rs\<rparr>)
           | [] \<Rightarrow> s)
      | READ_TUPLE_FROM_TX_ENG \<Rightarrow>
          (case xt_tx_eng_fsm_four_tuple s of
             t # ts \<Rightarrow> send_tuple t (s\<lparr>xt_tx_eng_fsm_four_tuple := ts\<rparr>)
           | [] \<Rightarrow> s))"

definition tx_tuple_init :: TxTuple where
  "tx_tuple_init =
     \<lparr>xt_fsm_state = LOAD_TUPLE_SRC, xt_tuple_is_from_slookup = False, xt_slookup_rev_table_to_tx_eng_rsp = [],
      xt_tx_four_tuple_source = [], xt_tx_eng_fsm_four_tuple = [], xt_tx_four_tuple_for_tcp_header = [],
      xt_tx_ip_pair_for_ip_header = []\<rparr>"

section \<open>\<open>TxEngPseudoFullHeaderConstruct\<close>\<close>

record TxHeader =
  xh_tx_fsm_meta_data_reg :: TxEngFsmMetaData
  xh_four_tuple :: FourTuple
  xh_tx_eng_fsm_meta_data :: "TxEngFsmMetaData stream"
  xh_tx_four_tuple_for_tcp_header :: "FourTuple stream"
  xh_tx_tcp_packet_contains_payload :: "bool stream"
  xh_tx_tcp_pseudo_full_header_out :: "NetAXISWord stream"

text \<open>The options of a SYN: the segment size, and the window scale when there is one to announce.  The
  header length is written with them.\<close>

definition put_syn_options :: "TxEngFsmMetaData \<Rightarrow> NetAXISWord \<Rightarrow> NetAXISWord" where
  "put_syn_options meta w =
     (let data = put_range 272 (SwapByte (word_of_int TCP_MSS) :: 16 word)
            (put_range 264 (0x04 :: 8 word) (put_range 256 (0x02 :: 8 word) (nw_data w))) in
      if xm_win_scale meta \<noteq> 0 then
        w\<lparr>nw_data := put_range 312 (0 :: 8 word) (put_range 304 (ucast (xm_win_scale meta) :: 8 word)
            (put_range 296 (0x03 :: 8 word) (put_range 288 (0x03 :: 8 word) (put_range 196 (0x7 :: 4 word) data)))),
          nw_keep := 0xFFFFFFFFFF\<rparr>
      else
        w\<lparr>nw_data := put_range 196 (0x6 :: 4 word) data, nw_keep := 0xFFFFFFFFF\<rparr>)"

definition pseudo_full_header :: "TxEngFsmMetaData \<Rightarrow> FourTuple \<Rightarrow> NetAXISWord" where
  "pseudo_full_header meta four_tuple =
     (let tcp_length_in_pseduo_header = xm_length meta + 0x14;
          data = put_range 0 (src_ip_addr four_tuple) (0 :: NetAXISData);
          data = put_range 32 (dst_ip_addr four_tuple) data;
          data = put_range 64 (0x0600 :: 16 word) data;
          data = put_range 80 (SwapByte tcp_length_in_pseduo_header) data;
          data = put_range 96 (src_tcp_port four_tuple) data;
          data = put_range 112 (dst_tcp_port four_tuple) data;
          data = put_range 128 (SwapByte (xm_seq_number meta)) data;
          data = put_range 160 (SwapByte (xm_ack_number meta)) data;
          data = put_range 192 (0 :: 1 word) data;
          data = put_range 193 (0 :: 3 word) data;
          data = put_range 200 (of_bool (xm_fin meta) :: 1 word) data;
          data = put_range 201 (of_bool (xm_syn meta) :: 1 word) data;
          data = put_range 202 (of_bool (xm_rst meta) :: 1 word) data;
          data = put_range 203 (0 :: 1 word) data;
          data = put_range 204 (of_bool (xm_ack meta) :: 1 word) data;
          data = put_range 205 (0 :: 3 word) data;
          data = put_range 208 (SwapByte (xm_win_size meta)) data;
          data = put_range 224 (0 :: 32 word) data;
          send_word = NetAXISWord_default\<lparr>nw_data := data\<rparr>;
          send_word = (if xm_syn meta then put_syn_options meta send_word
            else send_word\<lparr>nw_data := put_range 196 (0x5 :: 4 word) data, nw_keep := 0xFFFFFFFF\<rparr>) in
      send_word\<lparr>nw_last := True\<rparr>)"

definition TxEngPseudoFullHeaderConstruct :: "TxHeader \<Rightarrow> TxHeader" where
  "TxEngPseudoFullHeaderConstruct s =
     (case (xh_tx_four_tuple_for_tcp_header s, xh_tx_eng_fsm_meta_data s) of
        (t # ts, meta # ms) \<Rightarrow>
          s\<lparr>xh_four_tuple := t, xh_tx_fsm_meta_data_reg := meta,
            xh_tx_four_tuple_for_tcp_header := ts, xh_tx_eng_fsm_meta_data := ms,
            xh_tx_tcp_pseudo_full_header_out :=
              xh_tx_tcp_pseudo_full_header_out s @ [pseudo_full_header meta t],
            xh_tx_tcp_packet_contains_payload := xh_tx_tcp_packet_contains_payload s @
              [if xm_length meta = 0 \<or> xm_syn meta then False else True]\<rparr>
      | _ \<Rightarrow> s)"

definition tx_header_init :: TxHeader where
  "tx_header_init =
     \<lparr>xh_tx_fsm_meta_data_reg = TxEngFsmMetaData_default, xh_four_tuple = FourTuple_default,
      xh_tx_eng_fsm_meta_data = [], xh_tx_four_tuple_for_tcp_header = [],
      xh_tx_tcp_packet_contains_payload = [], xh_tx_tcp_pseudo_full_header_out = []\<rparr>"

section \<open>\<open>TxEngConstructIpv4Header\<close>\<close>

record TxIpHeader =
  xi_tx_tcp_payload_length :: "16 word stream"
  xi_tx_tcp_ip_pair :: "IpAddrPair stream"
  xi_tx_ipv4_header :: "NetAXISWord stream"

text \<open>The checksum over the ten 16-bit words of the header, with two folds of the carries; the
  synthesised design leaves it to a later module.\<close>

definition ipv4_header_checksum :: "NetAXISData \<Rightarrow> 16 word" where
  "ipv4_header_checksum data =
     (let first_sum = foldl (\<lambda>first_sum i. first_sum +
            ucast (put_range 8 (get_range (16 * i) data :: 8 word)
              (put_range 0 (get_range (16 * i + 8) data :: 8 word) (0 :: 16 word)))) (0 :: 21 word) [0..<10];
          first_sum = ucast (get_range 0 first_sum :: 16 word) + ucast (get_range 16 first_sum :: 5 word) :: 21 word;
          first_sum = ucast (get_range 0 first_sum :: 16 word) + ucast (get_range 16 first_sum :: 1 word) :: 21 word
      in NOT (get_range 0 first_sum))"

definition ipv4_header_word :: "build \<Rightarrow> 16 word \<Rightarrow> IpAddrPair \<Rightarrow> NetAXISWord" where
  "ipv4_header_word bld tcp_payload_length ip_addr_pair =
     (let ip_length = tcp_payload_length + 40;
          data = put_range 0 (0x45 :: 8 word) (0 :: NetAXISData);
          data = put_range 8 (0 :: 8 word) data;
          data = put_range 16 (SwapByte ip_length) data;
          data = put_range 32 (0 :: 16 word) data;
          data = put_range 48 (0 :: 3 word) data;
          data = put_range 51 (0 :: 13 word) data;
          data = put_range 64 (0x40 :: 8 word) data;
          data = put_range 72 (0x06 :: 8 word) data;
          data = put_range 80 (0 :: 16 word) data;
          data = put_range 96 (ipp_src_ip_addr ip_addr_pair) data;
          data = put_range 128 (ipp_dst_ip_addr ip_addr_pair) data;
          data = (case bld of Simulation \<Rightarrow> put_range 80 (SwapByte (ipv4_header_checksum data)) data
                  | Synthesis \<Rightarrow> data) in
      \<lparr>nw_data = data, nw_dest = 0, nw_keep = 0xFFFFF, nw_last = True\<rparr>)"

definition TxEngConstructIpv4Header :: "build \<Rightarrow> TxIpHeader \<Rightarrow> TxIpHeader" where
  "TxEngConstructIpv4Header bld s =
     (case (xi_tx_tcp_payload_length s, xi_tx_tcp_ip_pair s) of
        (n # ns, p # ps) \<Rightarrow>
          s\<lparr>xi_tx_tcp_payload_length := ns, xi_tx_tcp_ip_pair := ps,
            xi_tx_ipv4_header := xi_tx_ipv4_header s @ [ipv4_header_word bld n p]\<rparr>
      | _ \<Rightarrow> s)"

section \<open>Addresses follow their sources\<close>

fun pick_tuples :: "bool list \<Rightarrow> ReverseTableToTxEngRsp list \<Rightarrow> FourTuple list \<Rightarrow> FourTuple list" where
  "pick_tuples (True # bs) (r # rs) ts = rt_four_tuple r # pick_tuples bs rs ts"
| "pick_tuples (False # bs) rs (t # ts) = t # pick_tuples bs rs ts"
| "pick_tuples _ rs ts = []"

lemma tuple_picked:
  assumes "xt_fsm_state s = LOAD_TUPLE_SRC" and "xt_tx_four_tuple_source s = b # bs"
    and "if b then xt_slookup_rev_table_to_tx_eng_rsp s = r # rs \<and> t = rt_four_tuple r
         else xt_tx_eng_fsm_four_tuple s = t # ts"
  shows "\<exists>c. TxEngFourTupleHandler (TxEngFourTupleHandler s) = s
     \<lparr>xt_tx_four_tuple_source := bs, xt_tuple_is_from_slookup := c,
      xt_slookup_rev_table_to_tx_eng_rsp := (if b then rs else xt_slookup_rev_table_to_tx_eng_rsp s),
      xt_tx_eng_fsm_four_tuple := (if b then xt_tx_eng_fsm_four_tuple s else ts),
      xt_tx_four_tuple_for_tcp_header := xt_tx_four_tuple_for_tcp_header s @ [t],
      xt_tx_ip_pair_for_ip_header := xt_tx_ip_pair_for_ip_header s @ [IpAddrPair (src_ip_addr t) (dst_ip_addr t)]\<rparr>"
  using assms by (cases s; cases b) (auto simp: TxEngFourTupleHandler_def send_tuple_def)

text \<open>The addresses of the segments come out in the order of the segments, each from the source
  that the state machine named for it, once for the TCP header and once for the IP header, in two
  cycles per segment.\<close>

theorem tuples_follow_sources:
  assumes "xt_fsm_state s = LOAD_TUPLE_SRC" and "xt_tx_four_tuple_source s = bs @ rest"
    and "xt_slookup_rev_table_to_tx_eng_rsp s = rs @ rs'" and "xt_tx_eng_fsm_four_tuple s = ts @ ts'"
    and "length (filter (\<lambda>b. b) bs) = length rs" and "length (filter Not bs) = length ts"
  shows "let u = (TxEngFourTupleHandler ^^ (2 * length bs)) s; out = pick_tuples bs rs ts in
     length out = length bs \<and> xt_fsm_state u = LOAD_TUPLE_SRC \<and> xt_tx_four_tuple_source u = rest \<and>
     xt_slookup_rev_table_to_tx_eng_rsp u = rs' \<and> xt_tx_eng_fsm_four_tuple u = ts' \<and>
     xt_tx_four_tuple_for_tcp_header u = xt_tx_four_tuple_for_tcp_header s @ out \<and>
     xt_tx_ip_pair_for_ip_header u = xt_tx_ip_pair_for_ip_header s @
       map (\<lambda>t. IpAddrPair (src_ip_addr t) (dst_ip_addr t)) out"
  using assms
proof (induction bs arbitrary: s rs ts)
  case (Cons b bs)
  have two: "(TxEngFourTupleHandler ^^ (2 * length (b # bs))) s
      = (TxEngFourTupleHandler ^^ (2 * length bs)) (TxEngFourTupleHandler (TxEngFourTupleHandler s))"
    by (simp add: funpow_Suc_apply del: funpow.simps)
  show ?case
  proof (cases b)
    case True
    then obtain r rs0 where r: "rs = r # rs0" using Cons.prems(5) by (cases rs) auto
    obtain c where "TxEngFourTupleHandler (TxEngFourTupleHandler s) = s
     \<lparr>xt_tx_four_tuple_source := bs @ rest, xt_tuple_is_from_slookup := c,
      xt_slookup_rev_table_to_tx_eng_rsp := rs0 @ rs', xt_tx_eng_fsm_four_tuple := ts @ ts',
      xt_tx_four_tuple_for_tcp_header := xt_tx_four_tuple_for_tcp_header s @ [rt_four_tuple r],
      xt_tx_ip_pair_for_ip_header := xt_tx_ip_pair_for_ip_header s @
        [IpAddrPair (src_ip_addr (rt_four_tuple r)) (dst_ip_addr (rt_four_tuple r))]\<rparr>"
      using tuple_picked [of s b "bs @ rest" r "rs0 @ rs'" "rt_four_tuple r" ts] Cons.prems True r by auto
    then show ?thesis
      unfolding two using Cons.IH [of "TxEngFourTupleHandler (TxEngFourTupleHandler s)" rs0 ts] Cons.prems True r
      by (simp add: Let_def)
  next
    case False
    then obtain t ts0 where t: "ts = t # ts0" using Cons.prems(6) by (cases ts) auto
    obtain c where "TxEngFourTupleHandler (TxEngFourTupleHandler s) = s
     \<lparr>xt_tx_four_tuple_source := bs @ rest, xt_tuple_is_from_slookup := c,
      xt_slookup_rev_table_to_tx_eng_rsp := rs @ rs', xt_tx_eng_fsm_four_tuple := ts0 @ ts',
      xt_tx_four_tuple_for_tcp_header := xt_tx_four_tuple_for_tcp_header s @ [t],
      xt_tx_ip_pair_for_ip_header := xt_tx_ip_pair_for_ip_header s @ [IpAddrPair (src_ip_addr t) (dst_ip_addr t)]\<rparr>"
      using tuple_picked [of s b "bs @ rest" undefined rs t "ts0 @ ts'"] Cons.prems False t by auto
    then show ?thesis
      unfolding two using Cons.IH [of "TxEngFourTupleHandler (TxEngFourTupleHandler s)" rs ts0] Cons.prems False t
      by (simp add: Let_def)
  qed
qed simp

theorem tuples_follow_sources_witness:
  "xt_tx_four_tuple_for_tcp_header ((TxEngFourTupleHandler ^^ 4) (tx_tuple_init
     \<lparr>xt_tx_four_tuple_source := [False, True], xt_tx_eng_fsm_four_tuple := [FourTuple 1 2 3 4],
      xt_slookup_rev_table_to_tx_eng_rsp := [\<lparr>rt_four_tuple = FourTuple 5 6 7 8, rt_role_id = 0\<rparr>]\<rparr>))
   = [FourTuple 1 2 3 4, FourTuple 5 6 7 8]"
  using tuples_follow_sources [of "tx_tuple_init
     \<lparr>xt_tx_four_tuple_source := [False, True], xt_tx_eng_fsm_four_tuple := [FourTuple 1 2 3 4],
      xt_slookup_rev_table_to_tx_eng_rsp := [\<lparr>rt_four_tuple = FourTuple 5 6 7 8, rt_role_id = 0\<rparr>]\<rparr>"
      "[False, True]" "[]" "[\<lparr>rt_four_tuple = FourTuple 5 6 7 8, rt_role_id = 0\<rparr>]" "[]" "[FourTuple 1 2 3 4]" "[]"]
  by (simp add: tx_tuple_init_def Let_def)

section \<open>The header is read back\<close>

text \<open>The bits that a field of the header is read from.\<close>

lemma bit_range_1: "bit (get_range k w :: 1 word) 0 = bit w k"
  by (simp add: bit_field)

lemma header_fields:
  fixes meta t
  defines "d \<equiv> nw_data (pseudo_full_header meta t)"
  shows "get_range 0 d = src_ip_addr t" and "get_range 32 d = dst_ip_addr t"
    and "(get_range 80 d :: 16 word) = SwapByte (xm_length meta + 0x14)"
    and "get_range 96 d = src_tcp_port t" and "get_range 112 d = dst_tcp_port t"
    and "get_range 128 d = SwapByte (xm_seq_number meta)" and "get_range 160 d = SwapByte (xm_ack_number meta)"
    and "get_range 208 d = SwapByte (xm_win_size meta)"
    and "get_range 196 d = (if xm_syn meta then if xm_win_scale meta \<noteq> 0 then 7 else 6 else 5 :: 4 word)"
  by (simp_all add: d_def pseudo_full_header_def put_syn_options_def Let_def get_put_range_disjoint
      NetAXISWord_default_def cong: if_cong)

lemma header_flags:
  fixes meta t
  defines "d \<equiv> nw_data (pseudo_full_header meta t)"
  shows "bit d 200 = xm_fin meta" and "bit d 201 = xm_syn meta" and "bit d 202 = xm_rst meta"
    and "\<not> bit d 203" and "bit d 204 = xm_ack meta" and "\<not> bit d 205" and "\<not> bit d 206" and "\<not> bit d 207"
  by (simp_all add: d_def pseudo_full_header_def put_syn_options_def Let_def bit_field
      NetAXISWord_default_def)

lemma syn_options:
  fixes meta t
  defines "d \<equiv> nw_data (pseudo_full_header meta t)"
  assumes "xm_syn meta"
  shows "(get_range 256 d :: 8 word) = 2" and "(get_range 264 d :: 8 word) = 4"
    and "(get_range 272 d :: 16 word) = SwapByte (word_of_int TCP_MSS)"
    and "xm_win_scale meta \<noteq> 0 \<Longrightarrow> (get_range 288 d :: 8 word) = 3"
    and "xm_win_scale meta \<noteq> 0 \<Longrightarrow> (get_range 296 d :: 8 word) = 3"
    and "xm_win_scale meta \<noteq> 0 \<Longrightarrow> (get_range 304 d :: 4 word) = xm_win_scale meta"
proof -
  have "(get_range 0 (ucast (xm_win_scale meta) :: 8 word) :: 4 word) = xm_win_scale meta"
    by (rule bit_word_eqI) (auto simp: bit_field bit_simps)
  then show "xm_win_scale meta \<noteq> 0 \<Longrightarrow> (get_range 304 d :: 4 word) = xm_win_scale meta"
    using assms by (simp add: d_def pseudo_full_header_def put_syn_options_def Let_def get_put_range_disjoint
      get_put_range_inside NetAXISWord_default_def cong: if_cong)
qed (use assms in \<open>simp_all add: d_def pseudo_full_header_def put_syn_options_def Let_def get_put_range_disjoint
      NetAXISWord_default_def cong: if_cong\<close>)

text \<open>The number of header bytes behind the pseudo header, and the length that the state machine has to
  give for a segment without payload.\<close>

definition option_bytes :: "TxEngFsmMetaData \<Rightarrow> nat" where
  "option_bytes meta = (if xm_syn meta then if xm_win_scale meta \<noteq> 0 then 8 else 4 else 0)"

lemma header_keep: "nw_keep (pseudo_full_header meta t) = mask (32 + option_bytes meta)"
  by (simp add: pseudo_full_header_def put_syn_options_def option_bytes_def Let_def NetAXISWord_default_def
      mask_eq_exp_minus_1 numeral_eq_Suc)

lemma header_packet:
  "is_packet [pseudo_full_header meta t]" "length (word_bytes (pseudo_full_header meta t)) = 32 + option_bytes meta"
proof -
  have "nw_last (pseudo_full_header meta t)" by (simp add: pseudo_full_header_def Let_def)
  moreover have "32 + option_bytes meta \<in> {1..64}" by (simp add: option_bytes_def)
  ultimately show "is_packet [pseudo_full_header meta t]" by (simp add: is_packet_def header_keep)
  show "length (word_bytes (pseudo_full_header meta t)) = 32 + option_bytes meta"
    by (rule mask_lanes(2) [OF header_keep]) (simp add: option_bytes_def)
qed

text \<open>What the receive engine is to read: the numbers, the flags, the ports and addresses as they are on
  the wire, and the window scale, of which it takes two at most.\<close>

definition read_back :: "TxEngFsmMetaData \<Rightarrow> FourTuple \<Rightarrow> TcpPseudoHeaderMeta" where
  "read_back meta t =
     \<lparr>tm_src_ip = src_ip_addr t, tm_dest_ip = dst_ip_addr t,
      tm_header =
        \<lparr>th_src_port = src_tcp_port t, th_dest_port = dst_tcp_port t,
         th_seq_number = xm_seq_number meta, th_ack_number = xm_ack_number meta,
         th_win_size = xm_win_size meta, th_data_offset = word_of_nat (5 + option_bytes meta div 4),
         th_cwr = False, th_ecn = False, th_urg = False, th_ack = xm_ack meta,
         th_psh = False, th_rst = xm_rst meta, th_syn = xm_syn meta, th_fin = xm_fin meta,
         th_win_scale = (if xm_syn meta then ucast (min (xm_win_scale meta) 2) else 0), th_payload_length = 0\<rparr>,
      tm_tcp_options = 0\<rparr>"

lemma header_payload_length:
  assumes "xm_length meta = word_of_nat (option_bytes meta)"
  shows "parse_payload_length (nw_data (pseudo_full_header meta t)) = 0"
proof -
  have "SwapByte (SwapByte (xm_length meta + 0x14)) = xm_length meta + 0x14"
    by (rule SwapByte_involution) simp
  then show ?thesis
    using assms by (simp add: parse_payload_length_def header_fields option_bytes_def split: if_splits)
qed

lemma swap_32 [simp]: "SwapByte (SwapByte (w :: 32 word)) = w" "SwapByte (SwapByte (v :: 16 word)) = v"
  by (rule SwapByte_involution, simp)+

lemma header_parsed:
  assumes "rp_parse_fsm_state s = FIRST_WORD" and "rp_tcp_pseudo_packet s = pseudo_full_header meta t # rest"
    and "xm_length meta = word_of_nat (option_bytes meta)"
  shows "let p = RxEngParseTcpHeader s in rp_parse_fsm_state p = FIRST_WORD \<and> rp_tcp_pseudo_packet p = rest \<and>
     rp_tcp_payload p = rp_tcp_payload s \<and>
     rp_tcp_meta_data p = rp_tcp_meta_data s @ [parse_tcp_meta (nw_data (pseudo_full_header meta t)) 0]"
proof -
  have "nw_last (pseudo_full_header meta t)" by (simp add: pseudo_full_header_def Let_def)
  then show ?thesis
    using assms by (simp add: RxEngParseTcpHeader_def parse_first_word_def Let_def header_payload_length)
qed

lemma parsed_header_meta:
  "(parse_tcp_meta (nw_data (pseudo_full_header meta t)) 0)\<lparr>tm_tcp_options := 0\<rparr>
   = (read_back meta t)\<lparr>tm_header := (tm_header (read_back meta t))\<lparr>th_win_scale := 0\<rparr>\<rparr>"
  by (simp add: parse_tcp_meta_def read_back_def header_fields header_flags option_bytes_def)

text \<open>The walk over the options of a SYN ends at the window scale.\<close>

lemma option_of_header:
  assumes "8 * i + LENGTH('a) \<le> 256"
  shows "(get_range (8 * i) (tm_tcp_options (parse_tcp_meta d n)) :: 'a::len word) = get_range (256 + 8 * i) d"
  by (rule bit_word_eqI) (use assms in \<open>auto simp: parse_tcp_meta_def bit_field bit_simps add.assoc\<close>)

lemma header_scan:
  fixes meta t
  defines "o1 \<equiv> tm_tcp_options (parse_tcp_meta (nw_data (pseudo_full_header meta t)) 0)"
  assumes "xm_syn meta"
  shows "scan_options o1 (option_bytes meta) 0 = Scale (ucast (min (xm_win_scale meta) 2))"
proof -
  note b = syn_options [OF assms(2), of t]
  have o: "option_byte o1 0 = 2" "option_byte o1 1 = 4"
    using b(1,2) option_of_header [where i = 0 and 'a = 8] option_of_header [where i = 1 and 'a = 8]
    by (simp_all add: o1_def)
  show ?thesis
  proof (cases "xm_win_scale meta = 0")
    case True
    then show ?thesis
      using o assms(2) by (simp add: scan_options.simps option_bytes_def)
  next
    case False
    have "option_byte o1 4 = 3" "option_byte o1 5 = 3" "(get_range 48 o1 :: 4 word) = xm_win_scale meta"
      using b(4-6) [OF False] option_of_header [where i = 4 and 'a = 8] option_of_header [where i = 5 and 'a = 8]
        option_of_header [where i = 6 and 'a = 4] by (simp_all add: o1_def)
    moreover have "(get_range 16 (drop_bit 32 o1) :: 4 word) = get_range 48 o1"
      by (simp add: get_range_def)
    ultimately show ?thesis
      using o False assms(2)
      by (auto simp: scan_options.simps option_bytes_def announced_scale_def Let_def min_def dest: leD)
  qed
qed

text \<open>A segment without payload is read back as it was written: from the header word that the
  transmit engine builds, the parser of the receive engine recovers the addresses, the ports, the
  numbers, the flags and the window, finds no payload, and its option parser finds the window scale
  of a SYN (two at most) within ten cycles, provided that the state machine gives the length of the
  options it asks for.\<close>

theorem tx_header_read_back:
  assumes "xm_length meta = word_of_nat (option_bytes meta)"
    and "rp_parse_fsm_state s = FIRST_WORD" and "rp_tcp_pseudo_packet s = [pseudo_full_header meta t]"
    and "ro_fsm_state q = READ_META" and "ro_tcp_meta_data_in q = written (rp_tcp_meta_data s) (rp_tcp_meta_data (RxEngParseTcpHeader s))"
  shows "rp_tcp_payload (RxEngParseTcpHeader s) = rp_tcp_payload s \<and>
     (\<exists>k \<le> 10. ro_tcp_meta_data_out ((RxEngParseTcpHeaderOptions ^^ k) q) = ro_tcp_meta_data_out q @ [read_back meta t])"
proof -
  let ?m = "parse_tcp_meta (nw_data (pseudo_full_header meta t)) 0"
  have p: "rp_tcp_payload (RxEngParseTcpHeader s) = rp_tcp_payload s" "ro_tcp_meta_data_in q = [?m]"
    using header_parsed [OF assms(2,3,1)] assms(5) by (simp_all add: Let_def)
  have syn: "th_syn (tm_header ?m) = xm_syn meta" "th_win_scale (tm_header ?m) = 0"
    "th_data_offset (tm_header ?m) = word_of_nat (5 + option_bytes meta div 4)"
    by (simp_all add: parse_tcp_meta_def header_flags header_fields option_bytes_def)
  show ?thesis
  proof (cases "xm_syn meta")
    case False
    have "RxEngParseTcpHeaderOptions q
        = q\<lparr>ro_tcp_meta_data_in := [], ro_tcp_meta_reg := ?m\<lparr>tm_tcp_options := 0\<rparr>,
            ro_tcp_meta_data_out := ro_tcp_meta_data_out q @ [?m\<lparr>tm_tcp_options := 0\<rparr>]\<rparr>"
      using assms(4) p(2) syn(1) False by (simp add: RxEngParseTcpHeaderOptions_def options_read_meta_def)
    moreover have "?m\<lparr>tm_tcp_options := 0\<rparr> = read_back meta t"
      using False by (simp only: parsed_header_meta) (simp add: read_back_def)
    ultimately show ?thesis using p(1) by (intro conjI exI [of _ 1]) simp_all
  next
    case True
    have off: "4 * (unat (th_data_offset (tm_header ?m)) - 5) = option_bytes meta" "5 < th_data_offset (tm_header ?m)"
      using True by (simp_all add: syn(3) option_bytes_def)
    have bound: "option_bytes meta \<le> 40" by (simp add: option_bytes_def)
    have w: "walking ?m (option_bytes meta) 0 (RxEngParseTcpHeaderOptions q)"
        "ro_tcp_meta_data_out (RxEngParseTcpHeaderOptions q) = ro_tcp_meta_data_out q"
      using walk_begins [OF assms(4) p(2)] True syn(1) off by simp_all
    obtain k where k: "k \<le> Suc (option_bytes meta)" and a: "options_answer (RxEngParseTcpHeaderOptions q)
        (scaled_meta ?m (ucast (min (xm_win_scale meta) 2))) ((RxEngParseTcpHeaderOptions ^^ k) (RxEngParseTcpHeaderOptions q))"
      using walk_answers [OF w(1) bound syn(2) header_scan [OF True]] by auto
    have "scaled_meta ?m (ucast (min (xm_win_scale meta) 2)) = read_back meta t"
      using True by (simp add: scaled_meta_def parse_tcp_meta_def read_back_def header_fields header_flags option_bytes_def)
    then have "ro_tcp_meta_data_out ((RxEngParseTcpHeaderOptions ^^ Suc k) q) = ro_tcp_meta_data_out q @ [read_back meta t]"
      using a w(2) by (simp add: options_answer_def funpow_Suc_apply del: funpow.simps)
    then show ?thesis using p(1) k by (intro conjI exI [of _ "Suc k"]) (simp_all add: option_bytes_def split: if_splits)
  qed
qed

definition tx_demo_syn :: TxEngFsmMetaData where
  "tx_demo_syn = TxEngFsmMetaData_default
     \<lparr>xm_seq_number := INIT_SEQ_NUMBER, xm_win_size := 0xFFFF, xm_win_scale := 2, xm_length := 8, xm_syn := True\<rparr>"

theorem tx_header_read_back_witness:
  "rp_tcp_payload (RxEngParseTcpHeader (rx_parse_init
      \<lparr>rp_tcp_pseudo_packet := [pseudo_full_header tx_demo_syn (FourTuple 1 2 3 4)]\<rparr>)) = []"
  using tx_header_read_back [of tx_demo_syn "rx_parse_init\<lparr>rp_tcp_pseudo_packet := [pseudo_full_header tx_demo_syn (FourTuple 1 2 3 4)]\<rparr>"
      "FourTuple 1 2 3 4" "rx_options_init\<lparr>ro_tcp_meta_data_in := written [] (rp_tcp_meta_data (RxEngParseTcpHeader
        (rx_parse_init\<lparr>rp_tcp_pseudo_packet := [pseudo_full_header tx_demo_syn (FourTuple 1 2 3 4)]\<rparr>)))\<rparr>"]
  by (simp add: tx_demo_syn_def TxEngFsmMetaData_default_def option_bytes_def rx_parse_init_def rx_options_init_def)

section \<open>The IP header\<close>

lemma unat_ucast_up:
  fixes v :: "'a::len word"
  assumes "LENGTH('a) \<le> LENGTH('b)"
  shows "unat (ucast v :: 'b::len word) = unat v"
proof -
  have "unat v < 2 ^ LENGTH('a)" by (rule unsigned_less)
  also have "(2 :: nat) ^ LENGTH('a) \<le> 2 ^ LENGTH('b)" using assms by simp
  finally show ?thesis by (simp add: unsigned_ucast_eq take_bit_nat_eq_self)
qed

lemma oc_multiple: "0 < a \<Longrightarrow> oc (a + 65535 * k) = oc a"
proof -
  assume "0 < a"
  then have "a + 65535 * k - 1 = (a - 1) + 65535 * k" by simp
  then show ?thesis using \<open>0 < a\<close> by (simp only: oc_def mod_mult_self2) simp
qed

text \<open>The ten sums, and the two folds.\<close>

lemma unat_first_sum:
  fixes h :: "nat \<Rightarrow> 16 word"
  assumes "n \<le> 16"
  shows "unat (foldl (\<lambda>a i. a + ucast (h i)) (0 :: 21 word) [0..<n]) = (\<Sum>i < n. unat (h i))"
    and "(\<Sum>i < n. unat (h i)) \<le> n * 65535"
  using assms
proof (induction n)
  case (Suc n)
  { case 2
    have "unat (h n) < 2 ^ LENGTH(16)" by (rule unsigned_less)
    then show ?case using Suc 2 by simp }
  note bound = this
  { case 1
    have "unat (ucast (h n) :: 21 word) = unat (h n)" by (rule unat_ucast_up) simp
    moreover have "(\<Sum>i < Suc n. unat (h i)) < 2 ^ 21" using bound 1 by simp
    ultimately show ?case using Suc 1 by (simp add: unat_word_ariths) }
qed simp_all

lemma two_folds:
  assumes "unat (s :: 21 word) \<le> 655350"
  defines "a \<equiv> ucast (get_range 0 s :: 16 word) + ucast (get_range 16 s :: 5 word) :: 21 word"
  defines "b \<equiv> ucast (get_range 0 a :: 16 word) + ucast (get_range 16 a :: 1 word) :: 21 word"
  shows "unat b = oc (unat s)"
proof -
  have u: "unat (ucast v :: 21 word) = unat v" if "LENGTH('a) \<le> 21" for v :: "'a::len word"
    using that by (intro unat_ucast_up) simp
  have q: "unat s div 65536 \<le> 9" using div_le_mono [OF assms(1), of 65536] by simp
  have m: "unat s mod 65536 < 65536" by simp
  have a: "unat a = unat s mod 65536 + unat s div 65536"
    using q m by (simp add: a_def unat_word_ariths u unat_get_range)
  have b: "unat b = unat a mod 65536 + unat a div 65536"
  proof -
    have "unat a div 65536 < 2" using a q m by (simp add: less_mult_imp_div_less)
    then show ?thesis by (simp add: b_def unat_word_ariths u unat_get_range)
  qed
  also have "\<dots> = oc (unat a)"
  proof (cases "unat a < 65536")
    case False
    moreover have "unat a \<le> 65544" unfolding a by (rule order_trans [OF add_mono [of _ 65535 _ 9]]) (use q m in simp_all)
    ultimately have "unat a div 65536 = 1" "unat a mod 65536 = unat a - 65536" "oc (unat a) = unat a - 65535"
      by (auto intro: div_nat_eqI oc_fold simp: le_mod_geq)
    then show ?thesis using False by simp
  qed (simp add: oc_small)
  also have "\<dots> = oc (unat s)"
  proof (cases "unat a = 0")
    case False
    have "unat s = unat a + 65535 * (unat s div 65536)" using a div_mult_mod_eq [of "unat s" 65536] by linarith
    then show ?thesis using False oc_multiple [of "unat a" "unat s div 65536"] by simp
  next
    case True
    then have "unat s mod 65536 = 0" "unat s div 65536 = 0" using a by simp_all
    then have "unat s = 0" using div_mult_mod_eq [of "unat s" 65536] by simp
    then show ?thesis using True by simp
  qed
  finally show ?thesis .
qed

definition half_of :: "NetAXISData \<Rightarrow> nat \<Rightarrow> nat" where
  "half_of d i = 256 * unat (get_range (16 * i) d :: 8 word) + unat (get_range (16 * i + 8) d :: 8 word)"

lemma ipv4_checksum_value:
  "ipv4_header_checksum d = NOT (word_of_nat (oc (\<Sum>i < 10. half_of d i)))"
proof -
  define h where "h i = (put_range 8 (get_range (16 * i) d :: 8 word)
      (put_range 0 (get_range (16 * i + 8) d :: 8 word) (0 :: 16 word)))" for i
  have h: "unat (h i) = half_of d i" for i
  proof -
    have "h i = put_range 0 (get_range (16 * i + 8) d :: 8 word) (put_range 8 (get_range (16 * i) d :: 8 word) 0)"
      by (rule bit_word_eqI) (auto simp: h_def bit_field)
    then show ?thesis by (simp add: unat_byte_pair half_of_def)
  qed
  let ?s = "foldl (\<lambda>a i. a + ucast (h i)) (0 :: 21 word) [0..<10]"
  have s: "unat ?s = (\<Sum>i < 10. half_of d i)" "unat ?s \<le> 655350"
    using unat_first_sum [of 10 h] by (simp_all add: h del: upt_rec_numeral)
  have g: "(get_range 0 x :: 16 word) = word_of_nat (unat x)" for x :: "21 word"
    by (rule bit_word_eqI) (auto simp: bit_field bit_simps bit_unsigned_iff)
  show ?thesis
    unfolding ipv4_header_checksum_def Let_def h_def [symmetric]
    by (subst g, subst two_folds [OF s(2)]) (simp only: s(1))
qed

lemma half_of_value: "i < 32 \<Longrightarrow> nw_keep w = mask k \<Longrightarrow> even k \<Longrightarrow> 2 * i < k \<Longrightarrow> half_value w i = half_of (nw_data w) i"
proof -
  assume "i < 32" "nw_keep w = mask k" "even k" "2 * i < k"
  moreover from this have "2 * i + 1 < k" by (metis Suc_eq_plus1 Suc_lessI even_Suc even_mult_iff even_numeral)
  ultimately show ?thesis
    by (simp add: half_value_bytes kept_def bit_simps half_of_def word_byte_def algebra_simps)
qed

lemma header_sum:
  assumes "nw_keep w = mask 20"
  shows "sum_list (be_words (word_bytes w)) = (\<Sum>i < 10. half_of (nw_data w) i)"
proof -
  have "sum_list (map (half_value w) [0..<32]) = (\<Sum>i < 32. half_value w i)"
    by (simp add: interv_sum_list_conv_sum_set_nat atLeast0LessThan)
  also have "\<dots> = (\<Sum>i < 10. half_value w i)"
    using assms by (intro sum.mono_neutral_right) (auto simp: half_value_def half_word_def keep_pair bit_simps)
  also have "\<dots> = (\<Sum>i < 10. half_of (nw_data w) i)"
    using assms by (intro sum.cong refl half_of_value [where k = 20]) simp_all
  finally show ?thesis using word_total [of w 20] assms by simp
qed

lemma half_of_checksum:
  "half_of (put_range 80 (SwapByte c) d) i = (if i = 5 then unat (c :: 16 word) else half_of d i)"
proof (cases "i = 5")
  case True
  then show ?thesis by (simp add: half_of_def get_put_range_inside byte_SwapByte_16 unat_of_bytes_16 [of c])
next
  case False
  then have "80 + LENGTH(16) \<le> 16 * i \<or> 16 * i + 16 \<le> 80" by auto
  then show ?thesis using False by (auto simp: half_of_def get_put_range_disjoint)
qed

lemma ipv4_header_fields:
  fixes n p bld
  defines "d \<equiv> nw_data (ipv4_header_word bld n p)"
  shows "(get_range 0 d :: 8 word) = 0x45" and "(get_range 16 d :: 8 word) = get_range 8 (n + 40)"
    and "(get_range 24 d :: 8 word) = get_range 0 (n + 40)" and "(get_range 72 d :: 8 word) = 6"
    and "get_range 96 d = ipp_src_ip_addr p" and "get_range 128 d = ipp_dst_ip_addr p"
  by (simp_all add: d_def ipv4_header_word_def Let_def get_put_range_disjoint get_put_range_inside
      byte_SwapByte_16 split: build.split)

lemma ipv4_header_keep: "nw_keep (ipv4_header_word bld n p) = mask 20" "nw_last (ipv4_header_word bld n p)"
  by (simp_all add: ipv4_header_word_def Let_def mask_eq_exp_minus_1)

lemma ipv4_header_synthesis:
  "(get_range 80 (nw_data (ipv4_header_word Synthesis n p)) :: 8 word) = 0"
  "(get_range 88 (nw_data (ipv4_header_word Synthesis n p)) :: 8 word) = 0"
  by (simp_all add: ipv4_header_word_def Let_def get_put_range_disjoint get_put_range_inside) (simp_all add: get_range_def)

lemma unat_NOT_16: "unat (NOT x) = 65535 - unat (x :: 16 word)"
proof -
  have "unat (- 1 - x) = unat (- 1 :: 16 word) - unat x" by (rule unat_sub) (rule word_order.extremum)
  moreover have "NOT x = - 1 - x" by (simp add: not_eq_complement)
  ultimately show ?thesis by (simp only: unsigned_minus_1_eq_mask mask_eq_exp_minus_1) simp
qed

text \<open>The checksum field makes the header add up, whatever stood before it.\<close>

lemma checksum_completes:
  assumes "half_of d 5 = 0" and "0 < half_of d 0"
  shows "oc (\<Sum>i < 10. half_of (put_range 80 (SwapByte (ipv4_header_checksum d)) d) i) = 65535"
proof -
  define s where "s = (\<Sum>i < 10. half_of d i)"
  let ?c = "ipv4_header_checksum d"
  have "unat ?c = 65535 - oc s"
  proof -
    show ?thesis
      using oc_bound [of s] by (simp add: unat_NOT_16 ipv4_checksum_value s_def [symmetric] unat_of_nat)
  qed
  moreover have "(\<Sum>i < 10. half_of (put_range 80 (SwapByte ?c) d) i) = (\<Sum>i < 10. half_of d i) + unat ?c"
  proof -
    have "half_of (put_range 80 (SwapByte ?c) d) i = half_of d i + (if i = 5 then unat ?c else 0)" for i
      using assms(1) by (simp add: half_of_checksum)
    then show ?thesis by (simp add: sum.distrib)
  qed
  ultimately have sum: "(\<Sum>i < 10. half_of (put_range 80 (SwapByte ?c) d) i) = s + (65535 - oc s)"
    by (simp add: s_def)
  have "0 < s" using assms(2) unfolding s_def by (intro sum_pos2 [of _ 0]) simp_all
  then have "s = oc s + 65535 * ((s - 1) div 65535)"
    using mult_div_mod_eq [of 65535 "s - 1"] by (simp only: oc_def neq0_conv [symmetric] if_False)
  then have "s + (65535 - oc s) = 65535 * Suc ((s - 1) div 65535)" using oc_bound [of s] by simp
  then show ?thesis unfolding sum oc_full by (metis dvd_triv_left mult_is_0 nat.distinct(1) neq0_conv zero_neq_numeral)
qed

text \<open>The IP header: version 4 with five words, the length of the whole packet (payload and TCP
  options plus 40, modulo 64 KiB), protocol TCP and the two addresses.  In the simulation build the
  checksum makes the header add up as RFC 791 asks, for all lengths and addresses; the synthesised
  design leaves the field zero.\<close>

theorem ipv4_header_is_valid:
  assumes "xi_tx_tcp_payload_length s = n # ns" and "xi_tx_tcp_ip_pair s = p # ps"
  shows "\<exists>w. TxEngConstructIpv4Header bld s = s\<lparr>xi_tx_tcp_payload_length := ns, xi_tx_tcp_ip_pair := ps,
       xi_tx_ipv4_header := xi_tx_ipv4_header s @ [w]\<rparr> \<and> is_packet [w] \<and>
     (let bs = word_bytes w in length bs = 20 \<and> bs ! 0 = 0x45 \<and> ip_header_bytes bs = 20 \<and>
       ip_total_bytes bs = unat (n + 40) \<and> bs ! 9 = 6 \<and>
       (bld = Simulation \<longrightarrow> ones_complement_sum bs = 65535) \<and> (bld = Synthesis \<longrightarrow> bs ! 10 = 0 \<and> bs ! 11 = 0)) \<and>
     get_range 96 (nw_data w) = ipp_src_ip_addr p \<and> get_range 128 (nw_data w) = ipp_dst_ip_addr p"
proof -
  let ?w = "ipv4_header_word bld n p"
  note keep = ipv4_header_keep [of bld n p] and f = ipv4_header_fields [of bld n p]
  have "is_packet [?w]" using keep by (simp add: is_packet_def)
  moreover have nth: "word_bytes ?w ! i = get_range (8 * i) (nw_data ?w)" if "i < 20" for i
    using that by (simp add: word_bytes_mask [OF keep(1)] word_byte_def)
  have "length (word_bytes ?w) = 20" by (simp add: word_bytes_mask [OF keep(1)])
  moreover have "ip_total_bytes (word_bytes ?w) = unat (n + 40)"
    by (simp add: ip_total_bytes_def nth f unat_of_bytes_16 [of "n + 40"])
  moreover have "ones_complement_sum (word_bytes ?w) = 65535" if "bld = Simulation"
  proof -
    define d where "d = nw_data (ipv4_header_word Synthesis n p)"
    have "nw_data ?w = put_range 80 (SwapByte (ipv4_header_checksum d)) d"
      using that by (simp add: d_def ipv4_header_word_def Let_def)
    moreover have "half_of d 5 = 0" "0 < half_of d 0"
      by (simp_all add: d_def half_of_def ipv4_header_word_def Let_def get_put_range_disjoint get_put_range_inside)
        (simp_all add: get_range_def)
    ultimately show ?thesis
      by (simp only: ones_complement_sum_oc header_sum [OF keep(1)] checksum_completes)
  qed
  moreover have "word_bytes ?w ! 10 = 0 \<and> word_bytes ?w ! 11 = 0" if "bld = Synthesis"
    using nth [of 10] nth [of 11] that ipv4_header_synthesis by simp
  ultimately show ?thesis
    using assms by (intro exI [of _ ?w]) (simp add: TxEngConstructIpv4Header_def ip_header_bytes_def nth f)
qed

theorem ipv4_header_is_valid_witness:
  "\<exists>w. TxEngConstructIpv4Header Simulation \<lparr>xi_tx_tcp_payload_length = [8],
       xi_tx_tcp_ip_pair = [IpAddrPair 0x0A01A8C0 0x0B01A8C0], xi_tx_ipv4_header = []\<rparr>
     = \<lparr>xi_tx_tcp_payload_length = [], xi_tx_tcp_ip_pair = [], xi_tx_ipv4_header = [w]\<rparr> \<and>
     ip_total_bytes (word_bytes w) = 48 \<and> ones_complement_sum (word_bytes w) = 65535"
  using ipv4_header_is_valid [of "\<lparr>xi_tx_tcp_payload_length = [8],
       xi_tx_tcp_ip_pair = [IpAddrPair 0x0A01A8C0 0x0B01A8C0], xi_tx_ipv4_header = []\<rparr>" 8 "[]"
       "IpAddrPair 0x0A01A8C0 0x0B01A8C0" "[]" Simulation]
  by (auto simp: Let_def)

end
