(* ===== verification/Tx_Packet.thy ===== *)
theory Tx_Packet
  imports Tx_Header
begin

text \<open>
  The processes of \<open>tx_engine/tx_engine.cpp\<close> that put a segment together: \<open>TxEngConstructPseudoPacket\<close>
  appends the payload to the header, \<open>TxEngRemovePseudoHeader\<close> takes the pseudo header off again
  once the checksum has it, \<open>TxEngConstructIpv4Packet\<close> puts the IP header in front and the checksum in.
  The theorems say which bytes come out, and for which payloads they are the wrong ones.
\<close>

section \<open>\<open>TxEngConstructPseudoPacket\<close>\<close>

datatype TxPseudoPktFsmState = READ_PSEUDO | TX_READ_PAYLOAD | TX_EXTRA_WORD

record TxPseudoPkt =
  xp_prev_word :: NetAXISWord
  xp_fsm_state :: TxPseudoPktFsmState
  xp_tx_tcp_pseudo_full_header :: "NetAXISWord stream"
  xp_tx_tcp_packet_contains_payload :: "bool stream"
  xp_tx_tcp_packet_payload :: "NetAXISWord stream"
  xp_tx_tcp_pseudo_packet_for_tx_eng :: "NetAXISWord stream"
  xp_tx_tcp_pseudo_packet_for_checksum :: "NetAXISWord stream"

definition send_pseudo :: "NetAXISWord \<Rightarrow> TxPseudoPkt \<Rightarrow> TxPseudoPkt" where
  "send_pseudo w s =
     s\<lparr>xp_tx_tcp_pseudo_packet_for_tx_eng := xp_tx_tcp_pseudo_packet_for_tx_eng s @ [w],
       xp_tx_tcp_pseudo_packet_for_checksum := xp_tx_tcp_pseudo_packet_for_checksum s @ [w]\<rparr>"

definition pseudo_read_header :: "NetAXISWord \<Rightarrow> bool \<Rightarrow> TxPseudoPkt \<Rightarrow> TxPseudoPkt" where
  "pseudo_read_header cur_word packet_contains_payload s =
     (if \<not> packet_contains_payload then send_pseudo cur_word s
      else s\<lparr>xp_fsm_state := TX_READ_PAYLOAD, xp_prev_word := cur_word\<rparr>)"

definition pseudo_read_payload :: "NetAXISWord \<Rightarrow> TxPseudoPkt \<Rightarrow> TxPseudoPkt" where
  "pseudo_read_payload cur_word s =
     (let send_word = (MergeTwoWordsHead cur_word (xp_prev_word s) 32 NetAXISWord_default)
            \<lparr>nw_last := nw_last cur_word \<and> \<not> bit (nw_keep cur_word) 32\<rparr> in
      (send_pseudo send_word s)
        \<lparr>xp_fsm_state := (if nw_last cur_word then
             (if bit (nw_keep cur_word) 32 then TX_EXTRA_WORD else READ_PSEUDO) else xp_fsm_state s),
         xp_prev_word := cur_word\<rparr>)"

definition pseudo_send_extra :: "TxPseudoPkt \<Rightarrow> TxPseudoPkt" where
  "pseudo_send_extra s =
     (send_pseudo ((ConcatTwoWords NetAXISWord_default (xp_prev_word s) 32 NetAXISWord_default)\<lparr>nw_last := True\<rparr>) s)
       \<lparr>xp_fsm_state := READ_PSEUDO\<rparr>"

definition TxEngConstructPseudoPacket :: "TxPseudoPkt \<Rightarrow> TxPseudoPkt" where
  "TxEngConstructPseudoPacket s =
     (case xp_fsm_state s of
        READ_PSEUDO \<Rightarrow>
          (case (xp_tx_tcp_pseudo_full_header s, xp_tx_tcp_packet_contains_payload s) of
             (h # hs, b # bs) \<Rightarrow> pseudo_read_header h b
               (s\<lparr>xp_tx_tcp_pseudo_full_header := hs, xp_tx_tcp_packet_contains_payload := bs\<rparr>)
           | _ \<Rightarrow> s)
      | TX_READ_PAYLOAD \<Rightarrow>
          (case xp_tx_tcp_packet_payload s of
             w # ws \<Rightarrow> pseudo_read_payload w (s\<lparr>xp_tx_tcp_packet_payload := ws\<rparr>) | [] \<Rightarrow> s)
      | TX_EXTRA_WORD \<Rightarrow> pseudo_send_extra s)"

definition tx_pseudo_init :: TxPseudoPkt where
  "tx_pseudo_init =
     \<lparr>xp_prev_word = NetAXISWord_default, xp_fsm_state = READ_PSEUDO, xp_tx_tcp_pseudo_full_header = [],
      xp_tx_tcp_packet_contains_payload = [], xp_tx_tcp_packet_payload = [],
      xp_tx_tcp_pseudo_packet_for_tx_eng = [], xp_tx_tcp_pseudo_packet_for_checksum = []\<rparr>"

section \<open>\<open>TxEngRemovePseudoHeader\<close>\<close>

datatype TxEngPseduoHdrRemoverFsmState = READ | READ_MORE_PAYLOAD | REMOVE_EXTRA_WORD

record TxRemove =
  xr_prev_word :: NetAXISWord
  xr_fsm_state :: TxEngPseduoHdrRemoverFsmState
  xr_tx_tcp_pseudo_packet_for_tx_eng :: "NetAXISWord stream"
  xr_tx_tcp_packet :: "NetAXISWord stream"

definition pseudo_header_byte_offset :: "6 word" where [simp]: "pseudo_header_byte_offset = 12"

definition remove_first :: "NetAXISWord \<Rightarrow> TxRemove \<Rightarrow> TxRemove" where
  "remove_first cur_word s =
     (if nw_last cur_word then
        s\<lparr>xr_tx_tcp_packet := xr_tx_tcp_packet s @
          [(ConcatTwoWords NetAXISWord_default cur_word pseudo_header_byte_offset NetAXISWord_default)\<lparr>nw_last := True\<rparr>]\<rparr>
      else s\<lparr>xr_prev_word := cur_word, xr_fsm_state := READ_MORE_PAYLOAD\<rparr>)"

definition remove_next :: "NetAXISWord \<Rightarrow> TxRemove \<Rightarrow> TxRemove" where
  "remove_next cur_word s =
     (let extra = nw_last cur_word \<and> bit (nw_keep cur_word) 12 in
      s\<lparr>xr_tx_tcp_packet := xr_tx_tcp_packet s @
          [(ConcatTwoWords cur_word (xr_prev_word s) pseudo_header_byte_offset NetAXISWord_default)
             \<lparr>nw_last := nw_last cur_word \<and> \<not> extra\<rparr>],
        xr_fsm_state := (if nw_last cur_word then if extra then REMOVE_EXTRA_WORD else READ else xr_fsm_state s),
        xr_prev_word := cur_word\<rparr>)"

definition remove_extra :: "TxRemove \<Rightarrow> TxRemove" where
  "remove_extra s =
     s\<lparr>xr_tx_tcp_packet := xr_tx_tcp_packet s @
         [(ConcatTwoWords NetAXISWord_default (xr_prev_word s) pseudo_header_byte_offset NetAXISWord_default)\<lparr>nw_last := True\<rparr>],
       xr_fsm_state := READ\<rparr>"

definition TxEngRemovePseudoHeader :: "TxRemove \<Rightarrow> TxRemove" where
  "TxEngRemovePseudoHeader s =
     (case xr_fsm_state s of
        READ \<Rightarrow>
          (case xr_tx_tcp_pseudo_packet_for_tx_eng s of
             w # ws \<Rightarrow> remove_first w (s\<lparr>xr_tx_tcp_pseudo_packet_for_tx_eng := ws\<rparr>) | [] \<Rightarrow> s)
      | READ_MORE_PAYLOAD \<Rightarrow>
          (case xr_tx_tcp_pseudo_packet_for_tx_eng s of
             w # ws \<Rightarrow> remove_next w (s\<lparr>xr_tx_tcp_pseudo_packet_for_tx_eng := ws\<rparr>) | [] \<Rightarrow> s)
      | REMOVE_EXTRA_WORD \<Rightarrow> remove_extra s)"

definition tx_remove_init :: TxRemove where
  "tx_remove_init =
     \<lparr>xr_prev_word = NetAXISWord_default, xr_fsm_state = READ, xr_tx_tcp_pseudo_packet_for_tx_eng = [],
      xr_tx_tcp_packet = []\<rparr>"

section \<open>\<open>TxEngConstructIpv4Packet\<close>\<close>

datatype teips_states = READ_FIRST | IP_READ_PAYLOAD | IP_EXTRA_WORD

record TxIpPacket =
  xk_prev_word :: NetAXISWord
  xk_fsm_state :: teips_states
  xk_tx_ipv4_header :: "NetAXISWord stream"
  xk_tx_tcp_checksum :: "16 word stream"
  xk_tx_tcp_packet :: "NetAXISWord stream"
  xk_tx_ip_pkt_out :: "NetAXISWord stream"

definition tcp_seg_byte_offset :: "6 word" where [simp]: "tcp_seg_byte_offset = 44"

text \<open>The first word: the IP header, the first 44 bytes of the segment, the checksum.  The range that the
  checksum is assigned to, \<open>data(304, 288)\<close>, has 17 bits.\<close>

definition first_ip_word :: "NetAXISWord \<Rightarrow> 16 word \<Rightarrow> NetAXISWord \<Rightarrow> NetAXISWord" where
  "first_ip_word ipv4_header tcp_checksum cur_word =
     \<lparr>nw_data = put_range 288 (ucast (SwapByte tcp_checksum) :: 17 word)
        (put_range 160 (get_range 0 (nw_data cur_word) :: 352 word)
          (put_range 0 (get_range 0 (nw_data ipv4_header) :: 160 word) 0)),
      nw_dest = 0,
      nw_keep = put_range 20 (get_range 0 (nw_keep cur_word) :: 44 word) (put_range 0 (0xFFFFF :: 20 word) 0),
      nw_last = (nw_last cur_word \<and> \<not> bit (nw_keep cur_word) 44)\<rparr>"

definition ip_read_first :: "NetAXISWord \<Rightarrow> 16 word \<Rightarrow> NetAXISWord \<Rightarrow> TxIpPacket \<Rightarrow> TxIpPacket" where
  "ip_read_first ipv4_header tcp_checksum cur_word s =
     s\<lparr>xk_fsm_state := (if nw_last cur_word then
           (if bit (nw_keep cur_word) 44 then IP_EXTRA_WORD else xk_fsm_state s) else IP_READ_PAYLOAD),
       xk_prev_word := cur_word,
       xk_tx_ip_pkt_out := xk_tx_ip_pkt_out s @ [first_ip_word ipv4_header tcp_checksum cur_word]\<rparr>"

text \<open>The inner \<open>else\<close> of the source has no braces: the state is \<open>READ_FIRST\<close> after the last word in
  any case.\<close>

definition ip_read_payload :: "NetAXISWord \<Rightarrow> TxIpPacket \<Rightarrow> TxIpPacket" where
  "ip_read_payload cur_word s =
     s\<lparr>xk_fsm_state := (if nw_last cur_word then READ_FIRST else xk_fsm_state s),
       xk_prev_word := cur_word,
       xk_tx_ip_pkt_out := xk_tx_ip_pkt_out s @
         [(ConcatTwoWords cur_word (xk_prev_word s) tcp_seg_byte_offset NetAXISWord_default)
            \<lparr>nw_last := nw_last cur_word \<and> \<not> bit (nw_keep cur_word) 44\<rparr>]\<rparr>"

definition ip_extra_word :: "TxIpPacket \<Rightarrow> TxIpPacket" where
  "ip_extra_word s =
     s\<lparr>xk_tx_ip_pkt_out := xk_tx_ip_pkt_out s @
         [(ConcatTwoWords NetAXISWord_default (xk_prev_word s) tcp_seg_byte_offset NetAXISWord_default)\<lparr>nw_last := True\<rparr>],
       xk_fsm_state := READ_FIRST\<rparr>"

definition TxEngConstructIpv4Packet :: "TxIpPacket \<Rightarrow> TxIpPacket" where
  "TxEngConstructIpv4Packet s =
     (case xk_fsm_state s of
        READ_FIRST \<Rightarrow>
          (case (xk_tx_ipv4_header s, xk_tx_tcp_packet s, xk_tx_tcp_checksum s) of
             (h # hs, w # ws, c # cs) \<Rightarrow> ip_read_first h c w
               (s\<lparr>xk_tx_ipv4_header := hs, xk_tx_tcp_packet := ws, xk_tx_tcp_checksum := cs\<rparr>)
           | _ \<Rightarrow> s)
      | IP_READ_PAYLOAD \<Rightarrow>
          (case xk_tx_tcp_packet s of
             w # ws \<Rightarrow> ip_read_payload w (s\<lparr>xk_tx_tcp_packet := ws\<rparr>) | [] \<Rightarrow> s)
      | IP_EXTRA_WORD \<Rightarrow> ip_extra_word s)"

definition tx_ip_packet_init :: TxIpPacket where
  "tx_ip_packet_init =
     \<lparr>xk_prev_word = NetAXISWord_default, xk_fsm_state = READ_FIRST, xk_tx_ipv4_header = [],
      xk_tx_tcp_checksum = [], xk_tx_tcp_packet = [], xk_tx_ip_pkt_out = []\<rparr>"

section \<open>Header and payload\<close>

text \<open>What the first process makes of a header of 32 bytes and the bytes of the payload words: behind a
  word that is not the last one come its own first 32 bytes again, in place of the other 32.\<close>

fun appended :: "8 word list \<Rightarrow> 8 word list list \<Rightarrow> 8 word list" where
  "appended h [] = h"
| "appended h [p] = h @ p"
| "appended h (p # ps) = h @ take 32 p @ appended (take 32 p) ps"

definition pseudo_done :: "TxPseudoPkt \<Rightarrow> NetAXISWord list \<Rightarrow> 8 word list \<Rightarrow> TxPseudoPkt \<Rightarrow> bool" where
  "pseudo_done s rest bs t \<longleftrightarrow> (\<exists>os. xp_fsm_state t = READ_PSEUDO \<and> xp_tx_tcp_packet_payload t = rest \<and>
     xp_tx_tcp_pseudo_full_header t = xp_tx_tcp_pseudo_full_header s \<and>
     xp_tx_tcp_packet_contains_payload t = xp_tx_tcp_packet_contains_payload s \<and>
     xp_tx_tcp_pseudo_packet_for_tx_eng t = xp_tx_tcp_pseudo_packet_for_tx_eng s @ os \<and>
     xp_tx_tcp_pseudo_packet_for_checksum t = xp_tx_tcp_pseudo_packet_for_checksum s @ os \<and>
     is_packet os \<and> packet_bytes os = bs)"

lemma unat_offsets [simp]: "unat (32 :: 6 word) = 32" "unat (12 :: 6 word) = 12" "unat (44 :: 6 word) = 44"
  by simp_all

lemma lanes_last [simp]: "lanes (w\<lparr>nw_last := b\<rparr>) = lanes w"
  by (simp add: lanes_def word_byte_def)

lemma mask_64: "(- 1 :: 64 word) = mask 64"
  by (simp add: mask_eq_exp_minus_1)

lemma merged_word:
  fixes b :: bool
  assumes "nw_keep prev = mask i" and "32 \<le> i" and "i \<le> 64" and "nw_keep w = mask j" and "j \<le> 64"
  defines "v \<equiv> (MergeTwoWordsHead w prev 32 NetAXISWord_default)\<lparr>nw_last := b\<rparr>"
  shows "word_bytes v = take 32 (word_bytes prev) @ take 32 (word_bytes w)" and "nw_keep v = mask (32 + min 32 j)"
proof -
  note p = mask_lanes [OF assms(1,3)] and q = mask_lanes [OF assms(4,5)]
  have l: "lanes v = map Some (take 32 (word_bytes prev) @ take 32 (word_bytes w)) @ replicate (32 - j) None"
    using p q assms(2,5) by (simp add: v_def lanes_MergeTwoWordsHead take_map min_def)
  then show "word_bytes v = take 32 (word_bytes prev) @ take 32 (word_bytes w)" by (simp add: word_bytes_lanes)
  show "nw_keep v = mask (32 + min 32 j)"
    using keep_of_lanes [OF l] p(2) q(2) assms(2) by (simp add: min_def split: if_splits)
qed

lemma extra_pseudo_word:
  assumes "xp_fsm_state s = TX_EXTRA_WORD" and "nw_keep (xp_prev_word s) = mask j" and "32 < j" and "j \<le> 64"
  shows "\<exists>v. TxEngConstructPseudoPacket s = (send_pseudo v s)\<lparr>xp_fsm_state := READ_PSEUDO\<rparr> \<and> nw_last v \<and>
     word_bytes v = drop 32 (word_bytes (xp_prev_word s)) \<and> nw_keep v \<in> mask ` {1..64}"
proof -
  let ?v = "(ConcatTwoWords NetAXISWord_default (xp_prev_word s) 32 NetAXISWord_default)\<lparr>nw_last := True\<rparr>"
  note p = mask_lanes [OF assms(2,4)]
  have l: "lanes ?v = map Some (drop 32 (word_bytes (xp_prev_word s))) @ replicate (64 - j + 32) None"
    using p assms(3) by (simp add: lanes_ConcatTwoWords drop_map replicate_add)
  have "nw_keep ?v = mask (j - 32)" using keep_of_lanes [OF l] p(2) assms(3,4) by simp
  moreover have "j - 32 \<in> {1..64}" using assms(3,4) unfolding atLeastAtMost_iff by linarith
  ultimately have "nw_keep ?v \<in> mask ` {1..64}" by (metis imageI)
  then show ?thesis
    using assms(1) l by (intro exI [of _ ?v])
      (simp add: TxEngConstructPseudoPacket_def pseudo_send_extra_def word_bytes_lanes)
qed

lemma payload_appended:
  "xp_fsm_state s = TX_READ_PAYLOAD \<Longrightarrow> xp_tx_tcp_packet_payload s = ws @ rest \<Longrightarrow> is_packet ws \<Longrightarrow>
     nw_keep (xp_prev_word s) = mask i \<Longrightarrow> 32 \<le> i \<Longrightarrow> i \<le> 64 \<Longrightarrow>
   \<exists>n \<le> Suc (length ws). pseudo_done s rest (appended (take 32 (word_bytes (xp_prev_word s))) (map word_bytes ws))
      ((TxEngConstructPseudoPacket ^^ n) s)"
proof (induction ws arbitrary: s i)
  case Nil
  then show ?case by (simp add: is_packet_def)
next
  case (Cons w ws)
  let ?v = "(MergeTwoWordsHead w (xp_prev_word s) 32 NetAXISWord_default)
      \<lparr>nw_last := nw_last w \<and> \<not> bit (nw_keep w) 32\<rparr>"
  let ?t = "TxEngConstructPseudoPacket s"
  have step: "?t = (send_pseudo ?v (s\<lparr>xp_tx_tcp_packet_payload := ws @ rest\<rparr>))
      \<lparr>xp_fsm_state := (if nw_last w then if bit (nw_keep w) 32 then TX_EXTRA_WORD else READ_PSEUDO else TX_READ_PAYLOAD),
       xp_prev_word := w\<rparr>"
    using Cons.prems(1,2) by (simp add: TxEngConstructPseudoPacket_def pseudo_read_payload_def send_pseudo_def Let_def)
  show ?case
  proof (cases "ws = []")
    case True
    then obtain j where j: "nw_keep w = mask j" "1 \<le> j" "j \<le> 64" and last: "nw_last w"
      using Cons.prems(3) by (auto simp: is_packet_Cons)
    note v = merged_word [OF Cons.prems(4-6) j(1,3), where b = "nw_last w \<and> \<not> bit (nw_keep w) 32"]
    have b: "bit (nw_keep w) 32 \<longleftrightarrow> 32 < j" using j by (simp add: bit_simps)
    have len: "length (word_bytes w) = j" by (rule mask_lanes(2) [OF j(1,3)])
    show ?thesis
    proof (cases "32 < j")
      case False
      have "32 + min 32 j \<in> {1..64}" by simp
      then have "is_packet [?v]" unfolding is_packet_def using v(2) last b False by simp
      then have "pseudo_done s rest (appended (take 32 (word_bytes (xp_prev_word s))) (map word_bytes [w])) ?t"
        using v(1) False last b len True by (simp add: pseudo_done_def step send_pseudo_def)
      then show ?thesis using True by (intro exI [of _ 1]) simp
    next
      case False': True
      have t: "xp_fsm_state ?t = TX_EXTRA_WORD" "nw_keep (xp_prev_word ?t) = mask j" "xp_prev_word ?t = w"
        using last b False' j(1) by (simp_all add: step)
      obtain x where x: "TxEngConstructPseudoPacket ?t = (send_pseudo x ?t)\<lparr>xp_fsm_state := READ_PSEUDO\<rparr>" "nw_last x"
          "word_bytes x = drop 32 (word_bytes w)" "nw_keep x \<in> mask ` {1..64}"
        using extra_pseudo_word [OF t(1,2) False' j(3)] t(3) by auto
      have "nw_keep ?v = - 1" using v(2) False' by (simp add: mask_64)
      then have "is_packet [?v, x]" using last b False' x(2,4) by (simp add: is_packet_Cons)
      then have "pseudo_done s rest (appended (take 32 (word_bytes (xp_prev_word s))) (map word_bytes [w]))
          (TxEngConstructPseudoPacket ?t)"
        unfolding x(1) pseudo_done_def using v(1) x(3) True
        by (intro exI [of _ "[?v, x]"]) (simp add: step send_pseudo_def)
      then show ?thesis using True by (intro exI [of _ 2]) (simp add: numeral_2_eq_2)
    qed
  next
    case False
    then have w: "nw_keep w = - 1" "\<not> nw_last w" "is_packet ws" using Cons.prems(3) by (simp_all add: is_packet_Cons)
    note v = merged_word [OF Cons.prems(4-6) w(1) [unfolded mask_64], where b = "nw_last w \<and> \<not> bit (nw_keep w) 32"]
    obtain n where n: "n \<le> Suc (length ws)"
      and d: "pseudo_done ?t rest (appended (take 32 (word_bytes w)) (map word_bytes ws)) ((TxEngConstructPseudoPacket ^^ n) ?t)"
      using Cons.IH [of ?t 64] w by (auto simp: step mask_64 send_pseudo_def)
    obtain p ps where ws: "ws = p # ps" using False by (cases ws) auto
    have "pseudo_done s rest (appended (take 32 (word_bytes (xp_prev_word s))) (map word_bytes (w # ws)))
        ((TxEngConstructPseudoPacket ^^ n) ?t)"
    proof -
      from d obtain os where os: "is_packet os" "packet_bytes os = appended (take 32 (word_bytes w)) (map word_bytes ws)"
        "xp_tx_tcp_pseudo_packet_for_tx_eng ((TxEngConstructPseudoPacket ^^ n) ?t) = xp_tx_tcp_pseudo_packet_for_tx_eng ?t @ os"
        "xp_tx_tcp_pseudo_packet_for_checksum ((TxEngConstructPseudoPacket ^^ n) ?t) = xp_tx_tcp_pseudo_packet_for_checksum ?t @ os"
        by (auto simp: pseudo_done_def)
      have "nw_keep ?v = - 1" "\<not> nw_last ?v" using v(2) w(2) by (simp_all add: mask_64)
      then have "is_packet (?v # os)" using os(1) by (simp add: is_packet_Cons) (simp add: is_packet_def)
      then show ?thesis
        using d os v(1) unfolding pseudo_done_def
        by (intro exI [of _ "?v # os"]) (simp add: step send_pseudo_def ws)
    qed
    then show ?thesis
      using n by (intro exI [of _ "Suc n"]) (simp add: funpow_Suc_apply del: funpow.simps)
  qed
qed

section \<open>The pseudo header is taken off\<close>

definition remove_phase :: "TxRemove \<Rightarrow> shift_phase" where
  "remove_phase s = (case xr_fsm_state s of READ \<Rightarrow> Shift_Idle | READ_MORE_PAYLOAD \<Rightarrow> Shift_Rest
     | REMOVE_EXTRA_WORD \<Rightarrow> Shift_Extra)"

interpretation rem: realigner TxEngRemovePseudoHeader remove_phase xr_prev_word "\<lambda>_. 12"
    xr_tx_tcp_pseudo_packet_for_tx_eng xr_tx_tcp_packet "\<lambda>_. True" "\<lambda>_ ls. ls" "\<lambda>_. ()"
proof unfold_locales
  fix s w xs
  assume "remove_phase s = Shift_Rest" and i: "xr_tx_tcp_pseudo_packet_for_tx_eng s = w # xs"
  then have st: "xr_fsm_state s = READ_MORE_PAYLOAD"
    by (simp add: remove_phase_def split: TxEngPseduoHdrRemoverFsmState.splits)
  show "\<exists>o1. xr_tx_tcp_pseudo_packet_for_tx_eng (TxEngRemovePseudoHeader s) = xs \<and>
        xr_tx_tcp_packet (TxEngRemovePseudoHeader s) = xr_tx_tcp_packet s @ [o1] \<and>
        xr_prev_word (TxEngRemovePseudoHeader s) = w \<and> (12 :: nat) = 12 \<and> True \<and> (\<lambda>ls. ls) = (\<lambda>ls. ls) \<and> () = () \<and>
        lanes o1 = drop 12 (lanes (xr_prev_word s)) @ take 12 (lanes w) \<and>
        nw_last o1 = (nw_last w \<and> \<not> bit (nw_keep w) 12) \<and>
        remove_phase (TxEngRemovePseudoHeader s) =
          (if nw_last w then if bit (nw_keep w) 12 then Shift_Extra else Shift_Idle else Shift_Rest)"
    using i by (auto simp: TxEngRemovePseudoHeader_def st remove_next_def remove_phase_def lanes_ConcatTwoWords Let_def)
next
  fix s
  assume "remove_phase s = Shift_Extra"
  then have st: "xr_fsm_state s = REMOVE_EXTRA_WORD"
    by (simp add: remove_phase_def split: TxEngPseduoHdrRemoverFsmState.splits)
  show "\<exists>o1. xr_tx_tcp_pseudo_packet_for_tx_eng (TxEngRemovePseudoHeader s) = xr_tx_tcp_pseudo_packet_for_tx_eng s \<and>
        xr_tx_tcp_packet (TxEngRemovePseudoHeader s) = xr_tx_tcp_packet s @ [o1] \<and> () = () \<and>
        lanes o1 = drop 12 (lanes (xr_prev_word s)) @ replicate 12 None \<and> nw_last o1 \<and>
        remove_phase (TxEngRemovePseudoHeader s) = Shift_Idle"
    by (simp add: TxEngRemovePseudoHeader_def st remove_extra_def remove_phase_def lanes_ConcatTwoWords)
qed auto

definition removed :: "TxRemove \<Rightarrow> NetAXISWord list \<Rightarrow> 8 word list \<Rightarrow> TxRemove \<Rightarrow> bool" where
  "removed s rest bs t \<longleftrightarrow> (\<exists>os. xr_fsm_state t = READ \<and> xr_tx_tcp_pseudo_packet_for_tx_eng t = rest \<and>
     xr_tx_tcp_packet t = xr_tx_tcp_packet s @ os \<and> is_packet os \<and> packet_bytes os = bs)"

lemma pseudo_header_removed:
  assumes "xr_fsm_state s = READ" and "xr_tx_tcp_pseudo_packet_for_tx_eng s = ws @ rest" and "is_packet ws"
    and "12 < length (packet_bytes ws)"
  shows "\<exists>n \<le> Suc (length ws). removed s rest (drop 12 (packet_bytes ws)) ((TxEngRemovePseudoHeader ^^ n) s)"
proof -
  obtain w vs where ws: "ws = w # vs" using assms(3) by (cases ws) (auto simp: is_packet_def)
  show ?thesis
  proof (cases "vs = []")
    case True
    then obtain j where j: "nw_keep w = mask j" "j \<le> 64" and last: "nw_last w"
      using assms(3) ws by (auto simp: is_packet_Cons)
    note l = mask_lanes [OF j]
    let ?o = "(ConcatTwoWords NetAXISWord_default w 12 NetAXISWord_default)\<lparr>nw_last := True\<rparr>"
    have len: "12 < j" using l(2) assms(4) ws True by simp
    have lo: "lanes ?o = map Some (drop 12 (word_bytes w)) @ replicate (64 - j + 12) None"
      using l len by (simp add: lanes_ConcatTwoWords drop_map replicate_add)
    have "nw_keep ?o = mask (j - 12)" using keep_of_lanes [OF lo] l(2) len j(2) by simp
    moreover have "j - 12 \<in> {1..64}" using len j(2) unfolding atLeastAtMost_iff by linarith
    ultimately have "nw_keep ?o \<in> mask ` {1..64}" by (metis imageI)
    then have "removed s rest (drop 12 (packet_bytes ws)) (TxEngRemovePseudoHeader s)"
      using assms(1,2) ws True last lo unfolding removed_def
      by (intro exI [of _ "[?o]"])
        (simp add: TxEngRemovePseudoHeader_def remove_first_def is_packet_def word_bytes_lanes)
    then show ?thesis by (intro exI [of _ 1]) simp
  next
    case False
    then have w: "nw_keep w = - 1" "\<not> nw_last w" "is_packet vs" using assms(3) ws by (simp_all add: is_packet_Cons)
    let ?s = "s\<lparr>xr_tx_tcp_pseudo_packet_for_tx_eng := vs @ rest, xr_prev_word := w, xr_fsm_state := READ_MORE_PAYLOAD\<rparr>"
    have step: "TxEngRemovePseudoHeader s = ?s"
      using assms(1,2) ws w(2) by (simp add: TxEngRemovePseudoHeader_def remove_first_def)
    obtain n where n: "n \<le> Suc (length vs)" and c: "rem.cut ?s vs rest ((TxEngRemovePseudoHeader ^^ n) ?s)"
      using rem.cut_packet [of ?s vs rest] w by (auto simp: remove_phase_def)
    have same: "(TxEngRemovePseudoHeader ^^ n) ?s = (TxEngRemovePseudoHeader ^^ Suc n) s"
      by (simp only: funpow_Suc_apply step)
    have "somes (drop 12 (lanes w @ concat (map lanes vs))) = drop 12 (packet_bytes ws)"
      using packet_drop [OF assms(3), of 12] ws by simp
    then have "removed s rest (drop 12 (packet_bytes ws)) ((TxEngRemovePseudoHeader ^^ Suc n) s)"
      using c unfolding rem.cut_def same
      by (auto simp: removed_def remove_phase_def split: TxEngPseduoHdrRemoverFsmState.splits)
    then show ?thesis using n ws by (intro exI [of _ "Suc n"]) simp
  qed
qed

section \<open>The IP header is put in front\<close>

text \<open>The checksum goes to the bytes 16 and 17 of the segment; its 17 bit range clears the lowest bit of
  byte 18, the upper half of the urgent pointer.\<close>

definition put_checksum :: "16 word \<Rightarrow> 8 word list \<Rightarrow> 8 word list" where
  "put_checksum c bs = bs[16 := get_range 8 c, 17 := get_range 0 c, 18 := bs ! 18 AND NOT 1]"

lemma length_put_checksum [simp]: "length (put_checksum c bs) = length bs"
  by (simp add: put_checksum_def)

lemma first_ip_byte:
  assumes "i < 64"
  shows "word_byte (first_ip_word h c w) i =
     (if i < 20 then word_byte h i else if i = 36 then get_range 8 c else if i = 37 then get_range 0 c
      else if i = 38 then word_byte w 18 AND NOT 1 else word_byte w (i - 20))"
proof -
  let ?b = "\<lambda>n. bit (nw_data (first_ip_word h c w)) (8 * i + n)"
  have b: "?b n \<longleftrightarrow> (if i < 20 then bit (nw_data h) (8 * i + n) else if 36 \<le> i \<and> 8 * i + n < 305
      then bit (SwapByte c) (8 * i + n - 288) else bit (nw_data w) (8 * i + n - 160))" if "n < 8" for n
    using assms that by (simp add: first_ip_word_def bit_field bit_simps) auto
  have sb: "bit (SwapByte c) k \<longleftrightarrow> bit c (8 + k)" "bit (SwapByte c) (8 + k) \<longleftrightarrow> bit c k" "\<not> bit (SwapByte c) 16"
    if "k < 8" for k
    using that by (simp_all add: bit_SwapByte)
  consider "i < 20" | "i = 36" | "i = 37" | "i = 38" | "20 \<le> i" "i \<noteq> 36" "i \<noteq> 37" "i \<noteq> 38" by linarith
  then show ?thesis
  proof cases
    case 4
    have "bit (nw_data w) (144 + n) \<and> 0 < n \<longleftrightarrow> ?b n" if "n < 8" for n
      using b [OF that] 4 that sb(3) by (cases n) (simp_all add: algebra_simps)
    then show ?thesis using 4 by (intro bit_word_eqI) (auto simp: bit_word_byte bit_simps)
  next
    case 5
    have "?b n \<longleftrightarrow> bit (nw_data w) (8 * (i - 20) + n)" if "n < 8" for n
    proof -
      have "\<not> (36 \<le> i \<and> 8 * i + n < 305)" using 5 that by linarith
      moreover have "8 * i + n - 160 = 8 * (i - 20) + n" using 5(1) by simp
      ultimately show ?thesis using b [OF that] 5(1) by auto
    qed
    then show ?thesis using 5 by (intro bit_word_eqI) (simp add: bit_word_byte)
  next
    case 1
    then show ?thesis by (intro bit_word_eqI) (simp add: bit_word_byte b)
  next
    case 2
    then show ?thesis by (intro bit_word_eqI) (use b sb(1) in \<open>auto simp: bit_word_byte bit_field\<close>)
  next
    case 3
    have "?b n \<longleftrightarrow> bit c n" if "n < 8" for n
      using b [OF that] 3 sb(2) [OF that] that by (simp add: add.commute)
    then show ?thesis using 3 by (intro bit_word_eqI) (auto simp: bit_word_byte bit_field)
  qed
qed

lemma lanes_first_ip_word:
  assumes "lanes w = map Some bs @ replicate j None" and "length bs + j = 64" and "20 \<le> length bs"
  shows "lanes (first_ip_word h c w) =
     map Some (map (word_byte h) [0..<20] @ put_checksum c (take 44 bs)) @ replicate (44 - length bs) None"
proof (rule nth_equalityI)
  have byte: "word_byte w i = bs ! i" if "i < length bs" "i < 64" for i
    using arg_cong [OF assms(1), of "\<lambda>l. l ! i"] that by (simp add: nth_lanes nth_append split: if_splits)
  have keep: "bit (nw_keep (first_ip_word h c w)) i \<longleftrightarrow> i < 20 + length bs" if "i < 64" for i
  proof -
    have "bit (0xFFFFF :: 20 word) i \<longleftrightarrow> i < 20"
    proof -
      have m: "(0xFFFFF :: 20 word) = mask 20" by (simp add: mask_eq_exp_minus_1)
      show ?thesis by (simp only: m bit_mask_iff) simp
    qed
    moreover have "bit (nw_keep w) k \<longleftrightarrow> k < length bs" if "k < 64" for k
      using keep_of_lanes [OF assms(1,2)] that by (simp add: bit_simps)
    ultimately show ?thesis using that assms(2) by (auto simp: first_ip_word_def bit_field bit_simps)
  qed
  show "length (lanes (first_ip_word h c w)) = length (map Some (map (word_byte h) [0..<20] @
      put_checksum c (take 44 bs)) @ replicate (44 - length bs) None)"
    using assms(2) by simp
  fix i
  assume "i < length (lanes (first_ip_word h c w))"
  then have i: "i < 64" by simp
  have put: "put_checksum c (take 44 bs) ! k = (if k = 16 then get_range 8 c else if k = 17 then get_range 0 c
      else if k = 18 then bs ! 18 AND NOT 1 else bs ! k)" if "k < length bs" "k < 44" for k
    using that assms(3) by (auto simp: put_checksum_def nth_list_update)
  show "lanes (first_ip_word h c w) ! i = (map Some (map (word_byte h) [0..<20] @
      put_checksum c (take 44 bs)) @ replicate (44 - length bs) None) ! i"
  proof (cases "i < 20")
    case True
    then show ?thesis using i keep by (simp add: nth_lanes nth_append first_ip_byte)
  next
    case False
    show ?thesis
    proof (cases "i < 20 + length bs")
      case True
      then have "word_byte (first_ip_word h c w) i = put_checksum c (take 44 bs) ! (i - 20)"
        using False i assms(3) byte by (auto simp: first_ip_byte put)
      moreover have "i - 20 < length bs" "i - 20 < 44" using True False i by linarith+
      ultimately show ?thesis using True False i keep by (simp add: nth_lanes nth_append)
    next
      case False': False
      then show ?thesis using False i keep by (simp add: nth_lanes nth_append)
    qed
  qed
qed

definition ip_phase :: "TxIpPacket \<Rightarrow> shift_phase" where
  "ip_phase s = (case xk_fsm_state s of READ_FIRST \<Rightarrow> Shift_Idle | IP_READ_PAYLOAD \<Rightarrow> Shift_Rest
     | IP_EXTRA_WORD \<Rightarrow> Shift_Extra)"

text \<open>The words of segments whose last word leaves nothing over.\<close>

definition ip_fits :: "TxIpPacket \<Rightarrow> bool" where
  "ip_fits s \<longleftrightarrow> (\<forall>w \<in> set (xk_tx_tcp_packet s). nw_last w \<longrightarrow> \<not> bit (nw_keep w) 44)"

interpretation ipp: realigner TxEngConstructIpv4Packet ip_phase xk_prev_word "\<lambda>_. 44" xk_tx_tcp_packet
    xk_tx_ip_pkt_out ip_fits "\<lambda>_ ls. ls" "\<lambda>s. (xk_tx_ipv4_header s, xk_tx_tcp_checksum s)"
proof unfold_locales
  fix s w xs
  assume "ip_phase s = Shift_Rest" and ok: "ip_fits s" and i: "xk_tx_tcp_packet s = w # xs"
  then have st: "xk_fsm_state s = IP_READ_PAYLOAD" by (simp add: ip_phase_def split: teips_states.splits)
  show "\<exists>o1. xk_tx_tcp_packet (TxEngConstructIpv4Packet s) = xs \<and>
        xk_tx_ip_pkt_out (TxEngConstructIpv4Packet s) = xk_tx_ip_pkt_out s @ [o1] \<and>
        xk_prev_word (TxEngConstructIpv4Packet s) = w \<and> (44 :: nat) = 44 \<and> ip_fits (TxEngConstructIpv4Packet s) \<and>
        (\<lambda>ls. ls) = (\<lambda>ls. ls) \<and>
        (xk_tx_ipv4_header (TxEngConstructIpv4Packet s), xk_tx_tcp_checksum (TxEngConstructIpv4Packet s)) =
          (xk_tx_ipv4_header s, xk_tx_tcp_checksum s) \<and>
        lanes o1 = drop 44 (lanes (xk_prev_word s)) @ take 44 (lanes w) \<and>
        nw_last o1 = (nw_last w \<and> \<not> bit (nw_keep w) 44) \<and>
        ip_phase (TxEngConstructIpv4Packet s) =
          (if nw_last w then if bit (nw_keep w) 44 then Shift_Extra else Shift_Idle else Shift_Rest)"
    using i ok by (auto simp: TxEngConstructIpv4Packet_def st ip_read_payload_def ip_phase_def ip_fits_def
        lanes_ConcatTwoWords)
next
  fix s
  assume "ip_phase s = Shift_Extra"
  then have st: "xk_fsm_state s = IP_EXTRA_WORD" by (simp add: ip_phase_def split: teips_states.splits)
  show "\<exists>o1. xk_tx_tcp_packet (TxEngConstructIpv4Packet s) = xk_tx_tcp_packet s \<and>
        xk_tx_ip_pkt_out (TxEngConstructIpv4Packet s) = xk_tx_ip_pkt_out s @ [o1] \<and>
        (xk_tx_ipv4_header (TxEngConstructIpv4Packet s), xk_tx_tcp_checksum (TxEngConstructIpv4Packet s)) =
          (xk_tx_ipv4_header s, xk_tx_tcp_checksum s) \<and>
        lanes o1 = drop 44 (lanes (xk_prev_word s)) @ replicate 44 None \<and> nw_last o1 \<and>
        ip_phase (TxEngConstructIpv4Packet s) = Shift_Idle"
    by (simp add: TxEngConstructIpv4Packet_def st ip_extra_word_def ip_phase_def lanes_ConcatTwoWords)
qed auto

definition ip_sent :: "TxIpPacket \<Rightarrow> NetAXISWord list \<Rightarrow> 16 word list \<Rightarrow> 8 word list \<Rightarrow> TxIpPacket \<Rightarrow> bool" where
  "ip_sent s hs cs bs t \<longleftrightarrow> (\<exists>os. xk_fsm_state t = READ_FIRST \<and> xk_tx_ipv4_header t = hs \<and> xk_tx_tcp_checksum t = cs \<and>
     xk_tx_tcp_packet t = [] \<and> xk_tx_ip_pkt_out t = xk_tx_ip_pkt_out s @ os \<and> is_packet os \<and> packet_bytes os = bs)"

lemma first_ip_word_bytes:
  assumes "nw_keep w = mask j" and "20 \<le> j" and "j \<le> 64" and "nw_keep h = mask 20"
  shows "word_bytes (first_ip_word h c w) = word_bytes h @ put_checksum c (take 44 (word_bytes w))"
    and "nw_keep (first_ip_word h c w) = mask (20 + min 44 j)"
proof -
  note l = mask_lanes [OF assms(1,3)]
  have f: "lanes (first_ip_word h c w) = map Some (map (word_byte h) [0..<20] @ put_checksum c (take 44 (word_bytes w))) @
      replicate (44 - length (word_bytes w)) None"
    using l assms(2,3) by (intro lanes_first_ip_word [where j = "64 - j"]) simp_all
  have "map (word_byte h) [0..<20] = word_bytes h" by (simp add: word_bytes_mask [OF assms(4)])
  then show "word_bytes (first_ip_word h c w) = word_bytes h @ put_checksum c (take 44 (word_bytes w))"
    using f by (simp add: word_bytes_lanes)
  show "nw_keep (first_ip_word h c w) = mask (20 + min 44 j)"
    using keep_of_lanes [OF f] l(2) by (simp add: min_def split: if_splits)
qed

lemma put_checksum_append: "20 \<le> length xs \<Longrightarrow> put_checksum c (xs @ ys) = put_checksum c xs @ ys"
  by (simp add: put_checksum_def list_update_append nth_append)

lemma single_ip_packet:
  assumes "xk_fsm_state s = READ_FIRST" and "xk_tx_ipv4_header s = h # hs" and "xk_tx_tcp_checksum s = c # cs"
    and "xk_tx_tcp_packet s = [w]" and "is_packet [w]" and "nw_keep h = mask 20" and "20 \<le> length (word_bytes w)"
  shows "\<exists>n \<le> 2. ip_sent s hs cs (word_bytes h @ put_checksum c (word_bytes w)) ((TxEngConstructIpv4Packet ^^ n) s)"
proof -
  obtain j where j: "nw_keep w = mask j" "1 \<le> j" "j \<le> 64" and last: "nw_last w"
    using assms(5) by (auto simp: is_packet_Cons)
  note l = mask_lanes [OF j(1,3)]
  have len: "20 \<le> j" using assms(7) l(2) by simp
  note f = first_ip_word_bytes [OF j(1) len j(3) assms(6), of c]
  have b: "bit (nw_keep w) 44 \<longleftrightarrow> 44 < j" using j by (simp add: bit_simps)
  let ?f = "first_ip_word h c w" and ?t = "TxEngConstructIpv4Packet s"
  have step: "?t = s\<lparr>xk_tx_ipv4_header := hs, xk_tx_tcp_checksum := cs, xk_tx_tcp_packet := [],
      xk_fsm_state := (if 44 < j then IP_EXTRA_WORD else READ_FIRST), xk_prev_word := w,
      xk_tx_ip_pkt_out := xk_tx_ip_pkt_out s @ [?f]\<rparr>"
    using assms(1-4) last b by (simp add: TxEngConstructIpv4Packet_def ip_read_first_def)
  show ?thesis
  proof (cases "44 < j")
    case False
    have "20 + min 44 j \<in> {1..64}" by simp
    then have "is_packet [?f]"
      unfolding is_packet_def using f(2) last b False by (simp add: first_ip_word_def)
    then have "ip_sent s hs cs (word_bytes h @ put_checksum c (word_bytes w)) ?t"
      using f(1) False l(2) by (simp add: ip_sent_def step)
    then show ?thesis by (intro exI [of _ 1]) simp
  next
    case True
    let ?x = "(ConcatTwoWords NetAXISWord_default w 44 NetAXISWord_default)\<lparr>nw_last := True\<rparr>"
    have lo: "lanes ?x = map Some (drop 44 (word_bytes w)) @ replicate (64 - j + 44) None"
      using l True by (simp add: lanes_ConcatTwoWords drop_map replicate_add)
    have "nw_keep ?x = mask (j - 44)" using keep_of_lanes [OF lo] l(2) True j(3) by simp
    moreover have "j - 44 \<in> {1..64}" using True j(3) unfolding atLeastAtMost_iff by linarith
    ultimately have "nw_keep ?x \<in> mask ` {1..64}" by (metis imageI)
    moreover have "nw_keep ?f = - 1" using f(2) True by (simp add: mask_64)
    moreover have "\<not> nw_last ?f" using b True by (simp add: first_ip_word_def)
    ultimately have "is_packet [?f, ?x]" by (simp add: is_packet_Cons)
    moreover have "TxEngConstructIpv4Packet ?t = ?t\<lparr>xk_tx_ip_pkt_out := xk_tx_ip_pkt_out s @ [?f, ?x], xk_fsm_state := READ_FIRST\<rparr>"
      using True by (simp add: step) (simp add: TxEngConstructIpv4Packet_def ip_extra_word_def)
    moreover have "packet_bytes [?f, ?x] = word_bytes h @ put_checksum c (word_bytes w)"
    proof -
      have "word_bytes ?x = drop 44 (word_bytes w)" unfolding word_bytes_lanes [of ?x] lo by simp
      then show ?thesis
        using put_checksum_append [of "take 44 (word_bytes w)" c "drop 44 (word_bytes w)"] l(2) True f(1) by simp
    qed
    ultimately have "ip_sent s hs cs (word_bytes h @ put_checksum c (word_bytes w)) (TxEngConstructIpv4Packet ?t)"
      unfolding ip_sent_def by (intro exI [of _ "[?f, ?x]"]) (simp add: step)
    then show ?thesis by (intro exI [of _ 2]) (simp add: numeral_2_eq_2)
  qed
qed

text \<open>A segment of several words comes out whole when its last word has at most 44 bytes.\<close>

lemma ip_packet_sent:
  assumes "xk_fsm_state s = READ_FIRST" and "xk_tx_ipv4_header s = h # hs" and "xk_tx_tcp_checksum s = c # cs"
    and "xk_tx_tcp_packet s = ws" and "is_packet ws" and "nw_keep h = mask 20" and "20 \<le> length (packet_bytes ws)"
    and "tl ws = [] \<or> \<not> bit (nw_keep (last ws)) 44"
  shows "\<exists>n \<le> Suc (length ws). ip_sent s hs cs (word_bytes h @ put_checksum c (packet_bytes ws)) ((TxEngConstructIpv4Packet ^^ n) s)"
proof -
  obtain w vs where ws: "ws = w # vs" using assms(5) by (cases ws) (auto simp: is_packet_def)
  show ?thesis
  proof (cases "vs = []")
    case True
    then show ?thesis using single_ip_packet [of s h hs c cs w] assms ws by (auto simp: numeral_2_eq_2)
  next
    case False
    then have w: "nw_keep w = mask 64" "\<not> nw_last w" "is_packet vs"
      using assms(5) ws by (simp_all add: is_packet_Cons mask_64)
    note f = first_ip_word_bytes [OF w(1) _ _ assms(6), of c] and l = mask_lanes [OF w(1)]
    let ?f = "first_ip_word h c w"
    let ?s = "s\<lparr>xk_tx_ipv4_header := hs, xk_tx_tcp_checksum := cs, xk_tx_tcp_packet := vs,
      xk_fsm_state := IP_READ_PAYLOAD, xk_prev_word := w, xk_tx_ip_pkt_out := xk_tx_ip_pkt_out s @ [?f]\<rparr>"
    have step: "TxEngConstructIpv4Packet s = ?s"
      using assms(1-4) ws w(2) by (simp add: TxEngConstructIpv4Packet_def ip_read_first_def)
    have "list_all (\<lambda>v. nw_keep v = - 1 \<and> \<not> nw_last v) (butlast vs)" using w(3) by (simp add: is_packet_def)
    then have "\<forall>v \<in> set (butlast vs @ [last vs]). nw_last v \<longrightarrow> v = last vs" by (auto simp: list_all_iff)
    then have "\<forall>v \<in> set vs. nw_last v \<longrightarrow> v = last vs" by (simp only: append_butlast_last_id [OF False])
    moreover have "\<not> bit (nw_keep (last vs)) 44" using assms(8) False ws by auto
    ultimately have ok: "ip_fits ?s" by (auto simp: ip_fits_def)
    obtain n where n: "n \<le> Suc (length vs)" and c: "ipp.cut ?s vs [] ((TxEngConstructIpv4Packet ^^ n) ?s)"
      using ipp.cut_packet [of ?s vs "[]"] ok w by (auto simp: ip_phase_def mask_64)
    have same: "(TxEngConstructIpv4Packet ^^ n) ?s = (TxEngConstructIpv4Packet ^^ Suc n) s"
      by (simp only: funpow_Suc_apply step)
    obtain os where os: "xk_tx_ip_pkt_out ((TxEngConstructIpv4Packet ^^ Suc n) s) = xk_tx_ip_pkt_out s @ [?f] @ os"
        "is_packet os" "packet_bytes os = somes (drop 44 (lanes w @ concat (map lanes vs)))"
      using c unfolding ipp.cut_def same by auto
    have "packet_bytes os = drop 44 (packet_bytes ws)"
      using packet_drop [OF assms(5), of 44] ws os(3) by simp
    moreover have "put_checksum c (take 44 (word_bytes w)) @ drop 44 (packet_bytes ws) = put_checksum c (packet_bytes ws)"
    proof -
      have e: "take 44 (word_bytes w) @ drop 44 (word_bytes w) @ packet_bytes vs = word_bytes w @ packet_bytes vs"
        by (simp flip: append_assoc)
      have "put_checksum c (take 44 (word_bytes w) @ drop 44 (word_bytes w) @ packet_bytes vs)
          = put_checksum c (take 44 (word_bytes w)) @ drop 44 (word_bytes w) @ packet_bytes vs"
        by (rule put_checksum_append) (simp add: l(2))
      then have "put_checksum c (word_bytes w @ packet_bytes vs)
          = put_checksum c (take 44 (word_bytes w)) @ drop 44 (word_bytes w) @ packet_bytes vs"
        by (simp only: e)
      then show ?thesis using l(2) ws by simp
    qed
    ultimately have "packet_bytes ([?f] @ os) = word_bytes h @ put_checksum c (packet_bytes ws)"
      using f(1) by simp
    moreover have "nw_keep ?f = - 1" "\<not> nw_last ?f" using f(2) w(2) by (simp_all add: mask_64 first_ip_word_def)
    then have "is_packet ([?f] @ os)" using os(2) by (simp add: is_packet_Cons) (simp add: is_packet_def)
    ultimately have "ip_sent s hs cs (word_bytes h @ put_checksum c (packet_bytes ws)) ((TxEngConstructIpv4Packet ^^ Suc n) s)"
      unfolding ip_sent_def using c os(1) unfolding ipp.cut_def same
      by (intro exI [of _ "[?f] @ os"]) (simp add: ip_phase_def split: teips_states.splits)
    then show ?thesis using n ws by (intro exI [of _ "Suc n"]) simp
  qed
qed

section \<open>Segments of one payload word\<close>

lemma header_accepted:
  assumes "xp_fsm_state s = READ_PSEUDO" and "xp_tx_tcp_pseudo_full_header s = h # hs"
    and "xp_tx_tcp_packet_contains_payload s = b # bs"
  shows "TxEngConstructPseudoPacket s = pseudo_read_header h b
     (s\<lparr>xp_tx_tcp_pseudo_full_header := hs, xp_tx_tcp_packet_contains_payload := bs\<rparr>)"
  using assms by (simp add: TxEngConstructPseudoPacket_def)

lemma header_without_payload:
  assumes "xp_fsm_state s = READ_PSEUDO" and "xp_tx_tcp_pseudo_full_header s = [h]"
    and "xp_tx_tcp_packet_contains_payload s = [False]" and "is_packet [h]"
  shows "xp_tx_tcp_pseudo_packet_for_tx_eng (TxEngConstructPseudoPacket s) = xp_tx_tcp_pseudo_packet_for_tx_eng s @ [h] \<and>
     xp_tx_tcp_pseudo_packet_for_checksum (TxEngConstructPseudoPacket s) = xp_tx_tcp_pseudo_packet_for_checksum s @ [h]"
  using header_accepted [OF assms(1-3)] by (simp add: pseudo_read_header_def send_pseudo_def)

lemma header_with_payload:
  assumes "xp_fsm_state s = READ_PSEUDO" and "xp_tx_tcp_pseudo_full_header s = [h]"
    and "xp_tx_tcp_packet_contains_payload s = [True]" and "nw_keep h = mask 32"
    and "xp_tx_tcp_packet_payload s = ws @ rest" and "is_packet ws"
  shows "\<exists>n \<le> Suc (Suc (length ws)). \<exists>os. is_packet os \<and> packet_bytes os = appended (word_bytes h) (map word_bytes ws) \<and>
     xp_tx_tcp_pseudo_packet_for_tx_eng ((TxEngConstructPseudoPacket ^^ n) s) = xp_tx_tcp_pseudo_packet_for_tx_eng s @ os \<and>
     xp_tx_tcp_pseudo_packet_for_checksum ((TxEngConstructPseudoPacket ^^ n) s) = xp_tx_tcp_pseudo_packet_for_checksum s @ os \<and>
     xp_fsm_state ((TxEngConstructPseudoPacket ^^ n) s) = READ_PSEUDO \<and>
     xp_tx_tcp_packet_payload ((TxEngConstructPseudoPacket ^^ n) s) = rest"
proof -
  let ?s = "TxEngConstructPseudoPacket s"
  have s: "?s = s\<lparr>xp_tx_tcp_pseudo_full_header := [], xp_tx_tcp_packet_contains_payload := [],
      xp_fsm_state := TX_READ_PAYLOAD, xp_prev_word := h\<rparr>"
    using header_accepted [OF assms(1-3)] by (simp add: pseudo_read_header_def)
  have "length (word_bytes h) = 32" using mask_lanes(2) [OF assms(4)] by simp
  then obtain n where n: "n \<le> Suc (length ws)"
    and d: "pseudo_done ?s rest (appended (word_bytes h) (map word_bytes ws)) ((TxEngConstructPseudoPacket ^^ n) ?s)"
    using payload_appended [of ?s ws rest 32] assms(4-6) by (auto simp: s)
  from d have "\<exists>os. is_packet os \<and> packet_bytes os = appended (word_bytes h) (map word_bytes ws) \<and>
     xp_tx_tcp_pseudo_packet_for_tx_eng ((TxEngConstructPseudoPacket ^^ Suc n) s) = xp_tx_tcp_pseudo_packet_for_tx_eng s @ os \<and>
     xp_tx_tcp_pseudo_packet_for_checksum ((TxEngConstructPseudoPacket ^^ Suc n) s) = xp_tx_tcp_pseudo_packet_for_checksum s @ os \<and>
     xp_fsm_state ((TxEngConstructPseudoPacket ^^ Suc n) s) = READ_PSEUDO \<and>
     xp_tx_tcp_packet_payload ((TxEngConstructPseudoPacket ^^ Suc n) s) = rest"
    by (auto simp: pseudo_done_def funpow_Suc_apply s simp del: funpow.simps)
  then show ?thesis using n by (intro exI [of _ "Suc n"]) simp
qed

text \<open>A packet of at most 96 bytes, without its first twelve, never ends in more than 44 bytes of a
  second word.\<close>

lemma packet_length: "is_packet ws \<Longrightarrow> length (packet_bytes ws) = 64 * (length ws - 1) + length (word_bytes (last ws))"
proof (induction ws)
  case (Cons w ws)
  then show ?case using length_full [of w] by (cases ws) (auto simp: is_packet_Cons)
qed (simp add: is_packet_def)

lemma short_packet_last:
  assumes "is_packet ws" and "length (packet_bytes ws) \<le> 108"
  shows "tl ws = [] \<or> \<not> bit (nw_keep (last ws)) 44"
proof (cases "tl ws = []")
  case False
  then have "2 \<le> length ws" by (cases ws) (auto simp: Suc_le_eq)
  then have "64 \<le> 64 * (length ws - 1)" by simp
  then have len: "length (word_bytes (last ws)) \<le> 44" using packet_length [OF assms(1)] assms(2) by linarith
  obtain j where j: "nw_keep (last ws) = mask j" "j \<le> 64" using assms(1) by (auto simp: is_packet_def)
  then have "j \<le> 44" using len mask_lanes(2) [OF j] by simp
  then show ?thesis using j by (simp add: bit_simps)
qed simp

text \<open>C11: A segment without payload, or with a payload of at most 64 bytes, leaves the engine whole: the
  packet that the three processes form is the IP header, the TCP header with the checksum in its
  place, and the payload, byte for byte; the checksum processes see the pseudo header, the TCP header
  and the payload.\<close>

theorem short_segment_assembled:
  assumes "xp_fsm_state s = READ_PSEUDO" and "xp_tx_tcp_pseudo_full_header s = [pseudo_full_header meta t]"
    and "xp_tx_tcp_packet_contains_payload s = [ps \<noteq> []]" and "xp_tx_tcp_packet_payload s = ps"
    and "ps = [] \<or> is_packet ps \<and> length ps = 1 \<and> \<not> xm_syn meta"
  shows "\<exists>n1 \<le> 3. \<exists>n2 \<le> 4. \<exists>n3 \<le> 4.
     let p = (TxEngConstructPseudoPacket ^^ n1) s;
         r = (TxEngRemovePseudoHeader ^^ n2) (tx_remove_init\<lparr>xr_tx_tcp_pseudo_packet_for_tx_eng :=
             written (xp_tx_tcp_pseudo_packet_for_tx_eng s) (xp_tx_tcp_pseudo_packet_for_tx_eng p)\<rparr>);
         k = (TxEngConstructIpv4Packet ^^ n3) (tx_ip_packet_init\<lparr>xk_tx_ipv4_header := [ipv4_header_word bld n q],
             xk_tx_tcp_checksum := [c], xk_tx_tcp_packet := xr_tx_tcp_packet r\<rparr>);
         seen = written (xp_tx_tcp_pseudo_packet_for_checksum s) (xp_tx_tcp_pseudo_packet_for_checksum p) in
     is_packet (xk_tx_ip_pkt_out k) \<and>
     packet_bytes (xk_tx_ip_pkt_out k) = word_bytes (ipv4_header_word bld n q) @
       put_checksum c (drop 12 (word_bytes (pseudo_full_header meta t))) @ packet_bytes ps \<and>
     is_packet seen \<and> packet_bytes seen = word_bytes (pseudo_full_header meta t) @ packet_bytes ps"
proof -
  let ?h = "pseudo_full_header meta t" and ?ip = "ipv4_header_word bld n q"
  have hl: "length (word_bytes ?h) = 32 + option_bytes meta" "option_bytes meta \<le> 8"
    using header_packet(2) by (simp_all add: option_bytes_def)
  have pl: "length (packet_bytes ps) \<le> 64" "ps \<noteq> [] \<Longrightarrow> option_bytes meta = 0"
  proof -
    show "length (packet_bytes ps) \<le> 64"
    proof (cases "ps = []")
      case False
      then obtain p where p: "ps = [p]" "is_packet [p]" using assms(5) by (cases ps) auto
      then obtain j where "nw_keep p = mask j" "j \<le> 64" by (auto simp: is_packet_Cons)
      then show ?thesis using mask_lanes(2) [of p j] p(1) by simp
    qed simp
  qed (use assms(5) in \<open>auto simp: option_bytes_def\<close>)
  have "\<exists>n1 \<le> 3. \<exists>os. is_packet os \<and> packet_bytes os = word_bytes ?h @ packet_bytes ps \<and>
     xp_tx_tcp_pseudo_packet_for_tx_eng ((TxEngConstructPseudoPacket ^^ n1) s) = xp_tx_tcp_pseudo_packet_for_tx_eng s @ os \<and>
     xp_tx_tcp_pseudo_packet_for_checksum ((TxEngConstructPseudoPacket ^^ n1) s) = xp_tx_tcp_pseudo_packet_for_checksum s @ os"
  proof (cases "ps = []")
    case True
    then show ?thesis
      using header_without_payload [OF assms(1,2)] header_packet(1) assms(3)
      by (intro exI [of _ 1] conjI exI [of _ "[?h]"]) simp_all
  next
    case False
    then obtain p where p: "ps = [p]" "is_packet [p]" using assms(5) by (cases ps) auto
    have "nw_keep ?h = mask 32" using header_keep [of meta t] pl(2) [OF False] by simp
    then show ?thesis
      using header_with_payload [OF assms(1,2), of "[p]" "[]"] assms(3,4) p by (auto simp: numeral_3_eq_3)
  qed
  then obtain n1 os where n1: "n1 \<le> 3" "is_packet os" "packet_bytes os = word_bytes ?h @ packet_bytes ps"
     "xp_tx_tcp_pseudo_packet_for_tx_eng ((TxEngConstructPseudoPacket ^^ n1) s) = xp_tx_tcp_pseudo_packet_for_tx_eng s @ os"
     "xp_tx_tcp_pseudo_packet_for_checksum ((TxEngConstructPseudoPacket ^^ n1) s) = xp_tx_tcp_pseudo_packet_for_checksum s @ os"
    by auto
  have words: "length us \<le> 2" if "is_packet us" "length (packet_bytes us) \<le> 104" for us
  proof -
    have "0 < length (word_bytes (last us))"
      using that(1) packet_not_empty [of "[last us]"] by (simp add: is_packet_def)
    then show ?thesis using packet_length [OF that(1)] that(2) by linarith
  qed
  have len: "length (packet_bytes os) = 32 + option_bytes meta + length (packet_bytes ps)" using n1(3) hl(1) by simp
  have le: "option_bytes meta + length (packet_bytes ps) \<le> 64" using hl(2) pl by (cases "ps = []") auto
  obtain n2 where n2: "n2 \<le> Suc (length os)" and rm: "removed (tx_remove_init\<lparr>xr_tx_tcp_pseudo_packet_for_tx_eng := os\<rparr>) []
      (drop 12 (packet_bytes os)) ((TxEngRemovePseudoHeader ^^ n2) (tx_remove_init\<lparr>xr_tx_tcp_pseudo_packet_for_tx_eng := os\<rparr>))"
    using pseudo_header_removed [of "tx_remove_init\<lparr>xr_tx_tcp_pseudo_packet_for_tx_eng := os\<rparr>" os "[]"] n1(2) len
    by (auto simp: tx_remove_init_def)
  define r where "r = (TxEngRemovePseudoHeader ^^ n2) (tx_remove_init\<lparr>xr_tx_tcp_pseudo_packet_for_tx_eng := os\<rparr>)"
  have r: "is_packet (xr_tx_tcp_packet r)" "packet_bytes (xr_tx_tcp_packet r) = drop 12 (packet_bytes os)"
    using rm by (auto simp: removed_def r_def tx_remove_init_def)
  let ?k = "tx_ip_packet_init\<lparr>xk_tx_ipv4_header := [?ip], xk_tx_tcp_checksum := [c], xk_tx_tcp_packet := xr_tx_tcp_packet r\<rparr>"
  obtain n3 where n3: "n3 \<le> Suc (length (xr_tx_tcp_packet r))"
    and k: "ip_sent ?k [] [] (word_bytes ?ip @ put_checksum c (packet_bytes (xr_tx_tcp_packet r))) ((TxEngConstructIpv4Packet ^^ n3) ?k)"
    using ip_packet_sent [of ?k ?ip "[]" c "[]" "xr_tx_tcp_packet r"] r len le ipv4_header_keep(1)
      short_packet_last [OF r(1)] by (auto simp: tx_ip_packet_init_def)
  have "put_checksum c (packet_bytes (xr_tx_tcp_packet r)) = put_checksum c (drop 12 (word_bytes ?h)) @ packet_bytes ps"
    using put_checksum_append [of "drop 12 (word_bytes ?h)" c "packet_bytes ps"] hl(1) by (simp add: r(2) n1(3))
  moreover have "n2 \<le> 4" "n3 \<le> 4"
    using n2 n3 words [OF n1(2)] words [OF r(1)] len le r(2) by simp_all
  ultimately show ?thesis
    using n1 k by (intro exI [of _ n1] exI [of _ n2] exI [of _ n3] conjI)
      (simp_all add: Let_def r_def [symmetric], auto simp: ip_sent_def tx_ip_packet_init_def)
qed

section \<open>Segments of several payload words\<close>

lemma appended_length:
  "length h = 32 \<Longrightarrow> \<forall>p \<in> set (butlast ps). length p = 64 \<Longrightarrow> length (appended h ps) = 32 + length (concat ps)"
  by (induction h ps rule: appended.induct) auto

lemma appended_starts: "length h = 32 \<Longrightarrow> take 32 (appended h ps) = h"
  by (cases "(h, ps)" rule: appended.cases) auto

lemma appended_repeats:
  assumes "length h = 32" and "length p = 64"
  shows "take 32 (drop 64 (appended h (p # q # ps))) = take 32 p"
  using assms appended_starts [of "take 32 p" "q # ps"] by simp

lemma full_words: "is_packet ws \<Longrightarrow> w \<in> set (butlast ws) \<Longrightarrow> length (word_bytes w) = 64"
  by (induction ws) (auto simp: is_packet_Cons length_full split: if_splits)

text \<open>C38: A payload of more than one word is not what the engine sends.  The packet that the checksum and
  the wire get has the right length, but behind the first 64 bytes, the header and the first 32 bytes of
  the payload, those 32 bytes come once more: the other half of the first payload word is lost.\<close>

theorem long_payload_garbled:
  assumes "xp_fsm_state s = READ_PSEUDO" and "xp_tx_tcp_pseudo_full_header s = [h]"
    and "xp_tx_tcp_packet_contains_payload s = [True]" and "nw_keep h = mask 32"
    and "xp_tx_tcp_packet_payload s = p # q # ws" and "is_packet (p # q # ws)"
  shows "\<exists>n \<le> length ws + 4. \<exists>os. is_packet os \<and>
     xp_tx_tcp_pseudo_packet_for_tx_eng ((TxEngConstructPseudoPacket ^^ n) s) = xp_tx_tcp_pseudo_packet_for_tx_eng s @ os \<and>
     xp_tx_tcp_pseudo_packet_for_checksum ((TxEngConstructPseudoPacket ^^ n) s) = xp_tx_tcp_pseudo_packet_for_checksum s @ os \<and>
     length (packet_bytes os) = 32 + length (packet_bytes (p # q # ws)) \<and>
     take 64 (packet_bytes os) = word_bytes h @ take 32 (word_bytes p) \<and>
     take 32 (drop 64 (packet_bytes os)) = take 32 (word_bytes p)"
proof -
  let ?ps = "map word_bytes (p # q # ws)"
  have h: "length (word_bytes h) = 32" using mask_lanes(2) [OF assms(4)] by simp
  have p: "length (word_bytes p) = 64" using full_words [OF assms(6)] by simp
  have "\<forall>b \<in> set (butlast ?ps). length b = 64" using full_words [OF assms(6)] by (auto simp flip: map_butlast)
  then have "length (appended (word_bytes h) ?ps) = 32 + length (packet_bytes (p # q # ws))"
    using appended_length [OF h, of ?ps] by (simp add: packet_bytes_def del: appended.simps)
  moreover have "take 64 (appended (word_bytes h) ?ps) = word_bytes h @ take 32 (word_bytes p)" using h p by simp
  moreover have "take 32 (drop 64 (appended (word_bytes h) ?ps)) = take 32 (word_bytes p)"
    using appended_repeats [OF h p, of "word_bytes q" "map word_bytes ws"] by simp
  ultimately show ?thesis
    using header_with_payload [OF assms(1-4), of "p # q # ws" "[]"] assms(5,6)
    by (auto simp: numeral_eq_Suc simp del: appended.simps)
qed

text \<open>The state of the IP process after a word of a segment that is not the first.\<close>

lemma payload_words_sent:
  "xk_fsm_state s = IP_READ_PAYLOAD \<Longrightarrow> xk_tx_tcp_packet s = ws \<Longrightarrow> is_packet ws \<Longrightarrow> bit (nw_keep (last ws)) 44 \<Longrightarrow>
   \<exists>os. length os = length ws \<and> (\<forall>v \<in> set os. \<not> nw_last v) \<and>
     xk_tx_ip_pkt_out ((TxEngConstructIpv4Packet ^^ length ws) s) = xk_tx_ip_pkt_out s @ os \<and>
     xk_fsm_state ((TxEngConstructIpv4Packet ^^ length ws) s) = READ_FIRST \<and>
     xk_tx_tcp_packet ((TxEngConstructIpv4Packet ^^ length ws) s) = []"
proof (induction ws arbitrary: s)
  case (Cons w ws)
  let ?t = "TxEngConstructIpv4Packet s"
  let ?v = "(ConcatTwoWords w (xk_prev_word s) tcp_seg_byte_offset NetAXISWord_default)\<lparr>nw_last := False\<rparr>"
  have n: "\<not> (nw_last w \<and> \<not> bit (nw_keep w) 44)" using Cons.prems(3,4) by (auto simp: is_packet_Cons split: if_splits)
  have t: "?t = (ip_read_payload w (s\<lparr>xk_tx_tcp_packet := ws\<rparr>))"
    using Cons.prems(1,2) by (simp add: TxEngConstructIpv4Packet_def)
  have out: "xk_tx_ip_pkt_out ?t = xk_tx_ip_pkt_out s @ [?v]" "xk_tx_tcp_packet ?t = ws"
    using n by (simp_all add: t ip_read_payload_def)
  show ?case
  proof (cases "ws = []")
    case True
    then have "xk_fsm_state ?t = READ_FIRST" using Cons.prems(3) by (simp add: t ip_read_payload_def is_packet_Cons)
    then show ?thesis using True out by (intro exI [of _ "[?v]"]) simp
  next
    case False
    then have w: "\<not> nw_last w" "is_packet ws" using Cons.prems(3) by (simp_all add: is_packet_Cons)
    then have "xk_fsm_state ?t = IP_READ_PAYLOAD" using Cons.prems(1) by (simp add: t ip_read_payload_def)
    then obtain os where os: "length os = length ws" "\<forall>v \<in> set os. \<not> nw_last v"
        "xk_tx_ip_pkt_out ((TxEngConstructIpv4Packet ^^ length ws) ?t) = xk_tx_ip_pkt_out ?t @ os"
        "xk_fsm_state ((TxEngConstructIpv4Packet ^^ length ws) ?t) = READ_FIRST"
        "xk_tx_tcp_packet ((TxEngConstructIpv4Packet ^^ length ws) ?t) = []"
      using Cons.IH [of ?t] out(2) w(2) Cons.prems(4) False by auto
    then show ?thesis using out
      by (intro exI [of _ "?v # os"]) (simp add: funpow_Suc_apply del: funpow.simps)
  qed
qed (simp add: is_packet_def)

text \<open>A segment of several words whose last word has more than 44 bytes never ends on the wire: the
  process goes back to its first state without sending the remaining bytes, and no word it has sent
  carries the end mark.\<close>

theorem long_segment_never_ends:
  assumes "xk_fsm_state s = READ_FIRST" and "xk_tx_ipv4_header s = [h]" and "xk_tx_tcp_checksum s = [c]"
    and "xk_tx_tcp_packet s = w # v # ws" and "is_packet (w # v # ws)" and "bit (nw_keep (last (v # ws))) 44"
  shows "let t = (TxEngConstructIpv4Packet ^^ length (w # v # ws)) s in
     xk_fsm_state t = READ_FIRST \<and> xk_tx_tcp_packet t = [] \<and>
     (\<exists>os. xk_tx_ip_pkt_out t = xk_tx_ip_pkt_out s @ os \<and> length os = length (w # v # ws) \<and> (\<forall>x \<in> set os. \<not> nw_last x))"
proof -
  let ?t = "TxEngConstructIpv4Packet s" and ?f = "first_ip_word h c w"
  have w: "\<not> nw_last w" "is_packet (v # ws)" using assms(5) by (simp_all add: is_packet_Cons [of w])
  have t: "?t = ip_read_first h c w (s\<lparr>xk_tx_ipv4_header := [], xk_tx_tcp_packet := v # ws, xk_tx_tcp_checksum := []\<rparr>)"
    using assms(1-4) by (simp add: TxEngConstructIpv4Packet_def)
  have st: "xk_fsm_state ?t = IP_READ_PAYLOAD" "xk_tx_tcp_packet ?t = v # ws"
      "xk_tx_ip_pkt_out ?t = xk_tx_ip_pkt_out s @ [?f]" "\<not> nw_last ?f"
    using w(1) by (simp_all add: t ip_read_first_def first_ip_word_def)
  obtain os where os: "length os = length (v # ws)" "\<forall>x \<in> set os. \<not> nw_last x"
        "xk_tx_ip_pkt_out ((TxEngConstructIpv4Packet ^^ length (v # ws)) ?t) = xk_tx_ip_pkt_out ?t @ os"
        "xk_fsm_state ((TxEngConstructIpv4Packet ^^ length (v # ws)) ?t) = READ_FIRST"
        "xk_tx_tcp_packet ((TxEngConstructIpv4Packet ^^ length (v # ws)) ?t) = []"
    using payload_words_sent [OF st(1,2) w(2) assms(6)] by blast
  have "(TxEngConstructIpv4Packet ^^ length (w # v # ws)) s = (TxEngConstructIpv4Packet ^^ length (v # ws)) ?t"
    by (simp add: funpow_Suc_apply del: funpow.simps)
  then show ?thesis using os st(3,4) unfolding Let_def
    by (simp del: funpow.simps)
qed

section \<open>Instances\<close>

definition demo_word :: "nat \<Rightarrow> bool \<Rightarrow> NetAXISWord" where
  "demo_word k l = \<lparr>nw_data = 0x48656C6C6F, nw_dest = 0, nw_keep = mask k, nw_last = l\<rparr>"

lemma demo_word_simps [simp]: "nw_keep (demo_word k l) = mask k" "nw_last (demo_word k l) = l"
  by (simp_all add: demo_word_def)

lemma demo_packets: "is_packet [demo_word 5 True]" "is_packet [demo_word 64 False, demo_word 50 True]"
proof -
  have "(mask 5 :: NetAXISKeep) \<in> mask ` {1..64}" "(mask 50 :: NetAXISKeep) \<in> mask ` {1..64}" by (rule imageI; simp)+
  then show "is_packet [demo_word 5 True]" "is_packet [demo_word 64 False, demo_word 50 True]"
    by (simp_all add: is_packet_Cons mask_64 del: mask_eq_exp_minus_1)
qed

definition demo_pseudo :: "NetAXISWord list \<Rightarrow> TxPseudoPkt" where
  "demo_pseudo ps = tx_pseudo_init\<lparr>xp_tx_tcp_pseudo_full_header := [pseudo_full_header TxEngFsmMetaData_default (FourTuple 1 2 3 4)],
     xp_tx_tcp_packet_contains_payload := [ps \<noteq> []], xp_tx_tcp_packet_payload := ps\<rparr>"

lemma demo_pseudo_simps [simp]:
  "xp_fsm_state (demo_pseudo ps) = READ_PSEUDO" "xp_tx_tcp_packet_payload (demo_pseudo ps) = ps"
  "xp_tx_tcp_pseudo_full_header (demo_pseudo ps) = [pseudo_full_header TxEngFsmMetaData_default (FourTuple 1 2 3 4)]"
  "xp_tx_tcp_packet_contains_payload (demo_pseudo ps) = [ps \<noteq> []]"
  "xp_tx_tcp_pseudo_packet_for_tx_eng (demo_pseudo ps) = []" "xp_tx_tcp_pseudo_packet_for_checksum (demo_pseudo ps) = []"
  by (simp_all add: demo_pseudo_def tx_pseudo_init_def)

theorem short_segment_assembled_witness:
  "\<exists>n1 \<le> 3. is_packet (xp_tx_tcp_pseudo_packet_for_checksum ((TxEngConstructPseudoPacket ^^ n1) (demo_pseudo [demo_word 5 True]))) \<and>
     packet_bytes (xp_tx_tcp_pseudo_packet_for_checksum ((TxEngConstructPseudoPacket ^^ n1) (demo_pseudo [demo_word 5 True])))
       = word_bytes (pseudo_full_header TxEngFsmMetaData_default (FourTuple 1 2 3 4)) @ packet_bytes [demo_word 5 True]"
proof -
  have "\<not> xm_syn TxEngFsmMetaData_default" by (simp add: TxEngFsmMetaData_default_def)
  then show ?thesis
    using short_segment_assembled [where s = "demo_pseudo [demo_word 5 True]" and ps = "[demo_word 5 True]"
        and meta = TxEngFsmMetaData_default and t = "FourTuple 1 2 3 4"] demo_packets(1)
    unfolding Let_def by (simp del: packet_bytes_simps) (metis drop_0 list.size(3) written_def)
qed

theorem long_payload_garbled_witness:
  "\<exists>n \<le> 4. \<exists>os. xp_tx_tcp_pseudo_packet_for_tx_eng
       ((TxEngConstructPseudoPacket ^^ n) (demo_pseudo [demo_word 64 False, demo_word 50 True])) = os \<and>
     length (packet_bytes os) = 146 \<and> take 32 (drop 64 (packet_bytes os)) = take 32 (word_bytes (demo_word 64 False))"
proof -
  have "nw_keep (pseudo_full_header TxEngFsmMetaData_default (FourTuple 1 2 3 4)) = mask 32"
    using header_keep [of TxEngFsmMetaData_default "FourTuple 1 2 3 4"]
    by (simp add: option_bytes_def TxEngFsmMetaData_default_def)
  moreover have "length (word_bytes (demo_word 64 False)) = 64" "length (word_bytes (demo_word 50 True)) = 50"
    by (rule mask_lanes(2); simp)+
  ultimately show ?thesis
    using long_payload_garbled [of "demo_pseudo [demo_word 64 False, demo_word 50 True]"
        "pseudo_full_header TxEngFsmMetaData_default (FourTuple 1 2 3 4)" "demo_word 64 False" "demo_word 50 True" "[]"]
      demo_packets(2)
    by (auto simp del: funpow.simps)
qed

theorem long_segment_never_ends_witness:
  "let t = (TxEngConstructIpv4Packet ^^ 2) (tx_ip_packet_init\<lparr>xk_tx_ipv4_header := [ipv4_header_word Simulation 126 (IpAddrPair 1 2)],
        xk_tx_tcp_checksum := [0xABCD], xk_tx_tcp_packet := [demo_word 64 False, demo_word 50 True]\<rparr>) in
     xk_fsm_state t = READ_FIRST \<and> length (xk_tx_ip_pkt_out t) = 2 \<and> (\<forall>x \<in> set (xk_tx_ip_pkt_out t). \<not> nw_last x)"
  using long_segment_never_ends [of "tx_ip_packet_init\<lparr>xk_tx_ipv4_header := [ipv4_header_word Simulation 126 (IpAddrPair 1 2)],
        xk_tx_tcp_checksum := [0xABCD], xk_tx_tcp_packet := [demo_word 64 False, demo_word 50 True]\<rparr>"
      "ipv4_header_word Simulation 126 (IpAddrPair 1 2)" "0xABCD" "demo_word 64 False" "demo_word 50 True" "[]"]
    demo_packets(2)
  by (auto simp: tx_ip_packet_init_def Let_def bit_simps numeral_2_eq_2 simp del: funpow.simps)

end
