(* ===== verification/Tx_Wire.thy ===== *)
theory Tx_Wire
  imports Tx_Packet
begin

text \<open>
  What the bytes that the transmit engine sends mean to a receiver: the checksum that the engine puts into
  a segment makes the segment add up, and the receive engine reconstructs the very bytes that the checksum
  was computed over.
\<close>

section \<open>The checksum completes the segment\<close>

lemma weights_update:
  assumes "i < length bs" and "bs ! i = 0"
  shows "sum_list (be_words (bs[i := b])) = sum_list (be_words bs) + (if even i then 256 else 1) * unat b"
proof -
  have "(\<Sum>k < length bs. (if even k then 256 else 1) * unat (bs[i := b] ! k))
      = (\<Sum>k < length bs. (if even k then 256 else 1) * unat (bs ! k) + (if k = i then (if even i then 256 else 1) * unat b else 0))"
    using assms by (intro sum.cong refl) (auto simp: nth_list_update)
  also have "\<dots> = (\<Sum>k < length bs. (if even k then 256 else 1) * unat (bs ! k)) + (if even i then 256 else 1) * unat b"
    using assms(1) by (simp add: sum.distrib)
  finally show ?thesis by (simp add: be_words_weights)
qed

lemma oc_completed: "0 < s \<Longrightarrow> oc (s + (65535 - oc s)) = 65535"
proof -
  assume "0 < s"
  then have "s = oc s + 65535 * ((s - 1) div 65535)"
    using mult_div_mod_eq [of 65535 "s - 1"] by (simp only: oc_def neq0_conv [symmetric] if_False)
  then have "s + (65535 - oc s) = 65535 * Suc ((s - 1) div 65535)" using oc_bound [of s] by simp
  then show ?thesis by (simp only: oc_full) (metis dvd_triv_left mult_is_0 nat.distinct(1) neq0_conv zero_neq_numeral)
qed

lemma completed_checksum:
  assumes "32 \<le> length bs" and "bs ! 28 = 0" and "bs ! 29 = 0" and "bs ! 30 = 0" and "0 < sum_list (be_words bs)"
  shows "ones_complement_sum (take 12 bs @ put_checksum (NOT (word_of_nat (ones_complement_sum bs))) (drop 12 bs)) = 65535"
proof -
  let ?c = "NOT (word_of_nat (ones_complement_sum bs)) :: 16 word"
  have c: "unat ?c = 65535 - oc (sum_list (be_words bs))"
    using oc_bound [of "sum_list (be_words bs)"] by (simp add: unat_NOT_16 ones_complement_sum_oc unat_of_nat)
  have "take 12 bs @ put_checksum ?c (drop 12 bs) = bs[28 := get_range 8 ?c, 29 := get_range 0 ?c]"
  proof (rule nth_equalityI)
    show "length (take 12 bs @ put_checksum ?c (drop 12 bs)) = length (bs[28 := get_range 8 ?c, 29 := get_range 0 ?c])"
      using assms(1) by simp
    fix i
    assume "i < length (take 12 bs @ put_checksum ?c (drop 12 bs))"
    then show "(take 12 bs @ put_checksum ?c (drop 12 bs)) ! i = bs[28 := get_range 8 ?c, 29 := get_range 0 ?c] ! i"
      using assms(1,4) by (cases "i = 30") (auto simp: nth_append put_checksum_def nth_list_update)
  qed
  moreover have "sum_list (be_words (bs[28 := get_range 8 ?c, 29 := get_range 0 ?c])) = sum_list (be_words bs) + unat ?c"
    using assms(1-3) unat_of_bytes_16 [of ?c] by (simp add: weights_update del: unat_NOT_16)
  ultimately show ?thesis using oc_completed [OF assms(5)] c by (simp only: ones_complement_sum_oc)
qed

section \<open>The bytes of the header\<close>

lemma header_byte:
  assumes "i < 32"
  shows "word_bytes (pseudo_full_header meta t) ! i = get_range (8 * i) (nw_data (pseudo_full_header meta t))"
  using assms mask_lanes(2) [OF header_keep, of meta t]
  by (simp add: word_bytes_mask [OF header_keep] word_byte_def option_bytes_def)

lemma header_zero_bytes:
  fixes meta t
  defines "d \<equiv> nw_data (pseudo_full_header meta t)"
  shows "(get_range 64 d :: 8 word) = 0" and "(get_range 72 d :: 8 word) = 6" and "(get_range 224 d :: 8 word) = 0"
    and "(get_range 232 d :: 8 word) = 0" and "(get_range 240 d :: 8 word) = 0"
proof -
  have "(get_range 0 (0x0600 :: 16 word) :: 8 word) = 0" "(get_range 8 (0x0600 :: 16 word) :: 8 word) = 6"
      "(get_range k (0 :: 32 word) :: 8 word) = 0" for k
    by (simp_all add: get_range_def drop_bit_word_numeral)
  then show "(get_range 64 d :: 8 word) = 0" "(get_range 72 d :: 8 word) = 6" "(get_range 224 d :: 8 word) = 0"
    "(get_range 232 d :: 8 word) = 0" "(get_range 240 d :: 8 word) = 0"
    by (simp_all add: d_def pseudo_full_header_def put_syn_options_def Let_def get_put_range_disjoint get_put_range_inside
        NetAXISWord_default_def cong: if_cong)
qed

text \<open>The first twelve bytes of the header are the pseudo header that a receiver makes from the IP header.\<close>

lemma pseudo_header_prefix:
  "take 12 (word_bytes (pseudo_full_header meta t)) =
     map (\<lambda>i. get_range (8 * i) (src_ip_addr t)) [0..<4] @ map (\<lambda>i. get_range (8 * i) (dst_ip_addr t)) [0..<4] @
     [0, 6, get_range 8 (xm_length meta + 20), get_range 0 (xm_length meta + 20)]"
proof -
  let ?d = "nw_data (pseudo_full_header meta t)"
  have b: "(get_range (8 * i) (get_range 0 ?d :: 32 word) :: 8 word) = get_range (8 * i) ?d"
      "(get_range (8 * i) (get_range 32 ?d :: 32 word) :: 8 word) = get_range (8 * i + 32) ?d" if "i < 4" for i
    using that by (simp_all add: get_range_get_range)
  have len: "(get_range 0 (get_range 80 ?d :: 16 word) :: 8 word) = get_range 80 ?d"
      "(get_range 8 (get_range 80 ?d :: 16 word) :: 8 word) = get_range 88 ?d"
    by (simp_all add: get_range_get_range)
  have "12 \<le> length (word_bytes (pseudo_full_header meta t))" using header_packet(2) [of meta t] by simp
  then have "take 12 (word_bytes (pseudo_full_header meta t)) = map (\<lambda>i. get_range (8 * i) ?d) [0..<12]"
    using take_drop_nth [of 0 12 "word_bytes (pseudo_full_header meta t)"] header_byte by simp
  also have "\<dots> = map (\<lambda>i. get_range (8 * i) ?d) [0..<4] @ map (\<lambda>i. get_range (8 * i + 32) ?d) [0..<4] @
      [get_range 64 ?d, get_range 72 ?d, get_range 80 ?d, get_range 88 ?d]"
    by (simp add: upt_rec)
  also have "map (\<lambda>i. get_range (8 * i) ?d :: 8 word) [0..<4] = map (\<lambda>i. get_range (8 * i) (src_ip_addr t)) [0..<4]"
    using b(1) by (simp add: header_fields(1))
  also have "map (\<lambda>i. get_range (8 * i + 32) ?d :: 8 word) [0..<4] = map (\<lambda>i. get_range (8 * i) (dst_ip_addr t)) [0..<4]"
    using b(2) by (simp add: header_fields(2))
  finally show ?thesis
    using len by (simp add: header_zero_bytes header_fields(3) byte_SwapByte_16)
qed

lemma received_segment:
  assumes "xm_length meta = word_of_nat n" and "n + 40 < 65536" and "length xs = n + 20"
  shows "tcp_segment_of (word_bytes (ipv4_header_word bld (xm_length meta) (IpAddrPair (src_ip_addr t) (dst_ip_addr t))) @ xs)
     = take 12 (word_bytes (pseudo_full_header meta t)) @ xs"
proof -
  let ?w = "ipv4_header_word bld (xm_length meta) (IpAddrPair (src_ip_addr t) (dst_ip_addr t))"
  note keep = ipv4_header_keep(1) [of bld "xm_length meta" "IpAddrPair (src_ip_addr t) (dst_ip_addr t)"]
    and f = ipv4_header_fields [of bld "xm_length meta" "IpAddrPair (src_ip_addr t) (dst_ip_addr t)"]
  let ?bs = "word_bytes ?w @ xs"
  have len: "length (word_bytes ?w) = 20" by (simp add: word_bytes_mask [OF keep])
  have nth: "?bs ! i = get_range (8 * i) (nw_data ?w)" if "i < 20" for i
    using that len by (simp add: nth_append) (simp add: word_bytes_mask [OF keep] word_byte_def)
  have total: "256 * unat (?bs ! 2) + unat (?bs ! 3) = n + 40"
  proof -
    have "256 * unat (?bs ! 2) + unat (?bs ! 3) = unat (xm_length meta + 40)"
      using nth [of 2] nth [of 3] f(2,3) unat_of_bytes_16 [of "xm_length meta + 40"] by simp
    moreover have "xm_length meta + 40 = word_of_nat (n + 40)" by (simp add: assms(1))
    ultimately show ?thesis using assms(2) by (simp only:) (simp add: unat_of_nat del: of_nat_add)
  qed
  have ihl: "4 * unat (?bs ! 0 AND 0xF) = 20" using nth [of 0] f(1) by simp
  have ips: "take 8 (drop 12 ?bs) = map (\<lambda>i. get_range (8 * i) (src_ip_addr t)) [0..<4] @ map (\<lambda>i. get_range (8 * i) (dst_ip_addr t)) [0..<4]"
  proof -
    have s: "(get_range (8 * i) (src_ip_addr t) :: 8 word) = get_range (8 * i + 96) (nw_data ?w)"
        "(get_range (8 * i) (dst_ip_addr t) :: 8 word) = get_range (8 * i + 128) (nw_data ?w)" if "i < 4" for i
      using that f(5,6) by (simp_all flip: get_range_get_range [where 'b = 32])
    have "take 8 (drop 12 ?bs) = map (\<lambda>i. ?bs ! (12 + i)) [0..<8]" using len by (intro take_drop_nth) simp
    also have "\<dots> = map (\<lambda>i. get_range (8 * i + 96) (nw_data ?w)) [0..<8]" using nth by (simp add: algebra_simps)
    also have "\<dots> = map (\<lambda>i. get_range (8 * i + 96) (nw_data ?w)) [0..<4] @ map (\<lambda>i. get_range (8 * i + 128) (nw_data ?w)) [0..<4]"
      by (simp add: upt_rec)
    finally show ?thesis by (simp add: s)
  qed
  have l: "xm_length meta + 20 = word_of_nat (n + 20)" by (simp add: assms(1))
  have b: "(get_range 8 (word_of_nat (n + 20) :: 16 word) :: 8 word) = word_of_nat ((n + 20) div 256)"
      "(get_range 0 (word_of_nat (n + 20) :: 16 word) :: 8 word) = word_of_nat ((n + 20) mod 256)"
    using assms(2) by (intro bytes_of_16; simp)+
  have "tcp_segment_of ?bs = take 8 (drop 12 ?bs) @ [0, 6, word_of_nat ((n + 20) div 256), word_of_nat ((n + 20) mod 256)] @ xs"
    unfolding tcp_segment_of_def Let_def ihl total using len by (simp add: add.commute [of n])
  then show ?thesis unfolding ips pseudo_header_prefix l b by simp
qed

lemma sent_segment_valid:
  assumes "xm_length meta = word_of_nat (option_bytes meta + length ps)" and "length ps \<le> 64"
    and "c = NOT (word_of_nat (ones_complement_sum (word_bytes (pseudo_full_header meta t) @ ps)))"
  shows "let hdr = word_bytes (pseudo_full_header meta t);
       bs = word_bytes (ipv4_header_word bld (xm_length meta) (IpAddrPair (src_ip_addr t) (dst_ip_addr t))) @
         put_checksum c (drop 12 hdr) @ ps in
     tcp_segment_of bs = take 12 hdr @ put_checksum c (drop 12 hdr) @ ps \<and> ones_complement_sum (tcp_segment_of bs) = 65535"
proof -
  define hdr where "hdr = word_bytes (pseudo_full_header meta t)"
  define ip where "ip = word_bytes (ipv4_header_word bld (xm_length meta) (IpAddrPair (src_ip_addr t) (dst_ip_addr t)))"
  have len: "length hdr = 32 + option_bytes meta" "option_bytes meta \<le> 8"
    using header_packet(2) by (simp_all add: hdr_def option_bytes_def)
  have seg: "tcp_segment_of (ip @ put_checksum c (drop 12 hdr) @ ps) = take 12 hdr @ put_checksum c (drop 12 hdr) @ ps"
    unfolding ip_def hdr_def
    by (rule received_segment [OF assms(1)]) (use len assms(2) in \<open>simp_all add: hdr_def\<close>)
  let ?b = "hdr @ ps"
  have b: "?b ! 28 = 0" "?b ! 29 = 0" "?b ! 30 = 0" "?b ! 9 = 6"
    using header_byte [of 28 meta t] header_byte [of 29 meta t] header_byte [of 30 meta t] header_byte [of 9 meta t] len
    by (simp_all add: nth_append hdr_def header_zero_bytes)
  have "0 < sum_list (be_words ?b)"
  proof -
    have "unat (?b ! 9) \<le> (\<Sum>i < length ?b. (if even i then 256 else 1) * unat (?b ! i))"
      using member_le_sum [of 9 "{..<length ?b}" "\<lambda>i. (if even i then 256 else 1) * unat (?b ! i)"] len by simp
    then show ?thesis unfolding be_words_weights using b(4) by simp
  qed
  then have "ones_complement_sum (take 12 ?b @ put_checksum c (drop 12 ?b)) = 65535"
    unfolding assms(3) hdr_def [symmetric] using b len by (intro completed_checksum) simp_all
  moreover have "take 12 ?b @ put_checksum c (drop 12 ?b) = take 12 hdr @ put_checksum c (drop 12 hdr) @ ps"
    using len put_checksum_append [of "drop 12 hdr" c ps] by simp
  ultimately show ?thesis using seg unfolding Let_def hdr_def [symmetric] ip_def [symmetric] by simp
qed

text \<open>C12: What the engine sends is what a receiver checks: for a segment with the options of a \<open>SYN\<close> or a payload
  of at most 64 bytes, the checksum computed over pseudo header, TCP header and payload, put into the TCP
  header behind the IP header, makes the segment add up at the receiver, which rebuilds the pseudo header
  from the IP header alone.\<close>

theorem sent_segment_is_valid:
  assumes "xm_length meta = word_of_nat (option_bytes meta + length ps)" and "length ps \<le> 64"
    and "c = NOT (word_of_nat (ones_complement_sum (word_bytes (pseudo_full_header meta t) @ ps)))"
  shows "let hdr = word_bytes (pseudo_full_header meta t);
       bs = word_bytes (ipv4_header_word bld (xm_length meta) (IpAddrPair (src_ip_addr t) (dst_ip_addr t))) @
         put_checksum c (drop 12 hdr) @ ps in
     tcp_segment_of bs = take 12 hdr @ put_checksum c (drop 12 hdr) @ ps \<and> ones_complement_sum (tcp_segment_of bs) = 65535"
  using assms by (rule sent_segment_valid)

theorem sent_segment_is_valid_witness:
  "ones_complement_sum (tcp_segment_of (word_bytes (ipv4_header_word Simulation 8 (IpAddrPair 1 2)) @
     put_checksum (NOT (word_of_nat (ones_complement_sum (word_bytes (pseudo_full_header tx_demo_syn (FourTuple 1 2 3 4))))))
       (drop 12 (word_bytes (pseudo_full_header tx_demo_syn (FourTuple 1 2 3 4)))))) = 65535"
proof -
  have l: "xm_length tx_demo_syn = 8" "option_bytes tx_demo_syn = 8"
    by (simp_all add: tx_demo_syn_def TxEngFsmMetaData_default_def option_bytes_def)
  have "xm_length tx_demo_syn = word_of_nat (option_bytes tx_demo_syn + length ([] :: 8 word list))" by (simp add: l)
  from conjunct2 [OF sent_segment_is_valid [OF this _ refl, where t = "FourTuple 1 2 3 4" and bld = Simulation, unfolded Let_def]]
  show ?thesis by (simp add: l)
qed

end
