(* ===== verification/Sar_Tables.thy ===== *)
theory Sar_Tables
  imports Toe_Types
begin

text \<open>
  The sliding windows: \<open>rx_sar_table/rx_sar_table.cpp\<close> (what was received, what the application
  has read) and \<open>tx_sar_table/tx_sar_table.cpp\<close> (what was acknowledged, sent and written).
  Sequence numbers have 32 bits, buffer positions 18; the assignments of the source truncate, so
  every stored value is a word, and every theorem on windows reads it back as a number.
\<close>

section \<open>Receive window\<close>

record RxSar =
  rs_table :: "TcpSessionID \<Rightarrow> RxSarTableEntry"
  rs_rx_app_to_rx_sar_req :: "RxSarAppReqRsp stream"
  rs_rx_sar_to_rx_app_rsp :: "RxSarAppReqRsp stream"
  rs_rx_eng_to_rx_sar_req :: "RxEngToRxSarReq stream"
  rs_rx_sar_to_rx_eng_rsp :: "RxSarTableEntry stream"
  rs_tx_eng_to_rx_sar_lup_req :: "TcpSessionID stream"
  rs_rx_sar_to_tx_eng_lup_rsp :: "RxSarLookupRsp stream"

definition session_actual_win_size :: "RxSarTableEntry \<Rightarrow> TcpSessionBuffer" where
  "session_actual_win_size entry = (rxe_app_read entry - get_range 0 (rxe_recvd entry)) - 1"

definition rx_sar_lookup :: "RxSarTableEntry \<Rightarrow> RxSarLookupRsp" where
  "rx_sar_lookup entry =
     \<lparr>rxl_recvd = rxe_recvd entry, rxl_win_shift = rxe_win_shift entry,
      rxl_win_size = ucast (drop_bit (unat (rxe_win_shift entry)) (session_actual_win_size entry))\<rparr>"

definition rx_sar_app_access :: "RxSarAppReqRsp \<Rightarrow> RxSar \<Rightarrow> RxSar" where
  "rx_sar_app_access req s =
     (let sid = rxa_session_id req; entry = rs_table s sid in
      if rxa_write req
      then s\<lparr>rs_table := (rs_table s)(sid := entry\<lparr>rxe_app_read := rxa_app_read req\<rparr>)\<rparr>
      else s\<lparr>rs_rx_sar_to_rx_app_rsp :=
               rs_rx_sar_to_rx_app_rsp s @ [RxSarAppReqRsp_write sid (rxe_app_read entry)]\<rparr>)"

definition rx_sar_update :: "RxEngToRxSarReq \<Rightarrow> RxSarTableEntry \<Rightarrow> RxSarTableEntry" where
  "rx_sar_update req entry =
     (let entry = entry\<lparr>rxe_recvd := rxr_recvd req\<rparr> in
      if rxr_init req
      then entry\<lparr>rxe_app_read := ucast (rxr_recvd req), rxe_win_shift := rxr_win_shift req\<rparr>
      else entry)"

definition rx_sar_eng_access :: "RxEngToRxSarReq \<Rightarrow> RxSar \<Rightarrow> RxSar" where
  "rx_sar_eng_access req s =
     (let sid = rxr_session_id req in
      if rxr_write req
      then s\<lparr>rs_table := (rs_table s)(sid := rx_sar_update req (rs_table s sid))\<rparr>
      else s\<lparr>rs_rx_sar_to_rx_eng_rsp := rs_rx_sar_to_rx_eng_rsp s @ [rs_table s sid]\<rparr>)"

definition rx_sar_table :: "RxSar \<Rightarrow> RxSar" where
  "rx_sar_table s =
     (case rs_tx_eng_to_rx_sar_lup_req s of
        sid # lup \<Rightarrow>
          s\<lparr>rs_tx_eng_to_rx_sar_lup_req := lup,
            rs_rx_sar_to_tx_eng_lup_rsp :=
              rs_rx_sar_to_tx_eng_lup_rsp s @ [rx_sar_lookup (rs_table s sid)]\<rparr>
      | [] \<Rightarrow>
        (case rs_rx_app_to_rx_sar_req s of
           req # app \<Rightarrow> rx_sar_app_access req (s\<lparr>rs_rx_app_to_rx_sar_req := app\<rparr>)
         | [] \<Rightarrow>
           (case rs_rx_eng_to_rx_sar_req s of
              req # eng \<Rightarrow> rx_sar_eng_access req (s\<lparr>rs_rx_eng_to_rx_sar_req := eng\<rparr>)
            | [] \<Rightarrow> s)))"

section \<open>Transmit window\<close>

record TxSar =
  ts_table :: "TcpSessionID \<Rightarrow> TxSarTableEntry"
  ts_tx_app_to_tx_sar_upd_req :: "TxAppToTxSarReq stream"
  ts_rx_eng_to_tx_sar_req :: "RxEngToTxSarReq stream"
  ts_tx_sar_to_rx_eng_rsp :: "TxSarToRxEngRsp stream"
  ts_tx_eng_to_tx_sar_req :: "TxEngToTxSarReq stream"
  ts_tx_sar_to_tx_eng_rsp :: "TxSarToTxEngRsp stream"
  ts_tx_sar_to_tx_app_upd_req :: "TxSarToTxAppReq stream"

text \<open>
  \<open>scaled_recv_window(win_shift + 15, win_shift) = recv_window\<close> on a zeroed 18 bit value.  The
  field fits for shifts up to 2, the scale this design negotiates; a shift of 3 would address a
  bit that the value does not have.
\<close>

definition scaled_recv_window :: "TxSarTableEntry \<Rightarrow> TcpSessionBuffer" where
  "scaled_recv_window entry = put_range (unat (txe_win_shift entry)) (txe_recv_window entry) 0"

definition tx_sar_min_win :: "TxSarTableEntry \<Rightarrow> TcpSessionBuffer" where
  "tx_sar_min_win entry =
     (if txe_cong_window entry < scaled_recv_window entry
      then txe_cong_window entry else scaled_recv_window entry)"

definition tx_sar_lookup :: "TxSarTableEntry \<Rightarrow> TxSarToTxEngRsp" where
  "tx_sar_lookup entry =
     (let sent = get_range 0 (txe_not_ackd entry);
          curr_length = txe_app_written entry - sent;
          used_length = sent - ucast (txe_ackd entry);
          min_win = tx_sar_min_win entry in
      TxSarToTxEngRsp_default
        \<lparr>tte_ackd := txe_ackd entry,
         tte_not_ackd := txe_not_ackd entry,
         tte_app_written := txe_app_written entry,
         tte_fin_is_ready := txe_fin_is_ready entry,
         tte_fin_is_sent := txe_fin_is_sent entry,
         tte_curr_length := curr_length,
         tte_used_length := used_length,
         tte_used_length_rst := sent - ucast (txe_ackd entry) - of_bool (txe_fin_is_sent entry),
         tte_ackd_eq_not_ackd := (txe_ackd entry = txe_not_ackd entry),
         tte_not_ackd_plus_mss := txe_not_ackd entry + word_of_int TCP_MSS,
         tte_win_shift := ucast (txe_win_shift entry),
         tte_usable_window := (if used_length < min_win then min_win - used_length else 0),
         tte_min_window := min_win,
         tte_not_ackd_short := txe_not_ackd entry + ucast curr_length\<rparr>)"

definition tx_sar_tx_eng_write :: "TxEngToTxSarReq \<Rightarrow> TxSarTableEntry \<Rightarrow> TxSarTableEntry" where
  "tx_sar_tx_eng_write req entry =
     (if \<not> ttr_retrans_req req then
        (let e1 = entry\<lparr>txe_not_ackd := ttr_not_ackd req\<rparr>;
             e2 = (if ttr_init req then
                     e1\<lparr>txe_app_written := ucast (ttr_not_ackd req),
                        txe_ackd := ttr_not_ackd req - 1,
                        txe_cong_window := TCP_MSS_TEN_TIMES,
                        txe_slowstart_threshold := word_of_int (BUFFER_SIZE - 1),
                        txe_fin_is_ready := ttr_fin_is_ready req,
                        txe_fin_is_sent := ttr_fin_is_sent req\<rparr>
                   else e1);
             e3 = (if ttr_fin_is_ready req then e2\<lparr>txe_fin_is_ready := ttr_fin_is_ready req\<rparr> else e2)
         in if ttr_fin_is_sent req then e3\<lparr>txe_fin_is_sent := ttr_fin_is_sent req\<rparr> else e3)
      else
        entry\<lparr>txe_slowstart_threshold := get_threshold req,
              txe_cong_window := TCP_MSS_TEN_TIMES\<rparr>)"

definition tx_sar_tx_eng_access :: "TxEngToTxSarReq \<Rightarrow> TxSar \<Rightarrow> TxSar" where
  "tx_sar_tx_eng_access req s =
     (let sid = ttr_session_id req in
      if ttr_write req then
        s\<lparr>ts_table := (ts_table s)(sid := tx_sar_tx_eng_write req (ts_table s sid)),
          ts_tx_sar_to_tx_app_upd_req := ts_tx_sar_to_tx_app_upd_req s @
            (if \<not> ttr_retrans_req req \<and> ttr_init req
             then [TxSarToTxAppReq_init sid (ucast (ttr_not_ackd req)) True] else [])\<rparr>
      else
        s\<lparr>ts_tx_sar_to_tx_eng_rsp := ts_tx_sar_to_tx_eng_rsp s @ [tx_sar_lookup (ts_table s sid)]\<rparr>)"

definition tx_sar_tx_app_update :: "TxAppToTxSarReq \<Rightarrow> TxSar \<Rightarrow> TxSar" where
  "tx_sar_tx_app_update req s =
     (let sid = tas_session_id req in
      s\<lparr>ts_table := (ts_table s)
          (sid := (ts_table s sid)\<lparr>txe_app_written := tas_app_written req\<rparr>)\<rparr>)"

definition tx_sar_rx_eng_write :: "RxEngToTxSarReq \<Rightarrow> TxSarTableEntry \<Rightarrow> TxSarTableEntry" where
  "tx_sar_rx_eng_write req entry =
     (if rts_win_shift_write req then entry\<lparr>txe_win_shift := rts_win_shift req\<rparr> else entry)
       \<lparr>txe_ackd := rts_ackd req,
        txe_recv_window := rts_recv_window req,
        txe_cong_window := rts_cong_window req,
        txe_retrans_count := rts_retrans_count req,
        txe_fast_retrans := rts_fast_retrans req\<rparr>"

definition tx_sar_rx_eng_rsp :: "TxSarTableEntry \<Rightarrow> TxSarToRxEngRsp" where
  "tx_sar_rx_eng_rsp entry =
     \<lparr>trr_perv_ack = txe_ackd entry, trr_next_byte = txe_not_ackd entry,
      trr_cong_window = txe_cong_window entry,
      trr_slowstart_threshold = txe_slowstart_threshold entry,
      trr_retrans_count = txe_retrans_count entry, trr_fast_retrans = txe_fast_retrans entry,
      trr_win_shift = txe_win_shift entry\<rparr>"

definition tx_sar_rx_eng_access :: "RxEngToTxSarReq \<Rightarrow> TxSar \<Rightarrow> TxSar" where
  "tx_sar_rx_eng_access req s =
     (let sid = rts_session_id req in
      if rts_write req then
        s\<lparr>ts_table := (ts_table s)(sid := tx_sar_rx_eng_write req (ts_table s sid)),
          ts_tx_sar_to_tx_app_upd_req := ts_tx_sar_to_tx_app_upd_req s @
            [TxSarToTxAppReq_ackd sid (ucast (rts_ackd req))]\<rparr>
      else
        s\<lparr>ts_tx_sar_to_rx_eng_rsp := ts_tx_sar_to_rx_eng_rsp s @ [tx_sar_rx_eng_rsp (ts_table s sid)]\<rparr>)"

definition tx_sar_table :: "TxSar \<Rightarrow> TxSar" where
  "tx_sar_table s =
     (case ts_tx_eng_to_tx_sar_req s of
        req # eng \<Rightarrow> tx_sar_tx_eng_access req (s\<lparr>ts_tx_eng_to_tx_sar_req := eng\<rparr>)
      | [] \<Rightarrow>
        (case ts_tx_app_to_tx_sar_upd_req s of
           req # app \<Rightarrow> tx_sar_tx_app_update req (s\<lparr>ts_tx_app_to_tx_sar_upd_req := app\<rparr>)
         | [] \<Rightarrow>
           (case ts_rx_eng_to_tx_sar_req s of
              req # rx \<Rightarrow> tx_sar_rx_eng_access req (s\<lparr>ts_rx_eng_to_tx_sar_req := rx\<rparr>)
            | [] \<Rightarrow> s)))"

section \<open>Windows as numbers\<close>

text \<open>The bytes in flight and the peer's window of an entry of the transmit table; the bytes that
  wait for the application in an entry of the receive table.\<close>

definition in_flight :: "TxSarTableEntry \<Rightarrow> int" where
  "in_flight e = (uint (txe_not_ackd e) - uint (txe_ackd e)) mod BUFFER_SIZE"

definition peer_window :: "TxSarTableEntry \<Rightarrow> int" where
  "peer_window e = uint (txe_recv_window e) * 2 ^ unat (txe_win_shift e)"

definition rx_buffered :: "RxSarTableEntry \<Rightarrow> int" where
  "rx_buffered e = (uint (rxe_recvd e) - uint (rxe_app_read e)) mod BUFFER_SIZE"

lemma used_length: "uint (tte_used_length (tx_sar_lookup e)) = in_flight e"
  by (simp add: tx_sar_lookup_def in_flight_def Let_def uint_get_range uint_word_ariths
      TxSarToTxEngRsp_default_def unsigned_ucast_eq take_bit_eq_mod mod_diff_eq)

lemma min_window:
  assumes "txe_win_shift e \<noteq> 3"
  shows "uint (tx_sar_min_win e) = min (uint (txe_cong_window e)) (peer_window e)"
proof -
  have "unat (txe_win_shift e) < 2 ^ LENGTH(2)" by (rule unsigned_less)
  moreover have "unat (txe_win_shift e) \<noteq> 3"
    using assms word_unat_eq_iff [of "txe_win_shift e" 3] by simp
  ultimately have "unat (txe_win_shift e) + LENGTH(16) \<le> LENGTH(18)" by simp
  then have "uint (scaled_recv_window e) = peer_window e"
    unfolding scaled_recv_window_def peer_window_def by (rule uint_put_range_zero)
  then show ?thesis
    by (auto simp: tx_sar_min_win_def word_less_def min_def)
qed

text \<open>The window the transmit engine is given: the smaller of the congestion window and the
  peer's scaled window, less the bytes in flight, and nothing when more is in flight than the
  window allows.  No subtraction wraps.\<close>

theorem tx_usable_window:
  assumes "txe_win_shift e \<noteq> 3"
  shows "uint (tte_min_window (tx_sar_lookup e)) = min (uint (txe_cong_window e)) (peer_window e)
       \<and> uint (tte_used_length (tx_sar_lookup e)) = in_flight e
       \<and> uint (tte_usable_window (tx_sar_lookup e))
         = max 0 (min (uint (txe_cong_window e)) (peer_window e) - in_flight e)"
proof -
  have m: "tte_min_window (tx_sar_lookup e) = tx_sar_min_win e"
    by (simp add: tx_sar_lookup_def Let_def TxSarToTxEngRsp_default_def)
  have u: "tte_usable_window (tx_sar_lookup e)
     = (if tte_used_length (tx_sar_lookup e) < tx_sar_min_win e
        then tx_sar_min_win e - tte_used_length (tx_sar_lookup e) else 0)"
    by (simp add: tx_sar_lookup_def Let_def TxSarToTxEngRsp_default_def)
  have "uint (tte_usable_window (tx_sar_lookup e))
     = max 0 (uint (tx_sar_min_win e) - in_flight e)"
    unfolding u by (auto simp: word_less_def used_length uint_sub_if_size uint_minus_simple_iff)
  then show ?thesis by (simp add: m min_window [OF assms] used_length)
qed

definition tx_sar_demo_entry :: TxSarTableEntry where
  "tx_sar_demo_entry =
     \<lparr>txe_ackd = 0xFFFFFFF0, txe_not_ackd = 16, txe_recv_window = 1000, txe_app_written = 500,
      txe_cong_window = 14600, txe_slowstart_threshold = 262143, txe_win_shift = 2,
      txe_retrans_count = 0, txe_fast_retrans = False, txe_fin_is_ready = False,
      txe_fin_is_sent = False\<rparr>"

theorem tx_usable_window_witness:
  "uint (tte_usable_window (tx_sar_lookup tx_sar_demo_entry)) = 3968
   \<and> uint (tte_used_length (tx_sar_lookup tx_sar_demo_entry)) = 32"
  using tx_usable_window [of tx_sar_demo_entry]
  by (simp add: tx_sar_demo_entry_def in_flight_def peer_window_def)

text \<open>The end of the unsent data that the transmit engine is given, \<open>not_ackd\<close> plus the
  current length, is the position up to which the application has written, for every entry and
  across the wrap of the sequence numbers.\<close>

theorem tx_send_up_to_app_written:
  "ucast (tte_not_ackd_short (tx_sar_lookup e)) = txe_app_written e
   \<and> tte_not_ackd_short (tx_sar_lookup e)
     = tte_not_ackd (tx_sar_lookup e) + ucast (tte_curr_length (tx_sar_lookup e))"
  by (simp add: tx_sar_lookup_def Let_def TxSarToTxEngRsp_default_def word_uint_eq_iff
      uint_word_ariths unsigned_ucast_eq take_bit_eq_mod uint_get_range mod_mod_cancel mod_simps)
    (use uint_lt2p [of "txe_app_written e"] in simp)

lemma actual_win_size: "uint (session_actual_win_size e) = BUFFER_SIZE - 1 - rx_buffered e"
proof -
  have "uint (session_actual_win_size e)
      = (- (uint (rxe_recvd e) - uint (rxe_app_read e)) - 1) mod BUFFER_SIZE"
    by (simp add: session_actual_win_size_def uint_word_ariths uint_get_range mod_simps)
  also have "\<dots> = BUFFER_SIZE - 1 - (uint (rxe_recvd e) - uint (rxe_app_read e)) mod BUFFER_SIZE"
    by (rule mod_complement) simp
  finally show ?thesis by (simp only: rx_buffered_def)
qed

text \<open>C30: The window field of an outgoing segment is the free part of the receive buffer, one byte
  kept back, shifted by the negotiated scale and cut to 16 bits; read with that scale it never
  promises the peer more than the buffer can take.\<close>

theorem rx_advertised_window:
  "uint (rxl_win_size (rx_sar_lookup e))
     = ((BUFFER_SIZE - 1 - rx_buffered e) div 2 ^ unat (rxe_win_shift e)) mod 2 ^ 16
   \<and> uint (rxl_win_size (rx_sar_lookup e)) * 2 ^ unat (rxl_win_shift (rx_sar_lookup e))
     + rx_buffered e < BUFFER_SIZE"
proof -
  let ?free = "uint (session_actual_win_size e)" and ?k = "unat (rxe_win_shift e)"
  have win: "uint (rxl_win_size (rx_sar_lookup e)) = (?free div 2 ^ ?k) mod 2 ^ 16"
    by (simp add: rx_sar_lookup_def unsigned_ucast_eq uint_drop_bit [symmetric])
      (simp add: take_bit_eq_mod)
  have "uint (rxl_win_size (rx_sar_lookup e)) * 2 ^ ?k \<le> (?free div 2 ^ ?k) * 2 ^ ?k"
    unfolding win by (intro mult_right_mono zmod_le_nonneg_dividend) (simp_all add: pos_imp_zdiv_nonneg_iff)
  also have "\<dots> \<le> ?free"
    by (simp add: minus_mod_eq_div_mult [symmetric])
  finally show ?thesis
    using win by (simp add: actual_win_size) (simp add: rx_sar_lookup_def)
qed

section \<open>The copy of the acknowledged position that the transmit application keeps\<close>

text \<open>What a reader of the update stream knows of \<open>ackd\<close>: an update carries it, an initial update
  carries the position after the SYN.\<close>

definition tx_app_ackd_view :: "TxSarToTxAppReq \<Rightarrow> (TcpSessionID \<Rightarrow> TcpSessionBuffer)
    \<Rightarrow> (TcpSessionID \<Rightarrow> TcpSessionBuffer)" where
  "tx_app_ackd_view u v = v(sta_session_id u := (if sta_init u then sta_ackd u - 1 else sta_ackd u))"

definition ackd_view :: "TxSar \<Rightarrow> (TcpSessionID \<Rightarrow> TcpSessionBuffer)" where
  "ackd_view s = (\<lambda>sid. ucast (txe_ackd (ts_table s sid)))"

lemma ucast_minus_1 [simp]: "(ucast (w - 1 :: 32 word) :: 18 word) = ucast w - 1"
  by (simp add: word_uint_eq_iff uint_word_ariths unsigned_ucast_eq take_bit_eq_mod
      mod_mod_cancel mod_simps)

lemma tx_sar_table_mirrors:
  "\<exists>us. ts_tx_sar_to_tx_app_upd_req (tx_sar_table s) = ts_tx_sar_to_tx_app_upd_req s @ us
      \<and> fold tx_app_ackd_view us (ackd_view s) = ackd_view (tx_sar_table s)"
  by (auto simp: tx_sar_table_def tx_sar_tx_eng_access_def tx_sar_tx_app_update_def
      tx_sar_rx_eng_access_def tx_sar_tx_eng_write_def tx_sar_rx_eng_write_def
      ackd_view_def tx_app_ackd_view_def TxSarToTxAppReq_init_def TxSarToTxAppReq_ackd_def
      Let_def split: list.split)

text \<open>Whatever the three clients ask for, over any number of cycles, replaying the updates sent
  to the transmit application on a copy of the acknowledged positions gives the positions that
  the table holds: the copy never goes stale.\<close>

theorem tx_sar_updates_replay:
  "fold tx_app_ackd_view
     (written (ts_tx_sar_to_tx_app_upd_req s) (ts_tx_sar_to_tx_app_upd_req ((tx_sar_table ^^ n) s)))
     (ackd_view s) = ackd_view ((tx_sar_table ^^ n) s)"
proof -
  have "\<exists>us. ts_tx_sar_to_tx_app_upd_req ((tx_sar_table ^^ n) s) = ts_tx_sar_to_tx_app_upd_req s @ us
      \<and> fold tx_app_ackd_view us (ackd_view s) = ackd_view ((tx_sar_table ^^ n) s)"
  proof (induction n)
    case (Suc n)
    then show ?case
      using tx_sar_table_mirrors [of "(tx_sar_table ^^ n) s"] by (auto simp: fold_append)
  qed simp
  then show ?thesis by auto
qed

end
