(* ===== verification/Tx_Fsm.thy ===== *)
theory Tx_Fsm
  imports Tx_Header Sar_Tables Memory_Access
begin

text \<open>
  \<open>TxEngTcpFsm\<close> of \<open>tx_engine/tx_engine.cpp\<close>: it takes an event, reads the session's windows, and turns
  the event into segments; for each it writes the meta data, the length, the source of the addresses
  and, where there is payload, the command that reads it.  \<open>next_curr_length\<close> and \<open>next_used_length\<close> are
  read although one branch leaves them unset: their values are the arguments \<open>u\<close> and \<open>v\<close>.
\<close>

section \<open>State\<close>

datatype TXEngTcpFsmState = TX_LOAD | TX_TRANSITION

record TxFsm =
  xf_fsm_state :: TXEngTcpFsmState
  xf_tx_rx_sar_loaded :: bool
  xf_tx_eng_event_reg :: EventWithTuple
  xf_retrans_seg_cnt :: "2 word"
  xf_rx_sar_rsp_reg :: RxSarLookupRsp
  xf_tx_sar_rsp_reg :: TxSarToTxEngRsp
  xf_tcp_tx_meta_reg :: TxEngFsmMetaData
  xf_curr_length :: TcpSessionBuffer
  xf_used_length :: TcpSessionBuffer
  xf_ackd_eq_not_ackd :: bool
  xf_remaining_window :: "19 word"
  xf_ramdom_val :: "32 word"
  xf_ack_delay_to_tx_eng_event :: "EventWithTuple stream"
  xf_tx_eng_read_count_fifo :: "unit stream"
  xf_tx_eng_to_rx_sar_lup_req :: "TcpSessionID stream"
  xf_rx_sar_to_tx_eng_lup_rsp :: "RxSarLookupRsp stream"
  xf_tx_eng_to_tx_sar_req :: "TxEngToTxSarReq stream"
  xf_tx_sar_to_tx_eng_rsp :: "TxSarToTxEngRsp stream"
  xf_tx_eng_to_timer_set_rtimer :: "TxEngToRetransTimerReq stream"
  xf_tx_eng_to_timer_set_ptimer :: "TcpSessionID stream"
  xf_tx_eng_to_slookup_rev_table_req :: "TcpSessionID stream"
  xf_tx_tcp_payload_length_out :: "16 word stream"
  xf_tx_eng_fsm_meta_data_out :: "TxEngFsmMetaData stream"
  xf_tx_eng_to_mem_read_cmd :: "MemBufferRWCmd stream"
  xf_tx_four_tuple_source :: "bool stream"
  xf_tx_eng_fsm_four_tuple_out :: "FourTuple stream"

abbreviation xf_session :: "TxFsm \<Rightarrow> TcpSessionID" where
  "xf_session s \<equiv> ev_session_id (xf_tx_eng_event_reg s)"

abbreviation xf_retransmission :: "TxFsm \<Rightarrow> bool" where
  "xf_retransmission s \<equiv> ev_retrans_cnt (xf_tx_eng_event_reg s) \<noteq> 0"

section \<open>\<open>LOAD\<close>\<close>

definition lookup_tx_sar :: "TxFsm \<Rightarrow> TxFsm" where
  "lookup_tx_sar s =
     s\<lparr>xf_tx_eng_to_tx_sar_req := xf_tx_eng_to_tx_sar_req s @ [TxEngToTxSarReq_read (xf_session s)]\<rparr>"

definition lookup_both_sar :: "TxFsm \<Rightarrow> TxFsm" where
  "lookup_both_sar s =
     lookup_tx_sar (s\<lparr>xf_tx_eng_to_rx_sar_lup_req := xf_tx_eng_to_rx_sar_lup_req s @ [xf_session s]\<rparr>)"

definition tx_load :: "TxFsm \<Rightarrow> TxFsm" where
  "tx_load s =
     (case xf_ack_delay_to_tx_eng_event s of
        ev # evs \<Rightarrow>
          (let s = s\<lparr>xf_ack_delay_to_tx_eng_event := evs, xf_tx_eng_event_reg := ev,
                 xf_tx_eng_read_count_fifo := xf_tx_eng_read_count_fifo s @ [()],
                 xf_tx_rx_sar_loaded := False, xf_fsm_state := TX_TRANSITION, xf_retrans_seg_cnt := 0\<rparr> in
           case ev_type ev of
             RT_CONT \<Rightarrow> s
           | RST \<Rightarrow> (if has_session_id ev then lookup_tx_sar s else s)
           | SYN \<Rightarrow> (if ev_retrans_cnt ev \<noteq> 0 then lookup_tx_sar s else s)
           | _ \<Rightarrow> lookup_both_sar s)
      | [] \<Rightarrow> s\<lparr>xf_retrans_seg_cnt := 0\<rparr>)"

section \<open>Writes that the events share\<close>

definition write_meta :: "TxEngFsmMetaData \<Rightarrow> TxFsm \<Rightarrow> TxFsm" where
  "write_meta meta s =
     s\<lparr>xf_tx_tcp_payload_length_out := xf_tx_tcp_payload_length_out s @ [xm_length meta],
       xf_tx_eng_fsm_meta_data_out := xf_tx_eng_fsm_meta_data_out s @ [meta]\<rparr>"

definition write_segment :: "TxFsm \<Rightarrow> TxFsm" where
  "write_segment s =
     (write_meta (xf_tcp_tx_meta_reg s) s)
       \<lparr>xf_tx_four_tuple_source := xf_tx_four_tuple_source s @ [True],
        xf_tx_eng_to_slookup_rev_table_req := xf_tx_eng_to_slookup_rev_table_req s @ [xf_session s]\<rparr>"

definition set_rtimer :: "EventType \<Rightarrow> TxFsm \<Rightarrow> TxFsm" where
  "set_rtimer type s =
     s\<lparr>xf_tx_eng_to_timer_set_rtimer := xf_tx_eng_to_timer_set_rtimer s @ [\<lparr>tr_session_id = xf_session s, tr_type = type\<rparr>]\<rparr>"

definition set_ptimer :: "TxFsm \<Rightarrow> TxFsm" where
  "set_ptimer s = s\<lparr>xf_tx_eng_to_timer_set_ptimer := xf_tx_eng_to_timer_set_ptimer s @ [xf_session s]\<rparr>"

definition update_tx_sar :: "32 word \<Rightarrow> bool \<Rightarrow> bool \<Rightarrow> bool \<Rightarrow> TxFsm \<Rightarrow> TxFsm" where
  "update_tx_sar not_ackd init fin_is_ready fin_is_sent s =
     s\<lparr>xf_tx_eng_to_tx_sar_req := xf_tx_eng_to_tx_sar_req s @
         [TxEngToTxSarReq_write (xf_session s) not_ackd init fin_is_ready fin_is_sent]\<rparr>"

text \<open>\<open>if (tcp_tx_meta_reg.length != 0)\<close>, for an event with payload.\<close>

definition write_payload_segment :: "32 word \<Rightarrow> TxFsm \<Rightarrow> TxFsm" where
  "write_payload_segment payload_mem_addr s =
     (if xm_length (xf_tcp_tx_meta_reg s) \<noteq> 0 then
        set_rtimer RT (write_segment
          (s\<lparr>xf_tx_eng_to_mem_read_cmd := xf_tx_eng_to_mem_read_cmd s @
               [MemBufferRWCmd_new payload_mem_addr (xm_length (xf_tcp_tx_meta_reg s))]\<rparr>))
      else s)"

definition set_meta :: "TxEngFsmMetaData \<Rightarrow> TxFsm \<Rightarrow> TxFsm" where
  [simp]: "set_meta meta s = s\<lparr>xf_tcp_tx_meta_reg := meta\<rparr>"

definition meta_flags :: "bool \<Rightarrow> bool \<Rightarrow> bool \<Rightarrow> TxEngFsmMetaData \<Rightarrow> TxEngFsmMetaData" where
  "meta_flags ack syn fin meta = meta\<lparr>xm_ack := ack, xm_rst := False, xm_syn := syn, xm_fin := fin\<rparr>"

definition set_event_type :: "EventType \<Rightarrow> TxFsm \<Rightarrow> TxFsm" where
  "set_event_type type s = s\<lparr>xf_tx_eng_event_reg := (xf_tx_eng_event_reg s)\<lparr>ev_type := type\<rparr>\<rparr>"

section \<open>\<open>TX\<close>\<close>

text \<open>A full segment: the new \<open>not_ackd\<close> and the next lengths, which have 16 bits.\<close>

definition tx_full_segment :: "TxSarToTxEngRsp \<Rightarrow> TxFsm \<Rightarrow> TxFsm \<times> 32 word \<times> 16 word \<times> 16 word" where
  "tx_full_segment tx_sar_rsp s =
     (set_meta ((xf_tcp_tx_meta_reg s)\<lparr>xm_length := word_of_int TCP_MSS\<rparr>) s,
      tte_not_ackd tx_sar_rsp + word_of_int TCP_MSS,
      ucast (xf_curr_length s - word_of_int TCP_MSS), ucast (xf_used_length s + word_of_int TCP_MSS))"

text \<open>The rest of the data fits into the window and into one segment.\<close>

definition tx_last_segment ::
  "16 word \<Rightarrow> 16 word \<Rightarrow> TxSarToTxEngRsp \<Rightarrow> TxFsm \<Rightarrow> TxFsm \<times> 32 word \<times> 16 word \<times> 16 word" where
  "tx_last_segment u v tx_sar_rsp s =
     (let curr_length = xf_curr_length s;
          s = (if tte_fin_is_ready tx_sar_rsp \<and> (tte_ackd_eq_not_ackd tx_sar_rsp \<or> curr_length = 0)
               then set_event_type FIN s else s\<lparr>xf_fsm_state := TX_LOAD\<rparr>);
          idle = tte_ackd_eq_not_ackd tx_sar_rsp;
          na = (if idle then tte_not_ackd_short tx_sar_rsp else tte_not_ackd tx_sar_rsp + ucast curr_length);
          next_curr_length = (if idle then ucast (get_range 0 (tte_not_ackd tx_sar_rsp) - curr_length) else u);
          next_used_length = (if idle then ucast (get_range 0 (tte_not_ackd tx_sar_rsp) + curr_length) else v);
          s = (if idle then s else set_ptimer s);
          s = set_meta ((xf_tcp_tx_meta_reg s)\<lparr>xm_length := ucast curr_length\<rparr>) s in
      (update_tx_sar na False False False s, na, next_curr_length, next_used_length))"

text \<open>The window is smaller than the data and than a segment.\<close>

definition tx_window_segment ::
  "TxSarToTxEngRsp \<Rightarrow> TcpSessionBuffer \<Rightarrow> TxFsm \<Rightarrow> TxFsm \<times> 32 word \<times> 16 word \<times> 16 word" where
  "tx_window_segment tx_sar_rsp usableWindow_w s =
     (let na = tte_not_ackd tx_sar_rsp + ucast usableWindow_w;
          t = set_ptimer (set_meta ((xf_tcp_tx_meta_reg s)\<lparr>xm_length := ucast usableWindow_w\<rparr>) s) in
      ((update_tx_sar na False False False t)\<lparr>xf_fsm_state := TX_LOAD\<rparr>, na,
       ucast (xf_curr_length s - usableWindow_w), ucast (xf_used_length s + usableWindow_w)))"

definition tx_choose ::
  "16 word \<Rightarrow> 16 word \<Rightarrow> TxSarToTxEngRsp \<Rightarrow> TcpSessionBuffer \<Rightarrow> TxFsm \<Rightarrow> TxFsm \<times> 32 word \<times> 16 word \<times> 16 word" where
  "tx_choose u v tx_sar_rsp usableWindow_w s =
     (if xf_curr_length s \<le> usableWindow_w then
        if word_of_int TCP_MSS \<le> xf_curr_length s then tx_full_segment tx_sar_rsp s
        else tx_last_segment u v tx_sar_rsp s
      else if word_of_int TCP_MSS \<le> usableWindow_w then tx_full_segment tx_sar_rsp s
      else tx_window_segment tx_sar_rsp usableWindow_w s)"

definition tx_segment :: "16 word \<Rightarrow> 16 word \<Rightarrow> TxSarToTxEngRsp \<Rightarrow> TcpSessionBuffer \<Rightarrow> TxFsm \<Rightarrow> TxFsm" where
  "tx_segment u v tx_sar_rsp usableWindow_w s =
     (let s = set_meta ((xf_tcp_tx_meta_reg s)\<lparr>xm_seq_number := tte_not_ackd tx_sar_rsp\<rparr>) s;
          payload_mem_addr = GetSessionMemAddr False (xf_session s) (ucast (tte_not_ackd tx_sar_rsp)) in
      case tx_choose u v tx_sar_rsp usableWindow_w s of
        (s, txSar_not_ackd_w, next_curr_length, next_used_length) \<Rightarrow>
          (write_payload_segment payload_mem_addr s)
            \<lparr>xf_remaining_window := ucast (tte_min_window tx_sar_rsp) - ucast next_used_length,
             xf_curr_length := ucast next_curr_length, xf_used_length := ucast next_used_length,
             xf_ackd_eq_not_ackd := (tte_ackd tx_sar_rsp = txSar_not_ackd_w),
             xf_tx_sar_rsp_reg := tx_sar_rsp\<lparr>tte_not_ackd := txSar_not_ackd_w\<rparr>,
             xf_tx_rx_sar_loaded := True\<rparr>)"

definition tx_take_windows :: "RxSarLookupRsp \<Rightarrow> TxSarToTxEngRsp \<Rightarrow> TxFsm \<Rightarrow> TxFsm" where
  "tx_take_windows rx_sar_rsp tx_sar_rsp s =
     s\<lparr>xf_rx_sar_rsp_reg := rx_sar_rsp, xf_curr_length := tte_curr_length tx_sar_rsp,
       xf_used_length := tte_used_length tx_sar_rsp, xf_ackd_eq_not_ackd := tte_ackd_eq_not_ackd tx_sar_rsp,
       xf_tcp_tx_meta_reg := (meta_flags True False False (xf_tcp_tx_meta_reg s))
         \<lparr>xm_win_size := rxl_win_size rx_sar_rsp, xm_length := 0, xm_ack_number := rxl_recvd rx_sar_rsp\<rparr>\<rparr>"

definition tx_event :: "16 word \<Rightarrow> 16 word \<Rightarrow> TxFsm \<Rightarrow> TxFsm" where
  "tx_event u v s =
     (if xf_tx_rx_sar_loaded s then
        tx_segment u v (xf_tx_sar_rsp_reg s)
          (if \<not> bit (xf_remaining_window s) WINDOW_BITS then get_range 0 (xf_remaining_window s) else 0) s
      else (case (xf_rx_sar_to_tx_eng_lup_rsp s, xf_tx_sar_to_tx_eng_rsp s) of
          (r # rs, t # ts) \<Rightarrow> tx_segment u v t (tte_usable_window t)
            (tx_take_windows r t (s\<lparr>xf_rx_sar_to_tx_eng_lup_rsp := rs, xf_tx_sar_to_tx_eng_rsp := ts\<rparr>))
        | _ \<Rightarrow> s))"

section \<open>\<open>RT\<close> and \<open>RT_CONT\<close>\<close>

definition rt_slowstart :: "TxFsm \<Rightarrow> TxFsm" where
  "rt_slowstart s =
     (if \<not> xf_tx_rx_sar_loaded s \<and> ev_retrans_cnt (xf_tx_eng_event_reg s) = 1 then
        (let slowstart_threshold = (if word_of_int (4 * TCP_MSS) < xf_curr_length s
               then ucast (xf_curr_length s div 2) else word_of_int (2 * TCP_MSS)) :: 16 word in
         s\<lparr>xf_tx_eng_to_tx_sar_req := xf_tx_eng_to_tx_sar_req s @
             [TxEngToTxSarRetransReq (xf_session s) (ucast slowstart_threshold)]\<rparr>)
      else s)"

text \<open>The length of the segment, and what follows it: at most three times \<open>RT_CONT\<close>, or the \<open>FIN\<close>.\<close>

definition rt_choose :: "TxSarToTxEngRsp \<Rightarrow> TxFsm \<Rightarrow> TxFsm" where
  "rt_choose tx_sar_rsp s =
     (if word_of_int TCP_MSS < xf_curr_length s then
        (let s = set_meta ((xf_tcp_tx_meta_reg s)\<lparr>xm_length := word_of_int TCP_MSS\<rparr>) s;
             s = (if xf_retrans_seg_cnt s = 3 then s\<lparr>xf_fsm_state := TX_LOAD\<rparr> else s) in
         (set_event_type RT_CONT s)
           \<lparr>xf_tx_sar_rsp_reg := tx_sar_rsp\<lparr>tte_ackd := tte_ackd tx_sar_rsp + word_of_int TCP_MSS,
                tte_used_length_rst := tte_used_length_rst tx_sar_rsp - word_of_int TCP_MSS\<rparr>,
            xf_retrans_seg_cnt := xf_retrans_seg_cnt s + 1\<rparr>)
      else
        (let s = set_meta ((xf_tcp_tx_meta_reg s)\<lparr>xm_length := ucast (xf_curr_length s)\<rparr>) s in
         (if tte_fin_is_sent tx_sar_rsp then set_event_type FIN s else s\<lparr>xf_fsm_state := TX_LOAD\<rparr>)
           \<lparr>xf_tx_sar_rsp_reg := tx_sar_rsp\<rparr>))"

definition rt_segment :: "TxSarToTxEngRsp \<Rightarrow> 32 word \<Rightarrow> TxFsm \<Rightarrow> TxFsm" where
  "rt_segment tx_sar_rsp payload_mem_addr s =
     (let s = s\<lparr>xf_curr_length := tte_used_length_rst tx_sar_rsp,
            xf_tcp_tx_meta_reg := (meta_flags True False False (xf_tcp_tx_meta_reg s))
              \<lparr>xm_ack_number := rxl_recvd (xf_rx_sar_rsp_reg s), xm_seq_number := tte_ackd tx_sar_rsp,
               xm_win_size := rxl_win_size (xf_rx_sar_rsp_reg s)\<rparr>\<rparr> in
      write_payload_segment payload_mem_addr (rt_choose tx_sar_rsp (rt_slowstart s)))"

definition rt_event :: "TxFsm \<Rightarrow> TxFsm" where
  "rt_event s =
     (case (xf_rx_sar_to_tx_eng_lup_rsp s, xf_tx_sar_to_tx_eng_rsp s) of
        (r # rs, t # ts) \<Rightarrow>
          (rt_segment t (GetSessionMemAddr False (xf_session s) (ucast (tte_ackd t)))
             (s\<lparr>xf_rx_sar_to_tx_eng_lup_rsp := rs, xf_tx_sar_to_tx_eng_rsp := ts, xf_rx_sar_rsp_reg := r\<rparr>))
            \<lparr>xf_tx_rx_sar_loaded := True\<rparr>
      | _ \<Rightarrow> s)"

text \<open>The address is built from the local \<open>tx_sar_rsp\<close>, which this case has not assigned, in place of
  \<open>tx_sar_rsp_reg\<close>.\<close>

definition rt_cont_event :: "TxFsm \<Rightarrow> TxFsm" where
  "rt_cont_event s =
     rt_segment (xf_tx_sar_rsp_reg s)
       (GetSessionMemAddr False (xf_session s) (ucast (tte_ackd TxSarToTxEngRsp_default))) s"

section \<open>\<open>ACK\<close>, \<open>SYN\<close>, \<open>SYN_ACK\<close>\<close>

definition ack_event :: "TxFsm \<Rightarrow> TxFsm" where
  "ack_event s =
     (case (xf_rx_sar_to_tx_eng_lup_rsp s, xf_tx_sar_to_tx_eng_rsp s) of
        (r # rs, t # ts) \<Rightarrow>
          (write_segment (s\<lparr>xf_rx_sar_to_tx_eng_lup_rsp := rs, xf_tx_sar_to_tx_eng_rsp := ts, xf_rx_sar_rsp_reg := r,
             xf_tcp_tx_meta_reg := (meta_flags True False False (xf_tcp_tx_meta_reg s))
               \<lparr>xm_ack_number := rxl_recvd r, xm_seq_number := tte_not_ackd t, xm_win_size := rxl_win_size r,
                xm_length := 0\<rparr>\<rparr>))\<lparr>xf_fsm_state := TX_LOAD\<rparr>
      | _ \<Rightarrow> s)"

text \<open>The first sequence number of a session is stored, plus one, with the \<open>init\<close> flag.\<close>

definition first_seq_number :: "build \<Rightarrow> TxFsm \<Rightarrow> TxFsm" where
  "first_seq_number bld s =
     (case RandomVal bld (xf_ramdom_val s) of (seq, ramdom_val) \<Rightarrow>
        update_tx_sar (seq + 1) True False False
          (s\<lparr>xf_ramdom_val := ramdom_val, xf_tcp_tx_meta_reg := (xf_tcp_tx_meta_reg s)\<lparr>xm_seq_number := seq\<rparr>\<rparr>))"

definition syn_segment :: "TxFsm \<Rightarrow> TxFsm" where
  "syn_segment s =
     (set_rtimer SYN (write_segment (set_meta ((meta_flags False True False (xf_tcp_tx_meta_reg s))
        \<lparr>xm_ack_number := 0, xm_win_size := 0xFFFF, xm_length := 8, xm_win_scale := 2\<rparr>) s)))\<lparr>xf_fsm_state := TX_LOAD\<rparr>"

definition syn_event :: "build \<Rightarrow> TxFsm \<Rightarrow> TxFsm" where
  "syn_event bld s =
     (if xf_retransmission s then
        (case xf_tx_sar_to_tx_eng_rsp s of
           t # ts \<Rightarrow> syn_segment (s\<lparr>xf_tx_sar_to_tx_eng_rsp := ts,
             xf_tcp_tx_meta_reg := (xf_tcp_tx_meta_reg s)\<lparr>xm_seq_number := tte_ackd t\<rparr>\<rparr>)
         | [] \<Rightarrow> s)
      else syn_segment (first_seq_number bld s))"

definition syn_ack_event :: "build \<Rightarrow> TxFsm \<Rightarrow> TxFsm" where
  "syn_ack_event bld s =
     (case (xf_rx_sar_to_tx_eng_lup_rsp s, xf_tx_sar_to_tx_eng_rsp s) of
        (r # rs, t # ts) \<Rightarrow>
          (let s = s\<lparr>xf_rx_sar_to_tx_eng_lup_rsp := rs, xf_tx_sar_to_tx_eng_rsp := ts, xf_rx_sar_rsp_reg := r,
                 xf_tcp_tx_meta_reg := (meta_flags True True False (xf_tcp_tx_meta_reg s))
                   \<lparr>xm_ack_number := rxl_recvd r, xm_win_size := 0xFFFF\<rparr>\<rparr>;
               s = (if xf_retransmission s
                 then set_meta ((xf_tcp_tx_meta_reg s)\<lparr>xm_seq_number := tte_ackd t\<rparr>) s
                 else first_seq_number bld s);
               s = set_meta ((xf_tcp_tx_meta_reg s)
                 \<lparr>xm_length := 4 + 4 * of_bool (rxl_win_shift r \<noteq> 0), xm_win_scale := ucast (rxl_win_shift r)\<rparr>) s in
           (set_rtimer SYN_ACK (write_segment s))\<lparr>xf_fsm_state := TX_LOAD\<rparr>)
      | _ \<Rightarrow> s)"

section \<open>\<open>FIN\<close> and \<open>RST\<close>\<close>

definition fin_segment :: "TxSarToTxEngRsp \<Rightarrow> TxFsm \<Rightarrow> TxFsm" where
  "fin_segment tx_sar_rsp s =
     (let s = s\<lparr>xf_tcp_tx_meta_reg := (meta_flags True False True (xf_tcp_tx_meta_reg s))
            \<lparr>xm_ack_number := rxl_recvd (xf_rx_sar_rsp_reg s), xm_win_size := rxl_win_size (xf_rx_sar_rsp_reg s),
             xm_length := 0, xm_seq_number := tte_not_ackd tx_sar_rsp - of_bool (xf_retransmission s)\<rparr>\<rparr>;
          s = (if \<not> xf_retransmission s then
              if tte_app_written tx_sar_rsp = get_range 0 (tte_not_ackd tx_sar_rsp)
              then update_tx_sar (tte_not_ackd tx_sar_rsp + 1) False True True s
              else update_tx_sar (tte_not_ackd tx_sar_rsp) False True False s
            else s);
          s = (if get_range 0 (xm_seq_number (xf_tcp_tx_meta_reg s)) = tte_app_written tx_sar_rsp
            then set_rtimer RT (write_segment s) else s) in
      s\<lparr>xf_fsm_state := TX_LOAD\<rparr>)"

definition fin_event :: "TxFsm \<Rightarrow> TxFsm" where
  "fin_event s =
     (if xf_tx_rx_sar_loaded s then fin_segment (xf_tx_sar_rsp_reg s) s
      else (case (xf_rx_sar_to_tx_eng_lup_rsp s, xf_tx_sar_to_tx_eng_rsp s) of
          (r # rs, t # ts) \<Rightarrow> fin_segment t
            (s\<lparr>xf_rx_sar_to_tx_eng_lup_rsp := rs, xf_tx_sar_to_tx_eng_rsp := ts, xf_rx_sar_rsp_reg := r\<rparr>)
        | _ \<Rightarrow> s))"

text \<open>The state is \<open>LOAD\<close> also when the answer of the table is not there yet.\<close>

definition rst_event :: "TxFsm \<Rightarrow> TxFsm" where
  "rst_event s =
     (let ack_number = get_ack_number (xf_tx_eng_event_reg s);
          s = (if \<not> has_session_id (xf_tx_eng_event_reg s) then
              (write_meta (TxEngFsmMetaData_numbers 0 ack_number True True False False) s)
                \<lparr>xf_tx_four_tuple_source := xf_tx_four_tuple_source s @ [False],
                 xf_tx_eng_fsm_four_tuple_out := xf_tx_eng_fsm_four_tuple_out s @ [ev_four_tuple (xf_tx_eng_event_reg s)]\<rparr>
            else (case xf_tx_sar_to_tx_eng_rsp s of
                t # ts \<Rightarrow> (write_meta (TxEngFsmMetaData_numbers (tte_not_ackd t) ack_number True True False False) s)
                  \<lparr>xf_tx_sar_to_tx_eng_rsp := ts,
                   xf_tx_four_tuple_source := xf_tx_four_tuple_source s @ [True],
                   xf_tx_eng_to_slookup_rev_table_req := xf_tx_eng_to_slookup_rev_table_req s @ [xf_session s]\<rparr>
              | [] \<Rightarrow> s)) in
      s\<lparr>xf_fsm_state := TX_LOAD\<rparr>)"

section \<open>One cycle\<close>

definition TxEngTcpFsm :: "build \<Rightarrow> 16 word \<Rightarrow> 16 word \<Rightarrow> TxFsm \<Rightarrow> TxFsm" where
  "TxEngTcpFsm bld u v s =
     (case xf_fsm_state s of
        TX_LOAD \<Rightarrow> tx_load s
      | TX_TRANSITION \<Rightarrow>
          (case ev_type (xf_tx_eng_event_reg s) of
             TX \<Rightarrow> tx_event u v s
           | RT \<Rightarrow> rt_event s
           | RT_CONT \<Rightarrow> rt_cont_event s
           | ACK \<Rightarrow> ack_event s
           | ACK_NODELAY \<Rightarrow> ack_event s
           | SYN \<Rightarrow> syn_event bld s
           | SYN_ACK \<Rightarrow> syn_ack_event bld s
           | FIN \<Rightarrow> fin_event s
           | RST \<Rightarrow> rst_event s))"

definition tx_fsm_init :: TxFsm where
  "tx_fsm_init =
     \<lparr>xf_fsm_state = TX_LOAD, xf_tx_rx_sar_loaded = False,
      xf_tx_eng_event_reg = EventWithTuple_of_event (Event_basic TX 0), xf_retrans_seg_cnt = 0,
      xf_rx_sar_rsp_reg = \<lparr>rxl_recvd = 0, rxl_win_shift = 0, rxl_win_size = 0\<rparr>,
      xf_tx_sar_rsp_reg = TxSarToTxEngRsp_default, xf_tcp_tx_meta_reg = TxEngFsmMetaData_default,
      xf_curr_length = 0, xf_used_length = 0, xf_ackd_eq_not_ackd = False, xf_remaining_window = 0,
      xf_ramdom_val = 0x562301AF, xf_ack_delay_to_tx_eng_event = [], xf_tx_eng_read_count_fifo = [],
      xf_tx_eng_to_rx_sar_lup_req = [], xf_rx_sar_to_tx_eng_lup_rsp = [], xf_tx_eng_to_tx_sar_req = [],
      xf_tx_sar_to_tx_eng_rsp = [], xf_tx_eng_to_timer_set_rtimer = [], xf_tx_eng_to_timer_set_ptimer = [],
      xf_tx_eng_to_slookup_rev_table_req = [], xf_tx_tcp_payload_length_out = [], xf_tx_eng_fsm_meta_data_out = [],
      xf_tx_eng_to_mem_read_cmd = [], xf_tx_four_tuple_source = [], xf_tx_eng_fsm_four_tuple_out = []\<rparr>"

end
