(* ===== verification/Tx_Fsm_Props.thy ===== *)
theory Tx_Fsm_Props
  imports Tx_Fsm
begin

text \<open>
  What \<open>TxEngTcpFsm\<close> writes: the streams that describe the segments stay aligned whatever the events are;
  a transmission event sends exactly the data that the window admits, in contiguous full segments, and the
  \<open>FIN\<close> behind it if that is due.
\<close>

section \<open>The streams of a segment\<close>

text \<open>A header has room for the options of a \<open>SYN\<close>, and for one maximal segment otherwise.\<close>

definition segment_ok :: "TxEngFsmMetaData \<Rightarrow> bool" where
  "segment_ok m \<longleftrightarrow> (if xm_syn m then unat (xm_length m) = option_bytes m else unat (xm_length m) \<le> 1460)"

definition with_payload :: "TxEngFsmMetaData \<Rightarrow> bool" where
  "with_payload m \<longleftrightarrow> xm_length m \<noteq> 0 \<and> \<not> xm_syn m"

type_synonym tx_out = "TxEngFsmMetaData list \<times> 16 word list \<times> bool list \<times> TcpSessionID list \<times> FourTuple list \<times> MemBufferRWCmd list"

definition tx_out :: "TxFsm \<Rightarrow> tx_out" where
  "tx_out s = (xf_tx_eng_fsm_meta_data_out s, xf_tx_tcp_payload_length_out s, xf_tx_four_tuple_source s,
     xf_tx_eng_to_slookup_rev_table_req s, xf_tx_eng_fsm_four_tuple_out s, xf_tx_eng_to_mem_read_cmd s)"

definition aligned :: "TxFsm \<Rightarrow> TxFsm \<Rightarrow> bool" where
  "aligned s t \<longleftrightarrow> (\<exists>ms bs ids ts cs.
     xf_tx_eng_fsm_meta_data_out t = xf_tx_eng_fsm_meta_data_out s @ ms \<and>
     xf_tx_tcp_payload_length_out t = xf_tx_tcp_payload_length_out s @ map xm_length ms \<and>
     xf_tx_four_tuple_source t = xf_tx_four_tuple_source s @ bs \<and> length bs = length ms \<and>
     xf_tx_eng_to_slookup_rev_table_req t = xf_tx_eng_to_slookup_rev_table_req s @ ids \<and> length ids = length (filter id bs) \<and>
     xf_tx_eng_fsm_four_tuple_out t = xf_tx_eng_fsm_four_tuple_out s @ ts \<and> length ts = length (filter Not bs) \<and>
     xf_tx_eng_to_mem_read_cmd t = xf_tx_eng_to_mem_read_cmd s @ cs \<and>
     map mb_length cs = map xm_length (filter with_payload ms) \<and> (\<forall>m \<in> set ms. segment_ok m))"

lemma aligned_same: "tx_out t = tx_out s \<Longrightarrow> aligned s t"
  by (simp add: aligned_def tx_out_def)

lemma aligned_refl [simp]: "aligned s s"
  by (simp add: aligned_same)

lemma aligned_trans:
  assumes "aligned s t" and "aligned t r"
  shows "aligned s r"
proof -
  obtain ms bs ids ts cs where a: "xf_tx_eng_fsm_meta_data_out t = xf_tx_eng_fsm_meta_data_out s @ ms"
     "xf_tx_tcp_payload_length_out t = xf_tx_tcp_payload_length_out s @ map xm_length ms"
     "xf_tx_four_tuple_source t = xf_tx_four_tuple_source s @ bs" "length bs = length ms"
     "xf_tx_eng_to_slookup_rev_table_req t = xf_tx_eng_to_slookup_rev_table_req s @ ids" "length ids = length (filter id bs)"
     "xf_tx_eng_fsm_four_tuple_out t = xf_tx_eng_fsm_four_tuple_out s @ ts" "length ts = length (filter Not bs)"
     "xf_tx_eng_to_mem_read_cmd t = xf_tx_eng_to_mem_read_cmd s @ cs"
     "map mb_length cs = map xm_length (filter with_payload ms)" "\<forall>m \<in> set ms. segment_ok m"
    using assms(1) unfolding aligned_def by blast
  obtain ms' bs' ids' ts' cs' where b: "xf_tx_eng_fsm_meta_data_out r = xf_tx_eng_fsm_meta_data_out t @ ms'"
     "xf_tx_tcp_payload_length_out r = xf_tx_tcp_payload_length_out t @ map xm_length ms'"
     "xf_tx_four_tuple_source r = xf_tx_four_tuple_source t @ bs'" "length bs' = length ms'"
     "xf_tx_eng_to_slookup_rev_table_req r = xf_tx_eng_to_slookup_rev_table_req t @ ids'" "length ids' = length (filter id bs')"
     "xf_tx_eng_fsm_four_tuple_out r = xf_tx_eng_fsm_four_tuple_out t @ ts'" "length ts' = length (filter Not bs')"
     "xf_tx_eng_to_mem_read_cmd r = xf_tx_eng_to_mem_read_cmd t @ cs'"
     "map mb_length cs' = map xm_length (filter with_payload ms')" "\<forall>m \<in> set ms'. segment_ok m"
    using assms(2) unfolding aligned_def by blast
  show ?thesis unfolding aligned_def
    by (intro exI [of _ "ms @ ms'"] exI [of _ "bs @ bs'"] exI [of _ "ids @ ids'"] exI [of _ "ts @ ts'"]
        exI [of _ "cs @ cs'"]) (use a b in auto)
qed

lemma aligned_steps:
  assumes "\<And>s. aligned s (f s)"
  shows "aligned s ((f ^^ n) s)"
proof (induction n)
  case (Suc n)
  then show ?case using aligned_trans [OF Suc.IH assms] by simp
qed simp

text \<open>The writes of the shared operations.\<close>

lemma tx_out_writes [simp]:
  "tx_out (lookup_tx_sar s) = tx_out s" "tx_out (lookup_both_sar s) = tx_out s" "tx_out (set_rtimer k s) = tx_out s"
  "tx_out (set_ptimer s) = tx_out s" "tx_out (update_tx_sar na i fr fs s) = tx_out s" "tx_out (set_event_type k s) = tx_out s"
  "tx_out (first_seq_number bld s) = tx_out s" "tx_out (rt_slowstart s) = tx_out s"
  by (simp_all add: tx_out_def lookup_tx_sar_def lookup_both_sar_def set_rtimer_def set_ptimer_def update_tx_sar_def
      set_event_type_def first_seq_number_def rt_slowstart_def Let_def split: prod.splits)

lemma aligned_segment:
  assumes "tx_out t = tx_out (write_segment r)" and "tx_out r = tx_out s" and "\<not> with_payload (xf_tcp_tx_meta_reg r)"
    and "segment_ok (xf_tcp_tx_meta_reg r)"
  shows "aligned s t"
  unfolding aligned_def
  by (intro exI [of _ "[xf_tcp_tx_meta_reg r]"] exI [of _ "[True]"] exI [of _ "[xf_session r]"] exI [of _ "[]"])
    (use assms in \<open>simp add: tx_out_def write_segment_def write_meta_def\<close>)

lemma aligned_payload_segment:
  assumes "tx_out t = tx_out (write_payload_segment a r)" and "tx_out r = tx_out s" and "\<not> xm_syn (xf_tcp_tx_meta_reg r)"
    and "segment_ok (xf_tcp_tx_meta_reg r)"
  shows "aligned s t"
proof (cases "xm_length (xf_tcp_tx_meta_reg r) = 0")
  case True
  then show ?thesis using assms by (intro aligned_same) (simp add: write_payload_segment_def)
next
  case False
  let ?m = "xf_tcp_tx_meta_reg r"
  show ?thesis
    unfolding aligned_def
    by (intro exI [of _ "[?m]"] exI [of _ "[True]"] exI [of _ "[xf_session r]"] exI [of _ "[]"]
        exI [of _ "[MemBufferRWCmd_new a (xm_length ?m)]"])
      (use assms False in \<open>simp add: tx_out_def write_payload_segment_def set_rtimer_def write_segment_def write_meta_def
        with_payload_def MemBufferRWCmd_new_def\<close>)
qed

section \<open>Every event writes aligned streams\<close>

lemma xm_flags [simp]:
  "xm_syn (meta_flags a b c m) = b" "xm_fin (meta_flags a b c m) = c" "xm_ack (meta_flags a b c m) = a"
  "xm_rst (meta_flags a b c m) = False" "xm_length (meta_flags a b c m) = xm_length m"
  "xm_seq_number (meta_flags a b c m) = xm_seq_number m" "xm_win_scale (meta_flags a b c m) = xm_win_scale m"
  by (simp_all add: meta_flags_def)

lemma kept_fields [simp]:
  "xf_tcp_tx_meta_reg (update_tx_sar na i fr fs s) = xf_tcp_tx_meta_reg s"
  "xf_tcp_tx_meta_reg (set_ptimer s) = xf_tcp_tx_meta_reg s" "xf_tcp_tx_meta_reg (set_event_type k s) = xf_tcp_tx_meta_reg s"
  "xf_tcp_tx_meta_reg (rt_slowstart s) = xf_tcp_tx_meta_reg s" "xf_tcp_tx_meta_reg (set_rtimer k s) = xf_tcp_tx_meta_reg s"
  "xf_tcp_tx_meta_reg (write_segment s) = xf_tcp_tx_meta_reg s"
  "xf_tcp_tx_meta_reg (write_payload_segment a s) = xf_tcp_tx_meta_reg s"
  "xf_session (set_ptimer s) = xf_session s" "xf_session (set_event_type k s) = xf_session s"
  "xf_curr_length (rt_slowstart s) = xf_curr_length s"
  "xf_retrans_seg_cnt (rt_slowstart s) = xf_retrans_seg_cnt s"
  by (simp_all add: update_tx_sar_def set_ptimer_def set_event_type_def rt_slowstart_def set_rtimer_def write_segment_def
      write_meta_def write_payload_segment_def Let_def)

lemma tx_out_fields [simp]:
  "tx_out (s\<lparr>xf_tcp_tx_meta_reg := m\<rparr>) = tx_out s" "tx_out (s\<lparr>xf_fsm_state := st\<rparr>) = tx_out s"
  "tx_out (s\<lparr>xf_tx_sar_rsp_reg := t\<rparr>) = tx_out s" "tx_out (s\<lparr>xf_rx_sar_rsp_reg := r\<rparr>) = tx_out s"
  "tx_out (s\<lparr>xf_retrans_seg_cnt := c\<rparr>) = tx_out s" "tx_out (s\<lparr>xf_curr_length := cl\<rparr>) = tx_out s"
  "tx_out (s\<lparr>xf_used_length := cl\<rparr>) = tx_out s" "tx_out (s\<lparr>xf_tx_rx_sar_loaded := b\<rparr>) = tx_out s"
  "tx_out (s\<lparr>xf_ackd_eq_not_ackd := b\<rparr>) = tx_out s" "tx_out (s\<lparr>xf_remaining_window := rw\<rparr>) = tx_out s"
  "tx_out (s\<lparr>xf_rx_sar_to_tx_eng_lup_rsp := rs\<rparr>) = tx_out s" "tx_out (s\<lparr>xf_tx_sar_to_tx_eng_rsp := ts\<rparr>) = tx_out s"
  "tx_out (s\<lparr>xf_ack_delay_to_tx_eng_event := evs\<rparr>) = tx_out s" "tx_out (s\<lparr>xf_tx_eng_event_reg := ev\<rparr>) = tx_out s"
  "tx_out (s\<lparr>xf_tx_eng_read_count_fifo := us\<rparr>) = tx_out s"
  by (simp_all add: tx_out_def)

lemma mss_length [simp]: "unat (1460 :: 16 word) = 1460" "unat (8 :: 16 word) = 8" "unat (4 :: 16 word) = 4"
  by simp_all

lemma short_length: "unat (ucast (c :: TcpSessionBuffer) :: 16 word) = unat c" if "c \<le> 1460"
proof -
  have "unat c \<le> unat (1460 :: TcpSessionBuffer)" using that by (simp only: word_le_nat_alt)
  then have "unat c \<le> 1460" by simp
  then show ?thesis by (simp add: unsigned_ucast_eq take_bit_nat_eq_self)
qed

lemma short_length_le: "unat (ucast (c :: TcpSessionBuffer) :: 16 word) \<le> 1460" if "c \<le> 1460"
  using that short_length [OF that] by (simp add: word_le_nat_alt)

lemma tx_choose_writes:
  assumes "tx_choose u v t w s = (r, na, nc, nu)"
  shows "tx_out r = tx_out s" and "xm_syn (xf_tcp_tx_meta_reg r) = xm_syn (xf_tcp_tx_meta_reg s)"
    and "unat (xm_length (xf_tcp_tx_meta_reg r)) \<le> 1460"
  using assms short_length_le [of "xf_curr_length s"] short_length_le [of w]
  by (auto simp: tx_choose_def tx_full_segment_def tx_last_segment_def tx_window_segment_def Let_def split: if_splits)

lemma aligned_tx_segment:
  assumes "\<not> xm_syn (xf_tcp_tx_meta_reg s)"
  shows "aligned s (tx_segment u v t w s)" and "\<not> xm_syn (xf_tcp_tx_meta_reg (tx_segment u v t w s))"
proof -
  define s' where "s' = set_meta ((xf_tcp_tx_meta_reg s)\<lparr>xm_seq_number := tte_not_ackd t\<rparr>) s"
  obtain r na nc nu where c: "tx_choose u v t w s' = (r, na, nc, nu)" by (cases "tx_choose u v t w s'")
  note w = tx_choose_writes [OF c]
  have r: "tx_out r = tx_out s" "\<not> xm_syn (xf_tcp_tx_meta_reg r)" using w assms by (simp_all add: s'_def)
  let ?a = "GetSessionMemAddr False (xf_session s') (ucast (tte_not_ackd t))"
  have o: "tx_out (tx_segment u v t w s) = tx_out (write_payload_segment ?a r)"
    using c by (simp add: tx_segment_def s'_def Let_def)
  show "aligned s (tx_segment u v t w s)"
    using aligned_payload_segment [OF o r] w(3) r(2) by (simp add: segment_ok_def)
  show "\<not> xm_syn (xf_tcp_tx_meta_reg (tx_segment u v t w s))"
    using c r(2) by (simp add: tx_segment_def s'_def Let_def)
qed

lemma rt_choose_writes:
  "tx_out (rt_choose t s) = tx_out s" "xm_syn (xf_tcp_tx_meta_reg (rt_choose t s)) = xm_syn (xf_tcp_tx_meta_reg s)"
  "unat (xm_length (xf_tcp_tx_meta_reg (rt_choose t s))) \<le> 1460"
  using short_length_le [of "xf_curr_length s"]
  by (auto simp: rt_choose_def Let_def)

lemma aligned_rt_segment: "aligned s (rt_segment t a s)"
  by (rule aligned_payload_segment [where r = "rt_choose t (rt_slowstart (s\<lparr>xf_curr_length := tte_used_length_rst t,
        xf_tcp_tx_meta_reg := (meta_flags True False False (xf_tcp_tx_meta_reg s))
          \<lparr>xm_ack_number := rxl_recvd (xf_rx_sar_rsp_reg s), xm_seq_number := tte_ackd t,
           xm_win_size := rxl_win_size (xf_rx_sar_rsp_reg s)\<rparr>\<rparr>))" and a = a])
    (simp_all add: rt_segment_def Let_def rt_choose_writes segment_ok_def)

text \<open>Whatever a transmission event does in its later cycles, its header is not that of a \<open>SYN\<close>.\<close>

definition tx_fsm_ok :: "TxFsm \<Rightarrow> bool" where
  "tx_fsm_ok s \<longleftrightarrow> (xf_fsm_state s = TX_TRANSITION \<and> ev_type (xf_tx_eng_event_reg s) = TX \<and> xf_tx_rx_sar_loaded s \<longrightarrow>
     \<not> xm_syn (xf_tcp_tx_meta_reg s))"

lemma aligned_tx_event:
  assumes "tx_fsm_ok s" and "xf_fsm_state s = TX_TRANSITION" and "ev_type (xf_tx_eng_event_reg s) = TX"
  shows "aligned s (tx_event u v s)" and "tx_fsm_ok (tx_event u v s)"
proof -
  have "aligned s (tx_event u v s) \<and> tx_fsm_ok (tx_event u v s)"
  proof (cases "xf_tx_rx_sar_loaded s")
    case True
    then show ?thesis
      using assms aligned_tx_segment [of s u v "xf_tx_sar_rsp_reg s"] by (auto simp: tx_event_def tx_fsm_ok_def)
  next
    case False
    show ?thesis
    proof (cases "xf_rx_sar_to_tx_eng_lup_rsp s = [] \<or> xf_tx_sar_to_tx_eng_rsp s = []")
      case True
      then show ?thesis using False assms(1) by (auto simp: tx_event_def split: list.splits)
    next
      case False': False
      then obtain r rs t ts where i: "xf_rx_sar_to_tx_eng_lup_rsp s = r # rs" "xf_tx_sar_to_tx_eng_rsp s = t # ts"
        by (cases "xf_rx_sar_to_tx_eng_lup_rsp s"; cases "xf_tx_sar_to_tx_eng_rsp s") auto
      let ?s = "tx_take_windows r t (s\<lparr>xf_rx_sar_to_tx_eng_lup_rsp := rs, xf_tx_sar_to_tx_eng_rsp := ts\<rparr>)"
      have e: "tx_event u v s = tx_segment u v t (tte_usable_window t) ?s" using i False by (simp add: tx_event_def)
      have s: "\<not> xm_syn (xf_tcp_tx_meta_reg ?s)" "tx_out ?s = tx_out s" by (simp_all add: tx_take_windows_def)
      then show ?thesis
        using aligned_tx_segment [OF s(1), of u v t "tte_usable_window t"] aligned_trans [OF aligned_same]
        unfolding e tx_fsm_ok_def by metis
    qed
  qed
  then show "aligned s (tx_event u v s)" and "tx_fsm_ok (tx_event u v s)" by simp_all
qed

lemma aligned_load: "aligned s (tx_load s) \<and> tx_fsm_ok (tx_load s)" if "xf_fsm_state s = TX_LOAD"
  using that by (auto simp: tx_load_def Let_def aligned_same tx_fsm_ok_def lookup_both_sar_def lookup_tx_sar_def tx_out_def
      split: list.splits EventType.splits)

lemma rt_segment_type:
  "xf_fsm_state (rt_segment t a s) = TX_LOAD \<or> ev_type (xf_tx_eng_event_reg (rt_segment t a s)) \<in> {RT_CONT, FIN}"
  by (simp add: rt_segment_def Let_def write_payload_segment_def set_rtimer_def write_segment_def write_meta_def
      rt_choose_def set_event_type_def)

lemma aligned_between: "tx_out r = tx_out s \<Longrightarrow> aligned r t \<Longrightarrow> tx_out t' = tx_out t \<Longrightarrow> aligned s t'"
  by (metis aligned_same aligned_trans)

lemma aligned_rt_event: "aligned s (rt_event s)"
proof -
  have "aligned s ((rt_segment t a (s\<lparr>xf_rx_sar_to_tx_eng_lup_rsp := rs, xf_tx_sar_to_tx_eng_rsp := ts,
      xf_rx_sar_rsp_reg := r\<rparr>))\<lparr>xf_tx_rx_sar_loaded := True\<rparr>)" for t a rs ts r
    by (rule aligned_between [OF _ aligned_rt_segment]) simp_all
  then show ?thesis by (auto simp: rt_event_def split: list.splits)
qed

lemma syn_segment_ok: "segment_ok m" if "xm_syn m" "xm_length m = 4 + 4 * of_bool (xm_win_scale m \<noteq> 0)"
  using that by (simp add: segment_ok_def option_bytes_def)

lemma aligned_syn_segment: "tx_out r = tx_out s \<Longrightarrow> aligned s (syn_segment r)"
  by (rule aligned_segment [where r = "set_meta ((meta_flags False True False (xf_tcp_tx_meta_reg r))
        \<lparr>xm_ack_number := 0, xm_win_size := 0xFFFF, xm_length := 8, xm_win_scale := 2\<rparr>) r"])
    (simp_all add: syn_segment_def with_payload_def syn_segment_ok)

lemma aligned_syn_event: "aligned s (syn_event bld s)"
  by (auto simp: syn_event_def intro: aligned_syn_segment split: list.splits)

lemma win_shift_zero: "(ucast (v :: 2 word) :: 4 word) = 0 \<longleftrightarrow> v = 0"
  using unat_ucast_up [where v = v and 'b = 4]
  by (simp add: unsigned_eq_0_iff [symmetric, where 'a = nat] del: unsigned_eq_0_iff)

lemma syn_ack_cases:
  assumes "xf_rx_sar_to_tx_eng_lup_rsp s = r # rs" and "xf_tx_sar_to_tx_eng_rsp s = t # ts"
  shows "\<exists>z. syn_ack_event bld s = (set_rtimer SYN_ACK (write_segment z))\<lparr>xf_fsm_state := TX_LOAD\<rparr> \<and> tx_out z = tx_out s \<and>
     xm_syn (xf_tcp_tx_meta_reg z) \<and>
     xm_length (xf_tcp_tx_meta_reg z) = 4 + 4 * of_bool (rxl_win_shift r \<noteq> 0) \<and>
     xm_win_scale (xf_tcp_tx_meta_reg z) = ucast (rxl_win_shift r)"
  using assms by (auto simp: syn_ack_event_def Let_def first_seq_number_def update_tx_sar_def tx_out_def split: prod.splits)

lemma aligned_syn_ack_event: "aligned s (syn_ack_event bld s)"
proof (cases "xf_rx_sar_to_tx_eng_lup_rsp s = [] \<or> xf_tx_sar_to_tx_eng_rsp s = []")
  case True
  then show ?thesis by (auto simp: syn_ack_event_def split: list.splits)
next
  case False
  then obtain r rs t ts where i: "xf_rx_sar_to_tx_eng_lup_rsp s = r # rs" "xf_tx_sar_to_tx_eng_rsp s = t # ts"
    by (cases "xf_rx_sar_to_tx_eng_lup_rsp s"; cases "xf_tx_sar_to_tx_eng_rsp s") auto
  obtain z where z: "syn_ack_event bld s = (set_rtimer SYN_ACK (write_segment z))\<lparr>xf_fsm_state := TX_LOAD\<rparr>" "tx_out z = tx_out s"
     "xm_syn (xf_tcp_tx_meta_reg z)" "xm_length (xf_tcp_tx_meta_reg z) = 4 + 4 * of_bool (rxl_win_shift r \<noteq> 0)"
     "xm_win_scale (xf_tcp_tx_meta_reg z) = ucast (rxl_win_shift r)"
    using syn_ack_cases [OF i] by blast
  then have "segment_ok (xf_tcp_tx_meta_reg z)" by (intro syn_segment_ok) (simp_all add: win_shift_zero)
  then show ?thesis using z by (intro aligned_segment [where r = z]) (simp_all add: with_payload_def)
qed

lemma aligned_ack_event: "aligned s (ack_event s)"
proof (cases "xf_rx_sar_to_tx_eng_lup_rsp s = [] \<or> xf_tx_sar_to_tx_eng_rsp s = []")
  case True
  then show ?thesis by (auto simp: ack_event_def split: list.splits)
next
  case False
  then obtain r rs t ts where i: "xf_rx_sar_to_tx_eng_lup_rsp s = r # rs" "xf_tx_sar_to_tx_eng_rsp s = t # ts"
    by (cases "xf_rx_sar_to_tx_eng_lup_rsp s"; cases "xf_tx_sar_to_tx_eng_rsp s") auto
  show ?thesis unfolding ack_event_def i list.case prod.case
    by (rule aligned_segment [OF tx_out_fields(2)]) (simp_all add: segment_ok_def with_payload_def)
qed

lemma aligned_fin_segment: "aligned s (fin_segment t s)"
proof -
  define z where "z = s\<lparr>xf_tcp_tx_meta_reg := (meta_flags True False True (xf_tcp_tx_meta_reg s))
            \<lparr>xm_ack_number := rxl_recvd (xf_rx_sar_rsp_reg s), xm_win_size := rxl_win_size (xf_rx_sar_rsp_reg s),
             xm_length := 0, xm_seq_number := tte_not_ackd t - of_bool (xf_retransmission s)\<rparr>\<rparr>"
  define y where "y = (if \<not> xf_retransmission z then
              if tte_app_written t = get_range 0 (tte_not_ackd t)
              then update_tx_sar (tte_not_ackd t + 1) False True True z
              else update_tx_sar (tte_not_ackd t) False True False z
            else z)"
  have y: "segment_ok (xf_tcp_tx_meta_reg y)" "\<not> with_payload (xf_tcp_tx_meta_reg y)" "tx_out y = tx_out s"
    by (simp_all add: y_def z_def segment_ok_def with_payload_def)
  have "aligned s ((if P then set_rtimer RT (write_segment y) else y)\<lparr>xf_fsm_state := TX_LOAD\<rparr>)" for P
    using y by (cases P) (simp_all add: aligned_same aligned_segment [where r = y])
  then show ?thesis by (simp only: fin_segment_def z_def [symmetric] y_def [symmetric] Let_def)
qed

lemma aligned_fin_event: "aligned s (fin_event s)"
proof -
  have "aligned s (fin_segment t (s\<lparr>xf_rx_sar_to_tx_eng_lup_rsp := rs, xf_tx_sar_to_tx_eng_rsp := ts,
      xf_rx_sar_rsp_reg := r\<rparr>))" for t rs ts r
    by (rule aligned_between [OF _ aligned_fin_segment]) simp_all
  then show ?thesis by (auto simp: fin_event_def aligned_fin_segment split: list.splits)
qed

lemma aligned_rst_event: "aligned s (rst_event s)"
proof -
  let ?m = "\<lambda>q. TxEngFsmMetaData_numbers q (get_ack_number (xf_tx_eng_event_reg s)) True True False False"
  have m: "segment_ok (?m q)" "\<not> with_payload (?m q)" "xm_length (?m q) = 0" for q
    by (simp_all add: TxEngFsmMetaData_numbers_def segment_ok_def with_payload_def)
  show ?thesis
  proof (cases "has_session_id (xf_tx_eng_event_reg s)")
    case False
    then show ?thesis unfolding aligned_def using m
      by (intro exI [of _ "[?m 0]"] exI [of _ "[False]"] exI [of _ "[]"] exI [of _ "[ev_four_tuple (xf_tx_eng_event_reg s)]"])
        (simp add: rst_event_def write_meta_def Let_def)
  next
    case True
    show ?thesis
    proof (cases "xf_tx_sar_to_tx_eng_rsp s")
      case Nil
      then show ?thesis using True by (intro aligned_same) (simp add: rst_event_def)
    next
      case (Cons t ts)
      then show ?thesis unfolding aligned_def using m True
        by (intro exI [of _ "[?m (tte_not_ackd t)]"] exI [of _ "[True]"] exI [of _ "[xf_session s]"] exI [of _ "[]"])
          (simp add: rst_event_def write_meta_def Let_def)
    qed
  qed
qed

lemma tx_fsm_ok_rt [simp]: "tx_fsm_ok (rt_segment t a s)"
  using rt_segment_type [of t a s] by (auto simp: tx_fsm_ok_def)

lemma tx_fsm_ok_rt_event: "tx_fsm_ok s \<Longrightarrow> ev_type (xf_tx_eng_event_reg s) = RT \<Longrightarrow> tx_fsm_ok (rt_event s)"
proof -
  have "tx_fsm_ok ((rt_segment t a r)\<lparr>xf_tx_rx_sar_loaded := True\<rparr>)" for t a r
    using rt_segment_type [of t a r] by (auto simp: tx_fsm_ok_def)
  then show "tx_fsm_ok s \<Longrightarrow> ?thesis" by (simp add: rt_event_def split: list.splits)
qed

lemma back_to_load:
  "ev_type (xf_tx_eng_event_reg s) \<noteq> TX \<Longrightarrow>
   tx_fsm_ok (ack_event s) \<and> tx_fsm_ok (syn_event bld s) \<and> tx_fsm_ok (syn_ack_event bld s) \<and> tx_fsm_ok (fin_event s) \<and>
   tx_fsm_ok (rst_event s)"
  by (auto simp: tx_fsm_ok_def ack_event_def syn_event_def syn_segment_def syn_ack_event_def fin_event_def fin_segment_def
      rst_event_def Let_def split: list.splits)

lemma tx_fsm_cycle:
  assumes "tx_fsm_ok s"
  shows "aligned s (TxEngTcpFsm bld u v s)" and "tx_fsm_ok (TxEngTcpFsm bld u v s)"
proof -
  have "aligned s (TxEngTcpFsm bld u v s) \<and> tx_fsm_ok (TxEngTcpFsm bld u v s)"
  proof (cases "xf_fsm_state s")
    case TX_LOAD
    then show ?thesis using aligned_load by (simp add: TxEngTcpFsm_def)
  next
    case TX_TRANSITION
    then show ?thesis
      using aligned_tx_event [OF assms TX_TRANSITION] aligned_rt_event aligned_rt_segment aligned_ack_event aligned_syn_event
        aligned_syn_ack_event aligned_fin_event aligned_rst_event tx_fsm_ok_rt_event [OF assms] back_to_load [of s bld]
      by (cases "ev_type (xf_tx_eng_event_reg s)") (simp_all add: TxEngTcpFsm_def rt_cont_event_def)
  qed
  then show "aligned s (TxEngTcpFsm bld u v s)" and "tx_fsm_ok (TxEngTcpFsm bld u v s)" by simp_all
qed

text \<open>The runs of the process: cycles, between which the environment may put anything into the three
  streams that the process reads.\<close>

inductive tx_fsm_run :: "build \<Rightarrow> TxFsm \<Rightarrow> bool" for bld where
  start: "tx_fsm_run bld tx_fsm_init"
| cycle: "tx_fsm_run bld s \<Longrightarrow> tx_fsm_run bld (TxEngTcpFsm bld u v s)"
| input: "tx_fsm_run bld s \<Longrightarrow> tx_fsm_run bld (s\<lparr>xf_ack_delay_to_tx_eng_event := evs, xf_rx_sar_to_tx_eng_lup_rsp := rs,
    xf_tx_sar_to_tx_eng_rsp := ts\<rparr>)"

text \<open>C7: In every run the streams that describe the segments agree: there is one length and one source of
  addresses per header, one reverse lookup or one pair of addresses per source, and one memory command,
  of the header's length, for exactly the headers with payload; a \<open>SYN\<close> has the length of its options
  and every other header at most that of a maximal segment.\<close>

theorem tx_streams_aligned:
  assumes "tx_fsm_run bld s"
  shows "let ms = xf_tx_eng_fsm_meta_data_out s; bs = xf_tx_four_tuple_source s in
     xf_tx_tcp_payload_length_out s = map xm_length ms \<and> length bs = length ms \<and>
     length (xf_tx_eng_to_slookup_rev_table_req s) = length (filter id bs) \<and>
     length (xf_tx_eng_fsm_four_tuple_out s) = length (filter Not bs) \<and>
     map mb_length (xf_tx_eng_to_mem_read_cmd s) = map xm_length (filter (\<lambda>m. xm_length m \<noteq> 0 \<and> \<not> xm_syn m) ms) \<and>
     (\<forall>m \<in> set ms. if xm_syn m then unat (xm_length m) = option_bytes m else unat (xm_length m) \<le> 1460)"
proof -
  have "tx_fsm_ok s \<and> aligned tx_fsm_init s"
    using assms
  proof induction
    case start
    then show ?case by (simp add: tx_fsm_ok_def tx_fsm_init_def)
  next
    case (cycle s u v)
    then show ?case using tx_fsm_cycle aligned_trans by blast
  next
    case (input s evs rs ts)
    then show ?case by (auto simp: tx_fsm_ok_def intro: aligned_between)
  qed
  then show ?thesis
    by (auto simp: aligned_def tx_fsm_init_def Let_def segment_ok_def with_payload_def [abs_def])
qed

definition tx_demo_reset :: TxFsm where
  "tx_demo_reset = tx_fsm_init\<lparr>xf_ack_delay_to_tx_eng_event := [EventWithTuple_of (RstEvent_seq 0 7 False) (FourTuple 1 2 3 4)],
     xf_rx_sar_to_tx_eng_lup_rsp := [], xf_tx_sar_to_tx_eng_rsp := []\<rparr>"

theorem tx_streams_aligned_witness:
  "length (xf_tx_four_tuple_source (TxEngTcpFsm Simulation 0 0 (TxEngTcpFsm Simulation 0 0 tx_demo_reset)))
   = length (xf_tx_eng_fsm_meta_data_out (TxEngTcpFsm Simulation 0 0 (TxEngTcpFsm Simulation 0 0 tx_demo_reset)))"
proof -
  have "tx_fsm_run Simulation (TxEngTcpFsm Simulation 0 0 (TxEngTcpFsm Simulation 0 0 tx_demo_reset))"
    unfolding tx_demo_reset_def by (intro tx_fsm_run.intros)
  from tx_streams_aligned [OF this] show ?thesis by (simp add: Let_def)
qed

section \<open>A transmission event sends what the window admits\<close>

text \<open>The lengths of the segments for \<open>n\<close> bytes, and the headers for a list of lengths.\<close>

definition segment_lengths :: "nat \<Rightarrow> nat list" where
  "segment_lengths n = replicate (n div 1460) 1460 @ (if n mod 1460 = 0 then [] else [n mod 1460])"

fun tx_segments :: "TxEngFsmMetaData \<Rightarrow> 32 word \<Rightarrow> nat list \<Rightarrow> TxEngFsmMetaData list" where
  "tx_segments m seq [] = []"
| "tx_segments m seq (l # ls) =
     m\<lparr>xm_seq_number := seq, xm_length := of_nat l\<rparr> # tx_segments m (seq + of_nat l) ls"

definition payload_command :: "TcpSessionID \<Rightarrow> TxEngFsmMetaData \<Rightarrow> MemBufferRWCmd" where
  "payload_command sid m = MemBufferRWCmd_new (GetSessionMemAddr False sid (ucast (xm_seq_number m))) (xm_length m)"

definition segments_sent :: "TcpSessionID \<Rightarrow> TxEngFsmMetaData list \<Rightarrow> TxFsm \<Rightarrow> TxFsm \<Rightarrow> bool" where
  "segments_sent sid ms s t \<longleftrightarrow>
     xf_tx_eng_fsm_meta_data_out t = xf_tx_eng_fsm_meta_data_out s @ ms \<and>
     xf_tx_tcp_payload_length_out t = xf_tx_tcp_payload_length_out s @ map xm_length ms \<and>
     xf_tx_eng_to_mem_read_cmd t = xf_tx_eng_to_mem_read_cmd s @ map (payload_command sid) ms \<and>
     xf_tx_four_tuple_source t = xf_tx_four_tuple_source s @ map (\<lambda>_. True) ms \<and>
     xf_tx_eng_to_slookup_rev_table_req t = xf_tx_eng_to_slookup_rev_table_req s @ map (\<lambda>_. sid) ms \<and>
     xf_tx_eng_to_timer_set_rtimer t = xf_tx_eng_to_timer_set_rtimer s @ map (\<lambda>_. \<lparr>tr_session_id = sid, tr_type = RT\<rparr>) ms"

lemma segments_sent_nil [simp]: "segments_sent sid [] s s"
  by (simp add: segments_sent_def)

lemma segments_sent_append:
  "segments_sent sid ms s t \<Longrightarrow> segments_sent sid ms' t r \<Longrightarrow> segments_sent sid (ms @ ms') s r"
  by (simp add: segments_sent_def)

lemma segment_lengths_full: "1460 \<le> n \<Longrightarrow> segment_lengths n = 1460 # segment_lengths (n - 1460)"
proof -
  assume "1460 \<le> n"
  then have "n div 1460 = Suc ((n - 1460) div 1460)" "n mod 1460 = (n - 1460) mod 1460"
    by (simp_all add: le_div_geq le_mod_geq)
  then show ?thesis by (simp add: segment_lengths_def)
qed

lemma segment_lengths_rest: "n < 1460 \<Longrightarrow> segment_lengths n = (if n = 0 then [] else [n])"
  by (simp add: segment_lengths_def)

lemma sum_segment_lengths: "sum_list (segment_lengths n) = n"
  by (simp add: segment_lengths_def sum_list_replicate minus_mod_eq_div_mult [symmetric])

definition tx_started :: "TcpSessionID \<Rightarrow> TxFsm \<Rightarrow> bool" where
  "tx_started sid s \<longleftrightarrow> xf_fsm_state s = TX_TRANSITION \<and> ev_type (xf_tx_eng_event_reg s) = TX \<and> xf_session s = sid"

lemma tx_segments_meta [simp]: "tx_segments (m\<lparr>xm_seq_number := a, xm_length := b\<rparr>) seq ls = tx_segments m seq ls"
  by (induction ls arbitrary: seq) simp_all

text \<open>What an event has done when its data is sent: the segments, one update of \<open>not_ackd\<close>, and the state
  that follows, which is the \<open>FIN\<close> of the same event or the next event.\<close>

definition tx_done :: "TcpSessionID \<Rightarrow> TxEngFsmMetaData list \<Rightarrow> 32 word \<Rightarrow> TcpSessionBuffer \<Rightarrow> bool \<Rightarrow> TxFsm \<Rightarrow> TxFsm \<Rightarrow> bool" where
  "tx_done sid ms na aw fin s z \<longleftrightarrow> segments_sent sid ms s z \<and>
     xf_tx_eng_to_tx_sar_req z = xf_tx_eng_to_tx_sar_req s @ [TxEngToTxSarReq_write sid na False False False] \<and>
     tte_not_ackd (xf_tx_sar_rsp_reg z) = na \<and> tte_app_written (xf_tx_sar_rsp_reg z) = aw \<and> xf_session z = sid \<and>
     xf_retransmission z = xf_retransmission s \<and> xf_rx_sar_rsp_reg z = xf_rx_sar_rsp_reg s \<and>
     (if fin then xf_fsm_state z = TX_TRANSITION \<and> ev_type (xf_tx_eng_event_reg z) = FIN \<and> xf_tx_rx_sar_loaded z
      else xf_fsm_state z = TX_LOAD)"

lemma tx_session [simp]:
  "xf_session (update_tx_sar na i fr fs s) = xf_session s"
  "xf_session (write_payload_segment a s) = xf_session s"
  by (simp_all add: update_tx_sar_def write_payload_segment_def set_rtimer_def write_segment_def write_meta_def)

text \<open>A full segment.\<close>

lemma tx_segment_full:
  fixes t :: TxSarToTxEngRsp and u v :: "16 word"
  assumes "tx_started sid s" and "1460 \<le> unat (xf_curr_length s)" and "1460 \<le> unat w"
  defines "z \<equiv> tx_segment u v t w s"
  shows "tx_started sid z" and "xf_tx_rx_sar_loaded z"
    and "xf_tcp_tx_meta_reg z = (xf_tcp_tx_meta_reg s)\<lparr>xm_seq_number := tte_not_ackd t, xm_length := 1460\<rparr>"
    and "xf_tx_sar_rsp_reg z = t\<lparr>tte_not_ackd := tte_not_ackd t + 1460\<rparr>"
    and "xf_curr_length z = ucast (ucast (xf_curr_length s - 1460) :: 16 word)"
    and "xf_used_length z = ucast (ucast (xf_used_length s + 1460) :: 16 word)"
    and "xf_remaining_window z = ucast (tte_min_window t) - ucast (ucast (xf_used_length s + 1460) :: 16 word)"
    and "xf_tx_eng_to_tx_sar_req z = xf_tx_eng_to_tx_sar_req s"
    and "segments_sent sid [(xf_tcp_tx_meta_reg s)\<lparr>xm_seq_number := tte_not_ackd t, xm_length := 1460\<rparr>] s z"
    and "xf_retransmission z = xf_retransmission s \<and> xf_rx_sar_rsp_reg z = xf_rx_sar_rsp_reg s"
proof -
  have "1460 \<le> xf_curr_length s" "1460 \<le> w" using assms(2,3) by (simp_all add: word_le_nat_alt)
  then have c: "tx_choose u v t w r = tx_full_segment t r" if "xf_curr_length r = xf_curr_length s" for r
    using that by (simp add: tx_choose_def)
  show "tx_started sid z" "xf_tx_rx_sar_loaded z"
    "xf_tcp_tx_meta_reg z = (xf_tcp_tx_meta_reg s)\<lparr>xm_seq_number := tte_not_ackd t, xm_length := 1460\<rparr>"
    "xf_tx_sar_rsp_reg z = t\<lparr>tte_not_ackd := tte_not_ackd t + 1460\<rparr>"
    "xf_curr_length z = ucast (ucast (xf_curr_length s - 1460) :: 16 word)"
    "xf_used_length z = ucast (ucast (xf_used_length s + 1460) :: 16 word)"
    "xf_remaining_window z = ucast (tte_min_window t) - ucast (ucast (xf_used_length s + 1460) :: 16 word)"
    "xf_tx_eng_to_tx_sar_req z = xf_tx_eng_to_tx_sar_req s"
    "segments_sent sid [(xf_tcp_tx_meta_reg s)\<lparr>xm_seq_number := tte_not_ackd t, xm_length := 1460\<rparr>] s z"
    "xf_retransmission z = xf_retransmission s \<and> xf_rx_sar_rsp_reg z = xf_rx_sar_rsp_reg s"
    using assms(1) by (simp_all add: z_def tx_segment_def c tx_full_segment_def tx_started_def write_payload_segment_def
        set_rtimer_def write_segment_def write_meta_def segments_sent_def payload_command_def)
qed

text \<open>The last segment: what is left of the data, or of the window.\<close>

lemma tx_segment_last:
  fixes t :: TxSarToTxEngRsp and u v :: "16 word"
  assumes "tx_started sid s" and "min (unat (xf_curr_length s)) (unat w) < 1460"
  defines "z \<equiv> tx_segment u v t w s" and "n \<equiv> min (unat (xf_curr_length s)) (unat w)"
  shows "tx_done sid (tx_segments (xf_tcp_tx_meta_reg s) (tte_not_ackd t) (segment_lengths n))
     (if tte_ackd_eq_not_ackd t \<and> xf_curr_length s \<le> w then tte_not_ackd_short t else tte_not_ackd t + of_nat n)
     (tte_app_written t)
     (tte_fin_is_ready t \<and> xf_curr_length s \<le> w \<and> (tte_ackd_eq_not_ackd t \<or> xf_curr_length s = 0)) s z"
proof (cases "xf_curr_length s \<le> w")
  case True
  then have n: "n = unat (xf_curr_length s)" by (simp add: n_def word_le_nat_alt min_def)
  then have l: "n < 1460" using assms(2) by (simp add: n_def)
  then have c: "\<not> 1460 \<le> xf_curr_length s" using n by (simp add: word_le_nat_alt)
  have e: "unat (ucast (xf_curr_length s) :: 16 word) = n" "(of_nat n :: 16 word) = ucast (xf_curr_length s)"
      "(of_nat n :: 32 word) = ucast (xf_curr_length s)"
    using short_length [of "xf_curr_length s"] c n by (simp_all add: of_nat_unat)
  have z: "(ucast (xf_curr_length s) :: 16 word) = 0 \<longleftrightarrow> n = 0" using e(1) by (metis unsigned_eq_0_iff)
  show ?thesis
    using True c l e z n assms(1) by (cases "tte_ackd_eq_not_ackd t")
      (auto simp: z_def tx_segment_def tx_choose_def tx_last_segment_def Let_def tx_done_def segments_sent_def segment_lengths_rest
        write_payload_segment_def set_rtimer_def write_segment_def write_meta_def tx_started_def update_tx_sar_def
        set_event_type_def set_ptimer_def payload_command_def)
next
  case False
  then have n: "n = unat w" by (simp add: n_def word_le_nat_alt min_def)
  then have l: "n < 1460" using assms(2) by (simp add: n_def)
  then have c: "\<not> 1460 \<le> w" using n by (simp add: word_le_nat_alt)
  have e: "unat (ucast w :: 16 word) = n" "(of_nat n :: 16 word) = ucast w" "(of_nat n :: 32 word) = ucast w"
    using short_length [of w] c n by (simp_all add: of_nat_unat)
  have z: "(ucast w :: 16 word) = 0 \<longleftrightarrow> n = 0" using e(1) by (metis unsigned_eq_0_iff)
  show ?thesis
    using False c l e z n assms(1)
    by (auto simp: z_def tx_segment_def tx_choose_def tx_window_segment_def Let_def tx_done_def segments_sent_def segment_lengths_rest
        write_payload_segment_def set_rtimer_def write_segment_def write_meta_def tx_started_def update_tx_sar_def
        set_event_type_def set_ptimer_def payload_command_def)
qed

text \<open>The window that is left after a full segment, and the lengths, as numbers.\<close>

lemma through_16:
  fixes x :: TcpSessionBuffer
  assumes "unat x < 2 ^ 16"
  shows "unat (ucast (ucast x :: 16 word) :: 'a::len word) = take_bit LENGTH('a) (unat x)"
proof -
  let ?y = "ucast x :: 16 word"
  have "unat ?y = unat x" using assms by (simp add: unsigned_ucast_eq take_bit_nat_eq_self)
  moreover have "unat (ucast ?y :: 'a word) = take_bit LENGTH('a) (unat ?y)" by (rule unsigned_ucast_eq)
  ultimately show ?thesis by (simp only:)
qed

lemma next_lengths:
  fixes c un mw :: TcpSessionBuffer
  assumes "1460 \<le> unat c" and "unat c < 2 ^ 16" and "1460 \<le> unat mw - unat un" and "unat mw < 2 ^ 16"
  defines "r \<equiv> (ucast mw :: 19 word) - ucast (ucast (un + 1460) :: 16 word)"
  shows "unat (ucast (ucast (c - 1460) :: 16 word) :: TcpSessionBuffer) = unat c - 1460"
    and "unat (ucast (ucast (un + 1460) :: 16 word) :: TcpSessionBuffer) = unat un + 1460"
    and "\<not> bit r 18" and "unat (get_range 0 r :: TcpSessionBuffer) = unat mw - unat un - 1460"
proof -
  have "unat (c - 1460) = unat c - 1460" using assms(1) by (simp add: unat_sub word_le_nat_alt)
  then show "unat (ucast (ucast (c - 1460) :: 16 word) :: TcpSessionBuffer) = unat c - 1460"
    using assms(2) through_16 [of "c - 1460", where 'a = 18] by (simp add: take_bit_nat_eq_self)
  have un: "unat un + 1460 < 2 ^ 16" using assms(3,4) by linarith
  then have u: "unat (un + 1460) = unat un + 1460" by (subst unat_add_lem [THEN iffD1]) simp_all
  then show "unat (ucast (ucast (un + 1460) :: 16 word) :: TcpSessionBuffer) = unat un + 1460"
    using un through_16 [of "un + 1460", where 'a = 18] by (simp add: take_bit_nat_eq_self)
  have a: "unat (ucast mw :: 19 word) = unat mw" using assms(4) by (simp add: unsigned_ucast_eq take_bit_nat_eq_self)
  have b: "unat (ucast (ucast (un + 1460) :: 16 word) :: 19 word) = unat un + 1460"
    using u un through_16 [of "un + 1460", where 'a = 19] by (simp add: take_bit_nat_eq_self)
  have "(ucast (ucast (un + 1460) :: 16 word) :: 19 word) \<le> ucast mw" using a b assms(3) by (simp add: word_le_nat_alt)
  then have r: "unat r = unat mw - unat un - 1460" by (simp add: r_def unat_sub a b)
  have small: "unat r < 2 ^ 16" using r assms(4) by linarith
  then show "\<not> bit r 18" using bit_iff_odd [of "unat r" 18] by (simp add: bit_unsigned_iff)
  show "unat (get_range 0 r :: TcpSessionBuffer) = unat mw - unat un - 1460"
    using r small by (simp add: get_range_def unsigned_ucast_eq take_bit_nat_eq_self)
qed

lemma tx_loaded_cycle:
  assumes "tx_started sid s" and "xf_tx_rx_sar_loaded s" and "\<not> bit (xf_remaining_window s) 18"
  shows "TxEngTcpFsm bld u v s = tx_segment u v (xf_tx_sar_rsp_reg s) (get_range 0 (xf_remaining_window s)) s"
  using assms by (simp add: TxEngTcpFsm_def tx_started_def tx_event_def)

lemma tx_done_after:
  "segments_sent sid [m] s z \<Longrightarrow> xf_tx_eng_to_tx_sar_req z = xf_tx_eng_to_tx_sar_req s \<Longrightarrow>
   xf_retransmission z = xf_retransmission s \<and> xf_rx_sar_rsp_reg z = xf_rx_sar_rsp_reg s \<Longrightarrow> tx_done sid ms na aw fin z y \<Longrightarrow>
   tx_done sid (m # ms) na aw fin s y"
  using segments_sent_append [of sid "[m]" s z ms y] by (simp add: tx_done_def)

lemma short_advances:
  fixes c c' :: TcpSessionBuffer and na na' :: "32 word"
  assumes "unat c' = unat c - 1460" and "1460 \<le> unat c" and "na' = na + ucast c"
  shows "na' = na + 1460 + ucast c'"
proof -
  have "(ucast c :: 32 word) = of_nat (unat c)" "(ucast c' :: 32 word) = of_nat (unat c')"
    by (rule of_nat_unat [symmetric])+
  then show ?thesis using assms by (simp add: of_nat_diff)
qed

lemma tx_data_sent:
  fixes t :: TxSarToTxEngRsp
  assumes "tx_started sid s" and "unat (xf_curr_length s) < 2 ^ 16" and "unat (tte_min_window t) < 2 ^ 16"
    and "unat w = unat (tte_min_window t) - unat (xf_used_length s)"
    and "tte_ackd_eq_not_ackd t \<Longrightarrow> tte_not_ackd_short t = tte_not_ackd t + ucast (xf_curr_length s)"
  shows "\<exists>k \<le> min (unat (xf_curr_length s)) (unat w) div 1460.
     tx_done sid (tx_segments (xf_tcp_tx_meta_reg s) (tte_not_ackd t) (segment_lengths (min (unat (xf_curr_length s)) (unat w))))
       (tte_not_ackd t + of_nat (min (unat (xf_curr_length s)) (unat w)))
       (tte_app_written t) (tte_fin_is_ready t \<and> unat (xf_curr_length s) \<le> unat w \<and> (tte_ackd_eq_not_ackd t \<or> unat (xf_curr_length s) mod 1460 = 0))
       s ((TxEngTcpFsm bld u v ^^ k) (tx_segment u v t w s))"
  using assms
proof (induction "min (unat (xf_curr_length s)) (unat w)" arbitrary: s t w rule: less_induct)
  case less
  let ?c = "unat (xf_curr_length s)" and ?z = "tx_segment u v t w s"
  show ?case
  proof (cases "min ?c (unat w) < 1460")
    case True
    have "(?c mod 1460 = 0) = (xf_curr_length s = 0)" if "?c \<le> unat w" using that True by (simp add: unsigned_eq_0_iff)
    then have f: "(tte_fin_is_ready t \<and> xf_curr_length s \<le> w \<and> (tte_ackd_eq_not_ackd t \<or> xf_curr_length s = 0))
        = (tte_fin_is_ready t \<and> ?c \<le> unat w \<and> (tte_ackd_eq_not_ackd t \<or> ?c mod 1460 = 0))"
      by (cases "?c \<le> unat w") (simp_all add: word_le_nat_alt)
    have na: "(if tte_ackd_eq_not_ackd t \<and> xf_curr_length s \<le> w then tte_not_ackd_short t else tte_not_ackd t + of_nat (min ?c (unat w)))
        = tte_not_ackd t + of_nat (min ?c (unat w))"
      using less.prems(5) of_nat_unat [where w = "xf_curr_length s" and 'a = "32 word"] by (simp add: word_le_nat_alt min_def)
    show ?thesis
      using tx_segment_last [OF less.prems(1) True, of t u v] unfolding f na by (intro exI [of _ 0]) simp
  next
    case False
    then have big: "1460 \<le> ?c" "1460 \<le> unat w" by simp_all
    note z = tx_segment_full [OF less.prems(1) big, where t = t and u = u and v = v]
    note l = next_lengths [OF big(1) less.prems(2), of "tte_min_window t" "xf_used_length s"]
    let ?w = "get_range 0 (xf_remaining_window ?z) :: TcpSessionBuffer"
    have l1: "unat (xf_curr_length ?z) = ?c - 1460" "unat (xf_used_length ?z) = unat (xf_used_length s) + 1460"
        "\<not> bit (xf_remaining_window ?z) 18" "unat ?w = unat w - 1460"
      using l big less.prems(3,4) by (simp_all add: z)
    have m: "min (?c - 1460) (unat w - 1460) = min ?c (unat w) - 1460" by simp
    have short: "tte_not_ackd_short t = tte_not_ackd t + 1460 + ucast (xf_curr_length ?z)" if "tte_ackd_eq_not_ackd t"
      by (rule short_advances [OF l1(1) big(1) less.prems(5) [OF that]])
    have h: "min (unat (xf_curr_length ?z)) (unat ?w) < min ?c (unat w)" "unat (xf_curr_length ?z) < 2 ^ 16"
        "unat (tte_min_window (xf_tx_sar_rsp_reg ?z)) < 2 ^ 16"
        "unat ?w = unat (tte_min_window (xf_tx_sar_rsp_reg ?z)) - unat (xf_used_length ?z)"
      unfolding l1 z(4) m using big less.prems(2,3,4) by (simp_all, linarith)
    have h': "tte_not_ackd_short (xf_tx_sar_rsp_reg ?z) = tte_not_ackd (xf_tx_sar_rsp_reg ?z) + ucast (xf_curr_length ?z)"
      if "tte_ackd_eq_not_ackd (xf_tx_sar_rsp_reg ?z)"
      using short that by (simp add: z(4))
    obtain k where k: "k \<le> (min ?c (unat w) - 1460) div 1460"
      and d: "tx_done sid (tx_segments (xf_tcp_tx_meta_reg s) (tte_not_ackd t + 1460) (segment_lengths (min ?c (unat w) - 1460)))
         (tte_not_ackd t + 1460 + of_nat (min ?c (unat w) - 1460))
         (tte_app_written t) (tte_fin_is_ready t \<and> ?c - 1460 \<le> unat w - 1460 \<and> (tte_ackd_eq_not_ackd t \<or> (?c - 1460) mod 1460 = 0))
         ?z ((TxEngTcpFsm bld u v ^^ k) (tx_segment u v (xf_tx_sar_rsp_reg ?z) ?w ?z))"
      using less.hyps [OF h(1) z(1) h(2-4) h', unfolded l1 m z(3) tx_segments_meta] by (auto simp: z(4))
    have s: "TxEngTcpFsm bld u v ?z = tx_segment u v (xf_tx_sar_rsp_reg ?z) ?w ?z"
      by (rule tx_loaded_cycle [OF z(1,2) l1(3)])
    have e: "tx_segments (xf_tcp_tx_meta_reg s) (tte_not_ackd t) (segment_lengths (min ?c (unat w)))
        = (xf_tcp_tx_meta_reg s)\<lparr>xm_seq_number := tte_not_ackd t, xm_length := 1460\<rparr>
          # tx_segments (xf_tcp_tx_meta_reg s) (tte_not_ackd t + 1460) (segment_lengths (min ?c (unat w) - 1460))"
      using big by (simp add: segment_lengths_full)
    have na: "tte_not_ackd t + 1460 + of_nat (min ?c (unat w) - 1460) = tte_not_ackd t + of_nat (min ?c (unat w))"
      using big by (simp add: of_nat_diff)
    have c: "(?c - 1460 \<le> unat w - 1460) = (?c \<le> unat w)" "(?c - 1460) mod 1460 = ?c mod 1460"
      using big by (auto simp: le_mod_geq)
    have "Suc k \<le> min ?c (unat w) div 1460" using k big by (simp add: le_div_geq)
    then show ?thesis
      using tx_done_after [OF z(9,8,10) d [unfolded na c]]
      by (intro exI [of _ "Suc k"]) (simp add: e funpow_Suc_apply s del: funpow.simps)
  qed
qed

text \<open>The unsent data, and the window that the peer and the congestion control admit.\<close>

definition unsent :: "TxSarTableEntry \<Rightarrow> nat" where
  "unsent e = nat ((uint (txe_app_written e) - uint (txe_not_ackd e)) mod BUFFER_SIZE)"

definition send_window :: "TxSarTableEntry \<Rightarrow> nat" where
  "send_window e = nat (min (uint (txe_cong_window e)) (peer_window e))"

definition sendable :: "TxSarTableEntry \<Rightarrow> nat" where
  "sendable e = min (unsent e) (send_window e - nat (in_flight e))"

lemma lookup_numbers:
  assumes "txe_win_shift e \<noteq> 3"
  shows "unat (tte_curr_length (tx_sar_lookup e)) = unsent e" and "unat (tte_min_window (tx_sar_lookup e)) = send_window e"
    and "unat (tte_usable_window (tx_sar_lookup e)) = send_window e - nat (in_flight e)"
    and "unat (tte_used_length (tx_sar_lookup e)) = nat (in_flight e)"
    and "tte_not_ackd_short (tx_sar_lookup e) = tte_not_ackd (tx_sar_lookup e) + ucast (tte_curr_length (tx_sar_lookup e))"
proof -
  have "uint (tte_curr_length (tx_sar_lookup e)) = (uint (txe_app_written e) - uint (txe_not_ackd e)) mod BUFFER_SIZE"
    by (simp add: tx_sar_lookup_def Let_def TxSarToTxEngRsp_default_def uint_word_ariths uint_get_range mod_simps)
  then show "unat (tte_curr_length (tx_sar_lookup e)) = unsent e" by (simp add: unsent_def unat_eq_nat_uint)
  have m: "tte_min_window (tx_sar_lookup e) = tx_sar_min_win e"
    by (simp add: tx_sar_lookup_def Let_def TxSarToTxEngRsp_default_def)
  then show w: "unat (tte_min_window (tx_sar_lookup e)) = send_window e"
    by (simp add: send_window_def unat_eq_nat_uint min_window [OF assms])
  show u: "unat (tte_used_length (tx_sar_lookup e)) = nat (in_flight e)"
    by (simp add: unat_eq_nat_uint used_length)
  have "tte_usable_window (tx_sar_lookup e) = (if tte_used_length (tx_sar_lookup e) < tte_min_window (tx_sar_lookup e)
        then tte_min_window (tx_sar_lookup e) - tte_used_length (tx_sar_lookup e) else 0)"
    unfolding m by (simp add: tx_sar_lookup_def Let_def TxSarToTxEngRsp_default_def)
  then show "unat (tte_usable_window (tx_sar_lookup e)) = send_window e - nat (in_flight e)"
    by (auto simp: u [symmetric] w [symmetric] word_less_nat_alt unat_sub word_le_nat_alt)
  show "tte_not_ackd_short (tx_sar_lookup e) = tte_not_ackd (tx_sar_lookup e) + ucast (tte_curr_length (tx_sar_lookup e))"
    by (simp add: tx_sar_lookup_def Let_def TxSarToTxEngRsp_default_def)
qed

text \<open>The header of the data segments of an event.\<close>

definition data_header :: "RxSarLookupRsp \<Rightarrow> TxEngFsmMetaData \<Rightarrow> TxEngFsmMetaData" where
  "data_header r m = (meta_flags True False False m)
     \<lparr>xm_win_size := rxl_win_size r, xm_length := 0, xm_ack_number := rxl_recvd r\<rparr>"

lemma segment_lengths_bounds: "l \<in> set (segment_lengths n) \<Longrightarrow> 0 < l \<and> l \<le> 1460"
  by (auto simp: segment_lengths_def split: if_splits)

lemma tx_event_done:
  assumes "xf_fsm_state s = TX_TRANSITION" and "ev_type (xf_tx_eng_event_reg s) = TX" and "\<not> xf_tx_rx_sar_loaded s"
    and "xf_rx_sar_to_tx_eng_lup_rsp s = r # rs" and "xf_tx_sar_to_tx_eng_rsp s = tx_sar_lookup e # ts"
    and "txe_win_shift e \<noteq> 3" and "unsent e < 2 ^ 16" and "send_window e < 2 ^ 16"
  shows "\<exists>k \<le> sendable e div 1460. tx_done (xf_session s)
        (tx_segments (data_header r (xf_tcp_tx_meta_reg s)) (txe_not_ackd e) (segment_lengths (sendable e)))
        (txe_not_ackd e + of_nat (sendable e)) (txe_app_written e)
        (txe_fin_is_ready e \<and> unsent e \<le> send_window e - nat (in_flight e) \<and> (txe_ackd e = txe_not_ackd e \<or> unsent e mod 1460 = 0))
        (s\<lparr>xf_rx_sar_rsp_reg := r\<rparr>) ((TxEngTcpFsm bld u v ^^ Suc k) s)"
proof -
  note l = lookup_numbers [OF assms(6)]
  let ?t = "tx_sar_lookup e" and ?s = "tx_take_windows r (tx_sar_lookup e)
      (s\<lparr>xf_rx_sar_to_tx_eng_lup_rsp := rs, xf_tx_sar_to_tx_eng_rsp := ts\<rparr>)"
  have f: "tte_not_ackd ?t = txe_not_ackd e" "tte_fin_is_ready ?t = txe_fin_is_ready e" "tte_app_written ?t = txe_app_written e"
      "tte_ackd_eq_not_ackd ?t = (txe_ackd e = txe_not_ackd e)"
    by (simp_all add: tx_sar_lookup_def Let_def TxSarToTxEngRsp_default_def)
  have st: "TxEngTcpFsm bld u v s = tx_segment u v ?t (tte_usable_window ?t) ?s"
    using assms(1-5) by (simp add: TxEngTcpFsm_def tx_event_def)
  have c: "xf_curr_length ?s = tte_curr_length ?t" "xf_used_length ?s = tte_used_length ?t"
      "xf_tcp_tx_meta_reg ?s = data_header r (xf_tcp_tx_meta_reg s)" "tx_started (xf_session s) ?s"
    using assms(1,2) by (simp_all add: tx_take_windows_def data_header_def tx_started_def)
  have same: "tx_done sid ms na aw fin ?s z = tx_done sid ms na aw fin (s\<lparr>xf_rx_sar_rsp_reg := r\<rparr>) z" for sid ms na aw fin z
    by (simp add: tx_done_def segments_sent_def tx_take_windows_def)
  show ?thesis
    using tx_data_sent [OF c(4), of ?t "tte_usable_window ?t" bld u v] assms(7,8)
    by (auto simp: c(1-3) l f same sendable_def funpow_Suc_apply st simp del: funpow.simps)
qed

text \<open>C3: A transmission event sends all the unsent data that the congestion window and the peer's window
  admit and not a byte more, in contiguous segments from the first unsent byte on, of 1460 bytes each but
  the last; each comes with the memory command for its bytes, its reverse lookup and the retransmission
  timer; \<open>not_ackd\<close> is moved over it with one request, and the process goes on to the \<open>FIN\<close> of the session
  if that is due and to the next event otherwise.  The data and the window are below 64 KiB, and the window shift of
  the peer, which has two bits, is not 3: the options are parsed to at most 2, and a window shifted by 3 does not fit its field in the table.\<close>

theorem tx_event_sends_window:
  assumes "xf_fsm_state s = TX_TRANSITION" and "ev_type (xf_tx_eng_event_reg s) = TX" and "\<not> xf_tx_rx_sar_loaded s"
    and "xf_rx_sar_to_tx_eng_lup_rsp s = r # rs" and "xf_tx_sar_to_tx_eng_rsp s = tx_sar_lookup e # ts"
    and "txe_win_shift e \<noteq> 3" and "unsent e < 2 ^ 16" and "send_window e < 2 ^ 16"
  shows "sum_list (segment_lengths (sendable e)) = sendable e \<and> (\<forall>l \<in> set (segment_lengths (sendable e)). 0 < l \<and> l \<le> 1460) \<and>
     (\<exists>k \<le> sendable e div 1460. tx_done (xf_session s)
        (tx_segments (data_header r (xf_tcp_tx_meta_reg s)) (txe_not_ackd e) (segment_lengths (sendable e)))
        (txe_not_ackd e + of_nat (sendable e)) (txe_app_written e)
        (txe_fin_is_ready e \<and> unsent e \<le> send_window e - nat (in_flight e) \<and> (txe_ackd e = txe_not_ackd e \<or> unsent e mod 1460 = 0))
        (s\<lparr>xf_rx_sar_rsp_reg := r\<rparr>) ((TxEngTcpFsm bld u v ^^ Suc k) s))"
  using tx_event_done [OF assms] by (simp add: sum_segment_lengths segment_lengths_bounds)

definition tx_demo_event :: "EventType \<Rightarrow> TxSarTableEntry \<Rightarrow> TxFsm" where
  "tx_demo_event type e = tx_fsm_init\<lparr>xf_fsm_state := TX_TRANSITION,
     xf_tx_eng_event_reg := EventWithTuple_of_event (Event_basic type 3),
     xf_rx_sar_to_tx_eng_lup_rsp := [\<lparr>rxl_recvd = 77, rxl_win_shift = 2, rxl_win_size = 500\<rparr>],
     xf_tx_sar_to_tx_eng_rsp := [tx_sar_lookup e]\<rparr>"

lemma tx_demo_event_simps [simp]:
  "xf_fsm_state (tx_demo_event type e) = TX_TRANSITION" "xf_tx_rx_sar_loaded (tx_demo_event type e) = False"
  "ev_type (xf_tx_eng_event_reg (tx_demo_event type e)) = type" "xf_session (tx_demo_event type e) = 3"
  "ev_retrans_cnt (xf_tx_eng_event_reg (tx_demo_event type e)) = 0"
  "xf_rx_sar_to_tx_eng_lup_rsp (tx_demo_event type e) = [\<lparr>rxl_recvd = 77, rxl_win_shift = 2, rxl_win_size = 500\<rparr>]"
  "xf_tx_sar_to_tx_eng_rsp (tx_demo_event type e) = [tx_sar_lookup e]"
  "xf_tx_eng_fsm_meta_data_out (tx_demo_event type e) = []" "xf_tx_eng_to_tx_sar_req (tx_demo_event type e) = []"
  "xf_tx_eng_to_mem_read_cmd (tx_demo_event type e) = []" "xf_retrans_seg_cnt (tx_demo_event type e) = 0"
  by (simp_all add: tx_demo_event_def tx_fsm_init_def EventWithTuple_of_event_def Event_basic_def)

text \<open>2000 bytes to send, 500 in flight, a window of 4000.\<close>

definition tx_demo_entry :: TxSarTableEntry where
  "tx_demo_entry = \<lparr>txe_ackd = 100, txe_not_ackd = 600, txe_recv_window = 1000, txe_app_written = 2600, txe_cong_window = 14600,
     txe_slowstart_threshold = 262143, txe_win_shift = 2, txe_retrans_count = 0, txe_fast_retrans = False,
     txe_fin_is_ready = False, txe_fin_is_sent = False\<rparr>"

lemma tx_demo_entry_simps [simp]:
  "txe_not_ackd tx_demo_entry = 600" "txe_ackd tx_demo_entry = 100" "txe_app_written tx_demo_entry = 2600"
  "txe_win_shift tx_demo_entry = 2" "\<not> txe_fin_is_ready tx_demo_entry"
  by (simp_all add: tx_demo_entry_def)

theorem tx_event_sends_window_witness:
  "\<exists>k \<le> 1. xf_tx_eng_to_tx_sar_req ((TxEngTcpFsm Simulation 0 0 ^^ Suc k) (tx_demo_event TX tx_demo_entry))
       = [TxEngToTxSarReq_write 3 2600 False False False] \<and>
     map xm_length (xf_tx_eng_fsm_meta_data_out ((TxEngTcpFsm Simulation 0 0 ^^ Suc k) (tx_demo_event TX tx_demo_entry))) = [1460, 540]"
proof -
  have n: "unsent tx_demo_entry = 2000" "send_window tx_demo_entry = 4000" "nat (in_flight tx_demo_entry) = 500"
    by (simp_all add: unsent_def send_window_def peer_window_def in_flight_def tx_demo_entry_def)
  show ?thesis
    using tx_event_sends_window [of "tx_demo_event TX tx_demo_entry" "\<lparr>rxl_recvd = 77, rxl_win_shift = 2, rxl_win_size = 500\<rparr>" "[]"
        tx_demo_entry "[]" Simulation 0 0]
    by (auto simp: n sendable_def tx_done_def segments_sent_def segment_lengths_def simp del: funpow.simps)
qed

section \<open>The \<open>FIN\<close>\<close>

definition fin_header :: "RxSarLookupRsp \<Rightarrow> 32 word \<Rightarrow> TxEngFsmMetaData \<Rightarrow> TxEngFsmMetaData" where
  "fin_header r seq m = (meta_flags True False True m)
     \<lparr>xm_ack_number := rxl_recvd r, xm_win_size := rxl_win_size r, xm_length := 0, xm_seq_number := seq\<rparr>"

text \<open>The decision about the \<open>FIN\<close> of a session whose row of the table is \<open>t\<close>, first time and retransmission.\<close>

lemma fin_segment_result:
  "let t' = fin_segment t s; rt = xf_retransmission s; q = tte_not_ackd t - of_bool rt; go = (get_range 0 q = tte_app_written t) in
     xf_fsm_state t' = TX_LOAD \<and>
     xf_tx_eng_fsm_meta_data_out t' = xf_tx_eng_fsm_meta_data_out s @
       (if go then [fin_header (xf_rx_sar_rsp_reg s) q (xf_tcp_tx_meta_reg s)] else []) \<and>
     xf_tx_eng_to_timer_set_rtimer t' = xf_tx_eng_to_timer_set_rtimer s @
       (if go then [\<lparr>tr_session_id = xf_session s, tr_type = RT\<rparr>] else []) \<and>
     xf_tx_eng_to_tx_sar_req t' = xf_tx_eng_to_tx_sar_req s @
       (if rt then [] else [TxEngToTxSarReq_write (xf_session s) (q + of_bool go) False True go])"
  by (cases "xf_retransmission s")
    (auto simp: fin_segment_def fin_header_def Let_def update_tx_sar_def set_rtimer_def write_segment_def write_meta_def)

text \<open>The number behind the unsent data is that of the end of what the application has written.\<close>

lemma unsent_zero: "unsent e = 0 \<longleftrightarrow> get_range 0 (txe_not_ackd e) = txe_app_written e"
proof -
  have "uint (txe_app_written e - get_range 0 (txe_not_ackd e)) = (uint (txe_app_written e) - uint (txe_not_ackd e)) mod BUFFER_SIZE"
    by (simp add: uint_word_ariths uint_get_range mod_simps)
  then have "unsent e = unat (txe_app_written e - get_range 0 (txe_not_ackd e))" by (simp add: unsent_def unat_eq_nat_uint)
  then show ?thesis by (auto simp: unsigned_eq_0_iff)
qed

lemma unsent_end: "get_range 0 (txe_not_ackd e + of_nat (unsent e)) = txe_app_written e"
proof -
  have "uint (txe_app_written e - get_range 0 (txe_not_ackd e)) = (uint (txe_app_written e) - uint (txe_not_ackd e)) mod BUFFER_SIZE"
    by (simp add: uint_word_ariths uint_get_range mod_simps)
  then have "unsent e = unat (txe_app_written e - get_range 0 (txe_not_ackd e))" by (simp add: unsent_def unat_eq_nat_uint)
  then have "of_nat (unsent e) = (ucast (txe_app_written e - get_range 0 (txe_not_ackd e)) :: 32 word)"
    by (simp only: of_nat_unat)
  then show ?thesis
    by (simp add: word_uint_eq_iff uint_word_ariths unsigned_ucast_eq take_bit_eq_mod uint_get_range mod_mod_cancel mod_simps)
      (use uint_lt2p [of "txe_app_written e"] in simp)
qed

text \<open>A \<open>FIN\<close> that was delayed is sent by the transmission event that sends the last data of the session: when
  all unsent data fits the window, and either nothing is in flight or the data fills its segments, the
  data segments are followed by the \<open>FIN\<close> with the number behind them, and both are stored.\<close>

theorem delayed_fin_follows_data:
  assumes "xf_fsm_state s = TX_TRANSITION" and "ev_type (xf_tx_eng_event_reg s) = TX" and "\<not> xf_tx_rx_sar_loaded s"
    and "xf_rx_sar_to_tx_eng_lup_rsp s = r # rs" and "xf_tx_sar_to_tx_eng_rsp s = tx_sar_lookup e # ts"
    and "txe_win_shift e \<noteq> 3" and "unsent e < 2 ^ 16" and "send_window e < 2 ^ 16"
    and "\<not> xf_retransmission s" and "txe_fin_is_ready e" and "unsent e \<le> send_window e - nat (in_flight e)"
    and "txe_ackd e = txe_not_ackd e \<or> unsent e mod 1460 = 0"
  shows "\<exists>k \<le> unsent e div 1460. \<exists>f. let z = (TxEngTcpFsm bld u v ^^ (k + 2)) s; na = txe_not_ackd e + of_nat (unsent e) in
     xf_fsm_state z = TX_LOAD \<and>
     xf_tx_eng_fsm_meta_data_out z = xf_tx_eng_fsm_meta_data_out s @
       tx_segments (data_header r (xf_tcp_tx_meta_reg s)) (txe_not_ackd e) (segment_lengths (unsent e)) @ [f] \<and>
     xm_fin f \<and> xm_ack f \<and> \<not> xm_syn f \<and> xm_length f = 0 \<and> xm_seq_number f = na \<and> xm_ack_number f = rxl_recvd r \<and>
     xf_tx_eng_to_tx_sar_req z = xf_tx_eng_to_tx_sar_req s @
       [TxEngToTxSarReq_write (xf_session s) na False False False, TxEngToTxSarReq_write (xf_session s) (na + 1) False True True]"
proof -
  let ?na = "txe_not_ackd e + of_nat (unsent e)"
  have n: "sendable e = unsent e" using assms(11) by (simp add: sendable_def)
  have due: "(txe_fin_is_ready e \<and> unsent e \<le> send_window e - nat (in_flight e) \<and>
      (txe_ackd e = txe_not_ackd e \<or> unsent e mod 1460 = 0)) = True"
    using assms(10-12) by simp
  obtain k z where k: "k \<le> unsent e div 1460" and z: "z = (TxEngTcpFsm bld u v ^^ Suc k) s"
    and d: "tx_done (xf_session s) (tx_segments (data_header r (xf_tcp_tx_meta_reg s)) (txe_not_ackd e) (segment_lengths (unsent e)))
        ?na (txe_app_written e) True (s\<lparr>xf_rx_sar_rsp_reg := r\<rparr>) z"
    using tx_event_done [OF assms(1-8), of bld u v] unfolding n due by blast
  have f: "xf_fsm_state z = TX_TRANSITION" "ev_type (xf_tx_eng_event_reg z) = FIN" "xf_tx_rx_sar_loaded z"
      "\<not> xf_retransmission z" "tte_not_ackd (xf_tx_sar_rsp_reg z) = ?na" "tte_app_written (xf_tx_sar_rsp_reg z) = txe_app_written e"
      "xf_rx_sar_rsp_reg z = r" "xf_session z = xf_session s"
    using d assms(9) by (simp_all add: tx_done_def)
  note all = unsent_end [of e, symmetric]
  have st: "(TxEngTcpFsm bld u v ^^ Suc (Suc k)) s = fin_segment (xf_tx_sar_rsp_reg z) z"
    using f(1-3) z by (simp add: TxEngTcpFsm_def fin_event_def)
  show ?thesis
    using k d fin_segment_result [of "xf_tx_sar_rsp_reg z" z]
    by (intro exI [of _ k] exI [of _ "fin_header r ?na (xf_tcp_tx_meta_reg z)"])
      (simp add: st f all Let_def tx_done_def segments_sent_def fin_header_def del: funpow.simps)
qed

theorem delayed_fin_follows_data_witness:
  "\<exists>k \<le> 1. let ms = xf_tx_eng_fsm_meta_data_out ((TxEngTcpFsm Simulation 0 0 ^^ (k + 2))
       (tx_demo_event TX (tx_demo_entry\<lparr>txe_fin_is_ready := True, txe_ackd := 600\<rparr>))) in
     map xm_length ms = [1460, 540, 0] \<and> xm_fin (last ms) \<and> xm_seq_number (last ms) = 2600"
proof -
  let ?e = "tx_demo_entry\<lparr>txe_fin_is_ready := True, txe_ackd := 600\<rparr>"
  have n: "unsent ?e = 2000" "send_window ?e = 4000" "in_flight ?e = 0"
    by (simp_all add: unsent_def send_window_def peer_window_def in_flight_def tx_demo_entry_def)
  obtain k f where "k \<le> 1" "xm_fin f" "xm_seq_number f = 2600" "xm_length f = 0"
      "xf_tx_eng_fsm_meta_data_out ((TxEngTcpFsm Simulation 0 0 ^^ (k + 2)) (tx_demo_event TX ?e))
        = tx_segments (data_header \<lparr>rxl_recvd = 77, rxl_win_shift = 2, rxl_win_size = 500\<rparr>
            (xf_tcp_tx_meta_reg (tx_demo_event TX ?e))) 600 (segment_lengths 2000) @ [f]"
    using delayed_fin_follows_data [of "tx_demo_event TX ?e" "\<lparr>rxl_recvd = 77, rxl_win_shift = 2, rxl_win_size = 500\<rparr>" "[]"
        ?e "[]" Simulation 0 0]
    by (auto simp: n Let_def simp del: funpow.simps add_2_eq_Suc')
  then show ?thesis by (intro exI [of _ k]) (simp add: segment_lengths_def Let_def del: funpow.simps add_2_eq_Suc')
qed

end
