(* ===== verification/Tx_Retransmit.thy ===== *)
theory Tx_Retransmit
  imports Tx_Fsm_Props
begin

text \<open>
  Retransmission by \<open>TxEngTcpFsm\<close>, the \<open>FIN\<close> on all three paths that lead to it, and the situations in which the
  process does something else than its events ask for: the second segment of a retransmission is read from the wrong place, a reset can be
  dropped, and data that the application never wrote can be sent.
\<close>

section \<open>Retransmission\<close>

definition rt_header :: "RxSarLookupRsp \<Rightarrow> TxEngFsmMetaData \<Rightarrow> TxEngFsmMetaData" where
  "rt_header r m = (meta_flags True False False m)\<lparr>xm_ack_number := rxl_recvd r, xm_win_size := rxl_win_size r\<rparr>"

lemma rt_header_idem [simp]: "rt_header r ((rt_header r m)\<lparr>xm_seq_number := q, xm_length := l\<rparr>) =
    (rt_header r m)\<lparr>xm_seq_number := q, xm_length := l\<rparr>"
  by (cases m) (simp add: rt_header_def meta_flags_def)

text \<open>What a retransmission writes besides the slow start threshold: headers from the first unacknowledged byte
  on, and the commands, the first of which reads from \<open>a\<close> and the others from \<open>b\<close>.\<close>

fun rt_commands :: "32 word \<Rightarrow> 32 word \<Rightarrow> TxEngFsmMetaData list \<Rightarrow> MemBufferRWCmd list" where
  "rt_commands a b [] = []"
| "rt_commands a b (m # ms) = MemBufferRWCmd_new a (xm_length m) # map (\<lambda>m. MemBufferRWCmd_new b (xm_length m)) ms"

text \<open>The only request to the table is the one that lowers the threshold, for the first retransmission.\<close>

definition rt_requests :: "TxSarToTxEngRsp \<Rightarrow> TxFsm \<Rightarrow> TxEngToTxSarReq list" where
  "rt_requests t s =
     (if \<not> xf_tx_rx_sar_loaded s \<and> ev_retrans_cnt (xf_tx_eng_event_reg s) = 1
      then [TxEngToTxSarRetransReq (xf_session s) (ucast ((if word_of_int (4 * TCP_MSS) < tte_used_length_rst t
        then ucast (tte_used_length_rst t div 2) else word_of_int (2 * TCP_MSS)) :: 16 word))]
      else [])"

text \<open>Besides it writes headers and commands, and keeps what the \<open>FIN\<close> behind it needs.\<close>

definition rt_done :: "TxSarToTxEngRsp \<Rightarrow> TxEngFsmMetaData list \<Rightarrow> 32 word \<Rightarrow> bool \<Rightarrow> TxFsm \<Rightarrow> TxFsm \<Rightarrow> bool" where
  "rt_done t ms a fin s z \<longleftrightarrow>
     xf_tx_eng_fsm_meta_data_out z = xf_tx_eng_fsm_meta_data_out s @ ms \<and>
     xf_tx_eng_to_mem_read_cmd z = xf_tx_eng_to_mem_read_cmd s @
       rt_commands a (GetSessionMemAddr False (xf_session s) 0) ms \<and> xf_session z = xf_session s \<and>
     xf_tx_eng_to_tx_sar_req z = xf_tx_eng_to_tx_sar_req s @ rt_requests t s \<and>
     ev_retrans_cnt (xf_tx_eng_event_reg z) = ev_retrans_cnt (xf_tx_eng_event_reg s) \<and> xf_tx_rx_sar_loaded z \<and>
     xf_rx_sar_rsp_reg z = xf_rx_sar_rsp_reg s \<and> tte_not_ackd (xf_tx_sar_rsp_reg z) = tte_not_ackd t \<and>
     tte_app_written (xf_tx_sar_rsp_reg z) = tte_app_written t \<and>
     (if fin then xf_fsm_state z = TX_TRANSITION \<and> ev_type (xf_tx_eng_event_reg z) = FIN else xf_fsm_state z = TX_LOAD)"

lemma rt_slowstart_keeps [simp]:
  "xf_fsm_state (rt_slowstart s) = xf_fsm_state s" "xf_tx_eng_event_reg (rt_slowstart s) = xf_tx_eng_event_reg s"
  "xf_tx_eng_fsm_meta_data_out (rt_slowstart s) = xf_tx_eng_fsm_meta_data_out s"
  "xf_tx_eng_to_mem_read_cmd (rt_slowstart s) = xf_tx_eng_to_mem_read_cmd s"
  "xf_tx_rx_sar_loaded (rt_slowstart s) = xf_tx_rx_sar_loaded s" "xf_rx_sar_rsp_reg (rt_slowstart s) = xf_rx_sar_rsp_reg s"
  by (simp_all add: rt_slowstart_def Let_def)

lemma rt_segment_keeps:
  "xf_tx_eng_to_tx_sar_req (rt_segment t a s) = xf_tx_eng_to_tx_sar_req s @ rt_requests t s"
  "ev_retrans_cnt (xf_tx_eng_event_reg (rt_segment t a s)) = ev_retrans_cnt (xf_tx_eng_event_reg s)"
  "xf_tx_rx_sar_loaded (rt_segment t a s) = xf_tx_rx_sar_loaded s"
  "xf_rx_sar_rsp_reg (rt_segment t a s) = xf_rx_sar_rsp_reg s"
  "tte_not_ackd (xf_tx_sar_rsp_reg (rt_segment t a s)) = tte_not_ackd t"
  "tte_app_written (xf_tx_sar_rsp_reg (rt_segment t a s)) = tte_app_written t"
  by (simp_all add: rt_segment_def rt_choose_def rt_slowstart_def rt_requests_def write_payload_segment_def set_rtimer_def
      write_segment_def write_meta_def set_event_type_def Let_def)

lemma rt_segment_full:
  fixes a :: "32 word"
  assumes "1460 < unat (tte_used_length_rst t)" and "xf_fsm_state s = TX_TRANSITION"
  defines "z \<equiv> rt_segment t a s" and "m \<equiv> (rt_header (xf_rx_sar_rsp_reg s) (xf_tcp_tx_meta_reg s))
      \<lparr>xm_seq_number := tte_ackd t, xm_length := 1460\<rparr>"
  shows "xf_tcp_tx_meta_reg z = m" and "xf_tx_eng_fsm_meta_data_out z = xf_tx_eng_fsm_meta_data_out s @ [m]"
    and "xf_tx_eng_to_mem_read_cmd z = xf_tx_eng_to_mem_read_cmd s @ [MemBufferRWCmd_new a 1460]"
    and "xf_session z = xf_session s" and "xf_rx_sar_rsp_reg z = xf_rx_sar_rsp_reg s"
    and "ev_type (xf_tx_eng_event_reg z) = RT_CONT"
    and "xf_fsm_state z = (if xf_retrans_seg_cnt s = 3 then TX_LOAD else TX_TRANSITION)"
    and "xf_retrans_seg_cnt z = xf_retrans_seg_cnt s + 1"
    and "xf_tx_sar_rsp_reg z = t\<lparr>tte_ackd := tte_ackd t + 1460, tte_used_length_rst := tte_used_length_rst t - 1460\<rparr>"
proof -
  have c: "1460 < tte_used_length_rst t" using assms(1) by (simp add: word_less_nat_alt)
  have h: "(meta_flags True False False (xf_tcp_tx_meta_reg s))\<lparr>xm_ack_number := rxl_recvd (xf_rx_sar_rsp_reg s),
      xm_seq_number := tte_ackd t, xm_win_size := rxl_win_size (xf_rx_sar_rsp_reg s), xm_length := 1460\<rparr> = m"
    by (cases "xf_tcp_tx_meta_reg s") (simp add: m_def rt_header_def meta_flags_def)
  have len: "xm_length m = 1460" by (simp add: m_def)
  show "xf_tcp_tx_meta_reg z = m" "xf_tx_eng_fsm_meta_data_out z = xf_tx_eng_fsm_meta_data_out s @ [m]"
    "xf_tx_eng_to_mem_read_cmd z = xf_tx_eng_to_mem_read_cmd s @ [MemBufferRWCmd_new a 1460]"
    "xf_session z = xf_session s" "xf_rx_sar_rsp_reg z = xf_rx_sar_rsp_reg s"
    "ev_type (xf_tx_eng_event_reg z) = RT_CONT"
    "xf_fsm_state z = (if xf_retrans_seg_cnt s = 3 then TX_LOAD else TX_TRANSITION)"
    "xf_retrans_seg_cnt z = xf_retrans_seg_cnt s + 1"
    "xf_tx_sar_rsp_reg z = t\<lparr>tte_ackd := tte_ackd t + 1460, tte_used_length_rst := tte_used_length_rst t - 1460\<rparr>"
    using c assms(2) h len
    by (simp_all add: z_def rt_segment_def rt_choose_def Let_def set_event_type_def write_payload_segment_def set_rtimer_def
        write_segment_def write_meta_def)
qed

lemma zero_iff: "unat (x :: 'a::len word) = n \<Longrightarrow> x = 0 \<longleftrightarrow> n = 0"
  by (auto simp: unsigned_eq_0_iff)

lemma rt_segment_last:
  assumes "unat (tte_used_length_rst t) \<le> 1460" and "xf_fsm_state s = TX_TRANSITION"
  shows "rt_done t (tx_segments (rt_header (xf_rx_sar_rsp_reg s) (xf_tcp_tx_meta_reg s)) (tte_ackd t)
       (segment_lengths (unat (tte_used_length_rst t)))) a (tte_fin_is_sent t) s
     ((rt_segment t a s)\<lparr>xf_tx_rx_sar_loaded := True\<rparr>)"
proof -
  let ?n = "unat (tte_used_length_rst t)"
  have c: "\<not> 1460 < tte_used_length_rst t" using assms(1) by (simp add: word_less_nat_alt)
  have e: "unat (ucast (tte_used_length_rst t) :: 16 word) = ?n" using short_length [of "tte_used_length_rst t"] c by simp
  have z: "(ucast (tte_used_length_rst t) :: 16 word) = 0 \<longleftrightarrow> ?n = 0" by (rule zero_iff [OF e])
  have l: "(of_nat ?n :: 16 word) = ucast (tte_used_length_rst t)" by (rule of_nat_unat)
  have g: "segment_lengths ?n = (if ?n = 0 then [] else [?n])"
    using assms(1) by (cases "?n = 1460") (simp_all add: segment_lengths_def)
  have h: "(meta_flags True False False (xf_tcp_tx_meta_reg s))\<lparr>xm_ack_number := rxl_recvd (xf_rx_sar_rsp_reg s),
      xm_seq_number := tte_ackd t, xm_win_size := rxl_win_size (xf_rx_sar_rsp_reg s), xm_length := k\<rparr> =
      (rt_header (xf_rx_sar_rsp_reg s) (xf_tcp_tx_meta_reg s))\<lparr>xm_seq_number := tte_ackd t, xm_length := k\<rparr>" for k
    by (cases "xf_tcp_tx_meta_reg s") (simp add: rt_header_def meta_flags_def)
  have "rt_commands a b [m] = [MemBufferRWCmd_new a (xm_length m)]" for b m by simp
  then show ?thesis
    using c assms(2) z
    by (simp add: rt_done_def rt_segment_keeps) (simp add: rt_segment_def rt_choose_def Let_def set_event_type_def write_payload_segment_def set_rtimer_def
        write_segment_def write_meta_def g l h)
qed

lemma loaded_already: "xf_tx_rx_sar_loaded y \<Longrightarrow> y\<lparr>xf_tx_rx_sar_loaded := True\<rparr> = y"
  by (cases y) simp

text \<open>The cycles from a segment on; \<open>j\<close> further ones may follow it.\<close>

lemma rt_run:
  assumes "xf_fsm_state s = TX_TRANSITION" and "unat (xf_retrans_seg_cnt s) = 3 - j" and "j \<le> 3"
  shows "\<exists>k \<le> j. rt_done t (tx_segments (rt_header (xf_rx_sar_rsp_reg s) (xf_tcp_tx_meta_reg s)) (tte_ackd t)
        (take (Suc j) (segment_lengths (unat (tte_used_length_rst t))))) a
       (tte_fin_is_sent t \<and> unat (tte_used_length_rst t) \<le> 1460 * Suc j) s
       ((TxEngTcpFsm bld u v ^^ k) ((rt_segment t a s)\<lparr>xf_tx_rx_sar_loaded := True\<rparr>))"
  using assms
proof (induction j arbitrary: s t a)
  case 0
  let ?n = "unat (tte_used_length_rst t)"
  show ?case
  proof (cases "1460 < ?n")
    case False
    then have "take (Suc 0) (segment_lengths ?n) = segment_lengths ?n"
      by (cases "?n = 1460") (simp_all add: segment_lengths_def)
    then show ?thesis using rt_segment_last [OF _ "0.prems"(1), of t a] False
      by (intro exI [of _ 0]) simp
  next
    case True
    have "xf_retrans_seg_cnt s = 3" using "0.prems"(2) word_unat_eq_iff [of "xf_retrans_seg_cnt s" 3] by simp
    then show ?thesis
      using rt_segment_full [OF True "0.prems"(1), of a] True segment_lengths_full [of ?n]
      by (intro exI [of _ 0]) (simp add: rt_done_def rt_segment_keeps)
  qed
next
  case (Suc j)
  let ?n = "unat (tte_used_length_rst t)" and ?y = "rt_segment t a s" and ?z = "(rt_segment t a s)\<lparr>xf_tx_rx_sar_loaded := True\<rparr>"
  show ?case
  proof (cases "1460 < ?n")
    case False
    then have "take (Suc (Suc j)) (segment_lengths ?n) = segment_lengths ?n"
      by (cases "?n = 1460") (simp_all add: segment_lengths_def)
    then show ?thesis using rt_segment_last [OF _ Suc.prems(1), of t a] False
      by (intro exI [of _ 0]) simp
  next
    case True
    have z: "xf_tcp_tx_meta_reg ?z = xf_tcp_tx_meta_reg ?y" "xf_tx_eng_fsm_meta_data_out ?z = xf_tx_eng_fsm_meta_data_out ?y"
        "xf_tx_eng_to_mem_read_cmd ?z = xf_tx_eng_to_mem_read_cmd ?y" "xf_session ?z = xf_session ?y"
        "xf_rx_sar_rsp_reg ?z = xf_rx_sar_rsp_reg ?y" "ev_type (xf_tx_eng_event_reg ?z) = ev_type (xf_tx_eng_event_reg ?y)"
        "xf_fsm_state ?z = xf_fsm_state ?y" "xf_retrans_seg_cnt ?z = xf_retrans_seg_cnt ?y"
        "xf_tx_sar_rsp_reg ?z = xf_tx_sar_rsp_reg ?y"
      by simp_all
    note z = z [unfolded rt_segment_full [OF True Suc.prems(1), of a]]
    have c: "xf_retrans_seg_cnt s \<noteq> 3" "unat (xf_retrans_seg_cnt s + 1) = 3 - j"
    proof -
      show "xf_retrans_seg_cnt s \<noteq> 3" using Suc.prems(2,3) by auto
      have "unat (xf_retrans_seg_cnt s) + 1 < 2 ^ LENGTH(2)" using Suc.prems(2,3) by simp
      then have "unat (xf_retrans_seg_cnt s + 1) = unat (xf_retrans_seg_cnt s) + 1"
        by (subst unat_add_lem [THEN iffD1]) simp_all
      then show "unat (xf_retrans_seg_cnt s + 1) = 3 - j" using Suc.prems(2,3) by simp
    qed
    have st: "xf_fsm_state ?z = TX_TRANSITION" using c(1) z(7) by simp
    have n: "unat (tte_used_length_rst t - 1460) = ?n - 1460"
      using True by (simp add: unat_sub word_le_nat_alt)
    let ?b = "GetSessionMemAddr False (xf_session ?z) (ucast (tte_ackd TxSarToTxEngRsp_default))"
    have step: "TxEngTcpFsm bld u v ?z = rt_segment (xf_tx_sar_rsp_reg ?z) ?b ?z"
      using st z(6) by (simp add: TxEngTcpFsm_def rt_cont_event_def)
    have f: "tte_ackd (xf_tx_sar_rsp_reg ?z) = tte_ackd t + 1460" "unat (tte_used_length_rst (xf_tx_sar_rsp_reg ?z)) = ?n - 1460"
        "tte_fin_is_sent (xf_tx_sar_rsp_reg ?z) = tte_fin_is_sent t" "j \<le> 3"
        "unat (xf_retrans_seg_cnt ?z) = 3 - j"
      using n c(2) Suc.prems(3) by (simp_all add: z)
    have same: "(rt_segment t' a' ?z)\<lparr>xf_tx_rx_sar_loaded := True\<rparr> = rt_segment t' a' ?z" for t' a'
      by (rule loaded_already) (simp add: rt_segment_keeps)
    obtain k y where k: "k \<le> j" and y: "y = (TxEngTcpFsm bld u v ^^ k) (rt_segment (xf_tx_sar_rsp_reg ?z) ?b ?z)"
      and d: "rt_done (xf_tx_sar_rsp_reg ?z) (tx_segments (rt_header (xf_rx_sar_rsp_reg s) (xf_tcp_tx_meta_reg s)) (tte_ackd t + 1460)
          (take (Suc j) (segment_lengths (?n - 1460)))) ?b
         (tte_fin_is_sent t \<and> ?n - 1460 \<le> 1460 * Suc j) ?z y"
      using Suc.IH [OF st f(5,4), of "xf_tx_sar_rsp_reg ?z" ?b]
      unfolding same f z(1,5) rt_header_idem tx_segments_meta by blast
    have e: "(?n - 1460 \<le> 1460 * Suc j) = (?n \<le> 1460 * Suc (Suc j))" by auto
    have all: "rt_commands ?b ?b ms = map (\<lambda>m. MemBufferRWCmd_new ?b (xm_length m)) ms" for ms by (cases ms) simp_all
    have zero: "?b = GetSessionMemAddr False (xf_session s) 0" by (simp add: rt_segment_full(4) [OF True Suc.prems(1)] TxSarToTxEngRsp_default_def)
    have keeps: "xf_tx_eng_to_tx_sar_req ?z = xf_tx_eng_to_tx_sar_req s @ rt_requests t s"
        "rt_requests (xf_tx_sar_rsp_reg ?z) ?z = []" "ev_retrans_cnt (xf_tx_eng_event_reg ?z) = ev_retrans_cnt (xf_tx_eng_event_reg s)"
        "tte_not_ackd (xf_tx_sar_rsp_reg ?z) = tte_not_ackd t" "tte_app_written (xf_tx_sar_rsp_reg ?z) = tte_app_written t"
      by (simp_all add: rt_segment_keeps) (simp add: rt_requests_def)
    have "rt_done t (tx_segments (rt_header (xf_rx_sar_rsp_reg s) (xf_tcp_tx_meta_reg s)) (tte_ackd t)
        (take (Suc (Suc j)) (segment_lengths ?n))) a (tte_fin_is_sent t \<and> ?n \<le> 1460 * Suc (Suc j)) s y"
      using d all [unfolded zero] True segment_lengths_full [of ?n]
      unfolding rt_done_def e zero keeps
      by (simp add: rt_segment_full(2-5) [OF True Suc.prems(1)])
    then show ?thesis unfolding y
      using k by (intro exI [of _ "Suc k"]) (simp only: funpow_Suc_apply step Suc_le_mono)
  qed
qed

lemma rt_event_done:
  assumes "xf_fsm_state s = TX_TRANSITION" and "ev_type (xf_tx_eng_event_reg s) = RT" and "xf_retrans_seg_cnt s = 0"
    and "xf_rx_sar_to_tx_eng_lup_rsp s = r # rs" and "xf_tx_sar_to_tx_eng_rsp s = t # ts"
  shows "\<exists>k \<le> 3. rt_done t (tx_segments (rt_header r (xf_tcp_tx_meta_reg s)) (tte_ackd t)
        (take 4 (segment_lengths (unat (tte_used_length_rst t)))))
       (GetSessionMemAddr False (xf_session s) (ucast (tte_ackd t)))
       (tte_fin_is_sent t \<and> unat (tte_used_length_rst t) \<le> 5840) (s\<lparr>xf_rx_sar_rsp_reg := r\<rparr>) ((TxEngTcpFsm bld u v ^^ Suc k) s)"
proof -
  let ?s = "s\<lparr>xf_rx_sar_to_tx_eng_lup_rsp := rs, xf_tx_sar_to_tx_eng_rsp := ts, xf_rx_sar_rsp_reg := r\<rparr>"
  let ?a = "GetSessionMemAddr False (xf_session s) (ucast (tte_ackd t))"
  have st: "TxEngTcpFsm bld u v s = (rt_segment t ?a ?s)\<lparr>xf_tx_rx_sar_loaded := True\<rparr>"
    using assms by (simp add: TxEngTcpFsm_def rt_event_def)
  have same: "rt_done t ms a fin ?s z = rt_done t ms a fin (s\<lparr>xf_rx_sar_rsp_reg := r\<rparr>) z" for ms a fin z
    by (simp add: rt_done_def rt_requests_def)
  show ?thesis
    using rt_run [of ?s 3 t ?a bld u v] assms(1,3)
    by (auto simp: funpow_Suc_apply st same simp del: funpow.simps)
qed

text \<open>C33: A retransmission sends the unacknowledged data again from its first byte on, but at most four
  segments of it, and is over after at most four cycles; the headers are contiguous.  Only the first segment
  is read from where its data is: the commands of the others read from the start of the session's buffer.\<close>

theorem retransmission_segments:
  assumes "xf_fsm_state s = TX_TRANSITION" and "ev_type (xf_tx_eng_event_reg s) = RT" and "xf_retrans_seg_cnt s = 0"
    and "xf_rx_sar_to_tx_eng_lup_rsp s = r # rs" and "xf_tx_sar_to_tx_eng_rsp s = t # ts"
  shows "\<exists>k \<le> 4. let z = (TxEngTcpFsm bld u v ^^ k) s;
       ms = tx_segments (rt_header r (xf_tcp_tx_meta_reg s)) (tte_ackd t)
         (take 4 (segment_lengths (unat (tte_used_length_rst t)))) in
     xf_tx_eng_fsm_meta_data_out z = xf_tx_eng_fsm_meta_data_out s @ ms \<and> length ms \<le> 4 \<and>
     xf_tx_eng_to_mem_read_cmd z = xf_tx_eng_to_mem_read_cmd s @
       rt_commands (GetSessionMemAddr False (xf_session s) (ucast (tte_ackd t))) (GetSessionMemAddr False (xf_session s) 0) ms \<and>
     (if tte_fin_is_sent t \<and> unat (tte_used_length_rst t) \<le> 5840
      then xf_fsm_state z = TX_TRANSITION \<and> ev_type (xf_tx_eng_event_reg z) = FIN else xf_fsm_state z = TX_LOAD)"
proof -
  have len: "length (tx_segments m q xs) = length xs" for m q xs by (induction xs arbitrary: q) simp_all
  obtain k where "k \<le> 3" and d: "rt_done t (tx_segments (rt_header r (xf_tcp_tx_meta_reg s)) (tte_ackd t)
        (take 4 (segment_lengths (unat (tte_used_length_rst t)))))
       (GetSessionMemAddr False (xf_session s) (ucast (tte_ackd t)))
       (tte_fin_is_sent t \<and> unat (tte_used_length_rst t) \<le> 5840) (s\<lparr>xf_rx_sar_rsp_reg := r\<rparr>) ((TxEngTcpFsm bld u v ^^ Suc k) s)"
    using rt_event_done [OF assms, of bld u v] by blast
  then show ?thesis
    by (intro exI [of _ "Suc k"]) (simp add: rt_done_def Let_def len del: funpow.simps)
qed

theorem retransmission_segments_witness:
  "\<exists>k \<le> 4. map mb_addr (xf_tx_eng_to_mem_read_cmd ((TxEngTcpFsm Simulation 0 0 ^^ k)
       (tx_demo_event RT (tx_demo_entry\<lparr>txe_not_ackd := 2600\<rparr>))))
     = [GetSessionMemAddr False 3 100, GetSessionMemAddr False 3 0]"
proof -
  let ?e = "tx_demo_entry\<lparr>txe_not_ackd := 2600\<rparr>"
  have e: "tte_ackd (tx_sar_lookup ?e) = 100" "tte_used_length_rst (tx_sar_lookup ?e) = 2500"
    by (simp_all add: tx_sar_lookup_def tx_demo_entry_def Let_def TxSarToTxEngRsp_default_def get_range_def)
  show ?thesis
    using retransmission_segments [of "tx_demo_event RT ?e" "\<lparr>rxl_recvd = 77, rxl_win_shift = 2, rxl_win_size = 500\<rparr>" "[]"
        "tx_sar_lookup ?e" "[]" Simulation 0 0]
    by (auto simp: e Let_def segment_lengths_def MemBufferRWCmd_new_def simp del: funpow.simps)
qed

section \<open>The \<open>FIN\<close>, on every path\<close>

text \<open>A \<open>FIN\<close> comes from an event of its own, behind the last data of a transmission event, and behind the data
  of a retransmission.  The data headers that an event of each type writes for a session whose entry in the
  table is \<open>e\<close>, whether it comes to the \<open>FIN\<close>, and the number the \<open>FIN\<close> has.\<close>

abbreviation unacked :: "TxSarTableEntry \<Rightarrow> nat" where
  "unacked e \<equiv> unat (tte_used_length_rst (tx_sar_lookup e))"

definition event_data :: "EventType \<Rightarrow> RxSarLookupRsp \<Rightarrow> TxSarTableEntry \<Rightarrow> TxEngFsmMetaData \<Rightarrow> TxEngFsmMetaData list" where
  "event_data type r e m =
     (if type = TX then tx_segments (data_header r m) (txe_not_ackd e) (segment_lengths (sendable e))
      else if type = RT then tx_segments (rt_header r m) (txe_ackd e) (take 4 (segment_lengths (unacked e)))
      else [])"

definition fin_reached :: "EventType \<Rightarrow> TxSarTableEntry \<Rightarrow> bool" where
  "fin_reached type e \<longleftrightarrow>
     (if type = TX then txe_fin_is_ready e \<and> unsent e \<le> send_window e - nat (in_flight e) \<and>
        (txe_ackd e = txe_not_ackd e \<or> unsent e mod 1460 = 0)
      else if type = RT then txe_fin_is_sent e \<and> unacked e \<le> 5840
      else type = FIN)"

definition fin_number :: "EventType \<Rightarrow> bool \<Rightarrow> TxSarTableEntry \<Rightarrow> 32 word" where
  "fin_number type rt e = txe_not_ackd e + of_nat (if type = TX then sendable e else 0) - of_bool rt"

text \<open>What has happened when the event is over.\<close>

definition fin_decided :: "EventType \<Rightarrow> RxSarLookupRsp \<Rightarrow> TxSarTableEntry \<Rightarrow> TxFsm \<Rightarrow> TxFsm \<Rightarrow> bool" where
  "fin_decided type r e s z \<longleftrightarrow>
     (let rt = xf_retransmission s; q = fin_number type rt e; go = (fin_reached type e \<and> get_range 0 q = txe_app_written e) in
      xf_fsm_state z = TX_LOAD \<and>
      (\<exists>m. xf_tx_eng_fsm_meta_data_out z = xf_tx_eng_fsm_meta_data_out s @ event_data type r e (xf_tcp_tx_meta_reg s) @
        (if go then [fin_header r q m] else [])) \<and>
      (\<exists>reqs. xf_tx_eng_to_tx_sar_req z = xf_tx_eng_to_tx_sar_req s @ reqs \<and>
        (let e' = fold tx_sar_tx_eng_write reqs e in
         if rt then txe_not_ackd e' = txe_not_ackd e \<and> txe_app_written e' = txe_app_written e \<and>
           txe_fin_is_ready e' = txe_fin_is_ready e \<and> txe_fin_is_sent e' = txe_fin_is_sent e
         else e' = e\<lparr>txe_not_ackd := q + of_bool go, txe_fin_is_ready := txe_fin_is_ready e \<or> fin_reached type e,
           txe_fin_is_sent := txe_fin_is_sent e \<or> go\<rparr>)))"

lemma lookup_row [simp]:
  "tte_not_ackd (tx_sar_lookup e) = txe_not_ackd e" "tte_app_written (tx_sar_lookup e) = txe_app_written e"
  "tte_ackd (tx_sar_lookup e) = txe_ackd e" "tte_fin_is_sent (tx_sar_lookup e) = txe_fin_is_sent e"
  by (simp_all add: tx_sar_lookup_def Let_def TxSarToTxEngRsp_default_def)

lemma write_entry:
  "tx_sar_tx_eng_write (TxEngToTxSarReq_write sid na False fr fs) e =
     e\<lparr>txe_not_ackd := na, txe_fin_is_ready := txe_fin_is_ready e \<or> fr, txe_fin_is_sent := txe_fin_is_sent e \<or> fs\<rparr>"
  by (cases e) (simp add: tx_sar_tx_eng_write_def TxEngToTxSarReq_write_def Let_def)

lemma retrans_entry:
  "txe_not_ackd (tx_sar_tx_eng_write (TxEngToTxSarRetransReq sid thr) e) = txe_not_ackd e"
  "txe_app_written (tx_sar_tx_eng_write (TxEngToTxSarRetransReq sid thr) e) = txe_app_written e"
  "txe_fin_is_ready (tx_sar_tx_eng_write (TxEngToTxSarRetransReq sid thr) e) = txe_fin_is_ready e"
  "txe_fin_is_sent (tx_sar_tx_eng_write (TxEngToTxSarRetransReq sid thr) e) = txe_fin_is_sent e"
  by (simp_all add: tx_sar_tx_eng_write_def TxEngToTxSarRetransReq_def)

text \<open>The cycle of the \<open>FIN\<close> behind other segments takes the row and the window from the registers.\<close>

lemma fin_cycle:
  assumes "xf_fsm_state z = TX_TRANSITION" and "ev_type (xf_tx_eng_event_reg z) = FIN" and "xf_tx_rx_sar_loaded z"
  shows "TxEngTcpFsm bld u v z = fin_segment (xf_tx_sar_rsp_reg z) z"
  using assms by (simp add: TxEngTcpFsm_def fin_event_def)

lemma fin_decided_FIN:
  assumes "xf_fsm_state s = TX_TRANSITION" and "ev_type (xf_tx_eng_event_reg s) = FIN" and "\<not> xf_tx_rx_sar_loaded s"
    and "xf_rx_sar_to_tx_eng_lup_rsp s = r # rs" and "xf_tx_sar_to_tx_eng_rsp s = tx_sar_lookup e # ts"
  shows "fin_decided FIN r e s (TxEngTcpFsm bld u v s)"
proof -
  let ?s = "s\<lparr>xf_rx_sar_to_tx_eng_lup_rsp := rs, xf_tx_sar_to_tx_eng_rsp := ts, xf_rx_sar_rsp_reg := r\<rparr>"
  have st: "TxEngTcpFsm bld u v s = fin_segment (tx_sar_lookup e) ?s"
    using assms by (simp add: TxEngTcpFsm_def fin_event_def)
  show ?thesis
    using fin_segment_result [of "tx_sar_lookup e" ?s]
    by (auto simp: st fin_decided_def fin_number_def fin_reached_def event_data_def write_entry Let_def)
qed

lemma fin_decided_TX:
  assumes "xf_fsm_state s = TX_TRANSITION" and "ev_type (xf_tx_eng_event_reg s) = TX" and "\<not> xf_tx_rx_sar_loaded s"
    and "xf_rx_sar_to_tx_eng_lup_rsp s = r # rs" and "xf_tx_sar_to_tx_eng_rsp s = tx_sar_lookup e # ts"
    and "txe_win_shift e \<noteq> 3" and "unsent e < 2 ^ 16" and "send_window e < 2 ^ 16" and "\<not> xf_retransmission s"
  shows "\<exists>k \<le> sendable e div 1460 + 2. fin_decided TX r e s ((TxEngTcpFsm bld u v ^^ k) s)"
proof -
  let ?q = "txe_not_ackd e + of_nat (sendable e)"
  obtain k z where k: "k \<le> sendable e div 1460" and z: "z = (TxEngTcpFsm bld u v ^^ Suc k) s"
    and d: "tx_done (xf_session s) (event_data TX r e (xf_tcp_tx_meta_reg s)) ?q (txe_app_written e) (fin_reached TX e)
        (s\<lparr>xf_rx_sar_rsp_reg := r\<rparr>) z"
    using tx_event_done [OF assms(1-8), of bld u v] by (auto simp: event_data_def fin_reached_def)
  show ?thesis
  proof (cases "fin_reached TX e")
    case False
    then have "fin_decided TX r e s z"
      using d assms(9) by (auto simp: fin_decided_def tx_done_def segments_sent_def fin_number_def write_entry Let_def)
    then show ?thesis using k z by (intro exI [of _ "Suc k"]) simp
  next
    case True
    then have "sendable e = unsent e" by (simp add: fin_reached_def sendable_def)
    then have end': "get_range 0 ?q = txe_app_written e" by (simp add: unsent_end)
    have f: "xf_fsm_state z = TX_TRANSITION" "ev_type (xf_tx_eng_event_reg z) = FIN" "xf_tx_rx_sar_loaded z"
        "\<not> xf_retransmission z" "tte_not_ackd (xf_tx_sar_rsp_reg z) = ?q" "tte_app_written (xf_tx_sar_rsp_reg z) = txe_app_written e"
        "xf_rx_sar_rsp_reg z = r"
      using d assms(9) True by (simp_all add: tx_done_def)
    have "fin_decided TX r e s (fin_segment (xf_tx_sar_rsp_reg z) z)"
      using d fin_segment_result [of "xf_tx_sar_rsp_reg z" z] f(4-7) end' True assms(9)
      by (auto simp: fin_decided_def tx_done_def segments_sent_def fin_number_def write_entry Let_def)
    then have "fin_decided TX r e s (TxEngTcpFsm bld u v z)" by (simp only: fin_cycle [OF f(1-3)])
    then show ?thesis using k z by (intro exI [of _ "Suc (Suc k)"]) simp
  qed
qed

lemma fin_decided_RT:
  assumes "xf_fsm_state s = TX_TRANSITION" and "ev_type (xf_tx_eng_event_reg s) = RT" and "xf_retrans_seg_cnt s = 0"
    and "xf_rx_sar_to_tx_eng_lup_rsp s = r # rs" and "xf_tx_sar_to_tx_eng_rsp s = tx_sar_lookup e # ts"
  shows "\<exists>k \<le> 5. fin_decided RT r e s ((TxEngTcpFsm bld u v ^^ k) s)"
proof -
  obtain k z where k: "k \<le> 3" and z: "z = (TxEngTcpFsm bld u v ^^ Suc k) s"
    and d: "rt_done (tx_sar_lookup e) (event_data RT r e (xf_tcp_tx_meta_reg s))
       (GetSessionMemAddr False (xf_session s) (ucast (txe_ackd e))) (fin_reached RT e) (s\<lparr>xf_rx_sar_rsp_reg := r\<rparr>) z"
    using rt_event_done [OF assms, of bld u v] by (auto simp: event_data_def fin_reached_def)
  have reqs: "rt_requests (tx_sar_lookup e) (s\<lparr>xf_rx_sar_rsp_reg := r\<rparr>) = [] \<or> xf_retransmission s \<and>
      (\<exists>thr. rt_requests (tx_sar_lookup e) (s\<lparr>xf_rx_sar_rsp_reg := r\<rparr>) = [TxEngToTxSarRetransReq (xf_session s) thr])"
    by (auto simp: rt_requests_def)
  show ?thesis
  proof (cases "fin_reached RT e")
    case False
    then have "fin_decided RT r e s z"
      using d reqs by (auto simp: fin_decided_def rt_done_def fin_number_def retrans_entry Let_def)
    then show ?thesis using k z by (intro exI [of _ "Suc k"]) simp
  next
    case True
    have f: "xf_fsm_state z = TX_TRANSITION" "ev_type (xf_tx_eng_event_reg z) = FIN" "xf_tx_rx_sar_loaded z"
        "xf_retransmission z = xf_retransmission s" "tte_not_ackd (xf_tx_sar_rsp_reg z) = txe_not_ackd e"
        "tte_app_written (xf_tx_sar_rsp_reg z) = txe_app_written e" "xf_rx_sar_rsp_reg z = r" "xf_session z = xf_session s"
      using d True by (simp_all add: rt_done_def)
    have "fin_decided RT r e s (fin_segment (xf_tx_sar_rsp_reg z) z)"
      using d reqs fin_segment_result [of "xf_tx_sar_rsp_reg z" z] f(4-8) True
      by (auto simp: fin_decided_def rt_done_def fin_number_def write_entry retrans_entry Let_def)
    then have "fin_decided RT r e s (TxEngTcpFsm bld u v z)" by (simp only: fin_cycle [OF f(1-3)])
    then show ?thesis using k z by (intro exI [of _ "Suc (Suc k)"]) simp
  qed
qed

text \<open>With the \<open>FIN\<close> all the data that has to be sent, or sent again, has been sent.\<close>

lemma tx_segments_fields:
  "\<forall>l \<in> set ls. l \<le> 1460 \<Longrightarrow> sum_list (map (\<lambda>m. unat (xm_length m)) (tx_segments m q ls)) = sum_list ls"
  "\<forall>h \<in> set (tx_segments m q ls). xm_fin h = xm_fin m"
  by (induction ls arbitrary: q) (simp_all add: unat_of_nat)

lemma event_data_fields:
  "\<not> (\<exists>h \<in> set (event_data type r e m). xm_fin h)"
  "fin_reached type e \<Longrightarrow> type = FIN \<longrightarrow> \<not> rt \<longrightarrow> unsent e = 0 \<Longrightarrow> type = TX \<longrightarrow> \<not> rt \<Longrightarrow>
   sum_list (map (\<lambda>h. unat (xm_length h)) (event_data type r e m)) =
     (if type = RT then unacked e else if rt then 0 else unsent e)"
proof -
  have "\<not> xm_fin (data_header r m)" "\<not> xm_fin (rt_header r m)" by (simp_all add: data_header_def rt_header_def meta_flags_def)
  then show "\<not> (\<exists>h \<in> set (event_data type r e m). xm_fin h)"
    using tx_segments_fields(2) by (auto simp: event_data_def)
  assume r: "fin_reached type e" "type = FIN \<longrightarrow> \<not> rt \<longrightarrow> unsent e = 0" "type = TX \<longrightarrow> \<not> rt"
  have four: "take 4 (segment_lengths n) = segment_lengths n" if "n \<le> 5840" for n
  proof -
    have "n div 1460 \<le> 3 \<or> n = 5840" using that by (auto simp: div_le_mono le_div_geq)
    then show ?thesis by (auto simp: segment_lengths_def)
  qed
  show "sum_list (map (\<lambda>h. unat (xm_length h)) (event_data type r e m)) =
     (if type = RT then unacked e else if rt then 0 else unsent e)"
    using r by (auto simp: event_data_def fin_reached_def tx_segments_fields(1) segment_lengths_bounds sum_segment_lengths
        four sendable_def split: if_splits)
qed

text \<open>C28: A \<open>FIN\<close> never overtakes data, whatever event brings it up: one of its own, the transmission event that
  sends the last data of a session that is closing, or a retransmission, first or repeated.  The event writes its
  data headers, none of which is a \<open>FIN\<close>, and behind them at most one \<open>FIN\<close>: only if its number is that of the
  end of what the application has written, and all unsent data, or for a retransmission all unacknowledged data, is
  in the segments before it.  The first \<open>FIN\<close> takes the number behind the last byte and is stored together with the number
  behind itself; if there is still unsent data it is only noted in the table that it is due.  A
  repeated \<open>FIN\<close> has the same number again, one before \<open>not_ackd\<close>, and changes neither the numbers nor the flags of the
  table.  For a transmission event the limits are those of C3, and it is not a repeated one.\<close>

theorem fin_waits_for_data:
  assumes "xf_fsm_state s = TX_TRANSITION" and "ev_type (xf_tx_eng_event_reg s) = type" and "type \<in> {TX, RT, FIN}"
    and "\<not> xf_tx_rx_sar_loaded s" and "xf_retrans_seg_cnt s = 0"
    and "xf_rx_sar_to_tx_eng_lup_rsp s = r # rs" and "xf_tx_sar_to_tx_eng_rsp s = tx_sar_lookup e # ts"
    and "type = TX \<Longrightarrow> txe_win_shift e \<noteq> 3 \<and> unsent e < 2 ^ 16 \<and> send_window e < 2 ^ 16 \<and> \<not> xf_retransmission s"
  shows "\<exists>k \<le> sendable e div 1460 + 5. let z = (TxEngTcpFsm bld u v ^^ k) s; rt = xf_retransmission s;
       data = event_data type r e (xf_tcp_tx_meta_reg s); q = fin_number type rt e;
       go = (fin_reached type e \<and> get_range 0 q = txe_app_written e) in
     xf_fsm_state z = TX_LOAD \<and>
     (\<exists>m. xf_tx_eng_fsm_meta_data_out z = xf_tx_eng_fsm_meta_data_out s @ data @ (if go then [fin_header r q m] else [])) \<and>
     \<not> (\<exists>h \<in> set data. xm_fin h) \<and>
     (go \<longrightarrow> sum_list (map (\<lambda>h. unat (xm_length h)) data) = (if type = RT then unacked e else if rt then 0 else unsent e)) \<and>
     (\<exists>reqs. xf_tx_eng_to_tx_sar_req z = xf_tx_eng_to_tx_sar_req s @ reqs \<and>
       (let e' = fold tx_sar_tx_eng_write reqs e in
        if rt then txe_not_ackd e' = txe_not_ackd e \<and> txe_app_written e' = txe_app_written e \<and>
          txe_fin_is_ready e' = txe_fin_is_ready e \<and> txe_fin_is_sent e' = txe_fin_is_sent e
        else e' = e\<lparr>txe_not_ackd := q + of_bool go, txe_fin_is_ready := txe_fin_is_ready e \<or> fin_reached type e,
          txe_fin_is_sent := txe_fin_is_sent e \<or> go\<rparr>))"
proof -
  have "\<exists>k \<le> sendable e div 1460 + 5. fin_decided type r e s ((TxEngTcpFsm bld u v ^^ k) s)"
  proof (cases "type = TX")
    case True
    then obtain k where "k \<le> sendable e div 1460 + 2" "fin_decided TX r e s ((TxEngTcpFsm bld u v ^^ k) s)"
      using fin_decided_TX [of s r rs e ts bld u v] assms by auto
    then show ?thesis using True by (intro exI [of _ k]) simp
  next
    case False
    show ?thesis
    proof (cases "type = RT")
      case True
      then obtain k where "k \<le> 5" "fin_decided RT r e s ((TxEngTcpFsm bld u v ^^ k) s)"
        using fin_decided_RT [of s r rs e ts bld u v] assms by auto
      then show ?thesis using True by (intro exI [of _ k]) simp
    next
      case False
      then have "type = FIN" using assms(3) \<open>type \<noteq> TX\<close> by simp
      then show ?thesis using fin_decided_FIN [of s r rs e ts bld u v] assms by (intro exI [of _ 1]) simp
    qed
  qed
  then obtain k where k: "k \<le> sendable e div 1460 + 5" and d: "fin_decided type r e s ((TxEngTcpFsm bld u v ^^ k) s)" by blast
  have "type = FIN \<longrightarrow> \<not> xf_retransmission s \<longrightarrow> unsent e = 0"
    if "get_range 0 (fin_number type (xf_retransmission s) e) = txe_app_written e"
    using that by (auto simp: fin_number_def unsent_zero)
  then have all: "fin_reached type e \<and> get_range 0 (fin_number type (xf_retransmission s) e) = txe_app_written e \<longrightarrow>
      sum_list (map (\<lambda>h. unat (xm_length h)) (event_data type r e (xf_tcp_tx_meta_reg s))) =
        (if type = RT then unacked e else if xf_retransmission s then 0 else unsent e)"
    using event_data_fields(2) [of type e "xf_retransmission s"] assms(8) by blast
  show ?thesis
    by (rule exI [of _ k]) (use k d all event_data_fields(1) [of type r e "xf_tcp_tx_meta_reg s"] in
      \<open>simp only: fin_decided_def Let_def simp_thms\<close>)
qed

text \<open>The application has closed the session and 2000 bytes are left: the \<open>FIN\<close> goes behind them.\<close>

theorem fin_waits_for_data_witness:
  "\<exists>k \<le> 6. let ms = xf_tx_eng_fsm_meta_data_out ((TxEngTcpFsm Simulation 0 0 ^^ k)
       (tx_demo_event TX (tx_demo_entry\<lparr>txe_fin_is_ready := True, txe_ackd := 600\<rparr>))) in
     map xm_length ms = [1460, 540, 0] \<and> map xm_fin ms = [False, False, True] \<and> xm_seq_number (last ms) = 2600"
proof -
  let ?e = "tx_demo_entry\<lparr>txe_fin_is_ready := True, txe_ackd := 600\<rparr>"
  have n: "unsent ?e = 2000" "send_window ?e = 4000" "in_flight ?e = 0"
    by (simp_all add: unsent_def send_window_def peer_window_def in_flight_def tx_demo_entry_def)
  have go: "get_range 0 (2600 :: 32 word) = (2600 :: TcpSessionBuffer)" by (simp add: get_range_def)
  obtain k m where "k \<le> 6" and
      "xf_tx_eng_fsm_meta_data_out ((TxEngTcpFsm Simulation 0 0 ^^ k) (tx_demo_event TX ?e)) =
        event_data TX \<lparr>rxl_recvd = 77, rxl_win_shift = 2, rxl_win_size = 500\<rparr> ?e (xf_tcp_tx_meta_reg (tx_demo_event TX ?e)) @
          [fin_header \<lparr>rxl_recvd = 77, rxl_win_shift = 2, rxl_win_size = 500\<rparr> 2600 m]"
    using fin_waits_for_data [of "tx_demo_event TX ?e" TX "\<lparr>rxl_recvd = 77, rxl_win_shift = 2, rxl_win_size = 500\<rparr>" "[]"
        ?e "[]" Simulation 0 0] unfolding Let_def
    by (auto simp: n go fin_number_def fin_reached_def sendable_def simp del: funpow.simps)
  then show ?thesis
    by (intro exI [of _ k]) (simp add: event_data_def n sendable_def segment_lengths_def fin_header_def data_header_def)
qed

section \<open>Resets\<close>

text \<open>A reset for a known session is lost when the table has not answered by the next cycle: nothing is
  sent.  The answer stays in the stream and the next event takes it for its own: an acknowledgement of
  another session is sent with the sequence number of the first.\<close>

theorem reset_without_answer_lost:
  assumes "xf_fsm_state s = TX_TRANSITION" and "ev_type (xf_tx_eng_event_reg s) = RST"
    and "has_session_id (xf_tx_eng_event_reg s)" and "xf_tx_sar_to_tx_eng_rsp s = []"
    and "ev_type ev = ACK"
  shows "let s1 = TxEngTcpFsm bld u v s;
       s2 = TxEngTcpFsm bld u v (s1\<lparr>xf_ack_delay_to_tx_eng_event := [ev]\<rparr>);
       s3 = TxEngTcpFsm bld u v (s2\<lparr>xf_rx_sar_to_tx_eng_lup_rsp := [r], xf_tx_sar_to_tx_eng_rsp := [t_reset, t_ev]\<rparr>) in
     s1 = s\<lparr>xf_fsm_state := TX_LOAD\<rparr> \<and> xf_tx_sar_to_tx_eng_rsp s3 = [t_ev] \<and>
     (\<exists>m. xf_tx_eng_fsm_meta_data_out s3 = xf_tx_eng_fsm_meta_data_out s @ [m] \<and> \<not> xm_rst m \<and>
        xm_seq_number m = tte_not_ackd t_reset) \<and>
     xf_tx_eng_to_slookup_rev_table_req s3 = xf_tx_eng_to_slookup_rev_table_req s @ [ev_session_id ev]"
proof -
  have st: "TxEngTcpFsm bld u v s = s\<lparr>xf_fsm_state := TX_LOAD\<rparr>"
    using assms(1-4) by (simp add: TxEngTcpFsm_def rst_event_def)
  have ld: "TxEngTcpFsm bld u v (s\<lparr>xf_fsm_state := TX_LOAD, xf_ack_delay_to_tx_eng_event := [ev]\<rparr>)
      = tx_load (s\<lparr>xf_fsm_state := TX_LOAD, xf_ack_delay_to_tx_eng_event := [ev]\<rparr>)" by (simp add: TxEngTcpFsm_def)
  show ?thesis
    using assms(5) unfolding Let_def st
    by (simp add: ld tx_load_def lookup_both_sar_def lookup_tx_sar_def Let_def)
      (simp add: TxEngTcpFsm_def ack_event_def write_segment_def write_meta_def)
qed

theorem reset_without_answer_lost_witness:
  "map xm_seq_number (xf_tx_eng_fsm_meta_data_out (TxEngTcpFsm Simulation 0 0 ((TxEngTcpFsm Simulation 0 0
     ((TxEngTcpFsm Simulation 0 0 (tx_fsm_init\<lparr>xf_fsm_state := TX_TRANSITION,
      xf_tx_eng_event_reg := EventWithTuple_of_event (RstEvent_seq 5 9 True)\<rparr>))
        \<lparr>xf_ack_delay_to_tx_eng_event := [EventWithTuple_of_event (Event_basic ACK 6)]\<rparr>))
        \<lparr>xf_rx_sar_to_tx_eng_lup_rsp := [\<lparr>rxl_recvd = 1, rxl_win_shift = 2, rxl_win_size = 500\<rparr>],
         xf_tx_sar_to_tx_eng_rsp := [tx_sar_lookup tx_demo_entry, tx_sar_lookup (tx_demo_entry\<lparr>txe_not_ackd := 9\<rparr>)]\<rparr>))) = [600]"
  using reset_without_answer_lost [of "tx_fsm_init\<lparr>xf_fsm_state := TX_TRANSITION,
      xf_tx_eng_event_reg := EventWithTuple_of_event (RstEvent_seq 5 9 True)\<rparr>"
      "EventWithTuple_of_event (Event_basic ACK 6)" Simulation 0 0 "tx_sar_lookup tx_demo_entry"
      "tx_sar_lookup (tx_demo_entry\<lparr>txe_not_ackd := 9\<rparr>)" "\<lparr>rxl_recvd = 1, rxl_win_shift = 2, rxl_win_size = 500\<rparr>"]
  by (auto simp: EventWithTuple_of_event_def RstEvent_seq_def has_session_id_def Event_basic_def Let_def tx_fsm_init_def
      tx_sar_lookup_def TxSarToTxEngRsp_default_def)

section \<open>Data that nobody wrote, and data that is skipped\<close>

text \<open>C0: The number that a \<open>FIN\<close> takes is taken for data: when a transmission event, as the probe timer
  produces it, meets a session whose \<open>FIN\<close> is sent, \<open>not_ackd\<close> is one ahead of what the application has
  written, the unsent length wraps to the whole buffer, and the process sends as many bytes behind the \<open>FIN\<close>
  as the window admits.\<close>

theorem data_sent_after_fin:
  assumes "xf_fsm_state s = TX_TRANSITION" and "ev_type (xf_tx_eng_event_reg s) = TX" and "\<not> xf_tx_rx_sar_loaded s"
    and "xf_rx_sar_to_tx_eng_lup_rsp s = r # rs" and "xf_tx_sar_to_tx_eng_rsp s = tx_sar_lookup e # ts"
    and "txe_win_shift e \<noteq> 3" and "get_range 0 (txe_not_ackd e) = txe_app_written e + 1"
    and "send_window e - nat (in_flight e) = n" and "0 < n" and "n < 1460"
  shows "unsent e = 2 ^ 18 - 1 \<and>
     tx_done (xf_session s) (tx_segments (data_header r (xf_tcp_tx_meta_reg s)) (txe_not_ackd e) [n])
       (txe_not_ackd e + of_nat n) (txe_app_written e) False (s\<lparr>xf_rx_sar_rsp_reg := r\<rparr>) (TxEngTcpFsm bld u v s)"
proof -
  note l = lookup_numbers [OF assms(6)]
  let ?t = "tx_sar_lookup e"
  have f: "tte_not_ackd ?t = txe_not_ackd e" "tte_app_written ?t = txe_app_written e"
      "tte_curr_length ?t = txe_app_written e - get_range 0 (txe_not_ackd e)"
    by (simp_all add: tx_sar_lookup_def Let_def TxSarToTxEngRsp_default_def)
  have "unat (- 1 :: TcpSessionBuffer) = 2 ^ 18 - 1" by (simp add: unsigned_minus_1_eq_mask mask_eq_exp_minus_1)
  then have all: "unsent e = 2 ^ 18 - 1" using l(1) f(3) assms(7) by simp
  let ?s = "tx_take_windows r ?t (s\<lparr>xf_rx_sar_to_tx_eng_lup_rsp := rs, xf_tx_sar_to_tx_eng_rsp := ts\<rparr>)"
  have c: "xf_curr_length ?s = tte_curr_length ?t" "xf_tcp_tx_meta_reg ?s = data_header r (xf_tcp_tx_meta_reg s)"
      "tx_started (xf_session s) ?s"
    using assms(1,2) by (simp_all add: tx_take_windows_def data_header_def tx_started_def)
  have w: "unat (tte_usable_window ?t) = n" using l(3) assms(8) by simp
  have m: "min (unat (xf_curr_length ?s)) (unat (tte_usable_window ?t)) = n" using l(1) all w c(1) assms(10) by simp
  have "\<not> xf_curr_length ?s \<le> tte_usable_window ?t" using l(1) all w c(1) assms(10) by (simp add: word_le_nat_alt)
  then have "tx_done (xf_session s) (tx_segments (data_header r (xf_tcp_tx_meta_reg s)) (txe_not_ackd e) (segment_lengths n))
       (txe_not_ackd e + of_nat n) (txe_app_written e) False ?s (tx_segment u v ?t (tte_usable_window ?t) ?s)"
    using tx_segment_last [OF c(3), of "tte_usable_window ?t" ?t u v] m assms(10) by (simp add: c(1,2) f)
  moreover have "TxEngTcpFsm bld u v s = tx_segment u v ?t (tte_usable_window ?t) ?s"
    using assms(1-5) by (simp add: TxEngTcpFsm_def tx_event_def)
  ultimately show ?thesis
    using all assms(9,10) by (simp add: segment_lengths_rest tx_done_def segments_sent_def tx_take_windows_def)
qed

theorem data_sent_after_fin_witness:
  "map xm_length (xf_tx_eng_fsm_meta_data_out (TxEngTcpFsm Simulation 0 0
     (tx_demo_event TX (tx_demo_entry\<lparr>txe_not_ackd := 2601, txe_ackd := 2600, txe_recv_window := 100, txe_fin_is_sent := True\<rparr>)))) = [399]"
proof -
  let ?e = "tx_demo_entry\<lparr>txe_not_ackd := 2601, txe_ackd := 2600, txe_recv_window := 100, txe_fin_is_sent := True\<rparr>"
  have n: "send_window ?e = 400" "in_flight ?e = 1" "get_range 0 (txe_not_ackd ?e) = txe_app_written ?e + 1"
    by (simp_all add: send_window_def peer_window_def in_flight_def tx_demo_entry_def get_range_def)
  show ?thesis
    using data_sent_after_fin [of "tx_demo_event TX ?e" "\<lparr>rxl_recvd = 77, rxl_win_shift = 2, rxl_win_size = 500\<rparr>" "[]"
        ?e "[]" 399 Simulation 0 0] n
    by (auto simp: tx_done_def segments_sent_def)
qed

text \<open>The lengths of the loop have 16 bits: of 64 KiB and more of unsent data of an idle session, whose
  window admits all of it, the process sends all but 64 KiB, and yet moves \<open>not_ackd\<close> to the end of the data.
  The statement is for data of up to two segments more than 64 KiB.\<close>

theorem data_over_64K_skipped:
  assumes "xf_fsm_state s = TX_TRANSITION" and "ev_type (xf_tx_eng_event_reg s) = TX" and "\<not> xf_tx_rx_sar_loaded s"
    and "xf_rx_sar_to_tx_eng_lup_rsp s = r # rs" and "xf_tx_sar_to_tx_eng_rsp s = tx_sar_lookup e # ts"
    and "txe_win_shift e \<noteq> 3" and "txe_ackd e = txe_not_ackd e"
    and "unsent e = 2 ^ 16 + 1460 + n" and "n < 1460" and "unsent e \<le> send_window e"
  shows "tx_done (xf_session s) (tx_segments (data_header r (xf_tcp_tx_meta_reg s)) (txe_not_ackd e) (segment_lengths (1460 + n)))
       (txe_not_ackd e + of_nat (unsent e)) (txe_app_written e) (txe_fin_is_ready e) (s\<lparr>xf_rx_sar_rsp_reg := r\<rparr>)
       ((TxEngTcpFsm bld u v ^^ 2) s)"
proof -
  note l = lookup_numbers [OF assms(6)]
  let ?t = "tx_sar_lookup e"
  have f: "tte_not_ackd ?t = txe_not_ackd e" "tte_app_written ?t = txe_app_written e" "tte_ackd_eq_not_ackd ?t"
      "tte_fin_is_ready ?t = txe_fin_is_ready e"
    using assms(7) by (simp_all add: tx_sar_lookup_def Let_def TxSarToTxEngRsp_default_def)
  have idle: "in_flight e = 0" using assms(7) by (simp add: in_flight_def)
  let ?s = "tx_take_windows r ?t (s\<lparr>xf_rx_sar_to_tx_eng_lup_rsp := rs, xf_tx_sar_to_tx_eng_rsp := ts\<rparr>)"
  have c: "xf_curr_length ?s = tte_curr_length ?t" "xf_used_length ?s = 0"
      "xf_tcp_tx_meta_reg ?s = data_header r (xf_tcp_tx_meta_reg s)" "tx_started (xf_session s) ?s"
    using assms(1,2) l(4) idle by (simp_all add: tx_take_windows_def data_header_def tx_started_def unsigned_eq_0_iff)
  have u: "unat (xf_curr_length ?s) = 2 ^ 16 + 1460 + n" "unat (tte_usable_window ?t) = send_window e"
      "unat (tte_min_window ?t) = send_window e"
    using l assms(8) idle c(1) by simp_all
  have "1460 \<le> unat (xf_curr_length ?s)" "1460 \<le> unat (tte_usable_window ?t)" using u assms(8,10) by simp_all
  note z = tx_segment_full [OF c(4) this, where t = ?t and u = u and v = v]
  define y where "y = tx_segment u v ?t (tte_usable_window ?t) ?s"
  note z = z [folded y_def]
  have len: "unat (xf_curr_length y) = n"
  proof -
    have "unat (xf_curr_length ?s - 1460) = 2 ^ 16 + n" using u(1) by (simp add: unat_sub word_le_nat_alt)
    then have "unat (ucast (xf_curr_length ?s - 1460) :: 16 word) = n"
      using assms(9) by (simp add: unsigned_ucast_eq take_bit_eq_mod)
    moreover have "unat (ucast (ucast (xf_curr_length ?s - 1460) :: 16 word) :: TcpSessionBuffer)
        = take_bit LENGTH(18) (unat (ucast (xf_curr_length ?s - 1460) :: 16 word))" by (rule unsigned_ucast_eq)
    ultimately show ?thesis using assms(9) by (simp only: z(5)) (simp add: take_bit_nat_eq_self)
  qed
  have big: "send_window e < 2 ^ 18" unfolding u(3) [symmetric]
    using unsigned_less [where 'a = nat and w = "tte_min_window ?t"] by simp
  have rem: "unat (xf_remaining_window y) = send_window e - 1460"
  proof -
    have "unat (ucast (tte_min_window ?t) :: 19 word) = send_window e"
      using u(3) big by (simp add: unsigned_ucast_eq take_bit_nat_eq_self)
    moreover have "xf_remaining_window y = ucast (tte_min_window ?t) - 1460" by (simp add: z(7) c(2))
    ultimately show ?thesis using assms(8,10) by (simp add: unat_sub word_le_nat_alt)
  qed
  have win: "\<not> bit (xf_remaining_window y) 18" "unat (get_range 0 (xf_remaining_window y) :: TcpSessionBuffer) = send_window e - 1460"
  proof -
    have "unat (xf_remaining_window y) < 2 ^ 18" using rem big by simp
    then show "\<not> bit (xf_remaining_window y) 18" using bit_iff_odd [of "unat (xf_remaining_window y)" 18] by (simp add: bit_unsigned_iff)
    show "unat (get_range 0 (xf_remaining_window y) :: TcpSessionBuffer) = send_window e - 1460"
      using rem big by (simp add: get_range_def unsigned_ucast_eq take_bit_nat_eq_self)
  qed
  let ?w = "get_range 0 (xf_remaining_window y) :: TcpSessionBuffer"
  have m: "min (unat (xf_curr_length y)) (unat ?w) = n" "xf_curr_length y \<le> ?w"
    using len win(2) assms(8,9,10) by (simp_all add: word_le_nat_alt)
  have reg: "xf_tx_sar_rsp_reg y = ?t\<lparr>tte_not_ackd := txe_not_ackd e + 1460\<rparr>" using z(4) f(1) by simp
  have "tx_done (xf_session s) (tx_segments (data_header r (xf_tcp_tx_meta_reg s)) (txe_not_ackd e + 1460) (segment_lengths n))
       (txe_not_ackd e + of_nat (unsent e)) (txe_app_written e) (txe_fin_is_ready e) y
       (tx_segment u v (xf_tx_sar_rsp_reg y) ?w y)"
  proof -
    have short: "tte_not_ackd_short ?t = txe_not_ackd e + of_nat (unsent e)"
      using l(1,5) f(1) of_nat_unat [where w = "tte_curr_length ?t" and 'a = "32 word"] by simp
    show ?thesis
      using tx_segment_last [OF z(1), of ?w "xf_tx_sar_rsp_reg y" u v] m assms(9)
      by (simp add: reg f short z(3) c(3))
  qed
  then have "tx_done (xf_session s) (tx_segments (data_header r (xf_tcp_tx_meta_reg s)) (txe_not_ackd e) (segment_lengths (1460 + n)))
       (txe_not_ackd e + of_nat (unsent e)) (txe_app_written e) (txe_fin_is_ready e) ?s
       (tx_segment u v (xf_tx_sar_rsp_reg y) ?w y)"
    using tx_done_after [OF z(9,8,10)] by (simp add: f c(3) segment_lengths_full)
  moreover have "(TxEngTcpFsm bld u v ^^ 2) s = tx_segment u v (xf_tx_sar_rsp_reg y) ?w y"
    using assms(1-5) tx_loaded_cycle [OF z(1,2) win(1), of bld u v]
    by (simp add: numeral_2_eq_2 y_def TxEngTcpFsm_def [of bld u v s] tx_event_def)
  ultimately show ?thesis by (simp add: tx_done_def segments_sent_def tx_take_windows_def)
qed

theorem data_over_64K_skipped_witness:
  "map xm_length (xf_tx_eng_fsm_meta_data_out ((TxEngTcpFsm Simulation 0 0 ^^ 2) (tx_demo_event TX
     (tx_demo_entry\<lparr>txe_not_ackd := 100, txe_app_written := 67106, txe_recv_window := 65535, txe_cong_window := 100000\<rparr>)))) = [1460, 10] \<and>
   xf_tx_eng_to_tx_sar_req ((TxEngTcpFsm Simulation 0 0 ^^ 2) (tx_demo_event TX
     (tx_demo_entry\<lparr>txe_not_ackd := 100, txe_app_written := 67106, txe_recv_window := 65535, txe_cong_window := 100000\<rparr>)))
   = [TxEngToTxSarReq_write 3 67106 False False False]"
proof -
  let ?e = "tx_demo_entry\<lparr>txe_not_ackd := 100, txe_app_written := 67106, txe_recv_window := 65535, txe_cong_window := 100000\<rparr>"
  have n: "unsent ?e = 67006" "send_window ?e = 100000"
    by (simp_all add: unsent_def send_window_def peer_window_def tx_demo_entry_def)
  show ?thesis
    using data_over_64K_skipped [of "tx_demo_event TX ?e" "\<lparr>rxl_recvd = 77, rxl_win_shift = 2, rxl_win_size = 500\<rparr>" "[]"
        ?e "[]" 10 Simulation 0 0]
    by (simp add: n tx_done_def segments_sent_def segment_lengths_def del: funpow.simps)
qed

end
