(* ===== verification/Tx_Engine.thy ===== *)
theory Tx_Engine
  imports Tx_Wire Tx_Retransmit
begin

text \<open>
  The wrapper \<open>tx_engine\<close> of \<open>tx_engine/tx_engine.cpp\<close>: the records of its processes, and one cycle that
  runs them in the order of the source.  What a process writes for another is moved to the reader before
  the reader runs.  The theorems follow one event through all the processes to the bytes on the wire.
\<close>

section \<open>State\<close>

record TxEngine =
  tg_fsm :: TxFsm
  tg_cmd :: ReadCmd
  tg_data :: ReadData
  tg_tuple :: TxTuple
  tg_header :: TxHeader
  tg_pseudo :: TxPseudoPkt
  tg_sub_checksum :: SubChecksumProc
  tg_remove :: TxRemove
  tg_ip_header :: TxIpHeader
  tg_ip :: TxIpPacket

section \<open>One cycle\<close>

text \<open>Each definition is one call of the wrapper, with the streams that it reads.\<close>

definition call_fsm :: "build \<Rightarrow> 16 word \<Rightarrow> 16 word \<Rightarrow> TxEngine \<Rightarrow> TxEngine" where
  "call_fsm bld u v s = s\<lparr>tg_fsm := TxEngTcpFsm bld u v (tg_fsm s)\<rparr>"

definition call_send_cmd :: "TxEngine \<Rightarrow> TxEngine" where
  "call_send_cmd s =
     s\<lparr>tg_cmd := ReadDataSendCmd ((tg_cmd s)\<lparr>rc_mem_read_cmd := rc_mem_read_cmd (tg_cmd s) @
         xf_tx_eng_to_mem_read_cmd (tg_fsm s)\<rparr>),
       tg_fsm := (tg_fsm s)\<lparr>xf_tx_eng_to_mem_read_cmd := []\<rparr>\<rparr>"

definition call_read_data :: "TxEngine \<Rightarrow> TxEngine" where
  "call_read_data s =
     s\<lparr>tg_data := ReadDataFromMem ((tg_data s)\<lparr>rd_mem_buffer_double_access :=
         rd_mem_buffer_double_access (tg_data s) @ rc_mem_buffer_double_access (tg_cmd s)\<rparr>),
       tg_cmd := (tg_cmd s)\<lparr>rc_mem_buffer_double_access := []\<rparr>\<rparr>"

definition call_tuple :: "TxEngine \<Rightarrow> TxEngine" where
  "call_tuple s =
     s\<lparr>tg_tuple := TxEngFourTupleHandler ((tg_tuple s)
         \<lparr>xt_tx_four_tuple_source := xt_tx_four_tuple_source (tg_tuple s) @ xf_tx_four_tuple_source (tg_fsm s),
          xt_tx_eng_fsm_four_tuple := xt_tx_eng_fsm_four_tuple (tg_tuple s) @ xf_tx_eng_fsm_four_tuple_out (tg_fsm s)\<rparr>),
       tg_fsm := (tg_fsm s)\<lparr>xf_tx_four_tuple_source := [], xf_tx_eng_fsm_four_tuple_out := []\<rparr>\<rparr>"

definition call_header :: "TxEngine \<Rightarrow> TxEngine" where
  "call_header s =
     s\<lparr>tg_header := TxEngPseudoFullHeaderConstruct ((tg_header s)
         \<lparr>xh_tx_eng_fsm_meta_data := xh_tx_eng_fsm_meta_data (tg_header s) @ xf_tx_eng_fsm_meta_data_out (tg_fsm s),
          xh_tx_four_tuple_for_tcp_header :=
            xh_tx_four_tuple_for_tcp_header (tg_header s) @ xt_tx_four_tuple_for_tcp_header (tg_tuple s)\<rparr>),
       tg_fsm := (tg_fsm s)\<lparr>xf_tx_eng_fsm_meta_data_out := []\<rparr>,
       tg_tuple := (tg_tuple s)\<lparr>xt_tx_four_tuple_for_tcp_header := []\<rparr>\<rparr>"

definition call_pseudo :: "TxEngine \<Rightarrow> TxEngine" where
  "call_pseudo s =
     s\<lparr>tg_pseudo := TxEngConstructPseudoPacket ((tg_pseudo s)
         \<lparr>xp_tx_tcp_pseudo_full_header :=
            xp_tx_tcp_pseudo_full_header (tg_pseudo s) @ xh_tx_tcp_pseudo_full_header_out (tg_header s),
          xp_tx_tcp_packet_contains_payload :=
            xp_tx_tcp_packet_contains_payload (tg_pseudo s) @ xh_tx_tcp_packet_contains_payload (tg_header s),
          xp_tx_tcp_packet_payload := xp_tx_tcp_packet_payload (tg_pseudo s) @ rd_mem_read_data (tg_data s)\<rparr>),
       tg_header := (tg_header s)\<lparr>xh_tx_tcp_pseudo_full_header_out := [], xh_tx_tcp_packet_contains_payload := []\<rparr>,
       tg_data := (tg_data s)\<lparr>rd_mem_read_data := []\<rparr>\<rparr>"

text \<open>\<open>ComputeSubChecksum<0>\<close> and \<open>CheckChecksum\<close>, which stand next to each other.\<close>

definition call_checksum :: "TxEngine \<Rightarrow> TxEngine" where
  "call_checksum s =
     (let sums = ComputeSubChecksum ((tg_sub_checksum s)\<lparr>cs_pkt_in := cs_pkt_in (tg_sub_checksum s) @
            xp_tx_tcp_pseudo_packet_for_checksum (tg_pseudo s)\<rparr>);
          (rest, checksums) = CheckChecksum (cs_sub_checksum sums, xk_tx_tcp_checksum (tg_ip s)) in
      s\<lparr>tg_pseudo := (tg_pseudo s)\<lparr>xp_tx_tcp_pseudo_packet_for_checksum := []\<rparr>,
        tg_sub_checksum := sums\<lparr>cs_sub_checksum := rest\<rparr>,
        tg_ip := (tg_ip s)\<lparr>xk_tx_tcp_checksum := checksums\<rparr>\<rparr>)"

definition call_remove :: "TxEngine \<Rightarrow> TxEngine" where
  "call_remove s =
     s\<lparr>tg_remove := TxEngRemovePseudoHeader ((tg_remove s)\<lparr>xr_tx_tcp_pseudo_packet_for_tx_eng :=
         xr_tx_tcp_pseudo_packet_for_tx_eng (tg_remove s) @ xp_tx_tcp_pseudo_packet_for_tx_eng (tg_pseudo s)\<rparr>),
       tg_pseudo := (tg_pseudo s)\<lparr>xp_tx_tcp_pseudo_packet_for_tx_eng := []\<rparr>\<rparr>"

definition call_ip_header :: "build \<Rightarrow> TxEngine \<Rightarrow> TxEngine" where
  "call_ip_header bld s =
     s\<lparr>tg_ip_header := TxEngConstructIpv4Header bld ((tg_ip_header s)
         \<lparr>xi_tx_tcp_payload_length := xi_tx_tcp_payload_length (tg_ip_header s) @ xf_tx_tcp_payload_length_out (tg_fsm s),
          xi_tx_tcp_ip_pair := xi_tx_tcp_ip_pair (tg_ip_header s) @ xt_tx_ip_pair_for_ip_header (tg_tuple s)\<rparr>),
       tg_fsm := (tg_fsm s)\<lparr>xf_tx_tcp_payload_length_out := []\<rparr>,
       tg_tuple := (tg_tuple s)\<lparr>xt_tx_ip_pair_for_ip_header := []\<rparr>\<rparr>"

definition call_ip_packet :: "TxEngine \<Rightarrow> TxEngine" where
  "call_ip_packet s =
     s\<lparr>tg_ip := TxEngConstructIpv4Packet ((tg_ip s)
         \<lparr>xk_tx_ipv4_header := xk_tx_ipv4_header (tg_ip s) @ xi_tx_ipv4_header (tg_ip_header s),
          xk_tx_tcp_packet := xk_tx_tcp_packet (tg_ip s) @ xr_tx_tcp_packet (tg_remove s)\<rparr>),
       tg_ip_header := (tg_ip_header s)\<lparr>xi_tx_ipv4_header := []\<rparr>,
       tg_remove := (tg_remove s)\<lparr>xr_tx_tcp_packet := []\<rparr>\<rparr>"

definition tx_engine :: "build \<Rightarrow> 16 word \<Rightarrow> 16 word \<Rightarrow> TxEngine \<Rightarrow> TxEngine" where
  "tx_engine bld u v s =
     call_ip_packet (call_ip_header bld (call_remove (call_checksum (call_pseudo (call_header (call_tuple
       (call_read_data (call_send_cmd (call_fsm bld u v s)))))))))"

text \<open>Power-up.\<close>

definition tx_engine_init :: TxEngine where
  "tx_engine_init =
     \<lparr>tg_fsm = tx_fsm_init,
      tg_cmd = \<lparr>rc_read_cmd_is_breakdown = False, rc_inner_cmd = MemBufferRWCmd_default, rc_first_cmd_bbt = 0,
        rc_mem_read_cmd = [], rc_mover_read_cmd = [], rc_mem_buffer_double_access = []\<rparr>,
      tg_data = \<lparr>rd_fsm_state = READ_ACCESS, rd_offset_block0 = 0, rd_offset_block1 = 0,
        rd_prev_beat_word = NetAXISWord_default, rd_mover_read_data = [], rd_mem_buffer_double_access = [],
        rd_mem_read_data = [], rd_mem_read_data_full = False\<rparr>,
      tg_tuple = tx_tuple_init, tg_header = tx_header_init, tg_pseudo = tx_pseudo_init,
      tg_sub_checksum = \<lparr>cs_tcp_checksums = zero_sums, cs_pkt_in = [], cs_sub_checksum = []\<rparr>,
      tg_remove = tx_remove_init,
      tg_ip_header = \<lparr>xi_tx_tcp_payload_length = [], xi_tx_tcp_ip_pair = [], xi_tx_ipv4_header = []\<rparr>,
      tg_ip = tx_ip_packet_init\<rparr>"

lemmas tx_engine_calls = call_fsm_def call_send_cmd_def call_read_data_def call_tuple_def call_header_def call_pseudo_def
  call_checksum_def call_remove_def call_ip_header_def call_ip_packet_def

section \<open>An acknowledgement on its way through the engine\<close>

text \<open>The processes behind the state machine have nothing to do, but for \<open>lens\<close> and \<open>ms\<close>, lengths and headers that
  wait for their addresses; \<open>st\<close> is what the process of the addresses does.\<close>

definition tx_quiet :: "TxEngTupleFsm \<Rightarrow> 16 word list \<Rightarrow> TxEngFsmMetaData list \<Rightarrow> TxEngine \<Rightarrow> bool" where
  "tx_quiet st lens ms s \<longleftrightarrow>
     \<not> rc_read_cmd_is_breakdown (tg_cmd s) \<and> rc_mem_read_cmd (tg_cmd s) = [] \<and> rc_mem_buffer_double_access (tg_cmd s) = [] \<and>
     rd_fsm_state (tg_data s) = READ_ACCESS \<and> rd_mem_buffer_double_access (tg_data s) = [] \<and> rd_mem_read_data (tg_data s) = [] \<and>
     xt_fsm_state (tg_tuple s) = st \<and> xt_tx_four_tuple_source (tg_tuple s) = [] \<and> xt_tx_eng_fsm_four_tuple (tg_tuple s) = [] \<and>
     xt_tx_four_tuple_for_tcp_header (tg_tuple s) = [] \<and> xt_tx_ip_pair_for_ip_header (tg_tuple s) = [] \<and>
     xh_tx_eng_fsm_meta_data (tg_header s) = ms \<and> xh_tx_four_tuple_for_tcp_header (tg_header s) = [] \<and>
     xh_tx_tcp_packet_contains_payload (tg_header s) = [] \<and> xh_tx_tcp_pseudo_full_header_out (tg_header s) = [] \<and>
     xp_fsm_state (tg_pseudo s) = READ_PSEUDO \<and> xp_tx_tcp_pseudo_full_header (tg_pseudo s) = [] \<and>
     xp_tx_tcp_packet_contains_payload (tg_pseudo s) = [] \<and> xp_tx_tcp_packet_payload (tg_pseudo s) = [] \<and>
     xp_tx_tcp_pseudo_packet_for_tx_eng (tg_pseudo s) = [] \<and> xp_tx_tcp_pseudo_packet_for_checksum (tg_pseudo s) = [] \<and>
     cs_tcp_checksums (tg_sub_checksum s) = zero_sums \<and> cs_pkt_in (tg_sub_checksum s) = [] \<and> cs_sub_checksum (tg_sub_checksum s) = [] \<and>
     xr_fsm_state (tg_remove s) = READ \<and> xr_tx_tcp_pseudo_packet_for_tx_eng (tg_remove s) = [] \<and> xr_tx_tcp_packet (tg_remove s) = [] \<and>
     xi_tx_tcp_payload_length (tg_ip_header s) = lens \<and> xi_tx_tcp_ip_pair (tg_ip_header s) = [] \<and> xi_tx_ipv4_header (tg_ip_header s) = [] \<and>
     xk_fsm_state (tg_ip s) = READ_FIRST \<and> xk_tx_ipv4_header (tg_ip s) = [] \<and> xk_tx_tcp_checksum (tg_ip s) = [] \<and>
     xk_tx_tcp_packet (tg_ip s) = []"

lemma quiet_init: "tx_quiet LOAD_TUPLE_SRC [] [] tx_engine_init"
  by (simp add: tx_quiet_def tx_engine_init_def tx_tuple_init_def tx_header_init_def tx_pseudo_init_def tx_remove_init_def
      tx_ip_packet_init_def)

text \<open>The cycle in which the state machine writes the header.\<close>

lemma header_cycle:
  assumes "tx_quiet LOAD_TUPLE_SRC [] [] s" and "f = TxEngTcpFsm bld u v (tg_fsm s)"
    and "xf_tx_eng_fsm_meta_data_out f = [m]" and "xf_tx_tcp_payload_length_out f = [n]"
    and "xf_tx_four_tuple_source f = [True]" and "xf_tx_eng_fsm_four_tuple_out f = []" and "xf_tx_eng_to_mem_read_cmd f = []"
  shows "tx_quiet READ_TUPLE_FROM_SLUP_CTRL [n] [m] (tx_engine bld u v s)"
    and "xt_slookup_rev_table_to_tx_eng_rsp (tg_tuple (tx_engine bld u v s)) = xt_slookup_rev_table_to_tx_eng_rsp (tg_tuple s)"
    and "xk_tx_ip_pkt_out (tg_ip (tx_engine bld u v s)) = xk_tx_ip_pkt_out (tg_ip s)"
    and "tg_fsm (tx_engine bld u v s) = f\<lparr>xf_tx_eng_to_mem_read_cmd := [], xf_tx_four_tuple_source := [],
      xf_tx_eng_fsm_four_tuple_out := [], xf_tx_eng_fsm_meta_data_out := [], xf_tx_tcp_payload_length_out := []\<rparr>"
  using assms(1,3-) unfolding assms(2) tx_quiet_def
  by (simp_all add: tx_engine_def tx_engine_calls ReadDataSendCmd_def ReadDataFromMem_def read_access_def
      TxEngFourTupleHandler_def TxEngPseudoFullHeaderConstruct_def TxEngConstructPseudoPacket_def ComputeSubChecksum_def
      TxEngRemovePseudoHeader_def TxEngConstructIpv4Header_def TxEngConstructIpv4Packet_def Let_def)

lemma removed_word:
  fixes meta t
  defines "o1 \<equiv> (ConcatTwoWords NetAXISWord_default (pseudo_full_header meta t) 12 NetAXISWord_default)\<lparr>nw_last := True\<rparr>"
  shows "word_bytes o1 = drop 12 (word_bytes (pseudo_full_header meta t))" and "nw_keep o1 = mask (20 + option_bytes meta)"
proof -
  have o: "32 + option_bytes meta \<le> 64" by (simp add: option_bytes_def)
  note l = mask_lanes [OF header_keep o, of t]
  have lo: "lanes o1 = map Some (drop 12 (word_bytes (pseudo_full_header meta t))) @ replicate (64 - (32 + option_bytes meta) + 12) None"
    using l by (simp add: o1_def lanes_ConcatTwoWords drop_map replicate_add)
  then show "word_bytes o1 = drop 12 (word_bytes (pseudo_full_header meta t))" by (simp add: word_bytes_lanes)
  show "nw_keep o1 = mask (20 + option_bytes meta)" using keep_of_lanes [OF lo] l(2) o by simp
qed

text \<open>The cycle in which the addresses arrive and the packet goes out.\<close>

definition control_packet :: "build \<Rightarrow> TxEngFsmMetaData \<Rightarrow> FourTuple \<Rightarrow> 8 word list" where
  "control_packet bld m t =
     (let hdr = word_bytes (pseudo_full_header m t) in
      word_bytes (ipv4_header_word bld (xm_length m) (IpAddrPair (src_ip_addr t) (dst_ip_addr t))) @
      put_checksum (NOT (word_of_nat (ones_complement_sum hdr))) (drop 12 hdr))"

lemma packet_cycle:
  assumes "tx_quiet READ_TUPLE_FROM_SLUP_CTRL [xm_length m] [m] s" and "f = TxEngTcpFsm bld u v (tg_fsm s)"
    and "xt_slookup_rev_table_to_tx_eng_rsp (tg_tuple s) = q # qs" and "xm_length m = 0 \<or> xm_syn m"
    and "xf_tx_eng_fsm_meta_data_out f = []" and "xf_tx_tcp_payload_length_out f = []"
    and "xf_tx_four_tuple_source f = []" and "xf_tx_eng_fsm_four_tuple_out f = []" and "xf_tx_eng_to_mem_read_cmd f = []"
  shows "\<exists>w. xk_tx_ip_pkt_out (tg_ip (tx_engine bld u v s)) = xk_tx_ip_pkt_out (tg_ip s) @ [w] \<and> is_packet [w] \<and>
     word_bytes w = control_packet bld m (rt_four_tuple q)"
    and "tx_quiet LOAD_TUPLE_SRC [] [] (tx_engine bld u v s)"
    and "xt_slookup_rev_table_to_tx_eng_rsp (tg_tuple (tx_engine bld u v s)) = qs"
proof -
  let ?t = "rt_four_tuple q"
  let ?h = "pseudo_full_header m ?t" and ?ip = "ipv4_header_word bld (xm_length m) (IpAddrPair (src_ip_addr ?t) (dst_ip_addr ?t))"
  let ?c = "NOT (word_of_nat (ones_complement_sum (word_bytes ?h))) :: 16 word"
  define o1 where "o1 = (ConcatTwoWords NetAXISWord_default ?h 12 NetAXISWord_default)\<lparr>nw_last := True\<rparr>"
  note o = removed_word [of m ?t, folded o1_def]
  have small: "20 + option_bytes m \<le> 28" by (simp add: option_bytes_def)
  have last: "nw_last ?h" "nw_last o1" by (simp_all add: pseudo_full_header_def o1_def Let_def)
  have b44: "\<not> bit (nw_keep o1) 44" using o(2) small by (simp add: bit_simps)
  have sum: "\<exists>c. ComputeSubChecksum (r\<lparr>cs_pkt_in := [?h]\<rparr>) = r\<lparr>cs_pkt_in := [], cs_sub_checksum := [c]\<rparr> \<and>
      CheckChecksum ([c], []) = ([], [?c])" if "cs_tcp_checksums r = zero_sums" "cs_sub_checksum r = []" for r
    using packet_checksum [OF header_packet(1), of "r\<lparr>cs_pkt_in := [?h]\<rparr>" m ?t "[]" "[]"] that by simp
  obtain c where c: "ComputeSubChecksum ((tg_sub_checksum s)\<lparr>cs_pkt_in := [?h]\<rparr>) = (tg_sub_checksum s)\<lparr>cs_pkt_in := [], cs_sub_checksum := [c]\<rparr>"
      "CheckChecksum ([c], []) = ([], [?c])"
    using sum [of "tg_sub_checksum s"] assms(1) by (auto simp: tx_quiet_def)
  have "xk_tx_ip_pkt_out (tg_ip (tx_engine bld u v s)) = xk_tx_ip_pkt_out (tg_ip s) @ [first_ip_word ?ip ?c o1] \<and>
      tx_quiet LOAD_TUPLE_SRC [] [] (tx_engine bld u v s) \<and>
      xt_slookup_rev_table_to_tx_eng_rsp (tg_tuple (tx_engine bld u v s)) = qs"
    using assms(1,3-) c last b44 unfolding assms(2) tx_quiet_def
    by (simp add: tx_engine_def tx_engine_calls ReadDataSendCmd_def ReadDataFromMem_def read_access_def
        TxEngFourTupleHandler_def send_tuple_def TxEngPseudoFullHeaderConstruct_def TxEngConstructPseudoPacket_def pseudo_read_header_def
        send_pseudo_def TxEngRemovePseudoHeader_def remove_first_def TxEngConstructIpv4Header_def TxEngConstructIpv4Packet_def
        ip_read_first_def Let_def flip: o1_def)
  moreover have "word_bytes (first_ip_word ?ip ?c o1) = control_packet bld m ?t" "nw_keep (first_ip_word ?ip ?c o1) = mask (40 + option_bytes m)"
  proof -
    have j: "20 \<le> 20 + option_bytes m" "20 + option_bytes m \<le> 64" using small by simp_all
    have "take 44 (word_bytes o1) = word_bytes o1" using mask_lanes(2) [OF o(2) j(2)] small by simp
    then show "word_bytes (first_ip_word ?ip ?c o1) = control_packet bld m ?t" "nw_keep (first_ip_word ?ip ?c o1) = mask (40 + option_bytes m)"
      using first_ip_word_bytes [OF o(2) j ipv4_header_keep(1), of bld "xm_length m" "IpAddrPair (src_ip_addr ?t) (dst_ip_addr ?t)" ?c] small
      by (simp_all add: o(1) control_packet_def Let_def min_def)
  qed
  moreover have "nw_last (first_ip_word ?ip ?c o1)" using last(2) b44 by (simp add: first_ip_word_def)
  moreover have "40 + option_bytes m \<in> {1..64}" by (simp add: option_bytes_def)
  ultimately show "\<exists>w. xk_tx_ip_pkt_out (tg_ip (tx_engine bld u v s)) = xk_tx_ip_pkt_out (tg_ip s) @ [w] \<and> is_packet [w] \<and>
     word_bytes w = control_packet bld m (rt_four_tuple q)"
    and "tx_quiet LOAD_TUPLE_SRC [] [] (tx_engine bld u v s)"
    and "xt_slookup_rev_table_to_tx_eng_rsp (tg_tuple (tx_engine bld u v s)) = qs"
    by (simp_all add: is_packet_def)
qed

text \<open>An event without payload, whose state machine is back to \<open>LOAD\<close> with no further event.\<close>

lemma control_event_out:
  assumes "tx_quiet LOAD_TUPLE_SRC [] [] s" and "f = TxEngTcpFsm bld u v (tg_fsm s)"
    and "xf_tx_eng_fsm_meta_data_out f = [m]" and "xf_tx_tcp_payload_length_out f = [xm_length m]"
    and "xf_tx_four_tuple_source f = [True]" and "xf_tx_eng_fsm_four_tuple_out f = []" and "xf_tx_eng_to_mem_read_cmd f = []"
    and "xf_fsm_state f = TX_LOAD" and "xf_ack_delay_to_tx_eng_event f = []"
    and "xt_slookup_rev_table_to_tx_eng_rsp (tg_tuple s) = q # qs" and "unat (xm_length m) = option_bytes m"
  shows "\<exists>w. xk_tx_ip_pkt_out (tg_ip ((tx_engine bld u v ^^ 2) s)) = xk_tx_ip_pkt_out (tg_ip s) @ [w] \<and> is_packet [w] \<and>
     word_bytes w = control_packet bld m (rt_four_tuple q) \<and> ones_complement_sum (tcp_segment_of (word_bytes w)) = 65535 \<and>
     tx_quiet LOAD_TUPLE_SRC [] [] ((tx_engine bld u v ^^ 2) s)"
proof -
  note h = header_cycle [OF assms(1-7)]
  let ?y = "tx_engine bld u v s"
  have p: "xm_length m = 0 \<or> xm_syn m" using assms(11) by (auto simp: option_bytes_def unsigned_eq_0_iff split: if_splits)
  have l: "xm_length m = word_of_nat (option_bytes m + length ([] :: 8 word list))"
    by (simp add: assms(11) [symmetric])
  have two: "(tx_engine bld u v ^^ 2) s = tx_engine bld u v ?y" by (simp add: numeral_2_eq_2)
  have n: "xf_tx_eng_fsm_meta_data_out (TxEngTcpFsm bld u v (tg_fsm ?y)) = []"
      "xf_tx_tcp_payload_length_out (TxEngTcpFsm bld u v (tg_fsm ?y)) = []"
      "xf_tx_four_tuple_source (TxEngTcpFsm bld u v (tg_fsm ?y)) = []"
      "xf_tx_eng_fsm_four_tuple_out (TxEngTcpFsm bld u v (tg_fsm ?y)) = []"
      "xf_tx_eng_to_mem_read_cmd (TxEngTcpFsm bld u v (tg_fsm ?y)) = []"
    using assms(8,9) by (simp_all add: h(4) TxEngTcpFsm_def tx_load_def)
  have q: "xt_slookup_rev_table_to_tx_eng_rsp (tg_tuple ?y) = q # qs" using h(2) assms(10) by simp
  have "ones_complement_sum (tcp_segment_of (control_packet bld m (rt_four_tuple q))) = 65535"
    using conjunct2 [OF sent_segment_valid [OF l _ refl, where t = "rt_four_tuple q" and bld = bld, unfolded Let_def]]
    by (simp add: control_packet_def Let_def)
  then show ?thesis
    using packet_cycle [OF h(1) refl q p n] h(3) by (auto simp: two)
qed

text \<open>C29: An acknowledgement leaves the engine two cycles after the answers of the tables are there: the IP packet
  with the IP header, the TCP header with the numbers of the tables, and a checksum that makes the segment
  add up at the receiver; after it all processes are ready again.\<close>

theorem ack_leaves_engine:
  assumes "tx_quiet LOAD_TUPLE_SRC [] [] s" and "xf_fsm_state (tg_fsm s) = TX_TRANSITION"
    and "ev_type (xf_tx_eng_event_reg (tg_fsm s)) = ACK \<or> ev_type (xf_tx_eng_event_reg (tg_fsm s)) = ACK_NODELAY"
    and "xf_ack_delay_to_tx_eng_event (tg_fsm s) = []"
    and "xf_rx_sar_to_tx_eng_lup_rsp (tg_fsm s) = r # rs" and "xf_tx_sar_to_tx_eng_rsp (tg_fsm s) = t # ts"
    and "tx_out (tg_fsm s) = ([], [], [], [], [], [])" and "xt_slookup_rev_table_to_tx_eng_rsp (tg_tuple s) = q # qs"
  shows "\<exists>w m. xk_tx_ip_pkt_out (tg_ip ((tx_engine bld u v ^^ 2) s)) = xk_tx_ip_pkt_out (tg_ip s) @ [w] \<and> is_packet [w] \<and>
     word_bytes w = control_packet bld m (rt_four_tuple q) \<and> ones_complement_sum (tcp_segment_of (word_bytes w)) = 65535 \<and>
     xm_seq_number m = tte_not_ackd t \<and> xm_ack_number m = rxl_recvd r \<and> xm_win_size m = rxl_win_size r \<and>
     xm_ack m \<and> \<not> xm_syn m \<and> \<not> xm_fin m \<and> \<not> xm_rst m \<and>
     tx_quiet LOAD_TUPLE_SRC [] [] ((tx_engine bld u v ^^ 2) s)"
proof -
  let ?m = "(meta_flags True False False (xf_tcp_tx_meta_reg (tg_fsm s)))
      \<lparr>xm_ack_number := rxl_recvd r, xm_seq_number := tte_not_ackd t, xm_win_size := rxl_win_size r, xm_length := 0\<rparr>"
  have f: "xf_tx_eng_fsm_meta_data_out (TxEngTcpFsm bld u v (tg_fsm s)) = [?m]"
      "xf_tx_tcp_payload_length_out (TxEngTcpFsm bld u v (tg_fsm s)) = [xm_length ?m]"
      "xf_tx_four_tuple_source (TxEngTcpFsm bld u v (tg_fsm s)) = [True]"
      "xf_tx_eng_fsm_four_tuple_out (TxEngTcpFsm bld u v (tg_fsm s)) = []"
      "xf_tx_eng_to_mem_read_cmd (TxEngTcpFsm bld u v (tg_fsm s)) = []"
      "xf_fsm_state (TxEngTcpFsm bld u v (tg_fsm s)) = TX_LOAD"
      "xf_ack_delay_to_tx_eng_event (TxEngTcpFsm bld u v (tg_fsm s)) = []"
    using assms(2-7) by (auto simp: TxEngTcpFsm_def ack_event_def write_segment_def write_meta_def tx_out_def)
  have "unat (xm_length ?m) = option_bytes ?m" by (simp add: option_bytes_def)
  from control_event_out [OF assms(1) refl f assms(8) this] obtain w
    where "xk_tx_ip_pkt_out (tg_ip ((tx_engine bld u v ^^ 2) s)) = xk_tx_ip_pkt_out (tg_ip s) @ [w]" "is_packet [w]"
      "word_bytes w = control_packet bld ?m (rt_four_tuple q)" "ones_complement_sum (tcp_segment_of (word_bytes w)) = 65535"
      "tx_quiet LOAD_TUPLE_SRC [] [] ((tx_engine bld u v ^^ 2) s)" by blast
  then show ?thesis by (intro exI [of _ w] exI [of _ ?m]) simp
qed

text \<open>Opening a connection: the first \<open>SYN\<close> of a session leaves the engine in two cycles with the options for
  segment size and window scale, valid at the receiver; the sequence number behind it is stored as the
  start of the session, and the retransmission timer runs for a \<open>SYN\<close>.\<close>

theorem syn_leaves_engine:
  assumes "tx_quiet LOAD_TUPLE_SRC [] [] s" and "xf_fsm_state (tg_fsm s) = TX_TRANSITION"
    and "ev_type (xf_tx_eng_event_reg (tg_fsm s)) = SYN" and "\<not> xf_retransmission (tg_fsm s)"
    and "xf_ack_delay_to_tx_eng_event (tg_fsm s) = []" and "RandomVal bld (xf_ramdom_val (tg_fsm s)) = (seq, next)"
    and "tx_out (tg_fsm s) = ([], [], [], [], [], [])" and "xt_slookup_rev_table_to_tx_eng_rsp (tg_tuple s) = q # qs"
  shows "\<exists>w m. xk_tx_ip_pkt_out (tg_ip ((tx_engine bld u v ^^ 2) s)) = xk_tx_ip_pkt_out (tg_ip s) @ [w] \<and> is_packet [w] \<and>
     word_bytes w = control_packet bld m (rt_four_tuple q) \<and> ones_complement_sum (tcp_segment_of (word_bytes w)) = 65535 \<and>
     xm_syn m \<and> \<not> xm_ack m \<and> \<not> xm_fin m \<and> \<not> xm_rst m \<and> xm_seq_number m = seq \<and> option_bytes m = 8 \<and>
     (let f = tg_fsm (tx_engine bld u v s); sid = xf_session (tg_fsm s) in
      xf_tx_eng_to_tx_sar_req f = xf_tx_eng_to_tx_sar_req (tg_fsm s) @ [TxEngToTxSarReq_write sid (seq + 1) True False False] \<and>
      xf_tx_eng_to_timer_set_rtimer f = xf_tx_eng_to_timer_set_rtimer (tg_fsm s) @ [\<lparr>tr_session_id = sid, tr_type = SYN\<rparr>])"
proof -
  let ?m = "(meta_flags False True False ((xf_tcp_tx_meta_reg (tg_fsm s))\<lparr>xm_seq_number := seq\<rparr>))
      \<lparr>xm_ack_number := 0, xm_win_size := 0xFFFF, xm_length := 8, xm_win_scale := 2\<rparr>"
  have f: "xf_tx_eng_fsm_meta_data_out (TxEngTcpFsm bld u v (tg_fsm s)) = [?m]"
      "xf_tx_tcp_payload_length_out (TxEngTcpFsm bld u v (tg_fsm s)) = [xm_length ?m]"
      "xf_tx_four_tuple_source (TxEngTcpFsm bld u v (tg_fsm s)) = [True]"
      "xf_tx_eng_fsm_four_tuple_out (TxEngTcpFsm bld u v (tg_fsm s)) = []"
      "xf_tx_eng_to_mem_read_cmd (TxEngTcpFsm bld u v (tg_fsm s)) = []"
      "xf_fsm_state (TxEngTcpFsm bld u v (tg_fsm s)) = TX_LOAD"
      "xf_ack_delay_to_tx_eng_event (TxEngTcpFsm bld u v (tg_fsm s)) = []"
    using assms(2-7) by (simp_all add: TxEngTcpFsm_def syn_event_def syn_segment_def first_seq_number_def update_tx_sar_def
        set_rtimer_def write_segment_def write_meta_def tx_out_def)
  have "unat (xm_length ?m) = option_bytes ?m" by (simp add: option_bytes_def)
  from control_event_out [OF assms(1) refl f assms(8) this] obtain w
    where w: "xk_tx_ip_pkt_out (tg_ip ((tx_engine bld u v ^^ 2) s)) = xk_tx_ip_pkt_out (tg_ip s) @ [w]" "is_packet [w]"
      "word_bytes w = control_packet bld ?m (rt_four_tuple q)" "ones_complement_sum (tcp_segment_of (word_bytes w)) = 65535"
    by blast
  have g: "let f = tg_fsm (tx_engine bld u v s); sid = xf_session (tg_fsm s) in
      xf_tx_eng_to_tx_sar_req f = xf_tx_eng_to_tx_sar_req (tg_fsm s) @ [TxEngToTxSarReq_write sid (seq + 1) True False False] \<and>
      xf_tx_eng_to_timer_set_rtimer f = xf_tx_eng_to_timer_set_rtimer (tg_fsm s) @ [\<lparr>tr_session_id = sid, tr_type = SYN\<rparr>]"
    unfolding header_cycle(4) [OF assms(1) refl f(1-5)]
    using assms(2-6) by (simp add: TxEngTcpFsm_def syn_event_def syn_segment_def first_seq_number_def update_tx_sar_def
        set_rtimer_def write_segment_def write_meta_def Let_def)
  have "option_bytes ?m = 8" by (simp add: option_bytes_def)
  then show ?thesis using w g by (intro exI [of _ w] exI [of _ ?m]) simp
qed

definition tx_demo_engine :: "EventType \<Rightarrow> TxEngine" where
  "tx_demo_engine type = tx_engine_init\<lparr>tg_fsm := tx_demo_event type tx_demo_entry,
     tg_tuple := tx_tuple_init\<lparr>xt_slookup_rev_table_to_tx_eng_rsp := [\<lparr>rt_four_tuple = FourTuple 1 2 3 4, rt_role_id = 0\<rparr>]\<rparr>\<rparr>"

lemma tx_demo_engine_simps [simp]:
  "tg_fsm (tx_demo_engine type) = tx_demo_event type tx_demo_entry"
  "xt_slookup_rev_table_to_tx_eng_rsp (tg_tuple (tx_demo_engine type)) = [\<lparr>rt_four_tuple = FourTuple 1 2 3 4, rt_role_id = 0\<rparr>]"
  "tx_quiet LOAD_TUPLE_SRC [] [] (tx_demo_engine type)" "tx_out (tx_demo_event type tx_demo_entry) = ([], [], [], [], [], [])"
  "xf_ack_delay_to_tx_eng_event (tx_demo_event type tx_demo_entry) = []" "xk_tx_ip_pkt_out (tg_ip (tx_demo_engine type)) = []"
  using quiet_init by (simp_all add: tx_demo_engine_def tx_quiet_def tx_tuple_init_def tx_out_def tx_demo_event_def tx_fsm_init_def
      tx_engine_init_def tx_ip_packet_init_def)

theorem ack_leaves_engine_witness:
  "\<exists>w. xk_tx_ip_pkt_out (tg_ip ((tx_engine Simulation 0 0 ^^ 2) (tx_demo_engine ACK))) = [w] \<and>
     ones_complement_sum (tcp_segment_of (word_bytes w)) = 65535"
  using ack_leaves_engine [of "tx_demo_engine ACK" "\<lparr>rxl_recvd = 77, rxl_win_shift = 2, rxl_win_size = 500\<rparr>" "[]"
      "tx_sar_lookup tx_demo_entry" "[]" "\<lparr>rt_four_tuple = FourTuple 1 2 3 4, rt_role_id = 0\<rparr>" "[]" Simulation 0 0]
  by (auto simp del: funpow.simps)

theorem syn_leaves_engine_witness:
  "\<exists>w. xk_tx_ip_pkt_out (tg_ip ((tx_engine Simulation 0 0 ^^ 2) (tx_demo_engine SYN))) = [w] \<and>
     ones_complement_sum (tcp_segment_of (word_bytes w)) = 65535"
  using syn_leaves_engine [of "tx_demo_engine SYN" Simulation INIT_SEQ_NUMBER "xf_ramdom_val (tx_demo_event SYN tx_demo_entry)"
      "\<lparr>rt_four_tuple = FourTuple 1 2 3 4, rt_role_id = 0\<rparr>" "[]" 0 0]
  by (auto simp del: funpow.simps)

end
