(* ===== verification/Port_Table.thy ===== *)
theory Port_Table
  imports Toe_Types
begin

text \<open>
  \<open>port_table/port_table.cpp\<close>: the table of the listening ports (below \<open>2 ^ 15\<close>), the table of
  the ports handed out for active opens (the ephemeral half) and the two multiplexers that route
  the receive engine's port checks to one of them and merge the answers in order.  One record
  holds the statics of the four processes and the FIFOs between them; \<open>port_table\<close> runs them in
  the order of the wrapper.  The answer of \<open>ptable_to_tx_app_rsp.full()\<close> is a field that the
  environment sets.
\<close>

section \<open>State\<close>

datatype cmFsmStateType = READ_DST | READ_LISTENING | READ_USED

record PortTable =
  pt_listening_port_table :: "15 word \<Rightarrow> PortTableEntry"
  pt_free_port_table :: "15 word \<Rightarrow> PortTableEntry"
  pt_pt_cursor :: "15 word"
  pt_dst :: bool
  pt_cm_fsmState :: cmFsmStateType
  pt_ptable_check_listening_req_fifo :: "15 word stream"
  pt_ptable_check_used_req_fifo :: "15 word stream"
  pt_ptable_check_listening_rsp_fifo :: "PtableToRxEngRsp stream"
  pt_ptable_check_used_rsp_fifo :: "PtableToRxEngRsp stream"
  pt_ptable_check_dst_fifo :: "bool stream"
  pt_slookup_to_ptable_release_port_req :: "TcpPortNumber stream"
  pt_rx_app_to_ptable_listen_port_req :: "ListenPortReq stream"
  pt_ptable_to_rx_app_listen_port_rsp :: "ListenPortRsp stream"
  pt_rx_eng_to_ptable_check_req :: "TcpPortNumber stream"
  pt_ptable_to_rx_eng_check_rsp :: "PtableToRxEngRsp stream"
  pt_tx_app_to_ptable_req :: "NetAXISDest stream"
  pt_ptable_to_tx_app_rsp :: "TcpPortNumber stream"
  pt_ptable_to_tx_app_rsp_full :: bool

section \<open>The processes\<close>

definition port_check :: "(15 word \<Rightarrow> PortTableEntry) \<Rightarrow> 15 word \<Rightarrow> PtableToRxEngRsp" where
  "port_check t p = \<lparr>pr_is_open = pe_is_open (t p), pr_role_id = pe_role_id (t p)\<rparr>"

definition listen_port :: "ListenPortReq \<Rightarrow> PortTable \<Rightarrow> PortTable" where
  "listen_port curr_req s =
     (let wrong_port_number = bit (lq_data curr_req) 15;
          port = get_range 0 (lq_data curr_req);
          ok = (\<not> pe_is_open (pt_listening_port_table s port) \<and> \<not> wrong_port_number) in
      s\<lparr>pt_listening_port_table :=
          (if ok then (pt_listening_port_table s)
             (port := \<lparr>pe_is_open = True, pe_role_id = lq_dest curr_req\<rparr>)
           else pt_listening_port_table s),
        pt_ptable_to_rx_app_listen_port_rsp := pt_ptable_to_rx_app_listen_port_rsp s @
          [\<lparr>lr_data = \<lparr>lr_port_number = lq_data curr_req, lr_open_successfully = ok,
                       lr_wrong_port_number = wrong_port_number, lr_already_open = (\<not> ok)\<rparr>,
            lr_dest = lq_dest curr_req\<rparr>]\<rparr>)"

definition ListeningPortTable :: "PortTable \<Rightarrow> PortTable" where
  "ListeningPortTable s =
     (case pt_rx_app_to_ptable_listen_port_req s of
        curr_req # reqs \<Rightarrow>
          listen_port curr_req (s\<lparr>pt_rx_app_to_ptable_listen_port_req := reqs\<rparr>)
      | [] \<Rightarrow>
        (case pt_ptable_check_listening_req_fifo s of
           check_port_15 # checks \<Rightarrow>
             s\<lparr>pt_ptable_check_listening_req_fifo := checks,
               pt_ptable_check_listening_rsp_fifo := pt_ptable_check_listening_rsp_fifo s @
                 [port_check (pt_listening_port_table s) check_port_15]\<rparr>
         | [] \<Rightarrow> s))"

definition release_free_port :: "TcpPortNumber \<Rightarrow> PortTable \<Rightarrow> PortTable" where
  "release_free_port slup_port_req s =
     (if bit slup_port_req 15 then
        (let port = get_range 0 slup_port_req in
         s\<lparr>pt_free_port_table := (pt_free_port_table s)
             (port := (pt_free_port_table s port)\<lparr>pe_is_open := False\<rparr>)\<rparr>)
      else s)"

definition cur_free_port :: "15 word \<Rightarrow> TcpPortNumber" where
  "cur_free_port cursor = set_bit 15 (put_range 0 cursor 0)"

definition get_free_port :: "NetAXISDest \<Rightarrow> PortTable \<Rightarrow> PortTable" where
  "get_free_port tx_app_tdest s =
     (let cursor = pt_pt_cursor s;
          s = (if \<not> pe_is_open (pt_free_port_table s cursor) \<and> \<not> pt_ptable_to_tx_app_rsp_full s then
                 s\<lparr>pt_free_port_table := (pt_free_port_table s)
                     (cursor := \<lparr>pe_is_open = True, pe_role_id = tx_app_tdest\<rparr>),
                   pt_ptable_to_tx_app_rsp := pt_ptable_to_tx_app_rsp s @ [cur_free_port cursor]\<rparr>
               else s) in
      s\<lparr>pt_pt_cursor := cursor + 1\<rparr>)"

definition FreePortTable :: "PortTable \<Rightarrow> PortTable" where
  "FreePortTable s =
     (case pt_slookup_to_ptable_release_port_req s of
        slup_port_req # reqs \<Rightarrow>
          release_free_port slup_port_req (s\<lparr>pt_slookup_to_ptable_release_port_req := reqs\<rparr>)
      | [] \<Rightarrow>
        (case pt_ptable_check_used_req_fifo s of
           port_check_used # checks \<Rightarrow>
             s\<lparr>pt_ptable_check_used_req_fifo := checks,
               pt_ptable_check_used_rsp_fifo := pt_ptable_check_used_rsp_fifo s @
                 [port_check (pt_free_port_table s) port_check_used]\<rparr>
         | [] \<Rightarrow>
           (case pt_tx_app_to_ptable_req s of
              tx_app_tdest # reqs \<Rightarrow>
                get_free_port tx_app_tdest (s\<lparr>pt_tx_app_to_ptable_req := reqs\<rparr>)
            | [] \<Rightarrow> s)))"

text \<open>\<open>True\<close> in \<open>ptable_check_dst_fifo\<close> stands for \<open>dst_is_listening_table\<close>.\<close>

definition CheckInMultiplexer :: "PortTable \<Rightarrow> PortTable" where
  "CheckInMultiplexer s =
     (case pt_rx_eng_to_ptable_check_req s of
        req_check_port # reqs \<Rightarrow>
          (let s = s\<lparr>pt_rx_eng_to_ptable_check_req := reqs\<rparr> in
           if \<not> bit req_check_port 15 then
             s\<lparr>pt_ptable_check_listening_req_fifo :=
                 pt_ptable_check_listening_req_fifo s @ [ucast req_check_port],
               pt_ptable_check_dst_fifo := pt_ptable_check_dst_fifo s @ [True]\<rparr>
           else
             s\<lparr>pt_ptable_check_used_req_fifo :=
                 pt_ptable_check_used_req_fifo s @ [ucast req_check_port],
               pt_ptable_check_dst_fifo := pt_ptable_check_dst_fifo s @ [False]\<rparr>)
      | [] \<Rightarrow> s)"

definition CheckOutMultiplexer :: "PortTable \<Rightarrow> PortTable" where
  "CheckOutMultiplexer s =
     (case pt_cm_fsmState s of
        READ_DST \<Rightarrow>
          (case pt_ptable_check_dst_fifo s of
             dst # dsts \<Rightarrow>
               s\<lparr>pt_ptable_check_dst_fifo := dsts, pt_dst := dst,
                 pt_cm_fsmState := (if dst then READ_LISTENING else READ_USED)\<rparr>
           | [] \<Rightarrow> s)
      | READ_LISTENING \<Rightarrow>
          (case pt_ptable_check_listening_rsp_fifo s of
             rsp # rsps \<Rightarrow>
               s\<lparr>pt_ptable_check_listening_rsp_fifo := rsps,
                 pt_ptable_to_rx_eng_check_rsp := pt_ptable_to_rx_eng_check_rsp s @ [rsp],
                 pt_cm_fsmState := READ_DST\<rparr>
           | [] \<Rightarrow> s)
      | READ_USED \<Rightarrow>
          (case pt_ptable_check_used_rsp_fifo s of
             rsp # rsps \<Rightarrow>
               s\<lparr>pt_ptable_check_used_rsp_fifo := rsps,
                 pt_ptable_to_rx_eng_check_rsp := pt_ptable_to_rx_eng_check_rsp s @ [rsp],
                 pt_cm_fsmState := READ_DST\<rparr>
           | [] \<Rightarrow> s))"

definition port_table :: "PortTable \<Rightarrow> PortTable" where
  "port_table s =
     CheckOutMultiplexer (CheckInMultiplexer (FreePortTable (ListeningPortTable s)))"

text \<open>Power-up: the tables are zeroed, the streams empty.\<close>

definition port_table_init :: PortTable where
  "port_table_init =
     \<lparr>pt_listening_port_table = (\<lambda>_. \<lparr>pe_is_open = False, pe_role_id = 0\<rparr>),
      pt_free_port_table = (\<lambda>_. \<lparr>pe_is_open = False, pe_role_id = 0\<rparr>),
      pt_pt_cursor = 0, pt_dst = True, pt_cm_fsmState = READ_DST,
      pt_ptable_check_listening_req_fifo = [], pt_ptable_check_used_req_fifo = [],
      pt_ptable_check_listening_rsp_fifo = [], pt_ptable_check_used_rsp_fifo = [],
      pt_ptable_check_dst_fifo = [], pt_slookup_to_ptable_release_port_req = [],
      pt_rx_app_to_ptable_listen_port_req = [], pt_ptable_to_rx_app_listen_port_rsp = [],
      pt_rx_eng_to_ptable_check_req = [], pt_ptable_to_rx_eng_check_rsp = [],
      pt_tx_app_to_ptable_req = [], pt_ptable_to_tx_app_rsp = [],
      pt_ptable_to_tx_app_rsp_full = False\<rparr>"

section \<open>Handing out free ports\<close>

definition port_free :: "PortTable \<Rightarrow> TcpPortNumber \<Rightarrow> bool" where
  "port_free s p \<longleftrightarrow> \<not> pe_is_open (pt_free_port_table s (get_range 0 p))"

lemma cur_free_port_bits:
  "get_range 0 (cur_free_port c) = c" "bit (cur_free_port c) 15"
  by (auto intro!: bit_word_eqI simp: cur_free_port_def bit_field bit_simps)

text \<open>The other three processes leave the free port table, its queues and the cursor alone.\<close>

definition free_side :: "PortTable \<Rightarrow> (15 word \<Rightarrow> PortTableEntry) \<times> 15 word \<times> TcpPortNumber stream
    \<times> NetAXISDest stream \<times> TcpPortNumber stream \<times> bool" where
  "free_side s =
     (pt_free_port_table s, pt_pt_cursor s, pt_slookup_to_ptable_release_port_req s,
      pt_tx_app_to_ptable_req s, pt_ptable_to_tx_app_rsp s, pt_ptable_to_tx_app_rsp_full s)"

lemma free_side_others [simp]:
  "free_side (ListeningPortTable s) = free_side s"
  "free_side (CheckInMultiplexer s) = free_side s"
  "free_side (CheckOutMultiplexer s) = free_side s"
  by (auto simp: free_side_def ListeningPortTable_def listen_port_def CheckInMultiplexer_def
      CheckOutMultiplexer_def Let_def split: list.split cmFsmStateType.split)

lemma free_side_port_table:
  "free_side (port_table s) = free_side (FreePortTable (ListeningPortTable s))"
  by (simp add: port_table_def)

text \<open>One cycle without releases: at most one port is handed out; it was free, and nothing closes.\<close>

lemma port_table_hands_out:
  assumes "pt_slookup_to_ptable_release_port_req s = []"
  shows "\<exists>ps. pt_ptable_to_tx_app_rsp (port_table s) = pt_ptable_to_tx_app_rsp s @ ps
      \<and> pt_slookup_to_ptable_release_port_req (port_table s) = []
      \<and> (ps = [] \<or> (\<exists>p. ps = [p] \<and> bit p 15 \<and> port_free s p \<and> \<not> port_free (port_table s) p))
      \<and> (\<forall>q. \<not> port_free s q \<longrightarrow> \<not> port_free (port_table s) q)"
proof -
  let ?u = "ListeningPortTable s"
  have u: "pt_slookup_to_ptable_release_port_req ?u = []"
      "pt_ptable_to_tx_app_rsp ?u = pt_ptable_to_tx_app_rsp s"
      "pt_free_port_table ?u = pt_free_port_table s"
    using free_side_others(1) [of s] assms by (simp_all add: free_side_def)
  have v: "pt_slookup_to_ptable_release_port_req (port_table s)
           = pt_slookup_to_ptable_release_port_req (FreePortTable ?u)"
      "pt_ptable_to_tx_app_rsp (port_table s) = pt_ptable_to_tx_app_rsp (FreePortTable ?u)"
      "pt_free_port_table (port_table s) = pt_free_port_table (FreePortTable ?u)"
    using free_side_port_table [of s] by (simp_all add: free_side_def)
  show ?thesis
    unfolding port_free_def v
    using u by (auto simp: FreePortTable_def get_free_port_def Let_def cur_free_port_bits
        split: list.split)
qed

definition handed_out :: "PortTable \<Rightarrow> nat \<Rightarrow> TcpPortNumber list" where
  "handed_out s n = written (pt_ptable_to_tx_app_rsp s) (pt_ptable_to_tx_app_rsp ((port_table ^^ n) s))"

text \<open>The ports handed out for active opens over any number of cycles without a release are
  ephemeral ports (top bit set), pairwise different, were free before and are marked as used
  afterwards.\<close>

theorem free_ports_unique:
  assumes "pt_slookup_to_ptable_release_port_req s = []"
  shows "distinct (handed_out s n)
       \<and> (\<forall>p \<in> set (handed_out s n). bit p 15 \<and> port_free s p \<and> \<not> port_free ((port_table ^^ n) s) p)"
proof -
  have "pt_slookup_to_ptable_release_port_req ((port_table ^^ n) s) = []
      \<and> (\<forall>q. \<not> port_free s q \<longrightarrow> \<not> port_free ((port_table ^^ n) s) q)
      \<and> (\<exists>hs. pt_ptable_to_tx_app_rsp ((port_table ^^ n) s) = pt_ptable_to_tx_app_rsp s @ hs
         \<and> distinct hs
         \<and> (\<forall>p \<in> set hs. bit p 15 \<and> port_free s p \<and> \<not> port_free ((port_table ^^ n) s) p))"
  proof (induction n)
    case 0
    then show ?case using assms by simp
  next
    case (Suc n)
    then show ?case
      using port_table_hands_out [of "(port_table ^^ n) s"]
      by (elim conjE exE) (simp, fastforce)
  qed
  then show ?thesis by (auto simp: handed_out_def)
qed

section \<open>Port checks\<close>

text \<open>
  The tags in flight say which table answers each check, the lines hold the answers of each table
  (given or, for a check still queued, looked up now); \<open>route\<close> merges the lines along the tags.
\<close>

fun route :: "bool list \<Rightarrow> 'a list \<Rightarrow> 'a list \<Rightarrow> 'a list" where
  "route (True # ts) (l # ls) us = l # route ts ls us"
| "route (False # ts) ls (u # us) = u # route ts ls us"
| "route _ _ _ = []"

definition check_answer :: "(15 word \<Rightarrow> PortTableEntry) \<Rightarrow> (15 word \<Rightarrow> PortTableEntry)
    \<Rightarrow> TcpPortNumber \<Rightarrow> PtableToRxEngRsp" where
  "check_answer listening free p =
     (if \<not> bit p 15 then port_check listening (ucast p) else port_check free (ucast p))"

definition pending_tags :: "PortTable \<Rightarrow> bool list" where
  "pending_tags s =
     (case pt_cm_fsmState s of READ_DST \<Rightarrow> [] | READ_LISTENING \<Rightarrow> [True] | READ_USED \<Rightarrow> [False])
     @ pt_ptable_check_dst_fifo s"

definition listening_line :: "PortTable \<Rightarrow> PtableToRxEngRsp list" where
  "listening_line s = pt_ptable_check_listening_rsp_fifo s
     @ map (port_check (pt_listening_port_table s)) (pt_ptable_check_listening_req_fifo s)"

definition used_line :: "PortTable \<Rightarrow> PtableToRxEngRsp list" where
  "used_line s = pt_ptable_check_used_rsp_fifo s
     @ map (port_check (pt_free_port_table s)) (pt_ptable_check_used_req_fifo s)"

definition checks_balanced :: "PortTable \<Rightarrow> bool" where
  "checks_balanced s \<longleftrightarrow>
     length (filter (\<lambda>t. t) (pending_tags s)) = length (listening_line s)
   \<and> length (filter Not (pending_tags s)) = length (used_line s)"

text \<open>The answers the receive engine gets in the end, in the order of its checks.\<close>

definition all_answers :: "PortTable \<Rightarrow> PtableToRxEngRsp list" where
  "all_answers s = pt_ptable_to_rx_eng_check_rsp s
     @ route (pending_tags s) (listening_line s) (used_line s)
     @ map (check_answer (pt_listening_port_table s) (pt_free_port_table s)) (pt_rx_eng_to_ptable_check_req s)"

definition tables_quiet :: "PortTable \<Rightarrow> bool" where
  "tables_quiet s \<longleftrightarrow> pt_rx_app_to_ptable_listen_port_req s = []
     \<and> pt_slookup_to_ptable_release_port_req s = [] \<and> pt_tx_app_to_ptable_req s = []"

text \<open>An upper bound on the cycles that the checks in flight still need.\<close>

definition check_work :: "PortTable \<Rightarrow> nat" where
  "check_work s = 3 * length (pt_rx_eng_to_ptable_check_req s)
     + 2 * length (pt_ptable_check_dst_fifo s) + of_bool (pt_cm_fsmState s \<noteq> READ_DST)"

lemma route_snoc:
  assumes "length (filter (\<lambda>t. t) ts) = length ls" "length (filter Not ts) = length us"
  shows "route (ts @ [True]) (ls @ [x]) us = route ts ls us @ [x]"
    and "route (ts @ [False]) ls (us @ [x]) = route ts ls us @ [x]"
proof -
  have "route (ts @ [True]) (ls @ [x]) us = route ts ls us @ [x]
      \<and> route (ts @ [False]) ls (us @ [x]) = route ts ls us @ [x]"
    using assms
  proof (induction ts arbitrary: ls us)
    case (Cons t ts)
    show ?case
    proof (cases t)
      case True
      then obtain l ls' where "ls = l # ls'" using Cons.prems by (cases ls) auto
      then show ?thesis using Cons True by simp
    next
      case False
      then obtain u us' where "us = u # us'" using Cons.prems by (cases us) auto
      then show ?thesis using Cons False by simp
    qed
  qed simp
  then show "route (ts @ [True]) (ls @ [x]) us = route ts ls us @ [x]"
    and "route (ts @ [False]) ls (us @ [x]) = route ts ls us @ [x]" by simp_all
qed

lemmas check_defs = checks_balanced_def all_answers_def pending_tags_def listening_line_def
  used_line_def tables_quiet_def check_work_def

lemma checks_ListeningPortTable:
  "checks_balanced s \<Longrightarrow> checks_balanced (ListeningPortTable s)"
  "tables_quiet s \<Longrightarrow> tables_quiet (ListeningPortTable s)
     \<and> all_answers (ListeningPortTable s) = all_answers s
     \<and> check_work (ListeningPortTable s) = check_work s"
  by (auto simp: check_defs ListeningPortTable_def listen_port_def Let_def split: list.split)

lemma checks_FreePortTable:
  "checks_balanced s \<Longrightarrow> checks_balanced (FreePortTable s)"
  "tables_quiet s \<Longrightarrow> tables_quiet (FreePortTable s)
     \<and> all_answers (FreePortTable s) = all_answers s
     \<and> check_work (FreePortTable s) = check_work s"
  by (auto simp: check_defs FreePortTable_def get_free_port_def release_free_port_def Let_def
      split: list.split)

lemma checks_CheckIn:
  assumes "checks_balanced s"
  shows "checks_balanced (CheckInMultiplexer s)"
    and "all_answers (CheckInMultiplexer s) = all_answers s"
    and "tables_quiet s \<Longrightarrow> tables_quiet (CheckInMultiplexer s)"
proof -
  show "checks_balanced (CheckInMultiplexer s)" "tables_quiet s \<Longrightarrow> tables_quiet (CheckInMultiplexer s)"
    using assms by (auto simp: check_defs CheckInMultiplexer_def Let_def split: list.split)
  show "all_answers (CheckInMultiplexer s) = all_answers s"
  proof (cases "pt_rx_eng_to_ptable_check_req s")
    case (Cons p ps)
    let ?t = "CheckInMultiplexer s"
    have tab: "pt_listening_port_table ?t = pt_listening_port_table s" "pt_free_port_table ?t = pt_free_port_table s"
      "pt_ptable_to_rx_eng_check_rsp ?t = pt_ptable_to_rx_eng_check_rsp s" "pt_rx_eng_to_ptable_check_req ?t = ps"
      "pending_tags ?t = pending_tags s @ [\<not> bit p 15]"
      "listening_line ?t = listening_line s @ (if \<not> bit p 15 then [port_check (pt_listening_port_table s) (ucast p)] else [])"
      "used_line ?t = used_line s @ (if bit p 15 then [port_check (pt_free_port_table s) (ucast p)] else [])"
      using Cons by (simp_all add: CheckInMultiplexer_def Let_def pending_tags_def listening_line_def used_line_def)
    show ?thesis
      unfolding all_answers_def tab Cons
      using assms by (simp add: check_answer_def route_snoc checks_balanced_def)
  qed (simp add: CheckInMultiplexer_def)
qed

lemma checks_CheckOut:
  "checks_balanced s \<Longrightarrow> checks_balanced (CheckOutMultiplexer s)"
  "tables_quiet s \<Longrightarrow> tables_quiet (CheckOutMultiplexer s)"
  "all_answers (CheckOutMultiplexer s) = all_answers s"
  by (auto simp: check_defs CheckOutMultiplexer_def split: list.split cmFsmStateType.split)

lemma checks_balanced_cycle: "checks_balanced s \<Longrightarrow> checks_balanced (port_table s)"
  by (simp add: port_table_def checks_ListeningPortTable checks_FreePortTable checks_CheckIn checks_CheckOut)

text \<open>The tables run before the multiplexers, so a line that is not empty has an answer ready.\<close>

lemma answers_ready:
  "tables_quiet s \<Longrightarrow> listening_line (ListeningPortTable s) \<noteq> []
     \<Longrightarrow> pt_ptable_check_listening_rsp_fifo (ListeningPortTable s) \<noteq> []"
  "tables_quiet s \<Longrightarrow> used_line (FreePortTable s) \<noteq> []
     \<Longrightarrow> pt_ptable_check_used_rsp_fifo (FreePortTable s) \<noteq> []"
  by (auto simp: tables_quiet_def listening_line_def used_line_def ListeningPortTable_def
      FreePortTable_def split: list.splits)

lemma FreePortTable_listening_side:
  "tables_quiet s \<Longrightarrow> pt_ptable_check_listening_rsp_fifo (FreePortTable s) = pt_ptable_check_listening_rsp_fifo s
     \<and> listening_line (FreePortTable s) = listening_line s"
  by (simp add: tables_quiet_def FreePortTable_def listening_line_def split: list.split)

lemma check_work_CheckIn:
  "check_work (CheckInMultiplexer s) \<le> check_work s"
  "pt_rx_eng_to_ptable_check_req s \<noteq> [] \<Longrightarrow> check_work (CheckInMultiplexer s) < check_work s"
  by (auto simp: check_work_def CheckInMultiplexer_def Let_def split: list.split)

lemma check_work_CheckOut:
  "check_work (CheckOutMultiplexer s) \<le> check_work s"
  "pt_cm_fsmState s = READ_DST \<Longrightarrow> pt_ptable_check_dst_fifo s \<noteq> []
     \<Longrightarrow> check_work (CheckOutMultiplexer s) < check_work s"
  "pt_cm_fsmState s = READ_LISTENING \<Longrightarrow> pt_ptable_check_listening_rsp_fifo s \<noteq> []
     \<Longrightarrow> check_work (CheckOutMultiplexer s) < check_work s"
  "pt_cm_fsmState s = READ_USED \<Longrightarrow> pt_ptable_check_used_rsp_fifo s \<noteq> []
     \<Longrightarrow> check_work (CheckOutMultiplexer s) < check_work s"
  by (auto simp: check_work_def CheckOutMultiplexer_def split: list.split cmFsmStateType.split)

lemma CheckIn_keeps:
  "pt_cm_fsmState (CheckInMultiplexer s) = pt_cm_fsmState s"
  "pt_ptable_check_listening_rsp_fifo (CheckInMultiplexer s) = pt_ptable_check_listening_rsp_fifo s"
  "pt_ptable_check_used_rsp_fifo (CheckInMultiplexer s) = pt_ptable_check_used_rsp_fifo s"
  "pt_ptable_check_dst_fifo s \<noteq> [] \<Longrightarrow> pt_ptable_check_dst_fifo (CheckInMultiplexer s) \<noteq> []"
  by (auto simp: CheckInMultiplexer_def Let_def split: list.split)

lemma check_work_cycle:
  assumes "checks_balanced s" "tables_quiet s" "0 < check_work s"
  shows "check_work (port_table s) < check_work s"
proof -
  let ?u = "FreePortTable (ListeningPortTable s)"
  let ?v = "CheckInMultiplexer ?u"
  have q: "tables_quiet (ListeningPortTable s)" "checks_balanced ?u" "check_work ?u = check_work s"
    using assms by (simp_all add: checks_ListeningPortTable checks_FreePortTable)
  have in_le: "check_work ?v \<le> check_work s" using check_work_CheckIn(1) [of ?u] q by simp
  show ?thesis
  proof (cases "pt_rx_eng_to_ptable_check_req ?u = []")
    case False
    then show ?thesis
      using check_work_CheckIn(2) [of ?u] check_work_CheckOut(1) [of ?v] q
      by (simp add: port_table_def)
  next
    case True
    have "check_work (CheckOutMultiplexer ?v) < check_work ?v"
    proof (cases "pt_cm_fsmState ?u")
      case READ_DST
      then have "pt_ptable_check_dst_fifo ?u \<noteq> []"
        using True q assms(3) by (auto simp: check_work_def)
      then show ?thesis using READ_DST by (simp add: check_work_CheckOut CheckIn_keeps)
    next
      case READ_LISTENING
      then have "listening_line ?u \<noteq> []"
        using q by (auto simp: checks_balanced_def pending_tags_def)
      then have "pt_ptable_check_listening_rsp_fifo ?u \<noteq> []"
        using answers_ready(1) [OF assms(2)] q FreePortTable_listening_side by metis
      then show ?thesis using READ_LISTENING by (simp add: check_work_CheckOut CheckIn_keeps)
    next
      case READ_USED
      then have "used_line ?u \<noteq> []"
        using q by (auto simp: checks_balanced_def pending_tags_def)
      then have "pt_ptable_check_used_rsp_fifo ?u \<noteq> []"
        using answers_ready(2) q by metis
      then show ?thesis using READ_USED by (simp add: check_work_CheckOut CheckIn_keeps)
    qed
    then show ?thesis using in_le by (simp add: port_table_def)
  qed
qed

lemma check_work_zero:
  assumes "checks_balanced s" "check_work s = 0"
  shows "all_answers s = pt_ptable_to_rx_eng_check_rsp s"
  using assms by (auto simp: check_defs of_bool_def split: if_splits)

lemma port_table_answers:
  assumes "checks_balanced s" "tables_quiet s"
  shows "checks_balanced (port_table s)" "tables_quiet (port_table s)"
    "all_answers (port_table s) = all_answers s"
  using assms
  by (simp_all add: port_table_def checks_ListeningPortTable checks_FreePortTable checks_CheckIn
      checks_CheckOut)

lemma check_work_cycle_le:
  assumes "tables_quiet s"
  shows "check_work (port_table s) \<le> check_work s"
proof -
  have "check_work (FreePortTable (ListeningPortTable s)) = check_work s"
    using assms by (simp add: checks_ListeningPortTable checks_FreePortTable)
  then show ?thesis
    using check_work_CheckIn(1) [of "FreePortTable (ListeningPortTable s)"] check_work_CheckOut(1)
    by (simp add: port_table_def) (metis order_trans)
qed

lemma port_table_drains:
  assumes "checks_balanced s" "tables_quiet s" and "check_work s \<le> n"
  shows "pt_ptable_to_rx_eng_check_rsp ((port_table ^^ n) s) = all_answers s"
  using assms
proof (induction n arbitrary: s)
  case 0
  then show ?case by (simp add: check_work_zero)
next
  case (Suc n)
  have "check_work (port_table s) \<le> n"
    using check_work_cycle [OF Suc.prems(1,2)] check_work_cycle_le [OF Suc.prems(2)] Suc.prems(3)
    by (cases "check_work s = 0") auto
  then show ?case
    using Suc.IH [of "port_table s"] port_table_answers [OF Suc.prems(1,2)]
    by (simp only: funpow_Suc_apply)
qed

text \<open>The environment of the port table: statics and inner FIFOs are its own.\<close>

definition port_table_env :: "PortTable \<Rightarrow> PortTable \<Rightarrow> bool" where
  "port_table_env s t \<longleftrightarrow>
     pt_listening_port_table t = pt_listening_port_table s
   \<and> pt_free_port_table t = pt_free_port_table s \<and> pt_pt_cursor t = pt_pt_cursor s
   \<and> pt_dst t = pt_dst s \<and> pt_cm_fsmState t = pt_cm_fsmState s
   \<and> pt_ptable_check_listening_req_fifo t = pt_ptable_check_listening_req_fifo s
   \<and> pt_ptable_check_used_req_fifo t = pt_ptable_check_used_req_fifo s
   \<and> pt_ptable_check_listening_rsp_fifo t = pt_ptable_check_listening_rsp_fifo s
   \<and> pt_ptable_check_used_rsp_fifo t = pt_ptable_check_used_rsp_fifo s
   \<and> pt_ptable_check_dst_fifo t = pt_ptable_check_dst_fifo s"

abbreviation port_table_reaches :: "PortTable \<Rightarrow> bool" where
  "port_table_reaches \<equiv> reaches (\<lambda>s. s = port_table_init) port_table_env port_table"

interpretation port_table_process: hls_process
  "\<lambda>s. s = port_table_init" port_table_env port_table checks_balanced
proof
  fix s t
  show "s = port_table_init \<Longrightarrow> checks_balanced s"
    by (simp add: port_table_init_def check_defs)
  show "checks_balanced s \<Longrightarrow> port_table_env s t \<Longrightarrow> checks_balanced t"
    by (simp add: port_table_env_def check_defs)
  show "checks_balanced s \<Longrightarrow> checks_balanced (port_table s)" by (rule checks_balanced_cycle)
qed

text \<open>C27: In every state reached from power-up with no open, release or allocation waiting, the
  checks in flight are answered within \<open>check_work\<close> cycles: the receive engine reads one answer
  per check, in the order in which it asked, each from the table its port number belongs to.\<close>

theorem port_checks_answered_in_order:
  assumes "port_table_reaches s" and "tables_quiet s" and "check_work s \<le> n"
  shows "pt_ptable_to_rx_eng_check_rsp ((port_table ^^ n) s) = all_answers s"
  by (rule port_table_drains [OF port_table_process.reaches_inv [OF assms(1)] assms(2,3)])

text \<open>Role 3 listens on port 80, then ports 80, 0x8000 and 22 are checked.\<close>

definition port_table_demo :: PortTable where
  "port_table_demo =
     (port_table (port_table_init\<lparr>pt_rx_app_to_ptable_listen_port_req := [\<lparr>lq_data = 80, lq_dest = 3\<rparr>]\<rparr>))
       \<lparr>pt_rx_eng_to_ptable_check_req := [80, 0x8000, 22]\<rparr>"

lemma port_table_demo_reaches: "port_table_reaches port_table_demo"
  unfolding port_table_demo_def
  by (rule reaches_env [OF reaches_cycle [OF reaches_env [OF reaches_ini]]])
    (auto simp: port_table_env_def)

lemmas port_table_ops = port_table_def ListeningPortTable_def listen_port_def FreePortTable_def
  get_free_port_def release_free_port_def CheckInMultiplexer_def CheckOutMultiplexer_def Let_def

theorem port_checks_answered_in_order_witness:
  "pt_ptable_to_rx_eng_check_rsp ((port_table ^^ 9) port_table_demo)
   = [\<lparr>pr_is_open = True, pr_role_id = 3\<rparr>, \<lparr>pr_is_open = False, pr_role_id = 0\<rparr>,
      \<lparr>pr_is_open = False, pr_role_id = 0\<rparr>]"
proof -
  have q: "tables_quiet port_table_demo" "check_work port_table_demo \<le> 9"
    by (simp_all add: port_table_demo_def port_table_ops port_table_init_def check_defs)
  show ?thesis
    unfolding port_checks_answered_in_order [OF port_table_demo_reaches q]
    by (simp add: port_table_demo_def port_table_ops port_table_init_def check_defs
        check_answer_def port_check_def get_range_def)
qed

section \<open>Listening ports\<close>

lemma listening_table_others [simp]:
  "pt_listening_port_table (FreePortTable s) = pt_listening_port_table s"
  "pt_listening_port_table (CheckInMultiplexer s) = pt_listening_port_table s"
  "pt_listening_port_table (CheckOutMultiplexer s) = pt_listening_port_table s"
  by (simp_all add: FreePortTable_def get_free_port_def release_free_port_def
      CheckInMultiplexer_def CheckOutMultiplexer_def Let_def
      split: list.split cmFsmStateType.split)

lemma listening_kept:
  assumes "pe_is_open (pt_listening_port_table s p)"
  shows "pt_listening_port_table (port_table s) p = pt_listening_port_table s p"
  using assms
  by (auto simp: port_table_def ListeningPortTable_def listen_port_def Let_def split: list.split)

text \<open>C36: A port that a role listens on is never given to another role and never closed: in
  every later state of a run its entry is the same.\<close>

theorem listening_port_never_stolen:
  assumes "pe_is_open (pt_listening_port_table s p)"
    and "reaches (\<lambda>t. t = s) port_table_env port_table t"
  shows "pt_listening_port_table t p = pt_listening_port_table s p"
  using assms(2)
proof (induction rule: reaches.induct)
  case (reaches_cycle u)
  then show ?case using assms(1) listening_kept [of u p] by simp
qed (simp_all add: port_table_env_def)

text \<open>Role 5 asks for port 80 too.\<close>

theorem listening_port_never_stolen_witness:
  "pt_listening_port_table (port_table (port_table_demo
     \<lparr>pt_rx_app_to_ptable_listen_port_req := [\<lparr>lq_data = 80, lq_dest = 5\<rparr>]\<rparr>)) 80
   = \<lparr>pe_is_open = True, pe_role_id = 3\<rparr>"
proof -
  have p: "pt_listening_port_table port_table_demo 80 = \<lparr>pe_is_open = True, pe_role_id = 3\<rparr>"
    by (simp add: port_table_demo_def port_table_ops port_table_init_def get_range_def)
  show ?thesis
    by (rule trans [OF listening_port_never_stolen [of port_table_demo 80] p], simp add: p)
      (rule reaches_cycle [OF reaches_env [OF reaches_ini]], auto simp: port_table_env_def)
qed

text \<open>A request for a free port that arrives while the port at the cursor is in use is taken
  from the queue and moves the cursor on, but nothing is answered: the requester never hears of
  it.\<close>

theorem free_port_request_dropped:
  assumes "pt_slookup_to_ptable_release_port_req s = []" and "pt_ptable_check_used_req_fifo s = []"
    and "pt_tx_app_to_ptable_req s = d # ds" and "pe_is_open (pt_free_port_table s (pt_pt_cursor s))"
  shows "pt_ptable_to_tx_app_rsp (port_table s) = pt_ptable_to_tx_app_rsp s
       \<and> pt_tx_app_to_ptable_req (port_table s) = ds
       \<and> pt_pt_cursor (port_table s) = pt_pt_cursor s + 1"
proof -
  let ?u = "ListeningPortTable s"
  have "pt_slookup_to_ptable_release_port_req ?u = []" "pt_ptable_check_used_req_fifo ?u = []"
      "pt_tx_app_to_ptable_req ?u = d # ds" "pe_is_open (pt_free_port_table ?u (pt_pt_cursor ?u))"
      "pt_pt_cursor ?u = pt_pt_cursor s" "pt_ptable_to_tx_app_rsp ?u = pt_ptable_to_tx_app_rsp s"
    using assms by (simp_all add: ListeningPortTable_def listen_port_def Let_def split: list.split)
  then have "free_side (FreePortTable ?u)
      = (pt_free_port_table ?u, pt_pt_cursor s + 1, [], ds, pt_ptable_to_tx_app_rsp s,
         pt_ptable_to_tx_app_rsp_full ?u)"
    by (simp add: free_side_def FreePortTable_def get_free_port_def Let_def)
  then show ?thesis using free_side_port_table [of s] by (simp add: free_side_def)
qed

text \<open>The cursor has wrapped to a port that is still in use.\<close>

definition port_wrapped_demo :: PortTable where
  "port_wrapped_demo = port_table_init
     \<lparr>pt_free_port_table := (\<lambda>_. \<lparr>pe_is_open = False, pe_role_id = 0\<rparr>)(0 := \<lparr>pe_is_open = True, pe_role_id = 1\<rparr>),
      pt_tx_app_to_ptable_req := [2]\<rparr>"

theorem free_port_request_dropped_witness:
  "pt_ptable_to_tx_app_rsp (port_table port_wrapped_demo) = []
   \<and> pt_tx_app_to_ptable_req (port_table port_wrapped_demo) = []"
  using free_port_request_dropped [of port_wrapped_demo 2 "[]"]
  by (simp add: port_wrapped_demo_def port_table_init_def)

definition port_requests_demo :: PortTable where
  "port_requests_demo = port_wrapped_demo\<lparr>pt_tx_app_to_ptable_req := [2, 3, 4]\<rparr>"

lemma port_requests_demo_handed_out: "handed_out port_requests_demo 3 = [0x8001, 0x8002]"
proof -
  have c: "cur_free_port 1 = 0x8001" "cur_free_port 2 = 0x8002"
    by (simp_all add: cur_free_port_def put_range_def set_bit_eq_or)
  show ?thesis
    by (simp add: handed_out_def port_requests_demo_def port_wrapped_demo_def port_table_init_def
        port_table_ops numeral_3_eq_3 c written_def)
qed

theorem free_ports_unique_witness:
  "distinct (handed_out port_requests_demo 3) \<and> handed_out port_requests_demo 3 = [0x8001, 0x8002]"
proof -
  have "pt_slookup_to_ptable_release_port_req port_requests_demo = []"
    by (simp add: port_requests_demo_def port_wrapped_demo_def port_table_init_def)
  from free_ports_unique [OF this, of 3] show ?thesis
    by (simp add: port_requests_demo_handed_out)
qed

end
