(* ===== verification/Session_Lookup.thy ===== *)
theory Session_Lookup
  imports Axi_Utils
begin

text \<open>
  \<open>session_lookup_controller/session_lookup_controller.cpp\<close>: the session IDs.  A lookup asks the
  CAM for the ID of a four tuple, takes a free ID and inserts it when the tuple is new and may be
  created; a release takes the tuple out again and hands its ID and its port back.  One record
  holds the statics of the five processes and the FIFOs between them.  The CAM itself is outside
  the controller (an RTL core); \<open>mock/mock_cam.hpp\<close>, the model the repository simulates it with,
  is defined here too, and the locale \<open>cam\<close> states what the controller relies on.
\<close>

section \<open>State\<close>

record RevTableEntry =
  rv_tuple :: FourTuple
  rv_role_id :: NetAXISDest

record SlookupReqInternal =
  si_tuple :: FourTuple
  si_allow_creation :: bool
  si_source :: SlookupSource
  si_role_id :: NetAXISDest

record SlookupToRevTableUpdReq =
  ru_key :: TcpSessionID
  ru_tuple_value :: FourTuple
  ru_role_value :: NetAXISDest

datatype SlookupFsmState = LUP_REQ | LUP_RSP | UPD_RSP

record Slookup =
  sk_cur_session_id :: "14 word"
  sk_to_cam_req_cache :: SlookupReqInternal
  sk_to_cam_req_cache_valid :: bool
  sk_to_rev_table_req_cache :: RevTableEntry
  sk_to_rev_table_req_cache_valid :: bool
  sk_slc_fsm_state :: SlookupFsmState
  sk_used_session_id_cnt :: "16 word"
  sk_reg_session_cnt :: "16 word"
  sk_slookup_rev_table :: "TcpSessionID \<Rightarrow> RevTableEntry"
  sk_valid_tuple :: "TcpSessionID \<Rightarrow> bool"
  sk_slookup_available_id_fifo :: "14 word stream"
  sk_slookup_released_id_fifo :: "14 word stream"
  sk_slookup_to_cam_insert_req_fifo :: "RtlSlookupToCamUpdReq stream"
  sk_slookup_to_cam_delete_req_fifo :: "RtlSlookupToCamUpdReq stream"
  sk_cam_to_slookup_insert_rsp_fifo :: "RtlCamToSlookupUpdRsp stream"
  sk_reverse_table_insert_req_fifo :: "SlookupToRevTableUpdReq stream"
  sk_sttable_to_slookup_release_req :: "TcpSessionID stream"
  sk_rx_app_to_slookup_tdest_lookup_req :: "TcpSessionID stream"
  sk_slookup_to_rx_app_tdest_lookup_rsp :: "NetAXISDest stream"
  sk_rx_eng_to_slookup_req :: "RxEngToSlookupReq stream"
  sk_slookup_to_rx_eng_rsp :: "SessionLookupRsp stream"
  sk_tx_app_to_slookup_req :: "TxAppToSlookupReq stream"
  sk_slookup_to_tx_app_rsp :: "SessionLookupRsp stream"
  sk_tx_app_to_slookup_check_tdest_req :: "TcpSessionID stream"
  sk_slookup_to_tx_app_check_tdest_rsp :: "NetAXISDest stream"
  sk_tx_eng_to_slookup_rev_table_req :: "TcpSessionID stream"
  sk_slookup_rev_table_to_tx_eng_rsp :: "ReverseTableToTxEngRsp stream"
  sk_rtl_slookup_to_cam_lookup_req :: "RtlSLookupToCamLupReq stream"
  sk_rtl_cam_to_slookup_lookup_rsp :: "RtlCamToSlookupLupRsp stream"
  sk_rtl_slookup_to_cam_update_req :: "RtlSlookupToCamUpdReq stream"
  sk_rtl_cam_to_slookup_update_rsp :: "RtlCamToSlookupUpdRsp stream"
  sk_slookup_to_ptable_release_port_req :: "TcpPortNumber stream"

section \<open>The free list\<close>

definition GetNewAvailableSessionId :: "Slookup \<Rightarrow> Slookup" where
  "GetNewAvailableSessionId s =
     (case sk_slookup_released_id_fifo s of
        session_id # ids \<Rightarrow>
          s\<lparr>sk_slookup_released_id_fifo := ids,
            sk_slookup_available_id_fifo := sk_slookup_available_id_fifo s @ [session_id]\<rparr>
      | [] \<Rightarrow>
        (if sk_cur_session_id s < 128 then
           s\<lparr>sk_slookup_available_id_fifo :=
               sk_slookup_available_id_fifo s @ [sk_cur_session_id s],
             sk_cur_session_id := sk_cur_session_id s + 1\<rparr>
         else s))"

section \<open>Lookups\<close>

text \<open>A tuple from the network is turned round: the sender is the destination of the session.\<close>

definition lookup_cam :: "SlookupReqInternal \<Rightarrow> Slookup \<Rightarrow> Slookup" where
  "lookup_cam cache s =
     s\<lparr>sk_to_cam_req_cache := cache,
       sk_rtl_slookup_to_cam_lookup_req := sk_rtl_slookup_to_cam_lookup_req s @
         [\<lparr>cl_key = si_tuple cache, cl_source = si_source cache\<rparr>],
       sk_to_cam_req_cache_valid := True,
       sk_slc_fsm_state := LUP_RSP\<rparr>"

definition tx_app_lookup_req :: "TxAppToSlookupReq \<Rightarrow> SlookupReqInternal" where
  "tx_app_lookup_req req =
     (let t = tsl_four_tuple req in
      \<lparr>si_tuple = FourTuple (src_ip_addr t) (dst_ip_addr t) (src_tcp_port t) (dst_tcp_port t),
       si_allow_creation = True, si_source = TX_APP, si_role_id = tsl_role_id req\<rparr>)"

definition rx_eng_lookup_req :: "RxEngToSlookupReq \<Rightarrow> SlookupReqInternal" where
  "rx_eng_lookup_req req =
     (let t = rsl_four_tuple req in
      \<lparr>si_tuple = FourTuple (dst_ip_addr t) (src_ip_addr t) (dst_tcp_port t) (src_tcp_port t),
       si_allow_creation = rsl_allow_creation req, si_source = RX, si_role_id = rsl_role_id req\<rparr>)"

definition answer_lookup :: "SlookupSource \<Rightarrow> SessionLookupRsp \<Rightarrow> Slookup \<Rightarrow> Slookup" where
  "answer_lookup source rsp s =
     (if source = RX
      then s\<lparr>sk_slookup_to_rx_eng_rsp := sk_slookup_to_rx_eng_rsp s @ [rsp]\<rparr>
      else s\<lparr>sk_slookup_to_tx_app_rsp := sk_slookup_to_tx_app_rsp s @ [rsp]\<rparr>)"

definition handle_lookup_rsp :: "RtlCamToSlookupLupRsp \<Rightarrow> Slookup \<Rightarrow> Slookup" where
  "handle_lookup_rsp cam_rsp s =
     (let s = s\<lparr>sk_to_cam_req_cache_valid := False\<rparr>;
          cache = sk_to_cam_req_cache s in
      if \<not> clr_hit cam_rsp \<and> si_allow_creation cache \<and> sk_slookup_available_id_fifo s \<noteq> [] then
        s\<lparr>sk_slookup_available_id_fifo := tl (sk_slookup_available_id_fifo s),
          sk_slookup_to_cam_insert_req_fifo := sk_slookup_to_cam_insert_req_fifo s @
            [\<lparr>cu_op = INSERT, cu_key = si_tuple cache,
              cu_value = ucast (hd (sk_slookup_available_id_fifo s)), cu_source = clr_source cam_rsp\<rparr>],
          sk_to_rev_table_req_cache := \<lparr>rv_tuple = si_tuple cache, rv_role_id = si_role_id cache\<rparr>,
          sk_to_rev_table_req_cache_valid := True,
          sk_slc_fsm_state := UPD_RSP\<rparr>
      else
        (answer_lookup (clr_source cam_rsp)
           \<lparr>sl_session_id = clr_session_id cam_rsp, sl_hit = clr_hit cam_rsp,
            sl_role_id = si_role_id cache\<rparr> s)\<lparr>sk_slc_fsm_state := LUP_REQ\<rparr>)"

definition handle_insert_rsp :: "RtlCamToSlookupUpdRsp \<Rightarrow> Slookup \<Rightarrow> Slookup" where
  "handle_insert_rsp rsp s =
     (let cache = sk_to_rev_table_req_cache s;
          s = s\<lparr>sk_to_rev_table_req_cache_valid := False,
                sk_reverse_table_insert_req_fifo := sk_reverse_table_insert_req_fifo s @
                  [\<lparr>ru_key = cur_session_id rsp, ru_tuple_value = rv_tuple cache,
                    ru_role_value = rv_role_id cache\<rparr>]\<rparr> in
      (answer_lookup (cur_source rsp)
         \<lparr>sl_session_id = cur_session_id rsp, sl_hit = True, sl_role_id = rv_role_id cache\<rparr> s)
        \<lparr>sk_slc_fsm_state := LUP_REQ\<rparr>)"

definition CamLookupRspHandler :: "Slookup \<Rightarrow> Slookup" where
  "CamLookupRspHandler s =
     (case sk_slc_fsm_state s of
        LUP_REQ \<Rightarrow>
          (case sk_tx_app_to_slookup_req s of
             req # reqs \<Rightarrow>
               lookup_cam (tx_app_lookup_req req) (s\<lparr>sk_tx_app_to_slookup_req := reqs\<rparr>)
           | [] \<Rightarrow>
             (case sk_rx_eng_to_slookup_req s of
                req # reqs \<Rightarrow>
                  lookup_cam (rx_eng_lookup_req req) (s\<lparr>sk_rx_eng_to_slookup_req := reqs\<rparr>)
              | [] \<Rightarrow> s))
      | LUP_RSP \<Rightarrow>
          (if sk_rtl_cam_to_slookup_lookup_rsp s \<noteq> [] \<and> sk_to_cam_req_cache_valid s then
             handle_lookup_rsp (hd (sk_rtl_cam_to_slookup_lookup_rsp s))
               (s\<lparr>sk_rtl_cam_to_slookup_lookup_rsp := tl (sk_rtl_cam_to_slookup_lookup_rsp s)\<rparr>)
           else s)
      | UPD_RSP \<Rightarrow>
          (if sk_cam_to_slookup_insert_rsp_fifo s \<noteq> [] \<and> sk_to_rev_table_req_cache_valid s then
             handle_insert_rsp (hd (sk_cam_to_slookup_insert_rsp_fifo s))
               (s\<lparr>sk_cam_to_slookup_insert_rsp_fifo := tl (sk_cam_to_slookup_insert_rsp_fifo s)\<rparr>)
           else s))"

section \<open>Updates of the CAM\<close>

definition CamUpdateReqSender :: "Slookup \<Rightarrow> Slookup" where
  "CamUpdateReqSender s =
     (case sk_slookup_to_cam_insert_req_fifo s of
        req # reqs \<Rightarrow>
          s\<lparr>sk_slookup_to_cam_insert_req_fifo := reqs,
            sk_rtl_slookup_to_cam_update_req := sk_rtl_slookup_to_cam_update_req s @ [req],
            sk_used_session_id_cnt := sk_used_session_id_cnt s + 1,
            sk_reg_session_cnt := sk_used_session_id_cnt s + 1\<rparr>
      | [] \<Rightarrow>
        (case sk_slookup_to_cam_delete_req_fifo s of
           req # reqs \<Rightarrow>
             s\<lparr>sk_slookup_to_cam_delete_req_fifo := reqs,
               sk_rtl_slookup_to_cam_update_req := sk_rtl_slookup_to_cam_update_req s @ [req],
               sk_slookup_released_id_fifo :=
                 sk_slookup_released_id_fifo s @ [get_range 0 (cu_value req)],
               sk_used_session_id_cnt := sk_used_session_id_cnt s - 1,
               sk_reg_session_cnt := sk_used_session_id_cnt s - 1\<rparr>
         | [] \<Rightarrow> s))"

definition CamUpdateRspHandler :: "Slookup \<Rightarrow> Slookup" where
  "CamUpdateRspHandler s =
     (case sk_rtl_cam_to_slookup_update_rsp s of
        rsp # rsps \<Rightarrow>
          (let s = s\<lparr>sk_rtl_cam_to_slookup_update_rsp := rsps\<rparr> in
           if cur_op rsp = INSERT
           then s\<lparr>sk_cam_to_slookup_insert_rsp_fifo := sk_cam_to_slookup_insert_rsp_fifo s @ [rsp]\<rparr>
           else s)
      | [] \<Rightarrow> s)"

section \<open>The reverse table\<close>

definition reverse_insert :: "SlookupToRevTableUpdReq \<Rightarrow> Slookup \<Rightarrow> Slookup" where
  "reverse_insert req s =
     s\<lparr>sk_slookup_rev_table := (sk_slookup_rev_table s)
         (ru_key req := \<lparr>rv_tuple = ru_tuple_value req, rv_role_id = ru_role_value req\<rparr>),
       sk_valid_tuple := (sk_valid_tuple s)(ru_key req := True)\<rparr>"

definition reverse_role :: "Slookup \<Rightarrow> TcpSessionID \<Rightarrow> NetAXISDest" where
  "reverse_role s sid =
     (if sk_valid_tuple s sid then rv_role_id (sk_slookup_rev_table s sid) else INVALID_TDEST)"

definition reverse_lookup :: "Slookup \<Rightarrow> TcpSessionID \<Rightarrow> ReverseTableToTxEngRsp" where
  "reverse_lookup s sid =
     (let e = sk_slookup_rev_table s sid; t = rv_tuple e in
      \<lparr>rt_four_tuple = FourTuple (src_ip_addr t) (dst_ip_addr t) (src_tcp_port t) (dst_tcp_port t),
       rt_role_id = rv_role_id e\<rparr>)"

definition reverse_release :: "TcpSessionID \<Rightarrow> Slookup \<Rightarrow> Slookup" where
  "reverse_release sid s =
     (let t = rv_tuple (sk_slookup_rev_table s sid);
          s = (if sk_valid_tuple s sid then
                 s\<lparr>sk_slookup_to_ptable_release_port_req :=
                     sk_slookup_to_ptable_release_port_req s @ [SwapByte (src_tcp_port t)],
                   sk_slookup_to_cam_delete_req_fifo := sk_slookup_to_cam_delete_req_fifo s @
                     [\<lparr>cu_op = DELETE, cu_key = t, cu_value = sid, cu_source = RX\<rparr>]\<rparr>
               else s) in
      s\<lparr>sk_valid_tuple := (sk_valid_tuple s)(sid := False)\<rparr>)"

definition SlookupReverseTableInterface :: "Slookup \<Rightarrow> Slookup" where
  "SlookupReverseTableInterface s =
     (case sk_reverse_table_insert_req_fifo s of
        req # reqs \<Rightarrow> reverse_insert req (s\<lparr>sk_reverse_table_insert_req_fifo := reqs\<rparr>)
      | [] \<Rightarrow>
     (case sk_tx_eng_to_slookup_rev_table_req s of
        sid # sids \<Rightarrow>
          s\<lparr>sk_tx_eng_to_slookup_rev_table_req := sids,
            sk_slookup_rev_table_to_tx_eng_rsp :=
              sk_slookup_rev_table_to_tx_eng_rsp s @ [reverse_lookup s sid]\<rparr>
      | [] \<Rightarrow>
     (case sk_rx_app_to_slookup_tdest_lookup_req s of
        sid # sids \<Rightarrow>
          s\<lparr>sk_rx_app_to_slookup_tdest_lookup_req := sids,
            sk_slookup_to_rx_app_tdest_lookup_rsp :=
              sk_slookup_to_rx_app_tdest_lookup_rsp s @ [reverse_role s sid]\<rparr>
      | [] \<Rightarrow>
     (case sk_tx_app_to_slookup_check_tdest_req s of
        sid # sids \<Rightarrow>
          s\<lparr>sk_tx_app_to_slookup_check_tdest_req := sids,
            sk_slookup_to_tx_app_check_tdest_rsp :=
              sk_slookup_to_tx_app_check_tdest_rsp s @ [reverse_role s sid]\<rparr>
      | [] \<Rightarrow>
     (case sk_sttable_to_slookup_release_req s of
        sid # sids \<Rightarrow> reverse_release sid (s\<lparr>sk_sttable_to_slookup_release_req := sids\<rparr>)
      | [] \<Rightarrow> s)))))"

definition session_lookup_controller :: "Slookup \<Rightarrow> Slookup" where
  "session_lookup_controller s =
     SlookupReverseTableInterface (CamUpdateRspHandler (CamUpdateReqSender
       (CamLookupRspHandler (GetNewAvailableSessionId s))))"

section \<open>The CAM\<close>

text \<open>\<open>MockCam\<close> keeps a \<open>std::map\<close> from tuples to session IDs.\<close>

type_synonym MockCam = "FourTuple \<Rightarrow> TcpSessionID option"

definition mock_cam_lookup :: "MockCam \<Rightarrow> RtlSLookupToCamLupReq \<Rightarrow> RtlCamToSlookupLupRsp" where
  "mock_cam_lookup cam req =
     (case cam (cl_key req) of
        Some sid \<Rightarrow> \<lparr>clr_key = FourTuple_default, clr_session_id = sid, clr_hit = True,
                     clr_source = cl_source req\<rparr>
      | None \<Rightarrow> \<lparr>clr_key = FourTuple_default, clr_session_id = 0, clr_hit = False,
                 clr_source = cl_source req\<rparr>)"

definition mock_cam_update :: "MockCam \<Rightarrow> RtlSlookupToCamUpdReq \<Rightarrow> MockCam \<times> RtlCamToSlookupUpdRsp" where
  "mock_cam_update cam req =
     (let rsp = (\<lambda>success. \<lparr>cur_op = cu_op req, cur_key = cu_key req, cur_session_id = cu_value req,
                            cur_success = success, cur_source = cu_source req\<rparr>) in
      case cu_op req of
        INSERT \<Rightarrow> (case cam (cu_key req) of
                     None \<Rightarrow> (cam(cu_key req \<mapsto> cu_value req), rsp True)
                   | Some _ \<Rightarrow> (cam, rsp False))
      | DELETE \<Rightarrow> (case cam (cu_key req) of
                     None \<Rightarrow> (cam, rsp False)
                   | Some _ \<Rightarrow> (cam(cu_key req := None), rsp True)))"

definition cam_intf :: "('m \<Rightarrow> RtlSLookupToCamLupReq \<Rightarrow> RtlCamToSlookupLupRsp)
    \<Rightarrow> ('m \<Rightarrow> RtlSlookupToCamUpdReq \<Rightarrow> 'm \<times> RtlCamToSlookupUpdRsp)
    \<Rightarrow> 'm \<times> Slookup \<Rightarrow> 'm \<times> Slookup" where
  "cam_intf lookup update c =
     (let (cam, s) = c;
          s = (case sk_rtl_slookup_to_cam_lookup_req s of
                 req # reqs \<Rightarrow>
                   s\<lparr>sk_rtl_slookup_to_cam_lookup_req := reqs,
                     sk_rtl_cam_to_slookup_lookup_rsp :=
                       sk_rtl_cam_to_slookup_lookup_rsp s @ [lookup cam req]\<rparr>
               | [] \<Rightarrow> s) in
      case sk_rtl_slookup_to_cam_update_req s of
        req # reqs \<Rightarrow>
          (let (cam, rsp) = update cam req in
           (cam, s\<lparr>sk_rtl_slookup_to_cam_update_req := reqs,
                   sk_rtl_cam_to_slookup_update_rsp := sk_rtl_cam_to_slookup_update_rsp s @ [rsp]\<rparr>))
      | [] \<Rightarrow> (cam, s))"

definition MockCamIntf :: "MockCam \<times> Slookup \<Rightarrow> MockCam \<times> Slookup" where
  "MockCamIntf = cam_intf mock_cam_lookup mock_cam_update"

section \<open>Who owns a session ID\<close>

definition id_count :: "('a \<Rightarrow> 'w::len word) \<Rightarrow> 'a list \<Rightarrow> nat \<Rightarrow> nat" where
  "id_count f xs i = count_list (map (\<lambda>x. unat (f x)) xs) i"

lemma id_count_simps [simp]:
  "id_count f [] i = 0"
  "id_count f (x # xs) i = of_bool (unat (f x) = i) + id_count f xs i"
  "id_count f (xs @ ys) i = id_count f xs i + id_count f ys i"
  by (simp_all add: id_count_def)

definition id_valid :: "(TcpSessionID \<Rightarrow> bool) \<Rightarrow> nat \<Rightarrow> nat" where
  "id_valid valid i = of_bool (i < 2 ^ 16 \<and> valid (word_of_nat i))"

lemma id_valid_update:
  "id_valid (valid(sid := v)) i = (if i = unat sid then of_bool v else id_valid valid i)"
proof -
  have "unat sid < 2 ^ LENGTH(16)" by (rule unsigned_less)
  moreover have "(word_of_nat i = sid) = (i = unat sid)" if "i < 65536"
    using that by (auto simp: word_unat_eq_iff unat_of_nat)
  ultimately show ?thesis by (auto simp: id_valid_def)
qed

lemma id_valid_unat: "id_valid valid (unat sid) = of_bool (valid sid)"
  using id_valid_update [of valid sid "valid sid" "unat sid"] by simp

definition id_owners :: "Slookup \<Rightarrow> nat \<Rightarrow> nat" where
  "id_owners s i =
     id_count (\<lambda>x. x) (sk_slookup_available_id_fifo s) i
   + id_count (\<lambda>x. x) (sk_slookup_released_id_fifo s) i
   + id_count cu_value (sk_slookup_to_cam_insert_req_fifo s) i
   + id_count cu_value (filter (\<lambda>r. cu_op r = INSERT) (sk_rtl_slookup_to_cam_update_req s)) i
   + id_count cur_session_id (filter (\<lambda>r. cur_op r = INSERT) (sk_rtl_cam_to_slookup_update_rsp s)) i
   + id_count cur_session_id (sk_cam_to_slookup_insert_rsp_fifo s) i
   + id_count ru_key (sk_reverse_table_insert_req_fifo s) i
   + id_count cu_value (sk_slookup_to_cam_delete_req_fifo s) i
   + id_valid (sk_valid_tuple s) i"

definition ids_owned_once :: "Slookup \<Rightarrow> bool" where
  "ids_owned_once s \<longleftrightarrow>
     unat (sk_cur_session_id s) \<le> TCP_MAX_SESSIONS
   \<and> (\<forall>i. id_owners s i = of_bool (i < unat (sk_cur_session_id s)))
   \<and> (\<forall>r \<in> set (sk_slookup_to_cam_insert_req_fifo s). cu_op r = INSERT)
   \<and> (\<forall>r \<in> set (sk_slookup_to_cam_delete_req_fifo s). cu_op r = DELETE)"

lemmas owner_defs = ids_owned_once_def id_owners_def

lemma owners_GetNew:
  "id_owners (GetNewAvailableSessionId s) i = id_owners s i
     + of_bool (sk_slookup_released_id_fifo s = [] \<and> unat (sk_cur_session_id s) < TCP_MAX_SESSIONS
         \<and> i = unat (sk_cur_session_id s))"
  by (simp add: id_owners_def GetNewAvailableSessionId_def word_less_nat_alt split: list.split)

lemma owned_GetNew:
  assumes "ids_owned_once s"
  shows "ids_owned_once (GetNewAvailableSessionId s)"
proof -
  let ?c = "unat (sk_cur_session_id s)"
  have c: "unat (sk_cur_session_id (GetNewAvailableSessionId s))
      = ?c + of_bool (sk_slookup_released_id_fifo s = [] \<and> ?c < TCP_MAX_SESSIONS)"
    by (simp add: GetNewAvailableSessionId_def word_less_nat_alt unat_word_ariths split: list.split)
  have f: "sk_slookup_to_cam_insert_req_fifo (GetNewAvailableSessionId s) = sk_slookup_to_cam_insert_req_fifo s"
      "sk_slookup_to_cam_delete_req_fifo (GetNewAvailableSessionId s) = sk_slookup_to_cam_delete_req_fifo s"
    by (simp_all add: GetNewAvailableSessionId_def split: list.split)
  show ?thesis
    using assms unfolding ids_owned_once_def owners_GetNew c f by (auto simp: less_Suc_eq)
qed

lemma owners_cong:
  assumes "ids_owned_once s" "\<And>i. id_owners t i = id_owners s i"
    and "sk_cur_session_id t = sk_cur_session_id s"
    and "\<And>r. r \<in> set (sk_slookup_to_cam_insert_req_fifo t) \<Longrightarrow>
           r \<in> set (sk_slookup_to_cam_insert_req_fifo s) \<or> cu_op r = INSERT"
    and "\<And>r. r \<in> set (sk_slookup_to_cam_delete_req_fifo t) \<Longrightarrow>
           r \<in> set (sk_slookup_to_cam_delete_req_fifo s) \<or> cu_op r = DELETE"
  shows "ids_owned_once t"
  using assms unfolding ids_owned_once_def by metis

lemma unat_ucast_14_16: "unat (ucast (w :: 14 word) :: 16 word) = unat w"
proof -
  have "unat w < 2 ^ LENGTH(14)" by (rule unsigned_less)
  then show ?thesis by (simp add: unsigned_ucast_eq take_bit_nat_eq_self)
qed

lemma owned_lookup_cam: "ids_owned_once s \<Longrightarrow> ids_owned_once (lookup_cam c s)"
  by (erule owners_cong) (simp_all add: id_owners_def lookup_cam_def)

lemma owned_handle_lookup:
  "ids_owned_once s \<Longrightarrow> ids_owned_once (handle_lookup_rsp r s)"
  by (erule owners_cong; cases "sk_slookup_available_id_fifo s")
    (auto simp: id_owners_def handle_lookup_rsp_def answer_lookup_def Let_def unat_ucast_14_16
      split: if_split_asm)

lemma owned_handle_insert:
  "ids_owned_once s \<Longrightarrow> sk_cam_to_slookup_insert_rsp_fifo s = r # rs \<Longrightarrow>
   ids_owned_once (handle_insert_rsp r (s\<lparr>sk_cam_to_slookup_insert_rsp_fifo := rs\<rparr>))"
  by (erule owners_cong)
    (auto simp: id_owners_def handle_insert_rsp_def answer_lookup_def Let_def split: if_split_asm)

lemma owned_frame:
  "ids_owned_once s \<Longrightarrow> ids_owned_once (s\<lparr>sk_tx_app_to_slookup_req := a\<rparr>)"
  "ids_owned_once s \<Longrightarrow> ids_owned_once (s\<lparr>sk_rx_eng_to_slookup_req := b\<rparr>)"
  "ids_owned_once s \<Longrightarrow> ids_owned_once (s\<lparr>sk_rtl_cam_to_slookup_lookup_rsp := c\<rparr>)"
  by (simp_all add: ids_owned_once_def id_owners_def)

lemma owned_Handler: "ids_owned_once s \<Longrightarrow> ids_owned_once (CamLookupRspHandler s)"
  by (auto simp: CamLookupRspHandler_def neq_Nil_conv intro: owned_lookup_cam owned_handle_lookup owned_handle_insert owned_frame
       split: SlookupFsmState.splits list.splits if_splits)

lemma owners_pos:
  assumes "ids_owned_once s" "0 < id_owners s i"
  shows "i < unat (sk_cur_session_id s)" "i < TCP_MAX_SESSIONS" "id_owners s i = 1"
proof -
  have *: "id_owners s i = of_bool (i < unat (sk_cur_session_id s))" "unat (sk_cur_session_id s) \<le> 128"
    using assms(1) by (simp_all add: ids_owned_once_def)
  with assms(2) show "i < unat (sk_cur_session_id s)" by (simp split: if_splits)
  with * show "i < TCP_MAX_SESSIONS" "id_owners s i = 1" by simp_all
qed

lemma owned_Sender:
  assumes "ids_owned_once s"
  shows "ids_owned_once (CamUpdateReqSender s)"
proof (cases "sk_slookup_to_cam_insert_req_fifo s")
  case (Cons r rs)
  then have "cu_op r = INSERT" using assms by (simp add: ids_owned_once_def)
  with assms Cons show ?thesis
    by (intro owners_cong [OF assms]) (simp_all add: id_owners_def CamUpdateReqSender_def)
next
  case Nil
  show ?thesis
  proof (cases "sk_slookup_to_cam_delete_req_fifo s")
    case (Cons r rs)
    then have d: "cu_op r = DELETE" using assms by (simp add: ids_owned_once_def)
    have "0 < id_owners s (unat (cu_value r))" using Cons by (simp add: id_owners_def)
    then have "unat (cu_value r) < TCP_MAX_SESSIONS" using owners_pos [OF assms] by simp
    then have v: "unat (get_range 0 (cu_value r) :: 14 word) = unat (cu_value r)"
      by (simp add: get_range_def unsigned_ucast_eq take_bit_nat_eq_self)
    from assms Nil Cons d v show ?thesis
      by (intro owners_cong [OF assms]) (simp_all add: id_owners_def CamUpdateReqSender_def)
  qed (use assms Nil in \<open>simp add: CamUpdateReqSender_def\<close>)
qed

lemma owned_RspHandler: "ids_owned_once s \<Longrightarrow> ids_owned_once (CamUpdateRspHandler s)"
  by (erule owners_cong)
    (auto simp: id_owners_def CamUpdateRspHandler_def Let_def split: list.split list.split_asm if_split_asm)


lemma owned_reverse_insert:
  assumes "ids_owned_once s" "sk_reverse_table_insert_req_fifo s = r # rs"
  shows "ids_owned_once (reverse_insert r (s\<lparr>sk_reverse_table_insert_req_fifo := rs\<rparr>))"
proof -
  let ?k = "unat (ru_key r)"
  have pos: "0 < id_owners s ?k" using assms(2) by (simp add: id_owners_def)
  have nv: "\<not> sk_valid_tuple s (ru_key r)"
  proof
    assume "sk_valid_tuple s (ru_key r)"
    then have "2 \<le> id_owners s ?k" using assms(2) by (simp add: id_owners_def id_valid_unat)
    then show False using owners_pos [OF assms(1) pos] by simp
  qed
  show ?thesis
    by (rule owners_cong [OF assms(1)])
      (use nv assms(2) in \<open>auto simp: id_owners_def reverse_insert_def id_valid_update id_valid_unat\<close>)
qed

lemma owned_reverse_release:
  assumes "ids_owned_once s"
  shows "ids_owned_once (reverse_release sid (s\<lparr>sk_sttable_to_slookup_release_req := rs\<rparr>))"
  by (rule owners_cong [OF assms])
    (auto simp: id_owners_def reverse_release_def Let_def id_valid_update id_valid_unat
      split: if_split_asm)

lemma owned_Reverse: "ids_owned_once s \<Longrightarrow> ids_owned_once (SlookupReverseTableInterface s)"
proof -
  assume s: "ids_owned_once s"
  have f: "ids_owned_once (s\<lparr>sk_tx_eng_to_slookup_rev_table_req := a, sk_slookup_rev_table_to_tx_eng_rsp := b\<rparr>)"
    "ids_owned_once (s\<lparr>sk_rx_app_to_slookup_tdest_lookup_req := c, sk_slookup_to_rx_app_tdest_lookup_rsp := d\<rparr>)"
    "ids_owned_once (s\<lparr>sk_tx_app_to_slookup_check_tdest_req := c, sk_slookup_to_tx_app_check_tdest_rsp := d\<rparr>)"
    for a b c d using s by (simp_all add: ids_owned_once_def id_owners_def)
  show ?thesis
    using s f owned_reverse_insert [OF s] owned_reverse_release [OF s]
    by (simp add: SlookupReverseTableInterface_def split: list.split)
qed

lemma owned_controller: "ids_owned_once s \<Longrightarrow> ids_owned_once (session_lookup_controller s)"
  by (simp add: session_lookup_controller_def owned_GetNew owned_Handler owned_Sender
      owned_RspHandler owned_Reverse)

text \<open>What the controller relies on: the CAM answers every update with the operation, the tuple, the
  session ID and the source it was asked for; a lookup finds what was inserted.\<close>

locale cam_echo =
  fixes update :: "'m \<Rightarrow> RtlSlookupToCamUpdReq \<Rightarrow> 'm \<times> RtlCamToSlookupUpdRsp"
  assumes echo_op: "cur_op (snd (update m r)) = cu_op r"
    and echo_id: "cur_session_id (snd (update m r)) = cu_value r"
    and echo_key: "cur_key (snd (update m r)) = cu_key r"
    and echo_source: "cur_source (snd (update m r)) = cu_source r"
begin

lemma echo:
  "update m r = (m', rsp) \<Longrightarrow> cur_op rsp = cu_op r \<and> cur_session_id rsp = cu_value r"
  by (metis echo_op echo_id snd_conv)

lemma owned_cam: "ids_owned_once s \<Longrightarrow> ids_owned_once (snd (cam_intf lookup update (m, s)))"
  by (erule owners_cong)
    (auto simp: cam_intf_def id_owners_def Let_def split: list.split prod.split list.split_asm prod.split_asm
      dest!: echo)

end

locale cam = cam_echo update
  for update :: "'m \<Rightarrow> RtlSlookupToCamUpdReq \<Rightarrow> 'm \<times> RtlCamToSlookupUpdRsp" +
  fixes lookup :: "'m \<Rightarrow> RtlSLookupToCamLupReq \<Rightarrow> RtlCamToSlookupLupRsp"
    and find :: "'m \<Rightarrow> FourTuple \<Rightarrow> TcpSessionID option"
  assumes lookup_hit: "clr_hit (lookup m q) = (find m (cl_key q) \<noteq> None)"
    and lookup_id: "find m (cl_key q) = Some sid \<Longrightarrow> clr_session_id (lookup m q) = sid"
    and lookup_source: "clr_source (lookup m q) = cl_source q"
    and find_insert: "cu_op r = INSERT \<Longrightarrow> find m (cu_key r) = None
       \<Longrightarrow> find (fst (update m r)) = (find m)(cu_key r \<mapsto> cu_value r)"
    and insert_twice: "cu_op r = INSERT \<Longrightarrow> find m (cu_key r) \<noteq> None
       \<Longrightarrow> find (fst (update m r)) = find m \<and> \<not> cur_success (snd (update m r))"
    and find_delete: "cu_op r = DELETE \<Longrightarrow> find (fst (update m r)) = (find m)(cu_key r := None)"
begin

lemma lookup_after_insert:
  assumes "cu_op r = INSERT" "find m (cu_key r) = None" "cl_key q = cu_key r"
  shows "clr_hit (lookup (fst (update m r)) q)
    \<and> clr_session_id (lookup (fst (update m r)) q) = cu_value r"
  using assms by (simp add: lookup_hit find_insert lookup_id)

lemma lookup_after_delete:
  assumes "cu_op r = DELETE" "cl_key q = cu_key r"
  shows "\<not> clr_hit (lookup (fst (update m r)) q)"
  using assms by (simp add: lookup_hit find_delete)

end

interpretation mock_cam: cam mock_cam_update mock_cam_lookup "\<lambda>m. m"
  by unfold_locales
    (auto simp: mock_cam_update_def mock_cam_lookup_def Let_def fun_eq_iff
      split: SlookupOp.split option.split)


section \<open>Controller and CAM together\<close>

definition slookup_system :: "MockCam \<times> Slookup \<Rightarrow> MockCam \<times> Slookup" where
  "slookup_system c = MockCamIntf (fst c, session_lookup_controller (snd c))"

definition slookup_init :: Slookup where
  "slookup_init =
     \<lparr>sk_cur_session_id = 0,
      sk_to_cam_req_cache = \<lparr>si_tuple = FourTuple_default, si_allow_creation = False,
        si_source = RX, si_role_id = INVALID_TDEST\<rparr>,
      sk_to_cam_req_cache_valid = False,
      sk_to_rev_table_req_cache = \<lparr>rv_tuple = FourTuple_default, rv_role_id = INVALID_TDEST\<rparr>,
      sk_to_rev_table_req_cache_valid = False, sk_slc_fsm_state = LUP_REQ,
      sk_used_session_id_cnt = 0, sk_reg_session_cnt = 0,
      sk_slookup_rev_table = (\<lambda>_. \<lparr>rv_tuple = FourTuple_default, rv_role_id = INVALID_TDEST\<rparr>),
      sk_valid_tuple = (\<lambda>_. False),
      sk_slookup_available_id_fifo = [], sk_slookup_released_id_fifo = [],
      sk_slookup_to_cam_insert_req_fifo = [], sk_slookup_to_cam_delete_req_fifo = [],
      sk_cam_to_slookup_insert_rsp_fifo = [], sk_reverse_table_insert_req_fifo = [],
      sk_sttable_to_slookup_release_req = [], sk_rx_app_to_slookup_tdest_lookup_req = [],
      sk_slookup_to_rx_app_tdest_lookup_rsp = [], sk_rx_eng_to_slookup_req = [],
      sk_slookup_to_rx_eng_rsp = [], sk_tx_app_to_slookup_req = [], sk_slookup_to_tx_app_rsp = [],
      sk_tx_app_to_slookup_check_tdest_req = [], sk_slookup_to_tx_app_check_tdest_rsp = [],
      sk_tx_eng_to_slookup_rev_table_req = [], sk_slookup_rev_table_to_tx_eng_rsp = [],
      sk_rtl_slookup_to_cam_lookup_req = [], sk_rtl_cam_to_slookup_lookup_rsp = [],
      sk_rtl_slookup_to_cam_update_req = [], sk_rtl_cam_to_slookup_update_rsp = [],
      sk_slookup_to_ptable_release_port_req = []\<rparr>"

text \<open>The environment reads and writes the streams to the engines, the applications and the other
  tables; the statics, the inner FIFOs and the streams to the CAM are not its business.\<close>

definition slookup_env :: "MockCam \<times> Slookup \<Rightarrow> MockCam \<times> Slookup \<Rightarrow> bool" where
  "slookup_env c d \<longleftrightarrow> fst d = fst c
   \<and> sk_cur_session_id (snd d) = sk_cur_session_id (snd c)
   \<and> sk_to_cam_req_cache (snd d) = sk_to_cam_req_cache (snd c)
   \<and> sk_to_cam_req_cache_valid (snd d) = sk_to_cam_req_cache_valid (snd c)
   \<and> sk_to_rev_table_req_cache (snd d) = sk_to_rev_table_req_cache (snd c)
   \<and> sk_to_rev_table_req_cache_valid (snd d) = sk_to_rev_table_req_cache_valid (snd c)
   \<and> sk_slc_fsm_state (snd d) = sk_slc_fsm_state (snd c)
   \<and> sk_used_session_id_cnt (snd d) = sk_used_session_id_cnt (snd c)
   \<and> sk_slookup_rev_table (snd d) = sk_slookup_rev_table (snd c)
   \<and> sk_valid_tuple (snd d) = sk_valid_tuple (snd c)
   \<and> sk_slookup_available_id_fifo (snd d) = sk_slookup_available_id_fifo (snd c)
   \<and> sk_slookup_released_id_fifo (snd d) = sk_slookup_released_id_fifo (snd c)
   \<and> sk_slookup_to_cam_insert_req_fifo (snd d) = sk_slookup_to_cam_insert_req_fifo (snd c)
   \<and> sk_slookup_to_cam_delete_req_fifo (snd d) = sk_slookup_to_cam_delete_req_fifo (snd c)
   \<and> sk_cam_to_slookup_insert_rsp_fifo (snd d) = sk_cam_to_slookup_insert_rsp_fifo (snd c)
   \<and> sk_reverse_table_insert_req_fifo (snd d) = sk_reverse_table_insert_req_fifo (snd c)
   \<and> sk_rtl_slookup_to_cam_lookup_req (snd d) = sk_rtl_slookup_to_cam_lookup_req (snd c)
   \<and> sk_rtl_cam_to_slookup_lookup_rsp (snd d) = sk_rtl_cam_to_slookup_lookup_rsp (snd c)
   \<and> sk_rtl_slookup_to_cam_update_req (snd d) = sk_rtl_slookup_to_cam_update_req (snd c)
   \<and> sk_rtl_cam_to_slookup_update_rsp (snd d) = sk_rtl_cam_to_slookup_update_rsp (snd c)"

abbreviation slookup_reaches :: "MockCam \<times> Slookup \<Rightarrow> bool" where
  "slookup_reaches \<equiv>
     reaches (\<lambda>c. c = (\<lambda>_. None, slookup_init)) slookup_env slookup_system"

text \<open>The sessions counted as used, the free ones and the ones on their way in add up.\<close>

definition session_count_ok :: "Slookup \<Rightarrow> bool" where
  "session_count_ok s \<longleftrightarrow>
     sk_used_session_id_cnt s + word_of_nat (length (sk_slookup_available_id_fifo s)
       + length (sk_slookup_released_id_fifo s) + length (sk_slookup_to_cam_insert_req_fifo s))
     = ucast (sk_cur_session_id s)"

lemma ucast_Suc_session:
  "(w :: 14 word) < 128 \<Longrightarrow> (ucast (w + 1) :: 16 word) = ucast w + 1"
  by (simp add: word_unat_eq_iff unat_word_ariths unsigned_ucast_eq word_less_nat_alt take_bit_eq_mod)

lemma ucast_Suc_session':
  "(w :: 14 word) < 128 \<Longrightarrow> (ucast (1 + w) :: 16 word) = 1 + ucast w"
  using ucast_Suc_session [of w] by (simp add: add.commute)

lemma count_GetNew: "session_count_ok s \<Longrightarrow> session_count_ok (GetNewAvailableSessionId s)"
  by (auto simp: session_count_ok_def GetNewAvailableSessionId_def ucast_Suc_session' algebra_simps
      split: list.split)

lemma count_Handler: "session_count_ok s \<Longrightarrow> session_count_ok (CamLookupRspHandler s)"
  by (cases "sk_slookup_available_id_fifo s")
    (auto simp: session_count_ok_def CamLookupRspHandler_def lookup_cam_def handle_lookup_rsp_def
      handle_insert_rsp_def answer_lookup_def Let_def algebra_simps
      split: SlookupFsmState.split list.split)

lemma count_Sender: "session_count_ok s \<Longrightarrow> session_count_ok (CamUpdateReqSender s)"
  by (auto simp: session_count_ok_def CamUpdateReqSender_def algebra_simps split: list.split)

lemma count_Rsp: "session_count_ok s \<Longrightarrow> session_count_ok (CamUpdateRspHandler s)"
  by (simp add: session_count_ok_def CamUpdateRspHandler_def Let_def split: list.split)

lemma count_Reverse: "session_count_ok s \<Longrightarrow> session_count_ok (SlookupReverseTableInterface s)"
  by (simp add: session_count_ok_def SlookupReverseTableInterface_def reverse_insert_def
      reverse_release_def Let_def split: list.split)

lemma count_cam: "session_count_ok s \<Longrightarrow> session_count_ok (snd (cam_intf l u (m, s)))"
  by (simp add: session_count_ok_def cam_intf_def Let_def split: list.split prod.split)

interpretation slookup_process: hls_process
  "\<lambda>c. c = (\<lambda>_. None, slookup_init)" slookup_env slookup_system
  "\<lambda>c. ids_owned_once (snd c) \<and> session_count_ok (snd c)"
proof
  fix c d :: "MockCam \<times> Slookup"
  show "c = (\<lambda>_. None, slookup_init) \<Longrightarrow> ids_owned_once (snd c) \<and> session_count_ok (snd c)"
    by (simp add: slookup_init_def owner_defs session_count_ok_def id_valid_def)
  show "ids_owned_once (snd c) \<and> session_count_ok (snd c) \<Longrightarrow> slookup_env c d
      \<Longrightarrow> ids_owned_once (snd d) \<and> session_count_ok (snd d)"
    by (simp add: slookup_env_def owner_defs session_count_ok_def)
  show "ids_owned_once (snd c) \<and> session_count_ok (snd c)
      \<Longrightarrow> ids_owned_once (snd (slookup_system c)) \<and> session_count_ok (snd (slookup_system c))"
    by (simp add: slookup_system_def MockCamIntf_def mock_cam.owned_cam owned_controller)
      (rule count_cam, simp add: session_lookup_controller_def count_GetNew count_Handler count_Sender count_Rsp count_Reverse)
qed


lemma distinct_if_counted_once:
  "(\<And>i. id_count f xs i \<le> 1) \<Longrightarrow> distinct (map (\<lambda>x. unat (f x)) xs)"
proof (induction xs)
  case (Cons x xs)
  have "id_count f xs i \<le> 1" for i using Cons.prems [of i] by simp
  moreover have "id_count f xs (unat (f x)) = 0" using Cons.prems [of "unat (f x)"] by simp
  then have "unat (f x) \<notin> (\<lambda>x. unat (f x)) ` set xs"
    by (simp add: id_count_def count_list_0_iff)
  ultimately show ?case using Cons.IH by simp
qed simp

lemma free_id_owned:
  assumes "ids_owned_once s" "i \<in> set (sk_slookup_available_id_fifo s)"
  shows "unat i < TCP_MAX_SESSIONS \<and> \<not> sk_valid_tuple s (ucast i)"
proof -
  have "0 < id_count (\<lambda>x. x) (sk_slookup_available_id_fifo s) (unat i)"
    using assms(2) by (auto simp: id_count_def count_list_0_iff intro!: gr0I)
  then have pos: "0 < id_owners s (unat i)" "id_owners s (unat i) \<ge> 1 + id_valid (sk_valid_tuple s) (unat i)"
    by (simp_all add: id_owners_def)
  then have "id_valid (sk_valid_tuple s) (unat i) = 0" using owners_pos(3) [OF assms(1) pos(1)] by simp
  then show ?thesis
    using owners_pos(2) [OF assms(1) pos(1)] id_valid_unat [of "sk_valid_tuple s" "ucast i"]
    by (simp add: unat_ucast_14_16)
qed

text \<open>C26: The session IDs, over every run of the controller with the simulated CAM: the free list
  holds no ID twice and none that is in use, and every ID, free or in use, indexes an entry of the
  session tables.\<close>

theorem session_ids_unique:
  assumes "slookup_reaches (m, s)"
  shows "distinct (sk_slookup_available_id_fifo s)
       \<and> (\<forall>i \<in> set (sk_slookup_available_id_fifo s).
            unat i < TCP_MAX_SESSIONS \<and> \<not> sk_valid_tuple s (ucast i))
       \<and> (\<forall>sid. sk_valid_tuple s sid \<longrightarrow> unat sid < TCP_MAX_SESSIONS)"
proof -
  have inv: "ids_owned_once s" using slookup_process.reaches_inv [OF assms] by simp
  have "id_owners s i \<le> 1" for i using inv by (simp add: ids_owned_once_def)
  then have "id_count (\<lambda>x. x) (sk_slookup_available_id_fifo s) i \<le> 1" for i
    using \<open>\<And>i. id_owners s i \<le> 1\<close> [of i] unfolding id_owners_def by linarith
  then have "distinct (map unat (sk_slookup_available_id_fifo s))"
    by (rule distinct_if_counted_once)
  then have "distinct (sk_slookup_available_id_fifo s)" by (simp add: distinct_map)
  moreover have "unat sid < TCP_MAX_SESSIONS" if "sk_valid_tuple s sid" for sid
  proof -
    have "0 < id_owners s (unat sid)" using that by (simp add: id_owners_def id_valid_unat)
    then show ?thesis by (rule owners_pos [OF inv])
  qed
  ultimately show ?thesis using free_id_owned [OF inv] by blast
qed

definition slookup_demo :: "MockCam \<times> Slookup" where
  "slookup_demo = (\<lambda>_. None, slookup_init\<lparr>sk_cur_session_id := 1, sk_slookup_available_id_fifo := [0]\<rparr>)"

lemma slookup_demo_reaches: "slookup_reaches slookup_demo"
proof -
  let ?s = "slookup_init\<lparr>sk_cur_session_id := 1, sk_slookup_available_id_fifo := [0]\<rparr>"
  have "GetNewAvailableSessionId slookup_init = ?s"
    by (simp add: GetNewAvailableSessionId_def slookup_init_def)
  moreover have "CamLookupRspHandler ?s = ?s" "CamUpdateReqSender ?s = ?s"
      "CamUpdateRspHandler ?s = ?s" "SlookupReverseTableInterface ?s = ?s"
      "MockCamIntf (\<lambda>_. None, ?s) = (\<lambda>_. None, ?s)"
    by (simp_all add: CamLookupRspHandler_def CamUpdateReqSender_def CamUpdateRspHandler_def
        SlookupReverseTableInterface_def MockCamIntf_def cam_intf_def slookup_init_def)
  ultimately have eq: "slookup_demo = slookup_system (\<lambda>_. None, slookup_init)"
    by (simp add: slookup_demo_def slookup_system_def session_lookup_controller_def)
  show ?thesis unfolding eq by (rule reaches_cycle [OF reaches_ini]) simp
qed

theorem session_ids_unique_witness:
  "sk_slookup_available_id_fifo (snd slookup_demo) = [0]
   \<and> distinct (sk_slookup_available_id_fifo (snd slookup_demo))"
  using session_ids_unique [of "fst slookup_demo" "snd slookup_demo"] slookup_demo_reaches
  by (simp add: slookup_demo_def)

text \<open>The session counter of the controller is the number of IDs generated so far less those
  free, on their way back or not yet inserted, over every run and without drift.\<close>

theorem session_counter_exact:
  assumes "slookup_reaches (m, s)"
  shows "sk_used_session_id_cnt s = ucast (sk_cur_session_id s)
       - word_of_nat (length (sk_slookup_available_id_fifo s)
           + length (sk_slookup_released_id_fifo s) + length (sk_slookup_to_cam_insert_req_fifo s))"
  using slookup_process.reaches_inv [OF assms] by (simp add: session_count_ok_def algebra_simps)

theorem session_counter_exact_witness: "sk_used_session_id_cnt (snd slookup_demo) = 0"
  using session_counter_exact [of "fst slookup_demo" "snd slookup_demo"] slookup_demo_reaches
  by (simp add: slookup_demo_def slookup_init_def)

text \<open>The CAM model: a new tuple that was inserted is found with its session ID, an old one keeps
  its ID and the insertion is refused, a deleted one is not found, and no other tuple is touched.\<close>

theorem mock_cam_contract:
  "fst (mock_cam_update m r) k =
     (if k = cu_key r
      then (if cu_op r = DELETE then None
            else case m k of None \<Rightarrow> Some (cu_value r) | Some sid \<Rightarrow> Some sid)
      else m k)
   \<and> cur_success (snd (mock_cam_update m r)) = (cu_op r = DELETE \<longleftrightarrow> m (cu_key r) \<noteq> None)
   \<and> clr_hit (mock_cam_lookup m q) = (m (cl_key q) \<noteq> None)"
  by (cases "cu_op r"; cases "m (cu_key r)")
    (auto simp: mock_cam_update_def mock_cam_lookup_def Let_def split: option.split)

text \<open>The controller does not look at the success flag of an insertion: a tuple that the CAM
  refused is reported to the receive engine as a session, though no later segment will find it.\<close>

theorem failed_insert_reported_as_session:
  assumes "cur_source rsp = RX" and "\<not> cur_success rsp"
  shows "sk_slookup_to_rx_eng_rsp (handle_insert_rsp rsp s) = sk_slookup_to_rx_eng_rsp s @
     [\<lparr>sl_session_id = cur_session_id rsp, sl_hit = True,
       sl_role_id = rv_role_id (sk_to_rev_table_req_cache s)\<rparr>]"
  using assms by (simp add: handle_insert_rsp_def answer_lookup_def Let_def)

theorem failed_insert_reported_as_session_witness:
  "map sl_hit (sk_slookup_to_rx_eng_rsp (handle_insert_rsp
     \<lparr>cur_op = INSERT, cur_key = FourTuple_default, cur_session_id = 9, cur_success = False,
      cur_source = RX\<rparr> slookup_init)) = [True]"
  using failed_insert_reported_as_session [of "\<lparr>cur_op = INSERT, cur_key = FourTuple_default,
      cur_session_id = 9, cur_success = False, cur_source = RX\<rparr>" slookup_init]
  by (simp add: slookup_init_def)

end
