(* ===== verification/State_Table.thy ===== *)
theory State_Table
  imports Toe_Types
begin

text \<open>
  \<open>state_table/state_table.cpp\<close>: the TCP state of every session, shared by the receive engine,
  the transmit application interface and the timers.  One record holds the statics and the
  streams of the process, \<open>state_table\<close> is one cycle of it.  The request blocks that the source
  writes out twice (for a fresh and for a postponed request) are one definition each.
\<close>

section \<open>State\<close>

record StateTable =
  st_table :: "TcpSessionID \<Rightarrow> SessionState"
  st_tx_app_rw_req_session_id :: TcpSessionID
  st_rx_eng_rw_req_session_id :: TcpSessionID
  st_rx_eng_rw_req_session_id_locked :: bool
  st_tx_app_rw_req_session_id_locked :: bool
  st_tx_app_rw_req :: StateTableReq
  st_rx_eng_rw_req :: StateTableReq
  st_tx_app_rw_locked :: bool
  st_rx_eng_rw_locked :: bool
  st_timer_release_req_session_id :: TcpSessionID
  st_timer_release_locked :: bool
  st_timer_to_sttable_release_state :: "TcpSessionID stream"
  st_rx_eng_to_sttable_req :: "StateTableReq stream"
  st_sttable_to_rx_eng_rsp :: "SessionState stream"
  st_tx_app_to_sttable_lup_req :: "TcpSessionID stream"
  st_sttable_to_tx_app_lup_rsp :: "SessionState stream"
  st_tx_app_to_sttable_req :: "StateTableReq stream"
  st_sttable_to_tx_app_rsp :: "SessionState stream"
  st_sttable_to_slookup_release_req :: "TcpSessionID stream"

definition state_table_init :: StateTable where
  "state_table_init =
     \<lparr>st_table = (\<lambda>_. CLOSED), st_tx_app_rw_req_session_id = 0,
      st_rx_eng_rw_req_session_id = 0, st_rx_eng_rw_req_session_id_locked = False,
      st_tx_app_rw_req_session_id_locked = False, st_tx_app_rw_req = StateTableReq_default,
      st_rx_eng_rw_req = StateTableReq_default, st_tx_app_rw_locked = False,
      st_rx_eng_rw_locked = False, st_timer_release_req_session_id = 0,
      st_timer_release_locked = False, st_timer_to_sttable_release_state = [],
      st_rx_eng_to_sttable_req = [], st_sttable_to_rx_eng_rsp = [],
      st_tx_app_to_sttable_lup_req = [], st_sttable_to_tx_app_lup_rsp = [],
      st_tx_app_to_sttable_req = [], st_sttable_to_tx_app_rsp = [],
      st_sttable_to_slookup_release_req = []\<rparr>"

text \<open>A session is locked for a client between its read and its write.\<close>

definition rx_eng_holds :: "StateTable \<Rightarrow> TcpSessionID \<Rightarrow> bool" where
  "rx_eng_holds s sid \<longleftrightarrow>
     sid = st_rx_eng_rw_req_session_id s \<and> st_rx_eng_rw_req_session_id_locked s"

definition tx_app_holds :: "StateTable \<Rightarrow> TcpSessionID \<Rightarrow> bool" where
  "tx_app_holds s sid \<longleftrightarrow>
     sid = st_tx_app_rw_req_session_id s \<and> st_tx_app_rw_req_session_id_locked s"

section \<open>The operations\<close>

definition tx_app_access :: "StateTable \<Rightarrow> StateTable" where
  "tx_app_access s =
     (let req = st_tx_app_rw_req s; sid = sr_session_id req in
      if sr_write req then
        s\<lparr>st_table := (st_table s)(sid := sr_state req),
          st_tx_app_rw_req_session_id_locked := False\<rparr>
      else
        s\<lparr>st_sttable_to_tx_app_rsp := st_sttable_to_tx_app_rsp s @ [st_table s sid],
          st_tx_app_rw_req_session_id := sid,
          st_tx_app_rw_req_session_id_locked := True\<rparr>)"

definition rx_eng_access :: "StateTable \<Rightarrow> StateTable" where
  "rx_eng_access s =
     (let req = st_rx_eng_rw_req s; sid = sr_session_id req in
      if sr_write req then
        s\<lparr>st_sttable_to_slookup_release_req :=
            st_sttable_to_slookup_release_req s @ (if sr_state req = CLOSED then [sid] else []),
          st_table := (st_table s)(sid := sr_state req),
          st_rx_eng_rw_req_session_id_locked := False\<rparr>
      else
        s\<lparr>st_sttable_to_rx_eng_rsp := st_sttable_to_rx_eng_rsp s @ [st_table s sid],
          st_rx_eng_rw_req_session_id := sid,
          st_rx_eng_rw_req_session_id_locked := True\<rparr>)"

definition timer_release :: "StateTable \<Rightarrow> StateTable" where
  "timer_release s =
     (let sid = st_timer_release_req_session_id s in
      s\<lparr>st_table := (st_table s)(sid := CLOSED),
        st_sttable_to_slookup_release_req := st_sttable_to_slookup_release_req s @ [sid]\<rparr>)"

definition tx_app_request :: "StateTable \<Rightarrow> StateTable" where
  "tx_app_request s =
     (let s = s\<lparr>st_tx_app_rw_req := hd (st_tx_app_to_sttable_req s),
                st_tx_app_to_sttable_req := tl (st_tx_app_to_sttable_req s)\<rparr> in
      if rx_eng_holds s (sr_session_id (st_tx_app_rw_req s))
      then s\<lparr>st_tx_app_rw_locked := True\<rparr>
      else tx_app_access s)"

definition tx_app_lookup :: "StateTable \<Rightarrow> StateTable" where
  "tx_app_lookup s =
     (let sid = hd (st_tx_app_to_sttable_lup_req s) in
      s\<lparr>st_tx_app_to_sttable_lup_req := tl (st_tx_app_to_sttable_lup_req s),
        st_sttable_to_tx_app_lup_rsp := st_sttable_to_tx_app_lup_rsp s @ [st_table s sid]\<rparr>)"

definition rx_eng_request :: "StateTable \<Rightarrow> StateTable" where
  "rx_eng_request s =
     (let s = s\<lparr>st_rx_eng_rw_req := hd (st_rx_eng_to_sttable_req s),
                st_rx_eng_to_sttable_req := tl (st_rx_eng_to_sttable_req s)\<rparr> in
      if tx_app_holds s (sr_session_id (st_rx_eng_rw_req s))
      then s\<lparr>st_rx_eng_rw_locked := True\<rparr>
      else rx_eng_access s)"

definition timer_request :: "StateTable \<Rightarrow> StateTable" where
  "timer_request s =
     (let s = s\<lparr>st_timer_release_req_session_id := hd (st_timer_to_sttable_release_state s),
                st_timer_to_sttable_release_state := tl (st_timer_to_sttable_release_state s)\<rparr>;
          sid = st_timer_release_req_session_id s in
      if rx_eng_holds s sid \<or> tx_app_holds s sid
      then s\<lparr>st_timer_release_locked := True\<rparr>
      else timer_release s)"

definition state_table :: "StateTable \<Rightarrow> StateTable" where
  "state_table s =
     (if st_tx_app_to_sttable_req s \<noteq> [] \<and> \<not> st_tx_app_rw_locked s then tx_app_request s
      else if st_tx_app_to_sttable_lup_req s \<noteq> [] then tx_app_lookup s
      else if st_rx_eng_to_sttable_req s \<noteq> [] \<and> \<not> st_rx_eng_rw_locked s then rx_eng_request s
      else if st_timer_to_sttable_release_state s \<noteq> [] \<and> \<not> st_timer_release_locked s
        then timer_request s
      else if st_tx_app_rw_locked s then
        (if \<not> rx_eng_holds s (sr_session_id (st_tx_app_rw_req s))
         then (tx_app_access s)\<lparr>st_tx_app_rw_locked := False\<rparr> else s)
      else if st_rx_eng_rw_locked s then
        (if \<not> tx_app_holds s (sr_session_id (st_rx_eng_rw_req s))
         then (rx_eng_access s)\<lparr>st_rx_eng_rw_locked := False\<rparr> else s)
      else if st_timer_release_locked s then
        (let sid = st_timer_release_req_session_id s in
         if \<not> rx_eng_holds s sid \<and> \<not> tx_app_holds s sid
         then (timer_release s)\<lparr>st_timer_release_locked := False\<rparr> else s)
      else s)"

lemmas state_table_ops =
  tx_app_access_def rx_eng_access_def timer_release_def tx_app_request_def tx_app_lookup_def
  rx_eng_request_def timer_request_def rx_eng_holds_def tx_app_holds_def Let_def

text \<open>The other processes only touch the streams: the statics are private to the function.\<close>

definition state_table_env :: "StateTable \<Rightarrow> StateTable \<Rightarrow> bool" where
  "state_table_env s t \<longleftrightarrow>
     st_table t = st_table s
   \<and> st_tx_app_rw_req_session_id t = st_tx_app_rw_req_session_id s
   \<and> st_rx_eng_rw_req_session_id t = st_rx_eng_rw_req_session_id s
   \<and> st_rx_eng_rw_req_session_id_locked t = st_rx_eng_rw_req_session_id_locked s
   \<and> st_tx_app_rw_req_session_id_locked t = st_tx_app_rw_req_session_id_locked s
   \<and> st_tx_app_rw_req t = st_tx_app_rw_req s
   \<and> st_rx_eng_rw_req t = st_rx_eng_rw_req s
   \<and> st_tx_app_rw_locked t = st_tx_app_rw_locked s
   \<and> st_rx_eng_rw_locked t = st_rx_eng_rw_locked s
   \<and> st_timer_release_req_session_id t = st_timer_release_req_session_id s
   \<and> st_timer_release_locked t = st_timer_release_locked s"

abbreviation state_table_reaches :: "StateTable \<Rightarrow> bool" where
  "state_table_reaches \<equiv> reaches (\<lambda>s. s = state_table_init) state_table_env state_table"

section \<open>Mutual exclusion\<close>

definition lock_exclusion :: "StateTable \<Rightarrow> bool" where
  "lock_exclusion s \<longleftrightarrow> (\<forall>sid. \<not> (rx_eng_holds s sid \<and> tx_app_holds s sid))"

lemma lock_exclusion_iff [simp]:
  "lock_exclusion s \<longleftrightarrow>
     \<not> (st_rx_eng_rw_req_session_id_locked s \<and> st_tx_app_rw_req_session_id_locked s
        \<and> st_rx_eng_rw_req_session_id s = st_tx_app_rw_req_session_id s)"
  by (auto simp: lock_exclusion_def rx_eng_holds_def tx_app_holds_def)

lemma lock_exclusion_tx_app_access:
  "lock_exclusion s \<Longrightarrow> \<not> rx_eng_holds s (sr_session_id (st_tx_app_rw_req s))
   \<Longrightarrow> lock_exclusion (tx_app_access s)"
  by (auto simp: tx_app_access_def rx_eng_holds_def Let_def)

lemma lock_exclusion_rx_eng_access:
  "lock_exclusion s \<Longrightarrow> \<not> tx_app_holds s (sr_session_id (st_rx_eng_rw_req s))
   \<Longrightarrow> lock_exclusion (rx_eng_access s)"
  by (auto simp: rx_eng_access_def tx_app_holds_def Let_def)

lemma lock_exclusion_cycle: "lock_exclusion s \<Longrightarrow> lock_exclusion (state_table s)"
  unfolding state_table_def
  using lock_exclusion_tx_app_access [of s] lock_exclusion_rx_eng_access [of s]
    lock_exclusion_tx_app_access [of "s\<lparr>st_tx_app_rw_req := hd (st_tx_app_to_sttable_req s),
                st_tx_app_to_sttable_req := tl (st_tx_app_to_sttable_req s)\<rparr>"]
    lock_exclusion_rx_eng_access [of "s\<lparr>st_rx_eng_rw_req := hd (st_rx_eng_to_sttable_req s),
                st_rx_eng_to_sttable_req := tl (st_rx_eng_to_sttable_req s)\<rparr>"]
  by (simp add: tx_app_request_def rx_eng_request_def timer_request_def tx_app_lookup_def
      timer_release_def Let_def split: if_split)

interpretation state_table_process: hls_process
  "\<lambda>s. s = state_table_init" state_table_env state_table lock_exclusion
proof
  fix s t
  show "s = state_table_init \<Longrightarrow> lock_exclusion s" by (simp add: state_table_init_def)
  show "lock_exclusion s \<Longrightarrow> state_table_env s t \<Longrightarrow> lock_exclusion t"
    by (auto simp: state_table_env_def)
  show "lock_exclusion s \<Longrightarrow> lock_exclusion (state_table s)" by (rule lock_exclusion_cycle)
qed

section \<open>The atomic table that the process implements\<close>

text \<open>
  Abstractly the component is a table with a lock per client: an access of a client is possible
  on a session that the other client has not locked, a read takes the lock and answers, a write
  stores and gives the lock back, a release needs a session nobody has locked.
\<close>

datatype stt_action =
    Tx_Access StateTableReq | Rx_Access StateTableReq | Lookup TcpSessionID
  | Release TcpSessionID | Idle

type_synonym stt_abs =
  "(TcpSessionID \<Rightarrow> SessionState) \<times> TcpSessionID option \<times> TcpSessionID option"

definition stt_abs :: "StateTable \<Rightarrow> stt_abs" where
  "stt_abs s =
     (st_table s,
      if st_rx_eng_rw_req_session_id_locked s then Some (st_rx_eng_rw_req_session_id s) else None,
      if st_tx_app_rw_req_session_id_locked s then Some (st_tx_app_rw_req_session_id s) else None)"

fun stt_enabled :: "stt_action \<Rightarrow> stt_abs \<Rightarrow> bool" where
  "stt_enabled (Tx_Access r) (t, rx, tx) = (rx \<noteq> Some (sr_session_id r))"
| "stt_enabled (Rx_Access r) (t, rx, tx) = (tx \<noteq> Some (sr_session_id r))"
| "stt_enabled (Release sid) (t, rx, tx) = (rx \<noteq> Some sid \<and> tx \<noteq> Some sid)"
| "stt_enabled _ _ = True"

fun stt_apply :: "stt_action \<Rightarrow> stt_abs \<Rightarrow> stt_abs" where
  "stt_apply (Tx_Access r) (t, rx, tx) =
     (if sr_write r then (t(sr_session_id r := sr_state r), rx, None)
      else (t, rx, Some (sr_session_id r)))"
| "stt_apply (Rx_Access r) (t, rx, tx) =
     (if sr_write r then (t(sr_session_id r := sr_state r), None, tx)
      else (t, Some (sr_session_id r), tx))"
| "stt_apply (Release sid) (t, rx, tx) = (t(sid := CLOSED), rx, tx)"
| "stt_apply _ a = a"

text \<open>What an action answers: to the receive engine, the transmit application, its lookup port,
  and the session IDs it hands back to the lookup controller.\<close>

fun stt_rx_rsp :: "stt_action \<Rightarrow> (TcpSessionID \<Rightarrow> SessionState) \<Rightarrow> SessionState list" where
  "stt_rx_rsp (Rx_Access r) t = (if sr_write r then [] else [t (sr_session_id r)])"
| "stt_rx_rsp _ t = []"

fun stt_tx_rsp :: "stt_action \<Rightarrow> (TcpSessionID \<Rightarrow> SessionState) \<Rightarrow> SessionState list" where
  "stt_tx_rsp (Tx_Access r) t = (if sr_write r then [] else [t (sr_session_id r)])"
| "stt_tx_rsp _ t = []"

fun stt_lup_rsp :: "stt_action \<Rightarrow> (TcpSessionID \<Rightarrow> SessionState) \<Rightarrow> SessionState list" where
  "stt_lup_rsp (Lookup sid) t = [t sid]"
| "stt_lup_rsp _ t = []"

fun stt_released :: "stt_action \<Rightarrow> TcpSessionID list" where
  "stt_released (Rx_Access r) =
     (if sr_write r \<and> sr_state r = CLOSED then [sr_session_id r] else [])"
| "stt_released (Release sid) = [sid]"
| "stt_released _ = []"

text \<open>The requests a client is still owed an access for, oldest first.\<close>

definition rx_outstanding :: "StateTable \<Rightarrow> StateTableReq list" where
  "rx_outstanding s =
     (if st_rx_eng_rw_locked s then [st_rx_eng_rw_req s] else []) @ st_rx_eng_to_sttable_req s"

definition tx_outstanding :: "StateTable \<Rightarrow> StateTableReq list" where
  "tx_outstanding s =
     (if st_tx_app_rw_locked s then [st_tx_app_rw_req s] else []) @ st_tx_app_to_sttable_req s"

definition timer_outstanding :: "StateTable \<Rightarrow> TcpSessionID list" where
  "timer_outstanding s =
     (if st_timer_release_locked s then [st_timer_release_req_session_id s] else [])
     @ st_timer_to_sttable_release_state s"

definition stt_serves :: "stt_action \<Rightarrow> StateTable \<Rightarrow> StateTable \<Rightarrow> bool" where
  "stt_serves a s s' \<longleftrightarrow>
     rx_outstanding s = (case a of Rx_Access r \<Rightarrow> [r] | _ \<Rightarrow> []) @ rx_outstanding s'
   \<and> tx_outstanding s = (case a of Tx_Access r \<Rightarrow> [r] | _ \<Rightarrow> []) @ tx_outstanding s'
   \<and> timer_outstanding s = (case a of Release sid \<Rightarrow> [sid] | _ \<Rightarrow> []) @ timer_outstanding s'
   \<and> st_tx_app_to_sttable_lup_req s =
       (case a of Lookup sid \<Rightarrow> [sid] | _ \<Rightarrow> []) @ st_tx_app_to_sttable_lup_req s'"

definition stt_answers :: "stt_action \<Rightarrow> StateTable \<Rightarrow> StateTable \<Rightarrow> bool" where
  "stt_answers a s s' \<longleftrightarrow>
     st_sttable_to_rx_eng_rsp s' = st_sttable_to_rx_eng_rsp s @ stt_rx_rsp a (st_table s)
   \<and> st_sttable_to_tx_app_rsp s' = st_sttable_to_tx_app_rsp s @ stt_tx_rsp a (st_table s)
   \<and> st_sttable_to_tx_app_lup_rsp s' = st_sttable_to_tx_app_lup_rsp s @ stt_lup_rsp a (st_table s)
   \<and> st_sttable_to_slookup_release_req s' = st_sttable_to_slookup_release_req s @ stt_released a"

text \<open>The table may idle when nobody waits, or when the oldest request of a client is locked out.\<close>

definition stt_may_idle :: "StateTable \<Rightarrow> bool" where
  "stt_may_idle s \<longleftrightarrow>
     rx_outstanding s = [] \<and> tx_outstanding s = [] \<and> timer_outstanding s = []
       \<and> st_tx_app_to_sttable_lup_req s = []
   \<or> rx_outstanding s \<noteq> [] \<and> \<not> stt_enabled (Rx_Access (hd (rx_outstanding s))) (stt_abs s)
   \<or> tx_outstanding s \<noteq> [] \<and> \<not> stt_enabled (Tx_Access (hd (tx_outstanding s))) (stt_abs s)
   \<or> timer_outstanding s \<noteq> [] \<and> \<not> stt_enabled (Release (hd (timer_outstanding s))) (stt_abs s)"

definition stt_simulates :: "stt_action \<Rightarrow> StateTable \<Rightarrow> StateTable \<Rightarrow> bool" where
  "stt_simulates a s s' \<longleftrightarrow>
     stt_enabled a (stt_abs s) \<and> stt_abs s' = stt_apply a (stt_abs s)
   \<and> stt_serves a s s' \<and> stt_answers a s s' \<and> (a = Idle \<longrightarrow> stt_may_idle s)"

lemmas stt_simulates_defs = stt_simulates_def stt_serves_def stt_answers_def stt_abs_def
  rx_outstanding_def tx_outstanding_def timer_outstanding_def stt_may_idle_def

lemma simulates_tx_app_request:
  assumes "st_tx_app_to_sttable_req s \<noteq> []" "\<not> st_tx_app_rw_locked s"
  shows "\<exists>a. stt_simulates a s (tx_app_request s)"
proof (cases "rx_eng_holds s (sr_session_id (hd (st_tx_app_to_sttable_req s)))")
  case True
  with assms have "stt_simulates Idle s (tx_app_request s)"
    by (simp add: stt_simulates_defs tx_app_request_def rx_eng_holds_def Let_def)
  then show ?thesis ..
next
  case False
  with assms have "stt_simulates (Tx_Access (hd (st_tx_app_to_sttable_req s))) s (tx_app_request s)"
    by (simp add: stt_simulates_defs tx_app_request_def tx_app_access_def rx_eng_holds_def Let_def)
  then show ?thesis ..
qed

lemma simulates_rx_eng_request:
  assumes "st_rx_eng_to_sttable_req s \<noteq> []" "\<not> st_rx_eng_rw_locked s"
  shows "\<exists>a. stt_simulates a s (rx_eng_request s)"
proof (cases "tx_app_holds s (sr_session_id (hd (st_rx_eng_to_sttable_req s)))")
  case True
  with assms have "stt_simulates Idle s (rx_eng_request s)"
    by (simp add: stt_simulates_defs rx_eng_request_def tx_app_holds_def Let_def)
  then show ?thesis ..
next
  case False
  with assms have "stt_simulates (Rx_Access (hd (st_rx_eng_to_sttable_req s))) s (rx_eng_request s)"
    by (simp add: stt_simulates_defs rx_eng_request_def rx_eng_access_def tx_app_holds_def Let_def)
  then show ?thesis ..
qed

lemma simulates_timer_request:
  assumes "st_timer_to_sttable_release_state s \<noteq> []" "\<not> st_timer_release_locked s"
  shows "\<exists>a. stt_simulates a s (timer_request s)"
proof -
  obtain sid rest where q: "st_timer_to_sttable_release_state s = sid # rest"
    using assms(1) by (cases "st_timer_to_sttable_release_state s") auto
  show ?thesis
  proof (cases "rx_eng_holds s sid \<or> tx_app_holds s sid")
    case True
    with assms q have "stt_simulates Idle s (timer_request s)"
      by (auto simp: stt_simulates_defs timer_request_def rx_eng_holds_def tx_app_holds_def Let_def)
    then show ?thesis ..
  next
    case False
    with assms q have "stt_simulates (Release sid) s (timer_request s)"
      by (auto simp: stt_simulates_defs timer_request_def timer_release_def rx_eng_holds_def
          tx_app_holds_def Let_def)
    then show ?thesis ..
  qed
qed

lemma simulates_tx_app_lookup:
  "st_tx_app_to_sttable_lup_req s \<noteq> []
   \<Longrightarrow> stt_simulates (Lookup (hd (st_tx_app_to_sttable_lup_req s))) s (tx_app_lookup s)"
  by (simp add: stt_simulates_defs tx_app_lookup_def Let_def)

lemma simulates_tx_app_access:
  "st_tx_app_rw_locked s \<Longrightarrow> \<not> rx_eng_holds s (sr_session_id (st_tx_app_rw_req s))
   \<Longrightarrow> stt_simulates (Tx_Access (st_tx_app_rw_req s)) s
         ((tx_app_access s)\<lparr>st_tx_app_rw_locked := False\<rparr>)"
  by (auto simp: stt_simulates_defs tx_app_access_def rx_eng_holds_def Let_def)

lemma simulates_rx_eng_access:
  "st_rx_eng_rw_locked s \<Longrightarrow> \<not> tx_app_holds s (sr_session_id (st_rx_eng_rw_req s))
   \<Longrightarrow> stt_simulates (Rx_Access (st_rx_eng_rw_req s)) s
         ((rx_eng_access s)\<lparr>st_rx_eng_rw_locked := False\<rparr>)"
  by (auto simp: stt_simulates_defs rx_eng_access_def tx_app_holds_def Let_def)

lemma simulates_timer_release:
  "st_timer_release_locked s \<Longrightarrow> \<not> rx_eng_holds s (st_timer_release_req_session_id s)
   \<Longrightarrow> \<not> tx_app_holds s (st_timer_release_req_session_id s)
   \<Longrightarrow> stt_simulates (Release (st_timer_release_req_session_id s)) s
         ((timer_release s)\<lparr>st_timer_release_locked := False\<rparr>)"
  by (auto simp: stt_simulates_defs timer_release_def rx_eng_holds_def tx_app_holds_def Let_def)

lemma simulates_idle: "stt_may_idle s \<Longrightarrow> stt_simulates Idle s s"
  by (simp add: stt_simulates_def stt_serves_def stt_answers_def)

lemma may_idle_locked_out:
  "st_tx_app_rw_locked s \<Longrightarrow> \<not> \<not> rx_eng_holds s (sr_session_id (st_tx_app_rw_req s)) \<Longrightarrow> stt_may_idle s"
  "st_rx_eng_rw_locked s \<Longrightarrow> \<not> \<not> tx_app_holds s (sr_session_id (st_rx_eng_rw_req s)) \<Longrightarrow> stt_may_idle s"
  "st_timer_release_locked s
   \<Longrightarrow> \<not> (\<not> rx_eng_holds s (st_timer_release_req_session_id s)
          \<and> \<not> tx_app_holds s (st_timer_release_req_session_id s)) \<Longrightarrow> stt_may_idle s"
  by (auto simp: stt_simulates_defs rx_eng_holds_def tx_app_holds_def)

lemma may_idle_nothing_waits:
  "\<not> (st_tx_app_to_sttable_req s \<noteq> [] \<and> \<not> st_tx_app_rw_locked s) \<Longrightarrow> \<not> st_tx_app_to_sttable_lup_req s \<noteq> []
   \<Longrightarrow> \<not> (st_rx_eng_to_sttable_req s \<noteq> [] \<and> \<not> st_rx_eng_rw_locked s)
   \<Longrightarrow> \<not> (st_timer_to_sttable_release_state s \<noteq> [] \<and> \<not> st_timer_release_locked s)
   \<Longrightarrow> \<not> st_tx_app_rw_locked s \<Longrightarrow> \<not> st_rx_eng_rw_locked s \<Longrightarrow> \<not> st_timer_release_locked s
   \<Longrightarrow> stt_may_idle s"
  by (simp add: stt_simulates_defs)

lemma state_table_simulates: "\<exists>a. stt_simulates a s (state_table s)"
  unfolding state_table_def Let_def
  by (intro if_rule [where P = "\<lambda>t. \<exists>a. stt_simulates a s t"])
    (blast intro: simulates_tx_app_request simulates_rx_eng_request simulates_timer_request
        simulates_tx_app_lookup simulates_tx_app_access simulates_rx_eng_access
        simulates_timer_release simulates_idle may_idle_locked_out may_idle_nothing_waits)+

section \<open>Runs of the table\<close>

text \<open>A sequence of actions of the atomic table, each enabled when its turn comes, with the
  requests it serves and the answers it gives.\<close>

fun stt_exec :: "stt_action list \<Rightarrow> stt_abs \<Rightarrow> stt_abs option" where
  "stt_exec [] ab = Some ab"
| "stt_exec (a # as) ab = (if stt_enabled a ab then stt_exec as (stt_apply a ab) else None)"

fun stt_trace :: "(stt_action \<Rightarrow> (TcpSessionID \<Rightarrow> SessionState) \<Rightarrow> 'r list)
    \<Rightarrow> stt_action list \<Rightarrow> stt_abs \<Rightarrow> 'r list" where
  "stt_trace out [] ab = []"
| "stt_trace out (a # as) ab = out a (fst ab) @ stt_trace out as (stt_apply a ab)"

fun rx_served :: "stt_action list \<Rightarrow> StateTableReq list" where
  "rx_served [] = []"
| "rx_served (Rx_Access r # as) = r # rx_served as"
| "rx_served (_ # as) = rx_served as"

fun tx_served :: "stt_action list \<Rightarrow> StateTableReq list" where
  "tx_served [] = []"
| "tx_served (Tx_Access r # as) = r # tx_served as"
| "tx_served (_ # as) = tx_served as"

fun timer_served :: "stt_action list \<Rightarrow> TcpSessionID list" where
  "timer_served [] = []"
| "timer_served (Release sid # as) = sid # timer_served as"
| "timer_served (_ # as) = timer_served as"

fun lup_served :: "stt_action list \<Rightarrow> TcpSessionID list" where
  "lup_served [] = []"
| "lup_served (Lookup sid # as) = sid # lup_served as"
| "lup_served (_ # as) = lup_served as"

lemma fst_stt_abs [simp]: "fst (stt_abs s) = st_table s"
  by (simp add: stt_abs_def)

lemma served_Cons:
  "rx_served (a # as) = (case a of Rx_Access r \<Rightarrow> [r] | _ \<Rightarrow> []) @ rx_served as"
  "tx_served (a # as) = (case a of Tx_Access r \<Rightarrow> [r] | _ \<Rightarrow> []) @ tx_served as"
  "timer_served (a # as) = (case a of Release sid \<Rightarrow> [sid] | _ \<Rightarrow> []) @ timer_served as"
  "lup_served (a # as) = (case a of Lookup sid \<Rightarrow> [sid] | _ \<Rightarrow> []) @ lup_served as"
  by (cases a; simp)+

text \<open>The requests that a run of actions serves and the answers it gives.\<close>

definition stt_run_serves :: "stt_action list \<Rightarrow> StateTable \<Rightarrow> StateTable \<Rightarrow> bool" where
  "stt_run_serves as s s' \<longleftrightarrow>
     rx_outstanding s = rx_served as @ rx_outstanding s'
   \<and> tx_outstanding s = tx_served as @ tx_outstanding s'
   \<and> timer_outstanding s = timer_served as @ timer_outstanding s'
   \<and> st_tx_app_to_sttable_lup_req s = lup_served as @ st_tx_app_to_sttable_lup_req s'"

definition stt_run_answers :: "stt_action list \<Rightarrow> StateTable \<Rightarrow> StateTable \<Rightarrow> bool" where
  "stt_run_answers as s s' \<longleftrightarrow>
     st_sttable_to_rx_eng_rsp s' = st_sttable_to_rx_eng_rsp s @ stt_trace stt_rx_rsp as (stt_abs s)
   \<and> st_sttable_to_tx_app_rsp s' = st_sttable_to_tx_app_rsp s @ stt_trace stt_tx_rsp as (stt_abs s)
   \<and> st_sttable_to_tx_app_lup_rsp s'
       = st_sttable_to_tx_app_lup_rsp s @ stt_trace stt_lup_rsp as (stt_abs s)
   \<and> st_sttable_to_slookup_release_req s'
       = st_sttable_to_slookup_release_req s @ stt_trace (\<lambda>a _. stt_released a) as (stt_abs s)"

lemma stt_run_Cons:
  assumes "stt_simulates a s s'"
  shows "stt_run_serves as s' t \<Longrightarrow> stt_run_serves (a # as) s t"
    and "stt_run_answers as s' t \<Longrightarrow> stt_run_answers (a # as) s t"
  using assms
  by (simp_all add: stt_simulates_def stt_serves_def stt_answers_def stt_run_serves_def
      stt_run_answers_def served_Cons)

lemma state_table_run:
  "\<exists>as. length as = n \<and> stt_exec as (stt_abs s) = Some (stt_abs ((state_table ^^ n) s))
     \<and> stt_run_serves as s ((state_table ^^ n) s) \<and> stt_run_answers as s ((state_table ^^ n) s)
     \<and> (\<forall>i < n. as ! i = Idle \<longrightarrow> stt_may_idle ((state_table ^^ i) s))"
proof (induction n arbitrary: s)
  case 0
  show ?case by (rule exI [of _ "[]"]) (simp add: stt_run_serves_def stt_run_answers_def)
next
  case (Suc n)
  let ?t = "(state_table ^^ n) (state_table s)"
  obtain a where a: "stt_simulates a s (state_table s)" using state_table_simulates by blast
  obtain as where as: "length as = n" "stt_exec as (stt_abs (state_table s)) = Some (stt_abs ?t)"
      "stt_run_serves as (state_table s) ?t" "stt_run_answers as (state_table s) ?t"
      "\<forall>i < n. as ! i = Idle \<longrightarrow> stt_may_idle ((state_table ^^ i) (state_table s))"
    using Suc.IH [of "state_table s"] by blast
  have "stt_exec (a # as) (stt_abs s) = Some (stt_abs ?t)"
    using a as(2) by (simp add: stt_simulates_def)
  moreover have "\<forall>i < Suc n. (a # as) ! i = Idle \<longrightarrow> stt_may_idle ((state_table ^^ i) s)"
    using a as(5) by (auto simp: All_less_Suc2 funpow_Suc_apply stt_simulates_def simp del: funpow.simps(2))
  ultimately show ?case
    using as(1) stt_run_Cons [OF a] as(3,4)
    by (intro exI [of _ "a # as"]) (simp add: funpow_Suc_apply del: funpow.simps)
qed

text \<open>C4: Any number of cycles of the state table is a run of the atomic table with locks, one action
  per cycle, each enabled under the locks held at that moment.  For each of the four clients, the
  receive engine, the transmit application, its lookup port and the timers, the requests are served
  in the order they were sent, and those not yet served, the postponed one included, are still
  there: none is lost or doubled.  The answers to the three readers and the session IDs handed
  back to the lookup controller are exactly those of the atomic table, and a cycle does nothing
  only if nobody waits or the oldest request of some client is locked out.\<close>

theorem state_table_refines_atomic_table:
  "\<exists>as. length as = n
     \<and> stt_exec as (stt_abs s) = Some (stt_abs ((state_table ^^ n) s))
     \<and> rx_outstanding s = rx_served as @ rx_outstanding ((state_table ^^ n) s)
     \<and> tx_outstanding s = tx_served as @ tx_outstanding ((state_table ^^ n) s)
     \<and> timer_outstanding s = timer_served as @ timer_outstanding ((state_table ^^ n) s)
     \<and> st_tx_app_to_sttable_lup_req s
       = lup_served as @ st_tx_app_to_sttable_lup_req ((state_table ^^ n) s)
     \<and> st_sttable_to_rx_eng_rsp ((state_table ^^ n) s)
       = st_sttable_to_rx_eng_rsp s @ stt_trace stt_rx_rsp as (stt_abs s)
     \<and> st_sttable_to_tx_app_rsp ((state_table ^^ n) s)
       = st_sttable_to_tx_app_rsp s @ stt_trace stt_tx_rsp as (stt_abs s)
     \<and> st_sttable_to_tx_app_lup_rsp ((state_table ^^ n) s)
       = st_sttable_to_tx_app_lup_rsp s @ stt_trace stt_lup_rsp as (stt_abs s)
     \<and> st_sttable_to_slookup_release_req ((state_table ^^ n) s)
       = st_sttable_to_slookup_release_req s @ stt_trace (\<lambda>a _. stt_released a) as (stt_abs s)
     \<and> (\<forall>i \<in> {..<n}. as ! i \<noteq> Idle \<or> stt_may_idle ((state_table ^^ i) s))"
  using state_table_run [of n s] unfolding stt_run_serves_def stt_run_answers_def by auto

text \<open>The timers release session 5: in one cycle the release is served and the ID is handed back.\<close>

theorem state_table_refines_atomic_table_witness:
  "\<exists>a. timer_served [a] = [5] \<and> st_sttable_to_slookup_release_req (state_table
     (state_table_init\<lparr>st_timer_to_sttable_release_state := [5]\<rparr>)) = stt_released a"
proof -
  let ?s = "state_table_init\<lparr>st_timer_to_sttable_release_state := [5]\<rparr>"
  have "timer_outstanding ?s = [5]" "timer_outstanding (state_table ?s) = []" "st_sttable_to_slookup_release_req ?s = []"
    by (simp_all add: state_table_init_def state_table_def timer_request_def timer_release_def timer_outstanding_def
        rx_eng_holds_def tx_app_holds_def Let_def)
  then show ?thesis
    using state_table_refines_atomic_table [of 1 ?s] by (auto simp: length_Suc_conv)
qed

text \<open>The receive engine and the transmit application never hold the lock of the same
  session, in any state that a run from power-up passes through.\<close>

theorem state_table_mutual_exclusion:
  assumes "state_table_reaches s"
  shows "\<not> (rx_eng_holds s sid \<and> tx_app_holds s sid)"
  using state_table_process.reaches_inv [OF assms] by (auto simp: rx_eng_holds_def tx_app_holds_def)

definition rx_quiet_env :: "StateTable \<Rightarrow> StateTable \<Rightarrow> bool" where
  "rx_quiet_env s t \<longleftrightarrow> state_table_env s t \<and> rx_outstanding t = rx_outstanding s"

lemma rx_hold_preserved:
  assumes "rx_eng_holds s sid" "rx_outstanding s = []"
  shows "rx_eng_holds (state_table s) sid \<and> rx_outstanding (state_table s) = []
         \<and> st_table (state_table s) sid = st_table s sid"
proof -
  obtain a where a: "stt_simulates a s (state_table s)" using state_table_simulates by blast
  have lock: "fst (snd (stt_abs t)) = Some sid \<longleftrightarrow> rx_eng_holds t sid" for t
    by (auto simp: stt_abs_def rx_eng_holds_def)
  have "fst (snd (stt_abs (state_table s))) = Some sid
        \<and> fst (stt_abs (state_table s)) sid = fst (stt_abs s) sid"
    using a assms lock [of s]
    by (cases a; cases "stt_abs s") (auto simp: stt_simulates_def stt_serves_def)
  moreover have "rx_outstanding (state_table s) = []"
    using a assms by (cases a) (auto simp: stt_simulates_def stt_serves_def)
  ultimately show ?thesis by (simp add: lock)
qed

text \<open>C21: Between the receive engine's read of a session and its next request nobody else changes
  that session: whatever the transmit application and the timers send meanwhile, for any number
  of cycles, the stored state is the one that was read and the lock stays.\<close>

theorem state_table_read_modify_write_atomic:
  assumes "rx_eng_holds s sid" and "rx_outstanding s = []"
    and "reaches (\<lambda>t. t = s) rx_quiet_env state_table t"
  shows "st_table t sid = st_table s sid \<and> rx_eng_holds t sid"
proof -
  have "rx_eng_holds t sid \<and> rx_outstanding t = [] \<and> st_table t sid = st_table s sid"
    using assms(3)
  proof (induction rule: reaches.induct)
    case (reaches_env u v)
    then show ?case by (auto simp: rx_quiet_env_def state_table_env_def rx_eng_holds_def)
  next
    case (reaches_cycle u)
    then show ?case using rx_hold_preserved [of u sid] by simp
  qed (use assms in simp)
  then show ?thesis by simp
qed

text \<open>A run in which both clients hold a session: the receive engine session 1, the transmit
  application session 2.\<close>

definition state_table_demo :: StateTable where
  "state_table_demo = state_table (state_table
     (state_table_init\<lparr>st_rx_eng_to_sttable_req := [StateTableReq_read 1],
                       st_tx_app_to_sttable_req := [StateTableReq_read 2]\<rparr>))"

lemma state_table_demo_reaches: "state_table_reaches state_table_demo"
  unfolding state_table_demo_def
  by (intro reaches_cycle reaches_env [OF reaches_ini])
    (auto simp: state_table_env_def state_table_init_def)

lemma state_table_demo_locks:
  "rx_eng_holds state_table_demo 1" "tx_app_holds state_table_demo 2"
  "rx_outstanding state_table_demo = []"
  by (simp_all add: state_table_demo_def state_table_def state_table_ops state_table_init_def
      StateTableReq_read_def rx_outstanding_def)

theorem state_table_mutual_exclusion_witness:
  "\<not> (rx_eng_holds state_table_demo 1 \<and> tx_app_holds state_table_demo 1)
   \<and> rx_eng_holds state_table_demo 1 \<and> tx_app_holds state_table_demo 2"
  using state_table_mutual_exclusion [OF state_table_demo_reaches, of 1] state_table_demo_locks
  by blast

text \<open>The transmit application tries to close session 1 meanwhile; its write is postponed.\<close>

definition state_table_demo_later :: StateTable where
  "state_table_demo_later = state_table (state_table
     (state_table_demo\<lparr>st_tx_app_to_sttable_req := [StateTableReq_write 1 FIN_WAIT_1]\<rparr>))"

theorem state_table_read_modify_write_atomic_witness:
  "st_table state_table_demo_later 1 = st_table state_table_demo 1
   \<and> rx_eng_holds state_table_demo_later 1"
proof (rule state_table_read_modify_write_atomic [OF state_table_demo_locks(1,3)])
  show "reaches (\<lambda>t. t = state_table_demo) rx_quiet_env state_table state_table_demo_later"
    unfolding state_table_demo_later_def
    by (intro reaches_cycle reaches_env [OF reaches_ini])
      (auto simp: rx_quiet_env_def state_table_env_def rx_outstanding_def)
qed

end
