(* ===== verification/Round_Robin.thy ===== *)
theory Round_Robin
  imports Toe_Types
begin

text \<open>
  What the three timers and the ack delay have in common: a table of counters with one entry per
  session and a cursor that visits one entry per cycle.  The locale states the contract of such
  a process and proves when a counter expires; it is interpreted on each of the four processes.
\<close>

section \<open>The cursor\<close>

text \<open>\<open>cur++; if (cur == TCP_MAX_SESSIONS) cur = 0\<close> of the close timer, the probe timer and the ack
  delay.\<close>

definition next_session_id :: "TcpSessionID \<Rightarrow> TcpSessionID" where
  "next_session_id cur = (if cur + 1 = 128 then 0 else cur + 1)"

lemma unat_next_session_id:
  "unat cur < TCP_MAX_SESSIONS
   \<Longrightarrow> unat (next_session_id cur) = (if unat cur + 1 = TCP_MAX_SESSIONS then 0 else unat cur + 1)"
  by (auto simp: next_session_id_def unat_word_ariths word_unat_eq_iff)

lemma unat_minus_1: "0 < (w :: 'a::len word) \<Longrightarrow> unat (w - 1) = unat w - 1"
  by (simp add: unat_sub_if_size unat_gt_0 Suc_le_eq word_le_nat_alt)

lemma unat_session [simp]: "i < TCP_MAX_SESSIONS \<Longrightarrow> unat (word_of_nat i :: TcpSessionID) = i"
  by (simp add: unat_of_nat)

lemma word_of_nat_eq_session:
  "i < TCP_MAX_SESSIONS \<Longrightarrow> (word_of_nat i = (w :: TcpSessionID)) = (i = unat w)"
  by (auto simp: word_unat_eq_iff unat_of_nat)

section \<open>When a counter expires\<close>

text \<open>The visits of a cursor at \<open>c\<close> until it reaches entry \<open>i\<close>, and until a counter of \<open>t\<close> there
  has run out: one round per tick.\<close>

definition timer_distance :: "nat \<Rightarrow> nat \<Rightarrow> nat" where
  "timer_distance c i = (if c \<le> i then i - c else i + TCP_MAX_SESSIONS - c)"

lemma timer_distance_self [simp]: "timer_distance i i = 0"
  by (simp add: timer_distance_def)

definition visits_until :: "nat \<Rightarrow> nat \<Rightarrow> nat \<Rightarrow> nat" where
  "visits_until c i t = t * TCP_MAX_SESSIONS + timer_distance c i"

text \<open>
  The three timers share a contract: while no request interrupts, a cursor runs round the table,
  a visit counts an active entry down or, at 0, lets it expire.
\<close>

locale visit_timer =
  fixes cycle :: "'s \<Rightarrow> 's" and quiet :: "'s \<Rightarrow> bool" and cursor :: "'s \<Rightarrow> nat"
    and left :: "'s \<Rightarrow> nat \<Rightarrow> nat option" and expired :: "'s \<Rightarrow> nat \<Rightarrow> nat"
  assumes quiet_cycle: "quiet s \<Longrightarrow> quiet (cycle s)"
    and cursor_bound: "quiet s \<Longrightarrow> cursor s < TCP_MAX_SESSIONS"
    and cursor_next: "quiet s \<Longrightarrow> cursor (cycle s) = (if cursor s + 1 = TCP_MAX_SESSIONS then 0 else cursor s + 1)"
    and left_other: "quiet s \<Longrightarrow> i < TCP_MAX_SESSIONS \<Longrightarrow> i \<noteq> cursor s \<Longrightarrow> left (cycle s) i = left s i"
    and left_cursor: "quiet s \<Longrightarrow> left (cycle s) (cursor s) =
       (case left s (cursor s) of Some (Suc t) \<Rightarrow> Some t | _ \<Rightarrow> None)"
    and expired_cycle: "quiet s \<Longrightarrow> i < TCP_MAX_SESSIONS \<Longrightarrow> expired (cycle s) i
       = expired s i + of_bool (i = cursor s \<and> left s i = Some 0)"
begin

lemma quiet_iterate: "quiet s \<Longrightarrow> quiet ((cycle ^^ n) s)"
  by (rule funpow_invariant) (auto intro: quiet_cycle)

lemma distance_next:
  assumes "c < TCP_MAX_SESSIONS" "i < TCP_MAX_SESSIONS" "i \<noteq> c"
  shows "timer_distance (if c + 1 = TCP_MAX_SESSIONS then 0 else c + 1) i + 1 = timer_distance c i"
  using assms by (auto simp: timer_distance_def)

lemma not_yet:
  assumes "quiet s" "i < TCP_MAX_SESSIONS" "left s i = Some t" "0 < visits_until (cursor s) i t"
  shows "\<exists>t'. left (cycle s) i = Some t' \<and> visits_until (cursor (cycle s)) i t' + 1 = visits_until (cursor s) i t
    \<and> expired (cycle s) i = expired s i"
proof (cases "i = cursor s")
  case True
  then obtain t' where t': "t = Suc t'"
    using assms(4) by (cases t) (auto simp: visits_until_def timer_distance_def)
  have "timer_distance (if i + 1 = TCP_MAX_SESSIONS then 0 else i + 1) i = 127"
    using assms(2) by (auto simp: timer_distance_def)
  then have "visits_until (cursor (cycle s)) i t' + 1 = visits_until (cursor s) i t"
    using True t' cursor_next [OF assms(1)] by (simp add: visits_until_def split: if_split_asm)
  then show ?thesis
    using True t' assms left_cursor [OF assms(1)] expired_cycle [OF assms(1,2)] by simp
next
  case False
  have "visits_until (cursor (cycle s)) i t + 1 = visits_until (cursor s) i t"
    using distance_next [OF cursor_bound [OF assms(1)] assms(2) False] cursor_next [OF assms(1)]
    by (simp add: visits_until_def)
  then show ?thesis
    using False assms left_other [OF assms(1,2) False] expired_cycle [OF assms(1,2)] by simp
qed

lemma at_zero:
  assumes "quiet s" "i < TCP_MAX_SESSIONS" "left s i = Some t" "visits_until (cursor s) i t = 0"
  shows "left (cycle s) i = None \<and> expired (cycle s) i = expired s i + 1"
proof -
  have t: "t = 0" using assms(4) by (simp add: visits_until_def)
  have "timer_distance (cursor s) i = 0" using assms(4) by (simp add: visits_until_def)
  then have "i = cursor s"
    using assms(2) cursor_bound [OF assms(1)] by (auto simp: timer_distance_def split: if_splits)
  then show ?thesis
    using t assms left_cursor [OF assms(1)] expired_cycle [OF assms(1,2)] by simp
qed

lemma none_stays:
  assumes "quiet s" "i < TCP_MAX_SESSIONS" "left s i = None"
  shows "left (cycle s) i = None \<and> expired (cycle s) i = expired s i"
  using assms left_other [OF assms(1,2)] left_cursor [OF assms(1)] expired_cycle [OF assms(1,2)]
  by (cases "i = cursor s") auto

lemma none_iterate:
  assumes "quiet s" "i < TCP_MAX_SESSIONS" "left s i = None"
  shows "left ((cycle ^^ n) s) i = None \<and> expired ((cycle ^^ n) s) i = expired s i"
  using assms(3)
  by (induction n) (auto simp: none_stays quiet_iterate assms)

lemma expires_exactly:
  assumes "quiet s" "i < TCP_MAX_SESSIONS" "left s i = Some t"
  shows "expired ((cycle ^^ n) s) i = expired s i + of_bool (visits_until (cursor s) i t < n)
       \<and> (left ((cycle ^^ n) s) i \<noteq> None \<longleftrightarrow> n \<le> visits_until (cursor s) i t)"
  using assms
proof (induction n arbitrary: s t)
  case (Suc n)
  show ?case
  proof (cases "visits_until (cursor s) i t = 0")
    case True
    have z: "left (cycle s) i = None" "expired (cycle s) i = expired s i + 1"
      using at_zero [OF Suc.prems True] by simp_all
    show ?thesis
      using none_iterate [OF quiet_cycle [OF Suc.prems(1)] Suc.prems(2) z(1), of n] z True
      by (simp only: funpow_Suc_apply) simp
  next
    case False
    then obtain t' where t': "left (cycle s) i = Some t'"
        "visits_until (cursor (cycle s)) i t' + 1 = visits_until (cursor s) i t" "expired (cycle s) i = expired s i"
      using not_yet [OF Suc.prems] by auto
    show ?thesis
      using Suc.IH [OF quiet_cycle [OF Suc.prems(1)] Suc.prems(2) t'(1)] t'(2,3)
      by (simp only: funpow_Suc_apply) (auto simp: of_bool_def)
  qed
qed simp

end

end
