(* ===== verification/Timers.thy ===== *)
theory Timers
  imports Round_Robin Axi_Utils
begin

text \<open>
  The three timers, \<open>close_timer/close_timer.cpp\<close>, \<open>probe_timer/probe_timer.cpp\<close> and
  \<open>retransmit_timer/retransmit_timer.cpp\<close>, and the wrapper that merges their outputs
  (\<open>timer_wrapper/timer_wrapper.cpp\<close>).  Each timer is a table of counters and a cursor that
  visits one entry per cycle when no request has to be served.  The output streams of a timer
  are the inner FIFOs of the wrapper; the answer of \<open>full()\<close> is a field the environment sets.
\<close>

section \<open>Close timer\<close>

record CloseTimerEntry =
  ce_time :: "32 word"
  ce_active :: bool

record CloseTimer =
  ct_close_timer_table :: "TcpSessionID \<Rightarrow> CloseTimerEntry"
  ct_ctimer_cur_session_id :: TcpSessionID
  ct_ctimer_set_session_id :: TcpSessionID
  ct_ctimer_prev_session_id :: TcpSessionID
  ct_ctimer_wait_for_write :: bool
  ct_rx_eng_to_timer_set_ctimer :: "TcpSessionID stream"
  ct_ctimer_to_sttable_release_state :: "TcpSessionID stream"

definition ctimer_write :: "build \<Rightarrow> CloseTimer \<Rightarrow> CloseTimer" where
  "ctimer_write b s =
     (let s = (if ct_ctimer_set_session_id s \<noteq> ct_ctimer_prev_session_id s then
                 s\<lparr>ct_close_timer_table := (ct_close_timer_table s)
                     (ct_ctimer_set_session_id s := \<lparr>ce_time = TIME_60s b, ce_active = True\<rparr>),
                   ct_ctimer_wait_for_write := False\<rparr>
               else s) in
      s\<lparr>ct_ctimer_prev_session_id := ct_ctimer_prev_session_id s - 1\<rparr>)"

definition ctimer_visit :: "CloseTimer \<Rightarrow> CloseTimer" where
  "ctimer_visit s =
     (let cur = ct_ctimer_cur_session_id s;
          entry = ct_close_timer_table s cur;
          s = s\<lparr>ct_ctimer_prev_session_id := cur\<rparr>;
          s = (if ce_active entry then
                 (if ce_time entry > 0 then
                    s\<lparr>ct_close_timer_table := (ct_close_timer_table s)
                        (cur := entry\<lparr>ce_time := ce_time entry - 1\<rparr>)\<rparr>
                  else
                    s\<lparr>ct_close_timer_table := (ct_close_timer_table s)
                        (cur := \<lparr>ce_time = 0, ce_active = False\<rparr>),
                      ct_ctimer_to_sttable_release_state :=
                        ct_ctimer_to_sttable_release_state s @ [cur]\<rparr>)
               else s) in
      s\<lparr>ct_ctimer_cur_session_id := next_session_id cur\<rparr>)"

definition close_timer :: "build \<Rightarrow> CloseTimer \<Rightarrow> CloseTimer" where
  "close_timer b s =
     (if ct_ctimer_wait_for_write s then ctimer_write b s
      else case ct_rx_eng_to_timer_set_ctimer s of
        sid # sids \<Rightarrow>
          s\<lparr>ct_rx_eng_to_timer_set_ctimer := sids, ct_ctimer_set_session_id := sid,
            ct_ctimer_wait_for_write := True\<rparr>
      | [] \<Rightarrow> ctimer_visit s)"

section \<open>Probe timer\<close>

record ProbeTimerEntry =
  be_time :: "32 word"
  be_active :: bool

record ProbeTimer =
  bt_probe_timer_table :: "TcpSessionID \<Rightarrow> ProbeTimerEntry"
  bt_ptimer_cur_check_session_id :: TcpSessionID
  bt_ptimer_set_session_id :: TcpSessionID
  bt_ptimer_prev_session_id :: TcpSessionID
  bt_ptimer_wait_for_write :: bool
  bt_rx_eng_to_timer_clear_ptimer :: "TcpSessionID stream"
  bt_tx_eng_to_timer_set_ptimer :: "TcpSessionID stream"
  bt_ptimer_to_event_eng_set_event :: "Event stream"
  bt_ptimer_to_event_eng_set_event_full :: bool

definition ptimer_write :: "build \<Rightarrow> ProbeTimer \<Rightarrow> ProbeTimer" where
  "ptimer_write b s =
     (let s = (if bt_ptimer_set_session_id s \<noteq> bt_ptimer_prev_session_id s then
                 s\<lparr>bt_probe_timer_table := (bt_probe_timer_table s)
                     (bt_ptimer_set_session_id s := \<lparr>be_time = TIME_50ms b, be_active = True\<rparr>),
                   bt_ptimer_wait_for_write := False\<rparr>
               else s) in
      s\<lparr>bt_ptimer_prev_session_id := bt_ptimer_prev_session_id s - 1\<rparr>)"

definition ptimer_check :: "TcpSessionID \<Rightarrow> bool \<Rightarrow> ProbeTimer \<Rightarrow> ProbeTimer" where
  "ptimer_check cur to_be_clear s =
     (let entry = bt_probe_timer_table s cur in
      if be_active entry \<and> \<not> bt_ptimer_to_event_eng_set_event_full s then
        (if be_time entry = 0 \<or> to_be_clear then
           s\<lparr>bt_probe_timer_table := (bt_probe_timer_table s)
               (cur := \<lparr>be_time = 0, be_active = False\<rparr>),
             bt_ptimer_to_event_eng_set_event :=
               bt_ptimer_to_event_eng_set_event s @ [Event_basic TX cur]\<rparr>
         else
           s\<lparr>bt_probe_timer_table := (bt_probe_timer_table s)
               (cur := entry\<lparr>be_time := be_time entry - 1\<rparr>)\<rparr>)
      else s)"

definition probe_timer :: "build \<Rightarrow> ProbeTimer \<Rightarrow> ProbeTimer" where
  "probe_timer b s =
     (if bt_ptimer_wait_for_write s then ptimer_write b s
      else case bt_tx_eng_to_timer_set_ptimer s of
        sid # sids \<Rightarrow>
          s\<lparr>bt_tx_eng_to_timer_set_ptimer := sids, bt_ptimer_set_session_id := sid,
            bt_ptimer_wait_for_write := True\<rparr>
      | [] \<Rightarrow>
        (let cur = bt_ptimer_cur_check_session_id s;
             s = s\<lparr>bt_ptimer_prev_session_id := cur\<rparr> in
         case bt_rx_eng_to_timer_clear_ptimer s of
           sid # sids \<Rightarrow> ptimer_check sid True (s\<lparr>bt_rx_eng_to_timer_clear_ptimer := sids\<rparr>)
         | [] \<Rightarrow>
             ptimer_check cur False (s\<lparr>bt_ptimer_cur_check_session_id := next_session_id cur\<rparr>)))"

section \<open>Retransmit timer\<close>

record RetransmitTimerEntry =
  re_time :: "32 word"
  re_retries :: "3 word"
  re_active :: bool
  re_type :: EventType

record RetransmitTimer =
  rt_retrans_timer_table :: "TcpSessionID \<Rightarrow> RetransmitTimerEntry"
  rt_rtimer_cur_session_id :: TcpSessionID
  rt_rtimer_wait_for_write :: bool
  rt_rtimer_prev_session_id :: TcpSessionID
  rt_rx_eng_req :: RxEngToRetransTimerReq
  rt_rx_eng_to_timer_clear_rtimer :: "RxEngToRetransTimerReq stream"
  rt_tx_eng_to_timer_set_rtimer :: "TxEngToRetransTimerReq stream"
  rt_rtimer_to_event_eng_set_event :: "Event stream"
  rt_rtimer_to_event_eng_set_event_full :: bool
  rt_rtimer_to_state_table_release_state :: "TcpSessionID stream"
  rt_rtimer_to_rx_app_notification :: "AppNotificationNoTDEST stream"
  rt_rtimer_to_tx_app_notification :: "OpenConnRspNoTDEST stream"

definition rtimer_clear :: "build \<Rightarrow> RxEngToRetransTimerReq \<Rightarrow> RetransmitTimerEntry
    \<Rightarrow> RetransmitTimerEntry" where
  "rtimer_clear b req entry =
     (if \<not> rr_stop req then entry\<lparr>re_time := TIME_1s b\<rparr>
      else entry\<lparr>re_time := 0, re_active := False\<rparr>)\<lparr>re_retries := 0\<rparr>"

definition rtimer_interval :: "build \<Rightarrow> 3 word \<Rightarrow> 32 word" where
  "rtimer_interval b retries =
     (if retries = 0 then TIME_1s b else if retries = 1 then TIME_5s b
      else if retries = 2 then TIME_10s b else if retries = 3 then TIME_15s b
      else TIME_30s b)"

definition rtimer_set :: "build \<Rightarrow> EventType \<Rightarrow> RetransmitTimerEntry \<Rightarrow> RetransmitTimerEntry" where
  "rtimer_set b type entry =
     (let entry = entry\<lparr>re_type := type\<rparr>;
          entry = (if \<not> re_active entry
                   then entry\<lparr>re_time := rtimer_interval b (re_retries entry)\<rparr> else entry) in
      entry\<lparr>re_active := True\<rparr>)"

text \<open>What a visit of an entry tells the rest of the system.\<close>

datatype rtimer_outcome =
  Keep | Retry Event | OpenFailed TcpSessionID | ConnClosed TcpSessionID

definition rtimer_visit :: "TcpSessionID \<Rightarrow> bool \<Rightarrow> RetransmitTimerEntry
    \<Rightarrow> RetransmitTimerEntry \<times> rtimer_outcome" where
  "rtimer_visit sid event_full entry =
     (if re_active entry then
        (if re_time entry > 0 then (entry\<lparr>re_time := re_time entry - 1\<rparr>, Keep)
         else if \<not> event_full then
           (let entry = entry\<lparr>re_time := 0, re_active := False\<rparr> in
            if re_retries entry < TCP_MAX_RETX_ATTEMPTS then
              (let entry = entry\<lparr>re_retries := re_retries entry + 1\<rparr> in
               (entry, Retry (Event_retrans (re_type entry) sid (re_retries entry))))
            else
              (let entry = entry\<lparr>re_retries := 0\<rparr> in
               if re_type entry = SYN then (entry, OpenFailed sid) else (entry, ConnClosed sid)))
         else (entry, Keep))
      else (entry, Keep))"

definition rtimer_emit :: "rtimer_outcome \<Rightarrow> RetransmitTimer \<Rightarrow> RetransmitTimer" where
  "rtimer_emit out s =
     (case out of
        Keep \<Rightarrow> s
      | Retry rt_event \<Rightarrow>
          s\<lparr>rt_rtimer_to_event_eng_set_event := rt_rtimer_to_event_eng_set_event s @ [rt_event]\<rparr>
      | OpenFailed sid \<Rightarrow>
          s\<lparr>rt_rtimer_to_state_table_release_state :=
              rt_rtimer_to_state_table_release_state s @ [sid],
            rt_rtimer_to_tx_app_notification := rt_rtimer_to_tx_app_notification s @
              [\<lparr>oc_session_id = sid, oc_success = False\<rparr>]\<rparr>
      | ConnClosed sid \<Rightarrow>
          s\<lparr>rt_rtimer_to_state_table_release_state :=
              rt_rtimer_to_state_table_release_state s @ [sid],
            rt_rtimer_to_rx_app_notification := rt_rtimer_to_rx_app_notification s @
              [AppNotification_closed sid True]\<rparr>)"

text \<open>The cursor jumps over the neighbourhood of the session that the transmit engine sets.  The
  subtraction of the source is exact (\<open>ap_uint\<close> arithmetic grows), the increment truncates.\<close>

definition rtimer_skip :: "TcpSessionID \<Rightarrow> TcpSessionID \<Rightarrow> TcpSessionID" where
  "rtimer_skip sid cur = (if uint sid - 3 < uint cur \<and> cur \<le> sid then cur + 5 else cur)"

definition rtimer_next :: "TcpSessionID \<Rightarrow> TcpSessionID" where
  "rtimer_next cur = (if cur + 1 \<ge> 128 then 0 else cur + 1)"

definition retransmit_timer :: "build \<Rightarrow> RetransmitTimer \<Rightarrow> RetransmitTimer" where
  "retransmit_timer b s =
     (if rt_rtimer_wait_for_write s \<and> rr_session_id (rt_rx_eng_req s) \<noteq> rt_rtimer_prev_session_id s
      then
        (let sid = rr_session_id (rt_rx_eng_req s) in
         s\<lparr>rt_retrans_timer_table := (rt_retrans_timer_table s)
             (sid := rtimer_clear b (rt_rx_eng_req s) (rt_retrans_timer_table s sid)),
           rt_rtimer_wait_for_write := False\<rparr>)
      else if rt_rx_eng_to_timer_clear_rtimer s \<noteq> [] \<and> \<not> rt_rtimer_wait_for_write s then
        s\<lparr>rt_rx_eng_req := hd (rt_rx_eng_to_timer_clear_rtimer s),
          rt_rx_eng_to_timer_clear_rtimer := tl (rt_rx_eng_to_timer_clear_rtimer s),
          rt_rtimer_wait_for_write := True\<rparr>
      else case rt_tx_eng_to_timer_set_rtimer s of
        tx_eng_req # reqs \<Rightarrow>
          (let sid = tr_session_id tx_eng_req in
           s\<lparr>rt_tx_eng_to_timer_set_rtimer := reqs,
             rt_rtimer_cur_session_id := rtimer_skip sid (rt_rtimer_cur_session_id s),
             rt_retrans_timer_table := (rt_retrans_timer_table s)
               (sid := rtimer_set b (tr_type tx_eng_req) (rt_retrans_timer_table s sid)),
             rt_rtimer_prev_session_id := sid\<rparr>)
      | [] \<Rightarrow>
          (let sid = rt_rtimer_cur_session_id s;
               (entry, out) = rtimer_visit sid (rt_rtimer_to_event_eng_set_event_full s)
                 (rt_retrans_timer_table s sid) in
           rtimer_emit out
             (s\<lparr>rt_rtimer_cur_session_id := rtimer_next sid,
                rt_retrans_timer_table := (rt_retrans_timer_table s)(sid := entry),
                rt_rtimer_prev_session_id := sid\<rparr>)))"

section \<open>The wrapper\<close>

record TimerWrapper =
  tw_close_timer :: CloseTimer
  tw_retransmit_timer :: RetransmitTimer
  tw_probe_timer :: ProbeTimer
  tw_timer_to_event_eng_set_event :: "Event stream"
  tw_timer_to_sttable_release_state :: "TcpSessionID stream"

definition merge_timer_events :: "TimerWrapper \<Rightarrow> TimerWrapper" where
  "merge_timer_events s =
     (let (r, p, out) = AxiStreamMerger
            (rt_rtimer_to_event_eng_set_event (tw_retransmit_timer s))
            (bt_ptimer_to_event_eng_set_event (tw_probe_timer s))
            (tw_timer_to_event_eng_set_event s) in
      s\<lparr>tw_retransmit_timer := (tw_retransmit_timer s)\<lparr>rt_rtimer_to_event_eng_set_event := r\<rparr>,
        tw_probe_timer := (tw_probe_timer s)\<lparr>bt_ptimer_to_event_eng_set_event := p\<rparr>,
        tw_timer_to_event_eng_set_event := out\<rparr>)"

definition merge_timer_releases :: "TimerWrapper \<Rightarrow> TimerWrapper" where
  "merge_timer_releases s =
     (let (c, r, out) = AxiStreamMerger
            (ct_ctimer_to_sttable_release_state (tw_close_timer s))
            (rt_rtimer_to_state_table_release_state (tw_retransmit_timer s))
            (tw_timer_to_sttable_release_state s) in
      s\<lparr>tw_close_timer := (tw_close_timer s)\<lparr>ct_ctimer_to_sttable_release_state := c\<rparr>,
        tw_retransmit_timer :=
          (tw_retransmit_timer s)\<lparr>rt_rtimer_to_state_table_release_state := r\<rparr>,
        tw_timer_to_sttable_release_state := out\<rparr>)"

definition timer_wrapper :: "build \<Rightarrow> TimerWrapper \<Rightarrow> TimerWrapper" where
  "timer_wrapper b s =
     merge_timer_releases (merge_timer_events
       (s\<lparr>tw_close_timer := close_timer b (tw_close_timer s),
          tw_retransmit_timer := retransmit_timer b (tw_retransmit_timer s),
          tw_probe_timer := probe_timer b (tw_probe_timer s)\<rparr>))"

section \<open>The close timer on time\<close>

definition ctimer_quiet :: "CloseTimer \<Rightarrow> bool" where
  "ctimer_quiet s \<longleftrightarrow> \<not> ct_ctimer_wait_for_write s \<and> ct_rx_eng_to_timer_set_ctimer s = []
     \<and> unat (ct_ctimer_cur_session_id s) < TCP_MAX_SESSIONS"

definition ctimer_left :: "CloseTimer \<Rightarrow> nat \<Rightarrow> nat option" where
  "ctimer_left s i =
     (let e = ct_close_timer_table s (word_of_nat i) in
      if ce_active e then Some (unat (ce_time e)) else None)"

definition ctimer_expired :: "CloseTimer \<Rightarrow> nat \<Rightarrow> nat" where
  "ctimer_expired s i = count_list (ct_ctimer_to_sttable_release_state s) (word_of_nat i)"

interpretation ctimer: visit_timer "close_timer b" ctimer_quiet
  "\<lambda>s. unat (ct_ctimer_cur_session_id s)" ctimer_left ctimer_expired
  for b
proof
  fix s i
  assume q: "ctimer_quiet s"
  then have v: "close_timer b s = ctimer_visit s"
    by (simp add: ctimer_quiet_def close_timer_def)
  show "unat (ct_ctimer_cur_session_id s) < TCP_MAX_SESSIONS" using q by (simp add: ctimer_quiet_def)
  show c: "unat (ct_ctimer_cur_session_id (close_timer b s))
      = (if unat (ct_ctimer_cur_session_id s) + 1 = TCP_MAX_SESSIONS then 0
         else unat (ct_ctimer_cur_session_id s) + 1)"
    using q by (simp add: v ctimer_visit_def Let_def ctimer_quiet_def unat_next_session_id)
  show "ctimer_quiet (close_timer b s)"
    using q c by (simp add: v ctimer_visit_def Let_def ctimer_quiet_def unat_next_session_id)
  show "ctimer_left (close_timer b s) (unat (ct_ctimer_cur_session_id s))
      = (case ctimer_left s (unat (ct_ctimer_cur_session_id s)) of Some (Suc t) \<Rightarrow> Some t | _ \<Rightarrow> None)"
    by (auto simp: v ctimer_visit_def ctimer_left_def Let_def unat_minus_1 word_less_nat_alt split: nat.split)
  assume i: "i < TCP_MAX_SESSIONS"
  show "i \<noteq> unat (ct_ctimer_cur_session_id s) \<Longrightarrow> ctimer_left (close_timer b s) i = ctimer_left s i"
    using i by (simp add: v ctimer_visit_def ctimer_left_def Let_def word_of_nat_eq_session)
  show "ctimer_expired (close_timer b s) i = ctimer_expired s i
      + of_bool (i = unat (ct_ctimer_cur_session_id s) \<and> ctimer_left s i = Some 0)"
    using i by (auto simp: v ctimer_visit_def ctimer_left_def ctimer_expired_def Let_def
        word_of_nat_eq_session unat_eq_0 word_gt_0)
qed


section \<open>The probe timer\<close>

definition ptimer_quiet :: "ProbeTimer \<Rightarrow> bool" where
  "ptimer_quiet s \<longleftrightarrow> \<not> bt_ptimer_wait_for_write s \<and> bt_tx_eng_to_timer_set_ptimer s = []
     \<and> bt_rx_eng_to_timer_clear_ptimer s = [] \<and> \<not> bt_ptimer_to_event_eng_set_event_full s
     \<and> unat (bt_ptimer_cur_check_session_id s) < TCP_MAX_SESSIONS"

definition ptimer_left :: "ProbeTimer \<Rightarrow> nat \<Rightarrow> nat option" where
  "ptimer_left s i =
     (let e = bt_probe_timer_table s (word_of_nat i) in
      if be_active e then Some (unat (be_time e)) else None)"

definition ptimer_expired :: "ProbeTimer \<Rightarrow> nat \<Rightarrow> nat" where
  "ptimer_expired s i =
     count_list (bt_ptimer_to_event_eng_set_event s) (Event_basic TX (word_of_nat i))"

interpretation ptimer: visit_timer "probe_timer b" ptimer_quiet
  "\<lambda>s. unat (bt_ptimer_cur_check_session_id s)" ptimer_left ptimer_expired
  for b
proof
  fix s i
  assume q: "ptimer_quiet s"
  let ?cur = "bt_ptimer_cur_check_session_id s"
  from q have v: "probe_timer b s = ptimer_check ?cur False
      (s\<lparr>bt_ptimer_prev_session_id := ?cur, bt_ptimer_cur_check_session_id := next_session_id ?cur\<rparr>)"
    by (simp add: ptimer_quiet_def probe_timer_def Let_def)
  show "unat ?cur < TCP_MAX_SESSIONS" using q by (simp add: ptimer_quiet_def)
  show c: "unat (bt_ptimer_cur_check_session_id (probe_timer b s))
      = (if unat ?cur + 1 = TCP_MAX_SESSIONS then 0 else unat ?cur + 1)"
    using q by (simp add: v ptimer_check_def Let_def ptimer_quiet_def unat_next_session_id)
  show "ptimer_quiet (probe_timer b s)"
    using q c by (simp add: v ptimer_check_def Let_def ptimer_quiet_def unat_next_session_id)
  show "ptimer_left (probe_timer b s) (unat ?cur)
      = (case ptimer_left s (unat ?cur) of Some (Suc t) \<Rightarrow> Some t | _ \<Rightarrow> None)"
    using q by (auto simp: v ptimer_check_def ptimer_left_def ptimer_quiet_def Let_def unat_minus_1
        unat_gt_0 unat_eq_0 word_gt_0 split: nat.split)
  assume i: "i < TCP_MAX_SESSIONS"
  show "i \<noteq> unat ?cur \<Longrightarrow> ptimer_left (probe_timer b s) i = ptimer_left s i"
    using i by (simp add: v ptimer_check_def ptimer_left_def Let_def word_of_nat_eq_session)
  show "ptimer_expired (probe_timer b s) i = ptimer_expired s i
      + of_bool (i = unat ?cur \<and> ptimer_left s i = Some 0)"
    using i q by (auto simp: v ptimer_check_def ptimer_left_def ptimer_expired_def ptimer_quiet_def
        Let_def Event_basic_def word_of_nat_eq_session unat_eq_0)
qed

section \<open>The retransmit timer\<close>

definition rtimer_quiet :: "RetransmitTimer \<Rightarrow> bool" where
  "rtimer_quiet s \<longleftrightarrow> \<not> rt_rtimer_wait_for_write s \<and> rt_tx_eng_to_timer_set_rtimer s = []
     \<and> rt_rx_eng_to_timer_clear_rtimer s = [] \<and> \<not> rt_rtimer_to_event_eng_set_event_full s
     \<and> unat (rt_rtimer_cur_session_id s) < TCP_MAX_SESSIONS"

definition rtimer_left :: "RetransmitTimer \<Rightarrow> nat \<Rightarrow> nat option" where
  "rtimer_left s i =
     (let e = rt_retrans_timer_table s (word_of_nat i) in
      if re_active e then Some (unat (re_time e)) else None)"

text \<open>An expiry is either a retransmission event or the release of the session.\<close>

definition rtimer_expired :: "RetransmitTimer \<Rightarrow> nat \<Rightarrow> nat" where
  "rtimer_expired s i =
     count_list (map ev_session_id (rt_rtimer_to_event_eng_set_event s)) (word_of_nat i)
   + count_list (rt_rtimer_to_state_table_release_state s) (word_of_nat i)"

lemma unat_rtimer_next:
  "unat cur < TCP_MAX_SESSIONS
   \<Longrightarrow> unat (rtimer_next cur) = (if unat cur + 1 = TCP_MAX_SESSIONS then 0 else unat cur + 1)"
  by (auto simp: rtimer_next_def unat_word_ariths word_le_nat_alt)

interpretation rtimer: visit_timer "retransmit_timer b" rtimer_quiet
  "\<lambda>s. unat (rt_rtimer_cur_session_id s)" rtimer_left rtimer_expired
  for b
proof
  fix s i
  assume q: "rtimer_quiet s"
  let ?cur = "rt_rtimer_cur_session_id s"
  obtain entry out where e: "rtimer_visit ?cur False (rt_retrans_timer_table s ?cur) = (entry, out)"
    by fastforce
  have f: "re_active entry = (re_active (rt_retrans_timer_table s ?cur)
              \<and> 0 < re_time (rt_retrans_timer_table s ?cur))"
       "re_active entry \<Longrightarrow> re_time entry = re_time (rt_retrans_timer_table s ?cur) - 1"
       "out = Keep \<longleftrightarrow> \<not> (re_active (rt_retrans_timer_table s ?cur)
              \<and> re_time (rt_retrans_timer_table s ?cur) = 0)"
       "\<And>ev. out = Retry ev \<Longrightarrow> ev_session_id ev = ?cur"
       "\<And>sid. out = OpenFailed sid \<or> out = ConnClosed sid \<Longrightarrow> sid = ?cur"
    using e by (auto simp: rtimer_visit_def Let_def Event_retrans_def word_gt_0 split: if_splits)
  let ?s = "s\<lparr>rt_rtimer_cur_session_id := rtimer_next ?cur,
                rt_retrans_timer_table := (rt_retrans_timer_table s)(?cur := entry),
                rt_rtimer_prev_session_id := ?cur\<rparr>"
  from q have v: "retransmit_timer b s = rtimer_emit out ?s"
    by (simp add: rtimer_quiet_def retransmit_timer_def Let_def e)
  have em: "rt_rtimer_cur_session_id (rtimer_emit out t) = rt_rtimer_cur_session_id t"
      "rtimer_left (rtimer_emit out t) = rtimer_left t"
      "rtimer_quiet (rtimer_emit out t) = rtimer_quiet t" for t
    by (simp_all add: rtimer_emit_def rtimer_left_def rtimer_quiet_def fun_eq_iff split: rtimer_outcome.split)
  show "unat ?cur < TCP_MAX_SESSIONS" using q by (simp add: rtimer_quiet_def)
  then show c: "unat (rt_rtimer_cur_session_id (retransmit_timer b s))
      = (if unat ?cur + 1 = TCP_MAX_SESSIONS then 0 else unat ?cur + 1)"
    by (simp add: v em unat_rtimer_next)
  show "rtimer_quiet (retransmit_timer b s)"
    using q c unfolding v em by (simp add: rtimer_quiet_def unat_rtimer_next)
  show "rtimer_left (retransmit_timer b s) (unat ?cur)
      = (case rtimer_left s (unat ?cur) of Some (Suc t) \<Rightarrow> Some t | _ \<Rightarrow> None)"
    unfolding v em using f(1,2)
    by (auto simp: rtimer_left_def Let_def unat_minus_1 unat_eq_0 word_gt_0 split: nat.split)
  assume i: "i < TCP_MAX_SESSIONS"
  show "i \<noteq> unat ?cur \<Longrightarrow> rtimer_left (retransmit_timer b s) i = rtimer_left s i"
    unfolding v em using i by (simp add: rtimer_left_def Let_def word_of_nat_eq_session)
  show "rtimer_expired (retransmit_timer b s) i = rtimer_expired s i
      + of_bool (i = unat ?cur \<and> rtimer_left s i = Some 0)"
    unfolding v using i f(3,4,5)
    by (cases out) (auto simp: rtimer_emit_def rtimer_expired_def rtimer_left_def Let_def
        word_of_nat_eq_session unat_eq_0 AppNotification_closed_def)
qed


section \<open>Properties\<close>

text \<open>While no request interrupts it, the close timer releases a session in TIME-WAIT exactly
  once, in the cycle in which the cursor passes it for the \<open>time + 1\<close>st time; before that the
  session stays armed.\<close>

theorem close_timer_releases_on_time:
  assumes "ctimer_quiet s" and "unat sid < TCP_MAX_SESSIONS"
    and "ce_active (ct_close_timer_table s sid)"
  shows "count_list (ct_ctimer_to_sttable_release_state ((close_timer b ^^ n) s)) sid
       = count_list (ct_ctimer_to_sttable_release_state s) sid
         + of_bool (visits_until (unat (ct_ctimer_cur_session_id s)) (unat sid)
             (unat (ce_time (ct_close_timer_table s sid))) < n)"
  using ctimer.expires_exactly [OF assms(1,2), of "unat (ce_time (ct_close_timer_table s sid))" n b]
    assms(3) by (simp add: ctimer_left_def ctimer_expired_def Let_def)

definition close_timer_demo :: CloseTimer where
  "close_timer_demo =
     \<lparr>ct_close_timer_table = (\<lambda>_. \<lparr>ce_time = 0, ce_active = False\<rparr>)(5 := \<lparr>ce_time = 60, ce_active = True\<rparr>),
      ct_ctimer_cur_session_id = 7, ct_ctimer_set_session_id = 0, ct_ctimer_prev_session_id = 0,
      ct_ctimer_wait_for_write = False, ct_rx_eng_to_timer_set_ctimer = [],
      ct_ctimer_to_sttable_release_state = []\<rparr>"

theorem close_timer_releases_on_time_witness:
  "count_list (ct_ctimer_to_sttable_release_state ((close_timer Simulation ^^ 7806) close_timer_demo)) 5 = 0
   \<and> count_list (ct_ctimer_to_sttable_release_state ((close_timer Simulation ^^ 7807) close_timer_demo)) 5 = 1"
  using close_timer_releases_on_time [of close_timer_demo 5 7806 Simulation]
    close_timer_releases_on_time [of close_timer_demo 5 7807 Simulation]
  by (simp add: close_timer_demo_def ctimer_quiet_def visits_until_def timer_distance_def)

text \<open>A request to arm the close timer is carried out within two cycles after it was read,
  whatever the state of the interlock between the cursor and the write, and no other entry is
  touched.\<close>

theorem close_timer_set_served:
  assumes "ct_ctimer_wait_for_write s"
  shows "\<exists>k \<in> {1, 2}. ct_close_timer_table ((close_timer b ^^ k) s)
       = (ct_close_timer_table s)(ct_ctimer_set_session_id s := \<lparr>ce_time = TIME_60s b, ce_active = True\<rparr>)
     \<and> \<not> ct_ctimer_wait_for_write ((close_timer b ^^ k) s)"
  using assms
  by (cases "ct_ctimer_set_session_id s = ct_ctimer_prev_session_id s")
    (auto simp: close_timer_def ctimer_write_def Let_def numeral_2_eq_2)

theorem close_timer_set_served_witness:
  "\<exists>k \<in> {1, 2}. \<not> ct_ctimer_wait_for_write ((close_timer Synthesis ^^ k)
      (close_timer_demo\<lparr>ct_ctimer_wait_for_write := True, ct_ctimer_set_session_id := 9\<rparr>))"
  using close_timer_set_served
    [of "close_timer_demo\<lparr>ct_ctimer_wait_for_write := True, ct_ctimer_set_session_id := 9\<rparr>" Synthesis]
  by auto

text \<open>One round of a session under the retransmit timer: the transmit engine arms it, the counter
  runs out.\<close>

definition rtimer_round :: "build \<Rightarrow> EventType \<Rightarrow> TcpSessionID \<Rightarrow> RetransmitTimerEntry
    \<Rightarrow> RetransmitTimerEntry \<times> rtimer_outcome" where
  "rtimer_round b type sid entry =
     rtimer_visit sid False ((rtimer_set b type entry)\<lparr>re_time := 0\<rparr>)"

fun rtimer_rounds :: "nat \<Rightarrow> build \<Rightarrow> EventType \<Rightarrow> TcpSessionID \<Rightarrow> RetransmitTimerEntry
    \<Rightarrow> rtimer_outcome list" where
  "rtimer_rounds 0 b type sid entry = []"
| "rtimer_rounds (Suc n) b type sid entry =
     (let (entry, out) = rtimer_round b type sid entry in out # rtimer_rounds n b type sid entry)"

lemma rtimer_round_simps:
  "rtimer_round b type sid entry =
     (if re_retries entry < 4
      then (entry\<lparr>re_time := 0, re_active := False, re_type := type, re_retries := re_retries entry + 1\<rparr>,
            Retry (Event_retrans type sid (re_retries entry + 1)))
      else (entry\<lparr>re_time := 0, re_active := False, re_type := type, re_retries := 0\<rparr>,
            if type = SYN then OpenFailed sid else ConnClosed sid))"
  by (simp add: rtimer_round_def rtimer_visit_def rtimer_set_def Let_def)

text \<open>A session that nobody acknowledges is retried four times, the events carrying the counts
  1 to 4, and given up at the fifth timeout: a failed open is reported to the transmit
  application, a broken connection to the receive application.\<close>

theorem retransmit_gives_up_after_four:
  assumes "re_retries entry = 0"
  shows "rtimer_rounds 5 b type sid entry =
     map (\<lambda>k. Retry (Event_retrans type sid k)) [1, 2, 3, 4]
     @ [if type = SYN then OpenFailed sid else ConnClosed sid]"
proof -
  have "rtimer_rounds (Suc (Suc (Suc (Suc (Suc 0))))) b type sid entry =
     map (\<lambda>k. Retry (Event_retrans type sid k)) [1, 2, 3, 4]
     @ [if type = SYN then OpenFailed sid else ConnClosed sid]"
    using assms by (simp add: rtimer_round_simps)
  then show ?thesis by (simp only: eval_nat_numeral BitM.simps pred_numeral_simps)
qed

theorem retransmit_gives_up_after_four_witness:
  "rtimer_rounds 5 Synthesis SYN 3 \<lparr>re_time = 0, re_retries = 0, re_active = False, re_type = TX\<rparr> =
     [Retry (Event_retrans SYN 3 1), Retry (Event_retrans SYN 3 2), Retry (Event_retrans SYN 3 3),
      Retry (Event_retrans SYN 3 4), OpenFailed 3]"
  using retransmit_gives_up_after_four
    [of "\<lparr>re_time = 0, re_retries = 0, re_active = False, re_type = TX\<rparr>" Synthesis SYN 3]
  by simp

text \<open>C34: While no request interrupts it, an armed retransmit entry expires exactly once, when the
  cursor passes it for the \<open>time + 1\<close>st time: it yields one retransmission event or one release.\<close>

theorem retransmit_expires_on_time:
  assumes "rtimer_quiet s" and "unat sid < TCP_MAX_SESSIONS"
    and "re_active (rt_retrans_timer_table s sid)"
  shows "rtimer_expired ((retransmit_timer b ^^ n) s) (unat sid)
       = rtimer_expired s (unat sid)
         + of_bool (visits_until (unat (rt_rtimer_cur_session_id s)) (unat sid)
             (unat (re_time (rt_retrans_timer_table s sid))) < n)"
  using rtimer.expires_exactly [OF assms(1,2), of "unat (re_time (rt_retrans_timer_table s sid))" n b]
    assms(3) by (simp add: rtimer_left_def Let_def)

definition retransmit_demo :: RetransmitTimer where
  "retransmit_demo =
     \<lparr>rt_retrans_timer_table =
        (\<lambda>_. \<lparr>re_time = 0, re_retries = 0, re_active = False, re_type = TX\<rparr>)
          (127 := \<lparr>re_time = 15, re_retries = 4, re_active = True, re_type = FIN\<rparr>),
      rt_rtimer_cur_session_id = 126, rt_rtimer_wait_for_write = False,
      rt_rtimer_prev_session_id = 0, rt_rx_eng_req = \<lparr>rr_session_id = 0, rr_stop = False\<rparr>,
      rt_rx_eng_to_timer_clear_rtimer = [], rt_tx_eng_to_timer_set_rtimer = [],
      rt_rtimer_to_event_eng_set_event = [], rt_rtimer_to_event_eng_set_event_full = False,
      rt_rtimer_to_state_table_release_state = [], rt_rtimer_to_rx_app_notification = [],
      rt_rtimer_to_tx_app_notification = []\<rparr>"

theorem retransmit_expires_on_time_witness:
  "rtimer_expired ((retransmit_timer Simulation ^^ 1921) retransmit_demo) 127 = 0
   \<and> rtimer_expired ((retransmit_timer Simulation ^^ 1922) retransmit_demo) 127 = 1"
  using retransmit_expires_on_time [of retransmit_demo 127 1921 Simulation]
    retransmit_expires_on_time [of retransmit_demo 127 1922 Simulation]
  by (simp add: retransmit_demo_def rtimer_quiet_def visits_until_def timer_distance_def
      rtimer_expired_def)

text \<open>Arming a session within three entries above the cursor moves the cursor on by five without
  a bound check.  For the last sessions it leaves the table: the next free cycle reads and writes
  an entry beyond \<open>TCP_MAX_SESSIONS\<close>.\<close>

theorem retransmit_cursor_leaves_table:
  assumes "125 \<le> unat (rt_rtimer_cur_session_id s)" and "unat (rt_rtimer_cur_session_id s) \<le> 127"
    and "\<not> rt_rtimer_wait_for_write s" and "rt_rx_eng_to_timer_clear_rtimer s = []"
    and "rt_tx_eng_to_timer_set_rtimer s = [\<lparr>tr_session_id = 127, tr_type = type\<rparr>]"
  shows "unat (rt_rtimer_cur_session_id (retransmit_timer b s)) \<ge> TCP_MAX_SESSIONS
       \<and> rt_rtimer_prev_session_id ((retransmit_timer b ^^ 2) s)
         = rt_rtimer_cur_session_id (retransmit_timer b s)"
proof -
  let ?c = "rt_rtimer_cur_session_id s"
  have c: "?c = 125 \<or> ?c = 126 \<or> ?c = 127"
    using assms(1,2) by (auto simp: word_unat_eq_iff)
  have skip: "rt_rtimer_cur_session_id (retransmit_timer b s) = ?c + 5"
    using assms c by (auto simp: retransmit_timer_def Let_def rtimer_skip_def)
  have q: "rt_rx_eng_to_timer_clear_rtimer (retransmit_timer b s) = []"
      "rt_tx_eng_to_timer_set_rtimer (retransmit_timer b s) = []"
      "\<not> rt_rtimer_wait_for_write (retransmit_timer b s)"
    using assms(3-5) by (simp_all add: retransmit_timer_def Let_def)
  have "rt_rtimer_prev_session_id (retransmit_timer b (retransmit_timer b s))
      = rt_rtimer_cur_session_id (retransmit_timer b s)"
    using q by (subst retransmit_timer_def)
      (simp add: Let_def rtimer_emit_def split: prod.split rtimer_outcome.split)
  moreover have "unat (?c + 5) \<ge> TCP_MAX_SESSIONS" using c by auto
  ultimately show ?thesis using skip by (simp add: numeral_2_eq_2)
qed

theorem retransmit_cursor_leaves_table_witness:
  "unat (rt_rtimer_cur_session_id (retransmit_timer Synthesis
     (retransmit_demo\<lparr>rt_tx_eng_to_timer_set_rtimer := [\<lparr>tr_session_id = 127, tr_type = RT\<rparr>]\<rparr>)))
   \<ge> TCP_MAX_SESSIONS"
  using retransmit_cursor_leaves_table
    [of "retransmit_demo\<lparr>rt_tx_eng_to_timer_set_rtimer := [\<lparr>tr_session_id = 127, tr_type = RT\<rparr>]\<rparr>"
      RT Synthesis]
  by (simp add: retransmit_demo_def)

end
