(* ===== verification/Event_Path.thy ===== *)
theory Event_Path
  imports Round_Robin
begin

text \<open>
  The way of an event to the transmit engine: \<open>event_engine/event_engine.cpp\<close> arbitrates between
  the sources, \<open>ack_delay/ack_delay.cpp\<close> holds back acknowledgments.  The two count the events
  that pass (8 bit counters fed through one-bit FIFOs), so that timers and the transmit
  application are only served while no event is in flight.  The record joins the two processes
  and the streams between them.
\<close>

record EventPath =
  ep_eveng_write_event_count :: "8 word"
  ep_eveng_ack_delay_read_count :: "8 word"
  ep_eveng_ack_delay_write_count :: "8 word"
  ep_eveng_tx_eng_read_count :: "8 word"
  ep_ack_table :: "TcpSessionID \<Rightarrow> 12 word"
  ep_ack_delay_cur_session_id :: TcpSessionID
  ep_tx_app_to_event_eng_set_event :: "Event stream"
  ep_rx_eng_to_event_eng_set_event :: "EventWithTuple stream"
  ep_timer_to_event_eng_set_event :: "Event stream"
  ep_event_eng_to_ack_delay_event :: "EventWithTuple stream"
  ep_ack_delay_to_tx_eng_event :: "EventWithTuple stream"
  ep_ack_delay_to_tx_eng_event_full :: bool
  ep_ack_delay_read_count_fifo :: "unit stream"
  ep_ack_delay_write_count_fifo :: "unit stream"
  ep_tx_eng_read_count_fifo :: "unit stream"

section \<open>Event engine\<close>

definition forward_event :: "EventWithTuple \<Rightarrow> EventPath \<Rightarrow> EventPath" where
  "forward_event cur_event s =
     s\<lparr>ep_event_eng_to_ack_delay_event := ep_event_eng_to_ack_delay_event s @ [cur_event],
       ep_eveng_write_event_count := ep_eveng_write_event_count s + 1\<rparr>"

definition arbitrate_events :: "EventPath \<Rightarrow> EventPath" where
  "arbitrate_events s =
     (case ep_rx_eng_to_event_eng_set_event s of
        ev # evs \<Rightarrow> forward_event ev (s\<lparr>ep_rx_eng_to_event_eng_set_event := evs\<rparr>)
      | [] \<Rightarrow>
        (if ep_eveng_write_event_count s = ep_eveng_ack_delay_read_count s
            \<and> ep_eveng_ack_delay_write_count s = ep_eveng_tx_eng_read_count s
         then case ep_timer_to_event_eng_set_event s of
             ev # evs \<Rightarrow> forward_event (EventWithTuple_of_event ev)
                           (s\<lparr>ep_timer_to_event_eng_set_event := evs\<rparr>)
           | [] \<Rightarrow>
             (case ep_tx_app_to_event_eng_set_event s of
                ev # evs \<Rightarrow> forward_event (EventWithTuple_of_event ev)
                              (s\<lparr>ep_tx_app_to_event_eng_set_event := evs\<rparr>)
              | [] \<Rightarrow> s)
         else s))"

definition count_events :: "EventPath \<Rightarrow> EventPath" where
  "count_events s =
     (let s = (case ep_ack_delay_read_count_fifo s of
                 _ # xs \<Rightarrow> s\<lparr>ep_ack_delay_read_count_fifo := xs,
                   ep_eveng_ack_delay_read_count := ep_eveng_ack_delay_read_count s + 1\<rparr>
               | [] \<Rightarrow> s);
          s = (case ep_ack_delay_write_count_fifo s of
                 _ # xs \<Rightarrow> s\<lparr>ep_ack_delay_write_count_fifo := xs,
                   ep_eveng_ack_delay_write_count := ep_eveng_ack_delay_write_count s + 1\<rparr>
               | [] \<Rightarrow> s)
      in case ep_tx_eng_read_count_fifo s of
           _ # xs \<Rightarrow> s\<lparr>ep_tx_eng_read_count_fifo := xs,
             ep_eveng_tx_eng_read_count := ep_eveng_tx_eng_read_count s + 1\<rparr>
         | [] \<Rightarrow> s)"

definition event_engine :: "EventPath \<Rightarrow> EventPath" where
  "event_engine s = count_events (arbitrate_events s)"

section \<open>Ack delay\<close>

text \<open>The counters of \<open>ack_table\<close> have 12 bits, so \<open>TIME_64us\<close> is truncated to that width.\<close>

definition send_event :: "EventWithTuple \<Rightarrow> EventPath \<Rightarrow> EventPath" where
  "send_event event s =
     s\<lparr>ep_ack_delay_to_tx_eng_event := ep_ack_delay_to_tx_eng_event s @ [event],
       ep_ack_delay_write_count_fifo := ep_ack_delay_write_count_fifo s @ [()]\<rparr>"

definition ack_delay_event :: "build \<Rightarrow> EventWithTuple \<Rightarrow> EventPath \<Rightarrow> EventPath" where
  "ack_delay_event b event s =
     (let sid = ev_session_id event;
          s = s\<lparr>ep_ack_delay_read_count_fifo := ep_ack_delay_read_count_fifo s @ [()]\<rparr> in
      if ev_type event = ACK \<and> ep_ack_table s sid = 0
      then s\<lparr>ep_ack_table := (ep_ack_table s)(sid := ucast (TIME_64us b))\<rparr>
      else send_event event (s\<lparr>ep_ack_table := (ep_ack_table s)(sid := 0)\<rparr>))"

definition ack_delay_visit :: "EventPath \<Rightarrow> EventPath" where
  "ack_delay_visit s =
     (let cur = ep_ack_delay_cur_session_id s;
          s = (if ep_ack_table s cur > 0 \<and> \<not> ep_ack_delay_to_tx_eng_event_full s then
                 (let s = (if ep_ack_table s cur = 1
                           then send_event (EventWithTuple_of_event (Event_basic ACK cur)) s
                           else s) in
                  s\<lparr>ep_ack_table := (ep_ack_table s)(cur := ep_ack_table s cur - 1)\<rparr>)
               else s) in
      s\<lparr>ep_ack_delay_cur_session_id := next_session_id cur\<rparr>)"

definition ack_delay :: "build \<Rightarrow> EventPath \<Rightarrow> EventPath" where
  "ack_delay b s =
     (case ep_event_eng_to_ack_delay_event s of
        event # events \<Rightarrow>
          ack_delay_event b event (s\<lparr>ep_event_eng_to_ack_delay_event := events\<rparr>)
      | [] \<Rightarrow> ack_delay_visit s)"

section \<open>Delayed acknowledgments\<close>

definition ack_quiet :: "EventPath \<Rightarrow> bool" where
  "ack_quiet s \<longleftrightarrow> ep_event_eng_to_ack_delay_event s = [] \<and> \<not> ep_ack_delay_to_tx_eng_event_full s
     \<and> unat (ep_ack_delay_cur_session_id s) < TCP_MAX_SESSIONS"

definition ack_left :: "EventPath \<Rightarrow> nat \<Rightarrow> nat option" where
  "ack_left s i =
     (let v = unat (ep_ack_table s (word_of_nat i)) in if 0 < v then Some (v - 1) else None)"

text \<open>The acknowledgment that a timeout produces.\<close>

definition timeout_ack :: "TcpSessionID \<Rightarrow> EventWithTuple" where
  "timeout_ack sid = EventWithTuple_of_event (Event_basic ACK sid)"

lemma timeout_ack_inj [simp]: "timeout_ack a = timeout_ack b \<longleftrightarrow> a = b"
proof -
  have "ev_session_id (timeout_ack a) = a" for a
    by (simp add: timeout_ack_def EventWithTuple_of_event_def Event_basic_def)
  then show ?thesis by metis
qed

definition acks_sent :: "EventPath \<Rightarrow> nat \<Rightarrow> nat" where
  "acks_sent s i = count_list (ep_ack_delay_to_tx_eng_event s) (timeout_ack (word_of_nat i))"

lemma unat_eq_1_iff: "unat w = Suc 0 \<longleftrightarrow> w = (1 :: 12 word)"
  by (simp add: word_unat_eq_iff)

interpretation ack_timer: visit_timer "ack_delay b" ack_quiet
  "\<lambda>s. unat (ep_ack_delay_cur_session_id s)" ack_left acks_sent
  for b
proof
  fix s i
  assume q: "ack_quiet s"
  let ?cur = "ep_ack_delay_cur_session_id s"
  from q have v: "ack_delay b s = ack_delay_visit s"
    by (simp add: ack_quiet_def ack_delay_def)
  show "unat ?cur < TCP_MAX_SESSIONS" using q by (simp add: ack_quiet_def)
  then show c: "unat (ep_ack_delay_cur_session_id (ack_delay b s))
      = (if unat ?cur + 1 = TCP_MAX_SESSIONS then 0 else unat ?cur + 1)"
    by (simp add: v ack_delay_visit_def send_event_def Let_def unat_next_session_id)
  show "ack_quiet (ack_delay b s)"
    using q c by (simp add: v ack_delay_visit_def send_event_def Let_def ack_quiet_def unat_next_session_id)
  show "ack_left (ack_delay b s) (unat ?cur)
      = (case ack_left s (unat ?cur) of Some (Suc t) \<Rightarrow> Some t | _ \<Rightarrow> None)"
    using q by (auto simp: v ack_delay_visit_def send_event_def ack_left_def ack_quiet_def Let_def
        unat_minus_1 word_less_nat_alt split: nat.split)
  assume i: "i < TCP_MAX_SESSIONS"
  show "i \<noteq> unat ?cur \<Longrightarrow> ack_left (ack_delay b s) i = ack_left s i"
    using i by (simp add: v ack_delay_visit_def send_event_def ack_left_def Let_def word_of_nat_eq_session)
  show "acks_sent (ack_delay b s) i = acks_sent s i
      + of_bool (i = unat ?cur \<and> ack_left s i = Some 0)"
    using i q by (auto simp: v ack_delay_visit_def send_event_def ack_left_def acks_sent_def ack_quiet_def Let_def
       timeout_ack_def [symmetric] word_of_nat_eq_session word_less_nat_alt unat_eq_1_iff le_Suc_eq)
qed


text \<open>A delayed acknowledgment is sent exactly once, in the cycle in which the cursor has passed
  the session as often as its counter says, if no other event intervenes and the way to the
  transmit engine is open.\<close>

theorem delayed_ack_sent_on_time:
  assumes "ack_quiet s" and "unat sid < TCP_MAX_SESSIONS" and "0 < ep_ack_table s sid"
  shows "count_list (ep_ack_delay_to_tx_eng_event ((ack_delay b ^^ n) s)) (timeout_ack sid)
       = count_list (ep_ack_delay_to_tx_eng_event s) (timeout_ack sid)
         + of_bool (visits_until (unat (ep_ack_delay_cur_session_id s)) (unat sid)
             (unat (ep_ack_table s sid) - 1) < n)"
  using ack_timer.expires_exactly [OF assms(1,2), of "unat (ep_ack_table s sid) - 1" n b] assms(3)
  by (simp add: ack_left_def acks_sent_def Let_def word_less_nat_alt)

text \<open>A pending acknowledgment is never dropped silently: when the counter of a session goes to
  0, an event of that session is handed to the transmit engine in the same cycle.\<close>

theorem pending_ack_not_lost:
  assumes "ep_ack_table s sid \<noteq> 0" and "ep_ack_table (ack_delay b s) sid = 0"
  shows "\<exists>ev. ep_ack_delay_to_tx_eng_event (ack_delay b s) = ep_ack_delay_to_tx_eng_event s @ [ev]
       \<and> ev_session_id ev = sid"
proof (cases "ep_event_eng_to_ack_delay_event s")
  case Nil
  then show ?thesis
    using assms
    by (auto simp: ack_delay_def ack_delay_visit_def send_event_def Let_def EventWithTuple_of_event_def
        Event_basic_def split: if_splits)
next
  case (Cons ev evs)
  then show ?thesis
    using assms by (auto simp: ack_delay_def ack_delay_event_def send_event_def Let_def split: if_splits)
qed

section \<open>Credits\<close>

definition event_path :: "build \<Rightarrow> EventPath \<Rightarrow> EventPath" where
  "event_path b s = ack_delay b (event_engine s)"

text \<open>The rest of the system: sources append events, the transmit engine takes \<open>k\<close> events and
  acknowledges each in \<open>tx_eng_read_count_fifo\<close>.\<close>

definition event_path_env :: "EventPath \<Rightarrow> EventPath \<Rightarrow> bool" where
  "event_path_env s t \<longleftrightarrow>
     ep_eveng_write_event_count t = ep_eveng_write_event_count s
   \<and> ep_eveng_ack_delay_read_count t = ep_eveng_ack_delay_read_count s
   \<and> ep_eveng_ack_delay_write_count t = ep_eveng_ack_delay_write_count s
   \<and> ep_eveng_tx_eng_read_count t = ep_eveng_tx_eng_read_count s
   \<and> ep_ack_table t = ep_ack_table s
   \<and> ep_ack_delay_cur_session_id t = ep_ack_delay_cur_session_id s
   \<and> ep_event_eng_to_ack_delay_event t = ep_event_eng_to_ack_delay_event s
   \<and> ep_ack_delay_read_count_fifo t = ep_ack_delay_read_count_fifo s
   \<and> ep_ack_delay_write_count_fifo t = ep_ack_delay_write_count_fifo s
   \<and> (\<exists>taken. ep_ack_delay_to_tx_eng_event s = taken @ ep_ack_delay_to_tx_eng_event t
        \<and> ep_tx_eng_read_count_fifo t = ep_tx_eng_read_count_fifo s @ map (\<lambda>_. ()) taken)"

definition event_path_init :: EventPath where
  "event_path_init =
     \<lparr>ep_eveng_write_event_count = 0, ep_eveng_ack_delay_read_count = 0,
      ep_eveng_ack_delay_write_count = 0, ep_eveng_tx_eng_read_count = 0,
      ep_ack_table = (\<lambda>_. 0), ep_ack_delay_cur_session_id = 0,
      ep_tx_app_to_event_eng_set_event = [], ep_rx_eng_to_event_eng_set_event = [],
      ep_timer_to_event_eng_set_event = [], ep_event_eng_to_ack_delay_event = [],
      ep_ack_delay_to_tx_eng_event = [], ep_ack_delay_to_tx_eng_event_full = False,
      ep_ack_delay_read_count_fifo = [], ep_ack_delay_write_count_fifo = [],
      ep_tx_eng_read_count_fifo = []\<rparr>"

abbreviation event_path_reaches :: "build \<Rightarrow> EventPath \<Rightarrow> bool" where
  "event_path_reaches b \<equiv> reaches (\<lambda>s. s = event_path_init) event_path_env (event_path b)"

definition credits :: "EventPath \<Rightarrow> bool" where
  "credits s \<longleftrightarrow>
     ep_eveng_write_event_count s = ep_eveng_ack_delay_read_count s
       + word_of_nat (length (ep_ack_delay_read_count_fifo s) + length (ep_event_eng_to_ack_delay_event s))
   \<and> ep_eveng_ack_delay_write_count s + word_of_nat (length (ep_ack_delay_write_count_fifo s))
     = ep_eveng_tx_eng_read_count s
       + word_of_nat (length (ep_tx_eng_read_count_fifo s) + length (ep_ack_delay_to_tx_eng_event s))"

lemma credits_event_engine: "credits s \<Longrightarrow> credits (event_engine s)"
  by (auto simp: credits_def event_engine_def count_events_def arbitrate_events_def forward_event_def
      Let_def algebra_simps split: list.split)

lemma credits_ack_delay: "credits s \<Longrightarrow> credits (ack_delay b s)"
  by (auto simp: credits_def ack_delay_def ack_delay_event_def ack_delay_visit_def send_event_def
      Let_def algebra_simps split: list.split)

definition credit_lag :: "EventPath \<Rightarrow> bool" where
  "credit_lag s \<longleftrightarrow> length (ep_ack_delay_read_count_fifo s) \<le> 1
     \<and> length (ep_ack_delay_write_count_fifo s) \<le> 1"

lemma credit_lag_cycle: "credit_lag s \<Longrightarrow> credit_lag (event_path b s)"
proof -
  assume l: "credit_lag s"
  have "ep_ack_delay_read_count_fifo (event_engine s) = tl (ep_ack_delay_read_count_fifo s)"
       "ep_ack_delay_write_count_fifo (event_engine s) = tl (ep_ack_delay_write_count_fifo s)"
    by (simp_all add: event_engine_def count_events_def arbitrate_events_def forward_event_def
        Let_def split: list.split)
  with l have e: "ep_ack_delay_read_count_fifo (event_engine s) = []"
      "ep_ack_delay_write_count_fifo (event_engine s) = []"
    by (auto simp: credit_lag_def le_Suc_eq length_Suc_conv)
  show ?thesis
    using e by (simp add: credit_lag_def event_path_def ack_delay_def ack_delay_event_def
        ack_delay_visit_def send_event_def Let_def split: list.split)
qed

interpretation event_path_process: hls_process
  "\<lambda>s. s = event_path_init" event_path_env "event_path b" "\<lambda>s. credits s \<and> credit_lag s"
  for b
proof
  fix s t
  show "s = event_path_init \<Longrightarrow> credits s \<and> credit_lag s"
    by (simp add: event_path_init_def credits_def credit_lag_def)
  show "credits s \<and> credit_lag s \<Longrightarrow> event_path_env s t \<Longrightarrow> credits t \<and> credit_lag t"
    by (auto simp: event_path_env_def credits_def credit_lag_def algebra_simps)
  show "credits s \<and> credit_lag s \<Longrightarrow> credits (event_path b s) \<and> credit_lag (event_path b s)"
    by (simp add: credit_lag_cycle) (simp add: event_path_def credits_event_engine credits_ack_delay)
qed

lemma of_nat_8_inj:
  "m < 256 \<Longrightarrow> n < 256 \<Longrightarrow> (word_of_nat m :: 8 word) = word_of_nat n \<Longrightarrow> m = n"
  by (drule arg_cong [where f = unat]) (simp add: unat_of_nat)

text \<open>The throttle of the event engine: in every state reached from power-up whose FIFOs hold
  fewer than 256 entries, a timer or application event is taken only when no event waits for the
  ack delay and at most one waits for the transmit engine.\<close>

theorem low_priority_events_throttled:
  assumes "event_path_reaches b s"
    and "length (ep_ack_delay_read_count_fifo s) + length (ep_event_eng_to_ack_delay_event s) < 256"
    and "length (ep_tx_eng_read_count_fifo s) + length (ep_ack_delay_to_tx_eng_event s) < 256"
    and "ep_timer_to_event_eng_set_event (event_engine s) \<noteq> ep_timer_to_event_eng_set_event s
       \<or> ep_tx_app_to_event_eng_set_event (event_engine s) \<noteq> ep_tx_app_to_event_eng_set_event s"
  shows "ep_event_eng_to_ack_delay_event s = [] \<and> length (ep_ack_delay_to_tx_eng_event s) \<le> 1"
proof -
  have inv: "credits s" "credit_lag s" using event_path_process.reaches_inv [OF assms(1)] by simp_all
  have eq: "ep_eveng_write_event_count s = ep_eveng_ack_delay_read_count s"
      "ep_eveng_ack_delay_write_count s = ep_eveng_tx_eng_read_count s"
    using assms(4) by (auto simp: event_engine_def count_events_def arbitrate_events_def
        forward_event_def Let_def split: list.splits if_splits)
  have "(word_of_nat (length (ep_ack_delay_read_count_fifo s)
        + length (ep_event_eng_to_ack_delay_event s)) :: 8 word) = 0"
    using inv(1) eq(1) by (simp add: credits_def)
  then have "ep_event_eng_to_ack_delay_event s = []"
    using of_nat_8_inj [OF assms(2), of 0] by simp
  moreover have "(word_of_nat (length (ep_ack_delay_write_count_fifo s)) :: 8 word)
      = word_of_nat (length (ep_tx_eng_read_count_fifo s) + length (ep_ack_delay_to_tx_eng_event s))"
    using inv(1) eq(2) by (simp add: credits_def)
  then have "length (ep_ack_delay_write_count_fifo s)
      = length (ep_tx_eng_read_count_fifo s) + length (ep_ack_delay_to_tx_eng_event s)"
    using of_nat_8_inj [OF _ assms(3)] inv(2) by (simp add: credit_lag_def)
  ultimately show ?thesis using inv(2) by (simp add: credit_lag_def)
qed

theorem delayed_ack_sent_on_time_witness:
  "count_list (ep_ack_delay_to_tx_eng_event ((ack_delay Synthesis ^^ 20613)
     (event_path_init\<lparr>ep_ack_table := (\<lambda>_. 0)(4 := 162)\<rparr>))) (timeout_ack 4) = 1"
  using delayed_ack_sent_on_time [of "event_path_init\<lparr>ep_ack_table := (\<lambda>_. 0)(4 := 162)\<rparr>" 4 20613 Synthesis]
  by (simp add: event_path_init_def ack_quiet_def visits_until_def timer_distance_def)

definition ack_clear_demo :: EventPath where
  "ack_clear_demo = event_path_init\<lparr>ep_ack_table := (\<lambda>_. 0)(4 := 162),
     ep_event_eng_to_ack_delay_event := [EventWithTuple_of_event (Event_data TX 4 0 100)]\<rparr>"

theorem pending_ack_not_lost_witness:
  "\<exists>ev. ep_ack_delay_to_tx_eng_event (ack_delay Simulation ack_clear_demo) = [ev] \<and> ev_session_id ev = 4"
  using pending_ack_not_lost [of ack_clear_demo 4 Simulation]
  by (simp add: ack_clear_demo_def event_path_init_def ack_delay_def ack_delay_event_def
      send_event_def EventWithTuple_of_event_def Event_data_def Let_def)

definition throttle_demo :: EventPath where
  "throttle_demo = event_path_init\<lparr>ep_timer_to_event_eng_set_event := [Event_basic RT 3]\<rparr>"

theorem low_priority_events_throttled_witness:
  "ep_timer_to_event_eng_set_event (event_engine throttle_demo) = []
   \<and> ep_event_eng_to_ack_delay_event throttle_demo = []"
proof -
  have r: "event_path_reaches Simulation throttle_demo"
    unfolding throttle_demo_def
    by (rule reaches_env [OF reaches_ini]) (auto simp: event_path_env_def)
  have t: "ep_timer_to_event_eng_set_event (event_engine throttle_demo) = []"
    by (simp add: throttle_demo_def event_path_init_def event_engine_def count_events_def
        arbitrate_events_def forward_event_def Let_def)
  show ?thesis
    using low_priority_events_throttled [OF r] t by (simp add: throttle_demo_def event_path_init_def)
qed

end
