(* ===== verification/Rx_App_Intf.thy ===== *)
theory Rx_App_Intf
  imports App_Types Lock_Step Sar_Tables Port_Table Memory_Data
begin

text \<open>
  \<open>rx_app_intf/rx_app_intf.cpp\<close>: the interface through which the applications open listening ports,
  read received data and are notified.  One record holds the statics of the three handlers, the
  two memory processes and the streams; \<open>rx_app_intf\<close> runs the processes in the order of the
  wrapper, configured to keep the payload in external memory.
\<close>

section \<open>State\<close>

datatype RxAppPortFsmState = WAIT_NET | WAIT_PTABLE

datatype RxAppDataFsmState = WAIT_NET_APP_DATA_REQ | WAIT_SAR_RSP | WAIT_DATA

record RxApp =
  ra_port_fsm_state :: RxAppPortFsmState
  ra_data_fsm_state :: RxAppDataFsmState
  ra_rx_app_read_length :: "16 word"
  ra_rx_app_role_id :: NetAXISDest
  ra_net_app_data_lock :: bool
  ra_tdest_req_lock :: bool
  ra_notify_reg :: AppNotificationNoTDEST
  ra_net_app_to_rx_app_listen_port_req :: "ListenPortReq stream"
  ra_rx_app_to_net_app_listen_port_rsp :: "ListenPortRsp stream"
  ra_rx_app_to_ptable_listen_port_req :: "ListenPortReq stream"
  ra_ptable_to_rx_app_listen_port_rsp :: "ListenPortRsp stream"
  ra_net_app_to_rx_app_recv_data_req :: "AppReadReq stream"
  ra_rx_app_to_net_app_recv_data_rsp :: "AppReadRsp stream"
  ra_rx_app_to_rx_sar_req :: "RxSarAppReqRsp stream"
  ra_rx_sar_to_rx_app_rsp :: "RxSarAppReqRsp stream"
  ra_net_app_recv_data :: "NetAXISWord stream"
  ra_rx_eng_to_rx_app_notification :: "AppNotificationNoTDEST stream"
  ra_rtimer_to_rx_app_notification :: "AppNotificationNoTDEST stream"
  ra_rx_app_notification_no_tdest :: "AppNotificationNoTDEST stream"
  ra_rx_app_to_slookup_tdest_lookup_req :: "TcpSessionID stream"
  ra_slookup_to_rx_app_tdest_lookup_rsp :: "NetAXISDest stream"
  ra_net_app_notification :: "AppNotification stream"
  ra_cmd :: ReadCmd
  ra_data :: ReadData

text \<open>The FIFO to \<open>ReadDataSendCmd\<close> is the field \<open>rc_mem_read_cmd\<close> of \<open>ra_cmd\<close>, the one from
  \<open>ReadDataFromMem\<close> the field \<open>rd_mem_read_data\<close> of \<open>ra_data\<close>.\<close>

section \<open>The handlers\<close>

definition RxAppPortHandler :: "RxApp \<Rightarrow> RxApp" where
  "RxAppPortHandler s =
     (case ra_port_fsm_state s of
        WAIT_NET \<Rightarrow>
          (case ra_net_app_to_rx_app_listen_port_req s of
             listen_req # reqs \<Rightarrow>
               s\<lparr>ra_net_app_to_rx_app_listen_port_req := reqs,
                 ra_rx_app_to_ptable_listen_port_req :=
                   ra_rx_app_to_ptable_listen_port_req s @ [listen_req],
                 ra_port_fsm_state := WAIT_PTABLE\<rparr>
           | [] \<Rightarrow> s)
      | WAIT_PTABLE \<Rightarrow>
          (case ra_ptable_to_rx_app_listen_port_rsp s of
             listen_rsp # rsps \<Rightarrow>
               s\<lparr>ra_ptable_to_rx_app_listen_port_rsp := rsps,
                 ra_rx_app_to_net_app_listen_port_rsp :=
                   ra_rx_app_to_net_app_listen_port_rsp s @ [listen_rsp],
                 ra_port_fsm_state := WAIT_NET\<rparr>
           | [] \<Rightarrow> s))"

text \<open>Requests for zero bytes are dropped, as the data mover would hang.\<close>

definition read_request :: "AppReadReq \<Rightarrow> RxApp \<Rightarrow> RxApp" where
  "read_request q s =
     (if aq_read_length (ar_data q) \<noteq> 0 then
        s\<lparr>ra_rx_app_role_id := ar_dest q,
          ra_rx_app_to_rx_sar_req := ra_rx_app_to_rx_sar_req s @
            [RxSarAppReqRsp_read (aq_session_id (ar_data q))],
          ra_rx_app_read_length := aq_read_length (ar_data q),
          ra_data_fsm_state := WAIT_SAR_RSP,
          ra_net_app_data_lock := True\<rparr>
      else s)"

definition read_sar_rsp :: "RxSarAppReqRsp \<Rightarrow> RxApp \<Rightarrow> RxApp" where
  "read_sar_rsp rx_app_rsp s =
     s\<lparr>ra_rx_app_to_net_app_recv_data_rsp := ra_rx_app_to_net_app_recv_data_rsp s @
         [\<lparr>ap_data = rxa_session_id rx_app_rsp, ap_dest = ra_rx_app_role_id s\<rparr>],
       ra_rx_app_to_rx_sar_req := ra_rx_app_to_rx_sar_req s @
         [RxSarAppReqRsp_write (rxa_session_id rx_app_rsp)
            (rxa_app_read rx_app_rsp + ucast (ra_rx_app_read_length s))],
       ra_cmd := (ra_cmd s)\<lparr>rc_mem_read_cmd := rc_mem_read_cmd (ra_cmd s) @
         [MemBufferRWCmd_new
            (GetSessionMemAddr True (rxa_session_id rx_app_rsp) (rxa_app_read rx_app_rsp))
            (ra_rx_app_read_length s)]\<rparr>,
       ra_data_fsm_state := WAIT_DATA\<rparr>"

definition forward_data :: "NetAXISWord \<Rightarrow> RxApp \<Rightarrow> RxApp" where
  "forward_data cur_word s =
     s\<lparr>ra_net_app_recv_data := ra_net_app_recv_data s @ [cur_word\<lparr>nw_dest := ra_rx_app_role_id s\<rparr>],
       ra_data_fsm_state := (if nw_last cur_word then WAIT_NET_APP_DATA_REQ else WAIT_DATA),
       ra_net_app_data_lock := (if nw_last cur_word then False else ra_net_app_data_lock s)\<rparr>"

definition RxAppDataHandler :: "RxApp \<Rightarrow> RxApp" where
  "RxAppDataHandler s =
     (case ra_data_fsm_state s of
        WAIT_NET_APP_DATA_REQ \<Rightarrow>
          (case ra_net_app_to_rx_app_recv_data_req s of
             q # qs \<Rightarrow> read_request q (s\<lparr>ra_net_app_to_rx_app_recv_data_req := qs\<rparr>)
           | [] \<Rightarrow> s)
      | WAIT_SAR_RSP \<Rightarrow>
          (case ra_rx_sar_to_rx_app_rsp s of
             r # rs \<Rightarrow> read_sar_rsp r (s\<lparr>ra_rx_sar_to_rx_app_rsp := rs\<rparr>)
           | [] \<Rightarrow> s)
      | WAIT_DATA \<Rightarrow>
          (case rd_mem_read_data (ra_data s) of
             w # ws \<Rightarrow> forward_data w (s\<lparr>ra_data := (ra_data s)\<lparr>rd_mem_read_data := ws\<rparr>\<rparr>)
           | [] \<Rightarrow> s))"

definition NetAppNotificationTdestHandler :: "RxApp \<Rightarrow> RxApp" where
  "NetAppNotificationTdestHandler s =
     (if ra_rx_app_notification_no_tdest s \<noteq> [] \<and> \<not> ra_tdest_req_lock s then
        s\<lparr>ra_notify_reg := hd (ra_rx_app_notification_no_tdest s),
          ra_rx_app_notification_no_tdest := tl (ra_rx_app_notification_no_tdest s),
          ra_rx_app_to_slookup_tdest_lookup_req := ra_rx_app_to_slookup_tdest_lookup_req s @
            [an_session_id (hd (ra_rx_app_notification_no_tdest s))],
          ra_tdest_req_lock := True\<rparr>
      else if ra_slookup_to_rx_app_tdest_lookup_rsp s \<noteq> [] \<and> ra_tdest_req_lock s then
        s\<lparr>ra_slookup_to_rx_app_tdest_lookup_rsp := tl (ra_slookup_to_rx_app_tdest_lookup_rsp s),
          ra_net_app_notification := ra_net_app_notification s @
            [\<lparr>ap_notify = ra_notify_reg s, ap_notify_dest = hd (ra_slookup_to_rx_app_tdest_lookup_rsp s)\<rparr>],
          ra_tdest_req_lock := False\<rparr>
      else s)"

section \<open>The wrapper\<close>

text \<open>The FIFO between the two memory processes is written by the one and read by the other.\<close>

definition rx_app_mem_processes :: "RxApp \<Rightarrow> RxApp" where
  "rx_app_mem_processes s =
     (let cmd = ReadDataSendCmd (ra_cmd s);
          data = (ra_data s)\<lparr>rd_mem_buffer_double_access :=
            rd_mem_buffer_double_access (ra_data s) @ rc_mem_buffer_double_access cmd\<rparr> in
      s\<lparr>ra_cmd := cmd\<lparr>rc_mem_buffer_double_access := []\<rparr>, ra_data := ReadDataFromMem data\<rparr>)"

definition merge_notifications :: "RxApp \<Rightarrow> RxApp" where
  "merge_notifications s =
     (case AxiStreamMerger (ra_rx_eng_to_rx_app_notification s) (ra_rtimer_to_rx_app_notification s)
             (ra_rx_app_notification_no_tdest s) of
        (eng, timer, out) \<Rightarrow>
          s\<lparr>ra_rx_eng_to_rx_app_notification := eng, ra_rtimer_to_rx_app_notification := timer,
            ra_rx_app_notification_no_tdest := out\<rparr>)"

definition rx_app_intf :: "RxApp \<Rightarrow> RxApp" where
  "rx_app_intf s =
     NetAppNotificationTdestHandler (merge_notifications (rx_app_mem_processes
       (RxAppDataHandler (RxAppPortHandler s))))"

text \<open>Power-up; \<open>AppNotificationNoTDEST\<close> is zeroed by its constructor.\<close>

definition rx_app_init :: RxApp where
  "rx_app_init =
     \<lparr>ra_port_fsm_state = WAIT_NET, ra_data_fsm_state = WAIT_NET_APP_DATA_REQ, ra_rx_app_read_length = 0,
      ra_rx_app_role_id = 0, ra_net_app_data_lock = False, ra_tdest_req_lock = False,
      ra_notify_reg = AppNotification_closed 0 False,
      ra_net_app_to_rx_app_listen_port_req = [], ra_rx_app_to_net_app_listen_port_rsp = [],
      ra_rx_app_to_ptable_listen_port_req = [], ra_ptable_to_rx_app_listen_port_rsp = [],
      ra_net_app_to_rx_app_recv_data_req = [], ra_rx_app_to_net_app_recv_data_rsp = [],
      ra_rx_app_to_rx_sar_req = [], ra_rx_sar_to_rx_app_rsp = [], ra_net_app_recv_data = [],
      ra_rx_eng_to_rx_app_notification = [], ra_rtimer_to_rx_app_notification = [],
      ra_rx_app_notification_no_tdest = [], ra_rx_app_to_slookup_tdest_lookup_req = [],
      ra_slookup_to_rx_app_tdest_lookup_rsp = [], ra_net_app_notification = [],
      ra_cmd = \<lparr>rc_read_cmd_is_breakdown = False, rc_inner_cmd = MemBufferRWCmd_default,
        rc_first_cmd_bbt = 0, rc_mem_read_cmd = [], rc_mover_read_cmd = [],
        rc_mem_buffer_double_access = []\<rparr>,
      ra_data = \<lparr>rd_fsm_state = READ_ACCESS, rd_offset_block0 = 0, rd_offset_block1 = 0,
        rd_prev_beat_word = NetAXISWord_default, rd_mover_read_data = [],
        rd_mem_buffer_double_access = [], rd_mem_read_data = [], rd_mem_read_data_full = False\<rparr>\<rparr>"

section \<open>Requests and answers stay in step\<close>

interpretation rx_port: lock_step RxAppPortHandler "\<lambda>s. ra_port_fsm_state s = WAIT_PTABLE" "\<lambda>_. ()"
    ra_net_app_to_rx_app_listen_port_req ra_rx_app_to_ptable_listen_port_req
    ra_ptable_to_rx_app_listen_port_rsp ra_rx_app_to_net_app_listen_port_rsp "\<lambda>q. q" "\<lambda>_. ()" "\<lambda>_ r. r"
  by unfold_locales
    (auto simp: RxAppPortHandler_def split: RxAppPortFsmState.split list.split)

interpretation rx_notify: lock_step NetAppNotificationTdestHandler ra_tdest_req_lock ra_notify_reg
    ra_rx_app_notification_no_tdest ra_rx_app_to_slookup_tdest_lookup_req
    ra_slookup_to_rx_app_tdest_lookup_rsp ra_net_app_notification an_session_id "\<lambda>n. n"
    "\<lambda>n d. \<lparr>ap_notify = n, ap_notify_dest = d\<rparr>"
  by unfold_locales (auto simp: NetAppNotificationTdestHandler_def)

text \<open>Notifications reach the application that owns the session: whatever the order in which
  notifications and lookup answers arrive, the notifications sent are those taken, in order, each
  with the answer to its own lookup, and at most one lookup is open.\<close>

theorem notifications_get_their_own_dest:
  assumes "reaches (\<lambda>s. \<not> ra_tdest_req_lock s \<and> ra_rx_app_to_slookup_tdest_lookup_req s = [] \<and> ra_net_app_notification s = [])
      (\<lambda>s t. ra_tdest_req_lock t = ra_tdest_req_lock s \<and> ra_notify_reg t = ra_notify_reg s \<and>
         ra_rx_app_to_slookup_tdest_lookup_req t = ra_rx_app_to_slookup_tdest_lookup_req s \<and>
         ra_net_app_notification t = ra_net_app_notification s \<and>
         (\<exists>ns. ra_rx_app_notification_no_tdest t = ra_rx_app_notification_no_tdest s @ ns) \<and>
         (\<exists>ds. ra_slookup_to_rx_app_tdest_lookup_rsp t = ra_slookup_to_rx_app_tdest_lookup_rsp s @ ds))
      NetAppNotificationTdestHandler s"
  shows "\<exists>taken dests. ra_rx_app_to_slookup_tdest_lookup_req s = map an_session_id taken \<and>
     ra_net_app_notification s =
       map2 (\<lambda>n d. \<lparr>ap_notify = n, ap_notify_dest = d\<rparr>) (take (length dests) taken) dests \<and>
     length taken = length dests + of_bool (ra_tdest_req_lock s)"
proof -
  have "reaches rx_notify.lock_ini rx_notify.lock_env NetAppNotificationTdestHandler s"
    using assms unfolding rx_notify.lock_ini_def rx_notify.lock_env_def .
  from rx_notify.reaches_matched [OF this] obtain taken used where
    "ra_rx_app_to_slookup_tdest_lookup_req s = map an_session_id taken"
    "ra_net_app_notification s = map2 (\<lambda>n d. \<lparr>ap_notify = n, ap_notify_dest = d\<rparr>) (take (length used) taken) used"
    "if ra_tdest_req_lock s then taken \<noteq> [] \<and> length used = length taken - 1 \<and> ra_notify_reg s = last taken
     else length used = length taken"
    unfolding rx_notify.matched_def by auto
  then show ?thesis
    by (intro exI [of _ taken] exI [of _ used]) (auto split: if_splits simp: Suc_le_eq)
qed

theorem notifications_get_their_own_dest_witness:
  "\<exists>taken dests. let s = NetAppNotificationTdestHandler (rx_app_init
       \<lparr>ra_rx_app_notification_no_tdest := [AppNotification_closed 5 True], ra_slookup_to_rx_app_tdest_lookup_rsp := [3]\<rparr>) in
     ra_rx_app_to_slookup_tdest_lookup_req s = map an_session_id taken \<and>
     ra_net_app_notification s =
       map2 (\<lambda>n d. \<lparr>ap_notify = n, ap_notify_dest = d\<rparr>) (take (length dests) taken) dests \<and>
     length taken = length dests + 1"
proof -
  let ?s = "rx_app_init\<lparr>ra_rx_app_notification_no_tdest := [AppNotification_closed 5 True],
      ra_slookup_to_rx_app_tdest_lookup_rsp := [3]\<rparr>"
  have locked: "ra_tdest_req_lock (NetAppNotificationTdestHandler ?s)"
    by (simp add: NetAppNotificationTdestHandler_def rx_app_init_def)
  show ?thesis
    using notifications_get_their_own_dest [OF reaches_cycle [OF reaches_ini], of ?s] locked
    unfolding Let_def by (simp add: rx_app_init_def)
qed

section \<open>Reading received data\<close>

lemma forward_packet:
  assumes "ra_data_fsm_state s = WAIT_DATA" and "rd_mem_read_data (ra_data s) = ws @ rest" and "is_frame ws"
  shows "(RxAppDataHandler ^^ length ws) s = s
     \<lparr>ra_net_app_recv_data := ra_net_app_recv_data s @ map (\<lambda>w. w\<lparr>nw_dest := ra_rx_app_role_id s\<rparr>) ws,
      ra_data_fsm_state := WAIT_NET_APP_DATA_REQ, ra_net_app_data_lock := False,
      ra_data := (ra_data s)\<lparr>rd_mem_read_data := rest\<rparr>\<rparr>"
  using assms
proof (induction ws arbitrary: s)
  case (Cons w ws)
  have step: "RxAppDataHandler s = forward_data w (s\<lparr>ra_data := (ra_data s)\<lparr>rd_mem_read_data := ws @ rest\<rparr>\<rparr>)"
    using Cons.prems by (simp add: RxAppDataHandler_def)
  show ?case
  proof (cases "ws = []")
    case True
    then show ?thesis using Cons.prems(3) step by (simp add: forward_data_def is_frame_def)
  next
    case False
    then have w: "\<not> nw_last w" "is_frame ws" using Cons.prems(3) by (auto simp: is_frame_def)
    show ?thesis
      by (simp only: length_Cons funpow_Suc_apply step, subst Cons.IH)
        (use w Cons.prems in \<open>simp_all add: forward_data_def\<close>)
  qed
qed (simp add: is_frame_def)

lemma read_request_two_steps:
  assumes "ra_data_fsm_state s = WAIT_NET_APP_DATA_REQ" and "ra_net_app_to_rx_app_recv_data_req s = q # qs"
    and "aq_read_length (ar_data q) \<noteq> 0" and "ra_rx_sar_to_rx_app_rsp s = r # rs"
  shows "RxAppDataHandler (RxAppDataHandler s) = s
     \<lparr>ra_net_app_to_rx_app_recv_data_req := qs, ra_rx_sar_to_rx_app_rsp := rs,
      ra_rx_app_role_id := ar_dest q, ra_rx_app_read_length := aq_read_length (ar_data q),
      ra_net_app_data_lock := True, ra_data_fsm_state := WAIT_DATA,
      ra_rx_app_to_net_app_recv_data_rsp := ra_rx_app_to_net_app_recv_data_rsp s @
        [\<lparr>ap_data = rxa_session_id r, ap_dest = ar_dest q\<rparr>],
      ra_rx_app_to_rx_sar_req := ra_rx_app_to_rx_sar_req s @
        [RxSarAppReqRsp_read (aq_session_id (ar_data q)),
         RxSarAppReqRsp_write (rxa_session_id r) (rxa_app_read r + ucast (aq_read_length (ar_data q)))],
      ra_cmd := (ra_cmd s)\<lparr>rc_mem_read_cmd := rc_mem_read_cmd (ra_cmd s) @
        [MemBufferRWCmd_new (GetSessionMemAddr True (rxa_session_id r) (rxa_app_read r)) (aq_read_length (ar_data q))]\<rparr>\<rparr>"
  using assms by (simp add: RxAppDataHandler_def read_request_def read_sar_rsp_def)

text \<open>The bytes of the receive buffer of a session, from an offset on.\<close>

definition rx_ring :: "TcpSessionID \<Rightarrow> TcpSessionBuffer \<Rightarrow> nat \<Rightarrow> nat list" where
  "rx_ring sid a n = map (\<lambda>i. unat TCP_DDR_BASE_ADDR + (unat sid mod 2 ^ 13) * 2 ^ 18 + (unat a + i) mod 2 ^ 18) [0..<n]"

lemma unat_18: "unat (a :: 18 word) < 262144"
proof -
  have "unat a < 2 ^ LENGTH(18)" by (rule unsigned_less)
  then show ?thesis by simp
qed

lemma unat_rx_addr: "unat (GetSessionMemAddr True sid a) = (unat sid mod 2 ^ 13) * 2 ^ 18 + unat a"
proof -
  let ?w = "GetSessionMemAddr True sid a"
  have "get_range 0 ?w = a" "(get_range 18 ?w :: 14 word) = ucast (get_range 0 sid :: 13 word)"
    by (simp add: GetSessionMemAddr_def)
      (rule bit_word_eqI, auto simp: GetSessionMemAddr_def bit_field bit_simps)
  then have "unat a = unat ?w mod 2 ^ 18" "unat (ucast (get_range 0 sid :: 13 word) :: 14 word) = unat ?w div 2 ^ 18 mod 2 ^ 14"
    using unat_get_range [of 0 ?w, where 'b = 18] unat_get_range [of 18 ?w, where 'b = 14] by simp_all
  moreover have "unat ?w < 2 ^ LENGTH(32)" by (rule unsigned_less)
  then have "unat ?w div 2 ^ 18 mod 2 ^ 14 = unat ?w div 2 ^ 18" by (simp add: less_mult_imp_div_less)
  moreover have "unat (ucast (get_range 0 sid :: 13 word) :: 14 word) = unat sid mod 2 ^ 13"
  proof -
    have "unat (get_range 0 sid :: 13 word) < 2 ^ LENGTH(13)" by (rule unsigned_less)
    then show ?thesis
      using unat_get_range [of 0 sid, where 'b = 13] by (simp add: unsigned_ucast_eq take_bit_nat_eq_self)
  qed
  ultimately show ?thesis using div_mult_mod_eq [of "unat ?w" "2 ^ 18"] by simp
qed

lemma read_command_ring:
  "session_bytes (MemBufferRWCmd_new (GetSessionMemAddr True sid a) n) = rx_ring sid a (unat n)"
proof -
  have "unat a < 2 ^ 18" using unat_18 by simp
  then show ?thesis
    by (simp add: session_bytes_def rx_ring_def Let_def MemBufferRWCmd_new_def unat_rx_addr add.assoc
        del: TCP_DDR_BASE_ADDR_def)
qed

text \<open>A read request is served exactly once: the application gets its response and the packet from
  memory with its own destination, the read pointer is looked up and then moved by the length, and
  the memory command covers exactly that many bytes of the ring buffer of the session from the
  pointer on.  The handler is then ready for the next request.\<close>

theorem read_request_served:
  assumes "ra_data_fsm_state s = WAIT_NET_APP_DATA_REQ" and "ra_net_app_to_rx_app_recv_data_req s = q # qs"
    and "aq_read_length (ar_data q) \<noteq> 0" and "ra_rx_sar_to_rx_app_rsp s = r # rs"
    and "rd_mem_read_data (ra_data s) = ws @ rest" and "is_frame ws"
  shows "\<exists>cmd. (RxAppDataHandler ^^ (2 + length ws)) s = s
     \<lparr>ra_net_app_to_rx_app_recv_data_req := qs, ra_rx_sar_to_rx_app_rsp := rs,
      ra_rx_app_role_id := ar_dest q, ra_rx_app_read_length := aq_read_length (ar_data q),
      ra_net_app_data_lock := False, ra_data_fsm_state := WAIT_NET_APP_DATA_REQ,
      ra_rx_app_to_net_app_recv_data_rsp := ra_rx_app_to_net_app_recv_data_rsp s @
        [\<lparr>ap_data = rxa_session_id r, ap_dest = ar_dest q\<rparr>],
      ra_rx_app_to_rx_sar_req := ra_rx_app_to_rx_sar_req s @
        [RxSarAppReqRsp_read (aq_session_id (ar_data q)),
         RxSarAppReqRsp_write (rxa_session_id r) (rxa_app_read r + ucast (aq_read_length (ar_data q)))],
      ra_cmd := (ra_cmd s)\<lparr>rc_mem_read_cmd := rc_mem_read_cmd (ra_cmd s) @ [cmd]\<rparr>,
      ra_net_app_recv_data := ra_net_app_recv_data s @ map (\<lambda>w. w\<lparr>nw_dest := ar_dest q\<rparr>) ws,
      ra_data := (ra_data s)\<lparr>rd_mem_read_data := rest\<rparr>\<rparr> \<and>
    is_request cmd \<and> session_bytes cmd = rx_ring (rxa_session_id r) (rxa_app_read r) (unat (aq_read_length (ar_data q)))"
proof -
  let ?cmd = "MemBufferRWCmd_new (GetSessionMemAddr True (rxa_session_id r) (rxa_app_read r)) (aq_read_length (ar_data q))"
  have "is_request ?cmd" by (simp add: is_request_def MemBufferRWCmd_new_def)
  moreover note read_command_ring [of "rxa_session_id r" "rxa_app_read r" "aq_read_length (ar_data q)"]
  ultimately show ?thesis
    by (intro exI [of _ ?cmd] conjI, simp only: add_2_eq_Suc funpow_Suc_apply read_request_two_steps [OF assms(1-4)],
        subst forward_packet [of _ ws rest]) (use assms(5,6) in simp_all)
qed

theorem read_request_served_witness:
  "\<exists>cmd. let t = (RxAppDataHandler ^^ (2 + length [split_word])) (rx_app_init
       \<lparr>ra_net_app_to_rx_app_recv_data_req := [\<lparr>ar_data = \<lparr>aq_session_id = 5, aq_read_length = 3\<rparr>, ar_dest = 2\<rparr>],
        ra_rx_sar_to_rx_app_rsp := [RxSarAppReqRsp_write 5 0x3FFFE],
        ra_data := (ra_data rx_app_init)\<lparr>rd_mem_read_data := [split_word]\<rparr>\<rparr>) in
     rc_mem_read_cmd (ra_cmd t) = [cmd] \<and> session_bytes cmd = rx_ring 5 0x3FFFE 3 \<and>
     ra_net_app_recv_data t = [split_word\<lparr>nw_dest := 2\<rparr>]"
proof -
  let ?q = "\<lparr>ar_data = \<lparr>aq_session_id = 5, aq_read_length = 3\<rparr>, ar_dest = 2\<rparr> :: AppReadReq"
  let ?s = "rx_app_init\<lparr>ra_net_app_to_rx_app_recv_data_req := [?q],
        ra_rx_sar_to_rx_app_rsp := [RxSarAppReqRsp_write 5 0x3FFFE],
        ra_data := (ra_data rx_app_init)\<lparr>rd_mem_read_data := [split_word]\<rparr>\<rparr>"
  have "is_frame [split_word]" using split_word_packet by (simp add: is_frame_def)
  then obtain cmd where "(RxAppDataHandler ^^ (2 + length [split_word])) ?s = ?s
     \<lparr>ra_net_app_to_rx_app_recv_data_req := [], ra_rx_sar_to_rx_app_rsp := [],
      ra_rx_app_role_id := 2, ra_rx_app_read_length := 3,
      ra_net_app_data_lock := False, ra_data_fsm_state := WAIT_NET_APP_DATA_REQ,
      ra_rx_app_to_net_app_recv_data_rsp := [\<lparr>ap_data = 5, ap_dest = 2\<rparr>],
      ra_rx_app_to_rx_sar_req := [RxSarAppReqRsp_read 5, RxSarAppReqRsp_write 5 1],
      ra_cmd := (ra_cmd ?s)\<lparr>rc_mem_read_cmd := [cmd]\<rparr>,
      ra_net_app_recv_data := [split_word\<lparr>nw_dest := 2\<rparr>],
      ra_data := (ra_data ?s)\<lparr>rd_mem_read_data := []\<rparr>\<rparr>"
    "session_bytes cmd = rx_ring 5 0x3FFFE 3"
    using read_request_served [of ?s ?q "[]" "RxSarAppReqRsp_write 5 0x3FFFE" "[]" "[split_word]" "[]"]
    by (auto simp: RxSarAppReqRsp_write_def rx_app_init_def)
  then show ?thesis unfolding Let_def by (intro exI [of _ cmd]) simp
qed

end
