(* ===== verification/Toe.thy ===== *)
theory Toe
  imports Rx_Engine Tx_App_Props Tx_Engine Port_Table Sar_Tables Session_Lookup State_Table Timers Event_Path Rx_App_Intf
begin

text \<open>
  \<open>toe_top\<close> of \<open>toe/toe.cpp\<close>: the engine, composed of its twelve processes.  A stream between two of them is
  kept by both: what the writer has written since the reader ran last is moved to the reader when that one
  runs.  The streams to the network, the applications, the memory and the CAM are fields of the component that uses
  them.  The two FIFOs whose writers ask whether they are full have the depths that \<open>toe.cpp\<close> declares; the others are
  unbounded.
\<close>

section \<open>State\<close>

record Toe =
  to_events :: EventPath
  to_port_table :: PortTable
  to_rx_app :: RxApp
  to_rx_engine :: RxEngine
  to_rx_sar :: RxSar
  to_slookup :: Slookup
  to_state_table :: StateTable
  to_timers :: TimerWrapper
  to_tx_app :: TxApp
  to_tx_engine :: TxEngine
  to_tx_sar :: TxSar

text \<open>What a process wrote is taken from it with its write end, and the reader gets it behind what it has.\<close>

section \<open>The calls\<close>

definition toe_ack_delay :: "build \<Rightarrow> Toe \<Rightarrow> Toe" where
  "toe_ack_delay bld s =
     (let e = to_events s; f = tg_fsm (to_tx_engine s) in
      s\<lparr>to_events := ack_delay bld (e\<lparr>ep_ack_delay_to_tx_eng_event_full :=
          length (xf_ack_delay_to_tx_eng_event f) + length (ep_ack_delay_to_tx_eng_event e) \<ge> 32\<rparr>)\<rparr>)"

definition toe_event_engine :: "Toe \<Rightarrow> Toe" where
  "toe_event_engine s =
     (let e = to_events s; app = to_tx_app s; rx = to_rx_engine s; tim = to_timers s; tx = to_tx_engine s in
      s\<lparr>to_events := event_engine (e
          \<lparr>ep_tx_app_to_event_eng_set_event :=
             ep_tx_app_to_event_eng_set_event e @ ts_tx_app_to_event_eng_set_event (ta_rsp app),
           ep_rx_eng_to_event_eng_set_event := ep_rx_eng_to_event_eng_set_event e @ re_rx_eng_to_event_eng_set_event rx,
           ep_timer_to_event_eng_set_event := ep_timer_to_event_eng_set_event e @ tw_timer_to_event_eng_set_event tim,
           ep_tx_eng_read_count_fifo := ep_tx_eng_read_count_fifo e @ xf_tx_eng_read_count_fifo (tg_fsm tx)\<rparr>),
        to_tx_app := app\<lparr>ta_rsp := (ta_rsp app)\<lparr>ts_tx_app_to_event_eng_set_event := []\<rparr>\<rparr>,
        to_rx_engine := rx\<lparr>re_rx_eng_to_event_eng_set_event := []\<rparr>,
        to_timers := tim\<lparr>tw_timer_to_event_eng_set_event := []\<rparr>,
        to_tx_engine := tx\<lparr>tg_fsm := (tg_fsm tx)\<lparr>xf_tx_eng_read_count_fifo := []\<rparr>\<rparr>\<rparr>)"

definition toe_port_table :: "Toe \<Rightarrow> Toe" where
  "toe_port_table s =
     (let p = to_port_table s; k = to_slookup s; rapp = to_rx_app s; rx = to_rx_engine s; app = to_tx_app s in
      s\<lparr>to_port_table := port_table (p
          \<lparr>pt_slookup_to_ptable_release_port_req :=
             pt_slookup_to_ptable_release_port_req p @ sk_slookup_to_ptable_release_port_req k,
           pt_rx_app_to_ptable_listen_port_req :=
             pt_rx_app_to_ptable_listen_port_req p @ ra_rx_app_to_ptable_listen_port_req rapp,
           pt_rx_eng_to_ptable_check_req := pt_rx_eng_to_ptable_check_req p @ rv_rx_eng_to_ptable_check_req (re_verify rx),
           pt_tx_app_to_ptable_req := pt_tx_app_to_ptable_req p @ tc_tx_app_to_ptable_req (ta_conn app),
           pt_ptable_to_tx_app_rsp_full :=
             length (tc_ptable_to_tx_app_rsp (ta_conn app)) + length (pt_ptable_to_tx_app_rsp p) \<ge> 8\<rparr>),
        to_slookup := k\<lparr>sk_slookup_to_ptable_release_port_req := []\<rparr>,
        to_rx_app := rapp\<lparr>ra_rx_app_to_ptable_listen_port_req := []\<rparr>,
        to_rx_engine := rx\<lparr>re_verify := (re_verify rx)\<lparr>rv_rx_eng_to_ptable_check_req := []\<rparr>\<rparr>,
        to_tx_app := app\<lparr>ta_conn := (ta_conn app)\<lparr>tc_tx_app_to_ptable_req := []\<rparr>\<rparr>\<rparr>)"

definition toe_rx_app :: "Toe \<Rightarrow> Toe" where
  "toe_rx_app s =
     (let rapp = to_rx_app s; p = to_port_table s; sar = to_rx_sar s; rx = to_rx_engine s; tim = to_timers s; k = to_slookup s;
          rt = tw_retransmit_timer tim in
      s\<lparr>to_rx_app := rx_app_intf (rapp
          \<lparr>ra_ptable_to_rx_app_listen_port_rsp :=
             ra_ptable_to_rx_app_listen_port_rsp rapp @ pt_ptable_to_rx_app_listen_port_rsp p,
           ra_rx_sar_to_rx_app_rsp := ra_rx_sar_to_rx_app_rsp rapp @ rs_rx_sar_to_rx_app_rsp sar,
           ra_rx_eng_to_rx_app_notification :=
             ra_rx_eng_to_rx_app_notification rapp @ rn_rx_eng_to_rx_app_notification (re_notify rx),
           ra_rtimer_to_rx_app_notification :=
             ra_rtimer_to_rx_app_notification rapp @ rt_rtimer_to_rx_app_notification rt,
           ra_slookup_to_rx_app_tdest_lookup_rsp :=
             ra_slookup_to_rx_app_tdest_lookup_rsp rapp @ sk_slookup_to_rx_app_tdest_lookup_rsp k\<rparr>),
        to_port_table := p\<lparr>pt_ptable_to_rx_app_listen_port_rsp := []\<rparr>,
        to_rx_sar := sar\<lparr>rs_rx_sar_to_rx_app_rsp := []\<rparr>,
        to_rx_engine := rx\<lparr>re_notify := (re_notify rx)\<lparr>rn_rx_eng_to_rx_app_notification := []\<rparr>\<rparr>,
        to_timers := tim\<lparr>tw_retransmit_timer := rt\<lparr>rt_rtimer_to_rx_app_notification := []\<rparr>\<rparr>,
        to_slookup := k\<lparr>sk_slookup_to_rx_app_tdest_lookup_rsp := []\<rparr>\<rparr>)"

definition toe_rx_engine :: "4 word \<Rightarrow> Toe \<Rightarrow> Toe" where
  "toe_rx_engine u s =
     (let rx = to_rx_engine s; m = re_meta rx; f = re_fsm rx; p = to_port_table s; k = to_slookup s; rsar = to_rx_sar s;
          tsar = to_tx_sar s; t = to_state_table s in
      s\<lparr>to_rx_engine := rx_engine u (rx
          \<lparr>re_meta := m
             \<lparr>rm_ptable_to_rx_eng_check_rsp := rm_ptable_to_rx_eng_check_rsp m @ pt_ptable_to_rx_eng_check_rsp p,
              rm_slookup_to_rx_eng_rsp := rm_slookup_to_rx_eng_rsp m @ sk_slookup_to_rx_eng_rsp k\<rparr>,
           re_fsm := f
             \<lparr>rf_rx_sar_to_rx_eng_rsp := rf_rx_sar_to_rx_eng_rsp f @ rs_rx_sar_to_rx_eng_rsp rsar,
              rf_tx_sar_to_rx_eng_rsp := rf_tx_sar_to_rx_eng_rsp f @ ts_tx_sar_to_rx_eng_rsp tsar,
              rf_sttable_to_rx_eng_rsp := rf_sttable_to_rx_eng_rsp f @ st_sttable_to_rx_eng_rsp t\<rparr>\<rparr>),
        to_port_table := p\<lparr>pt_ptable_to_rx_eng_check_rsp := []\<rparr>,
        to_slookup := k\<lparr>sk_slookup_to_rx_eng_rsp := []\<rparr>,
        to_rx_sar := rsar\<lparr>rs_rx_sar_to_rx_eng_rsp := []\<rparr>,
        to_tx_sar := tsar\<lparr>ts_tx_sar_to_rx_eng_rsp := []\<rparr>,
        to_state_table := t\<lparr>st_sttable_to_rx_eng_rsp := []\<rparr>\<rparr>)"

definition toe_rx_sar :: "Toe \<Rightarrow> Toe" where
  "toe_rx_sar s =
     (let sar = to_rx_sar s; rapp = to_rx_app s; rx = to_rx_engine s; tx = to_tx_engine s in
      s\<lparr>to_rx_sar := rx_sar_table (sar
          \<lparr>rs_rx_app_to_rx_sar_req := rs_rx_app_to_rx_sar_req sar @ ra_rx_app_to_rx_sar_req rapp,
           rs_rx_eng_to_rx_sar_req := rs_rx_eng_to_rx_sar_req sar @ rf_rx_eng_to_rx_sar_req (re_fsm rx),
           rs_tx_eng_to_rx_sar_lup_req := rs_tx_eng_to_rx_sar_lup_req sar @ xf_tx_eng_to_rx_sar_lup_req (tg_fsm tx)\<rparr>),
        to_rx_app := rapp\<lparr>ra_rx_app_to_rx_sar_req := []\<rparr>,
        to_rx_engine := rx\<lparr>re_fsm := (re_fsm rx)\<lparr>rf_rx_eng_to_rx_sar_req := []\<rparr>\<rparr>,
        to_tx_engine := tx\<lparr>tg_fsm := (tg_fsm tx)\<lparr>xf_tx_eng_to_rx_sar_lup_req := []\<rparr>\<rparr>\<rparr>)"

definition toe_slookup :: "Toe \<Rightarrow> Toe" where
  "toe_slookup s =
     (let k = to_slookup s; t = to_state_table s; rapp = to_rx_app s; rx = to_rx_engine s; app = to_tx_app s; tx = to_tx_engine s;
          c = ta_conn app in
      s\<lparr>to_slookup := session_lookup_controller (k
          \<lparr>sk_sttable_to_slookup_release_req :=
             sk_sttable_to_slookup_release_req k @ st_sttable_to_slookup_release_req t,
           sk_rx_app_to_slookup_tdest_lookup_req :=
             sk_rx_app_to_slookup_tdest_lookup_req k @ ra_rx_app_to_slookup_tdest_lookup_req rapp,
           sk_rx_eng_to_slookup_req := sk_rx_eng_to_slookup_req k @ rm_rx_eng_to_slookup_req (re_meta rx),
           sk_tx_app_to_slookup_req := sk_tx_app_to_slookup_req k @ tc_tx_app_to_slookup_req c,
           sk_tx_app_to_slookup_check_tdest_req :=
             sk_tx_app_to_slookup_check_tdest_req k @ tc_tx_app_to_slookup_check_tdest_req c,
           sk_tx_eng_to_slookup_rev_table_req :=
             sk_tx_eng_to_slookup_rev_table_req k @ xf_tx_eng_to_slookup_rev_table_req (tg_fsm tx)\<rparr>),
        to_state_table := t\<lparr>st_sttable_to_slookup_release_req := []\<rparr>,
        to_rx_app := rapp\<lparr>ra_rx_app_to_slookup_tdest_lookup_req := []\<rparr>,
        to_rx_engine := rx\<lparr>re_meta := (re_meta rx)\<lparr>rm_rx_eng_to_slookup_req := []\<rparr>\<rparr>,
        to_tx_app := app\<lparr>ta_conn := c\<lparr>tc_tx_app_to_slookup_req := [], tc_tx_app_to_slookup_check_tdest_req := []\<rparr>\<rparr>,
        to_tx_engine := tx\<lparr>tg_fsm := (tg_fsm tx)\<lparr>xf_tx_eng_to_slookup_rev_table_req := []\<rparr>\<rparr>\<rparr>)"
definition toe_state_table :: "Toe \<Rightarrow> Toe" where
  "toe_state_table s =
     (let t = to_state_table s; tim = to_timers s; rx = to_rx_engine s; app = to_tx_app s in
      s\<lparr>to_state_table := state_table (t
          \<lparr>st_timer_to_sttable_release_state :=
             st_timer_to_sttable_release_state t @ tw_timer_to_sttable_release_state tim,
           st_rx_eng_to_sttable_req := st_rx_eng_to_sttable_req t @ rf_rx_eng_to_sttable_req (re_fsm rx),
           st_tx_app_to_sttable_lup_req := st_tx_app_to_sttable_lup_req t @ td_tx_app_to_sttable_lup_req (ta_data app),
           st_tx_app_to_sttable_req := st_tx_app_to_sttable_req t @ tc_tx_app_to_sttable_req (ta_conn app)\<rparr>),
        to_timers := tim\<lparr>tw_timer_to_sttable_release_state := []\<rparr>,
        to_rx_engine := rx\<lparr>re_fsm := (re_fsm rx)\<lparr>rf_rx_eng_to_sttable_req := []\<rparr>\<rparr>,
        to_tx_app := app
          \<lparr>ta_conn := (ta_conn app)\<lparr>tc_tx_app_to_sttable_req := []\<rparr>,
           ta_data := (ta_data app)\<lparr>td_tx_app_to_sttable_lup_req := []\<rparr>\<rparr>\<rparr>)"

definition toe_timers :: "build \<Rightarrow> Toe \<Rightarrow> Toe" where
  "toe_timers bld s =
     (let tim = to_timers s; rx = to_rx_engine s; tx = to_tx_engine s; f = re_fsm rx; g = tg_fsm tx;
          c = tw_close_timer tim; r = tw_retransmit_timer tim; p = tw_probe_timer tim in
      s\<lparr>to_timers := timer_wrapper bld (tim
          \<lparr>tw_close_timer := c
             \<lparr>ct_rx_eng_to_timer_set_ctimer := ct_rx_eng_to_timer_set_ctimer c @ rf_rx_eng_to_timer_set_ctimer f\<rparr>,
           tw_retransmit_timer := r
             \<lparr>rt_rx_eng_to_timer_clear_rtimer := rt_rx_eng_to_timer_clear_rtimer r @ rf_rx_eng_to_timer_clear_rtimer f,
              rt_tx_eng_to_timer_set_rtimer := rt_tx_eng_to_timer_set_rtimer r @ xf_tx_eng_to_timer_set_rtimer g\<rparr>,
           tw_probe_timer := p
             \<lparr>bt_rx_eng_to_timer_clear_ptimer := bt_rx_eng_to_timer_clear_ptimer p @ rf_rx_eng_to_timer_clear_ptimer f,
              bt_tx_eng_to_timer_set_ptimer := bt_tx_eng_to_timer_set_ptimer p @ xf_tx_eng_to_timer_set_ptimer g\<rparr>\<rparr>),
        to_rx_engine := rx\<lparr>re_fsm := f\<lparr>rf_rx_eng_to_timer_set_ctimer := [], rf_rx_eng_to_timer_clear_rtimer := [],
          rf_rx_eng_to_timer_clear_ptimer := []\<rparr>\<rparr>,
        to_tx_engine := tx\<lparr>tg_fsm := g\<lparr>xf_tx_eng_to_timer_set_rtimer := [], xf_tx_eng_to_timer_set_ptimer := []\<rparr>\<rparr>\<rparr>)"

definition toe_tx_app :: "Toe \<Rightarrow> Toe" where
  "toe_tx_app s =
     (let app = to_tx_app s; c = ta_conn app; d = ta_data app; b = ta_table app; rx = to_rx_engine s; f = re_fsm rx;
          tim = to_timers s; r = tw_retransmit_timer tim; k = to_slookup s; p = to_port_table s; t = to_state_table s;
          sar = to_tx_sar s in
      s\<lparr>to_tx_app := tx_app_intf (app
          \<lparr>ta_conn := c
             \<lparr>tc_rx_eng_to_tx_app_new_client_notification :=
                tc_rx_eng_to_tx_app_new_client_notification c @ rf_rx_eng_to_tx_app_new_client_notification f,
              tc_rx_eng_to_tx_app_notification := tc_rx_eng_to_tx_app_notification c @ rf_rx_eng_to_tx_app_notification f,
              tc_rtimer_to_tx_app_notification := tc_rtimer_to_tx_app_notification c @ rt_rtimer_to_tx_app_notification r,
              tc_slookup_to_tx_app_rsp := tc_slookup_to_tx_app_rsp c @ sk_slookup_to_tx_app_rsp k,
              tc_slookup_to_tx_app_check_tdest_rsp :=
                tc_slookup_to_tx_app_check_tdest_rsp c @ sk_slookup_to_tx_app_check_tdest_rsp k,
              tc_ptable_to_tx_app_rsp := tc_ptable_to_tx_app_rsp c @ pt_ptable_to_tx_app_rsp p,
              tc_sttable_to_tx_app_rsp := tc_sttable_to_tx_app_rsp c @ st_sttable_to_tx_app_rsp t\<rparr>,
           ta_data := d
             \<lparr>td_sttable_to_tx_app_lup_rsp := td_sttable_to_tx_app_lup_rsp d @ st_sttable_to_tx_app_lup_rsp t\<rparr>,
           ta_table := b
             \<lparr>tt_tx_sar_to_tx_app_upd_req := tt_tx_sar_to_tx_app_upd_req b @ ts_tx_sar_to_tx_app_upd_req sar\<rparr>\<rparr>),
        to_rx_engine := rx\<lparr>re_fsm := f\<lparr>rf_rx_eng_to_tx_app_notification := [],
          rf_rx_eng_to_tx_app_new_client_notification := []\<rparr>\<rparr>,
        to_timers := tim\<lparr>tw_retransmit_timer := r\<lparr>rt_rtimer_to_tx_app_notification := []\<rparr>\<rparr>,
        to_slookup := k\<lparr>sk_slookup_to_tx_app_rsp := [], sk_slookup_to_tx_app_check_tdest_rsp := []\<rparr>,
        to_port_table := p\<lparr>pt_ptable_to_tx_app_rsp := []\<rparr>,
        to_state_table := t\<lparr>st_sttable_to_tx_app_rsp := [], st_sttable_to_tx_app_lup_rsp := []\<rparr>,
        to_tx_sar := sar\<lparr>ts_tx_sar_to_tx_app_upd_req := []\<rparr>\<rparr>)"

definition toe_tx_engine :: "build \<Rightarrow> 16 word \<Rightarrow> 16 word \<Rightarrow> Toe \<Rightarrow> Toe" where
  "toe_tx_engine bld u v s =
     (let tx = to_tx_engine s; g = tg_fsm tx; e = to_events s; rsar = to_rx_sar s; tsar = to_tx_sar s; k = to_slookup s in
      s\<lparr>to_tx_engine := tx_engine bld u v (tx
          \<lparr>tg_fsm := g
             \<lparr>xf_ack_delay_to_tx_eng_event := xf_ack_delay_to_tx_eng_event g @ ep_ack_delay_to_tx_eng_event e,
              xf_rx_sar_to_tx_eng_lup_rsp := xf_rx_sar_to_tx_eng_lup_rsp g @ rs_rx_sar_to_tx_eng_lup_rsp rsar,
              xf_tx_sar_to_tx_eng_rsp := xf_tx_sar_to_tx_eng_rsp g @ ts_tx_sar_to_tx_eng_rsp tsar\<rparr>,
           tg_tuple := (tg_tuple tx)
             \<lparr>xt_slookup_rev_table_to_tx_eng_rsp :=
                xt_slookup_rev_table_to_tx_eng_rsp (tg_tuple tx) @ sk_slookup_rev_table_to_tx_eng_rsp k\<rparr>\<rparr>),
        to_events := e\<lparr>ep_ack_delay_to_tx_eng_event := []\<rparr>,
        to_rx_sar := rsar\<lparr>rs_rx_sar_to_tx_eng_lup_rsp := []\<rparr>,
        to_tx_sar := tsar\<lparr>ts_tx_sar_to_tx_eng_rsp := []\<rparr>,
        to_slookup := k\<lparr>sk_slookup_rev_table_to_tx_eng_rsp := []\<rparr>\<rparr>)"

definition toe_tx_sar :: "Toe \<Rightarrow> Toe" where
  "toe_tx_sar s =
     (let sar = to_tx_sar s; app = to_tx_app s; rx = to_rx_engine s; tx = to_tx_engine s in
      s\<lparr>to_tx_sar := tx_sar_table (sar
          \<lparr>TxSar.ts_tx_app_to_tx_sar_upd_req :=
             TxSar.ts_tx_app_to_tx_sar_upd_req sar @ TxAppRsp.ts_tx_app_to_tx_sar_upd_req (ta_rsp app),
           ts_rx_eng_to_tx_sar_req := ts_rx_eng_to_tx_sar_req sar @ rf_rx_eng_to_tx_sar_req (re_fsm rx),
           ts_tx_eng_to_tx_sar_req := ts_tx_eng_to_tx_sar_req sar @ xf_tx_eng_to_tx_sar_req (tg_fsm tx)\<rparr>),
        to_tx_app := app\<lparr>ta_rsp := (ta_rsp app)\<lparr>TxAppRsp.ts_tx_app_to_tx_sar_upd_req := []\<rparr>\<rparr>,
        to_rx_engine := rx\<lparr>re_fsm := (re_fsm rx)\<lparr>rf_rx_eng_to_tx_sar_req := []\<rparr>\<rparr>,
        to_tx_engine := tx\<lparr>tg_fsm := (tg_fsm tx)\<lparr>xf_tx_eng_to_tx_sar_req := []\<rparr>\<rparr>\<rparr>)"

section \<open>One cycle\<close>

text \<open>\<open>bld\<close>, \<open>u\<close> and \<open>v\<close> are the build and the uninitialised locals of the two engines.\<close>

definition toe_top :: "build \<Rightarrow> 4 word \<Rightarrow> 16 word \<Rightarrow> 16 word \<Rightarrow> Toe \<Rightarrow> Toe" where
  "toe_top bld u v w s =
     toe_tx_sar (toe_tx_engine bld v w (toe_tx_app (toe_timers bld (toe_state_table (toe_slookup (toe_rx_sar (toe_rx_engine u
       (toe_rx_app (toe_port_table (toe_event_engine (toe_ack_delay bld s)))))))))))"

text \<open>Power-up.  The tables of the timers and of the two SAR modules have no initial value in the source.\<close>

definition toe_init :: "TimerWrapper \<Rightarrow> RxSar \<Rightarrow> TxSar \<Rightarrow> Toe" where
  "toe_init tim rsar tsar =
     \<lparr>to_events = event_path_init, to_port_table = port_table_init, to_rx_app = rx_app_init, to_rx_engine = rx_engine_init,
      to_rx_sar = rsar, to_slookup = slookup_init, to_state_table = state_table_init, to_timers = tim,
      to_tx_app = tx_app_init, to_tx_engine = tx_engine_init, to_tx_sar = tsar\<rparr>"

lemmas toe_calls = toe_ack_delay_def toe_event_engine_def toe_port_table_def toe_rx_app_def toe_rx_engine_def toe_rx_sar_def
  toe_slookup_def toe_state_table_def toe_timers_def toe_tx_app_def toe_tx_engine_def toe_tx_sar_def

end
