(* ===== verification/Toe_Sessions.thy ===== *)
theory Toe_Sessions
  imports Toe
begin

text \<open>
  The composed engine and the state of a session.  Three processes change it: the receive engine, which reads it, decides
  and writes; the transmit interface, which opens and closes connections; and the timers.  Their
  requests travel through FIFOs and are delayed by locks.  The theorems show that nevertheless every change,
  in any run of \<open>toe_top\<close>, is one step of the TCP state diagram from the state the session has at that
  moment; and what an acknowledgment that the receive engine ignores does to the lock.
\<close>

section \<open>The protocols of the two clients\<close>

text \<open>\<open>P\<close> are the requests of a client that are not served, \<open>R\<close> the answers it has not read.  The receive
  engine has at most one write on its way, under the lock, and that write is a step of the diagram; behind it the next read;
  or it has its answer, and the lock.\<close>

definition rx_write_ok :: "(TcpSessionID \<Rightarrow> SessionState) \<Rightarrow> TcpSessionID option \<Rightarrow> StateTableReq list \<Rightarrow> bool" where
  "rx_write_ok tab lock ws \<longleftrightarrow>
     ws = [] \<or> (\<exists>sid ev st. ws = [StateTableReq_write sid st] \<and> lock = Some sid \<and> tcp_rx (tab sid) ev st)"

definition rx_protocol ::
  "(TcpSessionID \<Rightarrow> SessionState) \<Rightarrow> TcpSessionID option \<Rightarrow> StateTableReq list \<Rightarrow> SessionState list \<Rightarrow> RxEngTcpFsmState \<Rightarrow>
   TcpSessionID \<Rightarrow> bool" where
  "rx_protocol tab lock P R st sid \<longleftrightarrow>
     (if st = LOAD then R = [] \<and> rx_write_ok tab lock P
      else (R = [] \<and> (\<exists>ws. P = ws @ [StateTableReq_read sid] \<and> rx_write_ok tab lock ws)) \<or>
        (R = [tab sid] \<and> P = [] \<and> lock = Some sid))"

text \<open>The transmit interface reads before it closes a session, and writes the answer back or closes it; the writes for new
  sessions come unasked, behind.\<close>

definition closed_by_app :: "SessionState \<Rightarrow> SessionState" where
  "closed_by_app st = (if st = ESTABLISHED \<or> st = FIN_WAIT_1 then FIN_WAIT_1 else st)"

definition tx_write_ok :: "(TcpSessionID \<Rightarrow> SessionState) \<Rightarrow> TcpSessionID option \<Rightarrow> StateTableReq list \<Rightarrow> bool" where
  "tx_write_ok tab lock ws \<longleftrightarrow>
     (\<exists>cs os. ws = cs @ map (\<lambda>k. StateTableReq_write k SYN_SENT) os \<and>
        (cs = [] \<or> (\<exists>sid. cs = [StateTableReq_write sid (closed_by_app (tab sid))] \<and> lock = Some sid)))"

definition tx_protocol ::
  "(TcpSessionID \<Rightarrow> SessionState) \<Rightarrow> TcpSessionID option \<Rightarrow> StateTableReq list \<Rightarrow> SessionState list \<Rightarrow> TxAppConnFsmState \<Rightarrow>
   TcpSessionID \<Rightarrow> bool" where
  "tx_protocol tab lock P R st sid \<longleftrightarrow>
     (if st \<noteq> CLOSE_CONN then R = [] \<and> tx_write_ok tab lock P
      else (R = [] \<and> (\<exists>ws. P = ws @ [StateTableReq_read sid] \<and> tx_write_ok tab lock ws)) \<or>
        (R = [tab sid] \<and> P = [] \<and> lock = Some sid))"

text \<open>One step of a session, whoever takes it.\<close>

inductive session_step :: "SessionState \<Rightarrow> SessionState \<Rightarrow> bool" where
  received: "tcp_rx st ev st' \<Longrightarrow> session_step st st'"
| opened: "session_step st SYN_SENT"
| app_closed: "session_step st (closed_by_app st)"
| timed_out: "session_step st CLOSED"

code_pred session_step .

lemma session_step_refl: "session_step st st"
  by (rule received [OF tcp_rx.unchanged])

section \<open>The table serves the protocols\<close>

lemma read_write_requests [simp]:
  "sr_write (StateTableReq_write k st)" "sr_session_id (StateTableReq_write k st) = k" "sr_state (StateTableReq_write k st) = st"
  "\<not> sr_write (StateTableReq_read k)" "sr_session_id (StateTableReq_read k) = k"
  by (simp_all add: StateTableReq_write_def StateTableReq_read_def)

lemma rx_write_ok_Nil [simp]: "rx_write_ok tab lock []" by (simp add: rx_write_ok_def)

lemma tx_write_ok_Nil [simp]: "tx_write_ok tab lock []" by (simp add: tx_write_ok_def)

lemma tx_write_ok_snoc: "tx_write_ok tab lock ws \<Longrightarrow> tx_write_ok tab lock (ws @ [StateTableReq_write k SYN_SENT])"
proof -
  assume "tx_write_ok tab lock ws"
  then obtain cs os where c: "ws = cs @ map (\<lambda>k. StateTableReq_write k SYN_SENT) os"
      "cs = [] \<or> (\<exists>sid. cs = [StateTableReq_write sid (closed_by_app (tab sid))] \<and> lock = Some sid)"
    unfolding tx_write_ok_def by blast
  show ?thesis unfolding tx_write_ok_def by (rule exI [of _ cs], rule exI [of _ "os @ [k]"]) (use c(2) in \<open>simp add: c(1)\<close>)
qed

text \<open>A session that a client has locked is not touched by anybody else.\<close>

lemma rx_write_ok_other:
  "rx_write_ok tab lock ws \<Longrightarrow> (\<And>sid. lock = Some sid \<Longrightarrow> tab' sid = tab sid) \<Longrightarrow> rx_write_ok tab' lock ws"
  by (auto simp: rx_write_ok_def)

lemma tx_write_ok_other:
  "tx_write_ok tab lock ws \<Longrightarrow> (\<And>sid. lock = Some sid \<Longrightarrow> tab' sid = tab sid) \<Longrightarrow> tx_write_ok tab' lock ws"
  unfolding tx_write_ok_def by metis

lemma rx_protocol_other:
  "rx_protocol tab lock P R st sid \<Longrightarrow> (\<And>sid. lock = Some sid \<Longrightarrow> tab' sid = tab sid) \<Longrightarrow> rx_protocol tab' lock P R st sid"
  by (auto simp: rx_protocol_def intro: rx_write_ok_other split: if_splits)

lemma tx_protocol_other:
  "tx_protocol tab lock P R st sid \<Longrightarrow> (\<And>sid. lock = Some sid \<Longrightarrow> tab' sid = tab sid) \<Longrightarrow> tx_protocol tab' lock P R st sid"
  by (auto simp: tx_protocol_def intro: tx_write_ok_other split: if_splits)

lemma protocol_update:
  assumes "lock \<noteq> Some k"
  shows "rx_protocol tab lock P R st sid \<Longrightarrow> rx_protocol (tab(k := v)) lock P R st sid"
    and "tx_protocol tab lock P R st' sid \<Longrightarrow> tx_protocol (tab(k := v)) lock P R st' sid"
  by (erule rx_protocol_other, use assms in auto) (erule tx_protocol_other, use assms in auto)

lemma tx_write_ok_Cons:
  assumes "tx_write_ok tab lock (r # ws)"
  shows "sr_write r \<and> (sr_state r = SYN_SENT \<or> sr_state r = closed_by_app (tab (sr_session_id r))) \<and>
     (\<forall>tab' lock'. tx_write_ok tab' lock' ws)"
proof -
  obtain cs os where c: "r # ws = cs @ map (\<lambda>k. StateTableReq_write k SYN_SENT) os"
      "cs = [] \<or> (\<exists>sid. cs = [StateTableReq_write sid (closed_by_app (tab sid))] \<and> lock = Some sid)"
    using assms by (auto simp: tx_write_ok_def)
  have opens: "tx_write_ok tab' lock' (map (\<lambda>k. StateTableReq_write k SYN_SENT) ks)" for tab' lock' ks
    unfolding tx_write_ok_def by (intro exI [of _ "[]"] exI [of _ ks]) simp
  show ?thesis
  proof (cases "cs = []")
    case True
    then obtain k ks where "os = k # ks" using c(1) by (cases os) auto
    then show ?thesis using c True opens by auto
  next
    case False
    then show ?thesis using c opens by auto
  qed
qed

text \<open>The first request of a client is served.\<close>

lemma rx_served_protocol:
  assumes "rx_protocol tab lock (r # P) R st sid"
  shows "if sr_write r then (\<exists>ev. tcp_rx (tab (sr_session_id r)) ev (sr_state r)) \<and>
       (\<forall>tab' lock'. rx_protocol tab' lock' P R st sid)
     else rx_protocol tab (Some (sr_session_id r)) P (R @ [tab (sr_session_id r)]) st sid"
proof -
  have w: "sr_write r \<and> ws' = [] \<and> (\<exists>ev. tcp_rx (tab (sr_session_id r)) ev (sr_state r))" if "rx_write_ok tab lock (r # ws')" for ws'
    using that by (auto simp: rx_write_ok_def)
  consider "st = LOAD" "R = []" "rx_write_ok tab lock (r # P)"
    | ws where "st \<noteq> LOAD" "R = []" "r # P = ws @ [StateTableReq_read sid]" "rx_write_ok tab lock ws"
    using assms by (auto simp: rx_protocol_def split: if_splits)
  then show ?thesis
  proof cases
    case 1
    then show ?thesis using w [of P] by (simp add: rx_protocol_def)
  next
    case 2
    then show ?thesis
    proof (cases ws)
      case Nil
      then show ?thesis using 2 by (simp add: rx_protocol_def)
    next
      case (Cons r' ws')
      then have "r' = r" "ws' = []" "P = [StateTableReq_read sid]" using 2 w [of ws'] by auto
      then show ?thesis using 2 Cons w [of "[]"] by (auto simp: rx_protocol_def)
    qed
  qed
qed

lemma tx_served_protocol:
  assumes "tx_protocol tab lock (r # P) R st sid"
  shows "if sr_write r then (sr_state r = SYN_SENT \<or> sr_state r = closed_by_app (tab (sr_session_id r))) \<and>
       (\<forall>tab' lock'. tx_protocol tab' lock' P R st sid)
     else tx_protocol tab (Some (sr_session_id r)) P (R @ [tab (sr_session_id r)]) st sid"
proof -
  consider "st \<noteq> CLOSE_CONN" "R = []" "tx_write_ok tab lock (r # P)"
    | ws where "st = CLOSE_CONN" "R = []" "r # P = ws @ [StateTableReq_read sid]" "tx_write_ok tab lock ws"
    using assms by (auto simp: tx_protocol_def split: if_splits)
  then show ?thesis
  proof cases
    case 1
    then show ?thesis using tx_write_ok_Cons [of tab lock r P] by (auto simp: tx_protocol_def)
  next
    case 2
    then show ?thesis
    proof (cases ws)
      case Nil
      then show ?thesis using 2 by (simp add: tx_protocol_def)
    next
      case (Cons r' ws')
      then have "r' = r" "P = ws' @ [StateTableReq_read sid]" using 2 by auto
      then show ?thesis using 2 Cons tx_write_ok_Cons [of tab lock r ws'] by (auto simp: tx_protocol_def)
    qed
  qed
qed

text \<open>One cycle of the table: both protocols go on, and the session that changes makes a step.\<close>

definition rx_lock :: "StateTable \<Rightarrow> TcpSessionID option" where
  "rx_lock t = fst (snd (stt_abs t))"

definition tx_lock :: "StateTable \<Rightarrow> TcpSessionID option" where
  "tx_lock t = snd (snd (stt_abs t))"

lemma state_table_protocols:
  assumes "rx_protocol (st_table t) (rx_lock t) (rx_outstanding t @ qs) (rs @ st_sttable_to_rx_eng_rsp t) st sid"
    and "tx_protocol (st_table t) (tx_lock t) (tx_outstanding t @ qs') (rs' @ st_sttable_to_tx_app_rsp t) st' sid'"
  shows "let t' = state_table t in
     rx_protocol (st_table t') (rx_lock t') (rx_outstanding t' @ qs) (rs @ st_sttable_to_rx_eng_rsp t') st sid \<and>
     tx_protocol (st_table t') (tx_lock t') (tx_outstanding t' @ qs') (rs' @ st_sttable_to_tx_app_rsp t') st' sid' \<and>
     (\<forall>k. session_step (st_table t k) (st_table t' k))"
proof -
  obtain a where a: "stt_simulates a t (state_table t)" using state_table_simulates by blast
  obtain rl tl where ab: "stt_abs t = (st_table t, rl, tl)" by (cases "stt_abs t") (metis fst_conv fst_stt_abs)
  obtain tab' rl' tl' where ab': "stt_abs (state_table t) = (tab', rl', tl')" by (cases "stt_abs (state_table t)") auto
  have tab': "st_table (state_table t) = tab'" using fst_stt_abs [of "state_table t"] ab' by simp
  note s = a [unfolded stt_simulates_def stt_serves_def stt_answers_def ab ab']
  note d = rx_lock_def tx_lock_def ab ab' tab' session_step_refl Let_def
  note b = assms [unfolded rx_lock_def tx_lock_def ab fst_conv snd_conv]
  show ?thesis
  proof (cases a)
    case (Rx_Access r)
    note s = s [unfolded Rx_Access, simplified]
    have "rx_protocol (st_table t) rl (r # rx_outstanding (state_table t) @ qs) (rs @ st_sttable_to_rx_eng_rsp t) st sid"
      using b(1) s by simp
    from rx_served_protocol [OF this] show ?thesis
      using s b(2) protocol_update(2) [of tl "sr_session_id r"]
      by (cases "sr_write r") (auto simp: d intro: session_step.intros)
  next
    case (Tx_Access r)
    note s = s [unfolded Tx_Access, simplified]
    have "tx_protocol (st_table t) tl (r # tx_outstanding (state_table t) @ qs') (rs' @ st_sttable_to_tx_app_rsp t) st' sid'"
      using b(2) s by simp
    from tx_served_protocol [OF this] show ?thesis
      using s b(1) protocol_update(1) [of rl "sr_session_id r"]
      by (cases "sr_write r") (auto simp: d intro: session_step.intros)
  next
    case (Release k)
    note s = s [unfolded Release, simplified]
    show ?thesis
      using s b protocol_update(1) [of rl k] protocol_update(2) [of tl k]
      by (auto simp: d intro: session_step.intros)
  next
    case (Lookup k)
    note s = s [unfolded Lookup, simplified]
    show ?thesis using s b by (simp add: d)
  next
    case Idle
    note s = s [unfolded Idle, simplified]
    show ?thesis using s b by (simp add: d)
  qed
qed
section \<open>The two clients\<close>

definition rx_client :: "(TcpSessionID \<Rightarrow> SessionState) \<Rightarrow> TcpSessionID option \<Rightarrow> StateTableReq list \<Rightarrow> RxFsm \<Rightarrow> bool" where
  "rx_client tab lock P f \<longleftrightarrow> fsm_inv f \<and>
     rx_protocol tab lock (P @ rf_rx_eng_to_sttable_req f) (rf_sttable_to_rx_eng_rsp f) (rf_fsm_state f) (fsm_sid f)"

lemma part_responses [simp]:
  "rf_sttable_to_rx_eng_rsp (ack_congestion s) = rf_sttable_to_rx_eng_rsp s"
  "rf_sttable_to_rx_eng_rsp (ack_tx_sar s) = rf_sttable_to_rx_eng_rsp s"
  "rf_sttable_to_rx_eng_rsp (ack_payload s) = rf_sttable_to_rx_eng_rsp s"
  "rf_sttable_to_rx_eng_rsp (Rx_Fsm.ack_event s) = rf_sttable_to_rx_eng_rsp s"
  "rf_sttable_to_rx_eng_rsp (ack_state s) = rf_sttable_to_rx_eng_rsp s"
  "rf_sttable_to_rx_eng_rsp (ack_refused s) = rf_sttable_to_rx_eng_rsp s"
  "rf_sttable_to_rx_eng_rsp (fin_tables u s) = rf_sttable_to_rx_eng_rsp s"
  "rf_sttable_to_rx_eng_rsp (fin_payload s) = rf_sttable_to_rx_eng_rsp s"
  "rf_sttable_to_rx_eng_rsp (fin_state s) = rf_sttable_to_rx_eng_rsp s"
  "rf_sttable_to_rx_eng_rsp (fin_refused s) = rf_sttable_to_rx_eng_rsp s"
  by (simp_all add: ack_congestion_def ack_tx_sar_def ack_payload_def Rx_Fsm.ack_event_def ack_state_def ack_refused_def fin_tables_def
      fin_payload_def fin_state_def fin_refused_def fsm_writes Let_def split: SessionState.split)

lemma case_responses [simp]:
  "rf_sttable_to_rx_eng_rsp (fsm_ack s) = rf_sttable_to_rx_eng_rsp s" "rf_sttable_to_rx_eng_rsp (fsm_syn s) = rf_sttable_to_rx_eng_rsp s"
  "rf_sttable_to_rx_eng_rsp (fsm_syn_ack s) = rf_sttable_to_rx_eng_rsp s"
  "rf_sttable_to_rx_eng_rsp (fsm_fin_ack u s) = rf_sttable_to_rx_eng_rsp s"
  "rf_sttable_to_rx_eng_rsp (fsm_other s) = rf_sttable_to_rx_eng_rsp s"
  by (simp_all add: fsm_ack_def fsm_syn_def fsm_syn_ack_def fsm_fin_ack_def fsm_other_def Let_def) (simp_all add: fsm_writes)

lemma transition_responses: "rf_sttable_to_rx_eng_rsp (transition u s) = rf_sttable_to_rx_eng_rsp s"
  by (simp add: transition_def)

text \<open>The state machine of the receive engine keeps to its protocol: its write is a step from the state it read.\<close>

lemma rx_fsm_protocol:
  assumes "rx_client tab lock P f"
  shows "rx_client tab lock P (RxEngTcpFsm u f)"
proof -
  have inv: "fsm_inv f" and p: "rx_protocol tab lock (P @ rf_rx_eng_to_sttable_req f) (rf_sttable_to_rx_eng_rsp f) (rf_fsm_state f) (fsm_sid f)"
    using assms by (simp_all add: rx_client_def)
  note inv' = fsm_inv_step [OF inv, of u]
  show ?thesis
  proof (cases "rf_fsm_state f")
    case LOAD
    then show ?thesis using p inv'
      by (cases "rf_rx_eng_fsm_meta_data_in f")
        (auto simp: rx_client_def rx_protocol_def RxEngTcpFsm_def fsm_load_def)
  next
    case TRANSITION
    show ?thesis
    proof (cases "fsm_responses_ready f")
      case False
      then show ?thesis using assms TRANSITION by (simp add: RxEngTcpFsm_def)
    next
      case True
      let ?r = "fsm_read_responses f"
      note t = responses_inv [OF inv TRANSITION True]
      have "rf_sttable_to_rx_eng_rsp f \<noteq> []" using True by (simp add: fsm_responses_ready_def)
      then have a: "rf_sttable_to_rx_eng_rsp f = [tab (fsm_sid f)]" "P = []" "rf_rx_eng_to_sttable_req f = []" "lock = Some (fsm_sid f)"
        using p TRANSITION by (auto simp: rx_protocol_def)
      have r: "rf_session_state_reg ?r = tab (fsm_sid f)" "rf_rx_eng_to_sttable_req ?r = []" "fsm_sid ?r = fsm_sid f"
          "rf_fsm_state ?r = LOAD" "rf_sttable_to_rx_eng_rsp ?r = []"
        using a by (simp_all add: fsm_read_responses_def)
      have fr: "rf_fsm_state (transition u ?r) = LOAD"
        using frame_transition [of ?r u] r(4) by (simp add: fsm_frame_def)
      have rsp: "rf_sttable_to_rx_eng_rsp (transition u ?r) = []"
        using r(5) transition_responses [of u ?r] by simp
      have "rx_write_ok tab lock (rf_rx_eng_to_sttable_req (transition u ?r))"
      proof (cases "stale_ack ?r")
        case True
        then show ?thesis using transition_effects [OF t(2), of u] r(2) by (simp add: no_effects_def)
      next
        case False
        then obtain st' where "tcp_rx (rf_session_state_reg ?r) (segment_event ?r) st'" "effects ?r st' (transition u ?r)"
          using transition_effects [OF t(2), of u] by auto
        then show ?thesis using r a(4) by (auto simp: effects_def rx_write_ok_def)
      qed
      then show ?thesis using inv' fr rsp a(2) by (simp add: rx_client_def rx_protocol_def t(1))
    qed
  qed
qed

definition tx_client :: "(TcpSessionID \<Rightarrow> SessionState) \<Rightarrow> TcpSessionID option \<Rightarrow> StateTableReq list \<Rightarrow> TxAppConn \<Rightarrow> bool" where
  "tx_client tab lock P c \<longleftrightarrow>
     tx_protocol tab lock (P @ tc_tx_app_to_sttable_req c) (tc_sttable_to_tx_app_rsp c) (tc_fsm_state c)
       (ac_data (tc_app_close_session_reg c))"

lemma tx_conn_protocol:
  assumes "tx_client tab lock P c"
  shows "tx_client tab lock P (TxAppConnectionHandler c)"
proof -
  let ?c = "conn_free_port c"
  have p: "tx_client tab lock P ?c" using assms by (simp add: tx_client_def)
  have "tx_client tab lock P (conn_fsm ?c)"
  proof (cases "tc_fsm_state ?c")
    case CLOSE_CONN
    show ?thesis
    proof (cases "tc_sttable_to_tx_app_rsp ?c")
      case Nil
      then show ?thesis using p CLOSE_CONN by (simp add: conn_fsm_def)
    next
      case (Cons st sts)
      define k where "k = ac_data (tc_app_close_session_reg ?c)"
      have "tc_sttable_to_tx_app_rsp ?c = [tab k]" "P = []" "tc_tx_app_to_sttable_req ?c = []" "lock = Some k"
        using p CLOSE_CONN Cons by (auto simp: tx_client_def tx_protocol_def k_def simp del: conn_free_port_frame)
      moreover from this have "tx_write_ok tab lock [StateTableReq_write k (closed_by_app (tab k))]"
        unfolding tx_write_ok_def by (intro exI [of _ "[StateTableReq_write k (closed_by_app (tab k))]"] exI [of _ "[]"]) simp
      ultimately show ?thesis using CLOSE_CONN
        by (simp add: conn_fsm_def conn_close_state_def tx_client_def tx_protocol_def Let_def k_def [symmetric] closed_by_app_def
            del: conn_free_port_frame)
    qed
  next
    case CONN_IDLE
    note w = tx_write_ok_snoc [of tab lock "P @ tc_tx_app_to_sttable_req ?c"]
    show ?thesis using p CONN_IDLE w
      by (auto simp: conn_fsm_def conn_idle_def conn_session_def conn_active_def conn_passive_def conn_close_def
          tx_client_def tx_protocol_def simp del: conn_free_port_frame split: list.splits)
  qed (use p in \<open>auto simp: conn_fsm_def conn_active_tdest_def conn_passive_tdest_def tx_client_def tx_protocol_def
      simp del: conn_free_port_frame split: list.splits\<close>)
  then show ?thesis by (simp add: TxAppConnectionHandler_def)
qed
section \<open>The engine\<close>

definition sessions_ok :: "Toe \<Rightarrow> bool" where
  "sessions_ok s \<longleftrightarrow>
     (let t = to_state_table s; f = re_fsm (to_rx_engine s); c = ta_conn (to_tx_app s) in
      fsm_inv f \<and>
      rx_protocol (st_table t) (rx_lock t) (rx_outstanding t @ rf_rx_eng_to_sttable_req f)
        (rf_sttable_to_rx_eng_rsp f @ st_sttable_to_rx_eng_rsp t) (rf_fsm_state f) (fsm_sid f) \<and>
      tx_protocol (st_table t) (tx_lock t) (tx_outstanding t @ tc_tx_app_to_sttable_req c)
        (tc_sttable_to_tx_app_rsp c @ st_sttable_to_tx_app_rsp t) (tc_fsm_state c) (ac_data (tc_app_close_session_reg c)))"

lemmas lock_defs = rx_lock_def tx_lock_def stt_abs_def rx_outstanding_def tx_outstanding_def

lemma lock_streams [simp]:
  "rx_lock (t\<lparr>st_sttable_to_rx_eng_rsp := x\<rparr>) = rx_lock t"
  "rx_lock (t\<lparr>st_sttable_to_tx_app_rsp := x\<rparr>) = rx_lock t"
  "rx_lock (t\<lparr>st_sttable_to_tx_app_lup_rsp := x\<rparr>) = rx_lock t"
  "rx_lock (t\<lparr>st_sttable_to_slookup_release_req := y\<rparr>) = rx_lock t"
  "tx_lock (t\<lparr>st_sttable_to_rx_eng_rsp := x\<rparr>) = tx_lock t"
  "tx_lock (t\<lparr>st_sttable_to_tx_app_rsp := x\<rparr>) = tx_lock t"
  "tx_lock (t\<lparr>st_sttable_to_tx_app_lup_rsp := x\<rparr>) = tx_lock t"
  "tx_lock (t\<lparr>st_sttable_to_slookup_release_req := y\<rparr>) = tx_lock t"
  "rx_outstanding (t\<lparr>st_sttable_to_rx_eng_rsp := x\<rparr>) = rx_outstanding t"
  "rx_outstanding (t\<lparr>st_sttable_to_tx_app_rsp := x\<rparr>) = rx_outstanding t"
  "rx_outstanding (t\<lparr>st_sttable_to_tx_app_lup_rsp := x\<rparr>) = rx_outstanding t"
  "rx_outstanding (t\<lparr>st_sttable_to_slookup_release_req := y\<rparr>) = rx_outstanding t"
  "tx_outstanding (t\<lparr>st_sttable_to_rx_eng_rsp := x\<rparr>) = tx_outstanding t"
  "tx_outstanding (t\<lparr>st_sttable_to_tx_app_rsp := x\<rparr>) = tx_outstanding t"
  "tx_outstanding (t\<lparr>st_sttable_to_tx_app_lup_rsp := x\<rparr>) = tx_outstanding t"
  "tx_outstanding (t\<lparr>st_sttable_to_slookup_release_req := y\<rparr>) = tx_outstanding t"
  by (simp_all add: lock_defs)

text \<open>Nine of the calls do not concern the state table and its two clients.\<close>

lemma sessions_ok_frames:
  "sessions_ok (toe_ack_delay bld s) = sessions_ok s" "sessions_ok (toe_event_engine s) = sessions_ok s"
  "sessions_ok (toe_port_table s) = sessions_ok s" "sessions_ok (toe_rx_app s) = sessions_ok s"
  "sessions_ok (toe_rx_sar s) = sessions_ok s" "sessions_ok (toe_slookup s) = sessions_ok s"
  "sessions_ok (toe_timers bld s) = sessions_ok s" "sessions_ok (toe_tx_engine bld v w s) = sessions_ok s"
  "sessions_ok (toe_tx_sar s) = sessions_ok s"
  by (simp_all add: sessions_ok_def toe_calls fsm_inv_def Let_def)

text \<open>The state machine in one cycle of the engine.\<close>

lemma fsm_of_toe:
  "\<exists>g evs. re_fsm (to_rx_engine (toe_rx_engine u s)) = (RxEngTcpFsm u g)
       \<lparr>rf_rx_eng_to_mem_cmd := [], rf_rx_eng_to_rx_app_notification := [], rf_set_event := evs\<rparr> \<and>
     fsm_env (re_fsm (to_rx_engine s)) g \<and>
     rf_rx_eng_to_sttable_req g = rf_rx_eng_to_sttable_req (re_fsm (to_rx_engine s)) \<and>
     rf_sttable_to_rx_eng_rsp g = rf_sttable_to_rx_eng_rsp (re_fsm (to_rx_engine s)) @ st_sttable_to_rx_eng_rsp (to_state_table s)"
proof -
  obtain x where x: "to_rx_engine (toe_rx_engine u s) = rx_engine u x" "fsm_env (re_fsm (to_rx_engine s)) (re_fsm x)"
      "rf_rx_eng_to_sttable_req (re_fsm x) = rf_rx_eng_to_sttable_req (re_fsm (to_rx_engine s))"
      "rf_sttable_to_rx_eng_rsp (re_fsm x) = rf_sttable_to_rx_eng_rsp (re_fsm (to_rx_engine s)) @ st_sttable_to_rx_eng_rsp (to_state_table s)"
    by (simp add: toe_rx_engine_def fsm_env_def Let_def)
  obtain metas evs where e: "re_fsm (rx_engine u x) =
     (RxEngTcpFsm u ((re_fsm x)\<lparr>rf_tcp_payload_dropped_by_rx_fsm := [],
        rf_rx_eng_fsm_meta_data_in := rf_rx_eng_fsm_meta_data_in (re_fsm x) @ metas\<rparr>))
     \<lparr>rf_rx_eng_to_mem_cmd := [], rf_rx_eng_to_rx_app_notification := [], rf_set_event := evs\<rparr>"
    using fsm_of_engine by blast
  show ?thesis unfolding x(1) by (rule exI, rule exI [of _ evs], rule conjI, rule e) (use x(2-) in \<open>simp add: fsm_env_def\<close>)
qed

lemma sessions_ok_rx_engine: "sessions_ok s \<Longrightarrow> sessions_ok (toe_rx_engine u s)"
proof -
  assume ok: "sessions_ok s"
  let ?t = "to_state_table s"
  obtain g evs where g: "re_fsm (to_rx_engine (toe_rx_engine u s)) = (RxEngTcpFsm u g)
       \<lparr>rf_rx_eng_to_mem_cmd := [], rf_rx_eng_to_rx_app_notification := [], rf_set_event := evs\<rparr>"
      "fsm_env (re_fsm (to_rx_engine s)) g"
      "rf_rx_eng_to_sttable_req g = rf_rx_eng_to_sttable_req (re_fsm (to_rx_engine s))"
      "rf_sttable_to_rx_eng_rsp g = rf_sttable_to_rx_eng_rsp (re_fsm (to_rx_engine s)) @ st_sttable_to_rx_eng_rsp ?t"
    using fsm_of_toe by blast
  have "rx_client (st_table ?t) (rx_lock ?t) (rx_outstanding ?t) g"
    using ok g(2-) by (simp add: sessions_ok_def rx_client_def fsm_inv_def fsm_env_def Let_def)
  from rx_fsm_protocol [OF this] have c: "rx_client (st_table ?t) (rx_lock ?t) (rx_outstanding ?t) (re_fsm (to_rx_engine (toe_rx_engine u s)))"
    by (simp add: g(1) rx_client_def fsm_inv_def)
  have "to_state_table (toe_rx_engine u s) = ?t\<lparr>st_sttable_to_rx_eng_rsp := []\<rparr>" "to_tx_app (toe_rx_engine u s) = to_tx_app s"
    by (simp_all add: toe_rx_engine_def Let_def)
  with c ok show ?thesis by (simp add: sessions_ok_def rx_client_def Let_def)
qed

lemma conn_of_app: "\<exists>evs. ta_conn (tx_app_intf s) = (TxAppConnectionHandler (ta_conn s))\<lparr>tc_to_event_engine := evs\<rparr>"
  by (simp add: tx_app_intf_def app_run_table_def app_run_rsp_def app_run_events_def app_run_write_def app_run_data_def
      app_run_conn_def split: prod.split) blast

lemma sessions_ok_tx_app: "sessions_ok s \<Longrightarrow> sessions_ok (toe_tx_app s)"
proof -
  assume ok: "sessions_ok s"
  let ?t = "to_state_table s"
  obtain x where x: "to_tx_app (toe_tx_app s) = tx_app_intf x"
      "tc_sttable_to_tx_app_rsp (ta_conn x) = tc_sttable_to_tx_app_rsp (ta_conn (to_tx_app s)) @ st_sttable_to_tx_app_rsp ?t"
      "tc_tx_app_to_sttable_req (ta_conn x) = tc_tx_app_to_sttable_req (ta_conn (to_tx_app s))"
      "tc_fsm_state (ta_conn x) = tc_fsm_state (ta_conn (to_tx_app s))"
      "tc_app_close_session_reg (ta_conn x) = tc_app_close_session_reg (ta_conn (to_tx_app s))"
    by (simp add: toe_tx_app_def Let_def)
  obtain evs where e: "ta_conn (tx_app_intf x) = (TxAppConnectionHandler (ta_conn x))\<lparr>tc_to_event_engine := evs\<rparr>"
    using conn_of_app by blast
  have "tx_client (st_table ?t) (tx_lock ?t) (tx_outstanding ?t) (ta_conn x)"
    using ok x(2-) by (simp add: sessions_ok_def tx_client_def Let_def)
  from tx_conn_protocol [OF this] have "tx_client (st_table ?t) (tx_lock ?t) (tx_outstanding ?t) (ta_conn (to_tx_app (toe_tx_app s)))"
    by (simp add: x(1) e tx_client_def)
  moreover have "to_state_table (toe_tx_app s) = ?t\<lparr>st_sttable_to_tx_app_rsp := [], st_sttable_to_tx_app_lup_rsp := []\<rparr>"
    "re_fsm (to_rx_engine (toe_tx_app s)) = (re_fsm (to_rx_engine s))\<lparr>rf_rx_eng_to_tx_app_notification := [],
       rf_rx_eng_to_tx_app_new_client_notification := []\<rparr>"
    by (simp_all add: toe_tx_app_def Let_def)
  ultimately show ?thesis using ok by (simp add: sessions_ok_def tx_client_def fsm_inv_def Let_def)
qed

lemma sessions_ok_state_table:
  assumes "sessions_ok s"
  shows "sessions_ok (toe_state_table s) \<and>
     session_step (st_table (to_state_table s) k) (st_table (to_state_table (toe_state_table s)) k)"
proof -
  let ?t = "to_state_table s" and ?f = "re_fsm (to_rx_engine s)" and ?c = "ta_conn (to_tx_app s)"
  let ?x = "?t\<lparr>st_timer_to_sttable_release_state :=
             st_timer_to_sttable_release_state ?t @ tw_timer_to_sttable_release_state (to_timers s),
           st_rx_eng_to_sttable_req := st_rx_eng_to_sttable_req ?t @ rf_rx_eng_to_sttable_req ?f,
           st_tx_app_to_sttable_lup_req := st_tx_app_to_sttable_lup_req ?t @ td_tx_app_to_sttable_lup_req (ta_data (to_tx_app s)),
           st_tx_app_to_sttable_req := st_tx_app_to_sttable_req ?t @ tc_tx_app_to_sttable_req ?c\<rparr>"
  have x: "rx_outstanding ?x = rx_outstanding ?t @ rf_rx_eng_to_sttable_req ?f"
      "tx_outstanding ?x = tx_outstanding ?t @ tc_tx_app_to_sttable_req ?c" "rx_lock ?x = rx_lock ?t" "tx_lock ?x = tx_lock ?t"
    by (simp_all add: lock_defs)
  have "to_state_table (toe_state_table s) = state_table ?x"
    "re_fsm (to_rx_engine (toe_state_table s)) = ?f\<lparr>rf_rx_eng_to_sttable_req := []\<rparr>"
    "ta_conn (to_tx_app (toe_state_table s)) = ?c\<lparr>tc_tx_app_to_sttable_req := []\<rparr>"
    by (simp_all add: toe_state_table_def Let_def)
  moreover have "rx_protocol (st_table ?x) (rx_lock ?x) (rx_outstanding ?x @ []) (rf_sttable_to_rx_eng_rsp ?f @ st_sttable_to_rx_eng_rsp ?x)
      (rf_fsm_state ?f) (fsm_sid ?f)"
    "tx_protocol (st_table ?x) (tx_lock ?x) (tx_outstanding ?x @ []) (tc_sttable_to_tx_app_rsp ?c @ st_sttable_to_tx_app_rsp ?x)
      (tc_fsm_state ?c) (ac_data (tc_app_close_session_reg ?c))"
    using assms unfolding x by (simp_all add: sessions_ok_def Let_def)
  from state_table_protocols [OF this] have "rx_protocol (st_table (state_table ?x)) (rx_lock (state_table ?x)) (rx_outstanding (state_table ?x))
      (rf_sttable_to_rx_eng_rsp ?f @ st_sttable_to_rx_eng_rsp (state_table ?x)) (rf_fsm_state ?f) (fsm_sid ?f)"
    "tx_protocol (st_table (state_table ?x)) (tx_lock (state_table ?x)) (tx_outstanding (state_table ?x))
      (tc_sttable_to_tx_app_rsp ?c @ st_sttable_to_tx_app_rsp (state_table ?x)) (tc_fsm_state ?c) (ac_data (tc_app_close_session_reg ?c))"
    "session_step (st_table ?t k) (st_table (state_table ?x) k)"
    by (simp_all add: Let_def)
  ultimately show ?thesis using assms by (simp add: sessions_ok_def fsm_inv_def Let_def)
qed

text \<open>Only the state table writes its table.\<close>

lemma state_table_frames [simp]:
  "st_table (to_state_table (toe_ack_delay bld s)) = st_table (to_state_table s)"
  "st_table (to_state_table (toe_event_engine s)) = st_table (to_state_table s)"
  "st_table (to_state_table (toe_port_table s)) = st_table (to_state_table s)"
  "st_table (to_state_table (toe_rx_app s)) = st_table (to_state_table s)"
  "st_table (to_state_table (toe_rx_engine u s)) = st_table (to_state_table s)"
  "st_table (to_state_table (toe_rx_sar s)) = st_table (to_state_table s)"
  "st_table (to_state_table (toe_slookup s)) = st_table (to_state_table s)"
  "st_table (to_state_table (toe_timers bld s)) = st_table (to_state_table s)"
  "st_table (to_state_table (toe_tx_app s)) = st_table (to_state_table s)"
  "st_table (to_state_table (toe_tx_engine bld v w s)) = st_table (to_state_table s)"
  "st_table (to_state_table (toe_tx_sar s)) = st_table (to_state_table s)"
  by (simp_all add: toe_calls Let_def)

lemma toe_cycle:
  assumes "sessions_ok s"
  shows "sessions_ok (toe_top bld u v w s) \<and>
     session_step (st_table (to_state_table s) k) (st_table (to_state_table (toe_top bld u v w s)) k)"
proof -
  let ?s = "toe_slookup (toe_rx_sar (toe_rx_engine u (toe_rx_app (toe_port_table (toe_event_engine (toe_ack_delay bld s))))))"
  have "sessions_ok ?s" using assms by (simp add: sessions_ok_frames sessions_ok_rx_engine)
  from sessions_ok_state_table [OF this] show ?thesis
    by (simp add: toe_top_def sessions_ok_frames sessions_ok_tx_app)
qed
section \<open>Runs of the engine\<close>

text \<open>The engine without the streams to its surroundings.  Between two cycles the network, the applications, the memory and the
  CAM may do anything to those streams, and nothing else.\<close>

definition toe_private :: "Toe \<Rightarrow> Toe" where
  "toe_private s =
     (let rapp = to_rx_app s; rx = to_rx_engine s; k = to_slookup s; app = to_tx_app s; tx = to_tx_engine s in
      s\<lparr>to_rx_app := rapp
          \<lparr>ra_net_app_to_rx_app_listen_port_req := [], ra_rx_app_to_net_app_listen_port_rsp := [],
           ra_net_app_to_rx_app_recv_data_req := [], ra_rx_app_to_net_app_recv_data_rsp := [], ra_net_app_recv_data := [],
           ra_net_app_notification := [], ra_cmd := (ra_cmd rapp)\<lparr>rc_mover_read_cmd := []\<rparr>,
           ra_data := (ra_data rapp)\<lparr>rd_mover_read_data := []\<rparr>\<rparr>,
        to_rx_engine := rx
          \<lparr>re_pseudo := (re_pseudo rx)\<lparr>ri_rx_ip_pkt_in := []\<rparr>,
           re_write := (re_write rx)\<lparr>wd_mover_write_cmd := [], wd_mover_write_data := []\<rparr>,
           re_notify := (re_notify rx)\<lparr>rn_mover_to_rx_eng_write_status := []\<rparr>\<rparr>,
        to_slookup := k
          \<lparr>sk_rtl_slookup_to_cam_lookup_req := [], sk_rtl_cam_to_slookup_lookup_rsp := [],
           sk_rtl_slookup_to_cam_update_req := [], sk_rtl_cam_to_slookup_update_rsp := []\<rparr>,
        to_tx_app := app
          \<lparr>ta_conn := (ta_conn app)
             \<lparr>tc_net_app_to_tx_app_open_conn_req := [], tc_tx_app_to_net_app_open_conn_rsp := [],
              tc_net_app_to_tx_app_close_conn_req := [], tc_net_app_new_client_notification := []\<rparr>,
           ta_data := (ta_data app)
             \<lparr>td_net_app_to_tx_app_trans_data_req := [], td_tx_app_to_net_app_trans_data_rsp := [], td_net_app_trans_data := []\<rparr>,
           ta_write := (ta_write app)\<lparr>wd_mover_write_cmd := [], wd_mover_write_data := []\<rparr>,
           ta_rsp := (ta_rsp app)\<lparr>ts_mover_to_tx_app_write_status := []\<rparr>\<rparr>,
        to_tx_engine := tx
          \<lparr>tg_cmd := (tg_cmd tx)\<lparr>rc_mover_read_cmd := []\<rparr>, tg_data := (tg_data tx)\<lparr>rd_mover_read_data := []\<rparr>,
           tg_ip := (tg_ip tx)\<lparr>xk_tx_ip_pkt_out := []\<rparr>\<rparr>\<rparr>)"

definition toe_env :: "Toe \<Rightarrow> Toe \<Rightarrow> bool" where
  "toe_env s t \<longleftrightarrow> toe_private t = toe_private s"

definition toe_start :: "Toe \<Rightarrow> bool" where
  "toe_start s \<longleftrightarrow> (\<exists>tim rsar tsar. s = toe_init tim rsar tsar)"

abbreviation toe_reaches :: "build \<Rightarrow> 4 word \<Rightarrow> 16 word \<Rightarrow> 16 word \<Rightarrow> Toe \<Rightarrow> bool" where
  "toe_reaches bld u v w \<equiv> reaches toe_start toe_env (toe_top bld u v w)"

lemma sessions_ok_private: "sessions_ok (toe_private s) = sessions_ok s"
  by (simp add: toe_private_def sessions_ok_def fsm_inv_def Let_def)

lemma sessions_ok_start: "sessions_ok (toe_init tim rsar tsar)"
proof -
  have "rx_outstanding state_table_init = []" "tx_outstanding state_table_init = []" "st_sttable_to_rx_eng_rsp state_table_init = []"
    "st_sttable_to_tx_app_rsp state_table_init = []"
    by (simp_all add: state_table_init_def lock_defs)
  moreover have "rf_rx_eng_to_sttable_req rx_fsm_init = []" "rf_sttable_to_rx_eng_rsp rx_fsm_init = []" "rf_fsm_state rx_fsm_init = LOAD"
    by (simp_all add: rx_fsm_init_def)
  moreover have "tc_tx_app_to_sttable_req tx_app_conn_init = []" "tc_sttable_to_tx_app_rsp tx_app_conn_init = []"
    "tc_fsm_state tx_app_conn_init = CONN_IDLE"
    by (simp_all add: tx_app_conn_init_def)
  moreover have "fsm_inv rx_fsm_init" by (rule rx_fsm.inv_ini) simp
  ultimately show ?thesis
    by (simp add: toe_init_def sessions_ok_def tx_app_init_def rx_protocol_def tx_protocol_def Let_def)
qed

interpretation toe: hls_process toe_start toe_env "toe_top bld u v w" sessions_ok for bld u v w
proof
  fix s t
  show "toe_start s \<Longrightarrow> sessions_ok s"
    by (auto simp: toe_start_def sessions_ok_start)
  show "sessions_ok s \<Longrightarrow> toe_env s t \<Longrightarrow> sessions_ok t"
    using sessions_ok_private [of s] sessions_ok_private [of t] by (simp add: toe_env_def)
  show "sessions_ok s \<Longrightarrow> sessions_ok (toe_top bld u v w s)" by (simp add: toe_cycle)
qed

text \<open>C1: In every run of the whole engine, with any packets, any requests of the applications and any behaviour of the memory
  and the CAM, each cycle moves the state of each session by at most one step: a transition of the TCP state diagram for a
  received segment from the state the session has now, although the engine decided earlier; the opening or
  the closing of a connection by the application, which changes no session but an established one when it
  closes; or the end of a timer.  No update is lost or based on a state that has changed.\<close>

theorem session_changes_follow_tcp:
  assumes "toe_reaches bld u v w s"
  shows "session_step (st_table (to_state_table s) sid) (st_table (to_state_table (toe_top bld u v w s)) sid)"
  using toe_cycle [OF toe.reaches_inv [OF assms]] by simp
inductive_cases session_step_established: "session_step st ESTABLISHED"

text \<open>In particular a session is established by a handshake only.\<close>

lemma established_by_handshake:
  assumes "toe_reaches bld u v w s" and "st_table (to_state_table (toe_top bld u v w s)) sid = ESTABLISHED"
  shows "st_table (to_state_table s) sid \<in> {ESTABLISHED, SYN_RECEIVED, SYN_SENT}"
proof -
  have "session_step (st_table (to_state_table s) sid) ESTABLISHED"
    using toe_cycle [OF toe.reaches_inv [OF assms(1)], of bld u v w sid] assms(2) by simp
  then show ?thesis by (auto elim!: session_step_established elim: tcp_rx_established simp: closed_by_app_def split: if_splits)
qed

definition demo_timers :: TimerWrapper where
  "demo_timers =
     \<lparr>tw_close_timer = \<lparr>ct_close_timer_table = (\<lambda>_. \<lparr>ce_time = 0, ce_active = False\<rparr>), ct_ctimer_cur_session_id = 0,
        ct_ctimer_set_session_id = 0, ct_ctimer_prev_session_id = 0, ct_ctimer_wait_for_write = False,
        ct_rx_eng_to_timer_set_ctimer = [], ct_ctimer_to_sttable_release_state = []\<rparr>,
      tw_retransmit_timer = \<lparr>rt_retrans_timer_table = (\<lambda>_. \<lparr>re_time = 0, re_retries = 0, re_active = False, re_type = TX\<rparr>),
        rt_rtimer_cur_session_id = 0, rt_rtimer_wait_for_write = False, rt_rtimer_prev_session_id = 0,
        rt_rx_eng_req = \<lparr>rr_session_id = 0, rr_stop = False\<rparr>, rt_rx_eng_to_timer_clear_rtimer = [],
        rt_tx_eng_to_timer_set_rtimer = [], rt_rtimer_to_event_eng_set_event = [],
        rt_rtimer_to_event_eng_set_event_full = False, rt_rtimer_to_state_table_release_state = [],
        rt_rtimer_to_rx_app_notification = [], rt_rtimer_to_tx_app_notification = []\<rparr>,
      tw_probe_timer = \<lparr>bt_probe_timer_table = (\<lambda>_. \<lparr>be_time = 0, be_active = False\<rparr>), bt_ptimer_cur_check_session_id = 0,
        bt_ptimer_set_session_id = 0, bt_ptimer_prev_session_id = 0, bt_ptimer_wait_for_write = False,
        bt_rx_eng_to_timer_clear_ptimer = [], bt_tx_eng_to_timer_set_ptimer = [], bt_ptimer_to_event_eng_set_event = [],
        bt_ptimer_to_event_eng_set_event_full = False\<rparr>,
      tw_timer_to_event_eng_set_event = [], tw_timer_to_sttable_release_state = []\<rparr>"

definition toe_demo :: Toe where
  "toe_demo = toe_init demo_timers
     \<lparr>rs_table = (\<lambda>_. \<lparr>rxe_recvd = 0, rxe_app_read = 0, rxe_win_shift = 0\<rparr>), rs_rx_app_to_rx_sar_req = [],
      rs_rx_sar_to_rx_app_rsp = [], rs_rx_eng_to_rx_sar_req = [], rs_rx_sar_to_rx_eng_rsp = [],
      rs_tx_eng_to_rx_sar_lup_req = [], rs_rx_sar_to_tx_eng_lup_rsp = []\<rparr>
     \<lparr>ts_table = (\<lambda>_. tx_sar_demo_entry), TxSar.ts_tx_app_to_tx_sar_upd_req = [], ts_rx_eng_to_tx_sar_req = [],
      ts_tx_sar_to_rx_eng_rsp = [], ts_tx_eng_to_tx_sar_req = [], ts_tx_sar_to_tx_eng_rsp = [],
      ts_tx_sar_to_tx_app_upd_req = []\<rparr>"

text \<open>Three cycles after power-up.\<close>

theorem session_changes_follow_tcp_witness:
  "session_step (st_table (to_state_table ((toe_top Synthesis 0 0 0 ^^ 3) toe_demo)) 5)
     (st_table (to_state_table (toe_top Synthesis 0 0 0 ((toe_top Synthesis 0 0 0 ^^ 3) toe_demo))) 5)"
proof -
  have ini: "toe_start toe_demo" unfolding toe_start_def toe_demo_def by blast
  have "toe_reaches Synthesis 0 0 0 ((toe_top Synthesis 0 0 0 ^^ 3) toe_demo)"
    by (rule funpow_invariant [where P = "toe_reaches Synthesis 0 0 0"])
      (rule reaches.reaches_ini [of toe_start, OF ini], rule reaches.reaches_cycle)
  then show ?thesis by (rule session_changes_follow_tcp)
qed

section \<open>An acknowledgment that is ignored\<close>

text \<open>The state machine as its call in this cycle sees it, with the answers that have arrived.\<close>

definition toe_fsm :: "Toe \<Rightarrow> RxFsm" where
  "toe_fsm s =
     (let f = re_fsm (to_rx_engine s) in
      f\<lparr>rf_rx_sar_to_rx_eng_rsp := rf_rx_sar_to_rx_eng_rsp f @ rs_rx_sar_to_rx_eng_rsp (to_rx_sar s),
        rf_tx_sar_to_rx_eng_rsp := rf_tx_sar_to_rx_eng_rsp f @ ts_tx_sar_to_rx_eng_rsp (to_tx_sar s),
        rf_sttable_to_rx_eng_rsp := rf_sttable_to_rx_eng_rsp f @ st_sttable_to_rx_eng_rsp (to_state_table s)\<rparr>)"

lemma fsm_of_toe_exact:
  "\<exists>metas evs. re_fsm (to_rx_engine (toe_rx_engine u s)) =
     (RxEngTcpFsm u ((toe_fsm s)\<lparr>rf_tcp_payload_dropped_by_rx_fsm := [],
        rf_rx_eng_fsm_meta_data_in := rf_rx_eng_fsm_meta_data_in (toe_fsm s) @ metas\<rparr>))
     \<lparr>rf_rx_eng_to_mem_cmd := [], rf_rx_eng_to_rx_app_notification := [], rf_set_event := evs\<rparr>"
proof -
  obtain x where x: "to_rx_engine (toe_rx_engine u s) = rx_engine u x" "re_fsm x = toe_fsm s"
    by (simp add: toe_rx_engine_def toe_fsm_def Let_def)
  show ?thesis using fsm_of_engine [of u x] by (simp add: x)
qed

text \<open>The receive engine holds the lock of the session and wants nothing of the table.\<close>

definition frozen :: "TcpSessionID \<Rightarrow> SessionState \<Rightarrow> Toe \<Rightarrow> bool" where
  "frozen sid st s \<longleftrightarrow>
     (let t = to_state_table s; f = re_fsm (to_rx_engine s) in
      rf_fsm_state f = LOAD \<and> rx_outstanding t = [] \<and> rf_rx_eng_to_sttable_req f = [] \<and> rx_eng_holds t sid \<and> st_table t sid = st)"

lemma rx_eng_holds_streams [simp]:
  "rx_eng_holds (t\<lparr>st_sttable_to_rx_eng_rsp := x\<rparr>) sid = rx_eng_holds t sid"
  "rx_eng_holds (t\<lparr>st_sttable_to_tx_app_rsp := x\<rparr>) sid = rx_eng_holds t sid"
  "rx_eng_holds (t\<lparr>st_sttable_to_tx_app_lup_rsp := x\<rparr>) sid = rx_eng_holds t sid"
  "rx_eng_holds (t\<lparr>st_sttable_to_slookup_release_req := y\<rparr>) sid = rx_eng_holds t sid"
  by (simp_all add: rx_eng_holds_def)

lemma frozen_frames:
  "frozen sid st (toe_ack_delay bld s) = frozen sid st s" "frozen sid st (toe_event_engine s) = frozen sid st s"
  "frozen sid st (toe_port_table s) = frozen sid st s" "frozen sid st (toe_rx_app s) = frozen sid st s"
  "frozen sid st (toe_rx_sar s) = frozen sid st s" "frozen sid st (toe_slookup s) = frozen sid st s"
  "frozen sid st (toe_timers bld s) = frozen sid st s" "frozen sid st (toe_tx_app s) = frozen sid st s"
  "frozen sid st (toe_tx_engine bld v w s) = frozen sid st s" "frozen sid st (toe_tx_sar s) = frozen sid st s"
  by (simp_all add: frozen_def toe_calls Let_def)

lemma frozen_state_table: "frozen sid st s \<Longrightarrow> frozen sid st (toe_state_table s)"
proof -
  assume f: "frozen sid st s"
  let ?t = "to_state_table s" and ?f = "re_fsm (to_rx_engine s)" and ?c = "ta_conn (to_tx_app s)"
  let ?x = "?t\<lparr>st_timer_to_sttable_release_state := st_timer_to_sttable_release_state ?t @ tw_timer_to_sttable_release_state (to_timers s),
           st_rx_eng_to_sttable_req := st_rx_eng_to_sttable_req ?t @ rf_rx_eng_to_sttable_req ?f,
           st_tx_app_to_sttable_lup_req := st_tx_app_to_sttable_lup_req ?t @ td_tx_app_to_sttable_lup_req (ta_data (to_tx_app s)),
           st_tx_app_to_sttable_req := st_tx_app_to_sttable_req ?t @ tc_tx_app_to_sttable_req ?c\<rparr>"
  have e: "to_state_table (toe_state_table s) = state_table ?x"
    "re_fsm (to_rx_engine (toe_state_table s)) = ?f\<lparr>rf_rx_eng_to_sttable_req := []\<rparr>"
    by (simp_all add: toe_state_table_def Let_def)
  have "rx_eng_holds ?x sid = rx_eng_holds ?t sid" "rx_outstanding ?x = rx_outstanding ?t @ rf_rx_eng_to_sttable_req ?f"
    by (simp_all add: rx_eng_holds_def rx_outstanding_def)
  then have "rx_eng_holds ?x sid" "rx_outstanding ?x = []" using f by (simp_all add: frozen_def Let_def)
  from rx_hold_preserved [OF this] show ?thesis using f by (simp add: frozen_def e Let_def)
qed

lemma frozen_rx_engine:
  assumes "frozen sid st s" and "rf_fsm_state (re_fsm (to_rx_engine (toe_rx_engine u s))) = LOAD"
  shows "frozen sid st (toe_rx_engine u s)"
proof -
  obtain metas evs where e: "re_fsm (to_rx_engine (toe_rx_engine u s)) =
     (RxEngTcpFsm u ((toe_fsm s)\<lparr>rf_tcp_payload_dropped_by_rx_fsm := [],
        rf_rx_eng_fsm_meta_data_in := rf_rx_eng_fsm_meta_data_in (toe_fsm s) @ metas\<rparr>))
     \<lparr>rf_rx_eng_to_mem_cmd := [], rf_rx_eng_to_rx_app_notification := [], rf_set_event := evs\<rparr>"
    using fsm_of_toe_exact by blast
  have f: "rf_fsm_state (toe_fsm s) = LOAD" "rf_rx_eng_to_sttable_req (toe_fsm s) = []"
    using assms(1) by (simp_all add: frozen_def toe_fsm_def Let_def)
  have "to_state_table (toe_rx_engine u s) = (to_state_table s)\<lparr>st_sttable_to_rx_eng_rsp := []\<rparr>"
    by (simp add: toe_rx_engine_def Let_def)
  then show ?thesis
    using assms f unfolding frozen_def e
    by (cases "rf_rx_eng_fsm_meta_data_in (toe_fsm s) @ metas") (simp_all add: RxEngTcpFsm_def fsm_load_def Let_def)
qed

lemma toe_fsm_before:
  "toe_fsm (toe_rx_app (toe_port_table (toe_event_engine (toe_ack_delay bld s)))) = toe_fsm s"
  by (simp add: toe_fsm_def toe_rx_app_def toe_port_table_def toe_event_engine_def toe_ack_delay_def Let_def)

text \<open>The cycle in which the state machine finds that the acknowledgment is stale.\<close>

lemma stale_ack_freezes:
  assumes "sessions_ok s" and "rf_fsm_state (toe_fsm s) = TRANSITION" and "fsm_responses_ready (toe_fsm s)"
    and "stale_ack (fsm_read_responses (toe_fsm s))" and "sid = fsm_sid (toe_fsm s)"
  shows "frozen sid (st_table (to_state_table s) sid) (toe_rx_engine u s)"
proof -
  let ?f = "toe_fsm s" and ?t = "to_state_table s"
  obtain metas evs where e: "re_fsm (to_rx_engine (toe_rx_engine u s)) =
     (RxEngTcpFsm u (?f\<lparr>rf_tcp_payload_dropped_by_rx_fsm := [], rf_rx_eng_fsm_meta_data_in := rf_rx_eng_fsm_meta_data_in ?f @ metas\<rparr>))
     \<lparr>rf_rx_eng_to_mem_cmd := [], rf_rx_eng_to_rx_app_notification := [], rf_set_event := evs\<rparr>"
    using fsm_of_toe_exact by blast
  let ?g = "?f\<lparr>rf_tcp_payload_dropped_by_rx_fsm := [], rf_rx_eng_fsm_meta_data_in := rf_rx_eng_fsm_meta_data_in ?f @ metas\<rparr>"
  have g: "fsm_inv ?g" "rf_fsm_state ?g = TRANSITION" "fsm_responses_ready ?g"
    using assms(1-3) by (simp_all add: sessions_ok_def fsm_inv_def toe_fsm_def fsm_responses_ready_def Let_def)
  have stale: "stale_ack (fsm_read_responses ?g)" unfolding responses_extended stale_ack_extended by (rule assms(4))
  have n: "no_effects (fsm_read_responses ?g) (RxEngTcpFsm u ?g)"
    using transition_effects [OF responses_inv(2) [OF g], of u] stale unfolding responses_inv(1) [OF g] by simp
  have "rf_rx_eng_to_sttable_req (RxEngTcpFsm u ?g) = rf_rx_eng_to_sttable_req (fsm_read_responses ?g)"
    using n by (simp add: no_effects_def)
  then have q: "rf_rx_eng_to_sttable_req (RxEngTcpFsm u ?g) = rf_rx_eng_to_sttable_req ?f"
    by (simp add: fsm_read_responses_def)
  have load: "rf_fsm_state (RxEngTcpFsm u ?g) = LOAD"
    using n by (simp add: no_effects_def fsm_frame_def fsm_read_responses_def)
  have "rf_sttable_to_rx_eng_rsp (re_fsm (to_rx_engine s)) @ st_sttable_to_rx_eng_rsp ?t \<noteq> []"
    using assms(3) by (simp add: toe_fsm_def fsm_responses_ready_def Let_def)
  then have "rx_lock ?t = Some sid" "rx_outstanding ?t = []" "rf_rx_eng_to_sttable_req ?f = []"
    using assms(1,2,5) by (auto simp: sessions_ok_def rx_protocol_def toe_fsm_def Let_def split: if_splits)
  moreover have "to_state_table (toe_rx_engine u s) = ?t\<lparr>st_sttable_to_rx_eng_rsp := []\<rparr>"
    by (simp add: toe_rx_engine_def Let_def)
  ultimately show ?thesis
    unfolding frozen_def e using load q
    by (auto simp: rx_lock_def stt_abs_def rx_eng_holds_def rx_outstanding_def Let_def split: if_splits)
qed

text \<open>From then on the applications, the timers and the surroundings may do anything; only no segment is loaded.\<close>

inductive no_segment :: "build \<Rightarrow> 4 word \<Rightarrow> 16 word \<Rightarrow> 16 word \<Rightarrow> Toe \<Rightarrow> Toe \<Rightarrow> bool" for bld u v w s where
  no_segment_refl: "no_segment bld u v w s s"
| no_segment_env: "no_segment bld u v w s t \<Longrightarrow> toe_env t t' \<Longrightarrow> no_segment bld u v w s t'"
| no_segment_cycle: "no_segment bld u v w s t \<Longrightarrow> rf_fsm_state (re_fsm (to_rx_engine (toe_top bld u v w t))) = LOAD \<Longrightarrow>
    no_segment bld u v w s (toe_top bld u v w t)"

lemma fsm_state_frames [simp]:
  "rf_fsm_state (re_fsm (to_rx_engine (toe_rx_sar s))) = rf_fsm_state (re_fsm (to_rx_engine s))"
  "rf_fsm_state (re_fsm (to_rx_engine (toe_slookup s))) = rf_fsm_state (re_fsm (to_rx_engine s))"
  "rf_fsm_state (re_fsm (to_rx_engine (toe_state_table s))) = rf_fsm_state (re_fsm (to_rx_engine s))"
  "rf_fsm_state (re_fsm (to_rx_engine (toe_timers bld s))) = rf_fsm_state (re_fsm (to_rx_engine s))"
  "rf_fsm_state (re_fsm (to_rx_engine (toe_tx_app s))) = rf_fsm_state (re_fsm (to_rx_engine s))"
  "rf_fsm_state (re_fsm (to_rx_engine (toe_tx_engine bld v w s))) = rf_fsm_state (re_fsm (to_rx_engine s))"
  "rf_fsm_state (re_fsm (to_rx_engine (toe_tx_sar s))) = rf_fsm_state (re_fsm (to_rx_engine s))"
  by (simp_all add: toe_calls Let_def)

lemma frozen_cycle:
  assumes "frozen sid st s" and "rf_fsm_state (re_fsm (to_rx_engine (toe_top bld u v w s))) = LOAD"
  shows "frozen sid st (toe_top bld u v w s)"
proof -
  let ?s = "toe_rx_app (toe_port_table (toe_event_engine (toe_ack_delay bld s)))"
  have "frozen sid st ?s" using assms(1) by (simp add: frozen_frames)
  moreover have "rf_fsm_state (re_fsm (to_rx_engine (toe_rx_engine u ?s))) = LOAD" using assms(2) by (simp add: toe_top_def)
  ultimately have "frozen sid st (toe_rx_engine u ?s)" by (rule frozen_rx_engine)
  then show ?thesis by (simp add: toe_top_def frozen_frames frozen_state_table)
qed

lemma frozen_private: "frozen sid st (toe_private s) = frozen sid st s"
  by (simp add: toe_private_def frozen_def Let_def)

lemma frozen_run: "no_segment bld u v w s t \<Longrightarrow> frozen sid st s \<Longrightarrow> frozen sid st t"
proof (induction rule: no_segment.induct)
  case (no_segment_env t t')
  then show ?case using frozen_private [of sid st t] frozen_private [of sid st t'] by (simp add: toe_env_def)
qed (simp_all add: frozen_cycle)

text \<open>C19: A session whose last segment carried a stale acknowledgment is frozen.  In any state with the invariant that every
  state of a run has (\<open>sessions_ok\<close>), suppose the receive engine finds that the acknowledgment is stale.  It has read the state with the
  lock and goes back to \<open>LOAD\<close> without the write that would give the lock
  back.  Until it loads its next segment, whatever the applications, the timers and the network do, the lock stays with
  the receive engine and the state of the session cannot change: a close request or the end of a timer waits for a segment
  that may never come.\<close>

theorem stale_ack_freezes_session:
  assumes "sessions_ok s"
    and "rf_fsm_state (toe_fsm s) = TRANSITION" and "fsm_responses_ready (toe_fsm s)"
    and "stale_ack (fsm_read_responses (toe_fsm s))" and "sid = fsm_sid (toe_fsm s)"
    and "no_segment bld u v w (toe_top bld u v w s) t"
  shows "rx_eng_holds (to_state_table t) sid \<and> st_table (to_state_table t) sid = st_table (to_state_table s) sid"
proof -
  let ?s = "toe_rx_app (toe_port_table (toe_event_engine (toe_ack_delay bld s)))" and ?st = "st_table (to_state_table s) sid"
  have "sessions_ok ?s" using assms(1) by (simp add: sessions_ok_frames)
  from stale_ack_freezes [OF this, of sid u] have "frozen sid ?st (toe_rx_engine u ?s)"
    using assms(2-5) by (simp add: toe_fsm_before)
  then have "frozen sid ?st (toe_top bld u v w s)" by (simp add: toe_top_def frozen_frames frozen_state_table)
  from frozen_run [OF assms(6) this] show ?thesis by (simp add: frozen_def Let_def)
qed

text \<open>An established session 5, and the acknowledgment of a byte before the ones in flight.  Meanwhile the application asks
  to close the session.\<close>

definition stale_demo :: Toe where
  "stale_demo = toe_demo
     \<lparr>to_rx_engine := rx_engine_init
        \<lparr>re_fsm := (fsm_at (Rx_Fsm_Props.syn_segment True False) ESTABLISHED (rx_entry 100 100) (empty_tx\<lparr>trr_perv_ack := 8, trr_next_byte := 9\<rparr>))
           \<lparr>rf_rx_eng_to_sttable_req := []\<rparr>\<rparr>,
      to_state_table := state_table_init
        \<lparr>st_table := (st_table state_table_init)(5 := ESTABLISHED), st_rx_eng_rw_req_session_id_locked := True,
         st_rx_eng_rw_req_session_id := 5\<rparr>\<rparr>"

theorem stale_ack_freezes_session_witness:
  "let t = toe_top Synthesis 0 0 0 stale_demo in
     rx_eng_holds (to_state_table t) 5 \<and> st_table (to_state_table t) 5 = ESTABLISHED"
proof -
  let ?f = "fsm_at (Rx_Fsm_Props.syn_segment True False) ESTABLISHED (rx_entry 100 100) (empty_tx\<lparr>trr_perv_ack := 8, trr_next_byte := 9\<rparr>)"
  have f: "toe_fsm stale_demo = ?f\<lparr>rf_rx_eng_to_sttable_req := []\<rparr>"
    by (simp add: toe_fsm_def stale_demo_def toe_demo_def toe_init_def state_table_init_def)
  have sid: "fsm_sid (toe_fsm stale_demo) = 5"
    by (simp add: f fsm_at_def RxEngTcpFsm_def fsm_load_def rx_fsm_init_def Rx_Fsm_Props.syn_segment_def)
  have "rf_sttable_to_rx_eng_rsp ?f = [ESTABLISHED]" "fsm_inv ?f" by (simp_all add: fsm_at_def RxEngTcpFsm_def fsm_load_def rx_fsm_init_def fsm_inv_def)
  then have ok: "sessions_ok stale_demo"
    using sid f by (simp add: sessions_ok_def stale_demo_def toe_demo_def toe_init_def state_table_init_def lock_defs
        rx_protocol_def tx_protocol_def tx_app_init_def tx_app_conn_init_def fsm_inv_def fsm_at_fields Let_def)
  have st: "st_table (to_state_table stale_demo) 5 = ESTABLISHED" by (simp add: stale_demo_def)
  have "stale_ack (fsm_read_responses ?f)"
    by (simp add: stale_ack_def fsm_at_fields Rx_Fsm_Props.syn_segment_def TcpHeaderMeta_default_def ack_in_range_def
        ack_accepted_def empty_tx_def Let_def)
  moreover have "fsm_read_responses (?f\<lparr>rf_rx_eng_to_sttable_req := []\<rparr>) = (fsm_read_responses ?f)\<lparr>rf_rx_eng_to_sttable_req := []\<rparr>"
    by (simp add: fsm_read_responses_def)
  moreover have "stale_ack (g\<lparr>rf_rx_eng_to_sttable_req := []\<rparr>) = stale_ack g" for g
    by (simp add: stale_ack_def ack_in_range_def)
  ultimately have stale: "stale_ack (fsm_read_responses (toe_fsm stale_demo))" unfolding f by simp
  have "rf_fsm_state (toe_fsm stale_demo) = TRANSITION" "fsm_responses_ready (toe_fsm stale_demo)"
    unfolding f using fsm_at_fields(1,2) by (simp_all add: fsm_responses_ready_def)
  from stale_ack_freezes_session [OF ok this stale sid [symmetric] no_segment_refl, of Synthesis 0 0 0] st show ?thesis
    by (simp add: Let_def)
qed

end
