(* ===== verification/Hash_Table.thy ===== *)
theory Hash_Table
  imports Prelude
begin

unbundle bit_operations_syntax

text \<open>
  \<open>hash_table/hash_table.cpp\<close>, the content addressable memory behind the session lookup: a cuckoo hash table of
  nine tables with sixteen entries each.  The random numbers of \<open>tabulation_table_96.txt\<close> are the argument
  \<open>tab\<close> of the definitions, and the theorems hold whatever they are.  The refinement theorem says that the table is
  a map from keys to values, up to the entry that is lost when an insertion fails.
\<close>

section \<open>Sizes and types: \<open>hash_table.hpp\<close>\<close>

fun ConstLog2 :: "nat \<Rightarrow> nat" where
  "ConstLog2 val = (if val \<le> 1 then 0 else 1 + ConstLog2 (val div 2))"

abbreviation kNumTables :: nat where "kNumTables \<equiv> 9"
abbreviation kKeySize :: nat where "kKeySize \<equiv> 96"
abbreviation kMaxTrials :: nat where "kMaxTrials \<equiv> 12"

text \<open>The number of address bits, for 128 sessions.\<close>

lemma kTableAddressBits: "ConstLog2 (128 div (kNumTables - 1)) = 4"
  by simp

type_synonym ht_key = "96 word"
type_synonym ht_value = "16 word"
type_synonym ht_hash = "4 word"
type_synonym tabulation = "nat \<Rightarrow> bool \<Rightarrow> nat \<Rightarrow> 16 word"

datatype KVOperation = KV_INSERT | KV_DELETE
datatype KVOpeationSource = SRC_A | SRC_B

record HTLookupReq =
  hl_key :: ht_key
  hl_source :: KVOpeationSource

record HTLookupResp =
  hp_key :: ht_key
  hp_value :: ht_value
  hp_hit :: bool
  hp_source :: KVOpeationSource

record HTUpdateReq =
  hu_op :: KVOperation
  hu_key :: ht_key
  hu_value :: ht_value
  hu_source :: KVOpeationSource

record HTUpdateResp =
  hs_op :: KVOperation
  hs_key :: ht_key
  hs_value :: ht_value
  hs_success :: bool
  hs_source :: KVOpeationSource

record HTEntry =
  he_key :: ht_key
  he_value :: ht_value
  he_valid :: bool

definition HTEntry_new :: "ht_key \<Rightarrow> ht_value \<Rightarrow> HTEntry" where
  "HTEntry_new key val = \<lparr>he_key = key, he_value = val, he_valid = True\<rparr>"

type_synonym cuckoo = "nat \<Rightarrow> ht_hash \<Rightarrow> HTEntry"

section \<open>The operations\<close>

definition CalculateHashes :: "tabulation \<Rightarrow> ht_key \<Rightarrow> ht_hash list" where
  "CalculateHashes tab key =
     map (\<lambda>i. fold (\<lambda>k h. h XOR get_range 0 (tab i (bit key k) k)) [0..<kKeySize] 0) [0..<kNumTables]"

text \<open>The entries that a key may be in, one in each table, and the way they are written back.\<close>

definition current_entries :: "cuckoo \<Rightarrow> ht_hash list \<Rightarrow> HTEntry list" where
  "current_entries T hashes = map (\<lambda>i. T i (hashes ! i)) [0..<kNumTables]"

definition write_back :: "ht_hash list \<Rightarrow> HTEntry list \<Rightarrow> cuckoo \<Rightarrow> cuckoo" where
  "write_back hashes es T = (\<lambda>i. if i < kNumTables then (T i)(hashes ! i := es ! i) else T i)"

text \<open>The loops over the tables leave the last index that fits.\<close>

definition last_slot :: "(HTEntry \<Rightarrow> bool) \<Rightarrow> HTEntry list \<Rightarrow> nat option" where
  "last_slot P es = fold (\<lambda>i slot. if P (es ! i) then Some i else slot) [0..<kNumTables] None"

definition is_match :: "ht_key \<Rightarrow> HTEntry \<Rightarrow> bool" where
  "is_match key e \<longleftrightarrow> he_valid e \<and> he_key e = key"

text \<open>\<open>u\<close> is the value of an answer without a hit, which the source leaves unset.\<close>

definition LookUp :: "ht_value \<Rightarrow> tabulation \<Rightarrow> cuckoo \<Rightarrow> HTLookupReq \<Rightarrow> HTLookupResp" where
  "LookUp u tab T request =
     (let es = current_entries T (CalculateHashes tab (hl_key request)) in
      case last_slot (is_match (hl_key request)) es of
        Some slot \<Rightarrow> \<lparr>hp_key = hl_key request, hp_value = he_value (es ! slot), hp_hit = True, hp_source = hl_source request\<rparr>
      | None \<Rightarrow> \<lparr>hp_key = hl_key request, hp_value = u, hp_hit = False, hp_source = hl_source request\<rparr>)"

text \<open>One trial: the entry goes to a free slot, or takes the place of a victim, which is the entry of the next
  trial.\<close>

record HTTrial =
  tl_tables :: cuckoo
  tl_entry :: HTEntry
  tl_victim_idx :: "8 word"
  tl_victim_bit :: "1 word"
  tl_success :: bool

definition victim_position :: "ht_hash list \<Rightarrow> HTTrial \<Rightarrow> nat" where
  "victim_position hashes s = unat (hashes ! unat (tl_victim_idx s)) mod (kNumTables - 1) + unat (tl_victim_bit s)"

definition insert_trial :: "tabulation \<Rightarrow> HTTrial \<Rightarrow> HTTrial" where
  "insert_trial tab s =
     (let hashes = CalculateHashes tab (he_key (tl_entry s)); es = current_entries (tl_tables s) hashes in
      (case last_slot (\<lambda>e. \<not> he_valid e) es of
         Some slot \<Rightarrow> s\<lparr>tl_tables := write_back hashes (es[slot := tl_entry s]) (tl_tables s), tl_success := True\<rparr>
       | None \<Rightarrow>
           (let pos = victim_position hashes s; idx = tl_victim_idx s + 1 in
            s\<lparr>tl_tables := write_back hashes (es[pos := tl_entry s]) (tl_tables s), tl_entry := es ! pos,
              tl_victim_idx := (if idx = of_nat kNumTables then 0 else idx)\<rparr>))
      \<lparr>tl_victim_bit := tl_victim_bit s + 1\<rparr>)"

fun insert_loop :: "tabulation \<Rightarrow> nat \<Rightarrow> HTTrial \<Rightarrow> HTTrial" where
  "insert_loop tab 0 s = s"
| "insert_loop tab (Suc n) s = (let s = insert_trial tab s in if tl_success s then s else insert_loop tab n s)"

text \<open>The state: the tables, the statics of \<open>Insert\<close>, the output register and the streams.\<close>

record HashTable =
  ht_tables :: cuckoo
  ht_victim_bit :: "1 word"
  ht_insert_failure_counter :: "16 word"
  ht_reg_insert_fail_count :: "16 word"
  ht_s_axis_lup_req :: "HTLookupReq stream"
  ht_s_axis_upd_req :: "HTUpdateReq stream"
  ht_m_axis_lup_rsp :: "HTLookupResp stream"
  ht_m_axis_upd_rsp :: "HTUpdateResp stream"

definition update_rsp :: "HTUpdateReq \<Rightarrow> bool \<Rightarrow> HTUpdateResp" where
  "update_rsp request success =
     \<lparr>hs_op = hu_op request, hs_key = hu_key request, hs_value = hu_value request, hs_success = success,
      hs_source = hu_source request\<rparr>"

definition Insert :: "tabulation \<Rightarrow> HTUpdateReq \<Rightarrow> HashTable \<Rightarrow> HTUpdateResp \<times> HashTable" where
  "Insert tab request s =
     (let t = insert_loop tab kMaxTrials
            \<lparr>tl_tables = ht_tables s, tl_entry = HTEntry_new (hu_key request) (hu_value request), tl_victim_idx = 0,
             tl_victim_bit = ht_victim_bit s, tl_success = False\<rparr> in
      (update_rsp request (tl_success t),
       s\<lparr>ht_tables := tl_tables t, ht_victim_bit := tl_victim_bit t,
         ht_reg_insert_fail_count := ht_insert_failure_counter s,
         ht_insert_failure_counter :=
           (if tl_success t then ht_insert_failure_counter s else ht_insert_failure_counter s + 1)\<rparr>))"

definition remove :: "tabulation \<Rightarrow> HTUpdateReq \<Rightarrow> HashTable \<Rightarrow> HTUpdateResp \<times> HashTable" where
  "remove tab request s =
     (let hashes = CalculateHashes tab (hu_key request); es = current_entries (ht_tables s) hashes in
      (update_rsp request (\<exists>e \<in> set es. is_match (hu_key request) e),
       s\<lparr>ht_tables := write_back hashes (map (\<lambda>e. if is_match (hu_key request) e then e\<lparr>he_valid := False\<rparr> else e) es) (ht_tables s)\<rparr>))"

definition hash_table_top :: "ht_value \<Rightarrow> tabulation \<Rightarrow> HashTable \<Rightarrow> HashTable" where
  "hash_table_top u tab s =
     (case ht_s_axis_lup_req s of
        request # qs \<Rightarrow>
          s\<lparr>ht_s_axis_lup_req := qs, ht_m_axis_lup_rsp := ht_m_axis_lup_rsp s @ [LookUp u tab (ht_tables s) request]\<rparr>
      | [] \<Rightarrow>
          (case ht_s_axis_upd_req s of
             request # rs \<Rightarrow>
               (case (if hu_op request = KV_INSERT then Insert tab request else remove tab request) (s\<lparr>ht_s_axis_upd_req := rs\<rparr>) of
                  (response, s) \<Rightarrow> s\<lparr>ht_m_axis_upd_rsp := ht_m_axis_upd_rsp s @ [response]\<rparr>)
           | [] \<Rightarrow> s))"

definition hash_table_init :: HashTable where
  "hash_table_init =
     \<lparr>ht_tables = (\<lambda>_ _. \<lparr>he_key = 0, he_value = 0, he_valid = False\<rparr>), ht_victim_bit = 0, ht_insert_failure_counter = 0,
      ht_reg_insert_fail_count = 0, ht_s_axis_lup_req = [], ht_s_axis_upd_req = [], ht_m_axis_lup_rsp = [], ht_m_axis_upd_rsp = []\<rparr>"

section \<open>The table as a map\<close>

definition ht_at :: "tabulation \<Rightarrow> nat \<Rightarrow> ht_key \<Rightarrow> ht_hash" where
  "ht_at tab i key = CalculateHashes tab key ! i"

definition ht_holds :: "tabulation \<Rightarrow> cuckoo \<Rightarrow> nat \<Rightarrow> ht_key \<Rightarrow> bool" where
  "ht_holds tab T i key \<longleftrightarrow> i < kNumTables \<and> is_match key (T i (ht_at tab i key))"

text \<open>Every entry is where its key belongs, and no key is stored twice.\<close>

definition ht_ok :: "tabulation \<Rightarrow> cuckoo \<Rightarrow> bool" where
  "ht_ok tab T \<longleftrightarrow>
     (\<forall>i < kNumTables. \<forall>a. he_valid (T i a) \<longrightarrow> ht_at tab i (he_key (T i a)) = a) \<and>
     (\<forall>i j key. ht_holds tab T i key \<longrightarrow> ht_holds tab T j key \<longrightarrow> i = j)"

definition ht_map :: "tabulation \<Rightarrow> cuckoo \<Rightarrow> ht_key \<Rightarrow> ht_value option" where
  "ht_map tab T key =
     map_option (\<lambda>i. he_value (T i (ht_at tab i key))) (last_slot (is_match key) (current_entries T (CalculateHashes tab key)))"

lemma current_entries_nth [simp]: "i < kNumTables \<Longrightarrow> current_entries T (CalculateHashes tab key) ! i = T i (ht_at tab i key)"
  by (simp add: current_entries_def ht_at_def)

lemma length_current_entries [simp]: "length (current_entries T hs) = kNumTables"
  by (simp add: current_entries_def)

lemma fold_last:
  "fold (\<lambda>i slot. if P i then Some i else slot) xs s = (if filter P xs = [] then s else Some (last (filter P xs)))"
  by (induction xs rule: rev_induct) auto

lemma last_slot_Some:
  assumes a: "last_slot P es = Some i"
  shows "i < kNumTables" and "P (es ! i)"
proof -
  let ?f = "filter (\<lambda>i. P (es ! i)) [0..<kNumTables]"
  have "?f \<noteq> []" "i = last ?f" using a unfolding last_slot_def fold_last [of "\<lambda>i. P (es ! i)"] by (auto split: if_splits)
  then have "i \<in> set ?f" using last_in_set by metis
  then show "i < kNumTables" "P (es ! i)" by auto
qed

lemma last_slot_None: "last_slot P es = None \<longleftrightarrow> (\<forall>i < kNumTables. \<not> P (es ! i))"
  unfolding last_slot_def fold_last [of "\<lambda>i. P (es ! i)"] by (auto simp: filter_empty_conv)

lemma ht_map_Some:
  assumes "ht_ok tab T"
  shows "ht_map tab T key = Some v \<longleftrightarrow> (\<exists>i. ht_holds tab T i key \<and> he_value (T i (ht_at tab i key)) = v)"
proof (cases "last_slot (is_match key) (current_entries T (CalculateHashes tab key))")
  case None
  then have "\<not> ht_holds tab T i key" for i unfolding last_slot_None by (simp add: ht_holds_def)
  then show ?thesis using None by (simp add: ht_map_def)
next
  case (Some i)
  then have "ht_holds tab T i key" using last_slot_Some [OF Some] by (simp add: ht_holds_def)
  then have "ht_holds tab T j key \<longleftrightarrow> j = i" for j using assms by (auto simp: ht_ok_def)
  then show ?thesis using Some by (auto simp: ht_map_def)
qed

lemma ht_map_None: "ht_map tab T key = None \<longleftrightarrow> (\<forall>i. \<not> ht_holds tab T i key)"
  by (auto simp: ht_map_def last_slot_None ht_holds_def)

text \<open>A map is given by its entries.\<close>

lemma map_eqI: "(\<And>k v. m k = Some v \<longleftrightarrow> m' k = Some v) \<Longrightarrow> m = m'"
proof
  fix k
  assume a: "\<And>k v. m k = Some v \<longleftrightarrow> m' k = Some v"
  show "m k = m' k" using a [of k "the (m k)"] a [of k "the (m' k)"] by (cases "m k"; cases "m' k") auto
qed

section \<open>One entry is written\<close>

definition ht_put :: "tabulation \<Rightarrow> nat \<Rightarrow> HTEntry \<Rightarrow> cuckoo \<Rightarrow> cuckoo" where
  "ht_put tab p e T = T(p := (T p)(ht_at tab p (he_key e) := e))"

lemma write_back_one:
  "p < kNumTables \<Longrightarrow> write_back (CalculateHashes tab (he_key e)) ((current_entries T (CalculateHashes tab (he_key e)))[p := e]) T = ht_put tab p e T"
  by (rule ext, rule ext) (simp add: write_back_def ht_put_def nth_list_update ht_at_def [symmetric] fun_upd_def)

lemma ht_put_holds:
  assumes "p < kNumTables" and "he_valid e" and "ht_map tab T (he_key e) = None"
  shows "ht_holds tab (ht_put tab p e T) i k \<longleftrightarrow>
     (if k = he_key e then i = p else ht_holds tab T i k \<and> \<not> (i = p \<and> ht_at tab p k = ht_at tab p (he_key e)))"
  using assms by (auto simp: ht_holds_def ht_put_def is_match_def ht_map_None)

lemma ht_put_ok:
  assumes "ht_ok tab T" and "p < kNumTables" and "he_valid e" and "ht_map tab T (he_key e) = None"
  shows "ht_ok tab (ht_put tab p e T)"
  unfolding ht_ok_def
proof (intro conjI allI impI)
  fix i a
  assume "i < kNumTables" "he_valid (ht_put tab p e T i a)"
  then show "ht_at tab i (he_key (ht_put tab p e T i a)) = a" using assms(1) by (auto simp: ht_ok_def ht_put_def)
next
  fix i j key
  assume "ht_holds tab (ht_put tab p e T) i key" "ht_holds tab (ht_put tab p e T) j key"
  then show "i = j" using assms(1) unfolding ht_put_holds [OF assms(2-4)] by (auto simp: ht_ok_def split: if_splits)
qed

text \<open>The map afterwards: the new entry is there, the one in its place is gone.\<close>

lemma ht_put_map:
  assumes "ht_ok tab T" and "p < kNumTables" and "he_valid e" and "ht_map tab T (he_key e) = None"
    and "victim = T p (ht_at tab p (he_key e))"
  shows "ht_map tab (ht_put tab p e T) =
     (if he_valid victim then (ht_map tab T)(he_key victim := None) else ht_map tab T)(he_key e \<mapsto> he_value e)"
proof (rule map_eqI)
  fix k v
  note ok = ht_put_ok [OF assms(1-4)]
  have victim: "he_valid victim \<Longrightarrow> ht_at tab p (he_key victim) = ht_at tab p (he_key e)"
    using assms(1,2,5) by (auto simp: ht_ok_def)
  have place: "ht_holds tab T p k \<and> ht_at tab p k = ht_at tab p (he_key e) \<longleftrightarrow> he_valid victim \<and> k = he_key victim"
    using assms(2,5) victim by (auto simp: ht_holds_def is_match_def)
  show "ht_map tab (ht_put tab p e T) k = Some v \<longleftrightarrow>
      ((if he_valid victim then (ht_map tab T)(he_key victim := None) else ht_map tab T)(he_key e \<mapsto> he_value e)) k = Some v"
  proof (cases "k = he_key e")
    case True
    then show ?thesis unfolding ht_map_Some [OF ok] ht_put_holds [OF assms(2-4)] by (auto simp: ht_put_def)
  next
    case False
    have once: "ht_holds tab T p k \<Longrightarrow> ht_holds tab T i k \<Longrightarrow> i = p" for i using assms(1) by (auto simp: ht_ok_def)
    show ?thesis
    proof (cases "he_valid victim \<and> k = he_key victim")
      case True
      then have "ht_holds tab T p k" using place by blast
      then have "\<not> ht_holds tab (ht_put tab p e T) i k" for i
        using True False place once [of i] unfolding ht_put_holds [OF assms(2-4)] by (simp only: if_False) blast
      then have "\<not> ht_map tab (ht_put tab p e T) k = Some v" unfolding ht_map_Some [OF ok] by blast
      then show ?thesis using True False by simp
    next
      case no: False
      then have "ht_holds tab (ht_put tab p e T) i k \<longleftrightarrow> ht_holds tab T i k" for i
        using False place unfolding ht_put_holds [OF assms(2-4)] by auto
      moreover have "ht_put tab p e T i (ht_at tab i k) = T i (ht_at tab i k)" if "ht_holds tab T i k" for i
        using that no place by (auto simp: ht_put_def)
      ultimately show ?thesis
        using False no unfolding ht_map_Some [OF ok] by (auto simp: ht_map_Some [OF assms(1)])
    qed
  qed
qed

section \<open>Insertion\<close>

text \<open>The map together with the entry that is still to be placed.\<close>

definition trial_map :: "tabulation \<Rightarrow> HTTrial \<Rightarrow> ht_key \<Rightarrow> ht_value option" where
  "trial_map tab s = (ht_map tab (tl_tables s))(he_key (tl_entry s) \<mapsto> he_value (tl_entry s))"

definition trial_ok :: "tabulation \<Rightarrow> HTTrial \<Rightarrow> bool" where
  "trial_ok tab s \<longleftrightarrow> ht_ok tab (tl_tables s) \<and> he_valid (tl_entry s) \<and> ht_map tab (tl_tables s) (he_key (tl_entry s)) = None \<and>
     tl_victim_idx s < 9"

lemma victim_position_less: "victim_position hashes s < kNumTables"
proof -
  have "unat (tl_victim_bit s) < 2 ^ LENGTH(1)" by (rule unsigned_less)
  moreover have "unat (hashes ! unat (tl_victim_idx s)) mod 8 < 8" by simp
  ultimately show ?thesis unfolding victim_position_def by simp
qed

lemma insert_trial_ok:
  assumes "trial_ok tab s" and "\<not> tl_success s"
  shows "if tl_success (insert_trial tab s) then
       ht_ok tab (tl_tables (insert_trial tab s)) \<and> ht_map tab (tl_tables (insert_trial tab s)) = trial_map tab s
     else trial_ok tab (insert_trial tab s) \<and> trial_map tab (insert_trial tab s) = trial_map tab s"
proof -
  let ?T = "tl_tables s" and ?e = "tl_entry s"
  let ?h = "CalculateHashes tab (he_key ?e)"
  have ok: "ht_ok tab ?T" "he_valid ?e" "ht_map tab ?T (he_key ?e) = None" using assms(1) by (simp_all add: trial_ok_def)
  show ?thesis
  proof (cases "last_slot (\<lambda>e. \<not> he_valid e) (current_entries ?T ?h)")
    case (Some p)
    have p: "p < kNumTables" "\<not> he_valid (?T p (ht_at tab p (he_key ?e)))"
      using last_slot_Some [OF Some] by simp_all
    have t: "tl_success (insert_trial tab s)" "tl_tables (insert_trial tab s) = ht_put tab p ?e ?T"
      using p(1) Some by (simp_all add: insert_trial_def write_back_one Let_def)
    then show ?thesis
      using ht_put_ok [OF ok(1) p(1) ok(2,3)] ht_put_map [OF ok(1) p(1) ok(2,3)] p(2) by (simp add: trial_map_def)
  next
    case None
    let ?p = "victim_position ?h s"
    let ?v = "?T ?p (ht_at tab ?p (he_key ?e))"
    note p = victim_position_less [of ?h s]
    have v: "he_valid ?v" using None p unfolding last_slot_None by simp
    have t: "\<not> tl_success (insert_trial tab s)" "tl_tables (insert_trial tab s) = ht_put tab ?p ?e ?T"
        "tl_entry (insert_trial tab s) = ?v"
      using p None assms(2) by (simp_all add: insert_trial_def write_back_one Let_def)
    have held: "ht_map tab ?T (he_key ?v) = Some (he_value ?v)"
      using v p ok(1) unfolding ht_map_Some [OF ok(1)]
      by (intro exI [of _ ?p]) (auto simp: ht_holds_def is_match_def ht_ok_def)
    then have ne: "he_key ?v \<noteq> he_key ?e" using ok(3) by auto
    note m = ht_put_map [OF ok(1) p ok(2,3) refl]
    have "tl_victim_idx (insert_trial tab s) < 9"
    proof -
      have "unat (tl_victim_idx s) < 9" using assms(1) by (simp add: trial_ok_def word_less_nat_alt)
      then have "unat (tl_victim_idx s + 1) = Suc (unat (tl_victim_idx s))" by (simp add: unat_word_ariths)
      then show ?thesis
        using \<open>unat (tl_victim_idx s) < 9\<close> None by (auto simp: insert_trial_def Let_def word_less_nat_alt word_unat_eq_iff)
    qed
    then have "trial_ok tab (insert_trial tab s)"
      using ht_put_ok [OF ok(1) p ok(2,3)] v m ne by (simp add: trial_ok_def t)
    moreover have "trial_map tab (insert_trial tab s) = trial_map tab s"
      using held ne v unfolding trial_map_def t m by (auto simp: fun_eq_iff)
    ultimately show ?thesis using t(1) by simp
  qed
qed

lemma insert_loop_ok:
  "trial_ok tab s \<Longrightarrow> \<not> tl_success s \<Longrightarrow>
   if tl_success (insert_loop tab n s) then
     ht_ok tab (tl_tables (insert_loop tab n s)) \<and> ht_map tab (tl_tables (insert_loop tab n s)) = trial_map tab s
   else trial_ok tab (insert_loop tab n s) \<and> trial_map tab (insert_loop tab n s) = trial_map tab s"
proof (induction n arbitrary: s)
  case (Suc n)
  let ?t = "insert_trial tab s"
  note t = insert_trial_ok [OF Suc.prems]
  show ?case
  proof (cases "tl_success ?t")
    case True
    then show ?thesis using t by (simp add: Let_def)
  next
    case False
    then have "trial_ok tab ?t" "trial_map tab ?t = trial_map tab s" using t by simp_all
    then show ?thesis using Suc.IH [of ?t] False by (simp add: Let_def)
  qed
qed simp

lemma Insert_map:
  assumes "ht_ok tab (ht_tables s)" and "ht_map tab (ht_tables s) (hu_key r) = None" and "Insert tab r s = (rsp, t)"
  shows "ht_ok tab (ht_tables t) \<and>
     (if hs_success rsp then ht_map tab (ht_tables t) = (ht_map tab (ht_tables s))(hu_key r \<mapsto> hu_value r) \<and>
        ht_insert_failure_counter t = ht_insert_failure_counter s
      else \<exists>lost. ((ht_map tab (ht_tables s))(hu_key r \<mapsto> hu_value r)) lost \<noteq> None \<and>
        ht_map tab (ht_tables t) = ((ht_map tab (ht_tables s))(hu_key r \<mapsto> hu_value r))(lost := None) \<and>
        ht_insert_failure_counter t = ht_insert_failure_counter s + 1)"
proof -
  let ?i = "\<lparr>tl_tables = ht_tables s, tl_entry = HTEntry_new (hu_key r) (hu_value r), tl_victim_idx = 0,
       tl_victim_bit = ht_victim_bit s, tl_success = False\<rparr>"
  let ?t = "insert_loop tab kMaxTrials ?i"
  have i: "trial_ok tab ?i" "trial_map tab ?i = (ht_map tab (ht_tables s))(hu_key r \<mapsto> hu_value r)"
    using assms(1,2) by (simp_all add: trial_ok_def trial_map_def HTEntry_new_def)
  have t: "ht_tables t = tl_tables ?t" "hs_success rsp = tl_success ?t"
    "ht_insert_failure_counter t = (if tl_success ?t then ht_insert_failure_counter s else ht_insert_failure_counter s + 1)"
    using assms(3) by (auto simp: Insert_def update_rsp_def Let_def simp del: insert_loop.simps)
  note l = insert_loop_ok [OF i(1), of kMaxTrials, simplified (no_asm_simp) HTTrial.simps not_False_eq_True]
  show ?thesis
  proof (cases "tl_success ?t")
    case True
    then show ?thesis using l i(2) t by (simp del: insert_loop.simps)
  next
    case False
    then have a: "trial_ok tab ?t" "trial_map tab ?t = (ht_map tab (ht_tables s))(hu_key r \<mapsto> hu_value r)"
      using l i(2) by (simp_all del: insert_loop.simps)
    let ?k = "he_key (tl_entry ?t)"
    have "ht_map tab (tl_tables ?t) ?k = None" using a(1) by (simp add: trial_ok_def del: insert_loop.simps)
    then have "ht_map tab (tl_tables ?t) = (trial_map tab ?t)(?k := None)" "trial_map tab ?t ?k \<noteq> None"
      by (simp_all add: trial_map_def fun_upd_idem del: insert_loop.simps)
    then have m: "ht_map tab (ht_tables t) = ((ht_map tab (ht_tables s))(hu_key r \<mapsto> hu_value r))(?k := None)"
        "((ht_map tab (ht_tables s))(hu_key r \<mapsto> hu_value r)) ?k \<noteq> None"
      unfolding a(2) t(1) by blast+
    have "ht_ok tab (ht_tables t)" using a(1) unfolding t(1) trial_ok_def by blast
    moreover have "ht_insert_failure_counter t = ht_insert_failure_counter s + 1" unfolding t(3) using False by (rule if_not_P)
    ultimately show ?thesis using m unfolding t(2) if_not_P [OF False] by blast
  qed
qed

section \<open>Removal\<close>

lemma remove_tables:
  "i < kNumTables \<Longrightarrow> ht_tables (snd (remove tab r s)) i a =
     (if a = ht_at tab i (hu_key r) \<and> is_match (hu_key r) (ht_tables s i a) then (ht_tables s i a)\<lparr>he_valid := False\<rparr>
      else ht_tables s i a)"
  by (simp add: remove_def write_back_def ht_at_def [symmetric] Let_def)

lemma remove_entry:
  "i < kNumTables \<Longrightarrow> key \<noteq> hu_key r \<Longrightarrow> is_match key (ht_tables s i a) \<Longrightarrow> ht_tables (snd (remove tab r s)) i a = ht_tables s i a"
  by (simp add: remove_tables) (simp add: is_match_def)

lemma remove_holds:
  "ht_holds tab (ht_tables (snd (remove tab r s))) i key \<longleftrightarrow> ht_holds tab (ht_tables s) i key \<and> key \<noteq> hu_key r"
proof -
  have "is_match key (ht_tables (snd (remove tab r s)) i a) \<longleftrightarrow>
      is_match key (ht_tables s i a) \<and> \<not> (a = ht_at tab i (hu_key r) \<and> key = hu_key r)" if "i < kNumTables" for a
    using that by (auto simp: remove_tables is_match_def)
  then show ?thesis by (auto simp: ht_holds_def)
qed

lemma some_entry:
  "(\<exists>e \<in> set (current_entries T (CalculateHashes tab key)). P e) \<longleftrightarrow> (\<exists>i < kNumTables. P (T i (ht_at tab i key)))"
proof -
  have "(\<exists>e \<in> set es. P e) \<longleftrightarrow> (\<exists>i < length es. P (es ! i))" for es by (auto simp: in_set_conv_nth Bex_def)
  from this [of "current_entries T (CalculateHashes tab key)"] show ?thesis by (simp cong: conj_cong)
qed

lemma remove_map:
  assumes "ht_ok tab (ht_tables s)" and "remove tab r s = (rsp, t)"
  shows "ht_ok tab (ht_tables t) \<and> ht_map tab (ht_tables t) = (ht_map tab (ht_tables s))(hu_key r := None) \<and>
     hs_success rsp = (ht_map tab (ht_tables s) (hu_key r) \<noteq> None)"
proof -
  have t: "t = snd (remove tab r s)" using assms(2) by simp
  have "he_valid (ht_tables t i a) \<Longrightarrow> ht_tables t i a = ht_tables s i a" if "i < kNumTables" for i a
    using that unfolding t by (auto simp: remove_tables split: if_split_asm)
  then have ok: "ht_ok tab (ht_tables t)"
    using assms(1) unfolding ht_ok_def t remove_holds by metis
  have "ht_map tab (ht_tables t) = (ht_map tab (ht_tables s))(hu_key r := None)"
  proof (rule map_eqI)
    fix k v
    show "ht_map tab (ht_tables t) k = Some v \<longleftrightarrow> ((ht_map tab (ht_tables s))(hu_key r := None)) k = Some v"
    proof (cases "k = hu_key r")
      case True
      then have "\<not> ht_holds tab (ht_tables t) i k" for i unfolding t remove_holds by simp
      then show ?thesis using True unfolding ht_map_Some [OF ok] by simp
    next
      case False
      have "ht_tables t i (ht_at tab i k) = ht_tables s i (ht_at tab i k)" if "ht_holds tab (ht_tables s) i k" for i
        using that False remove_entry [of i k r s "ht_at tab i k" tab] by (simp add: t ht_holds_def)
      moreover have "ht_holds tab (ht_tables t) i k = ht_holds tab (ht_tables s) i k" for i
        using False unfolding t remove_holds by simp
      ultimately have "ht_map tab (ht_tables t) k = Some v \<longleftrightarrow> ht_map tab (ht_tables s) k = Some v"
        unfolding ht_map_Some [OF ok] ht_map_Some [OF assms(1)] by auto
      then show ?thesis using False by simp
    qed
  qed
  moreover have "hs_success rsp = (\<exists>i < kNumTables. is_match (hu_key r) (ht_tables s i (ht_at tab i (hu_key r))))"
    using assms(2) unfolding some_entry by (auto simp: remove_def update_rsp_def some_entry Let_def)
  then have "hs_success rsp = (ht_map tab (ht_tables s) (hu_key r) \<noteq> None)"
    by (auto simp: ht_map_None ht_holds_def)
  ultimately show ?thesis using ok by blast
qed

section \<open>Every request\<close>

lemma LookUp_map:
  "hp_hit (LookUp u tab T q) = (ht_map tab T (hl_key q) \<noteq> None) \<and> hp_key (LookUp u tab T q) = hl_key q \<and>
   hp_source (LookUp u tab T q) = hl_source q \<and> (\<forall>v. ht_map tab T (hl_key q) = Some v \<longrightarrow> hp_value (LookUp u tab T q) = v)"
proof (cases "last_slot (is_match (hl_key q)) (current_entries T (CalculateHashes tab (hl_key q)))")
  case (Some i)
  have "i < kNumTables" by (rule last_slot_Some [OF Some])
  then show ?thesis using Some by (simp add: LookUp_def ht_map_def Let_def)
qed (simp add: LookUp_def ht_map_def Let_def)

text \<open>What an update may do to the map, with the answer \<open>ok\<close>.\<close>

definition ht_updated :: "tabulation \<Rightarrow> HTUpdateReq \<Rightarrow> bool \<Rightarrow> HashTable \<Rightarrow> HashTable \<Rightarrow> bool" where
  "ht_updated tab r ok s t \<longleftrightarrow>
     (let m = ht_map tab (ht_tables s); m' = ht_map tab (ht_tables t); m1 = m(hu_key r \<mapsto> hu_value r) in
      ht_ok tab (ht_tables t) \<and>
      (if hu_op r = KV_DELETE then m' = m(hu_key r := None) \<and> ok = (m (hu_key r) \<noteq> None)
       else if ok then m' = m1 \<and> ht_insert_failure_counter t = ht_insert_failure_counter s
       else (\<exists>lost. m1 lost \<noteq> None \<and> m' = m1(lost := None)) \<and> ht_insert_failure_counter t = ht_insert_failure_counter s + 1))"

lemma ht_updated_streams:
  "ht_updated tab r ok (s\<lparr>ht_s_axis_upd_req := rs\<rparr>) (t\<lparr>ht_m_axis_upd_rsp := rsps\<rparr>) = ht_updated tab r ok s t"
  by (simp add: ht_updated_def)

lemma Insert_updates:
  assumes "ht_ok tab (ht_tables s)" and "hu_op r = KV_INSERT" and "ht_map tab (ht_tables s) (hu_key r) = None"
  shows "ht_updated tab r (hs_success (fst (Insert tab r s))) s (snd (Insert tab r s))"
  using Insert_map [OF assms(1,3), of "fst (Insert tab r s)" "snd (Insert tab r s)"] assms(2) unfolding ht_updated_def Let_def
  by (cases "hs_success (fst (Insert tab r s))") (simp_all only: prod.collapse KVOperation.distinct simp_thms if_True if_False, blast?)

lemma remove_updates:
  assumes "ht_ok tab (ht_tables s)" and "hu_op r = KV_DELETE"
  shows "ht_updated tab r (hs_success (fst (remove tab r s))) s (snd (remove tab r s))"
  using remove_map [OF assms(1), of r "fst (remove tab r s)" "snd (remove tab r s)"] assms(2) by (simp add: ht_updated_def Let_def)

lemma update_answers:
  "fst (Insert tab r s) = update_rsp r (hs_success (fst (Insert tab r s)))" "ht_m_axis_upd_rsp (snd (Insert tab r s)) = ht_m_axis_upd_rsp s"
  "fst (remove tab r s) = update_rsp r (hs_success (fst (remove tab r s)))" "ht_m_axis_upd_rsp (snd (remove tab r s)) = ht_m_axis_upd_rsp s"
  by (simp_all add: Insert_def remove_def update_rsp_def Let_def del: insert_loop.simps)

text \<open>C8: The cuckoo hash table is a map.  While every entry is where its key belongs and no key is stored twice,
  a lookup is answered with the value of the key, or no hit, and changes nothing; a deletion removes the key and reports
  whether it was there; and the insertion of a new key adds it, and nothing else changes, or fails after
  \<open>kMaxTrials\<close> evictions.  Then exactly one key is gone, the new one or one that was stored before; the failure is
  reported and counted, but not which key it is.\<close>

theorem hash_table_refines_map:
  assumes "ht_ok tab (ht_tables s)"
  shows "let t = hash_table_top u tab s; m = ht_map tab (ht_tables s) in
     case ht_s_axis_lup_req s of
       q # qs \<Rightarrow> ht_tables t = ht_tables s \<and> (\<exists>rsp. ht_m_axis_lup_rsp t = ht_m_axis_lup_rsp s @ [rsp] \<and> hp_key rsp = hl_key q \<and>
         hp_source rsp = hl_source q \<and> hp_hit rsp = (m (hl_key q) \<noteq> None) \<and> (\<forall>v. m (hl_key q) = Some v \<longrightarrow> hp_value rsp = v))
     | [] \<Rightarrow>
         (case ht_s_axis_upd_req s of
            [] \<Rightarrow> t = s
          | r # rs \<Rightarrow> hu_op r = KV_INSERT \<and> m (hu_key r) \<noteq> None \<or>
              (\<exists>ok. ht_m_axis_upd_rsp t = ht_m_axis_upd_rsp s @ [update_rsp r ok] \<and> ht_updated tab r ok s t))"
proof (cases "ht_s_axis_lup_req s")
  case (Cons q qs)
  then show ?thesis using LookUp_map [of u tab "ht_tables s" q] by (simp add: hash_table_top_def Let_def)
next
  case Nil
  show ?thesis
  proof (cases "ht_s_axis_upd_req s")
    case Nil': Nil
    then show ?thesis using Nil by (simp add: hash_table_top_def Let_def)
  next
    case (Cons r rs)
    let ?f = "if hu_op r = KV_INSERT then Insert tab r else remove tab r" and ?s = "s\<lparr>ht_s_axis_upd_req := rs\<rparr>"
    let ?a = "fst (?f ?s)" and ?t = "snd (?f ?s)"
    have t: "hash_table_top u tab s = ?t\<lparr>ht_m_axis_upd_rsp := ht_m_axis_upd_rsp ?t @ [?a]\<rparr>"
      using Nil Cons by (simp add: hash_table_top_def split: prod.split)
    have "?a = update_rsp r (hs_success ?a)" "ht_m_axis_upd_rsp ?t = ht_m_axis_upd_rsp s"
      using update_answers [of tab r ?s] by (simp_all split: if_split)
    then have a: "ht_m_axis_upd_rsp (hash_table_top u tab s) = ht_m_axis_upd_rsp s @ [update_rsp r (hs_success ?a)]"
      unfolding t by (metis HashTable.ext_inject HashTable.surjective HashTable.update_convs(8))
    have "hu_op r = KV_INSERT \<and> ht_map tab (ht_tables s) (hu_key r) \<noteq> None \<or> ht_updated tab r (hs_success ?a) ?s ?t"
      using Insert_updates [of tab ?s r] remove_updates [of tab ?s r] assms
      by (cases "hu_op r"; cases "ht_map tab (ht_tables s) (hu_key r)") simp_all
    moreover have "ht_updated tab r ok s (hash_table_top u tab s) = ht_updated tab r ok ?s ?t" for ok
      unfolding t by (simp add: ht_updated_def)
    ultimately show ?thesis using a unfolding Nil Cons list.case Let_def by blast
  qed
qed

section \<open>A free slot\<close>

text \<open>The new entry goes to the last free slot in the first trial.\<close>

lemma Insert_free:
  assumes "last_slot (\<lambda>e. \<not> he_valid e) (current_entries (ht_tables s) (CalculateHashes tab (hu_key r))) = Some p"
  shows "fst (Insert tab r s) = update_rsp r True \<and>
     ht_tables (snd (Insert tab r s)) = ht_put tab p (HTEntry_new (hu_key r) (hu_value r)) (ht_tables s)"
proof -
  let ?i = "\<lparr>tl_tables = ht_tables s, tl_entry = HTEntry_new (hu_key r) (hu_value r), tl_victim_idx = 0,
       tl_victim_bit = ht_victim_bit s, tl_success = False\<rparr>"
  have p: "p < kNumTables" by (rule last_slot_Some [OF assms])
  have key: "he_key (HTEntry_new (hu_key r) (hu_value r)) = hu_key r" by (simp add: HTEntry_new_def)
  have trial: "tl_success (insert_trial tab ?i)" "tl_tables (insert_trial tab ?i) = ht_put tab p (HTEntry_new (hu_key r) (hu_value r)) (ht_tables s)"
    using assms write_back_one [OF p, of tab "HTEntry_new (hu_key r) (hu_value r)" "ht_tables s"] key
    by (simp_all add: insert_trial_def Let_def)
  have "kMaxTrials = Suc 11" by simp
  then have "insert_loop tab kMaxTrials ?i = insert_trial tab ?i" by (simp only: insert_loop.simps Let_def trial(1) if_True)
  then show ?thesis unfolding Insert_def Let_def using trial by (simp only:) simp
qed

lemma last_slot_free: "i < kNumTables \<Longrightarrow> P (es ! i) \<Longrightarrow> \<exists>p. last_slot P es = Some p"
  using last_slot_None [of P es] by (cases "last_slot P es") auto

text \<open>The last slot that fits is the last.\<close>

lemma last_slot_8: "P (es ! 8) \<Longrightarrow> last_slot P es = Some 8"
  by (simp add: last_slot_def upt_rec numeral_eq_Suc)

text \<open>A key that is inserted again is stored twice.  If the entry of the key is in the last of the tables, where the first
  insertion puts it as long as its slot there is free, and another slot of the key is free, the second insertion reports
  success, but every lookup still finds the old value: an entry cannot be overwritten, only deleted and inserted
  again.\<close>

theorem hash_table_keeps_old_value:
  assumes "ht_holds tab (ht_tables s) 8 (hu_key r)"
    and "\<exists>i < kNumTables. \<not> he_valid (ht_tables s i (ht_at tab i (hu_key r)))"
    and "hl_key q = hu_key r"
  shows "let t = snd (Insert tab r s) in
     hs_success (fst (Insert tab r s)) \<and> hp_hit (LookUp u tab (ht_tables t) q) \<and>
     hp_value (LookUp u tab (ht_tables t) q) = he_value (ht_tables s 8 (ht_at tab 8 (hu_key r)))"
proof -
  let ?es = "current_entries (ht_tables s) (CalculateHashes tab (hu_key r))"
  obtain p where p: "last_slot (\<lambda>e. \<not> he_valid e) ?es = Some p"
    using assms(2) last_slot_free [of _ "\<lambda>e. \<not> he_valid e" ?es] by auto
  have pl: "p < kNumTables" "\<not> he_valid (?es ! p)" by (rule last_slot_Some [OF p])+
  have e8: "is_match (hu_key r) (ht_tables s 8 (ht_at tab 8 (hu_key r)))" using assms(1) by (simp add: ht_holds_def)
  then have ne: "p \<noteq> 8" using pl by (auto simp: is_match_def)
  note i = Insert_free [OF p]
  let ?T = "ht_tables (snd (Insert tab r s))"
  have t8: "?T 8 a = ht_tables s 8 a" for a using i ne by (simp add: ht_put_def)
  then have "is_match (hl_key q) (current_entries ?T (CalculateHashes tab (hl_key q)) ! 8)" using e8 assms(3) by simp
  from last_slot_8 [where P = "is_match (hl_key q)", OF this] show ?thesis
    using i t8 assms(3) by (simp add: LookUp_def update_rsp_def Let_def)
qed

section \<open>Examples\<close>

text \<open>The first insertion, in the empty table.\<close>

definition hash_demo_request :: "ht_value \<Rightarrow> HTUpdateReq" where
  "hash_demo_request v = \<lparr>hu_op = KV_INSERT, hu_key = 5, hu_value = v, hu_source = SRC_A\<rparr>"

abbreviation demo_tab :: tabulation where "demo_tab \<equiv> \<lambda>_ _ _. 0"

definition hash_demo :: HashTable where
  "hash_demo = hash_table_init\<lparr>ht_s_axis_upd_req := [hash_demo_request 7]\<rparr>"

lemma ht_ok_init: "ht_ok tab (ht_tables hash_table_init)" "ht_map tab (ht_tables hash_table_init) key = None"
  by (simp_all add: ht_map_None ht_ok_def ht_holds_def is_match_def hash_table_init_def)

lemma first_insertion:
  "fst (Insert tab r hash_table_init) = update_rsp r True"
  "ht_tables (snd (Insert tab r hash_table_init)) = ht_put tab 8 (HTEntry_new (hu_key r) (hu_value r)) (ht_tables hash_table_init)"
  using Insert_free [of hash_table_init tab r 8, OF last_slot_8] by (simp_all add: hash_table_init_def)

theorem hash_table_refines_map_witness:
  "\<exists>ok. ht_m_axis_upd_rsp (hash_table_top 0 demo_tab hash_demo) = [update_rsp (hash_demo_request 7) ok] \<and>
     ht_updated demo_tab (hash_demo_request 7) ok hash_demo (hash_table_top 0 demo_tab hash_demo) \<and>
     ht_map demo_tab (ht_tables hash_demo) 5 = None"
  using hash_table_refines_map [of demo_tab hash_demo 0] ht_ok_init [of demo_tab]
  by (simp add: hash_demo_def hash_demo_request_def hash_table_init_def Let_def)

text \<open>7 and then 8 is inserted for the key 5.\<close>

theorem hash_table_keeps_old_value_witness:
  "let s = snd (Insert demo_tab (hash_demo_request 7) hash_table_init); t = snd (Insert demo_tab (hash_demo_request 8) s) in
     hs_success (fst (Insert demo_tab (hash_demo_request 8) s)) \<and>
     hp_value (LookUp 0 demo_tab (ht_tables t) \<lparr>hl_key = 5, hl_source = SRC_A\<rparr>) = 7"
proof -
  let ?s = "snd (Insert demo_tab (hash_demo_request 7) hash_table_init)"
  have T: "ht_tables ?s = ht_put demo_tab 8 (HTEntry_new 5 7) (ht_tables hash_table_init)"
    using first_insertion(2) [of demo_tab "hash_demo_request 7"] by (simp add: hash_demo_request_def)
  have at8: "ht_tables ?s 8 (ht_at demo_tab 8 5) = HTEntry_new 5 7" by (simp add: T ht_put_def HTEntry_new_def)
  then have "ht_holds demo_tab (ht_tables ?s) 8 (hu_key (hash_demo_request 8))"
    by (simp add: ht_holds_def is_match_def HTEntry_new_def hash_demo_request_def)
  moreover have "\<exists>i < kNumTables. \<not> he_valid (ht_tables ?s i (ht_at demo_tab i (hu_key (hash_demo_request 8))))"
    unfolding T by (intro exI [of _ 0]) (simp add: ht_put_def hash_table_init_def)
  ultimately show ?thesis
    using hash_table_keeps_old_value [of demo_tab ?s "hash_demo_request 8" "\<lparr>hl_key = 5, hl_source = SRC_A\<rparr>" 0] at8
    by (simp add: hash_demo_request_def HTEntry_new_def Let_def)
qed

end
