(* ===== verification/Packet_Handler.thy ===== *)
theory Packet_Handler
  imports Rx_Packet
begin

text \<open>
  \<open>packet_handler/packet_handler.cpp\<close>, the module in front of the engine: \<open>PacketIdentify\<close> marks every
  Ethernet frame with the kind of its content; it drops frames of other types than ARP and IPv4, and IPv4 packets
  of other protocols than ICMP, TCP and UDP, but forwards a frame of type IPv4 whose version field is not 4.
  \<open>EthernetRemover\<close> cuts the Ethernet header off all frames but ARP.  The theorem is about both together.
  A local that one path leaves unset, \<open>tdest\<close>, is the argument \<open>u\<close>.
\<close>

section \<open>\<open>PacketIdentify\<close>\<close>

definition TYPE_IPV4 :: "16 word" where [simp]: "TYPE_IPV4 = 0x0800"
definition TYPE_ARP :: "16 word" where [simp]: "TYPE_ARP = 0x0806"
definition PROTO_ICMP :: "8 word" where [simp]: "PROTO_ICMP = 1"
definition PROTO_TCP :: "8 word" where [simp]: "PROTO_TCP = 6"
definition PROTO_UDP :: "8 word" where [simp]: "PROTO_UDP = 17"

datatype PacketIdentifyStates = IDENTIFY_FIRST_WORD | IDENTIFY_FWD | IDENTIFY_DROP

record PacketIdentify =
  pi_fsm_state :: PacketIdentifyStates
  pi_tdest_r :: NetAXISDest
  pi_data_in :: "NetAXISWord stream"
  pi_data_out :: "NetAXISWord stream"

text \<open>The destination of a frame and whether it is forwarded.  An IPv4 frame whose version field is not 4 is
  forwarded with an unset destination.\<close>

definition identify_dest :: "NetAXISDest \<Rightarrow> NetAXISWord \<Rightarrow> NetAXISDest \<times> bool" where
  "identify_dest u curr_word =
     (let ethernet_type = SwapByte (get_range 96 (nw_data curr_word)) :: 16 word;
          ip_version = get_range 116 (nw_data curr_word) :: 4 word;
          ip_protocol = get_range 184 (nw_data curr_word) :: 8 word in
      if ethernet_type = TYPE_ARP then (0, True)
      else if ethernet_type = TYPE_IPV4 then
        if ip_version = 4 then
          if ip_protocol = PROTO_ICMP then (1, True)
          else if ip_protocol = PROTO_TCP then (2, True)
          else if ip_protocol = PROTO_UDP then (3, True)
          else (u, False)
        else (u, True)
      else (u, False))"

definition identify_first :: "NetAXISDest \<Rightarrow> NetAXISWord \<Rightarrow> PacketIdentify \<Rightarrow> PacketIdentify" where
  "identify_first u curr_word s =
     (case identify_dest u curr_word of (tdest, forward) \<Rightarrow>
        s\<lparr>pi_tdest_r := tdest,
          pi_data_out := (if forward then pi_data_out s @ [curr_word\<lparr>nw_dest := tdest\<rparr>] else pi_data_out s),
          pi_fsm_state := (if nw_last curr_word then IDENTIFY_FIRST_WORD
            else if forward then IDENTIFY_FWD else IDENTIFY_DROP)\<rparr>)"

definition PacketIdentify :: "NetAXISDest \<Rightarrow> PacketIdentify \<Rightarrow> PacketIdentify" where
  "PacketIdentify u s =
     (case pi_data_in s of
        [] \<Rightarrow> s
      | curr_word # ws \<Rightarrow>
          (let s = s\<lparr>pi_data_in := ws\<rparr> in
           case pi_fsm_state s of
             IDENTIFY_FIRST_WORD \<Rightarrow> identify_first u curr_word s
           | IDENTIFY_FWD \<Rightarrow>
               s\<lparr>pi_data_out := pi_data_out s @ [curr_word\<lparr>nw_dest := pi_tdest_r s\<rparr>],
                 pi_fsm_state := (if nw_last curr_word then IDENTIFY_FIRST_WORD else pi_fsm_state s)\<rparr>
           | IDENTIFY_DROP \<Rightarrow>
               s\<lparr>pi_fsm_state := (if nw_last curr_word then IDENTIFY_FIRST_WORD else pi_fsm_state s)\<rparr>))"

section \<open>\<open>EthernetRemover\<close>\<close>

datatype EthernetRemoverStates = REMOVER_FIRST_WORD | REMOVER_FWD | REMOVING | REMOVER_EXTRA

record EthernetRemover =
  er_fsm_state :: EthernetRemoverStates
  er_prev_word :: NetAXISWord
  er_data_in :: "NetAXISWord stream"
  er_data_out :: "NetAXISWord stream"

text \<open>The word that the process puts together from the end of one word and the start of the next.\<close>

definition remover_word :: "NetAXISWord \<Rightarrow> 112 word \<Rightarrow> 14 word \<Rightarrow> bool \<Rightarrow> NetAXISWord" where
  "remover_word prev_word data keep end_mark =
     \<lparr>nw_data = put_range 400 data (put_range 0 (get_range 112 (nw_data prev_word) :: 400 word) 0),
      nw_dest = nw_dest prev_word,
      nw_keep = put_range 50 keep (put_range 0 (get_range 14 (nw_keep prev_word) :: 50 word) 0),
      nw_last = end_mark\<rparr>"

definition remover_first :: "NetAXISWord \<Rightarrow> EthernetRemover \<Rightarrow> EthernetRemover" where
  "remover_first curr_word s =
     (let arp = (nw_dest curr_word = 0);
          send_word = (if arp then curr_word else remover_word curr_word 0 0 True) in
      s\<lparr>er_data_out := (if nw_last curr_word \<or> arp then er_data_out s @ [send_word] else er_data_out s),
        er_fsm_state := (if nw_last curr_word then REMOVER_FIRST_WORD else if arp then REMOVER_FWD else REMOVING),
        er_prev_word := curr_word\<rparr>)"

definition remover_next :: "NetAXISWord \<Rightarrow> EthernetRemover \<Rightarrow> EthernetRemover" where
  "remover_next curr_word s =
     (let extra = nw_last curr_word \<and> bit (nw_keep curr_word) 14 in
      s\<lparr>er_data_out := er_data_out s @ [remover_word (er_prev_word s) (get_range 0 (nw_data curr_word))
            (get_range 0 (nw_keep curr_word)) (nw_last curr_word \<and> \<not> extra)],
        er_fsm_state := (if nw_last curr_word then if extra then REMOVER_EXTRA else REMOVER_FIRST_WORD else er_fsm_state s),
        er_prev_word := curr_word\<rparr>)"

definition EthernetRemover :: "EthernetRemover \<Rightarrow> EthernetRemover" where
  "EthernetRemover s =
     (if er_fsm_state s = REMOVER_EXTRA then
        s\<lparr>er_data_out := er_data_out s @ [remover_word (er_prev_word s) 0 0 True], er_fsm_state := REMOVER_FIRST_WORD\<rparr>
      else case er_data_in s of
        [] \<Rightarrow> s
      | curr_word # ws \<Rightarrow>
          (let s = s\<lparr>er_data_in := ws\<rparr> in
           case er_fsm_state s of
             REMOVER_FIRST_WORD \<Rightarrow> remover_first curr_word s
           | REMOVER_FWD \<Rightarrow>
               s\<lparr>er_data_out := er_data_out s @ [curr_word],
                 er_fsm_state := (if nw_last curr_word then REMOVER_FIRST_WORD else er_fsm_state s)\<rparr>
           | _ \<Rightarrow> remover_next curr_word s))"

section \<open>\<open>PacketHandler\<close>\<close>

record PacketHandler =
  ph_identify :: PacketIdentify
  ph_remover :: EthernetRemover

definition PacketHandler :: "NetAXISDest \<Rightarrow> PacketHandler \<Rightarrow> PacketHandler" where
  "PacketHandler u s =
     (let i = PacketIdentify u (ph_identify s);
          r = (ph_remover s)\<lparr>er_data_in := er_data_in (ph_remover s) @ pi_data_out i\<rparr> in
      \<lparr>ph_identify = i\<lparr>pi_data_out := []\<rparr>, ph_remover = EthernetRemover r\<rparr>)"

definition packet_handler_init :: PacketHandler where
  "packet_handler_init =
     \<lparr>ph_identify = \<lparr>pi_fsm_state = IDENTIFY_FIRST_WORD, pi_tdest_r = 0, pi_data_in = [], pi_data_out = []\<rparr>,
      ph_remover = \<lparr>er_fsm_state = REMOVER_FIRST_WORD, er_prev_word = NetAXISWord_default, er_data_in = [], er_data_out = []\<rparr>\<rparr>"
section \<open>What is cut off\<close>

lemma byte_remover_word:
  assumes "i < 64"
  shows "word_byte (remover_word p data keep b) i = (if i < 50 then word_byte p (14 + i) else get_range (8 * (i - 50)) data)"
    and "bit (nw_keep (remover_word p data keep b)) i = (if i < 50 then bit (nw_keep p) (14 + i) else bit keep (i - 50))"
proof -
  show "word_byte (remover_word p data keep b) i = (if i < 50 then word_byte p (14 + i) else get_range (8 * (i - 50)) data)"
    by (rule bit_word_eqI) (use assms in \<open>auto simp: word_byte_def remover_word_def bit_field algebra_simps\<close>)
qed (use assms in \<open>auto simp: remover_word_def bit_field\<close>)

lemma lanes_remover_word:
  "lanes (remover_word p (get_range 0 (nw_data w)) (get_range 0 (nw_keep w)) b) = drop 14 (lanes p) @ take 14 (lanes w)"
  "lanes (remover_word p 0 0 b) = drop 14 (lanes p) @ replicate 14 None"
proof -
  have "lanes (remover_word p (get_range 0 (nw_data w)) (get_range 0 (nw_keep w)) b) ! i = (drop 14 (lanes p) @ take 14 (lanes w)) ! i"
    if i: "i < 64" for i
  proof (cases "i < 50")
    case True
    then show ?thesis using i byte_remover_word [OF i] by (simp add: nth_lanes nth_append)
  next
    case False
    then have "i - 50 < 14" using i by simp
    then show ?thesis
      using i False byte_remover_word [OF i] by (simp add: nth_lanes nth_append word_byte_def get_range_get_range bit_field)
  qed
  then show "lanes (remover_word p (get_range 0 (nw_data w)) (get_range 0 (nw_keep w)) b) = drop 14 (lanes p) @ take 14 (lanes w)"
    by (intro nth_equalityI) simp_all
  show "lanes (remover_word p 0 0 b) = drop 14 (lanes p) @ replicate 14 None"
    by (rule nth_equalityI) (simp_all add: nth_lanes nth_append byte_remover_word)
qed

definition remover_phase :: "EthernetRemover \<Rightarrow> shift_phase" where
  "remover_phase s = (case er_fsm_state s of REMOVING \<Rightarrow> Shift_Rest | REMOVER_EXTRA \<Rightarrow> Shift_Extra | _ \<Rightarrow> Shift_Idle)"

lemma remover_phases [simp]:
  "remover_phase s = Shift_Rest \<longleftrightarrow> er_fsm_state s = REMOVING"
  "remover_phase s = Shift_Extra \<longleftrightarrow> er_fsm_state s = REMOVER_EXTRA"
  "remover_phase s = Shift_Idle \<longleftrightarrow> er_fsm_state s = REMOVER_FIRST_WORD \<or> er_fsm_state s = REMOVER_FWD"
  by (simp_all add: remover_phase_def split: EthernetRemoverStates.splits)

interpretation eth: realigner EthernetRemover remover_phase er_prev_word "\<lambda>_. 14" er_data_in er_data_out
    "\<lambda>_. True" "\<lambda>_ ls. ls" "\<lambda>s. er_fsm_state s = REMOVER_FWD"
proof unfold_locales
  fix s w xs
  assume "remover_phase s = Shift_Rest" and i: "er_data_in s = w # xs"
  then have st: "er_fsm_state s = REMOVING" by simp
  show "\<exists>o1. er_data_in (EthernetRemover s) = xs \<and> er_data_out (EthernetRemover s) = er_data_out s @ [o1] \<and>
      er_prev_word (EthernetRemover s) = w \<and> (14 :: nat) = 14 \<and> True \<and> (\<lambda>ls. ls) = (\<lambda>ls. ls) \<and>
      (er_fsm_state (EthernetRemover s) = REMOVER_FWD) = (er_fsm_state s = REMOVER_FWD) \<and>
      lanes o1 = drop 14 (lanes (er_prev_word s)) @ take 14 (lanes w) \<and>
      nw_last o1 = (nw_last w \<and> \<not> bit (nw_keep w) 14) \<and>
      remover_phase (EthernetRemover s) =
        (if nw_last w then if bit (nw_keep w) 14 then Shift_Extra else Shift_Idle else Shift_Rest)"
    using i by (auto simp: EthernetRemover_def st remover_next_def Let_def lanes_remover_word) (simp_all add: remover_word_def)
next
  fix s
  assume "remover_phase s = Shift_Extra"
  then have st: "er_fsm_state s = REMOVER_EXTRA" by simp
  show "\<exists>o1. er_data_in (EthernetRemover s) = er_data_in s \<and> er_data_out (EthernetRemover s) = er_data_out s @ [o1] \<and>
      (er_fsm_state (EthernetRemover s) = REMOVER_FWD) = (er_fsm_state s = REMOVER_FWD) \<and>
      lanes o1 = drop 14 (lanes (er_prev_word s)) @ replicate 14 None \<and> nw_last o1 \<and>
      remover_phase (EthernetRemover s) = Shift_Idle"
    by (simp add: EthernetRemover_def st lanes_remover_word) (simp add: remover_word_def)
qed auto
text \<open>A frame of words that are all marked with the same destination: \<open>d = 0\<close> passes, any other \<open>d\<close> loses
  its first 14 bytes.\<close>

definition marked_words :: "NetAXISDest \<Rightarrow> NetAXISWord list \<Rightarrow> NetAXISWord list" where
  "marked_words d = map (\<lambda>w. w\<lparr>nw_dest := d\<rparr>)"

lemma marked_words_simps [simp]:
  "marked_words d [] = []" "marked_words d (w # ws) = w\<lparr>nw_dest := d\<rparr> # marked_words d ws"
  "length (marked_words d ws) = length ws"
  by (simp_all add: marked_words_def)

lemma lanes_dest [simp]: "lanes (w\<lparr>nw_dest := d\<rparr>) = lanes w"
  by (simp add: lanes_def word_byte_def)

lemma word_bytes_dest [simp]: "word_bytes (w\<lparr>nw_dest := d\<rparr>) = word_bytes w"
  by (simp only: word_bytes_lanes lanes_dest)

lemma marked_empty [simp]: "marked_words d ws = [] \<longleftrightarrow> ws = []"
  by (cases ws) simp_all

lemma marked_packet [simp]:
  "is_packet (marked_words d ws) = is_packet ws" "packet_bytes (marked_words d ws) = packet_bytes ws"
proof -
  show "is_packet (marked_words d ws) = is_packet ws"
  proof (induction ws)
    case (Cons w ws)
    then show ?case by (simp add: is_packet_Cons)
  qed simp
  show "packet_bytes (marked_words d ws) = packet_bytes ws" by (induction ws) simp_all
qed

lemma marked_dest: "w \<in> set (marked_words d ws) \<Longrightarrow> nw_dest w = d"
  by (auto simp: marked_words_def)

definition remover_sent :: "NetAXISDest \<Rightarrow> 8 word list \<Rightarrow> EthernetRemover \<Rightarrow> EthernetRemover \<Rightarrow> bool" where
  "remover_sent d bs s t \<longleftrightarrow> (\<exists>os. er_fsm_state t = REMOVER_FIRST_WORD \<and> er_data_in t = [] \<and>
     er_data_out t = er_data_out s @ os \<and> is_packet os \<and> packet_bytes os = bs \<and> (\<forall>w \<in> set os. nw_dest w = d))"

lemma arp_forwarded:
  "er_fsm_state s = REMOVER_FWD \<Longrightarrow> er_data_in s = ws \<Longrightarrow> is_packet ws \<Longrightarrow>
     (EthernetRemover ^^ length ws) s = s\<lparr>er_fsm_state := REMOVER_FIRST_WORD, er_data_in := [], er_data_out := er_data_out s @ ws\<rparr>"
proof (induction ws arbitrary: s)
  case (Cons w ws)
  show ?case
  proof (cases "ws = []")
    case True
    then show ?thesis using Cons.prems by (simp add: EthernetRemover_def is_packet_Cons)
  next
    case False
    then have w: "\<not> nw_last w" "is_packet ws" using Cons.prems(3) by (simp_all add: is_packet_Cons)
    have "EthernetRemover s = s\<lparr>er_data_in := ws, er_data_out := er_data_out s @ [w]\<rparr>"
      using Cons.prems w(1) by (simp add: EthernetRemover_def)
    then show ?thesis
      using Cons.IH [of "EthernetRemover s"] Cons.prems(1) w(2) by (simp add: funpow_Suc_apply del: funpow.simps)
  qed
qed (simp add: is_packet_def)

lemma remover_dests:
  assumes "\<forall>w \<in> set (er_data_in s). nw_dest w = d" and "er_fsm_state s = REMOVER_FIRST_WORD \<or> nw_dest (er_prev_word s) = d"
  shows "\<exists>os. er_data_out ((EthernetRemover ^^ n) s) = er_data_out s @ os \<and> (\<forall>w \<in> set os. nw_dest w = d)"
proof -
  let ?P = "\<lambda>t. (\<forall>w \<in> set (er_data_in t). nw_dest w = d) \<and> (er_fsm_state t = REMOVER_FIRST_WORD \<or> nw_dest (er_prev_word t) = d) \<and>
      (\<exists>os. er_data_out t = er_data_out s @ os \<and> (\<forall>w \<in> set os. nw_dest w = d))"
  have "?P (EthernetRemover t)" if "?P t" for t
  proof (cases "er_fsm_state t = REMOVER_EXTRA")
    case True
    then show ?thesis using that by (auto simp: EthernetRemover_def remover_word_def)
  next
    case False
    then show ?thesis
      using that by (cases "er_data_in t"; cases "er_fsm_state t")
        (auto simp: EthernetRemover_def remover_first_def remover_next_def Let_def remover_word_def)
  qed
  then have "?P ((EthernetRemover ^^ n) s)" by (rule funpow_invariant [where P = ?P, rotated]) (use assms in auto)
  then show ?thesis by blast
qed

lemma remover_idle: "er_fsm_state t = REMOVER_FIRST_WORD \<Longrightarrow> er_data_in t = [] \<Longrightarrow> EthernetRemover t = t"
  by (simp add: EthernetRemover_def)

lemma header_cut_off:
  assumes "er_fsm_state s = REMOVER_FIRST_WORD" and "er_data_in s = ws" and "is_packet ws"
    and "14 < length (packet_bytes ws)" and "\<forall>w \<in> set ws. nw_dest w = d" and "d \<noteq> 0"
  shows "\<exists>n \<le> Suc (length ws). remover_sent d (drop 14 (packet_bytes ws)) s ((EthernetRemover ^^ n) s)"
proof -
  have dest: "\<exists>os. er_data_out ((EthernetRemover ^^ n) s) = er_data_out s @ os \<and> (\<forall>w \<in> set os. nw_dest w = d)" for n
    using remover_dests assms(1,2,5) by blast
  have sentI: "remover_sent d bs s ((EthernetRemover ^^ n) s)"
    if "er_fsm_state ((EthernetRemover ^^ n) s) = REMOVER_FIRST_WORD" "er_data_in ((EthernetRemover ^^ n) s) = []"
      "er_data_out ((EthernetRemover ^^ n) s) = er_data_out s @ os" "is_packet os" "packet_bytes os = bs" for n os bs
    using that dest [of n] by (auto simp: remover_sent_def)
  obtain w vs where ws: "ws = w # vs" using assms(3) by (cases ws) (auto simp: is_packet_def)
  show ?thesis
  proof (cases "vs = []")
    case True
    then obtain j where j: "nw_keep w = mask j" "j \<le> 64" and last: "nw_last w"
      using assms(3) ws by (auto simp: is_packet_Cons)
    note l = mask_lanes [OF j]
    let ?o = "remover_word w 0 0 True"
    have len: "14 < j" using l(2) assms(4) ws True by simp
    have lo: "lanes ?o = map Some (drop 14 (word_bytes w)) @ replicate (64 - j + 14) None"
      using l len by (simp add: lanes_remover_word drop_map replicate_add)
    have "nw_keep ?o = mask (j - 14)" using keep_of_lanes [OF lo] l(2) len j(2) by simp
    moreover have "j - 14 \<in> {1..64}" using len j(2) unfolding atLeastAtMost_iff by linarith
    ultimately have "nw_keep ?o \<in> mask ` {1..64}" by (metis imageI)
    then have "is_packet [?o]" by (simp add: is_packet_def remover_word_def)
    moreover have "packet_bytes [?o] = drop 14 (packet_bytes ws)" using lo ws True by (simp add: word_bytes_lanes)
    moreover have "EthernetRemover s = s\<lparr>er_data_in := [], er_data_out := er_data_out s @ [?o], er_prev_word := w\<rparr>"
      using assms(1,2,5,6) ws True last by (simp add: EthernetRemover_def remover_first_def)
    ultimately show ?thesis using sentI [of 1] assms(1) by (intro exI [of _ 1]) simp
  next
    case False
    then have w: "nw_keep w = - 1" "\<not> nw_last w" "is_packet vs" using assms(3) ws by (simp_all add: is_packet_Cons)
    let ?s = "s\<lparr>er_data_in := vs, er_prev_word := w, er_fsm_state := REMOVING\<rparr>"
    have step: "EthernetRemover s = ?s"
      using assms(1,2,5,6) ws w(2) by (simp add: EthernetRemover_def remover_first_def)
    obtain n where n: "n \<le> Suc (length vs)" and c: "eth.cut ?s vs [] ((EthernetRemover ^^ n) ?s)"
      using eth.cut_packet [of ?s vs "[]"] w by auto
    have same: "(EthernetRemover ^^ n) ?s = (EthernetRemover ^^ Suc n) s"
      by (simp only: funpow_Suc_apply step)
    have "somes (drop 14 (lanes w @ concat (map lanes vs))) = drop 14 (packet_bytes ws)"
      using packet_drop [OF assms(3), of 14] ws by simp
    then have "remover_sent d (drop 14 (packet_bytes ws)) s ((EthernetRemover ^^ Suc n) s)"
      using c unfolding eth.cut_def same by (auto intro!: sentI [of "Suc n"] simp del: funpow.simps)
    then show ?thesis using n ws by (intro exI [of _ "Suc n"]) simp
  qed
qed

text \<open>Either way the frame is out after one cycle more than it has words.\<close>

definition stripped :: "NetAXISDest \<Rightarrow> 8 word list \<Rightarrow> 8 word list" where
  "stripped d bs = (if d = 0 then bs else drop 14 bs)"

lemma remover_result:
  assumes "er_fsm_state s = REMOVER_FIRST_WORD" and "er_data_in s = marked_words d ws" and "is_packet ws"
    and "14 < length (packet_bytes ws)"
  shows "remover_sent d (stripped d (packet_bytes ws)) s ((EthernetRemover ^^ Suc (length ws)) s)"
proof -
  have "\<exists>n \<le> Suc (length ws). remover_sent d (stripped d (packet_bytes ws)) s ((EthernetRemover ^^ n) s)"
  proof (cases "d = 0")
    case False
    then show ?thesis
      using header_cut_off [OF assms(1,2), of d] assms(3,4) by (simp add: stripped_def marked_dest)
  next
    case True
    obtain w vs where ws: "ws = w # vs" using assms(3) by (cases ws) (auto simp: is_packet_def)
    let ?w = "w\<lparr>nw_dest := 0\<rparr>"
    let ?s = "s\<lparr>er_data_in := marked_words 0 vs, er_data_out := er_data_out s @ [?w], er_prev_word := ?w,
        er_fsm_state := (if nw_last w then REMOVER_FIRST_WORD else REMOVER_FWD)\<rparr>"
    have step: "EthernetRemover s = ?s"
      using assms(1,2) ws True by (simp add: EthernetRemover_def remover_first_def)
    have "(EthernetRemover ^^ length vs) ?s = ?s\<lparr>er_fsm_state := REMOVER_FIRST_WORD, er_data_in := [],
        er_data_out := er_data_out s @ marked_words 0 ws\<rparr>"
      using arp_forwarded [of ?s "marked_words 0 vs"] assms(3) ws by (cases "vs = []") (simp_all add: is_packet_Cons)
    then have "remover_sent 0 (packet_bytes ws) s ((EthernetRemover ^^ length ws) s)"
      using assms(3) marked_dest [of _ 0 ws] ws unfolding remover_sent_def
      by (intro exI [of _ "marked_words 0 ws"])
        (simp add: funpow_Suc_apply step marked_packet [of 0 "w # vs", simplified] del: funpow.simps)
    then show ?thesis using True by (intro exI [of _ "length ws"]) (simp add: stripped_def)
  qed
  then obtain n where n: "n \<le> Suc (length ws)" and d: "remover_sent d (stripped d (packet_bytes ws)) s ((EthernetRemover ^^ n) s)"
    by blast
  let ?t = "(EthernetRemover ^^ n) s"
  have "EthernetRemover ?t = ?t" using d by (auto simp: remover_sent_def intro: remover_idle)
  then have "(EthernetRemover ^^ m) ?t = ?t" for m by (induction m) simp_all
  then have "(EthernetRemover ^^ (Suc (length ws) - n + n)) s = ?t" by (simp only: funpow_add o_apply)
  then show ?thesis using n d by simp
qed
section \<open>Both processes on a frame\<close>

lemma remover_word_by_word:
  assumes "er_fsm_state r \<noteq> REMOVER_EXTRA" and "er_data_in r = [w]"
  shows "EthernetRemover (r\<lparr>er_data_in := w # ws\<rparr>) = (EthernetRemover r)\<lparr>er_data_in := ws\<rparr>"
    and "er_data_in (EthernetRemover r) = []"
    and "\<not> nw_last w \<Longrightarrow> er_fsm_state (EthernetRemover r) \<noteq> REMOVER_EXTRA"
  using assms by (cases "er_fsm_state r";
    simp add: EthernetRemover_def remover_first_def remover_next_def Let_def)+

lemma remover_same_input: "er_data_in r = xs \<Longrightarrow> r\<lparr>er_data_in := xs\<rparr> = r"
  by (cases r) simp

text \<open>A process that gets its words one by one, in the cycles in which the other sends them, ends as one
  that finds them all in its stream.\<close>

lemma handler_forwards:
  "pi_fsm_state i = IDENTIFY_FWD \<Longrightarrow> pi_data_in i = ws \<Longrightarrow> pi_data_out i = [] \<Longrightarrow> is_packet ws \<Longrightarrow>
   er_fsm_state r \<noteq> REMOVER_EXTRA \<Longrightarrow> er_data_in r = [] \<Longrightarrow>
   (PacketHandler u ^^ length ws) \<lparr>ph_identify = i, ph_remover = r\<rparr> =
     \<lparr>ph_identify = i\<lparr>pi_fsm_state := IDENTIFY_FIRST_WORD, pi_data_in := []\<rparr>,
      ph_remover = (EthernetRemover ^^ length ws) (r\<lparr>er_data_in := marked_words (pi_tdest_r i) ws\<rparr>)\<rparr>"
proof (induction ws arbitrary: i r)
  case (Cons w ws)
  let ?w = "w\<lparr>nw_dest := pi_tdest_r i\<rparr>"
  let ?r = "EthernetRemover (r\<lparr>er_data_in := [?w]\<rparr>)"
  note one = remover_word_by_word [of "r\<lparr>er_data_in := [?w]\<rparr>" ?w, simplified, OF Cons.prems(5)]
  have step: "PacketHandler u \<lparr>ph_identify = i, ph_remover = r\<rparr> =
      \<lparr>ph_identify = i\<lparr>pi_data_in := ws, pi_fsm_state := (if nw_last w then IDENTIFY_FIRST_WORD else IDENTIFY_FWD)\<rparr>,
       ph_remover = ?r\<rparr>"
    using Cons.prems by (cases i) (simp add: PacketHandler_def PacketIdentify_def Let_def)
  show ?case
  proof (cases "ws = []")
    case True
    then show ?thesis using Cons.prems(4) step by (simp add: is_packet_Cons)
  next
    case False
    then have w: "\<not> nw_last w" "is_packet ws" using Cons.prems(4) by (simp_all add: is_packet_Cons)
    let ?i = "i\<lparr>pi_data_in := ws, pi_fsm_state := IDENTIFY_FWD\<rparr>" and ?W = "marked_words (pi_tdest_r i) ws"
    have "(PacketHandler u ^^ length ws) \<lparr>ph_identify = ?i, ph_remover = ?r\<rparr> =
        \<lparr>ph_identify = ?i\<lparr>pi_fsm_state := IDENTIFY_FIRST_WORD, pi_data_in := []\<rparr>,
         ph_remover = (EthernetRemover ^^ length ws) (?r\<lparr>er_data_in := ?W\<rparr>)\<rparr>"
      using Cons.IH [of ?i ?r] Cons.prems(3) w one(2,3) by simp
    moreover have "(EthernetRemover ^^ length ws) (?r\<lparr>er_data_in := ?W\<rparr>) =
        (EthernetRemover ^^ length (w # ws)) (r\<lparr>er_data_in := marked_words (pi_tdest_r i) (w # ws)\<rparr>)"
      by (simp only: length_Cons funpow_Suc_apply marked_words_simps one(1) [symmetric])
    moreover have "?i\<lparr>pi_fsm_state := IDENTIFY_FIRST_WORD, pi_data_in := []\<rparr> = i\<lparr>pi_fsm_state := IDENTIFY_FIRST_WORD, pi_data_in := []\<rparr>"
      by (cases i) simp
    ultimately show ?thesis by (simp only: length_Cons funpow_Suc_apply step w(1) if_False)
  qed
qed (simp add: is_packet_def)

lemma handler_drops:
  "pi_fsm_state i = IDENTIFY_DROP \<Longrightarrow> pi_data_in i = ws \<Longrightarrow> pi_data_out i = [] \<Longrightarrow> is_packet ws \<Longrightarrow>
   er_fsm_state r = REMOVER_FIRST_WORD \<Longrightarrow> er_data_in r = [] \<Longrightarrow>
   (PacketHandler u ^^ length ws) \<lparr>ph_identify = i, ph_remover = r\<rparr> =
     \<lparr>ph_identify = i\<lparr>pi_fsm_state := IDENTIFY_FIRST_WORD, pi_data_in := []\<rparr>, ph_remover = r\<rparr>"
proof (induction ws arbitrary: i)
  case (Cons w ws)
  have step: "PacketHandler u \<lparr>ph_identify = i, ph_remover = r\<rparr> =
      \<lparr>ph_identify = i\<lparr>pi_data_in := ws, pi_fsm_state := (if nw_last w then IDENTIFY_FIRST_WORD else IDENTIFY_DROP)\<rparr>,
       ph_remover = r\<rparr>"
    using Cons.prems by (cases i; cases r) (simp add: PacketHandler_def PacketIdentify_def EthernetRemover_def Let_def)
  show ?case
  proof (cases "ws = []")
    case True
    then show ?thesis using Cons.prems(4) step by (simp add: is_packet_Cons)
  next
    case False
    then have w: "\<not> nw_last w" "is_packet ws" using Cons.prems(4) by (simp_all add: is_packet_Cons)
    let ?i = "i\<lparr>pi_data_in := ws, pi_fsm_state := IDENTIFY_DROP\<rparr>"
    have "(PacketHandler u ^^ length ws) \<lparr>ph_identify = ?i, ph_remover = r\<rparr> =
        \<lparr>ph_identify = ?i\<lparr>pi_fsm_state := IDENTIFY_FIRST_WORD, pi_data_in := []\<rparr>, ph_remover = r\<rparr>"
      using Cons.IH [of ?i] Cons.prems(3,5,6) w by simp
    moreover have "?i\<lparr>pi_fsm_state := IDENTIFY_FIRST_WORD, pi_data_in := []\<rparr> = i\<lparr>pi_fsm_state := IDENTIFY_FIRST_WORD, pi_data_in := []\<rparr>"
      by (cases i) simp
    ultimately show ?thesis by (simp only: length_Cons funpow_Suc_apply step w(1) if_False)
  qed
qed (simp add: is_packet_def)

section \<open>What a frame is\<close>

text \<open>The specification reads the bytes of the frame: its type, and protocol and version of IPv4.\<close>

definition frame_type :: "8 word list \<Rightarrow> nat" where
  "frame_type bs = 256 * unat (bs ! 12) + unat (bs ! 13)"

definition frame_route :: "NetAXISDest \<Rightarrow> 8 word list \<Rightarrow> NetAXISDest option" where
  "frame_route u bs =
     (if frame_type bs = 0x0806 then Some 0
      else if frame_type bs \<noteq> 0x0800 then None
      else if unat (bs ! 14) div 16 \<noteq> 4 then Some u
      else if bs ! 23 = 1 then Some 1 else if bs ! 23 = 6 then Some 2 else if bs ! 23 = 17 then Some 3 else None)"

lemma identify_route:
  assumes "is_packet (w # ws)" and "24 \<le> length (packet_bytes (w # ws))"
  shows "identify_dest u w = (case frame_route u (packet_bytes (w # ws)) of Some d \<Rightarrow> (d, True) | None \<Rightarrow> (u, False))"
proof -
  let ?bs = "packet_bytes (w # ws)"
  have b: "?bs ! i = word_byte w i" if "i < 24" for i
    using word_bytes_nth [OF assms(1), of i] that assms(2) by simp
  let ?type = "SwapByte (get_range 96 (nw_data w)) :: 16 word"
  have type: "unat ?type = frame_type ?bs"
    by (simp add: unat_of_bytes_16 [of ?type] byte_SwapByte_16 get_range_get_range b word_byte_def frame_type_def
        del: packet_bytes_simps)
  have types: "?type = 0x0806 \<longleftrightarrow> frame_type ?bs = 0x0806" "?type = 0x0800 \<longleftrightarrow> frame_type ?bs = 0x0800"
    unfolding type [symmetric] by (simp_all add: word_unat_eq_iff)
  let ?v = "get_range 116 (nw_data w) :: 4 word"
  have "?v = get_range 4 (word_byte w 14)" by (simp add: word_byte_def get_range_get_range)
  moreover have "unat (get_range 4 (word_byte w 14) :: 4 word) = unat (word_byte w 14) div 16"
    using unsigned_less [where 'a = nat, of "word_byte w 14"] by (simp add: unat_get_range)
  ultimately have "?v = 4 \<longleftrightarrow> unat (?bs ! 14) div 16 = 4" by (simp add: word_unat_eq_iff b del: packet_bytes_simps)
  moreover have "get_range 184 (nw_data w) = ?bs ! 23" by (simp add: b word_byte_def del: packet_bytes_simps)
  ultimately show ?thesis using types by (simp add: identify_dest_def frame_route_def Let_def del: packet_bytes_simps)
qed

definition handler_quiet :: "PacketHandler \<Rightarrow> bool" where
  "handler_quiet s \<longleftrightarrow> pi_fsm_state (ph_identify s) = IDENTIFY_FIRST_WORD \<and> pi_data_in (ph_identify s) = [] \<and>
     pi_data_out (ph_identify s) = [] \<and> er_fsm_state (ph_remover s) = REMOVER_FIRST_WORD \<and> er_data_in (ph_remover s) = []"

definition with_frame :: "NetAXISWord list \<Rightarrow> PacketHandler \<Rightarrow> PacketHandler" where
  "with_frame ws s = s\<lparr>ph_identify := (ph_identify s)\<lparr>pi_data_in := ws\<rparr>\<rparr>"

lemma handler_forwards_frame:
  assumes "handler_quiet s" and "is_packet ws" and "ws = w # vs" and "identify_dest u w = (d, True)"
  shows "(PacketHandler u ^^ Suc (length ws)) (with_frame ws s) =
     \<lparr>ph_identify = (ph_identify s)\<lparr>pi_data_in := [], pi_tdest_r := d, pi_fsm_state := IDENTIFY_FIRST_WORD\<rparr>,
      ph_remover = (EthernetRemover ^^ Suc (length ws)) ((ph_remover s)\<lparr>er_data_in := marked_words d ws\<rparr>)\<rparr>"
proof -
  let ?i = "ph_identify s" and ?r = "ph_remover s" and ?w = "w\<lparr>nw_dest := d\<rparr>"
  let ?p = "EthernetRemover (?r\<lparr>er_data_in := [?w]\<rparr>)"
  have q: "pi_fsm_state ?i = IDENTIFY_FIRST_WORD" "pi_data_out ?i = []" "er_fsm_state ?r = REMOVER_FIRST_WORD" "er_data_in ?r = []"
    using assms(1) by (simp_all add: handler_quiet_def)
  note one = remover_word_by_word [of "?r\<lparr>er_data_in := [?w]\<rparr>" ?w, simplified, unfolded q]
  let ?j = "?i\<lparr>pi_data_in := vs, pi_tdest_r := d, pi_fsm_state := (if nw_last w then IDENTIFY_FIRST_WORD else IDENTIFY_FWD)\<rparr>"
  have step: "PacketHandler u (with_frame ws s) = \<lparr>ph_identify = ?j, ph_remover = ?p\<rparr>"
    using q assms(3,4) by (cases ?i) (simp add: PacketHandler_def PacketIdentify_def with_frame_def identify_first_def Let_def)
  let ?k = "?i\<lparr>pi_data_in := [], pi_tdest_r := d, pi_fsm_state := IDENTIFY_FIRST_WORD\<rparr>"
  have "(PacketHandler u ^^ length vs) \<lparr>ph_identify = ?j, ph_remover = ?p\<rparr> =
      \<lparr>ph_identify = ?k, ph_remover = (EthernetRemover ^^ length vs) (?p\<lparr>er_data_in := marked_words d vs\<rparr>)\<rparr>"
  proof (cases "vs = []")
    case True
    have p: "?p\<lparr>er_data_in := []\<rparr> = ?p" by (rule remover_same_input) (use one(2) in simp)
    have "nw_last w" using True assms(2,3) by (simp add: is_packet_Cons)
    then show ?thesis using True p by (simp only: list.size(3) funpow.simps(1) id_apply marked_words_simps if_True)
  next
    case False
    have k: "?j\<lparr>pi_fsm_state := IDENTIFY_FIRST_WORD, pi_data_in := []\<rparr> = ?k" by (cases ?i) simp
    have "\<not> nw_last w" and v: "is_packet vs" using False assms(2,3) by (simp_all add: is_packet_Cons)
    then have "pi_fsm_state ?j = IDENTIFY_FWD" "pi_data_in ?j = vs" "pi_data_out ?j = []" "pi_tdest_r ?j = d"
        "er_fsm_state ?p \<noteq> REMOVER_EXTRA" "er_data_in ?p = []"
      using one(2,3) q by simp_all
    with handler_forwards [OF this(1-3) v this(5,6), of u] show ?thesis unfolding k by simp
  qed
  moreover have "?p\<lparr>er_data_in := marked_words d vs\<rparr> = EthernetRemover (?r\<lparr>er_data_in := marked_words d ws\<rparr>)"
    using one(1) [of "marked_words d vs"] by (simp only: assms(3) marked_words_simps EthernetRemoverStates.distinct not_False_eq_True simp_thms True_implies_equals)
  ultimately have run: "(PacketHandler u ^^ length ws) (with_frame ws s) =
      \<lparr>ph_identify = ?k, ph_remover = (EthernetRemover ^^ length ws) (?r\<lparr>er_data_in := marked_words d ws\<rparr>)\<rparr>"
    by (simp only: assms(3) length_Cons funpow_Suc_apply step [unfolded assms(3)])
  have last: "PacketHandler u \<lparr>ph_identify = ?k, ph_remover = r\<rparr> = \<lparr>ph_identify = ?k, ph_remover = EthernetRemover r\<rparr>" for r
    using q by (cases ?i) (simp add: PacketHandler_def PacketIdentify_def)
  show ?thesis by (simp only: funpow.simps(2) o_apply run last)
qed

lemma handler_sorts:
  assumes "handler_quiet s" and "is_packet ws" and "24 \<le> length (packet_bytes ws)"
  shows "let t = (PacketHandler u ^^ Suc (length ws)) (with_frame ws s) in
     handler_quiet t \<and>
     (case frame_route u (packet_bytes ws) of
        None \<Rightarrow> er_data_out (ph_remover t) = er_data_out (ph_remover s)
      | Some d \<Rightarrow> remover_sent d (stripped d (packet_bytes ws)) (ph_remover s) (ph_remover t))"
proof -
  let ?i = "ph_identify s" and ?r = "ph_remover s" and ?bs = "packet_bytes ws"
  obtain w vs where ws: "ws = w # vs" using assms(2) by (cases ws) (auto simp: is_packet_def)
  have q: "pi_fsm_state ?i = IDENTIFY_FIRST_WORD" "pi_data_out ?i = []" "er_fsm_state ?r = REMOVER_FIRST_WORD" "er_data_in ?r = []"
    using assms(1) by (simp_all add: handler_quiet_def)
  note dest = identify_route [OF assms(2,3) [unfolded ws], of u, folded ws]
  have idle: "PacketHandler u z = z" if "handler_quiet z" for z
    using that by (cases z; cases "ph_identify z"; cases "ph_remover z")
      (auto simp: handler_quiet_def PacketHandler_def PacketIdentify_def EthernetRemover_def Let_def)
  show ?thesis
  proof (cases "frame_route u ?bs")
    case None
    let ?j = "?i\<lparr>pi_data_in := vs, pi_tdest_r := u, pi_fsm_state := (if nw_last w then IDENTIFY_FIRST_WORD else IDENTIFY_DROP)\<rparr>"
    have step: "PacketHandler u (with_frame ws s) = \<lparr>ph_identify = ?j, ph_remover = ?r\<rparr>"
      using q None dest ws by (cases ?i; cases ?r)
        (simp add: PacketHandler_def PacketIdentify_def with_frame_def identify_first_def EthernetRemover_def Let_def)
    let ?z = "\<lparr>ph_identify = ?j\<lparr>pi_fsm_state := IDENTIFY_FIRST_WORD, pi_data_in := []\<rparr>, ph_remover = ?r\<rparr>"
    have run: "(PacketHandler u ^^ length vs) \<lparr>ph_identify = ?j, ph_remover = ?r\<rparr> = ?z"
    proof (cases "vs = []")
      case True
      then show ?thesis using assms(2) ws by (simp add: is_packet_Cons)
    next
      case False
      then show ?thesis using assms(2) ws handler_drops [of ?j vs ?r u] q by (simp add: is_packet_Cons)
    qed
    have quiet: "handler_quiet ?z" using q by (simp add: handler_quiet_def)
    have "(PacketHandler u ^^ Suc (length ws)) (with_frame ws s) = ?z"
      by (simp only: ws length_Cons funpow.simps(2) o_apply) (simp only: funpow_swap1 step [unfolded ws] run idle [OF quiet])
    then show ?thesis using None quiet by (simp add: Let_def)
  next
    case (Some d)
    let ?t = "(PacketHandler u ^^ Suc (length ws)) (with_frame ws s)"
    have t: "?t = \<lparr>ph_identify = ?i\<lparr>pi_data_in := [], pi_tdest_r := d, pi_fsm_state := IDENTIFY_FIRST_WORD\<rparr>,
        ph_remover = (EthernetRemover ^^ Suc (length ws)) (?r\<lparr>er_data_in := marked_words d ws\<rparr>)\<rparr>"
      using handler_forwards_frame [OF assms(1,2) ws] dest Some by simp
    have "remover_sent d (stripped d ?bs) (?r\<lparr>er_data_in := marked_words d ws\<rparr>) (ph_remover ?t)"
      using remover_result [of "?r\<lparr>er_data_in := marked_words d ws\<rparr>" d ws] q assms(2,3) unfolding t by simp
    then have r: "remover_sent d (stripped d ?bs) ?r (ph_remover ?t)" by (simp only: remover_sent_def ext_inject) simp
    then have "handler_quiet ?t" using q by (auto simp: handler_quiet_def remover_sent_def t simp del: funpow.simps)
    then show ?thesis using Some r by (simp only: Let_def option.case)
  qed
qed

text \<open>C15: The module sorts the frames.  A frame of another type than ARP and IPv4 is dropped whole, and so is one
  with an IPv4 packet, version 4, of another protocol than ICMP, TCP and UDP.  An ARP frame passes unchanged with the mark 0; of the
  ICMP, TCP and UDP packets everything behind the Ethernet header is sent, all words with the mark 1, 2 or 3 of
  their kind.  A frame of type IPv4 whose version field is not 4 is not dropped: it is forwarded with
  whatever mark \<open>u\<close> the local variable happens to hold, with its Ethernet header if that is 0 and without it otherwise.
  All this takes one cycle more than the frame has words; then the module is ready for the next.\<close>

theorem packet_handler_sorts:
  assumes "handler_quiet s" and "is_packet ws" and "24 \<le> length (packet_bytes ws)"
  shows "let t = (PacketHandler u ^^ Suc (length ws)) (with_frame ws s) in
     handler_quiet t \<and>
     (case frame_route u (packet_bytes ws) of
        None \<Rightarrow> er_data_out (ph_remover t) = er_data_out (ph_remover s)
      | Some d \<Rightarrow> remover_sent d (stripped d (packet_bytes ws)) (ph_remover s) (ph_remover t))"
  using assms by (rule handler_sorts)

definition demo_frame :: "nat \<Rightarrow> NetAXISWord" where
  "demo_frame protocol =
     \<lparr>nw_data = put_range 184 (word_of_nat protocol :: 8 word) (put_range 112 (0x45 :: 8 word)
        (put_range 104 (0 :: 8 word) (put_range 96 (8 :: 8 word) 0))),
      nw_dest = 0, nw_keep = mask 60, nw_last = True\<rparr>"

theorem packet_handler_sorts_witness:
  "\<exists>os. er_data_out (ph_remover ((PacketHandler 9 ^^ 2) (with_frame [demo_frame 6] packet_handler_init))) = os \<and>
     is_packet os \<and> packet_bytes os = drop 14 (word_bytes (demo_frame 6)) \<and> (\<forall>w \<in> set os. nw_dest w = 2)"
proof -
  have len: "length (word_bytes (demo_frame 6)) = 60" by (rule mask_lanes(2)) (simp_all add: demo_frame_def)
  have p: "is_packet [demo_frame 6]" by (auto simp: is_packet_def demo_frame_def)
  have b: "word_bytes (demo_frame 6) ! i = word_byte (demo_frame 6) i" if "i < 60" for i
    using word_bytes_nth [OF p, of i] that len by simp
  have "word_byte (demo_frame 6) 12 = 8" "word_byte (demo_frame 6) 13 = 0" "word_byte (demo_frame 6) 14 = 0x45"
      "word_byte (demo_frame 6) 23 = 6"
    by (simp_all add: demo_frame_def word_byte_def get_put_range_disjoint)
  then have "frame_route 9 (packet_bytes [demo_frame 6]) = Some 2"
    by (simp add: frame_route_def frame_type_def b)
  moreover have "handler_quiet packet_handler_init" by (simp add: handler_quiet_def packet_handler_init_def)
  ultimately show ?thesis
    using packet_handler_sorts [of packet_handler_init "[demo_frame 6]" 9, OF _ p] len
    by (auto simp: Let_def remover_sent_def stripped_def packet_handler_init_def numeral_2_eq_2 simp del: funpow.simps)
qed

end
