(* ===== verification/Ethernet_Header.thy ===== *)
theory Ethernet_Header
  imports Tx_Wire Packet_Handler
begin

text \<open>
  \<open>ethernet_header_inserter/ethernet_header_inserter.cpp\<close>, the module behind the engine: it asks the ARP
  server for the hardware address of the next hop, computes the checksum of the IP header, and sends
  the packet behind an Ethernet header, or drops it when the address is not known.  The static arrays of
  the adder tree are written before they are read in every call, so they are no state.
\<close>

section \<open>\<open>BroadcastMacRequest\<close>\<close>

datatype BmrFsmState = BMR_FIRST_WORD | BMR_REMAINING

record BroadcastMacRequest =
  bm_fsm_state :: BmrFsmState
  bm_ip_seg_in :: "NetAXISWord stream"
  bm_arp_table_req :: "32 word stream"
  bm_ip_header_out :: "NetAXISWord stream"
  bm_no_ip_header_out :: "NetAXISWord stream"

definition BroadcastMacRequest :: "32 word \<Rightarrow> 32 word \<Rightarrow> BroadcastMacRequest \<Rightarrow> BroadcastMacRequest" where
  "BroadcastMacRequest subnet_mask gateway_ip_addr s =
     (case bm_ip_seg_in s of
        [] \<Rightarrow> s
      | cur_word # ws \<Rightarrow>
          (let s = s\<lparr>bm_ip_seg_in := ws\<rparr>;
               dst_ip_addr = get_range 128 (nw_data cur_word) :: 32 word in
           case bm_fsm_state s of
             BMR_FIRST_WORD \<Rightarrow>
               s\<lparr>bm_arp_table_req := bm_arp_table_req s @
                   [if dst_ip_addr AND subnet_mask = gateway_ip_addr AND subnet_mask then dst_ip_addr else gateway_ip_addr],
                 bm_ip_header_out := bm_ip_header_out s @ [cur_word],
                 bm_fsm_state := (if nw_last cur_word then bm_fsm_state s else BMR_REMAINING)\<rparr>
           | BMR_REMAINING \<Rightarrow>
               s\<lparr>bm_no_ip_header_out := bm_no_ip_header_out s @ [cur_word],
                 bm_fsm_state := (if nw_last cur_word then BMR_FIRST_WORD else bm_fsm_state s)\<rparr>))"

section \<open>\<open>ComputeAndInsertIpv4Checksum\<close>\<close>

definition ip_ops :: "NetAXISData \<Rightarrow> nat \<Rightarrow> 16 word" where
  "ip_ops data i =
     (if i = 5 then 0
      else if i < unat (get_range 0 data :: 4 word) * 2 then
        put_range 8 (get_range (i * 16) data :: 8 word) (put_range 0 (get_range (i * 16 + 8) data :: 8 word) 0)
      else 0)"

definition ip_sums_L1 :: "NetAXISData \<Rightarrow> nat \<Rightarrow> 17 word" where
  "ip_sums_L1 data i = ucast (ip_ops data (i * 2)) + ucast (ip_ops data (i * 2 + 1))"

definition ip_sums_L2 :: "NetAXISData \<Rightarrow> nat \<Rightarrow> 18 word" where
  "ip_sums_L2 data i =
     (if i = 7 then ucast (ip_sums_L1 data 14)
      else ucast (ip_sums_L1 data (i * 2 + 1)) + ucast (ip_sums_L1 data (i * 2)))"

definition ip_sums_L3 :: "NetAXISData \<Rightarrow> nat \<Rightarrow> 19 word" where
  "ip_sums_L3 data i = ucast (ip_sums_L2 data (i * 2 + 1)) + ucast (ip_sums_L2 data (i * 2))"

definition ip_sums_L4 :: "NetAXISData \<Rightarrow> nat \<Rightarrow> 20 word" where
  "ip_sums_L4 data i = ucast (ip_sums_L3 data (i * 2 + 1)) + ucast (ip_sums_L3 data (i * 2))"

definition ip_sums_L5 :: "NetAXISData \<Rightarrow> 21 word" where
  "ip_sums_L5 data = ucast (ip_sums_L4 data 1) + ucast (ip_sums_L4 data 0)"

definition ip_chksum :: "NetAXISData \<Rightarrow> 16 word" where
  "ip_chksum data =
     (let sum = ip_sums_L5 data;
          final_sum = ucast (get_range 0 sum :: 16 word) + ucast (get_range 16 sum :: 5 word) :: 17 word;
          final_sum = of_bool (bit final_sum 16) + final_sum in
      NOT (get_range 0 final_sum))"

definition insert_ip_checksum :: "NetAXISWord \<Rightarrow> NetAXISWord" where
  "insert_ip_checksum cur_word =
     (let chksum = ip_chksum (nw_data cur_word) in
      cur_word\<lparr>nw_data := put_range 80 (get_range 8 chksum :: 8 word)
        (put_range 88 (get_range 0 chksum :: 8 word) (nw_data cur_word))\<rparr>)"

record ComputeAndInsertIpv4Checksum =
  ic_ip_header_without_checksum :: "NetAXISWord stream"
  ic_ip_header_with_checksum :: "NetAXISWord stream"

definition ComputeAndInsertIpv4Checksum :: "ComputeAndInsertIpv4Checksum \<Rightarrow> ComputeAndInsertIpv4Checksum" where
  "ComputeAndInsertIpv4Checksum s =
     (case ic_ip_header_without_checksum s of
        [] \<Rightarrow> s
      | cur_word # ws \<Rightarrow>
          s\<lparr>ic_ip_header_without_checksum := ws,
            ic_ip_header_with_checksum := ic_ip_header_with_checksum s @ [insert_ip_checksum cur_word]\<rparr>)"

section \<open>\<open>EthernetHandleOutput\<close>\<close>

record ArpTableRsp =
  at_mac_addr :: "48 word"
  at_hit :: bool

record NetAXISMacHeader =
  mh_data :: "112 word"
  mh_keep :: "14 word"
  mh_last :: bool

datatype mwState = WAIT_LOOKUP | DROP_IP | DROP_NO_IP | WRITE_FIRST_TRANSACTION | WRITE_REMAINING | WRITE_EXTRA_LAST_WORD

record EthernetHandleOutput =
  eo_mw_state :: mwState
  eo_previous_word :: NetAXISMacHeader
  eo_arp_table_rsp :: "ArpTableRsp stream"
  eo_ip_header_with_checksum :: "NetAXISWord stream"
  eo_no_ip_header_out :: "NetAXISWord stream"
  eo_eth_frame_out :: "NetAXISWord stream"

definition output_lookup :: "48 word \<Rightarrow> ArpTableRsp \<Rightarrow> EthernetHandleOutput \<Rightarrow> EthernetHandleOutput" where
  "output_lookup my_mac_addr reply s =
     (if at_hit reply then
        s\<lparr>eo_previous_word := (eo_previous_word s)
            \<lparr>mh_data := put_range 96 (0x0008 :: 16 word) (put_range 48 my_mac_addr
               (put_range 0 (at_mac_addr reply) (mh_data (eo_previous_word s)))),
             mh_keep := put_range 0 (0x3FFF :: 14 word) (mh_keep (eo_previous_word s))\<rparr>,
          eo_mw_state := WRITE_FIRST_TRANSACTION\<rparr>
      else s\<lparr>eo_mw_state := DROP_IP\<rparr>)"

text \<open>The word that is sent, and both transactions, the first and the following ones: what is left of a word
  is held for the next.\<close>

definition output_word :: "NetAXISMacHeader \<Rightarrow> 400 word \<Rightarrow> 50 word \<Rightarrow> bool \<Rightarrow> NetAXISWord" where
  "output_word previous_word data keep end_mark =
     \<lparr>nw_data = put_range 112 data (put_range 0 (mh_data previous_word) 0), nw_dest = 0,
      nw_keep = put_range 14 keep (put_range 0 (mh_keep previous_word) 0), nw_last = end_mark\<rparr>"

definition output_transaction :: "NetAXISWord \<Rightarrow> EthernetHandleOutput \<Rightarrow> EthernetHandleOutput" where
  "output_transaction current s =
     (let extra = nw_last current \<and> bit (nw_keep current) 50 in
      s\<lparr>eo_eth_frame_out := eo_eth_frame_out s @ [output_word (eo_previous_word s) (get_range 0 (nw_data current))
            (get_range 0 (nw_keep current)) (nw_last current \<and> \<not> extra)],
        eo_previous_word := (eo_previous_word s)
          \<lparr>mh_data := get_range 400 (nw_data current), mh_keep := get_range 50 (nw_keep current)\<rparr>,
        eo_mw_state := (if nw_last current then if extra then WRITE_EXTRA_LAST_WORD else WAIT_LOOKUP
          else WRITE_REMAINING)\<rparr>)"

definition EthernetHandleOutput :: "48 word \<Rightarrow> EthernetHandleOutput \<Rightarrow> EthernetHandleOutput" where
  "EthernetHandleOutput my_mac_addr s =
     (case eo_mw_state s of
        WAIT_LOOKUP \<Rightarrow>
          (case eo_arp_table_rsp s of
             reply # rs \<Rightarrow> output_lookup my_mac_addr reply (s\<lparr>eo_arp_table_rsp := rs\<rparr>) | [] \<Rightarrow> s)
      | DROP_IP \<Rightarrow>
          (case eo_ip_header_with_checksum s of
             w # ws \<Rightarrow> s\<lparr>eo_ip_header_with_checksum := ws, eo_mw_state := (if nw_last w then WAIT_LOOKUP else DROP_NO_IP)\<rparr>
           | [] \<Rightarrow> s)
      | DROP_NO_IP \<Rightarrow>
          (case eo_no_ip_header_out s of
             w # ws \<Rightarrow> s\<lparr>eo_no_ip_header_out := ws, eo_mw_state := (if nw_last w then WAIT_LOOKUP else eo_mw_state s)\<rparr>
           | [] \<Rightarrow> s)
      | WRITE_FIRST_TRANSACTION \<Rightarrow>
          (case eo_ip_header_with_checksum s of
             w # ws \<Rightarrow> output_transaction w (s\<lparr>eo_ip_header_with_checksum := ws\<rparr>) | [] \<Rightarrow> s)
      | WRITE_REMAINING \<Rightarrow>
          (case eo_no_ip_header_out s of
             w # ws \<Rightarrow> output_transaction w (s\<lparr>eo_no_ip_header_out := ws\<rparr>) | [] \<Rightarrow> s)
      | WRITE_EXTRA_LAST_WORD \<Rightarrow>
          s\<lparr>eo_eth_frame_out := eo_eth_frame_out s @ [output_word (eo_previous_word s) 0 0 True],
            eo_mw_state := WAIT_LOOKUP\<rparr>)"

section \<open>\<open>ethernet_header_inserter\<close>\<close>

record EthernetHeaderInserter =
  ei_request :: BroadcastMacRequest
  ei_checksum :: ComputeAndInsertIpv4Checksum
  ei_output :: EthernetHandleOutput

definition ethernet_header_inserter ::
  "48 word \<Rightarrow> 32 word \<Rightarrow> 32 word \<Rightarrow> EthernetHeaderInserter \<Rightarrow> EthernetHeaderInserter" where
  "ethernet_header_inserter my_mac_addr subnet_mask gateway_ip_addr s =
     (let r = BroadcastMacRequest subnet_mask gateway_ip_addr (ei_request s);
          c = ComputeAndInsertIpv4Checksum ((ei_checksum s)
            \<lparr>ic_ip_header_without_checksum := ic_ip_header_without_checksum (ei_checksum s) @ bm_ip_header_out r\<rparr>);
          o1 = (ei_output s)
            \<lparr>eo_ip_header_with_checksum := eo_ip_header_with_checksum (ei_output s) @ ic_ip_header_with_checksum c,
             eo_no_ip_header_out := eo_no_ip_header_out (ei_output s) @ bm_no_ip_header_out r\<rparr> in
      \<lparr>ei_request = r\<lparr>bm_ip_header_out := [], bm_no_ip_header_out := []\<rparr>,
       ei_checksum = c\<lparr>ic_ip_header_with_checksum := []\<rparr>,
       ei_output = EthernetHandleOutput my_mac_addr o1\<rparr>)"

definition ethernet_header_init :: EthernetHeaderInserter where
  "ethernet_header_init =
     \<lparr>ei_request = \<lparr>bm_fsm_state = BMR_FIRST_WORD, bm_ip_seg_in = [], bm_arp_table_req = [], bm_ip_header_out = [],
        bm_no_ip_header_out = []\<rparr>,
      ei_checksum = \<lparr>ic_ip_header_without_checksum = [], ic_ip_header_with_checksum = []\<rparr>,
      ei_output = \<lparr>eo_mw_state = WAIT_LOOKUP, eo_previous_word = \<lparr>mh_data = 0, mh_keep = 0, mh_last = False\<rparr>,
        eo_arp_table_rsp = [], eo_ip_header_with_checksum = [], eo_no_ip_header_out = [], eo_eth_frame_out = []\<rparr>\<rparr>"
section \<open>The words that are put together\<close>

definition held :: "NetAXISMacHeader \<Rightarrow> 8 word option list" where
  "held p = map (\<lambda>i. if bit (mh_keep p) i then Some (get_range (8 * i) (mh_data p)) else None) [0..<14]"

lemma length_held [simp]: "length (held p) = 14"
  by (simp add: held_def)

lemma byte_output_word:
  assumes "i < 64"
  shows "word_byte (output_word p data keep b) i = (if i < 14 then get_range (8 * i) (mh_data p) else get_range (8 * (i - 14)) data)"
    and "bit (nw_keep (output_word p data keep b)) i = (if i < 14 then bit (mh_keep p) i else bit keep (i - 14))"
proof -
  show "word_byte (output_word p data keep b) i = (if i < 14 then get_range (8 * i) (mh_data p) else get_range (8 * (i - 14)) data)"
    by (rule bit_word_eqI) (use assms in \<open>auto simp: word_byte_def output_word_def bit_field algebra_simps\<close>)
qed (use assms in \<open>auto simp: output_word_def bit_field\<close>)

lemma lanes_output_word:
  "lanes (output_word p (get_range 0 (nw_data w)) (get_range 0 (nw_keep w)) b) = held p @ take 50 (lanes w)"
  "lanes (output_word p 0 0 b) = held p @ replicate 50 None"
proof -
  have "lanes (output_word p (get_range 0 (nw_data w)) (get_range 0 (nw_keep w)) b) ! i = (held p @ take 50 (lanes w)) ! i"
    if i: "i < 64" for i
  proof (cases "i < 14")
    case True
    then show ?thesis using i byte_output_word [OF i] by (simp add: nth_lanes nth_append held_def)
  next
    case False
    then have "i - 14 < 50" using i by simp
    then show ?thesis
      using i False byte_output_word [OF i] by (simp add: nth_lanes nth_append word_byte_def get_range_get_range bit_field)
  qed
  then show "lanes (output_word p (get_range 0 (nw_data w)) (get_range 0 (nw_keep w)) b) = held p @ take 50 (lanes w)"
    by (intro nth_equalityI) simp_all
  show "lanes (output_word p 0 0 b) = held p @ replicate 50 None"
    by (rule nth_equalityI) (simp_all add: nth_lanes nth_append byte_output_word held_def)
qed

lemma held_word [simp]:
  "held (p\<lparr>mh_data := get_range 400 (nw_data w), mh_keep := get_range 50 (nw_keep w)\<rparr>) = drop 50 (lanes w)"
proof (rule nth_equalityI)
  fix i
  assume "i < length (held (p\<lparr>mh_data := get_range 400 (nw_data w), mh_keep := get_range 50 (nw_keep w)\<rparr>))"
  then have i: "i < 14" by simp
  then have "(get_range (8 * i) (get_range 400 (nw_data w) :: 112 word) :: 8 word) = word_byte w (50 + i)"
    by (simp add: get_range_get_range word_byte_def algebra_simps)
  then show "held (p\<lparr>mh_data := get_range 400 (nw_data w), mh_keep := get_range 50 (nw_keep w)\<rparr>) ! i = drop 50 (lanes w) ! i"
    using i by (simp add: held_def nth_lanes bit_field)
qed simp

section \<open>The checksum of the IP header\<close>

text \<open>The adder tree adds without loss: the sum of thirty halves has 21 bits.\<close>

lemma unat_add_up:
  fixes a :: "'a::len word" and b :: "'b::len word"
  assumes "LENGTH('a) < LENGTH('c)" and "LENGTH('b) < LENGTH('c)"
  shows "unat (ucast a + ucast b :: 'c::len word) = unat a + unat b"
proof -
  have "unat a < 2 ^ (LENGTH('c) - 1)" "unat b < 2 ^ (LENGTH('c) - 1)"
    using assms by (auto intro: less_le_trans [OF unsigned_less] power_increasing)
  then have "unat a + unat b < 2 ^ LENGTH('c)" using assms by (cases "LENGTH('c)") auto
  then show ?thesis using assms by (simp add: unat_word_ariths unat_ucast_up)
qed

lemma unat_ip_sums_L5: "unat (ip_sums_L5 d) = (\<Sum>i < 30. unat (ip_ops d i))"
proof -
  have L1: "unat (ip_sums_L1 d i) = unat (ip_ops d (i * 2)) + unat (ip_ops d (i * 2 + 1))" for i
    unfolding ip_sums_L1_def by (rule unat_add_up) simp_all
  have L2: "unat (ip_sums_L2 d i) = unat (ip_sums_L1 d (i * 2 + 1)) + unat (ip_sums_L1 d (i * 2))" if "i \<noteq> 7" for i
    using that unfolding ip_sums_L2_def by (simp only: if_False) (rule unat_add_up, simp_all)
  have L2': "unat (ip_sums_L2 d 7) = unat (ip_sums_L1 d 14)"
    unfolding ip_sums_L2_def by (simp only: refl if_True) (rule unat_ucast_up, simp)
  have L3: "unat (ip_sums_L3 d i) = unat (ip_sums_L2 d (i * 2 + 1)) + unat (ip_sums_L2 d (i * 2))" for i
    unfolding ip_sums_L3_def by (rule unat_add_up) simp_all
  have L4: "unat (ip_sums_L4 d i) = unat (ip_sums_L3 d (i * 2 + 1)) + unat (ip_sums_L3 d (i * 2))" for i
    unfolding ip_sums_L4_def by (rule unat_add_up) simp_all
  have L5: "unat (ip_sums_L5 d) = unat (ip_sums_L4 d 1) + unat (ip_sums_L4 d 0)"
    unfolding ip_sums_L5_def by (rule unat_add_up) simp_all
  have "(\<Sum>i < 30. unat (ip_ops d i)) = (\<Sum>i < 15. unat (ip_sums_L1 d i))"
    using sum_pairs [of "\<lambda>i. unat (ip_ops d i)" 15] by (simp add: L1 mult.commute del: sum.lessThan_Suc)
  also have "\<dots> = (\<Sum>i < 2 * 7. unat (ip_sums_L1 d i)) + unat (ip_sums_L1 d 14)"
    using sum.lessThan_Suc [of "\<lambda>i. unat (ip_sums_L1 d i)" 14] by simp
  also have "\<dots> = (\<Sum>i < 7. unat (ip_sums_L2 d i)) + unat (ip_sums_L2 d 7)"
    unfolding sum_pairs by (simp add: L2 L2' mult.commute add.commute)
  also have "\<dots> = (\<Sum>i < 2 * 4. unat (ip_sums_L2 d i))"
    using sum.lessThan_Suc [of "\<lambda>i. unat (ip_sums_L2 d i)" 7] by simp
  also have "\<dots> = unat (ip_sums_L5 d)" by (simp add: L3 L4 L5 eval_nat_numeral)
  finally show ?thesis ..
qed

text \<open>Two folds of a sum of 21 bits, in 17 bits.\<close>

lemma final_fold:
  fixes f :: "17 word"
  assumes "unat f < 131071"
  shows "unat (get_range 0 (of_bool (bit f 16) + f) :: 16 word) = oc (unat f)"
proof -
  have bit: "bit f 16 \<longleftrightarrow> 65536 \<le> unat f"
  proof -
    have "bit f 16 \<longleftrightarrow> bit (unat f) 16" by (simp add: bit_unsigned_iff)
    also have "\<dots> \<longleftrightarrow> odd (unat f div 65536)" by (simp add: bit_iff_odd)
    also have "unat f div 65536 = (if unat f < 65536 then 0 else 1)" using assms by (auto intro: div_nat_eqI)
    finally show ?thesis by simp
  qed
  show ?thesis
  proof (cases "unat f < 65536")
    case True
    then show ?thesis by (simp add: bit unat_get_range oc_small)
  next
    case False
    then have "unat (1 + f) = unat f + 1" using assms by (simp add: unat_word_ariths)
    moreover have "(unat f + 1) mod 65536 = unat f + 1 - 65536" using False assms by (simp add: le_mod_geq)
    ultimately show ?thesis using False assms by (simp add: bit unat_get_range oc_fold)
  qed
qed

lemma oc_split: "oc (n mod 65536 + n div 65536) = oc n"
proof (cases "n = 0")
  case False
  then have "0 < n mod 65536 + n div 65536" using div_mult_mod_eq [of n 65536] by (cases "n div 65536") auto
  moreover have "n = (n mod 65536 + n div 65536) + 65535 * (n div 65536)" using div_mult_mod_eq [of n 65536] by linarith
  ultimately show ?thesis using oc_multiple by metis
qed (simp add: oc_def)

lemma word_of_unat: "unat (x :: 16 word) = n \<Longrightarrow> x = word_of_nat n"
proof -
  assume n: "unat x = n"
  have "unat x < 2 ^ LENGTH(16)" by (rule unsigned_less)
  then show ?thesis using n by (simp add: word_unat_eq_iff unat_of_nat)
qed

lemma ip_chksum_value: "ip_chksum d = NOT (word_of_nat (oc (\<Sum>i < 30. unat (ip_ops d i))))"
proof -
  define S where "S = ip_sums_L5 d"
  have s: "unat S = (\<Sum>i < 30. unat (ip_ops d i))" by (simp add: S_def unat_ip_sums_L5)
  have "unat (ip_ops d i) \<le> 65535" for i
    using unsigned_less [where 'a = nat, of "ip_ops d i"] by simp
  then have "unat S \<le> 30 * 65535" unfolding s using sum_bounded_above [of "{..<30}" "\<lambda>i. unat (ip_ops d i)" 65535] by simp
  then have q: "unat S div 65536 < 30" by (simp add: less_mult_imp_div_less)
  define f where "f = ucast (get_range 0 S :: 16 word) + (ucast (get_range 16 S :: 5 word) :: 17 word)"
  have f: "unat f = unat S mod 65536 + unat S div 65536"
    unfolding f_def by (subst unat_add_up) (use q in \<open>simp_all add: unat_get_range\<close>)
  have "unat (get_range 0 (of_bool (bit f 16) + f) :: 16 word) = oc (unat f)"
  proof (rule final_fold)
    have "unat S mod 65536 < 65536" by simp
    then show "unat f < 131071" using q f by linarith
  qed
  also have "\<dots> = oc (unat S)" unfolding f by (rule oc_split)
  finally have "(get_range 0 (of_bool (bit f 16) + f) :: 16 word) = word_of_nat (oc (unat S))"
    by (rule word_of_unat)
  then show ?thesis by (simp add: ip_chksum_def Let_def f_def S_def [symmetric] s)
qed

lemma unat_ip_ops:
  "unat (ip_ops d i) = (if i \<noteq> 5 \<and> i < 2 * unat (get_range 0 d :: 4 word)
     then 256 * unat (get_range (16 * i) d :: 8 word) + unat (get_range (16 * i + 8) d :: 8 word) else 0)"
proof -
  have "put_range 8 a (put_range 0 b (0 :: 16 word)) = put_range 0 b (put_range 8 (a :: 8 word) 0)" for a and b :: "8 word"
    by (rule bit_word_eqI) (auto simp: bit_field)
  then show ?thesis by (simp add: ip_ops_def unat_byte_pair mult.commute)
qed

text \<open>A packet with the checksum of its IP header put in.\<close>

definition ip_header_of :: "8 word list \<Rightarrow> 8 word list" where
  "ip_header_of bs = take (ip_header_bytes bs) bs"

definition with_ip_checksum :: "8 word list \<Rightarrow> 8 word list" where
  "with_ip_checksum bs =
     (let c = NOT (word_of_nat (ones_complement_sum ((ip_header_of bs)[10 := 0, 11 := 0]))) :: 16 word in
      bs[10 := get_range 8 c, 11 := get_range 0 c])"

definition ip_header_complete :: "8 word list \<Rightarrow> bool" where
  "ip_header_complete bs \<longleftrightarrow> 20 \<le> ip_header_bytes bs \<and> ip_header_bytes bs \<le> length bs"

lemma ip_ops_sum:
  assumes "is_packet (w # ws)" and bs: "bs = packet_bytes (w # ws)" and "ip_header_complete bs"
  shows "(\<Sum>i < 30. unat (ip_ops (nw_data w) i)) = sum_list (be_words ((ip_header_of bs)[10 := 0, 11 := 0]))"
proof -
  let ?l = "get_range 0 (nw_data w) :: 4 word"
  let ?h = "(ip_header_of bs)[10 := 0, 11 := 0]"
  have n: "20 \<le> ip_header_bytes bs" "ip_header_bytes bs \<le> length bs" using assms(3) by (simp_all add: ip_header_complete_def)
  have b: "bs ! i = word_byte w i" if "i < ip_header_bytes bs" "i < 64" for i
    using word_bytes_nth [OF assms(1), of i] that n(2) bs by simp
  have l: "ip_header_bytes bs = 4 * unat ?l"
    using b [of 0] n(1) by (simp add: ip_header_bytes_def ihl_nibble)
  moreover have "unat ?l < 2 ^ LENGTH(4)" by (rule unsigned_less)
  ultimately have l16: "2 * unat ?l \<le> 30" "ip_header_bytes bs \<le> 60" by simp_all
  have len: "length ?h = 2 * (2 * unat ?l)" using l n(2) by (simp add: ip_header_of_def)
  have h: "?h ! i = (if i = 10 \<or> i = 11 then 0 else word_byte w i)" if "i < 4 * unat ?l" for i
    using that l n b [of i] l16 by (auto simp: ip_header_of_def nth_list_update)
  have "sum_list (be_words ?h) = (\<Sum>i < 2 * (2 * unat ?l). (if even i then 256 else 1) * unat (?h ! i))"
    unfolding be_words_weights len ..
  also have "\<dots> = (\<Sum>i < 2 * unat ?l. 256 * unat (?h ! (2 * i)) + unat (?h ! (2 * i + 1)))"
    unfolding sum_pairs by simp
  also have "\<dots> = (\<Sum>i < 2 * unat ?l. unat (ip_ops (nw_data w) i))"
  proof (rule sum.cong [OF refl])
    fix i
    assume "i \<in> {..<2 * unat ?l}"
    then show "256 * unat (?h ! (2 * i)) + unat (?h ! (2 * i + 1)) = unat (ip_ops (nw_data w) i)"
      using h [of "2 * i"] h [of "2 * i + 1"] by (auto simp: unat_ip_ops word_byte_def algebra_simps)
  qed
  also have "\<dots> = (\<Sum>i < 30. unat (ip_ops (nw_data w) i))"
    using l16 by (intro sum.mono_neutral_left) (auto simp: unat_ip_ops)
  finally show ?thesis ..
qed

lemma checksum_inserted:
  assumes "is_packet (w # ws)" and "ip_header_complete (packet_bytes (w # ws))"
  shows "is_packet (insert_ip_checksum w # ws)"
    and "packet_bytes (insert_ip_checksum w # ws) = with_ip_checksum (packet_bytes (w # ws))"
    and "nw_last (insert_ip_checksum w) = nw_last w"
proof -
  let ?c = "ip_chksum (nw_data w)"
  have k: "nw_keep (insert_ip_checksum w) = nw_keep w" and l: "nw_last (insert_ip_checksum w) = nw_last w"
    by (simp_all add: insert_ip_checksum_def Let_def)
  show p: "is_packet (insert_ip_checksum w # ws)" using assms(1) unfolding is_packet_Cons k l .
  show "nw_last (insert_ip_checksum w) = nw_last w" by (rule l)
  have byt: "word_byte (insert_ip_checksum w) i = (if i = 10 then get_range 8 ?c else if i = 11 then get_range 0 ?c else word_byte w i)" for i
  proof -
    have "80 + LENGTH(8) \<le> 8 * i \<or> 8 * i + 8 \<le> 80" if "i \<noteq> 10" using that by auto
    moreover have "88 + LENGTH(8) \<le> 8 * i \<or> 8 * i + 8 \<le> 88" if "i \<noteq> 11" using that by auto
    ultimately show ?thesis
      by (auto simp: insert_ip_checksum_def Let_def word_byte_def get_put_range_disjoint)
  qed
  obtain j where j: "nw_keep w = mask j" "j \<le> 64" using assms(1) by (auto simp: is_packet_Cons mask_eq_exp_minus_1 split: if_splits)
  have n: "20 \<le> length (packet_bytes (w # ws))" using assms(2) by (simp add: ip_header_complete_def)
  have j20: "20 \<le> j"
    using n assms(1) j mask_lanes(2) [OF j] by (cases "ws = []") (auto simp: is_packet_Cons length_full)
  have "word_bytes (insert_ip_checksum w) = (word_bytes w)[10 := get_range 8 ?c, 11 := get_range 0 ?c]"
    using j20 by (intro nth_equalityI) (auto simp: word_bytes_mask [OF j(1)] word_bytes_mask [OF j(1) [folded k]] k byt nth_list_update)
  then have "packet_bytes (insert_ip_checksum w # ws) = (packet_bytes (w # ws))[10 := get_range 8 ?c, 11 := get_range 0 ?c]"
    using j20 mask_lanes(2) [OF j] by (simp add: list_update_append)
  also have "?c = NOT (word_of_nat (ones_complement_sum ((ip_header_of (packet_bytes (w # ws)))[10 := 0, 11 := 0])))"
    by (simp only: ip_chksum_value ip_ops_sum [OF assms(1) refl assms(2)] ones_complement_sum_oc)
  finally show "packet_bytes (insert_ip_checksum w # ws) = with_ip_checksum (packet_bytes (w # ws))"
    by (simp only: with_ip_checksum_def Let_def)
qed

section \<open>A packet is framed\<close>

lemma transaction_next:
  assumes "is_packet (w # vs)" and "vs \<noteq> []" and "held (eo_previous_word s) = map Some p"
  shows "\<exists>v. output_transaction w s = s\<lparr>eo_eth_frame_out := eo_eth_frame_out s @ [v], eo_previous_word := eo_previous_word (output_transaction w s),
       eo_mw_state := WRITE_REMAINING\<rparr> \<and>
     held (eo_previous_word (output_transaction w s)) = map Some (drop 50 (word_bytes w)) \<and>
     nw_keep v = - 1 \<and> \<not> nw_last v \<and> word_bytes v = p @ take 50 (word_bytes w)"
proof -
  have w: "nw_keep w = - 1" "\<not> nw_last w" using assms(1,2) by (simp_all add: is_packet_Cons)
  let ?v = "output_word (eo_previous_word s) (get_range 0 (nw_data w)) (get_range 0 (nw_keep w)) False"
  have v: "lanes ?v = map Some (p @ take 50 (word_bytes w))"
    using assms(3) by (simp add: lanes_output_word full_lanes [OF w(1)] take_map)
  have "nw_keep ?v = - 1" using v by (rule keep_full)
  moreover have "word_bytes ?v = p @ take 50 (word_bytes w)" unfolding word_bytes_lanes v by simp
  moreover have "held (eo_previous_word (output_transaction w s)) = map Some (drop 50 (word_bytes w))"
    by (simp add: output_transaction_def Let_def full_lanes [OF w(1)] drop_map)
  moreover have "\<not> nw_last ?v" by (simp add: output_word_def)
  ultimately show ?thesis using w(2)
    by (intro exI [of _ ?v] conjI) (simp_all add: output_transaction_def Let_def)
qed

lemma transaction_last:
  assumes "is_packet [w]" and "held (eo_previous_word s) = map Some p"
  defines "t \<equiv> output_transaction w s"
  shows "\<exists>os. is_packet os \<and> packet_bytes os = p @ word_bytes w \<and>
     (t = s\<lparr>eo_eth_frame_out := eo_eth_frame_out s @ os, eo_previous_word := eo_previous_word t, eo_mw_state := WAIT_LOOKUP\<rparr> \<or>
      eo_mw_state t = WRITE_EXTRA_LAST_WORD \<and>
      (\<exists>v. t = s\<lparr>eo_eth_frame_out := eo_eth_frame_out s @ [v], eo_previous_word := eo_previous_word t, eo_mw_state := WRITE_EXTRA_LAST_WORD\<rparr> \<and>
        EthernetHandleOutput m t =
         s\<lparr>eo_eth_frame_out := eo_eth_frame_out s @ os, eo_previous_word := eo_previous_word t, eo_mw_state := WAIT_LOOKUP\<rparr>))"
proof -
  obtain j where j: "nw_keep w = mask j" "1 \<le> j" "j \<le> 64" and last: "nw_last w"
    using assms(1) by (auto simp: is_packet_def)
  note l = mask_lanes [OF j(1,3)]
  have p: "length p = 14" using length_held [of "eo_previous_word s"] by (simp only: assms(2) length_map)
  have b: "bit (nw_keep w) 50 \<longleftrightarrow> 50 < j" using j(1) by (simp add: bit_simps)
  define v where "v = output_word (eo_previous_word s) (get_range 0 (nw_data w)) (get_range 0 (nw_keep w)) (\<not> bit (nw_keep w) 50)"
  have v: "lanes v = map Some (p @ take 50 (word_bytes w)) @ replicate (50 - j) None"
    using assms(2) l j(3) by (simp add: v_def lanes_output_word take_map)
  have keep: "nw_keep v = mask (14 + min 50 j)"
    using keep_of_lanes [OF v] p l(2) by (simp add: min_def split: if_splits)
  have out: "eo_eth_frame_out t = eo_eth_frame_out s @ [v]"
    using last by (simp add: t_def output_transaction_def Let_def v_def)
  have wb: "word_bytes v = p @ take 50 (word_bytes w)" by (simp add: word_bytes_lanes v)
  have lv: "nw_last v \<longleftrightarrow> \<not> bit (nw_keep w) 50" by (simp add: v_def output_word_def)
  show ?thesis
  proof (cases "50 < j")
    case False
    have "14 + min 50 j \<in> {1..64}" by simp
    then have "nw_keep v \<in> mask ` {1..64}" using keep by (metis imageI)
    then have "is_packet [v]" using lv b False by (simp add: is_packet_def)
    moreover have "packet_bytes [v] = p @ word_bytes w" using wb l(2) False by simp
    ultimately show ?thesis using last b False out
      by (intro exI [of _ "[v]"]) (simp add: t_def output_transaction_def Let_def)
  next
    case True
    define x where "x = output_word (eo_previous_word t) 0 0 True"
    have "held (eo_previous_word t) = drop 50 (lanes w)" by (simp add: t_def output_transaction_def Let_def)
    then have x: "lanes x = map Some (drop 50 (word_bytes w)) @ replicate (64 - j + 50) None"
      using l True by (simp add: x_def lanes_output_word drop_map replicate_add)
    have "nw_keep x = mask (j - 50)" using keep_of_lanes [OF x] l(2) True j(3) by simp
    moreover have "j - 50 \<in> {1..64}" using True j(3) unfolding atLeastAtMost_iff by linarith
    ultimately have "nw_keep x \<in> mask ` {1..64}" by (metis imageI)
    moreover have "nw_last x" by (simp add: x_def output_word_def)
    moreover have "nw_keep v = - 1" using keep True by (simp add: mask_64)
    ultimately have "is_packet [v, x]" using lv b True by (simp add: is_packet_Cons)
    moreover have "packet_bytes [v, x] = p @ word_bytes w" using wb by (simp add: word_bytes_lanes [of x] x)
    ultimately show ?thesis using last b True out
      by (intro exI [of _ "[v, x]"])
        (auto simp: t_def output_transaction_def Let_def EthernetHandleOutput_def x_def v_def)
  qed
qed

text \<open>The module while a packet is on its way: \<open>hs\<close> is the header with its checksum, if it is not sent yet,
  \<open>xs\<close> the following words that the output process has not taken, \<open>ys\<close> those still to come.\<close>

definition in_frame :: "NetAXISWord list \<Rightarrow> NetAXISWord list \<Rightarrow> NetAXISWord list \<Rightarrow> EthernetHeaderInserter \<Rightarrow> bool" where
  "in_frame hs xs ys s \<longleftrightarrow>
     bm_fsm_state (ei_request s) = (if ys = [] then BMR_FIRST_WORD else BMR_REMAINING) \<and> bm_ip_seg_in (ei_request s) = ys \<and>
     bm_ip_header_out (ei_request s) = [] \<and> bm_no_ip_header_out (ei_request s) = [] \<and>
     ei_checksum s = \<lparr>ic_ip_header_without_checksum = [], ic_ip_header_with_checksum = []\<rparr> \<and>
     eo_ip_header_with_checksum (ei_output s) = hs \<and> eo_no_ip_header_out (ei_output s) = xs"

definition inserter_quiet :: "EthernetHeaderInserter \<Rightarrow> bool" where
  "inserter_quiet s \<longleftrightarrow> in_frame [] [] [] s \<and> eo_mw_state (ei_output s) = WAIT_LOOKUP"

text \<open>The end of a packet: what was sent since \<open>out\<close>, nothing for a packet that is dropped.\<close>

definition inserter_done ::
  "8 word list option \<Rightarrow> 32 word list \<Rightarrow> ArpTableRsp list \<Rightarrow> NetAXISWord list \<Rightarrow> EthernetHeaderInserter \<Rightarrow> bool" where
  "inserter_done frame reqs rsps out t \<longleftrightarrow> inserter_quiet t \<and> bm_arp_table_req (ei_request t) = reqs \<and>
     eo_arp_table_rsp (ei_output t) = rsps \<and>
     (\<exists>os. eo_eth_frame_out (ei_output t) = out @ os \<and>
        (case frame of None \<Rightarrow> os = [] | Some bs \<Rightarrow> is_packet os \<and> packet_bytes os = bs))"

lemma is_packet_suffix: "is_packet (xs @ ys) \<Longrightarrow> ys \<noteq> [] \<Longrightarrow> is_packet ys"
  by (induction xs) (auto simp: is_packet_Cons split: if_splits)

text \<open>In every cycle one more word moves up, and the output process runs on what is there then.\<close>

lemma frame_step:
  assumes "in_frame hs xs ys s" and "ys = [] \<or> is_packet ys"
  shows "let t = ethernet_header_inserter m k g s;
       o1 = EthernetHandleOutput m ((ei_output s)\<lparr>eo_no_ip_header_out := xs @ take 1 ys\<rparr>) in
     ei_output t = o1 \<and> bm_arp_table_req (ei_request t) = bm_arp_table_req (ei_request s) \<and>
     in_frame (eo_ip_header_with_checksum o1) (eo_no_ip_header_out o1) (tl ys) t"
proof -
  have o: "(ei_output s)\<lparr>eo_ip_header_with_checksum := hs, eo_no_ip_header_out := zs\<rparr>
      = (ei_output s)\<lparr>eo_no_ip_header_out := zs\<rparr>" for zs
    using assms(1) by (cases "ei_output s") (simp add: in_frame_def)
  show ?thesis
  proof (cases ys)
    case Nil
    then show ?thesis
      using assms(1) by (simp add: o in_frame_def ethernet_header_inserter_def BroadcastMacRequest_def
          ComputeAndInsertIpv4Checksum_def Let_def)
  next
    case (Cons y zs)
    then have "nw_last y \<longleftrightarrow> zs = []" using assms(2) by (auto simp: is_packet_Cons split: if_splits)
    then show ?thesis
      using assms(1) Cons by (simp add: o in_frame_def ethernet_header_inserter_def BroadcastMacRequest_def
          ComputeAndInsertIpv4Checksum_def Let_def)
  qed
qed

lemma transaction_frame [simp]:
  "eo_ip_header_with_checksum (output_transaction w s) = eo_ip_header_with_checksum s"
  "eo_no_ip_header_out (output_transaction w s) = eo_no_ip_header_out s"
  "eo_arp_table_rsp (output_transaction w s) = eo_arp_table_rsp s"
  by (simp_all add: output_transaction_def Let_def)

lemma same_output: "in_frame hs xs ys s \<Longrightarrow> (ei_output s)\<lparr>eo_no_ip_header_out := xs\<rparr> = ei_output s"
  by (cases "ei_output s") (simp add: in_frame_def)

lemma last_transaction_sent:
  assumes "in_frame [] [] [] t" and "ei_output t = output_transaction w s1" and "is_packet [w]"
    and "held (eo_previous_word s1) = map Some p"
  shows "\<exists>n \<le> 1. inserter_done (Some (p @ word_bytes w)) (bm_arp_table_req (ei_request t)) (eo_arp_table_rsp s1)
     (eo_eth_frame_out s1) ((ethernet_header_inserter m k g ^^ n) t)"
proof -
  let ?o = "output_transaction w s1"
  obtain os where os: "is_packet os" "packet_bytes os = p @ word_bytes w"
      "?o = s1\<lparr>eo_eth_frame_out := eo_eth_frame_out s1 @ os, eo_previous_word := eo_previous_word ?o, eo_mw_state := WAIT_LOOKUP\<rparr> \<or>
       eo_mw_state ?o = WRITE_EXTRA_LAST_WORD \<and> EthernetHandleOutput m ?o =
         s1\<lparr>eo_eth_frame_out := eo_eth_frame_out s1 @ os, eo_previous_word := eo_previous_word ?o, eo_mw_state := WAIT_LOOKUP\<rparr>"
    using transaction_last [OF assms(3,4), of m] by blast
  let ?z = "s1\<lparr>eo_eth_frame_out := eo_eth_frame_out s1 @ os, eo_previous_word := eo_previous_word ?o, eo_mw_state := WAIT_LOOKUP\<rparr>"
  have doneI: "inserter_done (Some (p @ word_bytes w)) reqs (eo_arp_table_rsp s1) (eo_eth_frame_out s1) z"
    if "in_frame [] [] [] z" "ei_output z = ?z" "bm_arp_table_req (ei_request z) = reqs" for z reqs
    using that os(1,2) by (auto simp: inserter_done_def inserter_quiet_def)
  from os(3) show ?thesis
  proof
    assume "?o = ?z"
    then have "ei_output t = ?z" using assms(2) by (rule trans [rotated])
    then show ?thesis using doneI [OF assms(1)] by (intro exI [of _ 0]) simp
  next
    assume e: "eo_mw_state ?o = WRITE_EXTRA_LAST_WORD \<and> EthernetHandleOutput m ?o = ?z"
    let ?u = "ethernet_header_inserter m k g t"
    have io: "eo_ip_header_with_checksum s1 = []" "eo_no_ip_header_out s1 = []"
      using assms(1,2) by (simp_all add: in_frame_def)
    have "ei_output ?u = ?z \<and> bm_arp_table_req (ei_request ?u) = bm_arp_table_req (ei_request t) \<and> in_frame [] [] [] ?u"
    proof -
      have "ei_output t\<lparr>eo_no_ip_header_out := [] @ take 1 []\<rparr> = output_transaction w s1"
        using same_output [OF assms(1)] assms(2) by simp
      then show ?thesis
        using frame_step [OF assms(1), of m k g] e io by (simp only: Let_def) simp
    qed
    then show ?thesis using doneI [of ?u] by (intro exI [of _ 1]) simp
  qed
qed

lemma transaction_sent:
  "in_frame [] xs ys t \<Longrightarrow> xs @ ys = vs \<Longrightarrow> ei_output t = output_transaction w s1 \<Longrightarrow> is_packet (w # vs) \<Longrightarrow>
   held (eo_previous_word s1) = map Some p \<Longrightarrow>
   \<exists>n \<le> Suc (length vs). inserter_done (Some (p @ packet_bytes (w # vs))) (bm_arp_table_req (ei_request t)) (eo_arp_table_rsp s1)
     (eo_eth_frame_out s1) ((ethernet_header_inserter m k g ^^ n) t)"
proof (induction vs arbitrary: xs ys t w s1 p)
  case Nil
  then show ?case using last_transaction_sent [of t w s1 p m k g] by auto
next
  case (Cons v vs)
  obtain x where x: "output_transaction w s1 = s1\<lparr>eo_eth_frame_out := eo_eth_frame_out s1 @ [x],
        eo_previous_word := eo_previous_word (output_transaction w s1), eo_mw_state := WRITE_REMAINING\<rparr>"
      "held (eo_previous_word (output_transaction w s1)) = map Some (drop 50 (word_bytes w))"
      "nw_keep x = - 1" "\<not> nw_last x" "word_bytes x = p @ take 50 (word_bytes w)"
    using transaction_next [OF Cons.prems(4) _ Cons.prems(5)] by auto
  let ?u = "ethernet_header_inserter m k g t"
  obtain xs' where xs': "xs @ take 1 ys = v # xs'" "xs' @ tl ys = vs"
    using Cons.prems(2) by (cases xs; cases ys) auto
  have ys: "ys = [] \<or> is_packet ys"
    using is_packet_suffix [of "w # xs" ys] Cons.prems(2,4) by auto
  let ?o = "(ei_output t)\<lparr>eo_no_ip_header_out := xs'\<rparr>"
  have mw: "eo_mw_state (ei_output t) = WRITE_REMAINING" unfolding Cons.prems(3) by (subst x(1)) simp
  have "EthernetHandleOutput m ((ei_output t)\<lparr>eo_no_ip_header_out := v # xs'\<rparr>) = output_transaction v ?o"
    using mw by (simp add: EthernetHandleOutput_def)
  then have u: "ei_output ?u = output_transaction v ?o" "in_frame [] xs' (tl ys) ?u"
      "bm_arp_table_req (ei_request ?u) = bm_arp_table_req (ei_request t)"
    using frame_step [OF Cons.prems(1) ys, of m k g] Cons.prems(1) xs'(1) by (auto simp: Let_def in_frame_def)
  have pk: "is_packet (v # vs)" using is_packet_Cons [of w "v # vs"] Cons.prems(4) by simp
  have held: "held (eo_previous_word ?o) = map Some (drop 50 (word_bytes w))" using x(2) Cons.prems(3) by simp
  obtain n where n: "n \<le> Suc (length vs)" and d: "inserter_done (Some (drop 50 (word_bytes w) @ packet_bytes (v # vs)))
        (bm_arp_table_req (ei_request t)) (eo_arp_table_rsp ?o) (eo_eth_frame_out ?o) ((ethernet_header_inserter m k g ^^ n) ?u)"
    using Cons.IH [OF u(2) xs'(2) u(1) pk held] u(3) by auto
  have out: "eo_eth_frame_out ?o = eo_eth_frame_out s1 @ [x]" "eo_arp_table_rsp ?o = eo_arp_table_rsp s1"
    unfolding Cons.prems(3) by (subst x(1), simp)+
  have "inserter_done (Some (p @ packet_bytes (w # v # vs))) (bm_arp_table_req (ei_request t)) (eo_arp_table_rsp s1)
      (eo_eth_frame_out s1) ((ethernet_header_inserter m k g ^^ Suc n) t)"
  proof -
    obtain os where os: "eo_eth_frame_out (ei_output ((ethernet_header_inserter m k g ^^ n) ?u)) = (eo_eth_frame_out s1 @ [x]) @ os"
        "is_packet os" "packet_bytes os = drop 50 (word_bytes w) @ packet_bytes (v # vs)"
      using d out by (auto simp: inserter_done_def)
    have "is_packet (x # os)" using os(2) x(3,4) by (simp add: is_packet_Cons) (simp add: is_packet_def)
    moreover have "packet_bytes (x # os) = p @ packet_bytes (w # v # vs)"
      using os(3) x(5) append_take_drop_id [of 50 "word_bytes w"] by (simp del: append_take_drop_id)
    ultimately show ?thesis
      using d os(1) out unfolding inserter_done_def funpow_Suc_apply
      by (intro conjI exI [of _ "x # os"]) simp_all
  qed
  then show ?case using n by (intro exI [of _ "Suc n"]) simp
qed
section \<open>A packet is dropped\<close>

lemma drop_sent:
  "in_frame [] xs ys t \<Longrightarrow> xs @ ys = vs \<Longrightarrow> is_packet vs \<Longrightarrow> eo_mw_state (ei_output t) = DROP_NO_IP \<Longrightarrow>
   inserter_done None (bm_arp_table_req (ei_request t)) (eo_arp_table_rsp (ei_output t)) (eo_eth_frame_out (ei_output t))
     ((ethernet_header_inserter m k g ^^ length vs) t)"
proof (induction vs arbitrary: xs ys t)
  case (Cons v vs)
  let ?u = "ethernet_header_inserter m k g t"
  obtain xs' where xs': "xs @ take 1 ys = v # xs'" "xs' @ tl ys = vs"
    using Cons.prems(2) by (cases xs; cases ys) auto
  have ys: "ys = [] \<or> is_packet ys" using is_packet_suffix [of xs ys] Cons.prems(2,3) by auto
  have last: "nw_last v \<longleftrightarrow> vs = []" "vs \<noteq> [] \<Longrightarrow> is_packet vs" using Cons.prems(3) by (auto simp: is_packet_Cons split: if_splits)
  have "EthernetHandleOutput m ((ei_output t)\<lparr>eo_no_ip_header_out := v # xs'\<rparr>) = (ei_output t)
      \<lparr>eo_no_ip_header_out := xs', eo_mw_state := (if nw_last v then WAIT_LOOKUP else DROP_NO_IP)\<rparr>"
    using Cons.prems(4) by (simp add: EthernetHandleOutput_def)
  then have u: "ei_output ?u = (ei_output t)\<lparr>eo_no_ip_header_out := xs', eo_mw_state := (if nw_last v then WAIT_LOOKUP else DROP_NO_IP)\<rparr>"
      "in_frame [] xs' (tl ys) ?u" "bm_arp_table_req (ei_request ?u) = bm_arp_table_req (ei_request t)"
    using frame_step [OF Cons.prems(1) ys, of m k g] Cons.prems(1) xs'(1) by (auto simp: Let_def in_frame_def)
  show ?case
  proof (cases "vs = []")
    case True
    then show ?thesis using u xs'(2) last by (auto simp: inserter_done_def inserter_quiet_def)
  next
    case False
    then show ?thesis
      using Cons.IH [OF u(2) xs'(2)] last u by (simp add: funpow_Suc_apply del: funpow.simps)
  qed
qed (simp add: is_packet_def)

section \<open>The whole module\<close>

definition mac_bytes :: "48 word \<Rightarrow> 8 word list" where
  "mac_bytes a = map (\<lambda>i. get_range (8 * i) a) [0..<6]"

definition ethernet_header :: "48 word \<Rightarrow> 48 word \<Rightarrow> 8 word list" where
  "ethernet_header dst src = mac_bytes dst @ mac_bytes src @ [8, 0]"

definition next_hop :: "32 word \<Rightarrow> 32 word \<Rightarrow> NetAXISWord \<Rightarrow> 32 word" where
  "next_hop subnet gateway w =
     (let dst = get_range 128 (nw_data w) in if dst AND subnet = gateway AND subnet then dst else gateway)"

lemma length_ethernet_header: "length (ethernet_header dst src) = 14"
  by (simp add: ethernet_header_def mac_bytes_def)

lemma held_ethernet_header:
  "held (p\<lparr>mh_data := put_range 96 (8 :: 16 word) (put_range 48 src (put_range 0 dst (mh_data p))),
       mh_keep := put_range 0 (0x3FFF :: 14 word) (mh_keep p)\<rparr>) = map Some (ethernet_header dst src)"
proof (rule nth_equalityI)
  fix i
  assume "i < length (held (p\<lparr>mh_data := put_range 96 (8 :: 16 word) (put_range 48 src (put_range 0 dst (mh_data p))),
       mh_keep := put_range 0 (0x3FFF :: 14 word) (mh_keep p)\<rparr>))"
  then have i: "i < 14" by simp
  have m14: "(0x3FFF :: 14 word) = mask 14" by (simp add: mask_eq_exp_minus_1)
  have k: "bit (put_range 0 (0x3FFF :: 14 word) (mh_keep p)) i"
    using i unfolding m14 bit_put_range by (simp add: bit_mask_iff)
  have b: "(get_range (8 * i) (put_range 96 (8 :: 16 word) (put_range 48 src (put_range 0 dst (mh_data p)))) :: 8 word) =
      ethernet_header dst src ! i"
  proof -
    have type: "(get_range 0 (8 :: 16 word) :: 8 word) = 8" "(get_range 8 (8 :: 16 word) :: 8 word) = 0"
      by (simp_all add: get_range_def drop_bit_word_numeral)
    consider "i < 6" | "6 \<le> i" "i < 12" | "i = 12" | "i = 13" using i by linarith
    then show ?thesis
    proof cases
      case 2
      then have "8 * i - 48 = 8 * (i - 6)" "i - 6 < 6" by simp_all
      then show ?thesis using 2
        by (simp add: ethernet_header_def mac_bytes_def nth_append get_put_range_disjoint get_put_range_inside)
    qed (simp_all add: ethernet_header_def mac_bytes_def nth_append get_put_range_disjoint get_put_range_inside type)
  qed
  show "held (p\<lparr>mh_data := put_range 96 (8 :: 16 word) (put_range 48 src (put_range 0 dst (mh_data p))),
       mh_keep := put_range 0 (0x3FFF :: 14 word) (mh_keep p)\<rparr>) ! i = map Some (ethernet_header dst src) ! i"
    using i k b by (simp add: held_def length_ethernet_header)
qed (simp add: ethernet_header_def mac_bytes_def)

definition with_packet :: "NetAXISWord list \<Rightarrow> EthernetHeaderInserter \<Rightarrow> EthernetHeaderInserter" where
  "with_packet ws s = s\<lparr>ei_request := (ei_request s)\<lparr>bm_ip_seg_in := ws\<rparr>\<rparr>"

definition with_reply :: "ArpTableRsp \<Rightarrow> EthernetHeaderInserter \<Rightarrow> EthernetHeaderInserter" where
  "with_reply r s = s\<lparr>ei_output := (ei_output s)\<lparr>eo_arp_table_rsp := eo_arp_table_rsp (ei_output s) @ [r]\<rparr>\<rparr>"

text \<open>Until the reply is there, the header waits behind the checksum process.\<close>

definition waiting :: "NetAXISWord \<Rightarrow> NetAXISWord list \<Rightarrow> 32 word list \<Rightarrow> EthernetHandleOutput \<Rightarrow> EthernetHeaderInserter \<Rightarrow> bool" where
  "waiting h vs reqs o1 t \<longleftrightarrow> (\<exists>xs ys. in_frame [h] xs ys t \<and> xs @ ys = vs) \<and> bm_arp_table_req (ei_request t) = reqs \<and>
     eo_mw_state (ei_output t) = WAIT_LOOKUP \<and> eo_arp_table_rsp (ei_output t) = eo_arp_table_rsp o1 \<and>
     eo_eth_frame_out (ei_output t) = eo_eth_frame_out o1"

lemma request_sent:
  assumes "inserter_quiet s" and "is_packet (w # vs)" and "eo_arp_table_rsp (ei_output s) = []"
  shows "waiting (insert_ip_checksum w) vs (bm_arp_table_req (ei_request s) @ [next_hop k g w]) (ei_output s)
     (ethernet_header_inserter m k g (with_packet (w # vs) s))"
proof -
  have l: "nw_last w \<longleftrightarrow> vs = []" using assms(2) by (auto simp: is_packet_Cons split: if_splits)
  have o: "(ei_output s)\<lparr>eo_ip_header_with_checksum := [h], eo_no_ip_header_out := []\<rparr>
      = (ei_output s)\<lparr>eo_ip_header_with_checksum := [h]\<rparr>" for h
    using assms(1) by (cases "ei_output s") (simp add: inserter_quiet_def in_frame_def)
  show ?thesis
    unfolding waiting_def using assms(1,3) l
    by (intro conjI exI [of _ "[]"] exI [of _ vs])
      (simp_all add: o inserter_quiet_def in_frame_def ethernet_header_inserter_def BroadcastMacRequest_def with_packet_def
        ComputeAndInsertIpv4Checksum_def EthernetHandleOutput_def next_hop_def Let_def)
qed

lemma frame_moves:
  assumes "in_frame hs xs ys t" and "xs @ ys = vs" and "vs = [] \<or> is_packet vs"
  obtains xs' where "xs @ take 1 ys = xs'" "xs' @ tl ys = vs" "ys = [] \<or> is_packet ys"
  using assms is_packet_suffix [of xs ys] by (cases ys) auto

lemma still_waiting:
  assumes "waiting h vs reqs o1 t" and "vs = [] \<or> is_packet vs" and "eo_arp_table_rsp o1 = []"
  shows "waiting h vs reqs o1 ((ethernet_header_inserter m k g ^^ j) t)"
proof (rule funpow_invariant [where P = "waiting h vs reqs o1"])
  fix t
  assume w: "waiting h vs reqs o1 t"
  then obtain xs ys where f: "in_frame [h] xs ys t" "xs @ ys = vs" by (auto simp: waiting_def)
  obtain xs' where xs': "xs @ take 1 ys = xs'" "xs' @ tl ys = vs" "ys = [] \<or> is_packet ys"
    using frame_moves [OF f assms(2)] .
  have "EthernetHandleOutput m ((ei_output t)\<lparr>eo_no_ip_header_out := xs'\<rparr>) = (ei_output t)\<lparr>eo_no_ip_header_out := xs'\<rparr>"
    using w assms(3) by (simp add: waiting_def EthernetHandleOutput_def)
  then show "waiting h vs reqs o1 (ethernet_header_inserter m k g t)"
    using frame_step [OF f(1) xs'(3), of m k g] xs'(1,2) w f(1)
    unfolding waiting_def by (intro conjI exI [of _ xs'] exI [of _ "tl ys"]) (auto simp: Let_def in_frame_def)
qed fact

lemma reply_taken:
  fixes m k g r
  assumes "waiting h vs reqs o1 t" and "vs = [] \<or> is_packet vs" and "eo_arp_table_rsp o1 = []"
  defines "u \<equiv> ethernet_header_inserter m k g (with_reply r t)"
  shows "\<exists>xs ys. in_frame [h] xs ys u \<and> xs @ ys = vs \<and> bm_arp_table_req (ei_request u) = reqs \<and>
     eo_arp_table_rsp (ei_output u) = [] \<and> eo_eth_frame_out (ei_output u) = eo_eth_frame_out o1 \<and>
     (if at_hit r then eo_mw_state (ei_output u) = WRITE_FIRST_TRANSACTION \<and>
        held (eo_previous_word (ei_output u)) = map Some (ethernet_header (at_mac_addr r) m)
      else eo_mw_state (ei_output u) = DROP_IP)"
proof -
  obtain xs ys where f: "in_frame [h] xs ys t" "xs @ ys = vs" using assms(1) by (auto simp: waiting_def)
  have f': "in_frame [h] xs ys (with_reply r t)" using f(1) by (simp add: in_frame_def with_reply_def)
  obtain xs' where xs': "xs @ take 1 ys = xs'" "xs' @ tl ys = vs" "ys = [] \<or> is_packet ys"
    using frame_moves [OF f assms(2)] .
  let ?o = "(ei_output (with_reply r t))\<lparr>eo_no_ip_header_out := xs'\<rparr>"
  have st: "EthernetHandleOutput m ?o = output_lookup m r (?o\<lparr>eo_arp_table_rsp := []\<rparr>)"
    using assms(1,3) by (simp add: waiting_def with_reply_def EthernetHandleOutput_def)
  have u: "ei_output u = output_lookup m r (?o\<lparr>eo_arp_table_rsp := []\<rparr>)" "bm_arp_table_req (ei_request u) = reqs"
      "in_frame (eo_ip_header_with_checksum (ei_output u)) (eo_no_ip_header_out (ei_output u)) (tl ys) u"
    using frame_step [OF f' xs'(3), of m k g] assms(1) xs'(1) st
    by (simp_all add: u_def Let_def waiting_def with_reply_def)
  have io: "eo_ip_header_with_checksum (ei_output u) = [h]" "eo_no_ip_header_out (ei_output u) = xs'"
    using f' unfolding u(1) by (simp_all add: in_frame_def output_lookup_def)
  show ?thesis
    using u(2,3) xs'(2) assms(1) unfolding io
    by (intro exI [of _ xs'] exI [of _ "tl ys"]) (simp add: u(1) output_lookup_def waiting_def with_reply_def held_ethernet_header)
qed

lemma packet_finished:
  assumes "in_frame [h] xs ys u" and "xs @ ys = vs" and "is_packet (h # vs)"
    and "if hit then eo_mw_state (ei_output u) = WRITE_FIRST_TRANSACTION \<and> held (eo_previous_word (ei_output u)) = map Some p
      else eo_mw_state (ei_output u) = DROP_IP"
  shows "\<exists>n \<le> length vs + 2. inserter_done (if hit then Some (p @ packet_bytes (h # vs)) else None)
     (bm_arp_table_req (ei_request u)) (eo_arp_table_rsp (ei_output u)) (eo_eth_frame_out (ei_output u))
     ((ethernet_header_inserter m k g ^^ n) u)"
proof -
  have vs: "vs = [] \<or> is_packet vs" "nw_last h \<longleftrightarrow> vs = []" using assms(3) by (auto simp: is_packet_Cons split: if_splits)
  obtain xs' where xs': "xs @ take 1 ys = xs'" "xs' @ tl ys = vs" "ys = [] \<or> is_packet ys"
    using frame_moves [OF assms(1,2) vs(1)] .
  let ?u = "ethernet_header_inserter m k g u"
  let ?o = "(ei_output u)\<lparr>eo_no_ip_header_out := xs'\<rparr>"
  have ih: "eo_ip_header_with_checksum (ei_output u) = [h]" using assms(1) by (simp add: in_frame_def)
  note step = frame_step [OF assms(1) xs'(3), of m k g, unfolded Let_def xs'(1)]
  show ?thesis
  proof (cases hit)
    case True
    have e: "EthernetHandleOutput m ?o = output_transaction h (?o\<lparr>eo_ip_header_with_checksum := []\<rparr>)"
      using True assms(4) ih by (simp add: EthernetHandleOutput_def)
    then have "in_frame [] xs' (tl ys) ?u" "ei_output ?u = output_transaction h (?o\<lparr>eo_ip_header_with_checksum := []\<rparr>)"
      using step by simp_all
    from transaction_sent [OF this(1) xs'(2) this(2) assms(3), of p m k g] obtain n where "n \<le> Suc (length vs)"
      "inserter_done (Some (p @ packet_bytes (h # vs))) (bm_arp_table_req (ei_request u)) (eo_arp_table_rsp (ei_output u))
         (eo_eth_frame_out (ei_output u)) ((ethernet_header_inserter m k g ^^ n) ?u)"
      using True assms(4) step by auto
    then show ?thesis using True by (intro exI [of _ "Suc n"]) (simp add: funpow_Suc_apply del: funpow.simps)
  next
    case False
    have e: "EthernetHandleOutput m ?o = ?o\<lparr>eo_ip_header_with_checksum := [], eo_mw_state := (if nw_last h then WAIT_LOOKUP else DROP_NO_IP)\<rparr>"
      using False assms(4) ih by (simp add: EthernetHandleOutput_def)
    then have f: "in_frame [] xs' (tl ys) ?u" using step by simp
    have "inserter_done None (bm_arp_table_req (ei_request u)) (eo_arp_table_rsp (ei_output u)) (eo_eth_frame_out (ei_output u))
        ((ethernet_header_inserter m k g ^^ length vs) ?u)"
    proof (cases "vs = []")
      case True
      then show ?thesis using f xs'(2) step e vs by (simp add: inserter_done_def inserter_quiet_def)
    next
      case False
      then show ?thesis using drop_sent [OF f xs'(2), of m k g] vs step e by simp
    qed
    then show ?thesis using False by (intro exI [of _ "Suc (length vs)"]) (simp add: funpow_Suc_apply del: funpow.simps)
  qed
qed

lemma checksum_completes_header:
  assumes "ip_header_complete bs"
  shows "ones_complement_sum (ip_header_of (with_ip_checksum bs)) = 65535"
proof -
  let ?h = "(ip_header_of bs)[10 := 0, 11 := 0]"
  let ?c = "NOT (word_of_nat (ones_complement_sum ?h)) :: 16 word"
  have n: "20 \<le> ip_header_bytes bs" "ip_header_bytes bs \<le> length bs" using assms by (simp_all add: ip_header_complete_def)
  then have len: "20 \<le> length ?h" "length ?h = ip_header_bytes bs" by (simp_all add: ip_header_of_def)
  have same: "ip_header_bytes (with_ip_checksum bs) = ip_header_bytes bs"
    by (simp add: ip_header_bytes_def with_ip_checksum_def Let_def)
  have ow: "ys[10 := 0, 11 := 0, 10 := a, 11 := b] = ys[10 := a, 11 := b]" for ys and a b :: "8 word"
    using list_update_swap [of 11 10 "ys[10 := 0]" 0 a] by simp
  have "ip_header_of (with_ip_checksum bs) = take (ip_header_bytes bs) (bs[10 := get_range 8 ?c, 11 := get_range 0 ?c])"
    by (simp only: ip_header_of_def [of "with_ip_checksum bs"] same) (simp only: with_ip_checksum_def Let_def)
  then have "ip_header_of (with_ip_checksum bs) = ?h[10 := get_range 8 ?c, 11 := get_range 0 ?c]"
    by (simp only: ow take_update_swap) (simp only: ip_header_of_def)
  moreover have "sum_list (be_words (?h[10 := get_range 8 ?c, 11 := get_range 0 ?c])) = sum_list (be_words ?h) + unat ?c"
    using len(1) by (simp add: weights_update unat_of_bytes_16 [of ?c] del: unat_NOT_16)
  moreover have "unat ?c = 65535 - oc (sum_list (be_words ?h))"
    using oc_bound [of "sum_list (be_words ?h)"] by (simp add: unat_NOT_16 ones_complement_sum_oc unat_of_nat)
  moreover have "0 < sum_list (be_words ?h)"
  proof -
    have "?h ! 0 = bs ! 0" using len n by (simp add: ip_header_of_def)
    moreover have "bs ! 0 \<noteq> 0"
    proof
      assume "bs ! 0 = 0"
      then show False using n(1) by (simp add: ip_header_bytes_def)
    qed
    ultimately have "unat (?h ! 0) \<noteq> 0" by (simp add: unsigned_eq_0_iff)
    moreover have "0 < length ?h" using len(1) by linarith
    ultimately show ?thesis unfolding be_words_weights by (intro sum_pos2 [of _ 0]) simp_all
  qed
  ultimately show ?thesis using oc_completed [of "sum_list (be_words ?h)"] by (simp only: ones_complement_sum_oc)
qed

lemma packet_framed_cycles:
  assumes "inserter_quiet s" and "eo_arp_table_rsp (ei_output s) = []" and "is_packet (w # ws)"
    and "bs = packet_bytes (w # ws)" and "ip_header_complete bs"
  shows "let t = (ethernet_header_inserter m k g ^^ Suc j) (with_packet (w # ws) s);
       reqs = bm_arp_table_req (ei_request s) @ [next_hop k g w] in
     bm_arp_table_req (ei_request t) = reqs \<and> eo_eth_frame_out (ei_output t) = eo_eth_frame_out (ei_output s) \<and>
     (\<exists>n \<le> length (w # ws) + 2. inserter_done
        (if at_hit r then Some (ethernet_header (at_mac_addr r) m @ with_ip_checksum bs) else None)
        reqs [] (eo_eth_frame_out (ei_output s)) ((ethernet_header_inserter m k g ^^ n) (with_reply r t))) \<and>
     ones_complement_sum (ip_header_of (with_ip_checksum bs)) = 65535"
proof -
  let ?t = "(ethernet_header_inserter m k g ^^ Suc j) (with_packet (w # ws) s)"
  let ?h = "insert_ip_checksum w" and ?reqs = "bm_arp_table_req (ei_request s) @ [next_hop k g w]"
  note h = checksum_inserted [OF assms(3) assms(5) [unfolded assms(4)]]
  have vs: "ws = [] \<or> is_packet ws" using assms(3) by (auto simp: is_packet_Cons split: if_splits)
  have w: "waiting ?h ws ?reqs (ei_output s) ?t"
    using still_waiting [OF request_sent [OF assms(1,3,2)] vs assms(2)] by (simp only: funpow_Suc_apply)
  let ?u = "ethernet_header_inserter m k g (with_reply r ?t)"
  obtain xs ys where u: "in_frame [?h] xs ys ?u" "xs @ ys = ws" "bm_arp_table_req (ei_request ?u) = ?reqs"
      "eo_arp_table_rsp (ei_output ?u) = []" "eo_eth_frame_out (ei_output ?u) = eo_eth_frame_out (ei_output s)"
      "if at_hit r then eo_mw_state (ei_output ?u) = WRITE_FIRST_TRANSACTION \<and>
         held (eo_previous_word (ei_output ?u)) = map Some (ethernet_header (at_mac_addr r) m)
       else eo_mw_state (ei_output ?u) = DROP_IP"
    using reply_taken [OF w vs assms(2), of m k g r] by blast
  obtain n where n: "n \<le> length ws + 2" and d: "inserter_done
      (if at_hit r then Some (ethernet_header (at_mac_addr r) m @ packet_bytes (?h # ws)) else None) ?reqs []
      (eo_eth_frame_out (ei_output s)) ((ethernet_header_inserter m k g ^^ n) ?u)"
    using packet_finished [OF u(1,2) h(1) u(6), of m k g] unfolding u(3-5) by blast
  have "\<exists>n \<le> length (w # ws) + 2. inserter_done
        (if at_hit r then Some (ethernet_header (at_mac_addr r) m @ with_ip_checksum bs) else None)
        ?reqs [] (eo_eth_frame_out (ei_output s)) ((ethernet_header_inserter m k g ^^ n) (with_reply r ?t))"
    using n d unfolding h(2) assms(4) by (intro exI [of _ "Suc n"]) (simp only: funpow_Suc_apply length_Cons add_Suc Suc_le_mono)
  then show ?thesis
    using w checksum_completes_header [OF assms(5)] by (simp only: Let_def waiting_def simp_thms)
qed

text \<open>C32: An IP packet is put on the wire: the module asks for the next hop at once and keeps the packet until
  the answer comes; then it sends one frame, the Ethernet header with the address found followed by
  the packet, in which only the checksum of the IP header is set, and now makes the header add up, for headers
  with options too.  When the address is not known, the whole packet is dropped.  Either way the
  module is ready for the next packet within two cycles more than the packet has words.\<close>

theorem packet_framed:
  assumes "inserter_quiet s" and "eo_arp_table_rsp (ei_output s) = []" and "is_packet (w # ws)"
    and "bs = packet_bytes (w # ws)" and "ip_header_complete bs"
  shows "let t = (ethernet_header_inserter m k g ^^ Suc j) (with_packet (w # ws) s);
       reqs = bm_arp_table_req (ei_request s) @ [next_hop k g w] in
     bm_arp_table_req (ei_request t) = reqs \<and> eo_eth_frame_out (ei_output t) = eo_eth_frame_out (ei_output s) \<and>
     (\<exists>n \<le> length (w # ws) + 2. inserter_done
        (if at_hit r then Some (ethernet_header (at_mac_addr r) m @ with_ip_checksum bs) else None)
        reqs [] (eo_eth_frame_out (ei_output s)) ((ethernet_header_inserter m k g ^^ n) (with_reply r t))) \<and>
     ones_complement_sum (ip_header_of (with_ip_checksum bs)) = 65535"
  using assms by (rule packet_framed_cycles)

lemma ipv4_header_packet:
  "is_packet [ipv4_header_word bld n q]" "ip_header_complete (packet_bytes [ipv4_header_word bld n q])"
  "packet_bytes [ipv4_header_word bld n q] ! 0 = 0x45" "packet_bytes [ipv4_header_word bld n q] ! 9 = 6"
proof -
  note keep = ipv4_header_keep [of bld n q] and f = ipv4_header_fields [of bld n q]
  show "is_packet [ipv4_header_word bld n q]" using keep by (simp add: is_packet_def)
  have len: "length (word_bytes (ipv4_header_word bld n q)) = 20" by (simp add: word_bytes_mask [OF keep(1)])
  have nth: "word_bytes (ipv4_header_word bld n q) ! i = get_range (8 * i) (nw_data (ipv4_header_word bld n q))" if "i < 20" for i
    using that by (simp add: word_bytes_mask [OF keep(1)] word_byte_def)
  show "packet_bytes [ipv4_header_word bld n q] ! 0 = 0x45" "packet_bytes [ipv4_header_word bld n q] ! 9 = 6"
    by (simp_all add: nth f)
  then show "ip_header_complete (packet_bytes [ipv4_header_word bld n q])"
    using len by (simp add: ip_header_complete_def ip_header_bytes_def)
qed

definition demo_ip :: NetAXISWord where
  "demo_ip = ipv4_header_word Synthesis 0 (IpAddrPair 0x0A01A8C0 0x0B01A8C0)"

lemmas demo_ip_packet = ipv4_header_packet [of Synthesis 0 "IpAddrPair 0x0A01A8C0 0x0B01A8C0", folded demo_ip_def]

theorem packet_framed_witness:
  "\<exists>n os. eo_eth_frame_out (ei_output ((ethernet_header_inserter 5 0xFFFFFF 0x0101A8C0 ^^ n) (with_reply \<lparr>at_mac_addr = 9, at_hit = True\<rparr>
       ((ethernet_header_inserter 5 0xFFFFFF 0x0101A8C0 ^^ 4) (with_packet [demo_ip] ethernet_header_init))))) = os \<and>
     packet_bytes os = ethernet_header 9 5 @ with_ip_checksum (word_bytes demo_ip)"
proof -
  have "inserter_quiet ethernet_header_init" "eo_arp_table_rsp (ei_output ethernet_header_init) = []"
      "eo_eth_frame_out (ei_output ethernet_header_init) = []"
    by (simp_all add: inserter_quiet_def in_frame_def ethernet_header_init_def)
  with packet_framed [OF this(1,2) demo_ip_packet(1) refl demo_ip_packet(2), where j = 3 and m = 5 and
      k = "0xFFFFFF" and g = "0x0101A8C0" and r = "\<lparr>at_mac_addr = 9, at_hit = True\<rparr>", unfolded Let_def]
  show ?thesis unfolding inserter_done_def by (auto simp del: funpow.simps)
qed

section \<open>From one module to the other\<close>

text \<open>C13: What this module sends, the packet handler of the receiver turns back into the packet: a TCP packet
  comes out marked as TCP, with the checksum of its IP header set, and otherwise byte for byte as it
  went in.\<close>

theorem framed_packet_received:
  assumes "inserter_quiet s" and "eo_arp_table_rsp (ei_output s) = []" and "is_packet (w # ws)"
    and "bs = packet_bytes (w # ws)" and "ip_header_complete bs" and "unat (bs ! 0) div 16 = 4" and "bs ! 9 = 6"
    and "handler_quiet p"
  shows "\<exists>n fs. let t = (ethernet_header_inserter m k g ^^ n) (with_reply \<lparr>at_mac_addr = mac, at_hit = True\<rparr>
         ((ethernet_header_inserter m k g ^^ Suc j) (with_packet (w # ws) s))) in
     n \<le> length (w # ws) + 2 \<and> eo_eth_frame_out (ei_output t) = eo_eth_frame_out (ei_output s) @ fs \<and>
     remover_sent 2 (with_ip_checksum bs) (ph_remover p) (ph_remover ((PacketHandler u ^^ Suc (length fs)) (with_frame fs p)))"
proof -
  obtain n where n: "n \<le> length (w # ws) + 2" and d: "inserter_done (Some (ethernet_header mac m @ with_ip_checksum bs))
        (bm_arp_table_req (ei_request s) @ [next_hop k g w]) [] (eo_eth_frame_out (ei_output s))
        ((ethernet_header_inserter m k g ^^ n) (with_reply \<lparr>at_mac_addr = mac, at_hit = True\<rparr>
         ((ethernet_header_inserter m k g ^^ Suc j) (with_packet (w # ws) s))))"
    using packet_framed_cycles [OF assms(1-5), where m = m and k = k and g = g and j = j and
        r = "\<lparr>at_mac_addr = mac, at_hit = True\<rparr>"]
    by (auto simp: Let_def simp del: funpow.simps)
  obtain fs where fs: "is_packet fs" "packet_bytes fs = ethernet_header mac m @ with_ip_checksum bs"
      "eo_eth_frame_out (ei_output ((ethernet_header_inserter m k g ^^ n) (with_reply \<lparr>at_mac_addr = mac, at_hit = True\<rparr>
         ((ethernet_header_inserter m k g ^^ Suc j) (with_packet (w # ws) s))))) = eo_eth_frame_out (ei_output s) @ fs"
    using d by (auto simp: inserter_done_def simp del: funpow.simps)
  have len: "20 \<le> length (with_ip_checksum bs)" using assms(5) by (simp add: with_ip_checksum_def ip_header_complete_def Let_def)
  have b: "with_ip_checksum bs ! 0 = bs ! 0" "with_ip_checksum bs ! 9 = bs ! 9" by (simp_all add: with_ip_checksum_def Let_def)
  have nth: "packet_bytes fs ! 12 = 8" "packet_bytes fs ! 13 = 0" "packet_bytes fs ! 14 = bs ! 0" "packet_bytes fs ! 23 = bs ! 9"
    unfolding fs(2) nth_append length_ethernet_header by (simp_all add: b) (simp_all add: ethernet_header_def mac_bytes_def nth_append)
  have "frame_route u (packet_bytes fs) = Some 2"
    using assms(6,7) by (simp add: frame_route_def frame_type_def nth)
  moreover have "24 \<le> length (packet_bytes fs)" using len by (simp add: fs(2) length_ethernet_header)
  moreover have "stripped 2 (packet_bytes fs) = with_ip_checksum bs" by (simp add: stripped_def fs(2) length_ethernet_header)
  ultimately have "remover_sent 2 (with_ip_checksum bs) (ph_remover p) (ph_remover ((PacketHandler u ^^ Suc (length fs)) (with_frame fs p)))"
    using handler_sorts [OF assms(8) fs(1), of u] by (simp add: Let_def del: funpow.simps)
  then show ?thesis using n fs(3) unfolding Let_def by blast
qed

theorem framed_packet_received_witness:
  "\<exists>n fs. eo_eth_frame_out (ei_output ((ethernet_header_inserter 5 0 0 ^^ n) (with_reply \<lparr>at_mac_addr = 9, at_hit = True\<rparr>
       ((ethernet_header_inserter 5 0 0 ^^ Suc 0) (with_packet [demo_ip] ethernet_header_init))))) = fs \<and>
     remover_sent 2 (with_ip_checksum (packet_bytes [demo_ip])) (ph_remover packet_handler_init)
       (ph_remover ((PacketHandler 0 ^^ Suc (length fs)) (with_frame fs packet_handler_init)))"
proof -
  have q: "inserter_quiet ethernet_header_init" "eo_arp_table_rsp (ei_output ethernet_header_init) = []"
      "eo_eth_frame_out (ei_output ethernet_header_init) = []" "handler_quiet packet_handler_init"
    by (simp_all add: inserter_quiet_def in_frame_def ethernet_header_init_def handler_quiet_def packet_handler_init_def)
  have "unat (packet_bytes [demo_ip] ! 0) div 16 = 4" unfolding demo_ip_packet by simp
  from framed_packet_received [OF q(1,2) demo_ip_packet(1) refl demo_ip_packet(2) this demo_ip_packet(4) q(4),
      where m = 5 and k = 0 and g = 0 and j = 0 and u = 0 and mac = 9]
  show ?thesis unfolding Let_def q(3) by auto
qed

end
