(* ===== verification/Icmp_Server.thy ===== *)
theory Icmp_Server
  imports Ethernet_Header
begin

text \<open>
  \<open>icmp_server/icmp_server.cpp\<close>: the module that answers echo requests.  It checks the first word of a
  packet, turns it into the reply with a few assignments, and forwards the rest.  In the state
  \<open>EVALUATE_CONDITIONS\<close> the code reads the last flag of \<open>cur_word\<close>, which that call has not assigned:
  it is the argument \<open>u\<close>.
\<close>

section \<open>The checksum of a header of 20 bytes\<close>

text \<open>\<open>aux_ip_header\<close> holds the bytes of the header in reverse order.\<close>

definition aux_ip_header :: "NetAXISData \<Rightarrow> 160 word" where
  "aux_ip_header data = foldl (\<lambda>a m. put_range (152 - m * 8) (get_range (m * 8) data :: 8 word) a) 0 [0..<20]"

definition ComputeChechkSum20B :: "160 word \<Rightarrow> 16 word" where
  "ComputeChechkSum20B ip_header =
     (let L0 = (\<lambda>m. get_range (m * 16) ip_header :: 16 word);
          L1 = (\<lambda>m. ucast (L0 (2 * m)) + ucast (L0 (2 * m + 1)) :: 17 word);
          L2_0 = ucast (L1 0) + ucast (L1 1) :: 18 word;
          L2_1 = ucast (L1 2) + ucast (L1 3) :: 18 word;
          L3 = ucast L2_0 + ucast L2_1 + ucast (L1 4) :: 20 word;
          L4_r = ucast (get_range 0 L3 :: 16 word) + ucast (get_range 16 L3 :: 4 word) :: 17 word;
          L4_o = ucast (get_range 0 L3 :: 16 word) + ucast (get_range 16 L3 :: 4 word) + 1 :: 17 word in
      if bit L4_r 16 then NOT (get_range 0 L4_o) else NOT (get_range 0 L4_r))"

section \<open>\<open>icmp_server\<close>\<close>

definition ECHO_REQUEST :: "8 word" where [simp]: "ECHO_REQUEST = 8"
definition ECHO_REPLY :: "8 word" where [simp]: "ECHO_REPLY = 0"
definition ICMP_PROTOCOL :: "8 word" where [simp]: "ICMP_PROTOCOL = 1"

datatype IcmpState = READ_PACKET | EVALUATE_CONDITIONS | SEND_FIRST_WORD | FORWARD | DROP_PACKET

record IcmpServer =
  is_fsm_state :: IcmpState
  is_prev_word :: NetAXISWord
  is_dst_ip :: "32 word"
  is_icmp_checksum :: "17 word"
  is_icmp_type :: "8 word"
  is_icmp_code :: "8 word"
  is_auxin_checksum_reg :: "16 word"
  is_data_in :: "NetAXISWord stream"
  is_data_out :: "NetAXISWord stream"

definition icmp_read :: "NetAXISWord \<Rightarrow> IcmpServer \<Rightarrow> IcmpServer" where
  "icmp_read cur_word s =
     (let checksum = put_range 8 (get_range 176 (nw_data cur_word) :: 8 word)
            (put_range 0 (get_range 184 (nw_data cur_word) :: 8 word) 0) :: 16 word in
      s\<lparr>is_dst_ip := get_range 128 (nw_data cur_word), is_icmp_type := get_range 160 (nw_data cur_word),
        is_icmp_code := get_range 168 (nw_data cur_word), is_icmp_checksum := ucast checksum + 0x0800,
        is_auxin_checksum_reg := ComputeChechkSum20B (aux_ip_header (nw_data cur_word)),
        is_fsm_state := EVALUATE_CONDITIONS, is_prev_word := cur_word\<rparr>)"

definition icmp_evaluate :: "bool \<Rightarrow> 32 word \<Rightarrow> IcmpServer \<Rightarrow> IcmpServer" where
  "icmp_evaluate u my_ipaddr s =
     s\<lparr>is_fsm_state := (if is_dst_ip s = my_ipaddr \<and> is_icmp_type s = ECHO_REQUEST \<and> is_icmp_code s = 0 \<and>
           is_auxin_checksum_reg s = 0 then SEND_FIRST_WORD
         else if \<not> u then DROP_PACKET else READ_PACKET)\<rparr>"

definition reply_word :: "17 word \<Rightarrow> NetAXISWord \<Rightarrow> NetAXISWord" where
  "reply_word icmp_checksum prev_word =
     (let data = nw_data prev_word;
          data = put_range 64 (128 :: 8 word) data;
          data = put_range 72 (ucast ICMP_PROTOCOL :: 24 word) data;
          data = put_range 80 (0 :: 16 word) data;
          data = put_range 96 (get_range 128 (nw_data prev_word) :: 32 word) data;
          data = put_range 128 (get_range 96 (nw_data prev_word) :: 32 word) data;
          icmp_checksum_tmp = ucast (get_range 0 icmp_checksum :: 16 word) + of_bool (bit icmp_checksum 16) :: 17 word;
          data = put_range 160 ECHO_REPLY data;
          data = put_range 176 (put_range 8 (get_range 0 icmp_checksum_tmp :: 8 word)
            (put_range 0 (get_range 8 icmp_checksum_tmp :: 8 word) 0) :: 16 word) data in
      prev_word\<lparr>nw_data := data\<rparr>)"

definition icmp_send_first :: "IcmpServer \<Rightarrow> IcmpServer" where
  "icmp_send_first s =
     s\<lparr>is_data_out := is_data_out s @ [reply_word (is_icmp_checksum s) (is_prev_word s)],
       is_fsm_state := (if nw_last (is_prev_word s) then READ_PACKET else FORWARD)\<rparr>"

definition icmp_server :: "bool \<Rightarrow> 32 word \<Rightarrow> IcmpServer \<Rightarrow> IcmpServer" where
  "icmp_server u my_ipaddr s =
     (case is_fsm_state s of
        READ_PACKET \<Rightarrow> (case is_data_in s of w # ws \<Rightarrow> icmp_read w (s\<lparr>is_data_in := ws\<rparr>) | [] \<Rightarrow> s)
      | EVALUATE_CONDITIONS \<Rightarrow> icmp_evaluate u my_ipaddr s
      | SEND_FIRST_WORD \<Rightarrow> icmp_send_first s
      | DROP_PACKET \<Rightarrow>
          (case is_data_in s of
             w # ws \<Rightarrow> s\<lparr>is_data_in := ws, is_fsm_state := (if nw_last w then READ_PACKET else is_fsm_state s)\<rparr>
           | [] \<Rightarrow> s)
      | FORWARD \<Rightarrow>
          (case is_data_in s of
             w # ws \<Rightarrow> s\<lparr>is_data_in := ws, is_data_out := is_data_out s @ [w],
               is_fsm_state := (if nw_last w then READ_PACKET else is_fsm_state s)\<rparr>
           | [] \<Rightarrow> s))"

definition icmp_server_init :: IcmpServer where
  "icmp_server_init =
     \<lparr>is_fsm_state = READ_PACKET, is_prev_word = NetAXISWord_default, is_dst_ip = 0, is_icmp_checksum = 0,
      is_icmp_type = 0, is_icmp_code = 0, is_auxin_checksum_reg = 0, is_data_in = [], is_data_out = []\<rparr>"

section \<open>The header checksum\<close>

lemma byte_aux_ip_header: "m < 20 \<Longrightarrow> (get_range (152 - m * 8) (aux_ip_header data) :: 8 word) = get_range (m * 8) data"
proof -
  have "(get_range (152 - m * 8) (foldl (\<lambda>a m. put_range (152 - m * 8) (get_range (m * 8) data :: 8 word) a) (0 :: 160 word) [0..<n]) :: 8 word)
      = get_range (m * 8) data" if "m < n" "n \<le> 20" for n
    using that
  proof (induction n)
    case (Suc n)
    show ?case
    proof (cases "m = n")
      case True
      then show ?thesis using Suc.prems by simp
    next
      case False
      then have "152 - n * 8 + 8 \<le> 152 - m * 8 \<or> 152 - m * 8 + 8 \<le> 152 - n * 8" using Suc.prems by auto
      then show ?thesis using False Suc by (simp add: get_put_range_disjoint)
    qed
  qed simp
  then show "m < 20 \<Longrightarrow> ?thesis" by (simp add: aux_ip_header_def)
qed

lemma aux_half:
  assumes "m < 10"
  shows "unat (get_range (m * 16) (aux_ip_header d) :: 16 word) = half_of d (9 - m)"
proof -
  let ?w = "get_range (m * 16) (aux_ip_header d) :: 16 word"
  have "152 - (18 - 2 * m) * 8 = 8 + m * 16" "152 - (19 - 2 * m) * 8 = m * 16" using assms by simp_all
  then have "(get_range 8 ?w :: 8 word) = get_range ((18 - 2 * m) * 8) d" "(get_range 0 ?w :: 8 word) = get_range ((19 - 2 * m) * 8) d"
    using byte_aux_ip_header [of "18 - 2 * m" d] byte_aux_ip_header [of "19 - 2 * m" d] by (simp_all add: get_range_get_range)
  moreover have "(18 - 2 * m) * 8 = 16 * (9 - m)" "(19 - 2 * m) * 8 = 16 * (9 - m) + 8" using assms by simp_all
  ultimately show ?thesis unfolding unat_of_bytes_16 [of ?w] half_of_def by simp
qed

lemma half_of_bound: "half_of d i \<le> 65535"
  using unsigned_less [where 'a = nat, of "get_range (16 * i) d :: 8 word"]
    unsigned_less [where 'a = nat, of "get_range (16 * i + 8) d :: 8 word"] by (simp add: half_of_def)

lemma header_checksum_value:
  "ComputeChechkSum20B (aux_ip_header d) = NOT (word_of_nat (oc (\<Sum>i < 10. half_of d i)))"
proof -
  define L0 where "L0 = (\<lambda>m. get_range (m * 16) (aux_ip_header d) :: 16 word)"
  define L1 where "L1 = (\<lambda>m. ucast (L0 (2 * m)) + ucast (L0 (2 * m + 1)) :: 17 word)"
  define A where "A = (ucast (L1 0) + ucast (L1 1) :: 18 word)"
  define B where "B = (ucast (L1 2) + ucast (L1 3) :: 18 word)"
  define L3 where "L3 = (ucast A + ucast B + ucast (L1 4) :: 20 word)"
  define f where "f = (ucast (get_range 0 L3 :: 16 word) + ucast (get_range 16 L3 :: 4 word) :: 17 word)"
  let ?S = "\<Sum>i < 10. half_of d i"
  have L0: "unat (L0 m) = half_of d (9 - m)" if "m < 10" for m using aux_half [OF that] by (simp add: L0_def)
  have L1: "unat (L1 m) = unat (L0 (2 * m)) + unat (L0 (2 * m + 1))" for m
    unfolding L1_def by (rule unat_add_up) simp_all
  have AB: "unat A = unat (L1 0) + unat (L1 1)" "unat B = unat (L1 2) + unat (L1 3)"
    unfolding A_def B_def by (rule unat_add_up, simp_all)+
  have "unat (ucast A + ucast B :: 20 word) = unat A + unat B" by (rule unat_add_up) simp_all
  moreover have "unat (ucast (L1 4) :: 20 word) = unat (L1 4)" by (rule unat_ucast_up) simp
  moreover have S: "unat A + unat B + unat (L1 4) = ?S"
    by (simp add: AB L1 L0 eval_nat_numeral)
  moreover have "?S \<le> 655350"
    using sum_bounded_above [of "{..<10 :: nat}" "half_of d" 65535] half_of_bound by simp
  ultimately have L3: "unat L3 = ?S" "?S \<le> 655350" by (simp_all add: L3_def unat_word_ariths)
  have q: "?S div 65536 < 10" using L3(2) by (simp add: less_mult_imp_div_less)
  have f: "unat f = ?S mod 65536 + ?S div 65536"
    unfolding f_def by (subst unat_add_up) (use q L3 in \<open>simp_all add: unat_get_range\<close>)
  have "unat (get_range 0 (of_bool (bit f 16) + f) :: 16 word) = oc (unat f)"
  proof (rule final_fold)
    have "?S mod 65536 < 65536" by simp
    then show "unat f < 131071" using q f by linarith
  qed
  then have "unat (get_range 0 (of_bool (bit f 16) + f) :: 16 word) = oc ?S" unfolding f by (simp only: oc_split)
  then have e: "(get_range 0 (of_bool (bit f 16) + f) :: 16 word) = word_of_nat (oc ?S)" by (rule word_of_unat)
  have "ComputeChechkSum20B (aux_ip_header d) = (if bit f 16 then NOT (get_range 0 (f + 1)) else NOT (get_range 0 f))"
    unfolding ComputeChechkSum20B_def Let_def f_def L3_def A_def B_def L1_def L0_def by simp
  then show ?thesis unfolding e [symmetric] by (cases "bit f 16") (simp_all add: add.commute)
qed
section \<open>The reply\<close>

text \<open>The packet that answers an echo request: time to live and protocol set, the header checksum cleared,
  the addresses exchanged, and the checksum of the message adjusted for the changed type.\<close>

definition request_sum :: "8 word list \<Rightarrow> nat" where
  "request_sum bs = 256 * unat (bs ! 22) + unat (bs ! 23) + 2048"

definition echo_reply :: "8 word list \<Rightarrow> 8 word list" where
  "echo_reply bs =
     (let c = word_of_nat (oc (request_sum bs)) :: 16 word in
      take 8 bs @ [128, 1, 0, 0] @ take 4 (drop 16 bs) @ take 4 (drop 12 bs) @
      [0, bs ! 21, get_range 8 c, get_range 0 c] @ drop 24 bs)"

lemma request_sum_bound: "request_sum bs \<le> 67583"
  using unsigned_less [where 'a = nat, of "bs ! 22"] unsigned_less [where 'a = nat, of "bs ! 23"]
  by (simp add: request_sum_def)

lemma adjusted_checksum:
  fixes x :: "17 word"
  assumes "unat x = n" and "n \<le> 67583"
  defines "tmp \<equiv> ucast (get_range 0 x :: 16 word) + of_bool (bit x 16) :: 17 word"
  shows "(get_range 0 tmp :: 8 word) = get_range 0 (word_of_nat (oc n) :: 16 word)"
    and "(get_range 8 tmp :: 8 word) = get_range 8 (word_of_nat (oc n) :: 16 word)"
proof -
  have bit: "bit x 16 \<longleftrightarrow> 65536 \<le> n"
  proof -
    have "bit x 16 \<longleftrightarrow> bit (unat x) 16" by (simp add: bit_unsigned_iff)
    also have "\<dots> \<longleftrightarrow> odd (unat x div 65536)" by (simp add: bit_iff_odd)
    also have "unat x div 65536 = (if n < 65536 then 0 else 1)" using assms(1,2) by (auto intro: div_nat_eqI)
    finally show ?thesis by simp
  qed
  have u: "unat (ucast (get_range 0 x :: 16 word) :: 17 word) = n mod 65536"
    using assms(1) by (subst unat_ucast_up) (simp_all add: unat_get_range)
  have "unat tmp = oc n"
  proof (cases "n < 65536")
    case True
    then show ?thesis using u bit by (simp add: tmp_def oc_small)
  next
    case False
    then have m: "n mod 65536 = n - 65536" using assms(2) by (simp add: le_mod_geq)
    then have "unat tmp = n - 65536 + 1" using u bit False assms(2) by (simp add: tmp_def unat_word_ariths)
    then show ?thesis using False assms(2) by (simp add: oc_fold)
  qed
  then have "unat (get_range 0 tmp :: 16 word) = oc n" using oc_bound [of n] by (simp add: unat_get_range)
  then have c: "(get_range 0 tmp :: 16 word) = word_of_nat (oc n)" by (rule word_of_unat)
  show "(get_range 0 tmp :: 8 word) = get_range 0 (word_of_nat (oc n) :: 16 word)"
    "(get_range 8 tmp :: 8 word) = get_range 8 (word_of_nat (oc n) :: 16 word)"
    unfolding c [symmetric] by (simp_all add: get_range_get_range)
qed

lemma byte_reply_word:
  assumes "unat x = request_sum bs" and "\<And>i. i < 24 \<Longrightarrow> bs ! i = word_byte w i" and "24 \<le> length bs"
  shows "i < 24 \<Longrightarrow> word_byte (reply_word x w) i = echo_reply bs ! i"
    and "24 \<le> i \<Longrightarrow> word_byte (reply_word x w) i = word_byte w i"
proof -
  note c = adjusted_checksum [OF assms(1) request_sum_bound]
  have one: "(get_range 0 (1 :: 24 word) :: 8 word) = 1" "(get_range k (0 :: 16 word) :: 8 word) = 0" for k
    by (simp_all add: get_range_def)
  show "word_byte (reply_word x w) i = echo_reply bs ! i" if i: "i < 24"
  proof -
    have "i < 8 \<or> i = 8 \<or> i = 9 \<or> i = 10 \<or> i = 11 \<or> i = 12 + (i - 12) \<and> i - 12 < 4 \<or> i = 16 + (i - 16) \<and> i - 16 < 4 \<or>
        i = 20 \<or> i = 21 \<or> i = 22 \<or> i = 23"
      using i by presburger
    then consider "i < 8" | "i = 8" | "i = 9" | "i = 10" | "i = 11" | j where "i = 12 + j" "j < 4" | j where "i = 16 + j" "j < 4" |
        "i = 20" | "i = 21" | "i = 22" | "i = 23" by blast
    then show ?thesis
      by cases (use assms(2,3) in \<open>simp_all add: word_byte_def reply_word_def Let_def echo_reply_def nth_append
          get_put_range_disjoint get_put_range_inside get_range_get_range one c algebra_simps\<close>)
  qed
  show "word_byte (reply_word x w) i = word_byte w i" if i: "24 \<le> i"
    using i by (simp add: word_byte_def reply_word_def Let_def get_put_range_disjoint)
qed

lemma first_word_bytes:
  assumes "is_packet (w # ws)" and "bs = packet_bytes (w # ws)" and "28 \<le> length bs"
  obtains j where "nw_keep w = mask j" "28 \<le> j" "j \<le> 64" "\<And>i. i < 28 \<Longrightarrow> bs ! i = word_byte w i"
proof -
  obtain j where j: "nw_keep w = mask j" "j \<le> 64" using assms(1) by (auto simp: is_packet_Cons mask_64 split: if_splits)
  have "28 \<le> j"
    using assms j mask_lanes(2) [OF j] by (cases "ws = []") (auto simp: is_packet_Cons length_full)
  moreover have "bs ! i = word_byte w i" if "i < 28" for i
    using word_bytes_nth [OF assms(1), of i] that assms(2,3) by simp
  ultimately show thesis using that j by blast
qed

lemma reply_packet:
  assumes "is_packet (w # ws)" and "bs = packet_bytes (w # ws)" and "28 \<le> length bs" and "unat x = request_sum bs"
  shows "is_packet (reply_word x w # ws)" and "packet_bytes (reply_word x w # ws) = echo_reply bs"
    and "nw_last (reply_word x w) = nw_last w"
proof -
  have k: "nw_keep (reply_word x w) = nw_keep w" and l: "nw_last (reply_word x w) = nw_last w"
    by (simp_all add: reply_word_def Let_def)
  then show "nw_last (reply_word x w) = nw_last w" by simp
  show "is_packet (reply_word x w # ws)" using assms(1) unfolding is_packet_Cons k l .
  obtain j where j: "nw_keep w = mask j" "28 \<le> j" "j \<le> 64" and b: "\<And>i. i < 28 \<Longrightarrow> bs ! i = word_byte w i"
    using first_word_bytes [OF assms(1-3)] by blast
  have b24: "bs ! i = word_byte w i" if "i < 24" for i using b that by simp
  have len24: "24 \<le> length bs" using assms(3) by simp
  have w: "word_bytes w = map (word_byte w) [0..<j]" "word_bytes (reply_word x w) = map (word_byte (reply_word x w)) [0..<j]"
    using j k by (simp_all add: word_bytes_mask)
  have len: "length (echo_reply bs) = length bs" using assms(3) by (simp add: echo_reply_def Let_def)
  have d24: "echo_reply bs ! i = bs ! i" if "24 \<le> i" "i < length bs" for i
  proof -
    have "\<not> i - 16 < 4" "\<not> i - 12 < 4" "\<not> i - 8 < 4" "\<not> i - 20 < 4" using that(1) by simp_all
    then show ?thesis using that assms(3) by (simp add: echo_reply_def Let_def nth_append)
  qed
  show "packet_bytes (reply_word x w # ws) = echo_reply bs"
  proof (rule nth_equalityI)
    have "length (packet_bytes (reply_word x w # ws)) = length bs" by (simp add: assms(2) w)
    then show "length (packet_bytes (reply_word x w # ws)) = length (echo_reply bs)" by (simp only: len)
    fix i
    assume "i < length (packet_bytes (reply_word x w # ws))"
    then have i: "i < length bs" by (simp add: assms(2) w)
    show "packet_bytes (reply_word x w # ws) ! i = echo_reply bs ! i"
    proof (cases "i < 24")
      case True
      then show ?thesis using byte_reply_word(1) [OF assms(4) b24 len24 True] j(2) by (simp add: w nth_append)
    next
      case False
      then have "packet_bytes (reply_word x w # ws) ! i = bs ! i"
        using byte_reply_word(2) [OF assms(4) b24 len24, of i] by (simp add: assms(2) w nth_append)
      then show ?thesis using d24 [of i] False i by simp
    qed
  qed
qed

text \<open>The message of the reply has the checksum it needs exactly when the request had.\<close>

lemma reply_checksum:
  assumes "28 \<le> length bs" and "bs ! 20 = 8"
  shows "ones_complement_sum (drop 20 (echo_reply bs)) = ones_complement_sum (drop 20 bs)"
proof -
  let ?c = "word_of_nat (oc (request_sum bs)) :: 16 word"
  have u8: "unat (bs ! 20) = 8" using assms(2) by simp
  have "drop 20 bs = bs ! 20 # bs ! 21 # bs ! 22 # bs ! 23 # drop 24 bs"
    using assms(1) by (simp add: Cons_nth_drop_Suc numeral_eq_Suc)
  then have "ones_complement_sum (drop 20 bs) = oc (request_sum bs + (unat (bs ! 21) + sum_list (be_words (drop 24 bs))))"
    using u8 by (simp add: ones_complement_sum_oc request_sum_def algebra_simps)
  also have "\<dots> = oc (oc (request_sum bs) + (unat (bs ! 21) + sum_list (be_words (drop 24 bs))))" by (simp only: oc_oc)
  also have "oc (request_sum bs) = 256 * unat (get_range 8 ?c :: 8 word) + unat (get_range 0 ?c :: 8 word)"
    using oc_bound [of "request_sum bs"] unat_of_bytes_16 [of ?c] by (simp add: unat_of_nat)
  also have "oc (256 * unat (get_range 8 ?c :: 8 word) + unat (get_range 0 ?c :: 8 word) + (unat (bs ! 21) + sum_list (be_words (drop 24 bs))))
      = ones_complement_sum (0 # bs ! 21 # get_range 8 ?c # get_range 0 ?c # drop 24 bs)"
    by (simp add: ones_complement_sum_oc algebra_simps)
  also have "0 # bs ! 21 # get_range 8 ?c # get_range 0 ?c # drop 24 bs = drop 20 (echo_reply bs)"
    using assms(1) by (simp add: echo_reply_def Let_def)
  finally show ?thesis ..
qed

section \<open>One packet\<close>

definition ip_address_bytes :: "32 word \<Rightarrow> 8 word list" where
  "ip_address_bytes a = map (\<lambda>i. get_range (8 * i) a) [0..<4]"

lemma length_ip_address_bytes [simp]: "length (ip_address_bytes a) = 4"
  by (simp add: ip_address_bytes_def)

definition is_echo_request :: "32 word \<Rightarrow> 8 word list \<Rightarrow> bool" where
  "is_echo_request a bs \<longleftrightarrow> take 4 (drop 16 bs) = ip_address_bytes a \<and> bs ! 20 = 8 \<and> bs ! 21 = 0 \<and>
     ones_complement_sum (take 20 bs) = 65535"

lemma address_bytes_eq: "ip_address_bytes a = ip_address_bytes b \<longleftrightarrow> a = b"
proof
  assume e: "ip_address_bytes a = ip_address_bytes b"
  show "a = b"
  proof (rule bit_word_eqI)
    fix n
    assume n: "n < LENGTH(32)"
    then have i: "n div 8 < 4" by (simp add: less_mult_imp_div_less)
    then have "ip_address_bytes a ! (n div 8) = ip_address_bytes b ! (n div 8)" using e by simp
    then have "(get_range (8 * (n div 8)) a :: 8 word) = get_range (8 * (n div 8)) b" using i by (simp add: ip_address_bytes_def)
    then have "bit (get_range (8 * (n div 8)) a :: 8 word) (n mod 8) = bit (get_range (8 * (n div 8)) b :: 8 word) (n mod 8)" by simp
    then show "bit a n = bit b n" by (simp add: bit_field)
  qed
qed simp

lemma header_checksum_zero:
  assumes "is_packet (w # ws)" and "bs = packet_bytes (w # ws)" and "28 \<le> length bs"
  shows "ComputeChechkSum20B (aux_ip_header (nw_data w)) = 0 \<longleftrightarrow> ones_complement_sum (take 20 bs) = 65535"
proof -
  obtain j where b: "\<And>i. i < 28 \<Longrightarrow> bs ! i = word_byte w i" using first_word_bytes [OF assms] by metis
  have len: "length (take 20 bs) = 2 * 10" using assms(3) by simp
  have "sum_list (be_words (take 20 bs)) = (\<Sum>i < 10. half_of (nw_data w) i)"
    unfolding be_words_weights len sum_pairs by (intro sum.cong refl) (simp add: b half_of_def word_byte_def algebra_simps)
  then have s: "ones_complement_sum (take 20 bs) = oc (\<Sum>i < 10. half_of (nw_data w) i)" by (simp only: ones_complement_sum_oc)
  let ?o = "oc (\<Sum>i < 10. half_of (nw_data w) i)"
  have "unat (NOT (word_of_nat ?o) :: 16 word) = 65535 - ?o"
    using oc_bound [of "\<Sum>i < 10. half_of (nw_data w) i"] by (simp add: unat_NOT_16 unat_of_nat)
  then have "NOT (word_of_nat ?o) = (0 :: 16 word) \<longleftrightarrow> 65535 - ?o = 0" by (metis unsigned_eq_0_iff)
  then show ?thesis
    using oc_bound [of "\<Sum>i < 10. half_of (nw_data w) i"] unfolding s header_checksum_value by linarith
qed

lemma request_read:
  assumes "is_fsm_state s = READ_PACKET" and "is_data_in s = w # xs" and "is_packet (w # ws)"
    and "bs = packet_bytes (w # ws)" and "28 \<le> length bs"
  shows "\<exists>t. (icmp_server u a ^^ 2) s = t \<and> is_data_in t = xs \<and> is_data_out t = is_data_out s \<and> is_prev_word t = w \<and>
     unat (is_icmp_checksum t) = request_sum bs \<and>
     is_fsm_state t = (if is_echo_request a bs then SEND_FIRST_WORD else if u then READ_PACKET else DROP_PACKET)"
proof -
  let ?r = "icmp_read w (s\<lparr>is_data_in := xs\<rparr>)"
  obtain j where b: "\<And>i. i < 28 \<Longrightarrow> bs ! i = word_byte w i" using first_word_bytes [OF assms(3-5)] by metis
  have "take 4 (drop 16 bs) = ip_address_bytes (get_range 128 (nw_data w))"
    using assms(5) b by (intro nth_equalityI) (simp_all add: ip_address_bytes_def get_range_get_range word_byte_def algebra_simps)
  then have d: "is_dst_ip ?r = a \<longleftrightarrow> take 4 (drop 16 bs) = ip_address_bytes a"
    by (simp add: icmp_read_def Let_def address_bytes_eq)
  have "is_icmp_type ?r = bs ! 20" "is_icmp_code ?r = bs ! 21"
    by (simp_all add: icmp_read_def Let_def b word_byte_def)
  moreover have "is_auxin_checksum_reg ?r = 0 \<longleftrightarrow> ones_complement_sum (take 20 bs) = 65535"
    using header_checksum_zero [OF assms(3-5)] by (simp add: icmp_read_def Let_def)
  moreover have "unat (is_icmp_checksum ?r) = request_sum bs"
  proof -
    let ?c = "put_range 8 (get_range 176 (nw_data w) :: 8 word) (put_range 0 (get_range 184 (nw_data w) :: 8 word) 0) :: 16 word"
    have "unat ?c = 256 * unat (bs ! 22) + unat (bs ! 23)"
      unfolding unat_of_bytes_16 [of ?c] by (simp add: get_put_range_disjoint b word_byte_def)
    then have "unat ?c + 2048 = request_sum bs" by (simp add: request_sum_def)
    moreover have "unat (ucast ?c :: 17 word) = unat ?c" by (rule unat_ucast_up) simp
    ultimately show ?thesis using request_sum_bound [of bs] by (simp add: icmp_read_def Let_def unat_word_ariths)
  qed
  moreover have "(icmp_server u a ^^ 2) s = icmp_evaluate u a ?r"
    using assms(1,2) by (simp add: numeral_2_eq_2 icmp_server_def) (simp add: icmp_read_def Let_def)
  ultimately show ?thesis using d
    by (simp add: icmp_evaluate_def is_echo_request_def) (simp add: icmp_read_def Let_def)
qed

lemma icmp_forwarded:
  "is_fsm_state s = FORWARD \<Longrightarrow> is_data_in s = ws @ rest \<Longrightarrow> is_packet ws \<Longrightarrow>
   (icmp_server u a ^^ length ws) s = s\<lparr>is_fsm_state := READ_PACKET, is_data_in := rest, is_data_out := is_data_out s @ ws\<rparr>"
proof (induction ws arbitrary: s)
  case (Cons w ws)
  have st: "icmp_server u a s = s\<lparr>is_data_in := ws @ rest, is_data_out := is_data_out s @ [w],
      is_fsm_state := (if nw_last w then READ_PACKET else FORWARD)\<rparr>"
    using Cons.prems by (simp add: icmp_server_def)
  show ?case
  proof (cases "ws = []")
    case True
    then show ?thesis using Cons.prems st by (simp add: is_packet_Cons)
  next
    case False
    then show ?thesis
      using Cons.IH [of "icmp_server u a s"] Cons.prems st
      by (simp add: is_packet_Cons funpow_Suc_apply del: funpow.simps)
  qed
qed (simp add: is_packet_def)

lemma icmp_dropped:
  "is_fsm_state s = DROP_PACKET \<Longrightarrow> is_data_in s = ws @ rest \<Longrightarrow> is_packet ws \<Longrightarrow>
   (icmp_server u a ^^ length ws) s = s\<lparr>is_fsm_state := READ_PACKET, is_data_in := rest\<rparr>"
proof (induction ws arbitrary: s)
  case (Cons w ws)
  have st: "icmp_server u a s = s\<lparr>is_data_in := ws @ rest, is_fsm_state := (if nw_last w then READ_PACKET else DROP_PACKET)\<rparr>"
    using Cons.prems by (simp add: icmp_server_def)
  show ?case
  proof (cases "ws = []")
    case True
    then show ?thesis using Cons.prems st by (simp add: is_packet_Cons)
  next
    case False
    then show ?thesis
      using Cons.IH [of "icmp_server u a s"] Cons.prems st
      by (simp add: is_packet_Cons funpow_Suc_apply del: funpow.simps)
  qed
qed (simp add: is_packet_def)

lemma ping_reply_sent:
  assumes "is_fsm_state s = READ_PACKET" and "is_data_in s = (w # ws) @ rest" and "is_packet (w # ws)"
    and "bs = packet_bytes (w # ws)" and "28 \<le> length bs" and "is_echo_request a bs"
  shows "\<exists>os. is_packet os \<and> packet_bytes os = echo_reply bs \<and>
     is_fsm_state ((icmp_server u a ^^ (length (w # ws) + 2)) s) = READ_PACKET \<and>
     is_data_in ((icmp_server u a ^^ (length (w # ws) + 2)) s) = rest \<and>
     is_data_out ((icmp_server u a ^^ (length (w # ws) + 2)) s) = is_data_out s @ os"
proof -
  obtain t where t: "(icmp_server u a ^^ 2) s = t" "is_data_in t = ws @ rest" "is_data_out t = is_data_out s"
      "is_prev_word t = w" "unat (is_icmp_checksum t) = request_sum bs" "is_fsm_state t = SEND_FIRST_WORD"
    using request_read [OF assms(1) _ assms(3-5), of "ws @ rest" u a] assms(2,6) by auto
  let ?o = "reply_word (is_icmp_checksum t) w"
  let ?v = "t\<lparr>is_data_out := is_data_out t @ [?o], is_fsm_state := (if nw_last w then READ_PACKET else FORWARD)\<rparr>"
  note r = reply_packet [OF assms(3-5) t(5)]
  have v: "icmp_server u a t = ?v" using t(4,6) by (simp add: icmp_server_def icmp_send_first_def)
  have "is_fsm_state ((icmp_server u a ^^ length ws) ?v) = READ_PACKET \<and> is_data_in ((icmp_server u a ^^ length ws) ?v) = rest \<and>
      is_data_out ((icmp_server u a ^^ length ws) ?v) = is_data_out s @ ?o # ws"
  proof (cases "ws = []")
    case True
    then show ?thesis using assms(3) t by (simp add: is_packet_Cons)
  next
    case False
    then have "\<not> nw_last w" "is_packet ws" using assms(3) by (simp_all add: is_packet_Cons)
    then show ?thesis using icmp_forwarded [of ?v ws rest u a] t by simp
  qed
  moreover have "(icmp_server u a ^^ (length (w # ws) + 2)) s = (icmp_server u a ^^ length ws) ?v"
    by (simp only: length_Cons add_Suc funpow.simps(2) o_apply funpow_add t(1) v [symmetric] funpow_swap1)
  ultimately show ?thesis using r(1,2) by (intro exI [of _ "?o # ws"]) simp
qed

text \<open>C16: An echo request for the server's address, with a valid IP header, is answered within two cycles more
  than it has words: the reply goes back to the sender with everything behind the checksum unchanged;
  its message adds up exactly as that of the request did, although the checksum is only adjusted and not
  recomputed; and with the header checksum that \<open>ethernet_header_inserter\<close> puts in, its header adds up.\<close>

theorem ping_answered:
  assumes "is_fsm_state s = READ_PACKET" and "is_data_in s = (w # ws) @ rest" and "is_packet (w # ws)"
    and "bs = packet_bytes (w # ws)" and "28 \<le> length bs" and "is_echo_request a bs" and "ip_header_bytes bs = 20"
  shows "let t = (icmp_server u a ^^ (length (w # ws) + 2)) s in
     is_fsm_state t = READ_PACKET \<and> is_data_in t = rest \<and>
     (\<exists>os. is_data_out t = is_data_out s @ os \<and> is_packet os \<and> packet_bytes os = echo_reply bs) \<and>
     take 4 (drop 12 (echo_reply bs)) = ip_address_bytes a \<and> take 4 (drop 16 (echo_reply bs)) = take 4 (drop 12 bs) \<and>
     drop 24 (echo_reply bs) = drop 24 bs \<and>
     ones_complement_sum (drop 20 (echo_reply bs)) = ones_complement_sum (drop 20 bs) \<and>
     ones_complement_sum (ip_header_of (with_ip_checksum (echo_reply bs))) = 65535"
proof -
  have "ip_header_bytes (echo_reply bs) = 20"
    using assms(5,7) by (simp add: ip_header_bytes_def echo_reply_def Let_def nth_append)
  moreover have "length (echo_reply bs) = length bs" using assms(5) by (simp add: echo_reply_def Let_def)
  ultimately have "ip_header_complete (echo_reply bs)" using assms(5) by (simp add: ip_header_complete_def)
  note h = checksum_completes_header [OF this]
  have a: "take 4 (drop 16 bs) = ip_address_bytes a" "bs ! 20 = 8" using assms(6) by (simp_all add: is_echo_request_def)
  have "take 4 (drop 12 (echo_reply bs)) = ip_address_bytes a" "take 4 (drop 16 (echo_reply bs)) = take 4 (drop 12 bs)"
      "drop 24 (echo_reply bs) = drop 24 bs"
    using assms(5) a(1) by (simp_all add: echo_reply_def Let_def)
  then show ?thesis
    using ping_reply_sent [OF assms(1-6), of u] reply_checksum [OF assms(5) a(2)] h by (auto simp: Let_def)
qed

text \<open>The flag that decides whether the rest of a packet has to be dropped is not that of the packet: when
  it is clear after a packet of one word that is no echo request, the server drops the whole next packet,
  whatever it is, without a reply.\<close>

theorem next_packet_dropped:
  assumes "is_fsm_state s = READ_PACKET" and "is_data_in s = w # ws @ rest" and "is_packet [w]" and "28 \<le> length (word_bytes w)"
    and "\<not> is_echo_request a (word_bytes w)" and "is_packet ws"
  shows "let t = (icmp_server False a ^^ (length ws + 2)) s in
     is_fsm_state t = READ_PACKET \<and> is_data_in t = rest \<and> is_data_out t = is_data_out s"
proof -
  obtain t where t: "(icmp_server False a ^^ 2) s = t" "is_data_in t = ws @ rest" "is_data_out t = is_data_out s"
      "is_fsm_state t = DROP_PACKET"
    using request_read [OF assms(1,2,3) refl, of False a] assms(4,5) by auto
  have "(icmp_server False a ^^ (length ws + 2)) s = (icmp_server False a ^^ length ws) t" by (simp only: funpow_add o_apply t(1))
  then show ?thesis using icmp_dropped [OF t(4,2) assms(6), of False a] t(3) by simp
qed

section \<open>A packet from its bytes\<close>

definition bytes_data :: "8 word list \<Rightarrow> NetAXISData" where
  "bytes_data bs = foldl (\<lambda>a i. put_range (8 * i) (bs ! i) a) 0 [0..<length bs]"

definition bytes_word :: "8 word list \<Rightarrow> NetAXISWord" where
  "bytes_word bs = \<lparr>nw_data = bytes_data bs, nw_dest = 0, nw_keep = mask (length bs), nw_last = True\<rparr>"

lemma bytes_data_nth:
  assumes "i < length bs" and "length bs \<le> 64"
  shows "get_range (8 * i) (bytes_data bs) = bs ! i"
proof -
  have "get_range (8 * i) (foldl (\<lambda>a i. put_range (8 * i) (bs ! i) a) (0 :: NetAXISData) [0..<n]) = bs ! i" if "i < n" "n \<le> 64" for n
    using that
  proof (induction n)
    case (Suc n)
    show ?case
    proof (cases "i = n")
      case True
      then show ?thesis using Suc.prems by simp
    next
      case False
      then have "8 * n + 8 \<le> 8 * i \<or> 8 * i + 8 \<le> 8 * n" by auto
      then show ?thesis using False Suc by (simp add: get_put_range_disjoint)
    qed
  qed simp
  then show ?thesis using assms by (simp add: bytes_data_def)
qed

lemma bytes_word_bytes [simp]: "length bs \<le> 64 \<Longrightarrow> word_bytes (bytes_word bs) = bs"
  by (rule nth_equalityI) (simp_all add: bytes_word_def word_bytes_mask word_byte_def bytes_data_nth)

lemma bytes_word_packet: "bs \<noteq> [] \<Longrightarrow> length bs \<le> 64 \<Longrightarrow> is_packet [bytes_word bs]"
  by (simp add: is_packet_def bytes_word_def) (metis One_nat_def Suc_leI atLeastAtMost_iff imageI length_greater_0_conv)

definition demo_ping :: "8 word list" where
  "demo_ping = [0x45, 0, 0, 0x1C, 0, 0, 0, 0, 0x40, 1, 0xF7, 0x7B, 0xC0, 0xA8, 1, 11, 0xC0, 0xA8, 1, 10,
     8, 0, 0xF7, 0xFD, 0, 1, 0, 1]"

lemma demo_ping_request: "length demo_ping = 28" "is_echo_request 0x0A01A8C0 demo_ping" "ip_header_bytes demo_ping = 20"
    "\<not> is_echo_request 0 demo_ping" "is_packet [bytes_word demo_ping]"
proof -
  have a: "ip_address_bytes 0x0A01A8C0 = [0xC0, 0xA8, 1, 10]" "ip_address_bytes 0 = [0, 0, 0, 0]"
    by (simp_all add: ip_address_bytes_def upt_rec get_range_def drop_bit_word_numeral)
  show "length demo_ping = 28" by (simp add: demo_ping_def)
  then show "is_packet [bytes_word demo_ping]" by (intro bytes_word_packet) auto
  show "is_echo_request 0x0A01A8C0 demo_ping"
    by (simp add: is_echo_request_def a demo_ping_def ones_complement_sum_def oc_add_def)
  show "\<not> is_echo_request 0 demo_ping" by (simp add: is_echo_request_def a demo_ping_def)
  show "ip_header_bytes demo_ping = 20" by (simp add: ip_header_bytes_def demo_ping_def)
qed

theorem ping_answered_witness:
  "\<exists>os. is_data_out ((icmp_server False 0x0A01A8C0 ^^ 3) (icmp_server_init\<lparr>is_data_in := [bytes_word demo_ping]\<rparr>)) = os \<and>
     packet_bytes os = echo_reply demo_ping"
  using ping_answered [of "icmp_server_init\<lparr>is_data_in := [bytes_word demo_ping]\<rparr>" "bytes_word demo_ping" "[]" "[]"
      demo_ping "0x0A01A8C0" False]
  by (auto simp: icmp_server_init_def demo_ping_request Let_def numeral_3_eq_3 simp del: funpow.simps)

theorem next_packet_dropped_witness:
  "is_data_out ((icmp_server False 0 ^^ 3) (icmp_server_init\<lparr>is_data_in := [bytes_word demo_ping, bytes_word demo_ping]\<rparr>)) = []"
  using next_packet_dropped [of "icmp_server_init\<lparr>is_data_in := [bytes_word demo_ping, bytes_word demo_ping]\<rparr>" "bytes_word demo_ping"
      "[bytes_word demo_ping]" "[]" 0]
  by (simp add: icmp_server_init_def demo_ping_request Let_def numeral_3_eq_3 del: funpow.simps)

end
