(* ===== verification/Arp_Server.thy ===== *)
theory Arp_Server
  imports Ethernet_Header
begin

text \<open>
  \<open>arp_server/arp_server.cpp\<close>: the module that answers ARP requests for its own address, keeps the table of
  hardware addresses that \<open>ethernet_header_inserter\<close> asks, sends requests for unknown ones, and scans the
  subnet on demand.  The table has an entry for each value of the last byte of an address.  The host
  reads and writes \<open>arp_scan\<close>; \<open>SCANNING\<close> is 0.
\<close>

section \<open>Types\<close>

definition ARP_REQUEST :: "16 word" where [simp]: "ARP_REQUEST = 0x0100"
definition ARP_REPLY :: "16 word" where [simp]: "ARP_REPLY = 0x0200"
definition BROADCAST_MAC :: "48 word" where "BROADCAST_MAC = 0xFFFFFFFFFFFF"

definition MAX_COUNT :: "build \<Rightarrow> 32 word" where
  "MAX_COUNT bld = (case bld of Synthesis \<Rightarrow> 1500000000 | Simulation \<Rightarrow> 50)"

record ArpTableEntry =
  te_mac_addr :: "48 word"
  te_ip_addr :: "32 word"
  te_valid :: bool

record ArpMetaRsp =
  ar_src_mac_addr :: "48 word"
  ar_eth_type :: "16 word"
  ar_arp_hw_type :: "16 word"
  ar_arp_proto_type :: "16 word"
  ar_arp_hw_len :: "8 word"
  ar_arp_proto_len :: "8 word"
  ar_arp_src_hw_addr :: "48 word"
  ar_arp_src_proto_addr :: "32 word"

section \<open>\<open>ArpPkgReceiver\<close>\<close>

record ArpPkgReceiver =
  ap_word_count :: "4 word"
  ap_arp_data_in :: "NetAXISWord stream"
  ap_arp_rsp_out :: "ArpMetaRsp stream"
  ap_arp_table_insert_out :: "ArpTableEntry stream"

definition arp_meta :: "NetAXISData \<Rightarrow> ArpMetaRsp" where
  "arp_meta data =
     \<lparr>ar_src_mac_addr = get_range 48 data, ar_eth_type = get_range 96 data, ar_arp_hw_type = get_range 112 data,
      ar_arp_proto_type = get_range 128 data, ar_arp_hw_len = get_range 144 data, ar_arp_proto_len = get_range 152 data,
      ar_arp_src_hw_addr = get_range 176 data, ar_arp_src_proto_addr = get_range 224 data\<rparr>"

definition receive_first :: "32 word \<Rightarrow> NetAXISData \<Rightarrow> ArpPkgReceiver \<Rightarrow> ArpPkgReceiver" where
  "receive_first my_ip_addr data s =
     (let meta = arp_meta data;
          arp_op_code = get_range 160 data :: 16 word;
          arp_dst_proto_addr = get_range 304 data :: 32 word in
      if arp_op_code = ARP_REQUEST \<and> arp_dst_proto_addr = my_ip_addr then
        s\<lparr>ap_arp_rsp_out := ap_arp_rsp_out s @ [meta]\<rparr>
      else if arp_op_code = ARP_REPLY \<and> arp_dst_proto_addr = my_ip_addr then
        s\<lparr>ap_arp_table_insert_out := ap_arp_table_insert_out s @
          [\<lparr>te_mac_addr = ar_arp_src_hw_addr meta, te_ip_addr = ar_arp_src_proto_addr meta, te_valid = True\<rparr>]\<rparr>
      else s)"

definition ArpPkgReceiver :: "32 word \<Rightarrow> ArpPkgReceiver \<Rightarrow> ArpPkgReceiver" where
  "ArpPkgReceiver my_ip_addr s =
     (case ap_arp_data_in s of
        [] \<Rightarrow> s
      | currWord # ws \<Rightarrow>
          (let s = s\<lparr>ap_arp_data_in := ws\<rparr>;
               s = (if ap_word_count s = 0 then receive_first my_ip_addr (nw_data currWord) s else s) in
           s\<lparr>ap_word_count := (if nw_last currWord then 0 else ap_word_count s + 1)\<rparr>))"

section \<open>\<open>ArpPkgSender\<close>\<close>

datatype ArpSendStateType = ARP_IDLE_STATE | ARP_REPLY_STATE | ARP_SENTREQ_STATE

record ArpPkgSender =
  as_fsmState :: ArpSendStateType
  as_arp_meta_rsp :: ArpMetaRsp
  as_arp_req_ip :: "32 word"
  as_arp_rsp_in :: "ArpMetaRsp stream"
  as_arp_request_ip_addr :: "32 word stream"
  as_arp_data_out :: "NetAXISWord stream"

text \<open>The addresses of the module.\<close>

record ArpAddresses =
  my_mac_addr :: "48 word"
  my_ip_addr :: "32 word"
  gateway_ip_addr :: "32 word"
  subnet_mask :: "32 word"

definition arp_next_hop :: "ArpAddresses \<Rightarrow> 32 word \<Rightarrow> 32 word" where
  "arp_next_hop c ip =
     (if ip AND subnet_mask c = my_ip_addr c AND subnet_mask c then ip else gateway_ip_addr c)"

text \<open>The fields of a frame, in the order of the source.  The sender never assigns \<open>dest\<close> of its word, a plain
  \<open>NetAXIS\<close>: its value is a parameter, of the server too.\<close>

definition arp_frame ::
  "NetAXISDest \<Rightarrow> 48 word \<Rightarrow> 48 word \<Rightarrow> 16 word \<Rightarrow> 16 word \<Rightarrow> 16 word \<Rightarrow> 8 word \<Rightarrow> 8 word \<Rightarrow> 16 word \<Rightarrow> 48 word \<Rightarrow> 32 word \<Rightarrow> 48 word \<Rightarrow>
   32 word \<Rightarrow> NetAXISWord" where
  "arp_frame dest dst src eth_type hw_type proto_type hw_len proto_len op src_hw src_proto dst_hw dst_proto =
     (let data = put_range 0 dst 0;
          data = put_range 48 src data;
          data = put_range 96 eth_type data;
          data = put_range 112 hw_type data;
          data = put_range 128 proto_type data;
          data = put_range 144 hw_len data;
          data = put_range 152 proto_len data;
          data = put_range 160 op data;
          data = put_range 176 src_hw data;
          data = put_range 224 src_proto data;
          data = put_range 256 dst_hw data;
          data = put_range 304 dst_proto data;
          data = put_range 336 (0 :: 48 word) data;
          data = put_range 384 (0x454546464F43 :: 128 word) data in
      \<lparr>nw_data = data, nw_dest = dest, nw_keep = 0x0FFFFFFFFFFFFFFF, nw_last = True\<rparr>)"

definition arp_request_frame :: "NetAXISDest \<Rightarrow> ArpAddresses \<Rightarrow> 32 word \<Rightarrow> NetAXISWord" where
  "arp_request_frame dest c ip =
     arp_frame dest BROADCAST_MAC (my_mac_addr c) 0x0608 0x0100 0x0008 6 4 ARP_REQUEST (my_mac_addr c) (my_ip_addr c) 0 (arp_next_hop c ip)"

definition arp_reply_frame :: "NetAXISDest \<Rightarrow> ArpAddresses \<Rightarrow> ArpMetaRsp \<Rightarrow> NetAXISWord" where
  "arp_reply_frame dest c m =
     arp_frame dest (ar_src_mac_addr m) (my_mac_addr c) (ar_eth_type m) (ar_arp_hw_type m) (ar_arp_proto_type m) (ar_arp_hw_len m)
       (ar_arp_proto_len m) ARP_REPLY (my_mac_addr c) (my_ip_addr c) (ar_arp_src_hw_addr m) (ar_arp_src_proto_addr m)"

definition ArpPkgSender :: "NetAXISDest \<Rightarrow> ArpAddresses \<Rightarrow> ArpPkgSender \<Rightarrow> ArpPkgSender" where
  "ArpPkgSender dest c s =
     (case as_fsmState s of
        ARP_IDLE_STATE \<Rightarrow>
          (case as_arp_rsp_in s of
             m # ms \<Rightarrow> s\<lparr>as_arp_rsp_in := ms, as_arp_meta_rsp := m, as_fsmState := ARP_REPLY_STATE\<rparr>
           | [] \<Rightarrow>
               (case as_arp_request_ip_addr s of
                  ip # ips \<Rightarrow> s\<lparr>as_arp_request_ip_addr := ips, as_arp_req_ip := ip, as_fsmState := ARP_SENTREQ_STATE\<rparr>
                | [] \<Rightarrow> s))
      | ARP_SENTREQ_STATE \<Rightarrow>
          s\<lparr>as_fsmState := ARP_IDLE_STATE, as_arp_data_out := as_arp_data_out s @ [arp_request_frame dest c (as_arp_req_ip s)]\<rparr>
      | ARP_REPLY_STATE \<Rightarrow>
          s\<lparr>as_fsmState := ARP_IDLE_STATE, as_arp_data_out := as_arp_data_out s @ [arp_reply_frame dest c (as_arp_meta_rsp s)]\<rparr>)"

section \<open>\<open>ArpTableHandler\<close>\<close>

record ArpTableHandler =
  ah_arp_cache_table :: "8 word \<Rightarrow> ArpTableEntry"
  ah_arp_table_insert_in :: "ArpTableEntry stream"
  ah_mac_ip_encode_req :: "32 word stream"
  ah_mac_ip_encode_rsp :: "ArpTableRsp stream"
  ah_arp_requested_ip :: "32 word stream"

definition ArpTableHandler :: "ArpAddresses \<Rightarrow> ArpTableHandler \<Rightarrow> ArpTableHandler" where
  "ArpTableHandler c s =
     (case ah_arp_table_insert_in s of
        e # es \<Rightarrow>
          s\<lparr>ah_arp_table_insert_in := es, ah_arp_cache_table := (ah_arp_cache_table s)(get_range 24 (te_ip_addr e) := e)\<rparr>
      | [] \<Rightarrow>
          (case ah_mac_ip_encode_req s of
             [] \<Rightarrow> s
           | req_ip # rs \<Rightarrow>
               (let e = ah_arp_cache_table s (get_range 24 (arp_next_hop c req_ip)) in
                s\<lparr>ah_mac_ip_encode_req := rs,
                  ah_arp_requested_ip := (if te_valid e then ah_arp_requested_ip s else ah_arp_requested_ip s @ [req_ip]),
                  ah_mac_ip_encode_rsp := ah_mac_ip_encode_rsp s @ [\<lparr>at_mac_addr = te_mac_addr e, at_hit = te_valid e\<rparr>]\<rparr>)))"

section \<open>\<open>GenArpScan\<close>\<close>

datatype GenScanFsmState = SCAN_SETUP | WAIT_TIME | GEN_IP | SCAN_FWD | WAIT_RESPONSE

record GenArpScan =
  gs_fsm_state :: GenScanFsmState
  gs_time_counter :: "32 word"
  gs_ip_lsb :: "8 word"
  gs_arp_scan_1d :: bool
  gs_arp_scan :: bool
  gs_mac_ip_encode_req_in :: "32 word stream"
  gs_mac_ip_encode_rsp_in :: "ArpTableRsp stream"
  gs_mac_ip_encode_rsp_out :: "ArpTableRsp stream"
  gs_mac_ip_encode_req_out :: "32 word stream"

definition scan_address :: "32 word \<Rightarrow> 8 word \<Rightarrow> 32 word" where
  "scan_address my_ip ip_lsb = put_range 24 ip_lsb (put_range 0 (get_range 0 my_ip :: 24 word) 0)"

definition scan_forward :: "GenArpScan \<Rightarrow> GenArpScan" where
  "scan_forward s =
     (let checkArpScan = (gs_mac_ip_encode_req_in s = [] \<or> gs_mac_ip_encode_rsp_in s = []);
          s = (case gs_mac_ip_encode_req_in s of
              r # rs \<Rightarrow> s\<lparr>gs_mac_ip_encode_req_in := rs, gs_mac_ip_encode_req_out := gs_mac_ip_encode_req_out s @ [r]\<rparr>
            | [] \<Rightarrow> s);
          s = (case gs_mac_ip_encode_rsp_in s of
              r # rs \<Rightarrow> s\<lparr>gs_mac_ip_encode_rsp_in := rs, gs_mac_ip_encode_rsp_out := gs_mac_ip_encode_rsp_out s @ [r]\<rparr>
            | [] \<Rightarrow> s) in
      if checkArpScan \<and> \<not> gs_arp_scan_1d s \<and> gs_arp_scan s then s\<lparr>gs_arp_scan := False, gs_fsm_state := SCAN_SETUP\<rparr> else s)"

definition GenArpScan :: "build \<Rightarrow> 32 word \<Rightarrow> GenArpScan \<Rightarrow> GenArpScan" where
  "GenArpScan bld my_ip s =
     (let s = (case gs_fsm_state s of
            WAIT_TIME \<Rightarrow>
              s\<lparr>gs_fsm_state := (if gs_time_counter s = MAX_COUNT bld then GEN_IP else gs_fsm_state s),
                gs_time_counter := gs_time_counter s + 1\<rparr>
          | GEN_IP \<Rightarrow>
              s\<lparr>gs_mac_ip_encode_req_out := gs_mac_ip_encode_req_out s @ [scan_address my_ip (gs_ip_lsb s)],
                gs_ip_lsb := gs_ip_lsb s + 1, gs_fsm_state := WAIT_RESPONSE\<rparr>
          | WAIT_RESPONSE \<Rightarrow>
              (case gs_mac_ip_encode_rsp_in s of
                 r # rs \<Rightarrow> s\<lparr>gs_mac_ip_encode_rsp_in := rs, gs_fsm_state := (if gs_ip_lsb s = 0 then SCAN_FWD else GEN_IP)\<rparr>
               | [] \<Rightarrow> s)
          | SCAN_FWD \<Rightarrow> scan_forward s
          | SCAN_SETUP \<Rightarrow> s\<lparr>gs_ip_lsb := 0, gs_fsm_state := GEN_IP\<rparr>) in
      s\<lparr>gs_arp_scan_1d := gs_arp_scan s\<rparr>)"

section \<open>\<open>arp_server\<close>\<close>

record ArpServer =
  sv_scan :: GenArpScan
  sv_receiver :: ArpPkgReceiver
  sv_sender :: ArpPkgSender
  sv_table :: ArpTableHandler

definition arp_server :: "build \<Rightarrow> NetAXISDest \<Rightarrow> ArpAddresses \<Rightarrow> ArpServer \<Rightarrow> ArpServer" where
  "arp_server bld dest c s =
     (let g = GenArpScan bld (my_ip_addr c) ((sv_scan s)
            \<lparr>gs_mac_ip_encode_rsp_in := gs_mac_ip_encode_rsp_in (sv_scan s) @ ah_mac_ip_encode_rsp (sv_table s)\<rparr>);
          r = ArpPkgReceiver (my_ip_addr c) (sv_receiver s);
          d = ArpPkgSender dest c ((sv_sender s)
            \<lparr>as_arp_rsp_in := as_arp_rsp_in (sv_sender s) @ ap_arp_rsp_out r,
             as_arp_request_ip_addr := as_arp_request_ip_addr (sv_sender s) @ ah_arp_requested_ip (sv_table s)\<rparr>);
          h = ArpTableHandler c ((sv_table s)
            \<lparr>ah_arp_table_insert_in := ah_arp_table_insert_in (sv_table s) @ ap_arp_table_insert_out r,
             ah_mac_ip_encode_req := ah_mac_ip_encode_req (sv_table s) @ gs_mac_ip_encode_req_out g,
             ah_mac_ip_encode_rsp := [], ah_arp_requested_ip := []\<rparr>) in
      \<lparr>sv_scan = g\<lparr>gs_mac_ip_encode_req_out := []\<rparr>,
       sv_receiver = r\<lparr>ap_arp_rsp_out := [], ap_arp_table_insert_out := []\<rparr>,
       sv_sender = d, sv_table = h\<rparr>)"

definition arp_server_init :: "(8 word \<Rightarrow> ArpTableEntry) \<Rightarrow> ArpServer" where
  "arp_server_init table =
     \<lparr>sv_scan = \<lparr>gs_fsm_state = SCAN_FWD, gs_time_counter = 0, gs_ip_lsb = 0, gs_arp_scan_1d = False, gs_arp_scan = False,
        gs_mac_ip_encode_req_in = [], gs_mac_ip_encode_rsp_in = [], gs_mac_ip_encode_rsp_out = [],
        gs_mac_ip_encode_req_out = []\<rparr>,
      sv_receiver = \<lparr>ap_word_count = 0, ap_arp_data_in = [], ap_arp_rsp_out = [], ap_arp_table_insert_out = []\<rparr>,
      sv_sender = \<lparr>as_fsmState = ARP_IDLE_STATE, as_arp_meta_rsp = arp_meta 0, as_arp_req_ip = 0, as_arp_rsp_in = [],
        as_arp_request_ip_addr = [], as_arp_data_out = []\<rparr>,
      sv_table = \<lparr>ah_arp_cache_table = table, ah_arp_table_insert_in = [], ah_mac_ip_encode_req = [],
        ah_mac_ip_encode_rsp = [], ah_arp_requested_ip = []\<rparr>\<rparr>"
section \<open>One address\<close>

text \<open>A server that has nothing to do, and what its neighbours do with it: ask for an address, deliver a frame.\<close>

definition arp_idle :: "ArpServer \<Rightarrow> bool" where
  "arp_idle s \<longleftrightarrow>
     (gs_fsm_state (sv_scan s) = SCAN_FWD \<and> \<not> gs_arp_scan (sv_scan s) \<and> \<not> gs_arp_scan_1d (sv_scan s) \<and>
      gs_mac_ip_encode_req_in (sv_scan s) = [] \<and> gs_mac_ip_encode_rsp_in (sv_scan s) = [] \<and>
      gs_mac_ip_encode_req_out (sv_scan s) = []) \<and>
     (ap_word_count (sv_receiver s) = 0 \<and> ap_arp_data_in (sv_receiver s) = [] \<and> ap_arp_rsp_out (sv_receiver s) = [] \<and>
      ap_arp_table_insert_out (sv_receiver s) = []) \<and>
     (as_fsmState (sv_sender s) = ARP_IDLE_STATE \<and> as_arp_rsp_in (sv_sender s) = [] \<and>
      as_arp_request_ip_addr (sv_sender s) = []) \<and>
     (ah_arp_table_insert_in (sv_table s) = [] \<and> ah_mac_ip_encode_req (sv_table s) = [] \<and>
      ah_mac_ip_encode_rsp (sv_table s) = [] \<and> ah_arp_requested_ip (sv_table s) = [])"

definition arp_ask :: "32 word \<Rightarrow> ArpServer \<Rightarrow> ArpServer" where
  "arp_ask ip s = s\<lparr>sv_scan := (sv_scan s)\<lparr>gs_mac_ip_encode_req_in := gs_mac_ip_encode_req_in (sv_scan s) @ [ip]\<rparr>\<rparr>"

definition arp_deliver :: "NetAXISWord list \<Rightarrow> ArpServer \<Rightarrow> ArpServer" where
  "arp_deliver ws s = s\<lparr>sv_receiver := (sv_receiver s)\<lparr>ap_arp_data_in := ap_arp_data_in (sv_receiver s) @ ws\<rparr>\<rparr>"

definition arp_frames :: "ArpServer \<Rightarrow> NetAXISWord list" where
  "arp_frames s = as_arp_data_out (sv_sender s)"

definition arp_answers :: "ArpServer \<Rightarrow> ArpTableRsp list" where
  "arp_answers s = gs_mac_ip_encode_rsp_out (sv_scan s)"

text \<open>The entry of the table that answers a request for \<open>ip\<close>, and the answer.\<close>

definition arp_entry :: "ArpAddresses \<Rightarrow> 32 word \<Rightarrow> ArpServer \<Rightarrow> ArpTableEntry" where
  "arp_entry c ip s = ah_arp_cache_table (sv_table s) (get_range 24 (arp_next_hop c ip))"

definition arp_answer :: "ArpTableEntry \<Rightarrow> ArpTableRsp" where
  "arp_answer e = \<lparr>at_mac_addr = te_mac_addr e, at_hit = te_valid e\<rparr>"

lemmas arp_server_defs =
  arp_server_def GenArpScan_def scan_forward_def ArpPkgReceiver_def receive_first_def ArpPkgSender_def ArpTableHandler_def
  arp_ask_def arp_deliver_def arp_frames_def arp_answers_def arp_entry_def arp_answer_def Let_def

lemma unknown_address_requested:
  assumes "arp_idle s" and "\<not> te_valid (arp_entry c ip s)"
  shows "let t = (arp_server bld dest c ^^ 3) (arp_ask ip s) in
    arp_idle t \<and> ah_arp_cache_table (sv_table t) = ah_arp_cache_table (sv_table s) \<and>
    arp_frames t = arp_frames s @ [arp_request_frame dest c ip] \<and>
    arp_answers t = arp_answers s @ [arp_answer (arp_entry c ip s)]"
  using assms by (simp add: arp_idle_def arp_server_defs numeral_2_eq_2 numeral_3_eq_3)

lemma known_address_answered:
  assumes "arp_idle s" and "te_valid (arp_entry c ip s)"
  shows "let t = (arp_server bld dest c ^^ 2) (arp_ask ip s) in
    arp_idle t \<and> ah_arp_cache_table (sv_table t) = ah_arp_cache_table (sv_table s) \<and>
    arp_frames t = arp_frames s \<and> arp_answers t = arp_answers s @ [arp_answer (arp_entry c ip s)]"
  using assms by (simp add: arp_idle_def arp_server_defs numeral_2_eq_2 numeral_3_eq_3)

text \<open>The fields of a frame that a receiver reads.\<close>

lemmas frame_fields = get_put_range_disjoint arp_frame_def Let_def

lemma arp_meta_frame:
  "arp_meta (nw_data (arp_frame dest dst src et ht pt hl pl op sh sp dh dp)) =
     \<lparr>ar_src_mac_addr = src, ar_eth_type = et, ar_arp_hw_type = ht, ar_arp_proto_type = pt, ar_arp_hw_len = hl,
      ar_arp_proto_len = pl, ar_arp_src_hw_addr = sh, ar_arp_src_proto_addr = sp\<rparr>"
  by (simp add: arp_meta_def frame_fields)

lemma arp_frame_op: "get_range 160 (nw_data (arp_frame dest dst src et ht pt hl pl op sh sp dh dp)) = op"
  by (simp add: frame_fields)

lemma arp_frame_target: "get_range 304 (nw_data (arp_frame dest dst src et ht pt hl pl op sh sp dh dp)) = dp"
  by (simp add: frame_fields)

lemma arp_frame_last: "nw_last (arp_frame dest dst src et ht pt hl pl op sh sp dh dp)"
  by (simp add: frame_fields)

lemmas received_frame = arp_meta_frame arp_frame_op arp_frame_target arp_frame_last

lemma request_replied:
  assumes "arp_idle s" and "arp_next_hop r ip = my_ip_addr c"
  shows "let t = (arp_server bld dest c ^^ 2) (arp_deliver [arp_request_frame dest r ip] s) in
    arp_idle t \<and> arp_frames t = arp_frames s @ [arp_reply_frame dest c (arp_meta (nw_data (arp_request_frame dest r ip)))] \<and>
    arp_answers t = arp_answers s"
  using assms by (simp add: arp_idle_def arp_server_defs arp_request_frame_def received_frame numeral_2_eq_2 numeral_3_eq_3)

lemma reply_learned:
  assumes "arp_idle s" and "ar_arp_src_proto_addr m = my_ip_addr c"
  shows "let t = arp_server bld dest c (arp_deliver [arp_reply_frame dest r m] s) in
    arp_idle t \<and> arp_frames t = arp_frames s \<and> arp_answers t = arp_answers s \<and>
    ah_arp_cache_table (sv_table t) = (ah_arp_cache_table (sv_table s))(get_range 24 (my_ip_addr r) :=
      \<lparr>te_mac_addr = my_mac_addr r, te_ip_addr = my_ip_addr r, te_valid = True\<rparr>)"
  using assms by (simp add: arp_idle_def arp_server_defs arp_reply_frame_def received_frame)
text \<open>The frames a server sent since the state \<open>s\<close>.\<close>

definition arp_sent :: "ArpServer \<Rightarrow> ArpServer \<Rightarrow> NetAXISWord list" where
  "arp_sent s t = drop (length (arp_frames s)) (arp_frames t)"

text \<open>C14: a station's address is learned by one exchange of frames and then answers requests.  Server A is idle and has no
  valid entry for \<open>ip\<close>; B is an idle server whose address is the next hop of \<open>ip\<close>.  A request for \<open>ip\<close> is
  answered with a miss, and three cycles later A has sent a frame.  B, given that frame, sends one in two
  cycles; A takes it in one cycle; and from then on a request for \<open>ip\<close> is answered in two cycles with a hit and the hardware
  address of B.\<close>

theorem address_resolved:
  assumes "arp_idle a" and "arp_idle b" and "my_ip_addr cb = arp_next_hop ca ip" and "\<not> te_valid (arp_entry ca ip a)"
  shows "let a1 = (arp_server bld dest ca ^^ 3) (arp_ask ip a);
             b1 = (arp_server bld dest cb ^^ 2) (arp_deliver (arp_sent a a1) b);
             a2 = arp_server bld dest ca (arp_deliver (arp_sent b b1) a1);
             a3 = (arp_server bld dest ca ^^ 2) (arp_ask ip a2) in
    arp_idle a3 \<and>
    arp_answers a3 = arp_answers a @
      [arp_answer (arp_entry ca ip a), \<lparr>at_mac_addr = my_mac_addr cb, at_hit = True\<rparr>]"
proof -
  define a1 where "a1 = (arp_server bld dest ca ^^ 3) (arp_ask ip a)"
  define m where "m = arp_meta (nw_data (arp_request_frame dest ca ip))"
  have a1: "arp_idle a1" "arp_sent a a1 = [arp_request_frame dest ca ip]" "arp_answers a1 = arp_answers a @ [arp_answer (arp_entry ca ip a)]"
    using unknown_address_requested [OF assms(1,4)] by (simp_all add: Let_def a1_def arp_sent_def)
  define b1 where "b1 = (arp_server bld dest cb ^^ 2) (arp_deliver [arp_request_frame dest ca ip] b)"
  have b1: "arp_sent b b1 = [arp_reply_frame dest cb m]"
    using request_replied [OF assms(2) assms(3) [symmetric], of bld] by (simp add: Let_def b1_def arp_sent_def m_def)
  define a2 where "a2 = arp_server bld dest ca (arp_deliver [arp_reply_frame dest cb m] a1)"
  have m: "ar_arp_src_proto_addr m = my_ip_addr ca" by (simp add: m_def arp_request_frame_def arp_meta_frame)
  have a2: "arp_idle a2" "arp_answers a2 = arp_answers a1"
      "arp_entry ca ip a2 = \<lparr>te_mac_addr = my_mac_addr cb, te_ip_addr = my_ip_addr cb, te_valid = True\<rparr>"
    using reply_learned [OF a1(1) m, of bld dest cb] assms(3) by (simp_all add: Let_def a2_def arp_entry_def)
  show ?thesis
    using known_address_answered [OF a2(1), of ca ip bld] a2 a1
    by (simp add: a1_def [symmetric] b1_def [symmetric] b1 a2_def [symmetric] arp_answer_def Let_def)
qed

definition demo_net :: "48 word \<Rightarrow> 32 word \<Rightarrow> ArpAddresses" where
  "demo_net mac ip = \<lparr>my_mac_addr = mac, my_ip_addr = ip, gateway_ip_addr = 0x0101A8C0, subnet_mask = 0x00FFFFFF\<rparr>"

definition empty_table :: "8 word \<Rightarrow> ArpTableEntry" where
  "empty_table i = \<lparr>te_mac_addr = 0, te_ip_addr = 0, te_valid = False\<rparr>"

lemma arp_idle_init: "arp_idle (arp_server_init table)"
  by (simp add: arp_idle_def arp_server_init_def)

lemma arp_entry_init: "arp_entry c ip (arp_server_init table) = table (get_range 24 (arp_next_hop c ip))"
  by (simp add: arp_entry_def arp_server_init_def)

lemma demo_next_hop: "arp_next_hop (demo_net 0xA 0x0A01A8C0) 0x0B01A8C0 = 0x0B01A8C0"
  by (simp add: arp_next_hop_def demo_net_def)

theorem address_resolved_witness:
  "let a = arp_server_init empty_table; ca = demo_net 0xA 0x0A01A8C0; cb = demo_net 0xB 0x0B01A8C0;
       a1 = (arp_server Synthesis 0 ca ^^ 3) (arp_ask 0x0B01A8C0 a);
       b1 = (arp_server Synthesis 0 cb ^^ 2) (arp_deliver (arp_sent a a1) a);
       a2 = arp_server Synthesis 0 ca (arp_deliver (arp_sent a b1) a1);
       a3 = (arp_server Synthesis 0 ca ^^ 2) (arp_ask 0x0B01A8C0 a2) in
     arp_answers a3 = [\<lparr>at_mac_addr = 0, at_hit = False\<rparr>, \<lparr>at_mac_addr = 0xB, at_hit = True\<rparr>]"
proof -
  have b: "my_ip_addr (demo_net 0xB 0x0B01A8C0) = arp_next_hop (demo_net 0xA 0x0A01A8C0) 0x0B01A8C0"
    by (simp add: demo_next_hop) (simp add: demo_net_def)
  show ?thesis
    using address_resolved [OF arp_idle_init [of empty_table] arp_idle_init [of empty_table] b, of Synthesis 0]
    by (simp add: arp_entry_init Let_def arp_answer_def)
      (simp add: empty_table_def demo_net_def arp_answers_def arp_server_init_def)
qed

text \<open>the entry of the table is chosen by the last byte of an address and its address is never compared, and a
  reply is accepted without a request: after a reply from any station with the same last byte as the next hop of \<open>ip\<close>,
  on the subnet or not, requests for \<open>ip\<close> are answered with that station's hardware address.\<close>

theorem foreign_reply_answers:
  assumes "arp_idle s" and "ar_arp_src_proto_addr m = my_ip_addr c"
    and "get_range 24 (my_ip_addr r) = (get_range 24 (arp_next_hop c ip) :: 8 word)"
  shows "let t = arp_server bld dest c (arp_deliver [arp_reply_frame dest r m] s);
             u = (arp_server bld dest c ^^ 2) (arp_ask ip t) in
    arp_answers u = arp_answers s @ [\<lparr>at_mac_addr = my_mac_addr r, at_hit = True\<rparr>]"
proof -
  let ?t = "arp_server bld dest c (arp_deliver [arp_reply_frame dest r m] s)"
  have t: "arp_idle ?t" "arp_answers ?t = arp_answers s"
      "arp_entry c ip ?t = \<lparr>te_mac_addr = my_mac_addr r, te_ip_addr = my_ip_addr r, te_valid = True\<rparr>"
    using reply_learned [OF assms(1,2), of bld dest r] assms(3) by (simp_all add: Let_def arp_entry_def)
  show ?thesis using known_address_answered [OF t(1), of c ip bld] t by (simp add: arp_answer_def Let_def)
qed

theorem foreign_reply_answers_witness:
  "let c = demo_net 0xA 0x0A01A8C0; r = demo_net 0xE 0x0B000008;
       t = arp_server Synthesis 0 c (arp_deliver [arp_reply_frame 0 r (arp_meta (nw_data (arp_request_frame 0 c 0)))] (arp_server_init empty_table));
       u = (arp_server Synthesis 0 c ^^ 2) (arp_ask 0x0B01A8C0 t) in
     arp_answers u = [\<lparr>at_mac_addr = 0xE, at_hit = True\<rparr>]"
proof -
  let ?c = "demo_net 0xA 0x0A01A8C0" and ?r = "demo_net 0xE 0x0B000008"
  let ?m = "arp_meta (nw_data (arp_request_frame 0 ?c 0))"
  have m: "ar_arp_src_proto_addr ?m = my_ip_addr ?c" by (simp add: arp_request_frame_def arp_meta_frame)
  have r: "get_range 24 (my_ip_addr ?r) = (get_range 24 (arp_next_hop ?c 0x0B01A8C0) :: 8 word)"
    by (simp add: demo_next_hop) (simp add: demo_net_def get_range_def)
  show ?thesis
    using foreign_reply_answers [OF arp_idle_init [of empty_table] m r, of Synthesis 0]
    by (simp add: Let_def) (simp add: demo_net_def arp_answers_def arp_server_init_def)
qed
section \<open>The scan\<close>

definition arp_start_scan :: "ArpServer \<Rightarrow> ArpServer" where
  "arp_start_scan s = s\<lparr>sv_scan := (sv_scan s)\<lparr>gs_arp_scan := True\<rparr>\<rparr>"

text \<open>The answers of the table to the addresses of a scan, and the frames the scan sends for those it does not know.\<close>

definition scan_ip :: "ArpAddresses \<Rightarrow> nat \<Rightarrow> 32 word" where
  "scan_ip c i = scan_address (my_ip_addr c) (word_of_nat i)"

definition scan_frames :: "NetAXISDest \<Rightarrow> ArpAddresses \<Rightarrow> ArpServer \<Rightarrow> nat \<Rightarrow> NetAXISWord list" where
  "scan_frames dest c s n = map (\<lambda>i. arp_request_frame dest c (scan_ip c i)) (filter (\<lambda>i. \<not> te_valid (arp_entry c (scan_ip c i) s)) [0..<n])"

text \<open>\<open>scanning dest c st k rs fs qs s t\<close>: the scan that began in \<open>s\<close> is in state \<open>st\<close> with counter \<open>k\<close>; \<open>rs\<close> are the
  answers it has not read, \<open>fs\<close> the frames sent since \<open>s\<close>, with the one in the sender, and \<open>qs\<close> the addresses
  the sender has not taken.\<close>

definition sender_frame :: "NetAXISDest \<Rightarrow> ArpAddresses \<Rightarrow> ArpPkgSender \<Rightarrow> NetAXISWord list" where
  "sender_frame dest c d = (if as_fsmState d = ARP_SENTREQ_STATE then [arp_request_frame dest c (as_arp_req_ip d)] else [])"

definition scanning ::
  "NetAXISDest \<Rightarrow> ArpAddresses \<Rightarrow> GenScanFsmState \<Rightarrow> nat \<Rightarrow> ArpTableRsp list \<Rightarrow> NetAXISWord list \<Rightarrow> 32 word list \<Rightarrow> ArpServer \<Rightarrow> ArpServer \<Rightarrow> bool"
where
  "scanning dest c st k rs fs qs s t \<longleftrightarrow>
     (gs_fsm_state (sv_scan t) = st \<and> gs_ip_lsb (sv_scan t) = word_of_nat k \<and> \<not> gs_arp_scan (sv_scan t) \<and>
      \<not> gs_arp_scan_1d (sv_scan t) \<and> gs_mac_ip_encode_req_in (sv_scan t) = [] \<and> gs_mac_ip_encode_req_out (sv_scan t) = [] \<and>
      gs_mac_ip_encode_rsp_in (sv_scan t) @ ah_mac_ip_encode_rsp (sv_table t) = rs \<and>
      gs_mac_ip_encode_rsp_out (sv_scan t) = arp_answers s) \<and>
     sv_receiver t = sv_receiver s \<and>
     (as_arp_rsp_in (sv_sender t) = [] \<and> as_arp_request_ip_addr (sv_sender t) = [] \<and> as_fsmState (sv_sender t) \<noteq> ARP_REPLY_STATE \<and>
      arp_frames t @ sender_frame dest c (sv_sender t) = arp_frames s @ fs) \<and>
     (ah_arp_cache_table (sv_table t) = ah_arp_cache_table (sv_table s) \<and> ah_arp_table_insert_in (sv_table t) = [] \<and>
      ah_mac_ip_encode_req (sv_table t) = [] \<and> ah_arp_requested_ip (sv_table t) = qs)"

lemma scan_begins:
  assumes "arp_idle s"
  shows "scanning dest c GEN_IP 0 [] [] [] s ((arp_server bld dest c ^^ 2) (arp_start_scan s))"
  using assms by (simp add: arp_idle_def scanning_def sender_frame_def arp_start_scan_def arp_server_defs numeral_2_eq_2)

lemma scan_begins_with_request:
  assumes "arp_idle s"
  shows "scanning dest c GEN_IP 0 [arp_answer (arp_entry c ip s)]
     (if te_valid (arp_entry c ip s) then [] else [arp_request_frame dest c ip]) [] s
     ((arp_server bld dest c ^^ 2) (arp_ask ip (arp_start_scan s)))"
  using assms by (simp add: arp_idle_def scanning_def sender_frame_def arp_start_scan_def arp_server_defs numeral_2_eq_2)

lemma receiver_idle: "arp_idle s \<Longrightarrow> ArpPkgReceiver ip (sv_receiver s) = sv_receiver s"
  by (simp add: arp_idle_def ArpPkgReceiver_def)

lemma scan_asks:
  assumes "scanning dest c GEN_IP k rs fs [] s t" and "arp_idle s"
  shows "scanning dest c WAIT_RESPONSE (Suc k) (rs @ [arp_answer (arp_entry c (scan_ip c k) s)]) fs
     (if te_valid (arp_entry c (scan_ip c k) s) then [] else [scan_ip c k]) s (arp_server bld dest c t) \<and>
     as_fsmState (sv_sender (arp_server bld dest c t)) = ARP_IDLE_STATE"
  using assms receiver_idle [OF assms(2), of "my_ip_addr c"]
  by (cases "as_fsmState (sv_sender t)")
    (simp_all add: scanning_def sender_frame_def arp_server_def GenArpScan_def ArpPkgSender_def ArpTableHandler_def scan_ip_def
      arp_entry_def arp_answer_def arp_frames_def Let_def arp_idle_def)

lemma scan_answered:
  assumes "scanning dest c WAIT_RESPONSE k (r # rs) fs qs s t" and "arp_idle s" and "as_fsmState (sv_sender t) = ARP_IDLE_STATE"
    and "length qs \<le> 1"
  shows "scanning dest c (if gs_ip_lsb (sv_scan t) = 0 then SCAN_FWD else GEN_IP) k rs (fs @ map (arp_request_frame dest c) qs) [] s (arp_server bld dest c t)"
  using assms receiver_idle [OF assms(2), of "my_ip_addr c"]
  by (cases qs)
    (simp_all add: scanning_def sender_frame_def arp_server_def GenArpScan_def ArpPkgSender_def ArpTableHandler_def
      arp_frames_def Let_def arp_idle_def)

lemma byte_counter_wraps:
  assumes "k < 256"
  shows "(word_of_nat k :: 8 word) + 1 = 0 \<longleftrightarrow> Suc k = 256"
proof -
  have "(word_of_nat k :: 8 word) + 1 = word_of_nat (Suc k)" by (simp add: add.commute)
  also have "\<dots> = 0 \<longleftrightarrow> Suc k = 256"
  proof
    assume "(word_of_nat (Suc k) :: 8 word) = 0"
    then have "unat (word_of_nat (Suc k) :: 8 word) = 0" by simp
    then have "Suc k mod 256 = 0" unfolding unat_of_nat by simp
    then show "Suc k = 256" using assms by presburger
  next
    assume k: "Suc k = 256"
    show "(word_of_nat (Suc k) :: 8 word) = 0" unfolding k by simp
  qed
  finally show ?thesis .
qed

lemma scan_round:
  assumes "scanning dest c GEN_IP k rs fs [] s t" and "arp_idle s" and "k < 256"
  shows "scanning dest c (if Suc k = 256 then SCAN_FWD else GEN_IP) (Suc k) (tl (rs @ [arp_answer (arp_entry c (scan_ip c k) s)]))
     (fs @ (if te_valid (arp_entry c (scan_ip c k) s) then [] else [arp_request_frame dest c (scan_ip c k)])) [] s
     ((arp_server bld dest c ^^ 2) t)"
proof -
  let ?u = "arp_server bld dest c t" and ?a = "arp_answer (arp_entry c (scan_ip c k) s)"
  have u: "scanning dest c WAIT_RESPONSE (Suc k) (rs @ [?a]) fs
      (if te_valid (arp_entry c (scan_ip c k) s) then [] else [scan_ip c k]) s ?u" "as_fsmState (sv_sender ?u) = ARP_IDLE_STATE"
    using scan_asks [OF assms(1,2)] by blast+
  have "gs_ip_lsb (sv_scan ?u) = word_of_nat k + 1" using u(1) by (simp add: scanning_def)
  then have l: "gs_ip_lsb (sv_scan ?u) = 0 \<longleftrightarrow> Suc k = 256" by (simp only: byte_counter_wraps [OF assms(3)])
  obtain r rs' where r: "rs @ [?a] = r # rs'" by (cases rs) auto
  show ?thesis
    using scan_answered [OF u(1) [unfolded r] assms(2) u(2), of bld] unfolding l r
    by (simp add: numeral_2_eq_2 if_distrib [of "map _"] cong: if_cong)
qed
lemma drop_snoc_tl: "k \<le> length ys \<Longrightarrow> drop (Suc k) (ys @ [x]) = tl (drop k ys @ [x])"
proof -
  assume "k \<le> length ys"
  moreover have "drop (Suc k) (ys @ [x]) = tl (drop k (ys @ [x]))" by (simp only: drop_Suc tl_drop)
  ultimately show ?thesis by simp
qed

lemma scan_rounds:
  assumes "scanning dest c GEN_IP 0 rs fs [] s t" and "arp_idle s" and "k \<le> 256"
  shows "scanning dest c (if k = 256 then SCAN_FWD else GEN_IP) k (drop k (rs @ map (\<lambda>i. arp_answer (arp_entry c (scan_ip c i) s)) [0..<k]))
     (fs @ scan_frames dest c s k) [] s ((arp_server bld dest c ^^ (2 * k)) t)"
  using assms(3)
proof (induction k)
  case 0
  then show ?case using assms(1) by (simp add: scan_frames_def)
next
  case (Suc k)
  let ?a = "\<lambda>i. arp_answer (arp_entry c (scan_ip c i) s)"
  let ?xs = "rs @ map ?a [0..<k]"
  have t: "scanning dest c GEN_IP k (drop k ?xs) (fs @ scan_frames dest c s k) [] s ((arp_server bld dest c ^^ (2 * k)) t)"
    using Suc by simp
  have k: "k < 256" using Suc.prems by simp
  have fs: "fs @ scan_frames dest c s (Suc k) = (fs @ scan_frames dest c s k) @
      (if te_valid (arp_entry c (scan_ip c k) s) then [] else [arp_request_frame dest c (scan_ip c k)])"
    by (simp add: scan_frames_def)
  have d: "drop (Suc k) (rs @ map ?a [0..<Suc k]) = tl (drop k ?xs @ [?a k])"
    using drop_snoc_tl [of k ?xs "?a k"] by (simp only: upt_Suc_append map_append list.map append_assoc length_append length_map length_upt)
  have f: "(arp_server bld dest c ^^ (2 * Suc k)) t = (arp_server bld dest c ^^ 2) ((arp_server bld dest c ^^ (2 * k)) t)"
    using funpow_add [of 2 "2 * k" "arp_server bld dest c"] by simp
  show ?case unfolding fs d f by (rule scan_round [OF t assms(2) k])
qed

lemma scan_ends:
  assumes "scanning dest c SCAN_FWD 256 rs fs [] s t" and "arp_idle s" and "length rs \<le> 1"
  shows "let u = arp_server bld dest c t in
    arp_idle u \<and> ah_arp_cache_table (sv_table u) = ah_arp_cache_table (sv_table s) \<and>
    arp_frames u = arp_frames s @ fs \<and> arp_answers u = arp_answers s @ rs"
  using assms receiver_idle [OF assms(2), of "my_ip_addr c"]
  by (cases rs; cases "as_fsmState (sv_sender t)")
    (simp_all add: scanning_def sender_frame_def arp_server_def GenArpScan_def scan_forward_def ArpPkgSender_def ArpTableHandler_def
      arp_frames_def arp_answers_def Let_def arp_idle_def)

lemma scan_finishes:
  assumes "scanning dest c GEN_IP 0 rs fs [] s ((arp_server bld dest c ^^ 2) t)" and "arp_idle s" and "length rs \<le> 1"
  shows "let u = (arp_server bld dest c ^^ 515) t in
    arp_idle u \<and> ah_arp_cache_table (sv_table u) = ah_arp_cache_table (sv_table s) \<and>
    arp_frames u = arp_frames s @ fs @ scan_frames dest c s 256 \<and>
    arp_answers u = arp_answers s @ (if rs = [] then [] else [arp_answer (arp_entry c (scan_ip c 255) s)])"
proof -
  let ?as = "map (\<lambda>i. arp_answer (arp_entry c (scan_ip c i) s)) [0..<256]"
  have d: "drop 256 (rs @ ?as) = (if rs = [] then [] else [arp_answer (arp_entry c (scan_ip c 255) s)])"
    using assms(3) by (cases rs) (simp_all add: drop_map)
  have f: "(arp_server bld dest c ^^ 515) t = arp_server bld dest c ((arp_server bld dest c ^^ (2 * 256)) ((arp_server bld dest c ^^ 2) t))"
    using funpow_add [of 1 "2 * 256 + 2" "arp_server bld dest c"] funpow_add [of "2 * 256" 2 "arp_server bld dest c"] by simp
  show ?thesis
    using scan_rounds [OF assms(1,2), of 256 bld] unfolding f d by (intro scan_ends) (simp_all add: assms(2))
qed

text \<open>C35: a scan ends and asks for every address.  When the host sets \<open>arp_scan\<close> on an idle server to which no frame and no
  request arrives, then 515 cycles later the server is idle again with the same table, it has answered nobody, and it
  has sent, in increasing order of the last byte, one request for each of the 256 addresses of its network whose entry is
  not valid.\<close>

theorem scan_asks_every_address:
  assumes "arp_idle s"
  shows "let t = (arp_server bld dest c ^^ 515) (arp_start_scan s) in
    arp_idle t \<and> ah_arp_cache_table (sv_table t) = ah_arp_cache_table (sv_table s) \<and> arp_answers t = arp_answers s \<and>
    arp_sent s t = map (\<lambda>i. arp_request_frame dest c (scan_ip c i)) (filter (\<lambda>i. \<not> te_valid (arp_entry c (scan_ip c i) s)) [0..<256])"
  using scan_finishes [where bld = bld and c = c, OF scan_begins [OF assms] assms] by (simp add: Let_def arp_sent_def scan_frames_def)

theorem scan_asks_every_address_witness:
  "let s = arp_server_init empty_table; c = demo_net 0xA 0x0A01A8C0; t = (arp_server Synthesis 0 c ^^ 515) (arp_start_scan s) in
     arp_idle t \<and> arp_sent s t = map (\<lambda>i. arp_request_frame 0 c (scan_ip c i)) [0..<256]"
  using scan_asks_every_address [where bld = Synthesis and dest = 0 and c = "demo_net 0xA 0x0A01A8C0", OF arp_idle_init [of empty_table]]
  by (simp only: Let_def arp_entry_init) (simp add: empty_table_def)

text \<open>the states of the scan read whatever answer comes first, and \<open>FWD\<close> starts a scan in the cycle in which it
  forwards a request.  When the host sets \<open>arp_scan\<close> on an idle server in the cycle in which a request for \<open>ip\<close> arrives, the
  answer to \<open>ip\<close> is discarded, each address of the scan takes its predecessor's answer, and after the scan the application
  is given the entry of the last address of the scan, the one that ends in 255, for \<open>ip\<close>.\<close>

theorem scan_swaps_answers:
  assumes "arp_idle s"
  shows "let t = (arp_server bld dest c ^^ 515) (arp_ask ip (arp_start_scan s)) in
    arp_idle t \<and> arp_answers t = arp_answers s @ [arp_answer (arp_entry c (scan_ip c 255) s)]"
  using scan_finishes [where bld = bld and c = c, OF scan_begins_with_request [OF assms, where ip = ip] assms] by (simp add: Let_def)

text \<open>A server that knows \<open>ip\<close> and not the address that ends in 255 answers the request for \<open>ip\<close> with a miss.\<close>

theorem scan_swaps_answers_witness:
  "let e = \<lparr>te_mac_addr = 0xB, te_ip_addr = 0x0B01A8C0, te_valid = True\<rparr>;
       s = arp_server_init (empty_table(0x0B := e)); c = demo_net 0xA 0x0A01A8C0;
       t = (arp_server Synthesis 0 c ^^ 515) (arp_ask 0x0B01A8C0 (arp_start_scan s)) in
     arp_entry c 0x0B01A8C0 s = e \<and> arp_answers t = [\<lparr>at_mac_addr = 0, at_hit = False\<rparr>]"
proof -
  let ?c = "demo_net 0xA 0x0A01A8C0"
  have "scan_ip ?c 255 = 0xFF01A8C0"
    by (simp add: scan_ip_def scan_address_def demo_net_def get_range_def put_range_def mask_eq_exp_minus_1)
  then have "arp_next_hop ?c (scan_ip ?c 255) = 0xFF01A8C0"
    by (simp add: arp_next_hop_def demo_net_def)
  then show ?thesis
    using scan_swaps_answers [where bld = Synthesis and dest = 0 and c = ?c and ip = "0x0B01A8C0", OF arp_idle_init [of "empty_table(0x0B := \<lparr>te_mac_addr = 0xB, te_ip_addr = 0x0B01A8C0, te_valid = True\<rparr>)"]]
    by (simp add: arp_entry_init Let_def arp_answer_def demo_next_hop)
      (simp add: get_range_def empty_table_def arp_answers_def arp_server_init_def)
qed

end
