(* ===== verification/Echo_Server.thy ===== *)
theory Echo_Server
  imports App_Types Prelude
begin

text \<open>
  \<open>net_app/echo_server/echo_server.cpp\<close>, an application behind the engine: it listens on one port and sends
  everything it receives back to the session it came from.  Four processes: \<open>OpenPortHandler\<close>,
  \<open>EchoServerReceiveData\<close>, \<open>EchoServerTransmitData\<close> and \<open>EchoServerDummy\<close>, composed in \<open>echo_server\<close>.  Counters
  that nothing reads (\<open>noty_num\<close>, \<open>response_counter\<close>) are left out.  \<open>tdest\<close> is the port \<open>tdest_const\<close>.
\<close>

section \<open>\<open>OpenPortHandler\<close>\<close>

datatype EchoOpenPortState = OPEN_PORT | OPEN_WAIT_RESPONSE | OPEN_IDLE

record EchoOpenPort =
  eo_fsm_state :: EchoOpenPortState
  eo_net_app_listen_port_req :: "ListenPortReq stream"
  eo_net_app_listen_port_rsp :: "ListenPortRsp stream"

definition echo_listen_port :: "16 word" where "echo_listen_port = 12333"

definition EchoOpenPortHandler :: "NetAXISDest \<Rightarrow> EchoOpenPort \<Rightarrow> EchoOpenPort" where
  "EchoOpenPortHandler tdest s =
     (case eo_fsm_state s of
        OPEN_PORT \<Rightarrow>
          s\<lparr>eo_net_app_listen_port_req := eo_net_app_listen_port_req s @ [\<lparr>lq_data = echo_listen_port, lq_dest = tdest\<rparr>],
            eo_fsm_state := OPEN_WAIT_RESPONSE\<rparr>
      | OPEN_WAIT_RESPONSE \<Rightarrow>
          (case eo_net_app_listen_port_rsp s of
             [] \<Rightarrow> s
           | net_listen_rsp # rsps \<Rightarrow>
               s\<lparr>eo_net_app_listen_port_rsp := rsps,
                 eo_fsm_state :=
                   (if lr_port_number (lr_data net_listen_rsp) = echo_listen_port then
                      if lr_open_successfully (lr_data net_listen_rsp) then OPEN_IDLE else OPEN_PORT
                    else eo_fsm_state s)\<rparr>)
      | OPEN_IDLE \<Rightarrow> s)"

section \<open>\<open>EchoServerReceiveData\<close>\<close>

record EchoServerMeta =
  em_session_id :: TcpSessionID
  em_length :: "16 word"

datatype EchoServerRxFsmState = GET_DATA_NOTY | WAIT_SESSION_ID | RX_FORWARD_DATA

record EchoRx =
  ex_fsm_state :: EchoServerRxFsmState
  ex_app_notification :: AppNotification
  ex_net_app_new_client_notification :: "NewClientNotification stream"
  ex_net_app_notification :: "AppNotification stream"
  ex_net_app_recv_data_req :: "AppReadReq stream"
  ex_net_app_recv_data_rsp :: "AppReadRsp stream"
  ex_net_app_recv_data :: "NetAXISWord stream"
  ex_net_app_rx_data_out :: "NetAXISWord stream"
  ex_echo_server_meta :: "EchoServerMeta stream"

definition has_data :: "AppNotification \<Rightarrow> bool" where
  "has_data n \<longleftrightarrow> an_length (ap_notify n) \<noteq> 0"

definition echo_read_req :: "NetAXISDest \<Rightarrow> AppNotification \<Rightarrow> AppReadReq" where
  "echo_read_req tdest n =
     \<lparr>ar_data = \<lparr>aq_session_id = an_session_id (ap_notify n), aq_read_length = an_length (ap_notify n)\<rparr>, ar_dest = tdest\<rparr>"

definition echo_meta :: "AppNotification \<Rightarrow> EchoServerMeta" where
  "echo_meta n = \<lparr>em_session_id = an_session_id (ap_notify n), em_length = an_length (ap_notify n)\<rparr>"

definition echo_rx_fsm :: "NetAXISDest \<Rightarrow> EchoRx \<Rightarrow> EchoRx" where
  "echo_rx_fsm tdest s =
     (case ex_fsm_state s of
        GET_DATA_NOTY \<Rightarrow>
          (case ex_net_app_notification s of
             [] \<Rightarrow> s
           | n # ns \<Rightarrow>
               (let s = s\<lparr>ex_net_app_notification := ns, ex_app_notification := n\<rparr> in
                if has_data n then
                  s\<lparr>ex_net_app_recv_data_req := ex_net_app_recv_data_req s @ [echo_read_req tdest n],
                    ex_fsm_state := WAIT_SESSION_ID\<rparr>
                else s))
      | WAIT_SESSION_ID \<Rightarrow>
          (case ex_net_app_recv_data_rsp s of
             [] \<Rightarrow> s
           | _ # rsps \<Rightarrow>
               s\<lparr>ex_net_app_recv_data_rsp := rsps,
                 ex_echo_server_meta := ex_echo_server_meta s @ [echo_meta (ex_app_notification s)],
                 ex_fsm_state := RX_FORWARD_DATA\<rparr>)
      | RX_FORWARD_DATA \<Rightarrow>
          (case ex_net_app_recv_data s of
             [] \<Rightarrow> s
           | cur_word # ws \<Rightarrow>
               s\<lparr>ex_net_app_recv_data := ws, ex_net_app_rx_data_out := ex_net_app_rx_data_out s @ [cur_word],
                 ex_fsm_state := (if nw_last cur_word then GET_DATA_NOTY else ex_fsm_state s)\<rparr>))"

definition EchoServerReceiveData :: "NetAXISDest \<Rightarrow> EchoRx \<Rightarrow> EchoRx" where
  "EchoServerReceiveData tdest s =
     echo_rx_fsm tdest (s\<lparr>ex_net_app_new_client_notification := tl (ex_net_app_new_client_notification s)\<rparr>)"

section \<open>\<open>EchoServerTransmitData\<close>\<close>

datatype EchoServerTxFsmState = READ_META | TX_WAIT_RESPONSE | TX_FORWARD_DATA | WAIT_CYCLES

record EchoTx =
  ey_fsm_state :: EchoServerTxFsmState
  ey_cycle_counter :: "8 word"
  ey_meta_data :: EchoServerMeta
  ey_echo_server_meta :: "EchoServerMeta stream"
  ey_net_app_trans_data_req :: "AppTransDataReq stream"
  ey_net_app_trans_data_rsp :: "AppTransDataRsp stream"
  ey_net_app_tx_data_in :: "NetAXISWord stream"
  ey_net_app_trans_data :: "NetAXISWord stream"

definition echo_trans_req :: "NetAXISDest \<Rightarrow> EchoServerMeta \<Rightarrow> AppTransDataReq" where
  "echo_trans_req tdest m = \<lparr>tq_data = ucast (em_length m), tq_id = em_session_id m, tq_dest = tdest\<rparr>"

definition EchoServerTransmitData :: "NetAXISDest \<Rightarrow> EchoTx \<Rightarrow> EchoTx" where
  "EchoServerTransmitData tdest s =
     (case ey_fsm_state s of
        READ_META \<Rightarrow>
          (case ey_echo_server_meta s of
             [] \<Rightarrow> s
           | m # ms \<Rightarrow>
               s\<lparr>ey_echo_server_meta := ms, ey_meta_data := m,
                 ey_net_app_trans_data_req := ey_net_app_trans_data_req s @ [echo_trans_req tdest m],
                 ey_fsm_state := TX_WAIT_RESPONSE\<rparr>)
      | TX_WAIT_RESPONSE \<Rightarrow>
          (case ey_net_app_trans_data_rsp s of
             [] \<Rightarrow> s
           | rsp # rsps \<Rightarrow>
               if tp_error (tr_data rsp) \<noteq> NO_ERROR then
                 s\<lparr>ey_net_app_trans_data_rsp := rsps, ey_cycle_counter := 0, ey_fsm_state := WAIT_CYCLES\<rparr>
               else s\<lparr>ey_net_app_trans_data_rsp := rsps, ey_fsm_state := TX_FORWARD_DATA\<rparr>)
      | TX_FORWARD_DATA \<Rightarrow>
          (case ey_net_app_tx_data_in s of
             [] \<Rightarrow> s
           | cur_word # ws \<Rightarrow>
               s\<lparr>ey_net_app_tx_data_in := ws,
                 ey_net_app_trans_data := ey_net_app_trans_data s @ [cur_word\<lparr>nw_dest := tdest\<rparr>],
                 ey_fsm_state := (if nw_last cur_word then READ_META else ey_fsm_state s)\<rparr>)
      | WAIT_CYCLES \<Rightarrow>
          (let s = s\<lparr>ey_cycle_counter := ey_cycle_counter s + 1\<rparr> in
           if ey_cycle_counter s = 100 then
             s\<lparr>ey_net_app_trans_data_req := ey_net_app_trans_data_req s @ [echo_trans_req tdest (ey_meta_data s)],
               ey_fsm_state := TX_WAIT_RESPONSE\<rparr>
           else s))"

section \<open>\<open>EchoServerDummy\<close> and the server\<close>

record EchoDummy =
  ed_net_app_open_conn_req :: "AppOpenConnReq stream"
  ed_net_app_open_conn_rsp :: "AppOpenConnRsp stream"
  ed_net_app_close_conn_req :: "AppCloseConnReq stream"

text \<open>\<open>u\<close> is the address of the request that the source leaves unset.\<close>

definition EchoServerDummy :: "IpAddr \<Rightarrow> NetAXISDest \<Rightarrow> EchoDummy \<Rightarrow> EchoDummy" where
  "EchoServerDummy u tdest s =
     (case ed_net_app_open_conn_rsp s of
        [] \<Rightarrow> s
      | rsp # rsps \<Rightarrow>
          s\<lparr>ed_net_app_open_conn_rsp := rsps,
            ed_net_app_open_conn_req := ed_net_app_open_conn_req s @
              [\<lparr>oq_data = \<lparr>ot_my_ip_addr = u, ot_ip_addr = 0xC0A80008, ot_tcp_port = 13330\<rparr>, oq_dest = tdest\<rparr>],
            ed_net_app_close_conn_req :=
              (if oc_success (or_data rsp)
               then ed_net_app_close_conn_req s @ [\<lparr>ac_data = oc_session_id (or_data rsp), ac_dest = tdest\<rparr>]
               else ed_net_app_close_conn_req s)\<rparr>)"

record EchoServer =
  es_open :: EchoOpenPort
  es_rx :: EchoRx
  es_tx :: EchoTx
  es_dummy :: EchoDummy

definition echo_server :: "IpAddr \<Rightarrow> NetAXISDest \<Rightarrow> EchoServer \<Rightarrow> EchoServer" where
  "echo_server u tdest s =
     (let rx = EchoServerReceiveData tdest (es_rx s);
          tx = es_tx s;
          tx = tx\<lparr>ey_echo_server_meta := ey_echo_server_meta tx @ ex_echo_server_meta rx,
             ey_net_app_tx_data_in := ey_net_app_tx_data_in tx @ ex_net_app_rx_data_out rx\<rparr> in
      \<lparr>es_open = EchoOpenPortHandler tdest (es_open s),
       es_rx = rx\<lparr>ex_echo_server_meta := [], ex_net_app_rx_data_out := []\<rparr>,
       es_tx = EchoServerTransmitData tdest tx,
       es_dummy = EchoServerDummy u tdest (es_dummy s)\<rparr>)"

definition echo_server_init :: EchoServer where
  "echo_server_init =
     \<lparr>es_open = \<lparr>eo_fsm_state = OPEN_PORT, eo_net_app_listen_port_req = [], eo_net_app_listen_port_rsp = []\<rparr>,
      es_rx = \<lparr>ex_fsm_state = GET_DATA_NOTY,
        ex_app_notification = \<lparr>ap_notify = AppNotification_closed 0 False, ap_notify_dest = 0\<rparr>,
        ex_net_app_new_client_notification = [], ex_net_app_notification = [], ex_net_app_recv_data_req = [],
        ex_net_app_recv_data_rsp = [], ex_net_app_recv_data = [], ex_net_app_rx_data_out = [], ex_echo_server_meta = []\<rparr>,
      es_tx = \<lparr>ey_fsm_state = READ_META, ey_cycle_counter = 0, ey_meta_data = \<lparr>em_session_id = 0, em_length = 0\<rparr>,
        ey_echo_server_meta = [], ey_net_app_trans_data_req = [], ey_net_app_trans_data_rsp = [],
        ey_net_app_tx_data_in = [], ey_net_app_trans_data = []\<rparr>,
      es_dummy = \<lparr>ed_net_app_open_conn_req = [], ed_net_app_open_conn_rsp = [], ed_net_app_close_conn_req = []\<rparr>\<rparr>"

section \<open>Runs\<close>

text \<open>\<open>echo_run\<close> are the states of a run in which the engine has sent the notifications \<open>ns\<close> and the words \<open>ws\<close>.
  Everything else the engine sends, its answers above all, may come at any time.  The streams of the server to
  the engine are kept as the record of what it has sent.\<close>

definition echo_private :: "EchoServer \<Rightarrow> EchoServer" where
  "echo_private s =
     s\<lparr>es_open := (es_open s)\<lparr>eo_net_app_listen_port_rsp := []\<rparr>,
       es_rx := (es_rx s)\<lparr>ex_net_app_new_client_notification := [], ex_net_app_recv_data_rsp := []\<rparr>,
       es_tx := (es_tx s)\<lparr>ey_net_app_trans_data_rsp := []\<rparr>,
       es_dummy := (es_dummy s)\<lparr>ed_net_app_open_conn_rsp := []\<rparr>\<rparr>"

inductive echo_run :: "IpAddr \<Rightarrow> NetAXISDest \<Rightarrow> AppNotification list \<Rightarrow> NetAXISWord list \<Rightarrow> EchoServer \<Rightarrow> bool" for u tdest where
  echo_start: "echo_run u tdest [] [] echo_server_init"
| echo_notified: "echo_run u tdest ns ws s \<Longrightarrow> echo_run u tdest (ns @ [n]) ws
    (s\<lparr>es_rx := (es_rx s)\<lparr>ex_net_app_notification := ex_net_app_notification (es_rx s) @ [n]\<rparr>\<rparr>)"
| echo_given: "echo_run u tdest ns ws s \<Longrightarrow> echo_run u tdest ns (ws @ [w])
    (s\<lparr>es_rx := (es_rx s)\<lparr>ex_net_app_recv_data := ex_net_app_recv_data (es_rx s) @ [w]\<rparr>\<rparr>)"
| echo_answered: "echo_run u tdest ns ws s \<Longrightarrow> echo_private t = echo_private s \<Longrightarrow> echo_run u tdest ns ws t"
| echo_cycle: "echo_run u tdest ns ws s \<Longrightarrow> echo_run u tdest ns ws (echo_server u tdest s)"

text \<open>Requests for the data of \<open>ms\<close>, one after the other, each repeated as often as it is refused.\<close>

inductive echo_asked :: "NetAXISDest \<Rightarrow> EchoServerMeta list \<Rightarrow> AppTransDataReq list \<Rightarrow> bool" for tdest where
  asked_none: "echo_asked tdest [] []"
| asked_first: "echo_asked tdest ms qs \<Longrightarrow> echo_asked tdest (ms @ [m]) (qs @ [echo_trans_req tdest m])"
| asked_again: "echo_asked tdest (ms @ [m]) qs \<Longrightarrow> echo_asked tdest (ms @ [m]) (qs @ [echo_trans_req tdest m])"

section \<open>The server echoes\<close>

definition echo_word :: "NetAXISDest \<Rightarrow> NetAXISWord \<Rightarrow> NetAXISWord" where
  "echo_word tdest w = w\<lparr>nw_dest := tdest\<rparr>"

text \<open>The data of \<open>asked\<close> has been asked for, that of \<open>todo\<close> has not.\<close>

definition echo_inv ::
  "NetAXISDest \<Rightarrow> AppNotification list \<Rightarrow> NetAXISWord list \<Rightarrow> EchoServerMeta list \<Rightarrow> EchoServerMeta list \<Rightarrow> EchoServer \<Rightarrow> bool" where
  "echo_inv tdest ns ws asked todo s \<longleftrightarrow>
     (let rx = es_rx s; tx = es_tx s in
      ex_echo_server_meta rx = [] \<and> ex_net_app_rx_data_out rx = [] \<and>
      ey_net_app_trans_data tx @ map (echo_word tdest) (ey_net_app_tx_data_in tx @ ex_net_app_recv_data rx) =
        map (echo_word tdest) ws \<and>
      ex_net_app_recv_data_req rx @ map (echo_read_req tdest) (filter has_data (ex_net_app_notification rx)) =
        map (echo_read_req tdest) (filter has_data ns) \<and>
      map echo_meta (filter has_data ns) = asked @ todo \<and>
      todo = ey_echo_server_meta tx @ (if ex_fsm_state rx = WAIT_SESSION_ID then [echo_meta (ex_app_notification rx)] else []) @
        map echo_meta (filter has_data (ex_net_app_notification rx)) \<and>
      echo_asked tdest asked (ey_net_app_trans_data_req tx) \<and>
      (if ey_fsm_state tx = READ_META then length asked = length (filter nw_last (ey_net_app_trans_data tx))
       else asked \<noteq> [] \<and> ey_meta_data tx = last asked \<and> length asked = Suc (length (filter nw_last (ey_net_app_trans_data tx)))))"

lemma echo_inv_rx:
  assumes "echo_inv tdest ns ws asked todo s"
  shows "let rx = EchoServerReceiveData tdest (es_rx s); tx = es_tx s in
    echo_inv tdest ns ws asked todo
      (s\<lparr>es_rx := rx\<lparr>ex_echo_server_meta := [], ex_net_app_rx_data_out := []\<rparr>,
         es_tx := tx\<lparr>ey_echo_server_meta := ey_echo_server_meta tx @ ex_echo_server_meta rx,
           ey_net_app_tx_data_in := ey_net_app_tx_data_in tx @ ex_net_app_rx_data_out rx\<rparr>\<rparr>)"
proof (cases "ex_fsm_state (es_rx s)")
  case GET_DATA_NOTY
  then show ?thesis using assms
    by (cases "ex_net_app_notification (es_rx s)") (auto simp: echo_inv_def EchoServerReceiveData_def echo_rx_fsm_def Let_def)
next
  case WAIT_SESSION_ID
  then show ?thesis using assms
    by (cases "ex_net_app_recv_data_rsp (es_rx s)") (auto simp: echo_inv_def EchoServerReceiveData_def echo_rx_fsm_def Let_def)
next
  case RX_FORWARD_DATA
  then show ?thesis using assms
    by (cases "ex_net_app_recv_data (es_rx s)") (auto simp: echo_inv_def EchoServerReceiveData_def echo_rx_fsm_def Let_def)
qed

lemma echo_asked_again: "echo_asked tdest ms qs \<Longrightarrow> ms \<noteq> [] \<Longrightarrow> echo_asked tdest ms (qs @ [echo_trans_req tdest (last ms)])"
  using asked_again [of tdest "butlast ms" "last ms" qs] by simp

lemma echo_inv_tx:
  assumes "echo_inv tdest ns ws asked todo s"
  shows "\<exists>asked todo. echo_inv tdest ns ws asked todo (s\<lparr>es_tx := EchoServerTransmitData tdest (es_tx s)\<rparr>)"
proof (cases "ey_fsm_state (es_tx s)")
  case READ_META
  show ?thesis
  proof (cases "ey_echo_server_meta (es_tx s)")
    case Nil
    then have "EchoServerTransmitData tdest (es_tx s) = es_tx s" using READ_META by (simp add: EchoServerTransmitData_def)
    then show ?thesis using assms by auto
  next
    case (Cons m ms)
    then show ?thesis using assms READ_META
      by (intro exI [of _ "asked @ [m]"] exI [of _ "tl todo"])
        (auto simp: echo_inv_def EchoServerTransmitData_def Let_def intro: asked_first)
  qed
next
  case TX_WAIT_RESPONSE
  then show ?thesis using assms
    by (intro exI [of _ asked] exI [of _ todo], cases "ey_net_app_trans_data_rsp (es_tx s)")
      (auto simp: echo_inv_def EchoServerTransmitData_def Let_def)
next
  case TX_FORWARD_DATA
  then show ?thesis using assms
    by (intro exI [of _ asked] exI [of _ todo], cases "ey_net_app_tx_data_in (es_tx s)")
      (auto simp: echo_inv_def EchoServerTransmitData_def echo_word_def Let_def)
next
  case WAIT_CYCLES
  then show ?thesis using assms
    by (intro exI [of _ asked] exI [of _ todo])
      (auto simp: echo_inv_def EchoServerTransmitData_def Let_def intro: echo_asked_again)
qed
lemma echo_inv_other:
  assumes "echo_inv tdest ns ws asked todo s" "es_rx t = es_rx s" "es_tx t = es_tx s"
  shows "echo_inv tdest ns ws asked todo t"
  using assms by (simp add: echo_inv_def)

lemma echo_inv_cycle:
  assumes "echo_inv tdest ns ws asked todo s"
  shows "\<exists>asked todo. echo_inv tdest ns ws asked todo (echo_server u tdest s)"
proof -
  let ?rx = "EchoServerReceiveData tdest (es_rx s)" and ?tx = "es_tx s"
  let ?s = "s\<lparr>es_rx := ?rx\<lparr>ex_echo_server_meta := [], ex_net_app_rx_data_out := []\<rparr>,
         es_tx := ?tx\<lparr>ey_echo_server_meta := ey_echo_server_meta ?tx @ ex_echo_server_meta ?rx,
           ey_net_app_tx_data_in := ey_net_app_tx_data_in ?tx @ ex_net_app_rx_data_out ?rx\<rparr>\<rparr>"
  have "echo_inv tdest ns ws asked todo ?s" using echo_inv_rx [OF assms] by (simp add: Let_def)
  from echo_inv_tx [OF this] obtain asked' todo' where
    i: "echo_inv tdest ns ws asked' todo' (?s\<lparr>es_tx := EchoServerTransmitData tdest (es_tx ?s)\<rparr>)" by blast
  have "echo_inv tdest ns ws asked' todo' (echo_server u tdest s)"
    by (rule echo_inv_other [OF i]) (simp_all add: echo_server_def Let_def)
  then show ?thesis by blast
qed

lemma echo_inv_private: "echo_inv tdest ns ws asked todo (echo_private s) = echo_inv tdest ns ws asked todo s"
  by (simp add: echo_inv_def echo_private_def Let_def)

lemma echo_run_inv: "echo_run u tdest ns ws s \<Longrightarrow> \<exists>asked todo. echo_inv tdest ns ws asked todo s"
proof (induction rule: echo_run.induct)
  case echo_start
  show ?case
    by (intro exI [of _ "[]"]) (simp add: echo_inv_def echo_server_init_def Let_def asked_none)
next
  case (echo_notified ns ws s n)
  then obtain asked todo where i: "echo_inv tdest ns ws asked todo s" by blast
  have "echo_inv tdest (ns @ [n]) ws asked (todo @ map echo_meta (filter has_data [n]))
      (s\<lparr>es_rx := (es_rx s)\<lparr>ex_net_app_notification := ex_net_app_notification (es_rx s) @ [n]\<rparr>\<rparr>)"
    using i by (auto simp: echo_inv_def Let_def)
  then show ?case by blast
next
  case (echo_given ns ws s w)
  then obtain asked todo where i: "echo_inv tdest ns ws asked todo s" by blast
  have "echo_inv tdest ns (ws @ [w]) asked todo
      (s\<lparr>es_rx := (es_rx s)\<lparr>ex_net_app_recv_data := ex_net_app_recv_data (es_rx s) @ [w]\<rparr>\<rparr>)"
    using i by (simp add: echo_inv_def Let_def)
  then show ?case by blast
next
  case (echo_answered ns ws s t)
  then show ?case by (metis echo_inv_private)
next
  case (echo_cycle ns ws s)
  then show ?case using echo_inv_cycle by blast
qed

text \<open>C17: The echo server returns what it gets, in order, to where it came from.  In every run, with notifications, data and
  answers of the engine coming in any order and at any time: the words sent are a prefix of the words received,
  unchanged but for the role; the data asked for is that of the notifications which announce any, in order;
  and the requests to send name the same sessions and lengths in the same order, each repeated until it is
  granted, with as many complete messages sent as requests made, or one less.\<close>

theorem echo_server_returns_data:
  assumes "echo_run u tdest ns ws s"
  shows "let sent = ey_net_app_trans_data (es_tx s) in
     \<exists>asked todo. sent = map (echo_word tdest) (take (length sent) ws) \<and>
       (\<exists>k. ex_net_app_recv_data_req (es_rx s) = map (echo_read_req tdest) (take k (filter has_data ns))) \<and>
       map echo_meta (filter has_data ns) = asked @ todo \<and> echo_asked tdest asked (ey_net_app_trans_data_req (es_tx s)) \<and>
       length (filter nw_last sent) \<le> length asked \<and> length asked \<le> Suc (length (filter nw_last sent))"
proof -
  have prefix: "xs = map f (take (length xs) ys)" if "xs @ zs = map f ys" for xs zs and f :: "'a \<Rightarrow> 'b" and ys
  proof -
    have "xs = take (length xs) (map f ys)" by (metis append_eq_conv_conj that)
    then show ?thesis by (simp add: take_map)
  qed
  obtain asked todo where i: "echo_inv tdest ns ws asked todo s" using echo_run_inv [OF assms] by blast
  note d = i [unfolded echo_inv_def Let_def]
  show ?thesis unfolding Let_def
    by (rule exI [of _ asked], rule exI [of _ todo], intro conjI exI [of _ "length (ex_net_app_recv_data_req (es_rx s))"])
      (use d in \<open>auto intro: prefix split: if_splits\<close>)
qed

section \<open>And it does so\<close>

text \<open>A message is answered when the engine grants a request at last, however often it refuses.  The measure counts
  two cycles for a word, 101 for every answer to a send request, be it a refusal or the grant, and one for the request.\<close>

definition echo_todo :: "EchoServer \<Rightarrow> nat" where
  "echo_todo s =
     (let rx = es_rx s; tx = es_tx s in
      2 * length (ex_net_app_recv_data rx) + length (ey_net_app_tx_data_in tx) +
      (case ey_fsm_state tx of
         READ_META \<Rightarrow> 0
       | TX_WAIT_RESPONSE \<Rightarrow> 1 + 101 * length (ey_net_app_trans_data_rsp tx)
       | TX_FORWARD_DATA \<Rightarrow> 0
       | WAIT_CYCLES \<Rightarrow> 101 - unat (ey_cycle_counter tx) + 101 * length (ey_net_app_trans_data_rsp tx)))"

definition refused :: "AppTransDataRsp \<Rightarrow> bool" where
  "refused rsp \<longleftrightarrow> tp_error (tr_data rsp) \<noteq> NO_ERROR"

text \<open>Between the request and the end of the message: \<open>left\<close> is still to be sent, the last message for now.\<close>

definition one_message :: "NetAXISWord list \<Rightarrow> bool" where
  "one_message ws \<longleftrightarrow> ws \<noteq> [] \<and> nw_last (last ws) \<and> (\<forall>w \<in> set (butlast ws). \<not> nw_last w)"

lemma one_message_Cons: "one_message (w # ws) = (if ws = [] then nw_last w else \<not> nw_last w \<and> one_message ws)"
  by (auto simp: one_message_def)

definition granted_at_last :: "AppTransDataRsp list \<Rightarrow> bool" where
  "granted_at_last rsps \<longleftrightarrow> (\<exists>errs ok. rsps = errs @ [ok] \<and> list_all refused errs \<and> \<not> refused ok)"

lemma granted_Cons: "granted_at_last (r # rs) = (if refused r then granted_at_last rs else rs = [])"
  by (cases rs rule: rev_cases) (auto simp: granted_at_last_def Cons_eq_append_conv)

lemma granted_Nil [simp]: "\<not> granted_at_last []"
  by (simp add: granted_at_last_def)

definition echo_busy :: "NetAXISDest \<Rightarrow> NetAXISWord list \<Rightarrow> EchoServer \<Rightarrow> bool" where
  "echo_busy tdest out s \<longleftrightarrow>
     (let rx = es_rx s; tx = es_tx s; left = ey_net_app_tx_data_in tx @ ex_net_app_recv_data rx in
      ex_echo_server_meta rx = [] \<and> ex_net_app_rx_data_out rx = [] \<and> ey_echo_server_meta tx = [] \<and> ex_net_app_notification rx = [] \<and>
      ex_fsm_state rx = (if ex_net_app_recv_data rx = [] then GET_DATA_NOTY else RX_FORWARD_DATA) \<and>
      (if left = [] then ey_fsm_state tx = READ_META
       else one_message left \<and>
         (ey_fsm_state tx = TX_FORWARD_DATA \<or>
          (ey_fsm_state tx = TX_WAIT_RESPONSE \<or> ey_fsm_state tx = WAIT_CYCLES \<and> ey_cycle_counter tx < 100) \<and>
          granted_at_last (ey_net_app_trans_data_rsp tx))) \<and>
      ey_net_app_trans_data tx @ map (echo_word tdest) left = out)"

lemma one_message_end: "one_message (xs @ w # ws) \<Longrightarrow> nw_last w = (ws = [])"
  by (induction xs) (auto simp: one_message_Cons split: if_splits)

lemma echo_busy_rx:
  assumes "echo_busy tdest out s"
  shows "let rx = EchoServerReceiveData tdest (es_rx s); tx = es_tx s;
      t = s\<lparr>es_rx := rx\<lparr>ex_echo_server_meta := [], ex_net_app_rx_data_out := []\<rparr>,
         es_tx := tx\<lparr>ey_echo_server_meta := ey_echo_server_meta tx @ ex_echo_server_meta rx,
           ey_net_app_tx_data_in := ey_net_app_tx_data_in tx @ ex_net_app_rx_data_out rx\<rparr>\<rparr> in
    echo_busy tdest out t \<and> echo_todo t \<le> echo_todo s \<and>
      (ey_net_app_tx_data_in (es_tx t) = [] \<longrightarrow> ex_net_app_recv_data (es_rx t) = [])"
  using assms one_message_end [of "ey_net_app_tx_data_in (es_tx s)" "hd (ex_net_app_recv_data (es_rx s))" "tl (ex_net_app_recv_data (es_rx s))"]
  by (cases "ex_net_app_recv_data (es_rx s)")
    (auto simp: echo_busy_def EchoServerReceiveData_def echo_rx_fsm_def echo_todo_def Let_def split: EchoServerTxFsmState.split)

lemma counter_below_100:
  assumes "(c :: 8 word) < 100"
  shows "unat (c + 1) = Suc (unat c)" and "c + 1 = 100 \<or> c + 1 < 100" and "unat c < 100"
proof -
  show c: "unat c < 100" using assms by (simp add: word_less_nat_alt)
  then show s: "unat (c + 1) = Suc (unat c)" by (simp add: unat_word_ariths)
  have "unat (c + 1) = 100 \<or> unat (c + 1) < 100" using c s by linarith
  then show "c + 1 = 100 \<or> c + 1 < 100" by (simp add: word_less_nat_alt word_unat_eq_iff)
qed

lemma echo_busy_tx:
  assumes "echo_busy tdest out s" and "ey_net_app_tx_data_in (es_tx s) = [] \<longrightarrow> ex_net_app_recv_data (es_rx s) = []"
  shows "let t = s\<lparr>es_tx := EchoServerTransmitData tdest (es_tx s)\<rparr> in
    echo_busy tdest out t \<and> echo_todo t \<le> echo_todo s - 1"
proof (cases "ey_net_app_tx_data_in (es_tx s)")
  case Nil
  then show ?thesis using assms by (simp add: echo_busy_def EchoServerTransmitData_def echo_todo_def Let_def)
next
  case (Cons w ws)
  note d = echo_busy_def EchoServerTransmitData_def echo_todo_def Let_def
  show ?thesis
  proof (cases "ey_fsm_state (es_tx s)")
    case READ_META
    then show ?thesis using assms Cons by (auto simp: echo_busy_def Let_def)
  next
    case TX_WAIT_RESPONSE
    then show ?thesis using assms Cons
      by (cases "ey_net_app_trans_data_rsp (es_tx s)") (auto simp: d granted_Cons refused_def split: if_splits)
  next
    case TX_FORWARD_DATA
    then show ?thesis using assms Cons
      by (auto simp: d one_message_Cons echo_word_def split: if_splits)
  next
    case WAIT_CYCLES
    let ?c = "ey_cycle_counter (es_tx s)"
    have "?c < 100" using assms Cons WAIT_CYCLES by (simp add: echo_busy_def Let_def)
    note c = counter_below_100 [OF this]
    show ?thesis
    proof (cases "?c + 1 = 100")
      case True
      then have "unat ?c = 99" using c(1) by simp
      then show ?thesis using assms Cons WAIT_CYCLES True by (simp add: d)
    next
      case False
      then have "?c + 1 < 100" using c(2) by simp
      then show ?thesis using assms Cons WAIT_CYCLES False c(1,3) by (simp add: d)
    qed
  qed
qed

lemma echo_busy_other: "echo_busy tdest out s \<Longrightarrow> es_rx t = es_rx s \<Longrightarrow> es_tx t = es_tx s \<Longrightarrow> echo_busy tdest out t"
  by (simp add: echo_busy_def)

lemma echo_busy_cycle:
  assumes "echo_busy tdest out s"
  shows "echo_busy tdest out (echo_server u tdest s) \<and> echo_todo (echo_server u tdest s) \<le> echo_todo s - 1"
proof -
  let ?rx = "EchoServerReceiveData tdest (es_rx s)" and ?tx = "es_tx s"
  let ?s = "s\<lparr>es_rx := ?rx\<lparr>ex_echo_server_meta := [], ex_net_app_rx_data_out := []\<rparr>,
         es_tx := ?tx\<lparr>ey_echo_server_meta := ey_echo_server_meta ?tx @ ex_echo_server_meta ?rx,
           ey_net_app_tx_data_in := ey_net_app_tx_data_in ?tx @ ex_net_app_rx_data_out ?rx\<rparr>\<rparr>"
  have r: "echo_busy tdest out ?s" "echo_todo ?s \<le> echo_todo s"
      "ey_net_app_tx_data_in (es_tx ?s) = [] \<longrightarrow> ex_net_app_recv_data (es_rx ?s) = []"
    using echo_busy_rx [OF assms] unfolding Let_def by blast+
  let ?t = "?s\<lparr>es_tx := EchoServerTransmitData tdest (es_tx ?s)\<rparr>"
  have t: "echo_busy tdest out ?t" "echo_todo ?t \<le> echo_todo ?s - 1"
    using echo_busy_tx [OF r(1,3)] unfolding Let_def by blast+
  have e: "es_rx (echo_server u tdest s) = es_rx ?t" "es_tx (echo_server u tdest s) = es_tx ?t"
    by (simp_all add: echo_server_def Let_def)
  have "echo_todo (echo_server u tdest s) = echo_todo ?t" by (simp only: echo_todo_def e)
  then show ?thesis using echo_busy_other [OF t(1) e] t(2) r(2) by simp
qed

lemma echo_busy_done:
  assumes "echo_busy tdest out s"
  shows "let t = (echo_server u tdest ^^ echo_todo s) s in
    ey_net_app_trans_data (es_tx t) = out \<and> ex_fsm_state (es_rx t) = GET_DATA_NOTY \<and> ey_fsm_state (es_tx t) = READ_META"
proof -
  have run: "echo_busy tdest out ((echo_server u tdest ^^ n) s) \<and> echo_todo ((echo_server u tdest ^^ n) s) \<le> echo_todo s - n" for n
  proof (induction n)
    case (Suc n)
    then show ?case using echo_busy_cycle [of tdest out "(echo_server u tdest ^^ n) s" u] by auto
  qed (use assms in simp)
  let ?t = "(echo_server u tdest ^^ echo_todo s) s"
  have t: "echo_busy tdest out ?t" "echo_todo ?t = 0" using run [of "echo_todo s"] by simp_all
  then have "ey_net_app_tx_data_in (es_tx ?t) @ ex_net_app_recv_data (es_rx ?t) = []"
    by (simp add: echo_todo_def Let_def split: EchoServerTxFsmState.splits)
  then show ?thesis using t(1) by (simp add: echo_busy_def Let_def)
qed

text \<open>C18: Every message is answered.  Let the idle server find one notification, the engine's answer to its read request, the
  words of the message and the engine's answers to its send requests, any number of refusals and then a
  grant.  Then within 104 cycles, two more for every word and 101 more for every refusal, the whole message has been
  sent back and the server is idle again.\<close>

theorem echo_server_answers:
  assumes "ex_fsm_state (es_rx s) = GET_DATA_NOTY" and "ey_fsm_state (es_tx s) = READ_META"
    and "ex_echo_server_meta (es_rx s) = []" and "ex_net_app_rx_data_out (es_rx s) = []"
    and "ey_echo_server_meta (es_tx s) = []" and "ey_net_app_tx_data_in (es_tx s) = []"
    and "ex_net_app_notification (es_rx s) = [n]" and "has_data n" and "ex_net_app_recv_data_rsp (es_rx s) \<noteq> []"
    and "ex_net_app_recv_data (es_rx s) = ws" and "one_message ws"
    and "ey_net_app_trans_data_rsp (es_tx s) = errs @ [ok]" and "list_all refused errs" and "\<not> refused ok"
  shows "\<exists>j \<le> 2 * length ws + 101 * length errs + 104. let t = (echo_server u tdest ^^ j) s in
     ey_net_app_trans_data (es_tx t) = ey_net_app_trans_data (es_tx s) @ map (echo_word tdest) ws \<and>
     ex_fsm_state (es_rx t) = GET_DATA_NOTY \<and> ey_fsm_state (es_tx t) = READ_META"
proof -
  let ?out = "ey_net_app_trans_data (es_tx s) @ map (echo_word tdest) ws"
  let ?a = "echo_server u tdest s" and ?b = "echo_server u tdest (echo_server u tdest s)"
  obtain r rs where r: "ex_net_app_recv_data_rsp (es_rx s) = r # rs" using assms(9) by (cases "ex_net_app_recv_data_rsp (es_rx s)") auto
  have ws: "ws \<noteq> []" and g: "granted_at_last (errs @ [ok])" using assms(11,13,14) by (auto simp: one_message_def granted_at_last_def)
  have rx: "ex_fsm_state (es_rx ?a) = WAIT_SESSION_ID \<and> ex_net_app_notification (es_rx ?a) = [] \<and> ex_net_app_recv_data_rsp (es_rx ?a) = r # rs \<and>
      ex_net_app_recv_data (es_rx ?a) = ws \<and> ex_echo_server_meta (es_rx ?a) = [] \<and> ex_net_app_rx_data_out (es_rx ?a) = []"
    using assms r by (simp add: echo_server_def EchoServerReceiveData_def echo_rx_fsm_def Let_def)
  have tx: "es_tx ?a = es_tx s"
    using assms by (simp add: echo_server_def EchoServerReceiveData_def echo_rx_fsm_def EchoServerTransmitData_def Let_def)
  have "echo_busy tdest ?out ?b"
    using rx assms ws g tx by (subst echo_server_def) (simp add: echo_busy_def EchoServerReceiveData_def echo_rx_fsm_def EchoServerTransmitData_def Let_def)
  moreover have "echo_todo ?b \<le> 2 * length ws + 101 * length errs + 102"
    using rx assms tx by (subst echo_server_def) (simp add: echo_todo_def EchoServerReceiveData_def echo_rx_fsm_def EchoServerTransmitData_def Let_def)
  moreover have "(echo_server u tdest ^^ echo_todo ?b) ?b = (echo_server u tdest ^^ (echo_todo ?b + 2)) s"
    unfolding funpow_add o_apply by (simp add: numeral_2_eq_2)
  ultimately show ?thesis using echo_busy_done [of tdest ?out ?b u]
    by (intro exI [of _ "echo_todo ?b + 2"]) (simp add: Let_def del: funpow.simps)
qed

text \<open>A message of one word for session 5, refused once.\<close>

definition echo_demo_rx :: EchoRx where
  "echo_demo_rx = (es_rx echo_server_init)
     \<lparr>ex_net_app_notification := [\<lparr>ap_notify = AppNotification_data 5 9 0 80 False, ap_notify_dest = 0\<rparr>],
      ex_net_app_recv_data_rsp := [\<lparr>ap_data = 5, ap_dest = 0\<rparr>],
      ex_net_app_recv_data := [NetAXISWord_default\<lparr>nw_data := 7, nw_last := True\<rparr>]\<rparr>"

definition echo_demo_tx :: EchoTx where
  "echo_demo_tx = (es_tx echo_server_init)
     \<lparr>ey_net_app_trans_data_rsp :=
        [\<lparr>tr_data = \<lparr>tp_error = ERROR_NOSPACE, tp_remaining_space = 0, tp_length = 9\<rparr>, tr_dest = 0\<rparr>,
         \<lparr>tr_data = \<lparr>tp_error = NO_ERROR, tp_remaining_space = 50, tp_length = 9\<rparr>, tr_dest = 0\<rparr>]\<rparr>"

theorem echo_server_answers_witness:
  "\<exists>j \<le> 207. let t = (echo_server 0 3 ^^ j) (echo_server_init\<lparr>es_rx := echo_demo_rx, es_tx := echo_demo_tx\<rparr>) in
     ey_net_app_trans_data (es_tx t) = [NetAXISWord_default\<lparr>nw_data := 7, nw_last := True, nw_dest := 3\<rparr>] \<and>
     ex_fsm_state (es_rx t) = GET_DATA_NOTY \<and> ey_fsm_state (es_tx t) = READ_META"
  using echo_server_answers [of "echo_server_init\<lparr>es_rx := echo_demo_rx, es_tx := echo_demo_tx\<rparr>"
      "\<lparr>ap_notify = AppNotification_data 5 9 0 80 False, ap_notify_dest = 0\<rparr>"
      "[NetAXISWord_default\<lparr>nw_data := 7, nw_last := True\<rparr>]"
      "[\<lparr>tr_data = \<lparr>tp_error = ERROR_NOSPACE, tp_remaining_space = 0, tp_length = 9\<rparr>, tr_dest = 0\<rparr>]"
      "\<lparr>tr_data = \<lparr>tp_error = NO_ERROR, tp_remaining_space = 50, tp_length = 9\<rparr>, tr_dest = 0\<rparr>" 0 3]
  by (simp add: echo_demo_rx_def echo_demo_tx_def echo_server_init_def has_data_def AppNotification_data_def one_message_def
      refused_def echo_word_def)

text \<open>A run in which the same notification and the same word come before the first cycle.\<close>

theorem echo_server_returns_data_witness:
  "let n = \<lparr>ap_notify = AppNotification_data 5 9 0 80 False, ap_notify_dest = 0\<rparr>;
       w = NetAXISWord_default\<lparr>nw_data := 7, nw_last := True\<rparr>;
       s = echo_server 0 3 (echo_server_init\<lparr>es_rx := (es_rx echo_server_init)
         \<lparr>ex_net_app_notification := [n], ex_net_app_recv_data := [w]\<rparr>\<rparr>) in
     (\<exists>k. ex_net_app_recv_data_req (es_rx s) = map (echo_read_req 3) (take k [n])) \<and>
     ex_net_app_recv_data_req (es_rx s) = [\<lparr>ar_data = \<lparr>aq_session_id = 5, aq_read_length = 9\<rparr>, ar_dest = 3\<rparr>]"
proof -
  let ?n = "\<lparr>ap_notify = AppNotification_data 5 9 0 80 False, ap_notify_dest = 0\<rparr>"
  let ?w = "NetAXISWord_default\<lparr>nw_data := 7, nw_last := True\<rparr>"
  let ?s = "echo_server 0 3 (echo_server_init\<lparr>es_rx := (es_rx echo_server_init)
      \<lparr>ex_net_app_notification := [?n], ex_net_app_recv_data := [?w]\<rparr>\<rparr>)"
  have n: "has_data ?n" by (simp add: has_data_def AppNotification_data_def)
  have "echo_run 0 3 ([] @ [?n]) ([] @ [?w]) ?s"
    using echo_cycle [OF echo_given [OF echo_notified [OF echo_start, of 0 3 ?n], of ?w]] by (simp add: echo_server_init_def)
  from echo_server_returns_data [OF this] n
  have "\<exists>k. ex_net_app_recv_data_req (es_rx ?s) = map (echo_read_req 3) (take k [?n])" by (auto simp: Let_def)
  moreover have "ex_net_app_recv_data_req (es_rx ?s) = [\<lparr>ar_data = \<lparr>aq_session_id = 5, aq_read_length = 9\<rparr>, ar_dest = 3\<rparr>]"
    using n by (simp add: echo_server_def echo_server_init_def EchoServerReceiveData_def echo_rx_fsm_def echo_read_req_def
        AppNotification_data_def Let_def)
  ultimately show ?thesis by (simp only: Let_def)
qed

end
