(* ===== verification/Iperf2.thy ===== *)
theory Iperf2
  imports App_Types Realign
begin

text \<open>
  \<open>net_app/iperf2/iperf2.cpp\<close>, the benchmark application behind the engine: \<open>OpenPortHandler\<close> listens on the ports
  of the server, \<open>IperfServer\<close> throws away what it receives, \<open>IperfClient\<close> opens connections and sends, and
  \<open>IperfStopWatch\<close> counts the cycles of an experiment with a timer.  \<open>tdest\<close> is the port \<open>tdest_const\<close>;
  \<open>sessions_id\<close> is total, its indices in the array are those below \<open>TCP_MAX_SESSIONS\<close>.  Statics without an
  initial value are 0.
\<close>

section \<open>\<open>OpenPortHandler\<close>\<close>

datatype IperfOpenPortState = OPEN_PORT | OPEN_WAIT_RESPONSE | OPEN_IDLE

record IperfOpenPort =
  io_fsm_state :: IperfOpenPortState
  io_connection_id :: "16 word"
  io_net_app_listen_port_req :: "ListenPortReq stream"
  io_net_app_listen_port_rsp :: "ListenPortRsp stream"

definition iperf_listen_port :: "16 word" where "iperf_listen_port = 5011"

text \<open>An answer is compared with the first port, not with the one that was asked for.\<close>

definition IperfOpenPortHandler :: "NetAXISDest \<Rightarrow> IperfOpenPort \<Rightarrow> IperfOpenPort" where
  "IperfOpenPortHandler tdest s =
     (case io_fsm_state s of
        OPEN_PORT \<Rightarrow>
          s\<lparr>io_net_app_listen_port_req := io_net_app_listen_port_req s @
              [\<lparr>lq_data = iperf_listen_port + io_connection_id s, lq_dest = tdest\<rparr>],
            io_fsm_state := OPEN_WAIT_RESPONSE\<rparr>
      | OPEN_WAIT_RESPONSE \<Rightarrow>
          (case io_net_app_listen_port_rsp s of
             [] \<Rightarrow> s
           | net_listen_rsp # rsps \<Rightarrow>
               (let s = s\<lparr>io_net_app_listen_port_rsp := rsps\<rparr>; rsp = lr_data net_listen_rsp in
                if lr_port_number rsp = iperf_listen_port then
                  if lr_open_successfully rsp \<or> lr_already_open rsp then
                    if io_connection_id s = of_nat (TCP_MAX_SESSIONS - 1) then s\<lparr>io_fsm_state := OPEN_IDLE\<rparr>
                    else s\<lparr>io_connection_id := io_connection_id s + 1, io_fsm_state := OPEN_PORT\<rparr>
                  else s\<lparr>io_fsm_state := OPEN_PORT\<rparr>
                else s))
      | OPEN_IDLE \<Rightarrow> s)"

section \<open>\<open>IperfServer\<close>\<close>

datatype IperfServerState = GET_DATA_NOTY | WAIT_SESSION_ID | CONSUME

record IperfServer =
  iv_fsm_state :: IperfServerState
  iv_app_notification :: AppNotification
  iv_net_app_new_client_notification :: "NewClientNotification stream"
  iv_net_app_notification :: "AppNotification stream"
  iv_net_app_recv_data_req :: "AppReadReq stream"
  iv_net_app_recv_data_rsp :: "AppReadRsp stream"
  iv_net_app_recv_data :: "NetAXISWord stream"

definition iperf_server_fsm :: "NetAXISDest \<Rightarrow> IperfServer \<Rightarrow> IperfServer" where
  "iperf_server_fsm tdest s =
     (case iv_fsm_state s of
        GET_DATA_NOTY \<Rightarrow>
          (case iv_net_app_notification s of
             [] \<Rightarrow> s
           | n # ns \<Rightarrow>
               (let s = s\<lparr>iv_net_app_notification := ns, iv_app_notification := n\<rparr> in
                if an_length (ap_notify n) \<noteq> 0 then
                  s\<lparr>iv_net_app_recv_data_req := iv_net_app_recv_data_req s @
                      [\<lparr>ar_data = \<lparr>aq_session_id = an_session_id (ap_notify n), aq_read_length = an_length (ap_notify n)\<rparr>,
                        ar_dest = tdest\<rparr>],
                    iv_fsm_state := WAIT_SESSION_ID\<rparr>
                else s))
      | WAIT_SESSION_ID \<Rightarrow>
          (case iv_net_app_recv_data_rsp s of
             [] \<Rightarrow> s | _ # rsps \<Rightarrow> s\<lparr>iv_net_app_recv_data_rsp := rsps, iv_fsm_state := CONSUME\<rparr>)
      | CONSUME \<Rightarrow>
          (case iv_net_app_recv_data s of
             [] \<Rightarrow> s
           | cur_word # ws \<Rightarrow>
               s\<lparr>iv_net_app_recv_data := ws, iv_fsm_state := (if nw_last cur_word then GET_DATA_NOTY else iv_fsm_state s)\<rparr>))"

definition IperfServer :: "NetAXISDest \<Rightarrow> IperfServer \<Rightarrow> IperfServer" where
  "IperfServer tdest s =
     iperf_server_fsm tdest (s\<lparr>iv_net_app_new_client_notification := tl (iv_net_app_new_client_notification s)\<rparr>)"

section \<open>The state of \<open>IperfClient\<close>\<close>

record IperfRegs =
  ir_run_experiment :: bool
  ir_dual_mode_en :: bool
  ir_use_timer :: bool
  ir_run_time :: "64 word"
  ir_num_connections :: "14 word"
  ir_transfer_size :: "32 word"
  ir_packet_mss :: "16 word"
  ir_dst_ip :: "32 word"
  ir_dst_port :: "16 word"
  ir_max_connections :: "16 word"
  ir_current_state :: "16 word"
  ir_error_openning_connection :: bool

datatype IperfFsmState =
  WAIT_USER_START | INIT_CON | WAIT_CON | REQ_WRITE_FIRST | INIT_RUN | COMPUTE_NECESSARY_SPACE | SPACE_RESPONSE |
  SEND_PACKET | REQUEST_SPACE | CLOSE_CONN | CLOSE_CONN1 | ERROR_OPENING_CONNECTION

fun iperf_state_number :: "IperfFsmState \<Rightarrow> 16 word" where
  "iperf_state_number WAIT_USER_START = 0"
| "iperf_state_number INIT_CON = 1"
| "iperf_state_number WAIT_CON = 2"
| "iperf_state_number REQ_WRITE_FIRST = 3"
| "iperf_state_number INIT_RUN = 4"
| "iperf_state_number COMPUTE_NECESSARY_SPACE = 5"
| "iperf_state_number SPACE_RESPONSE = 6"
| "iperf_state_number SEND_PACKET = 7"
| "iperf_state_number REQUEST_SPACE = 8"
| "iperf_state_number CLOSE_CONN = 9"
| "iperf_state_number CLOSE_CONN1 = 10"
| "iperf_state_number ERROR_OPENING_CONNECTION = 11"

record IperfClient =
  ic_settings_regs :: IperfRegs
  ic_fsm_state :: IperfFsmState
  ic_error_openning_connection :: bool
  ic_run_experiment_reg :: bool
  ic_use_timer_reg :: bool
  ic_num_connections_reg :: "14 word"
  ic_transfer_size_reg :: "32 word"
  ic_packet_mss_reg :: "16 word"
  ic_dst_ip_reg :: "32 word"
  ic_dst_port_reg :: "16 word"
  ic_cur_connection_id :: "14 word"
  ic_sessions_id :: "14 word \<Rightarrow> 16 word"
  ic_bytes_already_sent :: "32 word"
  ic_bytes_last_word :: "6 word"
  ic_transactions :: "10 word"
  ic_transaction_length :: "16 word"
  ic_word_sent_cnt :: "10 word"
  ic_wait_close_conn_counter :: "16 word"
  ic_last_transfer_keep :: "64 word"
  ic_stop_watch_end_reg :: bool
  ic_net_app_open_conn_req :: "AppOpenConnReq stream"
  ic_net_app_open_conn_rsp :: "AppOpenConnRsp stream"
  ic_net_app_close_conn_req :: "AppCloseConnReq stream"
  ic_net_app_trans_data_req :: "AppTransDataReq stream"
  ic_net_app_trans_data_rsp :: "AppTransDataRsp stream"
  ic_net_app_trans_data :: "NetAXISWord stream"
  ic_stop_watch_start :: "64 word stream"
  ic_stop_watch_end :: "bool stream"

definition iperf_trans_req :: "NetAXISDest \<Rightarrow> TcpSessionBuffer \<Rightarrow> IperfClient \<Rightarrow> IperfClient" where
  "iperf_trans_req tdest len s =
     s\<lparr>ic_net_app_trans_data_req := ic_net_app_trans_data_req s @
         [\<lparr>tq_data = len, tq_id = ic_sessions_id s (ic_cur_connection_id s), tq_dest = tdest\<rparr>]\<rparr>"

section \<open>Opening the connections\<close>

definition iperf_wait_user_start :: "IperfClient \<Rightarrow> IperfClient" where
  "iperf_wait_user_start s =
     (let regs = ic_settings_regs s in
      if ir_run_experiment regs \<and> \<not> ic_run_experiment_reg s \<and> 0 < ir_num_connections regs \<and>
         ir_num_connections regs \<le> of_nat TCP_MAX_SESSIONS then
        s\<lparr>ic_num_connections_reg := ir_num_connections regs, ic_transfer_size_reg := ir_transfer_size regs,
          ic_use_timer_reg := ir_use_timer regs, ic_dst_ip_reg := ir_dst_ip regs, ic_dst_port_reg := ir_dst_port regs,
          ic_packet_mss_reg := ir_packet_mss regs, ic_error_openning_connection := False, ic_stop_watch_end_reg := False,
          ic_stop_watch_start := (if ir_use_timer regs then ic_stop_watch_start s @ [ir_run_time regs] else ic_stop_watch_start s),
          ic_fsm_state := INIT_CON\<rparr>
      else s)"

text \<open>The requests name the address of the board in a field that is never set, \<open>u\<close>.\<close>

definition iperf_init_con :: "IpAddr \<Rightarrow> NetAXISDest \<Rightarrow> IperfClient \<Rightarrow> IperfClient" where
  "iperf_init_con u tdest s =
     (let req = \<lparr>oq_data = \<lparr>ot_my_ip_addr = u, ot_ip_addr = ic_dst_ip_reg s,
                   ot_tcp_port = ic_dst_port_reg s + ucast (ic_cur_connection_id s)\<rparr>, oq_dest = tdest\<rparr>;
          s = s\<lparr>ic_net_app_open_conn_req := ic_net_app_open_conn_req s @ [req],
            ic_cur_connection_id := ic_cur_connection_id s + 1\<rparr> in
      if ic_cur_connection_id s = ic_num_connections_reg s then s\<lparr>ic_cur_connection_id := 0, ic_fsm_state := WAIT_CON\<rparr>
      else s)"

definition iperf_wait_con :: "IperfClient \<Rightarrow> IperfClient" where
  "iperf_wait_con s =
     (case ic_net_app_open_conn_rsp s of
        [] \<Rightarrow> s
      | rsp # rsps \<Rightarrow>
          (let s = s\<lparr>ic_net_app_open_conn_rsp := rsps\<rparr> in
           if oc_success (or_data rsp) then
             (let s = s\<lparr>ic_sessions_id := (ic_sessions_id s)(ic_cur_connection_id s := oc_session_id (or_data rsp)),
                ic_cur_connection_id := ic_cur_connection_id s + 1\<rparr> in
              if ic_cur_connection_id s = ic_num_connections_reg s
              then s\<lparr>ic_cur_connection_id := 0, ic_fsm_state := REQ_WRITE_FIRST\<rparr> else s)
           else s\<lparr>ic_fsm_state := ERROR_OPENING_CONNECTION\<rparr>))"

definition iperf_error_opening :: "IperfClient \<Rightarrow> IperfClient" where
  "iperf_error_opening s = s\<lparr>ic_error_openning_connection := True, ic_fsm_state := WAIT_USER_START\<rparr>"

section \<open>The first message of every connection\<close>

definition iperf_req_write_first :: "NetAXISDest \<Rightarrow> IperfClient \<Rightarrow> IperfClient" where
  "iperf_req_write_first tdest s =
     (let s = iperf_trans_req tdest (if ic_use_timer_reg s then 64 else 24) s;
          s = s\<lparr>ic_cur_connection_id := ic_cur_connection_id s + 1\<rparr> in
      if ic_stop_watch_end_reg s then s\<lparr>ic_fsm_state := CLOSE_CONN\<rparr>
      else if ic_cur_connection_id s = ic_num_connections_reg s then s\<lparr>ic_cur_connection_id := 0, ic_fsm_state := INIT_RUN\<rparr>
      else s)"

definition iperf_first_word :: "NetAXISDest \<Rightarrow> IperfClient \<Rightarrow> NetAXISWord" where
  "iperf_first_word tdest s =
     (if ic_use_timer_reg s then
        \<lparr>nw_data = put_range 64 (0x3938 :: 16 word) (put_range 0 (0x3736353400000000 :: 64 word) 0),
         nw_dest = tdest, nw_keep = 0xFFFFFFFFFFFFFFFF, nw_last = True\<rparr>
      else
        \<lparr>nw_data = put_range 160 (SwapByte (ic_transfer_size_reg s)) (put_range 128 (0x39383736 :: 32 word)
           (put_range 64 (0x89130000 :: 64 word)
             (put_range 0 (if ir_dual_mode_en (ic_settings_regs s) then 0x0100000001000080 else 0x0100000000000000 :: 64 word) 0))),
         nw_dest = tdest, nw_keep = 0xffffff, nw_last = True\<rparr>)"

definition iperf_init_run :: "NetAXISDest \<Rightarrow> IperfClient \<Rightarrow> IperfClient" where
  "iperf_init_run tdest s =
     (case ic_net_app_trans_data_rsp s of
        [] \<Rightarrow> s
      | rsp # rsps \<Rightarrow>
          (let s = s\<lparr>ic_net_app_trans_data_rsp := rsps\<rparr> in
           if tp_error (tr_data rsp) = NO_ERROR then
             (let s = s\<lparr>ic_cur_connection_id := ic_cur_connection_id s + 1,
                ic_net_app_trans_data := ic_net_app_trans_data s @ [iperf_first_word tdest s]\<rparr> in
              if ic_cur_connection_id s = ic_num_connections_reg s
              then s\<lparr>ic_cur_connection_id := 0, ic_bytes_already_sent := 0, ic_fsm_state := COMPUTE_NECESSARY_SPACE\<rparr>
              else s\<lparr>ic_fsm_state := REQ_WRITE_FIRST\<rparr>)
           else s\<lparr>ic_fsm_state := REQ_WRITE_FIRST\<rparr>))"

section \<open>The transfer\<close>

text \<open>The size of a packet: bytes in the last word, words, bytes.\<close>

definition iperf_remaining :: "IperfClient \<Rightarrow> 32 word" where
  "iperf_remaining s =
     (if ic_use_timer_reg s then if ic_stop_watch_end_reg s then 0 else ucast (ic_packet_mss_reg s)
      else ucast (ic_packet_mss_reg s) - ic_bytes_already_sent s)"

definition iperf_packet_size :: "IperfClient \<Rightarrow> 6 word \<times> 10 word \<times> TcpSessionBuffer" where
  "iperf_packet_size s =
     (let mss = ic_packet_mss_reg s; remaining = iperf_remaining s in
      if ucast mss \<le> remaining then
        (get_range 0 mss, if (get_range 0 mss :: 6 word) = 0 then get_range 6 mss else get_range 6 mss + 1, ucast mss)
      else
        (get_range 0 remaining, if (get_range 0 remaining :: 6 word) = 0 then get_range 6 remaining else get_range 6 remaining + 1,
         ucast remaining))"

text \<open>\<open>v\<close> is the length that is left unset when nothing remains to be sent.\<close>

definition iperf_compute :: "TcpSessionBuffer \<Rightarrow> NetAXISDest \<Rightarrow> IperfClient \<Rightarrow> IperfClient" where
  "iperf_compute v tdest s =
     (if 0 < iperf_remaining s then
        (case iperf_packet_size s of (last_bytes, words, len) \<Rightarrow>
           (iperf_trans_req tdest len s)
             \<lparr>ic_bytes_last_word := last_bytes, ic_transactions := words, ic_cur_connection_id := 0,
              ic_fsm_state := SPACE_RESPONSE, ic_transaction_length := ucast len, ic_word_sent_cnt := 1\<rparr>)
      else s\<lparr>ic_cur_connection_id := 0, ic_fsm_state := CLOSE_CONN, ic_transaction_length := ucast v, ic_word_sent_cnt := 1\<rparr>)"

definition iperf_space_response :: "IperfClient \<Rightarrow> IperfClient" where
  "iperf_space_response s =
     (case ic_net_app_trans_data_rsp s of
        [] \<Rightarrow> s
      | rsp # rsps \<Rightarrow>
          (let s = s\<lparr>ic_net_app_trans_data_rsp := rsps, ic_word_sent_cnt := 1\<rparr> in
           if tp_error (tr_data rsp) = NO_ERROR then
             s\<lparr>ic_cur_connection_id :=
                 (if uint (ic_cur_connection_id s) \<noteq> uint (ic_num_connections_reg s) - 1 then ic_cur_connection_id s + 1
                  else ic_cur_connection_id s),
               ic_fsm_state := SEND_PACKET,
               ic_bytes_already_sent := ic_bytes_already_sent s + ucast (ic_transaction_length s)\<rparr>
           else s\<lparr>ic_wait_close_conn_counter := 0, ic_fsm_state := REQUEST_SPACE\<rparr>))
     \<lparr>ic_last_transfer_keep := DataLengthToAxisKeep (ic_bytes_last_word s)\<rparr>"

text \<open>The words of a packet go out with the role 0 of a new \<open>NetAXISWord\<close>.\<close>

definition iperf_word :: "IperfClient \<Rightarrow> NetAXISWord" where
  "iperf_word s =
     (let cnt = ucast (ic_word_sent_cnt s) :: 64 word; done = (ic_word_sent_cnt s = ic_transactions s) in
      \<lparr>nw_data = put_range 448 (cnt + 3) (put_range 384 (cnt + 2) (put_range 320 (cnt + 1) (put_range 256 cnt
         (put_range 192 (0x2068632e7a687465 :: 64 word) (put_range 128 (0x2e736d6574737973 :: 64 word)
         (put_range 64 (0x202020202073652e :: 64 word) (put_range 0 (0x6d61752d6e637068 :: 64 word) 0))))))),
       nw_dest = 0, nw_keep = (if done then ic_last_transfer_keep s else 0xFFFFFFFFFFFFFFFF), nw_last = done\<rparr>)"

text \<open>With a timer the next request is made together with the first word.\<close>

definition iperf_request_ahead :: "NetAXISDest \<Rightarrow> IperfClient \<Rightarrow> IperfClient" where
  "iperf_request_ahead tdest s =
     (if ic_word_sent_cnt s = 1 \<and> ic_use_timer_reg s then
        (if \<not> ic_stop_watch_end_reg s then iperf_trans_req tdest (ucast (ic_transaction_length s)) s else s)
          \<lparr>ic_cur_connection_id := ic_cur_connection_id s + 1\<rparr>
      else s)"

definition iperf_send_packet :: "NetAXISDest \<Rightarrow> IperfClient \<Rightarrow> IperfClient" where
  "iperf_send_packet tdest s =
     (let cur_word = iperf_word s;
          s = iperf_request_ahead tdest s;
          s = (if ic_word_sent_cnt s = ic_transactions s then
                 (let s = (if ic_cur_connection_id s = ic_num_connections_reg s then s\<lparr>ic_cur_connection_id := 0\<rparr> else s) in
                  if ic_use_timer_reg s then
                    if ic_stop_watch_end_reg s then s\<lparr>ic_fsm_state := CLOSE_CONN, ic_cur_connection_id := 0\<rparr>
                    else s\<lparr>ic_fsm_state := SPACE_RESPONSE\<rparr>
                  else s\<lparr>ic_fsm_state := COMPUTE_NECESSARY_SPACE\<rparr>)
               else s) in
      s\<lparr>ic_word_sent_cnt := ic_word_sent_cnt s + 1, ic_net_app_trans_data := ic_net_app_trans_data s @ [cur_word]\<rparr>)"

definition iperf_request_space :: "NetAXISDest \<Rightarrow> IperfClient \<Rightarrow> IperfClient" where
  "iperf_request_space tdest s =
     (if ic_use_timer_reg s \<and> ic_stop_watch_end_reg s then s\<lparr>ic_cur_connection_id := 0, ic_fsm_state := CLOSE_CONN\<rparr>
      else (iperf_trans_req tdest (ucast (ic_transaction_length s)) s)\<lparr>ic_fsm_state := SPACE_RESPONSE\<rparr>)"

section \<open>Closing the connections\<close>

definition iperf_close_conn :: "IperfClient \<Rightarrow> IperfClient" where
  "iperf_close_conn s =
     (let s = (if ic_wait_close_conn_counter s = 10000
               then s\<lparr>ic_fsm_state := CLOSE_CONN1, ic_wait_close_conn_counter := 0, ic_cur_connection_id := 0\<rparr> else s) in
      s\<lparr>ic_wait_close_conn_counter := ic_wait_close_conn_counter s + 1\<rparr>)"

definition iperf_close_conn1 :: "NetAXISDest \<Rightarrow> IperfClient \<Rightarrow> IperfClient" where
  "iperf_close_conn1 tdest s =
     (let s = s\<lparr>ic_net_app_close_conn_req := ic_net_app_close_conn_req s @
            [\<lparr>ac_data = ic_sessions_id s (ic_cur_connection_id s), ac_dest = tdest\<rparr>],
          ic_cur_connection_id := ic_cur_connection_id s + 1\<rparr> in
      if ic_cur_connection_id s = ic_num_connections_reg s then s\<lparr>ic_fsm_state := WAIT_USER_START, ic_cur_connection_id := 0\<rparr>
      else s)"

section \<open>\<open>IperfClient\<close>\<close>

definition iperf_write_regs :: "IperfClient \<Rightarrow> IperfClient" where
  "iperf_write_regs s =
     s\<lparr>ic_settings_regs := (ic_settings_regs s)
         \<lparr>ir_max_connections := of_nat TCP_MAX_SESSIONS, ir_current_state := iperf_state_number (ic_fsm_state s),
          ir_error_openning_connection := ic_error_openning_connection s\<rparr>\<rparr>"

text \<open>\<open>INIT_CON\<close> falls through to \<open>WAIT_CON\<close>.\<close>

definition iperf_fsm :: "IpAddr \<Rightarrow> TcpSessionBuffer \<Rightarrow> NetAXISDest \<Rightarrow> IperfClient \<Rightarrow> IperfClient" where
  "iperf_fsm u v tdest s =
     (case ic_fsm_state s of
        WAIT_USER_START \<Rightarrow> iperf_wait_user_start s
      | INIT_CON \<Rightarrow> iperf_wait_con (iperf_init_con u tdest s)
      | WAIT_CON \<Rightarrow> iperf_wait_con s
      | ERROR_OPENING_CONNECTION \<Rightarrow> iperf_error_opening s
      | REQ_WRITE_FIRST \<Rightarrow> iperf_req_write_first tdest s
      | INIT_RUN \<Rightarrow> iperf_init_run tdest s
      | COMPUTE_NECESSARY_SPACE \<Rightarrow> iperf_compute v tdest s
      | SPACE_RESPONSE \<Rightarrow> iperf_space_response s
      | SEND_PACKET \<Rightarrow> iperf_send_packet tdest s
      | REQUEST_SPACE \<Rightarrow> iperf_request_space tdest s
      | CLOSE_CONN \<Rightarrow> iperf_close_conn s
      | CLOSE_CONN1 \<Rightarrow> iperf_close_conn1 tdest s)"

definition iperf_registers :: "IperfClient \<Rightarrow> IperfClient" where
  "iperf_registers s =
     s\<lparr>ic_run_experiment_reg := ir_run_experiment (ic_settings_regs s),
       ic_stop_watch_end := tl (ic_stop_watch_end s),
       ic_stop_watch_end_reg := (ic_stop_watch_end s \<noteq> [] \<or> ic_stop_watch_end_reg s)\<rparr>"

definition IperfClient :: "IpAddr \<Rightarrow> TcpSessionBuffer \<Rightarrow> NetAXISDest \<Rightarrow> IperfClient \<Rightarrow> IperfClient" where
  "IperfClient u v tdest s = iperf_registers (iperf_fsm u v tdest (iperf_write_regs s))"

section \<open>\<open>IperfStopWatch\<close> and the application\<close>

datatype sw_states = WAIT_SIGNAL | RUNNING

record IperfStopWatch =
  iw_fsm_state :: sw_states
  iw_max_count :: "64 word"
  iw_counter :: "64 word"
  iw_stop_watch_start :: "64 word stream"
  iw_stop_watch_end :: "bool stream"

definition IperfStopWatch :: "IperfStopWatch \<Rightarrow> IperfStopWatch" where
  "IperfStopWatch s =
     (case iw_fsm_state s of
        WAIT_SIGNAL \<Rightarrow>
          (case iw_stop_watch_start s of
             [] \<Rightarrow> s
           | n # ns \<Rightarrow> s\<lparr>iw_stop_watch_start := ns, iw_max_count := n, iw_counter := 1, iw_fsm_state := RUNNING\<rparr>)
      | RUNNING \<Rightarrow>
          (let s = (if iw_counter s = iw_max_count s
                    then s\<lparr>iw_stop_watch_end := iw_stop_watch_end s @ [True], iw_fsm_state := WAIT_SIGNAL\<rparr> else s) in
           s\<lparr>iw_counter := iw_counter s + 1\<rparr>))"

record Iperf2 =
  ip_client :: IperfClient
  ip_stop_watch :: IperfStopWatch
  ip_open :: IperfOpenPort
  ip_server :: IperfServer

text \<open>The signal of the stop watch reaches the client in the next cycle.\<close>

definition iperf2 :: "IpAddr \<Rightarrow> TcpSessionBuffer \<Rightarrow> NetAXISDest \<Rightarrow> Iperf2 \<Rightarrow> Iperf2" where
  "iperf2 u v tdest s =
     (let w = ip_stop_watch s;
          c = ip_client s;
          c = IperfClient u v tdest (c\<lparr>ic_stop_watch_end := ic_stop_watch_end c @ iw_stop_watch_end w\<rparr>);
          w = IperfStopWatch (w\<lparr>iw_stop_watch_end := [], iw_stop_watch_start := iw_stop_watch_start w @ ic_stop_watch_start c\<rparr>) in
      \<lparr>ip_client = c\<lparr>ic_stop_watch_start := []\<rparr>, ip_stop_watch = w,
       ip_open = IperfOpenPortHandler tdest (ip_open s), ip_server = IperfServer tdest (ip_server s)\<rparr>)"

definition iperf_open_init :: IperfOpenPort where
  "iperf_open_init =
     \<lparr>io_fsm_state = OPEN_PORT, io_connection_id = 0, io_net_app_listen_port_req = [], io_net_app_listen_port_rsp = []\<rparr>"

definition iperf_regs_init :: IperfRegs where
  "iperf_regs_init =
     \<lparr>ir_run_experiment = False, ir_dual_mode_en = False, ir_use_timer = False, ir_run_time = 0, ir_num_connections = 0,
      ir_transfer_size = 0, ir_packet_mss = 0, ir_dst_ip = 0, ir_dst_port = 0, ir_max_connections = 0,
      ir_current_state = 0, ir_error_openning_connection = False\<rparr>"

definition iperf_client_init :: IperfClient where
  "iperf_client_init =
     \<lparr>ic_settings_regs = iperf_regs_init, ic_fsm_state = WAIT_USER_START, ic_error_openning_connection = False,
      ic_run_experiment_reg = True, ic_use_timer_reg = False, ic_num_connections_reg = 0, ic_transfer_size_reg = 0,
      ic_packet_mss_reg = 0, ic_dst_ip_reg = 0, ic_dst_port_reg = 0, ic_cur_connection_id = 0, ic_sessions_id = (\<lambda>_. 0),
      ic_bytes_already_sent = 0, ic_bytes_last_word = 0, ic_transactions = 0, ic_transaction_length = 0,
      ic_word_sent_cnt = 0, ic_wait_close_conn_counter = 0, ic_last_transfer_keep = 0, ic_stop_watch_end_reg = False,
      ic_net_app_open_conn_req = [], ic_net_app_open_conn_rsp = [], ic_net_app_close_conn_req = [],
      ic_net_app_trans_data_req = [], ic_net_app_trans_data_rsp = [], ic_net_app_trans_data = [],
      ic_stop_watch_start = [], ic_stop_watch_end = []\<rparr>"
section \<open>The ports of the server\<close>

text \<open>A run in which the port table answers the requests in order, each with the port of the request; \<open>n\<close> have been
  answered.\<close>

inductive iperf_open_run :: "NetAXISDest \<Rightarrow> IperfOpenPort \<Rightarrow> nat \<Rightarrow> bool" for tdest where
  open_start: "iperf_open_run tdest iperf_open_init 0"
| open_answer: "iperf_open_run tdest s n \<Longrightarrow> n < length (io_net_app_listen_port_req s) \<Longrightarrow>
    lr_port_number (lr_data rsp) = lq_data (io_net_app_listen_port_req s ! n) \<Longrightarrow>
    iperf_open_run tdest (s\<lparr>io_net_app_listen_port_rsp := io_net_app_listen_port_rsp s @ [rsp]\<rparr>) (Suc n)"
| open_cycle: "iperf_open_run tdest s n \<Longrightarrow> iperf_open_run tdest (IperfOpenPortHandler tdest s) n"

definition port_request :: "NetAXISDest \<Rightarrow> 16 word \<Rightarrow> ListenPortReq" where
  "port_request tdest port = \<lparr>lq_data = port, lq_dest = tdest\<rparr>"

lemma port_request_port [simp]: "lq_data (port_request tdest p) = p"
  by (simp add: port_request_def)

definition rsp_ports :: "IperfOpenPort \<Rightarrow> 16 word list" where
  "rsp_ports s = map (\<lambda>rsp. lr_port_number (lr_data rsp)) (io_net_app_listen_port_rsp s)"

text \<open>Nothing but the first port is asked for, or one request for the second is waiting for an answer it does not
  recognise.\<close>

definition iperf_open_inv :: "NetAXISDest \<Rightarrow> IperfOpenPort \<Rightarrow> nat \<Rightarrow> bool" where
  "iperf_open_inv tdest s n \<longleftrightarrow>
     (let reqs = io_net_app_listen_port_req s; first = (\<lambda>k. replicate k (port_request tdest 5011)) in
      (io_fsm_state s = OPEN_PORT \<and> io_connection_id s \<in> {0, 1} \<and> reqs = first n \<and> rsp_ports s = []) \<or>
      (io_fsm_state s = OPEN_WAIT_RESPONSE \<and> io_connection_id s = 0 \<and>
        (rsp_ports s = [] \<and> reqs = first (Suc n) \<or> rsp_ports s = [5011] \<and> reqs = first n)) \<or>
      (io_fsm_state s = OPEN_WAIT_RESPONSE \<and> io_connection_id s = 1 \<and>
        (\<exists>k. reqs = first k @ [port_request tdest 5012] \<and>
           (rsp_ports s = [] \<and> (n = k \<or> n = Suc k) \<or> rsp_ports s = [5012] \<and> n = Suc k))))"

lemma iperf_open_inv_answer:
  assumes "iperf_open_inv tdest s n" and "n < length (io_net_app_listen_port_req s)"
    and "lr_port_number (lr_data rsp) = lq_data (io_net_app_listen_port_req s ! n)"
  shows "iperf_open_inv tdest (s\<lparr>io_net_app_listen_port_rsp := io_net_app_listen_port_rsp s @ [rsp]\<rparr>) (Suc n)"
proof -
  have "replicate (Suc n) (port_request tdest 5011) ! n = port_request tdest 5011" by (rule nth_replicate) simp
  then show ?thesis
    using assms by (auto simp: iperf_open_inv_def rsp_ports_def nth_append Let_def simp del: replicate_Suc)
qed

lemma iperf_open_inv_cycle:
  assumes "iperf_open_inv tdest s n"
  shows "iperf_open_inv tdest (IperfOpenPortHandler tdest s) n"
proof (cases "io_fsm_state s")
  case OPEN_PORT
  then show ?thesis using assms
    by (auto simp: iperf_open_inv_def IperfOpenPortHandler_def rsp_ports_def port_request_def iperf_listen_port_def
        replicate_append_same Let_def)
next
  case OPEN_WAIT_RESPONSE
  then show ?thesis using assms
    by (cases "io_net_app_listen_port_rsp s")
      (auto simp: iperf_open_inv_def IperfOpenPortHandler_def rsp_ports_def iperf_listen_port_def Let_def)
next
  case OPEN_IDLE
  then show ?thesis using assms by (simp add: iperf_open_inv_def Let_def)
qed

lemma iperf_open_run_inv: "iperf_open_run tdest s n \<Longrightarrow> iperf_open_inv tdest s n"
proof (induction rule: iperf_open_run.induct)
  case open_start
  show ?case by (simp add: iperf_open_inv_def iperf_open_init_def rsp_ports_def)
qed (simp_all add: iperf_open_inv_answer iperf_open_inv_cycle)

text \<open>C40: The server of iperf gets at most its first port.  The code means to listen on \<open>TCP_MAX_SESSIONS\<close> ports from
  5011 on, but compares every answer with 5011.  In every run in which the port table answers each request with
  the port that was asked for, successfully or not, the requests are for 5011, and after the first success there is one for 5012,
  whose answer is not recognised: no other port is ever asked for, and \<open>IDLE\<close> is never reached.\<close>

theorem iperf_server_stuck_at_second_port:
  assumes "iperf_open_run tdest s n"
  shows "io_fsm_state s \<noteq> OPEN_IDLE \<and>
     (\<exists>k. io_net_app_listen_port_req s = replicate k (port_request tdest 5011) \<or>
        io_net_app_listen_port_req s = replicate k (port_request tdest 5011) @ [port_request tdest 5012] \<and>
        io_fsm_state s = OPEN_WAIT_RESPONSE)"
  using iperf_open_run_inv [OF assms] by (auto simp: iperf_open_inv_def Let_def simp del: replicate_Suc)

text \<open>The first port is opened, the second is asked for and opened, and nothing happens any more.\<close>

theorem iperf_server_stuck_at_second_port_witness:
  "\<exists>s. iperf_open_run 3 s 2 \<and> io_fsm_state s = OPEN_WAIT_RESPONSE \<and> io_fsm_state s \<noteq> OPEN_IDLE \<and>
     io_net_app_listen_port_req s = [port_request 3 5011, port_request 3 5012]"
proof -
  let ?rsp = "\<lambda>p. \<lparr>lr_data = \<lparr>lr_port_number = p, lr_open_successfully = True, lr_wrong_port_number = False, lr_already_open = False\<rparr>,
      lr_dest = 3\<rparr>"
  let ?h = "IperfOpenPortHandler 3"
  note d = IperfOpenPortHandler_def iperf_open_init_def iperf_listen_port_def port_request_def
  have a: "iperf_open_run 3 (?h iperf_open_init) 0" by (intro open_cycle open_start)
  have "iperf_open_run 3 ((?h iperf_open_init)\<lparr>io_net_app_listen_port_rsp := io_net_app_listen_port_rsp (?h iperf_open_init) @ [?rsp 5011]\<rparr>) (Suc 0)"
    by (rule open_answer [OF a]) (simp_all add: d)
  then have b: "iperf_open_run 3 (?h (?h (?h iperf_open_init\<lparr>io_net_app_listen_port_rsp := [?rsp 5011]\<rparr>))) (Suc 0)"
    by (intro open_cycle) (simp add: d)
  let ?s = "?h (?h (?h iperf_open_init\<lparr>io_net_app_listen_port_rsp := [?rsp 5011]\<rparr>))"
  have s: "io_net_app_listen_port_req ?s = [port_request 3 5011, port_request 3 5012]" "io_net_app_listen_port_rsp ?s = []"
      "io_fsm_state ?s = OPEN_WAIT_RESPONSE"
    by (simp_all add: d)
  have "iperf_open_run 3 (?s\<lparr>io_net_app_listen_port_rsp := io_net_app_listen_port_rsp ?s @ [?rsp 5012]\<rparr>) (Suc (Suc 0))"
    by (rule open_answer [OF b]) (simp_all add: s)
  then have r: "iperf_open_run 3 (?h (?s\<lparr>io_net_app_listen_port_rsp := [?rsp 5012]\<rparr>)) 2" by (intro open_cycle) (simp add: s numeral_2_eq_2)
  have "io_net_app_listen_port_req (?h (?s\<lparr>io_net_app_listen_port_rsp := [?rsp 5012]\<rparr>)) = [port_request 3 5011, port_request 3 5012]"
      "io_fsm_state (?h (?s\<lparr>io_net_app_listen_port_rsp := [?rsp 5012]\<rparr>)) = OPEN_WAIT_RESPONSE"
    using s by (simp_all add: IperfOpenPortHandler_def iperf_listen_port_def Let_def)
  then show ?thesis using r iperf_server_stuck_at_second_port [OF r] by blast
qed

section \<open>Several connections\<close>

text \<open>An experiment without a timer: everything the engine and the user do may happen at any time, only the stop watch is
  silent.\<close>

definition iperf_private :: "IperfClient \<Rightarrow> IperfClient" where
  "iperf_private s =
     s\<lparr>ic_settings_regs := iperf_regs_init, ic_net_app_open_conn_req := [], ic_net_app_open_conn_rsp := [],
       ic_net_app_close_conn_req := [], ic_net_app_trans_data_req := [], ic_net_app_trans_data_rsp := [],
       ic_net_app_trans_data := [], ic_stop_watch_start := []\<rparr>"

definition iperf_env :: "IperfClient \<Rightarrow> IperfClient \<Rightarrow> bool" where
  "iperf_env s t \<longleftrightarrow> iperf_private t = iperf_private s"

definition iperf_past_first :: "IperfFsmState \<Rightarrow> bool" where
  "iperf_past_first st \<longleftrightarrow> st \<in> {COMPUTE_NECESSARY_SPACE, SPACE_RESPONSE, SEND_PACKET, REQUEST_SPACE, CLOSE_CONN, CLOSE_CONN1}"

definition iperf_inv :: "IperfClient \<Rightarrow> bool" where
  "iperf_inv s \<longleftrightarrow> \<not> ic_stop_watch_end_reg s \<and> ic_stop_watch_end s = [] \<and>
     (ic_fsm_state s = INIT_RUN \<longrightarrow> ic_cur_connection_id s = 0) \<and>
     (iperf_past_first (ic_fsm_state s) \<longrightarrow> ic_num_connections_reg s = 1)"

lemmas iperf_step_defs = iperf_wait_user_start_def iperf_init_con_def iperf_wait_con_def iperf_error_opening_def
  iperf_req_write_first_def iperf_init_run_def iperf_compute_def iperf_space_response_def iperf_send_packet_def
  iperf_request_space_def iperf_close_conn_def iperf_close_conn1_def iperf_trans_req_def iperf_request_ahead_def

lemma iperf_inv_fsm: "iperf_inv s \<Longrightarrow> iperf_inv (iperf_fsm u v tdest s)"
  by (cases "ic_fsm_state s")
    (auto simp: iperf_inv_def iperf_fsm_def iperf_step_defs iperf_past_first_def Let_def split: list.splits prod.splits)

interpretation iperf: hls_process "\<lambda>s. s = iperf_client_init" iperf_env "IperfClient u v tdest" iperf_inv for u v tdest
proof
  fix s t
  show "s = iperf_client_init \<Longrightarrow> iperf_inv s"
    by (simp add: iperf_inv_def iperf_client_init_def iperf_past_first_def)
  have p: "iperf_inv (iperf_private s) = iperf_inv s" for s by (simp add: iperf_inv_def iperf_private_def)
  show "iperf_inv s \<Longrightarrow> iperf_env s t \<Longrightarrow> iperf_inv t" using p [of s] p [of t] by (simp add: iperf_env_def)
  have "iperf_inv s \<Longrightarrow> iperf_inv (iperf_write_regs s)" by (simp add: iperf_inv_def iperf_write_regs_def)
  then show "iperf_inv s \<Longrightarrow> iperf_inv (IperfClient u v tdest s)"
    using iperf_inv_fsm [of "iperf_write_regs s" u v tdest] by (simp add: IperfClient_def iperf_registers_def iperf_inv_def)
qed
text \<open>C39: An experiment with several connections never gets past its first messages.  Sending the first requests and reading
  the answers share one counter of connections: \<open>INIT_RUN\<close> is entered with the counter 0 and counts to 1, so it
  is satisfied only by an experiment with one connection, and otherwise goes back to \<open>REQ_WRITE_FIRST\<close>, which starts it again.
  In every run without the signal of the stop watch, whatever the user and the engine do, the client computes, sends or closes
  only in an experiment with exactly one connection.\<close>

theorem iperf_several_connections_never_run:
  assumes "reaches (\<lambda>s. s = iperf_client_init) iperf_env (IperfClient u v tdest) s"
    and "iperf_past_first (ic_fsm_state s)"
  shows "ic_num_connections_reg s = 1"
  using iperf.reaches_inv [OF assms(1)] assms(2) by (simp add: iperf_inv_def)

section \<open>One connection\<close>

text \<open>The words of a packet.\<close>

definition iperf_kept :: "IperfClient \<Rightarrow> IperfClient \<Rightarrow> bool" where
  "iperf_kept s t \<longleftrightarrow> ic_use_timer_reg t = ic_use_timer_reg s \<and> ic_packet_mss_reg t = ic_packet_mss_reg s \<and>
     ic_bytes_already_sent t = ic_bytes_already_sent s \<and> ic_net_app_trans_data_req t = ic_net_app_trans_data_req s \<and>
     ic_stop_watch_end t = ic_stop_watch_end s \<and> ic_stop_watch_end_reg t = ic_stop_watch_end_reg s"

lemmas iperf_cycle_defs = IperfClient_def iperf_fsm_def iperf_write_regs_def iperf_registers_def

lemma iperf_sends_words:
  assumes "ic_fsm_state s = SEND_PACKET" and "\<not> ic_use_timer_reg s" and "\<not> ic_stop_watch_end_reg s" "ic_stop_watch_end s = []"
    and "unat (ic_transactions s - ic_word_sent_cnt s) = j" and "ic_last_transfer_keep s = mask k" and "k \<in> {1..64}"
  shows "\<exists>ws. let t = (IperfClient u v tdest ^^ Suc j) s in
     ic_fsm_state t = COMPUTE_NECESSARY_SPACE \<and> iperf_kept s t \<and> ic_net_app_trans_data t = ic_net_app_trans_data s @ ws \<and>
     is_packet ws \<and> length (packet_bytes ws) = 64 * j + k"
  using assms
proof (induction j arbitrary: s)
  case 0
  have len: "length (word_bytes w) = k" if "nw_keep w = mask k" for w
    using that 0 mask_lanes [of w k] by simp
  have cnt: "ic_word_sent_cnt s = ic_transactions s" using 0 by (simp add: unat_eq_0)
  let ?w = "iperf_word (iperf_write_regs s)"
  have w: "nw_keep ?w = mask k" "nw_last ?w" using 0 cnt by (simp_all add: iperf_word_def iperf_write_regs_def Let_def)
  then have "is_packet [?w]" using 0 by (auto simp: is_packet_def)
  moreover have "length (packet_bytes [?w]) = k" using len w by simp
  ultimately show ?case using 0 cnt
    by (intro exI [of _ "[?w]"]) (simp add: iperf_cycle_defs iperf_send_packet_def iperf_request_ahead_def iperf_kept_def Let_def)
next
  case (Suc j)
  let ?t = "IperfClient u v tdest s" and ?w = "iperf_word (iperf_write_regs s)"
  have cnt: "ic_word_sent_cnt s \<noteq> ic_transactions s" using Suc.prems(5) by auto
  have "ic_transactions s - (ic_word_sent_cnt s + 1) = (ic_transactions s - ic_word_sent_cnt s) - 1" by simp
  then have j: "unat (ic_transactions s - (ic_word_sent_cnt s + 1)) = j"
    using Suc.prems(5) by (metis diff_Suc_1 nat.simps(3) unat_eq_zero unat_minus_one)
  have t: "ic_fsm_state ?t = SEND_PACKET" "\<not> ic_use_timer_reg ?t" "\<not> ic_stop_watch_end_reg ?t" "ic_stop_watch_end ?t = []"
      "ic_transactions ?t = ic_transactions s" "ic_word_sent_cnt ?t = ic_word_sent_cnt s + 1"
      "ic_last_transfer_keep ?t = mask k" "ic_net_app_trans_data ?t = ic_net_app_trans_data s @ [?w]" "iperf_kept s ?t"
    using Suc.prems cnt by (simp_all add: iperf_cycle_defs iperf_send_packet_def iperf_request_ahead_def iperf_kept_def Let_def)
  obtain ws where ws: "let t = (IperfClient u v tdest ^^ Suc j) ?t in
     ic_fsm_state t = COMPUTE_NECESSARY_SPACE \<and> iperf_kept ?t t \<and> ic_net_app_trans_data t = ic_net_app_trans_data ?t @ ws \<and>
     is_packet ws \<and> length (packet_bytes ws) = 64 * j + k"
    using Suc.IH [of ?t] t j Suc.prems(7) by auto
  have w: "nw_keep ?w = - 1" "\<not> nw_last ?w" using cnt by (simp_all add: iperf_word_def iperf_write_regs_def Let_def)
  have "length (word_bytes ?w) = 64" using w(1) mask_lanes [of ?w 64] by (simp add: mask_eq_exp_minus_1)
  then have "is_packet (?w # ws)" "length (packet_bytes (?w # ws)) = 64 * Suc j + k"
    using w ws by (simp_all add: is_packet_Cons Let_def) (auto simp: is_packet_def)
  moreover have "(IperfClient u v tdest ^^ Suc (Suc j)) s = (IperfClient u v tdest ^^ Suc j) ?t" by (rule funpow_Suc_apply)
  ultimately show ?case
    using ws t(8,9) by (intro exI [of _ "?w # ws"]) (simp add: Let_def iperf_kept_def del: funpow.simps)
qed
text \<open>The sizes of a packet of \<open>mss\<close> bytes.\<close>

lemma iperf_sizes:
  assumes "(mss :: 16 word) \<noteq> 0"
  defines "b \<equiv> get_range 0 mss :: 6 word" and "hi \<equiv> get_range 6 mss :: 10 word"
  shows "\<exists>k \<in> {1..64}. DataLengthToAxisKeep b = mask k \<and> 64 * unat ((if b = 0 then hi else hi + 1) - 1) + k = unat mss"
proof -
  have b: "unat b = unat mss mod 64"
    by (simp add: b_def unat_get_range)
  have hi: "unat hi = unat mss div 64"
  proof -
    have "unat mss < 2 ^ LENGTH(16)" by (rule unsigned_less)
    then have "unat mss div 64 < 1024" by simp
    then show ?thesis by (simp add: hi_def unat_get_range)
  qed
  have mss: "64 * unat hi + unat b = unat mss" unfolding b hi by simp
  show ?thesis
  proof (cases "b = 0")
    case True
    then have "hi \<noteq> 0" using mss assms(1) by (auto simp: unat_eq_0)
    then have "unat (hi - 1) = unat hi - 1" "0 < unat hi" by (simp_all add: unat_minus_one unat_gt_0)
    moreover have "DataLengthToAxisKeep b = mask 64" using True keep_table_nth [of 0]
      by (simp add: DataLengthToAxisKeep_def mask_eq_exp_minus_1)
    ultimately show ?thesis using True mss by (intro bexI [of _ 64]) auto
  next
    case False
    moreover have "unat b < 64" using b by simp
    moreover have "0 < unat b" using False by (simp only: unat_gt_0 not_False_eq_True)
    moreover have "DataLengthToAxisKeep b = mask (unat b)"
      using calculation keep_table_nth [of "unat b"] by (simp add: DataLengthToAxisKeep_def)
    ultimately show ?thesis using mss by (intro bexI [of _ "unat b"]) auto
  qed
qed

text \<open>The cycles before a packet, one by one.\<close>

definition iperf_ok :: "AppTransDataRsp \<Rightarrow> bool" where
  "iperf_ok rsp \<longleftrightarrow> tp_error (tr_data rsp) = NO_ERROR"

definition iperf_single :: "16 word \<Rightarrow> 16 word \<Rightarrow> IperfClient \<Rightarrow> bool" where
  "iperf_single mss sid s \<longleftrightarrow> ic_num_connections_reg s = 1 \<and> ic_cur_connection_id s = 0 \<and> ic_sessions_id s 0 = sid \<and>
     ic_packet_mss_reg s = mss \<and> \<not> ic_use_timer_reg s \<and> \<not> ic_stop_watch_end_reg s \<and> ic_stop_watch_end s = []"

lemma iperf_first_request:
  assumes "iperf_single mss sid s" and "ic_fsm_state s = REQ_WRITE_FIRST"
  shows "let t = IperfClient u v tdest s in
     iperf_single mss sid t \<and> ic_fsm_state t = INIT_RUN \<and> ic_net_app_trans_data_rsp t = ic_net_app_trans_data_rsp s \<and>
     ic_net_app_trans_data t = ic_net_app_trans_data s \<and> iperf_first_word tdest t = iperf_first_word tdest s \<and>
     ic_net_app_trans_data_req t = ic_net_app_trans_data_req s @ [\<lparr>tq_data = 24, tq_id = sid, tq_dest = tdest\<rparr>]"
  using assms by (simp add: iperf_single_def iperf_cycle_defs iperf_req_write_first_def iperf_trans_req_def iperf_first_word_def Let_def)

lemma iperf_first_message:
  assumes "iperf_single mss sid s" and "ic_fsm_state s = INIT_RUN" and "ic_net_app_trans_data_rsp s = rsp # rsps" and "iperf_ok rsp"
  shows "let t = IperfClient u v tdest s in
     iperf_single mss sid t \<and> ic_fsm_state t = COMPUTE_NECESSARY_SPACE \<and> ic_net_app_trans_data_rsp t = rsps \<and>
     ic_bytes_already_sent t = 0 \<and> ic_net_app_trans_data t = ic_net_app_trans_data s @ [iperf_first_word tdest s] \<and>
     ic_net_app_trans_data_req t = ic_net_app_trans_data_req s"
  using assms by (simp add: iperf_single_def iperf_cycle_defs iperf_init_run_def iperf_first_word_def iperf_ok_def Let_def)

definition iperf_words :: "16 word \<Rightarrow> 10 word" where
  "iperf_words mss = (if (get_range 0 mss :: 6 word) = 0 then get_range 6 mss else get_range 6 mss + 1)"

lemma iperf_packet_request:
  assumes "iperf_single mss sid s" and "ic_fsm_state s = COMPUTE_NECESSARY_SPACE" and "ic_bytes_already_sent s = 0" and "mss \<noteq> 0"
  shows "let t = IperfClient u v tdest s in
     iperf_single mss sid t \<and> ic_fsm_state t = SPACE_RESPONSE \<and> ic_net_app_trans_data_rsp t = ic_net_app_trans_data_rsp s \<and>
     ic_bytes_already_sent t = 0 \<and> ic_transaction_length t = mss \<and> ic_transactions t = iperf_words mss \<and>
     ic_bytes_last_word t = get_range 0 mss \<and> ic_net_app_trans_data t = ic_net_app_trans_data s \<and>
     ic_net_app_trans_data_req t = ic_net_app_trans_data_req s @ [\<lparr>tq_data = ucast mss, tq_id = sid, tq_dest = tdest\<rparr>]"
proof -
  have r: "iperf_remaining (iperf_write_regs s) = ucast mss"
    using assms by (simp add: iperf_remaining_def iperf_single_def iperf_write_regs_def)
  have "unat mss < 2 ^ LENGTH(16)" by (rule unsigned_less)
  then have "unat (ucast mss :: 32 word) = unat mss" by (simp add: unsigned_ucast_eq take_bit_nat_eq_self)
  then have pos: "0 < (ucast mss :: 32 word)" using assms(4) by (simp add: word_less_nat_alt unat_gt_0)
  have size: "iperf_packet_size (iperf_write_regs s) = (get_range 0 mss, iperf_words mss, ucast mss)"
    using assms(1) r by (simp add: iperf_packet_size_def iperf_single_def iperf_write_regs_def iperf_words_def Let_def)
  have c: "iperf_compute v tdest (iperf_write_regs s) = (iperf_trans_req tdest (ucast mss) (iperf_write_regs s))
       \<lparr>ic_bytes_last_word := get_range 0 mss, ic_transactions := iperf_words mss, ic_cur_connection_id := 0,
        ic_fsm_state := SPACE_RESPONSE, ic_transaction_length := ucast (ucast mss :: TcpSessionBuffer), ic_word_sent_cnt := 1\<rparr>"
    by (simp add: iperf_compute_def r pos size)
  have same: "ucast (ucast mss :: TcpSessionBuffer) = mss" by (rule bit_word_eqI) (simp add: bit_simps)
  have "IperfClient u v tdest s = iperf_registers (iperf_compute v tdest (iperf_write_regs s))"
    using assms(2) by (simp add: IperfClient_def iperf_fsm_def iperf_write_regs_def)
  then show ?thesis
    unfolding c using assms(1,3) by (simp add: iperf_single_def iperf_registers_def iperf_write_regs_def iperf_trans_req_def same Let_def)
qed

lemma iperf_packet_granted:
  assumes "iperf_single mss sid s" and "ic_fsm_state s = SPACE_RESPONSE" and "ic_net_app_trans_data_rsp s = rsp # rsps" and "iperf_ok rsp"
  shows "let t = IperfClient u v tdest s in
     iperf_single mss sid t \<and> ic_fsm_state t = SEND_PACKET \<and> ic_net_app_trans_data_rsp t = rsps \<and>
     ic_bytes_already_sent t = ic_bytes_already_sent s + ucast (ic_transaction_length s) \<and> ic_transactions t = ic_transactions s \<and>
     ic_word_sent_cnt t = 1 \<and> ic_last_transfer_keep t = DataLengthToAxisKeep (ic_bytes_last_word s) \<and>
     ic_net_app_trans_data t = ic_net_app_trans_data s \<and> ic_net_app_trans_data_req t = ic_net_app_trans_data_req s"
  using assms by (simp add: iperf_single_def iperf_cycle_defs iperf_space_response_def iperf_ok_def Let_def)

lemma iperf_packet_end:
  assumes "ic_fsm_state s = COMPUTE_NECESSARY_SPACE" and "\<not> ic_use_timer_reg s" and "ic_bytes_already_sent s = ucast (ic_packet_mss_reg s)"
  shows "let t = IperfClient u v tdest s in
     ic_fsm_state t = CLOSE_CONN \<and> ic_net_app_trans_data t = ic_net_app_trans_data s \<and> ic_net_app_trans_data_req t = ic_net_app_trans_data_req s"
  using assms by (simp add: iperf_cycle_defs iperf_compute_def iperf_remaining_def Let_def)

text \<open>C20: An experiment with one connection and no timer sends one packet of \<open>packet_mss\<close> bytes, whatever
  \<open>transfer_size\<close> says.  What remains is computed from the size of a packet, not of the transfer.  If both its requests are granted, the
  client sends the first message, asks for \<open>packet_mss\<close> bytes, sends exactly that many in one packet, and goes
  on to close the connection.\<close>

theorem iperf_sends_one_packet:
  assumes "ic_fsm_state s = REQ_WRITE_FIRST" and "iperf_single mss sid s" and "mss \<noteq> 0"
    and "ic_net_app_trans_data_rsp s = ok1 # ok2 # rsps" and "iperf_ok ok1" and "iperf_ok ok2"
  shows "\<exists>n packet. let t = (IperfClient u v tdest ^^ n) s in
     ic_fsm_state t = CLOSE_CONN \<and>
     ic_net_app_trans_data t = ic_net_app_trans_data s @ iperf_first_word tdest s # packet \<and>
     is_packet packet \<and> length (packet_bytes packet) = unat mss \<and>
     ic_net_app_trans_data_req t = ic_net_app_trans_data_req s @
       [\<lparr>tq_data = 24, tq_id = sid, tq_dest = tdest\<rparr>, \<lparr>tq_data = ucast mss, tq_id = sid, tq_dest = tdest\<rparr>]"
proof -
  let ?c = "IperfClient u v tdest"
  define a where "a = ?c s"
  define b where "b = ?c a"
  define d where "d = ?c b"
  define e where "e = ?c d"
  note a = iperf_first_request [OF assms(2,1), of u v tdest, folded a_def, unfolded Let_def]
  have b: "iperf_single mss sid b \<and> ic_fsm_state b = COMPUTE_NECESSARY_SPACE \<and> ic_net_app_trans_data_rsp b = ok2 # rsps \<and>
     ic_bytes_already_sent b = 0 \<and> ic_net_app_trans_data b = ic_net_app_trans_data s @ [iperf_first_word tdest s] \<and>
     ic_net_app_trans_data_req b = ic_net_app_trans_data_req a"
    using iperf_first_message [of mss sid a ok1 "ok2 # rsps" u v tdest] a assms(4,5) by (simp add: b_def Let_def)
  have d: "iperf_single mss sid d \<and> ic_fsm_state d = SPACE_RESPONSE \<and> ic_net_app_trans_data_rsp d = ok2 # rsps \<and>
     ic_bytes_already_sent d = 0 \<and> ic_transaction_length d = mss \<and> ic_transactions d = iperf_words mss \<and>
     ic_bytes_last_word d = get_range 0 mss \<and> ic_net_app_trans_data d = ic_net_app_trans_data b \<and>
     ic_net_app_trans_data_req d = ic_net_app_trans_data_req b @ [\<lparr>tq_data = ucast mss, tq_id = sid, tq_dest = tdest\<rparr>]"
    using iperf_packet_request [of mss sid b u v tdest] b assms(3) by (simp add: d_def Let_def)
  have e: "iperf_single mss sid e \<and> ic_fsm_state e = SEND_PACKET \<and> ic_bytes_already_sent e = ucast mss \<and>
     ic_transactions e = iperf_words mss \<and> ic_word_sent_cnt e = 1 \<and> ic_last_transfer_keep e = DataLengthToAxisKeep (get_range 0 mss) \<and>
     ic_net_app_trans_data e = ic_net_app_trans_data d \<and> ic_net_app_trans_data_req e = ic_net_app_trans_data_req d"
    using iperf_packet_granted [of mss sid d ok2 rsps u v tdest] d assms(6) by (simp add: e_def Let_def)
  obtain k where k: "k \<in> {1..64}" "DataLengthToAxisKeep (get_range 0 mss) = mask k" "64 * unat (iperf_words mss - 1) + k = unat mss"
    using iperf_sizes [OF assms(3)] unfolding iperf_words_def by blast
  obtain ws where ws: "let t = (?c ^^ Suc (unat (iperf_words mss - 1))) e in
     ic_fsm_state t = COMPUTE_NECESSARY_SPACE \<and> iperf_kept e t \<and> ic_net_app_trans_data t = ic_net_app_trans_data e @ ws \<and>
     is_packet ws \<and> length (packet_bytes ws) = 64 * unat (iperf_words mss - 1) + k"
    using iperf_sends_words [of e "unat (iperf_words mss - 1)" k u v tdest] e k(1,2) by (auto simp: iperf_single_def)
  let ?t = "(?c ^^ Suc (unat (iperf_words mss - 1))) e"
  have "ic_fsm_state (?c ?t) = CLOSE_CONN \<and> ic_net_app_trans_data (?c ?t) = ic_net_app_trans_data ?t \<and>
      ic_net_app_trans_data_req (?c ?t) = ic_net_app_trans_data_req ?t"
    using iperf_packet_end [of ?t u v tdest] ws e by (simp add: Let_def iperf_kept_def iperf_single_def del: funpow.simps)
  moreover have "e = (?c ^^ 4) s" by (simp add: e_def d_def b_def a_def eval_nat_numeral)
  then have "(?c ^^ (Suc (Suc (unat (iperf_words mss - 1))) + 4)) s = ?c ?t" by (simp only: funpow_add o_apply funpow.simps)
  ultimately show ?thesis
    using ws a b d e k(3)
    by (intro exI [of _ "Suc (Suc (unat (iperf_words mss - 1))) + 4"] exI [of _ ws]) (simp add: Let_def iperf_kept_def del: funpow.simps)
qed

text \<open>An experiment that asks for a transfer of 1000000 bytes, in packets of 1460.\<close>

definition iperf_demo :: IperfClient where
  "iperf_demo = iperf_client_init
     \<lparr>ic_fsm_state := REQ_WRITE_FIRST, ic_num_connections_reg := 1, ic_transfer_size_reg := 1000000, ic_packet_mss_reg := 1460,
      ic_net_app_trans_data_rsp := replicate 2 \<lparr>tr_data = \<lparr>tp_error = NO_ERROR, tp_remaining_space = 9000, tp_length = 0\<rparr>, tr_dest = 0\<rparr>\<rparr>"

theorem iperf_sends_one_packet_witness:
  "\<exists>n packet. let t = (IperfClient 0 0 3 ^^ n) iperf_demo in
     ic_fsm_state t = CLOSE_CONN \<and> length (packet_bytes packet) = 1460 \<and>
     ic_net_app_trans_data t = iperf_first_word 3 iperf_demo # packet"
proof -
  let ?ok = "\<lparr>tr_data = \<lparr>tp_error = NO_ERROR, tp_remaining_space = 9000, tp_length = 0\<rparr>, tr_dest = 0\<rparr>"
  have d: "ic_fsm_state iperf_demo = REQ_WRITE_FIRST" "iperf_single 1460 0 iperf_demo" "iperf_ok ?ok"
    "ic_net_app_trans_data_rsp iperf_demo = [?ok, ?ok]" "ic_net_app_trans_data iperf_demo = []"
    by (simp_all add: iperf_demo_def iperf_client_init_def iperf_single_def iperf_ok_def numeral_2_eq_2)
  obtain n packet where "let t = (IperfClient 0 0 3 ^^ n) iperf_demo in
     ic_fsm_state t = CLOSE_CONN \<and>
     ic_net_app_trans_data t = ic_net_app_trans_data iperf_demo @ iperf_first_word 3 iperf_demo # packet \<and>
     is_packet packet \<and> length (packet_bytes packet) = unat (1460 :: 16 word) \<and>
     ic_net_app_trans_data_req t = ic_net_app_trans_data_req iperf_demo @
       [\<lparr>tq_data = 24, tq_id = 0, tq_dest = 3\<rparr>, \<lparr>tq_data = ucast (1460 :: 16 word), tq_id = 0, tq_dest = 3\<rparr>]"
    using iperf_sends_one_packet [OF d(1,2) _ d(4,3,3), of 0 0 3] by auto
  then show ?thesis by (intro exI [of _ n] exI [of _ packet]) (simp add: d(5) Let_def)
qed

text \<open>The user starts an experiment with one connection, and the engine answers everything: the client gets through.\<close>

definition iperf_inputs :: "IperfRegs \<Rightarrow> AppOpenConnRsp list \<Rightarrow> AppTransDataRsp list \<Rightarrow> IperfClient \<Rightarrow> IperfClient" where
  "iperf_inputs regs opened granted s =
     s\<lparr>ic_settings_regs := regs, ic_net_app_open_conn_rsp := opened, ic_net_app_trans_data_rsp := granted\<rparr>"

theorem iperf_several_connections_never_run_witness:
  "\<exists>s. iperf_past_first (ic_fsm_state s) \<and> reaches (\<lambda>s. s = iperf_client_init) iperf_env (IperfClient 0 0 3) s \<and>
     ic_num_connections_reg s = 1"
proof -
  let ?c = "IperfClient 0 0 3" and ?R = "reaches (\<lambda>s. s = iperf_client_init) iperf_env (IperfClient 0 0 3)"
  let ?regs = "iperf_regs_init\<lparr>ir_run_experiment := True, ir_num_connections := 1, ir_packet_mss := 1460\<rparr>"
  let ?open = "[\<lparr>or_data = \<lparr>oc_session_id = 5, oc_success = True\<rparr>, or_dest = 3\<rparr>]"
  let ?ok = "[\<lparr>tr_data = \<lparr>tp_error = NO_ERROR, tp_remaining_space = 9000, tp_length = 0\<rparr>, tr_dest = 3\<rparr>]"
  have env: "?R s \<Longrightarrow> ?R (iperf_inputs regs opened granted s)" for s regs opened granted
    by (rule reaches_env [of _ _ _ s]) (simp_all add: iperf_env_def iperf_private_def iperf_inputs_def)
  let ?s = "?c (?c (?c (?c (iperf_inputs ?regs ?open ?ok (?c iperf_client_init)))))"
  have r: "?R ?s" by (intro reaches_cycle env reaches_ini) simp
  have "ic_fsm_state ?s = COMPUTE_NECESSARY_SPACE"
    by (simp add: iperf_cycle_defs iperf_step_defs iperf_client_init_def iperf_inputs_def iperf_regs_init_def Let_def)
  then have "iperf_past_first (ic_fsm_state ?s)" by (simp add: iperf_past_first_def)
  then show ?thesis using r iperf_several_connections_never_run [OF r] by blast
qed

end
