(* ===== verification/Spec2Isabelle.thy ===== *)
theory Spec2Isabelle
  imports Toe_Sessions Hash_Table Icmp_Server Arp_Server Echo_Server Iperf2
begin

text \<open>
  A model of the TCP offload engine under \<open>src/hls\<close>, a dataflow design for high-level synthesis, of the modules
  around it and of its applications, with the theorems that make the parts correct and those that show where they are not.

  \<^bold>\<open>The program.\<close>  The engine is a set of processes that are connected by FIFO streams and share
  nothing else.  \<open>rx_engine\<close> takes IP packets apart, verifies them, looks up their session and runs the
  receive side of the TCP state machine; \<open>tx_engine\<close> turns events into segments.  Both, the two
  application interfaces (\<open>rx_app_intf\<close>, \<open>tx_app_intf\<close>) and the timers work on tables that are
  processes of their own: \<open>state_table\<close> (the state of every session, under locks), \<open>rx_sar_table\<close> and
  \<open>tx_sar_table\<close> (the sliding windows), \<open>port_table\<close> and \<open>session_lookup_controller\<close> (ports and session IDs).
  Events for the transmit engine pass \<open>event_engine\<close> and \<open>ack_delay\<close>.  The session buffers are in
  external memory behind data movers (\<open>memory_access.hpp\<close>), the session IDs in a hash table (\<open>hash_table.cpp\<close>) outside
  the engine.  \<open>toe_top\<close> connects the processes.  In front of the engine \<open>packet_handler\<close> sorts the frames of the network, for
  \<open>icmp_server\<close> and \<open>arp_server\<close> too, and behind it \<open>ethernet_header_inserter\<close> asks \<open>arp_server\<close> for the hardware address of
  every packet; \<open>echo_server\<close> and \<open>iperf2\<close> are applications.

  \<^bold>\<open>How it is modelled.\<close>  One call of an HLS process is one function on a record that holds the static
  variables of the process and its streams.  A stream is the list of the words in flight: \<open>read\<close>
  takes the head, \<open>write\<close> appends, \<open>empty\<close> asks for \<open>[]\<close>.  The answer of \<open>full\<close>, where the code
  asks for it, is a field of the record that the environment may set in every cycle, or in \<open>toe_top\<close> the number
  of words in the FIFO against its depth.  A wrapper is the composition of its processes in the order in which the source calls
  them; before a process runs, what has been written to its input FIFOs is moved to it.  \<open>ap_uint<W>\<close> is
  \<open>W word\<close>, so an assignment wraps as in the code; a comparison of unassigned sums, which the C++ types
  compute without loss, is one of numbers.  A local that the code may read before it is written is
  a parameter of the definition (often \<open>u\<close> or \<open>v\<close>), so the theorems hold for every value.  \<open>NetAXISWord\<close> stands for
  \<open>NetAXIS\<close> too, whose other members no process reads.  A member that a
  constructor leaves unset is 0; no process reads one.  Runs of a process in an environment that
  appends to its input streams and takes from its outputs are \<open>reaches\<close> (Prelude).

  \<^bold>\<open>Configuration.\<close>  \<open>MULTI_IP_ADDR\<close> set, \<open>TCP_NODELAY\<close> clear, \<open>TCP_RX_DDR_BYPASS\<close> clear, as in
  \<open>toe_config.hpp\<close>.  Where \<open>__SYNTHESIS__\<close> chooses between the times of the hardware and those of the
  simulation, the definition has an argument of type \<open>build\<close> and the theorems hold for both.

  \<^bold>\<open>Theories.\<close>
  \<^item> \<open>Prelude\<close>: streams, runs (\<open>reaches\<close>), invariants, the locale \<open>projection\<close>, words read as numbers.
  \<^item> \<open>Toe_Types\<close>, \<open>App_Types\<close>, \<open>Tcp_Header\<close>: structs, enums, constructors and constants of
    \<open>toe_conn.hpp\<close>, \<open>toe_config.hpp\<close>, \<open>axi_intf.hpp\<close>, \<open>tcp_header.hpp\<close>.
  \<^item> \<open>Axi_Utils\<close>, \<open>Realign\<close>: \<open>axi_utils.cpp\<close> and \<open>toe_utils.hpp\<close>, in terms of the bytes of the words; the
    locale for processes that cut a header off a packet.
  \<^item> \<open>State_Table\<close>: \<open>state_table.cpp\<close>, refined to an atomic table with a lock per client.
  \<^item> \<open>Sar_Tables\<close>: \<open>rx_sar_table.cpp\<close>, \<open>tx_sar_table.cpp\<close>; windows, and the replay of the
    updates that the transmit interface receives.
  \<^item> \<open>Port_Table\<close>: \<open>port_table.cpp\<close>; order of the answers, uniqueness of ports.
  \<^item> \<open>Session_Lookup\<close>: \<open>session_lookup_controller.cpp\<close> over the locale \<open>cam\<close>, interpreted on
    \<open>mock_cam.hpp\<close>; uniqueness of the IDs.
  \<^item> \<open>Round_Robin\<close>, \<open>Timers\<close>, \<open>Event_Path\<close>: the three timers and their wrapper, \<open>event_engine.cpp\<close>,
    \<open>ack_delay.cpp\<close>; the locale of a table of counters gives the cycle at which each expires.
  \<^item> \<open>Memory_Access\<close>, \<open>Memory_Data\<close>: \<open>memory_access.hpp\<close>; commands that wrap at the end of a buffer, and the
    data that is cut and joined accordingly.
  \<^item> \<open>Checksum\<close>: the checksum processes, equal to RFC 1071.
  \<^item> \<open>Lock_Step\<close>, \<open>Rx_App_Intf\<close>: the handlers that serve one request at a time; \<open>rx_app_intf.cpp\<close>.
  \<^item> \<open>Rx_Packet\<close>, \<open>Rx_Options\<close>, \<open>Rx_Meta\<close>, \<open>Rx_Fsm\<close>, \<open>Rx_Fsm_Props\<close>, \<open>Rx_Engine\<close>: the processes of
    \<open>rx_engine.cpp\<close> in their order, and their composition.
  \<^item> \<open>Write_Status\<close>: the contract of a process that waits for memory writes; interpreted on the
    notification handler of the receive engine and on the response handler of the transmit interface.
  \<^item> \<open>Tx_App_Intf\<close>, \<open>Tx_App_Props\<close>: \<open>tx_app_intf.cpp\<close>; one write pointer per session, and answers that say what
    has been done.
  \<^item> \<open>Tx_Header\<close>, \<open>Tx_Packet\<close>, \<open>Tx_Fsm\<close>, \<open>Tx_Fsm_Props\<close>, \<open>Tx_Retransmit\<close>, \<open>Tx_Wire\<close>, \<open>Tx_Engine\<close>: the processes of
    \<open>tx_engine.cpp\<close>: the headers and checksums of a segment, what every event sends, what a receiver makes of it, and the
    composition.
  \<^item> \<open>Toe\<close>, \<open>Toe_Sessions\<close>: \<open>toe.cpp\<close>, the composition of the engine, and what it does to the state of a session: the
    locks of the state table and the protocols of its clients together make every change a step of the TCP state diagram.
  \<^item> \<open>Hash_Table\<close>: \<open>hash_table.cpp\<close>, refined to a map.
  \<^item> \<open>Packet_Handler\<close>, \<open>Ethernet_Header\<close>, \<open>Icmp_Server\<close>, \<open>Arp_Server\<close>: the modules around the engine, each with a theorem
    on whole frames; inserter and handler, and two ARP servers, also as sender and receiver.
  \<^item> \<open>Echo_Server\<close>, \<open>Iperf2\<close>: the applications under \<open>net_app\<close>.

  \<^bold>\<open>Bounds.\<close>  No definition has fuel: a call of a process is a finite function, and a number of calls is
  \<open>f ^^ n\<close>.  Where a theorem says that something is done, it states the number of calls.

  \<^bold>\<open>Not modelled.\<close>  The logger and the output operators, which do not act on the streams; the depths of FIFOs that no
  process asks for; the header classes of \<open>ipv4.hpp\<close> and \<open>packet.hpp\<close>, which nothing uses; the generator of the tabulation table;
  the mocks except the CAM, the test benches and their packet capture utilities, the host programs of the echo server, the
  Verilog of \<open>cmac\<close>.
\<close>

end
